(* ===== verification/LQ_Prelude.thy ===== *)
theory LQ_Prelude
  imports Main "HOL-Library.Word" "HOL-Library.AList" "HOL-Library.Code_Target_Nat"
begin

text \<open>
  Shared vocabulary of the development: names for Rust's machine types, the result type of
  fallible code with its question-mark composition, slices, big-endian numbers, saturating
  arithmetic, hash maps as association lists and hash sets as duplicate-free lists, the search
  loop "return the only match, or nothing when there are two", and runs of a state machine with
  the induction principle every invariant proof uses.
\<close>

unbundle bit_operations_syntax

section \<open>Machine types and results\<close>

type_synonym u8 = "8 word"
type_synonym u16 = "16 word"
type_synonym u32 = "32 word"
type_synonym u64 = "64 word"
type_synonym u128 = "128 word"
type_synonym i64 = int
type_synonym usize = nat

type_synonym ('a, 'e) result = "'e + 'a"

abbreviation Ok :: "'a \<Rightarrow> ('a, 'e) result" where
  "Ok \<equiv> Inr"

abbreviation Err :: "'e \<Rightarrow> ('a, 'e) result" where
  "Err \<equiv> Inl"

text \<open>Rust's \<open>?\<close> operator: continue with the value, or return the error.\<close>

definition and_then :: "('a, 'e) result \<Rightarrow> ('a \<Rightarrow> ('b, 'e) result) \<Rightarrow> ('b, 'e) result" where
  "and_then r f = (case r of Inl e \<Rightarrow> Inl e | Inr x \<Rightarrow> f x)"

definition map_err :: "('e \<Rightarrow> 'f) \<Rightarrow> ('a, 'e) result \<Rightarrow> ('a, 'f) result" where
  "map_err f r = (case r of Inl e \<Rightarrow> Inl (f e) | Inr x \<Rightarrow> Inr x)"

definition ok :: "('a, 'e) result \<Rightarrow> 'a option" where
  "ok r = (case r of Inl e \<Rightarrow> None | Inr x \<Rightarrow> Some x)"

definition or_opt :: "'a option \<Rightarrow> 'a option \<Rightarrow> 'a option" where
  "or_opt a b = (case a of None \<Rightarrow> b | Some x \<Rightarrow> Some x)"

definition filter_opt :: "('a \<Rightarrow> bool) \<Rightarrow> 'a option \<Rightarrow> 'a option" where
  "filter_opt P a = (case a of None \<Rightarrow> None | Some x \<Rightarrow> if P x then Some x else None)"

section \<open>Slices and big-endian numbers\<close>

text \<open>\<open>xs[i..i + ys.len()].copy_from_slice(ys)\<close>, for a range inside \<open>xs\<close>.\<close>

definition copy_at :: "nat \<Rightarrow> 'a list \<Rightarrow> 'a list \<Rightarrow> 'a list" where
  "copy_at i ys xs = take i xs @ ys @ drop (i + length ys) xs"

definition u16_from_be_bytes :: "u8 \<Rightarrow> u8 \<Rightarrow> u16" where
  "u16_from_be_bytes a b = word_of_nat (256 * unat a + unat b)"

definition u16_to_be_bytes :: "u16 \<Rightarrow> u8 list" where
  "u16_to_be_bytes w = [word_of_nat (unat w div 256), word_of_nat (unat w mod 256)]"

text \<open>A big-endian byte string as a number; the width is that of the result type.\<close>

fun be_nat :: "u8 list \<Rightarrow> nat" where
  "be_nat [] = 0"
| "be_nat (b # bs) = unat b * 256 ^ length bs + be_nat bs"

text \<open>The \<open>n\<close> low bytes of a number, most significant first.\<close>

fun be_bytes :: "nat \<Rightarrow> nat \<Rightarrow> u8 list" where
  "be_bytes 0 v = []"
| "be_bytes (Suc n) v = word_of_nat (v div 256 ^ n mod 256) # be_bytes n (v mod 256 ^ n)"

section \<open>Saturating arithmetic\<close>

definition saturating_add :: "'a::len word \<Rightarrow> 'a word \<Rightarrow> 'a word" where
  "saturating_add a b = (if unat a + unat b < 2 ^ LENGTH('a) then a + b else - 1)"

definition saturating_mul :: "'a::len word \<Rightarrow> 'a word \<Rightarrow> 'a word" where
  "saturating_mul a b = (if unat a * unat b < 2 ^ LENGTH('a) then a * b else - 1)"

definition saturating_sub :: "'a::len word \<Rightarrow> 'a word \<Rightarrow> 'a word" where
  "saturating_sub a b = (if b \<le> a then a - b else 0)"

section \<open>Sequences without duplicates, unique matches\<close>

definition push_unique :: "'a \<Rightarrow> 'a list \<Rightarrow> 'a list" where
  "push_unique x xs = (if x \<in> set xs then xs else xs @ [x])"

text \<open>
  The loop \<open>let mut found = None; for x in xs { if !P(x) { continue } if found.is_some()
  { return None } found = Some(x) } found\<close>.
\<close>

fun unique_match_loop :: "('a \<Rightarrow> bool) \<Rightarrow> 'a option \<Rightarrow> 'a list \<Rightarrow> 'a option" where
  "unique_match_loop P found [] = found"
| "unique_match_loop P found (x # xs) =
     (if \<not> P x then unique_match_loop P found xs
      else if found \<noteq> None then None
      else unique_match_loop P (Some x) xs)"

definition unique_match :: "('a \<Rightarrow> bool) \<Rightarrow> 'a list \<Rightarrow> 'a option" where
  "unique_match P xs = unique_match_loop P None xs"

section \<open>Lemma collections and generic lemmas\<close>

named_theorems result_simps \<open>results, options and the question-mark operator\<close>
named_theorems byte_simps \<open>bytes and big-endian numbers\<close>
named_theorems store_simps \<open>association lists read back as maps\<close>

lemma and_then_simps [simp, result_simps]:
  "and_then (Inl e) f = Inl e"
  "and_then (Inr x) f = f x"
  by (simp_all add: and_then_def)

lemma and_then_eq_Inr [result_simps]:
  "and_then r f = Inr y \<longleftrightarrow> (\<exists>x. r = Inr x \<and> f x = Inr y)"
  by (cases r) simp_all

lemma map_err_simps [simp, result_simps]:
  "map_err f (Inl e) = Inl (f e)"
  "map_err f (Inr x) = Inr x"
  by (simp_all add: map_err_def)

lemma map_err_eq_Inr [result_simps]: "map_err f r = Inr y \<longleftrightarrow> r = Inr y"
  by (cases r) simp_all

lemma ok_simps [simp, result_simps]: "ok (Inl e) = None" "ok (Inr x) = Some x"
  by (simp_all add: ok_def)

lemma or_opt_simps [simp, result_simps]: "or_opt None b = b" "or_opt (Some x) b = Some x"
  by (simp_all add: or_opt_def)

lemma or_opt_None_iff [simp]: "or_opt a b = None \<longleftrightarrow> a = None \<and> b = None"
  by (cases a) simp_all

lemma filter_opt_simps [simp, result_simps]:
  "filter_opt P None = None"
  "filter_opt P (Some x) = (if P x then Some x else None)"
  by (simp_all add: filter_opt_def)

lemma filter_opt_eq_Some [result_simps]:
  "filter_opt P a = Some x \<longleftrightarrow> a = Some x \<and> P x"
  by (cases a) auto

lemma ok_and_then_unit:
  "ok (and_then r (\<lambda>_. Inr v)) = (if r = Inr () then Some v else None)"
  by (cases r) simp_all

lemma map_option_ident' [simp]: "map_option (\<lambda>x. x) a = a"
  by (cases a) simp_all

lemma if_Some_iff: "(if P then Some x else None) = Some y \<longleftrightarrow> P \<and> x = y"
  by simp

lemma length_copy_at [simp]:
  "i + length ys \<le> length xs \<Longrightarrow> length (copy_at i ys xs) = length xs"
  by (simp add: copy_at_def)

lemma take_drop_join: "i \<le> n \<Longrightarrow> take i xs @ drop i (take n xs) = take n xs"
  by (metis append_take_drop_id min.absorb1 take_take)

lemma ex_split_Cons:
  "(\<exists>pre x post. y # ys = pre @ x # post \<and> P pre x post)
    \<longleftrightarrow> P [] y ys \<or> (\<exists>pre x post. ys = pre @ x # post \<and> P (y # pre) x post)"
  by (auto simp: Cons_eq_append_conv)

lemma in_set_other_index:
  "b \<in> set (take i xs) \<union> set (drop (Suc i) xs) \<Longrightarrow> \<exists>j < length xs. j \<noteq> i \<and> b = xs ! j"
proof -
  assume "b \<in> set (take i xs) \<union> set (drop (Suc i) xs)"
  then consider "b \<in> set (take i xs)" | "b \<in> set (drop (Suc i) xs)" by blast
  then show ?thesis
  proof cases
    case 1
    then show ?thesis by (auto simp: in_set_conv_nth)
  next
    case 2
    then obtain k where "k < length (drop (Suc i) xs)" "b = drop (Suc i) xs ! k"
      by (auto simp: in_set_conv_nth)
    then show ?thesis by (intro exI [of _ "Suc i + k"]) auto
  qed
qed

lemma unat_u8_less [simp, byte_simps]: "unat (b :: u8) < 256"
  using unsigned_less [of b] by simp

lemma unat_u8_le [simp, byte_simps]: "unat (b :: u8) \<le> 255"
  using unat_u8_less [of b] by linarith

lemma unat_u16_less [simp, byte_simps]: "unat (w :: u16) < 65536"
  using unsigned_less [of w] by simp

lemma unat_u64_less: "unat (w :: u64) < 2 ^ 64"
  using unsigned_less [of w] by simp

lemma unat_word_of_nat_u8 [byte_simps]: "n < 256 \<Longrightarrow> unat (word_of_nat n :: u8) = n"
  by (simp add: unat_of_nat take_bit_nat_eq_self_iff)

lemma unat_word_of_nat_u16 [byte_simps]: "n < 65536 \<Longrightarrow> unat (word_of_nat n :: u16) = n"
  by (simp add: unat_of_nat take_bit_nat_eq_self_iff)

lemma word_of_nat_unat_u8 [simp, byte_simps]: "(word_of_nat (unat (b :: u8)) :: u8) = b"
  by simp

lemma unat_u16_from_be_bytes [simp, byte_simps]:
  "unat (u16_from_be_bytes a b) = 256 * unat a + unat b"
proof -
  have "unat a \<le> 255" and "unat b \<le> 255" by simp_all
  then have "256 * unat a + unat b < 65536" by linarith
  then show ?thesis unfolding u16_from_be_bytes_def by (rule unat_word_of_nat_u16)
qed

lemma u16_to_be_bytes_from:
  "u16_to_be_bytes (u16_from_be_bytes a b) = [a, b]"
  by (simp add: u16_to_be_bytes_def)

lemma u16_from_to_be_bytes [byte_simps]:
  "n < 65536 \<Longrightarrow> u16_to_be_bytes (word_of_nat n) = [a, b] \<Longrightarrow> unat (u16_from_be_bytes a b) = n"
  by (auto simp: u16_to_be_bytes_def byte_simps)

lemma length_u16_to_be_bytes [simp]: "length (u16_to_be_bytes w) = 2"
  by (simp add: u16_to_be_bytes_def)

lemma length_be_bytes [simp]: "length (be_bytes n v) = n"
  by (induction n arbitrary: v) simp_all

lemma be_nat_less: "be_nat bs < 256 ^ length bs"
proof (induction bs)
  case Nil
  then show ?case by simp
next
  case (Cons b bs)
  have "unat b * 256 ^ length bs + be_nat bs < (unat b + 1) * 256 ^ length bs"
    using Cons.IH by (simp add: distrib_right)
  also have "\<dots> \<le> 256 * 256 ^ length bs"
    using unat_u8_le [of b] by (intro mult_right_mono) linarith+
  finally show ?case by simp
qed

lemma be_nat_append: "be_nat (xs @ ys) = be_nat xs * 256 ^ length ys + be_nat ys"
  by (induction xs) (simp_all add: power_add algebra_simps)

lemma be_nat_eq_0: "be_nat bs = 0 \<longleftrightarrow> list_all (\<lambda>b. b = 0) bs"
  by (induction bs) (auto simp: unat_eq_zero)

lemma be_nat_mod:
  assumes "2 ^ k dvd (256 :: nat)"
  shows "be_nat (xs @ [b]) mod 2 ^ k = unat b mod 2 ^ k"
  using assms by (simp add: be_nat_append mod_add_left_eq [symmetric] dvd_imp_mod_0)

text \<open>A big-endian number is a multiple of a power of two when its low bytes and bits are 0.\<close>

lemma mod_mult_block:
  fixes a s K y :: nat
  assumes "y < K" and "0 < s"
  shows "(a * K + y) mod (s * K) = 0 \<longleftrightarrow> a mod s = 0 \<and> y = 0"
proof -
  have "(a * K + y) mod (s * K) = K * ((a * K + y) div K mod s) + (a * K + y) mod K"
    by (simp only: mod_mult2_eq mult.commute [of s K])
  also have "\<dots> = K * (a mod s) + y" using assms by simp
  finally show ?thesis using assms by simp
qed

lemma be_nat_be_bytes: "v < 256 ^ n \<Longrightarrow> be_nat (be_bytes n v) = v"
proof (induction n arbitrary: v)
  case 0
  then show ?case by simp
next
  case (Suc n)
  have "v div 256 ^ n < 256" using Suc.prems by (simp add: less_mult_imp_div_less mult.commute)
  moreover have "be_nat (be_bytes n (v mod 256 ^ n)) = v mod 256 ^ n"
    by (rule Suc.IH) simp
  ultimately show ?case
    by (simp add: byte_simps div_mult_mod_eq)
qed

lemma be_bytes_be_nat: "be_bytes (length bs) (be_nat bs) = bs"
proof (induction bs)
  case Nil
  then show ?case by simp
next
  case (Cons b bs)
  have lt: "be_nat bs < 256 ^ length bs" by (rule be_nat_less)
  then have "(unat b * 256 ^ length bs + be_nat bs) div 256 ^ length bs = unat b"
    by simp
  with lt Cons.IH show ?case by simp
qed

lemma be_nat_inject: "length bs = length cs \<Longrightarrow> be_nat bs = be_nat cs \<Longrightarrow> bs = cs"
  by (metis be_bytes_be_nat)

lemma unat_saturating_add:
  "unat (saturating_add a (b :: 'a::len word)) = min (unat a + unat b) (2 ^ LENGTH('a) - 1)"
proof (cases "unat a + unat b < 2 ^ LENGTH('a)")
  case True
  then show ?thesis
    by (simp add: saturating_add_def unat_word_ariths)
next
  case False
  have "unat (- 1 :: 'a word) = 2 ^ LENGTH('a) - 1"
    by (simp add: unsigned_minus_1_eq_mask mask_eq_exp_minus_1)
  with False show ?thesis by (simp add: saturating_add_def)
qed

lemma unat_saturating_mul:
  "unat (saturating_mul a (b :: 'a::len word)) = min (unat a * unat b) (2 ^ LENGTH('a) - 1)"
proof (cases "unat a * unat b < 2 ^ LENGTH('a)")
  case True
  then show ?thesis
    by (simp add: saturating_mul_def unat_word_ariths)
next
  case False
  have "unat (- 1 :: 'a word) = 2 ^ LENGTH('a) - 1"
    by (simp add: unsigned_minus_1_eq_mask mask_eq_exp_minus_1)
  with False show ?thesis by (simp add: saturating_mul_def)
qed

lemma unat_saturating_sub:
  "unat (saturating_sub a (b :: 'a::len word)) = unat a - unat b"
proof (cases "b \<le> a")
  case True
  then show ?thesis by (simp add: saturating_sub_def unat_sub)
next
  case False
  then have "unat a \<le> unat b" by (simp add: word_le_nat_alt)
  with False show ?thesis by (simp add: saturating_sub_def)
qed

lemma set_push_unique [simp]: "set (push_unique x xs) = insert x (set xs)"
  by (auto simp: push_unique_def)

lemma distinct_push_unique [simp]: "distinct (push_unique x xs) \<longleftrightarrow> distinct xs"
  by (auto simp: push_unique_def)

lemma unique_match_loop_Some:
  "unique_match_loop P (Some y) xs = (if filter P xs = [] then Some y else None)"
  by (induction xs) simp_all

lemma unique_match_loop_None:
  "unique_match_loop P None xs = (case filter P xs of [x] \<Rightarrow> Some x | _ \<Rightarrow> None)"
  by (induction xs) (auto simp: unique_match_loop_Some split: list.splits)

lemma unique_match_eq:
  "unique_match P xs = (case filter P xs of [x] \<Rightarrow> Some x | _ \<Rightarrow> None)"
  by (simp add: unique_match_def unique_match_loop_None)

lemma unique_match_Some_iff:
  "unique_match P xs = Some x \<longleftrightarrow> filter P xs = [x]"
  by (auto simp: unique_match_eq split: list.splits)

lemma unique_match_SomeD:
  "unique_match P xs = Some x \<Longrightarrow> x \<in> set xs \<and> P x"
  by (metis filter_eq_Cons_iff in_set_conv_decomp unique_match_Some_iff)

text \<open>
  The order in which a hash set is iterated does not matter for the unique match: two
  duplicate-free enumerations of sets that contain the same matches give the same answer.
\<close>

lemma filter_singleton_iff:
  "distinct xs \<Longrightarrow> filter P xs = [x] \<longleftrightarrow> {y \<in> set xs. P y} = {x}"
proof
  assume d: "distinct xs" and eq: "{y \<in> set xs. P y} = {x}"
  have s: "set (filter P xs) = {x}" using eq by auto
  moreover have "distinct (filter P xs)" using d by simp
  ultimately have "length (filter P xs) = Suc 0" by (metis distinct_card is_singletonI is_singleton_altdef One_nat_def)
  with s show "filter P xs = [x]" by (cases "filter P xs") auto
next
  assume "filter P xs = [x]"
  then have "set (filter P xs) = {x}" by simp
  then show "{y \<in> set xs. P y} = {x}" by auto
qed

lemma unique_match_cong:
  assumes "distinct xs" and "distinct ys"
    and "{x \<in> set xs. P x} = {y \<in> set ys. Q y}"
  shows "unique_match P xs = unique_match Q ys"
proof -
  have "unique_match P xs = Some x \<longleftrightarrow> unique_match Q ys = Some x" for x
    by (simp add: unique_match_Some_iff filter_singleton_iff assms)
  then show ?thesis by (metis not_Some_eq)
qed

lemmas [store_simps] = update_conv' delete_conv'

text \<open>An association list with at most one entry per key, which is what a map is.\<close>

definition distinct_keys :: "('k \<times> 'v) list \<Rightarrow> bool" where
  "distinct_keys kvs \<longleftrightarrow> distinct (map fst kvs)"

lemma distinct_keys_simps [simp]:
  "distinct_keys []"
  "distinct_keys kvs \<Longrightarrow> distinct_keys (AList.update k v kvs)"
  "distinct_keys kvs \<Longrightarrow> distinct_keys (AList.delete k kvs)"
  by (simp_all add: distinct_keys_def distinct_update distinct_delete)

lemma foldl_update_lookup:
  "map_of (foldl (\<lambda>m k. AList.update k (f k) m) w ks) k = (if k \<in> set ks then Some (f k) else map_of w k)"
  by (induction ks arbitrary: w) (auto simp: update_conv')

text \<open>Collecting pairs into a map: the last pair of a key wins.\<close>

definition collect_map :: "('k \<times> 'v) list \<Rightarrow> ('k \<times> 'v) list" where
  "collect_map kvs = foldl (\<lambda>m (k, v). AList.update k v m) [] kvs"

lemma collect_map_distinct: "distinct (map fst (collect_map kvs))"
proof -
  have "distinct (map fst w) \<Longrightarrow> distinct (map fst (foldl (\<lambda>m (k, v). AList.update k v m) w kvs))" for w
    by (induction kvs arbitrary: w) (auto simp: distinct_update)
  then show ?thesis by (simp add: collect_map_def)
qed

lemma collect_map_id: "distinct (map fst kvs) \<Longrightarrow> collect_map kvs = kvs"
proof -
  have "distinct (map fst (w @ kvs)) \<Longrightarrow> foldl (\<lambda>m (k, v). AList.update k v m) w kvs = w @ kvs" for w
  proof (induction kvs arbitrary: w)
    case (Cons kv kvs)
    obtain k v where kv: "kv = (k, v)" by (cases kv)
    have "k \<notin> fst ` set w" using Cons.prems kv by auto
    then have "AList.update k v w = w @ [(k, v)]" by (induction w) auto
    with Cons.IH [of "w @ [(k, v)]"] Cons.prems kv show ?case by simp
  qed simp
  then show "distinct (map fst kvs) \<Longrightarrow> collect_map kvs = kvs" by (simp add: collect_map_def)
qed

lemma keys_collect_map: "fst ` set (collect_map kvs) = fst ` set kvs"
proof -
  have "dom (map_of (foldl (\<lambda>m (k, v). AList.update k v m) w kvs)) = dom (map_of w) \<union> fst ` set kvs" for w
    by (induction kvs arbitrary: w) (auto simp: update_conv' split: if_splits)
  from this [of "[]"] show ?thesis by (simp add: collect_map_def dom_map_of_conv_image_fst)
qed

lemma map_of_collect_map: "map_of (collect_map kvs) = map_of (rev kvs)"
proof -
  have "map_of (foldl (\<lambda>m (k, v). AList.update k v m) w kvs) = map_of w ++ map_of (rev kvs)" for w
    by (induction kvs arbitrary: w) (auto simp: update_conv' map_add_def fun_eq_iff split: option.splits)
  from this [of "[]"] show ?thesis by (simp add: collect_map_def)
qed

lemma collect_map_subset: "set (collect_map kvs) \<subseteq> set kvs"
proof -
  have "set (foldl (\<lambda>m (k, v). AList.update k v m) acc kvs) \<subseteq> set acc \<union> set kvs" for acc
  proof (induction kvs arbitrary: acc)
    case (Cons kv kvs)
    obtain k v where kv: "kv = (k, v)" by (cases kv)
    have "set (AList.update k v acc) \<subseteq> insert (k, v) (set acc)"
      by (induction acc) auto
    with Cons [of "AList.update k v acc"] show ?case by (auto simp: kv)
  qed simp
  from this [of "[]"] show ?thesis by (simp add: collect_map_def)
qed

lemma set_map_filter: "set (List.map_filter f xs) = {y. \<exists>x \<in> set xs. f x = Some y}"
  by (induction xs) (auto simp: List.map_filter_simps split: option.splits)

lemma map_of_map_filter:
  assumes "distinct_keys kvs"
  shows "map_of (List.map_filter (\<lambda>(k, v). map_option (Pair k) (f k v)) kvs) k
    = Option.bind (map_of kvs k) (f k)"
  using assms
proof (induction kvs)
  case (Cons kv kvs)
  obtain k' v where kv: "kv = (k', v)" by (cases kv)
  have "map_of kvs k' = None" using Cons.prems by (auto simp: distinct_keys_def kv map_of_eq_None_iff)
  moreover have "distinct_keys kvs" using Cons.prems by (simp add: distinct_keys_def)
  ultimately show ?case
    using Cons.IH by (auto simp: kv List.map_filter_simps split: option.splits)
qed (simp add: List.map_filter_simps)

text \<open>Equally many distinct keys of which one side's are all on the other are the same keys.\<close>

lemma same_keys:
  assumes "distinct_keys xs" and "distinct_keys ys" and "length xs = length ys"
    and "dom (map_of xs) \<subseteq> dom (map_of ys)"
  shows "dom (map_of xs) = dom (map_of ys)"
proof (rule card_subset_eq)
  show "card (dom (map_of xs)) = card (dom (map_of ys))"
    using assms(1-3) unfolding distinct_keys_def dom_map_of_conv_image_fst
    by (metis distinct_card length_map list.set_map)
qed (simp_all add: assms(4) finite_dom_map_of)

lemma keys_length:
  assumes "distinct_keys xs" and "distinct_keys ys" and "dom (map_of xs) = dom (map_of ys)"
  shows "length xs = length ys"
  using assms unfolding distinct_keys_def dom_map_of_conv_image_fst
  by (metis distinct_card length_map list.set_map)

section \<open>Runs of a state machine\<close>

text \<open>
  A component is a step function on its state; a run folds it over a list of inputs. Every
  invariant of a component is proved for one step and lifted here.
\<close>

locale stepper =
  fixes step :: "'s \<Rightarrow> 'i \<Rightarrow> 's" and inv :: "'s \<Rightarrow> bool"
  assumes step_inv: "inv s \<Longrightarrow> inv (step s i)"
begin

lemma run_inv: "inv s \<Longrightarrow> inv (foldl step s is)"
  by (induction "is" arbitrary: s) (simp_all add: step_inv)

end

end
