(* ===== verification/Radius_Packet.thy ===== *)
theory Radius_Packet
  imports LQ_Prelude
begin

text \<open>
  RADIUS packet framing, Accounting-Request verification and response building
  (\<open>lqos_radius/src/packet.rs\<close>). The MD5 digest and the HMAC-MD5 of the \<open>md5\<close> and
  \<open>hmac\<close> crates are arguments of the definitions that call them; what the theorems need of
  them is that they return 16 bytes.
\<close>

section \<open>Data\<close>

abbreviation (input) RADIUS_HEADER_LEN :: nat where "RADIUS_HEADER_LEN \<equiv> 20"
abbreviation (input) RADIUS_MAX_PACKET_LEN :: nat where "RADIUS_MAX_PACKET_LEN \<equiv> 4096"
abbreviation (input) RADIUS_MAX_ACCOUNTING_PACKET_LEN :: nat
  where "RADIUS_MAX_ACCOUNTING_PACKET_LEN \<equiv> 4095"
abbreviation (input) RADIUS_AUTHENTICATOR_LEN :: nat where "RADIUS_AUTHENTICATOR_LEN \<equiv> 16"
abbreviation (input) RADIUS_ATTRIBUTE_HEADER_LEN :: nat where "RADIUS_ATTRIBUTE_HEADER_LEN \<equiv> 2"
abbreviation (input) RADIUS_MIN_ATTRIBUTE_LEN :: nat where "RADIUS_MIN_ATTRIBUTE_LEN \<equiv> 2"
abbreviation (input) ACCOUNTING_REQUEST_CODE :: u8 where "ACCOUNTING_REQUEST_CODE \<equiv> 4"
abbreviation (input) ACCOUNTING_RESPONSE_CODE :: u8 where "ACCOUNTING_RESPONSE_CODE \<equiv> 5"
abbreviation (input) PROXY_STATE_TYPE :: u8 where "PROXY_STATE_TYPE \<equiv> 33"
abbreviation (input) MESSAGE_AUTHENTICATOR_TYPE :: u8 where "MESSAGE_AUTHENTICATOR_TYPE \<equiv> 80"
abbreviation (input) MESSAGE_AUTHENTICATOR_VALUE_LEN :: nat
  where "MESSAGE_AUTHENTICATOR_VALUE_LEN \<equiv> 16"

datatype RadiusCode =
    AccessRequest
  | AccessAccept
  | AccessReject
  | AccountingRequestCode
  | AccountingResponseCode
  | OtherCode u8

fun RadiusCode_as_u8 :: "RadiusCode \<Rightarrow> u8" where
  "RadiusCode_as_u8 AccessRequest = 1"
| "RadiusCode_as_u8 AccessAccept = 2"
| "RadiusCode_as_u8 AccessReject = 3"
| "RadiusCode_as_u8 AccountingRequestCode = ACCOUNTING_REQUEST_CODE"
| "RadiusCode_as_u8 AccountingResponseCode = ACCOUNTING_RESPONSE_CODE"
| "RadiusCode_as_u8 (OtherCode c) = c"

definition RadiusCode_from :: "u8 \<Rightarrow> RadiusCode" where
  "RadiusCode_from c =
     (if c = 1 then AccessRequest
      else if c = 2 then AccessAccept
      else if c = 3 then AccessReject
      else if c = ACCOUNTING_REQUEST_CODE then AccountingRequestCode
      else if c = ACCOUNTING_RESPONSE_CODE then AccountingResponseCode
      else OtherCode c)"

record RadiusAttribute =
  ra_kind :: u8
  ra_value :: "u8 list"

record RadiusPacket =
  rp_code :: RadiusCode
  rp_identifier :: u8
  rp_authenticator :: "u8 list"
  rp_attributes :: "RadiusAttribute list"

record AccountingRequest =
  ar_packet :: RadiusPacket

datatype MessageAuthenticatorPolicy = Optional | Required

definition requires_message_authenticator :: "MessageAuthenticatorPolicy \<Rightarrow> bool" where
  "requires_message_authenticator p = (p = Required)"

record VerifiedAccountingRequest =
  var_request :: AccountingRequest
  var_has_message_authenticator :: bool

definition var_packet :: "VerifiedAccountingRequest \<Rightarrow> RadiusPacket" where
  "var_packet r = ar_packet (var_request r)"

datatype PacketError =
    PacketTooShort nat
  | InvalidPacketLength nat
  | InvalidAccountingPacketLength nat
  | PacketTruncated nat nat
  | AttributeHeaderTruncated nat
  | InvalidAttributeLength nat nat
  | AttributeTruncated nat nat nat
  | UnsupportedCode u8
  | InvalidRequestAuthenticator
  | MissingMessageAuthenticator
  | InvalidMessageAuthenticatorLength nat
  | MultipleMessageAuthenticators
  | InvalidMessageAuthenticator

datatype RadiusTlvError =
    TlvHeaderTruncated
  | TlvInvalidLength nat
  | TlvTruncated nat

section \<open>Splitting and parsing\<close>

definition split_radius_tlv :: "u8 list \<Rightarrow> (u8 \<times> u8 list \<times> u8 list, RadiusTlvError) result" where
  "split_radius_tlv value =
     (if length value < RADIUS_ATTRIBUTE_HEADER_LEN then Err TlvHeaderTruncated
      else
        let kind = value ! 0;
            declared_len = unat (value ! 1)
        in if declared_len < RADIUS_MIN_ATTRIBUTE_LEN then Err (TlvInvalidLength declared_len)
           else if declared_len > length value then Err (TlvTruncated declared_len)
           else Ok (kind, drop RADIUS_ATTRIBUTE_HEADER_LEN (take declared_len value),
                    drop declared_len value))"

fun packet_error_from_tlv_split :: "RadiusTlvError \<Rightarrow> nat \<Rightarrow> nat \<Rightarrow> PacketError" where
  "packet_error_from_tlv_split TlvHeaderTruncated offset remaining =
     AttributeHeaderTruncated offset"
| "packet_error_from_tlv_split (TlvInvalidLength declared_len) offset remaining =
     InvalidAttributeLength offset declared_len"
| "packet_error_from_tlv_split (TlvTruncated declared_len) offset remaining =
     AttributeTruncated offset declared_len remaining"

lemma split_radius_tlv_remaining:
  "split_radius_tlv bs = Inr (k, v, rest) \<Longrightarrow> length rest < length bs"
  by (auto simp: split_radius_tlv_def Let_def split: if_splits)

text \<open>The loop of \<open>parse_attributes\<close>: its three mutable variables are the arguments.\<close>

function parse_attributes_loop ::
  "u8 list \<Rightarrow> nat \<Rightarrow> RadiusAttribute list \<Rightarrow> (RadiusAttribute list, PacketError) result" where
  "parse_attributes_loop attribute_bytes offset attributes =
     (if attribute_bytes = [] then Ok attributes
      else case map_err (\<lambda>e. packet_error_from_tlv_split e offset (length attribute_bytes))
                  (split_radius_tlv attribute_bytes) of
             Inl e \<Rightarrow> Err e
           | Inr (kind, value, remaining) \<Rightarrow>
               let declared_len = length attribute_bytes - length remaining
               in parse_attributes_loop remaining (offset + declared_len)
                    (attributes @ [\<lparr>ra_kind = kind, ra_value = value\<rparr>]))"
  by pat_completeness auto
termination
  by (relation "measure (\<lambda>(bs, _, _). length bs)")
     (auto simp: result_simps dest: split_radius_tlv_remaining)

declare parse_attributes_loop.simps [simp del]

definition parse_attributes :: "u8 list \<Rightarrow> (RadiusAttribute list, PacketError) result" where
  "parse_attributes attribute_bytes =
     parse_attributes_loop attribute_bytes RADIUS_HEADER_LEN []"

definition parse_packet :: "u8 list \<Rightarrow> (RadiusPacket, PacketError) result" where
  "parse_packet datagram =
     (if length datagram < RADIUS_HEADER_LEN then Err (PacketTooShort (length datagram))
      else
        let declared_len = unat (u16_from_be_bytes (datagram ! 2) (datagram ! 3))
        in if \<not> (RADIUS_HEADER_LEN \<le> declared_len \<and> declared_len \<le> RADIUS_MAX_PACKET_LEN)
           then Err (InvalidPacketLength declared_len)
           else if length datagram < declared_len
           then Err (PacketTruncated declared_len (length datagram))
           else
             let packet_bytes = take declared_len datagram;
                 authenticator = drop 4 (take RADIUS_HEADER_LEN packet_bytes)
             in and_then (parse_attributes (drop RADIUS_HEADER_LEN packet_bytes))
                  (\<lambda>attributes. Ok
                     \<lparr>rp_code = RadiusCode_from (packet_bytes ! 0),
                      rp_identifier = packet_bytes ! 1,
                      rp_authenticator = authenticator,
                      rp_attributes = attributes\<rparr>))"

definition handle_accounting_request :: "u8 list \<Rightarrow> (AccountingRequest, PacketError) result" where
  "handle_accounting_request datagram =
     and_then (parse_packet datagram) (\<lambda>packet.
       if rp_code packet \<noteq> AccountingRequestCode
       then Err (UnsupportedCode (RadiusCode_as_u8 (rp_code packet)))
       else
         let declared_len = unat (u16_from_be_bytes (datagram ! 2) (datagram ! 3))
         in if declared_len > RADIUS_MAX_ACCOUNTING_PACKET_LEN
            then Err (InvalidAccountingPacketLength declared_len)
            else Ok \<lparr>ar_packet = packet\<rparr>)"

section \<open>Encoding\<close>

definition encode_attribute_value :: "u8 \<Rightarrow> u8 list \<Rightarrow> u8 list" where
  "encode_attribute_value kind value =
     kind # word_of_nat (RADIUS_ATTRIBUTE_HEADER_LEN + length value) # value"

definition encode_attribute :: "RadiusAttribute \<Rightarrow> u8 list" where
  "encode_attribute attribute = encode_attribute_value (ra_kind attribute) (ra_value attribute)"

definition encoded_attribute_len :: "RadiusAttribute \<Rightarrow> nat" where
  "encoded_attribute_len attribute = RADIUS_ATTRIBUTE_HEADER_LEN + length (ra_value attribute)"

text \<open>The attribute loop of \<open>encode_packet\<close>; \<open>index\<close> is the enumeration counter.\<close>

fun encode_attributes_loop :: "nat option \<Rightarrow> nat \<Rightarrow> RadiusAttribute list \<Rightarrow> u8 list" where
  "encode_attributes_loop zero_index index [] = []"
| "encode_attributes_loop zero_index index (attribute # attributes) =
     (if Some index = zero_index
      then encode_attribute_value (ra_kind attribute)
             (replicate MESSAGE_AUTHENTICATOR_VALUE_LEN 0)
      else encode_attribute attribute)
     @ encode_attributes_loop zero_index (Suc index) attributes"

definition encode_packet :: "RadiusPacket \<Rightarrow> u8 list \<Rightarrow> nat option \<Rightarrow> u8 list" where
  "encode_packet packet authenticator zero_message_authenticator_index =
     (let packet_len = RADIUS_HEADER_LEN
            + sum_list (map encoded_attribute_len (rp_attributes packet))
      in [RadiusCode_as_u8 (rp_code packet), rp_identifier packet]
         @ u16_to_be_bytes (word_of_nat packet_len)
         @ authenticator
         @ encode_attributes_loop zero_message_authenticator_index 0 (rp_attributes packet))"

fun encode_proxy_state_attributes :: "RadiusAttribute list \<Rightarrow> u8 list" where
  "encode_proxy_state_attributes [] = []"
| "encode_proxy_state_attributes (attribute # attributes) =
     (if ra_kind attribute \<noteq> PROXY_STATE_TYPE then encode_proxy_state_attributes attributes
      else encode_attribute attribute @ encode_proxy_state_attributes attributes)"

section \<open>Verification and responses\<close>

text \<open>The loop of \<open>message_authenticator_index\<close> with its \<open>found\<close> variable.\<close>

fun message_authenticator_index_loop ::
  "nat \<Rightarrow> nat option \<Rightarrow> RadiusAttribute list \<Rightarrow> (nat option, PacketError) result" where
  "message_authenticator_index_loop index found [] = Ok found"
| "message_authenticator_index_loop index found (attribute # attributes) =
     (if ra_kind attribute \<noteq> MESSAGE_AUTHENTICATOR_TYPE
      then message_authenticator_index_loop (Suc index) found attributes
      else if length (ra_value attribute) \<noteq> MESSAGE_AUTHENTICATOR_VALUE_LEN
      then Err (InvalidMessageAuthenticatorLength (length (ra_value attribute)))
      else if found \<noteq> None then Err MultipleMessageAuthenticators
      else message_authenticator_index_loop (Suc index) (Some index) attributes)"

definition message_authenticator_index :: "RadiusPacket \<Rightarrow> (nat option, PacketError) result" where
  "message_authenticator_index packet =
     message_authenticator_index_loop 0 None (rp_attributes packet)"

type_synonym md5 = "u8 list \<Rightarrow> u8 list"
type_synonym hmac = "u8 list \<Rightarrow> u8 list \<Rightarrow> u8 list"

definition expected_request_authenticator :: "md5 \<Rightarrow> RadiusPacket \<Rightarrow> u8 list \<Rightarrow> u8 list" where
  "expected_request_authenticator md5 packet shared_secret =
     md5 (encode_packet packet (replicate RADIUS_AUTHENTICATOR_LEN 0) None @ shared_secret)"

definition expected_message_authenticator ::
  "hmac \<Rightarrow> RadiusPacket \<Rightarrow> u8 list \<Rightarrow> nat \<Rightarrow> u8 list" where
  "expected_message_authenticator hmac packet shared_secret index =
     hmac shared_secret
       (encode_packet packet (replicate RADIUS_AUTHENTICATOR_LEN 0) (Some index))"

definition verify_request_authenticator ::
  "md5 \<Rightarrow> RadiusPacket \<Rightarrow> u8 list \<Rightarrow> (unit, PacketError) result" where
  "verify_request_authenticator md5 packet shared_secret =
     (if rp_authenticator packet = expected_request_authenticator md5 packet shared_secret
      then Ok () else Err InvalidRequestAuthenticator)"

definition verify_message_authenticator ::
  "hmac \<Rightarrow> RadiusPacket \<Rightarrow> u8 list \<Rightarrow> nat \<Rightarrow> (unit, PacketError) result" where
  "verify_message_authenticator hmac packet shared_secret index =
     (if ra_value (rp_attributes packet ! index)
           = expected_message_authenticator hmac packet shared_secret index
      then Ok () else Err InvalidMessageAuthenticator)"

definition verify_accounting_request ::
  "md5 \<Rightarrow> hmac \<Rightarrow> u8 list \<Rightarrow> u8 list \<Rightarrow> MessageAuthenticatorPolicy
    \<Rightarrow> (VerifiedAccountingRequest, PacketError) result" where
  "verify_accounting_request md5 hmac datagram shared_secret policy =
     and_then (handle_accounting_request datagram) (\<lambda>request.
     and_then (message_authenticator_index (ar_packet request)) (\<lambda>index.
       if requires_message_authenticator policy \<and> index = None
       then Err MissingMessageAuthenticator
       else
         and_then (case index of
                     None \<Rightarrow> Ok ()
                   | Some i \<Rightarrow>
                       verify_message_authenticator hmac (ar_packet request) shared_secret i)
           (\<lambda>_. and_then (verify_request_authenticator md5 (ar_packet request) shared_secret)
             (\<lambda>_. Ok \<lparr>var_request = request, var_has_message_authenticator = index \<noteq> None\<rparr>))))"

definition build_accounting_response ::
  "md5 \<Rightarrow> VerifiedAccountingRequest \<Rightarrow> u8 list \<Rightarrow> u8 list" where
  "build_accounting_response md5 request shared_secret =
     (let response = [ACCOUNTING_RESPONSE_CODE, rp_identifier (var_packet request), 0, 0]
            @ rp_authenticator (var_packet request)
            @ encode_proxy_state_attributes (rp_attributes (var_packet request));
          response_len = length response;
          response = copy_at 2 (u16_to_be_bytes (word_of_nat response_len)) response;
          authenticator = md5 (response @ shared_secret)
      in copy_at 4 authenticator response)"

section \<open>Well-formed packets\<close>

text \<open>
  What the RADIUS framing can carry: attribute values of at most 253 bytes, a 16-byte
  authenticator, a total length of at most 4096 bytes, and a code that is not an alias of an
  enumerated one.
\<close>

definition wf_attribute :: "RadiusAttribute \<Rightarrow> bool" where
  "wf_attribute a = (length (ra_value a) \<le> 253)"

definition wf_code :: "RadiusCode \<Rightarrow> bool" where
  "wf_code c = (RadiusCode_from (RadiusCode_as_u8 c) = c)"

definition packet_len :: "RadiusPacket \<Rightarrow> nat" where
  "packet_len p = RADIUS_HEADER_LEN + sum_list (map encoded_attribute_len (rp_attributes p))"

definition wf_packet :: "RadiusPacket \<Rightarrow> bool" where
  "wf_packet p =
     (wf_code (rp_code p) \<and> length (rp_authenticator p) = RADIUS_AUTHENTICATOR_LEN
      \<and> (\<forall>a \<in> set (rp_attributes p). wf_attribute a)
      \<and> packet_len p \<le> RADIUS_MAX_PACKET_LEN)"


section \<open>The type-length-value codec\<close>

text \<open>
  What the attribute loops need of the splitter: it is the exact inverse of the encoder on the
  values that fit.
\<close>

locale tlv_codec =
  fixes split :: "'b list \<Rightarrow> ('k \<times> 'b list \<times> 'b list, 'e) result"
    and enc :: "'k \<Rightarrow> 'b list \<Rightarrow> 'b list"
    and fits :: "'b list \<Rightarrow> bool"
  assumes split_iff: "split bs = Inr (k, v, rest) \<longleftrightarrow> bs = enc k v @ rest \<and> fits v"
    and enc_nonempty: "enc k v \<noteq> []"
begin

lemma split_enc [simp]: "fits v \<Longrightarrow> split (enc k v @ rest) = Inr (k, v, rest)"
  by (simp add: split_iff)

lemma enc_inject:
  "fits v \<Longrightarrow> fits w \<Longrightarrow> enc k v @ r = enc l w @ s \<longleftrightarrow> k = l \<and> v = w \<and> r = s"
  by (metis Pair_inject split_enc sum.inject(2))

lemma concat_enc_inject:
  "\<forall>(k, v) \<in> set xs. fits v \<Longrightarrow> \<forall>(k, v) \<in> set ys. fits v
    \<Longrightarrow> concat (map (case_prod enc) xs) = concat (map (case_prod enc) ys) \<longleftrightarrow> xs = ys"
proof (induction xs arbitrary: ys)
  case Nil
  then show ?case by (cases ys) (auto simp: enc_nonempty split: prod.splits)
next
  case (Cons x xs)
  show ?case
  proof (cases ys)
    case Nil
    then show ?thesis by (auto simp: enc_nonempty split: prod.splits)
  next
    case (Cons y zs)
    with Cons.prems Cons.IH [of zs] show ?thesis by (cases x; cases y) (simp add: enc_inject)
  qed
qed

end

lemma split_radius_tlv_iff:
  "split_radius_tlv bs = Inr (k, v, rest)
    \<longleftrightarrow> bs = encode_attribute_value k v @ rest \<and> length v \<le> 253"
proof
  assume *: "split_radius_tlv bs = Inr (k, v, rest)"
  then have 2: "\<not> length bs < 2"
    by (auto simp: split_radius_tlv_def)
  then obtain l tl where bs: "bs = k # l # tl"
    using * by (cases bs; cases "tl bs") (auto simp: split_radius_tlv_def Let_def split: if_splits)
  with * have l: "2 \<le> unat l" "unat l \<le> 2 + length tl"
    and v: "v = take (unat l - 2) tl" and rest: "rest = drop (unat l - 2) tl"
    by (auto simp: split_radius_tlv_def Let_def take_Cons' drop_Cons' numeral_2_eq_2
        split: if_splits)
  have len: "length v = unat l - 2" using v l by simp
  have "unat l \<le> 255" by simp
  then have "length v \<le> 253" using len by linarith
  moreover have "word_of_nat (2 + length v) = l" using len l(1) by simp
  ultimately show "bs = encode_attribute_value k v @ rest \<and> length v \<le> 253"
    by (simp add: encode_attribute_value_def bs v rest)
next
  assume *: "bs = encode_attribute_value k v @ rest \<and> length v \<le> 253"
  then have "unat (word_of_nat (2 + length v) :: u8) = 2 + length v"
    by (intro unat_word_of_nat_u8) simp
  with * show "split_radius_tlv bs = Inr (k, v, rest)"
    by (simp add: split_radius_tlv_def encode_attribute_value_def)
qed

interpretation radius_tlv: tlv_codec split_radius_tlv encode_attribute_value "\<lambda>v. length v \<le> 253"
  by unfold_locales (simp_all add: split_radius_tlv_iff, simp add: encode_attribute_value_def)

section \<open>Parsing attributes\<close>

lemma length_encode_attribute [simp]:
  "length (encode_attribute a) = encoded_attribute_len a"
  by (simp add: encode_attribute_def encode_attribute_value_def encoded_attribute_len_def)

lemma encode_attribute_nonempty [simp]: "encode_attribute a \<noteq> []"
  by (simp add: encode_attribute_def encode_attribute_value_def)

lemma length_concat_encode:
  "length (concat (map encode_attribute as)) = sum_list (map encoded_attribute_len as)"
  by (simp add: length_concat comp_def)

lemma split_encode_attribute [simp]:
  "wf_attribute a \<Longrightarrow> split_radius_tlv (encode_attribute a @ rest)
     = Inr (ra_kind a, ra_value a, rest)"
  by (simp add: encode_attribute_def wf_attribute_def)

text \<open>
  The loop stops for one of two reasons: the bytes are used up, or the bytes that remain do not
  start with a complete attribute. Both are stated with what was read before.
\<close>

lemma parse_attributes_loop_prefix:
  "\<forall>a \<in> set as. wf_attribute a
    \<Longrightarrow> parse_attributes_loop (concat (map encode_attribute as) @ rest) offset acc
      = parse_attributes_loop rest (offset + sum_list (map encoded_attribute_len as)) (acc @ as)"
proof (induction as arbitrary: offset acc)
  case Nil
  then show ?case by simp
next
  case (Cons a as)
  then show ?case
    by (subst parse_attributes_loop.simps) (cases a, simp add: Let_def add.assoc)
qed

lemma parse_attributes_loop_inv:
  "\<exists>as rest. bs = concat (map encode_attribute as) @ rest \<and> (\<forall>a \<in> set as. wf_attribute a)
     \<and> (rest = [] \<or> (\<exists>e. split_radius_tlv rest = Inl e))"
proof (induction bs rule: length_induct)
  case (1 bs)
  show ?case
  proof (cases "split_radius_tlv bs")
    case (Inl e)
    then show ?thesis by (intro exI [of _ "[]"] exI [of _ bs]) simp
  next
    case (Inr x)
    then obtain k v tl where kv: "split_radius_tlv bs = Inr (k, v, tl)" by (cases x) auto
    then have "length tl < length bs" by (rule split_radius_tlv_remaining)
    with "1.IH" obtain as rest where *: "tl = concat (map encode_attribute as) @ rest"
      "\<forall>a \<in> set as. wf_attribute a" "rest = [] \<or> (\<exists>e. split_radius_tlv rest = Inl e)"
      by blast
    let ?a = "\<lparr>ra_kind = k, ra_value = v\<rparr>"
    from kv have "bs = encode_attribute ?a @ tl" and "wf_attribute ?a"
      by (simp_all add: split_radius_tlv_iff encode_attribute_def wf_attribute_def)
    with * show ?thesis by (intro exI [of _ "?a # as"]) auto
  qed
qed

lemma parse_attributes_loop_Nil [simp]: "parse_attributes_loop [] offset acc = Inr acc"
  by (subst parse_attributes_loop.simps) simp

lemma parse_attributes_loop_error:
  "split_radius_tlv rest = Inl e \<Longrightarrow> rest \<noteq> []
    \<Longrightarrow> parse_attributes_loop rest offset acc
      = Inl (packet_error_from_tlv_split e offset (length rest))"
  by (subst parse_attributes_loop.simps) simp

lemma parse_attributes_encode [simp]:
  "\<forall>a \<in> set as. wf_attribute a \<Longrightarrow> parse_attributes (concat (map encode_attribute as)) = Inr as"
  using parse_attributes_loop_prefix [of as "[]" 20 "[]"]
  by (simp add: parse_attributes_def)

lemma parse_attributes_iff:
  "parse_attributes bs = Inr as
    \<longleftrightarrow> bs = concat (map encode_attribute as) \<and> (\<forall>a \<in> set as. wf_attribute a)"
proof
  assume *: "parse_attributes bs = Inr as"
  obtain as' rest where bs: "bs = concat (map encode_attribute as') @ rest"
    and wf: "\<forall>a \<in> set as'. wf_attribute a"
    and rest: "rest = [] \<or> (\<exists>e. split_radius_tlv rest = Inl e)"
    using parse_attributes_loop_inv by blast
  have "rest = []"
  proof (rule ccontr)
    assume "rest \<noteq> []"
    with rest obtain e where "split_radius_tlv rest = Inl e" by blast
    with \<open>rest \<noteq> []\<close> have "\<exists>e. parse_attributes bs = Inl e"
      by (simp add: bs parse_attributes_def parse_attributes_loop_prefix wf
          parse_attributes_loop_error)
    with * show False by simp
  qed
  with bs wf * show "bs = concat (map encode_attribute as) \<and> (\<forall>a \<in> set as. wf_attribute a)"
    by simp
qed simp


section \<open>Packets\<close>

abbreviation (input) declared_len :: "u8 list \<Rightarrow> nat" where
  "declared_len d \<equiv> unat (u16_from_be_bytes (d ! 2) (d ! 3))"

lemma RadiusCode_as_u8_from [simp]: "RadiusCode_as_u8 (RadiusCode_from c) = c"
  by (simp add: RadiusCode_from_def)

lemma wf_RadiusCode_from [simp]: "wf_code (RadiusCode_from c)"
  by (simp add: wf_code_def)

lemma encode_attributes_loop_None [simp]:
  "encode_attributes_loop None i as = concat (map encode_attribute as)"
  by (induction as arbitrary: i) simp_all

lemma encode_packet_bytes:
  "encode_packet p auth None
    = [RadiusCode_as_u8 (rp_code p), rp_identifier p,
       word_of_nat (unat (word_of_nat (packet_len p) :: u16) div 256),
       word_of_nat (unat (word_of_nat (packet_len p) :: u16) mod 256)]
      @ auth @ concat (map encode_attribute (rp_attributes p))"
  by (simp add: encode_packet_def packet_len_def u16_to_be_bytes_def Let_def)

lemma wf_packet_len_u16:
  "wf_packet p \<Longrightarrow> unat (word_of_nat (packet_len p) :: u16) = packet_len p"
  by (intro unat_word_of_nat_u16) (simp add: wf_packet_def)

lemma length_encode_packet:
  "length auth = 16 \<Longrightarrow> length (encode_packet p auth None) = packet_len p"
  by (simp add: encode_packet_bytes packet_len_def length_concat comp_def)

lemma parse_packet_encode:
  assumes "wf_packet p"
  shows "parse_packet (encode_packet p (rp_authenticator p) None @ padding) = Inr p"
proof -
  let ?d = "encode_packet p (rp_authenticator p) None @ padding"
  have wf: "wf_code (rp_code p)" "length (rp_authenticator p) = 16"
    "\<forall>a \<in> set (rp_attributes p). wf_attribute a" "packet_len p \<le> 4096" "20 \<le> packet_len p"
    using assms by (simp_all add: wf_packet_def packet_len_def)
  have len: "length (encode_packet p (rp_authenticator p) None) = packet_len p"
    by (simp add: length_encode_packet wf)
  have u: "unat (word_of_nat (packet_len p) :: u16) = packet_len p"
    using assms by (rule wf_packet_len_u16)
  have "packet_len p div 256 < 256" using wf(4) by simp
  then have dl: "declared_len ?d = packet_len p"
    by (simp add: encode_packet_bytes u byte_simps)
  have "take (packet_len p) ?d = encode_packet p (rp_authenticator p) None"
    by (simp add: len)
  with wf len dl show ?thesis
    by (simp add: parse_packet_def encode_packet_bytes wf_code_def)
qed

lemma parse_packet_bytes:
  assumes "parse_packet d = Inr p"
  shows "wf_packet p" and "packet_len p = declared_len d" and "declared_len d \<le> length d"
    and "encode_packet p auth None
      = take 4 d @ auth @ drop 20 (take (declared_len d) d)"
    and "rp_authenticator p = drop 4 (take 20 d)"
proof -
  let ?n = "declared_len d"
  from assms have n: "20 \<le> length d" "20 \<le> ?n" "?n \<le> 4096" "?n \<le> length d"
    and pa: "parse_attributes (drop 20 (take ?n d)) = Inr (rp_attributes p)"
    and code': "rp_code p = RadiusCode_from (take ?n d ! 0)" and ident: "rp_identifier p = d ! 1"
    and auth: "rp_authenticator p = drop 4 (take 20 d)"
    by (auto simp: parse_packet_def Let_def result_simps min_absorb1 split: if_splits)
  have code: "rp_code p = RadiusCode_from (d ! 0)"
    using code' n(2) by (subst (asm) nth_take) linarith+
  have as: "drop 20 (take ?n d) = concat (map encode_attribute (rp_attributes p))"
    and wf: "\<forall>a \<in> set (rp_attributes p). wf_attribute a"
    using pa by (simp_all add: parse_attributes_iff)
  have pl: "packet_len p = ?n"
    using n arg_cong [OF as, of length] by (simp add: packet_len_def length_concat comp_def)
  then show "packet_len p = ?n" "?n \<le> length d" "rp_authenticator p = drop 4 (take 20 d)"
    using n auth by simp_all
  show w: "wf_packet p"
    using n wf pl by (simp add: wf_packet_def code auth)
  have "take 4 d = [d ! 0, d ! 1, d ! 2, d ! 3]"
    using n(1) by (intro nth_equalityI) (auto simp: less_Suc_eq numeral_eq_Suc)
  then show "encode_packet p auth None = take 4 d @ auth @ drop 20 (take ?n d)"
    using wf_packet_len_u16 [OF w] pl as
    by (simp add: encode_packet_bytes code ident)
qed

text \<open>
  C1. The parser accepts a datagram exactly when it is the encoding of a well-formed packet
  followed by arbitrary padding, and then returns that packet: parsing inverts encoding in both
  directions, and no malformed framing is accepted.
\<close>

theorem parse_packet_iff:
  "parse_packet d = Ok p
    \<longleftrightarrow> wf_packet p \<and> (\<exists>padding. d = encode_packet p (rp_authenticator p) None @ padding)"
proof
  assume *: "parse_packet d = Ok p"
  have "20 \<le> packet_len p" by (simp add: packet_len_def)
  with parse_packet_bytes(2,3) [OF *] have n: "20 \<le> declared_len d" "declared_len d \<le> length d"
    by simp_all
  have "encode_packet p (rp_authenticator p) None
      = take 4 d @ drop 4 (take 20 d) @ drop 20 (take (declared_len d) d)"
    using parse_packet_bytes(4) [OF *, of "rp_authenticator p"] parse_packet_bytes(5) [OF *]
    by simp
  also have "\<dots> = take (declared_len d) d"
    using take_drop_join [of 4 20 d] take_drop_join [OF n(1), of d]
    by (simp flip: append_assoc)
  finally have "d = encode_packet p (rp_authenticator p) None @ drop (declared_len d) d"
    by simp
  with parse_packet_bytes(1) [OF *]
  show "wf_packet p \<and> (\<exists>padding. d = encode_packet p (rp_authenticator p) None @ padding)"
    by blast
next
  assume "wf_packet p \<and> (\<exists>padding. d = encode_packet p (rp_authenticator p) None @ padding)"
  then show "parse_packet d = Ok p" by (auto intro: parse_packet_encode)
qed


text \<open>
  Errors of the attribute loop are located: it fails exactly when, after some complete
  attributes, bytes remain that do not start with one; the reported offset is the position of
  that attribute in the packet and the reported remainder the bytes left there.
\<close>

lemma parse_attributes_error_iff:
  "parse_attributes bs = Err err
    \<longleftrightarrow> (\<exists>as rest e. bs = concat (map encode_attribute as) @ rest
          \<and> list_all wf_attribute as \<and> rest \<noteq> [] \<and> split_radius_tlv rest = Inl e
          \<and> err = packet_error_from_tlv_split e (20 + length bs - length rest) (length rest))"
  (is "_ = (\<exists>as rest e. ?R as rest e)")
proof
  assume *: "parse_attributes bs = Err err"
  obtain as rest where bs: "bs = concat (map encode_attribute as) @ rest"
    and wf: "\<forall>a \<in> set as. wf_attribute a"
    and rest: "rest = [] \<or> (\<exists>e. split_radius_tlv rest = Inl e)"
    using parse_attributes_loop_inv by blast
  from bs wf * have ne: "rest \<noteq> []" by auto
  with rest obtain e where e: "split_radius_tlv rest = Inl e" by blast
  have "parse_attributes bs
      = Inl (packet_error_from_tlv_split e (20 + length bs - length rest) (length rest))"
    using ne e wf by (simp add: bs parse_attributes_def parse_attributes_loop_prefix
        parse_attributes_loop_error length_concat comp_def)
  with * have "?R as rest e" using bs wf ne e by (simp add: list_all_iff)
  then show "\<exists>as rest e. ?R as rest e" by blast
next
  assume "\<exists>as rest e. ?R as rest e"
  then show "parse_attributes bs = Err err"
    by (auto simp: parse_attributes_def parse_attributes_loop_prefix parse_attributes_loop_error
        length_concat comp_def list_all_iff)
qed

section \<open>Message-Authenticator\<close>

lemma message_authenticator_index_loop_Some:
  "message_authenticator_index_loop n (Some i) as = Ok r
    \<longleftrightarrow> r = Some i \<and> (\<forall>a \<in> set as. ra_kind a \<noteq> 80)"
  by (induction as arbitrary: n) (auto split: if_splits)

lemma message_authenticator_index_loop_None:
  "message_authenticator_index_loop n None as = Ok r
    \<longleftrightarrow> (case r of
          None \<Rightarrow> \<forall>a \<in> set as. ra_kind a \<noteq> 80
        | Some i \<Rightarrow> \<exists>pre a post. as = pre @ a # post \<and> i = n + length pre \<and> ra_kind a = 80
            \<and> length (ra_value a) = 16 \<and> (\<forall>b \<in> set pre \<union> set post. ra_kind b \<noteq> 80))"
proof (induction as arbitrary: n)
  case Nil
  then show ?case by (auto split: option.splits)
next
  case (Cons a as)
  show ?case
  proof (cases "ra_kind a = 80")
    case True
    then have "(case r of None \<Rightarrow> False | Some i \<Rightarrow> i = n \<and> length (ra_value a) = 16
          \<and> (\<forall>b \<in> set as. ra_kind b \<noteq> 80))
        \<longleftrightarrow> message_authenticator_index_loop n None (a # as) = Ok r"
      by (auto simp: message_authenticator_index_loop_Some split: option.splits)
    with True show ?thesis
      by (cases r) (auto simp: ex_split_Cons)
  next
    case False
    with Cons.IH [of "Suc n"] show ?thesis
      by (cases r) (simp_all add: ex_split_Cons)
  qed
qed

text \<open>
  The Message-Authenticator is found exactly when the packet carries one attribute of type
  80 and its value has 16 bytes; it is reported absent exactly when no attribute has type 80.
\<close>

lemma message_authenticator_index_iff:
  "message_authenticator_index p = Ok r
    \<longleftrightarrow> (case r of
          None \<Rightarrow> list_all (\<lambda>a. ra_kind a \<noteq> 80) (rp_attributes p)
        | Some i \<Rightarrow> i < length (rp_attributes p)
            \<and> length (ra_value (rp_attributes p ! i)) = 16
            \<and> {j. j < length (rp_attributes p) \<and> ra_kind (rp_attributes p ! j) = 80} = {i})"
proof (cases r)
  case None
  then show ?thesis
    by (simp add: message_authenticator_index_def message_authenticator_index_loop_None
        list_all_iff)
next
  case (Some i)
  let ?as = "rp_attributes p"
  have "(\<exists>pre a post. ?as = pre @ a # post \<and> i = length pre \<and> ra_kind a = 80
          \<and> length (ra_value a) = 16 \<and> (\<forall>b \<in> set pre \<union> set post. ra_kind b \<noteq> 80))
    \<longleftrightarrow> i < length ?as \<and> length (ra_value (?as ! i)) = 16
        \<and> {j. j < length ?as \<and> ra_kind (?as ! j) = 80} = {i}" (is "?L \<longleftrightarrow> ?R")
  proof
    assume ?L
    then obtain pre a post where *: "?as = pre @ a # post" "i = length pre" "ra_kind a = 80"
      "length (ra_value a) = 16" "\<forall>b \<in> set pre \<union> set post. ra_kind b \<noteq> 80" by blast
    have "ra_kind (?as ! j) \<noteq> 80" if "j < length ?as" "j \<noteq> i" for j
      using that * by (cases "j < i") (auto simp: nth_append nth_Cons')
    with * show ?R by (auto simp: nth_append)
  next
    assume R: ?R
    have "\<forall>b \<in> set (take i ?as) \<union> set (drop (Suc i) ?as). ra_kind b \<noteq> 80"
    proof
      fix b assume "b \<in> set (take i ?as) \<union> set (drop (Suc i) ?as)"
      then obtain j where "j < length ?as" "j \<noteq> i" "b = ?as ! j"
        using in_set_other_index [of b i ?as] by auto
      with R show "ra_kind b \<noteq> 80" by blast
    qed
    moreover have "?as = take i ?as @ ?as ! i # drop (Suc i) ?as"
      using R by (intro id_take_nth_drop) simp
    moreover have "i = length (take i ?as)" and "ra_kind (?as ! i) = 80"
      using R by auto
    ultimately show ?L using R by blast
  qed
  with Some show ?thesis
    by (simp add: message_authenticator_index_def message_authenticator_index_loop_None)
qed

lemma encode_attributes_loop_Suc:
  "encode_attributes_loop (Some i) (Suc i) as = concat (map encode_attribute as)"
proof -
  have "i < n \<Longrightarrow> encode_attributes_loop (Some i) n as = concat (map encode_attribute as)" for n
    by (induction as arbitrary: n) simp_all
  then show ?thesis by simp
qed

lemma encode_attributes_loop_zero:
  "i < length as \<Longrightarrow> encode_attributes_loop (Some (n + i)) n as
    = concat (map encode_attribute (take i as))
      @ encode_attribute_value (ra_kind (as ! i)) (replicate 16 0)
      @ concat (map encode_attribute (drop (Suc i) as))"
proof (induction as arbitrary: i n)
  case Nil
  then show ?case by simp
next
  case (Cons a as)
  show ?case
  proof (cases i)
    case 0
    then show ?thesis by (simp add: encode_attributes_loop_Suc)
  next
    case (Suc j)
    with Cons.prems Cons.IH [of j "Suc n"] show ?thesis by simp
  qed
qed

text \<open>The position of an attribute's value in the encoded packet.\<close>

definition value_offset :: "RadiusPacket \<Rightarrow> nat \<Rightarrow> nat" where
  "value_offset p i = 22 + sum_list (map encoded_attribute_len (take i (rp_attributes p)))"

lemma encode_packet_zeroed:
  assumes i: "i < length (rp_attributes p)" and 16: "length (ra_value (rp_attributes p ! i)) = 16"
    and auth: "length auth = 16"
  shows "encode_packet p auth (Some i)
    = copy_at (value_offset p i) (replicate 16 0) (encode_packet p auth None)"
proof -
  let ?pre = "take i (rp_attributes p)" and ?a = "rp_attributes p ! i"
    and ?post = "drop (Suc i) (rp_attributes p)"
  have split: "rp_attributes p = ?pre @ ?a # ?post" using i by (simp add: id_take_nth_drop)
  have enc: "concat (map encode_attribute (rp_attributes p))
      = concat (map encode_attribute ?pre) @ encode_attribute ?a
        @ concat (map encode_attribute ?post)"
    by (subst split) simp
  let ?hd = "[RadiusCode_as_u8 (rp_code p), rp_identifier p]
      @ u16_to_be_bytes (word_of_nat (packet_len p)) @ auth
      @ concat (map encode_attribute ?pre) @ [ra_kind ?a, word_of_nat (2 + 16)]"
  have 1: "encode_packet p auth None = ?hd @ ra_value ?a @ concat (map encode_attribute ?post)"
    by (simp add: encode_packet_def packet_len_def enc encode_attribute_def
        encode_attribute_value_def 16)
  have 2: "encode_packet p auth (Some i)
      = ?hd @ replicate 16 0 @ concat (map encode_attribute ?post)"
    using encode_attributes_loop_zero [OF i, of 0]
    by (simp add: encode_packet_def packet_len_def encode_attribute_value_def)
  have "length ?hd = value_offset p i"
    by (simp add: value_offset_def auth length_concat comp_def)
  then show ?thesis unfolding 1 2 copy_at_def by (simp add: 16 del: append_Cons append_assoc)
qed


section \<open>Verification\<close>

lemma handle_accounting_request_iff:
  "handle_accounting_request d = Ok r
    \<longleftrightarrow> parse_packet d = Ok (ar_packet r) \<and> rp_code (ar_packet r) = AccountingRequestCode
        \<and> declared_len d \<le> 4095"
  by (cases r) (auto simp: handle_accounting_request_def result_simps Let_def split: if_splits)

lemma verify_request_authenticator_iff:
  assumes "parse_packet d = Ok p"
  shows "verify_request_authenticator md5 p secret = Ok ()
    \<longleftrightarrow> drop 4 (take 20 d)
        = md5 (take 4 d @ replicate 16 0 @ drop 20 (take (declared_len d) d) @ secret)"
  using parse_packet_bytes(4) [OF assms, of "replicate 16 0"] parse_packet_bytes(5) [OF assms]
  by (simp add: verify_request_authenticator_def expected_request_authenticator_def)

lemma verify_message_authenticator_iff:
  assumes "parse_packet d = Ok p" and "message_authenticator_index p = Ok (Some i)"
  shows "verify_message_authenticator hmac p secret i = Ok ()
    \<longleftrightarrow> ra_value (rp_attributes p ! i)
        = hmac secret (copy_at (value_offset p i) (replicate 16 0)
            (take 4 d @ replicate 16 0 @ drop 20 (take (declared_len d) d)))"
proof -
  have "i < length (rp_attributes p)" "length (ra_value (rp_attributes p ! i)) = 16"
    using assms(2) by (simp_all add: message_authenticator_index_def
        message_authenticator_index_loop_None) auto
  then have "encode_packet p (replicate 16 0) (Some i)
      = copy_at (value_offset p i) (replicate 16 0)
          (take 4 d @ replicate 16 0 @ drop 20 (take (declared_len d) d))"
    using parse_packet_bytes(4) [OF assms(1), of "replicate 16 0"]
    by (simp add: encode_packet_zeroed)
  then show ?thesis
    by (simp add: verify_message_authenticator_def expected_message_authenticator_def)
qed

lemma verify_accounting_request_parsed:
  "verify_accounting_request md5 hmac d secret policy = Ok r \<Longrightarrow> parse_packet d = Ok (var_packet r)"
  by (auto simp: verify_accounting_request_def result_simps handle_accounting_request_iff
      var_packet_def split: if_splits)

text \<open>
  C4. Verification against the received bytes. A datagram is accepted exactly when it parses as
  an Accounting-Request of at most 4095 bytes, the request authenticator in bytes 4 to 20 is the
  digest of the datagram's own bytes with that field zeroed and the secret appended, and its one
  Message-Authenticator, which may be missing only under the optional policy, is the keyed digest
  of the datagram with both fields zeroed.
\<close>

theorem verify_accounting_request_iff:
  "verify_accounting_request md5 hmac d secret policy = Ok r
    \<longleftrightarrow> (\<exists>p idx.
          parse_packet d = Ok p \<and> rp_code p = AccountingRequestCode \<and> declared_len d \<le> 4095
          \<and> message_authenticator_index p = Ok idx
          \<and> (case idx of
               None \<Rightarrow> policy = Optional
             | Some i \<Rightarrow> ra_value (rp_attributes p ! i)
                 = hmac secret (copy_at (value_offset p i) (replicate 16 0)
                     (take 4 d @ replicate 16 0 @ drop 20 (take (declared_len d) d))))
          \<and> drop 4 (take 20 d)
              = md5 (take 4 d @ replicate 16 0 @ drop 20 (take (declared_len d) d) @ secret)
          \<and> r = \<lparr>var_request = \<lparr>ar_packet = p\<rparr>, var_has_message_authenticator = idx \<noteq> None\<rparr>)"
  (is "_ = (\<exists>p idx. ?R p idx)")
proof
  assume "verify_accounting_request md5 hmac d secret policy = Ok r"
  then obtain q idx where h: "handle_accounting_request d = Ok q"
    and m: "message_authenticator_index (ar_packet q) = Ok idx"
    and pol: "\<not> (requires_message_authenticator policy \<and> idx = None)"
    and mv: "(case idx of None \<Rightarrow> Ok ()
        | Some i \<Rightarrow> verify_message_authenticator hmac (ar_packet q) secret i) = Ok ()"
    and rv: "verify_request_authenticator md5 (ar_packet q) secret = Ok ()"
    and r: "r = \<lparr>var_request = q, var_has_message_authenticator = idx \<noteq> None\<rparr>"
    by (auto simp: verify_accounting_request_def result_simps split: if_splits)
  from h have p: "parse_packet d = Ok (ar_packet q)" by (simp add: handle_accounting_request_iff)
  have "?R (ar_packet q) idx"
    using h m pol mv rv r p
    by (cases policy; cases q)
      (auto simp: handle_accounting_request_iff verify_request_authenticator_iff
        verify_message_authenticator_iff requires_message_authenticator_def split: option.splits)
  then show "\<exists>p idx. ?R p idx" by blast
next
  assume "\<exists>p idx. ?R p idx"
  then obtain p idx where R: "?R p idx" by blast
  then have h: "handle_accounting_request d = Ok \<lparr>ar_packet = p\<rparr>"
    by (simp add: handle_accounting_request_iff)
  have rv: "verify_request_authenticator md5 p secret = Ok ()"
    using R verify_request_authenticator_iff [of d p md5 secret] by blast
  have "idx = Some i \<Longrightarrow> verify_message_authenticator hmac p secret i = Ok ()" for i
    using R verify_message_authenticator_iff [of d p i hmac secret] by auto
  with R h rv show "verify_accounting_request md5 hmac d secret policy = Ok r"
    by (cases idx) (simp_all add: verify_accounting_request_def requires_message_authenticator_def)
qed

section \<open>Responses\<close>

lemma encode_proxy_state_attributes_eq:
  "encode_proxy_state_attributes as
    = concat (map encode_attribute (filter (\<lambda>a. ra_kind a = 33) as))"
  by (induction as) simp_all

lemma sum_list_filter_le:
  "sum_list (map f (filter P xs)) \<le> (sum_list (map f xs) :: nat)"
  by (induction xs) simp_all

text \<open>The response packet the code builds, before its authenticator is filled in.\<close>

definition response_packet :: "RadiusPacket \<Rightarrow> u8 list \<Rightarrow> RadiusPacket" where
  "response_packet p auth = \<lparr>rp_code = AccountingResponseCode, rp_identifier = rp_identifier p,
     rp_authenticator = auth, rp_attributes = filter (\<lambda>a. ra_kind a = 33) (rp_attributes p)\<rparr>"

lemma wf_response_packet:
  "wf_packet p \<Longrightarrow> length auth = 16 \<Longrightarrow> wf_packet (response_packet p auth)"
  using sum_list_filter_le [of encoded_attribute_len "\<lambda>a. ra_kind a = 33" "rp_attributes p"]
  by (simp add: wf_packet_def response_packet_def packet_len_def wf_code_def RadiusCode_from_def)

lemma build_accounting_response_eq:
  assumes wf: "wf_packet (var_packet r)" and md5: "\<And>x. length (md5 x) = 16"
  shows "build_accounting_response md5 r secret
    = encode_packet (response_packet (var_packet r) a)
        (md5 (encode_packet (response_packet (var_packet r) a) (rp_authenticator (var_packet r))
              None @ secret)) None"
proof -
  let ?p = "var_packet r"
  let ?q = "response_packet ?p a"
  have len: "length (rp_authenticator ?p) = 16" using wf by (simp add: wf_packet_def)
  let ?resp = "[5, rp_identifier ?p, 0, 0] @ rp_authenticator ?p
      @ encode_proxy_state_attributes (rp_attributes ?p)"
  have l: "length ?resp = packet_len ?q"
    by (simp add: len packet_len_def response_packet_def encode_proxy_state_attributes_eq
        length_concat comp_def)
  have "copy_at 2 (u16_to_be_bytes (word_of_nat (length ?resp))) ?resp
      = encode_packet ?q (rp_authenticator ?p) None" (is "?signed = _")
    unfolding l by (simp add: copy_at_def encode_packet_def packet_len_def response_packet_def
        encode_proxy_state_attributes_eq u16_to_be_bytes_def Let_def)
  moreover have "copy_at 4 auth (encode_packet ?q (rp_authenticator ?p) None)
      = encode_packet ?q auth None" if "length auth = 16" for auth
    using that len by (simp add: copy_at_def encode_packet_bytes)
  ultimately show ?thesis
    by (simp add: build_accounting_response_def md5 Let_def del: append_Cons)
qed

text \<open>
  C5. The response to a verified request is itself a well-formed Accounting-Response: it parses,
  repeats the request's identifier and, in order, exactly its Proxy-State attributes, and its
  authenticator is the digest of the response with the request's authenticator in place, followed
  by the secret.
\<close>

theorem build_accounting_response_parses:
  assumes "verify_accounting_request md5 hmac d secret policy = Ok r"
    and md5_16: "\<And>x. length (md5 x) = 16"
  shows "parse_packet (build_accounting_response md5 r secret)
    = Ok \<lparr>rp_code = AccountingResponseCode,
          rp_identifier = rp_identifier (var_packet r),
          rp_authenticator = md5 (take 4 (build_accounting_response md5 r secret)
            @ rp_authenticator (var_packet r)
            @ drop 20 (build_accounting_response md5 r secret) @ secret),
          rp_attributes = filter (\<lambda>a. ra_kind a = 33) (rp_attributes (var_packet r))\<rparr>"
proof -
  let ?p = "var_packet r"
  obtain p where "parse_packet d = Ok p" "?p = p"
    using assms(1) verify_accounting_request_parsed by metis
  then have wf: "wf_packet ?p" using parse_packet_bytes(1) by blast
  then have len: "length (rp_authenticator ?p) = 16" by (simp add: wf_packet_def)
  define auth where "auth = md5 (encode_packet (response_packet ?p []) (rp_authenticator ?p) None
      @ secret)"
  have b: "build_accounting_response md5 r secret
      = encode_packet (response_packet ?p auth) auth None"
    using build_accounting_response_eq [OF wf md5_16, where secret = secret and a = "[]"]
    by (simp add: auth_def encode_packet_def response_packet_def)
  have "length auth = 16" by (simp add: auth_def md5_16)
  with b have "auth = md5 (take 4 (build_accounting_response md5 r secret)
      @ rp_authenticator ?p @ drop 20 (build_accounting_response md5 r secret) @ secret)"
    by (simp add: encode_packet_bytes auth_def response_packet_def packet_len_def)
  moreover have "parse_packet (build_accounting_response md5 r secret)
      = Ok (response_packet ?p auth)"
    using parse_packet_encode [OF wf_response_packet [OF wf \<open>length auth = 16\<close>], of "[]"]
    by (simp add: b) (simp add: response_packet_def)
  ultimately show ?thesis by (simp add: response_packet_def)
qed

text \<open>A request with a User-Name and a Proxy-State, under a constant digest.\<close>

theorem build_accounting_response_parses_witness:
  "parse_packet (build_accounting_response (\<lambda>_. replicate 16 0)
       (projr (verify_accounting_request (\<lambda>_. replicate 16 0) (\<lambda>_ _. replicate 16 0)
          ([4, 7, 0, 27] @ replicate 16 0 @ [1, 3, 97, 33, 4, 1, 2]) [115] Optional)) [115])
    = Ok \<lparr>rp_code = AccountingResponseCode, rp_identifier = 7, rp_authenticator = replicate 16 0,
          rp_attributes = [\<lparr>ra_kind = 33, ra_value = [1, 2]\<rparr>]\<rparr>"
proof -
  let ?r = "projr (verify_accounting_request (\<lambda>_. replicate 16 0) (\<lambda>_ _. replicate 16 0)
          ([4, 7, 0, 27] @ replicate 16 0 @ [1, 3, 97, 33, 4, 1, 2]) [115] Optional)"
  have ok: "verify_accounting_request (\<lambda>_. replicate 16 0) (\<lambda>_ _. replicate 16 0)
      ([4, 7, 0, 27] @ replicate 16 0 @ [1, 3, 97, 33, 4, 1, 2]) [115] Optional = Ok ?r
    \<and> rp_identifier (var_packet ?r) = 7
    \<and> filter (\<lambda>a. ra_kind a = 33) (rp_attributes (var_packet ?r))
        = [\<lparr>ra_kind = 33, ra_value = [1, 2]\<rparr>]"
    by code_simp
  show ?thesis
    using build_accounting_response_parses [OF ok [THEN conjunct1]] ok
    by simp
qed

end
