(* ===== verification/Rust_Strings.thy ===== *)
theory Rust_Strings
  imports LQ_Prelude
begin

text \<open>
  The part of Rust's string library the program uses. A \<open>String\<close> or \<open>&str\<close> is the list of its
  UTF-8 bytes, kept in Isabelle's \<open>string\<close> (a \<open>char\<close> is one byte), so \<open>len\<close> is \<open>length\<close> and
  \<open>as_bytes\<close> is a change of type. Decoding with replacement characters, Unicode white space,
  ASCII case and digits, splitting, decimal numbers and hexadecimal text are defined on bytes.
\<close>

section \<open>Bytes and text\<close>

definition as_bytes :: "string \<Rightarrow> u8 list" where
  "as_bytes s = map (\<lambda>c. word_of_nat (of_char c)) s"

definition str_of_bytes :: "u8 list \<Rightarrow> string" where
  "str_of_bytes bs = map (\<lambda>b. char_of (unat b)) bs"

text \<open>
  \<open>String::from_utf8_lossy\<close>. The first sequence of the input: how many bytes it takes and
  whether it is a well-formed UTF-8 character; an ill-formed one is the longest prefix that
  could start a character.
\<close>

definition is_cont :: "u8 \<Rightarrow> bool" where
  "is_cont b \<longleftrightarrow> 128 \<le> b \<and> b < 192"

definition byte_at :: "nat \<Rightarrow> u8 list \<Rightarrow> u8" where
  "byte_at i bs = (if i < length bs then bs ! i else 0)"

definition second_of_three :: "u8 \<Rightarrow> u8 \<Rightarrow> bool" where
  "second_of_three a b \<longleftrightarrow>
     (if a = 0xE0 then 0xA0 \<le> b \<and> b < 192 else if a = 0xED then 128 \<le> b \<and> b < 0xA0 else is_cont b)"

definition second_of_four :: "u8 \<Rightarrow> u8 \<Rightarrow> bool" where
  "second_of_four a b \<longleftrightarrow>
     (if a = 0xF0 then 0x90 \<le> b \<and> b < 192 else if a = 0xF4 then 128 \<le> b \<and> b < 0x90 else is_cont b)"

definition utf8_seq :: "u8 list \<Rightarrow> nat \<times> bool" where
  "utf8_seq bs = (let a = byte_at 0 bs; b = byte_at 1 bs; c = byte_at 2 bs; d = byte_at 3 bs in
     if a < 128 then (1, True)
     else if 0xC2 \<le> a \<and> a \<le> 0xDF then (if is_cont b then (2, True) else (1, False))
     else if 0xE0 \<le> a \<and> a \<le> 0xEF then
       (if \<not> second_of_three a b then (1, False)
        else if is_cont c then (3, True) else (2, False))
     else if 0xF0 \<le> a \<and> a \<le> 0xF4 then
       (if \<not> second_of_four a b then (1, False)
        else if \<not> is_cont c then (2, False)
        else if is_cont d then (4, True) else (3, False))
     else (1, False))"

lemma utf8_seq_pos: "0 < fst (utf8_seq bs)"
  by (simp add: utf8_seq_def Let_def)

function utf8_lossy_bytes :: "u8 list \<Rightarrow> u8 list" where
  "utf8_lossy_bytes bs =
     (if bs = [] then []
      else let n = fst (utf8_seq bs) in
        (if snd (utf8_seq bs) then take n bs else [0xEF, 0xBF, 0xBD]) @ utf8_lossy_bytes (drop n bs))"
  by pat_completeness auto
termination
  by (relation "measure length") (use utf8_seq_pos in \<open>auto simp: Let_def\<close>)

declare utf8_lossy_bytes.simps [simp del]

definition from_utf8_lossy :: "u8 list \<Rightarrow> string" where
  "from_utf8_lossy bs = str_of_bytes (utf8_lossy_bytes bs)"

section \<open>White space\<close>

text \<open>
  The length of the white-space character a string starts with, 0 when it starts with none:
  U+0009 to U+000D, U+0020, U+0085, U+00A0, U+1680, U+2000 to U+200A, U+2028, U+2029, U+202F,
  U+205F and U+3000.
\<close>

definition char_at :: "nat \<Rightarrow> string \<Rightarrow> nat" where
  "char_at i s = (if i < length s then of_char (s ! i) else 0)"

definition ws_len :: "string \<Rightarrow> nat" where
  "ws_len s = (let a = char_at 0 s; b = char_at 1 s; c = char_at 2 s in
     if 9 \<le> a \<and> a \<le> 13 \<or> a = 32 then 1
     else if a = 0xC2 \<and> (b = 0x85 \<or> b = 0xA0) then 2
     else if a = 0xE1 \<and> b = 0x9A \<and> c = 0x80 then 3
     else if a = 0xE2 \<and> b = 0x80 \<and> (0x80 \<le> c \<and> c \<le> 0x8A \<or> c = 0xA8 \<or> c = 0xA9 \<or> c = 0xAF) then 3
     else if a = 0xE2 \<and> b = 0x81 \<and> c = 0x9F then 3
     else if a = 0xE3 \<and> b = 0x80 \<and> c = 0x80 then 3
     else 0)"

function trim_start :: "string \<Rightarrow> string" where
  "trim_start s = (if ws_len s = 0 then s else trim_start (drop (ws_len s) s))"
  by pat_completeness auto
termination
  by (relation "measure length") (auto simp: ws_len_def char_at_def Let_def split: if_splits)

declare trim_start.simps [simp del]

fun trim_end :: "string \<Rightarrow> string" where
  "trim_end [] = []"
| "trim_end (c # cs) = (if trim_start (c # cs) = [] then [] else c # trim_end cs)"

definition trim :: "string \<Rightarrow> string" where
  "trim s = trim_end (trim_start s)"

text \<open>The text up to the first white space.\<close>

fun take_word :: "string \<Rightarrow> string" where
  "take_word [] = []"
| "take_word (c # cs) = (if ws_len (c # cs) \<noteq> 0 then [] else c # take_word cs)"

text \<open>\<open>s.split_whitespace().next()\<close>\<close>

definition first_word :: "string \<Rightarrow> string option" where
  "first_word s = (if trim_start s = [] then None else Some (take_word (trim_start s)))"

section \<open>ASCII classes, splitting, numbers\<close>

definition is_ascii_digit :: "char \<Rightarrow> bool" where
  "is_ascii_digit c \<longleftrightarrow> 48 \<le> (of_char c :: nat) \<and> (of_char c :: nat) \<le> 57"

definition is_ascii_hexdigit :: "char \<Rightarrow> bool" where
  "is_ascii_hexdigit c \<longleftrightarrow> (let n = (of_char c :: nat) in
     48 \<le> n \<and> n \<le> 57 \<or> 65 \<le> n \<and> n \<le> 70 \<or> 97 \<le> n \<and> n \<le> 102)"

definition to_ascii_lower :: "char \<Rightarrow> char" where
  "to_ascii_lower c = (let n = (of_char c :: nat) in if 65 \<le> n \<and> n \<le> 90 then char_of (n + 32) else c)"

definition to_ascii_lowercase :: "string \<Rightarrow> string" where
  "to_ascii_lowercase s = map to_ascii_lower s"

text \<open>\<open>s.split(sep)\<close> for a one-byte separator, and \<open>s.split_once(sep)\<close>.\<close>

fun split_on :: "char \<Rightarrow> string \<Rightarrow> string list" where
  "split_on sep [] = [[]]"
| "split_on sep (c # cs) =
     (if c = sep then [] # split_on sep cs
      else case split_on sep cs of g # gs \<Rightarrow> (c # g) # gs | [] \<Rightarrow> [[c]])"

fun split_once :: "char \<Rightarrow> string \<Rightarrow> (string \<times> string) option" where
  "split_once sep [] = None"
| "split_once sep (c # cs) =
     (if c = sep then Some ([], cs) else map_option (\<lambda>(a, b). (c # a, b)) (split_once sep cs))"

definition digit_val :: "char \<Rightarrow> nat" where
  "digit_val c = of_char c - 48"

definition dec_nat :: "string \<Rightarrow> nat" where
  "dec_nat s = foldl (\<lambda>n c. 10 * n + digit_val c) 0 s"

text \<open>
  \<open>str::parse\<close> for an unsigned type of \<open>w\<close> bits: an optional plus sign, then at least one digit,
  and the value has to fit.
\<close>

definition parse_unsigned :: "nat \<Rightarrow> string \<Rightarrow> nat option" where
  "parse_unsigned w s =
     (let ds = (case s of [] \<Rightarrow> [] | c # cs \<Rightarrow> if c = CHR ''+'' then cs else s) in
      if ds = [] \<or> \<not> list_all is_ascii_digit ds \<or> 2 ^ w \<le> dec_nat ds then None
      else Some (dec_nat ds))"

text \<open>\<open>to_string\<close> and \<open>parse\<close> for \<open>i64\<close>.\<close>

fun dec_digits :: "nat \<Rightarrow> string" where
  "dec_digits n = (if n < 10 then [char_of (48 + n)] else dec_digits (n div 10) @ [char_of (48 + n mod 10)])"

declare dec_digits.simps [simp del]

definition show_i64 :: "int \<Rightarrow> string" where
  "show_i64 i = (if i < 0 then CHR ''-'' # dec_digits (nat (- i)) else dec_digits (nat i))"

definition parse_i64 :: "string \<Rightarrow> int option" where
  "parse_i64 s =
     (let (neg, ds) = (case s of
            [] \<Rightarrow> (False, [])
          | c # cs \<Rightarrow> if c = CHR ''-'' then (True, cs) else if c = CHR ''+'' then (False, cs) else (False, s));
          v = (if neg then - int (dec_nat ds) else int (dec_nat ds))
      in if ds = [] \<or> \<not> list_all is_ascii_digit ds \<or> v < - (2 ^ 63) \<or> 2 ^ 63 \<le> v then None else Some v)"

definition checked_mul :: "'a::len word \<Rightarrow> 'a word \<Rightarrow> 'a word option" where
  "checked_mul a b = (if unat a * unat b < 2 ^ LENGTH('a) then Some (a * b) else None)"

text \<open>Two lower-case hexadecimal digits per byte.\<close>

definition hex_digit :: "nat \<Rightarrow> char" where
  "hex_digit n = (if n < 10 then char_of (48 + n) else char_of (87 + n))"

fun hex_component :: "u8 list \<Rightarrow> string" where
  "hex_component [] = []"
| "hex_component (b # bs) =
     hex_digit (unat (drop_bit 4 b)) # hex_digit (unat (b AND 0x0f)) # hex_component bs"

section \<open>Facts\<close>

lemma as_bytes_str_of_bytes [simp]: "as_bytes (str_of_bytes bs) = bs"
  by (induction bs) (simp_all add: as_bytes_def str_of_bytes_def)

lemma str_of_bytes_as_bytes [simp]: "str_of_bytes (as_bytes s) = s"
  by (induction s) (simp_all add: as_bytes_def str_of_bytes_def unat_word_of_nat_u8)

lemma as_bytes_inject [simp]: "as_bytes s = as_bytes t \<longleftrightarrow> s = t"
  by (metis str_of_bytes_as_bytes)

lemma as_bytes_eq_Nil [simp]: "as_bytes s = [] \<longleftrightarrow> s = []"
  by (simp add: as_bytes_def)

lemma of_char_hex_digit:
  "k < 16 \<Longrightarrow> of_char (hex_digit k) = (if k < 10 then 48 + k else 87 + k :: nat)"
  by (simp add: hex_digit_def)

lemma hex_digit_inject:
  assumes "m < 16" and "n < 16"
  shows "hex_digit m = hex_digit n \<longleftrightarrow> m = n"
proof
  assume "hex_digit m = hex_digit n"
  then have "(if m < 10 then 48 + m else 87 + m) = (if n < 10 then 48 + n else 87 + n)"
    using of_char_hex_digit [OF assms(1)] of_char_hex_digit [OF assms(2)] by simp
  then show "m = n" using assms by (simp split: if_splits)
qed simp

lemma byte_nibbles:
  fixes b :: u8
  shows "unat (drop_bit 4 b) = unat b div 16" and "unat (b AND 0x0f) = unat b mod 16"
proof -
  show "unat (drop_bit 4 b) = unat b div 16"
    by (simp add: drop_bit_eq_div unat_div)
  have "b AND 0x0f = take_bit 4 b"
    by (simp add: take_bit_eq_mask mask_eq_exp_minus_1)
  then show "unat (b AND 0x0f) = unat b mod 16"
    by (simp add: take_bit_eq_mod unat_mod)
qed

lemma hex_component_inject [simp]: "hex_component bs = hex_component cs \<longleftrightarrow> bs = cs"
proof (induction bs arbitrary: cs)
  case Nil
  then show ?case by (cases cs) simp_all
next
  case (Cons b bs)
  show ?case
  proof (cases cs)
    case (Cons c cs')
    have "b = c" if "unat b div 16 = unat c div 16" "unat b mod 16 = unat c mod 16"
      using that by (metis div_mult_mod_eq unsigned_word_eqI)
    moreover have "unat (x :: u8) div 16 < 16" for x by (simp add: less_mult_imp_div_less)
    ultimately show ?thesis
      using Cons Cons.IH [of cs'] by (auto simp: byte_nibbles hex_digit_inject)
  qed simp
qed

lemma hex_component_no_colon: "CHR '':'' \<notin> set (hex_component bs)"
proof (induction bs)
  case (Cons b bs)
  have "CHR '':'' \<noteq> hex_digit k" if "k < 16" for k
  proof
    assume "CHR '':'' = hex_digit k"
    then have "(of_char CHR '':'' :: nat) = of_char (hex_digit k)" by (rule arg_cong)
    with of_char_hex_digit [OF that] show False using that by (simp split: if_splits)
  qed
  moreover have "unat b div 16 < 16" by (simp add: less_mult_imp_div_less)
  ultimately show ?case using Cons.IH by (simp add: byte_nibbles)
qed simp

text \<open>Two colon-separated texts are equal only part by part.\<close>

lemma append_Cons_sep_inject:
  "c \<notin> set a \<Longrightarrow> c \<notin> set b \<Longrightarrow> a @ c # x = b @ c # y \<longleftrightarrow> a = b \<and> x = y"
proof (induction a arbitrary: b)
  case Nil
  then show ?case by (cases b) auto
next
  case (Cons d a)
  then show ?case by (cases b) auto
qed

lemma split_on_ne [simp]: "split_on sep s \<noteq> []"
  by (induction s) (auto split: list.splits)

lemma trim_start_ws: "ws_len s = 0 \<Longrightarrow> trim_start s = s"
  by (simp add: trim_start.simps)

lemma ws_len_Nil [simp]: "ws_len [] = 0"
  by (simp add: ws_len_def char_at_def)

lemma trim_start_Nil [simp]: "trim_start [] = []"
  by (simp add: trim_start_ws)

lemma trim_end_Nil_iff: "trim_end s = [] \<longleftrightarrow> trim_start s = []"
  by (cases s) simp_all

lemma trim_start_idem [simp]: "trim_start (trim_start s) = trim_start s"
proof (induction s rule: trim_start.induct)
  case (1 s)
  show ?case
  proof (cases "ws_len s = 0")
    case True
    then show ?thesis by (simp add: trim_start_ws)
  next
    case False
    then have "trim_start s = trim_start (drop (ws_len s) s)" by (subst trim_start.simps) simp
    with 1 False show ?thesis by simp
  qed
qed

lemma trim_Nil_iff: "trim s = [] \<longleftrightarrow> trim_start s = []"
  by (simp add: trim_def trim_end_Nil_iff)

lemma dec_nat_append: "dec_nat (s @ [c]) = 10 * dec_nat s + digit_val c"
  by (simp add: dec_nat_def)

lemma digit_facts:
  assumes "n < 10"
  shows "is_ascii_digit (char_of (48 + n))" "digit_val (char_of (48 + n)) = n"
  using assms by (simp_all add: is_ascii_digit_def digit_val_def)

lemma dec_digits_facts:
  "dec_digits n \<noteq> [] \<and> list_all is_ascii_digit (dec_digits n) \<and> dec_nat (dec_digits n) = n"
proof (induction n rule: dec_digits.induct)
  case (1 n)
  show ?case
  proof (cases "n < 10")
    case True
    then have "dec_digits n = [char_of (48 + n)]" by (simp add: dec_digits.simps)
    with True show ?thesis using digit_facts [of n] by (simp add: dec_nat_def)
  next
    case False
    then have "dec_digits n = dec_digits (n div 10) @ [char_of (48 + n mod 10)]"
      by (subst dec_digits.simps) simp
    moreover have "n mod 10 < 10" by simp
    ultimately show ?thesis
      using 1 [OF False] digit_facts [of "n mod 10"] by (simp add: dec_nat_append)
  qed
qed

lemma digit_not_sign: "is_ascii_digit c \<Longrightarrow> c \<noteq> CHR ''-'' \<and> c \<noteq> CHR ''+''"
  by (auto simp: is_ascii_digit_def)

lemma parse_show_i64:
  assumes "- (2 ^ 63) \<le> i" and "i < 2 ^ 63"
  shows "parse_i64 (show_i64 i) = Some i"
proof (cases "i < 0")
  case True
  then show ?thesis
    using assms dec_digits_facts [of "nat (- i)"] by (simp add: show_i64_def parse_i64_def)
next
  case False
  obtain c cs where c: "dec_digits (nat i) = c # cs"
    using dec_digits_facts [of "nat i"] by (cases "dec_digits (nat i)") auto
  then have "c \<noteq> CHR ''-'' \<and> c \<noteq> CHR ''+''"
    using dec_digits_facts [of "nat i"] by (intro digit_not_sign) simp
  with False c show ?thesis
    using assms dec_digits_facts [of "nat i"] by (simp add: show_i64_def parse_i64_def)
qed

end
