(* ===== verification/Radius_Event.thy ===== *)
theory Radius_Event
  imports Radius_Packet Rust_Strings
begin

text \<open>
  Typed accounting events (\<open>lqos_radius/src/accounting_event.rs\<close>): the fields extracted from an
  Accounting-Request attribute by attribute, the vendor sub-attribute loop, IPv6 prefixes and the
  MikroTik rate strings. An address is the number its octets spell, most significant first.
\<close>

section \<open>Data\<close>

abbreviation (input) USER_NAME :: u8 where "USER_NAME \<equiv> 1"
abbreviation (input) NAS_IP_ADDRESS :: u8 where "NAS_IP_ADDRESS \<equiv> 4"
abbreviation (input) NAS_PORT :: u8 where "NAS_PORT \<equiv> 5"
abbreviation (input) FRAMED_IP_ADDRESS :: u8 where "FRAMED_IP_ADDRESS \<equiv> 8"
abbreviation (input) FRAMED_IP_NETMASK :: u8 where "FRAMED_IP_NETMASK \<equiv> 9"
abbreviation (input) FRAMED_ROUTE :: u8 where "FRAMED_ROUTE \<equiv> 22"
abbreviation (input) CLASS :: u8 where "CLASS \<equiv> 25"
abbreviation (input) VENDOR_SPECIFIC :: u8 where "VENDOR_SPECIFIC \<equiv> 26"
abbreviation (input) CALLED_STATION_ID :: u8 where "CALLED_STATION_ID \<equiv> 30"
abbreviation (input) CALLING_STATION_ID :: u8 where "CALLING_STATION_ID \<equiv> 31"
abbreviation (input) NAS_IDENTIFIER :: u8 where "NAS_IDENTIFIER \<equiv> 32"
abbreviation (input) ACCT_STATUS_TYPE :: u8 where "ACCT_STATUS_TYPE \<equiv> 40"
abbreviation (input) ACCT_SESSION_ID :: u8 where "ACCT_SESSION_ID \<equiv> 44"
abbreviation (input) EVENT_TIMESTAMP :: u8 where "EVENT_TIMESTAMP \<equiv> 55"
abbreviation (input) NAS_PORT_ID :: u8 where "NAS_PORT_ID \<equiv> 87"
abbreviation (input) NAS_IPV6_ADDRESS :: u8 where "NAS_IPV6_ADDRESS \<equiv> 95"
abbreviation (input) FRAMED_IPV6_PREFIX :: u8 where "FRAMED_IPV6_PREFIX \<equiv> 97"
abbreviation (input) DELEGATED_IPV6_PREFIX :: u8 where "DELEGATED_IPV6_PREFIX \<equiv> 123"
abbreviation (input) FRAMED_IPV6_ADDRESS :: u8 where "FRAMED_IPV6_ADDRESS \<equiv> 168"
abbreviation (input) MIKROTIK_VENDOR_ID :: u32 where "MIKROTIK_VENDOR_ID \<equiv> 14988"
abbreviation (input) MIKROTIK_RATE_LIMIT :: u8 where "MIKROTIK_RATE_LIMIT \<equiv> 8"

type_synonym Ipv4Addr = u32
type_synonym Ipv6Addr = u128

definition Ipv4Addr_from :: "u8 list \<Rightarrow> Ipv4Addr" where
  "Ipv4Addr_from octets = word_of_nat (be_nat octets)"

definition Ipv6Addr_from :: "u8 list \<Rightarrow> Ipv6Addr" where
  "Ipv6Addr_from octets = word_of_nat (be_nat octets)"

definition ipv4_octets :: "Ipv4Addr \<Rightarrow> u8 list" where
  "ipv4_octets a = be_bytes 4 (unat a)"

definition ipv6_octets :: "Ipv6Addr \<Rightarrow> u8 list" where
  "ipv6_octets a = be_bytes 16 (unat a)"

datatype AcctStatusType =
    Start
  | Stop
  | InterimUpdate
  | AccountingOn
  | AccountingOff
  | UnknownStatus u32

fun AcctStatusType_as_u32 :: "AcctStatusType \<Rightarrow> u32" where
  "AcctStatusType_as_u32 Start = 1"
| "AcctStatusType_as_u32 Stop = 2"
| "AcctStatusType_as_u32 InterimUpdate = 3"
| "AcctStatusType_as_u32 AccountingOn = 7"
| "AcctStatusType_as_u32 AccountingOff = 8"
| "AcctStatusType_as_u32 (UnknownStatus v) = v"

definition AcctStatusType_from :: "u32 \<Rightarrow> AcctStatusType" where
  "AcctStatusType_from v =
     (if v = 1 then Start
      else if v = 2 then Stop
      else if v = 3 then InterimUpdate
      else if v = 7 then AccountingOn
      else if v = 8 then AccountingOff
      else UnknownStatus v)"

record Ipv6Prefix =
  ip6_address :: Ipv6Addr
  ip6_prefix_len :: u8

record UnknownVendorAttribute =
  uv_vendor_id :: "u32 option"
  uv_vendor_type :: "u8 option"
  uv_value :: "u8 list"

datatype MikrotikRateLimitDirection = NormalDirection | SwappedDirection

record AccountingEventOptions =
  opt_mikrotik_rate_limit_direction :: MikrotikRateLimitDirection

record MikrotikRateLimit =
  mrl_original :: string
  mrl_nas_rx_bps :: u64
  mrl_nas_tx_bps :: u64
  mrl_upload_bps :: u64
  mrl_download_bps :: u64

record AccountingEvent =
  status_type :: "AcctStatusType option"
  acct_session_id :: "string option"
  nas_ip_address :: "Ipv4Addr option"
  nas_ipv6_address :: "Ipv6Addr option"
  nas_identifier :: "string option"
  nas_port :: "u32 option"
  nas_port_id :: "string option"
  user_name :: "string option"
  calling_station_id :: "string option"
  called_station_id :: "string option"
  class_values :: "u8 list list"
  event_timestamp :: "u32 option"
  framed_ip_address :: "Ipv4Addr option"
  framed_ip_netmask :: "Ipv4Addr option"
  framed_routes :: "string list"
  framed_ipv6_prefixes :: "Ipv6Prefix list"
  delegated_ipv6_prefixes :: "Ipv6Prefix list"
  framed_ipv6_address :: "Ipv6Addr option"
  unknown_standard_attributes :: "RadiusAttribute list"
  unknown_vendor_attributes :: "UnknownVendorAttribute list"
  mikrotik_rate_limits :: "MikrotikRateLimit list"

definition default_event :: AccountingEvent where
  "default_event = \<lparr>status_type = None, acct_session_id = None, nas_ip_address = None,
     nas_ipv6_address = None, nas_identifier = None, nas_port = None, nas_port_id = None,
     user_name = None, calling_station_id = None, called_station_id = None, class_values = [],
     event_timestamp = None, framed_ip_address = None, framed_ip_netmask = None,
     framed_routes = [], framed_ipv6_prefixes = [], delegated_ipv6_prefixes = [],
     framed_ipv6_address = None, unknown_standard_attributes = [],
     unknown_vendor_attributes = [], mikrotik_rate_limits = []\<rparr>"

section \<open>Decoders\<close>

definition UnknownVendorAttribute_malformed :: "u8 list \<Rightarrow> UnknownVendorAttribute" where
  "UnknownVendorAttribute_malformed v =
     \<lparr>uv_vendor_id = None, uv_vendor_type = None, uv_value = v\<rparr>"

definition UnknownVendorAttribute_vendor_only :: "u32 \<Rightarrow> UnknownVendorAttribute" where
  "UnknownVendorAttribute_vendor_only vendor_id =
     \<lparr>uv_vendor_id = Some vendor_id, uv_vendor_type = None, uv_value = []\<rparr>"

definition UnknownVendorAttribute_vendor_data :: "u32 \<Rightarrow> u8 list \<Rightarrow> UnknownVendorAttribute" where
  "UnknownVendorAttribute_vendor_data vendor_id v =
     \<lparr>uv_vendor_id = Some vendor_id,
      uv_vendor_type = (case v of [] \<Rightarrow> None | b # _ \<Rightarrow> Some b), uv_value = v\<rparr>"

definition UnknownVendorAttribute_raw_vendor_payload :: "u32 \<Rightarrow> u8 list \<Rightarrow> UnknownVendorAttribute" where
  "UnknownVendorAttribute_raw_vendor_payload vendor_id v =
     \<lparr>uv_vendor_id = Some vendor_id, uv_vendor_type = None, uv_value = v\<rparr>"

definition UnknownVendorAttribute_subattribute ::
  "u32 \<Rightarrow> u8 \<Rightarrow> u8 list \<Rightarrow> UnknownVendorAttribute" where
  "UnknownVendorAttribute_subattribute vendor_id vendor_type v =
     \<lparr>uv_vendor_id = Some vendor_id, uv_vendor_type = Some vendor_type, uv_value = v\<rparr>"

fun map_rates :: "MikrotikRateLimitDirection \<Rightarrow> u64 \<Rightarrow> u64 \<Rightarrow> u64 \<times> u64" where
  "map_rates NormalDirection nas_rx_bps nas_tx_bps = (nas_rx_bps, nas_tx_bps)"
| "map_rates SwappedDirection nas_rx_bps nas_tx_bps = (nas_tx_bps, nas_rx_bps)"

definition text_value :: "u8 list \<Rightarrow> string" where
  "text_value v = from_utf8_lossy v"

definition ipv4 :: "u8 list \<Rightarrow> Ipv4Addr option" where
  "ipv4 v = (if length v = 4 then Some (Ipv4Addr_from v) else None)"

definition ipv6 :: "u8 list \<Rightarrow> Ipv6Addr option" where
  "ipv6 v = (if length v = 16 then Some (Ipv6Addr_from v) else None)"

definition u32_value :: "u8 list \<Rightarrow> u32 option" where
  "u32_value v = (if length v = 4 then Some (word_of_nat (be_nat v)) else None)"

definition vendor_id_and_payload :: "u8 list \<Rightarrow> (u32 \<times> u8 list) option" where
  "vendor_id_and_payload v =
     (if length v < 4 then None else Some (word_of_nat (be_nat (take 4 v)), drop 4 v))"

definition final_prefix_byte_mask :: "u8 \<Rightarrow> u8 option" where
  "final_prefix_byte_mask prefix_len =
     (let remainder = prefix_len mod 8 in
      if remainder = 0 then None else Some (push_bit (unat (8 - remainder)) (- 1)))"

definition ipv6_prefix :: "u8 list \<Rightarrow> Ipv6Prefix option" where
  "ipv6_prefix v =
     (if \<not> (2 \<le> length v \<and> length v \<le> 18) then None
      else if v ! 0 \<noteq> 0 then None
      else
        let prefix_len = v ! 1 in
        if prefix_len > 128 then None
        else
          let expected_prefix_bytes = (unat prefix_len + 7) div 8;
              prefix_bytes = drop 2 v
          in if length prefix_bytes < expected_prefix_bytes then None
             else if list_ex (\<lambda>b. b \<noteq> 0) (drop expected_prefix_bytes prefix_bytes) then None
             else
               let bytes = copy_at 0 (take expected_prefix_bytes prefix_bytes) (replicate 16 0)
               in (case final_prefix_byte_mask prefix_len of
                     None \<Rightarrow> Some \<lparr>ip6_address = Ipv6Addr_from bytes, ip6_prefix_len = prefix_len\<rparr>
                   | Some m \<Rightarrow>
                       if bytes ! (expected_prefix_bytes - 1) AND NOT m \<noteq> 0 then None
                       else
                         let bytes = bytes [expected_prefix_bytes - 1
                                            := bytes ! (expected_prefix_bytes - 1) AND m]
                         in Some \<lparr>ip6_address = Ipv6Addr_from bytes, ip6_prefix_len = prefix_len\<rparr>))"

definition mikrotik_multiplier :: "string \<Rightarrow> u64 option" where
  "mikrotik_multiplier unit =
     (if unit = '''' \<or> unit = ''bps'' then Some 1
      else if unit \<in> {''k'', ''kb'', ''kbit'', ''kbps''} then Some 1000
      else if unit \<in> {''m'', ''mb'', ''mbit'', ''mbps''} then Some 1000000
      else if unit \<in> {''g'', ''gb'', ''gbit'', ''gbps''} then Some 1000000000
      else None)"

definition parse_mikrotik_rate :: "string \<Rightarrow> u64 option" where
  "parse_mikrotik_rate v =
     (let trimmed = trim v;
          digit_count = length (takeWhile is_ascii_digit trimmed)
      in if digit_count = 0 then None
         else case parse_unsigned 64 (take digit_count trimmed) of
           None \<Rightarrow> None
         | Some number \<Rightarrow>
             (case mikrotik_multiplier (to_ascii_lowercase (drop digit_count trimmed)) of
                None \<Rightarrow> None
              | Some multiplier \<Rightarrow> checked_mul (word_of_nat number) multiplier))"

definition parse_mikrotik_rate_pair :: "string \<Rightarrow> (u64 \<times> u64) option" where
  "parse_mikrotik_rate_pair v =
     (let (nas_rx, nas_tx) = (case split_once CHR ''/'' v of Some pair \<Rightarrow> pair | None \<Rightarrow> (v, v))
      in case parse_mikrotik_rate nas_rx of
           None \<Rightarrow> None
         | Some rx \<Rightarrow> map_option (\<lambda>tx. (rx, tx)) (parse_mikrotik_rate nas_tx))"

definition MikrotikRateLimit_parse ::
  "u8 list \<Rightarrow> AccountingEventOptions \<Rightarrow> MikrotikRateLimit option" where
  "MikrotikRateLimit_parse v options =
     (let original = text_value v in
      case first_word original of
        None \<Rightarrow> None
      | Some rate_pair \<Rightarrow>
          (case parse_mikrotik_rate_pair rate_pair of
             None \<Rightarrow> None
           | Some (nas_rx_bps, nas_tx_bps) \<Rightarrow>
               let (upload_bps, download_bps) =
                     map_rates (opt_mikrotik_rate_limit_direction options) nas_rx_bps nas_tx_bps
               in Some \<lparr>mrl_original = original, mrl_nas_rx_bps = nas_rx_bps,
                        mrl_nas_tx_bps = nas_tx_bps, mrl_upload_bps = upload_bps,
                        mrl_download_bps = download_bps\<rparr>))"

section \<open>Extraction\<close>

text \<open>
  \<open>set_once\<close> returns the new slot; \<open>set_optional\<close> and \<open>push_optional\<close> return the new list of
  undecoded attributes together with the new slot or list.
\<close>

definition set_once :: "'a option \<Rightarrow> 'a option \<Rightarrow> 'a option" where
  "set_once slot v = (if slot = None then v else slot)"

definition set_optional ::
  "RadiusAttribute list \<Rightarrow> 'a option \<Rightarrow> RadiusAttribute \<Rightarrow> (u8 list \<Rightarrow> 'a option)
    \<Rightarrow> RadiusAttribute list \<times> 'a option" where
  "set_optional unknown slot attribute decode =
     (let decoded = decode (ra_value attribute)
      in (if decoded = None then unknown @ [attribute] else unknown, set_once slot decoded))"

definition push_optional ::
  "RadiusAttribute list \<Rightarrow> 'a list \<Rightarrow> RadiusAttribute \<Rightarrow> (u8 list \<Rightarrow> 'a option)
    \<Rightarrow> RadiusAttribute list \<times> 'a list" where
  "push_optional unknown items attribute decode =
     (case decode (ra_value attribute) of
        None \<Rightarrow> (unknown @ [attribute], items)
      | Some decoded \<Rightarrow> (unknown, items @ [decoded]))"

abbreviation push_unknown_vendor ::
  "UnknownVendorAttribute \<Rightarrow> AccountingEvent \<Rightarrow> AccountingEvent" where
  "push_unknown_vendor a e \<equiv>
     e\<lparr>unknown_vendor_attributes := unknown_vendor_attributes e @ [a]\<rparr>"

text \<open>The \<open>while !remaining.is_empty()\<close> loop over the vendor payload.\<close>

function apply_vendor_subattributes ::
  "AccountingEvent \<Rightarrow> u32 \<Rightarrow> u8 list \<Rightarrow> AccountingEventOptions \<Rightarrow> AccountingEvent" where
  "apply_vendor_subattributes e vendor_id remaining options =
     (if remaining = [] then e
      else case split_radius_tlv remaining of
        Inl _ \<Rightarrow> push_unknown_vendor (UnknownVendorAttribute_vendor_data vendor_id remaining) e
      | Inr (vendor_type, vendor_value, next) \<Rightarrow>
          (case (if vendor_type = MIKROTIK_RATE_LIMIT
                 then MikrotikRateLimit_parse vendor_value options else None) of
             Some rate_limit \<Rightarrow>
               apply_vendor_subattributes
                 (e\<lparr>mikrotik_rate_limits := mikrotik_rate_limits e @ [rate_limit]\<rparr>)
                 vendor_id next options
           | None \<Rightarrow>
               apply_vendor_subattributes
                 (push_unknown_vendor
                    (UnknownVendorAttribute_subattribute vendor_id vendor_type vendor_value) e)
                 vendor_id next options))"
  by pat_completeness auto
termination
  by (relation "measure (\<lambda>(_, _, remaining, _). length remaining)")
     (auto dest: split_radius_tlv_remaining)

declare apply_vendor_subattributes.simps [simp del]

definition apply_vendor_specific ::
  "AccountingEvent \<Rightarrow> u8 list \<Rightarrow> AccountingEventOptions \<Rightarrow> AccountingEvent" where
  "apply_vendor_specific e v options =
     (case vendor_id_and_payload v of
        None \<Rightarrow> push_unknown_vendor (UnknownVendorAttribute_malformed v) e
      | Some (vendor_id, remaining) \<Rightarrow>
          if remaining = []
          then push_unknown_vendor (UnknownVendorAttribute_vendor_only vendor_id) e
          else if vendor_id \<noteq> MIKROTIK_VENDOR_ID
          then push_unknown_vendor
                 (UnknownVendorAttribute_raw_vendor_payload vendor_id remaining) e
          else apply_vendor_subattributes e vendor_id remaining options)"

definition apply_attribute ::
  "AccountingEvent \<Rightarrow> RadiusAttribute \<Rightarrow> AccountingEventOptions \<Rightarrow> AccountingEvent" where
  "apply_attribute e attribute options =
     (let k = ra_kind attribute; v = ra_value attribute; u = unknown_standard_attributes e in
      if k = USER_NAME then e\<lparr>user_name := set_once (user_name e) (Some (text_value v))\<rparr>
      else if k = NAS_IP_ADDRESS then
        (let (u', s) = set_optional u (nas_ip_address e) attribute ipv4
         in e\<lparr>unknown_standard_attributes := u', nas_ip_address := s\<rparr>)
      else if k = NAS_PORT then
        (let (u', s) = set_optional u (nas_port e) attribute u32_value
         in e\<lparr>unknown_standard_attributes := u', nas_port := s\<rparr>)
      else if k = FRAMED_IP_ADDRESS then
        (let (u', s) = set_optional u (framed_ip_address e) attribute ipv4
         in e\<lparr>unknown_standard_attributes := u', framed_ip_address := s\<rparr>)
      else if k = FRAMED_IP_NETMASK then
        (let (u', s) = set_optional u (framed_ip_netmask e) attribute ipv4
         in e\<lparr>unknown_standard_attributes := u', framed_ip_netmask := s\<rparr>)
      else if k = FRAMED_ROUTE then e\<lparr>framed_routes := framed_routes e @ [text_value v]\<rparr>
      else if k = CLASS then e\<lparr>class_values := class_values e @ [v]\<rparr>
      else if k = VENDOR_SPECIFIC then apply_vendor_specific e v options
      else if k = CALLED_STATION_ID then
        e\<lparr>called_station_id := set_once (called_station_id e) (Some (text_value v))\<rparr>
      else if k = CALLING_STATION_ID then
        e\<lparr>calling_station_id := set_once (calling_station_id e) (Some (text_value v))\<rparr>
      else if k = NAS_IDENTIFIER then
        e\<lparr>nas_identifier := set_once (nas_identifier e) (Some (text_value v))\<rparr>
      else if k = ACCT_STATUS_TYPE then
        (let (u', s) = set_optional u (status_type e) attribute
               (\<lambda>b. map_option AcctStatusType_from (u32_value b))
         in e\<lparr>unknown_standard_attributes := u', status_type := s\<rparr>)
      else if k = ACCT_SESSION_ID then
        e\<lparr>acct_session_id := set_once (acct_session_id e) (Some (text_value v))\<rparr>
      else if k = EVENT_TIMESTAMP then
        (let (u', s) = set_optional u (event_timestamp e) attribute u32_value
         in e\<lparr>unknown_standard_attributes := u', event_timestamp := s\<rparr>)
      else if k = NAS_PORT_ID then e\<lparr>nas_port_id := set_once (nas_port_id e) (Some (text_value v))\<rparr>
      else if k = NAS_IPV6_ADDRESS then
        (let (u', s) = set_optional u (nas_ipv6_address e) attribute ipv6
         in e\<lparr>unknown_standard_attributes := u', nas_ipv6_address := s\<rparr>)
      else if k = FRAMED_IPV6_PREFIX then
        (let (u', s) = push_optional u (framed_ipv6_prefixes e) attribute ipv6_prefix
         in e\<lparr>unknown_standard_attributes := u', framed_ipv6_prefixes := s\<rparr>)
      else if k = DELEGATED_IPV6_PREFIX then
        (let (u', s) = push_optional u (delegated_ipv6_prefixes e) attribute ipv6_prefix
         in e\<lparr>unknown_standard_attributes := u', delegated_ipv6_prefixes := s\<rparr>)
      else if k = FRAMED_IPV6_ADDRESS then
        (let (u', s) = set_optional u (framed_ipv6_address e) attribute ipv6
         in e\<lparr>unknown_standard_attributes := u', framed_ipv6_address := s\<rparr>)
      else e\<lparr>unknown_standard_attributes := u @ [attribute]\<rparr>)"

definition from_request_with_options ::
  "AccountingRequest \<Rightarrow> AccountingEventOptions \<Rightarrow> AccountingEvent" where
  "from_request_with_options request options =
     foldl (\<lambda>e a. apply_attribute e a options) default_event (rp_attributes (ar_packet request))"

definition from_verified_with_options ::
  "VerifiedAccountingRequest \<Rightarrow> AccountingEventOptions \<Rightarrow> AccountingEvent" where
  "from_verified_with_options request options =
     from_request_with_options (var_request request) options"

definition default_options :: AccountingEventOptions where
  "default_options = \<lparr>opt_mikrotik_rate_limit_direction = NormalDirection\<rparr>"

definition from_request :: "AccountingRequest \<Rightarrow> AccountingEvent" where
  "from_request request = from_request_with_options request default_options"

definition from_verified :: "VerifiedAccountingRequest \<Rightarrow> AccountingEvent" where
  "from_verified request = from_verified_with_options request default_options"


section \<open>Events field by field\<close>

text \<open>
  The value a single-valued field should have: the first attribute of its type that decodes. A
  repeated field collects every attribute of its type that decodes.
\<close>

fun first_decoded :: "u8 \<Rightarrow> (u8 list \<Rightarrow> 'a option) \<Rightarrow> RadiusAttribute list \<Rightarrow> 'a option" where
  "first_decoded k dec [] = None"
| "first_decoded k dec (a # as) =
     (case (if ra_kind a = k then dec (ra_value a) else None) of
        Some x \<Rightarrow> Some x
      | None \<Rightarrow> first_decoded k dec as)"

definition all_decoded :: "u8 \<Rightarrow> (u8 list \<Rightarrow> 'a option) \<Rightarrow> RadiusAttribute list \<Rightarrow> 'a list" where
  "all_decoded k dec as =
     List.map_filter (\<lambda>a. if ra_kind a = k then dec (ra_value a) else None) as"

definition status_value :: "u8 list \<Rightarrow> AcctStatusType option" where
  "status_value v = map_option AcctStatusType_from (u32_value v)"

definition text_types :: "u8 list" where
  "text_types = [1, 22, 25, 26, 30, 31, 32, 44, 87]"

text \<open>Attributes that no typed field holds, because of their type or because they do not decode.\<close>

definition undecoded :: "RadiusAttribute \<Rightarrow> bool" where
  "undecoded a \<longleftrightarrow> (let k = ra_kind a; v = ra_value a in
     if k \<in> {4, 8, 9} then ipv4 v = None
     else if k \<in> {5, 40, 55} then u32_value v = None
     else if k \<in> {95, 168} then ipv6 v = None
     else if k \<in> {97, 123} then ipv6_prefix v = None
     else k \<notin> set text_types)"

definition vendor_effect :: "AccountingEventOptions \<Rightarrow> RadiusAttribute \<Rightarrow> AccountingEvent" where
  "vendor_effect options a =
     (if ra_kind a = VENDOR_SPECIFIC then apply_vendor_specific default_event (ra_value a) options
      else default_event)"

definition append_vendor ::
  "UnknownVendorAttribute list \<Rightarrow> MikrotikRateLimit list \<Rightarrow> AccountingEvent \<Rightarrow> AccountingEvent" where
  "append_vendor us rs e =
     e\<lparr>unknown_vendor_attributes := unknown_vendor_attributes e @ us,
       mikrotik_rate_limits := mikrotik_rate_limits e @ rs\<rparr>"

lemma append_vendor_simps [simp]:
  "append_vendor us rs (append_vendor us' rs' e) = append_vendor (us' @ us) (rs' @ rs) e"
  "append_vendor [] [] e = e"
  by (simp_all add: append_vendor_def)

lemma push_as_append_vendor:
  "push_unknown_vendor u e = append_vendor [u] [] e"
  "e\<lparr>mikrotik_rate_limits := mikrotik_rate_limits e @ [r]\<rparr> = append_vendor [] [r] e"
  by (simp_all add: append_vendor_def)

text \<open>The vendor loop only appends, and what it appends does not depend on the event.\<close>

lemma apply_vendor_subattributes_appends:
  "\<exists>us rs. \<forall>e. apply_vendor_subattributes e vid rem options = append_vendor us rs e"
proof (induction "length rem" arbitrary: rem rule: less_induct)
  case less
  show ?case
  proof (cases "rem = []")
    case True
    have "\<forall>e. apply_vendor_subattributes e vid rem options = append_vendor [] [] e"
      by (simp add: True apply_vendor_subattributes.simps)
    then show ?thesis by blast
  next
    case False
    show ?thesis
    proof (cases "split_radius_tlv rem")
      case (Inl err)
      have "\<forall>e. apply_vendor_subattributes e vid rem options
          = append_vendor [UnknownVendorAttribute_vendor_data vid rem] [] e"
        by (subst apply_vendor_subattributes.simps)
          (simp add: False Inl push_as_append_vendor)
      then show ?thesis by blast
    next
      case (Inr t)
      then obtain k v nxt where t: "split_radius_tlv rem = Inr (k, v, nxt)" by (cases t) auto
      obtain us rs where tail: "\<And>e. apply_vendor_subattributes e vid nxt options = append_vendor us rs e"
        using less [OF split_radius_tlv_remaining [OF t]] by blast
      let ?r = "if k = MIKROTIK_RATE_LIMIT then MikrotikRateLimit_parse v options else None"
      have "\<forall>e. apply_vendor_subattributes e vid rem options
          = (case ?r of
               Some r \<Rightarrow> append_vendor us (r # rs) e
             | None \<Rightarrow> append_vendor (UnknownVendorAttribute_subattribute vid k v # us) rs e)"
        by (subst apply_vendor_subattributes.simps)
          (auto simp: False t push_as_append_vendor tail split: option.splits)
      then show ?thesis by (cases ?r) auto
    qed
  qed
qed

lemma apply_vendor_specific_appends:
  "apply_vendor_specific e v options
    = append_vendor (unknown_vendor_attributes (apply_vendor_specific default_event v options))
        (mikrotik_rate_limits (apply_vendor_specific default_event v options)) e"
proof -
  have "\<exists>us rs. \<forall>e. apply_vendor_specific e v options = append_vendor us rs e"
  proof (cases "vendor_id_and_payload v")
    case None
    then show ?thesis
      by (auto simp: apply_vendor_specific_def push_as_append_vendor)
  next
    case (Some p)
    obtain us rs where
      "\<forall>e. apply_vendor_subattributes e (fst p) (snd p) options = append_vendor us rs e"
      using apply_vendor_subattributes_appends by blast
    with Some show ?thesis
      by (cases p; cases "snd p = []"; cases "fst p = MIKROTIK_VENDOR_ID")
        (auto simp: apply_vendor_specific_def push_as_append_vendor)
  qed
  then obtain us rs where *: "\<And>e. apply_vendor_specific e v options = append_vendor us rs e" by blast
  then show ?thesis by (simp add: * append_vendor_def default_event_def)
qed

lemma first_decoded_append:
  "first_decoded k dec (as @ [a]) = set_once (first_decoded k dec as) (first_decoded k dec [a])"
  by (induction as) (auto simp: set_once_def split: option.splits)

lemma all_decoded_append:
  "all_decoded k dec (as @ bs) = all_decoded k dec as @ all_decoded k dec bs"
  by (simp add: all_decoded_def List.map_filter_def)

text \<open>What one attribute does to each field.\<close>

lemma apply_vendor_specific_keeps [simp]:
  "user_name (apply_vendor_specific e v opts) = user_name e"
  "called_station_id (apply_vendor_specific e v opts) = called_station_id e"
  "calling_station_id (apply_vendor_specific e v opts) = calling_station_id e"
  "nas_identifier (apply_vendor_specific e v opts) = nas_identifier e"
  "acct_session_id (apply_vendor_specific e v opts) = acct_session_id e"
  "nas_port_id (apply_vendor_specific e v opts) = nas_port_id e"
  "nas_ip_address (apply_vendor_specific e v opts) = nas_ip_address e"
  "nas_port (apply_vendor_specific e v opts) = nas_port e"
  "framed_ip_address (apply_vendor_specific e v opts) = framed_ip_address e"
  "framed_ip_netmask (apply_vendor_specific e v opts) = framed_ip_netmask e"
  "status_type (apply_vendor_specific e v opts) = status_type e"
  "event_timestamp (apply_vendor_specific e v opts) = event_timestamp e"
  "nas_ipv6_address (apply_vendor_specific e v opts) = nas_ipv6_address e"
  "framed_ipv6_address (apply_vendor_specific e v opts) = framed_ipv6_address e"
  "framed_routes (apply_vendor_specific e v opts) = framed_routes e"
  "class_values (apply_vendor_specific e v opts) = class_values e"
  "framed_ipv6_prefixes (apply_vendor_specific e v opts) = framed_ipv6_prefixes e"
  "delegated_ipv6_prefixes (apply_vendor_specific e v opts) = delegated_ipv6_prefixes e"
  "unknown_standard_attributes (apply_vendor_specific e v opts) = unknown_standard_attributes e"
  by (subst apply_vendor_specific_appends, simp add: append_vendor_def)+

lemmas apply_attribute_unfold =
  apply_attribute_def set_optional_def push_optional_def set_once_def Let_def case_prod_beta

lemma apply_attribute_text:
  "user_name (apply_attribute e a opts) = set_once (user_name e) (first_decoded 1 (Some \<circ> text_value) [a])"
  "called_station_id (apply_attribute e a opts)
    = set_once (called_station_id e) (first_decoded 30 (Some \<circ> text_value) [a])"
  "calling_station_id (apply_attribute e a opts)
    = set_once (calling_station_id e) (first_decoded 31 (Some \<circ> text_value) [a])"
  "nas_identifier (apply_attribute e a opts)
    = set_once (nas_identifier e) (first_decoded 32 (Some \<circ> text_value) [a])"
  "acct_session_id (apply_attribute e a opts)
    = set_once (acct_session_id e) (first_decoded 44 (Some \<circ> text_value) [a])"
  "nas_port_id (apply_attribute e a opts)
    = set_once (nas_port_id e) (first_decoded 87 (Some \<circ> text_value) [a])"
  by (simp_all add: apply_attribute_unfold)

lemma apply_attribute_number:
  "nas_ip_address (apply_attribute e a opts) = set_once (nas_ip_address e) (first_decoded 4 ipv4 [a])"
  "nas_port (apply_attribute e a opts) = set_once (nas_port e) (first_decoded 5 u32_value [a])"
  "framed_ip_address (apply_attribute e a opts)
    = set_once (framed_ip_address e) (first_decoded 8 ipv4 [a])"
  "framed_ip_netmask (apply_attribute e a opts)
    = set_once (framed_ip_netmask e) (first_decoded 9 ipv4 [a])"
  "status_type (apply_attribute e a opts)
    = set_once (status_type e) (first_decoded 40 status_value [a])"
  "event_timestamp (apply_attribute e a opts)
    = set_once (event_timestamp e) (first_decoded 55 u32_value [a])"
  "nas_ipv6_address (apply_attribute e a opts)
    = set_once (nas_ipv6_address e) (first_decoded 95 ipv6 [a])"
  "framed_ipv6_address (apply_attribute e a opts)
    = set_once (framed_ipv6_address e) (first_decoded 168 ipv6 [a])"
  by (simp_all add: apply_attribute_unfold status_value_def split: option.splits)

lemma apply_attribute_repeated:
  "framed_routes (apply_attribute e a opts) = framed_routes e @ all_decoded 22 (Some \<circ> text_value) [a]"
  "class_values (apply_attribute e a opts) = class_values e @ all_decoded 25 Some [a]"
  "framed_ipv6_prefixes (apply_attribute e a opts)
    = framed_ipv6_prefixes e @ all_decoded 97 ipv6_prefix [a]"
  "delegated_ipv6_prefixes (apply_attribute e a opts)
    = delegated_ipv6_prefixes e @ all_decoded 123 ipv6_prefix [a]"
  by (simp_all add: apply_attribute_unfold all_decoded_def List.map_filter_def split: option.splits)

lemma apply_attribute_unknown:
  "unknown_standard_attributes (apply_attribute e a opts)
    = unknown_standard_attributes e @ filter undecoded [a]"
  by (simp add: apply_attribute_unfold undecoded_def text_types_def split: option.splits)

lemma apply_attribute_vendor:
  "unknown_vendor_attributes (apply_attribute e a opts)
    = unknown_vendor_attributes e @ unknown_vendor_attributes (vendor_effect opts a)"
  "mikrotik_rate_limits (apply_attribute e a opts)
    = mikrotik_rate_limits e @ mikrotik_rate_limits (vendor_effect opts a)"
proof -
  define d where "d = apply_vendor_specific default_event (ra_value a) opts"
  have "apply_vendor_specific e (ra_value a) opts
      = append_vendor (unknown_vendor_attributes d) (mikrotik_rate_limits d) e"
    unfolding d_def by (rule apply_vendor_specific_appends)
  then show
    "unknown_vendor_attributes (apply_attribute e a opts)
      = unknown_vendor_attributes e @ unknown_vendor_attributes (vendor_effect opts a)"
    "mikrotik_rate_limits (apply_attribute e a opts)
      = mikrotik_rate_limits e @ mikrotik_rate_limits (vendor_effect opts a)"
    by (simp_all add: apply_attribute_unfold vendor_effect_def append_vendor_def
        flip: d_def split: option.splits) (simp_all add: default_event_def)
qed

lemmas apply_attribute_fields =
  apply_attribute_text apply_attribute_number apply_attribute_repeated apply_attribute_unknown
  apply_attribute_vendor

text \<open>The event an attribute list should give, field by field.\<close>

definition event_of_attributes ::
  "AccountingEventOptions \<Rightarrow> RadiusAttribute list \<Rightarrow> AccountingEvent" where
  "event_of_attributes opts as =
     \<lparr>status_type = first_decoded ACCT_STATUS_TYPE status_value as,
      acct_session_id = first_decoded ACCT_SESSION_ID (Some \<circ> text_value) as,
      nas_ip_address = first_decoded NAS_IP_ADDRESS ipv4 as,
      nas_ipv6_address = first_decoded NAS_IPV6_ADDRESS ipv6 as,
      nas_identifier = first_decoded NAS_IDENTIFIER (Some \<circ> text_value) as,
      nas_port = first_decoded NAS_PORT u32_value as,
      nas_port_id = first_decoded NAS_PORT_ID (Some \<circ> text_value) as,
      user_name = first_decoded USER_NAME (Some \<circ> text_value) as,
      calling_station_id = first_decoded CALLING_STATION_ID (Some \<circ> text_value) as,
      called_station_id = first_decoded CALLED_STATION_ID (Some \<circ> text_value) as,
      class_values = all_decoded CLASS Some as,
      event_timestamp = first_decoded EVENT_TIMESTAMP u32_value as,
      framed_ip_address = first_decoded FRAMED_IP_ADDRESS ipv4 as,
      framed_ip_netmask = first_decoded FRAMED_IP_NETMASK ipv4 as,
      framed_routes = all_decoded FRAMED_ROUTE (Some \<circ> text_value) as,
      framed_ipv6_prefixes = all_decoded FRAMED_IPV6_PREFIX ipv6_prefix as,
      delegated_ipv6_prefixes = all_decoded DELEGATED_IPV6_PREFIX ipv6_prefix as,
      framed_ipv6_address = first_decoded FRAMED_IPV6_ADDRESS ipv6 as,
      unknown_standard_attributes = filter undecoded as,
      unknown_vendor_attributes = concat (map (unknown_vendor_attributes \<circ> vendor_effect opts) as),
      mikrotik_rate_limits = concat (map (mikrotik_rate_limits \<circ> vendor_effect opts) as)\<rparr>"

text \<open>
  C6. Extraction against its field-by-field description, for every attribute list: a single-valued
  field is the first attribute of its type that decodes, later ones never overwrite it; repeated
  fields keep every value in order; each attribute that no field can hold, and only such an
  attribute, is kept among the unknown ones; and each Vendor-Specific attribute contributes what
  it contributes alone.
\<close>

theorem from_request_with_options_fields:
  "from_request_with_options \<lparr>ar_packet = p\<rparr> opts = event_of_attributes opts (rp_attributes p)"
proof -
  have "foldl (\<lambda>e a. apply_attribute e a opts) default_event as = event_of_attributes opts as" for as
  proof (induction as rule: rev_induct)
    case Nil
    then show ?case
      by (simp add: default_event_def event_of_attributes_def all_decoded_def List.map_filter_def)
  next
    case (snoc a as)
    let ?e = "event_of_attributes opts as"
    have "apply_attribute ?e a opts = event_of_attributes opts (as @ [a])"
      by (rule AccountingEvent.equality)
        (simp_all add: apply_attribute_fields event_of_attributes_def first_decoded_append
          all_decoded_append del: first_decoded.simps)
    with snoc show ?case by simp
  qed
  then show ?thesis by (simp add: from_request_with_options_def)
qed

section \<open>Vendor payloads\<close>

definition sub_rate :: "AccountingEventOptions \<Rightarrow> RadiusAttribute \<Rightarrow> MikrotikRateLimit option" where
  "sub_rate opts a =
     (if ra_kind a = MIKROTIK_RATE_LIMIT then MikrotikRateLimit_parse (ra_value a) opts else None)"

definition sub_unknown :: "u32 \<Rightarrow> AccountingEventOptions \<Rightarrow> RadiusAttribute \<Rightarrow> UnknownVendorAttribute option" where
  "sub_unknown vid opts a =
     (if sub_rate opts a = None
      then Some (UnknownVendorAttribute_subattribute vid (ra_kind a) (ra_value a)) else None)"

lemma apply_vendor_subattributes_step:
  "wf_attribute a \<Longrightarrow> apply_vendor_subattributes e vid (encode_attribute a @ rest) opts
    = apply_vendor_subattributes
        (append_vendor (List.map_filter (sub_unknown vid opts) [a]) (List.map_filter (sub_rate opts) [a]) e)
        vid rest opts"
  by (subst apply_vendor_subattributes.simps)
    (auto simp: push_as_append_vendor sub_rate_def sub_unknown_def List.map_filter_def
      split: option.splits)

text \<open>
  The vendor loop on the payload of any sequence of sub-attributes followed by arbitrary bytes
  that do not start with one: every sub-attribute is consumed, each decodable rate limit is kept
  in order, every other sub-attribute is recorded, and the undecodable rest is recorded once,
  whole.
\<close>

lemma apply_vendor_subattributes_payload:
  assumes "list_all wf_attribute subs" and "tail = [] \<or> isl (split_radius_tlv tail)"
  shows "apply_vendor_subattributes e vid (concat (map encode_attribute subs) @ tail) opts
    = e\<lparr>unknown_vendor_attributes := unknown_vendor_attributes e
           @ List.map_filter (sub_unknown vid opts) subs
           @ (if tail = [] then [] else [UnknownVendorAttribute_vendor_data vid tail]),
        mikrotik_rate_limits := mikrotik_rate_limits e @ List.map_filter (sub_rate opts) subs\<rparr>"
  using assms(1)
proof (induction subs arbitrary: e)
  case Nil
  then show ?case
    using assms(2)
    by (subst apply_vendor_subattributes.simps) (auto simp: List.map_filter_def isl_def)
next
  case (Cons a subs)
  then show ?case
    by (simp add: apply_vendor_subattributes_step append_vendor_def List.map_filter_simps
        split: option.splits)
qed

text \<open>Two rate limits around an unknown sub-attribute, and one stray byte.\<close>

lemma apply_vendor_subattributes_payload_witness:
  "apply_vendor_subattributes default_event 14988
      (concat (map encode_attribute
        [\<lparr>ra_kind = 8, ra_value = as_bytes ''10M/2500k''\<rparr>, \<lparr>ra_kind = 9, ra_value = [1]\<rparr>]) @ [7])
      default_options
    = default_event\<lparr>
        unknown_vendor_attributes :=
          [UnknownVendorAttribute_subattribute 14988 9 [1], UnknownVendorAttribute_vendor_data 14988 [7]],
        mikrotik_rate_limits :=
          [\<lparr>mrl_original = ''10M/2500k'', mrl_nas_rx_bps = 10000000, mrl_nas_tx_bps = 2500000,
            mrl_upload_bps = 10000000, mrl_download_bps = 2500000\<rparr>]\<rparr>"
proof -
  let ?subs = "[\<lparr>ra_kind = 8, ra_value = as_bytes ''10M/2500k''\<rparr>, \<lparr>ra_kind = 9, ra_value = [1]\<rparr>]"
  have "list_all wf_attribute ?subs" by code_simp
  moreover have "[7 :: u8] = [] \<or> isl (split_radius_tlv [7])" by code_simp
  moreover have "List.map_filter (sub_rate default_options) ?subs
      = [\<lparr>mrl_original = ''10M/2500k'', mrl_nas_rx_bps = 10000000, mrl_nas_tx_bps = 2500000,
          mrl_upload_bps = 10000000, mrl_download_bps = 2500000\<rparr>]"
    by code_simp
  moreover have "List.map_filter (sub_unknown 14988 default_options) ?subs
      = [UnknownVendorAttribute_subattribute 14988 9 [1]]"
    by code_simp
  ultimately show ?thesis
    using apply_vendor_subattributes_payload [of ?subs "[7]" default_event 14988 default_options]
    by (simp add: default_event_def)
qed

section \<open>Rate strings\<close>

lemma unat_checked_mul:
  "checked_mul a b = Some (c :: 'a::len word) \<longleftrightarrow> unat c = unat a * unat b"
proof
  assume "checked_mul a b = Some c"
  then show "unat c = unat a * unat b"
    by (auto simp: checked_mul_def unat_word_ariths split: if_splits)
next
  assume *: "unat c = unat a * unat b"
  then have "unat a * unat b < 2 ^ LENGTH('a)" by (metis unsigned_less)
  moreover from this * have "c = a * b" by (simp add: word_unat_eq_iff unat_word_ariths)
  ultimately show "checked_mul a b = Some c" by (simp add: checked_mul_def)
qed

lemma mikrotik_multiplier_no_digit:
  "mikrotik_multiplier (to_ascii_lowercase s) \<noteq> None \<Longrightarrow> takeWhile is_ascii_digit s = []"
proof (cases s)
  case (Cons c cs)
  assume m: "mikrotik_multiplier (to_ascii_lowercase s) \<noteq> None"
  show ?thesis
  proof (rule ccontr)
    assume "takeWhile is_ascii_digit s \<noteq> []"
    then have d: "is_ascii_digit c" by (simp add: Cons split: if_splits)
    then have "to_ascii_lower c = c" by (simp add: to_ascii_lower_def is_ascii_digit_def)
    then have "hd (to_ascii_lowercase s) = c" "to_ascii_lowercase s \<noteq> []"
      by (simp_all add: to_ascii_lowercase_def Cons)
    with m d have "is_ascii_digit (hd (to_ascii_lowercase s))
        \<and> to_ascii_lowercase s \<in> {''bps'', ''k'', ''kb'', ''kbit'', ''kbps'', ''m'', ''mb'',
          ''mbit'', ''mbps'', ''g'', ''gb'', ''gbit'', ''gbps''}"
      by (auto simp: mikrotik_multiplier_def split: if_splits)
    then show False by (auto simp: is_ascii_digit_def)
  qed
qed simp

lemma parse_unsigned_digits:
  "ds \<noteq> [] \<Longrightarrow> list_all is_ascii_digit ds
    \<Longrightarrow> parse_unsigned w ds = (if dec_nat ds < 2 ^ w then Some (dec_nat ds) else None)"
  by (auto simp: parse_unsigned_def is_ascii_digit_def Let_def split: list.splits)

text \<open>
  A rate string is accepted exactly when, without surrounding white space, it is a decimal
  number followed by a unit, in any case, and the number times the unit fits 64 bits; the result is
  that product, never a wrapped one.
\<close>

lemma parse_mikrotik_rate_iff:
  "parse_mikrotik_rate v = Some r
    \<longleftrightarrow> (\<exists>ds unit m. trim v = ds @ unit \<and> ds \<noteq> [] \<and> list_all is_ascii_digit ds
          \<and> mikrotik_multiplier (to_ascii_lowercase unit) = Some m
          \<and> unat r = dec_nat ds * unat m)"
  (is "_ = (\<exists>ds unit m. ?R ds unit m)")
proof
  assume p: "parse_mikrotik_rate v = Some r"
  let ?n = "length (takeWhile is_ascii_digit (trim v))"
  let ?ds = "take ?n (trim v)" and ?u = "drop ?n (trim v)"
  have ds: "?ds = takeWhile is_ascii_digit (trim v)" by (rule takeWhile_eq_take [symmetric])
  have dig: "list_all is_ascii_digit ?ds" unfolding ds list_all_iff by (auto dest: set_takeWhileD)
  from p have ne: "?n \<noteq> 0" by (auto simp: parse_mikrotik_rate_def Let_def split: if_splits)
  then have ne': "?ds \<noteq> []" by auto
  from p ne obtain m where "dec_nat ?ds < 2 ^ 64" "mikrotik_multiplier (to_ascii_lowercase ?u) = Some m"
    "checked_mul (word_of_nat (dec_nat ?ds)) m = Some r"
    by (auto simp: parse_mikrotik_rate_def Let_def parse_unsigned_digits [OF ne' dig]
        split: option.splits if_splits)
  then have "?R ?ds ?u m"
    using ne' dig by (simp add: unat_checked_mul unat_of_nat take_bit_nat_eq_self_iff)
  then show "\<exists>ds unit m. ?R ds unit m" by blast
next
  assume "\<exists>ds unit m. ?R ds unit m"
  then obtain ds unit m where R: "?R ds unit m" by blast
  have tw: "takeWhile is_ascii_digit (trim v) = ds"
    using R mikrotik_multiplier_no_digit [of unit]
    by (simp add: takeWhile_append2 list_all_iff)
  have "m \<noteq> 0" using R by (auto simp: mikrotik_multiplier_def split: if_splits)
  then have "0 < unat m" by (simp add: unat_gt_0)
  then have "dec_nat ds \<le> unat r" using R by simp
  then have "dec_nat ds < 2 ^ 64" using unat_u64_less [of r] by linarith
  then show "parse_mikrotik_rate v = Some r"
    using R tw
    by (simp add: parse_mikrotik_rate_def Let_def parse_unsigned_digits unat_checked_mul
        unat_of_nat take_bit_nat_eq_self_iff)
qed

section \<open>IPv6 prefixes\<close>

lemma and_mask_eq_0: "b AND mask k = 0 \<longleftrightarrow> unat b mod 2 ^ k = 0" for b :: u8
proof -
  have "unat (take_bit k b) = unat b mod 2 ^ k"
    unfolding unsigned_take_bit_eq by (rule take_bit_eq_mod)
  then show ?thesis using unat_eq_zero [of "take_bit k b"] by (simp add: take_bit_eq_mask)
qed

lemma and_not_mask:
  fixes b :: u8
  assumes "b AND mask k = 0"
  shows "b AND NOT (mask k) = b"
proof (rule bit_word_eqI)
  fix i
  assume "i < LENGTH(8)"
  have "\<not> bit (b AND mask k) i" using assms by simp
  then show "bit (b AND NOT (mask k)) i = bit b i"
    using \<open>i < LENGTH(8)\<close> by (auto simp: bit_and_iff bit_not_iff bit_mask_iff)
qed

lemma unat_Ipv6Addr_from: "length bs = 16 \<Longrightarrow> unat (Ipv6Addr_from bs) = be_nat bs"
  using be_nat_less [of bs] by (simp add: Ipv6Addr_from_def unat_of_nat take_bit_nat_eq_self_iff)

lemma div_mod_bound8:
  fixes l :: nat
  assumes "l mod 8 \<noteq> 0"
  shows "8 * (l div 8) < Suc l" "8 + 8 * (l div 8) \<le> l + 7"
  using mult_div_mod_eq [of 8 l] assms by linarith+

lemma be_nat_prefix:
  assumes len: "length ws = 16" and l: "l \<le> 128" and n: "n = (l + 7) div 8"
  shows "be_nat ws mod 2 ^ (128 - l) = 0
    \<longleftrightarrow> list_all (\<lambda>b. b = 0) (drop n ws)
      \<and> (l mod 8 = 0 \<or> unat (ws ! (n - 1)) mod 2 ^ (8 - l mod 8) = 0)"
proof -
  have n16: "n \<le> 16" using l n by simp
  have e: "128 - l = (8 * n - l) + 8 * (16 - n)" using l n by simp
  have "(2 :: nat) ^ (128 - l) = 2 ^ (8 * n - l) * 256 ^ (16 - n)"
    unfolding e by (simp add: power_add power_mult)
  moreover have "be_nat ws = be_nat (take n ws) * 256 ^ (16 - n) + be_nat (drop n ws)"
    using be_nat_append [of "take n ws" "drop n ws"] len by simp
  moreover have "be_nat (drop n ws) < 256 ^ (16 - n)"
    using be_nat_less [of "drop n ws"] len by simp
  ultimately have "be_nat ws mod 2 ^ (128 - l) = 0
      \<longleftrightarrow> be_nat (take n ws) mod 2 ^ (8 * n - l) = 0 \<and> be_nat (drop n ws) = 0"
    by (simp add: mod_mult_block)
  moreover have "be_nat (take n ws) mod 2 ^ (8 * n - l) = 0
      \<longleftrightarrow> l mod 8 = 0 \<or> unat (ws ! (n - 1)) mod 2 ^ (8 - l mod 8) = 0"
  proof (cases "l mod 8 = 0")
    case True
    then have "8 * n = l" using n by presburger
    with True show ?thesis by simp
  next
    case False
    then have "n = Suc (l div 8)" unfolding n by (intro div_nat_eqI) (use False in \<open>simp_all add: div_mod_bound8\<close>)
    moreover have "8 * (l div 8) + l mod 8 = l" by (rule mult_div_mod_eq)
    ultimately have k: "8 * n - l = 8 - l mod 8" and pos: "0 < n" by linarith+
    have "(2 :: nat) ^ (8 - l mod 8) dvd 2 ^ 8" by (rule le_imp_power_dvd) simp
    then have d: "(2 :: nat) ^ (8 - l mod 8) dvd 256" by simp
    have "take n ws = take (n - 1) ws @ [ws ! (n - 1)]"
      using pos n16 len take_Suc_conv_app_nth [of "n - 1" ws] by simp
    then show ?thesis using False be_nat_mod [OF d] by (simp add: k)
  qed
  ultimately show ?thesis by (auto simp: be_nat_eq_0)
qed

lemma unat_mod_8: "unat (l mod 8 :: u8) = unat l mod 8"
  by (simp add: unat_mod)

lemma final_prefix_byte_mask_eq:
  "final_prefix_byte_mask l
    = (if unat l mod 8 = 0 then None else Some (push_bit (8 - unat l mod 8) (- 1)))"
proof -
  have r: "unat (l mod 8) = unat l mod 8" by (rule unat_mod_8)
  moreover have "l mod 8 \<le> 8" by (simp add: word_le_nat_alt r less_imp_le)
  ultimately have "unat (8 - l mod 8) = 8 - unat l mod 8" by (simp add: unat_sub)
  moreover have "l mod 8 = 0 \<longleftrightarrow> unat l mod 8 = 0" using r by (simp add: unat_eq_zero [symmetric])
  ultimately show ?thesis by (simp add: final_prefix_byte_mask_def Let_def)
qed

lemma ipv6_prefix_cases:
  assumes "length bs \<le> 16" and l: "unat l \<le> 128" and n: "n = (unat l + 7) div 8"
    and ws: "ws = bs @ replicate (16 - length bs) 0"
  shows "ipv6_prefix (0 # l # bs) =
    (if n \<le> length bs \<and> be_nat ws mod 2 ^ (128 - unat l) = 0
     then Some \<lparr>ip6_address = Ipv6Addr_from ws, ip6_prefix_len = l\<rparr> else None)"
proof (cases "n \<le> length bs \<and> list_all (\<lambda>b. b = 0) (drop n bs)")
  case False
  have "list_all (\<lambda>b. b = 0) (drop n ws) \<Longrightarrow> list_all (\<lambda>b. b = 0) (drop n bs)" by (simp add: ws)
  with False have "\<not> (n \<le> length bs \<and> be_nat ws mod 2 ^ (128 - unat l) = 0)"
    using be_nat_prefix [of ws "unat l" n] assms by auto
  moreover have "ipv6_prefix (0 # l # bs) = None"
    using False n by (auto simp: ipv6_prefix_def Let_def list_ex_iff list_all_iff)
  ultimately show ?thesis by simp
next
  case True
  then have zeros: "drop n bs = replicate (length bs - n) 0"
    by (intro replicate_eqI) (auto simp: list_all_iff)
  have "ws = take n bs @ drop n bs @ replicate (16 - length bs) 0" by (simp add: ws)
  also have "\<dots> = take n bs @ replicate ((length bs - n) + (16 - length bs)) 0"
    unfolding zeros replicate_add by (rule refl)
  finally have wsn: "ws = take n bs @ replicate (16 - n) 0" using True assms(1) by simp
  have copy: "copy_at 0 (take n bs) (replicate 16 0) = ws"
    using True by (simp add: copy_at_def wsn)
  have l': "l \<le> 128" using l by (simp add: word_le_nat_alt)
  have nws: "list_all (\<lambda>b. b = 0) (drop n ws)" using True by (simp add: wsn list_all_iff)
  have iff: "be_nat ws mod 2 ^ (128 - unat l) = 0
      \<longleftrightarrow> unat l mod 8 = 0 \<or> unat (ws ! (n - 1)) mod 2 ^ (8 - unat l mod 8) = 0"
    using be_nat_prefix [of ws "unat l" n] nws assms by simp
  show ?thesis
    using True l' assms(1)
    by (auto simp: ipv6_prefix_def Let_def copy iff final_prefix_byte_mask_eq
        and_mask_eq_0 and_not_mask list_ex_iff list_all_iff simp flip: n)
qed

text \<open>
  An IPv6 prefix attribute is accepted exactly when it is a zero byte, a length of at most 128
  and at most 16 address bytes that cover the length, and the address they spell, padded with
  zeros, has no bit set below the prefix: the decoder accepts every canonical prefix and nothing
  with host bits.
\<close>

lemma ipv6_prefix_iff:
  "ipv6_prefix v = Some p
    \<longleftrightarrow> (\<exists>bs. v = 0 # ip6_prefix_len p # bs \<and> length bs \<le> 16
          \<and> unat (ip6_prefix_len p) \<le> 128 \<and> unat (ip6_prefix_len p) \<le> 8 * length bs
          \<and> ip6_address p = Ipv6Addr_from (bs @ replicate (16 - length bs) 0)
          \<and> unat (ip6_address p) mod 2 ^ (128 - unat (ip6_prefix_len p)) = 0)"
  (is "_ = (\<exists>bs. ?R bs)")
proof -
  have shape: "\<exists>l bs. v = 0 # l # bs \<and> length bs \<le> 16 \<and> unat l \<le> 128" if "ipv6_prefix v = Some p"
  proof -
    from that have len: "2 \<le> length v" "length v \<le> 18" and "v ! 0 = 0" and "v ! 1 \<le> 128"
      by (auto simp: ipv6_prefix_def Let_def split: if_splits)
    moreover from len obtain a l bs where "v = a # l # bs" by (metis Suc_le_length_iff numeral_2_eq_2)
    ultimately show ?thesis by (auto simp: word_le_nat_alt)
  qed
  have cover: "(m + 7) div 8 \<le> k \<longleftrightarrow> m \<le> 8 * k" for m k :: nat
    using div_le_mono [of "m + 7" "8 * k + 7" 8] div_mult_mod_eq [of "m + 7" 8] by linarith
  show ?thesis
  proof
    assume s: "ipv6_prefix v = Some p"
    with shape obtain l bs where v: "v = 0 # l # bs" and b: "length bs \<le> 16" "unat l \<le> 128" by blast
    let ?ws = "bs @ replicate (16 - length bs) 0"
    from s have p: "p = \<lparr>ip6_address = Ipv6Addr_from ?ws, ip6_prefix_len = l\<rparr>"
      and "(unat l + 7) div 8 \<le> length bs" "be_nat ?ws mod 2 ^ (128 - unat l) = 0"
      unfolding v ipv6_prefix_cases [OF b refl refl] if_Some_iff by blast+
    moreover have "unat (Ipv6Addr_from ?ws) = be_nat ?ws" using b by (simp add: unat_Ipv6Addr_from)
    ultimately have "?R bs" using b v by (simp add: cover)
    then show "\<exists>bs. ?R bs" by (rule exI)
  next
    assume "\<exists>bs. ?R bs"
    then obtain bs where R: "?R bs" by (rule exE)
    then have b: "length bs \<le> 16" "unat (ip6_prefix_len p) \<le> 128" by simp_all
    have "unat (Ipv6Addr_from (bs @ replicate (16 - length bs) 0))
        = be_nat (bs @ replicate (16 - length bs) 0)" using b by (simp add: unat_Ipv6Addr_from)
    with R have "be_nat (bs @ replicate (16 - length bs) 0) mod 2 ^ (128 - unat (ip6_prefix_len p)) = 0"
      by metis
    with R have "ipv6_prefix v = Some \<lparr>ip6_address = ip6_address p, ip6_prefix_len = ip6_prefix_len p\<rparr>"
      using ipv6_prefix_cases [OF b refl refl] by (simp add: cover)
    then show "ipv6_prefix v = Some p" by simp
  qed
qed

end
