(* ===== verification/Rust_Float.thy ===== *)
theory Rust_Float
  imports LQ_Prelude Complex_Main "HOL-Library.Log_Nat"
begin

text \<open>
  IEEE 754 numbers as the program uses them: a finite value is the rational it stands for (the
  sign of zero is never observed), comparisons are false on NaN, and an operation rounds its exact
  result to the nearest representable number, ties to even, with gradual underflow and overflow to
  infinity.
\<close>

datatype ieee = NaN | PosInf | NegInf | Fin rat

type_synonym f32 = ieee
type_synonym f64 = ieee

definition is_finite :: "ieee \<Rightarrow> bool" where
  "is_finite x = (case x of Fin _ \<Rightarrow> True | _ \<Rightarrow> False)"

instantiation ieee :: ord
begin

fun less_eq_ieee :: "ieee \<Rightarrow> ieee \<Rightarrow> bool" where
  "less_eq_ieee NaN y = False"
| "less_eq_ieee x NaN = False"
| "less_eq_ieee NegInf y = True"
| "less_eq_ieee x PosInf = True"
| "less_eq_ieee (Fin a) (Fin b) = (a \<le> b)"
| "less_eq_ieee (Fin a) NegInf = False"
| "less_eq_ieee PosInf y = False"

fun less_ieee :: "ieee \<Rightarrow> ieee \<Rightarrow> bool" where
  "less_ieee NaN y = False"
| "less_ieee x NaN = False"
| "less_ieee NegInf y = (y \<noteq> NegInf)"
| "less_ieee PosInf y = False"
| "less_ieee (Fin a) PosInf = True"
| "less_ieee (Fin a) (Fin b) = (a < b)"
| "less_ieee (Fin a) NegInf = False"

instance ..

end

section \<open>Rounding\<close>

definition pow2 :: "int \<Rightarrow> rat" where
  "pow2 e = (if 0 \<le> e then 2 ^ nat e else 1 / 2 ^ nat (- e))"

text \<open>The exponent of the leading bit of a positive rational.\<close>

definition rat_exponent :: "rat \<Rightarrow> int" where
  "rat_exponent q = (let (n, d) = quotient_of q;
       k = int (floorlog 2 (nat n)) - int (floorlog 2 (nat d))
     in if pow2 k \<le> q then k else k - 1)"

definition round_half_even :: "rat \<Rightarrow> int" where
  "round_half_even q = (let f = \<lfloor>q\<rfloor>; r = q - of_int f in
     if r < 1/2 then f else if r > 1/2 then f + 1 else if even f then f else f + 1)"

text \<open>Rounding of a non-negative value to \<open>p\<close> significant bits, exponents \<open>emin\<close> to \<open>emax\<close>.\<close>

definition round_nonneg :: "nat \<Rightarrow> int \<Rightarrow> int \<Rightarrow> rat \<Rightarrow> ieee" where
  "round_nonneg p emin emax q =
     (if q = 0 then Fin 0
      else let ulp = pow2 (max emin (rat_exponent q) - (int p - 1));
               v = of_int (round_half_even (q / ulp)) * ulp
           in if v < pow2 (emax + 1) then Fin v else PosInf)"

definition neg_ieee :: "ieee \<Rightarrow> ieee" where
  "neg_ieee x = (case x of NaN \<Rightarrow> NaN | PosInf \<Rightarrow> NegInf | NegInf \<Rightarrow> PosInf | Fin a \<Rightarrow> Fin (- a))"

definition round_ieee :: "nat \<Rightarrow> int \<Rightarrow> int \<Rightarrow> rat \<Rightarrow> ieee" where
  "round_ieee p emin emax q =
     (if 0 \<le> q then round_nonneg p emin emax q else neg_ieee (round_nonneg p emin emax (- q)))"

definition f32_of_rat :: "rat \<Rightarrow> f32" where
  "f32_of_rat q = round_ieee 24 (- 126) 127 q"

definition f64_of_rat :: "rat \<Rightarrow> f64" where
  "f64_of_rat q = round_ieee 53 (- 1022) 1023 q"

text \<open>Division of a finite value by a finite non-zero constant.\<close>

definition f32_div_const :: "f32 \<Rightarrow> rat \<Rightarrow> f32" where
  "f32_div_const x c = (case x of
       NaN \<Rightarrow> NaN
     | PosInf \<Rightarrow> if 0 < c then PosInf else NegInf
     | NegInf \<Rightarrow> if 0 < c then NegInf else PosInf
     | Fin a \<Rightarrow> f32_of_rat (a / c))"

section \<open>Arithmetic of \<open>f64\<close>\<close>

fun f64_add :: "f64 \<Rightarrow> f64 \<Rightarrow> f64" where
  "f64_add (Fin a) (Fin b) = f64_of_rat (a + b)"
| "f64_add NaN y = NaN"
| "f64_add x NaN = NaN"
| "f64_add PosInf NegInf = NaN"
| "f64_add NegInf PosInf = NaN"
| "f64_add PosInf y = PosInf"
| "f64_add x PosInf = PosInf"
| "f64_add NegInf y = NegInf"
| "f64_add x NegInf = NegInf"

definition f64_sub :: "f64 \<Rightarrow> f64 \<Rightarrow> f64" where
  "f64_sub x y = f64_add x (neg_ieee y)"

definition ieee_sign :: "ieee \<Rightarrow> int" where
  "ieee_sign x = (case x of NaN \<Rightarrow> 0 | PosInf \<Rightarrow> 1 | NegInf \<Rightarrow> - 1
     | Fin a \<Rightarrow> if 0 < a then 1 else if a < 0 then - 1 else 0)"

fun f64_mul :: "f64 \<Rightarrow> f64 \<Rightarrow> f64" where
  "f64_mul (Fin a) (Fin b) = f64_of_rat (a * b)"
| "f64_mul x y =
     (if x = NaN \<or> y = NaN then NaN
      else let s = ieee_sign x * ieee_sign y in if s = 0 then NaN else if 0 < s then PosInf else NegInf)"

text \<open>A zero divisor counts as positive; the program guards its divisors.\<close>

fun f64_div :: "f64 \<Rightarrow> f64 \<Rightarrow> f64" where
  "f64_div (Fin a) (Fin b) =
     (if b \<noteq> 0 then f64_of_rat (a / b) else if a = 0 then NaN else if 0 < a then PosInf else NegInf)"
| "f64_div (Fin a) y = (if y = NaN then NaN else Fin 0)"
| "f64_div x (Fin b) = (if x = NaN then NaN else if 0 \<le> b then x else neg_ieee x)"
| "f64_div x y = NaN"

definition f64_of_u64 :: "u64 \<Rightarrow> f64" where
  "f64_of_u64 n = f64_of_rat (of_nat (unat n))"

definition f64_abs :: "f64 \<Rightarrow> f64" where
  "f64_abs x = (case x of NegInf \<Rightarrow> PosInf | Fin a \<Rightarrow> Fin \<bar>a\<bar> | _ \<Rightarrow> x)"

text \<open>\<open>max\<close> and \<open>min\<close> prefer the operand that is not NaN.\<close>

definition f64_max :: "f64 \<Rightarrow> f64 \<Rightarrow> f64" where
  "f64_max x y = (if x = NaN then y else if y = NaN then x else if x < y then y else x)"

definition f64_min :: "f64 \<Rightarrow> f64 \<Rightarrow> f64" where
  "f64_min x y = (if x = NaN then y else if y = NaN then x else if y < x then y else x)"

section \<open>Facts\<close>

lemma pow2_pos [simp]: "0 < pow2 e"
  by (simp add: pow2_def)

lemma pow2_add: "pow2 (a + b) = pow2 a * pow2 b"
proof -
  have eq: "pow2 e = 2 powi e" for e
    by (simp add: pow2_def power_int_def field_simps)
  show ?thesis by (simp add: eq power_int_add)
qed

lemma pow2_mono: "a \<le> b \<Longrightarrow> pow2 a \<le> pow2 b"
proof -
  assume "a \<le> b"
  then have "pow2 (b - a) = 2 ^ nat (b - a)" by (simp add: pow2_def)
  then have "1 \<le> pow2 (b - a)" by simp
  then have "pow2 a * 1 \<le> pow2 a * pow2 (b - a)" by (intro mult_left_mono) (simp_all add: less_imp_le)
  then show ?thesis by (simp add: pow2_add [symmetric])
qed

lemma pow2_less_iff: "pow2 a < pow2 b \<Longrightarrow> a < b"
  by (metis leD leI pow2_mono)

lemma pow2_1 [simp]: "pow2 1 = 2" and pow2_0 [simp]: "pow2 0 = 1"
  by (simp_all add: pow2_def)

lemma floorlog_pow2:
  assumes "0 < n"
  shows "pow2 (int (floorlog 2 n) - 1) \<le> of_nat n" and "of_nat n < pow2 (int (floorlog 2 n))"
proof -
  have b: "2 ^ (floorlog 2 n - 1) \<le> n" "n < 2 ^ floorlog 2 n"
    using floorlog_bounds [of n 2] assms by simp_all
  have pos: "0 < floorlog 2 n" using b(2) assms by (cases "floorlog 2 n") simp_all
  have "of_nat (2 ^ (floorlog 2 n - 1)) \<le> (of_nat n :: rat)" using b(1) by (rule of_nat_mono)
  moreover have "nat (int (floorlog 2 n) - 1) = floorlog 2 n - 1" by simp
  ultimately show "pow2 (int (floorlog 2 n) - 1) \<le> of_nat n"
    using pos by (simp add: pow2_def)
  have "(of_nat n :: rat) < of_nat (2 ^ floorlog 2 n)" using b(2) by (subst of_nat_less_iff)
  then show "of_nat n < pow2 (int (floorlog 2 n))" by (simp add: pow2_def)
qed

lemma rat_exponent_bounds:
  assumes "0 < q"
  shows "pow2 (rat_exponent q) \<le> q" and "q < pow2 (rat_exponent q + 1)"
proof -
  obtain n d where nd: "quotient_of q = (n, d)" by (cases "quotient_of q")
  have q: "q = of_int n / of_int d" and d: "0 < d"
    using nd quotient_of_div quotient_of_denom_pos by auto
  have n: "0 < n" using assms d q by (simp add: zero_less_divide_iff)
  let ?a = "int (floorlog 2 (nat n))" and ?b = "int (floorlog 2 (nat d))"
  have nn: "(of_int n :: rat) = of_nat (nat n)" and dd: "(of_int d :: rat) = of_nat (nat d)"
    using n d by simp_all
  have N: "pow2 (?a - 1) \<le> of_int n" "of_int n < pow2 ?a"
    using floorlog_pow2 [of "nat n"] n unfolding nn by simp_all
  have D: "pow2 (?b - 1) \<le> of_int d" "of_int d < pow2 ?b"
    using floorlog_pow2 [of "nat d"] d unfolding dd by simp_all
  have dpos: "(0 :: rat) < of_int d" using d by simp
  have "pow2 (?a - ?b - 1) * of_int d \<le> pow2 (?a - ?b - 1) * pow2 ?b"
    using D(2) by (intro mult_left_mono) (simp_all add: less_imp_le)
  also have "\<dots> = pow2 (?a - 1)" by (simp add: pow2_add [symmetric])
  also have "\<dots> \<le> of_int n" by (rule N)
  finally have lo: "pow2 (?a - ?b - 1) \<le> q" using dpos by (simp add: q pos_le_divide_eq)
  have "of_int n < pow2 (?a - ?b + 1) * pow2 (?b - 1)" using N(2) by (simp add: pow2_add [symmetric])
  also have "\<dots> \<le> pow2 (?a - ?b + 1) * of_int d"
    using D(1) by (intro mult_left_mono) (simp_all add: less_imp_le)
  finally have hi: "q < pow2 (?a - ?b + 1)" using dpos by (simp add: q pos_divide_less_eq)
  show "pow2 (rat_exponent q) \<le> q" "q < pow2 (rat_exponent q + 1)"
    using lo hi by (simp_all add: rat_exponent_def nd Let_def)
qed

lemma round_half_even_between:
  assumes "of_int a \<le> q" and "q \<le> of_int b"
  shows "a \<le> round_half_even q" and "round_half_even q \<le> b"
proof -
  have f: "a \<le> \<lfloor>q\<rfloor>" using assms(1) by (simp add: le_floor_iff)
  have up: "\<lfloor>q\<rfloor> + 1 \<le> b" if "of_int \<lfloor>q\<rfloor> \<noteq> q"
  proof -
    have "of_int \<lfloor>q\<rfloor> < q" using that of_int_floor_le [of q] by linarith
    then have "(of_int \<lfloor>q\<rfloor> :: rat) < of_int b" using assms(2) by linarith
    then show ?thesis by simp
  qed
  have "\<lfloor>q\<rfloor> \<le> b" using assms(2) by (metis floor_mono floor_of_int)
  with up show "round_half_even q \<le> b"
    by (cases "of_int \<lfloor>q\<rfloor> = q") (auto simp: round_half_even_def Let_def)
  show "a \<le> round_half_even q" using f by (auto simp: round_half_even_def Let_def)
qed

text \<open>
  A value in the normal range rounds to a finite positive value between the powers of two around
  it.
\<close>

lemma round_nonneg_normal:
  assumes q: "pow2 emin \<le> q" "q < pow2 emax" and p: "0 < p"
  shows "\<exists>v. round_nonneg p emin emax q = Fin v \<and> pow2 (rat_exponent q) \<le> v
    \<and> v \<le> pow2 (rat_exponent q + 1)"
proof -
  let ?e = "rat_exponent q"
  let ?ulp = "pow2 (?e - (int p - 1))"
  have qpos: "0 < q" using q(1) pow2_pos by (rule less_le_trans [rotated])
  note b = rat_exponent_bounds [OF qpos]
  have "pow2 emin < pow2 (?e + 1)" using q(1) b(2) by linarith
  then have e: "emin \<le> ?e" using pow2_less_iff by fastforce
  have "pow2 ?e < pow2 emax" using b(1) q(2) by linarith
  then have e2: "?e + 1 \<le> emax" using pow2_less_iff by fastforce
  have u1: "of_int (2 ^ (p - 1)) * ?ulp = pow2 ?e"
  proof -
    have "(of_int (2 ^ (p - 1)) :: rat) = pow2 (int p - 1)" using p by (simp add: pow2_def nat_diff_distrib)
    then show ?thesis by (simp add: pow2_add [symmetric])
  qed
  have u2: "of_int (2 ^ p) * ?ulp = pow2 (?e + 1)"
  proof -
    have "(of_int (2 ^ p) :: rat) = pow2 (int p)" by (simp add: pow2_def)
    then show ?thesis by (simp add: pow2_add [symmetric])
  qed
  have "of_int (2 ^ (p - 1)) \<le> q / ?ulp" using b(1) u1 by (simp add: pos_le_divide_eq)
  moreover have "q / ?ulp \<le> of_int (2 ^ p)" using b(2) u2 by (simp add: pos_divide_le_eq)
  ultimately have "2 ^ (p - 1) \<le> round_half_even (q / ?ulp)" "round_half_even (q / ?ulp) \<le> 2 ^ p"
    by (rule round_half_even_between)+
  then have "of_int (2 ^ (p - 1)) * ?ulp \<le> of_int (round_half_even (q / ?ulp)) * ?ulp"
    "of_int (round_half_even (q / ?ulp)) * ?ulp \<le> of_int (2 ^ p) * ?ulp"
    by (intro mult_right_mono; simp add: less_imp_le del: of_int_power)+
  then have v: "pow2 ?e \<le> of_int (round_half_even (q / ?ulp)) * ?ulp"
    "of_int (round_half_even (q / ?ulp)) * ?ulp \<le> pow2 (?e + 1)"
    unfolding u1 u2 .
  have "pow2 (?e + 1) \<le> pow2 emax" using e2 by (rule pow2_mono)
  also have "pow2 emax < pow2 (emax + 1)" by (simp add: pow2_add)
  finally have "of_int (round_half_even (q / ?ulp)) * ?ulp < pow2 (emax + 1)" using v(2) by linarith
  with v e qpos show ?thesis by (simp add: round_nonneg_def Let_def max_def)
qed

end
