(* ===== verification/Shaped_Device.thy ===== *)
theory Shaped_Device
  imports Radius_Event Rust_Float
begin

text \<open>
  Shaped-device rows, the validation of rate profiles and the matching of RADIUS identities to
  rows (\<open>lqos_config/src/shaped_devices/shaped_device.rs\<close>,
  \<open>lqos_config/src/etc/v15/radius_accounting.rs\<close>, \<open>lqos_radius/src/mac_match.rs\<close>). The hash
  behind \<open>hash_to_i64\<close> is an argument: nothing here depends on its values.
\<close>

section \<open>Rows and rate profiles\<close>

record ShapedDevice =
  sd_circuit_id :: string
  sd_circuit_name :: string
  sd_device_id :: string
  sd_device_name :: string
  sd_parent_node :: string
  sd_parent_node_id :: "string option"
  sd_anchor_node_id :: "string option"
  sd_mac :: string
  sd_ipv4 :: "(Ipv4Addr \<times> u32) list"
  sd_ipv6 :: "(Ipv6Addr \<times> u32) list"
  sd_download_min_mbps :: f32
  sd_upload_min_mbps :: f32
  sd_download_max_mbps :: f32
  sd_upload_max_mbps :: f32
  sd_comment :: string
  sd_sqm_override :: "string option"
  sd_circuit_hash :: i64
  sd_device_hash :: i64
  sd_parent_hash :: i64

definition default_device :: ShapedDevice where
  "default_device = \<lparr>sd_circuit_id = [], sd_circuit_name = [], sd_device_id = [],
     sd_device_name = [], sd_parent_node = [], sd_parent_node_id = None, sd_anchor_node_id = None,
     sd_mac = [], sd_ipv4 = [], sd_ipv6 = [], sd_download_min_mbps = Fin 0,
     sd_upload_min_mbps = Fin 0, sd_download_max_mbps = Fin 0, sd_upload_max_mbps = Fin 0,
     sd_comment = [], sd_sqm_override = None, sd_circuit_hash = 0, sd_device_hash = 0,
     sd_parent_hash = 0\<rparr>"

definition refresh_hashes :: "(string \<Rightarrow> i64) \<Rightarrow> ShapedDevice \<Rightarrow> ShapedDevice" where
  "refresh_hashes hash_to_i64 d =
     d\<lparr>sd_circuit_hash := hash_to_i64 (sd_circuit_id d),
       sd_device_hash := hash_to_i64 (sd_device_id d),
       sd_parent_hash := hash_to_i64 (sd_parent_node d)\<rparr>"

datatype RateProfileValidationError =
    NonFinite string f32
  | NonPositive string f32
  | MinimumExceedsMaximum string f32 string f32

definition validate_rate_profile_field ::
  "string \<Rightarrow> f32 \<Rightarrow> (unit, RateProfileValidationError) result" where
  "validate_rate_profile_field field rate_mbps =
     (if \<not> is_finite rate_mbps then Err (NonFinite field rate_mbps)
      else if rate_mbps \<le> Fin 0 then Err (NonPositive field rate_mbps)
      else Ok ())"

definition validate_rate_profile_order ::
  "string \<Rightarrow> f32 \<Rightarrow> string \<Rightarrow> f32 \<Rightarrow> (unit, RateProfileValidationError) result" where
  "validate_rate_profile_order min_field min_mbps max_field max_mbps =
     (if min_mbps > max_mbps
      then Err (MinimumExceedsMaximum min_field min_mbps max_field max_mbps)
      else Ok ())"

definition validate_rate_profile_mbps ::
  "f32 \<Rightarrow> f32 \<Rightarrow> f32 \<Rightarrow> f32 \<Rightarrow> (unit, RateProfileValidationError) result" where
  "validate_rate_profile_mbps download_min_mbps upload_min_mbps download_max_mbps upload_max_mbps =
     and_then (validate_rate_profile_field ''download_min_mbps'' download_min_mbps) (\<lambda>_.
     and_then (validate_rate_profile_field ''upload_min_mbps'' upload_min_mbps) (\<lambda>_.
     and_then (validate_rate_profile_field ''download_max_mbps'' download_max_mbps) (\<lambda>_.
     and_then (validate_rate_profile_field ''upload_max_mbps'' upload_max_mbps) (\<lambda>_.
     and_then (validate_rate_profile_order ''download_min_mbps'' download_min_mbps
                 ''download_max_mbps'' download_max_mbps) (\<lambda>_.
       validate_rate_profile_order ''upload_min_mbps'' upload_min_mbps
         ''upload_max_mbps'' upload_max_mbps)))))"

lemma validate_rate_profile_ok:
  "validate_rate_profile_mbps dmin umin dmax umax = Ok ()
    \<longleftrightarrow> (\<exists>a b c d. dmin = Fin a \<and> umin = Fin b \<and> dmax = Fin c \<and> umax = Fin d
          \<and> 0 < a \<and> a \<le> c \<and> 0 < b \<and> b \<le> d)"
  by (cases dmin; cases umin; cases dmax; cases umax)
    (auto simp: validate_rate_profile_mbps_def validate_rate_profile_field_def
      validate_rate_profile_order_def is_finite_def result_simps)

section \<open>MAC normalisation\<close>

text \<open>The group loop of \<open>normalize_delimited_mac\<close> and its inner character loop.\<close>

fun normalize_group :: "string \<Rightarrow> string \<Rightarrow> string option" where
  "normalize_group normalized_mac [] = Some normalized_mac"
| "normalize_group normalized_mac (ch # chs) =
     (if \<not> is_ascii_hexdigit ch then None
      else normalize_group (normalized_mac @ [to_ascii_lower ch]) chs)"

fun normalize_groups :: "nat \<Rightarrow> string \<Rightarrow> nat \<Rightarrow> string list \<Rightarrow> (nat \<times> string) option" where
  "normalize_groups expected_group_len normalized_mac group_count [] =
     Some (group_count, normalized_mac)"
| "normalize_groups expected_group_len normalized_mac group_count (g # gs) =
     (if length g \<noteq> expected_group_len then None
      else case normalize_group normalized_mac g of
        None \<Rightarrow> None
      | Some m \<Rightarrow> normalize_groups expected_group_len m (group_count + 1) gs)"

definition normalize_delimited_mac :: "string \<Rightarrow> char \<Rightarrow> nat \<Rightarrow> nat \<Rightarrow> string option" where
  "normalize_delimited_mac raw_mac separator expected_groups expected_group_len =
     (case normalize_groups expected_group_len [] 0 (split_on separator raw_mac) of
        None \<Rightarrow> None
      | Some (group_count, normalized_mac) \<Rightarrow>
          if group_count = expected_groups then Some normalized_mac else None)"

definition normalize_radius_mac :: "string \<Rightarrow> string option" where
  "normalize_radius_mac raw =
     (let raw_mac = trim raw in
      if length raw_mac = 12 \<and> list_all is_ascii_hexdigit raw_mac
      then Some (to_ascii_lowercase raw_mac)
      else if CHR '':'' \<in> set raw_mac then normalize_delimited_mac raw_mac CHR '':'' 6 2
      else if CHR ''-'' \<in> set raw_mac then normalize_delimited_mac raw_mac CHR ''-'' 6 2
      else if CHR ''.'' \<in> set raw_mac then normalize_delimited_mac raw_mac CHR ''.'' 3 4
      else None)"

section \<open>Accepted MAC spellings\<close>

fun join_with :: "char \<Rightarrow> string list \<Rightarrow> string" where
  "join_with sep [] = []"
| "join_with sep [g] = g"
| "join_with sep (g # h # gs) = g @ sep # join_with sep (h # gs)"

lemma join_split_on: "join_with sep (split_on sep s) = s"
proof (induction s)
  case (Cons c s)
  obtain g gs where "split_on sep s = g # gs" using split_on_ne by (meson neq_Nil_conv)
  with Cons show ?case by (cases gs) auto
qed simp

lemma split_on_no_sep: "list_all (\<lambda>g. sep \<notin> set g) (split_on sep s)"
  by (induction s) (auto split: list.splits)

lemma split_on_append: "sep \<notin> set g \<Longrightarrow> split_on sep (g @ sep # s) = g # split_on sep s"
  by (induction g) auto

lemma split_on_plain: "sep \<notin> set g \<Longrightarrow> split_on sep g = [g]"
  by (induction g) auto

lemma split_on_join:
  "gs \<noteq> [] \<Longrightarrow> list_all (\<lambda>g. sep \<notin> set g) gs \<Longrightarrow> split_on sep (join_with sep gs) = gs"
  by (induction sep gs rule: join_with.induct) (simp_all add: split_on_append split_on_plain)

lemma set_join_with:
  "set (join_with sep gs) = \<Union> (set ` set gs) \<union> (if 2 \<le> length gs then {sep} else {})"
  by (induction sep gs rule: join_with.induct) auto

lemma length_join_with: "length (join_with sep gs) = sum_list (map length gs) + (length gs - 1)"
  by (induction sep gs rule: join_with.induct) auto

lemma normalize_group_eq:
  "normalize_group m g
    = (if list_all is_ascii_hexdigit g then Some (m @ to_ascii_lowercase g) else None)"
  by (induction g arbitrary: m) (simp_all add: to_ascii_lowercase_def)

lemma normalize_groups_eq:
  "normalize_groups len m n gs
    = (if list_all (\<lambda>g. length g = len \<and> list_all is_ascii_hexdigit g) gs
       then Some (n + length gs, m @ to_ascii_lowercase (concat gs)) else None)"
  by (induction gs arbitrary: m n) (simp_all add: normalize_group_eq to_ascii_lowercase_def)

lemma normalize_delimited_mac_iff:
  assumes "\<not> is_ascii_hexdigit sep" and "0 < n"
  shows "normalize_delimited_mac raw sep n len = Some m
    \<longleftrightarrow> (\<exists>gs. raw = join_with sep gs \<and> map length gs = replicate n len
          \<and> list_all (list_all is_ascii_hexdigit) gs \<and> m = to_ascii_lowercase (concat gs))"
    (is "_ = (\<exists>gs. ?R gs)")
proof
  assume "normalize_delimited_mac raw sep n len = Some m"
  then have "?R (split_on sep raw)"
    by (auto simp: normalize_delimited_mac_def normalize_groups_eq join_split_on list_all_iff
        intro: replicate_eqI split: if_splits)
  then show "\<exists>gs. ?R gs" by blast
next
  assume "\<exists>gs. ?R gs"
  then obtain gs where R: "?R gs" by blast
  then have len: "length gs = n" by (metis length_map length_replicate)
  have each: "\<forall>g \<in> set gs. length g = len"
    using R by (metis in_set_replicate list.set_map image_eqI)
  have "list_all (\<lambda>g. sep \<notin> set g) gs" using R assms(1) by (auto simp: list_all_iff)
  then have "split_on sep raw = gs" using R len assms(2) by (auto intro: split_on_join)
  with R len each show "normalize_delimited_mac raw sep n len = Some m"
    by (simp add: normalize_delimited_mac_def normalize_groups_eq list_all_iff)
qed

text \<open>
  A MAC text is accepted exactly when, without surrounding white space, it is twelve
  hexadecimal digits written plainly, in six pairs joined by colons or by hyphens, or in three
  quadruples joined by dots; the result is always the twelve digits in lower case.
\<close>

lemma normalize_radius_mac_iff:
  "normalize_radius_mac raw = Some m
    \<longleftrightarrow> (\<exists>gs. list_all (list_all is_ascii_hexdigit) gs \<and> m = to_ascii_lowercase (concat gs)
          \<and> (trim raw = concat gs \<and> map length gs = [12]
             \<or> trim raw = join_with CHR '':'' gs \<and> map length gs = replicate 6 2
             \<or> trim raw = join_with CHR ''-'' gs \<and> map length gs = replicate 6 2
             \<or> trim raw = join_with CHR ''.'' gs \<and> map length gs = replicate 3 4))"
  (is "_ = (\<exists>gs. ?hex gs \<and> _ \<and> (?P gs \<or> ?C gs \<or> ?H gs \<or> ?D gs))")
proof -
  have sep: "\<not> is_ascii_hexdigit CHR '':''" "\<not> is_ascii_hexdigit CHR ''-''" "\<not> is_ascii_hexdigit CHR ''.''"
    by (simp_all add: is_ascii_hexdigit_def)
  have chars: "c \<in> set (join_with s gs) \<longleftrightarrow> c = s"
    if "list_all (list_all is_ascii_hexdigit) gs" "\<not> is_ascii_hexdigit c" "2 \<le> length gs" for c s gs
    using that by (auto simp: set_join_with list_all_iff)
  have lens: "length gs = k \<and> length (join_with c gs) = k * l + (k - 1)"
    if h: "map length gs = replicate k l" for gs :: "string list" and c k l
  proof -
    have "length gs = k" using arg_cong [OF h, of length] by simp
    then show ?thesis by (simp add: length_join_with h sum_list_replicate)
  qed
  have C: "length (trim raw) = 17 \<and> CHR '':'' \<in> set (trim raw)" if "?hex gs" "?C gs" for gs
    using that lens [of gs 6 2 "CHR '':''"] by (simp add: chars sep)
  have H: "length (trim raw) = 17 \<and> CHR '':'' \<notin> set (trim raw) \<and> CHR ''-'' \<in> set (trim raw)"
    if "?hex gs" "?H gs" for gs
    using that lens [of gs 6 2 "CHR ''-''"] by (simp add: chars sep)
  have D: "length (trim raw) = 14 \<and> CHR '':'' \<notin> set (trim raw) \<and> CHR ''-'' \<notin> set (trim raw)
      \<and> CHR ''.'' \<in> set (trim raw)" if "?hex gs" "?D gs" for gs
    using that lens [of gs 3 4 "CHR ''.''"] by (simp add: chars sep)
  have P: "length (trim raw) = 12 \<and> list_all is_ascii_hexdigit (trim raw)" if "?hex gs" "?P gs" for gs
    using that by (auto simp: map_eq_Cons_conv)
  note delim = normalize_delimited_mac_iff [of "CHR '':''" 6 "trim raw" 2 m]
    normalize_delimited_mac_iff [of "CHR ''-''" 6 "trim raw" 2 m]
    normalize_delimited_mac_iff [of "CHR ''.''" 3 "trim raw" 4 m]
  consider (plain) "length (trim raw) = 12 \<and> list_all is_ascii_hexdigit (trim raw)"
    | (colon) "\<not> (length (trim raw) = 12 \<and> list_all is_ascii_hexdigit (trim raw))" "CHR '':'' \<in> set (trim raw)"
    | (hyphen) "\<not> (length (trim raw) = 12 \<and> list_all is_ascii_hexdigit (trim raw))"
        "CHR '':'' \<notin> set (trim raw)" "CHR ''-'' \<in> set (trim raw)"
    | (dot) "\<not> (length (trim raw) = 12 \<and> list_all is_ascii_hexdigit (trim raw))"
        "CHR '':'' \<notin> set (trim raw)" "CHR ''-'' \<notin> set (trim raw)"
    by blast
  then show ?thesis
  proof cases
    case plain
    then have "normalize_radius_mac raw = Some (to_ascii_lowercase (trim raw))"
      by (simp add: normalize_radius_mac_def)
    moreover have "(\<exists>gs. ?hex gs \<and> m = to_ascii_lowercase (concat gs) \<and> ?P gs)
        \<longleftrightarrow> m = to_ascii_lowercase (trim raw)"
      using plain by (auto simp: map_eq_Cons_conv intro!: exI [of _ "[trim raw]"])
    moreover have "\<not> ?C gs \<and> \<not> ?H gs \<and> \<not> ?D gs" if "?hex gs" for gs
      using plain C [OF that] H [OF that] D [OF that] by auto
    ultimately show ?thesis by (metis option.inject)
  next
    case colon
    then have "normalize_radius_mac raw = normalize_delimited_mac (trim raw) CHR '':'' 6 2"
      by (auto simp: normalize_radius_mac_def)
    then show ?thesis using colon delim(1) [OF sep(1)] P H D by auto
  next
    case hyphen
    then have "normalize_radius_mac raw = normalize_delimited_mac (trim raw) CHR ''-'' 6 2"
      by (auto simp: normalize_radius_mac_def)
    then show ?thesis using hyphen delim(2) [OF sep(2)] P C D by auto
  next
    case dot
    then have "normalize_radius_mac raw
        = (if CHR ''.'' \<in> set (trim raw) then normalize_delimited_mac (trim raw) CHR ''.'' 3 4 else None)"
      by (auto simp: normalize_radius_mac_def)
    then show ?thesis using dot delim(3) [OF sep(3)] P C H D by auto
  qed
qed

section \<open>Identity matching\<close>

datatype ShapedDevicesMacEntry = UniqueEntry ShapedDevice | AmbiguousEntry

datatype ShapedDevicesMacMatch = UniqueMatch ShapedDevice | NoMatch | AmbiguousMatch

record ShapedDevicesMacMatcher =
  matches_by_mac :: "(string \<times> ShapedDevicesMacEntry) list"
  matches_by_username :: "(string \<times> ShapedDevicesMacEntry) list"

text \<open>\<open>entry(k).and_modify(ambiguous).or_insert(unique)\<close>\<close>

definition note_identity ::
  "string \<Rightarrow> ShapedDevice \<Rightarrow> (string \<times> ShapedDevicesMacEntry) list
    \<Rightarrow> (string \<times> ShapedDevicesMacEntry) list" where
  "note_identity k device m =
     AList.update k (case map_of m k of Some _ \<Rightarrow> AmbiguousEntry | None \<Rightarrow> UniqueEntry device) m"

fun from_devices_loop ::
  "ShapedDevicesMacMatcher \<Rightarrow> ShapedDevice list \<Rightarrow> ShapedDevicesMacMatcher" where
  "from_devices_loop m [] = m"
| "from_devices_loop m (device # devices) =
     (let m1 = (case normalize_radius_mac (sd_mac device) of
                  Some normalized_mac \<Rightarrow>
                    m\<lparr>matches_by_mac := note_identity normalized_mac device (matches_by_mac m)\<rparr>
                | None \<Rightarrow> m);
          username = sd_mac device;
          m2 = (if username \<noteq> []
                then m1\<lparr>matches_by_username := note_identity username device (matches_by_username m1)\<rparr>
                else m1)
      in from_devices_loop m2 devices)"

definition from_devices :: "ShapedDevice list \<Rightarrow> ShapedDevicesMacMatcher" where
  "from_devices devices =
     from_devices_loop \<lparr>matches_by_mac = [], matches_by_username = []\<rparr> devices"

definition match_entry ::
  "(string \<times> ShapedDevicesMacEntry) list \<Rightarrow> string \<Rightarrow> ShapedDevicesMacMatch option" where
  "match_entry entries k =
     (case map_of entries k of
        Some (UniqueEntry device) \<Rightarrow> Some (UniqueMatch device)
      | Some AmbiguousEntry \<Rightarrow> Some AmbiguousMatch
      | None \<Rightarrow> None)"

definition match_event_with_identities ::
  "ShapedDevicesMacMatcher \<Rightarrow> AccountingEvent \<Rightarrow> bool \<Rightarrow> bool \<Rightarrow> ShapedDevicesMacMatch" where
  "match_event_with_identities m event match_by_username match_by_mac =
     (case (if match_by_username
            then (case user_name event of
                    Some username \<Rightarrow> match_entry (matches_by_username m) username
                  | None \<Rightarrow> None)
            else None) of
        Some result \<Rightarrow> result
      | None \<Rightarrow>
          if \<not> match_by_mac then NoMatch
          else case calling_station_id event of
            None \<Rightarrow> NoMatch
          | Some station \<Rightarrow>
              (case normalize_radius_mac station of
                 None \<Rightarrow> NoMatch
               | Some normalized_mac \<Rightarrow>
                   (case match_entry (matches_by_mac m) normalized_mac of
                      Some result \<Rightarrow> result
                    | None \<Rightarrow> NoMatch)))"

definition match_event :: "ShapedDevicesMacMatcher \<Rightarrow> AccountingEvent \<Rightarrow> ShapedDevicesMacMatch" where
  "match_event m event = match_event_with_identities m event False True"

section \<open>The matcher finds exactly the unique row\<close>

definition entry_of :: "ShapedDevice list \<Rightarrow> ShapedDevicesMacEntry option" where
  "entry_of ds = (case ds of [] \<Rightarrow> None | [d] \<Rightarrow> Some (UniqueEntry d) | _ \<Rightarrow> Some AmbiguousEntry)"

definition pick :: "ShapedDevice list \<Rightarrow> ShapedDevicesMacMatch" where
  "pick ds = (case ds of [] \<Rightarrow> NoMatch | [d] \<Rightarrow> UniqueMatch d | _ \<Rightarrow> AmbiguousMatch)"

lemma entry_of_snoc:
  "entry_of (ds @ [d])
    = Some (case entry_of ds of None \<Rightarrow> UniqueEntry d | Some _ \<Rightarrow> AmbiguousEntry)"
  by (auto simp: entry_of_def split: list.splits)

lemma map_of_note_identity:
  "map_of (note_identity k d m)
    = (map_of m)(k \<mapsto> (case map_of m k of Some _ \<Rightarrow> AmbiguousEntry | None \<Rightarrow> UniqueEntry d))"
  by (simp add: note_identity_def store_simps)

lemma from_devices_loop_maps:
  assumes "\<And>k. map_of (matches_by_mac m) k = entry_of (filter (\<lambda>d. normalize_radius_mac (sd_mac d) = Some k) done)"
    and "\<And>k. map_of (matches_by_username m) k = entry_of (filter (\<lambda>d. sd_mac d \<noteq> [] \<and> sd_mac d = k) done)"
  shows "map_of (matches_by_mac (from_devices_loop m ds)) k
      = entry_of (filter (\<lambda>d. normalize_radius_mac (sd_mac d) = Some k) (done @ ds))
    \<and> map_of (matches_by_username (from_devices_loop m ds)) k
      = entry_of (filter (\<lambda>d. sd_mac d \<noteq> [] \<and> sd_mac d = k) (done @ ds))"
  using assms
proof (induction ds arbitrary: m "done")
  case Nil
  then show ?case by simp
next
  case (Cons d ds)
  let ?m1 = "case normalize_radius_mac (sd_mac d) of
      Some n \<Rightarrow> m\<lparr>matches_by_mac := note_identity n d (matches_by_mac m)\<rparr> | None \<Rightarrow> m"
  let ?m2 = "if sd_mac d \<noteq> []
      then ?m1\<lparr>matches_by_username := note_identity (sd_mac d) d (matches_by_username ?m1)\<rparr> else ?m1"
  have "map_of (matches_by_mac ?m2) k
      = entry_of (filter (\<lambda>d. normalize_radius_mac (sd_mac d) = Some k) (done @ [d]))" for k
    using Cons.prems(1) by (auto simp: map_of_note_identity entry_of_snoc split: option.splits)
  moreover have "map_of (matches_by_username ?m2) k
      = entry_of (filter (\<lambda>d. sd_mac d \<noteq> [] \<and> sd_mac d = k) (done @ [d]))" for k
    using Cons.prems(2) by (auto simp: map_of_note_identity entry_of_snoc split: option.splits)
  ultimately show ?case
    using Cons.IH [of ?m2 "done @ [d]"] by (simp add: Let_def)
qed

lemma from_devices_maps:
  "map_of (matches_by_mac (from_devices ds)) k
    = entry_of (filter (\<lambda>d. normalize_radius_mac (sd_mac d) = Some k) ds)"
  "map_of (matches_by_username (from_devices ds)) k
    = entry_of (filter (\<lambda>d. sd_mac d \<noteq> [] \<and> sd_mac d = k) ds)"
  using from_devices_loop_maps
    [of "\<lparr>matches_by_mac = [], matches_by_username = []\<rparr>" "[]" ds k]
  by (simp_all add: from_devices_def entry_of_def)

lemma match_entry_pick:
  "map_of m k = entry_of ds \<Longrightarrow> match_entry m k = (if ds = [] then None else Some (pick ds))"
  by (auto simp: match_entry_def entry_of_def pick_def split: list.splits)

text \<open>
  C11. Matching against a scan of the rows: a row is returned exactly when it is the only row with
  the event's user name in its MAC field (when username matching is on), or, when no row has it,
  the only row whose normalised MAC is that of the calling station (when MAC matching is on); two
  such rows are reported as ambiguous and never resolved to one of them.
\<close>

theorem match_event_with_identities_scan:
  "match_event_with_identities (from_devices devices) event by_username by_mac =
     (let named = filter (\<lambda>d. by_username \<and> sd_mac d \<noteq> [] \<and> user_name event = Some (sd_mac d)) devices;
          stations = filter (\<lambda>d. by_mac \<and> normalize_radius_mac (sd_mac d) \<noteq> None
            \<and> (case calling_station_id event of
                 None \<Rightarrow> False
               | Some station \<Rightarrow> normalize_radius_mac station = normalize_radius_mac (sd_mac d))) devices
      in if named \<noteq> [] then pick named else pick stations)"
proof -
  let ?N = "filter (\<lambda>d. by_username \<and> sd_mac d \<noteq> [] \<and> user_name event = Some (sd_mac d)) devices"
  let ?S = "filter (\<lambda>d. by_mac \<and> normalize_radius_mac (sd_mac d) \<noteq> None
            \<and> (case calling_station_id event of
                 None \<Rightarrow> False
               | Some station \<Rightarrow> normalize_radius_mac station = normalize_radius_mac (sd_mac d))) devices"
  have N: "(if by_username
      then (case user_name event of
              Some u \<Rightarrow> match_entry (matches_by_username (from_devices devices)) u | None \<Rightarrow> None)
      else None) = (if ?N = [] then None else Some (pick ?N))"
    using match_entry_pick [OF from_devices_maps(2)]
    by (cases "user_name event") (simp_all add: eq_commute [of _ "sd_mac _"])
  have S: "(case calling_station_id event of
       None \<Rightarrow> NoMatch
     | Some station \<Rightarrow> (case normalize_radius_mac station of
         None \<Rightarrow> NoMatch
       | Some k \<Rightarrow> (case match_entry (matches_by_mac (from_devices devices)) k of
           Some result \<Rightarrow> result | None \<Rightarrow> NoMatch))) = pick ?S" if by_mac
  proof (cases "calling_station_id event")
    case (Some station)
    show ?thesis
    proof (cases "normalize_radius_mac station")
      case None
      then have "?S = []" using Some by (auto simp: filter_empty_conv)
      with None Some show ?thesis by (simp add: pick_def)
    next
      case (Some k)
      then have "?S = filter (\<lambda>d. normalize_radius_mac (sd_mac d) = Some k) devices"
        using \<open>calling_station_id event = Some station\<close> that by (auto intro!: filter_cong)
      with Some \<open>calling_station_id event = Some station\<close> show ?thesis
        by (simp add: match_entry_pick [OF from_devices_maps(1)] pick_def)
    qed
  qed (simp add: pick_def)
  have "?S = []" if "\<not> by_mac" using that by simp
  then show ?thesis
    unfolding match_event_with_identities_def N Let_def
    using S by (auto simp: pick_def)
qed

end
