(* ===== verification/Radius_Session.thy ===== *)
theory Radius_Session
  imports Shaped_Device
begin

text \<open>
  The data of RADIUS accounting sessions and the pure functions on them
  (\<open>lqos_radius/src/session.rs\<close>, \<open>lqos_radius/src/dynamic_circuit.rs\<close>): session keys, NAS
  identities, fingerprints and index keys, merging of sparse events, subscriber addresses, rate and
  parent resolution, pending reasons and the shaped device a session resolves to. The theory
  Session_Store has the store that uses them.
\<close>

section \<open>Data\<close>

datatype NasIdentity = Identifier string | NasIpv4 Ipv4Addr | NasIpv6 Ipv6Addr

datatype NasResetStatus = NasAccountingOn | NasAccountingOff

datatype AccountingSessionState = Active | Stopped | Stale NasResetStatus

record PendingSessionFingerprint =
  fp_nas :: "NasIdentity option"
  fp_acct_session_id :: "string option"
  fp_user_name :: "string option"
  fp_calling_station_id :: "string option"
  fp_nas_port_id :: "string option"
  fp_nas_port :: "u32 option"

datatype AccountingSessionKey =
    NasSession NasIdentity string
  | Pending PendingSessionFingerprint

record SessionRateProfile =
  srp_download_min_mbps :: f32
  srp_upload_min_mbps :: f32
  srp_download_max_mbps :: f32
  srp_upload_max_mbps :: f32

record SessionRateSources =
  rs_shaped_device_profile :: "SessionRateProfile option"
  rs_fallback_profile :: "SessionRateProfile option"

datatype SessionRateSource = PacketRate | ShapedDeviceRate | FallbackRate

record ResolvedSessionRate =
  rr_source :: SessionRateSource
  rr_profile :: SessionRateProfile

datatype PendingSessionReason =
    MissingSessionId
  | MissingNasIdentity
  | MissingCircuitIdentity
  | MissingDeviceIdentity
  | MissingIpAddress
  | MissingRate
  | PendingMissingParent
  | AmbiguousMapping
  | PendingNoMacMatch
  | PendingAmbiguousMacMatch
  | PendingNoIdentityMatch
  | PendingAmbiguousIdentityMatch

record DynamicCircuitParent =
  dp_parent_node :: string
  dp_parent_node_id :: "string option"
  dp_anchor_node_id :: "string option"

datatype DynamicCircuitMapping =
    MatchedShapedDevice
  | ReadyWithParent DynamicCircuitParent
  | MissingParent
  | Ambiguous
  | NoMacMatch
  | AmbiguousMacMatch
  | NoIdentityMatch
  | AmbiguousIdentityMatch

record DynamicCircuitResolution =
  dr_mapping :: DynamicCircuitMapping
  dr_rate_sources :: SessionRateSources
  dr_matched_shaped_device :: "ShapedDevice option"

record AccountingSession =
  as_state :: AccountingSessionState
  as_latest_event :: AccountingEvent
  as_known_nas_identities :: "NasIdentity list"
  as_resolved_rate :: "ResolvedSessionRate option"
  as_resolved_shaped_device :: "ShapedDevice option"
  as_active_dynamic_circuit_ids :: "string list"
  as_diagnostic_circuit_ids :: "string list"
  as_pending_reasons :: "PendingSessionReason list"

datatype SessionLookupIndexKey =
    LookupAcctSessionId string
  | LookupUserName string
  | LookupCallingStationId string
  | LookupNasPortId string
  | LookupNasPort u32

record SessionIndexEntries =
  ie_nas_session_id :: "string option"
  ie_pending_lookup_keys :: "SessionLookupIndexKey list"
  ie_fallback_lookup_keys :: "SessionLookupIndexKey list"

record NasIdentitySet =
  ni_identifier :: "string option"
  ni_ipv4 :: "Ipv4Addr option"
  ni_ipv6 :: "Ipv6Addr option"

record SessionDynamicMetadata =
  md_resolved_rate :: "ResolvedSessionRate option"
  md_resolved_shaped_device :: "ShapedDevice option"
  md_pending_reasons :: "PendingSessionReason list"

record SubscriberIpMetadata =
  ips_ipv4 :: "(Ipv4Addr \<times> u32) list"
  ips_ipv6 :: "(Ipv6Addr \<times> u32) list"

section \<open>Optional text and carrying\<close>

definition non_empty_text :: "string option \<Rightarrow> string option" where
  "non_empty_text v = filter_opt (\<lambda>s. s \<noteq> []) v"

definition non_empty_str :: "string option \<Rightarrow> string option" where
  "non_empty_str v = filter_opt (\<lambda>s. trim s \<noteq> []) v"

definition carry_text :: "string option \<Rightarrow> string option \<Rightarrow> string option" where
  "carry_text target previous = (if target = None then previous else target)"

definition carry_optional :: "'a option \<Rightarrow> 'a option \<Rightarrow> 'a option" where
  "carry_optional target previous = (if target = None then previous else target)"

definition optional_match :: "'a option \<Rightarrow> 'a option \<Rightarrow> bool option" where
  "optional_match left right =
     (case (left, right) of
        (Some l, Some r) \<Rightarrow> if l = r then Some True else None
      | _ \<Rightarrow> Some False)"

definition push_unique_text :: "string list \<Rightarrow> string \<Rightarrow> string list" where
  "push_unique_text values v =
     (if trim v = [] \<or> list_ex (\<lambda>existing. existing = v) values then values else values @ [v])"

section \<open>NAS identities\<close>

definition NasIdentitySet_from_event :: "AccountingEvent \<Rightarrow> NasIdentitySet" where
  "NasIdentitySet_from_event event =
     \<lparr>ni_identifier = filter_opt (\<lambda>identifier. identifier \<noteq> []) (nas_identifier event),
      ni_ipv4 = nas_ip_address event,
      ni_ipv6 = nas_ipv6_address event\<rparr>"

definition primary :: "NasIdentitySet \<Rightarrow> NasIdentity option" where
  "primary s =
     (case ni_identifier s of
        Some identifier \<Rightarrow> Some (Identifier identifier)
      | None \<Rightarrow> (case ni_ipv4 s of
          Some a \<Rightarrow> Some (NasIpv4 a)
        | None \<Rightarrow> map_option NasIpv6 (ni_ipv6 s)))"

definition NasIdentitySet_is_empty :: "NasIdentitySet \<Rightarrow> bool" where
  "NasIdentitySet_is_empty s \<longleftrightarrow> ni_identifier s = None \<and> ni_ipv4 s = None \<and> ni_ipv6 s = None"

fun NasIdentitySet_contains :: "NasIdentitySet \<Rightarrow> NasIdentity \<Rightarrow> bool" where
  "NasIdentitySet_contains s (Identifier identifier) = (ni_identifier s = Some identifier)"
| "NasIdentitySet_contains s (NasIpv4 a) = (ni_ipv4 s = Some a)"
| "NasIdentitySet_contains s (NasIpv6 a) = (ni_ipv6 s = Some a)"

definition identities :: "NasIdentitySet \<Rightarrow> NasIdentity list" where
  "identities s =
     (case ni_identifier s of Some identifier \<Rightarrow> [Identifier identifier] | None \<Rightarrow> [])
     @ (case ni_ipv4 s of Some a \<Rightarrow> [NasIpv4 a] | None \<Rightarrow> [])
     @ (case ni_ipv6 s of Some a \<Rightarrow> [NasIpv6 a] | None \<Rightarrow> [])"

definition zip_eq :: "'a option \<Rightarrow> 'a option \<Rightarrow> bool" where
  "zip_eq a b = (case (a, b) of (Some x, Some y) \<Rightarrow> x = y | _ \<Rightarrow> False)"

definition overlaps :: "NasIdentitySet \<Rightarrow> NasIdentitySet \<Rightarrow> bool" where
  "overlaps s other \<longleftrightarrow>
     zip_eq (ni_identifier s) (ni_identifier other)
     \<or> zip_eq (ni_ipv4 s) (ni_ipv4 other)
     \<or> zip_eq (ni_ipv6 s) (ni_ipv6 other)"

definition merge_known_nas_identity_values ::
  "NasIdentity list \<Rightarrow> NasIdentity list \<Rightarrow> NasIdentity list" where
  "merge_known_nas_identity_values known ids = foldl (\<lambda>k identity. push_unique identity k) known ids"

definition merge_known_nas_identities :: "NasIdentity list \<Rightarrow> AccountingEvent \<Rightarrow> NasIdentity list" where
  "merge_known_nas_identities known event =
     merge_known_nas_identity_values known (identities (NasIdentitySet_from_event event))"

section \<open>Keys, circuit identifiers, fingerprints\<close>

fun key_nas :: "AccountingSessionKey \<Rightarrow> NasIdentity option" where
  "key_nas (NasSession nas _) = Some nas"
| "key_nas (Pending fingerprint) = fp_nas fingerprint"

fun key_acct_session_id :: "AccountingSessionKey \<Rightarrow> string option" where
  "key_acct_session_id (NasSession _ sid) = Some sid"
| "key_acct_session_id (Pending fingerprint) = fp_acct_session_id fingerprint"

fun circuit_id_component :: "NasIdentity \<Rightarrow> string" where
  "circuit_id_component (Identifier identifier) = ''nas-id:'' @ hex_component (as_bytes identifier)"
| "circuit_id_component (NasIpv4 address) = ''nas-ipv4:'' @ hex_component (ipv4_octets address)"
| "circuit_id_component (NasIpv6 address) = ''nas-ipv6:'' @ hex_component (ipv6_octets address)"

fun dynamic_circuit_id :: "AccountingSessionKey \<Rightarrow> string option" where
  "dynamic_circuit_id (NasSession nas sid) =
     Some (''radius:'' @ circuit_id_component nas @ '':session:'' @ hex_component (as_bytes sid))"
| "dynamic_circuit_id (Pending fingerprint) = None"

definition fingerprint_from_event ::
  "AccountingEvent \<Rightarrow> NasIdentity option \<Rightarrow> PendingSessionFingerprint" where
  "fingerprint_from_event event nas =
     \<lparr>fp_nas = nas,
      fp_acct_session_id = non_empty_text (acct_session_id event),
      fp_user_name = non_empty_text (user_name event),
      fp_calling_station_id = non_empty_text (calling_station_id event),
      fp_nas_port_id = non_empty_text (nas_port_id event),
      fp_nas_port = nas_port event\<rparr>"

text \<open>
  \<open>matches_with_nas_context\<close>: each \<open>let Some(x) = optional_match(..) else { return false }\<close> is one
  case of the chain.
\<close>

definition matches_with_nas_context ::
  "PendingSessionFingerprint \<Rightarrow> PendingSessionFingerprint \<Rightarrow> bool \<Rightarrow> bool" where
  "matches_with_nas_context self other nas_context_matches =
     (case (if nas_context_matches then Some True else optional_match (fp_nas self) (fp_nas other)) of
        None \<Rightarrow> False
      | Some nas_matches \<Rightarrow>
     (case optional_match (fp_acct_session_id self) (fp_acct_session_id other) of
        None \<Rightarrow> False
      | Some session_id_matches \<Rightarrow>
     if session_id_matches \<and> nas_matches then True else
     (case optional_match (fp_user_name self) (fp_user_name other) of
        None \<Rightarrow> False
      | Some user_name_matches \<Rightarrow>
     (case optional_match (fp_calling_station_id self) (fp_calling_station_id other) of
        None \<Rightarrow> False
      | Some calling_station_matches \<Rightarrow>
     (case optional_match (fp_nas_port_id self) (fp_nas_port_id other) of
        None \<Rightarrow> False
      | Some nas_port_id_matches \<Rightarrow>
     (case optional_match (fp_nas_port self) (fp_nas_port other) of
        None \<Rightarrow> False
      | Some nas_port_matches \<Rightarrow>
          let non_session_matches = length (filter (\<lambda>matched. matched)
                [user_name_matches, calling_station_matches, nas_port_id_matches, nas_port_matches])
          in (session_id_matches \<or> nas_matches) \<and> non_session_matches > 0
             \<or> non_session_matches \<ge> 2))))))"

definition session_fingerprint ::
  "AccountingSessionKey \<Rightarrow> AccountingSession \<Rightarrow> PendingSessionFingerprint" where
  "session_fingerprint key session =
     (let fingerprint = fingerprint_from_event (as_latest_event session) None
      in case key of
           NasSession _ sid \<Rightarrow> fingerprint\<lparr>fp_acct_session_id := Some sid\<rparr>
         | Pending _ \<Rightarrow> fingerprint)"

definition push_fingerprint_lookup_keys ::
  "SessionLookupIndexKey list \<Rightarrow> PendingSessionFingerprint \<Rightarrow> SessionLookupIndexKey list" where
  "push_fingerprint_lookup_keys lookup_keys fingerprint =
     (let push = (\<lambda>k ks. case k of Some x \<Rightarrow> push_unique x ks | None \<Rightarrow> ks)
      in push (map_option LookupNasPort (fp_nas_port fingerprint))
        (push (map_option LookupNasPortId (fp_nas_port_id fingerprint))
        (push (map_option LookupCallingStationId (fp_calling_station_id fingerprint))
        (push (map_option LookupUserName (fp_user_name fingerprint))
        (push (map_option LookupAcctSessionId (fp_acct_session_id fingerprint)) lookup_keys)))))"

definition session_lookup_index_keys ::
  "AccountingSessionKey \<Rightarrow> AccountingSession \<Rightarrow> SessionLookupIndexKey list" where
  "session_lookup_index_keys key session =
     push_fingerprint_lookup_keys [] (session_fingerprint key session)"

definition event_lookup_index_keys ::
  "AccountingEvent \<Rightarrow> NasIdentitySet \<Rightarrow> SessionLookupIndexKey list" where
  "event_lookup_index_keys event ids =
     push_fingerprint_lookup_keys [] (fingerprint_from_event event (primary ids))"

definition session_index_entries ::
  "AccountingSessionKey \<Rightarrow> AccountingSession \<Rightarrow> SessionIndexEntries" where
  "session_index_entries key session =
     (let lookup_keys = session_lookup_index_keys key session in
      case key of
        NasSession _ sid \<Rightarrow>
          \<lparr>ie_nas_session_id = Some sid, ie_pending_lookup_keys = [],
           ie_fallback_lookup_keys = lookup_keys\<rparr>
      | Pending _ \<Rightarrow>
          \<lparr>ie_nas_session_id = None, ie_pending_lookup_keys = lookup_keys,
           ie_fallback_lookup_keys = []\<rparr>)"

definition session_matches_identities ::
  "AccountingSessionKey \<Rightarrow> AccountingSession \<Rightarrow> NasIdentitySet \<Rightarrow> bool" where
  "session_matches_identities key session ids =
     (if (case key_nas key of Some nas \<Rightarrow> NasIdentitySet_contains ids nas | None \<Rightarrow> False) then True
      else if list_ex (NasIdentitySet_contains ids) (as_known_nas_identities session) then True
      else overlaps ids (NasIdentitySet_from_event (as_latest_event session)))"

section \<open>Merging events\<close>

definition merge_sparse_active_event :: "AccountingEvent \<Rightarrow> AccountingEvent \<Rightarrow> AccountingEvent" where
  "merge_sparse_active_event previous event = event\<lparr>
     acct_session_id := carry_text (acct_session_id event) (acct_session_id previous),
     nas_identifier := carry_text (nas_identifier event) (nas_identifier previous),
     nas_port_id := carry_text (nas_port_id event) (nas_port_id previous),
     user_name := carry_text (user_name event) (user_name previous),
     calling_station_id := carry_text (calling_station_id event) (calling_station_id previous),
     called_station_id := carry_text (called_station_id event) (called_station_id previous),
     nas_ip_address := carry_optional (nas_ip_address event) (nas_ip_address previous),
     nas_ipv6_address := carry_optional (nas_ipv6_address event) (nas_ipv6_address previous),
     nas_port := carry_optional (nas_port event) (nas_port previous),
     framed_ip_address := carry_optional (framed_ip_address event) (framed_ip_address previous),
     framed_ip_netmask := carry_optional (framed_ip_netmask event) (framed_ip_netmask previous),
     framed_ipv6_address := carry_optional (framed_ipv6_address event) (framed_ipv6_address previous),
     framed_routes := (if framed_routes event = [] then framed_routes previous else framed_routes event),
     class_values := (if class_values event = [] then class_values previous else class_values event),
     framed_ipv6_prefixes := (if framed_ipv6_prefixes event = []
       then framed_ipv6_prefixes previous else framed_ipv6_prefixes event),
     delegated_ipv6_prefixes := (if delegated_ipv6_prefixes event = []
       then delegated_ipv6_prefixes previous else delegated_ipv6_prefixes event),
     mikrotik_rate_limits := (if mikrotik_rate_limits event = []
       then mikrotik_rate_limits previous else mikrotik_rate_limits event)\<rparr>"

definition latest_session_event ::
  "AccountingEvent option \<Rightarrow> AccountingEvent \<Rightarrow> AccountingSessionState \<Rightarrow> AccountingEvent" where
  "latest_session_event previous event state =
     (if state \<noteq> Active then event
      else case previous of
        None \<Rightarrow> event
      | Some previous_event \<Rightarrow> merge_sparse_active_event previous_event event)"

section \<open>Rates\<close>

definition bits_per_second_to_mbps :: "u64 \<Rightarrow> f32" where
  "bits_per_second_to_mbps bits_per_second =
     f32_div_const (f32_of_rat (of_nat (unat bits_per_second))) 1000000"

definition SessionRateProfile_new ::
  "f32 \<Rightarrow> f32 \<Rightarrow> f32 \<Rightarrow> f32 \<Rightarrow> (SessionRateProfile, RateProfileValidationError) result" where
  "SessionRateProfile_new download_min_mbps upload_min_mbps download_max_mbps upload_max_mbps =
     and_then (validate_rate_profile_mbps download_min_mbps upload_min_mbps
                 download_max_mbps upload_max_mbps)
       (\<lambda>_. Ok \<lparr>srp_download_min_mbps = download_min_mbps, srp_upload_min_mbps = upload_min_mbps,
                srp_download_max_mbps = download_max_mbps, srp_upload_max_mbps = upload_max_mbps\<rparr>)"

definition from_packet_rate :: "MikrotikRateLimit \<Rightarrow> SessionRateProfile option" where
  "from_packet_rate rate_limit =
     (let upload_mbps = bits_per_second_to_mbps (mrl_upload_bps rate_limit);
          download_mbps = bits_per_second_to_mbps (mrl_download_bps rate_limit)
      in ok (SessionRateProfile_new download_mbps upload_mbps download_mbps upload_mbps))"

fun find_map :: "('a \<Rightarrow> 'b option) \<Rightarrow> 'a list \<Rightarrow> 'b option" where
  "find_map f [] = None"
| "find_map f (x # xs) = (case f x of Some y \<Rightarrow> Some y | None \<Rightarrow> find_map f xs)"

definition resolved_session_rate ::
  "AccountingEvent \<Rightarrow> SessionRateSources \<Rightarrow> ResolvedSessionRate option" where
  "resolved_session_rate event rate_sources =
     (case find_map from_packet_rate (mikrotik_rate_limits event) of
        Some profile \<Rightarrow> Some \<lparr>rr_source = PacketRate, rr_profile = profile\<rparr>
      | None \<Rightarrow> (case rs_shaped_device_profile rate_sources of
          Some profile \<Rightarrow> Some \<lparr>rr_source = ShapedDeviceRate, rr_profile = profile\<rparr>
        | None \<Rightarrow> map_option (\<lambda>profile. \<lparr>rr_source = FallbackRate, rr_profile = profile\<rparr>)
            (rs_fallback_profile rate_sources)))"

definition session_rate_profile_from_shaped_device :: "ShapedDevice \<Rightarrow> SessionRateProfile option" where
  "session_rate_profile_from_shaped_device device =
     ok (SessionRateProfile_new (sd_download_min_mbps device) (sd_upload_min_mbps device)
           (sd_download_max_mbps device) (sd_upload_max_mbps device))"

section \<open>Subscriber addresses\<close>

definition u8_in_range :: "nat \<Rightarrow> nat \<Rightarrow> nat \<Rightarrow> bool" where
  "u8_in_range lo hi x \<longleftrightarrow> lo \<le> x \<and> x \<le> hi"

definition ipv4_is_multicast :: "Ipv4Addr \<Rightarrow> bool" where
  "ipv4_is_multicast a = u8_in_range 224 239 (unat (ipv4_octets a ! 0))"

definition ipv6_is_multicast :: "Ipv6Addr \<Rightarrow> bool" where
  "ipv6_is_multicast a = (ipv6_octets a ! 0 = 0xff)"

definition subscriber_ipv4_cidr :: "Ipv4Addr \<Rightarrow> u32 \<Rightarrow> (Ipv4Addr \<times> u32) option" where
  "subscriber_ipv4_cidr address prefix_len =
     (if prefix_len = 0 \<or> prefix_len > 32 \<or> address = 0 \<or> ipv4_is_multicast address
         \<or> ipv4_octets address = [255, 255, 255, 255]
      then None else Some (address, prefix_len))"

definition subscriber_ipv6_cidr :: "Ipv6Addr \<Rightarrow> u32 \<Rightarrow> (Ipv6Addr \<times> u32) option" where
  "subscriber_ipv6_cidr address prefix_len =
     (if prefix_len = 0 \<or> prefix_len > 128 \<or> address = 0 \<or> ipv6_is_multicast address
      then None else Some (address, prefix_len))"

text \<open>
  \<open>str::parse::<Ipv4Addr>\<close>: four decimal octets of one to three digits, without leading zeros, joined
  by dots.
\<close>

definition parse_ipv4_octet :: "string \<Rightarrow> u8 option" where
  "parse_ipv4_octet s =
     (if s = [] \<or> 3 < length s \<or> \<not> list_all is_ascii_digit s \<or> 255 < dec_nat s
         \<or> (hd s = CHR ''0'' \<and> 1 < length s)
      then None else Some (word_of_nat (dec_nat s)))"

definition parse_ipv4_addr :: "string \<Rightarrow> Ipv4Addr option" where
  "parse_ipv4_addr s =
     (case map parse_ipv4_octet (split_on CHR ''.'' s) of
        [Some a, Some b, Some c, Some d] \<Rightarrow> Some (Ipv4Addr_from [a, b, c, d])
      | _ \<Rightarrow> None)"

definition parse_ipv4_cidr :: "string \<Rightarrow> (Ipv4Addr \<times> u32) option" where
  "parse_ipv4_cidr raw_cidr =
     (case split_once CHR ''/'' raw_cidr of
        None \<Rightarrow> (case parse_ipv4_addr raw_cidr of
            None \<Rightarrow> None
          | Some address \<Rightarrow> subscriber_ipv4_cidr address 32)
      | Some (address, prefix_len) \<Rightarrow>
          (case parse_ipv4_addr address of
             None \<Rightarrow> None
           | Some address \<Rightarrow>
               (case parse_unsigned 32 prefix_len of
                  None \<Rightarrow> None
                | Some prefix_len \<Rightarrow> subscriber_ipv4_cidr address (word_of_nat prefix_len))))"

definition framed_route_destination :: "string \<Rightarrow> (Ipv4Addr \<times> u32) option" where
  "framed_route_destination framed_route =
     (case first_word framed_route of None \<Rightarrow> None | Some w \<Rightarrow> parse_ipv4_cidr w)"

definition count_ones :: "u32 \<Rightarrow> nat" where
  "count_ones w = length (filter (bit w) [0..<32])"

definition ipv4_netmask_prefix_len :: "Ipv4Addr \<Rightarrow> u32 option" where
  "ipv4_netmask_prefix_len netmask =
     (let prefix_len = count_ones netmask;
          expected_netmask = (if prefix_len = 0 then 0 else push_bit (32 - prefix_len) (- 1))
      in if netmask = expected_netmask then Some (word_of_nat prefix_len) else None)"

definition subscriber_ipv4_cidrs :: "AccountingEvent \<Rightarrow> (Ipv4Addr \<times> u32) list" where
  "subscriber_ipv4_cidrs event =
     (case framed_ip_address event of
        None \<Rightarrow> []
      | Some address \<Rightarrow>
          (let prefix_len =
                 (case filter_opt (\<lambda>p. p > 0)
                         (Option.bind (framed_ip_netmask event) ipv4_netmask_prefix_len) of
                    Some p \<Rightarrow> p | None \<Rightarrow> 32)
           in case subscriber_ipv4_cidr address prefix_len of Some cidr \<Rightarrow> [cidr] | None \<Rightarrow> []))
     @ List.map_filter framed_route_destination (framed_routes event)"

definition subscriber_ipv6_cidrs :: "AccountingEvent \<Rightarrow> (Ipv6Addr \<times> u32) list" where
  "subscriber_ipv6_cidrs event =
     (let cidr = (\<lambda>prefix. subscriber_ipv6_cidr (ip6_address prefix) (ucast (ip6_prefix_len prefix)))
      in (case framed_ipv6_address event of
            None \<Rightarrow> []
          | Some address \<Rightarrow>
              (case subscriber_ipv6_cidr address 128 of Some cidr \<Rightarrow> [cidr] | None \<Rightarrow> []))
         @ List.map_filter cidr (framed_ipv6_prefixes event)
         @ List.map_filter cidr (delegated_ipv6_prefixes event))"

definition SubscriberIpMetadata_from_event :: "AccountingEvent \<Rightarrow> SubscriberIpMetadata" where
  "SubscriberIpMetadata_from_event event =
     \<lparr>ips_ipv4 = subscriber_ipv4_cidrs event, ips_ipv6 = subscriber_ipv6_cidrs event\<rparr>"

definition SubscriberIpMetadata_is_empty :: "SubscriberIpMetadata \<Rightarrow> bool" where
  "SubscriberIpMetadata_is_empty ips \<longleftrightarrow> ips_ipv4 ips = [] \<and> ips_ipv6 ips = []"

section \<open>Resolution of circuits\<close>

definition has_parent_node :: "DynamicCircuitParent \<Rightarrow> bool" where
  "has_parent_node parent \<longleftrightarrow> trim (dp_parent_node parent) \<noteq> []"

definition from_shaped_devices_match_with_fallback_parent ::
  "ShapedDevicesMacMatch \<Rightarrow> SessionRateProfile option \<Rightarrow> DynamicCircuitParent option
    \<Rightarrow> DynamicCircuitResolution" where
  "from_shaped_devices_match_with_fallback_parent mac_match fallback_profile fallback_parent =
     (case mac_match of
        UniqueMatch device \<Rightarrow>
          \<lparr>dr_mapping = MatchedShapedDevice,
           dr_rate_sources = \<lparr>rs_shaped_device_profile = session_rate_profile_from_shaped_device device,
                              rs_fallback_profile = None\<rparr>,
           dr_matched_shaped_device = Some device\<rparr>
      | NoMatch \<Rightarrow>
          \<lparr>dr_mapping = (case fallback_parent of
               Some parent \<Rightarrow> ReadyWithParent parent | None \<Rightarrow> NoMacMatch),
           dr_rate_sources = \<lparr>rs_shaped_device_profile = None, rs_fallback_profile = fallback_profile\<rparr>,
           dr_matched_shaped_device = None\<rparr>
      | AmbiguousMatch \<Rightarrow>
          \<lparr>dr_mapping = AmbiguousMacMatch,
           dr_rate_sources = \<lparr>rs_shaped_device_profile = None, rs_fallback_profile = fallback_profile\<rparr>,
           dr_matched_shaped_device = None\<rparr>)"

definition from_shaped_devices_mac_match ::
  "ShapedDevicesMacMatch \<Rightarrow> SessionRateProfile option \<Rightarrow> DynamicCircuitResolution" where
  "from_shaped_devices_mac_match mac_match fallback_profile =
     from_shaped_devices_match_with_fallback_parent mac_match fallback_profile None"

definition from_shaped_devices_identity_match ::
  "ShapedDevicesMacMatch \<Rightarrow> SessionRateProfile option \<Rightarrow> DynamicCircuitParent option
    \<Rightarrow> DynamicCircuitResolution" where
  "from_shaped_devices_identity_match identity_match fallback_profile fallback_parent =
     (let resolution = from_shaped_devices_match_with_fallback_parent identity_match
            fallback_profile fallback_parent
      in resolution\<lparr>dr_mapping := (case dr_mapping resolution of
             NoMacMatch \<Rightarrow> NoIdentityMatch
           | AmbiguousMacMatch \<Rightarrow> AmbiguousIdentityMatch
           | mapping \<Rightarrow> mapping)\<rparr>)"

definition parent_from_shaped_device :: "ShapedDevice \<Rightarrow> DynamicCircuitParent option" where
  "parent_from_shaped_device device =
     (let parent = \<lparr>dp_parent_node = sd_parent_node device,
                    dp_parent_node_id = sd_parent_node_id device,
                    dp_anchor_node_id = sd_anchor_node_id device\<rparr>
      in if has_parent_node parent then Some parent else None)"

definition parent_from_mapping :: "DynamicCircuitMapping \<Rightarrow> DynamicCircuitParent option" where
  "parent_from_mapping mapping =
     (case mapping of
        ReadyWithParent parent \<Rightarrow> if has_parent_node parent then Some parent else None
      | _ \<Rightarrow> None)"

definition resolved_parent_attachment ::
  "ShapedDevice option \<Rightarrow> DynamicCircuitMapping \<Rightarrow> DynamicCircuitParent option" where
  "resolved_parent_attachment matched_shaped_device mapping =
     or_opt (Option.bind matched_shaped_device parent_from_shaped_device)
       (parent_from_mapping mapping)"

definition stable_subscriber_circuit_id ::
  "AccountingSessionKey \<Rightarrow> AccountingEvent \<Rightarrow> string option" where
  "stable_subscriber_circuit_id key event =
     (case key_nas key of
        None \<Rightarrow> None
      | Some nas_identity \<Rightarrow>
          let nas = circuit_id_component nas_identity in
          (case filter_opt (\<lambda>v. v \<noteq> []) (user_name event) of
             Some username \<Rightarrow>
               Some (''radius:'' @ nas @ '':username:'' @ hex_component (as_bytes username))
           | None \<Rightarrow>
               (case non_empty_str (calling_station_id event) of
                  None \<Rightarrow> None
                | Some station \<Rightarrow>
                    let identity = (case normalize_radius_mac station of
                          Some m \<Rightarrow> m | None \<Rightarrow> station)
                    in Some (''radius:'' @ nas @ '':calling-station:''
                               @ hex_component (as_bytes identity)))))"

definition circuit_identity_available ::
  "AccountingSessionKey \<Rightarrow> ShapedDevice option \<Rightarrow> AccountingEvent \<Rightarrow> bool" where
  "circuit_identity_available key matched_shaped_device event =
     (case matched_shaped_device of
        Some device \<Rightarrow> trim (sd_circuit_id device) \<noteq> []
      | None \<Rightarrow> stable_subscriber_circuit_id key event \<noteq> None)"

definition device_identity_available ::
  "AccountingSessionKey \<Rightarrow> ShapedDevice option \<Rightarrow> AccountingEvent \<Rightarrow> bool" where
  "device_identity_available key matched_shaped_device event =
     (case matched_shaped_device of
        Some device \<Rightarrow> trim (sd_device_id device) \<noteq> []
      | None \<Rightarrow> stable_subscriber_circuit_id key event \<noteq> None)"

definition default_circuit_name :: "AccountingEvent \<Rightarrow> string \<Rightarrow> string" where
  "default_circuit_name event fallback =
     (case or_opt (or_opt (non_empty_str (user_name event)) (non_empty_str (calling_station_id event)))
             (non_empty_str (acct_session_id event)) of
        Some s \<Rightarrow> s | None \<Rightarrow> fallback)"

definition default_device_name :: "AccountingEvent \<Rightarrow> string \<Rightarrow> string" where
  "default_device_name event fallback =
     (case or_opt (or_opt (non_empty_str (calling_station_id event)) (non_empty_str (user_name event)))
             (non_empty_str (acct_session_id event)) of
        Some s \<Rightarrow> s | None \<Rightarrow> fallback)"

definition default_resolved_shaped_device ::
  "AccountingSessionKey \<Rightarrow> AccountingEvent \<Rightarrow> DynamicCircuitParent \<Rightarrow> ShapedDevice option" where
  "default_resolved_shaped_device key event parent =
     (case stable_subscriber_circuit_id key event of
        None \<Rightarrow> None
      | Some circuit_id \<Rightarrow>
          let device_id = circuit_id in
          Some (default_device\<lparr>
            sd_circuit_name := default_circuit_name event circuit_id,
            sd_device_name := default_device_name event device_id,
            sd_circuit_id := circuit_id,
            sd_device_id := device_id,
            sd_parent_node := dp_parent_node parent,
            sd_parent_node_id := dp_parent_node_id parent,
            sd_anchor_node_id := dp_anchor_node_id parent,
            sd_mac := (case non_empty_str (calling_station_id event) of Some s \<Rightarrow> s | None \<Rightarrow> []),
            sd_comment := [],
            sd_sqm_override := None,
            sd_circuit_hash := 0,
            sd_device_hash := 0,
            sd_parent_hash := 0\<rparr>))"

definition apply_parent_attachment :: "ShapedDevice \<Rightarrow> DynamicCircuitParent \<Rightarrow> ShapedDevice" where
  "apply_parent_attachment device parent =
     device\<lparr>sd_parent_node := dp_parent_node parent,
            sd_parent_node_id := dp_parent_node_id parent,
            sd_anchor_node_id := dp_anchor_node_id parent\<rparr>"

definition apply_session_rate_profile :: "ShapedDevice \<Rightarrow> SessionRateProfile \<Rightarrow> ShapedDevice" where
  "apply_session_rate_profile device profile =
     device\<lparr>sd_download_min_mbps := srp_download_min_mbps profile,
            sd_upload_min_mbps := srp_upload_min_mbps profile,
            sd_download_max_mbps := srp_download_max_mbps profile,
            sd_upload_max_mbps := srp_upload_max_mbps profile\<rparr>"

definition resolved_shaped_device ::
  "(string \<Rightarrow> i64) \<Rightarrow> AccountingSessionKey \<Rightarrow> AccountingEvent \<Rightarrow> ShapedDevice option
    \<Rightarrow> ResolvedSessionRate option \<Rightarrow> SubscriberIpMetadata \<Rightarrow> DynamicCircuitParent option
    \<Rightarrow> ShapedDevice option" where
  "resolved_shaped_device hash_to_i64 key event matched_shaped_device resolved_rate subscriber_ips parent =
     (case resolved_rate of
        None \<Rightarrow> None
      | Some rate \<Rightarrow>
          (case parent of
             None \<Rightarrow> None
           | Some parent \<Rightarrow>
               (case (case matched_shaped_device of
                        Some device \<Rightarrow> Some device
                      | None \<Rightarrow> default_resolved_shaped_device key event parent) of
                  None \<Rightarrow> None
                | Some device \<Rightarrow>
                    let device = apply_parent_attachment device parent;
                        device = device\<lparr>sd_ipv4 := ips_ipv4 subscriber_ips, sd_ipv6 := ips_ipv6 subscriber_ips\<rparr>;
                        device = apply_session_rate_profile device (rr_profile rate)
                    in Some (refresh_hashes hash_to_i64 device))))"

definition pending_reasons ::
  "AccountingEvent \<Rightarrow> DynamicCircuitMapping \<Rightarrow> ResolvedSessionRate option \<Rightarrow> SubscriberIpMetadata
    \<Rightarrow> DynamicCircuitParent option \<Rightarrow> bool \<Rightarrow> bool \<Rightarrow> PendingSessionReason list" where
  "pending_reasons event mapping resolved_rate subscriber_ips parent has_circuit_identity has_device_identity =
     (let missing_session_id = (case acct_session_id event of None \<Rightarrow> True | Some s \<Rightarrow> s = []);
          missing_nas_identity = NasIdentitySet_is_empty (NasIdentitySet_from_event event)
      in (if missing_session_id then [MissingSessionId] else [])
         @ (if missing_nas_identity then [MissingNasIdentity] else [])
         @ (if \<not> has_circuit_identity \<and> \<not> missing_session_id \<and> \<not> missing_nas_identity
            then [MissingCircuitIdentity] else [])
         @ (if \<not> has_device_identity \<and> \<not> missing_session_id \<and> \<not> missing_nas_identity
            then [MissingDeviceIdentity] else [])
         @ (if SubscriberIpMetadata_is_empty subscriber_ips then [MissingIpAddress] else [])
         @ (if resolved_rate = None then [MissingRate] else [])
         @ (if parent = None
               \<and> (case mapping of MatchedShapedDevice \<Rightarrow> True | ReadyWithParent _ \<Rightarrow> True
                                | MissingParent \<Rightarrow> True | _ \<Rightarrow> False)
            then [PendingMissingParent] else [])
         @ (case mapping of
              MatchedShapedDevice \<Rightarrow> []
            | ReadyWithParent _ \<Rightarrow> []
            | MissingParent \<Rightarrow> []
            | Ambiguous \<Rightarrow> [AmbiguousMapping]
            | NoMacMatch \<Rightarrow> [PendingNoMacMatch]
            | AmbiguousMacMatch \<Rightarrow> [PendingAmbiguousMacMatch]
            | NoIdentityMatch \<Rightarrow> [PendingNoIdentityMatch]
            | AmbiguousIdentityMatch \<Rightarrow> [PendingAmbiguousIdentityMatch]))"

definition SessionDynamicMetadata_inactive :: SessionDynamicMetadata where
  "SessionDynamicMetadata_inactive =
     \<lparr>md_resolved_rate = None, md_resolved_shaped_device = None, md_pending_reasons = []\<rparr>"

definition session_dynamic_metadata ::
  "(string \<Rightarrow> i64) \<Rightarrow> AccountingSessionKey \<Rightarrow> AccountingEvent \<Rightarrow> DynamicCircuitResolution
    \<Rightarrow> SessionDynamicMetadata" where
  "session_dynamic_metadata hash_to_i64 key event resolution =
     (let subscriber_ips = SubscriberIpMetadata_from_event event;
          resolved_rate = resolved_session_rate event (dr_rate_sources resolution);
          parent = resolved_parent_attachment (dr_matched_shaped_device resolution) (dr_mapping resolution);
          has_circuit_identity =
            circuit_identity_available key (dr_matched_shaped_device resolution) event;
          has_device_identity =
            device_identity_available key (dr_matched_shaped_device resolution) event;
          reasons = pending_reasons event (dr_mapping resolution) resolved_rate subscriber_ips
            parent has_circuit_identity has_device_identity;
          device = (if reasons = []
            then resolved_shaped_device hash_to_i64 key event (dr_matched_shaped_device resolution)
                   resolved_rate subscriber_ips parent
            else None)
      in \<lparr>md_resolved_rate = resolved_rate, md_resolved_shaped_device = device,
          md_pending_reasons = reasons\<rparr>)"

section \<open>Diagnostics\<close>

datatype RadiusActivationDiagnosticState =
    DiagActive
  | DiagPending
  | DiagStopped
  | DiagStale NasResetStatus
  | DiagExpired
  | DiagApplyFailed

record RadiusActivationDiagnostic =
  diag_session_key :: AccountingSessionKey
  diag_acct_session_id :: "string option"
  diag_nas :: "NasIdentity option"
  diag_circuit_ids :: "string list"
  diag_state :: RadiusActivationDiagnosticState
  diag_pending_reasons :: "PendingSessionReason list"
  diag_apply_error :: "string option"

definition retained_activation_state :: "AccountingSession \<Rightarrow> RadiusActivationDiagnosticState" where
  "retained_activation_state session =
     (case as_state session of
        Active \<Rightarrow> if as_pending_reasons session = [] then DiagActive else DiagPending
      | Stopped \<Rightarrow> DiagStopped
      | Stale reset \<Rightarrow> DiagStale reset)"

definition diagnostic_circuit_ids :: "AccountingSessionKey \<Rightarrow> AccountingSession \<Rightarrow> string list" where
  "diagnostic_circuit_ids key session =
     (let ids = (case as_resolved_shaped_device session of
                   Some device \<Rightarrow> push_unique_text [] (sd_circuit_id device) | None \<Rightarrow> []);
          ids = foldl push_unique_text ids (as_active_dynamic_circuit_ids session);
          ids = foldl push_unique_text ids (as_diagnostic_circuit_ids session)
      in if ids = []
         then (case dynamic_circuit_id key of Some c \<Rightarrow> push_unique_text ids c | None \<Rightarrow> ids)
         else ids)"

definition from_session_with_state ::
  "AccountingSessionKey \<Rightarrow> AccountingSession \<Rightarrow> RadiusActivationDiagnosticState \<Rightarrow> string option
    \<Rightarrow> RadiusActivationDiagnostic" where
  "from_session_with_state key session state apply_error =
     \<lparr>diag_session_key = key,
      diag_acct_session_id = or_opt (key_acct_session_id key) (acct_session_id (as_latest_event session)),
      diag_nas = or_opt (key_nas key) (primary (NasIdentitySet_from_event (as_latest_event session))),
      diag_circuit_ids = diagnostic_circuit_ids key session,
      diag_state = state,
      diag_pending_reasons = as_pending_reasons session,
      diag_apply_error = apply_error\<rparr>"

definition from_retained_session ::
  "AccountingSessionKey \<Rightarrow> AccountingSession \<Rightarrow> RadiusActivationDiagnostic" where
  "from_retained_session key session =
     from_session_with_state key session (retained_activation_state session) None"

definition from_expired_session ::
  "AccountingSessionKey \<Rightarrow> AccountingSession \<Rightarrow> RadiusActivationDiagnostic" where
  "from_expired_session key session = from_session_with_state key session DiagExpired None"

definition apply_failed ::
  "AccountingSessionKey \<Rightarrow> string \<Rightarrow> string \<Rightarrow> RadiusActivationDiagnostic" where
  "apply_failed session_key circuit_id apply_error =
     \<lparr>diag_session_key = session_key,
      diag_acct_session_id = key_acct_session_id session_key,
      diag_nas = key_nas session_key,
      diag_circuit_ids = [circuit_id],
      diag_state = DiagApplyFailed,
      diag_pending_reasons = [],
      diag_apply_error = Some apply_error\<rparr>"

section \<open>Circuit identifiers do not collide\<close>

lemma ipv4_octets_inject [simp]: "ipv4_octets a = ipv4_octets b \<longleftrightarrow> a = b"
proof
  assume "ipv4_octets a = ipv4_octets b"
  then have "be_nat (be_bytes 4 (unat a)) = be_nat (be_bytes 4 (unat b))" by (simp add: ipv4_octets_def)
  moreover have "unat (x :: u32) < 256 ^ 4" for x using unsigned_less [of x] by simp
  ultimately show "a = b" by (simp add: be_nat_be_bytes word_unat_eq_iff)
qed simp

lemma ipv6_octets_inject [simp]: "ipv6_octets a = ipv6_octets b \<longleftrightarrow> a = b"
proof
  assume "ipv6_octets a = ipv6_octets b"
  then have "be_nat (be_bytes 16 (unat a)) = be_nat (be_bytes 16 (unat b))" by (simp add: ipv6_octets_def)
  moreover have "unat (x :: u128) < 256 ^ 16" for x using unsigned_less [of x] by simp
  ultimately show "a = b" by (simp add: be_nat_be_bytes word_unat_eq_iff)
qed simp

text \<open>The NAS part of an identifier is a label, a colon and hexadecimal digits.\<close>

lemma circuit_id_component_append_inject:
  "circuit_id_component n @ CHR '':'' # x = circuit_id_component n' @ CHR '':'' # y \<longleftrightarrow> n = n' \<and> x = y"
  by (cases n; cases n') (simp_all add: append_Cons_sep_inject hex_component_no_colon)

text \<open>
  The session circuit identifier determines the session key: two keyed sessions get the same
  identifier only if they have the same NAS identity, of the same kind, and the same
  Acct-Session-Id.
\<close>

lemma dynamic_circuit_id_inject:
  "dynamic_circuit_id (NasSession nas sid) = dynamic_circuit_id (NasSession nas' sid')
    \<longleftrightarrow> nas = nas' \<and> sid = sid'"
  by (simp add: circuit_id_component_append_inject)

text \<open>Whom a stable subscriber identifier names: a user name or a calling station, on one NAS.\<close>

datatype Subscriber = ByUserName NasIdentity string | ByStation NasIdentity string

definition subscriber_of :: "AccountingSessionKey \<Rightarrow> AccountingEvent \<Rightarrow> Subscriber option" where
  "subscriber_of key event = Option.bind (key_nas key) (\<lambda>nas.
     case user_name event of
       Some (c # cs) \<Rightarrow> Some (ByUserName nas (c # cs))
     | _ \<Rightarrow> map_option (\<lambda>s. ByStation nas (case normalize_radius_mac s of Some m \<Rightarrow> m | None \<Rightarrow> s))
              (filter_opt (\<lambda>s. trim s \<noteq> []) (calling_station_id event)))"

fun subscriber_text :: "Subscriber \<Rightarrow> string" where
  "subscriber_text (ByUserName nas u)
    = ''radius:'' @ circuit_id_component nas @ '':username:'' @ hex_component (as_bytes u)"
| "subscriber_text (ByStation nas s)
    = ''radius:'' @ circuit_id_component nas @ '':calling-station:'' @ hex_component (as_bytes s)"

lemma subscriber_text_inject [simp]: "subscriber_text a = subscriber_text b \<longleftrightarrow> a = b"
  by (cases a; cases b) (simp_all add: circuit_id_component_append_inject)

lemma stable_subscriber_circuit_id_text:
  "stable_subscriber_circuit_id key event = map_option subscriber_text (subscriber_of key event)"
  by (auto simp: stable_subscriber_circuit_id_def subscriber_of_def non_empty_str_def filter_opt_def
      Let_def split: option.splits list.splits)

text \<open>
  Stable subscriber circuit identifiers: two sessions get the same identifier exactly when
  they are the same subscriber of the same NAS (same user name, or without one the same calling
  station up to MAC spelling); the Acct-Session-Id plays no part, and equal user names on
  different NAS devices never collide.
\<close>

lemma stable_subscriber_circuit_id_inject:
  "stable_subscriber_circuit_id key event = stable_subscriber_circuit_id key' event'
    \<longleftrightarrow> subscriber_of key event = subscriber_of key' event'"
  by (cases "subscriber_of key event"; cases "subscriber_of key' event'")
    (simp_all add: stable_subscriber_circuit_id_text)

section \<open>Netmasks\<close>

lemma count_ones_prefix_mask:
  "p \<le> 32 \<Longrightarrow> count_ones (push_bit (32 - p) (- 1)) = p"
proof -
  assume "p \<le> 32"
  have "filter (bit (push_bit (32 - p) (- 1 :: u32))) [0..<32] = filter (\<lambda>i. 32 - p \<le> i) [0..<32]"
    by (rule filter_cong) (auto simp: bit_push_bit_iff bit_not_iff bit_mask_iff)
  also have "\<dots> = [32 - p..<32]"
  proof -
    have "[0..<32] = [0..<32 - p] @ [32 - p..<32]"
      using upt_add_eq_append [of 0 "32 - p" p] \<open>p \<le> 32\<close> by simp
    then show ?thesis by (auto simp: filter_empty_conv filter_id_conv)
  qed
  finally show ?thesis using \<open>p \<le> 32\<close> unfolding count_ones_def by simp
qed

text \<open>
  A netmask has a prefix length exactly when it is that many one bits followed by zero bits,
  so a mask with a hole is never given a length.
\<close>

lemma ipv4_netmask_prefix_len_iff:
  "ipv4_netmask_prefix_len m = Some p \<longleftrightarrow> p \<le> 32 \<and> m = push_bit (32 - unat p) (- 1)"
proof -
  have c: "count_ones m \<le> 32"
    using length_filter_le [of "bit m" "[0..<32]"] by (simp add: count_ones_def)
  have u: "n \<le> 32 \<Longrightarrow> unat (word_of_nat n :: u32) = n" for n
    by (simp add: unat_of_nat take_bit_nat_eq_self_iff)
  have zero: "(push_bit 32 (- 1) :: u32) = 0"
    by (rule bit_word_eqI) (simp add: bit_push_bit_iff bit_not_iff bit_mask_iff)
  have le: "p \<le> 32 \<longleftrightarrow> unat p \<le> 32" by (simp add: word_le_nat_alt)
  have eq: "ipv4_netmask_prefix_len m = Some p
      \<longleftrightarrow> m = push_bit (32 - count_ones m) (- 1) \<and> p = word_of_nat (count_ones m)"
    using zero by (auto simp: ipv4_netmask_prefix_len_def Let_def)
  show ?thesis
  proof
    assume "ipv4_netmask_prefix_len m = Some p"
    with eq have "m = push_bit (32 - count_ones m) (- 1)" "unat p = count_ones m" using u c by auto
    with c le show "p \<le> 32 \<and> m = push_bit (32 - unat p) (- 1)" by simp
  next
    assume *: "p \<le> 32 \<and> m = push_bit (32 - unat p) (- 1)"
    then have "count_ones m = unat p" using le count_ones_prefix_mask by blast
    with * eq show "ipv4_netmask_prefix_len m = Some p" by simp
  qed
qed

section \<open>Packet rates\<close>

lemma bits_per_second_to_mbps_0 [simp]: "bits_per_second_to_mbps 0 = Fin 0"
  by (simp add: bits_per_second_to_mbps_def f32_div_const_def f32_of_rat_def round_ieee_def
      round_nonneg_def)

lemma f32_of_rat_normal:
  assumes "pow2 (- 126) \<le> q" and "q < pow2 127"
  shows "\<exists>v. f32_of_rat q = Fin v \<and> q / 2 \<le> v \<and> v \<le> 2 * q"
proof -
  have q: "0 < q" using assms(1) pow2_pos by (rule less_le_trans [rotated])
  obtain v where v: "round_nonneg 24 (- 126) 127 q = Fin v" "pow2 (rat_exponent q) \<le> v"
      "v \<le> pow2 (rat_exponent q + 1)"
    using round_nonneg_normal [OF assms, of 24] by auto
  have "q / 2 \<le> v" using rat_exponent_bounds(2) [OF q] v(2) by (simp add: pow2_add)
  moreover have "v \<le> 2 * q" using rat_exponent_bounds(1) [OF q] v(3) by (simp add: pow2_add)
  ultimately show ?thesis using v(1) q by (simp add: f32_of_rat_def round_ieee_def)
qed

lemma bits_per_second_to_mbps_pos:
  assumes "bps \<noteq> 0"
  shows "\<exists>v. bits_per_second_to_mbps bps = Fin v \<and> 0 < v"
proof -
  define n where "n = unat bps"
  let ?q = "of_nat n :: rat"
  have "1 \<le> n" using assms by (simp add: n_def Suc_le_eq unat_gt_0)
  then have "1 \<le> ?q" by simp
  have "n < 2 ^ 64" unfolding n_def by (rule unat_u64_less)
  then have "?q < of_nat (2 ^ 64)" by (subst of_nat_less_iff)
  then have hi: "?q < 2 ^ 64" by simp
  have lo: "pow2 (- 126) \<le> 1 / 2 ^ 64" "(2 :: rat) ^ 66 \<le> pow2 127" by (simp_all add: pow2_def)
  obtain v where v: "f32_of_rat ?q = Fin v" "?q / 2 \<le> v" "v \<le> 2 * ?q"
    using f32_of_rat_normal [of ?q] \<open>1 \<le> ?q\<close> hi lo by fastforce
  have "1 / 2000000 \<le> v / 1000000" using v(2) \<open>1 \<le> ?q\<close> by simp
  moreover have "v / 1000000 < pow2 127" using v(3) hi lo(2) by simp
  ultimately obtain w where "f32_of_rat (v / 1000000) = Fin w" "v / 1000000 / 2 \<le> w"
    using f32_of_rat_normal [of "v / 1000000"] lo(1) by fastforce
  moreover have "0 < v" using v(2) \<open>1 \<le> ?q\<close> by simp
  ultimately show ?thesis
    using v(1) unfolding bits_per_second_to_mbps_def n_def [symmetric]
    by (simp add: f32_div_const_def)
qed

lemma bits_per_second_to_mbps_cases:
  "\<exists>v. bits_per_second_to_mbps bps = Fin v \<and> 0 \<le> v \<and> (v = 0 \<longleftrightarrow> bps = 0)"
  using bits_per_second_to_mbps_pos [of bps] by (cases "bps = 0") force+

lemma from_packet_rate_eq:
  "from_packet_rate r =
    (if mrl_upload_bps r = 0 \<or> mrl_download_bps r = 0 then None
     else let up = bits_per_second_to_mbps (mrl_upload_bps r);
              down = bits_per_second_to_mbps (mrl_download_bps r)
          in Some \<lparr>srp_download_min_mbps = down, srp_upload_min_mbps = up,
                   srp_download_max_mbps = down, srp_upload_max_mbps = up\<rparr>)"
proof -
  obtain u where u: "bits_per_second_to_mbps (mrl_upload_bps r) = Fin u" "0 \<le> u"
      "u = 0 \<longleftrightarrow> mrl_upload_bps r = 0"
    using bits_per_second_to_mbps_cases by blast
  obtain d where d: "bits_per_second_to_mbps (mrl_download_bps r) = Fin d" "0 \<le> d"
      "d = 0 \<longleftrightarrow> mrl_download_bps r = 0"
    using bits_per_second_to_mbps_cases by blast
  have "validate_rate_profile_mbps (Fin d) (Fin u) (Fin d) (Fin u) = Ok () \<longleftrightarrow> u \<noteq> 0 \<and> d \<noteq> 0"
    using u d by (auto simp: validate_rate_profile_ok)
  then show ?thesis
    using u d by (simp add: from_packet_rate_def SessionRateProfile_new_def Let_def ok_and_then_unit)
qed

text \<open>
  Rate resolution: the first rate limit of the packet whose two rates are both non-zero wins,
  whatever the other sources say, and its rounded rates are valid (finite, positive, minimum equal
  to maximum); otherwise the matched row's profile is used, otherwise the fallback, otherwise none.
\<close>

lemma resolved_session_rate_priority:
  "resolved_session_rate event sources =
     (case filter (\<lambda>r. mrl_upload_bps r \<noteq> 0 \<and> mrl_download_bps r \<noteq> 0) (mikrotik_rate_limits event) of
        r # _ \<Rightarrow>
          let up = bits_per_second_to_mbps (mrl_upload_bps r);
              down = bits_per_second_to_mbps (mrl_download_bps r)
          in Some \<lparr>rr_source = PacketRate,
               rr_profile = \<lparr>srp_download_min_mbps = down, srp_upload_min_mbps = up,
                             srp_download_max_mbps = down, srp_upload_max_mbps = up\<rparr>\<rparr>
      | [] \<Rightarrow> (case rs_shaped_device_profile sources of
          Some profile \<Rightarrow> Some \<lparr>rr_source = ShapedDeviceRate, rr_profile = profile\<rparr>
        | None \<Rightarrow> (case rs_fallback_profile sources of
            Some profile \<Rightarrow> Some \<lparr>rr_source = FallbackRate, rr_profile = profile\<rparr>
          | None \<Rightarrow> None)))"
proof -
  let ?usable = "filter (\<lambda>r. mrl_upload_bps r \<noteq> 0 \<and> mrl_download_bps r \<noteq> 0)
    (mikrotik_rate_limits event)"
  have "find_map from_packet_rate rs =
     (case filter (\<lambda>r. mrl_upload_bps r \<noteq> 0 \<and> mrl_download_bps r \<noteq> 0) rs of
        r # _ \<Rightarrow> from_packet_rate r | [] \<Rightarrow> None)" for rs
    by (induction rs) (auto simp: from_packet_rate_eq Let_def)
  then have find: "find_map from_packet_rate (mikrotik_rate_limits event) =
     (case ?usable of r # _ \<Rightarrow> from_packet_rate r | [] \<Rightarrow> None)" .
  show ?thesis
  proof (cases ?usable)
    case Nil
    then show ?thesis by (simp add: resolved_session_rate_def find split: option.splits)
  next
    case (Cons r rs)
    then have "r \<in> set ?usable" by simp
    then have "mrl_upload_bps r \<noteq> 0" "mrl_download_bps r \<noteq> 0" by simp_all
    with Cons show ?thesis by (simp add: resolved_session_rate_def find from_packet_rate_eq Let_def)
  qed
qed

section \<open>Resolved devices\<close>

definition good_ipv4_cidr :: "Ipv4Addr \<times> u32 \<Rightarrow> bool" where
  "good_ipv4_cidr c \<longleftrightarrow> (case c of (a, p) \<Rightarrow>
     1 \<le> unat p \<and> unat p \<le> 32 \<and> a \<noteq> 0 \<and> \<not> ipv4_is_multicast a \<and> ipv4_octets a \<noteq> [255, 255, 255, 255])"

definition good_ipv6_cidr :: "Ipv6Addr \<times> u32 \<Rightarrow> bool" where
  "good_ipv6_cidr c \<longleftrightarrow> (case c of (a, p) \<Rightarrow>
     1 \<le> unat p \<and> unat p \<le> 128 \<and> a \<noteq> 0 \<and> \<not> ipv6_is_multicast a)"

text \<open>What the shaper needs of a device before a circuit is created for it.\<close>

definition shapeable_device :: "(string \<Rightarrow> i64) \<Rightarrow> ShapedDevice \<Rightarrow> bool" where
  "shapeable_device h d \<longleftrightarrow>
     trim (sd_circuit_id d) \<noteq> [] \<and> trim (sd_device_id d) \<noteq> [] \<and> trim (sd_parent_node d) \<noteq> []
     \<and> (sd_ipv4 d \<noteq> [] \<or> sd_ipv6 d \<noteq> [])
     \<and> list_all good_ipv4_cidr (sd_ipv4 d) \<and> list_all good_ipv6_cidr (sd_ipv6 d)
     \<and> sd_circuit_hash d = h (sd_circuit_id d) \<and> sd_device_hash d = h (sd_device_id d)
     \<and> sd_parent_hash d = h (sd_parent_node d)"

definition has_rates :: "ShapedDevice \<Rightarrow> SessionRateProfile \<Rightarrow> bool" where
  "has_rates d p \<longleftrightarrow> sd_download_min_mbps d = srp_download_min_mbps p
     \<and> sd_upload_min_mbps d = srp_upload_min_mbps p
     \<and> sd_download_max_mbps d = srp_download_max_mbps p
     \<and> sd_upload_max_mbps d = srp_upload_max_mbps p"

lemma subscriber_ipv4_cidr_good: "subscriber_ipv4_cidr a p = Some c \<Longrightarrow> good_ipv4_cidr c"
  by (auto simp: subscriber_ipv4_cidr_def good_ipv4_cidr_def word_le_nat_alt word_less_nat_alt
      Suc_le_eq unat_gt_0 split: if_splits)

lemma subscriber_ipv6_cidr_good: "subscriber_ipv6_cidr a p = Some c \<Longrightarrow> good_ipv6_cidr c"
  by (auto simp: subscriber_ipv6_cidr_def good_ipv6_cidr_def word_le_nat_alt word_less_nat_alt
      Suc_le_eq unat_gt_0 split: if_splits)

lemma framed_route_destination_good: "framed_route_destination r = Some c \<Longrightarrow> good_ipv4_cidr c"
  by (auto simp: framed_route_destination_def parse_ipv4_cidr_def subscriber_ipv4_cidr_good
      split: option.splits prod.splits)

lemma list_all_map_filter: "(\<And>x y. f x = Some y \<Longrightarrow> P y) \<Longrightarrow> list_all P (List.map_filter f xs)"
  by (induction xs) (simp_all add: List.map_filter_simps split: option.splits)

lemma subscriber_ipv4_cidrs_good: "list_all good_ipv4_cidr (subscriber_ipv4_cidrs event)"
  by (auto simp: subscriber_ipv4_cidrs_def Let_def framed_route_destination_good
      intro!: list_all_map_filter intro: subscriber_ipv4_cidr_good split: option.splits)

lemma subscriber_ipv6_cidrs_good: "list_all good_ipv6_cidr (subscriber_ipv6_cidrs event)"
  by (auto simp: subscriber_ipv6_cidrs_def Let_def
      intro!: list_all_map_filter intro: subscriber_ipv6_cidr_good split: option.splits)

lemma trim_subscriber_text: "trim (subscriber_text s) \<noteq> []"
proof -
  obtain x where "subscriber_text s = CHR ''r'' # x" by (cases s) auto
  then show ?thesis by (simp add: trim_Nil_iff trim_start_ws ws_len_def char_at_def)
qed

lemma default_resolved_shaped_device_ids:
  assumes "default_resolved_shaped_device key event parent = Some d"
  shows "trim (sd_circuit_id d) \<noteq> []" "trim (sd_device_id d) \<noteq> []"
  using assms
  by (auto simp: default_resolved_shaped_device_def stable_subscriber_circuit_id_text Let_def
      trim_subscriber_text split: option.splits)

lemma no_pending_reasons:
  "pending_reasons event mapping rate ips parent ci di = []
    \<Longrightarrow> rate \<noteq> None \<and> parent \<noteq> None \<and> ci \<and> di \<and> \<not> SubscriberIpMetadata_is_empty ips"
  by (cases mapping) (auto simp: pending_reasons_def Let_def split: if_splits)

lemma resolved_parent_attachment_node:
  "resolved_parent_attachment dev mapping = Some p \<Longrightarrow> trim (dp_parent_node p) \<noteq> []"
  by (cases mapping)
    (auto simp: resolved_parent_attachment_def parent_from_shaped_device_def parent_from_mapping_def
      has_parent_node_def Let_def or_opt_def split: option.splits if_splits bind_splits)

lemma session_dynamic_metadata_cases:
  "case md_resolved_shaped_device (session_dynamic_metadata h key event resolution) of
     None \<Rightarrow> md_pending_reasons (session_dynamic_metadata h key event resolution) \<noteq> []
   | Some d \<Rightarrow> md_pending_reasons (session_dynamic_metadata h key event resolution) = []
       \<and> shapeable_device h d
       \<and> (\<exists>r. md_resolved_rate (session_dynamic_metadata h key event resolution) = Some r
            \<and> has_rates d (rr_profile r))"
proof -
  let ?md = "session_dynamic_metadata h key event resolution"
  let ?dev = "dr_matched_shaped_device resolution"
  let ?ips = "SubscriberIpMetadata_from_event event"
  let ?parent = "resolved_parent_attachment ?dev (dr_mapping resolution)"
  show ?thesis
  proof (cases "md_pending_reasons ?md = []")
    case False
    then show ?thesis by (simp add: session_dynamic_metadata_def Let_def)
  next
    case True
    then have none: "pending_reasons event (dr_mapping resolution)
        (resolved_session_rate event (dr_rate_sources resolution)) ?ips ?parent
        (circuit_identity_available key ?dev event) (device_identity_available key ?dev event) = []"
      by (simp add: session_dynamic_metadata_def Let_def)
    then obtain r p where r: "resolved_session_rate event (dr_rate_sources resolution) = Some r"
      and p: "?parent = Some p"
      and ci: "circuit_identity_available key ?dev event" "device_identity_available key ?dev event"
      and ips: "\<not> SubscriberIpMetadata_is_empty ?ips"
      using no_pending_reasons [OF none] by auto
    have "\<exists>b. (case ?dev of Some device \<Rightarrow> Some device | None \<Rightarrow> default_resolved_shaped_device key event p)
          = Some b \<and> trim (sd_circuit_id b) \<noteq> [] \<and> trim (sd_device_id b) \<noteq> []"
    proof (cases ?dev)
      case None
      with ci have "default_resolved_shaped_device key event p \<noteq> None"
        by (auto simp: circuit_identity_available_def default_resolved_shaped_device_def Let_def)
      with None show ?thesis using default_resolved_shaped_device_ids by auto
    next
      case (Some device)
      with ci show ?thesis by (simp add: circuit_identity_available_def device_identity_available_def)
    qed
    then obtain b where b: "(case ?dev of Some device \<Rightarrow> Some device
        | None \<Rightarrow> default_resolved_shaped_device key event p) = Some b"
      and ids: "trim (sd_circuit_id b) \<noteq> []" "trim (sd_device_id b) \<noteq> []" by blast
    have dev: "md_resolved_shaped_device ?md = Some (refresh_hashes h (apply_session_rate_profile
        ((apply_parent_attachment b p)\<lparr>sd_ipv4 := ips_ipv4 ?ips, sd_ipv6 := ips_ipv6 ?ips\<rparr>) (rr_profile r)))"
      using none by (simp add: session_dynamic_metadata_def resolved_shaped_device_def r p b Let_def)
    show ?thesis
      using True ids ips resolved_parent_attachment_node [OF p] subscriber_ipv4_cidrs_good
        subscriber_ipv6_cidrs_good
      by (simp add: dev shapeable_device_def has_rates_def refresh_hashes_def
          apply_session_rate_profile_def apply_parent_attachment_def
          SubscriberIpMetadata_from_event_def SubscriberIpMetadata_is_empty_def)
        (simp add: session_dynamic_metadata_def r Let_def)
  qed
qed

lemma shapeable_metadata:
  "md_resolved_shaped_device (session_dynamic_metadata h key event resolution) = Some d
    \<Longrightarrow> shapeable_device h d"
  using session_dynamic_metadata_cases [of h key event resolution] by simp

text \<open>
  A session resolves to a device exactly when nothing is pending, and the device is then
  complete: a circuit, a device and a parent that are not blank, at least one subscriber address
  and only routable unicast ones with a proper prefix length, hashes that belong to its names, and
  the four rates of the resolved profile.
\<close>

lemma session_dynamic_metadata_complete:
  "case md_resolved_shaped_device (session_dynamic_metadata h key event resolution) of
     None \<Rightarrow> md_pending_reasons (session_dynamic_metadata h key event resolution) \<noteq> []
   | Some d \<Rightarrow> md_pending_reasons (session_dynamic_metadata h key event resolution) = []
       \<and> shapeable_device h d
       \<and> (\<exists>r. md_resolved_rate (session_dynamic_metadata h key event resolution) = Some r
            \<and> has_rates d (rr_profile r))"
  by (rule session_dynamic_metadata_cases)

end
