(* ===== verification/Session_Store.thy ===== *)
theory Session_Store
  imports Radius_Session
begin

text \<open>
  The in-memory session store (\<open>AccountingSessionStore\<close> of \<open>lqos_radius/src/session.rs\<close>) and the
  dynamic-circuit intents it emits (\<open>lqos_radius/src/dynamic_circuit.rs\<close>). Hash maps are
  association lists and hash sets duplicate-free lists; the sink is the list of intents in emission
  order. Every operation takes the store and returns the new store with what the code returns.
\<close>

section \<open>Data\<close>

datatype DynamicCircuitRemovalReason =
    RemovalStop
  | RemovalExpired
  | NoLongerShapeable
  | Rekeyed
  | NasReset NasResetStatus

record DynamicCircuitUpsert =
  up_circuit_id :: string
  up_session_key :: AccountingSessionKey
  up_event :: AccountingEvent
  up_shaped_device :: ShapedDevice

record DynamicCircuitRemoval =
  rm_circuit_id :: string
  rm_session_key :: AccountingSessionKey
  rm_reason :: DynamicCircuitRemovalReason

datatype DynamicCircuitIntent =
    CreateDynamicCircuit DynamicCircuitUpsert
  | UpdateDynamicCircuit DynamicCircuitUpsert
  | RemoveDynamicCircuit DynamicCircuitRemoval

fun intent_circuit_id :: "DynamicCircuitIntent \<Rightarrow> string" where
  "intent_circuit_id (CreateDynamicCircuit upsert) = up_circuit_id upsert"
| "intent_circuit_id (UpdateDynamicCircuit upsert) = up_circuit_id upsert"
| "intent_circuit_id (RemoveDynamicCircuit removal) = rm_circuit_id removal"

record RadiusActivationCounters =
  cnt_create :: u64
  cnt_update :: u64
  cnt_remove :: u64
  cnt_expiry :: u64

type_synonym 'i key_index = "('i \<times> AccountingSessionKey list) list"

record AccountingSessionStore =
  st_sessions :: "(AccountingSessionKey \<times> AccountingSession) list"
  st_nas_index :: "string key_index"
  st_pending_index :: "SessionLookupIndexKey key_index"
  st_fallback_index :: "SessionLookupIndexKey key_index"
  st_counters :: RadiusActivationCounters

datatype AccountingSessionIgnoreReason =
    MissingStatusType
  | UnsupportedStatusType u32
  | MissingNasIdentityForReset NasResetStatus

datatype AccountingSessionUpdate =
    SessionUpdated AccountingSessionKey AccountingSessionState
  | NasSessionsMarkedStale NasIdentity NasResetStatus nat
      "AccountingSessionKey list" "AccountingSessionKey list"
  | Ignored AccountingSessionIgnoreReason

record SessionKeyResolution =
  kr_key :: AccountingSessionKey
  kr_previous_keys :: "AccountingSessionKey list"

type_synonym resolver = "AccountingEvent \<Rightarrow> DynamicCircuitResolution"

abbreviation session_at :: "AccountingSessionStore \<Rightarrow> AccountingSessionKey \<Rightarrow> AccountingSession option" where
  "session_at s k \<equiv> map_of (st_sessions s) k"

definition new_store :: AccountingSessionStore where
  "new_store = \<lparr>st_sessions = [], st_nas_index = [], st_pending_index = [], st_fallback_index = [],
     st_counters = \<lparr>cnt_create = 0, cnt_update = 0, cnt_remove = 0, cnt_expiry = 0\<rparr>\<rparr>"

section \<open>Indexes\<close>

text \<open>\<open>index.entry(index_key).or_default().insert(key)\<close>\<close>

definition insert_indexed_session_key ::
  "'i \<Rightarrow> AccountingSessionKey \<Rightarrow> 'i key_index \<Rightarrow> 'i key_index" where
  "insert_indexed_session_key index_key key index =
     AList.update index_key
       (push_unique key (case map_of index index_key of Some keys \<Rightarrow> keys | None \<Rightarrow> [])) index"

definition remove_indexed_session_key ::
  "'i \<Rightarrow> AccountingSessionKey \<Rightarrow> 'i key_index \<Rightarrow> 'i key_index" where
  "remove_indexed_session_key index_key session_key index =
     (case map_of index index_key of
        None \<Rightarrow> index
      | Some keys \<Rightarrow>
          let keys = removeAll session_key keys
          in if keys = [] then AList.delete index_key index
             else AList.update index_key keys index)"

definition index_session :: "AccountingSessionKey \<Rightarrow> AccountingSessionStore \<Rightarrow> AccountingSessionStore" where
  "index_session key store =
     (case session_at store key of
        None \<Rightarrow> store
      | Some session \<Rightarrow>
          let entries = session_index_entries key session in
          store\<lparr>
            st_nas_index := (case ie_nas_session_id entries of
                Some sid \<Rightarrow> insert_indexed_session_key sid key (st_nas_index store)
              | None \<Rightarrow> st_nas_index store),
            st_pending_index := foldl (\<lambda>index k. insert_indexed_session_key k key index)
              (st_pending_index store) (ie_pending_lookup_keys entries),
            st_fallback_index := foldl (\<lambda>index k. insert_indexed_session_key k key index)
              (st_fallback_index store) (ie_fallback_lookup_keys entries)\<rparr>)"

definition remove_session_indexes ::
  "AccountingSessionKey \<Rightarrow> AccountingSessionStore \<Rightarrow> AccountingSessionStore" where
  "remove_session_indexes key store =
     (case session_at store key of
        None \<Rightarrow> store
      | Some session \<Rightarrow>
          let entries = session_index_entries key session in
          store\<lparr>
            st_nas_index := (case ie_nas_session_id entries of
                Some sid \<Rightarrow> remove_indexed_session_key sid key (st_nas_index store)
              | None \<Rightarrow> st_nas_index store),
            st_pending_index := foldl (\<lambda>index k. remove_indexed_session_key k key index)
              (st_pending_index store) (ie_pending_lookup_keys entries),
            st_fallback_index := foldl (\<lambda>index k. remove_indexed_session_key k key index)
              (st_fallback_index store) (ie_fallback_lookup_keys entries)\<rparr>)"

definition remove_session ::
  "AccountingSessionKey \<Rightarrow> AccountingSessionStore \<Rightarrow> AccountingSession option \<times> AccountingSessionStore" where
  "remove_session key store =
     (let store = remove_session_indexes key store
      in (session_at store key, store\<lparr>st_sessions := AList.delete key (st_sessions store)\<rparr>))"

section \<open>Key resolution\<close>

definition lookup_candidates ::
  "SessionLookupIndexKey key_index \<Rightarrow> AccountingEvent \<Rightarrow> NasIdentitySet \<Rightarrow> AccountingSessionKey list" where
  "lookup_candidates index event ids =
     foldl (\<lambda>candidates lookup_key.
         case map_of index lookup_key of
           None \<Rightarrow> candidates
         | Some keys \<Rightarrow> foldl (\<lambda>c k. push_unique k c) candidates keys)
       [] (event_lookup_index_keys event ids)"

definition matching_session_key ::
  "AccountingSessionStore \<Rightarrow> string \<Rightarrow> NasIdentitySet \<Rightarrow> AccountingSessionKey option
    \<Rightarrow> AccountingSessionKey option" where
  "matching_session_key store sid ids excluded_key =
     (case map_of (st_nas_index store) sid of
        None \<Rightarrow> None
      | Some candidate_keys \<Rightarrow>
          unique_match (\<lambda>key. excluded_key \<noteq> Some key
            \<and> (case session_at store key of
                 None \<Rightarrow> False
               | Some session \<Rightarrow> session_matches_identities key session ids)) candidate_keys)"

definition existing_session_key ::
  "AccountingSessionStore \<Rightarrow> string \<Rightarrow> NasIdentitySet \<Rightarrow> AccountingSessionKey option" where
  "existing_session_key store sid ids = matching_session_key store sid ids None"

definition alternate_session_key ::
  "AccountingSessionStore \<Rightarrow> string \<Rightarrow> NasIdentitySet \<Rightarrow> AccountingSessionKey
    \<Rightarrow> AccountingSessionKey option" where
  "alternate_session_key store sid ids candidate = matching_session_key store sid ids (Some candidate)"

text \<open>The test of one candidate in the loop of \<open>existing_pending_key\<close>.\<close>

definition pending_candidate_matches ::
  "AccountingSessionStore \<Rightarrow> AccountingEvent \<Rightarrow> NasIdentitySet \<Rightarrow> AccountingSessionKey \<Rightarrow> bool" where
  "pending_candidate_matches store event ids key =
     (case session_at store key of
        None \<Rightarrow> False
      | Some session \<Rightarrow>
          (case key of
             NasSession _ _ \<Rightarrow> False
           | Pending fingerprint \<Rightarrow>
               let nas_context_matches = (\<not> NasIdentitySet_is_empty ids
                     \<and> session_matches_identities key session ids)
               in matches_with_nas_context fingerprint
                    (fingerprint_from_event event (primary ids)) nas_context_matches))"

definition existing_pending_key ::
  "AccountingSessionStore \<Rightarrow> AccountingEvent \<Rightarrow> NasIdentitySet \<Rightarrow> AccountingSessionKey option" where
  "existing_pending_key store event ids =
     unique_match (pending_candidate_matches store event ids)
       (lookup_candidates (st_pending_index store) event ids)"

text \<open>The test of one candidate in the loop of \<open>existing_fallback_session_key\<close>.\<close>

definition fallback_candidate_matches ::
  "AccountingSessionStore \<Rightarrow> AccountingEvent \<Rightarrow> NasIdentitySet \<Rightarrow> AccountingSessionKey \<Rightarrow> bool" where
  "fallback_candidate_matches store event ids key =
     (case key of
        Pending _ \<Rightarrow> False
      | NasSession _ _ \<Rightarrow>
          (case session_at store key of
             None \<Rightarrow> False
           | Some session \<Rightarrow>
               if \<not> NasIdentitySet_is_empty ids \<and> \<not> session_matches_identities key session ids
               then False
               else matches_with_nas_context (session_fingerprint key session)
                      (fingerprint_from_event event (primary ids)) (\<not> NasIdentitySet_is_empty ids)))"

definition existing_fallback_session_key ::
  "AccountingSessionStore \<Rightarrow> AccountingEvent \<Rightarrow> NasIdentitySet \<Rightarrow> AccountingSessionKey option" where
  "existing_fallback_session_key store event ids =
     unique_match (fallback_candidate_matches store event ids)
       (lookup_candidates (st_fallback_index store) event ids)"

definition resolution_new :: "AccountingSessionKey \<Rightarrow> SessionKeyResolution" where
  "resolution_new key = \<lparr>kr_key = key, kr_previous_keys = []\<rparr>"

definition resolution_promoted ::
  "AccountingSessionKey \<Rightarrow> AccountingSessionKey list \<Rightarrow> SessionKeyResolution" where
  "resolution_promoted key previous_keys = \<lparr>kr_key = key, kr_previous_keys = previous_keys\<rparr>"

definition or_existing :: "SessionKeyResolution \<Rightarrow> AccountingSessionKey option \<Rightarrow> SessionKeyResolution" where
  "or_existing self existing_key = (case existing_key of Some key \<Rightarrow> resolution_new key | None \<Rightarrow> self)"

definition resolve_session_key :: "AccountingSessionStore \<Rightarrow> AccountingEvent \<Rightarrow> SessionKeyResolution" where
  "resolve_session_key store event =
     (let ids = NasIdentitySet_from_event event;
          nas = primary ids;
          sid = filter_opt (\<lambda>s. s \<noteq> []) (acct_session_id event);
          pending = resolution_new (Pending (fingerprint_from_event event nas))
      in case (sid, nas) of
           (Some sid, Some nas) \<Rightarrow>
             let candidate = NasSession nas sid in
             if session_at store candidate \<noteq> None
             then
               let previous_keys = (case alternate_session_key store sid ids candidate of
                       Some previous_key \<Rightarrow> [previous_key] | None \<Rightarrow> []);
                   previous_keys = (case existing_pending_key store event ids of
                       Some previous_key \<Rightarrow> push_unique previous_key previous_keys
                     | None \<Rightarrow> previous_keys)
               in if previous_keys \<noteq> [] then resolution_promoted candidate previous_keys
                  else resolution_new candidate
             else (case existing_session_key store sid ids of
                 Some existing_key \<Rightarrow>
                   (case existing_pending_key store event ids of
                      Some previous_key \<Rightarrow> resolution_promoted existing_key [previous_key]
                    | None \<Rightarrow> resolution_new existing_key)
               | None \<Rightarrow>
                   (case existing_pending_key store event ids of
                      Some previous_key \<Rightarrow> resolution_promoted candidate [previous_key]
                    | None \<Rightarrow> resolution_new candidate))
         | _ \<Rightarrow> or_existing pending (existing_fallback_session_key store event ids))"

section \<open>Applying events\<close>

definition push_active_dynamic_circuit_id :: "string list \<Rightarrow> string \<Rightarrow> string list" where
  "push_active_dynamic_circuit_id active_ids circuit_id = push_unique circuit_id active_ids"

definition merge_active_dynamic_circuit_ids :: "string list \<Rightarrow> string list \<Rightarrow> string list" where
  "merge_active_dynamic_circuit_ids active_ids ids = foldl push_active_dynamic_circuit_id active_ids ids"

definition merge_diagnostic_circuit_ids :: "string list \<Rightarrow> string list \<Rightarrow> string list" where
  "merge_diagnostic_circuit_ids diagnostic_ids ids = foldl push_unique_text diagnostic_ids ids"

text \<open>\<open>previous_keys.iter().filter_map(|k| self.remove_session(k)).collect()\<close>\<close>

fun remove_sessions ::
  "AccountingSessionKey list \<Rightarrow> AccountingSessionStore \<Rightarrow> AccountingSession list \<times> AccountingSessionStore" where
  "remove_sessions [] store = ([], store)"
| "remove_sessions (key # keys) store =
     (let (removed, store) = remove_session key store;
          (rest, store) = remove_sessions keys store
      in ((case removed of Some session \<Rightarrow> session # rest | None \<Rightarrow> rest), store))"

text \<open>The loop over promoted sessions when the key is already present, with \<open>previous_event\<close>.\<close>

definition merge_promoted ::
  "AccountingSessionState \<Rightarrow> AccountingSession \<times> AccountingEvent \<Rightarrow> AccountingSession
    \<Rightarrow> AccountingSession \<times> AccountingEvent" where
  "merge_promoted state acc promoted =
     (case acc of (session, previous_event) \<Rightarrow>
       (session\<lparr>
          as_known_nas_identities := merge_known_nas_identity_values
            (as_known_nas_identities session) (as_known_nas_identities promoted),
          as_active_dynamic_circuit_ids := merge_active_dynamic_circuit_ids
            (as_active_dynamic_circuit_ids session) (as_active_dynamic_circuit_ids promoted),
          as_diagnostic_circuit_ids := merge_diagnostic_circuit_ids
            (as_diagnostic_circuit_ids session) (as_diagnostic_circuit_ids promoted)\<rparr>,
        if state = Active then merge_sparse_active_event previous_event (as_latest_event promoted)
        else previous_event))"

text \<open>The loop over promoted sessions when a new session is created.\<close>

record PromotedFields =
  pf_known_nas_identities :: "NasIdentity list"
  pf_active_dynamic_circuit_ids :: "string list"
  pf_diagnostic_circuit_ids :: "string list"
  pf_previous_event :: "AccountingEvent option"

definition collect_promoted ::
  "AccountingSessionState \<Rightarrow> PromotedFields \<Rightarrow> AccountingSession \<Rightarrow> PromotedFields" where
  "collect_promoted state acc promoted =
     acc\<lparr>
       pf_known_nas_identities := merge_known_nas_identity_values
         (pf_known_nas_identities acc) (as_known_nas_identities promoted),
       pf_active_dynamic_circuit_ids := merge_active_dynamic_circuit_ids
         (pf_active_dynamic_circuit_ids acc) (as_active_dynamic_circuit_ids promoted),
       pf_diagnostic_circuit_ids := merge_diagnostic_circuit_ids
         (pf_diagnostic_circuit_ids acc) (as_diagnostic_circuit_ids promoted),
       pf_previous_event := Some (case pf_previous_event acc of
           Some previous_event \<Rightarrow>
             if state = Active then merge_sparse_active_event previous_event (as_latest_event promoted)
             else previous_event
         | None \<Rightarrow> as_latest_event promoted)\<rparr>"

definition session_metadata ::
  "(string \<Rightarrow> i64) \<Rightarrow> resolver \<Rightarrow> AccountingSessionKey \<Rightarrow> AccountingEvent \<Rightarrow> AccountingSessionState
    \<Rightarrow> SessionDynamicMetadata" where
  "session_metadata h resolve_metadata key latest_event state =
     (if state = Active then session_dynamic_metadata h key latest_event (resolve_metadata latest_event)
      else SessionDynamicMetadata_inactive)"

definition apply_session_state ::
  "(string \<Rightarrow> i64) \<Rightarrow> AccountingEvent \<Rightarrow> resolver \<Rightarrow> AccountingSessionState
    \<Rightarrow> AccountingSessionStore \<Rightarrow> AccountingSessionUpdate \<times> AccountingSessionStore" where
  "apply_session_state h event resolve_metadata state store =
     (let key_resolution = resolve_session_key store event;
          (promoted_sessions, store) = remove_sessions (kr_previous_keys key_resolution) store;
          key = kr_key key_resolution
      in case session_at store key of
           Some session \<Rightarrow>
             let store = remove_session_indexes key store;
                 (session, previous_event) =
                   foldl (merge_promoted state) (session, as_latest_event session) promoted_sessions;
                 latest_event = latest_session_event (Some previous_event) event state;
                 metadata = session_metadata h resolve_metadata key latest_event state;
                 session = session\<lparr>
                   as_state := state,
                   as_latest_event := latest_event,
                   as_resolved_rate := md_resolved_rate metadata,
                   as_resolved_shaped_device := md_resolved_shaped_device metadata,
                   as_diagnostic_circuit_ids := (case md_resolved_shaped_device metadata of
                       Some device \<Rightarrow>
                         push_unique_text (as_diagnostic_circuit_ids session) (sd_circuit_id device)
                     | None \<Rightarrow> as_diagnostic_circuit_ids session),
                   as_pending_reasons := md_pending_reasons metadata,
                   as_known_nas_identities :=
                     merge_known_nas_identities (as_known_nas_identities session) latest_event\<rparr>;
                 store = store\<lparr>st_sessions := AList.update key session (st_sessions store)\<rparr>
             in (SessionUpdated key state, index_session key store)
         | None \<Rightarrow>
             let acc = foldl (collect_promoted state)
                   \<lparr>pf_known_nas_identities = [], pf_active_dynamic_circuit_ids = [],
                    pf_diagnostic_circuit_ids = [], pf_previous_event = None\<rparr> promoted_sessions;
                 latest_event = latest_session_event (pf_previous_event acc) event state;
                 known = merge_known_nas_identities (pf_known_nas_identities acc) latest_event;
                 metadata = session_metadata h resolve_metadata key latest_event state;
                 session = \<lparr>
                   as_state = state,
                   as_latest_event = latest_event,
                   as_known_nas_identities = known,
                   as_resolved_rate = md_resolved_rate metadata,
                   as_resolved_shaped_device = md_resolved_shaped_device metadata,
                   as_active_dynamic_circuit_ids = pf_active_dynamic_circuit_ids acc,
                   as_diagnostic_circuit_ids = (case md_resolved_shaped_device metadata of
                       Some device \<Rightarrow>
                         push_unique_text (pf_diagnostic_circuit_ids acc) (sd_circuit_id device)
                     | None \<Rightarrow> pf_diagnostic_circuit_ids acc),
                   as_pending_reasons = md_pending_reasons metadata\<rparr>;
                 store = store\<lparr>st_sessions := AList.update key session (st_sessions store)\<rparr>
             in (SessionUpdated key state, index_session key store))"

definition upsert_active_session ::
  "(string \<Rightarrow> i64) \<Rightarrow> AccountingEvent \<Rightarrow> resolver \<Rightarrow> AccountingSessionStore
    \<Rightarrow> AccountingSessionUpdate \<times> AccountingSessionStore" where
  "upsert_active_session h event resolve_metadata store =
     apply_session_state h event resolve_metadata Active store"

definition stop_session ::
  "(string \<Rightarrow> i64) \<Rightarrow> AccountingEvent \<Rightarrow> resolver \<Rightarrow> AccountingSessionStore
    \<Rightarrow> AccountingSessionUpdate \<times> AccountingSessionStore" where
  "stop_session h event resolve_metadata store =
     apply_session_state h event resolve_metadata Stopped store"

definition mark_stale :: "NasResetStatus \<Rightarrow> AccountingSession \<Rightarrow> AccountingSession" where
  "mark_stale reset session =
     session\<lparr>as_state := Stale reset, as_resolved_rate := None,
             as_resolved_shaped_device := None, as_pending_reasons := []\<rparr>"

definition mark_nas_sessions_stale ::
  "AccountingEvent \<Rightarrow> NasResetStatus \<Rightarrow> AccountingSessionStore
    \<Rightarrow> AccountingSessionUpdate \<times> AccountingSessionStore" where
  "mark_nas_sessions_stale event reset store =
     (let reset_identities = NasIdentitySet_from_event event in
      case primary reset_identities of
        None \<Rightarrow> (Ignored (MissingNasIdentityForReset reset), store)
      | Some nas \<Rightarrow>
          let matches = (\<lambda>(key, session). session_matches_identities key session reset_identities);
              matched = filter matches (st_sessions store);
              newly_stale = filter (\<lambda>(key, session).
                case as_state session of Stale _ \<Rightarrow> False | _ \<Rightarrow> True) matched;
              sessions = map (\<lambda>(key, session).
                (key, if matches (key, session) then mark_stale reset session else session))
                (st_sessions store)
          in (NasSessionsMarkedStale nas reset (length matched) (map fst newly_stale) (map fst matched),
              store\<lparr>st_sessions := sessions\<rparr>))"

definition apply_event_with_resolution_resolver ::
  "(string \<Rightarrow> i64) \<Rightarrow> AccountingEvent \<Rightarrow> resolver \<Rightarrow> AccountingSessionStore
    \<Rightarrow> AccountingSessionUpdate \<times> AccountingSessionStore" where
  "apply_event_with_resolution_resolver h event resolve_metadata store =
     (case status_type event of
        None \<Rightarrow> (Ignored MissingStatusType, store)
      | Some Start \<Rightarrow> upsert_active_session h event resolve_metadata store
      | Some InterimUpdate \<Rightarrow> upsert_active_session h event resolve_metadata store
      | Some Stop \<Rightarrow> stop_session h event resolve_metadata store
      | Some AccountingOn \<Rightarrow> mark_nas_sessions_stale event NasAccountingOn store
      | Some AccountingOff \<Rightarrow> mark_nas_sessions_stale event NasAccountingOff store
      | Some (UnknownStatus v) \<Rightarrow> (Ignored (UnsupportedStatusType v), store))"

section \<open>Emitting intents\<close>

definition count_remove :: "RadiusActivationCounters \<Rightarrow> RadiusActivationCounters" where
  "count_remove c = c\<lparr>cnt_remove := cnt_remove c + 1\<rparr>"

fun emit_removals ::
  "AccountingSessionKey \<Rightarrow> DynamicCircuitRemovalReason \<Rightarrow> string list \<Rightarrow> RadiusActivationCounters
    \<Rightarrow> RadiusActivationCounters \<times> DynamicCircuitIntent list" where
  "emit_removals key reason [] counters = (counters, [])"
| "emit_removals key reason (circuit_id # ids) counters =
     (let (counters, intents) = emit_removals key reason ids (count_remove counters)
      in (counters, RemoveDynamicCircuit
            \<lparr>rm_circuit_id = circuit_id, rm_session_key = key, rm_reason = reason\<rparr> # intents))"

definition emit_active_dynamic_circuit_removals ::
  "AccountingSessionKey \<Rightarrow> AccountingSession \<Rightarrow> DynamicCircuitRemovalReason \<Rightarrow> RadiusActivationCounters
    \<Rightarrow> AccountingSession \<times> RadiusActivationCounters \<times> DynamicCircuitIntent list" where
  "emit_active_dynamic_circuit_removals key session reason counters =
     (session\<lparr>as_active_dynamic_circuit_ids := []\<rparr>,
      emit_removals key reason (as_active_dynamic_circuit_ids session) counters)"

text \<open>The loop of \<open>emit_rekeyed_dynamic_circuit_removals\<close>; \<open>kept\<close> is the session's new id list.\<close>

fun emit_rekeyed_loop ::
  "AccountingSessionKey \<Rightarrow> string \<Rightarrow> string list \<Rightarrow> string list \<Rightarrow> RadiusActivationCounters
    \<Rightarrow> string list \<times> RadiusActivationCounters \<times> DynamicCircuitIntent list" where
  "emit_rekeyed_loop key current kept [] counters = (kept, counters, [])"
| "emit_rekeyed_loop key current kept (circuit_id # ids) counters =
     (if circuit_id = current
      then emit_rekeyed_loop key current (push_active_dynamic_circuit_id kept circuit_id) ids counters
      else let (kept, counters, intents) = emit_rekeyed_loop key current kept ids (count_remove counters)
           in (kept, counters, RemoveDynamicCircuit
                 \<lparr>rm_circuit_id = circuit_id, rm_session_key = key, rm_reason = Rekeyed\<rparr> # intents))"

definition emit_rekeyed_dynamic_circuit_removals ::
  "AccountingSessionKey \<Rightarrow> AccountingSession \<Rightarrow> string \<Rightarrow> RadiusActivationCounters
    \<Rightarrow> AccountingSession \<times> RadiusActivationCounters \<times> DynamicCircuitIntent list" where
  "emit_rekeyed_dynamic_circuit_removals key session current counters =
     (let (kept, counters, intents) =
            emit_rekeyed_loop key current [] (as_active_dynamic_circuit_ids session) counters
      in (session\<lparr>as_active_dynamic_circuit_ids := kept\<rparr>, counters, intents))"

text \<open>\<open>get_mut\<close> on the sessions map followed by writing the changed session back.\<close>

definition put_session ::
  "AccountingSessionKey \<Rightarrow> AccountingSession \<Rightarrow> RadiusActivationCounters \<Rightarrow> AccountingSessionStore
    \<Rightarrow> AccountingSessionStore" where
  "put_session key session counters store =
     store\<lparr>st_sessions := AList.update key session (st_sessions store), st_counters := counters\<rparr>"

definition emit_active_session_intents ::
  "AccountingSessionKey \<Rightarrow> AccountingSessionStore \<Rightarrow> AccountingSessionStore \<times> DynamicCircuitIntent list" where
  "emit_active_session_intents key store =
     (case session_at store key of
        None \<Rightarrow> (store, [])
      | Some session \<Rightarrow>
          let no_longer_shapeable =
                (let (session, counters, intents) =
                       emit_active_dynamic_circuit_removals key session NoLongerShapeable (st_counters store)
                 in (put_session key session counters store, intents))
          in case as_resolved_shaped_device session of
               None \<Rightarrow> no_longer_shapeable
             | Some shaped_device \<Rightarrow>
                 let circuit_id = sd_circuit_id shaped_device in
                 if trim circuit_id = [] then no_longer_shapeable
                 else
                   let already_emitted = list_ex (\<lambda>active_id. active_id = circuit_id)
                         (as_active_dynamic_circuit_ids session);
                       upsert = \<lparr>up_circuit_id = circuit_id, up_session_key = key,
                                 up_event = as_latest_event session, up_shaped_device = shaped_device\<rparr>;
                       (counters, emitted) =
                         (let c = st_counters store in
                          case (already_emitted, status_type (as_latest_event session)) of
                            (True, Some InterimUpdate) \<Rightarrow>
                              (c\<lparr>cnt_update := cnt_update c + 1\<rparr>, [UpdateDynamicCircuit upsert])
                          | (_, Some Start) \<Rightarrow>
                              (c\<lparr>cnt_create := cnt_create c + 1\<rparr>, [CreateDynamicCircuit upsert])
                          | (_, Some InterimUpdate) \<Rightarrow>
                              (c\<lparr>cnt_create := cnt_create c + 1\<rparr>, [CreateDynamicCircuit upsert])
                          | _ \<Rightarrow> (c, []));
                       session = session\<lparr>
                         as_active_dynamic_circuit_ids := push_active_dynamic_circuit_id
                           (as_active_dynamic_circuit_ids session) circuit_id,
                         as_diagnostic_circuit_ids := push_unique_text
                           (as_diagnostic_circuit_ids session) circuit_id\<rparr>;
                       (session, counters, removals) =
                         emit_rekeyed_dynamic_circuit_removals key session circuit_id counters
                   in (put_session key session counters store, emitted @ removals))"

definition emit_session_dynamic_circuit_intents ::
  "AccountingSessionKey \<Rightarrow> AccountingSessionState \<Rightarrow> AccountingSessionStore
    \<Rightarrow> AccountingSessionStore \<times> DynamicCircuitIntent list" where
  "emit_session_dynamic_circuit_intents key state store =
     (case state of
        Active \<Rightarrow> emit_active_session_intents key store
      | Stopped \<Rightarrow>
          (case session_at store key of
             None \<Rightarrow> (store, [])
           | Some session \<Rightarrow>
               let (session, counters, intents) =
                     emit_active_dynamic_circuit_removals key session RemovalStop (st_counters store)
               in (put_session key session counters store, intents))
      | Stale _ \<Rightarrow> (store, []))"

definition emit_dynamic_circuit_intents ::
  "AccountingSessionUpdate \<Rightarrow> AccountingSessionStore \<Rightarrow> AccountingSessionStore \<times> DynamicCircuitIntent list" where
  "emit_dynamic_circuit_intents update store =
     (case update of
        SessionUpdated key state \<Rightarrow> emit_session_dynamic_circuit_intents key state store
      | NasSessionsMarkedStale _ _ _ _ _ \<Rightarrow> (store, [])
      | Ignored _ \<Rightarrow> (store, []))"

definition expire_session_with_commands ::
  "AccountingSessionKey \<Rightarrow> AccountingSessionStore
    \<Rightarrow> AccountingSession option \<times> AccountingSessionStore \<times> DynamicCircuitIntent list" where
  "expire_session_with_commands key store =
     (let (removed, store) = remove_session key store in
      case removed of
        None \<Rightarrow> (None, store, [])
      | Some session \<Rightarrow>
          let counters = (st_counters store)\<lparr>cnt_expiry := cnt_expiry (st_counters store) + 1\<rparr>;
              removal_reason = (case as_state session of
                  Stale reset \<Rightarrow> NasReset reset
                | Active \<Rightarrow> RemovalExpired
                | Stopped \<Rightarrow> RemovalExpired);
              (session, counters, intents) =
                emit_active_dynamic_circuit_removals key session removal_reason counters
          in (Some session, store\<lparr>st_counters := counters\<rparr>, intents))"

section \<open>Entry points\<close>

record ShapedDevicesMatchOptions =
  mo_match_by_username :: bool
  mo_match_by_mac :: bool
  mo_fallback_profile :: "SessionRateProfile option"
  mo_fallback_parent :: "DynamicCircuitParent option"

definition default_rate_sources :: SessionRateSources where
  "default_rate_sources = \<lparr>rs_shaped_device_profile = None, rs_fallback_profile = None\<rparr>"

definition apply_event_with_dynamic_circuit_resolution ::
  "(string \<Rightarrow> i64) \<Rightarrow> AccountingEvent \<Rightarrow> DynamicCircuitResolution \<Rightarrow> AccountingSessionStore
    \<Rightarrow> AccountingSessionUpdate \<times> AccountingSessionStore" where
  "apply_event_with_dynamic_circuit_resolution h event resolution store =
     apply_event_with_resolution_resolver h event (\<lambda>_. resolution) store"

definition apply_event_with_mapping_and_rate_sources ::
  "(string \<Rightarrow> i64) \<Rightarrow> AccountingEvent \<Rightarrow> DynamicCircuitMapping \<Rightarrow> SessionRateSources
    \<Rightarrow> AccountingSessionStore \<Rightarrow> AccountingSessionUpdate \<times> AccountingSessionStore" where
  "apply_event_with_mapping_and_rate_sources h event mapping rate_sources store =
     apply_event_with_dynamic_circuit_resolution h event
       \<lparr>dr_mapping = mapping, dr_rate_sources = rate_sources, dr_matched_shaped_device = None\<rparr> store"

definition apply_event_with_mapping ::
  "(string \<Rightarrow> i64) \<Rightarrow> AccountingEvent \<Rightarrow> DynamicCircuitMapping \<Rightarrow> AccountingSessionStore
    \<Rightarrow> AccountingSessionUpdate \<times> AccountingSessionStore" where
  "apply_event_with_mapping h event mapping store =
     apply_event_with_mapping_and_rate_sources h event mapping default_rate_sources store"

definition apply_event ::
  "(string \<Rightarrow> i64) \<Rightarrow> AccountingEvent \<Rightarrow> AccountingSessionStore
    \<Rightarrow> AccountingSessionUpdate \<times> AccountingSessionStore" where
  "apply_event h event store = apply_event_with_mapping h event MissingParent store"

definition mac_match_resolver ::
  "ShapedDevicesMacMatcher \<Rightarrow> SessionRateProfile option \<Rightarrow> resolver" where
  "mac_match_resolver matcher fallback_profile latest_event =
     from_shaped_devices_mac_match (match_event matcher latest_event) fallback_profile"

definition apply_event_with_shaped_devices_mac_matcher ::
  "(string \<Rightarrow> i64) \<Rightarrow> AccountingEvent \<Rightarrow> ShapedDevicesMacMatcher \<Rightarrow> SessionRateProfile option
    \<Rightarrow> AccountingSessionStore \<Rightarrow> AccountingSessionUpdate \<times> AccountingSessionStore" where
  "apply_event_with_shaped_devices_mac_matcher h event matcher fallback_profile store =
     apply_event_with_resolution_resolver h event (mac_match_resolver matcher fallback_profile) store"

definition identity_match_resolver ::
  "ShapedDevicesMacMatcher \<Rightarrow> ShapedDevicesMatchOptions \<Rightarrow> resolver" where
  "identity_match_resolver matcher options latest_event =
     from_shaped_devices_identity_match
       (match_event_with_identities matcher latest_event
          (mo_match_by_username options) (mo_match_by_mac options))
       (mo_fallback_profile options) (mo_fallback_parent options)"

definition apply_event_with_shaped_devices_matcher ::
  "(string \<Rightarrow> i64) \<Rightarrow> AccountingEvent \<Rightarrow> ShapedDevicesMacMatcher \<Rightarrow> ShapedDevicesMatchOptions
    \<Rightarrow> AccountingSessionStore \<Rightarrow> AccountingSessionUpdate \<times> AccountingSessionStore" where
  "apply_event_with_shaped_devices_matcher h event matcher options store =
     apply_event_with_resolution_resolver h event (identity_match_resolver matcher options) store"

text \<open>
  The \<open>_and_commands\<close> variants: apply the event, then emit the intents of the update. They differ
  only in the resolver, which is the argument here.
\<close>

definition apply_event_and_commands ::
  "(string \<Rightarrow> i64) \<Rightarrow> AccountingEvent \<Rightarrow> resolver \<Rightarrow> AccountingSessionStore
    \<Rightarrow> AccountingSessionUpdate \<times> AccountingSessionStore \<times> DynamicCircuitIntent list" where
  "apply_event_and_commands h event resolve_metadata store =
     (let (update, store) = apply_event_with_resolution_resolver h event resolve_metadata store;
          (store, intents) = emit_dynamic_circuit_intents update store
      in (update, store, intents))"

definition apply_event_with_shaped_devices_matcher_and_commands ::
  "(string \<Rightarrow> i64) \<Rightarrow> AccountingEvent \<Rightarrow> ShapedDevicesMacMatcher \<Rightarrow> ShapedDevicesMatchOptions
    \<Rightarrow> AccountingSessionStore
    \<Rightarrow> AccountingSessionUpdate \<times> AccountingSessionStore \<times> DynamicCircuitIntent list" where
  "apply_event_with_shaped_devices_matcher_and_commands h event matcher options store =
     apply_event_and_commands h event (identity_match_resolver matcher options) store"

definition apply_event_with_shaped_devices_mac_matcher_and_commands ::
  "(string \<Rightarrow> i64) \<Rightarrow> AccountingEvent \<Rightarrow> ShapedDevicesMacMatcher \<Rightarrow> SessionRateProfile option
    \<Rightarrow> AccountingSessionStore
    \<Rightarrow> AccountingSessionUpdate \<times> AccountingSessionStore \<times> DynamicCircuitIntent list" where
  "apply_event_with_shaped_devices_mac_matcher_and_commands h event matcher fallback_profile store =
     apply_event_and_commands h event (mac_match_resolver matcher fallback_profile) store"

definition apply_event_with_dynamic_circuit_resolution_and_commands ::
  "(string \<Rightarrow> i64) \<Rightarrow> AccountingEvent \<Rightarrow> DynamicCircuitResolution \<Rightarrow> AccountingSessionStore
    \<Rightarrow> AccountingSessionUpdate \<times> AccountingSessionStore \<times> DynamicCircuitIntent list" where
  "apply_event_with_dynamic_circuit_resolution_and_commands h event resolution store =
     apply_event_and_commands h event (\<lambda>_. resolution) store"

definition apply_event_with_mapping_and_commands ::
  "(string \<Rightarrow> i64) \<Rightarrow> AccountingEvent \<Rightarrow> DynamicCircuitMapping \<Rightarrow> AccountingSessionStore
    \<Rightarrow> AccountingSessionUpdate \<times> AccountingSessionStore \<times> DynamicCircuitIntent list" where
  "apply_event_with_mapping_and_commands h event mapping store =
     apply_event_with_dynamic_circuit_resolution_and_commands h event
       \<lparr>dr_mapping = mapping, dr_rate_sources = default_rate_sources, dr_matched_shaped_device = None\<rparr>
       store"

definition activation_diagnostics :: "AccountingSessionStore \<Rightarrow> RadiusActivationDiagnostic list" where
  "activation_diagnostics store =
     map (\<lambda>(key, session). from_retained_session key session) (st_sessions store)"

section \<open>Runs of the store\<close>

text \<open>
  One call on the store: an event with the resolver of its entry point, with or without emission,
  or the expiry of one session. A run carries the store and every intent emitted so far.
\<close>

datatype StoreCall =
    ApplyEvent AccountingEvent resolver
  | ApplyEventWithCommands AccountingEvent resolver
  | ExpireSession AccountingSessionKey

type_synonym store_run = "AccountingSessionStore \<times> DynamicCircuitIntent list"

fun store_step :: "(string \<Rightarrow> i64) \<Rightarrow> store_run \<Rightarrow> StoreCall \<Rightarrow> store_run" where
  "store_step h (store, trace) (ApplyEvent event r) =
     (snd (apply_event_with_resolution_resolver h event r store), trace)"
| "store_step h (store, trace) (ApplyEventWithCommands event r) =
     (let (_, store, intents) = apply_event_and_commands h event r store in (store, trace @ intents))"
| "store_step h (store, trace) (ExpireSession key) =
     (let (_, store, intents) = expire_session_with_commands key store in (store, trace @ intents))"

definition store_run :: "(string \<Rightarrow> i64) \<Rightarrow> StoreCall list \<Rightarrow> store_run" where
  "store_run h calls = foldl (store_step h) (new_store, []) calls"

end
