(* ===== verification/Session_Properties.thy ===== *)
theory Session_Properties
  imports Session_Store
begin

text \<open>
  What holds of the session store in every run: the indexes and the sessions agree, an indexed
  lookup gives what a scan of all sessions would give, resets hit exactly the sessions of the NAS,
  and no circuit outlives the sessions that asked for it.
\<close>

section \<open>Indexes from keys to sessions\<close>

text \<open>
  An index maps an index key to a set of session keys. What the store relies on: insertion and
  removal change one entry by one session key. From that, an index that holds exactly the entries
  of the stored sessions stays exact when a session is unindexed and removed, or added and indexed.
\<close>

locale multi_index =
  fixes ins :: "'i \<Rightarrow> 'k \<Rightarrow> 'x \<Rightarrow> 'x"
    and del :: "'i \<Rightarrow> 'k \<Rightarrow> 'x \<Rightarrow> 'x"
    and look :: "'x \<Rightarrow> 'i \<Rightarrow> 'k list"
    and wf :: "'x \<Rightarrow> bool"
  assumes wf_ins: "wf x \<Longrightarrow> wf (ins i k x)"
    and wf_del: "wf x \<Longrightarrow> wf (del i k x)"
    and look_ins: "wf x \<Longrightarrow> set (look (ins i k x) j) = (if j = i then insert k (set (look x j)) else set (look x j))"
    and look_del: "wf x \<Longrightarrow> set (look (del i k x) j) = (if j = i then set (look x j) - {k} else set (look x j))"
begin

definition exact :: "'x \<Rightarrow> ('k \<rightharpoonup> 's) \<Rightarrow> ('k \<Rightarrow> 's \<Rightarrow> 'i list) \<Rightarrow> bool" where
  "exact x m entries \<longleftrightarrow> wf x
     \<and> (\<forall>i k. k \<in> set (look x i) \<longleftrightarrow> (\<exists>s. m k = Some s \<and> i \<in> set (entries k s)))"

lemma wf_ins_all: "wf x \<Longrightarrow> wf (foldl (\<lambda>x i. ins i k x) x is)"
  by (induction "is" arbitrary: x) (simp_all add: wf_ins)

lemma wf_del_all: "wf x \<Longrightarrow> wf (foldl (\<lambda>x i. del i k x) x is)"
  by (induction "is" arbitrary: x) (simp_all add: wf_del)

lemma look_ins_all:
  "wf x \<Longrightarrow> set (look (foldl (\<lambda>x i. ins i k x) x is) j)
    = (if j \<in> set is then insert k (set (look x j)) else set (look x j))"
  by (induction "is" arbitrary: x) (auto simp: wf_ins look_ins)

lemma look_del_all:
  "wf x \<Longrightarrow> set (look (foldl (\<lambda>x i. del i k x) x is) j)
    = (if j \<in> set is then set (look x j) - {k} else set (look x j))"
  by (induction "is" arbitrary: x) (auto simp: wf_del look_del)

lemma exact_remove:
  assumes "exact x m entries" and "m k = Some s"
  shows "exact (foldl (\<lambda>x i. del i k x) x (entries k s)) (m(k := None)) entries"
  using assms by (auto simp: exact_def wf_del_all look_del_all split: if_splits)

lemma exact_add:
  assumes "exact x m entries" and "m k = None"
  shows "exact (foldl (\<lambda>x i. ins i k x) x (entries k s)) (m(k \<mapsto> s)) entries"
  using assms by (auto simp: exact_def wf_ins_all look_ins_all split: if_splits)

lemma exact_same_entries:
  assumes "exact x m entries" and "\<And>k. m' k = map_option (f k) (m k)"
    and "\<And>k s. entries k (f k s) = entries k s"
  shows "exact x m' entries"
  using assms by (auto simp: exact_def)

lemma exact_wf: "exact x m entries \<Longrightarrow> wf x"
  by (simp add: exact_def)

lemma exact_look: "exact x m entries \<Longrightarrow> k \<in> set (look x i) \<longleftrightarrow> (\<exists>s. m k = Some s \<and> i \<in> set (entries k s))"
  by (simp add: exact_def)

end

definition index_look :: "'i key_index \<Rightarrow> 'i \<Rightarrow> AccountingSessionKey list" where
  "index_look index i = (case map_of index i of Some keys \<Rightarrow> keys | None \<Rightarrow> [])"

definition wf_index :: "'i key_index \<Rightarrow> bool" where
  "wf_index index \<longleftrightarrow> distinct (map fst index) \<and> (\<forall>i. distinct (index_look index i))"

lemma index_look_update:
  "index_look (AList.update i ks index) j = (if j = i then ks else index_look index j)"
  by (simp add: index_look_def store_simps)

lemma index_look_delete:
  "index_look (AList.delete i index) j = (if j = i then [] else index_look index j)"
  by (simp add: index_look_def store_simps)

lemma index_look_insert:
  "index_look (insert_indexed_session_key i k index) j
    = (if j = i then push_unique k (index_look index i) else index_look index j)"
  by (simp add: insert_indexed_session_key_def index_look_update flip: index_look_def)

lemma index_look_remove:
  "index_look (remove_indexed_session_key i k index) j
    = (if j = i then removeAll k (index_look index i) else index_look index j)"
  by (auto simp: remove_indexed_session_key_def index_look_update index_look_delete Let_def
      split: option.splits) (simp_all add: index_look_def)

lemma distinct_keys_index:
  "distinct (map fst index) \<Longrightarrow> distinct (map fst (insert_indexed_session_key i k index))"
  "distinct (map fst index) \<Longrightarrow> distinct (map fst (remove_indexed_session_key i k index))"
  by (simp_all add: insert_indexed_session_key_def remove_indexed_session_key_def distinct_update
      distinct_delete Let_def split: option.splits)

interpretation session_index: multi_index insert_indexed_session_key remove_indexed_session_key
  index_look wf_index
  by unfold_locales
    (auto simp: wf_index_def index_look_insert index_look_remove distinct_keys_index
      distinct_removeAll)

section \<open>The store invariant\<close>

definition nas_entries :: "AccountingSessionKey \<Rightarrow> AccountingSession \<Rightarrow> string list" where
  "nas_entries k s = (case k of NasSession _ sid \<Rightarrow> [sid] | Pending _ \<Rightarrow> [])"

definition pending_entries :: "AccountingSessionKey \<Rightarrow> AccountingSession \<Rightarrow> SessionLookupIndexKey list" where
  "pending_entries k s = (case k of NasSession _ _ \<Rightarrow> [] | Pending _ \<Rightarrow> session_lookup_index_keys k s)"

definition fallback_entries :: "AccountingSessionKey \<Rightarrow> AccountingSession \<Rightarrow> SessionLookupIndexKey list" where
  "fallback_entries k s = (case k of NasSession _ _ \<Rightarrow> session_lookup_index_keys k s | Pending _ \<Rightarrow> [])"

text \<open>All three indexes hold exactly the entries of a session map.\<close>

definition indexes_exact ::
  "AccountingSessionStore \<Rightarrow> (AccountingSessionKey \<rightharpoonup> AccountingSession) \<Rightarrow> bool" where
  "indexes_exact store m \<longleftrightarrow>
     session_index.exact (st_nas_index store) m nas_entries
     \<and> session_index.exact (st_pending_index store) m pending_entries
     \<and> session_index.exact (st_fallback_index store) m fallback_entries"

text \<open>A pending session still has the identity its key was made from.\<close>

definition pending_key_ok :: "AccountingSessionKey \<Rightarrow> AccountingSession \<Rightarrow> bool" where
  "pending_key_ok k s \<longleftrightarrow>
     (case k of NasSession _ _ \<Rightarrow> True | Pending fp \<Rightarrow> session_fingerprint k s = fp\<lparr>fp_nas := None\<rparr>)"

definition store_inv :: "AccountingSessionStore \<Rightarrow> bool" where
  "store_inv store \<longleftrightarrow>
     distinct (map fst (st_sessions store))
     \<and> indexes_exact store (map_of (st_sessions store))
     \<and> (\<forall>k s. session_at store k = Some s \<longrightarrow> pending_key_ok k s)"

lemmas entries_defs = session_index_entries_def nas_entries_def pending_entries_def fallback_entries_def

lemma index_session_eq:
  "session_at store k = Some s \<Longrightarrow> index_session k store = store\<lparr>
     st_nas_index := foldl (\<lambda>x i. insert_indexed_session_key i k x) (st_nas_index store) (nas_entries k s),
     st_pending_index := foldl (\<lambda>x i. insert_indexed_session_key i k x) (st_pending_index store) (pending_entries k s),
     st_fallback_index := foldl (\<lambda>x i. insert_indexed_session_key i k x) (st_fallback_index store) (fallback_entries k s)\<rparr>"
  by (cases k) (simp_all add: index_session_def Let_def entries_defs)

lemma remove_session_indexes_eq:
  "session_at store k = Some s \<Longrightarrow> remove_session_indexes k store = store\<lparr>
     st_nas_index := foldl (\<lambda>x i. remove_indexed_session_key i k x) (st_nas_index store) (nas_entries k s),
     st_pending_index := foldl (\<lambda>x i. remove_indexed_session_key i k x) (st_pending_index store) (pending_entries k s),
     st_fallback_index := foldl (\<lambda>x i. remove_indexed_session_key i k x) (st_fallback_index store) (fallback_entries k s)\<rparr>"
  by (cases k) (simp_all add: remove_session_indexes_def Let_def entries_defs)

lemma remove_session_indexes_None:
  "session_at store k = None \<Longrightarrow> remove_session_indexes k store = store"
  by (simp add: remove_session_indexes_def)

lemma remove_session_indexes_sessions [simp]:
  "st_sessions (remove_session_indexes k store) = st_sessions store"
  "st_counters (remove_session_indexes k store) = st_counters store"
  by (simp_all add: remove_session_indexes_def Let_def split: option.splits)

lemma index_session_sessions [simp]:
  "st_sessions (index_session k store) = st_sessions store"
  "st_counters (index_session k store) = st_counters store"
  by (simp_all add: index_session_def Let_def split: option.splits)

lemma remove_session_indexes_exact:
  assumes "indexes_exact store (map_of (st_sessions store))"
  shows "indexes_exact (remove_session_indexes k store) ((map_of (st_sessions store))(k := None))"
proof (cases "session_at store k")
  case None
  then have "(map_of (st_sessions store))(k := None) = map_of (st_sessions store)" by auto
  with None assms show ?thesis by (simp add: remove_session_indexes_None)
next
  case (Some s)
  with assms show ?thesis
    by (simp add: indexes_exact_def remove_session_indexes_eq session_index.exact_remove)
qed

lemma index_session_exact:
  assumes "indexes_exact store ((map_of (st_sessions store))(k := None))"
    and "session_at store k = Some s"
  shows "indexes_exact (index_session k store) (map_of (st_sessions store))"
proof -
  define m where "m = (map_of (st_sessions store))(k := None)"
  have "m k = None" by (simp add: m_def)
  moreover have m: "map_of (st_sessions store) = m(k \<mapsto> s)"
    using assms(2) by (auto simp: m_def)
  moreover have "indexes_exact store m" using assms(1) by (simp add: m_def)
  ultimately show ?thesis
    unfolding index_session_eq [OF assms(2)] m indexes_exact_def
    by (simp add: session_index.exact_add)
qed

lemma remove_session_simps:
  "fst (remove_session k store) = session_at store k"
  "st_sessions (snd (remove_session k store)) = AList.delete k (st_sessions store)"
  "st_counters (snd (remove_session k store)) = st_counters store"
  by (simp_all add: remove_session_def)

lemma map_of_remove_session:
  "map_of (st_sessions (snd (remove_session k store))) = (map_of (st_sessions store))(k := None)"
  by (auto simp: remove_session_simps delete_conv)

lemma remove_session_inv:
  assumes "store_inv store"
  shows "store_inv (snd (remove_session k store))"
proof -
  have "indexes_exact (snd (remove_session k store)) ((map_of (st_sessions store))(k := None))"
    using remove_session_indexes_exact [of store k] assms
    by (simp add: store_inv_def remove_session_def indexes_exact_def)
  then show ?thesis
    using assms unfolding store_inv_def map_of_remove_session
    by (auto simp: remove_session_simps distinct_delete)
qed

lemma remove_sessions_inv: "store_inv store \<Longrightarrow> store_inv (snd (remove_sessions ks store))"
  by (induction ks arbitrary: store) (simp_all add: case_prod_beta Let_def remove_session_inv)

text \<open>Both branches of the update end the same way: unindex, replace the session, index.\<close>

definition replace_session ::
  "AccountingSessionKey \<Rightarrow> AccountingSession \<Rightarrow> AccountingSessionStore \<Rightarrow> AccountingSessionStore" where
  "replace_session key session store =
     (let store = remove_session_indexes key store
      in index_session key (store\<lparr>st_sessions := AList.update key session (st_sessions store)\<rparr>))"

lemma replace_session_sessions [simp]:
  "st_sessions (replace_session k s store) = AList.update k s (st_sessions store)"
  "st_counters (replace_session k s store) = st_counters store"
  by (simp_all add: replace_session_def Let_def)

lemma replace_session_inv:
  assumes "store_inv store" and "pending_key_ok k s"
  shows "store_inv (replace_session k s store)"
proof -
  let ?store = "(remove_session_indexes k store)\<lparr>st_sessions := AList.update k s (st_sessions store)\<rparr>"
  have upd: "map_of (AList.update k s (st_sessions store)) = (map_of (st_sessions store))(k \<mapsto> s)"
    by (simp add: update_conv')
  have "indexes_exact ?store ((map_of (st_sessions store))(k := None))"
    using remove_session_indexes_exact [of store k] assms(1)
    by (simp add: store_inv_def indexes_exact_def)
  then have "indexes_exact (index_session k ?store) (map_of (st_sessions ?store))"
    by (intro index_session_exact [where s = s]) (simp_all add: upd)
  then show ?thesis
    using assms by (auto simp: store_inv_def replace_session_def Let_def upd distinct_update)
qed

text \<open>The session an update leaves at its key, from the old one, if any, and the promoted ones.\<close>

definition updated_session ::
  "(string \<Rightarrow> i64) \<Rightarrow> resolver \<Rightarrow> AccountingEvent \<Rightarrow> AccountingSessionState \<Rightarrow> AccountingSessionKey
    \<Rightarrow> AccountingSession option \<Rightarrow> AccountingSession list \<Rightarrow> AccountingSession" where
  "updated_session h r event state key old promoted =
     (let acc = (case old of
            Some s \<Rightarrow>
              (let (m, prev) = foldl (merge_promoted state) (s, as_latest_event s) promoted
               in \<lparr>pf_known_nas_identities = as_known_nas_identities m,
                   pf_active_dynamic_circuit_ids = as_active_dynamic_circuit_ids m,
                   pf_diagnostic_circuit_ids = as_diagnostic_circuit_ids m,
                   pf_previous_event = Some prev\<rparr>)
          | None \<Rightarrow> foldl (collect_promoted state)
                   \<lparr>pf_known_nas_identities = [], pf_active_dynamic_circuit_ids = [],
                    pf_diagnostic_circuit_ids = [], pf_previous_event = None\<rparr> promoted);
          latest_event = latest_session_event (pf_previous_event acc) event state;
          metadata = session_metadata h r key latest_event state
      in \<lparr>as_state = state,
          as_latest_event = latest_event,
          as_known_nas_identities = merge_known_nas_identities (pf_known_nas_identities acc) latest_event,
          as_resolved_rate = md_resolved_rate metadata,
          as_resolved_shaped_device = md_resolved_shaped_device metadata,
          as_active_dynamic_circuit_ids = pf_active_dynamic_circuit_ids acc,
          as_diagnostic_circuit_ids = (case md_resolved_shaped_device metadata of
              Some device \<Rightarrow> push_unique_text (pf_diagnostic_circuit_ids acc) (sd_circuit_id device)
            | None \<Rightarrow> pf_diagnostic_circuit_ids acc),
          as_pending_reasons = md_pending_reasons metadata\<rparr>)"

lemma apply_session_state_eq:
  "apply_session_state h event r state store =
     (let kr = resolve_session_key store event;
          removal = remove_sessions (kr_previous_keys kr) store
      in (SessionUpdated (kr_key kr) state,
          replace_session (kr_key kr)
            (updated_session h r event state (kr_key kr) (session_at (snd removal) (kr_key kr)) (fst removal))
            (snd removal)))"
proof -
  define kr where "kr = resolve_session_key store event"
  obtain promoted store1 where rm: "remove_sessions (kr_previous_keys kr) store = (promoted, store1)"
    by (cases "remove_sessions (kr_previous_keys kr) store")
  show ?thesis
  proof (cases "session_at store1 (kr_key kr)")
    case None
    then show ?thesis
      unfolding apply_session_state_def Let_def kr_def [symmetric] rm prod.case fst_conv snd_conv
      by (simp add: updated_session_def replace_session_def Let_def remove_session_indexes_None
          cong: option.case_cong)
  next
    case (Some session)
    obtain m prev where "foldl (merge_promoted state) (session, as_latest_event session) promoted = (m, prev)"
      by (cases "foldl (merge_promoted state) (session, as_latest_event session) promoted")
    with Some show ?thesis
      unfolding apply_session_state_def Let_def kr_def [symmetric] rm prod.case fst_conv snd_conv
      by (cases m) (simp add: updated_session_def replace_session_def Let_def cong: option.case_cong)
  qed
qed

section \<open>Which keys an event resolves to\<close>

lemma matching_session_key_shape:
  assumes "store_inv store" and "matching_session_key store sid ids ex = Some k"
  shows "\<exists>nas. k = NasSession nas sid"
proof -
  obtain ks where ks: "map_of (st_nas_index store) sid = Some ks" "k \<in> set ks"
    using assms(2) by (auto simp: matching_session_key_def dest: unique_match_SomeD split: option.splits)
  then have "k \<in> set (index_look (st_nas_index store) sid)" by (simp add: index_look_def)
  then obtain s where "sid \<in> set (nas_entries k s)"
    using assms(1) session_index.exact_look by (fastforce simp: store_inv_def indexes_exact_def)
  then show ?thesis by (cases k) (auto simp: nas_entries_def)
qed

lemma existing_pending_key_shape:
  "existing_pending_key store event ids = Some k
    \<Longrightarrow> \<exists>fp s. k = Pending fp \<and> session_at store k = Some s"
  by (auto simp: existing_pending_key_def pending_candidate_matches_def dest!: unique_match_SomeD
      split: option.splits AccountingSessionKey.splits)

lemma existing_fallback_session_key_shape:
  "existing_fallback_session_key store event ids = Some k
    \<Longrightarrow> \<exists>nas sid s. k = NasSession nas sid \<and> session_at store k = Some s"
  by (auto simp: existing_fallback_session_key_def fallback_candidate_matches_def
      dest!: unique_match_SomeD split: option.splits AccountingSessionKey.splits)

lemma matching_session_key_present:
  "matching_session_key store sid ids ex = Some k \<Longrightarrow> ex \<noteq> Some k \<and> session_at store k \<noteq> None"
  by (auto simp: matching_session_key_def dest!: unique_match_SomeD split: option.splits)

lemmas key_shapes = matching_session_key_shape existing_pending_key_shape
  existing_fallback_session_key_shape matching_session_key_present

text \<open>
  A pending key is only used for the event's own fingerprint and promotes nothing; promoted keys are
  stored, different from each other and from the key.
\<close>

lemma resolve_session_key_pending:
  assumes "store_inv store" and "kr_key (resolve_session_key store event) = Pending fp"
  shows "fp = fingerprint_from_event event (primary (NasIdentitySet_from_event event))
    \<and> kr_previous_keys (resolve_session_key store event) = []"
  using assms
  by (auto simp: resolve_session_key_def or_existing_def resolution_new_def resolution_promoted_def
      existing_session_key_def Let_def
      split: option.splits if_splits
      dest: matching_session_key_shape existing_fallback_session_key_shape)

lemma resolve_session_key_previous:
  assumes inv: "store_inv store"
  shows "distinct (kr_previous_keys (resolve_session_key store event))
    \<and> kr_key (resolve_session_key store event) \<notin> set (kr_previous_keys (resolve_session_key store event))
    \<and> list_all (\<lambda>k. session_at store k \<noteq> None) (kr_previous_keys (resolve_session_key store event))"
proof (cases "filter_opt (\<lambda>s. s \<noteq> []) (acct_session_id event)")
  case None
  then show ?thesis
    by (simp add: resolve_session_key_def or_existing_def resolution_new_def Let_def split: option.splits)
next
  case sid: (Some sid)
  let ?ids = "NasIdentitySet_from_event event"
  show ?thesis
  proof (cases "primary ?ids")
    case None
    with sid show ?thesis
      by (simp add: resolve_session_key_def or_existing_def resolution_new_def Let_def split: option.splits)
  next
    case nas: (Some nas)
    have alt: "\<exists>n. k = NasSession n sid \<and> k \<noteq> NasSession nas sid \<and> session_at store k \<noteq> None"
      if "alternate_session_key store sid ?ids (NasSession nas sid) = Some k" for k
      using that matching_session_key_shape [OF inv] matching_session_key_present
      unfolding alternate_session_key_def by blast
    have ex: "\<exists>n. k = NasSession n sid" if "existing_session_key store sid ?ids = Some k" for k
      using that matching_session_key_shape [OF inv] unfolding existing_session_key_def by blast
    have pend: "\<exists>fp. k = Pending fp \<and> session_at store k \<noteq> None"
      if "existing_pending_key store event ?ids = Some k" for k
      using existing_pending_key_shape [OF that] by auto
    show ?thesis
      by (cases "existing_pending_key store event ?ids";
          cases "alternate_session_key store sid ?ids (NasSession nas sid)";
          cases "existing_session_key store sid ?ids";
          cases "session_at store (NasSession nas sid)")
        (use alt ex pend in \<open>force simp: resolve_session_key_def sid nas Let_def resolution_new_def
          resolution_promoted_def push_unique_def\<close>)+
  qed
qed

section \<open>Every operation keeps the invariant\<close>

lemma fingerprint_nas [simp]:
  "(fingerprint_from_event e nas)\<lparr>fp_nas := nas'\<rparr> = fingerprint_from_event e nas'"
  by (simp add: fingerprint_from_event_def)

lemma non_empty_carry:
  "non_empty_text a = non_empty_text b \<Longrightarrow> non_empty_text (carry_text a b) = non_empty_text a"
  by (simp add: carry_text_def)

lemma fingerprint_merge:
  "fingerprint_from_event p nas = fingerprint_from_event e nas
    \<Longrightarrow> fingerprint_from_event (merge_sparse_active_event p e) nas = fingerprint_from_event e nas"
  by (auto simp: fingerprint_from_event_def merge_sparse_active_event_def non_empty_carry
      carry_optional_def)

lemma pending_key_ok_updated:
  assumes inv: "store_inv store" and k: "key = kr_key (resolve_session_key store event)"
    and rm: "remove_sessions (kr_previous_keys (resolve_session_key store event)) store = (promoted, store1)"
  shows "pending_key_ok key (updated_session h r event state key (session_at store1 key) promoted)"
proof (cases key)
  case (Pending fp)
  let ?nas = "primary (NasIdentitySet_from_event event)"
  have fp: "fp = fingerprint_from_event event ?nas" and "kr_previous_keys (resolve_session_key store event) = []"
    using resolve_session_key_pending [OF inv, of event fp] k Pending by auto
  with rm have p: "promoted = []" "store1 = store" by auto
  have old: "fingerprint_from_event (as_latest_event s) None = fingerprint_from_event event None"
    if "session_at store key = Some s" for s
  proof -
    have "pending_key_ok key s" using inv that unfolding store_inv_def by blast
    then show ?thesis by (simp add: pending_key_ok_def Pending session_fingerprint_def fp)
  qed
  show ?thesis
    using old by (cases "session_at store key")
      (auto simp: pending_key_ok_def Pending session_fingerprint_def updated_session_def p fp Let_def
        latest_session_event_def fingerprint_merge)
qed (simp add: pending_key_ok_def)

lemma apply_session_state_inv:
  assumes "store_inv store"
  shows "store_inv (snd (apply_session_state h event r state store))"
proof -
  obtain promoted store1 where
    rm: "remove_sessions (kr_previous_keys (resolve_session_key store event)) store = (promoted, store1)"
    by (cases "remove_sessions (kr_previous_keys (resolve_session_key store event)) store")
  then have "store_inv store1" using remove_sessions_inv [OF assms] by (metis snd_conv)
  then show ?thesis
    unfolding apply_session_state_eq Let_def rm snd_conv fst_conv
    by (intro replace_session_inv pending_key_ok_updated [OF assms refl rm])
qed

text \<open>Changes that keep every session's latest event keep the indexes exact.\<close>

lemma session_fingerprint_cong:
  "as_latest_event s' = as_latest_event s \<Longrightarrow> session_fingerprint k s' = session_fingerprint k s"
  by (simp add: session_fingerprint_def)

lemma entries_cong:
  assumes "as_latest_event s' = as_latest_event s"
  shows "nas_entries k s' = nas_entries k s" "pending_entries k s' = pending_entries k s"
    "fallback_entries k s' = fallback_entries k s" "pending_key_ok k s' = pending_key_ok k s"
  using session_fingerprint_cong [OF assms]
  by (simp_all add: nas_entries_def pending_entries_def fallback_entries_def pending_key_ok_def
      session_lookup_index_keys_def split: AccountingSessionKey.splits)

lemma same_events_inv:
  assumes inv: "store_inv store" and "distinct (map fst (st_sessions store'))"
    and idx: "st_nas_index store' = st_nas_index store" "st_pending_index store' = st_pending_index store"
      "st_fallback_index store' = st_fallback_index store"
    and ses: "\<And>k. session_at store' k = map_option (f k) (session_at store k)"
    and f: "\<And>k s. as_latest_event (f k s) = as_latest_event s"
  shows "store_inv store'"
proof -
  have "indexes_exact store' (map_of (st_sessions store'))"
    unfolding indexes_exact_def idx
  proof (intro conjI)
    note ex = inv [unfolded store_inv_def indexes_exact_def]
    show "session_index.exact (st_nas_index store) (map_of (st_sessions store')) nas_entries"
      by (rule session_index.exact_same_entries [where f = f]) (use ex ses entries_cong [OF f] in blast)+
    show "session_index.exact (st_pending_index store) (map_of (st_sessions store')) pending_entries"
      by (rule session_index.exact_same_entries [where f = f]) (use ex ses entries_cong [OF f] in blast)+
    show "session_index.exact (st_fallback_index store) (map_of (st_sessions store')) fallback_entries"
      by (rule session_index.exact_same_entries [where f = f]) (use ex ses entries_cong [OF f] in blast)+
  qed
  moreover have "pending_key_ok k s" if "session_at store' k = Some s" for k s
  proof -
    from that obtain s0 where "session_at store k = Some s0" "s = f k s0" by (auto simp: ses)
    then show ?thesis using inv entries_cong(4) [OF f] unfolding store_inv_def by blast
  qed
  ultimately show ?thesis using assms(2) by (simp add: store_inv_def)
qed

lemma put_session_inv:
  assumes "store_inv store" and "session_at store k = Some s"
    and "as_latest_event s' = as_latest_event s"
  shows "store_inv (put_session k s' c store)"
proof (rule same_events_inv [OF assms(1)])
  show "session_at (put_session k s' c store) j
      = map_option (\<lambda>s. if j = k then s' \<lparr>as_latest_event := as_latest_event s\<rparr> else s) (session_at store j)" for j
    using assms(2,3) by (auto simp: put_session_def store_simps)
qed (use assms in \<open>simp_all add: put_session_def store_inv_def distinct_update\<close>)

lemma mark_nas_sessions_stale_lookup:
  "session_at (snd (mark_nas_sessions_stale event reset store)) k
    = map_option (\<lambda>s. if primary (NasIdentitySet_from_event event) \<noteq> None
          \<and> session_matches_identities k s (NasIdentitySet_from_event event)
        then mark_stale reset s else s) (session_at store k)"
proof -
  have "map_of (map (\<lambda>(k, s). (k, g k s)) xs) k = map_option (g k) (map_of xs k)"
    for g :: "AccountingSessionKey \<Rightarrow> AccountingSession \<Rightarrow> AccountingSession" and xs
    by (induction xs) auto
  note this [of "\<lambda>k s. if session_matches_identities k s (NasIdentitySet_from_event event)
    then mark_stale reset s else s", simp]
  show ?thesis
    by (cases "primary (NasIdentitySet_from_event event)")
      (simp_all add: mark_nas_sessions_stale_def Let_def)
qed

lemma mark_nas_sessions_stale_inv:
  assumes "store_inv store"
  shows "store_inv (snd (mark_nas_sessions_stale event reset store))"
proof (rule same_events_inv [OF assms _ _ _ _ mark_nas_sessions_stale_lookup])
  have "fst \<circ> (\<lambda>(k, s). (k, g k s)) = fst"
    for g :: "AccountingSessionKey \<Rightarrow> AccountingSession \<Rightarrow> AccountingSession"
    by auto
  then show "distinct (map fst (st_sessions (snd (mark_nas_sessions_stale event reset store))))"
    using assms by (simp add: mark_nas_sessions_stale_def Let_def store_inv_def split: option.splits)
qed (simp_all add: mark_nas_sessions_stale_def Let_def mark_stale_def split: option.splits)

lemma apply_event_inv:
  "store_inv store \<Longrightarrow> store_inv (snd (apply_event_with_resolution_resolver h event r store))"
  by (simp add: apply_event_with_resolution_resolver_def upsert_active_session_def stop_session_def
      apply_session_state_inv mark_nas_sessions_stale_inv split: option.splits AcctStatusType.splits)

section \<open>What is emitted\<close>

definition removal_intent ::
  "AccountingSessionKey \<Rightarrow> DynamicCircuitRemovalReason \<Rightarrow> string \<Rightarrow> DynamicCircuitIntent" where
  "removal_intent key reason c =
     RemoveDynamicCircuit \<lparr>rm_circuit_id = c, rm_session_key = key, rm_reason = reason\<rparr>"

lemma emit_removals_intents:
  "snd (emit_removals key reason ids counters) = map (removal_intent key reason) ids"
  by (induction ids arbitrary: counters) (simp_all add: Let_def case_prod_beta removal_intent_def)

lemma emit_rekeyed_loop_eq:
  "fst (emit_rekeyed_loop key cur kept ids c) = (if cur \<in> set ids then push_unique cur kept else kept)"
  "snd (snd (emit_rekeyed_loop key cur kept ids c))
    = map (removal_intent key Rekeyed) (filter (\<lambda>i. i \<noteq> cur) ids)"
  by (induction ids arbitrary: kept c)
    (auto simp: Let_def case_prod_beta removal_intent_def push_active_dynamic_circuit_id_def push_unique_def)

text \<open>
  The session an emission leaves, and the intents: with a resolved device its circuit is the only
  active one, every other active circuit is removed; without one all are removed.
\<close>

definition emitted_session :: "AccountingSession \<Rightarrow> AccountingSession" where
  "emitted_session s = (case as_resolved_shaped_device s of
     None \<Rightarrow> s\<lparr>as_active_dynamic_circuit_ids := []\<rparr>
   | Some d \<Rightarrow>
       if trim (sd_circuit_id d) = [] then s\<lparr>as_active_dynamic_circuit_ids := []\<rparr>
       else s\<lparr>as_diagnostic_circuit_ids :=
                push_unique_text (as_diagnostic_circuit_ids s) (sd_circuit_id d),
              as_active_dynamic_circuit_ids := [sd_circuit_id d]\<rparr>)"

definition upsert_intent :: "AccountingSessionKey \<Rightarrow> AccountingSession \<Rightarrow> ShapedDevice \<Rightarrow> DynamicCircuitIntent list" where
  "upsert_intent key s d =
     (let u = \<lparr>up_circuit_id = sd_circuit_id d, up_session_key = key, up_event = as_latest_event s,
               up_shaped_device = d\<rparr>
      in case status_type (as_latest_event s) of
           Some InterimUpdate \<Rightarrow>
             [if sd_circuit_id d \<in> set (as_active_dynamic_circuit_ids s)
              then UpdateDynamicCircuit u else CreateDynamicCircuit u]
         | Some Start \<Rightarrow> [CreateDynamicCircuit u]
         | _ \<Rightarrow> [])"

definition emitted_intents :: "AccountingSessionKey \<Rightarrow> AccountingSession \<Rightarrow> DynamicCircuitIntent list" where
  "emitted_intents key s = (case as_resolved_shaped_device s of
     None \<Rightarrow> map (removal_intent key NoLongerShapeable) (as_active_dynamic_circuit_ids s)
   | Some d \<Rightarrow>
       if trim (sd_circuit_id d) = []
       then map (removal_intent key NoLongerShapeable) (as_active_dynamic_circuit_ids s)
       else upsert_intent key s d
         @ map (removal_intent key Rekeyed)
             (filter (\<lambda>i. i \<noteq> sd_circuit_id d) (as_active_dynamic_circuit_ids s)))"

lemma emit_active_session_intents_eq:
  assumes "session_at store key = Some s"
  shows "\<exists>c. emit_active_session_intents key store
    = (put_session key (emitted_session s) c store, emitted_intents key s)"
proof -
  have removals: "\<exists>c. (let (session, counters, intents) =
        emit_active_dynamic_circuit_removals key s NoLongerShapeable (st_counters store)
      in (put_session key session counters store, intents))
    = (put_session key (s\<lparr>as_active_dynamic_circuit_ids := []\<rparr>) c store,
       map (removal_intent key NoLongerShapeable) (as_active_dynamic_circuit_ids s))"
    by (auto simp: emit_active_dynamic_circuit_removals_def Let_def case_prod_beta emit_removals_intents)
  show ?thesis
  proof (cases "as_resolved_shaped_device s")
    case None
    then show ?thesis
      using removals assms by (simp add: emit_active_session_intents_def emitted_session_def emitted_intents_def)
  next
    case (Some d)
    show ?thesis
    proof (cases "trim (sd_circuit_id d) = []")
      case True
      with Some show ?thesis
        using removals assms by (simp add: emit_active_session_intents_def emitted_session_def emitted_intents_def)
    next
      case False
      have rekey: "emit_rekeyed_dynamic_circuit_removals key s' (sd_circuit_id d) c
          = (s'\<lparr>as_active_dynamic_circuit_ids := [sd_circuit_id d]\<rparr>,
             fst (snd (emit_rekeyed_loop key (sd_circuit_id d) [] (as_active_dynamic_circuit_ids s') c)),
             map (removal_intent key Rekeyed) (filter (\<lambda>i. i \<noteq> sd_circuit_id d) (as_active_dynamic_circuit_ids s')))"
        if "sd_circuit_id d \<in> set (as_active_dynamic_circuit_ids s')" for s' c
        using that emit_rekeyed_loop_eq [of key "sd_circuit_id d" "[]" "as_active_dynamic_circuit_ids s'" c]
        by (simp add: emit_rekeyed_dynamic_circuit_removals_def case_prod_beta push_unique_def
            prod_eq_iff)
      have flt: "filter (\<lambda>i. i \<noteq> c) (push_unique c ids) = filter (\<lambda>i. i \<noteq> c) ids" for c :: string and ids
        by (simp add: push_unique_def)
      show ?thesis
        using False Some assms
        by (auto simp: emit_active_session_intents_def emitted_session_def emitted_intents_def Let_def
            rekey push_active_dynamic_circuit_id_def flt upsert_intent_def list_ex_iff
            split: option.splits AcctStatusType.splits bool.splits)
    qed
  qed
qed

section \<open>Live circuits and their owners\<close>

text \<open>The circuits a sink that applies every intent would have.\<close>

fun live_step :: "string set \<Rightarrow> DynamicCircuitIntent \<Rightarrow> string set" where
  "live_step live (CreateDynamicCircuit u) = insert (up_circuit_id u) live"
| "live_step live (UpdateDynamicCircuit u) = insert (up_circuit_id u) live"
| "live_step live (RemoveDynamicCircuit r) = live - {rm_circuit_id r}"

definition live_circuits :: "DynamicCircuitIntent list \<Rightarrow> string set" where
  "live_circuits trace = foldl live_step {} trace"

text \<open>The circuits some retained session holds.\<close>

definition owned_circuits :: "AccountingSessionStore \<Rightarrow> string set" where
  "owned_circuits store =
     (\<Union>s \<in> ran (map_of (st_sessions store)). set (as_active_dynamic_circuit_ids s))"

lemma live_removals:
  "foldl live_step live (map (removal_intent key reason) ids) = live - set ids"
  by (induction ids arbitrary: live) (auto simp: removal_intent_def)

lemma live_upsert: "foldl live_step live (upsert_intent key s d) \<subseteq> insert (sd_circuit_id d) live"
  by (auto simp: upsert_intent_def Let_def split: option.splits AcctStatusType.splits)

lemma same_ids_owned:
  assumes "\<And>k. session_at store' k = map_option (f k) (session_at store k)"
    and "\<And>k s. as_active_dynamic_circuit_ids (f k s) = as_active_dynamic_circuit_ids s"
  shows "owned_circuits store' = owned_circuits store"
proof -
  have "x \<in> owned_circuits st \<longleftrightarrow> (\<exists>k s. session_at st k = Some s \<and> x \<in> set (as_active_dynamic_circuit_ids s))"
    for x st by (auto simp: owned_circuits_def ran_def)
  then have "x \<in> owned_circuits store' \<longleftrightarrow> x \<in> owned_circuits store" for x
    by (simp add: assms) (metis assms(2))
  then show ?thesis by blast
qed

text \<open>What the sessions other than the one at a key hold.\<close>

definition others :: "AccountingSessionStore \<Rightarrow> AccountingSessionKey \<Rightarrow> string set" where
  "others store k = (\<Union>s \<in> ran ((map_of (st_sessions store))(k := None)). set (as_active_dynamic_circuit_ids s))"

definition held_at :: "AccountingSessionStore \<Rightarrow> AccountingSessionKey \<Rightarrow> string set" where
  "held_at store k = (case session_at store k of
     None \<Rightarrow> {} | Some s \<Rightarrow> set (as_active_dynamic_circuit_ids s))"

lemma owned_split: "owned_circuits store = held_at store k \<union> others store k"
proof (cases "session_at store k")
  case None
  then have "(map_of (st_sessions store))(k := None) = map_of (st_sessions store)" by auto
  with None show ?thesis by (simp add: owned_circuits_def held_at_def others_def)
next
  case (Some s)
  then have "ran (map_of (st_sessions store)) = insert s (ran ((map_of (st_sessions store))(k := None)))"
    by (auto simp: ran_def) (metis option.inject)
  with Some show ?thesis by (simp add: owned_circuits_def held_at_def others_def)
qed

lemma owned_update:
  assumes "map_of (st_sessions store') = (map_of (st_sessions store))(k \<mapsto> s)"
  shows "owned_circuits store' = set (as_active_dynamic_circuit_ids s) \<union> others store k"
  using assms owned_split [of store' k] by (simp add: held_at_def others_def)

lemma owned_remove_session:
  "owned_circuits (snd (remove_session k store)) = others store k"
  by (simp add: owned_circuits_def others_def map_of_remove_session)

lemma set_foldl_push_unique: "set (foldl (\<lambda>xs x. push_unique x xs) xs ys) = set xs \<union> set ys"
  by (induction ys arbitrary: xs) auto

lemma set_merge_active [simp]:
  "set (merge_active_dynamic_circuit_ids xs ys) = set xs \<union> set ys"
  using set_foldl_push_unique [of xs ys]
  by (simp add: merge_active_dynamic_circuit_ids_def push_active_dynamic_circuit_id_def [abs_def])

lemma merge_promoted_active:
  "set (as_active_dynamic_circuit_ids (fst (foldl (merge_promoted state) acc ps)))
    = set (as_active_dynamic_circuit_ids (fst acc)) \<union> (\<Union>p \<in> set ps. set (as_active_dynamic_circuit_ids p))"
  by (induction ps arbitrary: acc) (auto simp: merge_promoted_def case_prod_beta)

lemma collect_promoted_active:
  "set (pf_active_dynamic_circuit_ids (foldl (collect_promoted state) acc ps))
    = set (pf_active_dynamic_circuit_ids acc) \<union> (\<Union>p \<in> set ps. set (as_active_dynamic_circuit_ids p))"
  by (induction ps arbitrary: acc) (auto simp: collect_promoted_def)

lemma updated_session_active:
  "set (as_active_dynamic_circuit_ids (updated_session h r event state key old ps))
    = (case old of None \<Rightarrow> {} | Some s \<Rightarrow> set (as_active_dynamic_circuit_ids s))
      \<union> (\<Union>p \<in> set ps. set (as_active_dynamic_circuit_ids p))"
  by (simp add: updated_session_def Let_def case_prod_beta collect_promoted_active
      merge_promoted_active split: option.splits)

lemma remove_sessions_owned:
  "owned_circuits (snd (remove_sessions ks store))
      \<union> (\<Union>p \<in> set (fst (remove_sessions ks store)). set (as_active_dynamic_circuit_ids p))
    = owned_circuits store"
proof (induction ks arbitrary: store)
  case (Cons k ks)
  obtain ses store1 where k: "remove_session k store = (ses, store1)" by (cases "remove_session k store")
  obtain rest store2 where ks: "remove_sessions ks store1 = (rest, store2)" by (cases "remove_sessions ks store1")
  have "ses = session_at store k" "owned_circuits store1 = others store k"
    using remove_session_simps(1) [of k store] owned_remove_session [of k store] by (simp_all add: k)
  then show ?case
    using Cons.IH [of store1] owned_split [of store k]
    by (auto simp: k ks held_at_def Let_def split: option.splits)
qed simp

text \<open>An update moves circuits between sessions but neither drops nor invents one.\<close>

lemma apply_session_state_owned:
  "owned_circuits (snd (apply_session_state h event r state store)) = owned_circuits store"
proof -
  let ?kr = "resolve_session_key store event"
  obtain ps store1 where rm: "remove_sessions (kr_previous_keys ?kr) store = (ps, store1)"
    by (cases "remove_sessions (kr_previous_keys ?kr) store")
  let ?s = "updated_session h r event state (kr_key ?kr) (session_at store1 (kr_key ?kr)) ps"
  have "owned_circuits (replace_session (kr_key ?kr) ?s store1)
      = set (as_active_dynamic_circuit_ids ?s) \<union> others store1 (kr_key ?kr)"
    by (rule owned_update) (simp add: update_conv')
  also have "\<dots> = owned_circuits store1 \<union> (\<Union>p \<in> set ps. set (as_active_dynamic_circuit_ids p))"
    using owned_split [of store1 "kr_key ?kr"] by (auto simp: updated_session_active held_at_def)
  also have "\<dots> = owned_circuits store"
    using remove_sessions_owned [of "kr_previous_keys ?kr" store] by (simp add: rm)
  finally show ?thesis by (simp add: apply_session_state_eq Let_def rm)
qed

lemma mark_nas_sessions_stale_owned:
  "owned_circuits (snd (mark_nas_sessions_stale event reset store)) = owned_circuits store"
  by (rule same_ids_owned [OF mark_nas_sessions_stale_lookup]) (simp add: mark_stale_def)

lemma apply_event_owned:
  "owned_circuits (snd (apply_event_with_resolution_resolver h event r store)) = owned_circuits store"
  by (simp add: apply_event_with_resolution_resolver_def upsert_active_session_def stop_session_def
      apply_session_state_owned mark_nas_sessions_stale_owned
      split: option.splits AcctStatusType.splits)

section \<open>Runs\<close>

definition run_inv :: "store_run \<Rightarrow> bool" where
  "run_inv run \<longleftrightarrow> store_inv (fst run) \<and> live_circuits (snd run) \<subseteq> owned_circuits (fst run)"

text \<open>Writing a session back whose circuits were partly removed by the intents emitted with it.\<close>

lemma put_session_run:
  assumes inv: "run_inv (store, trace)" and at: "session_at store key = Some s"
    and ev: "as_latest_event s' = as_latest_event s"
    and live: "\<And>live. foldl live_step live intents
      \<subseteq> (live - (set (as_active_dynamic_circuit_ids s) - set (as_active_dynamic_circuit_ids s')))
         \<union> set (as_active_dynamic_circuit_ids s')"
  shows "run_inv (put_session key s' c store, trace @ intents)"
proof -
  have "owned_circuits (put_session key s' c store)
      = set (as_active_dynamic_circuit_ids s') \<union> others store key"
    by (rule owned_update) (simp add: put_session_def update_conv')
  moreover have "live_circuits trace \<subseteq> set (as_active_dynamic_circuit_ids s) \<union> others store key"
    using inv owned_split [of store key] at by (simp add: run_inv_def held_at_def)
  moreover have "live_circuits (trace @ intents) = foldl live_step (live_circuits trace) intents"
    by (simp add: live_circuits_def)
  ultimately have "live_circuits (trace @ intents) \<subseteq> owned_circuits (put_session key s' c store)"
    using live [of "live_circuits trace"] by blast
  then show ?thesis using inv put_session_inv [OF _ at ev] by (simp add: run_inv_def)
qed

lemma emitted_live:
  "foldl live_step live (emitted_intents key s)
    \<subseteq> (live - (set (as_active_dynamic_circuit_ids s)
                - set (as_active_dynamic_circuit_ids (emitted_session s))))
       \<union> set (as_active_dynamic_circuit_ids (emitted_session s))"
  using live_upsert [of live key s]
  by (auto simp: emitted_intents_def emitted_session_def live_removals split: option.splits)

lemma emit_dynamic_circuit_intents_run:
  assumes "run_inv (store, trace)"
    and "emit_dynamic_circuit_intents update store = (store', intents)"
  shows "run_inv (store', trace @ intents)"
proof (cases update)
  case (SessionUpdated key state)
  show ?thesis
  proof (cases "session_at store key")
    case None
    with assms SessionUpdated show ?thesis
      by (simp add: emit_dynamic_circuit_intents_def emit_session_dynamic_circuit_intents_def
          emit_active_session_intents_def split: AccountingSessionState.splits)
  next
    case (Some s)
    show ?thesis
    proof (cases state)
      case Active
      obtain c where "emit_active_session_intents key store
          = (put_session key (emitted_session s) c store, emitted_intents key s)"
        using emit_active_session_intents_eq [OF Some] by blast
      with assms(2) have "store' = put_session key (emitted_session s) c store" "intents = emitted_intents key s"
        by (simp_all add: emit_dynamic_circuit_intents_def SessionUpdated Active
            emit_session_dynamic_circuit_intents_def)
      moreover have "as_latest_event (emitted_session s) = as_latest_event s"
        by (simp add: emitted_session_def split: option.splits)
      ultimately show ?thesis
        using put_session_run [OF assms(1) Some _ emitted_live] by blast
    next
      case Stopped
      let ?c = "fst (emit_removals key RemovalStop (as_active_dynamic_circuit_ids s) (st_counters store))"
      have "store' = put_session key (s\<lparr>as_active_dynamic_circuit_ids := []\<rparr>) ?c store"
        "intents = map (removal_intent key RemovalStop) (as_active_dynamic_circuit_ids s)"
        using assms(2) Some
        by (auto simp: emit_dynamic_circuit_intents_def SessionUpdated Stopped Let_def case_prod_beta
            emit_session_dynamic_circuit_intents_def emit_active_dynamic_circuit_removals_def
            emit_removals_intents)
      then show ?thesis
        by (simp add: put_session_run [OF assms(1) Some] live_removals)
    next
      case (Stale reset)
      with assms SessionUpdated show ?thesis
        by (simp add: emit_dynamic_circuit_intents_def emit_session_dynamic_circuit_intents_def)
    qed
  qed
qed (use assms in \<open>simp_all add: emit_dynamic_circuit_intents_def\<close>)

lemma expire_session_run:
  assumes "run_inv (store, trace)"
    and "expire_session_with_commands key store = (removed, store', intents)"
  shows "run_inv (store', trace @ intents)"
proof -
  obtain ses store1 where rm: "remove_session key store = (ses, store1)" by (cases "remove_session key store")
  have ses: "ses = session_at store key" and o1: "owned_circuits store1 = others store key"
    and i1: "store_inv store1"
    using remove_session_simps(1) [of key store] owned_remove_session [of key store]
      remove_session_inv [of store key] assms(1) by (simp_all add: rm run_inv_def)
  show ?thesis
  proof (cases ses)
    case None
    then have "owned_circuits store = owned_circuits store1"
      using owned_split [of store key] o1 ses by (simp add: held_at_def)
    with None assms i1 show ?thesis
      by (simp add: expire_session_with_commands_def rm run_inv_def)
  next
    case (Some s)
    obtain reason where i: "intents = map (removal_intent key reason) (as_active_dynamic_circuit_ids s)"
      and s: "\<exists>c. store' = store1\<lparr>st_counters := c\<rparr>"
      using assms(2) Some
      by (auto simp: expire_session_with_commands_def rm Let_def case_prod_beta
          emit_active_dynamic_circuit_removals_def emit_removals_intents)
    then have "live_circuits (trace @ intents) = live_circuits trace - set (as_active_dynamic_circuit_ids s)"
      by (simp add: live_circuits_def live_removals)
    moreover have "live_circuits trace \<subseteq> set (as_active_dynamic_circuit_ids s) \<union> others store key"
      using assms(1) owned_split [of store key] Some ses by (simp add: run_inv_def held_at_def)
    moreover have "owned_circuits store' = owned_circuits store1" "store_inv store' = store_inv store1"
      using s by (auto simp: owned_circuits_def store_inv_def indexes_exact_def)
    ultimately show ?thesis using i1 o1 by (auto simp: run_inv_def)
  qed
qed

lemma store_step_inv: "run_inv run \<Longrightarrow> run_inv (store_step h run call)"
proof -
  assume inv: "run_inv run"
  obtain store trace where run: "run = (store, trace)" by (cases run)
  have applied: "run_inv (snd (apply_event_with_resolution_resolver h event r store), trace)" for event r
    using inv by (simp add: run run_inv_def apply_event_inv apply_event_owned)
  show ?thesis
  proof (cases call)
    case (ApplyEvent event r)
    then show ?thesis using applied by (simp add: run)
  next
    case (ApplyEventWithCommands event r)
    obtain u store1 where a: "apply_event_with_resolution_resolver h event r store = (u, store1)"
      by (cases "apply_event_with_resolution_resolver h event r store")
    obtain store2 intents where e: "emit_dynamic_circuit_intents u store1 = (store2, intents)"
      by (cases "emit_dynamic_circuit_intents u store1")
    show ?thesis
      using emit_dynamic_circuit_intents_run [OF _ e, of trace] applied [of event r]
      by (simp add: run ApplyEventWithCommands apply_event_and_commands_def a e)
  next
    case (ExpireSession key)
    obtain x store1 intents where e: "expire_session_with_commands key store = (x, store1, intents)"
      by (cases "expire_session_with_commands key store")
    show ?thesis
      using expire_session_run [OF inv [unfolded run] e] by (simp add: run ExpireSession e)
  qed
qed

interpretation store_machine: stepper "store_step h" run_inv for h
  by unfold_locales (rule store_step_inv)

lemma new_store_inv: "run_inv (new_store, [])"
  by (simp add: run_inv_def store_inv_def indexes_exact_def session_index.exact_def new_store_def
      live_circuits_def wf_index_def index_look_def)

lemma store_run_inv: "run_inv (store_run h calls)"
  unfolding store_run_def by (rule store_machine.run_inv [OF new_store_inv])

text \<open>
  C17. In every run of the store, from empty and under any sequence of events and expiries with any
  resolvers: session keys are unique, each of the three indexes holds exactly the entries of the
  retained sessions (nothing stale, nothing missing), and a pending session still has the
  identity its key was built from.
\<close>

theorem store_run_invariant: "store_inv (fst (store_run h calls))"
  using store_run_inv [of h calls] by (simp add: run_inv_def)

text \<open>
  C18. No circuit leaks: after any run, each circuit that the emitted intents created and have not
  removed since is held by some retained session, so it will be removed when that session stops,
  loses its device, is rekeyed or expires.
\<close>

theorem live_circuits_owned:
  "live_circuits (snd (store_run h calls))
    \<subseteq> (\<Union>s \<in> ran (map_of (st_sessions (fst (store_run h calls)))). set (as_active_dynamic_circuit_ids s))"
  using store_run_inv [of h calls] by (simp add: run_inv_def owned_circuits_def)

section \<open>Indexed lookup is a scan\<close>

lemma set_lookup_keys:
  "set (push_fingerprint_lookup_keys [] fp) =
     set_option (map_option LookupAcctSessionId (fp_acct_session_id fp))
     \<union> set_option (map_option LookupUserName (fp_user_name fp))
     \<union> set_option (map_option LookupCallingStationId (fp_calling_station_id fp))
     \<union> set_option (map_option LookupNasPortId (fp_nas_port_id fp))
     \<union> set_option (map_option LookupNasPort (fp_nas_port fp))"
  by (auto simp: push_fingerprint_lookup_keys_def Let_def split: option.splits)

lemma optional_match_True: "optional_match a b = Some True \<longleftrightarrow> (\<exists>x. a = Some x \<and> b = Some x)"
  by (auto simp: optional_match_def split: option.splits)

text \<open>Fingerprints that match have an identity in common, whatever is known of the NAS.\<close>

lemma matching_fingerprints_share_key:
  assumes "matches_with_nas_context a b ctx"
  shows "\<exists>k \<in> set (push_fingerprint_lookup_keys [] a). k \<in> set (push_fingerprint_lookup_keys [] b)"
proof -
  have "optional_match (fp_acct_session_id a) (fp_acct_session_id b) = Some True
    \<or> optional_match (fp_user_name a) (fp_user_name b) = Some True
    \<or> optional_match (fp_calling_station_id a) (fp_calling_station_id b) = Some True
    \<or> optional_match (fp_nas_port_id a) (fp_nas_port_id b) = Some True
    \<or> optional_match (fp_nas_port a) (fp_nas_port b) = Some True"
    using assms
    by (auto simp: matches_with_nas_context_def Let_def split: option.splits if_splits)
  then show ?thesis by (auto simp: optional_match_True set_lookup_keys)
qed

lemma lookup_keys_nas [simp]:
  "push_fingerprint_lookup_keys ks (fp\<lparr>fp_nas := n\<rparr>) = push_fingerprint_lookup_keys ks fp"
  by (simp add: push_fingerprint_lookup_keys_def)

lemma distinct_foldl_push_unique: "distinct xs \<Longrightarrow> distinct (foldl (\<lambda>c k. push_unique k c) xs ys)"
  by (induction ys arbitrary: xs) simp_all

lemma lookup_candidates_set:
  "distinct (lookup_candidates index event ids)
    \<and> set (lookup_candidates index event ids)
      = (\<Union>i \<in> set (event_lookup_index_keys event ids). set (index_look index i))"
proof -
  let ?f = "\<lambda>candidates lookup_key. case map_of index lookup_key of
      None \<Rightarrow> candidates | Some keys \<Rightarrow> foldl (\<lambda>c k. push_unique k c) candidates keys"
  have "distinct xs \<Longrightarrow> distinct (foldl ?f xs is)
      \<and> set (foldl ?f xs is) = set xs \<union> (\<Union>i \<in> set is. set (index_look index i))" for "is" xs
    by (induction "is" arbitrary: xs)
      (auto simp: index_look_def distinct_foldl_push_unique set_foldl_push_unique split: option.splits)
  from this [of "[]"] show ?thesis by (simp add: lookup_candidates_def)
qed

lemma store_inv_distinct_keys: "store_inv store \<Longrightarrow> distinct (map fst (st_sessions store))"
  by (simp add: store_inv_def)

lemma store_inv_exact:
  assumes "store_inv store"
  shows "session_index.exact (st_nas_index store) (map_of (st_sessions store)) nas_entries"
    "session_index.exact (st_pending_index store) (map_of (st_sessions store)) pending_entries"
    "session_index.exact (st_fallback_index store) (map_of (st_sessions store)) fallback_entries"
  using assms by (simp_all add: store_inv_def indexes_exact_def)

lemma in_keys_iff: "k \<in> set (map fst xs) \<longleftrightarrow> map_of xs k \<noteq> None"
  by (simp add: map_of_eq_None_iff)

text \<open>
  A search restricted to candidates agrees with a search over all retained sessions when every
  session that matches is a candidate.
\<close>

lemma candidates_scan:
  assumes inv: "store_inv store"
    and d: "distinct cs"
    and sound: "\<And>k. P k \<Longrightarrow> session_at store k \<noteq> None"
    and complete: "\<And>k s. session_at store k = Some s \<Longrightarrow> P k \<Longrightarrow> k \<in> set cs"
  shows "unique_match P cs = unique_match P (map fst (st_sessions store))"
proof (rule unique_match_cong [OF d store_inv_distinct_keys [OF inv]])
  show "{x \<in> set cs. P x} = {y \<in> set (map fst (st_sessions store)). P y}"
    using sound complete unfolding in_keys_iff by fast
qed

lemma existing_pending_key_scan:
  assumes inv: "store_inv store"
  shows "existing_pending_key store event ids
    = unique_match (pending_candidate_matches store event ids) (map fst (st_sessions store))"
  unfolding existing_pending_key_def
proof (rule candidates_scan [OF inv])
  show "distinct (lookup_candidates (st_pending_index store) event ids)"
    using lookup_candidates_set by blast
next
  fix k
  assume "pending_candidate_matches store event ids k"
  then show "session_at store k \<noteq> None"
    by (auto simp: pending_candidate_matches_def split: option.splits)
next
  fix k s
  assume at: "session_at store k = Some s" and m: "pending_candidate_matches store event ids k"
  then obtain fp ctx where k: "k = Pending fp"
    and mm: "matches_with_nas_context fp (fingerprint_from_event event (primary ids)) ctx"
    by (auto simp: pending_candidate_matches_def Let_def split: AccountingSessionKey.splits)
  obtain i where i: "i \<in> set (push_fingerprint_lookup_keys [] fp)"
    and ie: "i \<in> set (event_lookup_index_keys event ids)"
    using matching_fingerprints_share_key [OF mm] by (auto simp: event_lookup_index_keys_def)
  have "pending_key_ok k s" using inv at unfolding store_inv_def by blast
  then have "i \<in> set (pending_entries k s)"
    using i by (simp add: k pending_key_ok_def pending_entries_def session_lookup_index_keys_def)
  then have "k \<in> set (index_look (st_pending_index store) i)"
    using at session_index.exact_look [OF store_inv_exact(2) [OF inv]] by auto
  with ie show "k \<in> set (lookup_candidates (st_pending_index store) event ids)"
    using lookup_candidates_set by blast
qed

lemma existing_fallback_session_key_scan:
  assumes inv: "store_inv store"
  shows "existing_fallback_session_key store event ids
    = unique_match (fallback_candidate_matches store event ids) (map fst (st_sessions store))"
  unfolding existing_fallback_session_key_def
proof (rule candidates_scan [OF inv])
  show "distinct (lookup_candidates (st_fallback_index store) event ids)"
    using lookup_candidates_set by blast
next
  fix k
  assume "fallback_candidate_matches store event ids k"
  then show "session_at store k \<noteq> None"
    by (auto simp: fallback_candidate_matches_def split: AccountingSessionKey.splits option.splits)
next
  fix k s
  assume at: "session_at store k = Some s" and m: "fallback_candidate_matches store event ids k"
  then obtain nas sid ctx where k: "k = NasSession nas sid"
    and mm: "matches_with_nas_context (session_fingerprint k s) (fingerprint_from_event event (primary ids)) ctx"
    by (auto simp: fallback_candidate_matches_def split: AccountingSessionKey.splits if_splits)
  obtain i where i: "i \<in> set (push_fingerprint_lookup_keys [] (session_fingerprint k s))"
    and ie: "i \<in> set (event_lookup_index_keys event ids)"
    using matching_fingerprints_share_key [OF mm] by (auto simp: event_lookup_index_keys_def)
  then have "i \<in> set (fallback_entries k s)"
    by (simp add: k fallback_entries_def session_lookup_index_keys_def)
  then have "k \<in> set (index_look (st_fallback_index store) i)"
    using at session_index.exact_look [OF store_inv_exact(3) [OF inv]] by auto
  with ie show "k \<in> set (lookup_candidates (st_fallback_index store) event ids)"
    using lookup_candidates_set by blast
qed

lemma matching_session_key_scan:
  assumes inv: "store_inv store"
  shows "matching_session_key store sid ids excluded
    = unique_match (\<lambda>k. (\<exists>nas. k = NasSession nas sid) \<and> excluded \<noteq> Some k
        \<and> (case session_at store k of None \<Rightarrow> False | Some s \<Rightarrow> session_matches_identities k s ids))
        (map fst (st_sessions store))"
  (is "_ = unique_match ?P _")
proof -
  let ?Q = "\<lambda>k. excluded \<noteq> Some k
        \<and> (case session_at store k of None \<Rightarrow> False | Some s \<Rightarrow> session_matches_identities k s ids)"
  let ?cs = "index_look (st_nas_index store) sid"
  note ex = store_inv_exact(1) [OF inv]
  note mem = session_index.exact_look [OF ex]
  have entries: "sid \<in> set (nas_entries k s) \<longleftrightarrow> (\<exists>nas. k = NasSession nas sid)" for k s
    by (auto simp: nas_entries_def split: AccountingSessionKey.splits)
  have "wf_index (st_nas_index store)" using ex by (rule session_index.exact_wf)
  then have d: "distinct ?cs" by (simp add: wf_index_def)
  have "matching_session_key store sid ids excluded = unique_match ?Q ?cs"
    by (simp add: matching_session_key_def index_look_def unique_match_def split: option.splits)
  also have "\<dots> = unique_match ?P ?cs"
    by (rule unique_match_cong [OF d d]) (auto simp: mem entries)
  also have "\<dots> = unique_match ?P (map fst (st_sessions store))"
    by (rule candidates_scan [OF inv d]) (auto simp: mem entries split: option.splits)
  finally show ?thesis .
qed

text \<open>
  C19. Equivalence of the indexed searches with scans: in every run, looking up a session for an
  event through an index gives the same answer, found, absent or ambiguous, as testing every
  retained session, for the Acct-Session-Id search with any excluded key, for pending sessions and
  for the fallback search by subscriber identity.
\<close>

theorem indexed_lookups_scan:
  "let store = fst (store_run h calls); keys = map fst (st_sessions store) in
     matching_session_key store sid ids excluded
       = unique_match (\<lambda>k. (\<exists>nas. k = NasSession nas sid) \<and> excluded \<noteq> Some k
           \<and> (case session_at store k of None \<Rightarrow> False | Some s \<Rightarrow> session_matches_identities k s ids)) keys
     \<and> existing_pending_key store event ids = unique_match (pending_candidate_matches store event ids) keys
     \<and> existing_fallback_session_key store event ids
       = unique_match (fallback_candidate_matches store event ids) keys"
proof -
  have "store_inv (fst (store_run h calls))" using store_run_inv [of h calls] by (simp add: run_inv_def)
  then show ?thesis
    unfolding Let_def
    by (intro conjI matching_session_key_scan existing_pending_key_scan
        existing_fallback_session_key_scan)
qed

section \<open>Single events\<close>

lemma remove_sessions_lookup:
  "session_at (snd (remove_sessions ks store)) k = (if k \<in> set ks then None else session_at store k)"
proof (induction ks arbitrary: store)
  case (Cons j ks)
  then show ?case by (simp add: Let_def case_prod_beta map_of_remove_session)
qed simp

lemma remove_sessions_removed:
  "distinct ks \<Longrightarrow> set (fst (remove_sessions ks store)) = {s. \<exists>k \<in> set ks. session_at store k = Some s}"
proof (induction ks arbitrary: store)
  case (Cons j ks)
  then show ?case
    by (auto simp: Let_def case_prod_beta remove_session_simps(1) map_of_remove_session split: option.splits)
      metis+
qed simp

lemma updated_session_held:
  assumes inv: "store_inv store"
    and rm: "remove_sessions (kr_previous_keys (resolve_session_key store event)) store = (ps, store1)"
    and key: "key = kr_key (resolve_session_key store event)"
  shows "set (as_active_dynamic_circuit_ids
      (updated_session h r event state key (session_at store1 key) ps))
    = {c. \<exists>k \<in> insert key (set (kr_previous_keys (resolve_session_key store event))).
        case session_at store k of
          None \<Rightarrow> False | Some old \<Rightarrow> c \<in> set (as_active_dynamic_circuit_ids old)}"
proof -
  let ?prev = "kr_previous_keys (resolve_session_key store event)"
  note prev = resolve_session_key_previous [OF inv, of event]
  have "session_at store1 key = session_at store key"
    using remove_sessions_lookup [of ?prev store key] prev by (simp add: rm key)
  moreover have "set ps = {s. \<exists>k \<in> set ?prev. session_at store k = Some s}"
    using remove_sessions_removed [of ?prev store] prev by (simp add: rm)
  ultimately show ?thesis by (auto simp: updated_session_active split: option.splits)
qed

text \<open>
  The effect of a Start, Interim-Update or Stop on the sessions, in every run: exactly one
  session key is written, with the state of the event; the sessions promoted into it disappear;
  every other session is untouched; and the written session holds exactly the circuits held before
  by the session at its key and by the promoted ones.
\<close>

lemma apply_session_state_frame:
  "let store = fst (store_run h calls);
       key = kr_key (resolve_session_key store event);
       previous = kr_previous_keys (resolve_session_key store event)
   in case apply_session_state h event r state store of (update, store') \<Rightarrow>
        update = SessionUpdated key state \<and> key \<notin> set previous
        \<and> (\<exists>s. as_state s = state
             \<and> set (as_active_dynamic_circuit_ids s)
                 = {c. \<exists>k \<in> insert key (set previous). case session_at store k of
                      None \<Rightarrow> False | Some old \<Rightarrow> c \<in> set (as_active_dynamic_circuit_ids old)}
             \<and> map_of (st_sessions store')
                 = (\<lambda>k. if k = key then Some s else if k \<in> set previous then None else session_at store k))"
proof -
  define store where "store = fst (store_run h calls)"
  let ?kr = "resolve_session_key store event"
  have inv: "store_inv store"
    using store_run_inv [of h calls] by (simp add: run_inv_def store_def)
  note prev = resolve_session_key_previous [OF inv, of event]
  obtain ps store1 where rm: "remove_sessions (kr_previous_keys ?kr) store = (ps, store1)"
    by (cases "remove_sessions (kr_previous_keys ?kr) store")
  have at: "session_at store1 k = (if k \<in> set (kr_previous_keys ?kr) then None else session_at store k)" for k
    using remove_sessions_lookup [of "kr_previous_keys ?kr" store k] by (simp add: rm)
  let ?s = "updated_session h r event state (kr_key ?kr) (session_at store1 (kr_key ?kr)) ps"
  have "as_state ?s = state" by (simp add: updated_session_def Let_def)
  moreover have "set (as_active_dynamic_circuit_ids ?s)
      = {c. \<exists>k \<in> insert (kr_key ?kr) (set (kr_previous_keys ?kr)). case session_at store k of
           None \<Rightarrow> False | Some old \<Rightarrow> c \<in> set (as_active_dynamic_circuit_ids old)}"
    by (rule updated_session_held [OF inv rm refl])
  moreover have "map_of (st_sessions (replace_session (kr_key ?kr) ?s store1))
      = (\<lambda>k. if k = kr_key ?kr then Some ?s
            else if k \<in> set (kr_previous_keys ?kr) then None else session_at store k)"
    by (auto simp: update_conv' at)
  ultimately show ?thesis
    using prev by (auto simp: apply_session_state_eq Let_def rm simp flip: store_def)
qed

lemma latest_event_status:
  "status_type (as_latest_event (updated_session h r event state key old ps)) = status_type event"
  by (simp add: updated_session_def Let_def latest_session_event_def merge_sparse_active_event_def
      split: option.splits)

lemma updated_session_device:
  "as_resolved_shaped_device (updated_session h r event Active key old ps) = Some d
    \<Longrightarrow> trim (sd_circuit_id d) \<noteq> []"
proof -
  assume "as_resolved_shaped_device (updated_session h r event Active key old ps) = Some d"
  then obtain e where "md_resolved_shaped_device (session_dynamic_metadata h key e (r e)) = Some d"
    by (auto simp: updated_session_def session_metadata_def Let_def)
  then show ?thesis
    using shapeable_metadata by (metis shapeable_device_def)
qed

lemma emitted_session_simps [simp]:
  "as_resolved_shaped_device (emitted_session s) = as_resolved_shaped_device s"
  "as_latest_event (emitted_session s) = as_latest_event s"
  by (simp_all add: emitted_session_def split: option.splits)

text \<open>
  C21. Emission after a Start or Interim-Update, in every run: the updated session ends with
  exactly one active circuit when it resolves to a device, the device's own, and with none
  otherwise. In the first case the first intent creates or updates that circuit with the device and
  the session's event, every other circuit the session held, alone or through the sessions promoted
  into it, is removed, and nothing else is emitted; in the second every circuit it held is removed.
\<close>

theorem apply_event_and_commands_active:
  "let store = fst (store_run h calls);
       event' = event\<lparr>status_type := Some (if start then Start else InterimUpdate)\<rparr>
   in case apply_event_and_commands h event' r store of (update, store', intents) \<Rightarrow>
       (\<exists>key before s. update = SessionUpdated key Active \<and> session_at store' key = Some s
         \<and> (case as_resolved_shaped_device s of
              None \<Rightarrow> as_active_dynamic_circuit_ids s = []
                \<and> intents = map (removal_intent key NoLongerShapeable) before
            | Some d \<Rightarrow> as_active_dynamic_circuit_ids s = [sd_circuit_id d]
                \<and> (let u = \<lparr>up_circuit_id = sd_circuit_id d, up_session_key = key,
                           up_event = as_latest_event s, up_shaped_device = d\<rparr>
                   in intents = (if \<not> start \<and> sd_circuit_id d \<in> set before
                                 then UpdateDynamicCircuit u else CreateDynamicCircuit u)
                        # map (removal_intent key Rekeyed) (filter (\<lambda>c. c \<noteq> sd_circuit_id d) before)))
         \<and> set before = {c. \<exists>k \<in> insert key (set (kr_previous_keys (resolve_session_key store event'))).
              case session_at store k of
                None \<Rightarrow> False | Some old \<Rightarrow> c \<in> set (as_active_dynamic_circuit_ids old)})"
proof -
  define store where "store = fst (store_run h calls)"
  define e where "e = event\<lparr>status_type := Some (if start then Start else InterimUpdate)\<rparr>"
  have inv: "store_inv store"
    using store_run_inv [of h calls] by (simp add: run_inv_def store_def)
  let ?kr = "resolve_session_key store e"
  let ?key = "kr_key ?kr"
  obtain ps store1 where rm: "remove_sessions (kr_previous_keys ?kr) store = (ps, store1)"
    by (cases "remove_sessions (kr_previous_keys ?kr) store")
  define s where "s = updated_session h r e Active ?key (session_at store1 ?key) ps"
  let ?store2 = "replace_session ?key s store1"
  have app: "apply_event_with_resolution_resolver h e r store = (SessionUpdated ?key Active, ?store2)"
  proof -
    have "status_type e = Some (if start then Start else InterimUpdate)" by (simp add: e_def)
    then have "apply_event_with_resolution_resolver h e r store = apply_session_state h e r Active store"
      by (cases start) (simp_all add: apply_event_with_resolution_resolver_def upsert_active_session_def)
    then show ?thesis by (simp add: apply_session_state_eq Let_def rm s_def)
  qed
  have "session_at ?store2 ?key = Some s" by (simp add: update_conv')
  then obtain c where emit: "emit_dynamic_circuit_intents (SessionUpdated ?key Active) ?store2
      = (put_session ?key (emitted_session s) c ?store2, emitted_intents ?key s)"
    using emit_active_session_intents_eq
    by (fastforce simp: emit_dynamic_circuit_intents_def emit_session_dynamic_circuit_intents_def)
  have held: "set (as_active_dynamic_circuit_ids s)
      = {c. \<exists>k \<in> insert ?key (set (kr_previous_keys ?kr)). case session_at store k of
          None \<Rightarrow> False | Some old \<Rightarrow> c \<in> set (as_active_dynamic_circuit_ids old)}"
    unfolding s_def by (rule updated_session_held [OF inv rm refl])
  have st: "status_type (as_latest_event s) = Some (if start then Start else InterimUpdate)"
    by (simp add: s_def latest_event_status e_def)
  have d: "as_resolved_shaped_device s = Some d \<Longrightarrow> trim (sd_circuit_id d) \<noteq> []" for d
    unfolding s_def by (rule updated_session_device)
  have at: "session_at (put_session ?key x c ?store2) ?key = Some x" for x
    by (simp add: put_session_def update_conv')
  show ?thesis
    unfolding Let_def store_def [symmetric] e_def [symmetric] apply_event_and_commands_def app
      prod.case emit
    by (intro exI [of _ ?key] exI [of _ "as_active_dynamic_circuit_ids s"] exI [of _ "emitted_session s"])
      (use d in \<open>auto simp: at held emitted_session_def emitted_intents_def upsert_intent_def st Let_def
        split: option.splits\<close>)
qed

lemma set_matched_keys:
  "distinct (map fst xs) \<Longrightarrow> set (map fst (filter (\<lambda>(k, x). P k x) xs)) = {k. case map_of xs k of None \<Rightarrow> False | Some x \<Rightarrow> P k x}"
  by (induction xs) (force dest: map_of_SomeD split: option.splits)+

lemma length_matched_keys:
  "distinct (map fst xs) \<Longrightarrow> length (filter (\<lambda>(k, x). P k x) xs) = card (set (map fst (filter (\<lambda>(k, x). P k x) xs)))"
  by (metis (no_types, lifting) distinct_card distinct_map_filter length_map)

text \<open>
  A NAS reset, in every run: without a NAS identity it is ignored and changes nothing;
  otherwise it marks stale exactly the sessions that belong to the NAS under any identity known
  for them, reports exactly their keys, their number and those that were not stale before, leaves
  every other session as it was, and emits no intent: circuits wait for the expiry of their
  sessions.
\<close>

lemma nas_reset_marks_sessions:
  "let store = fst (store_run h calls);
       event' = event\<lparr>status_type := Some (if on then AccountingOn else AccountingOff)\<rparr>;
       reset = (if on then NasAccountingOn else NasAccountingOff);
       ids = NasIdentitySet_from_event event;
       hit = {k. case session_at store k of None \<Rightarrow> False | Some s \<Rightarrow> session_matches_identities k s ids};
       fresh = {k. case session_at store k of None \<Rightarrow> False
                  | Some s \<Rightarrow> session_matches_identities k s ids \<and> (\<forall>x. as_state s \<noteq> Stale x)}
   in case apply_event_and_commands h event' r store of (update, store', intents) \<Rightarrow>
        intents = []
        \<and> (case primary ids of
             None \<Rightarrow> update = Ignored (MissingNasIdentityForReset reset) \<and> store' = store
           | Some nas \<Rightarrow>
               (\<exists>newly stale. update = NasSessionsMarkedStale nas reset (card hit) newly stale
                  \<and> set newly = fresh \<and> set stale = hit)
               \<and> map_of (st_sessions store')
                   = (\<lambda>k. map_option (\<lambda>s. if k \<in> hit then mark_stale reset s else s) (session_at store k)))"
proof -
  define store where "store = fst (store_run h calls)"
  define e where "e = event\<lparr>status_type := Some (if on then AccountingOn else AccountingOff)\<rparr>"
  define reset where "reset = (if on then NasAccountingOn else NasAccountingOff)"
  let ?ids = "NasIdentitySet_from_event event"
  have d: "distinct (map fst (st_sessions store))"
    using store_run_inv [of h calls] by (simp add: run_inv_def store_def store_inv_def)
  have ids: "NasIdentitySet_from_event e = ?ids" by (simp add: e_def NasIdentitySet_from_event_def)
  have "status_type e = Some (if on then AccountingOn else AccountingOff)" by (simp add: e_def)
  then have app: "apply_event_with_resolution_resolver h e r store = mark_nas_sessions_stale e reset store"
    by (cases on) (simp_all add: apply_event_with_resolution_resolver_def reset_def)
  let ?m = "filter (\<lambda>(k, s). session_matches_identities k s ?ids) (st_sessions store)"
  let ?f = "filter (\<lambda>(k, s). session_matches_identities k s ?ids \<and> (\<forall>x. as_state s \<noteq> Stale x)) (st_sessions store)"
  have fresh: "filter (\<lambda>(k, s). case as_state s of Stale _ \<Rightarrow> False | _ \<Rightarrow> True) ?m = ?f"
  proof -
    have "(case st of Stale _ \<Rightarrow> False | _ \<Rightarrow> True) = (\<forall>x. st \<noteq> Stale x)" for st
      by (cases st) auto
    then show ?thesis by (auto intro!: filter_cong)
  qed
  show ?thesis
  proof (cases "primary ?ids")
    case None
    then show ?thesis
      unfolding Let_def store_def [symmetric] e_def [symmetric] reset_def [symmetric]
        apply_event_and_commands_def app
      by (simp add: mark_nas_sessions_stale_def ids emit_dynamic_circuit_intents_def)
  next
    case (Some nas)
    have up: "fst (mark_nas_sessions_stale e reset store)
        = NasSessionsMarkedStale nas reset (length ?m) (map fst ?f) (map fst ?m)"
      using Some fresh by (simp add: mark_nas_sessions_stale_def ids Let_def)
    have at: "map_of (st_sessions (snd (mark_nas_sessions_stale e reset store)))
        = (\<lambda>k. map_option (\<lambda>s. if session_matches_identities k s ?ids then mark_stale reset s else s)
            (session_at store k))"
      by (rule ext) (simp add: mark_nas_sessions_stale_lookup ids Some)
    have hit: "map_option (\<lambda>s. if session_matches_identities k s ?ids then mark_stale reset s else s) (session_at store k)
        = map_option (\<lambda>s. if k \<in> {k. case session_at store k of None \<Rightarrow> False
            | Some s \<Rightarrow> session_matches_identities k s ?ids} then mark_stale reset s else s) (session_at store k)" for k
      by (cases "session_at store k") simp_all
    obtain store' where mk: "mark_nas_sessions_stale e reset store
        = (NasSessionsMarkedStale nas reset (length ?m) (map fst ?f) (map fst ?m), store')"
      using up by (cases "mark_nas_sessions_stale e reset store") simp
    show ?thesis
      unfolding Let_def store_def [symmetric] e_def [symmetric] reset_def [symmetric]
        apply_event_and_commands_def app mk prod.case
      using at hit set_matched_keys [OF d, of "\<lambda>k s. session_matches_identities k s ?ids"]
        set_matched_keys [OF d, of "\<lambda>k s. session_matches_identities k s ?ids \<and> (\<forall>x. as_state s \<noteq> Stale x)"]
        length_matched_keys [OF d, of "\<lambda>k s. session_matches_identities k s ?ids"]
      by (simp add: emit_dynamic_circuit_intents_def Some mk)
  qed
qed

text \<open>
  An event is ignored exactly when its status is missing or unknown, or it is a reset without a
  NAS identity, with the reason saying which; an ignored event leaves the store as it was and emits
  nothing, and every other event is applied.
\<close>

lemma ignored_events_change_nothing:
  "case apply_event_and_commands h event r store of (update, store', intents) \<Rightarrow>
     (case update of
        Ignored reason \<Rightarrow> store' = store \<and> intents = []
          \<and> (case reason of
               MissingStatusType \<Rightarrow> status_type event = None
             | UnsupportedStatusType v \<Rightarrow> status_type event = Some (UnknownStatus v)
             | MissingNasIdentityForReset reset \<Rightarrow>
                 NasIdentitySet_is_empty (NasIdentitySet_from_event event)
                 \<and> status_type event = Some (case reset of
                     NasAccountingOn \<Rightarrow> AccountingOn | NasAccountingOff \<Rightarrow> AccountingOff))
      | SessionUpdated key state \<Rightarrow>
          status_type event \<in> Some ` {Start, InterimUpdate} \<and> state = Active
          \<or> status_type event = Some Stop \<and> state = Stopped
      | NasSessionsMarkedStale nas reset n newly stale \<Rightarrow>
          primary (NasIdentitySet_from_event event) = Some nas
          \<and> status_type event = Some (case reset of
              NasAccountingOn \<Rightarrow> AccountingOn | NasAccountingOff \<Rightarrow> AccountingOff))"
proof -
  have empty: "primary ids = None \<longleftrightarrow> NasIdentitySet_is_empty ids" for ids
    by (simp add: primary_def NasIdentitySet_is_empty_def split: option.splits)
  have reset: "mark_nas_sessions_stale event reset store = (u, store')
      \<Longrightarrow> (\<exists>nas n newly stale. primary (NasIdentitySet_from_event event) = Some nas
            \<and> u = NasSessionsMarkedStale nas reset n newly stale)
        \<or> NasIdentitySet_is_empty (NasIdentitySet_from_event event) \<and> store' = store
            \<and> u = Ignored (MissingNasIdentityForReset reset)" for reset u store'
    by (auto simp: mark_nas_sessions_stale_def Let_def empty split: option.splits)
  obtain u store1 where a: "apply_event_with_resolution_resolver h event r store = (u, store1)"
    by (cases "apply_event_with_resolution_resolver h event r store")
  obtain store2 intents where e: "emit_dynamic_circuit_intents u store1 = (store2, intents)"
    by (cases "emit_dynamic_circuit_intents u store1")
  have emit: "store2 = store1 \<and> intents = []" if "\<forall>k s. u \<noteq> SessionUpdated k s"
    using e that by (cases u) (simp_all add: emit_dynamic_circuit_intents_def)
  have updated: "\<exists>k. fst (apply_session_state h event r state store) = SessionUpdated k state" for state
    by (simp add: apply_session_state_eq Let_def)
  show ?thesis
  proof (cases "status_type event")
    case None
    with a e show ?thesis
      by (auto simp: apply_event_and_commands_def apply_event_with_resolution_resolver_def
          emit_dynamic_circuit_intents_def)
  next
    case (Some st)
    then show ?thesis
      using a e updated [of Active] updated [of Stopped] reset [of NasAccountingOn u store1]
        reset [of NasAccountingOff u store1] emit
      by (cases st)
        (auto simp: apply_event_and_commands_def apply_event_with_resolution_resolver_def
          upsert_active_session_def stop_session_def)
  qed
qed

end
