(* ===== verification/Radius_Listener.thy ===== *)
theory Radius_Listener
  imports Radius_Packet
begin

text \<open>
  The verified UDP listener (\<open>lqos_radius/src/listener.rs\<close>): trusted clients, source matching and
  one turn of \<open>receive_next_verified\<close>. The network type of the \<open>ip_network\<close> crate is a type
  parameter with its containment test as an argument; the socket is the result of its receive
  call and the function its send call computes, and a turn returns the datagrams it sends.
\<close>

section \<open>Trusted clients\<close>

datatype IpAddr = V4 u32 | V6 u128

record SocketAddr =
  sa_ip :: IpAddr
  sa_port :: u16

record 'net TrustedClientSource =
  tcs_network :: 'net

record 'net TrustedRadiusClient =
  trc_sources :: "'net TrustedClientSource list"
  trc_shared_secret :: "u8 list"
  trc_message_authenticator_policy :: MessageAuthenticatorPolicy

datatype TrustedRadiusClientError = NoSources | EmptySharedSecret

definition TrustedClientSource_contains ::
  "('net \<Rightarrow> IpAddr \<Rightarrow> bool) \<Rightarrow> 'net TrustedClientSource \<Rightarrow> IpAddr \<Rightarrow> bool" where
  "TrustedClientSource_contains net_contains source address = net_contains (tcs_network source) address"

definition with_message_authenticator_policy ::
  "'net TrustedClientSource list \<Rightarrow> u8 list \<Rightarrow> MessageAuthenticatorPolicy
    \<Rightarrow> ('net TrustedRadiusClient, TrustedRadiusClientError) result" where
  "with_message_authenticator_policy sources shared_secret policy =
     (if sources = [] then Err NoSources
      else if shared_secret = [] then Err EmptySharedSecret
      else Ok \<lparr>trc_sources = sources, trc_shared_secret = shared_secret,
               trc_message_authenticator_policy = policy\<rparr>)"

definition TrustedRadiusClient_new ::
  "'net TrustedClientSource list \<Rightarrow> u8 list \<Rightarrow> ('net TrustedRadiusClient, TrustedRadiusClientError) result" where
  "TrustedRadiusClient_new sources shared_secret =
     with_message_authenticator_policy sources shared_secret Optional"

definition source_matches ::
  "('net \<Rightarrow> IpAddr \<Rightarrow> bool) \<Rightarrow> 'net TrustedRadiusClient \<Rightarrow> IpAddr \<Rightarrow> bool" where
  "source_matches net_contains client address =
     list_ex (\<lambda>source. TrustedClientSource_contains net_contains source address) (trc_sources client)"

section \<open>One turn of the listener\<close>

record ReceivedVerifiedAccountingPacket =
  rv_peer :: SocketAddr
  rv_received_len :: nat
  rv_response_len :: nat
  rv_request :: VerifiedAccountingRequest

datatype AccountingListenerOutcome =
    Accepted ReceivedVerifiedAccountingPacket
  | RejectedSource SocketAddr nat
  | RejectedAmbiguousSource SocketAddr nat
  | RejectedPacket SocketAddr nat PacketError

datatype 'io ListenerError =
    BindError SocketAddr 'io
  | ReceiveError 'io
  | SendError SocketAddr 'io
  | LocalAddrError 'io
  | ListenerPacketError SocketAddr PacketError

text \<open>The receive call fills a buffer of 4096 bytes; a longer datagram is cut.\<close>

definition receive_datagram ::
  "(u8 list \<times> SocketAddr, 'io) result \<Rightarrow> (u8 list \<times> SocketAddr, 'io ListenerError) result" where
  "receive_datagram received =
     map_err ReceiveError (and_then received (\<lambda>(bytes, peer). Ok (take RADIUS_MAX_PACKET_LEN bytes, peer)))"

record ReceivedAccountingPacket =
  rap_peer :: SocketAddr
  rap_received_len :: nat
  rap_request :: AccountingRequest

definition receive_next ::
  "(u8 list \<times> SocketAddr, 'io) result \<Rightarrow> (ReceivedAccountingPacket, 'io ListenerError) result" where
  "receive_next received =
     and_then (receive_datagram received) (\<lambda>(datagram, peer).
       case handle_accounting_request datagram of
         Inl source \<Rightarrow> Err (ListenerPacketError peer source)
       | Inr request \<Rightarrow> Ok \<lparr>rap_peer = peer, rap_received_len = length datagram, rap_request = request\<rparr>)"

text \<open>The client loop with its \<open>matched_client\<close>; an error is the early ambiguous return.\<close>

fun match_client_loop ::
  "('net \<Rightarrow> IpAddr \<Rightarrow> bool) \<Rightarrow> IpAddr \<Rightarrow> 'net TrustedRadiusClient option \<Rightarrow> 'net TrustedRadiusClient list
    \<Rightarrow> ('net TrustedRadiusClient option, unit) result" where
  "match_client_loop net_contains ip matched_client [] = Ok matched_client"
| "match_client_loop net_contains ip matched_client (client # clients) =
     (if \<not> source_matches net_contains client ip
      then match_client_loop net_contains ip matched_client clients
      else if matched_client \<noteq> None then Err ()
      else match_client_loop net_contains ip (Some client) clients)"

definition receive_next_verified ::
  "('net \<Rightarrow> IpAddr \<Rightarrow> bool) \<Rightarrow> md5 \<Rightarrow> hmac \<Rightarrow> 'net TrustedRadiusClient list
    \<Rightarrow> (u8 list \<times> SocketAddr, 'io) result \<Rightarrow> (u8 list \<Rightarrow> SocketAddr \<Rightarrow> (nat, 'io) result)
    \<Rightarrow> (AccountingListenerOutcome, 'io ListenerError) result \<times> (u8 list \<times> SocketAddr) list" where
  "receive_next_verified net_contains md5 hmac clients received send_to =
     (case receive_datagram received of
        Inl e \<Rightarrow> (Err e, [])
      | Inr (datagram, peer) \<Rightarrow>
          (case match_client_loop net_contains (sa_ip peer) None clients of
             Inl _ \<Rightarrow> (Ok (RejectedAmbiguousSource peer (length datagram)), [])
           | Inr None \<Rightarrow> (Ok (RejectedSource peer (length datagram)), [])
           | Inr (Some client) \<Rightarrow>
               (case verify_accounting_request md5 hmac datagram (trc_shared_secret client)
                       (trc_message_authenticator_policy client) of
                  Inl source \<Rightarrow> (Ok (RejectedPacket peer (length datagram) source), [])
                | Inr request \<Rightarrow>
                    let response = build_accounting_response md5 request (trc_shared_secret client) in
                    (case send_to response peer of
                       Inl source \<Rightarrow> (Err (SendError peer source), [(response, peer)])
                     | Inr response_len \<Rightarrow>
                         (Ok (Accepted \<lparr>rv_peer = peer, rv_received_len = length datagram,
                                        rv_response_len = response_len, rv_request = request\<rparr>),
                          [(response, peer)])))))"

section \<open>Who is accepted\<close>

lemma match_client_loop_Some:
  "match_client_loop f ip (Some c) cs
    = (if filter (\<lambda>c. source_matches f c ip) cs = [] then Ok (Some c) else Err ())"
  by (induction cs) simp_all

lemma match_client_loop_None:
  "match_client_loop f ip None cs
    = (case filter (\<lambda>c. source_matches f c ip) cs of
         [] \<Rightarrow> Ok None | [c] \<Rightarrow> Ok (Some c) | _ \<Rightarrow> Err ())"
  by (induction cs) (auto simp: match_client_loop_Some split: list.splits)


end
