(* ===== verification/Radius_Runtime.thy ===== *)
theory Radius_Runtime
  imports Session_Properties Radius_Listener "HOL-Library.Product_Lexorder"
begin

text \<open>
  The accounting runtime of the daemon (\<open>lqosd/src/radius_accounting.rs\<close>): the sessions with the times
  of their last updates, their expiry, the timer that wakes the loop for it, and the loop, which
  takes a packet of the listener or a wake-up in each turn. An \<open>Instant\<close> and a \<open>Duration\<close> are numbers
  of nanoseconds. The intents a turn hands to the command sink are part of its result; what the sink
  does with them is not part of this theory. Logging is left out.
\<close>

type_synonym Instant = nat
type_synonym Duration = nat

section \<open>Sessions and their update times\<close>

record RadiusPacketCounters =
  pc_accepted :: u64
  pc_rejected :: u64

record RadiusAccountingSessions =
  ra_store :: AccountingSessionStore
  ra_updated_at :: "(AccountingSessionKey \<times> Instant) list"
  ra_update_sequence_by_key :: "(AccountingSessionKey \<times> u64) list"
  ra_next_update_sequence :: u64
  ra_activation_diagnostics_by_key :: "(AccountingSessionKey \<times> RadiusActivationDiagnostic) list"
  ra_recent_expired_activation_diagnostics :: "RadiusActivationDiagnostic list"
  ra_packet_counters :: RadiusPacketCounters
  ra_default_ttl :: Duration
  ra_stale_grace :: Duration
  ra_fallback_rate_profile :: "SessionRateProfile option"
  ra_fallback_parent :: "DynamicCircuitParent option"
  ra_mac_matcher :: "ShapedDevicesMacMatcher option"
  ra_match_shaped_devices_by_username :: bool
  ra_match_shaped_devices_by_mac :: bool

definition RADIUS_RECENT_EXPIRED_DIAGNOSTIC_LIMIT :: usize where
  "RADIUS_RECENT_EXPIRED_DIAGNOSTIC_LIMIT = 1024"

definition push_limited :: "'a list \<Rightarrow> 'a \<Rightarrow> usize \<Rightarrow> 'a list" where
  "push_limited items item limit =
     (if limit = 0 then items
      else let items = items @ [item] in drop (length items - limit) items)"

definition next_update_sequence :: "u64 \<Rightarrow> u64 \<times> u64" where
  "next_update_sequence next_sequence = (next_sequence, next_sequence + 1)"

definition new_with_fallback_and_identity_matcher ::
  "Duration \<Rightarrow> Duration \<Rightarrow> SessionRateProfile option \<Rightarrow> DynamicCircuitParent option
    \<Rightarrow> ShapedDevicesMacMatcher option \<Rightarrow> bool \<Rightarrow> bool \<Rightarrow> RadiusAccountingSessions" where
  "new_with_fallback_and_identity_matcher default_ttl stale_grace fallback_rate_profile fallback_parent
     mac_matcher match_by_username match_by_mac =
     \<lparr>ra_store = new_store, ra_updated_at = [], ra_update_sequence_by_key = [], ra_next_update_sequence = 0,
      ra_activation_diagnostics_by_key = [], ra_recent_expired_activation_diagnostics = [],
      ra_packet_counters = \<lparr>pc_accepted = 0, pc_rejected = 0\<rparr>, ra_default_ttl = default_ttl,
      ra_stale_grace = stale_grace, ra_fallback_rate_profile = fallback_rate_profile,
      ra_fallback_parent = fallback_parent, ra_mac_matcher = mac_matcher,
      ra_match_shaped_devices_by_username = match_by_username, ra_match_shaped_devices_by_mac = match_by_mac\<rparr>"

definition record_packet_accepted :: "RadiusAccountingSessions \<Rightarrow> RadiusAccountingSessions" where
  "record_packet_accepted s =
     s\<lparr>ra_packet_counters := (ra_packet_counters s)\<lparr>pc_accepted := pc_accepted (ra_packet_counters s) + 1\<rparr>\<rparr>"

definition record_packet_rejected :: "RadiusAccountingSessions \<Rightarrow> RadiusAccountingSessions" where
  "record_packet_rejected s =
     s\<lparr>ra_packet_counters := (ra_packet_counters s)\<lparr>pc_rejected := pc_rejected (ra_packet_counters s) + 1\<rparr>\<rparr>"

definition record_session_update_time ::
  "AccountingSessionKey \<Rightarrow> Instant \<Rightarrow> RadiusAccountingSessions \<Rightarrow> RadiusAccountingSessions" where
  "record_session_update_time key now s =
     (let (sequence, next_sequence) = next_update_sequence (ra_next_update_sequence s)
      in s\<lparr>ra_updated_at := AList.update key now (ra_updated_at s),
           ra_next_update_sequence := next_sequence,
           ra_update_sequence_by_key := AList.update key sequence (ra_update_sequence_by_key s)\<rparr>)"

definition record_newly_stale ::
  "Instant \<Rightarrow> RadiusAccountingSessions \<Rightarrow> AccountingSessionKey \<Rightarrow> RadiusAccountingSessions" where
  "record_newly_stale now s key =
     (let s = s\<lparr>ra_updated_at := AList.update key now (ra_updated_at s)\<rparr>
      in if map_of (ra_update_sequence_by_key s) key = None
         then let (sequence, next_sequence) = next_update_sequence (ra_next_update_sequence s)
              in s\<lparr>ra_next_update_sequence := next_sequence,
                   ra_update_sequence_by_key := AList.update key sequence (ra_update_sequence_by_key s)\<rparr>
         else s)"

definition record_update ::
  "AccountingSessionUpdate \<Rightarrow> Instant \<Rightarrow> RadiusAccountingSessions \<Rightarrow> RadiusAccountingSessions" where
  "record_update update now s =
     (case update of
        SessionUpdated key _ \<Rightarrow> record_session_update_time key now s
      | NasSessionsMarkedStale _ _ _ newly_stale_session_keys _ \<Rightarrow>
          foldl (record_newly_stale now) s newly_stale_session_keys
      | Ignored _ \<Rightarrow> s)"

definition prune_removed_sessions :: "RadiusAccountingSessions \<Rightarrow> RadiusAccountingSessions" where
  "prune_removed_sessions s =
     s\<lparr>ra_updated_at := filter (\<lambda>(key, _). session_at (ra_store s) key \<noteq> None) (ra_updated_at s),
       ra_update_sequence_by_key :=
         filter (\<lambda>(key, _). session_at (ra_store s) key \<noteq> None) (ra_update_sequence_by_key s)\<rparr>"

definition prune_retained_activation_diagnostics :: "RadiusAccountingSessions \<Rightarrow> RadiusAccountingSessions" where
  "prune_retained_activation_diagnostics s =
     s\<lparr>ra_activation_diagnostics_by_key :=
         filter (\<lambda>(key, _). session_at (ra_store s) key \<noteq> None) (ra_activation_diagnostics_by_key s)\<rparr>"

definition remove_recent_expired_activation_diagnostic ::
  "AccountingSessionKey \<Rightarrow> RadiusAccountingSessions \<Rightarrow> RadiusAccountingSessions" where
  "remove_recent_expired_activation_diagnostic key s =
     (if ra_recent_expired_activation_diagnostics s = [] then s
      else s\<lparr>ra_recent_expired_activation_diagnostics :=
               filter (\<lambda>d. diag_session_key d \<noteq> key) (ra_recent_expired_activation_diagnostics s)\<rparr>)"

definition record_retained_activation_diagnostic ::
  "RadiusAccountingSessions \<Rightarrow> AccountingSessionKey \<Rightarrow> RadiusAccountingSessions" where
  "record_retained_activation_diagnostic s key =
     (case session_at (ra_store s) key of
        None \<Rightarrow> s\<lparr>ra_activation_diagnostics_by_key := AList.delete key (ra_activation_diagnostics_by_key s)\<rparr>
      | Some session \<Rightarrow>
          let diagnostic = from_retained_session key session;
              s = remove_recent_expired_activation_diagnostic key s
          in s\<lparr>ra_activation_diagnostics_by_key :=
                 AList.update key diagnostic (ra_activation_diagnostics_by_key s)\<rparr>)"

definition record_activation_diagnostics_for_update ::
  "AccountingSessionUpdate \<Rightarrow> RadiusAccountingSessions \<Rightarrow> RadiusAccountingSessions" where
  "record_activation_diagnostics_for_update update s =
     (case update of
        SessionUpdated key _ \<Rightarrow> record_retained_activation_diagnostic s key
      | NasSessionsMarkedStale _ _ _ _ stale_session_keys \<Rightarrow>
          foldl record_retained_activation_diagnostic s stale_session_keys
      | Ignored _ \<Rightarrow> s)"

definition apply_event_with_command_sink ::
  "(string \<Rightarrow> i64) \<Rightarrow> AccountingEvent \<Rightarrow> Instant \<Rightarrow> RadiusAccountingSessions
    \<Rightarrow> AccountingSessionUpdate \<times> RadiusAccountingSessions \<times> DynamicCircuitIntent list" where
  "apply_event_with_command_sink h event now s =
     (let (update, store, intents) =
            (case ra_mac_matcher s of
               Some mac_matcher \<Rightarrow>
                 apply_event_with_shaped_devices_matcher_and_commands h event mac_matcher
                   \<lparr>mo_match_by_username = ra_match_shaped_devices_by_username s,
                    mo_match_by_mac = ra_match_shaped_devices_by_mac s,
                    mo_fallback_profile = ra_fallback_rate_profile s,
                    mo_fallback_parent = ra_fallback_parent s\<rparr> (ra_store s)
             | None \<Rightarrow>
                 let mapping = (case ra_fallback_parent s of Some p \<Rightarrow> ReadyWithParent p | None \<Rightarrow> MissingParent)
                 in apply_event_with_dynamic_circuit_resolution_and_commands h event
                      \<lparr>dr_mapping = mapping,
                       dr_rate_sources = \<lparr>rs_shaped_device_profile = None,
                                          rs_fallback_profile = ra_fallback_rate_profile s\<rparr>,
                       dr_matched_shaped_device = None\<rparr> (ra_store s));
          s = record_update update now (s\<lparr>ra_store := store\<rparr>);
          s = (if length (ra_updated_at s) > length (st_sessions (ra_store s))
               then prune_retained_activation_diagnostics (prune_removed_sessions s) else s)
      in (update, record_activation_diagnostics_for_update update s, intents))"

section \<open>Expiry\<close>

definition expiry_duration_for :: "AccountingSessionState \<Rightarrow> RadiusAccountingSessions \<Rightarrow> Duration" where
  "expiry_duration_for state s = (case state of
       Stale _ \<Rightarrow> ra_stale_grace s
     | Active \<Rightarrow> ra_default_ttl s
     | Stopped \<Rightarrow> ra_default_ttl s)"

definition expiry_deadline_for :: "RadiusAccountingSessions \<Rightarrow> AccountingSessionKey \<Rightarrow> Instant option" where
  "expiry_deadline_for s key =
     Option.bind (session_at (ra_store s) key) (\<lambda>session.
     Option.bind (map_of (ra_updated_at s) key) (\<lambda>updated_at.
       Some (updated_at + expiry_duration_for (as_state session) s)))"

definition due_session ::
  "RadiusAccountingSessions \<Rightarrow> Instant \<Rightarrow> AccountingSessionKey \<times> AccountingSession
    \<Rightarrow> (Instant \<times> u64 \<times> AccountingSessionKey) option" where
  "due_session s now = (\<lambda>(key, session).
     case map_of (ra_updated_at s) key of
       None \<Rightarrow> None
     | Some updated_at \<Rightarrow>
         let ttl = expiry_duration_for (as_state session) s;
             deadline = updated_at + ttl;
             update_sequence = (case map_of (ra_update_sequence_by_key s) key of Some n \<Rightarrow> n | None \<Rightarrow> 0)
         in if now \<ge> deadline then Some (deadline, update_sequence, key) else None)"

definition expire_one ::
  "RadiusAccountingSessions \<times> DynamicCircuitIntent list \<Rightarrow> AccountingSessionKey
    \<Rightarrow> RadiusAccountingSessions \<times> DynamicCircuitIntent list" where
  "expire_one = (\<lambda>(s, intents) key.
     let s = s\<lparr>ra_updated_at := AList.delete key (ra_updated_at s),
               ra_update_sequence_by_key := AList.delete key (ra_update_sequence_by_key s)\<rparr>;
         (expired, store, removals) = expire_session_with_commands key (ra_store s);
         s = s\<lparr>ra_store := store\<rparr>
     in (case expired of
           Some expired_session \<Rightarrow>
             s\<lparr>ra_activation_diagnostics_by_key := AList.delete key (ra_activation_diagnostics_by_key s),
               ra_recent_expired_activation_diagnostics :=
                 push_limited (ra_recent_expired_activation_diagnostics s)
                   (from_expired_session key expired_session) RADIUS_RECENT_EXPIRED_DIAGNOSTIC_LIMIT\<rparr>
         | None \<Rightarrow> s,
         intents @ removals))"

definition expired_keys :: "RadiusAccountingSessions \<Rightarrow> Instant \<Rightarrow> AccountingSessionKey list" where
  "expired_keys s now =
     map (\<lambda>(_, _, key). key) (sort_key (\<lambda>(deadline, update_sequence, _). (deadline, update_sequence))
       (List.map_filter (due_session s now) (st_sessions (ra_store s))))"

definition expire_due_with_command_sink ::
  "Instant \<Rightarrow> RadiusAccountingSessions \<Rightarrow> usize \<times> RadiusAccountingSessions \<times> DynamicCircuitIntent list" where
  "expire_due_with_command_sink now s =
     (let keys = expired_keys s now; expired_count = length keys;
          (s, intents) = foldl expire_one (s, []) keys
      in (expired_count, s, intents))"

fun min_instant :: "Instant list \<Rightarrow> Instant option" where
  "min_instant [] = None"
| "min_instant (t # ts) = (case min_instant ts of None \<Rightarrow> Some t | Some u \<Rightarrow> Some (min t u))"

definition next_expiry_deadline :: "RadiusAccountingSessions \<Rightarrow> Instant option" where
  "next_expiry_deadline s =
     min_instant (List.map_filter (\<lambda>(key, session).
       map_option (\<lambda>updated_at. updated_at + expiry_duration_for (as_state session) s) (map_of (ra_updated_at s) key))
       (st_sessions (ra_store s)))"

definition next_changed_expiry_deadline ::
  "AccountingSessionUpdate \<Rightarrow> RadiusAccountingSessions \<Rightarrow> Instant option" where
  "next_changed_expiry_deadline update s =
     (case update of
        SessionUpdated key _ \<Rightarrow> expiry_deadline_for s key
      | NasSessionsMarkedStale _ _ _ newly_stale_session_keys _ \<Rightarrow>
          min_instant (List.map_filter (expiry_deadline_for s) newly_stale_session_keys)
      | Ignored _ \<Rightarrow> None)"

text \<open>\<open>Duration::from_secs\<close> and \<open>as_secs\<close> on nanoseconds.\<close>

definition from_secs :: "nat \<Rightarrow> Duration" where
  "from_secs n = n * 1000000000"

definition as_secs :: "Duration \<Rightarrow> nat" where
  "as_secs d = d div 1000000000"

definition cleanup_interval :: "Duration \<Rightarrow> Duration \<Rightarrow> Duration" where
  "cleanup_interval default_ttl stale_grace = from_secs (max 1 (min 60 (as_secs (min default_ttl stale_grace))))"

definition expiry_check_interval :: "RadiusAccountingSessions \<Rightarrow> Duration" where
  "expiry_check_interval s = cleanup_interval (ra_default_ttl s) (ra_stale_grace s)"

section \<open>The timer and the loop\<close>

text \<open>The timer is the instant it wakes at.\<close>

record RadiusExpiryTimer =
  wake_at :: Instant

definition radius_expiry_wake_at :: "RadiusAccountingSessions \<Rightarrow> Instant \<Rightarrow> Instant" where
  "radius_expiry_wake_at s now =
     (let next_cleanup = now + expiry_check_interval s
      in case next_expiry_deadline s of None \<Rightarrow> next_cleanup | Some deadline \<Rightarrow> min deadline next_cleanup)"

definition reset_from_sessions :: "RadiusAccountingSessions \<Rightarrow> Instant \<Rightarrow> RadiusExpiryTimer \<Rightarrow> RadiusExpiryTimer" where
  "reset_from_sessions s now timer = timer\<lparr>wake_at := radius_expiry_wake_at s now\<rparr>"

definition schedule_after_update ::
  "RadiusAccountingSessions \<Rightarrow> AccountingSessionUpdate \<Rightarrow> Instant \<Rightarrow> RadiusExpiryTimer \<Rightarrow> RadiusExpiryTimer" where
  "schedule_after_update s update now timer =
     (let changed_deadline = next_changed_expiry_deadline update s;
          next_wake_at = (case changed_deadline of
              Some deadline \<Rightarrow> min deadline (now + expiry_check_interval s)
            | None \<Rightarrow> wake_at timer)
      in if next_wake_at < wake_at timer then timer\<lparr>wake_at := next_wake_at\<rparr> else timer)"

definition is_due :: "RadiusExpiryTimer \<Rightarrow> Instant \<Rightarrow> bool" where
  "is_due timer now \<longleftrightarrow> now \<ge> wake_at timer"

text \<open>The loop's state with the intents emitted so far; \<open>rt_stopped\<close> is the loop's return.\<close>

record Runtime =
  rt_sessions :: RadiusAccountingSessions
  rt_timer :: RadiusExpiryTimer
  rt_intents :: "DynamicCircuitIntent list"
  rt_stopped :: bool

definition start_runtime :: "RadiusAccountingSessions \<Rightarrow> Instant \<Rightarrow> Runtime" where
  "start_runtime s now =
     \<lparr>rt_sessions = s, rt_timer = \<lparr>wake_at = radius_expiry_wake_at s now\<rparr>, rt_intents = [], rt_stopped = False\<rparr>"

definition expire_due_after_timer_wake :: "Instant \<Rightarrow> Runtime \<Rightarrow> Runtime" where
  "expire_due_after_timer_wake now rt =
     (let (_, s, intents) = expire_due_with_command_sink now (rt_sessions rt)
      in rt\<lparr>rt_sessions := s, rt_timer := reset_from_sessions s now (rt_timer rt),
            rt_intents := rt_intents rt @ intents\<rparr>)"

definition expire_due_before_packet :: "Instant \<Rightarrow> Runtime \<Rightarrow> Runtime" where
  "expire_due_before_packet now rt =
     (if is_due (rt_timer rt) now then expire_due_after_timer_wake now rt else rt)"

definition handle_accounting_event ::
  "(string \<Rightarrow> i64) \<Rightarrow> AccountingEvent \<Rightarrow> Instant \<Rightarrow> Runtime \<Rightarrow> Runtime" where
  "handle_accounting_event h event now rt =
     (let (update, s, intents) = apply_event_with_command_sink h event now (rt_sessions rt)
      in rt\<lparr>rt_sessions := s, rt_timer := schedule_after_update s update now (rt_timer rt),
            rt_intents := rt_intents rt @ intents\<rparr>)"

definition handle_listener_outcome ::
  "(string \<Rightarrow> i64) \<Rightarrow> AccountingListenerOutcome \<Rightarrow> Instant \<Rightarrow> Runtime \<Rightarrow> Runtime" where
  "handle_listener_outcome h outcome now rt =
     (case outcome of
        Accepted accepted \<Rightarrow>
          handle_accounting_event h (from_verified (rv_request accepted)) now
            (rt\<lparr>rt_sessions := record_packet_accepted (rt_sessions rt)\<rparr>)
      | RejectedSource _ _ \<Rightarrow> rt\<lparr>rt_sessions := record_packet_rejected (rt_sessions rt)\<rparr>
      | RejectedAmbiguousSource _ _ \<Rightarrow> rt\<lparr>rt_sessions := record_packet_rejected (rt_sessions rt)\<rparr>
      | RejectedPacket _ _ _ \<Rightarrow> rt\<lparr>rt_sessions := record_packet_rejected (rt_sessions rt)\<rparr>)"

definition listener_error_is_recoverable :: "'io ListenerError \<Rightarrow> bool" where
  "listener_error_is_recoverable err = (case err of SendError _ _ \<Rightarrow> True | _ \<Rightarrow> False)"

text \<open>One turn: what the listener returned, or a wake-up, with the time read then.\<close>

datatype 'io Turn =
    ListenerTurn "(AccountingListenerOutcome, 'io ListenerError) result" Instant
  | TimerTurn Instant

fun turn_now :: "'io Turn \<Rightarrow> Instant" where
  "turn_now (ListenerTurn _ now) = now"
| "turn_now (TimerTurn now) = now"

definition run_turn :: "(string \<Rightarrow> i64) \<Rightarrow> Runtime \<Rightarrow> 'io Turn \<Rightarrow> Runtime" where
  "run_turn h rt t =
     (if rt_stopped rt then rt
      else case t of
        ListenerTurn outcome now \<Rightarrow>
          (let rt = expire_due_before_packet now rt in
           case outcome of
             Inr outcome \<Rightarrow> handle_listener_outcome h outcome now rt
           | Inl err \<Rightarrow> if listener_error_is_recoverable err then rt else rt\<lparr>rt_stopped := True\<rparr>)
      | TimerTurn now \<Rightarrow> expire_due_after_timer_wake now rt)"

end
