(* ===== verification/Failure_Text.thy ===== *)
theory Failure_Text
  imports Rust_Strings
begin

text \<open>
  The texts of failed bus requests (\<open>lqosd/src/radius_accounting.rs\<close>): they go into diagnostics that
  operators see, so anything that looks like a credential is redacted and the length is bounded.
\<close>

section \<open>More of Rust's strings\<close>

text \<open>\<open>s.chars()\<close>: the UTF-8 sequences of the text; \<open>len_utf8\<close> of a character is the length of its own.\<close>

function str_chars :: "string \<Rightarrow> string list" where
  "str_chars s = (if s = [] then []
     else let n = fst (utf8_seq (as_bytes s)) in take n s # str_chars (drop n s))"
  by pat_completeness auto
termination
  by (relation "measure length") (use utf8_seq_pos in \<open>auto simp: Let_def\<close>)

declare str_chars.simps [simp del]

lemma length_take_word: "length (take_word s) \<le> length s"
  by (induction s) auto

text \<open>\<open>s.split_whitespace()\<close>\<close>

function split_whitespace :: "string \<Rightarrow> string list" where
  "split_whitespace s = (let t = trim_start s in
     if t = [] then [] else take_word t # split_whitespace (drop (length (take_word t)) t))"
  by pat_completeness auto

lemma length_trim_start: "length (trim_start s) \<le> length s"
proof (induction s rule: trim_start.induct)
  case (1 s)
  then show ?case by (subst trim_start.simps) (auto intro: order_trans)
qed

lemma take_word_pos: "ws_len s = 0 \<Longrightarrow> s \<noteq> [] \<Longrightarrow> take_word s \<noteq> []"
  by (cases s) auto

lemma ws_len_trim_start: "ws_len (trim_start s) = 0"
proof (induction s rule: trim_start.induct)
  case (1 s)
  then show ?case by (subst trim_start.simps) auto
qed

termination split_whitespace
proof (relation "measure length")
  fix s t
  assume t: "t = trim_start s" "t \<noteq> []"
  then have "0 < length (take_word t)" using take_word_pos [OF ws_len_trim_start, of s] by simp
  moreover have "length t \<le> length s" using length_trim_start t(1) by simp
  ultimately show "(drop (length (take_word t)) t, s) \<in> measure length"
    using t(2) by (simp add: less_le_trans [OF diff_less])
qed simp

declare split_whitespace.simps [simp del]

fun contains_text :: "string \<Rightarrow> string \<Rightarrow> bool" where
  "contains_text needle [] = (needle = [])"
| "contains_text needle (c # cs) = (take (length needle) (c # cs) = needle \<or> contains_text needle cs)"

definition trim_matches :: "(char \<Rightarrow> bool) \<Rightarrow> string \<Rightarrow> string" where
  "trim_matches p s = rev (dropWhile p (rev (dropWhile p s)))"

definition strip_prefix :: "string \<Rightarrow> string \<Rightarrow> string option" where
  "strip_prefix p s = (if take (length p) s = p then Some (drop (length p) s) else None)"

definition starts_with_any :: "string \<Rightarrow> string \<Rightarrow> bool" where
  "starts_with_any cs s = (case s of [] \<Rightarrow> False | c # _ \<Rightarrow> c \<in> set cs)"

definition is_ascii_alphanumeric :: "char \<Rightarrow> bool" where
  "is_ascii_alphanumeric c \<longleftrightarrow> (let n = (of_char c :: nat) in
     48 \<le> n \<and> n \<le> 57 \<or> 65 \<le> n \<and> n \<le> 90 \<or> 97 \<le> n \<and> n \<le> 122)"

section \<open>Sensitive tokens\<close>

definition DYNAMIC_CIRCUIT_BUS_FAILURE_DETAIL_LIMIT :: nat where
  "DYNAMIC_CIRCUIT_BUS_FAILURE_DETAIL_LIMIT = 240"

definition token_quote :: "char \<Rightarrow> bool" where
  "token_quote c \<longleftrightarrow> c \<in> {CHR 0x22, CHR 0x27, CHR ''('', CHR '')'', CHR ''['', CHR '']'', CHR ''{'', CHR ''}''}"

definition trimmed_dynamic_circuit_bus_failure_token :: "string \<Rightarrow> string" where
  "trimmed_dynamic_circuit_bus_failure_token token =
     to_ascii_lowercase (concat (take 16 (str_chars (trim_matches token_quote token))))"

definition compact_dynamic_circuit_bus_failure_token :: "string \<Rightarrow> string" where
  "compact_dynamic_circuit_bus_failure_token token =
     map to_ascii_lower (filter is_ascii_alphanumeric
       (concat (take DYNAMIC_CIRCUIT_BUS_FAILURE_DETAIL_LIMIT (str_chars token))))"

definition dynamic_circuit_bus_failure_token_is_secret_connector :: "string \<Rightarrow> bool" where
  "dynamic_circuit_bus_failure_token_is_secret_connector token =
     (let token = trimmed_dynamic_circuit_bus_failure_token token;
          connector = trim_matches (\<lambda>c. c \<in> set '':=>-'') token
      in connector \<in> {'''', ''is'', ''was'', ''value'', ''key''})"

definition dynamic_circuit_bus_failure_token_is_key_label :: "string \<Rightarrow> bool" where
  "dynamic_circuit_bus_failure_token_is_key_label token =
     (let token = trimmed_dynamic_circuit_bus_failure_token token
      in if token = ''key'' then True
         else case strip_prefix ''key'' token of None \<Rightarrow> False | Some suffix \<Rightarrow> starts_with_any '':=-'' suffix)"

definition dynamic_circuit_bus_failure_token_is_bare_key_assignment_label :: "string \<Rightarrow> bool" where
  "dynamic_circuit_bus_failure_token_is_bare_key_assignment_label token =
     (let token = trimmed_dynamic_circuit_bus_failure_token token
      in case strip_prefix ''key'' token of None \<Rightarrow> False | Some suffix \<Rightarrow> starts_with_any '':='' suffix)"

definition dynamic_circuit_bus_failure_token_has_inline_secret_value :: "string \<Rightarrow> bool" where
  "dynamic_circuit_bus_failure_token_has_inline_secret_value token =
     (let token = trim_matches token_quote token
      in case dropWhile (\<lambda>c. c \<notin> set '':='') token of
           [] \<Rightarrow> False
         | _ # rest \<Rightarrow> list_ex (\<lambda>c. c \<notin> set '':=>-'') rest)"

definition dynamic_circuit_bus_failure_token_is_sensitive :: "string \<Rightarrow> bool" where
  "dynamic_circuit_bus_failure_token_is_sensitive token =
     (let compact = compact_dynamic_circuit_bus_failure_token token
      in contains_text ''secret'' compact \<or> contains_text ''password'' compact \<or> contains_text ''passwd'' compact
         \<or> contains_text ''token'' compact \<or> contains_text ''apikey'' compact \<or> contains_text ''privatekey'' compact
         \<or> contains_text ''accesskey'' compact \<or> contains_text ''credential'' compact
         \<or> contains_text ''authorization'' compact \<or> contains_text ''bearer'' compact
         \<or> dynamic_circuit_bus_failure_token_is_bare_key_assignment_label token)"

definition dynamic_circuit_bus_failure_token_starts_sensitive_phrase :: "string \<Rightarrow> string option \<Rightarrow> bool" where
  "dynamic_circuit_bus_failure_token_starts_sensitive_phrase token next_token =
     (let token = compact_dynamic_circuit_bus_failure_token token
      in case next_token of
           None \<Rightarrow> False
         | Some next_token \<Rightarrow>
             if token = ''key'' \<and> (dynamic_circuit_bus_failure_token_is_secret_connector next_token
                  \<or> dynamic_circuit_bus_failure_token_has_inline_secret_value next_token)
             then True
             else token \<in> {''api'', ''private'', ''access''}
                  \<and> dynamic_circuit_bus_failure_token_is_key_label next_token)"

section \<open>The bounded copy\<close>

text \<open>The loop over the characters: what is written, how many bytes, and whether all fitted.\<close>

fun push_bounded_chars :: "string \<Rightarrow> nat \<Rightarrow> string list \<Rightarrow> bool \<times> string \<times> nat" where
  "push_bounded_chars sanitized n [] = (True, sanitized, n)"
| "push_bounded_chars sanitized n (character # rest) =
     (if n + length character > DYNAMIC_CIRCUIT_BUS_FAILURE_DETAIL_LIMIT then (False, sanitized, n)
      else push_bounded_chars (sanitized @ character) (n + length character) rest)"

definition push_bounded_dynamic_circuit_bus_failure_token ::
  "string \<Rightarrow> nat \<Rightarrow> string \<Rightarrow> bool \<times> string \<times> nat" where
  "push_bounded_dynamic_circuit_bus_failure_token sanitized sanitized_bytes token =
     (if sanitized \<noteq> [] \<and> sanitized_bytes \<ge> DYNAMIC_CIRCUIT_BUS_FAILURE_DETAIL_LIMIT
      then (False, sanitized, sanitized_bytes)
      else let (sanitized, sanitized_bytes) =
             (if sanitized \<noteq> [] then (sanitized @ '' '', sanitized_bytes + 1) else (sanitized, sanitized_bytes))
           in push_bounded_chars sanitized sanitized_bytes (str_chars token))"

definition peek :: "'a list \<Rightarrow> 'a option" where
  "peek xs = (case xs of [] \<Rightarrow> None | x # _ \<Rightarrow> Some x)"

fun sanitize_loop :: "string \<Rightarrow> nat \<Rightarrow> bool \<Rightarrow> string list \<Rightarrow> string" where
  "sanitize_loop sanitized sanitized_bytes redact_next_value [] =
     (if sanitized = [] then ''no additional detail'' else sanitized)"
| "sanitize_loop sanitized sanitized_bytes redact_next_value (token # tokens) =
     (let token_is_sensitive = dynamic_circuit_bus_failure_token_is_sensitive token
            \<or> dynamic_circuit_bus_failure_token_starts_sensitive_phrase token (peek tokens);
          redact_token = redact_next_value \<or> token_is_sensitive;
          sanitized_token = (if redact_token then ''[redacted]'' else token);
          (fits, sanitized, sanitized_bytes) =
            push_bounded_dynamic_circuit_bus_failure_token sanitized sanitized_bytes sanitized_token
      in if \<not> fits then sanitized @ ''...''
         else let redact_next_value =
                (if token_is_sensitive
                 then \<not> dynamic_circuit_bus_failure_token_has_inline_secret_value token
                 else if redact_next_value \<and> \<not> dynamic_circuit_bus_failure_token_is_secret_connector token
                 then False else redact_next_value)
              in sanitize_loop sanitized sanitized_bytes redact_next_value tokens)"

definition sanitize_dynamic_circuit_bus_failure_detail :: "string \<Rightarrow> string" where
  "sanitize_dynamic_circuit_bus_failure_detail detail = sanitize_loop [] 0 False (split_whitespace detail)"


section \<open>What is written\<close>

text \<open>
  The redacted tokens without a bound: a token is replaced when it is sensitive, or when it follows
  a sensitive one without a value of its own, possibly after connectors such as \<open>is\<close> or \<open>=\<close>.
\<close>

definition sensitive :: "string \<Rightarrow> string option \<Rightarrow> bool" where
  "sensitive token next_token \<longleftrightarrow> dynamic_circuit_bus_failure_token_is_sensitive token
     \<or> dynamic_circuit_bus_failure_token_starts_sensitive_phrase token next_token"

definition value_pending :: "bool \<Rightarrow> string \<Rightarrow> string option \<Rightarrow> bool" where
  "value_pending pending token next_token \<longleftrightarrow>
     (if sensitive token next_token then \<not> dynamic_circuit_bus_failure_token_has_inline_secret_value token
      else pending \<and> dynamic_circuit_bus_failure_token_is_secret_connector token)"

fun redact :: "bool \<Rightarrow> string list \<Rightarrow> string list" where
  "redact pending [] = []"
| "redact pending (token # tokens) =
     (if pending \<or> sensitive token (peek tokens) then ''[redacted]'' else token)
       # redact (value_pending pending token (peek tokens)) tokens"

definition join_with_space :: "string list \<Rightarrow> string" where
  "join_with_space ts = (case ts of [] \<Rightarrow> [] | t # ts \<Rightarrow> t @ concat (map ((#) CHR '' '') ts))"

text \<open>The bounded copy of characters is their longest prefix within the bound.\<close>

fun fitting :: "nat \<Rightarrow> string list \<Rightarrow> string list" where
  "fitting room [] = []"
| "fitting room (c # cs) = (if length c \<le> room then c # fitting (room - length c) cs else [])"

lemma concat_str_chars [simp]: "concat (str_chars s) = s"
proof (induction s rule: str_chars.induct)
  case (1 s)
  then show ?case by (subst str_chars.simps) (simp add: Let_def)
qed

lemma push_bounded_chars_eq:
  "length sanitized \<le> 240 \<Longrightarrow> push_bounded_chars sanitized (length sanitized) cs =
     (length sanitized + length (concat cs) \<le> 240, sanitized @ concat (fitting (240 - length sanitized) cs),
      length (sanitized @ concat (fitting (240 - length sanitized) cs)))"
proof (induction cs arbitrary: sanitized)
  case (Cons c cs)
  show ?case
  proof (cases "length sanitized + length c \<le> 240")
    case True
    then show ?thesis
      using Cons.IH [of "sanitized @ c"] by (auto simp: DYNAMIC_CIRCUIT_BUS_FAILURE_DETAIL_LIMIT_def add.assoc)
  next
    case False
    then have "\<not> length c \<le> 240 - length sanitized" using Cons.prems by linarith
    with False show ?thesis by (simp add: DYNAMIC_CIRCUIT_BUS_FAILURE_DETAIL_LIMIT_def)
  qed
qed simp

lemma concat_fitting: "length (concat cs) \<le> room \<Longrightarrow> concat (fitting room cs) = concat cs"
  by (induction cs arbitrary: room) auto

lemma fitting_prefix: "\<exists>rest. concat cs = concat (fitting room cs) @ rest"
  by (induction cs arbitrary: room) auto

lemma length_fitting: "length (concat (fitting room cs)) \<le> room"
proof (induction cs arbitrary: room)
  case (Cons c cs)
  show ?case using Cons.IH [of "room - length c"] by auto
qed simp

text \<open>One token after the text so far: copied whole, or the text ends in it.\<close>

definition cut :: "string \<Rightarrow> string \<Rightarrow> bool" where
  "cut full out \<longleftrightarrow> (\<exists>p rest. out = p @ ''...'' \<and> full = p @ rest \<and> length p \<le> 240)"

lemma push_bounded_token:
  assumes "length sanitized \<le> 240" and "sep = (if sanitized = [] then [] else '' '')"
    and "push_bounded_dynamic_circuit_bus_failure_token sanitized (length sanitized) token = (fits, sanitized', n')"
  shows "fits \<longleftrightarrow> length (sanitized @ sep @ token) \<le> 240 \<and> (sanitized = [] \<or> length sanitized < 240)"
    and "fits \<Longrightarrow> sanitized' = sanitized @ sep @ token \<and> n' = length sanitized'"
    and "\<not> fits \<Longrightarrow> cut (sanitized @ sep @ token @ more) (sanitized' @ ''...'')"
proof -
  have full: "length sanitized \<ge> 240 \<Longrightarrow> sanitized \<noteq> []" by auto
  consider (stop) "length sanitized = 240" | (go) "length sanitized < 240" using assms(1) by linarith
  then have "(fits \<longleftrightarrow> length (sanitized @ sep @ token) \<le> 240 \<and> (sanitized = [] \<or> length sanitized < 240))
    \<and> (fits \<longrightarrow> sanitized' = sanitized @ sep @ token \<and> n' = length sanitized')
    \<and> (\<not> fits \<longrightarrow> cut (sanitized @ sep @ token @ more) (sanitized' @ ''...''))"
  proof cases
    case stop
    then show ?thesis
      using full assms(2,3) unfolding push_bounded_dynamic_circuit_bus_failure_token_def cut_def
      by (auto simp: DYNAMIC_CIRCUIT_BUS_FAILURE_DETAIL_LIMIT_def)
  next
    case go
    have len: "length (sanitized @ sep) \<le> 240" using go assms(2) by (simp split: if_splits)
    have "push_bounded_chars (sanitized @ sep) (length (sanitized @ sep)) (str_chars token) = (fits, sanitized', n')"
      using go assms(2,3) unfolding push_bounded_dynamic_circuit_bus_failure_token_def
      by (auto simp: DYNAMIC_CIRCUIT_BUS_FAILURE_DETAIL_LIMIT_def)
    then have r: "fits \<longleftrightarrow> length (sanitized @ sep @ token) \<le> 240"
      "sanitized' = sanitized @ sep @ concat (fitting (240 - length (sanitized @ sep)) (str_chars token))" "n' = length sanitized'"
      using push_bounded_chars_eq [OF len, of "str_chars token"] by auto
    obtain rest where rest: "token = concat (fitting (240 - length (sanitized @ sep)) (str_chars token)) @ rest"
      using fitting_prefix [of "str_chars token"] by (metis concat_str_chars)
    have "length sanitized' \<le> 240"
      using length_fitting [of "240 - length (sanitized @ sep)" "str_chars token"] len by (simp add: r(2))
    moreover have "sanitized @ sep @ token @ more = sanitized' @ rest @ more" unfolding r(2) by (subst rest) simp
    moreover have "fits \<Longrightarrow> concat (fitting (240 - length (sanitized @ sep)) (str_chars token)) = token"
      using concat_fitting [of "str_chars token"] r(1) by simp
    moreover have "cut (sanitized @ sep @ token @ more) (sanitized' @ ''...'')"
      unfolding cut_def by (intro exI [of _ sanitized'] exI [of _ "rest @ more"]) (simp add: calculation)
    ultimately show ?thesis using r go by auto
  qed
  then show "fits \<longleftrightarrow> length (sanitized @ sep @ token) \<le> 240 \<and> (sanitized = [] \<or> length sanitized < 240)"
    and "fits \<Longrightarrow> sanitized' = sanitized @ sep @ token \<and> n' = length sanitized'"
    and "\<not> fits \<Longrightarrow> cut (sanitized @ sep @ token @ more) (sanitized' @ ''...'')" by blast+
qed


lemma redact_nonempty: "[] \<notin> set tokens \<Longrightarrow> [] \<notin> set (redact pending tokens)"
  by (induction tokens arbitrary: pending) auto

lemma sanitize_loop_step:
  "sanitize_loop sanitized n pending (token # tokens) =
     (let (fits, sanitized', n') = push_bounded_dynamic_circuit_bus_failure_token sanitized n
            (if pending \<or> sensitive token (peek tokens) then ''[redacted]'' else token)
      in if fits then sanitize_loop sanitized' n' (value_pending pending token (peek tokens)) tokens
         else sanitized' @ ''...'')"
  by (simp add: sensitive_def value_pending_def Let_def case_prod_beta)

declare sanitize_loop.simps(2) [simp del]

lemma sanitize_loop_rest:
  assumes "sanitized \<noteq> []" and "length sanitized \<le> 240" and "[] \<notin> set tokens"
    and "full = sanitized @ concat (map ((#) CHR '' '') (redact pending tokens))"
  shows "if length full \<le> 240 then sanitize_loop sanitized (length sanitized) pending tokens = full
    else cut full (sanitize_loop sanitized (length sanitized) pending tokens)"
  using assms
proof (induction tokens arbitrary: sanitized pending)
  case (Cons token tokens)
  define shown where "shown = (if pending \<or> sensitive token (peek tokens) then ''[redacted]'' else token)"
  define more where "more = concat (map ((#) CHR '' '') (redact (value_pending pending token (peek tokens)) tokens))"
  have full: "full = sanitized @ '' '' @ shown @ more" using Cons.prems(4) by (simp add: shown_def more_def)
  have ne: "shown \<noteq> []" using Cons.prems(3) by (auto simp: shown_def)
  obtain fits sanitized' n' where push:
    "push_bounded_dynamic_circuit_bus_failure_token sanitized (length sanitized) shown = (fits, sanitized', n')"
    by (cases "push_bounded_dynamic_circuit_bus_failure_token sanitized (length sanitized) shown")
  have sep: "'' '' = (if sanitized = [] then [] else '' '')" using Cons.prems(1) by simp
  note p = push_bounded_token [OF Cons.prems(2) sep push]
  show ?case
  proof (cases fits)
    case True
    then have s': "sanitized' = sanitized @ '' '' @ shown" "n' = length sanitized'" "length sanitized' \<le> 240"
      using p(1,2) by auto
    have "if length full \<le> 240
      then sanitize_loop sanitized' (length sanitized') (value_pending pending token (peek tokens)) tokens = full
      else cut full (sanitize_loop sanitized' (length sanitized') (value_pending pending token (peek tokens)) tokens)"
      by (rule Cons.IH) (use Cons.prems(1,3) s' full in \<open>simp_all add: more_def\<close>)
    then show ?thesis using True s'(2) by (simp add: sanitize_loop_step push shown_def [symmetric])
  next
    case False
    then have "cut full (sanitized' @ ''...'')" using p(3) [of more] full by simp
    moreover have "\<not> length full \<le> 240" using False p(1) ne full by (cases shown) auto
    ultimately show ?thesis using False by (simp add: sanitize_loop_step push shown_def [symmetric])
  qed
qed simp


lemma split_whitespace_nonempty: "[] \<notin> set (split_whitespace s)"
proof (induction s rule: split_whitespace.induct)
  case (1 s)
  then show ?case
    using take_word_pos [OF ws_len_trim_start, of s] by (subst split_whitespace.simps) (auto simp: Let_def)
qed

text \<open>
  The text of a failed request: its tokens are those of the detail, each one replaced when it
  is sensitive, or stands where the value of a sensitive one does; the text is the tokens joined by
  single spaces when that is at most 240 bytes, a fixed text when there are none, and otherwise a prefix of
  them of at most 240 bytes followed by three dots. So it never exceeds 243 bytes.
\<close>

lemma sanitized_failure_detail:
  "let full = join_with_space (redact False (split_whitespace detail));
       out = sanitize_dynamic_circuit_bus_failure_detail detail
   in (if split_whitespace detail = [] then out = ''no additional detail''
       else if length full \<le> 240 then out = full
       else \<exists>p rest. out = p @ ''...'' \<and> full = p @ rest \<and> length p \<le> 240)
      \<and> length out \<le> 243"
proof -
  define full where "full = join_with_space (redact False (split_whitespace detail))"
  define out where "out = sanitize_dynamic_circuit_bus_failure_detail detail"
  have "if split_whitespace detail = [] then out = ''no additional detail''
          else if length full \<le> 240 then out = full else cut full out"
  proof (cases "split_whitespace detail")
    case Nil
    then show ?thesis by (simp add: out_def sanitize_dynamic_circuit_bus_failure_detail_def)
  next
    case (Cons token tokens)
    have ne: "[] \<notin> set (token # tokens)" using split_whitespace_nonempty [of detail] Cons by simp
    define shown where "shown = (if sensitive token (peek tokens) then ''[redacted]'' else token)"
    define more where "more = concat (map ((#) CHR '' '') (redact (value_pending False token (peek tokens)) tokens))"
    have full: "full = [] @ [] @ shown @ more" by (simp add: full_def Cons join_with_space_def shown_def more_def)
    obtain fits sanitized n where push:
      "push_bounded_dynamic_circuit_bus_failure_token [] (length ([] :: string)) shown = (fits, sanitized, n)"
      by (cases "push_bounded_dynamic_circuit_bus_failure_token [] (length ([] :: string)) shown")
    have out: "out = (if fits then sanitize_loop sanitized n (value_pending False token (peek tokens)) tokens
        else sanitized @ ''...'')"
      using push by (simp add: out_def sanitize_dynamic_circuit_bus_failure_detail_def Cons sanitize_loop_step shown_def)
    note p = push_bounded_token [OF _ _ push, of "[]"]
    show ?thesis
    proof (cases fits)
      case True
      then have s: "sanitized = shown" "n = length shown" "length shown \<le> 240" using p by auto
      have "if length full \<le> 240
        then sanitize_loop shown (length shown) (value_pending False token (peek tokens)) tokens = full
        else cut full (sanitize_loop shown (length shown) (value_pending False token (peek tokens)) tokens)"
        by (rule sanitize_loop_rest) (use ne s full in \<open>auto simp: shown_def more_def\<close>)
      then show ?thesis using True Cons by (simp add: out s)
    next
      case False
      then have "cut full out" using p(3) [of more] full out by simp
      moreover have "\<not> length full \<le> 240" using False p(1) full by simp
      ultimately show ?thesis by (simp add: Cons)
    qed
  qed
  then show ?thesis
    unfolding Let_def full_def [symmetric] out_def [symmetric] cut_def by (auto split: if_splits)
qed

end
