(* ===== verification/Circuit_Application.thy ===== *)
theory Circuit_Application
  imports Radius_Runtime Failure_Text
begin

text \<open>
  How the daemon applies dynamic circuits (\<open>lqosd/src/radius_accounting.rs\<close>). The accounting loop
  hands each intent to a sink, which puts it on a bounded queue; a worker takes the intents from
  the queue and sends requests to the daemon's bus. Both share a state behind a lock: who owns
  which circuit, which upserts are on their way and which removals had to wait. One step of the model
  is one critical section, one queue operation or one answer of the bus, so steps of the sink and of
  the worker interleave as their tasks do. A hash map is a map; a hash set is the list of its elements,
  each once. Logging is left out.
\<close>

section \<open>Contexts, errors and answers of the bus\<close>

record DynamicCircuitApplicationContext =
  ctx_intent_name :: string
  ctx_circuit_id :: string
  ctx_session_key :: AccountingSessionKey

type_synonym DynamicCircuitOwnerKey = "string \<times> AccountingSessionKey"

definition dynamic_circuit_intent_name :: "DynamicCircuitIntent \<Rightarrow> string" where
  "dynamic_circuit_intent_name intent = (case intent of
       CreateDynamicCircuit _ \<Rightarrow> ''create''
     | UpdateDynamicCircuit _ \<Rightarrow> ''update''
     | RemoveDynamicCircuit _ \<Rightarrow> ''remove'')"

definition context_from_upsert :: "string \<Rightarrow> DynamicCircuitUpsert \<Rightarrow> DynamicCircuitApplicationContext" where
  "context_from_upsert intent_name upsert =
     \<lparr>ctx_intent_name = intent_name, ctx_circuit_id = up_circuit_id upsert, ctx_session_key = up_session_key upsert\<rparr>"

definition context_from_intent :: "DynamicCircuitIntent \<Rightarrow> DynamicCircuitApplicationContext" where
  "context_from_intent intent = (let intent_name = dynamic_circuit_intent_name intent in
     case intent of
       CreateDynamicCircuit upsert \<Rightarrow> context_from_upsert intent_name upsert
     | UpdateDynamicCircuit upsert \<Rightarrow> context_from_upsert intent_name upsert
     | RemoveDynamicCircuit removal \<Rightarrow>
         \<lparr>ctx_intent_name = intent_name, ctx_circuit_id = rm_circuit_id removal,
          ctx_session_key = rm_session_key removal\<rparr>)"

definition owner_key :: "DynamicCircuitApplicationContext \<Rightarrow> DynamicCircuitOwnerKey" where
  "owner_key context = (ctx_circuit_id context, ctx_session_key context)"

record QueuedDynamicCircuitIntent =
  qi_sequence :: u64
  qi_intent :: DynamicCircuitIntent

datatype DynamicCircuitQueueUnavailableReason = QueueFull | QueueClosed

datatype DynamicCircuitApplicationError =
    QueueUnavailable DynamicCircuitQueueUnavailableReason
  | BusSendTimeout
  | BusClosed
  | ReplyTimeout
  | ReplyDropped
  | MissingResponse
  | UnexpectedResponseCount usize
  | RequestFailed string
  | UnexpectedResponse string

definition queue_unavailable_text :: "DynamicCircuitQueueUnavailableReason \<Rightarrow> string" where
  "queue_unavailable_text reason = (case reason of QueueFull \<Rightarrow> ''queue full'' | QueueClosed \<Rightarrow> ''queue closed'')"

definition application_error_text :: "DynamicCircuitApplicationError \<Rightarrow> string" where
  "application_error_text err = (case err of
       QueueUnavailable reason \<Rightarrow> ''dynamic circuit application queue unavailable: '' @ queue_unavailable_text reason
     | BusSendTimeout \<Rightarrow> ''timed out sending dynamic circuit bus request''
     | BusClosed \<Rightarrow> ''dynamic circuit bus channel is closed''
     | ReplyTimeout \<Rightarrow> ''timed out waiting for dynamic circuit bus reply''
     | ReplyDropped \<Rightarrow> ''dynamic circuit bus reply sender was dropped''
     | MissingResponse \<Rightarrow> ''dynamic circuit bus returned no response''
     | UnexpectedResponseCount n \<Rightarrow>
         ''dynamic circuit bus returned '' @ dec_digits n @ '' responses for one request''
     | RequestFailed message \<Rightarrow>
         ''dynamic circuit request failed: '' @ sanitize_dynamic_circuit_bus_failure_detail message
     | UnexpectedResponse response \<Rightarrow>
         ''dynamic circuit request returned unexpected response: ''
           @ sanitize_dynamic_circuit_bus_failure_detail response)"

text \<open>The requests sent here, and of the answers the two that matter; any other is its debug text.\<close>

datatype BusRequest = CreateRequest ShapedDevice | RemoveRequest string

datatype BusResponse = Ack | Fail string | OtherResponse string

definition dynamic_circuit_application_result :: "BusResponse list \<Rightarrow> (unit, DynamicCircuitApplicationError) result" where
  "dynamic_circuit_application_result responses = (case responses of
       [] \<Rightarrow> Err MissingResponse
     | [Ack] \<Rightarrow> Ok ()
     | [Fail message] \<Rightarrow> Err (RequestFailed message)
     | [OtherResponse debug_text] \<Rightarrow> Err (UnexpectedResponse debug_text)
     | _ \<Rightarrow> Err (UnexpectedResponseCount (length responses)))"

text \<open>What becomes of a request: sending or the answer can time out or find its channel closed.\<close>

datatype BusOutcome = SendTimedOut | SendClosed | AnswerTimedOut | AnswerDropped | Answered "BusResponse list"

definition apply_dynamic_circuit_request :: "BusOutcome \<Rightarrow> (unit, DynamicCircuitApplicationError) result" where
  "apply_dynamic_circuit_request outcome = (case outcome of
       SendTimedOut \<Rightarrow> Err BusSendTimeout
     | SendClosed \<Rightarrow> Err BusClosed
     | AnswerTimedOut \<Rightarrow> Err ReplyTimeout
     | AnswerDropped \<Rightarrow> Err ReplyDropped
     | Answered responses \<Rightarrow> dynamic_circuit_application_result responses)"

definition dynamic_circuit_upsert_result_records_success :: "(unit, DynamicCircuitApplicationError) result \<Rightarrow> bool" where
  "dynamic_circuit_upsert_result_records_success result =
     (case result of Inr _ \<Rightarrow> True | Inl err \<Rightarrow> err = ReplyDropped \<or> err = ReplyTimeout)"

definition dynamic_circuit_removal_result_releases_owner :: "(unit, DynamicCircuitApplicationError) result \<Rightarrow> bool" where
  "dynamic_circuit_removal_result_releases_owner result = (case result of Inr _ \<Rightarrow> True | Inl _ \<Rightarrow> False)"

section \<open>The shared state\<close>

record RetainedDynamicCircuitUpsert =
  ret_first_sequence :: u64
  ret_upsert :: DynamicCircuitUpsert

record DynamicCircuitApplicationState =
  da_current_owners_by_circuit :: "string \<rightharpoonup> AccountingSessionKey list"
  da_authoritative_session_by_circuit :: "string \<rightharpoonup> AccountingSessionKey"
  da_pending_upsert_sequences_by_owner :: "DynamicCircuitOwnerKey \<rightharpoonup> u64 list"
  da_deferred_removal_sequence_by_owner :: "DynamicCircuitOwnerKey \<rightharpoonup> u64"
  da_pending_removals_by_owner :: "DynamicCircuitOwnerKey \<rightharpoonup> QueuedDynamicCircuitIntent"
  da_pending_removal_order :: "DynamicCircuitOwnerKey list"
  da_latest_applied_upsert_sequence_by_owner :: "DynamicCircuitOwnerKey \<rightharpoonup> u64"
  da_retained_upserts_by_owner :: "DynamicCircuitOwnerKey \<rightharpoonup> RetainedDynamicCircuitUpsert"
  da_retained_owners_by_circuit :: "string \<rightharpoonup> AccountingSessionKey list"
  da_application_diagnostics_by_owner :: "DynamicCircuitOwnerKey \<rightharpoonup> RadiusActivationDiagnostic"
  da_application_diagnostic_order :: "DynamicCircuitOwnerKey list"

definition default_application_state :: DynamicCircuitApplicationState where
  "default_application_state =
     \<lparr>da_current_owners_by_circuit = Map.empty, da_authoritative_session_by_circuit = Map.empty,
      da_pending_upsert_sequences_by_owner = Map.empty, da_deferred_removal_sequence_by_owner = Map.empty,
      da_pending_removals_by_owner = Map.empty, da_pending_removal_order = [],
      da_latest_applied_upsert_sequence_by_owner = Map.empty, da_retained_upserts_by_owner = Map.empty,
      da_retained_owners_by_circuit = Map.empty, da_application_diagnostics_by_owner = Map.empty,
      da_application_diagnostic_order = []\<rparr>"

datatype DynamicCircuitRemovalAction = ReleaseOnly | Remove | Promote RetainedDynamicCircuitUpsert

definition RADIUS_APPLY_FAILED_DIAGNOSTIC_LIMIT :: usize where
  "RADIUS_APPLY_FAILED_DIAGNOSTIC_LIMIT = 1024"

text \<open>The elements of a set that may be missing from its map.\<close>

definition or_default :: "'a list option \<Rightarrow> 'a list" where
  "or_default xs = (case xs of None \<Rightarrow> [] | Some ys \<Rightarrow> ys)"

definition record_application_success ::
  "DynamicCircuitApplicationContext \<Rightarrow> DynamicCircuitApplicationState \<Rightarrow> DynamicCircuitApplicationState" where
  "record_application_success context s = (let owner = owner_key context in
     s\<lparr>da_application_diagnostics_by_owner := (da_application_diagnostics_by_owner s)(owner := None),
       da_application_diagnostic_order := filter (\<lambda>o'. o' \<noteq> owner) (da_application_diagnostic_order s)\<rparr>)"

definition prune_application_diagnostics_to_order :: "DynamicCircuitApplicationState \<Rightarrow> DynamicCircuitApplicationState" where
  "prune_application_diagnostics_to_order s =
     s\<lparr>da_application_diagnostics_by_owner :=
         (\<lambda>o'. if o' \<in> set (da_application_diagnostic_order s) then da_application_diagnostics_by_owner s o' else None)\<rparr>"

definition record_application_failure ::
  "DynamicCircuitApplicationContext \<Rightarrow> string \<Rightarrow> DynamicCircuitApplicationState \<Rightarrow> DynamicCircuitApplicationState" where
  "record_application_failure context error s = (let owner = owner_key context in
     prune_application_diagnostics_to_order
       (s\<lparr>da_application_diagnostic_order :=
            push_limited (filter (\<lambda>o'. o' \<noteq> owner) (da_application_diagnostic_order s)) owner
              RADIUS_APPLY_FAILED_DIAGNOSTIC_LIMIT,
          da_application_diagnostics_by_owner := (da_application_diagnostics_by_owner s)
            (owner \<mapsto> apply_failed (ctx_session_key context) (ctx_circuit_id context) error)\<rparr>))"

definition application_diagnostics :: "DynamicCircuitApplicationState \<Rightarrow> RadiusActivationDiagnostic list" where
  "application_diagnostics s =
     List.map_filter (da_application_diagnostics_by_owner s) (da_application_diagnostic_order s)"

definition shared_upsert_may_apply :: "DynamicCircuitApplicationContext \<Rightarrow> DynamicCircuitApplicationState \<Rightarrow> bool" where
  "shared_upsert_may_apply context s =
     (case da_current_owners_by_circuit s (ctx_circuit_id context) of
        None \<Rightarrow> True
      | Some session_keys \<Rightarrow>
          if \<not> list_ex (\<lambda>session_key. session_key \<noteq> ctx_session_key context) session_keys then True
          else (case da_authoritative_session_by_circuit s (ctx_circuit_id context) of
                  None \<Rightarrow> True | Some session_key \<Rightarrow> session_key = ctx_session_key context))"

definition remove_retained_upsert ::
  "DynamicCircuitOwnerKey \<Rightarrow> DynamicCircuitApplicationState \<Rightarrow> DynamicCircuitApplicationState" where
  "remove_retained_upsert owner s =
     (let s = s\<lparr>da_retained_upserts_by_owner := (da_retained_upserts_by_owner s)(owner := None)\<rparr>
      in case da_retained_owners_by_circuit s (fst owner) of
           None \<Rightarrow> s
         | Some retained_owners \<Rightarrow>
             let retained_owners = removeAll (snd owner) retained_owners
             in s\<lparr>da_retained_owners_by_circuit := (da_retained_owners_by_circuit s)
                    (fst owner := (if retained_owners = [] then None else Some retained_owners))\<rparr>)"

definition record_upsert_owner ::
  "DynamicCircuitApplicationContext \<Rightarrow> DynamicCircuitApplicationState \<Rightarrow> DynamicCircuitApplicationState" where
  "record_upsert_owner context s =
     (let circuit_id = ctx_circuit_id context; session_key = ctx_session_key context;
          s = remove_retained_upsert (owner_key context) s
      in s\<lparr>da_current_owners_by_circuit := (da_current_owners_by_circuit s)
             (circuit_id \<mapsto> push_unique session_key (or_default (da_current_owners_by_circuit s circuit_id))),
           da_authoritative_session_by_circuit :=
             (case da_authoritative_session_by_circuit s circuit_id of
                None \<Rightarrow> (da_authoritative_session_by_circuit s)(circuit_id \<mapsto> session_key)
              | Some _ \<Rightarrow> da_authoritative_session_by_circuit s)\<rparr>)"

definition record_applied_upsert ::
  "DynamicCircuitApplicationContext \<Rightarrow> u64 \<Rightarrow> DynamicCircuitApplicationState \<Rightarrow> DynamicCircuitApplicationState" where
  "record_applied_upsert context sequence s =
     (let s = record_upsert_owner context s
      in s\<lparr>da_latest_applied_upsert_sequence_by_owner :=
             (da_latest_applied_upsert_sequence_by_owner s)(owner_key context \<mapsto> sequence)\<rparr>)"

definition has_pending_upsert_at_or_before ::
  "DynamicCircuitOwnerKey \<Rightarrow> u64 \<Rightarrow> DynamicCircuitApplicationState \<Rightarrow> bool" where
  "has_pending_upsert_at_or_before owner removal_sequence s =
     (case da_pending_upsert_sequences_by_owner s owner of
        None \<Rightarrow> False
      | Some pending_sequences \<Rightarrow> list_ex (\<lambda>n. n \<le> removal_sequence) pending_sequences)"

definition retain_upsert ::
  "DynamicCircuitApplicationContext \<Rightarrow> u64 \<Rightarrow> DynamicCircuitUpsert \<Rightarrow> DynamicCircuitApplicationState
    \<Rightarrow> DynamicCircuitApplicationState" where
  "retain_upsert context sequence upsert s =
     (let owner = owner_key context; s = record_upsert_owner context s in
      s\<lparr>da_retained_upserts_by_owner := (da_retained_upserts_by_owner s)
           (owner \<mapsto> (case da_retained_upserts_by_owner s owner of
              Some retained \<Rightarrow> retained\<lparr>ret_upsert := upsert\<rparr>
            | None \<Rightarrow> \<lparr>ret_first_sequence = sequence, ret_upsert = upsert\<rparr>)),
        da_retained_owners_by_circuit := (da_retained_owners_by_circuit s)
           (fst owner \<mapsto> push_unique (snd owner) (or_default (da_retained_owners_by_circuit s (fst owner))))\<rparr>)"

definition record_retained_upsert ::
  "DynamicCircuitApplicationContext \<Rightarrow> u64 \<Rightarrow> DynamicCircuitUpsert \<Rightarrow> DynamicCircuitApplicationState
    \<Rightarrow> DynamicCircuitApplicationState" where
  "record_retained_upsert context sequence upsert s =
     (let owner = owner_key context in
      case da_deferred_removal_sequence_by_owner s owner of
        Some removal_sequence \<Rightarrow>
          if sequence \<le> removal_sequence then s
          else retain_upsert context sequence upsert
            (if has_pending_upsert_at_or_before owner removal_sequence s then s
             else s\<lparr>da_deferred_removal_sequence_by_owner := (da_deferred_removal_sequence_by_owner s)(owner := None)\<rparr>)
      | None \<Rightarrow> retain_upsert context sequence upsert s)"

definition track_pending_upsert ::
  "DynamicCircuitApplicationContext \<Rightarrow> u64 \<Rightarrow> DynamicCircuitApplicationState \<Rightarrow> DynamicCircuitApplicationState" where
  "track_pending_upsert context sequence s = (let owner = owner_key context in
     s\<lparr>da_pending_upsert_sequences_by_owner := (da_pending_upsert_sequences_by_owner s)
         (owner \<mapsto> push_unique sequence (or_default (da_pending_upsert_sequences_by_owner s owner)))\<rparr>)"

definition upsert_was_removed_before_application ::
  "DynamicCircuitApplicationContext \<Rightarrow> u64 \<Rightarrow> DynamicCircuitApplicationState \<Rightarrow> bool" where
  "upsert_was_removed_before_application context sequence s =
     (case da_deferred_removal_sequence_by_owner s (owner_key context) of
        None \<Rightarrow> False | Some removal_sequence \<Rightarrow> sequence \<le> removal_sequence)"

definition prune_deferred_removal ::
  "DynamicCircuitOwnerKey \<Rightarrow> DynamicCircuitApplicationState \<Rightarrow> DynamicCircuitApplicationState" where
  "prune_deferred_removal owner s =
     (case da_deferred_removal_sequence_by_owner s owner of
        None \<Rightarrow> s
      | Some removal_sequence \<Rightarrow>
          if has_pending_upsert_at_or_before owner removal_sequence s then s
          else s\<lparr>da_deferred_removal_sequence_by_owner := (da_deferred_removal_sequence_by_owner s)(owner := None)\<rparr>)"

definition clear_pending_upsert ::
  "DynamicCircuitApplicationContext \<Rightarrow> u64 \<Rightarrow> DynamicCircuitApplicationState \<Rightarrow> DynamicCircuitApplicationState" where
  "clear_pending_upsert context sequence s =
     (let owner = owner_key context;
          s = (case da_pending_upsert_sequences_by_owner s owner of
                 None \<Rightarrow> s
               | Some pending_sequences \<Rightarrow>
                   let pending_sequences = removeAll sequence pending_sequences
                   in s\<lparr>da_pending_upsert_sequences_by_owner := (da_pending_upsert_sequences_by_owner s)
                          (owner := (if pending_sequences = [] then None else Some pending_sequences))\<rparr>)
      in prune_deferred_removal owner s)"

definition track_deferred_removal_for_pending_upserts ::
  "DynamicCircuitApplicationContext \<Rightarrow> u64 \<Rightarrow> DynamicCircuitApplicationState \<Rightarrow> DynamicCircuitApplicationState" where
  "track_deferred_removal_for_pending_upserts context sequence s = (let owner = owner_key context in
     if has_pending_upsert_at_or_before owner sequence s
     then s\<lparr>da_deferred_removal_sequence_by_owner := (da_deferred_removal_sequence_by_owner s)(owner \<mapsto> sequence)\<rparr>
     else s)"

definition record_pending_removal ::
  "DynamicCircuitApplicationContext \<Rightarrow> QueuedDynamicCircuitIntent \<Rightarrow> DynamicCircuitApplicationState
    \<Rightarrow> DynamicCircuitApplicationState" where
  "record_pending_removal context queued_intent s =
     (let owner = owner_key context;
          order = (if da_pending_removals_by_owner s owner \<noteq> None
                   then filter (\<lambda>o'. o' \<noteq> owner) (da_pending_removal_order s) else da_pending_removal_order s)
      in s\<lparr>da_pending_removals_by_owner := (da_pending_removals_by_owner s)(owner \<mapsto> queued_intent),
           da_pending_removal_order := order @ [owner]\<rparr>)"

fun take_pending ::
  "DynamicCircuitOwnerKey list \<Rightarrow> (DynamicCircuitOwnerKey \<rightharpoonup> QueuedDynamicCircuitIntent)
    \<Rightarrow> QueuedDynamicCircuitIntent option \<times> DynamicCircuitOwnerKey list
        \<times> (DynamicCircuitOwnerKey \<rightharpoonup> QueuedDynamicCircuitIntent)" where
  "take_pending [] pending = (None, [], pending)"
| "take_pending (owner # order) pending =
     (case pending owner of
        Some queued_intent \<Rightarrow> (Some queued_intent, order, pending(owner := None))
      | None \<Rightarrow> take_pending order pending)"

definition take_next_pending_removal ::
  "DynamicCircuitApplicationState \<Rightarrow> QueuedDynamicCircuitIntent option \<times> DynamicCircuitApplicationState" where
  "take_next_pending_removal s =
     (let (queued_intent, order, pending) = take_pending (da_pending_removal_order s) (da_pending_removals_by_owner s)
      in (queued_intent, s\<lparr>da_pending_removal_order := order, da_pending_removals_by_owner := pending\<rparr>))"

definition removal_is_stale ::
  "DynamicCircuitApplicationContext \<Rightarrow> u64 \<Rightarrow> DynamicCircuitApplicationState \<Rightarrow> bool" where
  "removal_is_stale context removal_sequence s =
     (case da_latest_applied_upsert_sequence_by_owner s (owner_key context) of
        None \<Rightarrow> False | Some upsert_sequence \<Rightarrow> upsert_sequence > removal_sequence)"

definition release_owner ::
  "DynamicCircuitApplicationContext \<Rightarrow> DynamicCircuitApplicationState \<Rightarrow> DynamicCircuitApplicationState" where
  "release_owner context s =
     (let circuit = ctx_circuit_id context; owner = owner_key context;
          owner_was_authoritative = (da_authoritative_session_by_circuit s circuit = Some (ctx_session_key context));
          s = remove_retained_upsert owner (record_application_success context s);
          s = s\<lparr>da_pending_upsert_sequences_by_owner := (da_pending_upsert_sequences_by_owner s)(owner := None),
                da_deferred_removal_sequence_by_owner := (da_deferred_removal_sequence_by_owner s)(owner := None),
                da_pending_removals_by_owner := (da_pending_removals_by_owner s)(owner := None),
                da_latest_applied_upsert_sequence_by_owner :=
                  (da_latest_applied_upsert_sequence_by_owner s)(owner := None)\<rparr>;
          (s, remaining_owners) = (case da_current_owners_by_circuit s circuit of
              Some session_keys \<Rightarrow>
                let session_keys = removeAll (ctx_session_key context) session_keys
                in (s\<lparr>da_current_owners_by_circuit := (da_current_owners_by_circuit s)(circuit \<mapsto> session_keys)\<rparr>,
                    length session_keys)
            | None \<Rightarrow> (s, 0));
          s = (if owner_was_authoritative
               then s\<lparr>da_authoritative_session_by_circuit := (da_authoritative_session_by_circuit s)(circuit := None)\<rparr>
               else s)
      in if remaining_owners = 0
         then s\<lparr>da_current_owners_by_circuit := (da_current_owners_by_circuit s)(circuit := None),
                da_authoritative_session_by_circuit := (da_authoritative_session_by_circuit s)(circuit := None)\<rparr>
         else s)"

text \<open>\<open>min_by_key\<close>: the first element with the least key.\<close>

fun min_by_sequence :: "RetainedDynamicCircuitUpsert list \<Rightarrow> RetainedDynamicCircuitUpsert option" where
  "min_by_sequence [] = None"
| "min_by_sequence (r # rs) = (case min_by_sequence rs of
     None \<Rightarrow> Some r
   | Some m \<Rightarrow> if ret_first_sequence r \<le> ret_first_sequence m then Some r else Some m)"

definition promotable_retained_upsert ::
  "DynamicCircuitApplicationContext \<Rightarrow> DynamicCircuitApplicationState \<Rightarrow> RetainedDynamicCircuitUpsert option" where
  "promotable_retained_upsert context s =
     (case da_retained_owners_by_circuit s (ctx_circuit_id context) of
        None \<Rightarrow> None
      | Some retained_owners \<Rightarrow>
          min_by_sequence (List.map_filter
            (\<lambda>session_key. da_retained_upserts_by_owner s (ctx_circuit_id context, session_key))
            (filter (\<lambda>session_key. session_key \<noteq> ctx_session_key context) retained_owners)))"

definition removal_action ::
  "DynamicCircuitApplicationContext \<Rightarrow> DynamicCircuitApplicationState \<Rightarrow> DynamicCircuitRemovalAction" where
  "removal_action context s =
     (if da_authoritative_session_by_circuit s (ctx_circuit_id context) \<noteq> Some (ctx_session_key context)
      then ReleaseOnly
      else (case promotable_retained_upsert context s of Some upsert \<Rightarrow> Promote upsert | None \<Rightarrow> Remove))"

definition removal_owner_context ::
  "DynamicCircuitApplicationContext \<Rightarrow> DynamicCircuitRemovalReason \<Rightarrow> DynamicCircuitApplicationState
    \<Rightarrow> DynamicCircuitApplicationContext option" where
  "removal_owner_context context reason s =
     (case da_current_owners_by_circuit s (ctx_circuit_id context) of
        None \<Rightarrow> None
      | Some session_keys \<Rightarrow>
          if ctx_session_key context \<in> set session_keys then Some context
          else if reason \<noteq> Rekeyed then None
          else (case session_keys of
                  [owner] \<Rightarrow>
                    if da_authoritative_session_by_circuit s (ctx_circuit_id context) \<noteq> Some owner then None
                    else Some (context\<lparr>ctx_session_key := owner\<rparr>)
                | _ \<Rightarrow> None))"

definition record_dynamic_circuit_application_result ::
  "DynamicCircuitApplicationContext \<Rightarrow> (unit, DynamicCircuitApplicationError) result
    \<Rightarrow> DynamicCircuitApplicationState \<Rightarrow> DynamicCircuitApplicationState" where
  "record_dynamic_circuit_application_result context result s =
     (case result of
        Inr _ \<Rightarrow> record_application_success context s
      | Inl err \<Rightarrow> record_application_failure context (application_error_text err) s)"

section \<open>The worker\<close>

text \<open>Where the worker is: before which critical section or request.\<close>

datatype WorkerPc =
    WorkerIdle
  | UpsertCheck DynamicCircuitApplicationContext u64 DynamicCircuitUpsert
  | UpsertShared DynamicCircuitApplicationContext u64 DynamicCircuitUpsert
  | UpsertRequest DynamicCircuitApplicationContext u64 ShapedDevice
  | UpsertApplied DynamicCircuitApplicationContext u64 "(unit, DynamicCircuitApplicationError) result"
  | UpsertResult DynamicCircuitApplicationContext u64 "(unit, DynamicCircuitApplicationError) result"
  | UpsertClear DynamicCircuitApplicationContext u64
  | RemovalCheck DynamicCircuitApplicationContext u64 DynamicCircuitRemoval
  | RemovalDecide DynamicCircuitApplicationContext string
  | RemovalRelease DynamicCircuitApplicationContext
  | RemovalRequest DynamicCircuitApplicationContext string "DynamicCircuitApplicationContext option"
  | RemovalAnswered DynamicCircuitApplicationContext "(unit, DynamicCircuitApplicationError) result"
      "DynamicCircuitApplicationContext option"
  | RemovalResult DynamicCircuitApplicationContext "(unit, DynamicCircuitApplicationError) result"
  | PromoteRequest DynamicCircuitApplicationContext string RetainedDynamicCircuitUpsert
  | PromoteAnswered DynamicCircuitApplicationContext string RetainedDynamicCircuitUpsert
      "(unit, DynamicCircuitApplicationError) result"
  | Drain

definition process_dynamic_circuit_intent :: "QueuedDynamicCircuitIntent \<Rightarrow> WorkerPc" where
  "process_dynamic_circuit_intent queued_intent =
     (let sequence = qi_sequence queued_intent; intent = qi_intent queued_intent;
          context = context_from_intent intent
      in case intent of
           CreateDynamicCircuit upsert \<Rightarrow> UpsertCheck context sequence upsert
         | UpdateDynamicCircuit upsert \<Rightarrow> UpsertCheck context sequence upsert
         | RemoveDynamicCircuit removal \<Rightarrow> RemovalCheck context sequence removal)"

definition promoted_context :: "RetainedDynamicCircuitUpsert \<Rightarrow> DynamicCircuitApplicationContext" where
  "promoted_context retained = context_from_upsert ''update'' (ret_upsert retained)"

text \<open>The critical sections and the requests of the worker; a request takes an outcome of the bus.\<close>

fun worker_step ::
  "BusOutcome \<Rightarrow> WorkerPc \<Rightarrow> DynamicCircuitApplicationState \<Rightarrow> WorkerPc \<times> DynamicCircuitApplicationState" where
  "worker_step _ WorkerIdle s = (WorkerIdle, s)"
| "worker_step _ (UpsertCheck context sequence upsert) s =
     (if upsert_was_removed_before_application context sequence s then (UpsertClear context sequence, s)
      else (UpsertShared context sequence upsert, s))"
| "worker_step _ (UpsertShared context sequence upsert) s =
     (if shared_upsert_may_apply context s then (UpsertRequest context sequence (up_shaped_device upsert), s)
      else (UpsertClear context sequence, record_retained_upsert context sequence upsert s))"
| "worker_step outcome (UpsertRequest context sequence _) s =
     (UpsertApplied context sequence (apply_dynamic_circuit_request outcome), s)"
| "worker_step _ (UpsertApplied context sequence result) s =
     (UpsertResult context sequence result,
      if dynamic_circuit_upsert_result_records_success result then record_applied_upsert context sequence s else s)"
| "worker_step _ (UpsertResult context sequence result) s =
     (UpsertClear context sequence, record_dynamic_circuit_application_result context result s)"
| "worker_step _ (UpsertClear context sequence) s = (Drain, clear_pending_upsert context sequence s)"
| "worker_step _ (RemovalCheck context sequence removal) s =
     (case removal_owner_context context (rm_reason removal) s of
        None \<Rightarrow> (Drain, record_application_success context s)
      | Some owner_context \<Rightarrow>
          if removal_is_stale owner_context sequence s then (Drain, s)
          else (RemovalDecide owner_context (rm_circuit_id removal), s))"
| "worker_step _ (RemovalDecide owner_context circuit_id) s =
     (case removal_action owner_context s of
        ReleaseOnly \<Rightarrow> (RemovalRelease owner_context, s)
      | Remove \<Rightarrow> (RemovalRequest owner_context circuit_id None, s)
      | Promote retained \<Rightarrow> (PromoteRequest owner_context circuit_id retained, s))"
| "worker_step _ (RemovalRelease owner_context) s = (Drain, release_owner owner_context s)"
| "worker_step outcome (RemovalRequest owner_context circuit_id extra) s =
     (RemovalAnswered owner_context (apply_dynamic_circuit_request outcome) extra, s)"
| "worker_step _ (RemovalAnswered owner_context result extra) s =
     (RemovalResult owner_context result,
      if dynamic_circuit_removal_result_releases_owner result
      then let s = release_owner owner_context s
           in (case extra of Some extra_release_context \<Rightarrow> release_owner extra_release_context s | None \<Rightarrow> s)
      else s)"
| "worker_step _ (RemovalResult owner_context result) s =
     (Drain, record_dynamic_circuit_application_result owner_context result s)"
| "worker_step outcome (PromoteRequest owner_context circuit_id retained) s =
     (PromoteAnswered owner_context circuit_id retained (apply_dynamic_circuit_request outcome), s)"
| "worker_step _ (PromoteAnswered owner_context circuit_id retained result) s =
     (if dynamic_circuit_upsert_result_records_success result
      then (Drain, record_application_success (promoted_context retained)
              (record_applied_upsert (promoted_context retained) (ret_first_sequence retained)
                (release_owner owner_context s)))
      else (RemovalRequest owner_context circuit_id (Some (promoted_context retained)),
            case result of
              Inl err \<Rightarrow> record_application_failure (promoted_context retained) (application_error_text err) s
            | Inr _ \<Rightarrow> s))"
| "worker_step _ Drain s =
     (case take_next_pending_removal s of
        (None, s) \<Rightarrow> (WorkerIdle, s)
      | (Some queued_intent, s) \<Rightarrow> (process_dynamic_circuit_intent queued_intent, s))"

section \<open>The sink\<close>

definition is_upsert :: "DynamicCircuitIntent \<Rightarrow> bool" where
  "is_upsert intent = (case intent of CreateDynamicCircuit _ \<Rightarrow> True | UpdateDynamicCircuit _ \<Rightarrow> True | _ \<Rightarrow> False)"

definition is_removal :: "DynamicCircuitIntent \<Rightarrow> bool" where
  "is_removal intent = (case intent of RemoveDynamicCircuit _ \<Rightarrow> True | _ \<Rightarrow> False)"

text \<open>Where the sink is in \<open>emit\<close>: not in it, about to queue, or told that it cannot.\<close>

datatype SinkPc =
    SinkIdle
  | SinkQueue QueuedDynamicCircuitIntent
  | SinkFailed DynamicCircuitQueueUnavailableReason QueuedDynamicCircuitIntent

definition emit_track ::
  "DynamicCircuitIntent \<Rightarrow> u64 \<Rightarrow> DynamicCircuitApplicationState \<Rightarrow> DynamicCircuitApplicationState" where
  "emit_track intent sequence s =
     (let context = context_from_intent intent;
          s = (if is_upsert intent then track_pending_upsert context sequence s else s)
      in if is_removal intent then track_deferred_removal_for_pending_upserts context sequence s else s)"

definition emit_failed ::
  "DynamicCircuitQueueUnavailableReason \<Rightarrow> QueuedDynamicCircuitIntent \<Rightarrow> DynamicCircuitApplicationState
    \<Rightarrow> DynamicCircuitApplicationState" where
  "emit_failed reason queued_intent s =
     (let intent = qi_intent queued_intent; context = context_from_intent intent;
          s = record_application_failure context (application_error_text (QueueUnavailable reason)) s;
          s = (if is_upsert intent then clear_pending_upsert context (qi_sequence queued_intent) s else s)
      in if is_removal intent \<and> reason = QueueFull then record_pending_removal context queued_intent s else s)"

section \<open>Both together\<close>

record Application =
  ap_state :: DynamicCircuitApplicationState
  ap_next_sequence :: u64
  ap_capacity :: usize
  ap_closed :: bool
  ap_queue :: "QueuedDynamicCircuitIntent list"
  ap_sink :: SinkPc
  ap_worker :: WorkerPc

definition DYNAMIC_CIRCUIT_APPLICATION_QUEUE_CAPACITY :: usize where
  "DYNAMIC_CIRCUIT_APPLICATION_QUEUE_CAPACITY = 1024"

definition new_with_capacity :: "usize \<Rightarrow> Application" where
  "new_with_capacity capacity =
     \<lparr>ap_state = default_application_state, ap_next_sequence = 0, ap_capacity = capacity, ap_closed = False,
      ap_queue = [], ap_sink = SinkIdle, ap_worker = WorkerIdle\<rparr>"

definition try_queue_dynamic_circuit_intent ::
  "QueuedDynamicCircuitIntent \<Rightarrow> Application \<Rightarrow> Application" where
  "try_queue_dynamic_circuit_intent queued_intent a =
     (if ap_closed a then a\<lparr>ap_sink := SinkFailed QueueClosed queued_intent\<rparr>
      else if length (ap_queue a) \<ge> ap_capacity a then a\<lparr>ap_sink := SinkFailed QueueFull queued_intent\<rparr>
      else a\<lparr>ap_queue := ap_queue a @ [queued_intent], ap_sink := SinkIdle\<rparr>)"

text \<open>
  What happens next: the accounting loop emits an intent, the sink or the worker takes its next
  step (with an outcome, should it be a request), or the worker's task ends and its queue with it.
\<close>

datatype Move = Emit DynamicCircuitIntent | SinkMove | WorkerMove BusOutcome | WorkerLost

definition sink_move :: "Application \<Rightarrow> Application" where
  "sink_move a = (case ap_sink a of
       SinkIdle \<Rightarrow> a
     | SinkQueue queued_intent \<Rightarrow> try_queue_dynamic_circuit_intent queued_intent a
     | SinkFailed reason queued_intent \<Rightarrow>
         a\<lparr>ap_state := emit_failed reason queued_intent (ap_state a), ap_sink := SinkIdle\<rparr>)"

definition worker_move :: "BusOutcome \<Rightarrow> Application \<Rightarrow> Application" where
  "worker_move outcome a =
     (if ap_closed a then a
      else if ap_worker a = WorkerIdle
      then (case ap_queue a of
              [] \<Rightarrow> a
            | queued_intent # queue \<Rightarrow>
                a\<lparr>ap_queue := queue, ap_worker := process_dynamic_circuit_intent queued_intent\<rparr>)
      else let (pc, state) = worker_step outcome (ap_worker a) (ap_state a)
           in a\<lparr>ap_worker := pc, ap_state := state\<rparr>)"

fun move :: "Application \<Rightarrow> Move \<Rightarrow> Application" where
  "move a (Emit intent) =
     (if ap_sink a = SinkIdle
      then a\<lparr>ap_next_sequence := ap_next_sequence a + 1,
             ap_state := emit_track intent (ap_next_sequence a) (ap_state a),
             ap_sink := SinkQueue \<lparr>qi_sequence = ap_next_sequence a, qi_intent = intent\<rparr>\<rparr>
      else a)"
| "move a SinkMove = sink_move a"
| "move a (WorkerMove outcome) = worker_move outcome a"
| "move a WorkerLost = a\<lparr>ap_closed := True\<rparr>"

section \<open>Diagnostics\<close>

definition diagnostic_owner_keys :: "RadiusActivationDiagnostic \<Rightarrow> DynamicCircuitOwnerKey list" where
  "diagnostic_owner_keys diagnostic =
     map (\<lambda>circuit_id. (circuit_id, diag_session_key diagnostic)) (diag_circuit_ids diagnostic)"

definition suppress_failed_owner_diagnostics ::
  "DynamicCircuitOwnerKey list \<Rightarrow> RadiusActivationDiagnostic list \<Rightarrow> RadiusActivationDiagnostic list" where
  "suppress_failed_owner_diagnostics failed_owners diagnostics =
     List.map_filter (\<lambda>diagnostic.
       let had_circuit_ids = (diag_circuit_ids diagnostic \<noteq> []);
           kept = diagnostic\<lparr>diag_circuit_ids := filter (\<lambda>circuit_id.
             (circuit_id, diag_session_key diagnostic) \<notin> set failed_owners) (diag_circuit_ids diagnostic)\<rparr>
       in if \<not> had_circuit_ids \<or> diag_circuit_ids kept \<noteq> [] then Some kept else None) diagnostics"

definition session_diagnostics :: "RadiusAccountingSessions \<Rightarrow> RadiusActivationDiagnostic list" where
  "session_diagnostics sessions =
     map snd (ra_activation_diagnostics_by_key sessions) @ ra_recent_expired_activation_diagnostics sessions"

definition sink_activation_diagnostics ::
  "DynamicCircuitApplicationState \<Rightarrow> RadiusAccountingSessions \<Rightarrow> RadiusActivationDiagnostic list" where
  "sink_activation_diagnostics s sessions =
     (let diagnostics = session_diagnostics sessions;
          failed = application_diagnostics s;
          failed_owners = concat (map diagnostic_owner_keys failed)
      in suppress_failed_owner_diagnostics failed_owners diagnostics @ failed)"

end
