(* ===== verification/Runtime_Properties.thy ===== *)
theory Runtime_Properties
  imports Radius_Runtime "HOL-Library.Multiset"
begin

text \<open>
  Properties of the accounting runtime: over any run of its loop every retained session has an
  update time, the timer never sleeps past a deadline, and no session outlives its deadline.
\<close>

section \<open>The states of the sessions\<close>

text \<open>What expiry sees of the store: the state of each session.\<close>

definition states :: "AccountingSessionStore \<Rightarrow> AccountingSessionKey \<rightharpoonup> AccountingSessionState" where
  "states store k = map_option as_state (session_at store k)"

lemma dom_states: "dom (states store) = dom (map_of (st_sessions store))"
  by (auto simp: states_def domIff)

lemma states_put_session:
  "session_at store key = Some s \<Longrightarrow> as_state s' = as_state s \<Longrightarrow> states (put_session key s' c store) = states store"
  by (auto simp: states_def put_session_def update_conv' fun_eq_iff)

lemma states_emit: "states (fst (emit_dynamic_circuit_intents update store)) = states store"
proof -
  have active: "states (fst (emit_active_session_intents key store)) = states store" for key
  proof (cases "session_at store key")
    case (Some s)
    moreover have "as_state (emitted_session s) = as_state s"
      by (simp add: emitted_session_def split: option.splits)
    ultimately show ?thesis
      using emit_active_session_intents_eq [of store key s] states_put_session by force
  qed (simp add: emit_active_session_intents_def)
  have "states (fst (emit_session_dynamic_circuit_intents key state store)) = states store" for key state
    using active states_put_session [of store key]
    by (auto simp: emit_session_dynamic_circuit_intents_def emit_active_dynamic_circuit_removals_def
        case_prod_beta Let_def split: AccountingSessionState.splits option.splits)
  then show ?thesis by (simp add: emit_dynamic_circuit_intents_def split: AccountingSessionUpdate.splits)
qed

lemma states_expire:
  "states (fst (snd (expire_session_with_commands key store))) = (states store)(key := None)"
  using map_of_remove_session [of key store] remove_session_simps(1) [of key store]
  by (cases "remove_session key store")
    (auto simp: expire_session_with_commands_def states_def fun_eq_iff case_prod_beta Let_def
      split: option.splits if_splits)

text \<open>What an event does to the states, by the update it returns.\<close>

definition states_after ::
  "AccountingSessionUpdate \<Rightarrow> (AccountingSessionKey \<rightharpoonup> AccountingSessionState)
    \<Rightarrow> (AccountingSessionKey \<rightharpoonup> AccountingSessionState) \<Rightarrow> bool" where
  "states_after update old new = (case update of
       SessionUpdated key state \<Rightarrow>
         \<exists>previous. new = (\<lambda>k. if k = key then Some state else if k \<in> previous then None else old k)
     | NasSessionsMarkedStale _ reset _ newly all_keys \<Rightarrow>
         new = (\<lambda>k. if k \<in> set all_keys then Some (Stale reset) else old k)
         \<and> set newly = {k \<in> set all_keys. \<forall>r. old k \<noteq> Some (Stale r)} \<and> set all_keys \<subseteq> dom old
     | Ignored _ \<Rightarrow> new = old)"

lemma states_apply_session_state:
  "case apply_session_state h event r state store of (update, store') \<Rightarrow>
     states_after update (states store) (states store')"
proof -
  let ?kr = "resolve_session_key store event"
  obtain promoted store1 where rm: "remove_sessions (kr_previous_keys ?kr) store = (promoted, store1)"
    by (cases "remove_sessions (kr_previous_keys ?kr) store")
  have "session_at store1 k = (if k \<in> set (kr_previous_keys ?kr) then None else session_at store k)" for k
    using remove_sessions_lookup [of "kr_previous_keys ?kr" store k] by (simp add: rm)
  moreover have "as_state (updated_session h r event state key old ps) = state" for key old ps
    by (simp add: updated_session_def Let_def)
  ultimately show ?thesis
    by (auto simp: apply_session_state_eq rm states_after_def states_def update_conv' Let_def fun_eq_iff
        intro!: exI [of _ "set (kr_previous_keys ?kr)"])
qed

lemma states_mark_nas:
  assumes "store_inv store"
  shows "case mark_nas_sessions_stale event reset store of (update, store') \<Rightarrow>
     states_after update (states store) (states store')"
proof (cases "primary (NasIdentitySet_from_event event)")
  case None
  then show ?thesis by (simp add: mark_nas_sessions_stale_def states_after_def)
next
  case (Some nas)
  let ?P = "\<lambda>k s. session_matches_identities k s (NasIdentitySet_from_event event)"
  define matched where "matched = map fst (filter (\<lambda>(k, s). ?P k s) (st_sessions store))"
  define newly where "newly = map fst (filter (\<lambda>(k, s). case as_state s of Stale _ \<Rightarrow> False | _ \<Rightarrow> True)
    (filter (\<lambda>(k, s). ?P k s) (st_sessions store)))"
  have dist: "distinct (map fst (st_sessions store))" using assms by (rule store_inv_distinct_keys)
  obtain store' n where m: "mark_nas_sessions_stale event reset store = (NasSessionsMarkedStale nas reset n newly matched, store')"
    by (simp add: mark_nas_sessions_stale_def Some newly_def matched_def Let_def)
  have all_keys: "set matched = {k. case session_at store k of None \<Rightarrow> False | Some s \<Rightarrow> ?P k s}"
    unfolding matched_def by (rule set_matched_keys [OF dist])
  have "set newly = {k. case session_at store k of None \<Rightarrow> False
      | Some s \<Rightarrow> ?P k s \<and> (case as_state s of Stale _ \<Rightarrow> False | _ \<Rightarrow> True)}"
    unfolding newly_def filter_filter using set_matched_keys [OF dist] by (simp add: case_prod_unfold)
  then have "k \<in> set newly \<longleftrightarrow> k \<in> set matched \<and> (\<forall>r. states store k \<noteq> Some (Stale r))" for k
  proof (cases "session_at store k")
    case (Some s)
    assume "set newly = {k. case session_at store k of None \<Rightarrow> False
      | Some s \<Rightarrow> ?P k s \<and> (case as_state s of Stale _ \<Rightarrow> False | _ \<Rightarrow> True)}"
    with Some show ?thesis by (cases "as_state s") (simp_all add: all_keys states_def)
  qed (simp add: all_keys)
  then have new: "set newly = {k \<in> set matched. \<forall>r. states store k \<noteq> Some (Stale r)}" by blast
  have "states store' k = (if k \<in> set matched then Some (Stale reset) else states store k)" for k
    using mark_nas_sessions_stale_lookup [of event reset store k]
    by (auto simp: m all_keys states_def Some mark_stale_def split: option.splits)
  then show ?thesis
    using new by (auto simp: m states_after_def all_keys states_def domIff split: option.splits)
qed

lemma states_apply:
  assumes "store_inv store"
  shows "case apply_event_and_commands h event r store of (update, store', intents) \<Rightarrow>
     states_after update (states store) (states store')"
proof -
  obtain u store1 where a: "apply_event_with_resolution_resolver h event r store = (u, store1)"
    by (cases "apply_event_with_resolution_resolver h event r store")
  have session: "apply_session_state h event r state store = (u, store1) \<Longrightarrow> states_after u (states store) (states store1)"
    for state using states_apply_session_state [where h = h and event = event and r = r and store = store and state = state] by simp
  have reset: "mark_nas_sessions_stale event reset store = (u, store1) \<Longrightarrow> states_after u (states store) (states store1)"
    for reset using states_mark_nas [OF assms, of event reset] by simp
  have "states_after (Ignored x) (states store) (states store)" for x by (simp add: states_after_def)
  with a have "states_after u (states store) (states store1)"
    by (auto simp: apply_event_with_resolution_resolver_def upsert_active_session_def stop_session_def
        intro: session reset split: option.splits AcctStatusType.splits)
  then show ?thesis
    using states_emit [of u store1] by (simp add: apply_event_and_commands_def a case_prod_beta Let_def)
qed


section \<open>What an event leaves of the bookkeeping\<close>

text \<open>The keys whose update time an update sets, and those whose sessions it may change.\<close>

definition refreshed :: "AccountingSessionUpdate \<Rightarrow> AccountingSessionKey set" where
  "refreshed update = (case update of
       SessionUpdated key _ \<Rightarrow> {key}
     | NasSessionsMarkedStale _ _ _ newly _ \<Rightarrow> set newly
     | Ignored _ \<Rightarrow> {})"

definition touched :: "AccountingSessionUpdate \<Rightarrow> AccountingSessionKey set" where
  "touched update = (case update of
       SessionUpdated key _ \<Rightarrow> {key}
     | NasSessionsMarkedStale _ _ _ _ all_keys \<Rightarrow> set all_keys
     | Ignored _ \<Rightarrow> {})"

lemma untouched_emit:
  "k \<notin> touched update \<Longrightarrow> session_at (fst (emit_dynamic_circuit_intents update store)) k = session_at store k"
proof -
  assume "k \<notin> touched update"
  have active: "k \<noteq> key \<Longrightarrow> session_at (fst (emit_active_session_intents key store)) k = session_at store k" for key
    using emit_active_session_intents_eq [of store key]
    by (cases "session_at store key")
      (simp add: emit_active_session_intents_def, force simp: put_session_def update_conv')
  have "k \<noteq> key \<Longrightarrow> session_at (fst (emit_session_dynamic_circuit_intents key state store)) k = session_at store k"
    for key state
    using active
    by (auto simp: emit_session_dynamic_circuit_intents_def emit_active_dynamic_circuit_removals_def put_session_def
        update_conv' case_prod_beta Let_def split: AccountingSessionState.splits option.splits)
  with \<open>k \<notin> touched update\<close> show ?thesis
    by (auto simp: emit_dynamic_circuit_intents_def touched_def split: AccountingSessionUpdate.splits)
qed

lemma untouched_apply:
  assumes "store_inv store" and "apply_event_and_commands h event r store = (update, store', intents)"
    and "k \<notin> touched update" and "session_at store' k = Some session"
  shows "session_at store k = Some session"
proof -
  obtain store1 where a: "apply_event_with_resolution_resolver h event r store = (update, store1)"
    and e: "store' = fst (emit_dynamic_circuit_intents update store1)"
    using assms(2) by (auto simp: apply_event_and_commands_def case_prod_beta Let_def prod_eq_iff)
  have s1: "session_at store1 k = Some session" using untouched_emit [OF assms(3), of store1] assms(4) e by simp
  have session: "apply_session_state h event r state store = (update, store1) \<Longrightarrow> session_at store k = Some session"
    for state
  proof -
    assume ap: "apply_session_state h event r state store = (update, store1)"
    obtain promoted store2 where rm: "remove_sessions (kr_previous_keys (resolve_session_key store event)) store = (promoted, store2)"
      by (cases "remove_sessions (kr_previous_keys (resolve_session_key store event)) store")
    show ?thesis
      using ap s1 assms(3) remove_sessions_lookup [of "kr_previous_keys (resolve_session_key store event)" store k]
      by (auto simp: apply_session_state_eq rm touched_def update_conv' Let_def split: if_splits)
  qed
  have reset: "mark_nas_sessions_stale event reset store = (update, store1) \<Longrightarrow> session_at store k = Some session"
    for reset
  proof -
    assume mk: "mark_nas_sessions_stale event reset store = (update, store1)"
    show ?thesis
    proof (cases "primary (NasIdentitySet_from_event event)")
      case None
      with mk s1 show ?thesis by (simp add: mark_nas_sessions_stale_def)
    next
      case (Some nas)
      have "k \<notin> set (map fst (filter (\<lambda>(k, s). session_matches_identities k s (NasIdentitySet_from_event event)) (st_sessions store)))"
        using assms(3) mk Some
        by (simp only: mark_nas_sessions_stale_def Let_def touched_def option.case prod.inject)
          (metis (no_types, lifting) AccountingSessionUpdate.simps(11) set_map)
      then have "\<not> (case session_at store k of None \<Rightarrow> False
          | Some s \<Rightarrow> session_matches_identities k s (NasIdentitySet_from_event event))"
        by (simp only: set_matched_keys [OF store_inv_distinct_keys [OF assms(1)]] mem_Collect_eq not_False_eq_True)
      then show ?thesis
        using mark_nas_sessions_stale_lookup [of event reset store k] s1 mk Some by (auto split: option.splits)
    qed
  qed
  show ?thesis
    using a s1
    by (auto simp: apply_event_with_resolution_resolver_def upsert_active_session_def stop_session_def
        intro: session reset split: option.splits AcctStatusType.splits)
qed


section \<open>The bookkeeping follows the store\<close>

text \<open>
  Every retained session has an update time, a place in the order of updates and a diagnostic that
  is the current one, and nothing else has.
\<close>

definition tracks :: "RadiusAccountingSessions \<Rightarrow> bool" where
  "tracks s \<longleftrightarrow> store_inv (ra_store s)
     \<and> distinct_keys (ra_updated_at s) \<and> dom (map_of (ra_updated_at s)) = dom (states (ra_store s))
     \<and> dom (map_of (ra_update_sequence_by_key s)) = dom (states (ra_store s))
     \<and> (\<forall>k. map_of (ra_activation_diagnostics_by_key s) k = map_option (from_retained_session k) (session_at (ra_store s) k))"

text \<open>The fields a bookkeeping step leaves alone.\<close>

definition same_settings :: "RadiusAccountingSessions \<Rightarrow> RadiusAccountingSessions \<Rightarrow> bool" where
  "same_settings s s' \<longleftrightarrow> ra_default_ttl s' = ra_default_ttl s \<and> ra_stale_grace s' = ra_stale_grace s"

lemma same_settings_refl:
  "ra_default_ttl s' = ra_default_ttl s \<Longrightarrow> ra_stale_grace s' = ra_stale_grace s \<Longrightarrow> same_settings s s'"
  by (simp add: same_settings_def)

lemma same_settings_trans: "same_settings s s' \<Longrightarrow> same_settings s' s'' \<Longrightarrow> same_settings s s''"
  by (simp add: same_settings_def)

lemma record_newly_stale_simps [simp]:
  "ra_store (record_newly_stale now s key) = ra_store s"
  "ra_activation_diagnostics_by_key (record_newly_stale now s key) = ra_activation_diagnostics_by_key s"
  "ra_default_ttl (record_newly_stale now s key) = ra_default_ttl s"
  "ra_stale_grace (record_newly_stale now s key) = ra_stale_grace s"
  "ra_updated_at (record_newly_stale now s key) = AList.update key now (ra_updated_at s)"
  "dom (map_of (ra_update_sequence_by_key (record_newly_stale now s key)))
    = insert key (dom (map_of (ra_update_sequence_by_key s)))"
  by (auto simp: record_newly_stale_def Let_def case_prod_beta update_conv' split: if_splits)

lemma record_newly_stale_fold:
  assumes "s' = foldl (record_newly_stale now) s keys"
  shows "ra_store s' = ra_store s" "ra_activation_diagnostics_by_key s' = ra_activation_diagnostics_by_key s"
    "same_settings s s'"
    "map_of (ra_updated_at s') = (\<lambda>k. if k \<in> set keys then Some now else map_of (ra_updated_at s) k)"
    "dom (map_of (ra_update_sequence_by_key s')) = set keys \<union> dom (map_of (ra_update_sequence_by_key s))"
    "distinct_keys (ra_updated_at s) \<Longrightarrow> distinct_keys (ra_updated_at s')"
  unfolding assms
  by (induction keys arbitrary: s)
    (auto simp: same_settings_def fun_eq_iff update_conv' distinct_keys_def distinct_update)

lemma record_update_effect:
  assumes "s' = record_update update now s"
  shows "ra_store s' = ra_store s" "ra_activation_diagnostics_by_key s' = ra_activation_diagnostics_by_key s"
    "same_settings s s'"
    "map_of (ra_updated_at s') = (\<lambda>k. if k \<in> refreshed update then Some now else map_of (ra_updated_at s) k)"
    "dom (map_of (ra_update_sequence_by_key s')) = refreshed update \<union> dom (map_of (ra_update_sequence_by_key s))"
    "distinct_keys (ra_updated_at s) \<Longrightarrow> distinct_keys (ra_updated_at s')"
  unfolding assms record_update_def refreshed_def
  by (auto simp: record_newly_stale_fold [OF refl] record_session_update_time_def next_update_sequence_def
      same_settings_refl update_conv' fun_eq_iff split: AccountingSessionUpdate.splits)

lemma record_retained_simps [simp]:
  "ra_store (record_retained_activation_diagnostic s key) = ra_store s"
  "ra_updated_at (record_retained_activation_diagnostic s key) = ra_updated_at s"
  "ra_update_sequence_by_key (record_retained_activation_diagnostic s key) = ra_update_sequence_by_key s"
  "ra_default_ttl (record_retained_activation_diagnostic s key) = ra_default_ttl s"
  "ra_stale_grace (record_retained_activation_diagnostic s key) = ra_stale_grace s"
  "map_of (ra_activation_diagnostics_by_key (record_retained_activation_diagnostic s key))
    = (map_of (ra_activation_diagnostics_by_key s))(key := map_option (from_retained_session key) (session_at (ra_store s) key))"
  by (auto simp: record_retained_activation_diagnostic_def remove_recent_expired_activation_diagnostic_def Let_def
      update_conv' delete_conv' fun_eq_iff split: option.splits)

lemma record_retained_fold:
  assumes "s' = foldl record_retained_activation_diagnostic s keys"
  shows "ra_store s' = ra_store s" "ra_updated_at s' = ra_updated_at s"
    "ra_update_sequence_by_key s' = ra_update_sequence_by_key s" "same_settings s s'"
    "map_of (ra_activation_diagnostics_by_key s') = (\<lambda>k. if k \<in> set keys
       then map_option (from_retained_session k) (session_at (ra_store s) k)
       else map_of (ra_activation_diagnostics_by_key s) k)"
  unfolding assms by (induction keys arbitrary: s) (auto simp: same_settings_def fun_eq_iff)

lemma record_diagnostics_effect:
  assumes "s' = record_activation_diagnostics_for_update update s"
  shows "ra_store s' = ra_store s" "ra_updated_at s' = ra_updated_at s"
    "ra_update_sequence_by_key s' = ra_update_sequence_by_key s" "same_settings s s'"
    "map_of (ra_activation_diagnostics_by_key s') = (\<lambda>k. if k \<in> touched update
       then map_option (from_retained_session k) (session_at (ra_store s) k)
       else map_of (ra_activation_diagnostics_by_key s) k)"
  unfolding assms record_activation_diagnostics_for_update_def touched_def
  by (auto simp: record_retained_fold [OF refl] same_settings_refl fun_eq_iff split: AccountingSessionUpdate.splits)


lemma states_after_dom:
  assumes "states_after update old new"
  shows "refreshed update \<subseteq> dom new" "dom new \<subseteq> refreshed update \<union> dom old"
  using assms by (auto simp: states_after_def refreshed_def split: AccountingSessionUpdate.splits if_splits)

lemma map_of_filter_key: "map_of (filter (\<lambda>(k, _). P k) xs) k = (if P k then map_of xs k else None)"
  by (induction xs) auto

lemma distinct_keys_filter: "distinct_keys xs \<Longrightarrow> distinct_keys (filter P xs)"
  by (simp add: distinct_keys_def distinct_map_filter)

text \<open>
  Whether or not the update times are more than the sessions, afterwards their keys agree: a
  removed session is noticed by the count alone.
\<close>

lemma prune_effect:
  assumes "distinct_keys (ra_updated_at s)" and "store_inv (ra_store s)"
    and "dom (states (ra_store s)) \<subseteq> dom (map_of (ra_updated_at s))"
    and "s' = (if length (ra_updated_at s) > length (st_sessions (ra_store s))
               then prune_retained_activation_diagnostics (prune_removed_sessions s) else s)"
  shows "ra_store s' = ra_store s" "same_settings s s'" "distinct_keys (ra_updated_at s')"
    "map_of (ra_updated_at s') = map_of (ra_updated_at s) |` dom (states (ra_store s))"
    "dom (map_of (ra_update_sequence_by_key s)) = dom (map_of (ra_updated_at s))
      \<Longrightarrow> map_of (ra_update_sequence_by_key s') = map_of (ra_update_sequence_by_key s) |` dom (states (ra_store s))"
    "dom (map_of (ra_activation_diagnostics_by_key s)) \<subseteq> dom (map_of (ra_updated_at s))
      \<Longrightarrow> map_of (ra_activation_diagnostics_by_key s') = map_of (ra_activation_diagnostics_by_key s) |` dom (states (ra_store s))"
proof -
  have same: "dom (map_of (ra_updated_at s)) = dom (states (ra_store s))"
    if "\<not> length (ra_updated_at s) > length (st_sessions (ra_store s))"
  proof -
    have d: "distinct_keys (st_sessions (ra_store s))"
      using store_inv_distinct_keys [OF assms(2)] by (simp add: distinct_keys_def)
    have "card (dom (map_of (st_sessions (ra_store s)))) = length (st_sessions (ra_store s))"
      "card (dom (map_of (ra_updated_at s))) = length (ra_updated_at s)"
      using d assms(1) unfolding distinct_keys_def dom_map_of_conv_image_fst
      by (metis distinct_card length_map list.set_map)+
    then show ?thesis
      using card_seteq [OF finite_dom_map_of assms(3)] that by (simp add: dom_states)
  qed
  have kept: "map_of (filter (\<lambda>(k, _). session_at (ra_store s) k \<noteq> None) xs) = map_of xs |` dom (states (ra_store s))"
    for xs :: "(AccountingSessionKey \<times> 'v) list"
    by (auto simp: fun_eq_iff map_of_filter_key restrict_map_def states_def domIff)
  have all: "m = m |` dom (states (ra_store s))" if "dom m \<subseteq> dom (states (ra_store s))"
    for m :: "AccountingSessionKey \<rightharpoonup> 'v"
    using that by (auto simp: fun_eq_iff restrict_map_def domIff)
  note s' = assms(4) prune_removed_sessions_def prune_retained_activation_diagnostics_def
  show "ra_store s' = ra_store s" "same_settings s s'" "distinct_keys (ra_updated_at s')"
    using assms(1) by (auto simp: s' same_settings_def distinct_keys_filter)
  show "map_of (ra_updated_at s') = map_of (ra_updated_at s) |` dom (states (ra_store s))"
    using same all [of "map_of (ra_updated_at s)"] by (simp add: s' kept del: not_None_eq)
  show "map_of (ra_update_sequence_by_key s') = map_of (ra_update_sequence_by_key s) |` dom (states (ra_store s))"
    if "dom (map_of (ra_update_sequence_by_key s)) = dom (map_of (ra_updated_at s))"
    using same all [of "map_of (ra_update_sequence_by_key s)"] that by (simp add: s' kept del: not_None_eq)
  show "map_of (ra_activation_diagnostics_by_key s') = map_of (ra_activation_diagnostics_by_key s) |` dom (states (ra_store s))"
    if "dom (map_of (ra_activation_diagnostics_by_key s)) \<subseteq> dom (map_of (ra_updated_at s))"
    using same all [of "map_of (ra_activation_diagnostics_by_key s)"] that
    by (cases "length (st_sessions (ra_store s)) < length (ra_updated_at s)") (simp_all add: s' kept del: not_None_eq)
qed

text \<open>The resolver of an event: the shaped devices, or the fallback parent alone.\<close>

definition event_resolver :: "RadiusAccountingSessions \<Rightarrow> resolver" where
  "event_resolver s = (case ra_mac_matcher s of
       Some mac_matcher \<Rightarrow> identity_match_resolver mac_matcher
         \<lparr>mo_match_by_username = ra_match_shaped_devices_by_username s, mo_match_by_mac = ra_match_shaped_devices_by_mac s,
          mo_fallback_profile = ra_fallback_rate_profile s, mo_fallback_parent = ra_fallback_parent s\<rparr>
     | None \<Rightarrow> (\<lambda>_. \<lparr>dr_mapping = (case ra_fallback_parent s of Some p \<Rightarrow> ReadyWithParent p | None \<Rightarrow> MissingParent),
         dr_rate_sources = \<lparr>rs_shaped_device_profile = None, rs_fallback_profile = ra_fallback_rate_profile s\<rparr>,
         dr_matched_shaped_device = None\<rparr>))"

lemma apply_event_with_command_sink_resolver:
  "apply_event_with_command_sink h event now s =
     (let (update, store, intents) = apply_event_and_commands h event (event_resolver s) (ra_store s);
          s = record_update update now (s\<lparr>ra_store := store\<rparr>);
          s = (if length (ra_updated_at s) > length (st_sessions (ra_store s))
               then prune_retained_activation_diagnostics (prune_removed_sessions s) else s)
      in (update, record_activation_diagnostics_for_update update s, intents))"
  by (simp add: apply_event_with_command_sink_def apply_event_with_shaped_devices_matcher_and_commands_def
      apply_event_with_dynamic_circuit_resolution_and_commands_def event_resolver_def Let_def split: option.split)

text \<open>One event: the bookkeeping still follows, and only refreshed sessions get a new time.\<close>

lemma apply_event_effect:
  assumes tr: "tracks s" and run: "run_inv (ra_store s, trace)"
    and ap: "apply_event_with_command_sink h event now s = (update, s', intents)"
  shows "tracks s'" "run_inv (ra_store s', trace @ intents)" "same_settings s s'"
    "states_after update (states (ra_store s)) (states (ra_store s'))"
    "map_of (ra_updated_at s')
      = (\<lambda>k. if k \<in> refreshed update then Some now else map_of (ra_updated_at s) k) |` dom (states (ra_store s'))"
proof -
  obtain r store where r: "apply_event_and_commands h event r (ra_store s) = (update, store, intents)"
    and s': "s' = record_activation_diagnostics_for_update update
       (let s1 = record_update update now (s\<lparr>ra_store := store\<rparr>)
        in if length (ra_updated_at s1) > length (st_sessions (ra_store s1))
           then prune_retained_activation_diagnostics (prune_removed_sessions s1) else s1)"
    using ap unfolding apply_event_with_command_sink_resolver Let_def case_prod_beta
    by (metis prod.collapse prod.inject)
  define s1 where "s1 = record_update update now (s\<lparr>ra_store := store\<rparr>)"
  define s2 where "s2 = (if length (ra_updated_at s1) > length (st_sessions (ra_store s1))
           then prune_retained_activation_diagnostics (prune_removed_sessions s1) else s1)"
  have inv: "store_inv (ra_store s)" using tr by (simp add: tracks_def)
  have run': "run_inv (store, trace @ intents)"
    using store_step_inv [OF run, of h "ApplyEventWithCommands event r"] r by simp
  then have inv': "store_inv store" by (simp add: run_inv_def)
  have after: "states_after update (states (ra_store s)) (states store)"
    using states_apply [OF inv, of h event r] by (simp add: r)
  note s1 = record_update_effect [OF s1_def, simplified]
  have d1: "distinct_keys (ra_updated_at s1)" using s1(6) tr by (simp add: tracks_def)
  have u1: "dom (map_of (ra_updated_at s1)) = refreshed update \<union> dom (map_of (ra_updated_at s))"
    by (auto simp: s1 split: if_splits)
  have sub: "dom (states store) \<subseteq> dom (map_of (ra_updated_at s1))"
    using states_after_dom(2) [OF after] u1 tr by (simp add: tracks_def)
  note s2 = prune_effect [OF d1 _ _ s2_def, unfolded s1(1), OF inv' sub]
  note s3 = record_diagnostics_effect [OF s', folded s1_def, unfolded Let_def, folded s2_def]
  have st: "ra_store s' = store" by (simp add: s3 s2)
  have seq: "dom (map_of (ra_update_sequence_by_key s1)) = dom (map_of (ra_updated_at s1))"
    using tr u1 by (simp add: s1 tracks_def)
  have dg: "dom (map_of (ra_activation_diagnostics_by_key s1)) \<subseteq> dom (map_of (ra_updated_at s1))"
    using tr u1 by (auto simp: s1(2) tracks_def states_def domIff)
  show up: "map_of (ra_updated_at s')
      = (\<lambda>k. if k \<in> refreshed update then Some now else map_of (ra_updated_at s) k) |` dom (states (ra_store s'))"
    by (simp add: s3 s2 s1 st cong: if_cong)
  have diag: "map_of (ra_activation_diagnostics_by_key s') k = map_option (from_retained_session k) (session_at store k)" for k
  proof (cases "k \<in> touched update")
    case False
    have "session_at store k = Some x \<Longrightarrow> session_at (ra_store s) k = Some x" for x
      using untouched_apply [OF inv r False] by blast
    moreover have "map_of (ra_activation_diagnostics_by_key s') k
        = (map_of (ra_activation_diagnostics_by_key s) |` dom (states store)) k"
      using False by (simp add: s3 s2(6) [OF dg] s1)
    ultimately show ?thesis
      using tr by (cases "session_at store k") (simp_all add: tracks_def restrict_map_def states_def domIff)
  qed (simp add: s3 s2 s1)
  have "dom (map_of (ra_updated_at s')) = dom (states store)"
    using sub by (simp add: s3 s2) blast
  moreover have "dom (map_of (ra_update_sequence_by_key s')) = dom (states store)"
    using sub seq by (simp add: s3 s2(5) [OF seq]) blast
  ultimately show "tracks s'" using diag inv' d1 by (simp add: tracks_def st s3 s2)
  show "run_inv (ra_store s', trace @ intents)" using run' by (simp add: st)
  show "states_after update (states (ra_store s)) (states (ra_store s'))" using after by (simp add: st)
  show "same_settings s s'"
    using s1(3) s2(2) s3(4) by (simp add: same_settings_def)
qed


section \<open>Expiry\<close>

lemma sessions_expire:
  "session_at (fst (snd (expire_session_with_commands key store))) = (session_at store)(key := None)"
  "fst (expire_session_with_commands key store) = None \<longleftrightarrow> session_at store key = None"
  using map_of_remove_session [of key store] remove_session_simps(1) [of key store]
  by (auto simp: expire_session_with_commands_def case_prod_beta Let_def fun_eq_iff split: option.splits)

lemma dom_states_iff: "k \<in> dom (states store) \<longleftrightarrow> session_at store k \<noteq> None"
  by (auto simp: states_def domIff)

lemma expire_one_effect:
  assumes tr: "tracks s" and run: "run_inv (ra_store s, trace @ intents)" and e: "expire_one (s, intents) key = (s', intents')"
  shows "tracks s'" "run_inv (ra_store s', trace @ intents')" "same_settings s s'"
    "session_at (ra_store s') = (session_at (ra_store s))(key := None)"
    "map_of (ra_updated_at s') = (map_of (ra_updated_at s))(key := None)"
proof -
  obtain x store removals where x: "expire_session_with_commands key (ra_store s) = (x, store, removals)"
    by (cases "expire_session_with_commands key (ra_store s)")
  have st: "session_at store = (session_at (ra_store s))(key := None)" "x = None \<longleftrightarrow> session_at (ra_store s) key = None"
    using sessions_expire [of key "ra_store s"] unfolding x by (simp_all add: fun_eq_iff)
  have f: "ra_store s' = store" "intents' = intents @ removals"
    "ra_updated_at s' = AList.delete key (ra_updated_at s)"
    "ra_update_sequence_by_key s' = AList.delete key (ra_update_sequence_by_key s)" and set: "same_settings s s'"
    using e by (auto simp: expire_one_def x Let_def same_settings_def split: option.splits)
  have diag: "map_of (ra_activation_diagnostics_by_key s') = (map_of (ra_activation_diagnostics_by_key s))(key := None)"
    using e tr by (auto simp: expire_one_def x Let_def delete_conv' st tracks_def split: option.splits)
  have run': "run_inv (store, trace @ intents')"
    using expire_session_run [OF run x] by (simp add: f)
  have ds: "dom (states store) = dom (states (ra_store s)) - {key}"
    by (auto simp: states_def st domIff split: if_splits)
  show "session_at (ra_store s') = (session_at (ra_store s))(key := None)"
    "map_of (ra_updated_at s') = (map_of (ra_updated_at s))(key := None)"
    "run_inv (ra_store s', trace @ intents')" "same_settings s s'"
    using run' set by (simp_all add: f st delete_conv' fun_eq_iff)
  show "tracks s'"
    using tr run' by (simp add: tracks_def f ds delete_conv' st diag run_inv_def)
qed

lemma expire_fold_effect:
  assumes "tracks s" and "run_inv (ra_store s, trace @ intents)"
    and "foldl expire_one (s, intents) keys = (s', intents')"
  shows "tracks s' \<and> run_inv (ra_store s', trace @ intents') \<and> same_settings s s'
    \<and> session_at (ra_store s') = (\<lambda>k. if k \<in> set keys then None else session_at (ra_store s) k)
    \<and> map_of (ra_updated_at s') = (\<lambda>k. if k \<in> set keys then None else map_of (ra_updated_at s) k)"
  using assms
proof (induction keys arbitrary: s intents)
  case Nil
  then show ?case by (simp add: same_settings_def)
next
  case (Cons key keys)
  obtain s1 intents1 where e: "expire_one (s, intents) key = (s1, intents1)" by (cases "expire_one (s, intents) key")
  note one = expire_one_effect [OF Cons.prems(1,2) e]
  have "foldl expire_one (s1, intents1) keys = (s', intents')" using Cons.prems(3) by (simp add: e)
  from Cons.IH [OF one(1,2) this] show ?case
    using one(3) by (auto simp: one(4,5) fun_eq_iff same_settings_def)
qed

lemma due_session_deadline:
  assumes "distinct_keys (st_sessions (ra_store s))" and "(key, session) \<in> set (st_sessions (ra_store s))"
  shows "due_session s now (key, session) = (case expiry_deadline_for s key of
     Some d \<Rightarrow> if d \<le> now then Some (d, case map_of (ra_update_sequence_by_key s) key of Some n \<Rightarrow> n | None \<Rightarrow> 0, key) else None
   | None \<Rightarrow> None)"
  using map_of_is_SomeI assms
  by (auto simp: due_session_def expiry_deadline_for_def distinct_keys_def Let_def split: option.splits)

lemma map_filter_map: "map f (List.map_filter g xs) = List.map_filter (\<lambda>x. map_option f (g x)) xs"
  by (induction xs) (auto simp: List.map_filter_simps split: option.splits)

lemma set_map_filter_iff: "y \<in> set (List.map_filter f xs) \<longleftrightarrow> (\<exists>x \<in> set xs. f x = Some y)"
  by (force simp: List.map_filter_def)

lemma set_expired_keys:
  assumes "distinct_keys (st_sessions (ra_store s))"
  shows "set (expired_keys s now) = {k. \<exists>d. expiry_deadline_for s k = Some d \<and> d \<le> now}"
proof -
  have "k \<in> set (expired_keys s now) \<longleftrightarrow> (\<exists>d. expiry_deadline_for s k = Some d \<and> d \<le> now)" for k
  proof
    assume "k \<in> set (expired_keys s now)"
    then obtain key session d n where "(key, session) \<in> set (st_sessions (ra_store s))"
      "due_session s now (key, session) = Some (d, n, k)"
      by (auto simp: expired_keys_def set_map_filter_iff)
    then show "\<exists>d. expiry_deadline_for s k = Some d \<and> d \<le> now"
      using due_session_deadline [OF assms] by (auto split: option.splits if_splits)
  next
    assume "\<exists>d. expiry_deadline_for s k = Some d \<and> d \<le> now"
    then obtain d session where d: "expiry_deadline_for s k = Some d" "d \<le> now"
      and "(k, session) \<in> set (st_sessions (ra_store s))"
      by (auto simp: expiry_deadline_for_def bind_eq_Some_conv dest: map_of_SomeD)
    then show "k \<in> set (expired_keys s now)"
      using due_session_deadline [OF assms, of k session now] by (force simp: expired_keys_def set_map_filter_iff)
  qed
  then show ?thesis by blast
qed


lemma tracks_distinct: "tracks s \<Longrightarrow> distinct_keys (st_sessions (ra_store s))"
  by (simp add: tracks_def distinct_keys_def store_inv_distinct_keys)

lemma tracks_updated: "tracks s \<Longrightarrow> session_at (ra_store s) k = None \<longleftrightarrow> map_of (ra_updated_at s) k = None"
  by (metis tracks_def domIff dom_states_iff)

lemma expiry_duration_for_cong: "same_settings s s' \<Longrightarrow> expiry_duration_for state s' = expiry_duration_for state s"
  by (simp add: expiry_duration_for_def same_settings_def split: AccountingSessionState.splits)

text \<open>Expiry at \<open>now\<close> removes the due sessions and leaves the others with their deadlines.\<close>

lemma expire_due_effect:
  assumes tr: "tracks s" and run: "run_inv (ra_store s, trace)"
    and e: "expire_due_with_command_sink now s = (n, s', intents)"
  shows "tracks s'" "run_inv (ra_store s', trace @ intents)" "same_settings s s'"
    "session_at (ra_store s') k = (case expiry_deadline_for s k of
       Some d \<Rightarrow> if d \<le> now then None else session_at (ra_store s) k | None \<Rightarrow> None)"
    "expiry_deadline_for s' k = (case expiry_deadline_for s k of
       Some d \<Rightarrow> if d \<le> now then None else Some d | None \<Rightarrow> None)"
proof -
  have f: "foldl expire_one (s, []) (expired_keys s now) = (s', intents)"
    using e by (simp add: expire_due_with_command_sink_def Let_def case_prod_beta prod_eq_iff)
  note eff = expire_fold_effect [OF tr _ f, of trace, simplified, OF run]
  note due = set_expired_keys [OF tracks_distinct [OF tr], of now]
  show "tracks s'" "run_inv (ra_store s', trace @ intents)" "same_settings s s'" using eff by simp_all
  have has: "expiry_deadline_for s k = None \<Longrightarrow> session_at (ra_store s) k = None"
    using tracks_updated [OF tr, of k] by (auto simp: expiry_deadline_for_def bind_eq_None_conv)
  then show "session_at (ra_store s') k = (case expiry_deadline_for s k of
       Some d \<Rightarrow> if d \<le> now then None else session_at (ra_store s) k | None \<Rightarrow> None)"
    using eff by (auto simp: due fun_eq_iff split: option.splits)
  with eff show "expiry_deadline_for s' k = (case expiry_deadline_for s k of
       Some d \<Rightarrow> if d \<le> now then None else Some d | None \<Rightarrow> None)"
    by (auto simp: due fun_eq_iff expiry_deadline_for_def expiry_duration_for_cong split: option.splits bind_splits)
qed

lemma min_instant_none: "min_instant ts = None \<longleftrightarrow> ts = []"
  by (cases ts) (auto split: option.splits)

lemma min_instant_le: "min_instant ts = Some d \<Longrightarrow> t \<in> set ts \<Longrightarrow> d \<le> t"
proof (induction ts arbitrary: d)
  case (Cons u us)
  show ?case
  proof (cases "min_instant us")
    case None
    with Cons.prems show ?thesis by (simp add: min_instant_none)
  next
    case (Some e)
    with Cons.prems Cons.IH [OF Some] show ?thesis by auto
  qed
qed simp

lemma min_instant_lower: "t \<in> set ts \<Longrightarrow> \<exists>d. min_instant ts = Some d \<and> d \<le> t"
  by (metis list.distinct(1) list.set_cases min_instant_le min_instant_none not_None_eq)

lemma wake_at_lower:
  assumes "expiry_deadline_for s k = Some d"
  shows "radius_expiry_wake_at s now \<le> d"
proof -
  obtain session updated_at where "(k, session) \<in> set (st_sessions (ra_store s))"
    "map_of (ra_updated_at s) k = Some updated_at" "d = updated_at + expiry_duration_for (as_state session) s"
    using assms by (auto simp: expiry_deadline_for_def bind_eq_Some_conv dest: map_of_SomeD)
  then have "d \<in> set (List.map_filter (\<lambda>(key, session).
       map_option (\<lambda>updated_at. updated_at + expiry_duration_for (as_state session) s) (map_of (ra_updated_at s) key))
       (st_sessions (ra_store s)))"
    by (force simp: set_map_filter_iff)
  then obtain d' where "next_expiry_deadline s = Some d'" "d' \<le> d"
    using min_instant_lower unfolding next_expiry_deadline_def by blast
  then show ?thesis by (simp add: radius_expiry_wake_at_def Let_def)
qed

section \<open>The loop keeps its deadlines\<close>

text \<open>A machine whose inputs carry non-decreasing times, with an invariant that may speak of the latest.\<close>

locale timed_stepper =
  fixes step :: "'s \<Rightarrow> 'i \<Rightarrow> 's" and time_of :: "'i \<Rightarrow> nat" and inv :: "nat \<Rightarrow> 's \<Rightarrow> bool"
  assumes step_inv: "inv t s \<Longrightarrow> t \<le> time_of i \<Longrightarrow> inv (time_of i) (step s i)"
begin

lemma run_inv:
  "inv t s \<Longrightarrow> sorted (t # map time_of is) \<Longrightarrow> inv (List.last (t # map time_of is)) (foldl step s is)"
proof (induction "is" arbitrary: s t)
  case (Cons i rest)
  then show ?case using Cons.IH [of "time_of i" "step s i"] step_inv by simp
qed simp

end

definition on_time :: "Instant \<Rightarrow> Runtime \<Rightarrow> bool" where
  "on_time now rt \<longleftrightarrow> tracks (rt_sessions rt) \<and> run_inv (ra_store (rt_sessions rt), rt_intents rt)
     \<and> 0 < ra_default_ttl (rt_sessions rt) \<and> 0 < ra_stale_grace (rt_sessions rt)
     \<and> (\<forall>k d. expiry_deadline_for (rt_sessions rt) k = Some d \<longrightarrow>
          wake_at (rt_timer rt) \<le> d \<and> (rt_stopped rt \<or> now < d))"

lemma expire_due_on_time:
  assumes "on_time t rt"
  shows "on_time now (expire_due_after_timer_wake now rt)"
proof -
  obtain n s intents where e: "expire_due_with_command_sink now (rt_sessions rt) = (n, s, intents)"
    by (cases "expire_due_with_command_sink now (rt_sessions rt)")
  note eff = expire_due_effect [OF _ _ e]
  have "tracks (rt_sessions rt)" "run_inv (ra_store (rt_sessions rt), rt_intents rt)"
    "0 < ra_default_ttl (rt_sessions rt) \<and> 0 < ra_stale_grace (rt_sessions rt)"
    using assms by (simp_all add: on_time_def)
  with eff [OF this(1,2)] show ?thesis
    by (auto simp: on_time_def expire_due_after_timer_wake_def e same_settings_def reset_from_sessions_def
        wake_at_lower split: option.splits if_splits)
qed

lemma expire_before_packet_on_time:
  assumes "on_time t rt"
  shows "on_time now (expire_due_before_packet now rt)"
proof (cases "is_due (rt_timer rt) now")
  case True
  then show ?thesis using expire_due_on_time [OF assms] by (simp add: expire_due_before_packet_def)
next
  case False
  then have "now < wake_at (rt_timer rt)" by (simp add: is_due_def)
  with False assms show ?thesis by (force simp: on_time_def expire_due_before_packet_def)
qed


lemma changed_deadline_lower:
  assumes "k \<in> refreshed update" and "expiry_deadline_for s k = Some d"
  obtains c where "next_changed_expiry_deadline update s = Some c" and "c \<le> d"
proof (cases update)
  case (NasSessionsMarkedStale nas reset n newly all_keys)
  with assms have "d \<in> set (List.map_filter (expiry_deadline_for s) newly)"
    by (force simp: refreshed_def set_map_filter_iff)
  then show ?thesis using that NasSessionsMarkedStale min_instant_lower by (auto simp: next_changed_expiry_deadline_def)
qed (use assms that in \<open>auto simp: refreshed_def next_changed_expiry_deadline_def\<close>)

lemma schedule_lower:
  "wake_at (schedule_after_update s update now timer) \<le> wake_at timer"
  "next_changed_expiry_deadline update s = Some c \<Longrightarrow> wake_at (schedule_after_update s update now timer) \<le> c"
  by (auto simp: schedule_after_update_def Let_def split: option.splits)

text \<open>A session an event does not refresh keeps its state, up to the reason it is stale for.\<close>

lemma kept_duration:
  assumes "states_after update old new" and "k \<notin> refreshed update" and "new k = Some state"
  shows "\<exists>state'. old k = Some state' \<and> expiry_duration_for state s = expiry_duration_for state' s"
proof (cases update)
  case (NasSessionsMarkedStale nas reset n newly all_keys)
  show ?thesis
  proof (cases "k \<in> set all_keys")
    case True
    with assms NasSessionsMarkedStale obtain r where "old k = Some (Stale r)" "state = Stale reset"
      by (auto simp: states_after_def refreshed_def)
    then show ?thesis by (simp add: expiry_duration_for_def)
  qed (use assms NasSessionsMarkedStale in \<open>auto simp: states_after_def\<close>)
qed (use assms in \<open>auto simp: states_after_def refreshed_def split: if_splits\<close>)

lemma deadline_states:
  "expiry_deadline_for s k = Some d \<longleftrightarrow> (\<exists>state updated_at. states (ra_store s) k = Some state
     \<and> map_of (ra_updated_at s) k = Some updated_at \<and> d = updated_at + expiry_duration_for state s)"
  by (auto simp: expiry_deadline_for_def states_def bind_eq_Some_conv)

lemma handle_event_on_time:
  assumes ot: "on_time now rt" and live: "\<not> rt_stopped rt"
  shows "on_time now (handle_accounting_event h event now rt)"
proof -
  obtain update s' intents where ap: "apply_event_with_command_sink h event now (rt_sessions rt) = (update, s', intents)"
    by (cases "apply_event_with_command_sink h event now (rt_sessions rt)")
  let ?s = "rt_sessions rt" and ?timer = "schedule_after_update s' update now (rt_timer rt)"
  have pos: "0 < expiry_duration_for state ?s" for state
    using ot by (simp add: on_time_def expiry_duration_for_def split: AccountingSessionState.splits)
  have tr: "tracks ?s" and run: "run_inv (ra_store ?s, rt_intents rt)" using ot by (simp_all add: on_time_def)
  note eff = apply_event_effect [OF tr run ap]
  note dur = expiry_duration_for_cong [OF eff(3)]
  have "wake_at ?timer \<le> d \<and> now < d" if d: "expiry_deadline_for s' k = Some d" for k d
  proof -
    obtain state updated_at where st: "states (ra_store s') k = Some state"
      and up: "map_of (ra_updated_at s') k = Some updated_at" and deq: "d = updated_at + expiry_duration_for state ?s"
      using d by (auto simp: deadline_states dur)
    show ?thesis
    proof (cases "k \<in> refreshed update")
      case True
      with up have "updated_at = now" by (simp add: eff(5) restrict_map_def split: if_splits)
      moreover obtain c where "next_changed_expiry_deadline update s' = Some c" "c \<le> d"
        using changed_deadline_lower [OF True d] .
      ultimately show ?thesis using schedule_lower(2) [of update s' c now "rt_timer rt"] pos [of state] deq by simp
    next
      case False
      obtain state' where "states (ra_store ?s) k = Some state'" "expiry_duration_for state ?s = expiry_duration_for state' ?s"
        using kept_duration [OF eff(4) False st, of ?s] by blast
      moreover have "map_of (ra_updated_at ?s) k = Some updated_at"
        using up False by (simp add: eff(5) restrict_map_def split: if_splits)
      ultimately have "expiry_deadline_for ?s k = Some d" by (auto simp: deadline_states deq)
      then have "wake_at (rt_timer rt) \<le> d" "now < d" using ot live by (auto simp: on_time_def)
      then show ?thesis using schedule_lower(1) [of s' update now "rt_timer rt"] by simp
    qed
  qed
  then show ?thesis
    using ot eff(1-3) by (auto simp: on_time_def handle_accounting_event_def ap same_settings_def)
qed

text \<open>The packet counters are no part of the invariant.\<close>

lemma on_time_counters:
  assumes "on_time now rt" and "s = record_packet_accepted (rt_sessions rt) \<or> s = record_packet_rejected (rt_sessions rt)"
  shows "on_time now (rt\<lparr>rt_sessions := s\<rparr>)"
proof -
  have "ra_store s = ra_store (rt_sessions rt)" "ra_updated_at s = ra_updated_at (rt_sessions rt)"
    "ra_update_sequence_by_key s = ra_update_sequence_by_key (rt_sessions rt)"
    "ra_activation_diagnostics_by_key s = ra_activation_diagnostics_by_key (rt_sessions rt)"
    "ra_default_ttl s = ra_default_ttl (rt_sessions rt)" "ra_stale_grace s = ra_stale_grace (rt_sessions rt)"
    using assms(2) by (auto simp: record_packet_accepted_def record_packet_rejected_def)
  moreover from this have "expiry_deadline_for s = expiry_deadline_for (rt_sessions rt)"
    using expiry_duration_for_cong [of "rt_sessions rt" s]
    by (simp add: fun_eq_iff expiry_deadline_for_def same_settings_def)
  ultimately show ?thesis using assms(1) by (simp add: on_time_def tracks_def)
qed

lemma run_turn_on_time:
  fixes turn :: "'io Turn"
  assumes "on_time t rt" and "t \<le> turn_now turn"
  shows "on_time (turn_now turn) (run_turn h rt turn)"
proof (cases "rt_stopped rt")
  case True
  then show ?thesis using assms(1) by (simp add: run_turn_def on_time_def)
next
  case False
  show ?thesis
  proof (cases turn)
    case (TimerTurn now)
    then show ?thesis using False expire_due_on_time [OF assms(1)] by (simp add: run_turn_def)
  next
    case (ListenerTurn outcome now)
    let ?rt = "expire_due_before_packet now rt"
    have ot: "on_time now ?rt" using expire_before_packet_on_time [OF assms(1)] .
    have live: "\<not> rt_stopped ?rt"
      using False by (simp add: expire_due_before_packet_def expire_due_after_timer_wake_def case_prod_beta Let_def)
    have "on_time now (handle_listener_outcome h x now ?rt)" for x
      using on_time_counters [OF ot] live
      by (auto simp: handle_listener_outcome_def intro!: handle_event_on_time split: AccountingListenerOutcome.splits)
    moreover have "on_time now (?rt\<lparr>rt_stopped := True\<rparr>)" using ot by (simp add: on_time_def)
    ultimately show ?thesis using ot False by (simp add: run_turn_def ListenerTurn Let_def split: sum.splits)
  qed
qed

interpretation accounting_loop: timed_stepper "run_turn h" turn_now on_time for h
  by unfold_locales (rule run_turn_on_time)


text \<open>Runs of the loop from the start of the daemon.\<close>

definition accounting_run ::
  "(string \<Rightarrow> i64) \<Rightarrow> Duration \<Rightarrow> Duration \<Rightarrow> SessionRateProfile option \<Rightarrow> DynamicCircuitParent option
    \<Rightarrow> ShapedDevicesMacMatcher option \<Rightarrow> bool \<Rightarrow> bool \<Rightarrow> Instant \<Rightarrow> 'io Turn list \<Rightarrow> Runtime" where
  "accounting_run h ttl grace profile parent matcher by_username by_mac start turns =
     foldl (run_turn h) (start_runtime
       (new_with_fallback_and_identity_matcher ttl grace profile parent matcher by_username by_mac) start) turns"

lemma accounting_run_on_time:
  fixes turns :: "'io Turn list"
  assumes "0 < ttl" and "0 < grace" and "sorted (start # map turn_now turns)"
  shows "on_time (List.last (start # map turn_now turns))
    (accounting_run h ttl grace profile parent matcher by_username by_mac start turns)"
  unfolding accounting_run_def
proof (rule accounting_loop.run_inv [OF _ assms(3)])
  have "store_inv new_store" using new_store_inv by (simp add: run_inv_def)
  moreover have "st_sessions new_store = []" by (simp add: new_store_def)
  ultimately show "on_time start (start_runtime
       (new_with_fallback_and_identity_matcher ttl grace profile parent matcher by_username by_mac) start)"
    using assms(1,2) new_store_inv
    by (simp add: on_time_def start_runtime_def new_with_fallback_and_identity_matcher_def tracks_def
        expiry_deadline_for_def dom_states)
qed

text \<open>
  C3. No session outlives its deadline. In every run of the accounting loop, whatever packets and
  wake-ups come, in the order of their times: each retained session has an update time, its deadline
  is that time plus the default lifetime, or plus the grace period when it is stale; the timer is
  never set past a deadline; and as long as the loop runs, every deadline of a session retained after
  a turn is later than that turn. The circuits that the run's
  intents created and have not removed are all held by retained sessions.
\<close>

theorem no_session_outlives_deadline:
  fixes turns :: "'io Turn list"
  assumes "0 < ttl" and "0 < grace" and "sorted (start # map turn_now turns)"
    and "rt = accounting_run h ttl grace profile parent matcher by_username by_mac start turns"
  shows "(\<forall>k session. session_at (ra_store (rt_sessions rt)) k = Some session \<longrightarrow>
      (\<exists>updated_at deadline. map_of (ra_updated_at (rt_sessions rt)) k = Some updated_at
        \<and> deadline = updated_at + expiry_duration_for (as_state session) (rt_sessions rt)
        \<and> wake_at (rt_timer rt) \<le> deadline
        \<and> (rt_stopped rt \<or> List.last (start # map turn_now turns) < deadline)))
    \<and> live_circuits (rt_intents rt) \<subseteq> owned_circuits (ra_store (rt_sessions rt))"
proof (intro conjI allI impI)
  have ot: "on_time (List.last (start # map turn_now turns)) rt"
    using accounting_run_on_time [OF assms(1-3)] assms(4) by simp
  then show "live_circuits (rt_intents rt) \<subseteq> owned_circuits (ra_store (rt_sessions rt))"
    by (simp add: on_time_def run_inv_def)
  fix k session assume s: "session_at (ra_store (rt_sessions rt)) k = Some session"
  then obtain updated_at where u: "map_of (ra_updated_at (rt_sessions rt)) k = Some updated_at"
    using ot tracks_updated [of "rt_sessions rt" k] by (fastforce simp: on_time_def)
  have "expiry_deadline_for (rt_sessions rt) k = Some (updated_at + expiry_duration_for (as_state session) (rt_sessions rt))"
    by (simp add: expiry_deadline_for_def s u)
  with u show "\<exists>updated_at deadline. map_of (ra_updated_at (rt_sessions rt)) k = Some updated_at
      \<and> deadline = updated_at + expiry_duration_for (as_state session) (rt_sessions rt)
      \<and> wake_at (rt_timer rt) \<le> deadline
      \<and> (rt_stopped rt \<or> List.last (start # map turn_now turns) < deadline)"
    using ot by (auto simp: on_time_def)
qed

text \<open>A session starts at 5, with a lifetime of 10, and a wake-up comes at 8.\<close>

definition sample_start :: "VerifiedAccountingRequest" where
  "sample_start = \<lparr>var_request = \<lparr>ar_packet = \<lparr>rp_code = AccountingRequestCode, rp_identifier = 1,
     rp_authenticator = replicate 16 0, rp_attributes = [\<lparr>ra_kind = 40, ra_value = [0, 0, 0, 1]\<rparr>,
     \<lparr>ra_kind = 44, ra_value = [115, 49]\<rparr>, \<lparr>ra_kind = 32, ra_value = [110, 49]\<rparr>]\<rparr>\<rparr>,
     var_has_message_authenticator = False\<rparr>"

definition sample_turns :: "unit Turn list" where
  "sample_turns = [ListenerTurn (Inr (Accepted \<lparr>rv_peer = \<lparr>sa_ip = V4 1, sa_port = 1813\<rparr>, rv_received_len = 32, rv_response_len = 20,
     rv_request = sample_start\<rparr>)) 5, TimerTurn 8]"

definition sample_run :: Runtime where
  "sample_run = accounting_run (\<lambda>_. 0) 10 20 None None None False True 1 sample_turns"

definition sample_key :: AccountingSessionKey where
  "sample_key = NasSession (Identifier ''n1'') ''s1''"

lemma sample_run_session:
  "map_option as_state (session_at (ra_store (rt_sessions sample_run)) sample_key) = Some Active
   \<and> map_of (ra_updated_at (rt_sessions sample_run)) sample_key = Some 5 \<and> \<not> rt_stopped sample_run
   \<and> ra_default_ttl (rt_sessions sample_run) = 10"
  by code_simp

lemma sample_turns_sorted: "sorted (1 # map turn_now sample_turns) \<and> List.last (1 # map turn_now sample_turns) = 8"
  by (simp add: sample_turns_def)

theorem no_session_outlives_deadline_witness:
  "wake_at (rt_timer sample_run) \<le> 15 \<and> (8 :: nat) < 15
   \<and> live_circuits (rt_intents sample_run) \<subseteq> owned_circuits (ra_store (rt_sessions sample_run))"
proof -
  obtain session where s: "session_at (ra_store (rt_sessions sample_run)) sample_key = Some session" "as_state session = Active"
    using sample_run_session by auto
  have "(\<exists>updated_at deadline. map_of (ra_updated_at (rt_sessions sample_run)) sample_key = Some updated_at
        \<and> deadline = updated_at + expiry_duration_for (as_state session) (rt_sessions sample_run)
        \<and> wake_at (rt_timer sample_run) \<le> deadline \<and> (rt_stopped sample_run \<or> 8 < deadline))
      \<and> live_circuits (rt_intents sample_run) \<subseteq> owned_circuits (ra_store (rt_sessions sample_run))"
    using no_session_outlives_deadline [of 10 20 1 sample_turns sample_run, OF _ _ _ sample_run_def]
      sample_turns_sorted s(1) by simp
  then show ?thesis using sample_run_session s(2) by (auto simp: expiry_duration_for_def)
qed

lemma sorted_expired_keys:
  assumes "tracks s"
  shows "sorted (map (\<lambda>k. (the (expiry_deadline_for s k), the (map_of (ra_update_sequence_by_key s) k))) (expired_keys s now))"
    and "distinct (expired_keys s now)"
proof -
  let ?due = "List.map_filter (due_session s now) (st_sessions (ra_store s))"
  let ?key = "\<lambda>(deadline :: Instant, update_sequence :: u64, _ :: AccountingSessionKey). (deadline, update_sequence)"
  have dk: "distinct_keys (st_sessions (ra_store s))" using tracks_distinct [OF assms] .
  have due: "the (expiry_deadline_for s k) = d \<and> the (map_of (ra_update_sequence_by_key s) k) = n"
    if x: "(d, n, k) \<in> set ?due" for d n k
  proof -
    obtain key session where in_: "(key, session) \<in> set (st_sessions (ra_store s))"
      and ds: "due_session s now (key, session) = Some (d, n, k)"
      using x by (auto simp: set_map_filter_iff)
    have "session_at (ra_store s) key = Some session"
      using dk in_ by (simp add: distinct_keys_def)
    then have "map_of (ra_update_sequence_by_key s) key \<noteq> None"
      using assms by (metis dom_states_iff domIff option.distinct(1) tracks_def)
    then show ?thesis
      using ds due_session_deadline [OF dk in_, of now] by (auto split: option.splits if_splits)
  qed
  have "map (\<lambda>k. (the (expiry_deadline_for s k), the (map_of (ra_update_sequence_by_key s) k))) (expired_keys s now)
      = map ?key (sort_key ?key ?due)"
    unfolding expired_keys_def using due by (auto simp: o_def)
  then show "sorted (map (\<lambda>k. (the (expiry_deadline_for s k), the (map_of (ra_update_sequence_by_key s) k))) (expired_keys s now))"
    by (simp del: map_map)
  have "map (\<lambda>(_, _, key). key) ?due = map fst (filter (\<lambda>x. due_session s now x \<noteq> None) (st_sessions (ra_store s)))"
    by (induction "st_sessions (ra_store s)" rule: list.induct)
       (auto simp: List.map_filter_def due_session_def Let_def split: option.splits if_splits)
  then have "distinct (map (\<lambda>(_, _, key). key) ?due)"
    using dk by (simp add: distinct_keys_def distinct_map_filter)
  moreover have "mset (expired_keys s now) = mset (map (\<lambda>(_, _, key). key) ?due)"
    by (simp add: expired_keys_def)
  ultimately show "distinct (expired_keys s now)" using mset_eq_imp_distinct_iff by blast
qed


text \<open>
  Expiry is exact, in every run of the accounting loop: at any later time it removes exactly
  the sessions whose deadlines have passed, each once and in the order of their deadlines (and of their updates
  when deadlines agree), counts them, and leaves every other session as it was; afterwards exactly the
  retained sessions have update times, places in the order of updates and diagnostics, and each
  diagnostic is that of the session as it is.
\<close>

lemma expiry_exact:
  fixes turns :: "'io Turn list"
  assumes "0 < ttl" and "0 < grace" and "sorted (start # map turn_now turns)"
    and "s = rt_sessions (accounting_run h ttl grace profile parent matcher by_username by_mac start turns)"
    and "expire_due_with_command_sink now s = (n, s', intents)"
    and "due = {k. \<exists>d. expiry_deadline_for s k = Some d \<and> d \<le> now}"
  shows "(\<forall>k. session_at (ra_store s') k = (if k \<in> due then None else session_at (ra_store s) k))
    \<and> n = card due \<and> set (expired_keys s now) = due \<and> distinct (expired_keys s now)
    \<and> sorted (map (\<lambda>k. (the (expiry_deadline_for s k), the (map_of (ra_update_sequence_by_key s) k))) (expired_keys s now))
    \<and> dom (map_of (ra_updated_at s')) = dom (map_of (st_sessions (ra_store s')))
    \<and> dom (map_of (ra_update_sequence_by_key s')) = dom (map_of (st_sessions (ra_store s')))
    \<and> (\<forall>k. map_of (ra_activation_diagnostics_by_key s') k
          = map_option (from_retained_session k) (session_at (ra_store s') k))"
proof -
  let ?rt = "accounting_run h ttl grace profile parent matcher by_username by_mac start turns"
  have "on_time (List.last (start # map turn_now turns)) ?rt" by (rule accounting_run_on_time [OF assms(1-3)])
  then have tr: "tracks s" and run: "run_inv (ra_store s, rt_intents ?rt)" by (simp_all add: on_time_def assms(4))
  note eff = expire_due_effect [OF tr run assms(5)]
  have "expiry_deadline_for s k = None \<Longrightarrow> session_at (ra_store s) k = None" for k
    using tracks_updated [OF tr, of k] by (auto simp: expiry_deadline_for_def bind_eq_None_conv)
  then have "\<forall>k. session_at (ra_store s') k = (if k \<in> due then None else session_at (ra_store s) k)"
    by (auto simp: eff(4) assms(6) split: option.splits)
  moreover have keys: "set (expired_keys s now) = due"
    using set_expired_keys [OF tracks_distinct [OF tr]] by (simp add: assms(6))
  moreover have "n = card due"
    using assms(5) keys distinct_card [OF sorted_expired_keys(2) [OF tr, of now]]
    by (simp add: expire_due_with_command_sink_def Let_def case_prod_beta)
  moreover have "tracks s'" by (rule eff(1))
  ultimately show ?thesis
    using sorted_expired_keys [OF tr, of now] by (simp add: tracks_def dom_states)
qed

end
