(* ===== verification/Application_Properties.thy ===== *)
theory Application_Properties
  imports Circuit_Application Runtime_Properties
begin

text \<open>
  Properties of the application of dynamic circuits, over every interleaving of the sink and the
  worker: who owns what is consistent, a circuit that one session installed is never overwritten
  or removed for another, and waiting removals are drained.
\<close>

section \<open>Consistency of the shared state\<close>

text \<open>Ownership: what only the worker writes.\<close>

definition owners :: "DynamicCircuitApplicationState \<Rightarrow> string \<Rightarrow> AccountingSessionKey set" where
  "owners s c = set (or_default (da_current_owners_by_circuit s c))"

definition retained_owners :: "DynamicCircuitApplicationState \<Rightarrow> string \<Rightarrow> AccountingSessionKey set" where
  "retained_owners s c = set (or_default (da_retained_owners_by_circuit s c))"

abbreviation auth :: "DynamicCircuitApplicationState \<Rightarrow> string \<rightharpoonup> AccountingSessionKey" where
  "auth s \<equiv> da_authoritative_session_by_circuit s"

abbreviation retained :: "DynamicCircuitApplicationState \<Rightarrow> DynamicCircuitOwnerKey \<rightharpoonup> RetainedDynamicCircuitUpsert" where
  "retained s \<equiv> da_retained_upserts_by_owner s"

text \<open>An upsert whose device is that of its circuit.\<close>

definition wf_upsert :: "DynamicCircuitUpsert \<Rightarrow> bool" where
  "wf_upsert u \<longleftrightarrow> sd_circuit_id (up_shaped_device u) = up_circuit_id u"

definition ownership_ok :: "DynamicCircuitApplicationState \<Rightarrow> bool" where
  "ownership_ok s \<longleftrightarrow>
     (\<forall>c k. auth s c = Some k \<longrightarrow> k \<in> owners s c)
     \<and> (\<forall>c. da_current_owners_by_circuit s c \<noteq> Some [] \<and> da_retained_owners_by_circuit s c \<noteq> Some [])
     \<and> (\<forall>c k. retained s (c, k) \<noteq> None \<longleftrightarrow> k \<in> retained_owners s c)
     \<and> (\<forall>c k r. retained s (c, k) = Some r \<longrightarrow> wf_upsert (ret_upsert r) \<and> up_circuit_id (ret_upsert r) = c
          \<and> up_session_key (ret_upsert r) = k \<and> k \<in> owners s c \<and> auth s c \<noteq> Some k)
     \<and> (\<forall>c k n. da_latest_applied_upsert_sequence_by_owner s (c, k) = Some n \<longrightarrow> k \<in> owners s c)"

definition same_ownership :: "DynamicCircuitApplicationState \<Rightarrow> DynamicCircuitApplicationState \<Rightarrow> bool" where
  "same_ownership s s' \<longleftrightarrow>
     da_current_owners_by_circuit s' = da_current_owners_by_circuit s \<and> auth s' = auth s
     \<and> retained s' = retained s \<and> da_retained_owners_by_circuit s' = da_retained_owners_by_circuit s
     \<and> da_latest_applied_upsert_sequence_by_owner s' = da_latest_applied_upsert_sequence_by_owner s"

lemma same_ownership_ok: "same_ownership s s' \<Longrightarrow> ownership_ok s' = ownership_ok s"
  by (simp add: same_ownership_def ownership_ok_def owners_def retained_owners_def)

text \<open>Removals that wait are in the order, diagnostics are bounded and exactly those of their order.\<close>

definition waiting_ok :: "DynamicCircuitApplicationState \<Rightarrow> bool" where
  "waiting_ok s \<longleftrightarrow>
     (\<forall>o' q. da_pending_removals_by_owner s o' = Some q \<longrightarrow> o' \<in> set (da_pending_removal_order s)
        \<and> (\<exists>r. qi_intent q = RemoveDynamicCircuit r \<and> o' = (rm_circuit_id r, rm_session_key r)))
     \<and> dom (da_application_diagnostics_by_owner s) = set (da_application_diagnostic_order s)
     \<and> distinct (da_application_diagnostic_order s)
     \<and> length (da_application_diagnostic_order s) \<le> RADIUS_APPLY_FAILED_DIAGNOSTIC_LIMIT"

lemma or_default_simps [simp]: "or_default None = []" "or_default (Some xs) = xs"
  by (simp_all add: or_default_def)

lemma set_push_limited: "0 < n \<Longrightarrow> x \<in> set (push_limited xs x n)"
  by (simp add: push_limited_def Let_def set_drop_subset drop_append)

lemma push_limited_subset: "set (push_limited xs x n) \<subseteq> insert x (set xs)"
  using set_drop_subset [of _ "xs @ [x]"] by (auto simp: push_limited_def Let_def)

lemma length_push_limited: "0 < n \<Longrightarrow> length (push_limited xs x n) \<le> n"
  by (simp add: push_limited_def Let_def)

lemma distinct_push_limited: "distinct xs \<Longrightarrow> x \<notin> set xs \<Longrightarrow> distinct (push_limited xs x n)"
  by (auto simp: push_limited_def Let_def simp del: drop_append)

section \<open>What the operations keep\<close>

lemma same_ownership_simps [simp]:
  "same_ownership s s"
  "same_ownership s (record_application_success ctx s)"
  "same_ownership s (record_application_failure ctx e s)"
  "same_ownership s (track_pending_upsert ctx n s)"
  "same_ownership s (track_deferred_removal_for_pending_upserts ctx n s)"
  "same_ownership s (clear_pending_upsert ctx n s)"
  "same_ownership s (record_pending_removal ctx q s)"
  "same_ownership s (snd (take_next_pending_removal s))"
  "same_ownership s (record_dynamic_circuit_application_result ctx r s)"
  by (auto simp: same_ownership_def record_application_success_def record_application_failure_def
      prune_application_diagnostics_to_order_def track_pending_upsert_def prune_deferred_removal_def
      track_deferred_removal_for_pending_upserts_def clear_pending_upsert_def record_pending_removal_def
      take_next_pending_removal_def record_dynamic_circuit_application_result_def Let_def case_prod_beta
      split: option.splits sum.splits)

lemma same_ownership_trans: "same_ownership s s' \<Longrightarrow> same_ownership s' s'' \<Longrightarrow> same_ownership s s''"
  by (simp add: same_ownership_def)

lemmas same_ownership_intros = same_ownership_simps(1) same_ownership_simps(2-9) [THEN same_ownership_trans [rotated]]

lemma emit_same_ownership:
  "same_ownership s (emit_track intent n s)" "same_ownership s (emit_failed reason q s)"
  by (auto simp: emit_track_def emit_failed_def Let_def intro!: same_ownership_intros)

lemma waiting_simps:
  "waiting_ok s \<Longrightarrow> waiting_ok (record_application_success ctx s)"
  "waiting_ok s \<Longrightarrow> waiting_ok (record_application_failure ctx e s)"
  "waiting_ok s \<Longrightarrow> waiting_ok (record_dynamic_circuit_application_result ctx r s)"
proof -
  show success: "waiting_ok (record_application_success ctx s)" if "waiting_ok s" for s
    using that by (auto simp: waiting_ok_def record_application_success_def Let_def dom_def
        intro: order_trans [OF length_filter_le] split: if_splits)
  show failure: "waiting_ok (record_application_failure ctx e s)" if ok: "waiting_ok s" for s e
  proof -
    let ?order = "push_limited (filter (\<lambda>o'. o' \<noteq> owner_key ctx) (da_application_diagnostic_order s)) (owner_key ctx)
      RADIUS_APPLY_FAILED_DIAGNOSTIC_LIMIT"
    have "set ?order \<subseteq> insert (owner_key ctx) (set (da_application_diagnostic_order s))"
      using push_limited_subset by fastforce
    moreover have "distinct ?order" using ok by (intro distinct_push_limited) (auto simp: waiting_ok_def)
    moreover have "length ?order \<le> RADIUS_APPLY_FAILED_DIAGNOSTIC_LIMIT"
      by (rule length_push_limited) (simp add: RADIUS_APPLY_FAILED_DIAGNOSTIC_LIMIT_def)
    moreover have "dom (da_application_diagnostics_by_owner s) = set (da_application_diagnostic_order s)"
      using ok by (simp add: waiting_ok_def)
    ultimately show ?thesis
      using ok by (auto simp: waiting_ok_def record_application_failure_def prune_application_diagnostics_to_order_def
          Let_def dom_def split: if_splits)
  qed
  show "waiting_ok (record_dynamic_circuit_application_result ctx r s)" if "waiting_ok s" for r
    using success [OF that] failure [OF that]
    by (simp add: record_dynamic_circuit_application_result_def split: sum.splits)
qed

lemma waiting_tracking:
  "waiting_ok s \<Longrightarrow> waiting_ok (track_pending_upsert ctx n s)"
  "waiting_ok s \<Longrightarrow> waiting_ok (track_deferred_removal_for_pending_upserts ctx n s)"
  "waiting_ok s \<Longrightarrow> waiting_ok (clear_pending_upsert ctx n s)"
  by (auto simp: waiting_ok_def track_pending_upsert_def track_deferred_removal_for_pending_upserts_def
      clear_pending_upsert_def prune_deferred_removal_def Let_def split: option.splits)

lemma waiting_record_pending:
  assumes "waiting_ok s" and "qi_intent q = RemoveDynamicCircuit r" and "ctx = context_from_intent (qi_intent q)"
  shows "waiting_ok (record_pending_removal ctx q s)"
  using assms by (auto simp: waiting_ok_def record_pending_removal_def Let_def context_from_intent_def owner_key_def)

lemma waiting_emit:
  assumes "waiting_ok s"
  shows "waiting_ok (emit_track intent n s)" "waiting_ok (emit_failed reason q s)"
proof -
  show "waiting_ok (emit_track intent n s)"
    using assms by (simp add: emit_track_def Let_def waiting_tracking)
  show "waiting_ok (emit_failed reason q s)"
    using assms
    by (auto simp: emit_failed_def Let_def waiting_tracking waiting_simps is_removal_def
        split: DynamicCircuitIntent.splits intro!: waiting_record_pending)
qed

lemma take_pending_effect:
  assumes "take_pending order pending = (q, order', pending')" and "dom pending \<subseteq> set order"
  shows "dom pending' \<subseteq> set order' \<and> pending' \<subseteq>\<^sub>m pending
    \<and> (case q of None \<Rightarrow> pending' = Map.empty
       | Some x \<Rightarrow> x \<in> ran pending \<and> length order' < length order)"
  using assms
proof (induction order)
  case Nil
  then show ?case by auto
next
  case (Cons owner order)
  show ?case
  proof (cases "pending owner")
    case None
    then have "dom pending \<subseteq> set order" using Cons.prems(2) by auto
    then show ?thesis using Cons.IH Cons.prems(1) None by (auto split: option.splits)
  next
    case (Some x)
    then have "q = Some x" "order' = order" "pending' = pending(owner := None)" using Cons.prems(1) by auto
    moreover from this(3) have "dom pending' \<subseteq> set order" using Cons.prems(2) by auto
    moreover have "pending(owner := None) \<subseteq>\<^sub>m pending" by (simp add: map_le_def)
    ultimately show ?thesis using Some by (simp add: ranI del: fun_upd_apply)
  qed
qed

lemma waiting_take:
  assumes "waiting_ok s" and "take_next_pending_removal s = (q, s')"
  shows "waiting_ok s'" and "q = None \<Longrightarrow> da_pending_removals_by_owner s' = Map.empty"
    and "q = Some x \<Longrightarrow> is_removal (qi_intent x) \<and> length (da_pending_removal_order s') < length (da_pending_removal_order s)"
proof -
  obtain order pending where t: "take_pending (da_pending_removal_order s) (da_pending_removals_by_owner s) = (q, order, pending)"
    and s': "s' = s\<lparr>da_pending_removal_order := order, da_pending_removals_by_owner := pending\<rparr>"
    using assms(2) by (auto simp: take_next_pending_removal_def case_prod_beta Let_def prod_eq_iff)
  have "dom (da_pending_removals_by_owner s) \<subseteq> set (da_pending_removal_order s)"
    using assms(1) by (auto simp: waiting_ok_def)
  note eff = take_pending_effect [OF t this]
  have kept: "pending o' = Some x \<Longrightarrow> da_pending_removals_by_owner s o' = Some x \<and> o' \<in> set order" for o' x
    using eff by (metis (no_types, lifting) domI map_le_def subsetD)
  show "waiting_ok s'" using assms(1) kept unfolding waiting_ok_def s' by simp
  show "q = None \<Longrightarrow> da_pending_removals_by_owner s' = Map.empty" using eff by (simp add: s')
  show "q = Some x \<Longrightarrow> is_removal (qi_intent x) \<and> length (da_pending_removal_order s') < length (da_pending_removal_order s)"
  proof -
    assume q: "q = Some x"
    then obtain o' where "da_pending_removals_by_owner s o' = Some x" using eff by (auto simp: ran_def)
    then obtain r where "qi_intent x = RemoveDynamicCircuit r" using assms(1) unfolding waiting_ok_def by blast
    then show ?thesis using eff q by (simp add: s' is_removal_def)
  qed
qed


section \<open>Ownership\<close>

lemma removeAll_empty: "removeAll x xs = [] \<longleftrightarrow> set xs \<subseteq> {x}"
  by (auto simp: removeAll_filter_not_eq filter_empty_conv)

lemma push_unique_ne [simp]: "push_unique x xs \<noteq> []"
  by (metis insert_not_empty set_empty set_push_unique)

lemma remove_retained_effect:
  assumes "s' = remove_retained_upsert (c, k) s"
  shows "da_current_owners_by_circuit s' = da_current_owners_by_circuit s" "auth s' = auth s"
    "da_latest_applied_upsert_sequence_by_owner s' = da_latest_applied_upsert_sequence_by_owner s"
    "retained s' = (retained s)((c, k) := None)"
    "retained_owners s' c' = (if c' = c then retained_owners s c - {k} else retained_owners s c')"
    "da_retained_owners_by_circuit s c' \<noteq> Some [] \<Longrightarrow> da_retained_owners_by_circuit s' c' \<noteq> Some []"
  using assms
  by (auto simp: remove_retained_upsert_def retained_owners_def Let_def removeAll_empty split: option.splits if_splits)

lemma record_upsert_owner_effect:
  assumes "s' = record_upsert_owner ctx s" and "ctx_circuit_id ctx = c" and "ctx_session_key ctx = k"
  shows "owners s' c' = (if c' = c then insert k (owners s c) else owners s c')"
    "auth s' = (if auth s c = None then (auth s)(c \<mapsto> k) else auth s)"
    "da_latest_applied_upsert_sequence_by_owner s' = da_latest_applied_upsert_sequence_by_owner s"
    "retained s' = (retained s)((c, k) := None)"
    "retained_owners s' c' = (if c' = c then retained_owners s c - {k} else retained_owners s c')"
    "da_current_owners_by_circuit s c' \<noteq> Some [] \<Longrightarrow> da_current_owners_by_circuit s' c' \<noteq> Some []"
    "da_retained_owners_by_circuit s c' \<noteq> Some [] \<Longrightarrow> da_retained_owners_by_circuit s' c' \<noteq> Some []"
proof -
  note r = remove_retained_effect [OF refl, where c = c and k = k and s = s]
  have s': "s' = (let t = remove_retained_upsert (c, k) s in
      t\<lparr>da_current_owners_by_circuit := (da_current_owners_by_circuit t)
             (c \<mapsto> push_unique k (or_default (da_current_owners_by_circuit t c))),
        da_authoritative_session_by_circuit := (case auth t c of None \<Rightarrow> (auth t)(c \<mapsto> k) | Some _ \<Rightarrow> auth t)\<rparr>)"
    using assms by (simp add: record_upsert_owner_def owner_key_def Let_def)
  show "owners s' c' = (if c' = c then insert k (owners s c) else owners s c')"
    "auth s' = (if auth s c = None then (auth s)(c \<mapsto> k) else auth s)"
    "da_latest_applied_upsert_sequence_by_owner s' = da_latest_applied_upsert_sequence_by_owner s"
    "retained s' = (retained s)((c, k) := None)"
    "da_retained_owners_by_circuit s c' \<noteq> Some [] \<Longrightarrow> da_retained_owners_by_circuit s' c' \<noteq> Some []"
    using r by (auto simp: s' Let_def owners_def split: option.splits)
  show "retained_owners s' c' = (if c' = c then retained_owners s c - {k} else retained_owners s c')"
    using r(5) [of c'] by (simp add: s' Let_def retained_owners_def)
  show "da_current_owners_by_circuit s c' \<noteq> Some [] \<Longrightarrow> da_current_owners_by_circuit s' c' \<noteq> Some []"
    using r(1) by (auto simp: s' Let_def split: if_splits)
qed

lemma release_owner_effect:
  assumes "s' = release_owner ctx s" and "ctx_circuit_id ctx = c" and "ctx_session_key ctx = k"
  shows "owners s' c' = (if c' = c then owners s c - {k} else owners s c')"
    "auth s' = (if auth s c = Some k \<or> owners s c \<subseteq> {k} then (auth s)(c := None) else auth s)"
    "da_latest_applied_upsert_sequence_by_owner s' = (da_latest_applied_upsert_sequence_by_owner s)((c, k) := None)"
    "retained s' = (retained s)((c, k) := None)"
    "retained_owners s' c' = (if c' = c then retained_owners s c - {k} else retained_owners s c')"
    "da_current_owners_by_circuit s c' \<noteq> Some [] \<Longrightarrow> da_current_owners_by_circuit s' c' \<noteq> Some []"
    "da_retained_owners_by_circuit s c' \<noteq> Some [] \<Longrightarrow> da_retained_owners_by_circuit s' c' \<noteq> Some []"
proof -
  let ?t = "record_application_success ctx s"
  have t: "da_current_owners_by_circuit ?t = da_current_owners_by_circuit s" "auth ?t = auth s" "retained ?t = retained s"
    "da_retained_owners_by_circuit ?t = da_retained_owners_by_circuit s"
    "da_latest_applied_upsert_sequence_by_owner ?t = da_latest_applied_upsert_sequence_by_owner s"
    using same_ownership_simps(2) [of s ctx] by (simp_all add: same_ownership_def)
  note r = remove_retained_effect [OF refl, where c = c and k = k and s = ?t, unfolded t]
  have ro: "retained_owners ?t = retained_owners s" by (simp add: fun_eq_iff retained_owners_def t)
  define u where "u = remove_retained_upsert (c, k) ?t"
  define ks where "ks = removeAll k (or_default (da_current_owners_by_circuit s c))"
  have ks: "ks = [] \<longleftrightarrow> owners s c \<subseteq> {k}" "set ks = owners s c - {k}"
    by (auto simp: ks_def owners_def removeAll_empty)
  have s': "da_current_owners_by_circuit s' = (da_current_owners_by_circuit s)(c := (if ks = [] then None else Some ks))"
    "auth s' = (if auth s c = Some k \<or> ks = [] then (auth s)(c := None) else auth s)"
    "da_latest_applied_upsert_sequence_by_owner s' = (da_latest_applied_upsert_sequence_by_owner s)((c, k) := None)"
    "retained s' = retained u" "da_retained_owners_by_circuit s' = da_retained_owners_by_circuit u"
    using r(1-3) unfolding assms release_owner_def
    by (auto simp: Let_def owner_key_def assms(2,3) ks_def u_def t fun_eq_iff split: option.splits)
  show "owners s' c' = (if c' = c then owners s c - {k} else owners s c')"
    using ks by (auto simp: owners_def s')
  show "auth s' = (if auth s c = Some k \<or> owners s c \<subseteq> {k} then (auth s)(c := None) else auth s)"
    by (simp add: s' ks)
  show "da_latest_applied_upsert_sequence_by_owner s' = (da_latest_applied_upsert_sequence_by_owner s)((c, k) := None)"
    "retained s' = (retained s)((c, k) := None)"
    by (simp_all add: s' u_def r)
  show "retained_owners s' c' = (if c' = c then retained_owners s c - {k} else retained_owners s c')"
    using r(5) [of c'] by (simp add: retained_owners_def [of s'] s' u_def retained_owners_def [symmetric] ro)
  show "da_current_owners_by_circuit s c' \<noteq> Some [] \<Longrightarrow> da_current_owners_by_circuit s' c' \<noteq> Some []"
    by (simp add: s')
  show "da_retained_owners_by_circuit s c' \<noteq> Some [] \<Longrightarrow> da_retained_owners_by_circuit s' c' \<noteq> Some []"
    using r(6) by (simp add: s' u_def)
qed


lemma ownership_release:
  assumes "ownership_ok s"
  shows "ownership_ok (release_owner ctx s)"
proof -
  obtain c k where ck: "ctx_circuit_id ctx = c" "ctx_session_key ctx = k" by blast
  note r = release_owner_effect [OF refl ck, where s = s]
  show ?thesis
    using assms unfolding ownership_ok_def r(1-5) by (intro conjI allI impI; (simp add: r(6,7); fail)?) (auto split: if_splits)
qed

lemma ownership_applied:
  assumes "ownership_ok s"
  shows "ownership_ok (record_applied_upsert ctx n s)"
proof -
  obtain c k where ck: "ctx_circuit_id ctx = c" "ctx_session_key ctx = k" by blast
  note r = record_upsert_owner_effect [OF refl ck, where s = s]
  define u where "u = record_upsert_owner ctx s"
  let ?s' = "record_applied_upsert ctx n s"
  have f: "owners ?s' = owners u" "auth ?s' = auth u" "retained ?s' = retained u" "retained_owners ?s' = retained_owners u"
    "da_current_owners_by_circuit ?s' = da_current_owners_by_circuit u"
    "da_retained_owners_by_circuit ?s' = da_retained_owners_by_circuit u"
    "da_latest_applied_upsert_sequence_by_owner ?s' = (da_latest_applied_upsert_sequence_by_owner s)((c, k) \<mapsto> n)"
    by (simp_all add: record_applied_upsert_def u_def owners_def retained_owners_def fun_eq_iff Let_def owner_key_def r ck)
  show ?thesis
    using assms unfolding ownership_ok_def f u_def r(1-5)
    by (intro conjI allI impI; (simp add: r(6,7); fail)?) (auto split: if_splits)
qed

lemma ownership_retained:
  assumes ok: "ownership_ok s" and auth: "auth s (ctx_circuit_id ctx) = Some k'" "k' \<noteq> ctx_session_key ctx"
    and upsert: "wf_upsert upsert" "up_circuit_id upsert = ctx_circuit_id ctx" "up_session_key upsert = ctx_session_key ctx"
  shows "ownership_ok (retain_upsert ctx n upsert s)" "auth (retain_upsert ctx n upsert s) = auth s"
proof -
  obtain c k where ck: "ctx_circuit_id ctx = c" "ctx_session_key ctx = k" by blast
  note r = record_upsert_owner_effect [OF refl ck, where s = s]
  define u where "u = record_upsert_owner ctx s"
  let ?s' = "retain_upsert ctx n upsert s"
  have new: "retained ?s' = (retained s)((c, k) \<mapsto> \<lparr>ret_first_sequence = n, ret_upsert = upsert\<rparr>)"
    by (simp add: retain_upsert_def Let_def owner_key_def r ck)
  have ro: "retained_owners ?s' c' = (if c' = c then insert k (retained_owners s c) else retained_owners s c')" for c'
    using r(5) [of c'] by (auto simp: retain_upsert_def Let_def retained_owners_def owner_key_def ck)
  have f: "owners ?s' = owners u" "auth ?s' = auth u" "da_current_owners_by_circuit ?s' = da_current_owners_by_circuit u"
    "da_latest_applied_upsert_sequence_by_owner ?s' = da_latest_applied_upsert_sequence_by_owner u"
    by (simp_all add: retain_upsert_def u_def owners_def fun_eq_iff Let_def)
  have ne: "da_retained_owners_by_circuit ?s' c' \<noteq> Some []" if "da_retained_owners_by_circuit s c' \<noteq> Some []" for c'
    using r(7) [OF that] by (simp add: retain_upsert_def Let_def)
  show same: "auth ?s' = auth s" using auth(1) ck by (simp add: f(2) u_def r(2))
  show "ownership_ok ?s'"
    using ok auth upsert ck unfolding ownership_ok_def new ro same f(1,3,4) u_def r(1,3)
    by (intro conjI allI impI; (simp add: ne r(6); fail)?) (auto split: if_splits)
qed

lemma deferred_same_ownership:
  "same_ownership s (s\<lparr>da_deferred_removal_sequence_by_owner := d\<rparr>)"
  by (simp add: same_ownership_def)

lemma ownership_record_retained:
  assumes "ownership_ok s" and "auth s (ctx_circuit_id ctx) = Some k'" "k' \<noteq> ctx_session_key ctx"
    and "wf_upsert upsert" "up_circuit_id upsert = ctx_circuit_id ctx" "up_session_key upsert = ctx_session_key ctx"
  shows "ownership_ok (record_retained_upsert ctx n upsert s) \<and> auth (record_retained_upsert ctx n upsert s) = auth s"
proof -
  have "ownership_ok (s\<lparr>da_deferred_removal_sequence_by_owner := d\<rparr>)" for d
    using same_ownership_ok [OF deferred_same_ownership] assms(1) by blast
  then show ?thesis
    using assms ownership_retained [OF assms] ownership_retained [OF _ _ assms(3-6)]
    by (simp add: record_retained_upsert_def Let_def split: option.splits)
qed

lemma waiting_core:
  assumes "waiting_ok s"
  shows "waiting_ok (record_applied_upsert ctx n s)" "waiting_ok (record_retained_upsert ctx n upsert s)"
    "waiting_ok (release_owner ctx s)"
proof -
  have fields: "waiting_ok s \<longleftrightarrow> waiting_ok s'"
    if "da_pending_removals_by_owner s' = da_pending_removals_by_owner s" "da_pending_removal_order s' = da_pending_removal_order s"
      "da_application_diagnostics_by_owner s' = da_application_diagnostics_by_owner s"
      "da_application_diagnostic_order s' = da_application_diagnostic_order s" for s s'
    using that by (simp add: waiting_ok_def)
  have rem: "waiting_ok (remove_retained_upsert owner s) = waiting_ok s" for owner s
    by (rule fields [symmetric]; simp add: remove_retained_upsert_def Let_def split: option.splits)
  have own: "waiting_ok (record_upsert_owner ctx s) = waiting_ok s" for s
    using rem [of "owner_key ctx" s] by (simp add: record_upsert_owner_def Let_def waiting_ok_def)
  have ret: "waiting_ok (retain_upsert ctx n upsert s) = waiting_ok s" for s
    using own [of s] by (simp add: retain_upsert_def Let_def waiting_ok_def)
  have def_: "waiting_ok (s\<lparr>da_deferred_removal_sequence_by_owner := d\<rparr>) = waiting_ok s" for d
    by (simp add: waiting_ok_def)
  show "waiting_ok (record_applied_upsert ctx n s)"
    using own [of s] assms by (simp add: record_applied_upsert_def Let_def waiting_ok_def)
  show "waiting_ok (record_retained_upsert ctx n upsert s)"
    using assms by (simp add: record_retained_upsert_def Let_def ret def_ split: option.splits)
  have "waiting_ok (remove_retained_upsert (owner_key ctx) (record_application_success ctx s))"
    using assms by (simp add: rem waiting_simps)
  then show "waiting_ok (release_owner ctx s)"
    by (auto simp: release_owner_def Let_def waiting_ok_def split: option.splits)
qed


section \<open>What the bus is asked\<close>

text \<open>
  A request to the bus: for which session, taken over from which one if it is a promotion, and
  whether it took effect as far as the worker can tell.
\<close>

record BusEvent =
  be_session :: AccountingSessionKey
  be_from :: "AccountingSessionKey option"
  be_request :: BusRequest
  be_accepted :: bool

definition worker_events :: "BusOutcome \<Rightarrow> WorkerPc \<Rightarrow> BusEvent list" where
  "worker_events outcome pc = (let result = apply_dynamic_circuit_request outcome in case pc of
       UpsertRequest ctx n device \<Rightarrow> [\<lparr>be_session = ctx_session_key ctx, be_from = None, be_request = CreateRequest device,
         be_accepted = dynamic_circuit_upsert_result_records_success result\<rparr>]
     | RemovalRequest ctx c extra \<Rightarrow> [\<lparr>be_session = ctx_session_key ctx, be_from = None, be_request = RemoveRequest c,
         be_accepted = dynamic_circuit_removal_result_releases_owner result\<rparr>]
     | PromoteRequest ctx c r \<Rightarrow> [\<lparr>be_session = up_session_key (ret_upsert r), be_from = Some (ctx_session_key ctx),
         be_request = CreateRequest (up_shaped_device (ret_upsert r)),
         be_accepted = dynamic_circuit_upsert_result_records_success result\<rparr>]
     | _ \<Rightarrow> [])"

definition bus_events :: "Application \<Rightarrow> Move \<Rightarrow> BusEvent list" where
  "bus_events a m = (case m of
       WorkerMove outcome \<Rightarrow> if ap_closed a then [] else worker_events outcome (ap_worker a)
     | _ \<Rightarrow> [])"

text \<open>
  The abstract machine: which session's circuit is installed under each identifier. A session
  installs a circuit that nobody has or that is its own, removes its own only, and takes over
  the circuit of exactly the session that gives it up.
\<close>

definition install :: "(string \<rightharpoonup> AccountingSessionKey) \<Rightarrow> BusEvent \<Rightarrow> (string \<rightharpoonup> AccountingSessionKey)" where
  "install h e = (if \<not> be_accepted e then h else case be_request e of
       CreateRequest device \<Rightarrow> h(sd_circuit_id device \<mapsto> be_session e)
     | RemoveRequest c \<Rightarrow> h(c := None))"

definition lawful :: "(string \<rightharpoonup> AccountingSessionKey) \<Rightarrow> BusEvent \<Rightarrow> bool" where
  "lawful h e \<longleftrightarrow> (case be_request e of
       CreateRequest device \<Rightarrow>
         (case be_from e of
            None \<Rightarrow> h (sd_circuit_id device) = None \<or> h (sd_circuit_id device) = Some (be_session e)
          | Some previous \<Rightarrow> h (sd_circuit_id device) = Some previous \<and> previous \<noteq> be_session e)
     | RemoveRequest c \<Rightarrow> h c = Some (be_session e))"

fun lawful_trace :: "(string \<rightharpoonup> AccountingSessionKey) \<Rightarrow> BusEvent list \<Rightarrow> bool" where
  "lawful_trace h [] = True"
| "lawful_trace h (e # es) = (lawful h e \<and> lawful_trace (install h e) es)"

lemma lawful_trace_append: "lawful_trace h (es @ fs) \<longleftrightarrow> lawful_trace h es \<and> lawful_trace (foldl install h es) fs"
  by (induction es arbitrary: h) auto

text \<open>What holds where the worker is, of the state and of the installed circuits.\<close>

abbreviation circuit_free :: "DynamicCircuitApplicationState \<Rightarrow> DynamicCircuitApplicationContext \<Rightarrow> bool" where
  "circuit_free s ctx \<equiv> auth s (ctx_circuit_id ctx) = None \<or> auth s (ctx_circuit_id ctx) = Some (ctx_session_key ctx)"

abbreviation owns_circuit :: "DynamicCircuitApplicationState \<Rightarrow> DynamicCircuitApplicationContext \<Rightarrow> bool" where
  "owns_circuit s ctx \<equiv> auth s (ctx_circuit_id ctx) = Some (ctx_session_key ctx)"

abbreviation for_upsert :: "DynamicCircuitApplicationContext \<Rightarrow> DynamicCircuitUpsert \<Rightarrow> bool" where
  "for_upsert ctx u \<equiv> wf_upsert u \<and> up_circuit_id u = ctx_circuit_id ctx \<and> up_session_key u = ctx_session_key ctx"

definition successor :: "DynamicCircuitApplicationState \<Rightarrow> DynamicCircuitApplicationContext
    \<Rightarrow> RetainedDynamicCircuitUpsert \<Rightarrow> bool" where
  "successor s ctx r \<longleftrightarrow> wf_upsert (ret_upsert r) \<and> up_circuit_id (ret_upsert r) = ctx_circuit_id ctx
     \<and> up_session_key (ret_upsert r) \<noteq> ctx_session_key ctx"

definition pc_ok :: "WorkerPc \<Rightarrow> DynamicCircuitApplicationState \<Rightarrow> (string \<rightharpoonup> AccountingSessionKey) \<Rightarrow> bool" where
  "pc_ok pc s h \<longleftrightarrow> (case pc of
       UpsertCheck ctx n u \<Rightarrow> for_upsert ctx u \<and> h = auth s
     | UpsertShared ctx n u \<Rightarrow> for_upsert ctx u \<and> h = auth s
     | UpsertRequest ctx n d \<Rightarrow> sd_circuit_id d = ctx_circuit_id ctx \<and> circuit_free s ctx \<and> h = auth s
     | UpsertApplied ctx n r \<Rightarrow> circuit_free s ctx
         \<and> h = (if dynamic_circuit_upsert_result_records_success r
                then (auth s)(ctx_circuit_id ctx \<mapsto> ctx_session_key ctx) else auth s)
     | RemovalCheck ctx n rm \<Rightarrow> ctx_circuit_id ctx = rm_circuit_id rm \<and> h = auth s
     | RemovalDecide ctx c \<Rightarrow> ctx_circuit_id ctx = c \<and> h = auth s
     | RemovalRelease ctx \<Rightarrow> \<not> owns_circuit s ctx \<and> h = auth s
     | RemovalRequest ctx c extra \<Rightarrow> ctx_circuit_id ctx = c \<and> owns_circuit s ctx
         \<and> (\<forall>e. extra = Some e \<longrightarrow> ctx_circuit_id e = c \<and> ctx_session_key e \<noteq> ctx_session_key ctx) \<and> h = auth s
     | RemovalAnswered ctx r extra \<Rightarrow> owns_circuit s ctx
         \<and> (\<forall>e. extra = Some e \<longrightarrow> ctx_circuit_id e = ctx_circuit_id ctx \<and> ctx_session_key e \<noteq> ctx_session_key ctx)
         \<and> h = (if dynamic_circuit_removal_result_releases_owner r then (auth s)(ctx_circuit_id ctx := None) else auth s)
     | PromoteRequest ctx c r \<Rightarrow> ctx_circuit_id ctx = c \<and> owns_circuit s ctx \<and> successor s ctx r \<and> h = auth s
     | PromoteAnswered ctx c r result \<Rightarrow> ctx_circuit_id ctx = c \<and> owns_circuit s ctx \<and> successor s ctx r
         \<and> h = (if dynamic_circuit_upsert_result_records_success result
                then (auth s)(c \<mapsto> up_session_key (ret_upsert r)) else auth s)
     | _ \<Rightarrow> h = auth s)"

lemma pc_ok_cong: "auth s' = auth s \<Longrightarrow> pc_ok pc s' h = pc_ok pc s h"
  by (cases pc) (simp_all add: pc_ok_def successor_def)

lemma may_apply_free:
  assumes "ownership_ok s"
  shows "shared_upsert_may_apply ctx s \<longleftrightarrow> circuit_free s ctx"
proof -
  have own: "auth s c = Some k \<Longrightarrow> k \<in> owners s c" for c k using assms by (simp add: ownership_ok_def)
  show ?thesis
  proof (cases "da_current_owners_by_circuit s (ctx_circuit_id ctx)")
    case None
    then show ?thesis using own [of "ctx_circuit_id ctx"]
      by (cases "auth s (ctx_circuit_id ctx)") (auto simp: shared_upsert_may_apply_def owners_def)
  next
    case (Some ks)
    then show ?thesis using own [of "ctx_circuit_id ctx"]
      by (cases "auth s (ctx_circuit_id ctx)")
        (auto simp: shared_upsert_may_apply_def owners_def list_ex_iff)
  qed
qed

lemma min_by_sequence_in: "min_by_sequence rs = Some r \<Longrightarrow> r \<in> set rs"
  by (induction rs arbitrary: r) (auto split: option.splits if_splits)

lemma promotable_successor:
  assumes "ownership_ok s" and "promotable_retained_upsert ctx s = Some r"
  shows "successor s ctx r"
proof -
  obtain k where "k \<noteq> ctx_session_key ctx" "retained s (ctx_circuit_id ctx, k) = Some r"
    using assms(2) by (auto simp: promotable_retained_upsert_def set_map_filter dest!: min_by_sequence_in split: option.splits)
  then show ?thesis using assms(1) by (auto simp: ownership_ok_def successor_def)
qed


text \<open>The authority over a circuit after an upsert was applied, and after an owner was released.\<close>

lemma auth_applied: "circuit_free s ctx \<Longrightarrow>
    auth (record_applied_upsert ctx n s) = (auth s)(ctx_circuit_id ctx \<mapsto> ctx_session_key ctx)"
  using record_upsert_owner_effect(2) [OF refl refl refl, of ctx s]
  by (auto simp: record_applied_upsert_def Let_def)

lemma auth_release:
  assumes "ownership_ok s"
  shows "auth (release_owner ctx s) = (if owns_circuit s ctx then (auth s)(ctx_circuit_id ctx := None) else auth s)"
proof -
  have "owners s (ctx_circuit_id ctx) \<subseteq> {ctx_session_key ctx} \<Longrightarrow> circuit_free s ctx"
    using assms unfolding ownership_ok_def by (cases "auth s (ctx_circuit_id ctx)") auto
  then show ?thesis
    using release_owner_effect(2) [OF refl refl refl, of ctx s] by (auto simp: fun_upd_idem)
qed

lemma auth_same: "same_ownership s s' \<Longrightarrow> auth s' = auth s"
  by (simp add: same_ownership_def)

lemmas auth_kept [simp] = same_ownership_simps(2-9) [THEN auth_same]

lemma ownership_kept:
  "ownership_ok s \<Longrightarrow> ownership_ok (record_application_success ctx s)"
  "ownership_ok s \<Longrightarrow> ownership_ok (record_application_failure ctx e s)"
  "ownership_ok s \<Longrightarrow> ownership_ok (clear_pending_upsert ctx n s)"
  "ownership_ok s \<Longrightarrow> ownership_ok (record_dynamic_circuit_application_result ctx r s)"
  by (simp_all add: same_ownership_simps(2-9) [THEN same_ownership_ok])

lemmas state_ok_intros = ownership_kept ownership_release ownership_applied waiting_simps waiting_tracking waiting_core

lemma process_pc_ok:
  assumes "is_upsert (qi_intent q) \<Longrightarrow>
      (\<forall>u. qi_intent q = CreateDynamicCircuit u \<or> qi_intent q = UpdateDynamicCircuit u \<longrightarrow> wf_upsert u)"
    and "h = auth s"
  shows "pc_ok (process_dynamic_circuit_intent q) s h"
  using assms
  by (cases "qi_intent q") (simp_all add: process_dynamic_circuit_intent_def pc_ok_def context_from_intent_def
      context_from_upsert_def is_upsert_def Let_def)

definition step_ok :: "BusOutcome \<Rightarrow> WorkerPc \<Rightarrow> DynamicCircuitApplicationState \<Rightarrow> (string \<rightharpoonup> AccountingSessionKey) \<Rightarrow> bool" where
  "step_ok outcome pc s h \<longleftrightarrow> (case worker_step outcome pc s of (pc', s') \<Rightarrow>
     ownership_ok s' \<and> waiting_ok s' \<and> pc_ok pc' s' (foldl install h (worker_events outcome pc))
     \<and> lawful_trace h (worker_events outcome pc))"

lemma upsert_step_ok:
  assumes "ownership_ok s" and "waiting_ok s" and "pc_ok pc s h"
    and "pc = UpsertCheck ctx n u \<or> pc = UpsertShared ctx n u \<or> pc = UpsertRequest ctx n d \<or> pc = UpsertApplied ctx n r
      \<or> pc = UpsertResult ctx n r \<or> pc = UpsertClear ctx n"
  shows "step_ok outcome pc s h"
proof -
  have retain: "ownership_ok (record_retained_upsert ctx n u s) \<and> auth (record_retained_upsert ctx n u s) = auth s"
    if nf: "\<not> circuit_free s ctx" and "for_upsert ctx u"
  proof -
    obtain k where "auth s (ctx_circuit_id ctx) = Some k" "k \<noteq> ctx_session_key ctx"
      using nf by (cases "auth s (ctx_circuit_id ctx)") auto
    then show ?thesis using ownership_record_retained [OF assms(1)] that(2) by blast
  qed
  consider "pc = UpsertCheck ctx n u" | "pc = UpsertShared ctx n u" | "pc = UpsertRequest ctx n d"
    | "pc = UpsertApplied ctx n r" | "pc = UpsertResult ctx n r" | "pc = UpsertClear ctx n" using assms(4) by blast
  then show ?thesis
  proof cases
    case 2
    with assms retain show ?thesis
      by (auto simp: step_ok_def pc_ok_def worker_events_def may_apply_free wf_upsert_def waiting_core)
  next
    case 4
    with assms show ?thesis
      by (simp add: step_ok_def pc_ok_def worker_events_def state_ok_intros auth_applied)
  qed (use assms in \<open>simp_all add: step_ok_def pc_ok_def worker_events_def state_ok_intros install_def lawful_def\<close>)
qed

lemma removal_step_ok:
  assumes "ownership_ok s" and "waiting_ok s" and "pc_ok pc s h"
    and "pc = RemovalCheck ctx n rm \<or> pc = RemovalDecide ctx c \<or> pc = RemovalRelease ctx
      \<or> pc = RemovalRequest ctx c extra \<or> pc = RemovalAnswered ctx r extra \<or> pc = RemovalResult ctx r"
  shows "step_ok outcome pc s h"
proof -
  consider "pc = RemovalCheck ctx n rm" | "pc = RemovalDecide ctx c" | "pc = RemovalRelease ctx"
    | "pc = RemovalRequest ctx c extra" | "pc = RemovalAnswered ctx r extra" | "pc = RemovalResult ctx r"
    using assms(4) by blast
  then show ?thesis
  proof cases
    case 1
    have "removal_owner_context ctx (rm_reason rm) s = Some oc \<Longrightarrow> ctx_circuit_id oc = ctx_circuit_id ctx" for oc
      by (auto simp: removal_owner_context_def split: option.splits list.splits if_splits)
    with 1 assms show ?thesis
      by (auto simp: step_ok_def pc_ok_def worker_events_def state_ok_intros split: option.splits)
  next
    case 2
    with assms show ?thesis
      using promotable_successor [OF assms(1), of ctx]
      by (auto simp: step_ok_def pc_ok_def worker_events_def removal_action_def split: option.splits)
  next
    case 5
    have "ownership_ok (release_owner ctx s)" by (rule ownership_release [OF assms(1)])
    with 5 assms show ?thesis
      by (auto simp: step_ok_def pc_ok_def worker_events_def state_ok_intros auth_release Let_def split: option.splits)
  qed (use assms in \<open>auto simp: step_ok_def pc_ok_def worker_events_def state_ok_intros install_def lawful_def
      auth_release\<close>)
qed

lemma promote_step_ok:
  assumes "ownership_ok s" and "waiting_ok s" and "pc_ok pc s h"
    and "pc = PromoteRequest ctx c r \<or> pc = PromoteAnswered ctx c r result"
  shows "step_ok outcome pc s h"
  using assms(4)
proof
  assume pc: "pc = PromoteRequest ctx c r"
  with assms show ?thesis
    by (auto simp: step_ok_def pc_ok_def worker_events_def install_def lawful_def successor_def wf_upsert_def)
next
  assume pc: "pc = PromoteAnswered ctx c r result"
  let ?s = "release_owner ctx s" and ?p = "promoted_context r"
  have ok: "ownership_ok ?s" by (rule ownership_release [OF assms(1)])
  have p: "ctx_circuit_id ?p = c" "ctx_session_key ?p = up_session_key (ret_upsert r)"
    "up_session_key (ret_upsert r) \<noteq> ctx_session_key ctx" "ctx_circuit_id ctx = c" "owns_circuit s ctx"
    using assms(3) pc by (auto simp: pc_ok_def successor_def promoted_context_def context_from_upsert_def)
  have a: "auth ?s = (auth s)(c := None)" using p by (simp add: auth_release [OF assms(1)])
  then have "auth (record_applied_upsert ?p m ?s) = (auth s)(c \<mapsto> up_session_key (ret_upsert r))" for m
    using auth_applied [of ?s ?p m] p by simp
  with assms pc ok p show ?thesis
    by (auto simp: step_ok_def pc_ok_def worker_events_def state_ok_intros
        dynamic_circuit_upsert_result_records_success_def split: sum.splits)
qed


lemma worker_step_ok:
  assumes "ownership_ok s" and "waiting_ok s" and "pc_ok pc s h"
  shows "step_ok outcome pc s h"
proof (cases pc)
  case WorkerIdle
  then show ?thesis using assms by (simp add: step_ok_def worker_events_def pc_ok_def)
next
  case Drain
  obtain q s' where take: "take_next_pending_removal s = (q, s')" by (cases "take_next_pending_removal s")
  have own: "ownership_ok s'" "auth s' = auth s"
    using same_ownership_simps(8) [of s] assms(1) same_ownership_ok auth_same by (metis snd_conv take)+
  show ?thesis
  proof (cases q)
    case None
    then show ?thesis
      using own waiting_take(1) [OF assms(2) take] assms(3) Drain take
      by (simp add: step_ok_def worker_events_def pc_ok_def)
  next
    case (Some x)
    have "is_removal (qi_intent x)" using waiting_take(3) [OF assms(2) take Some] by simp
    then have "pc_ok (process_dynamic_circuit_intent x) s' h"
      using assms(3) Drain own(2)
      by (intro process_pc_ok) (auto simp: is_removal_def is_upsert_def pc_ok_def split: DynamicCircuitIntent.splits)
    then show ?thesis
      using own waiting_take(1) [OF assms(2) take] Drain take Some by (simp add: step_ok_def worker_events_def)
  qed
qed (use assms in \<open>blast intro: upsert_step_ok removal_step_ok promote_step_ok\<close>)+

section \<open>Runs\<close>

text \<open>The intents of the session store carry the device of their circuit.\<close>

definition wf_intent :: "DynamicCircuitIntent \<Rightarrow> bool" where
  "wf_intent intent \<longleftrightarrow> (case intent of
       CreateDynamicCircuit u \<Rightarrow> wf_upsert u | UpdateDynamicCircuit u \<Rightarrow> wf_upsert u | RemoveDynamicCircuit _ \<Rightarrow> True)"

definition application_ok :: "Application \<times> BusEvent list \<Rightarrow> bool" where
  "application_ok = (\<lambda>(a, trace).
     ownership_ok (ap_state a) \<and> waiting_ok (ap_state a)
     \<and> (\<forall>q \<in> set (ap_queue a). wf_intent (qi_intent q))
     \<and> (case ap_sink a of SinkQueue q \<Rightarrow> wf_intent (qi_intent q) | _ \<Rightarrow> True)
     \<and> pc_ok (ap_worker a) (ap_state a) (foldl install Map.empty trace) \<and> lawful_trace Map.empty trace)"

definition application_step :: "Application \<times> BusEvent list \<Rightarrow> Move \<Rightarrow> Application \<times> BusEvent list" where
  "application_step = (\<lambda>(a, trace) m. (move a m, trace @ bus_events a m))"

definition wf_move :: "Move \<Rightarrow> bool" where
  "wf_move m = (case m of Emit intent \<Rightarrow> wf_intent intent | _ \<Rightarrow> True)"

lemma wf_intent_upsert:
  "wf_intent (qi_intent q) \<Longrightarrow> qi_intent q = CreateDynamicCircuit u \<or> qi_intent q = UpdateDynamicCircuit u \<Longrightarrow> wf_upsert u"
  by (auto simp: wf_intent_def)

lemma application_step_ok:
  assumes "application_ok ar" and "wf_move m"
  shows "application_ok (application_step ar m)"
proof -
  obtain a trace where ar: "ar = (a, trace)" by (cases ar)
  let ?h = "foldl install Map.empty trace"
  have ok: "ownership_ok (ap_state a)" "waiting_ok (ap_state a)" "\<forall>q \<in> set (ap_queue a). wf_intent (qi_intent q)"
    "pc_ok (ap_worker a) (ap_state a) ?h" "lawful_trace Map.empty trace"
    using assms(1) by (simp_all add: ar application_ok_def)
  have sink: "same_ownership (ap_state a) s' \<Longrightarrow> ownership_ok s' \<and> pc_ok (ap_worker a) s' ?h" for s'
    using ok(1,4) same_ownership_ok auth_same pc_ok_cong by metis
  note emit = sink [OF emit_same_ownership(1)] sink [OF emit_same_ownership(2)] waiting_emit [OF ok(2)]
  show ?thesis
  proof (cases m)
    case (Emit intent)
    then show ?thesis
      using assms emit
      by (auto simp: ar application_ok_def application_step_def bus_events_def wf_move_def)
  next
    case SinkMove
    then show ?thesis
      using assms(1) emit
      by (auto simp: ar application_ok_def application_step_def bus_events_def sink_move_def
          try_queue_dynamic_circuit_intent_def split: SinkPc.splits)
  next
    case WorkerLost
    then show ?thesis using assms(1) by (simp add: ar application_ok_def application_step_def bus_events_def)
  next
    case (WorkerMove outcome)
    consider (none) "ap_closed a \<or> ap_worker a = WorkerIdle \<and> ap_queue a = []"
      | (recv) q queue where "\<not> ap_closed a" "ap_worker a = WorkerIdle" "ap_queue a = q # queue"
      | (step) "\<not> ap_closed a" "ap_worker a \<noteq> WorkerIdle" by (cases "ap_queue a") auto
    then show ?thesis
    proof cases
      case none
      then show ?thesis
        using assms(1) WorkerMove
        by (auto simp: ar application_ok_def application_step_def bus_events_def worker_move_def worker_events_def Let_def)
    next
      case recv
      have "pc_ok (process_dynamic_circuit_intent q) (ap_state a) ?h"
        using ok(3,4) recv wf_intent_upsert [of q] by (intro process_pc_ok) (auto simp: pc_ok_def)
      then show ?thesis
        using assms(1) WorkerMove recv
        by (simp add: ar application_ok_def application_step_def bus_events_def worker_move_def worker_events_def)
    next
      case step
      have "step_ok outcome (ap_worker a) (ap_state a) ?h" by (rule worker_step_ok [OF ok(1,2,4)])
      then show ?thesis
        using assms(1) WorkerMove step
        by (auto simp: ar application_ok_def application_step_def bus_events_def worker_move_def step_ok_def
            lawful_trace_append case_prod_beta)
    qed
  qed
qed

interpretation application: stepper "\<lambda>ar m. if wf_move m then application_step ar m else ar" application_ok
  by unfold_locales (simp add: application_step_ok)

definition application_run :: "usize \<Rightarrow> Move list \<Rightarrow> Application \<times> BusEvent list" where
  "application_run capacity moves = foldl application_step (new_with_capacity capacity, []) moves"

lemma new_application_ok: "application_ok (new_with_capacity capacity, [])"
  by (simp add: application_ok_def new_with_capacity_def ownership_ok_def waiting_ok_def owners_def retained_owners_def
      default_application_state_def pc_ok_def)

lemma application_run_ok:
  assumes "\<forall>m \<in> set moves. wf_move m"
  shows "application_ok (application_run capacity moves)"
proof -
  have "foldl (\<lambda>ar m. if wf_move m then application_step ar m else ar) ar moves = foldl application_step ar moves" for ar
    using assms by (induction moves arbitrary: ar) auto
  then show ?thesis
    using application.run_inv [OF new_application_ok, of capacity moves] by (simp add: application_run_def)
qed


text \<open>Every intent of the accounting loop carries the device of its circuit.\<close>

lemma wf_removals: "list_all wf_intent (map (removal_intent key reason) ids)"
  by (simp add: removal_intent_def wf_intent_def list_all_iff)

lemma wf_emitted: "list_all wf_intent (snd (emit_dynamic_circuit_intents update store))"
proof -
  have up: "list_all wf_intent (upsert_intent key s d)" for key s d
  proof (cases "status_type (as_latest_event s)")
    case (Some st)
    then show ?thesis by (cases st) (auto simp: upsert_intent_def wf_intent_def wf_upsert_def Let_def)
  qed (simp add: upsert_intent_def Let_def)
  have em: "list_all wf_intent (emitted_intents key s)" for key s
    by (simp add: emitted_intents_def up wf_removals split: option.splits)
  have active: "list_all wf_intent (snd (emit_active_session_intents key store))" for key
    using em emit_active_session_intents_eq [of store key]
    by (cases "session_at store key") (force simp: emit_active_session_intents_def)+
  have "list_all wf_intent (snd (emit_session_dynamic_circuit_intents key state store))" for key state
    by (simp add: emit_session_dynamic_circuit_intents_def emit_active_dynamic_circuit_removals_def
        emit_removals_intents case_prod_beta Let_def active wf_removals
        split: AccountingSessionState.splits option.splits)
  then show ?thesis by (simp add: emit_dynamic_circuit_intents_def split: AccountingSessionUpdate.splits)
qed

lemma wf_expired: "list_all wf_intent (snd (snd (expire_session_with_commands key store)))"
  by (simp add: expire_session_with_commands_def emit_active_dynamic_circuit_removals_def emit_removals_intents
      case_prod_beta Let_def wf_removals split: option.splits)

lemma wf_expire_due: "list_all wf_intent (snd (snd (expire_due_with_command_sink now s)))"
proof -
  have "list_all wf_intent (snd (foldl expire_one (s, intents) keys))" if "list_all wf_intent intents" for s intents keys
    using that
  proof (induction keys arbitrary: s intents)
    case (Cons key keys)
    obtain s1 intents1 where e: "expire_one (s, intents) key = (s1, intents1)" by (cases "expire_one (s, intents) key")
    have "list_all wf_intent intents1"
      using e Cons.prems wf_expired by (fastforce simp: expire_one_def case_prod_beta Let_def)
    then show ?case using Cons.IH by (simp add: e)
  qed simp
  from this [of "[]"] show ?thesis by (simp add: expire_due_with_command_sink_def case_prod_beta Let_def)
qed

lemma intents_after_wake:
  "rt_intents (expire_due_after_timer_wake now rt)
    = rt_intents rt @ snd (snd (expire_due_with_command_sink now (rt_sessions rt)))"
  by (simp add: expire_due_after_timer_wake_def case_prod_beta Let_def)

lemma intents_after_event:
  "\<exists>update store. rt_intents (handle_accounting_event h event now rt)
    = rt_intents rt @ snd (emit_dynamic_circuit_intents update store)"
  unfolding handle_accounting_event_def apply_event_with_command_sink_resolver apply_event_and_commands_def
    case_prod_beta Let_def by (intro exI) simp

lemma wf_turn:
  assumes "list_all wf_intent (rt_intents rt)"
  shows "list_all wf_intent (rt_intents (run_turn h rt turn))"
proof -
  let ?wf = "\<lambda>rt. list_all wf_intent (rt_intents rt)"
  have wake: "?wf (expire_due_after_timer_wake now rt)" if "?wf rt" for now rt
    using that wf_expire_due [of now "rt_sessions rt"] by (simp add: intents_after_wake)
  have event: "?wf (handle_accounting_event h event now rt)" if "?wf rt" for event now rt
  proof -
    obtain update store where "rt_intents (handle_accounting_event h event now rt)
        = rt_intents rt @ snd (emit_dynamic_circuit_intents update store)" using intents_after_event by blast
    then show ?thesis using that wf_emitted [of update store] by simp
  qed
  have "?wf (expire_due_before_packet now rt)" for now
    using assms wake by (simp add: expire_due_before_packet_def)
  moreover have "?wf (handle_listener_outcome h outcome now rt)" if "?wf rt" for outcome now rt
    using that event [of "rt\<lparr>rt_sessions := record_packet_accepted (rt_sessions rt)\<rparr>"]
    by (cases outcome) (simp_all add: handle_listener_outcome_def)
  ultimately show ?thesis
    using assms wake by (cases turn) (simp_all add: run_turn_def Let_def split: sum.splits)
qed

lemma accounting_intents_wf:
  "list_all wf_intent (rt_intents (accounting_run h ttl grace profile parent matcher by_username by_mac start turns))"
proof -
  have "list_all wf_intent (rt_intents rt) \<Longrightarrow> list_all wf_intent (rt_intents (foldl (run_turn h) rt turns))" for rt
  proof (induction turns arbitrary: rt)
    case (Cons turn turns)
    then show ?case using Cons.IH [OF wf_turn] by simp
  qed simp
  then show ?thesis unfolding accounting_run_def by (simp add: start_runtime_def)
qed


section \<open>Circuits are never taken from another session\<close>

text \<open>The worker has an answer it has not recorded yet.\<close>

definition answer_pending :: "WorkerPc \<Rightarrow> bool" where
  "answer_pending pc = (case pc of
     UpsertApplied _ _ _ \<Rightarrow> True | RemovalAnswered _ _ _ \<Rightarrow> True | PromoteAnswered _ _ _ _ \<Rightarrow> True | _ \<Rightarrow> False)"

lemma pc_ok_settled: "pc_ok pc s h \<Longrightarrow> \<not> answer_pending pc \<Longrightarrow> h = auth s"
  by (cases pc) (simp_all add: pc_ok_def answer_pending_def)

text \<open>
  C13. What the worker asks of the bus is a run of the abstract machine of installed circuits. In every interleaving
  of sink and worker over intents of the accounting loop, whatever the bus answers or fails to, and
  however the queue fills: a session's request creates a circuit only where none is installed or its
  own is, a promotion takes over the circuit of exactly the session that gives it up, and a removal is
  only asked for the session whose circuit is installed. Between an answer and the next request the
  authoritative sessions are the installed ones, and each is among the owners of its circuit.
\<close>

theorem installed_circuits_lawful:
  fixes turns :: "'io Turn list"
  assumes "\<forall>i. Emit i \<in> set moves \<longrightarrow>
      i \<in> set (rt_intents (accounting_run h ttl grace profile parent matcher by_username by_mac start turns))"
    and "application_run capacity moves = (a, trace)"
  shows "lawful_trace Map.empty trace
    \<and> (\<not> answer_pending (ap_worker a) \<longrightarrow>
        da_authoritative_session_by_circuit (ap_state a) = foldl install Map.empty trace)
    \<and> (\<forall>c k. da_authoritative_session_by_circuit (ap_state a) c = Some k \<longrightarrow> k \<in> owners (ap_state a) c)"
proof -
  have "\<forall>m \<in> set moves. wf_move m"
    using assms(1) accounting_intents_wf [of h ttl grace profile parent matcher by_username by_mac start turns]
    by (auto simp: wf_move_def list_all_iff split: Move.splits)
  then have "application_ok (a, trace)" using application_run_ok assms(2) by metis
  then show ?thesis using pc_ok_settled by (auto simp: application_ok_def ownership_ok_def)
qed

section \<open>The worker drains\<close>

text \<open>How many steps the worker takes to the end of its loop at most.\<close>

fun pc_rank :: "WorkerPc \<Rightarrow> nat" where
  "pc_rank WorkerIdle = 0"
| "pc_rank Drain = 1"
| "pc_rank (UpsertClear _ _) = 2"
| "pc_rank (UpsertResult _ _ _) = 3"
| "pc_rank (UpsertApplied _ _ _) = 4"
| "pc_rank (UpsertRequest _ _ _) = 5"
| "pc_rank (UpsertShared _ _ _) = 6"
| "pc_rank (UpsertCheck _ _ _) = 7"
| "pc_rank (RemovalRelease _) = 2"
| "pc_rank (RemovalResult _ _) = 2"
| "pc_rank (RemovalAnswered _ _ _) = 3"
| "pc_rank (RemovalRequest _ _ _) = 4"
| "pc_rank (PromoteAnswered _ _ _ _) = 5"
| "pc_rank (PromoteRequest _ _ _) = 6"
| "pc_rank (RemovalDecide _ _) = 7"
| "pc_rank (RemovalCheck _ _ _) = 8"

lemma rank_process: "0 < pc_rank (process_dynamic_circuit_intent q) \<and> pc_rank (process_dynamic_circuit_intent q) \<le> 8"
  by (cases "qi_intent q") (simp_all add: process_dynamic_circuit_intent_def Let_def)

lemma process_not_idle: "process_dynamic_circuit_intent q \<noteq> WorkerIdle"
  using rank_process [of q] by auto

lemma rank_idle: "pc_rank pc = 0 \<longleftrightarrow> pc = WorkerIdle"
  by (cases pc) simp_all

lemma order_kept [simp]:
  "da_pending_removal_order (record_application_success ctx s) = da_pending_removal_order s"
  "da_pending_removal_order (record_application_failure ctx e s) = da_pending_removal_order s"
  "da_pending_removal_order (record_dynamic_circuit_application_result ctx r s) = da_pending_removal_order s"
  "da_pending_removal_order (clear_pending_upsert ctx n s) = da_pending_removal_order s"
  "da_pending_removal_order (remove_retained_upsert owner s) = da_pending_removal_order s"
  by (auto simp: record_application_success_def record_application_failure_def prune_application_diagnostics_to_order_def
      record_dynamic_circuit_application_result_def clear_pending_upsert_def prune_deferred_removal_def
      remove_retained_upsert_def Let_def split: sum.splits option.splits)

lemma order_kept_core [simp]:
  "da_pending_removal_order (record_applied_upsert ctx n s) = da_pending_removal_order s"
  "da_pending_removal_order (record_retained_upsert ctx n u s) = da_pending_removal_order s"
  "da_pending_removal_order (release_owner ctx s) = da_pending_removal_order s"
  by (auto simp: record_applied_upsert_def record_retained_upsert_def retain_upsert_def record_upsert_owner_def
      release_owner_def Let_def split: option.splits)

lemma length_take_pending: "length (fst (snd (take_pending order pending))) \<le> length order"
  by (induction order) (auto split: option.splits)

text \<open>A step of the worker gets nearer to the end, and it ends only with no removal waiting.\<close>

lemma worker_step_progress:
  assumes "waiting_ok s" and "pc \<noteq> WorkerIdle" and "worker_step outcome pc s = (pc', s')"
  shows "10 * length (da_pending_removal_order s') + pc_rank pc' < 10 * length (da_pending_removal_order s) + pc_rank pc"
    and "pc' = WorkerIdle \<Longrightarrow> da_pending_removals_by_owner s' = Map.empty"
proof -
  have "10 * length (da_pending_removal_order s') + pc_rank pc' < 10 * length (da_pending_removal_order s) + pc_rank pc
      \<and> (pc' = WorkerIdle \<longrightarrow> da_pending_removals_by_owner s' = Map.empty)"
  proof (cases pc)
    case Drain
    obtain q s1 where take: "take_next_pending_removal s = (q, s1)" by (cases "take_next_pending_removal s")
    have order: "length (da_pending_removal_order s1) \<le> length (da_pending_removal_order s)"
      using take length_take_pending by (auto simp: take_next_pending_removal_def case_prod_beta Let_def)
    show ?thesis
    proof (cases q)
      case None
      then show ?thesis
        using Drain assms(3) take waiting_take(2) [OF assms(1) take] order by auto
    next
      case (Some x)
      then show ?thesis
        using Drain assms(3) take waiting_take(3) [OF assms(1) take Some] rank_process [of x] process_not_idle [of x]
        by simp
    qed
  qed (use assms in \<open>auto simp: Let_def split: if_splits option.splits DynamicCircuitRemovalAction.splits sum.splits\<close>)
  then show "10 * length (da_pending_removal_order s') + pc_rank pc' < 10 * length (da_pending_removal_order s) + pc_rank pc"
    and "pc' = WorkerIdle \<Longrightarrow> da_pending_removals_by_owner s' = Map.empty" by blast+
qed


definition work_left :: "Application \<Rightarrow> nat" where
  "work_left a = 10 * (length (ap_queue a) + length (da_pending_removal_order (ap_state a))) + pc_rank (ap_worker a)"

abbreviation resting :: "Application \<Rightarrow> bool" where
  "resting a \<equiv> ap_worker a = WorkerIdle \<and> ap_queue a = []"

lemma worker_move_progress:
  assumes "application_ok (a, trace)" and "\<not> ap_closed a" and "\<not> resting a"
  shows "work_left (worker_move outcome a) < work_left a"
    and "resting (worker_move outcome a) \<Longrightarrow> da_pending_removals_by_owner (ap_state (worker_move outcome a)) = Map.empty"
proof -
  have "work_left (worker_move outcome a) < work_left a \<and> (resting (worker_move outcome a) \<longrightarrow>
      da_pending_removals_by_owner (ap_state (worker_move outcome a)) = Map.empty)"
  proof (cases "ap_worker a = WorkerIdle")
    case True
    then obtain q queue where "ap_queue a = q # queue" using assms(3) by (cases "ap_queue a") auto
    then show ?thesis
      using True assms(2) rank_process [of q] process_not_idle [of q] by (simp add: worker_move_def work_left_def)
  next
    case False
    obtain pc s where step: "worker_step outcome (ap_worker a) (ap_state a) = (pc, s)"
      by (cases "worker_step outcome (ap_worker a) (ap_state a)")
    have "waiting_ok (ap_state a)" using assms(1) by (simp add: application_ok_def)
    from worker_step_progress [OF this False step] show ?thesis
      using False assms(2) by (simp add: worker_move_def work_left_def step)
  qed
  then show "work_left (worker_move outcome a) < work_left a"
    and "resting (worker_move outcome a) \<Longrightarrow> da_pending_removals_by_owner (ap_state (worker_move outcome a)) = Map.empty"
    by blast+
qed

lemma worker_move_rests: "resting a \<Longrightarrow> worker_move outcome a = a"
  by (simp add: worker_move_def)

lemma worker_moves_rest: "resting a \<Longrightarrow> foldl move a (map WorkerMove outcomes) = a"
  by (induction outcomes) (simp_all add: worker_move_rests)

lemma closed_worker_move: "ap_closed (worker_move outcome a) = ap_closed a"
  by (simp add: worker_move_def case_prod_beta Let_def split: list.splits)

lemma worker_moves_drain:
  assumes "application_ok (a, trace)" and "\<not> ap_closed a" and "work_left a \<le> length outcomes"
    and "\<not> resting a \<or> da_pending_removals_by_owner (ap_state a) = Map.empty"
  shows "resting (foldl move a (map WorkerMove outcomes))
    \<and> da_pending_removals_by_owner (ap_state (foldl move a (map WorkerMove outcomes))) = Map.empty"
  using assms
proof (induction outcomes arbitrary: a trace)
  case Nil
  then show ?case using rank_idle by (simp add: work_left_def)
next
  case (Cons outcome outcomes)
  show ?case
  proof (cases "resting a")
    case True
    then show ?thesis using Cons.prems(4) worker_moves_rest [of a] worker_move_rests [of a] by simp
  next
    case False
    note p = worker_move_progress [OF Cons.prems(1,2) False, of outcome]
    have "application_ok (application_step (a, trace) (WorkerMove outcome))"
      by (rule application_step_ok [OF Cons.prems(1)]) (simp add: wf_move_def)
    then have "application_ok (worker_move outcome a, trace @ bus_events a (WorkerMove outcome))"
      by (simp add: application_step_def)
    from Cons.IH [OF this] show ?thesis
      using p Cons.prems(2,3) closed_worker_move [of outcome a] by simp
  qed
qed

text \<open>
  C34. The worker terminates and leaves no removal behind. From every state that an interleaving of
  sink and worker reaches, when the worker has something to do and nothing more is emitted, it comes to rest within
  ten of its steps per queued intent and waiting removal and eight more, whatever the bus answers: then
  the queue is empty and no removal that found the queue full is still waiting.
\<close>

theorem worker_drains:
  fixes turns :: "'io Turn list"
  assumes "\<forall>i. Emit i \<in> set moves \<longrightarrow>
      i \<in> set (rt_intents (accounting_run h ttl grace profile parent matcher by_username by_mac start turns))"
    and "application_run capacity moves = (a, trace)"
    and "\<not> ap_closed a" and "ap_worker a \<noteq> WorkerIdle \<or> ap_queue a \<noteq> []"
    and "10 * (length (ap_queue a) + length (da_pending_removal_order (ap_state a))) + 8 \<le> length outcomes"
    and "b = foldl move a (map WorkerMove outcomes)"
  shows "ap_worker b = WorkerIdle \<and> ap_queue b = [] \<and> da_pending_removals_by_owner (ap_state b) = Map.empty"
proof -
  have "\<forall>m \<in> set moves. wf_move m"
    using assms(1) accounting_intents_wf [of h ttl grace profile parent matcher by_username by_mac start turns]
    by (auto simp: wf_move_def list_all_iff split: Move.splits)
  then have "application_ok (a, trace)" using application_run_ok assms(2) by metis
  moreover have "pc_rank pc \<le> 8" for pc by (cases pc) simp_all
  then have "work_left a \<le> length outcomes"
    using assms(5) by (meson add_left_mono order_trans work_left_def [THEN eq_refl])
  ultimately show ?thesis using worker_moves_drain [of a trace outcomes] assms(3,4,6) by auto
qed


section \<open>Concrete runs\<close>

text \<open>A subscriber with an address starts a session, and the circuit is applied.\<close>

definition shaped_start :: "VerifiedAccountingRequest" where
  "shaped_start = \<lparr>var_request = \<lparr>ar_packet = \<lparr>rp_code = AccountingRequestCode, rp_identifier = 1,
     rp_authenticator = replicate 16 0, rp_attributes = [\<lparr>ra_kind = 40, ra_value = [0, 0, 0, 1]\<rparr>,
     \<lparr>ra_kind = 44, ra_value = [115, 49]\<rparr>, \<lparr>ra_kind = 32, ra_value = [110, 49]\<rparr>,
     \<lparr>ra_kind = 8, ra_value = [10, 0, 0, 9]\<rparr>, \<lparr>ra_kind = 1, ra_value = [117]\<rparr>,
     \<lparr>ra_kind = 31, ra_value = [109, 49]\<rparr>]\<rparr>\<rparr>, var_has_message_authenticator = False\<rparr>"

definition shaped_turns :: "unit Turn list" where
  "shaped_turns = [ListenerTurn (Inr (Accepted \<lparr>rv_peer = \<lparr>sa_ip = V4 1, sa_port = 1813\<rparr>, rv_received_len = 54,
     rv_response_len = 20, rv_request = shaped_start\<rparr>)) 5]"

definition shaped_profile :: SessionRateProfile where
  "shaped_profile = \<lparr>srp_download_min_mbps = Fin 1, srp_upload_min_mbps = Fin 1,
     srp_download_max_mbps = Fin 1, srp_upload_max_mbps = Fin 1\<rparr>"

definition shaped_run :: Runtime where
  "shaped_run = accounting_run (\<lambda>_. 0) 10 20 (Some shaped_profile)
     (Some \<lparr>dp_parent_node = ''p'', dp_parent_node_id = None, dp_anchor_node_id = None\<rparr>) None False True 1 shaped_turns"

definition acks :: "nat \<Rightarrow> Move list" where
  "acks n = replicate n (WorkerMove (Answered [Ack]))"

definition shaped_moves :: "Move list" where
  "shaped_moves = [Emit (hd (rt_intents shaped_run)), SinkMove] @ acks 8"

definition shaped_circuit :: string where
  "shaped_circuit = ''radius:nas-id:6e31:username:75''"

lemma shaped_run_intent: "hd (rt_intents shaped_run) \<in> set (rt_intents shaped_run)"
proof -
  have "map intent_circuit_id (rt_intents shaped_run) = [shaped_circuit]" by code_simp
  then show ?thesis by (cases "rt_intents shaped_run") auto
qed

lemma shaped_moves_emitted: "Emit i \<in> set shaped_moves \<longrightarrow> i \<in> set (rt_intents shaped_run)"
  using shaped_run_intent by (auto simp: shaped_moves_def acks_def)

theorem installed_circuits_lawful_witness:
  "case application_run 4 shaped_moves of (a, trace) \<Rightarrow> lawful_trace Map.empty trace \<and> length trace = 1
     \<and> foldl install Map.empty trace shaped_circuit = Some sample_key"
proof -
  obtain a trace where run: "application_run 4 shaped_moves = (a, trace)" by (cases "application_run 4 shaped_moves")
  have "(case application_run 4 shaped_moves of (a, trace) \<Rightarrow> \<not> answer_pending (ap_worker a) \<and> length trace = 1
     \<and> auth (ap_state a) shaped_circuit = Some sample_key)" by code_simp
  then show ?thesis
    using installed_circuits_lawful [OF allI [OF shaped_moves_emitted [unfolded shaped_run_def]] run] by (simp add: run)
qed

theorem worker_drains_witness:
  "case application_run 4 (take 4 shaped_moves) of (a, trace) \<Rightarrow> resting (foldl move a (acks 8))"
proof -
  let ?moves = "take 4 shaped_moves"
  obtain a trace where run: "application_run 4 ?moves = (a, trace)" by (cases "application_run 4 ?moves")
  have emitted: "Emit i \<in> set ?moves \<longrightarrow> i \<in> set (rt_intents shaped_run)" for i
    using shaped_moves_emitted by (meson in_set_takeD)
  have "(case application_run 4 ?moves of (a, trace) \<Rightarrow> \<not> ap_closed a \<and> (case ap_worker a of WorkerIdle \<Rightarrow> False | _ \<Rightarrow> True)
     \<and> ap_queue a = [] \<and> da_pending_removal_order (ap_state a) = [])" by code_simp
  then have "\<not> ap_closed a" "ap_worker a \<noteq> WorkerIdle" "ap_queue a = []" "da_pending_removal_order (ap_state a) = []"
    by (auto simp: run)
  then show ?thesis
    using worker_drains [OF allI [OF emitted [unfolded shaped_run_def]] run, of "replicate 8 (Answered [Ack])", OF _ _ _ refl]
    by (simp add: run acks_def map_replicate)
qed

text \<open>
  A removal can be lost. With room for two intents in the queue: a session's circuit is installed,
  then removed and asked for again; while the worker takes that removal the queue fills up, and the
  session's last removal has to wait. When the first removal is done, the owner's waiting removal and
  the note that its upsert is to be dropped are discarded with it, so the upsert is applied. At the end nothing is
  left to do and the circuit of a session that asked for its removal stays installed.
\<close>

definition demo_upsert :: "string \<Rightarrow> DynamicCircuitUpsert" where
  "demo_upsert c = \<lparr>up_circuit_id = c, up_session_key = sample_key, up_event = from_verified sample_start,
     up_shaped_device = default_device\<lparr>sd_circuit_id := c\<rparr>\<rparr>"

definition demo_removal :: "string \<Rightarrow> DynamicCircuitRemoval" where
  "demo_removal c = \<lparr>rm_circuit_id = c, rm_session_key = sample_key, rm_reason = RemovalStop\<rparr>"

definition lost_removal_moves :: "Move list" where
  "lost_removal_moves =
     [Emit (CreateDynamicCircuit (demo_upsert ''a'')), SinkMove] @ acks 8
     @ [Emit (RemoveDynamicCircuit (demo_removal ''a'')), SinkMove,
        Emit (CreateDynamicCircuit (demo_upsert ''a'')), SinkMove] @ acks 1
     @ [Emit (CreateDynamicCircuit (demo_upsert ''b'')), SinkMove,
        Emit (RemoveDynamicCircuit (demo_removal ''a'')), SinkMove, SinkMove] @ acks 30"

lemma removal_lost:
  "case application_run 2 lost_removal_moves of (a, trace) \<Rightarrow>
     ap_queue a = [] \<and> (case ap_worker a of WorkerIdle \<Rightarrow> True | _ \<Rightarrow> False) \<and> (case ap_sink a of SinkIdle \<Rightarrow> True | _ \<Rightarrow> False)
     \<and> da_pending_removal_order (ap_state a) = []
     \<and> map_option (\<lambda>_. ()) (da_deferred_removal_sequence_by_owner (ap_state a) (''a'', sample_key)) = None
     \<and> auth (ap_state a) ''a'' = Some sample_key"
  by code_simp

text \<open>
  A removal can also wait with nobody to take it: the sink finds the queue full, and before it
  notes the removal the worker empties the queue and comes to rest.
\<close>

lemma removal_waits_at_rest:
  "case application_run 1 ([Emit (CreateDynamicCircuit (demo_upsert ''a'')), SinkMove] @ acks 8
      @ [Emit (CreateDynamicCircuit (demo_upsert ''b'')), SinkMove,
         Emit (RemoveDynamicCircuit (demo_removal ''a'')), SinkMove] @ acks 20 @ [SinkMove] @ acks 5) of (a, trace) \<Rightarrow>
     ap_queue a = [] \<and> (case ap_worker a of WorkerIdle \<Rightarrow> True | _ \<Rightarrow> False)
     \<and> da_pending_removal_order (ap_state a) = [(''a'', sample_key)] \<and> auth (ap_state a) ''a'' = Some sample_key"
  by code_simp

text \<open>
  The sequence kept with a retained upsert is that of its latest intent and not of its first:
  recording the owner drops the entry before it is looked up again.
\<close>

lemma retained_sequence_is_latest:
  "retained (retain_upsert ctx n upsert s) (owner_key ctx) = Some \<lparr>ret_first_sequence = n, ret_upsert = upsert\<rparr>"
  using record_upsert_owner_effect(4) [OF refl refl refl, of ctx s]
  by (simp add: retain_upsert_def Let_def owner_key_def)

end
