(* ===== verification/Qdisc_Handles.thy ===== *)
theory Qdisc_Handles
  imports Rust_Strings
begin

text \<open>
  Explicit qdisc handles of circuits (\<open>lqos_bakery/src/qdisc_handles.rs\<close>): the majors reserved
  by the multi-queue layout, the per-interface allocator with its two maps and its next candidate,
  and the state over all interfaces with retired handles. Loading takes the file as its JSON parser
  returns it; reading, writing and renaming the file are not modelled. Ordered and hash maps are
  association lists, handle sets are lists; where the code iterates an ordered map or set, the list
  is sorted first.
\<close>

section \<open>Reserved handles\<close>

abbreviation (input) MQ_ROOT_HANDLE_MAJOR :: u16 where "MQ_ROOT_HANDLE_MAJOR \<equiv> 0x7FFF"
abbreviation (input) PREFERRED_CIRCUIT_START :: u16 where "PREFERRED_CIRCUIT_START \<equiv> 0x9000"
abbreviation (input) MAX_DYNAMIC_HANDLE_MAJOR :: u16 where "MAX_DYNAMIC_HANDLE_MAJOR \<equiv> 0xFFFE"
abbreviation (input) INFRA_HANDLE_BASE :: u16 where "INFRA_HANDLE_BASE \<equiv> 0x2000"
abbreviation (input) QDISC_HANDLE_FILE_VERSION :: u32 where "QDISC_HANDLE_FILE_VERSION \<equiv> 1"

record MqDeviceLayout =
  mq_devices :: "(string \<times> u16 list) list"

datatype InfraQdiscSlot = PrimarySlot | DefaultSlot

definition infra_qdisc_handle :: "u16 \<Rightarrow> InfraQdiscSlot \<Rightarrow> u16" where
  "infra_qdisc_handle queue_major slot =
     (let base = saturating_add INFRA_HANDLE_BASE (saturating_mul queue_major 2)
      in case slot of
           PrimarySlot \<Rightarrow> base
         | DefaultSlot \<Rightarrow> saturating_add base 1)"

text \<open>\<open>devices.entry(name).or_default()\<close> and the loop that inserts one major per queue.\<close>

definition insert_majors :: "string \<Rightarrow> u16 list \<Rightarrow> (string \<times> u16 list) list \<Rightarrow> (string \<times> u16 list) list" where
  "insert_majors name majors devices =
     AList.update name
       (foldl (\<lambda>s m. push_unique m s) (case map_of devices name of Some s \<Rightarrow> s | None \<Rightarrow> []) majors) devices"

definition MqDeviceLayout_from_setup :: "string \<Rightarrow> string \<Rightarrow> nat \<Rightarrow> nat \<Rightarrow> MqDeviceLayout" where
  "MqDeviceLayout_from_setup isp internet queues_available stick_offset =
     (let devices = insert_majors isp (map (\<lambda>queue. word_of_nat (queue + 1)) [0..<queues_available]) [];
          devices = insert_majors internet
            (map (\<lambda>queue. word_of_nat (queue + stick_offset + 1)) [0..<queues_available]) devices
      in \<lparr>mq_devices = devices\<rparr>)"

definition reserved_handles :: "MqDeviceLayout \<Rightarrow> string \<Rightarrow> u16 list" where
  "reserved_handles layout interface =
     (let reserved = [MQ_ROOT_HANDLE_MAJOR, 0xFFFF] in
      case map_of (mq_devices layout) interface of
        None \<Rightarrow> reserved
      | Some majors \<Rightarrow>
          foldl (\<lambda>r major. push_unique (infra_qdisc_handle major DefaultSlot)
              (push_unique (infra_qdisc_handle major PrimarySlot) (push_unique major r))) reserved majors)"

section \<open>The allocator of one interface\<close>

record InterfaceHandleState =
  ih_circuits :: "(i64 \<times> u16) list"
  ih_owners :: "(u16 \<times> i64) list"
  ih_next_candidate :: u16

definition default_interface_state :: InterfaceHandleState where
  "default_interface_state =
     \<lparr>ih_circuits = [], ih_owners = [], ih_next_candidate = PREFERRED_CIRCUIT_START\<rparr>"

definition from_circuits :: "(i64 \<times> u16) list \<Rightarrow> InterfaceHandleState" where
  "from_circuits circuits =
     \<lparr>ih_circuits = circuits,
      ih_owners = foldl (\<lambda>owners (circuit_hash, handle). AList.update handle circuit_hash owners) []
        (sort_key fst circuits),
      ih_next_candidate = PREFERRED_CIRCUIT_START\<rparr>"

definition owner_of :: "InterfaceHandleState \<Rightarrow> u16 \<Rightarrow> i64 option" where
  "owner_of state handle = map_of (ih_owners state) handle"

definition advance_handle_candidate :: "u16 \<Rightarrow> u16" where
  "advance_handle_candidate handle = (if handle \<ge> MAX_DYNAMIC_HANDLE_MAJOR then 1 else handle + 1)"

definition note_reusable_handle :: "u16 \<Rightarrow> InterfaceHandleState \<Rightarrow> InterfaceHandleState" where
  "note_reusable_handle handle state =
     (if handle \<ge> PREFERRED_CIRCUIT_START \<or> ih_next_candidate state < PREFERRED_CIRCUIT_START
      then state\<lparr>ih_next_candidate := min (ih_next_candidate state) handle\<rparr>
      else if ih_circuits state = []
      then state\<lparr>ih_next_candidate := PREFERRED_CIRCUIT_START\<rparr>
      else state)"

definition handle_insert :: "i64 \<Rightarrow> u16 \<Rightarrow> InterfaceHandleState \<Rightarrow> InterfaceHandleState" where
  "handle_insert circuit_hash handle state =
     (let previous = map_of (ih_circuits state) circuit_hash;
          state = state\<lparr>ih_circuits := AList.update circuit_hash handle (ih_circuits state)\<rparr>;
          state = (case previous of
              Some previous \<Rightarrow>
                note_reusable_handle previous
                  (state\<lparr>ih_owners := AList.delete previous (ih_owners state)\<rparr>)
            | None \<Rightarrow> state);
          state = state\<lparr>ih_owners := AList.update handle circuit_hash (ih_owners state)\<rparr>
      in if ih_next_candidate state = handle
         then state\<lparr>ih_next_candidate := advance_handle_candidate handle\<rparr>
         else state)"

definition handle_remove :: "i64 \<Rightarrow> InterfaceHandleState \<Rightarrow> u16 option \<times> InterfaceHandleState" where
  "handle_remove circuit_hash state =
     (case map_of (ih_circuits state) circuit_hash of
        None \<Rightarrow> (None, state)
      | Some removed \<Rightarrow>
          (Some removed,
           note_reusable_handle removed
             (state\<lparr>ih_circuits := AList.delete circuit_hash (ih_circuits state),
                    ih_owners := AList.delete removed (ih_owners state)\<rparr>)))"

text \<open>The loop \<open>for handle in start..=end\<close>; the range is counted in naturals, so it ends.\<close>

definition handle_available :: "InterfaceHandleState \<Rightarrow> u16 list \<Rightarrow> u16 list option \<Rightarrow> u16 \<Rightarrow> bool" where
  "handle_available state reserved retired handle \<longleftrightarrow>
     handle \<notin> set reserved
     \<and> map_of (ih_owners state) handle = None
     \<and> \<not> (case retired of Some s \<Rightarrow> handle \<in> set s | None \<Rightarrow> False)"

function scan_handles :: "(u16 \<Rightarrow> bool) \<Rightarrow> nat \<Rightarrow> nat \<Rightarrow> u16 option" where
  "scan_handles available start end =
     (if start > end then None
      else if available (word_of_nat start) then Some (word_of_nat start)
      else scan_handles available (Suc start) end)"
  by pat_completeness auto
termination
  by (relation "measure (\<lambda>(_, start, end). Suc end - start)") auto

declare scan_handles.simps [simp del]

definition scan_available ::
  "InterfaceHandleState \<Rightarrow> u16 \<Rightarrow> u16 \<Rightarrow> u16 list \<Rightarrow> u16 list option \<Rightarrow> u16 option" where
  "scan_available state start end reserved retired =
     (if start > end then None
      else scan_handles (handle_available state reserved retired) (unat start) (unat end))"

definition next_free_handle ::
  "u16 list \<Rightarrow> u16 list option \<Rightarrow> InterfaceHandleState \<Rightarrow> u16 option \<times> InterfaceHandleState" where
  "next_free_handle reserved retired state =
     (let nc = ih_next_candidate state;
          found = (\<lambda>handle. (Some handle,
            state\<lparr>ih_next_candidate := advance_handle_candidate handle\<rparr>));
          low_end = saturating_sub PREFERRED_CIRCUIT_START 1;
          low_start = (if nc < PREFERRED_CIRCUIT_START then max nc 1 else 1)
      in case scan_available state nc MAX_DYNAMIC_HANDLE_MAJOR reserved retired of
           Some handle \<Rightarrow> found handle
         | None \<Rightarrow>
             (case (if nc > PREFERRED_CIRCUIT_START
                    then scan_available state PREFERRED_CIRCUIT_START (nc - 1) reserved retired
                    else None) of
                Some handle \<Rightarrow> found handle
              | None \<Rightarrow>
                  (case scan_available state low_start low_end reserved retired of
                     Some handle \<Rightarrow> found handle
                   | None \<Rightarrow>
                       (case (if low_start > 1
                              then scan_available state 1 (low_start - 1) reserved retired
                              else None) of
                          Some handle \<Rightarrow> found handle
                        | None \<Rightarrow> (None, state)))))"

section \<open>All interfaces\<close>

record QdiscHandleState =
  qh_interfaces :: "(string \<times> InterfaceHandleState) list"
  qh_retired_handles :: "(string \<times> u16 list) list"

definition default_handle_state :: QdiscHandleState where
  "default_handle_state = \<lparr>qh_interfaces = [], qh_retired_handles = []\<rparr>"

definition interface_state :: "QdiscHandleState \<Rightarrow> string \<Rightarrow> InterfaceHandleState" where
  "interface_state state interface =
     (case map_of (qh_interfaces state) interface of Some s \<Rightarrow> s | None \<Rightarrow> default_interface_state)"

text \<open>Loading: the file as parsed, or nothing when it is missing or unreadable.\<close>

record PersistedQdiscHandleState =
  pq_version :: u32
  pq_interfaces :: "(string \<times> (string \<times> u16) list) list"

text \<open>\<open>filter_map(|(hash, handle)| hash.parse::<i64>().ok().map(|h| (h, handle))).collect()\<close>\<close>

definition parse_circuits :: "(string \<times> u16) list \<Rightarrow> (i64 \<times> u16) list" where
  "parse_circuits entries =
     foldl (\<lambda>m (h, handle). AList.update h handle m) []
       (List.map_filter (\<lambda>(hash, handle). map_option (\<lambda>h. (h, handle)) (parse_i64 hash)) entries)"

definition load :: "PersistedQdiscHandleState option \<Rightarrow> QdiscHandleState" where
  "load file =
     (case file of
        None \<Rightarrow> default_handle_state
      | Some file \<Rightarrow>
          if pq_version file \<noteq> QDISC_HANDLE_FILE_VERSION then default_handle_state
          else \<lparr>qh_interfaces = map (\<lambda>(iface, circuits). (iface, from_circuits (parse_circuits circuits))) (pq_interfaces file),
                qh_retired_handles = []\<rparr>)"

definition persisted :: "QdiscHandleState \<Rightarrow> PersistedQdiscHandleState" where
  "persisted state =
     \<lparr>pq_version = QDISC_HANDLE_FILE_VERSION,
      pq_interfaces = map (\<lambda>(iface, s). (iface, map (\<lambda>(hash, handle). (show_i64 hash, handle)) (ih_circuits s)))
        (qh_interfaces state)\<rparr>"

fun clear_retired_loop ::
  "(string \<times> u16 list) list \<Rightarrow> (string \<times> InterfaceHandleState) list
    \<Rightarrow> (string \<times> InterfaceHandleState) list" where
  "clear_retired_loop [] interfaces = interfaces"
| "clear_retired_loop ((interface, retired) # rest) interfaces =
     clear_retired_loop rest
       (case map_of interfaces interface of
          None \<Rightarrow> interfaces
        | Some state \<Rightarrow>
            AList.update interface (foldl (\<lambda>s handle. note_reusable_handle handle s) state (sort retired)) interfaces)"

definition clear_retired_handles :: "QdiscHandleState \<Rightarrow> QdiscHandleState" where
  "clear_retired_handles state =
     \<lparr>qh_interfaces = clear_retired_loop (qh_retired_handles state) (qh_interfaces state),
      qh_retired_handles = []\<rparr>"

definition put_interface :: "string \<Rightarrow> InterfaceHandleState \<Rightarrow> QdiscHandleState \<Rightarrow> QdiscHandleState" where
  "put_interface interface s state =
     state\<lparr>qh_interfaces := AList.update interface s (qh_interfaces state)\<rparr>"

definition assign_circuit_handle ::
  "string \<Rightarrow> i64 \<Rightarrow> u16 list \<Rightarrow> QdiscHandleState \<Rightarrow> u16 option \<times> QdiscHandleState" where
  "assign_circuit_handle interface circuit_hash reserved state =
     (case (case Option.bind (map_of (qh_interfaces state) interface)
                  (\<lambda>s. map_of (ih_circuits s) circuit_hash) of
              Some existing \<Rightarrow>
                if existing \<notin> set reserved
                   \<and> Option.bind (map_of (qh_interfaces state) interface) (\<lambda>s. owner_of s existing)
                       = Some circuit_hash
                then Some existing else None
            | None \<Rightarrow> None) of
        Some existing \<Rightarrow> (Some existing, state)
      | None \<Rightarrow>
          let retired = map_of (qh_retired_handles state) interface;
              (next, s) = next_free_handle reserved retired (interface_state state interface)
          in (case next of
                None \<Rightarrow> (None, put_interface interface s state)
              | Some handle \<Rightarrow>
                  (Some handle, put_interface interface (handle_insert circuit_hash handle s) state)))"

definition rotate_circuit_handle ::
  "string \<Rightarrow> i64 \<Rightarrow> u16 list \<Rightarrow> QdiscHandleState \<Rightarrow> u16 option \<times> QdiscHandleState" where
  "rotate_circuit_handle interface circuit_hash reserved state =
     (let retired_handle = Option.bind (map_of (qh_interfaces state) interface)
            (\<lambda>s. map_of (ih_circuits s) circuit_hash);
          retired = map_of (qh_retired_handles state) interface;
          (next, s) = next_free_handle reserved retired (interface_state state interface)
      in case next of
           None \<Rightarrow> (None, put_interface interface s state)
         | Some handle \<Rightarrow>
             let state = (case retired_handle of
                   Some old \<Rightarrow> state\<lparr>qh_retired_handles := AList.update interface
                     (push_unique old (case retired of Some r \<Rightarrow> r | None \<Rightarrow> []))
                     (qh_retired_handles state)\<rparr>
                 | None \<Rightarrow> state)
             in (Some handle, put_interface interface (handle_insert circuit_hash handle s) state))"

definition release_circuit :: "string \<Rightarrow> i64 \<Rightarrow> QdiscHandleState \<Rightarrow> bool \<times> QdiscHandleState" where
  "release_circuit interface circuit_hash state =
     (case map_of (qh_interfaces state) interface of
        None \<Rightarrow> (False, state)
      | Some s \<Rightarrow>
          let (removed, s) = handle_remove circuit_hash s
          in (removed \<noteq> None, put_interface interface s state))"

text \<open>The calls that change the state, and one call.\<close>

datatype HandleCall =
    AssignCircuit string i64 "u16 list"
  | RotateCircuit string i64 "u16 list"
  | ReleaseCircuit string i64
  | ClearRetired

fun handle_step :: "QdiscHandleState \<Rightarrow> HandleCall \<Rightarrow> QdiscHandleState" where
  "handle_step state (AssignCircuit interface c reserved) = snd (assign_circuit_handle interface c reserved state)"
| "handle_step state (RotateCircuit interface c reserved) = snd (rotate_circuit_handle interface c reserved state)"
| "handle_step state (ReleaseCircuit interface c) = snd (release_circuit interface c state)"
| "handle_step state ClearRetired = clear_retired_handles state"

section \<open>Scanning\<close>

lemma scan_handles_Some:
  "scan_handles P a b = Some h \<Longrightarrow> \<exists>n. a \<le> n \<and> n \<le> b \<and> h = word_of_nat n \<and> P h"
proof (induction P a b rule: scan_handles.induct)
  case (1 P a b)
  show ?case
  proof (cases "a > b \<or> P (word_of_nat a)")
    case True
    with "1.prems" show ?thesis by (subst (asm) scan_handles.simps) (auto split: if_splits)
  next
    case False
    with "1.prems" have "scan_handles P (Suc a) b = Some h" by (subst (asm) scan_handles.simps) simp
    with "1.IH" False show ?thesis by (meson Suc_leD not_less)
  qed
qed

lemma scan_handles_None:
  "scan_handles P a b = None \<Longrightarrow> a \<le> n \<Longrightarrow> n \<le> b \<Longrightarrow> \<not> P (word_of_nat n)"
proof (induction P a b rule: scan_handles.induct)
  case (1 P a b)
  from "1.prems" have "\<not> P (word_of_nat a)" "scan_handles P (Suc a) b = None" "\<not> a > b"
    by (subst (asm) scan_handles.simps; auto split: if_splits)+
  with 1 show ?case by (cases "n = a") auto
qed

lemma scan_available_Some:
  assumes "scan_available s a b reserved retired = Some h"
  shows "handle_available s reserved retired h \<and> a \<le> h \<and> h \<le> b"
proof -
  obtain n where "unat a \<le> n" "n \<le> unat b" "h = word_of_nat n" "handle_available s reserved retired h"
    using assms scan_handles_Some by (fastforce simp: scan_available_def split: if_splits)
  moreover from this have "n < 65536" using unat_u16_less [of b] by linarith
  then have "unat h = n" using \<open>h = word_of_nat n\<close> by (simp add: unat_word_of_nat_u16)
  ultimately show ?thesis by (simp add: word_le_nat_alt)
qed

lemma scan_available_None:
  assumes "scan_available s a b reserved retired = None" and "a \<le> h" and "h \<le> b"
  shows "\<not> handle_available s reserved retired h"
proof -
  have "\<not> a > b" using assms(2,3) by auto
  then have "scan_handles (handle_available s reserved retired) (unat a) (unat b) = None"
    using assms(1) by (simp add: scan_available_def)
  then have "\<not> handle_available s reserved retired (word_of_nat (unat h))"
    by (rule scan_handles_None) (use assms in \<open>simp_all add: word_le_nat_alt\<close>)
  then show ?thesis by simp
qed

lemma nonzero_above: "a \<le> h \<Longrightarrow> a \<noteq> 0 \<Longrightarrow> h \<noteq> (0 :: u16)"
  by (auto simp: word_le_nat_alt unat_eq_0)

lemma next_free_handle_Some:
  assumes "next_free_handle reserved retired s = (Some h, s')"
  shows "handle_available s reserved retired h \<and> h \<le> 0xFFFE \<and> (h = 0 \<longrightarrow> ih_next_candidate s = 0)
    \<and> s' = s\<lparr>ih_next_candidate := advance_handle_candidate h\<rparr>"
proof -
  let ?nc = "ih_next_candidate s"
  let ?low = "if ?nc < 0x9000 then max ?nc 1 else 1"
  consider "scan_available s ?nc 0xFFFE reserved retired = Some h"
    | "?nc > 0x9000" "scan_available s 0x9000 (?nc - 1) reserved retired = Some h"
    | "scan_available s ?low (saturating_sub 0x9000 1) reserved retired = Some h"
    | "?low > 1" "scan_available s 1 (?low - 1) reserved retired = Some h"
    using assms by (auto simp: next_free_handle_def Let_def split: option.splits if_splits)
  then have "handle_available s reserved retired h \<and> h \<le> 0xFFFE \<and> (h = 0 \<longrightarrow> ?nc = 0)"
  proof cases
    case 1
    from scan_available_Some [OF this] show ?thesis by auto
  next
    case 2
    from scan_available_Some [OF 2(2)] have "handle_available s reserved retired h" "0x9000 \<le> h" "h \<le> ?nc - 1"
      by auto
    moreover have "?nc - 1 \<le> 0xFFFE"
    proof -
      have "unat (?nc - 1) = unat ?nc - 1"
        using 2(1) by (simp add: word_less_nat_alt unat_sub_if')
      then have "unat (?nc - 1) \<le> 65534" using unat_u16_less [of ?nc] by linarith
      then show ?thesis by (simp add: word_le_nat_alt)
    qed
    ultimately have "h \<le> 0xFFFE" by (blast intro: order_trans)
    moreover have "h \<noteq> 0" using \<open>0x9000 \<le> h\<close> by (rule nonzero_above) simp
    ultimately show ?thesis using \<open>handle_available s reserved retired h\<close> by blast
  next
    case 3
    from scan_available_Some [OF this] have "handle_available s reserved retired h" "?low \<le> h"
      "h \<le> saturating_sub 0x9000 1" by auto
    moreover have "saturating_sub 0x9000 1 \<le> (0xFFFE :: u16)" by (simp add: saturating_sub_def)
    moreover have "?low \<noteq> 0" by (auto simp: max_def)
    ultimately have "h \<le> 0xFFFE" by (blast intro: order_trans)
    moreover have "h \<noteq> 0" using \<open>?low \<le> h\<close> \<open>?low \<noteq> 0\<close> by (rule nonzero_above)
    ultimately show ?thesis using \<open>handle_available s reserved retired h\<close> by blast
  next
    case 4
    from scan_available_Some [OF 4(2)] have "handle_available s reserved retired h" "1 \<le> h" "h \<le> ?low - 1"
      by auto
    moreover have "?low - 1 \<le> 0xFFFE" using 4(1)
      by (simp add: word_le_nat_alt word_less_nat_alt unat_sub_if' max_def split: if_splits)
    ultimately have "h \<le> 0xFFFE" by (blast intro: order_trans)
    moreover have "h \<noteq> 0" using \<open>1 \<le> h\<close> by (rule nonzero_above) simp
    ultimately show ?thesis using \<open>handle_available s reserved retired h\<close> by blast
  qed
  moreover have "s' = s\<lparr>ih_next_candidate := advance_handle_candidate h\<rparr>"
    using assms by (auto simp: next_free_handle_def Let_def split: option.splits if_splits)
  ultimately show ?thesis by blast
qed

lemma next_free_handle_None:
  assumes "next_free_handle reserved retired s = (None, s')" and "1 \<le> h" and "h \<le> 0xFFFE"
  shows "\<not> handle_available s reserved retired h \<and> s' = s"
proof -
  let ?nc = "ih_next_candidate s"
  let ?low = "if ?nc < 0x9000 then max ?nc 1 else 1"
  have 1: "scan_available s ?nc 0xFFFE reserved retired = None"
    and 2: "?nc > 0x9000 \<Longrightarrow> scan_available s 0x9000 (?nc - 1) reserved retired = None"
    and 3: "scan_available s ?low (saturating_sub 0x9000 1) reserved retired = None"
    and 4: "?low > 1 \<Longrightarrow> scan_available s 1 (?low - 1) reserved retired = None"
    and s: "s' = s"
    using assms(1) by (auto simp: next_free_handle_def Let_def split: option.splits if_splits)
  have pred: "h < k \<Longrightarrow> h \<le> k - 1" for k :: u16
    by (simp add: word_le_nat_alt word_less_nat_alt unat_sub_if')
  have low_end: "saturating_sub 0x9000 1 = (0x8FFF :: u16)" by (simp add: saturating_sub_def)
  consider "?nc \<le> h" | "h < ?nc" "0x9000 \<le> h" | "?low \<le> h" "h < 0x9000" | "h < ?nc" "h < 0x9000" "h < ?low"
    by force
  then have "\<not> handle_available s reserved retired h"
  proof cases
    case 1
    then show ?thesis using scan_available_None [OF \<open>scan_available s ?nc 0xFFFE reserved retired = None\<close>] assms(3)
      by blast
  next
    case 2
    then have "?nc > 0x9000" by auto
    from scan_available_None [OF \<open>?nc > 0x9000 \<Longrightarrow> _\<close> [OF this] 2(2) pred [OF 2(1)]] show ?thesis .
  next
    case 3
    have "h \<le> saturating_sub 0x9000 1" using pred [OF 3(2)] by (simp add: low_end)
    from scan_available_None [OF \<open>scan_available s ?low _ reserved retired = None\<close> 3(1) this] show ?thesis .
  next
    case 4
    have "?low > 1" using 4(3) assms(2) by (auto dest: order.strict_trans1)
    from scan_available_None [OF \<open>?low > 1 \<Longrightarrow> _\<close> [OF this] assms(2) pred [OF 4(3)]] show ?thesis .
  qed
  with s show ?thesis by blast
qed

section \<open>The invariant of one interface\<close>

text \<open>The two maps are inverse to each other, every handle is in the dynamic range and the next
  candidate is never the invalid handle 0.\<close>

definition inverse_maps :: "('a \<rightharpoonup> 'b) \<Rightarrow> ('b \<rightharpoonup> 'a) \<Rightarrow> bool" where
  "inverse_maps m w \<longleftrightarrow> (\<forall>a b. m a = Some b \<longleftrightarrow> w b = Some a)"

definition dynamic_handle :: "u16 \<Rightarrow> bool" where
  "dynamic_handle h \<longleftrightarrow> h \<noteq> 0 \<and> h \<le> 0xFFFE"

definition interface_ok :: "InterfaceHandleState \<Rightarrow> bool" where
  "interface_ok s \<longleftrightarrow>
     inverse_maps (map_of (ih_circuits s)) (map_of (ih_owners s))
     \<and> (\<forall>h \<in> ran (map_of (ih_circuits s)). dynamic_handle h)
     \<and> ih_next_candidate s \<noteq> 0
     \<and> distinct_keys (ih_circuits s)"

lemma inverse_mapsD: "inverse_maps m w \<Longrightarrow> m a = Some b \<longleftrightarrow> w b = Some a"
  by (simp add: inverse_maps_def)

lemma inverse_maps_fresh:
  assumes "inverse_maps m w" and "m a = None" and "w b = None"
  shows "inverse_maps (m(a \<mapsto> b)) (w(b \<mapsto> a))"
proof -
  have "w y \<noteq> Some a" "m x \<noteq> Some b" for x y
    using assms by (metis inverse_mapsD option.distinct(1))+
  with assms(1) show ?thesis by (auto simp: inverse_maps_def)
qed

lemma inverse_maps_remove:
  "inverse_maps m w \<Longrightarrow> m a = Some b \<Longrightarrow> inverse_maps (m(a := None)) (w(b := None))"
  unfolding inverse_maps_def by (metis fun_upd_apply option.distinct(1) option.inject)

lemma inverse_maps_replace:
  assumes "inverse_maps m w" and "m a = Some b" and "w b' = None"
  shows "inverse_maps (m(a \<mapsto> b')) ((w(b := None))(b' \<mapsto> a))"
proof -
  from inverse_maps_remove [OF assms(1,2)] have "inverse_maps (m(a := None)) (w(b := None))" .
  from inverse_maps_fresh [OF this, of a b'] assms(3) show ?thesis by simp
qed

lemma interface_ok_default [simp]: "interface_ok default_interface_state"
  by (simp add: interface_ok_def default_interface_state_def inverse_maps_def)

lemma advance_handle_candidate_nonzero [simp]: "advance_handle_candidate h \<noteq> 0"
proof (cases "h \<ge> 0xFFFE")
  case False
  then have "unat (h + 1) = unat h + 1"
    by (simp add: word_le_nat_alt unat_word_ariths)
  then show ?thesis using False by (auto simp: advance_handle_candidate_def)
qed (simp add: advance_handle_candidate_def)

lemma note_reusable_handle_frame [simp]:
  "ih_circuits (note_reusable_handle h s) = ih_circuits s"
  "ih_owners (note_reusable_handle h s) = ih_owners s"
  by (simp_all add: note_reusable_handle_def)

lemma note_reusable_handle_nonzero:
  "h \<noteq> 0 \<Longrightarrow> ih_next_candidate s \<noteq> 0 \<Longrightarrow> ih_next_candidate (note_reusable_handle h s) \<noteq> 0"
  by (simp add: note_reusable_handle_def min_def)

lemma interface_ok_note_reusable:
  "h \<noteq> 0 \<Longrightarrow> interface_ok s \<Longrightarrow> interface_ok (note_reusable_handle h s)"
  by (simp add: interface_ok_def note_reusable_handle_nonzero)

lemma handle_insert_circuits:
  "map_of (ih_circuits (handle_insert c h s)) = (map_of (ih_circuits s))(c \<mapsto> h)"
  by (simp add: handle_insert_def Let_def update_conv' split: option.splits)

lemma handle_insert_owners:
  "map_of (ih_owners (handle_insert c h s)) =
     (case map_of (ih_circuits s) c of
        Some old \<Rightarrow> ((map_of (ih_owners s))(old := None))(h \<mapsto> c)
      | None \<Rightarrow> (map_of (ih_owners s))(h \<mapsto> c))"
  by (simp add: handle_insert_def Let_def update_conv' delete_conv' split: option.splits)

lemma handle_insert_nonzero:
  assumes "ih_next_candidate s \<noteq> 0" and "\<And>old. map_of (ih_circuits s) c = Some old \<Longrightarrow> old \<noteq> 0"
  shows "ih_next_candidate (handle_insert c h s) \<noteq> 0"
  using assms by (auto simp: handle_insert_def Let_def note_reusable_handle_nonzero split: option.splits)

lemma interface_ok_insert:
  assumes "interface_ok s" and "map_of (ih_owners s) h = None" and "dynamic_handle h"
  shows "interface_ok (handle_insert c h s)"
proof -
  note ok = assms(1) [unfolded interface_ok_def]
  have "inverse_maps (map_of (ih_circuits (handle_insert c h s))) (map_of (ih_owners (handle_insert c h s)))"
    using ok assms(2)
    by (auto simp: handle_insert_circuits handle_insert_owners inverse_maps_fresh inverse_maps_replace
        split: option.splits)
  moreover have "\<forall>h \<in> ran (map_of (ih_circuits (handle_insert c h s))). dynamic_handle h"
    using ok assms(3) by (auto simp: handle_insert_circuits ran_def)
  moreover have "ih_next_candidate (handle_insert c h s) \<noteq> 0"
    using ok by (intro handle_insert_nonzero) (auto simp: dynamic_handle_def ran_def)
  moreover have "distinct_keys (ih_circuits (handle_insert c h s))"
    using ok by (simp add: handle_insert_def Let_def split: option.splits)
  ultimately show ?thesis by (simp add: interface_ok_def)
qed

lemma interface_ok_remove:
  assumes "interface_ok s"
  shows "interface_ok (snd (handle_remove c s))"
proof (cases "map_of (ih_circuits s) c")
  case (Some h)
  have "h \<noteq> 0" using assms Some by (auto simp: interface_ok_def dynamic_handle_def ran_def)
  moreover have "interface_ok (s\<lparr>ih_circuits := AList.delete c (ih_circuits s),
      ih_owners := AList.delete h (ih_owners s)\<rparr>)"
    using assms Some
    by (auto simp: interface_ok_def delete_conv' inverse_maps_remove ran_def split: if_splits)
  ultimately show ?thesis using Some by (simp add: handle_remove_def interface_ok_note_reusable)
qed (simp add: handle_remove_def assms)

lemma interface_ok_candidate:
  "interface_ok s \<Longrightarrow> nc \<noteq> 0 \<Longrightarrow> interface_ok (s\<lparr>ih_next_candidate := nc\<rparr>)"
  by (simp add: interface_ok_def)

lemma next_free_handle_ok:
  assumes "interface_ok s" and "next_free_handle reserved retired s = (Some h, s')"
  shows "handle_available s reserved retired h \<and> dynamic_handle h \<and> interface_ok s'
    \<and> ih_circuits s' = ih_circuits s \<and> ih_owners s' = ih_owners s"
  using next_free_handle_Some [OF assms(2)] assms(1)
  by (auto simp: dynamic_handle_def interface_ok_def)

section \<open>The invariant over all interfaces\<close>

definition retired_of :: "QdiscHandleState \<Rightarrow> string \<Rightarrow> u16 set" where
  "retired_of state i = (case map_of (qh_retired_handles state) i of Some r \<Rightarrow> set r | None \<Rightarrow> {})"

definition handle_state_ok :: "QdiscHandleState \<Rightarrow> bool" where
  "handle_state_ok state \<longleftrightarrow>
     distinct (map fst (qh_retired_handles state))
     \<and> (\<forall>i. interface_ok (interface_state state i)
          \<and> (\<forall>h \<in> retired_of state i.
                dynamic_handle h \<and> map_of (ih_owners (interface_state state i)) h = None))"

lemma interface_state_put [simp]:
  "interface_state (put_interface i s state) j = (if j = i then s else interface_state state j)"
  by (simp add: interface_state_def put_interface_def update_conv')

lemma retired_of_put [simp]: "retired_of (put_interface i s state) = retired_of state"
  by (simp add: retired_of_def put_interface_def fun_eq_iff)

lemma retired_handles_put [simp]: "qh_retired_handles (put_interface i s state) = qh_retired_handles state"
  by (simp add: put_interface_def)

lemma interface_state_retired_update [simp]:
  "interface_state (state\<lparr>qh_retired_handles := r\<rparr>) = interface_state state"
  by (simp add: interface_state_def fun_eq_iff)

lemma retired_of_push:
  "retired_of (state\<lparr>qh_retired_handles := AList.update i
       (push_unique h (case map_of (qh_retired_handles state) i of Some r \<Rightarrow> r | None \<Rightarrow> []))
       (qh_retired_handles state)\<rparr>) j
   = (if j = i then insert h (retired_of state i) else retired_of state j)"
  by (simp add: retired_of_def update_conv' split: option.splits)

lemma handle_available_iff:
  "handle_available (interface_state state i) reserved (map_of (qh_retired_handles state) i) h \<longleftrightarrow>
     h \<notin> set reserved \<and> map_of (ih_owners (interface_state state i)) h = None \<and> h \<notin> retired_of state i"
  by (simp add: handle_available_def retired_of_def split: option.splits)

lemma existing_handle:
  "Option.bind (map_of (qh_interfaces state) i) (\<lambda>s. map_of (ih_circuits s) c)
   = map_of (ih_circuits (interface_state state i)) c"
  "Option.bind (map_of (qh_interfaces state) i) (\<lambda>s. owner_of s h)
   = owner_of (interface_state state i) h"
  by (simp_all add: interface_state_def owner_of_def default_interface_state_def split: option.splits)

text \<open>The two ways the code gives out a handle: the one the circuit already has, or a fresh one.\<close>

lemma assign_cases:
  obtains (kept) h where "map_of (ih_circuits (interface_state state i)) c = Some h" "h \<notin> set reserved"
      "owner_of (interface_state state i) h = Some c"
      "assign_circuit_handle i c reserved state = (Some h, state)"
  | (fresh) h s where
      "next_free_handle reserved (map_of (qh_retired_handles state) i) (interface_state state i) = (Some h, s)"
      "assign_circuit_handle i c reserved state = (Some h, put_interface i (handle_insert c h s) state)"
  | (exhausted) s where
      "next_free_handle reserved (map_of (qh_retired_handles state) i) (interface_state state i) = (None, s)"
      "\<And>h. map_of (ih_circuits (interface_state state i)) c = Some h \<Longrightarrow>
         h \<in> set reserved \<or> owner_of (interface_state state i) h \<noteq> Some c"
      "assign_circuit_handle i c reserved state = (None, put_interface i s state)"
proof -
  obtain nx s where n: "next_free_handle reserved (map_of (qh_retired_handles state) i) (interface_state state i) = (nx, s)"
    by (cases "next_free_handle reserved (map_of (qh_retired_handles state) i) (interface_state state i)")
  show thesis
  proof (cases "\<exists>h. map_of (ih_circuits (interface_state state i)) c = Some h \<and> h \<notin> set reserved
      \<and> owner_of (interface_state state i) h = Some c")
    case True
    then show thesis by (auto simp: assign_circuit_handle_def existing_handle intro: kept)
  next
    case False
    then have "assign_circuit_handle i c reserved state =
        (case nx of None \<Rightarrow> (None, put_interface i s state)
         | Some h \<Rightarrow> (Some h, put_interface i (handle_insert c h s) state))"
      using n by (auto simp: assign_circuit_handle_def existing_handle Let_def split: option.splits)
    with n False show thesis by (cases nx) (auto intro: fresh exhausted)
  qed
qed

lemma handle_state_ok_fresh:
  assumes ok: "handle_state_ok state"
    and n: "next_free_handle reserved (map_of (qh_retired_handles state) i) (interface_state state i) = (Some h, s)"
  shows "handle_state_ok (put_interface i (handle_insert c h s) state)"
proof -
  have i: "interface_ok (interface_state state i)" using ok by (simp add: handle_state_ok_def)
  note f = next_free_handle_ok [OF i n, unfolded handle_available_iff]
  have "interface_ok (handle_insert c h s)" using f by (intro interface_ok_insert) auto
  moreover have "map_of (ih_owners (handle_insert c h s)) g = None" if "g \<in> retired_of state i" for g
    using f that ok by (auto simp: handle_insert_owners handle_state_ok_def split: option.splits)
  ultimately show ?thesis using ok by (auto simp: handle_state_ok_def)
qed

lemma handle_state_ok_exhausted:
  assumes ok: "handle_state_ok state"
    and n: "next_free_handle reserved r (interface_state state i) = (None, s)"
  shows "handle_state_ok (put_interface i s state)"
proof -
  have "s = interface_state state i" using next_free_handle_None [OF n, of 1] by simp
  with ok show ?thesis by (simp add: handle_state_ok_def)
qed

lemma handle_state_ok_assign:
  assumes "handle_state_ok state"
  shows "handle_state_ok (snd (assign_circuit_handle i c reserved state))"
  by (cases rule: assign_cases [of state i c reserved])
    (simp_all add: assms handle_state_ok_fresh handle_state_ok_exhausted)

lemma handle_state_ok_retire:
  assumes "handle_state_ok state" and "dynamic_handle h"
    and "map_of (ih_owners (interface_state state i)) h = None"
  shows "handle_state_ok (state\<lparr>qh_retired_handles := AList.update i
       (push_unique h (case map_of (qh_retired_handles state) i of Some r \<Rightarrow> r | None \<Rightarrow> []))
       (qh_retired_handles state)\<rparr>)"
  using assms by (auto simp: handle_state_ok_def retired_of_push distinct_update)

text \<open>A rotation gives out a fresh handle; the one it replaces becomes unowned and retired.\<close>

definition retire_handle :: "string \<Rightarrow> u16 option \<Rightarrow> QdiscHandleState \<Rightarrow> QdiscHandleState" where
  "retire_handle i old state =
     (case old of
        None \<Rightarrow> state
      | Some h \<Rightarrow> state\<lparr>qh_retired_handles := AList.update i
          (push_unique h (case map_of (qh_retired_handles state) i of Some r \<Rightarrow> r | None \<Rightarrow> []))
          (qh_retired_handles state)\<rparr>)"

lemma rotate_cases:
  obtains (fresh) h s where
      "next_free_handle reserved (map_of (qh_retired_handles state) i) (interface_state state i) = (Some h, s)"
      "rotate_circuit_handle i c reserved state =
         (Some h, retire_handle i (map_of (ih_circuits (interface_state state i)) c)
            (put_interface i (handle_insert c h s) state))"
  | (exhausted) s where
      "next_free_handle reserved (map_of (qh_retired_handles state) i) (interface_state state i) = (None, s)"
      "rotate_circuit_handle i c reserved state = (None, put_interface i s state)"
proof -
  obtain nx s where n: "next_free_handle reserved (map_of (qh_retired_handles state) i) (interface_state state i) = (nx, s)"
    by (cases "next_free_handle reserved (map_of (qh_retired_handles state) i) (interface_state state i)")
  show thesis
  proof (cases nx)
    case None
    with n exhausted show thesis by (simp add: rotate_circuit_handle_def)
  next
    case (Some h)
    with n have "rotate_circuit_handle i c reserved state =
         (Some h, retire_handle i (map_of (ih_circuits (interface_state state i)) c)
            (put_interface i (handle_insert c h s) state))"
      by (simp add: rotate_circuit_handle_def existing_handle Let_def retire_handle_def put_interface_def
          split: option.splits)
    with n Some fresh show thesis by blast
  qed
qed

lemma replaced_handle_unowned:
  assumes ok: "handle_state_ok state"
    and n: "next_free_handle reserved (map_of (qh_retired_handles state) i) (interface_state state i) = (Some h, s)"
    and old: "map_of (ih_circuits (interface_state state i)) c = Some old"
  shows "old \<noteq> h \<and> dynamic_handle old \<and> map_of (ih_owners (handle_insert c h s)) old = None"
proof -
  have i: "interface_ok (interface_state state i)" using ok by (simp add: handle_state_ok_def)
  note f = next_free_handle_ok [OF i n, unfolded handle_available_iff]
  have "map_of (ih_owners (interface_state state i)) old = Some c" "dynamic_handle old"
    using i old by (auto simp: interface_ok_def inverse_maps_def ran_def)
  with f old show ?thesis by (auto simp: handle_insert_owners)
qed

lemma handle_state_ok_rotate:
  assumes "handle_state_ok state"
  shows "handle_state_ok (snd (rotate_circuit_handle i c reserved state))"
proof (cases rule: rotate_cases [of reserved state i c])
  case (fresh h s)
  have ok: "handle_state_ok (put_interface i (handle_insert c h s) state)"
    using assms fresh(1) by (rule handle_state_ok_fresh)
  show ?thesis
  proof (cases "map_of (ih_circuits (interface_state state i)) c")
    case (Some old)
    with replaced_handle_unowned [OF assms fresh(1)] handle_state_ok_retire [OF ok] fresh(2) show ?thesis
      by (simp add: retire_handle_def)
  qed (simp add: fresh(2) ok retire_handle_def)
qed (simp add: assms handle_state_ok_exhausted)

lemma handle_remove_owners:
  "map_of (ih_owners s) g = None \<Longrightarrow> map_of (ih_owners (snd (handle_remove c s))) g = None"
  by (simp add: handle_remove_def delete_conv' split: option.splits)

lemma handle_state_ok_release:
  assumes "handle_state_ok state"
  shows "handle_state_ok (snd (release_circuit i c state))"
proof (cases "map_of (qh_interfaces state) i")
  case (Some s)
  then have s: "interface_state state i = s" by (simp add: interface_state_def)
  have "snd (release_circuit i c state) = put_interface i (snd (handle_remove c s)) state"
    using Some by (simp add: release_circuit_def split: prod.splits)
  with assms s show ?thesis
    by (auto simp: handle_state_ok_def interface_ok_remove handle_remove_owners)
qed (simp add: release_circuit_def assms)

lemma note_reusable_fold_frame [simp]:
  "ih_circuits (foldl (\<lambda>s h. note_reusable_handle h s) s hs) = ih_circuits s"
  "ih_owners (foldl (\<lambda>s h. note_reusable_handle h s) s hs) = ih_owners s"
  by (induction hs arbitrary: s) simp_all

lemma interface_ok_note_fold:
  "\<forall>h \<in> set hs. h \<noteq> 0 \<Longrightarrow> interface_ok s \<Longrightarrow> interface_ok (foldl (\<lambda>s h. note_reusable_handle h s) s hs)"
  by (induction hs arbitrary: s) (simp_all add: interface_ok_note_reusable)

lemma clear_retired_loop_lookup:
  "distinct (map fst retired) \<Longrightarrow>
   map_of (clear_retired_loop retired interfaces) i =
     map_option (\<lambda>s. foldl (\<lambda>s h. note_reusable_handle h s) s
       (case map_of retired i of Some r \<Rightarrow> sort r | None \<Rightarrow> [])) (map_of interfaces i)"
  by (induction retired interfaces rule: clear_retired_loop.induct)
    (auto simp: update_conv' option.map_ident map_of_eq_None_iff [symmetric] split: option.splits)

lemma handle_state_ok_clear:
  assumes "handle_state_ok state"
  shows "handle_state_ok (clear_retired_handles state)"
proof -
  have d: "distinct (map fst (qh_retired_handles state))" using assms by (simp add: handle_state_ok_def)
  have "interface_ok (interface_state (clear_retired_handles state) i)" for i
  proof (cases "map_of (qh_interfaces state) i")
    case (Some s)
    then have "interface_ok s" using assms by (auto simp: handle_state_ok_def interface_state_def split: option.splits)
    moreover have "h \<noteq> 0" if "map_of (qh_retired_handles state) i = Some r" "h \<in> set r" for r h
    proof -
      have "h \<in> retired_of state i" using that by (simp add: retired_of_def)
      then show ?thesis using assms by (auto simp: handle_state_ok_def dynamic_handle_def)
    qed
    ultimately show ?thesis using Some d
      by (fastforce simp: interface_state_def clear_retired_handles_def clear_retired_loop_lookup
          intro!: interface_ok_note_fold split: option.splits)
  qed (simp add: interface_state_def clear_retired_handles_def clear_retired_loop_lookup d)
  then show ?thesis by (simp add: handle_state_ok_def retired_of_def clear_retired_handles_def)
qed

lemma handle_step_ok: "handle_state_ok state \<Longrightarrow> handle_state_ok (handle_step state call)"
  by (cases call) (simp_all add: handle_state_ok_assign handle_state_ok_rotate handle_state_ok_release
      handle_state_ok_clear)

interpretation handle_machine: stepper handle_step handle_state_ok
  by unfold_locales (rule handle_step_ok)

text \<open>Only clearing makes a retired handle available again.\<close>

lemma retired_of_retire: "retired_of state i \<subseteq> retired_of (retire_handle j old state) i"
  by (auto simp: retire_handle_def retired_of_push split: option.splits)

lemma retired_of_step:
  assumes "call \<noteq> ClearRetired"
  shows "retired_of state i \<subseteq> retired_of (handle_step state call) i"
proof (cases call)
  case (AssignCircuit j c reserved)
  then show ?thesis by (cases rule: assign_cases [of state j c reserved]) simp_all
next
  case (RotateCircuit j c reserved)
  then show ?thesis
    by (cases rule: rotate_cases [of reserved state j c])
      (simp_all add: subset_trans [OF _ retired_of_retire])
next
  case (ReleaseCircuit j c)
  then show ?thesis by (simp add: release_circuit_def split: option.splits prod.splits)
qed (use assms in simp)

lemma retired_of_run:
  "ClearRetired \<notin> set calls \<Longrightarrow> retired_of state i \<subseteq> retired_of (foldl handle_step state calls) i"
proof (induction calls arbitrary: state)
  case (Cons call calls)
  then have "retired_of (handle_step state call) i \<subseteq> retired_of (foldl handle_step state (call # calls)) i" by simp
  with retired_of_step [of call state i] Cons.prems show ?case by (fastforce simp del: foldl_Cons)
qed simp

lemma retired_not_assigned:
  assumes "handle_state_ok state" and "g \<in> retired_of state i"
  shows "map_of (ih_circuits (interface_state state i)) c \<noteq> Some g"
  using assms by (auto simp: handle_state_ok_def interface_ok_def inverse_maps_def)

section \<open>Loading\<close>

text \<open>What a file must satisfy: an interface is listed once, and on an interface every handle is in the
  dynamic range and given to one circuit.\<close>

definition handle_file_ok :: "PersistedQdiscHandleState option \<Rightarrow> bool" where
  "handle_file_ok file \<longleftrightarrow>
     (case file of
        None \<Rightarrow> True
      | Some f \<Rightarrow>
          (\<forall>(i, circuits) \<in> set (pq_interfaces f).
             distinct (map snd circuits) \<and> list_all (\<lambda>(_, h). dynamic_handle h) circuits))"

lemma owners_fold:
  "map_of (foldl (\<lambda>owners (c, h). AList.update h c owners) w cs) =
     map_of w ++ map_of (map prod.swap (rev cs))"
  by (induction cs arbitrary: w) (auto simp: update_conv' map_add_def fun_eq_iff split: option.splits)

lemma circuits_fold:
  "map_of (foldl (\<lambda>m (c, h). AList.update c h m) w cs) = map_of w ++ map_of (rev cs)"
  by (induction cs arbitrary: w) (auto simp: update_conv' map_add_def fun_eq_iff split: option.splits)

lemma circuits_fold_distinct:
  "distinct (map fst w) \<Longrightarrow> distinct (map fst (foldl (\<lambda>m (c, h). AList.update c h m) w cs))"
  by (induction cs arbitrary: w) (auto simp: distinct_update)

lemma interface_ok_from_circuits:
  assumes "distinct (map fst cs)" and "inj_on snd (set cs)" and "\<forall>(c, h) \<in> set cs. dynamic_handle h"
  shows "interface_ok (from_circuits cs)"
proof -
  have dk: "distinct (map fst (map prod.swap (rev (sort_key fst cs))))"
    using assms(1,2) by (auto simp: distinct_map comp_def inj_on_def rev_map [symmetric])
  have "map_of (ih_owners (from_circuits cs)) h = Some c \<longleftrightarrow> (c, h) \<in> set cs" for c h
    using dk by (auto simp: from_circuits_def owners_fold)
  then show ?thesis using assms(1,3)
    by (auto simp: interface_ok_def inverse_maps_def from_circuits_def ran_def distinct_keys_def)
qed

lemma parse_circuits_entry:
  assumes "(c, h) \<in> set (parse_circuits entries)"
  shows "\<exists>str. (str, h) \<in> set entries \<and> parse_i64 str = Some c"
proof -
  let ?l = "List.map_filter (\<lambda>(hash, handle). map_option (\<lambda>h. (h, handle)) (parse_i64 hash)) entries"
  have "map_of (parse_circuits entries) c = Some h"
    using assms circuits_fold_distinct [of "[]" ?l] by (simp add: parse_circuits_def)
  then have "map_of (rev ?l) c = Some h" by (simp add: parse_circuits_def circuits_fold)
  then have "(c, h) \<in> set ?l" by (auto dest: map_of_SomeD)
  then show ?thesis by (auto simp: map_filter_def)
qed

lemma map_filter_show_i64:
  "\<forall>(c, h) \<in> set cs. - (2 ^ 63) \<le> c \<and> c < 2 ^ 63 \<Longrightarrow>
   List.map_filter (\<lambda>(hash, handle). map_option (\<lambda>h. (h, handle)) (parse_i64 hash))
     (map (\<lambda>(hash, handle). (show_i64 hash, handle)) cs) = cs"
  by (induction cs) (auto simp: map_filter_simps parse_show_i64)

lemma map_of_map_twice:
  "map_of (map (\<lambda>(k, v). (k, f v)) (map (\<lambda>(k, v). (k, g v)) kvs)) k = map_option (\<lambda>v. f (g v)) (map_of kvs k)"
  by (induction kvs) auto

lemma map_of_rev: "distinct (map fst cs) \<Longrightarrow> map_of (rev cs) = map_of cs"
  by (rule map_of_inject_set [THEN iffD2]) (simp_all add: rev_map [symmetric])

lemma inverse_maps_unique: "inverse_maps m w \<Longrightarrow> inverse_maps m w' \<Longrightarrow> w = w'"
  unfolding inverse_maps_def by (rule ext) (metis option.exhaust)

lemma interface_ok_entry:
  assumes "interface_ok s" and "(c, h) \<in> set (ih_circuits s)"
  shows "map_of (ih_owners s) h = Some c \<and> dynamic_handle h"
proof -
  have "map_of (ih_circuits s) c = Some h" using assms by (simp add: interface_ok_def distinct_keys_def)
  then show ?thesis using assms(1) by (auto simp: interface_ok_def inverse_maps_def ran_def)
qed

lemma interface_ok_inj:
  assumes "interface_ok s"
  shows "inj_on snd (set (ih_circuits s))" and "\<forall>(c, h) \<in> set (ih_circuits s). dynamic_handle h"
  using interface_ok_entry [OF assms] by (auto intro!: inj_onI) (metis option.inject)

lemma handle_state_ok_load:
  assumes "handle_file_ok file"
  shows "handle_state_ok (load file)"
proof -
  have "interface_ok (from_circuits (parse_circuits cs))"
    if "file = Some f" "(i, cs) \<in> set (pq_interfaces f)" for f i cs
  proof -
    have d: "distinct (map snd cs)" "\<forall>(_, h) \<in> set cs. dynamic_handle h"
      using assms that by (auto simp: handle_file_ok_def list_all_iff)
    have "distinct (map fst (parse_circuits cs))" by (simp add: parse_circuits_def circuits_fold_distinct)
    moreover have "inj_on snd (set (parse_circuits cs))"
      using d(1) by (auto simp: distinct_map inj_on_def dest!: parse_circuits_entry) force
    ultimately show ?thesis
      using d(2) by (intro interface_ok_from_circuits) (auto dest: parse_circuits_entry)
  qed
  then show ?thesis
    by (auto simp: handle_state_ok_def load_def default_handle_state_def retired_of_def interface_state_def
        split: option.splits dest!: map_of_SomeD)
qed

section \<open>Properties\<close>



text \<open>A successful assignment in a reachable state: the handle is not reserved; afterwards it is the
  circuit's handle and owned by it, no other circuit and no other interface is touched; either the
  circuit had this handle already and nothing changes at all, or the handle was owned by nobody and
  not retired. Asking again with the same reservations returns the same handle and changes nothing.\<close>

lemma assign_circuit_handle_result:
  assumes "handle_file_ok file" and "state = foldl handle_step (load file) calls"
    and "assign_circuit_handle i c reserved state = (Some h, state')"
  shows "h \<notin> set reserved
    \<and> map_of (ih_circuits (interface_state state' i)) = (map_of (ih_circuits (interface_state state i)))(c \<mapsto> h)
    \<and> owner_of (interface_state state' i) h = Some c
    \<and> (\<forall>j. j \<noteq> i \<longrightarrow> interface_state state' j = interface_state state j)
    \<and> (state' = state \<or> owner_of (interface_state state i) h = None \<and> h \<notin> retired_of state i)
    \<and> assign_circuit_handle i c reserved state' = (Some h, state')"
proof -
  have ok: "handle_state_ok state"
    unfolding assms(2) by (rule handle_machine.run_inv [OF handle_state_ok_load [OF assms(1)]])
  then have i: "interface_ok (interface_state state i)" by (simp add: handle_state_ok_def)
  show ?thesis
  proof (cases rule: assign_cases [of state i c reserved])
    case (kept g)
    with assms(3) show ?thesis by (auto simp: fun_upd_idem)
  next
    case (fresh g s)
    then have st: "g = h" "state' = put_interface i (handle_insert c h s) state" using assms(3) by auto
    note f = next_free_handle_ok [OF i fresh(1), unfolded st(1) handle_available_iff]
    have own: "owner_of (interface_state state' i) h = Some c"
      by (simp add: st owner_of_def handle_insert_owners split: option.splits)
    have has: "map_of (ih_circuits (interface_state state' i)) =
        (map_of (ih_circuits (interface_state state i)))(c \<mapsto> h)"
      using f by (simp add: st handle_insert_circuits)
    have "assign_circuit_handle i c reserved state' = (Some h, state')"
      using f own has by (simp add: assign_circuit_handle_def existing_handle)
    with f own has st show ?thesis by (simp add: owner_of_def)
  next
    case (exhausted s)
    with assms(3) show ?thesis by simp
  qed
qed

text \<open>In a reachable state an assignment fails exactly when the circuit has no handle outside the
  reservations and every handle of \<open>1..=0xFFFE\<close> is reserved, owned or retired: the four scans miss no
  free handle. A failed assignment leaves every interface as it was.\<close>

lemma assign_circuit_handle_exhausted:
  assumes "handle_file_ok file" and "state = foldl handle_step (load file) calls"
  shows "(fst (assign_circuit_handle i c reserved state) = None \<longleftrightarrow>
      (\<forall>h. map_of (ih_circuits (interface_state state i)) c = Some h \<longrightarrow> h \<in> set reserved)
      \<and> (\<forall>h. 1 \<le> h \<and> h \<le> 0xFFFE \<longrightarrow>
            h \<in> set reserved \<or> owner_of (interface_state state i) h \<noteq> None \<or> h \<in> retired_of state i))
    \<and> (fst (assign_circuit_handle i c reserved state) = None \<longrightarrow>
        interface_state (snd (assign_circuit_handle i c reserved state)) = interface_state state)"
proof -
  have ok: "handle_state_ok state"
    unfolding assms(2) by (rule handle_machine.run_inv [OF handle_state_ok_load [OF assms(1)]])
  then have i: "interface_ok (interface_state state i)" by (simp add: handle_state_ok_def)
  show ?thesis
  proof (cases rule: assign_cases [of state i c reserved])
    case (fresh h s)
    note f = next_free_handle_ok [OF i fresh(1), unfolded handle_available_iff]
    then have "1 \<le> h" by (simp add: dynamic_handle_def word_le_nat_alt Suc_le_eq unat_gt_0)
    with f fresh(2) show ?thesis by (auto simp: owner_of_def dynamic_handle_def)
  next
    case (exhausted s)
    note n = next_free_handle_None [OF exhausted(1), unfolded handle_available_iff]
    have "s = interface_state state i" using n [of 1] by simp
    moreover have "h \<in> set reserved" if "map_of (ih_circuits (interface_state state i)) c = Some h" for h
      using exhausted(2) [OF that] that i by (auto simp: interface_ok_def inverse_maps_def owner_of_def)
    ultimately show ?thesis using n exhausted(3) by (auto simp: owner_of_def)
  qed auto
qed

text \<open>A successful rotation in a reachable state gives the circuit a handle that was free and differs
  from the one it had; the old one is retired, and however the state is used afterwards no circuit
  of the interface gets it before the retired handles are cleared.\<close>

lemma rotate_circuit_handle_result:
  assumes "handle_file_ok file" and "state = foldl handle_step (load file) calls"
    and "rotate_circuit_handle i c reserved state = (Some h, state')"
  shows "map_of (ih_circuits (interface_state state' i)) = (map_of (ih_circuits (interface_state state i)))(c \<mapsto> h)
    \<and> h \<notin> set reserved \<and> owner_of (interface_state state i) h = None \<and> h \<notin> retired_of state i
    \<and> (\<forall>old later c'.
         map_of (ih_circuits (interface_state state i)) c = Some old \<and> ClearRetired \<notin> set later \<longrightarrow>
         old \<noteq> h
         \<and> map_of (ih_circuits (interface_state (foldl handle_step state' later) i)) c' \<noteq> Some old)"
proof -
  have ok: "handle_state_ok state"
    unfolding assms(2) by (rule handle_machine.run_inv [OF handle_state_ok_load [OF assms(1)]])
  then have i: "interface_ok (interface_state state i)" by (simp add: handle_state_ok_def)
  obtain s where n: "next_free_handle reserved (map_of (qh_retired_handles state) i) (interface_state state i) = (Some h, s)"
    and st: "state' = retire_handle i (map_of (ih_circuits (interface_state state i)) c)
            (put_interface i (handle_insert c h s) state)"
    using assms(3) by (cases rule: rotate_cases [of reserved state i c]) auto
  note f = next_free_handle_ok [OF i n, unfolded handle_available_iff]
  have ok': "handle_state_ok state'" using handle_state_ok_rotate [OF ok, of i c reserved] assms(3) by simp
  have "old \<noteq> h \<and> map_of (ih_circuits (interface_state (foldl handle_step state' later) i)) c' \<noteq> Some old"
    if old: "map_of (ih_circuits (interface_state state i)) c = Some old" "ClearRetired \<notin> set later" for old later c'
  proof -
    have "old \<in> retired_of state' i"
      using old(1) retired_of_push [where state = "put_interface i (handle_insert c h s) state" and i = i and j = i]
      by (simp add: st retire_handle_def)
    then have "old \<in> retired_of (foldl handle_step state' later) i" using retired_of_run [OF old(2)] by blast
    then show ?thesis using retired_not_assigned [OF handle_machine.run_inv [OF ok']]
        replaced_handle_unowned [OF ok n old(1)] by blast
  qed
  moreover have "map_of (ih_circuits (interface_state state' i)) = (map_of (ih_circuits (interface_state state i)))(c \<mapsto> h)"
    using f by (simp add: st retire_handle_def handle_insert_circuits split: option.splits)
  ultimately show ?thesis using f unfolding owner_of_def by blast
qed

text \<open>C29. Saving a reachable state and loading it again keeps, on every interface, the handle of every
  circuit and the owner of every handle; retired handles are not kept and the next candidate starts
  anew. So after a restart a circuit is given the handle it had, unless that has become reserved.\<close>

theorem load_persisted:
  assumes "handle_file_ok file" and "state = foldl handle_step (load file) calls"
    and "\<forall>i. \<forall>(c, h) \<in> set (ih_circuits (interface_state state i)). - (2 ^ 63) \<le> c \<and> c < 2 ^ 63"
  shows "map_of (ih_circuits (interface_state (load (Some (persisted state))) i))
           = map_of (ih_circuits (interface_state state i))
    \<and> map_of (ih_owners (interface_state (load (Some (persisted state))) i))
           = map_of (ih_owners (interface_state state i))
    \<and> ih_next_candidate (interface_state (load (Some (persisted state))) i) = 0x9000
    \<and> qh_retired_handles (load (Some (persisted state))) = []
    \<and> (\<forall>c h reserved. map_of (ih_circuits (interface_state state i)) c = Some h \<and> h \<notin> set reserved \<longrightarrow>
         assign_circuit_handle i c reserved (load (Some (persisted state)))
           = (Some h, load (Some (persisted state))))"
proof -
  let ?s = "interface_state state i" and ?s' = "interface_state (load (Some (persisted state))) i"
  have ok: "interface_ok ?s"
    using handle_machine.run_inv [OF handle_state_ok_load [OF assms(1)], of calls]
    by (simp add: assms(2) handle_state_ok_def)
  let ?cs = "map (\<lambda>(hash, handle). (show_i64 hash, handle)) (ih_circuits ?s)"
  have s': "?s' = from_circuits (parse_circuits ?cs)"
    by (auto simp: interface_state_def load_def persisted_def map_of_map_twice default_interface_state_def
        from_circuits_def parse_circuits_def map_filter_simps simp del: map_map split: option.splits)
  have "parse_circuits ?cs = foldl (\<lambda>m (c, h). AList.update c h m) [] (ih_circuits ?s)"
    unfolding parse_circuits_def using assms(3)
    by (intro arg_cong [where f = "foldl _ []"] map_filter_show_i64) auto
  then have "map_of (parse_circuits ?cs) = map_of (ih_circuits ?s)" and d: "distinct (map fst (parse_circuits ?cs))"
    using ok by (simp_all add: circuits_fold circuits_fold_distinct map_of_rev interface_ok_def distinct_keys_def)
  then have c: "map_of (ih_circuits ?s') = map_of (ih_circuits ?s)" by (simp add: s' from_circuits_def)
  have "set (parse_circuits ?cs) = set (ih_circuits ?s)"
    using \<open>map_of (parse_circuits ?cs) = map_of (ih_circuits ?s)\<close> d ok
    by (metis distinct_keys_def interface_ok_def map_of_inject_set)
  then have ok': "interface_ok ?s'"
    unfolding s' using d interface_ok_inj [OF ok] by (intro interface_ok_from_circuits) simp_all
  have o: "map_of (ih_owners ?s') = map_of (ih_owners ?s)"
    by (rule inverse_maps_unique [of "map_of (ih_circuits ?s)"]) (use ok ok' c in \<open>auto simp: interface_ok_def\<close>)
  have "map_of (ih_owners ?s) h = Some c" if "map_of (ih_circuits ?s) c = Some h" for c h
    using that ok by (simp add: interface_ok_def inverse_maps_def)
  then have a: "assign_circuit_handle i c reserved (load (Some (persisted state)))
      = (Some h, load (Some (persisted state)))"
    if "map_of (ih_circuits ?s) c = Some h" "h \<notin> set reserved" for c h reserved
    unfolding assign_circuit_handle_def existing_handle using that c o by (simp add: owner_of_def)
  have "ih_next_candidate ?s' = 0x9000" unfolding s' by (simp add: from_circuits_def)
  moreover have "qh_retired_handles (load (Some (persisted state))) = []"
    by (simp add: load_def persisted_def)
  ultimately show ?thesis using a c o by blast
qed

theorem load_persisted_witness:
  "let state = foldl handle_step (load None) [AssignCircuit ''eth0'' (-7) [], AssignCircuit ''eth0'' 8 []]
   in map_of (ih_owners (interface_state (load (Some (persisted state))) ''eth0''))
        = map_of (ih_owners (interface_state state ''eth0''))
      \<and> fst (assign_circuit_handle ''eth0'' (-7) [] (load (Some (persisted state)))) = Some 0x9000"
proof -
  let ?state = "foldl handle_step (load None) [AssignCircuit ''eth0'' (-7) [], AssignCircuit ''eth0'' 8 []]"
  have ifs: "qh_interfaces ?state = [(''eth0'', \<lparr>ih_circuits = [(-7, 0x9000), (8, 0x9001)],
      ih_owners = [(0x9000, -7), (0x9001, 8)], ih_next_candidate = 0x9002\<rparr>)]"
    by code_simp
  have range: "\<forall>i. \<forall>(c, h) \<in> set (ih_circuits (interface_state ?state i)). - (2 ^ 63) \<le> c \<and> c < 2 ^ 63"
    unfolding interface_state_def ifs by (simp add: default_interface_state_def)
  have has: "map_of (ih_circuits (interface_state ?state ''eth0'')) (-7) = Some 0x9000"
    unfolding interface_state_def ifs by simp
  have "handle_file_ok None" by (simp add: handle_file_ok_def)
  note t = load_persisted [OF this refl range, of "''eth0''"]
  have "assign_circuit_handle ''eth0'' (-7) [] (load (Some (persisted ?state)))
      = (Some 0x9000, load (Some (persisted ?state)))"
    using t has by simp
  then show ?thesis unfolding Let_def using t by simp
qed

text \<open>On every interface of the multi-queue layout the majors of its queues and both infrastructure
  handles of each are reserved, as are the root major and \<open>0xFFFF\<close>, and nothing else is: so an assigned
  circuit handle never collides with a queue, an infrastructure qdisc or the root.\<close>

lemma reserved_handles_iff:
  "h \<in> set (reserved_handles (MqDeviceLayout_from_setup isp internet queues offset) interface) \<longleftrightarrow>
     h = 0x7FFF \<or> h = 0xFFFF
     \<or> (\<exists>queue < queues. \<exists>major.
          (interface = isp \<and> major = word_of_nat (queue + 1)
           \<or> interface = internet \<and> major = word_of_nat (queue + offset + 1))
          \<and> (h = major \<or> h = infra_qdisc_handle major PrimarySlot \<or> h = infra_qdisc_handle major DefaultSlot))"
proof -
  have push: "set (foldl (\<lambda>s m. push_unique m s) s ms) = set s \<union> set ms" for s ms :: "u16 list"
    by (induction ms arbitrary: s) auto
  have res: "set (foldl (\<lambda>r m. push_unique (f m) (push_unique (g m) (push_unique m r))) r ms)
      = set r \<union> set ms \<union> g ` set ms \<union> f ` set ms" for f g :: "u16 \<Rightarrow> u16" and r ms
    by (induction ms arbitrary: r) auto
  show ?thesis
    by (auto simp: reserved_handles_def MqDeviceLayout_from_setup_def insert_majors_def update_conv' Let_def
        push res split: option.splits)
qed

text \<open>Infrastructure handles collide only where the additions saturate, which starts at the major
  \<open>0x7000\<close>, and then the handle is the invalid \<open>0xFFFF\<close>.\<close>

lemma unat_infra_qdisc_handle:
  "unat (infra_qdisc_handle m slot) =
     min (0x2000 + 2 * unat m + (case slot of PrimarySlot \<Rightarrow> 0 | DefaultSlot \<Rightarrow> 1)) 0xFFFF"
  by (auto simp: infra_qdisc_handle_def Let_def unat_saturating_add unat_saturating_mul split: InfraQdiscSlot.splits)

lemma infra_qdisc_handle_inject:
  assumes "m \<le> 0x6FFF" and "m' \<le> 0x6FFF"
  shows "infra_qdisc_handle m slot = infra_qdisc_handle m' slot' \<longleftrightarrow> m = m' \<and> slot = slot'"
  using assms
  by (auto simp: word_unat_eq_iff unat_infra_qdisc_handle word_le_nat_alt min_def split: InfraQdiscSlot.splits if_splits) presburger+

lemma infra_qdisc_handle_saturates:
  "m \<ge> 0x7000 \<Longrightarrow> infra_qdisc_handle m slot = 0xFFFF"
  by (simp add: word_unat_eq_iff unat_infra_qdisc_handle word_le_nat_alt)

text \<open>A file that gives one handle to two circuits is accepted, and the duplicate is not repaired: moving
  the one that does not own it deletes the owner's entry as well (\<open>insert\<close> removes \<open>owners[previous]\<close>
  whoever owns it), so the handle is handed to a third circuit while its owner still has it.\<close>

lemma duplicate_handle_shared:
  "let file = Some \<lparr>pq_version = 1, pq_interfaces = [(''eth0'', [(''1'', 0x9000), (''2'', 0x9000)])]\<rparr>;
       state = foldl handle_step (load file) [AssignCircuit ''eth0'' 1 [], AssignCircuit ''eth0'' 3 []]
   in map_of (ih_circuits (interface_state state ''eth0'')) 2 = Some 0x9000
      \<and> map_of (ih_circuits (interface_state state ''eth0'')) 3 = Some 0x9000"
  by code_simp

end
