(* ===== verification/Class_Planner.thy ===== *)
theory Class_Planner
  imports Rust_Strings "HOL-Library.Char_ord" "HOL-Library.List_Lexorder"
begin

text \<open>
  Class identities of sites and circuits (\<open>lqos_config/src/planner.rs\<close>): every site and circuit of
  a shaping queue gets a class minor, kept from the previous plan where its place in the tree has
  not changed, otherwise the next free one. Reserved minors are kept per queue. Ordered maps and
  sets are association lists and lists; a map that is iterated is sorted first, with strings
  compared byte by byte.
\<close>

section \<open>Data\<close>

record SiteIdentityInput =
  si_site_key :: string
  si_parent_path :: string
  si_queue :: u32
  si_has_children :: bool

record SiteIdentityAssignment =
  sia_site_key :: string
  sia_queue :: u32
  sia_class_minor :: u16
  sia_class_major :: u16
  sia_up_class_major :: u16
  sia_parent_path :: string

record CircuitIdentityGroupInput =
  cg_parent_node :: string
  cg_queue :: u32
  cg_circuit_ids :: "string list"

record CircuitIdentityAssignment =
  cia_circuit_id :: string
  cia_parent_node :: string
  cia_queue :: u32
  cia_class_minor :: u16
  cia_class_major :: u16
  cia_up_class_major :: u16

record PlannerSiteIdentityState =
  ps_class_minor :: u16
  ps_queue :: u32
  ps_parent_path :: string
  ps_class_major :: u16
  ps_up_class_major :: u16

record PlannerCircuitIdentityState =
  pc_class_minor :: u16
  pc_queue :: u32
  pc_parent_node :: string
  pc_class_major :: u16
  pc_up_class_major :: u16

record ClassIdentityPlannerOutput =
  po_sites :: "SiteIdentityAssignment list"
  po_circuits :: "CircuitIdentityAssignment list"
  po_site_state :: "(string \<times> PlannerSiteIdentityState) list"
  po_circuit_state :: "(string \<times> PlannerCircuitIdentityState) list"
  po_last_used_minor_by_queue :: "(u32 \<times> u32) list"

type_synonym PlannerMinorReservations = "(u32 \<times> u32 list) list"

record ClassIdentityPlannerConstraints =
  cc_reserved_site_minors :: PlannerMinorReservations
  cc_reserved_circuit_minors :: PlannerMinorReservations
  cc_site_minor_start :: u32
  cc_circuit_minor_start :: u32
  cc_stick_offset :: u16
  cc_circuit_padding :: u32

section \<open>Minors\<close>

text \<open>\<open>reserved.entry(queue).or_default()\<close>, and an insertion into that set.\<close>

definition occupied :: "PlannerMinorReservations \<Rightarrow> u32 \<Rightarrow> u32 list" where
  "occupied reserved queue = (case map_of reserved queue of Some s \<Rightarrow> s | None \<Rightarrow> [])"

definition reserve :: "u32 \<Rightarrow> u32 \<Rightarrow> PlannerMinorReservations \<Rightarrow> PlannerMinorReservations" where
  "reserve queue minor reserved = AList.update queue (push_unique minor (occupied reserved queue)) reserved"

text \<open>
  The loop of \<open>next_free_minor\<close>; the increment wraps as in a release build. \<open>tested\<close> counts the
  minors found occupied: when all \<open>2\<^sup>3\<^sup>2\<close> are, the code does not return.
\<close>

function next_free_minor_loop :: "u32 list \<Rightarrow> u32 \<Rightarrow> nat \<Rightarrow> u32" where
  "next_free_minor_loop reserved candidate tested =
     (if candidate \<in> set reserved \<and> tested < 4294967296
      then next_free_minor_loop reserved (candidate + 1) (Suc tested)
      else candidate)"
  by pat_completeness auto
termination
  by (relation "measure (\<lambda>(_, _, tested). 4294967296 - tested)") auto

declare next_free_minor_loop.simps [simp del]

definition next_free_minor :: "u32 \<Rightarrow> u32 list \<Rightarrow> u32" where
  "next_free_minor start_minor reserved = next_free_minor_loop reserved (max start_minor 3) 0"

definition valid_class_minor :: "u16 \<Rightarrow> u32 option" where
  "valid_class_minor class_minor =
     (let m = word_of_nat (unat class_minor) :: u32
      in if 3 \<le> m \<and> m < 0xFFFF then Some m else None)"

text \<open>\<open>u16::try_from\<close> of a \<open>u32\<close>.\<close>

definition u16_try_from :: "u32 \<Rightarrow> u16 option" where
  "u16_try_from n = (if n \<le> 0xFFFF then Some (word_of_nat (unat n)) else None)"

definition u16_or_max :: "u32 \<Rightarrow> u16" where
  "u16_or_max n = (case u16_try_from n of Some m \<Rightarrow> m | None \<Rightarrow> 0xFFFF)"

definition expected_class_majors :: "u32 \<Rightarrow> u16 \<Rightarrow> (u16 \<times> u16) option" where
  "expected_class_majors queue stick_offset =
     (case u16_try_from queue of
        None \<Rightarrow> None
      | Some class_major \<Rightarrow>
          if class_major > 0 then Some (class_major, saturating_add class_major stick_offset) else None)"

section \<open>Reuse of previous minors\<close>

text \<open>The guards of the loop: the minor stored for a site, when it may be kept.\<close>

definition stored_site_minor ::
  "(string \<times> PlannerSiteIdentityState) list \<Rightarrow> u16 \<Rightarrow> string \<Rightarrow> SiteIdentityInput \<Rightarrow> u32 option" where
  "stored_site_minor previous_sites stick_offset site_key site =
     (case map_of previous_sites site_key of
        None \<Rightarrow> None
      | Some stored \<Rightarrow>
          (case valid_class_minor (ps_class_minor stored) of
             None \<Rightarrow> None
           | Some class_minor \<Rightarrow>
               (case expected_class_majors (si_queue site) stick_offset of
                  None \<Rightarrow> None
                | Some (class_major, up_class_major) \<Rightarrow>
                    if ps_queue stored \<noteq> si_queue site \<or> ps_parent_path stored \<noteq> si_parent_path site
                       \<or> ps_class_major stored \<noteq> class_major \<or> ps_up_class_major stored \<noteq> up_class_major
                    then None else Some class_minor)))"

definition stored_circuit_minor ::
  "(string \<times> PlannerCircuitIdentityState) list \<Rightarrow> u16 \<Rightarrow> string \<Rightarrow> CircuitIdentityGroupInput \<Rightarrow> u32 option" where
  "stored_circuit_minor previous_circuits stick_offset circuit_id grp =
     (case map_of previous_circuits circuit_id of
        None \<Rightarrow> None
      | Some stored \<Rightarrow>
          (case valid_class_minor (pc_class_minor stored) of
             None \<Rightarrow> None
           | Some class_minor \<Rightarrow>
               (case expected_class_majors (cg_queue grp) stick_offset of
                  None \<Rightarrow> None
                | Some (class_major, up_class_major) \<Rightarrow>
                    if pc_queue stored \<noteq> cg_queue grp \<or> pc_parent_node stored \<noteq> cg_parent_node grp
                       \<or> pc_class_major stored \<noteq> class_major \<or> pc_up_class_major stored \<noteq> up_class_major
                    then None else Some class_minor)))"

text \<open>
  The loop over a sorted map from keys to inputs: \<open>minor\<close> is the stored minor of an input, \<open>queue\<close>
  its queue. It is the same for sites and circuits.
\<close>

fun reserve_reusable_loop ::
  "(string \<Rightarrow> 'i \<Rightarrow> u32 option) \<Rightarrow> ('i \<Rightarrow> u32) \<Rightarrow> (string \<times> 'i) list
    \<Rightarrow> PlannerMinorReservations \<Rightarrow> (string \<times> u32) list
    \<Rightarrow> (string \<times> u32) list \<times> PlannerMinorReservations" where
  "reserve_reusable_loop minor queue [] reserved reusable = (reusable, reserved)"
| "reserve_reusable_loop minor queue ((key, input) # rest) reserved reusable =
     (case minor key input of
        None \<Rightarrow> reserve_reusable_loop minor queue rest reserved reusable
      | Some class_minor \<Rightarrow>
          if class_minor \<in> set (occupied reserved (queue input))
          then reserve_reusable_loop minor queue rest reserved reusable
          else reserve_reusable_loop minor queue rest (reserve (queue input) class_minor reserved)
                 (AList.update key class_minor reusable))"

definition reserve_reusable_site_minors ::
  "SiteIdentityInput list \<Rightarrow> (string \<times> PlannerSiteIdentityState) list \<Rightarrow> u16 \<Rightarrow> PlannerMinorReservations
    \<Rightarrow> (string \<times> u32) list \<times> PlannerMinorReservations" where
  "reserve_reusable_site_minors sites previous_sites stick_offset reserved =
     reserve_reusable_loop (stored_site_minor previous_sites stick_offset) si_queue
       (sort_key fst (collect_map (map (\<lambda>site. (si_site_key site, site)) sites))) reserved []"

definition reserve_reusable_circuit_minors ::
  "CircuitIdentityGroupInput list \<Rightarrow> (string \<times> PlannerCircuitIdentityState) list \<Rightarrow> u16
    \<Rightarrow> PlannerMinorReservations \<Rightarrow> (string \<times> u32) list \<times> PlannerMinorReservations" where
  "reserve_reusable_circuit_minors circuit_groups previous_circuits stick_offset reserved =
     reserve_reusable_loop (stored_circuit_minor previous_circuits stick_offset) cg_queue
       (sort_key fst (collect_map
         (concat (map (\<lambda>grp. map (\<lambda>circuit_id. (circuit_id, grp)) (cg_circuit_ids grp)) circuit_groups))))
       reserved []"

section \<open>Reservations of identities outside the plan\<close>

fun reserve_unplanned ::
  "string list \<Rightarrow> ('s \<Rightarrow> u16) \<Rightarrow> ('s \<Rightarrow> u32) \<Rightarrow> (string \<times> 's) list
    \<Rightarrow> PlannerMinorReservations \<Rightarrow> PlannerMinorReservations" where
  "reserve_unplanned planned class_minor queue [] reserved = reserved"
| "reserve_unplanned planned class_minor queue ((key, stored) # rest) reserved =
     reserve_unplanned planned class_minor queue rest
       (if key \<in> set planned then reserved
        else case valid_class_minor (class_minor stored) of
               Some m \<Rightarrow> reserve (queue stored) m reserved
             | None \<Rightarrow> reserved)"

definition build_class_identity_reservations ::
  "SiteIdentityInput list \<Rightarrow> CircuitIdentityGroupInput list
    \<Rightarrow> (string \<times> PlannerSiteIdentityState) list \<Rightarrow> (string \<times> PlannerCircuitIdentityState) list
    \<Rightarrow> PlannerMinorReservations \<times> PlannerMinorReservations" where
  "build_class_identity_reservations sites circuit_groups previous_sites previous_circuits =
     (reserve_unplanned (map si_site_key sites) ps_class_minor ps_queue previous_sites [],
      reserve_unplanned (concat (map cg_circuit_ids circuit_groups)) pc_class_minor pc_queue previous_circuits [])"

section \<open>Planning\<close>

text \<open>What the two loops update: reservations, the next candidate per queue and their outputs.\<close>

record SitePlan =
  sp_reserved :: PlannerMinorReservations
  sp_next :: "(u32 \<times> u32) list"
  sp_sites :: "SiteIdentityAssignment list"
  sp_state :: "(string \<times> PlannerSiteIdentityState) list"

definition plan_site ::
  "(string \<times> u32) list \<Rightarrow> ClassIdentityPlannerConstraints \<Rightarrow> SitePlan \<Rightarrow> SiteIdentityInput \<Rightarrow> SitePlan" where
  "plan_site reusable constraints plan site =
     (let reserved = occupied (sp_reserved plan) (si_queue site);
          next_minor = (case map_of (sp_next plan) (si_queue site) of
              Some n \<Rightarrow> n | None \<Rightarrow> max (cc_site_minor_start constraints) 3);
          (class_minor_u32, next_minor) =
            (case map_of reusable (si_site_key site) of
               Some reused_minor \<Rightarrow> (reused_minor, next_minor)
             | None \<Rightarrow>
                 let allocated_minor = next_free_minor next_minor reserved;
                     next_minor = saturating_add allocated_minor 1
                 in (allocated_minor,
                     if si_has_children site then saturating_add next_minor 1 else next_minor));
          class_minor = u16_or_max class_minor_u32;
          class_major = u16_or_max (si_queue site);
          up_class_major = saturating_add class_major (cc_stick_offset constraints)
      in \<lparr>sp_reserved = reserve (si_queue site) class_minor_u32 (sp_reserved plan),
          sp_next = AList.update (si_queue site) next_minor (sp_next plan),
          sp_sites = sp_sites plan @ [\<lparr>sia_site_key = si_site_key site, sia_queue = si_queue site,
            sia_class_minor = class_minor, sia_class_major = class_major,
            sia_up_class_major = up_class_major, sia_parent_path = si_parent_path site\<rparr>],
          sp_state = AList.update (si_site_key site) \<lparr>ps_class_minor = class_minor,
            ps_queue = si_queue site, ps_parent_path = si_parent_path site,
            ps_class_major = class_major, ps_up_class_major = up_class_major\<rparr> (sp_state plan)\<rparr>)"

record CircuitPlan =
  cp_reserved :: PlannerMinorReservations
  cp_next :: "(u32 \<times> u32) list"
  cp_circuits :: "CircuitIdentityAssignment list"
  cp_state :: "(string \<times> PlannerCircuitIdentityState) list"

definition plan_circuit ::
  "(string \<times> u32) list \<Rightarrow> ClassIdentityPlannerConstraints \<Rightarrow> CircuitIdentityGroupInput
    \<Rightarrow> CircuitPlan \<times> u32 \<Rightarrow> string \<Rightarrow> CircuitPlan \<times> u32" where
  "plan_circuit reusable constraints grp plan_next circuit_id =
     (let (plan, next_minor) = plan_next;
          (class_minor_u32, next_minor) =
            (case map_of reusable circuit_id of
               Some reused_minor \<Rightarrow> (reused_minor, next_minor)
             | None \<Rightarrow>
                 let allocated_minor = next_free_minor next_minor (occupied (cp_reserved plan) (cg_queue grp))
                 in (allocated_minor, saturating_add allocated_minor 1));
          class_minor = u16_or_max class_minor_u32;
          class_major = u16_or_max (cg_queue grp);
          up_class_major = saturating_add class_major (cc_stick_offset constraints)
      in (plan\<lparr>cp_reserved := reserve (cg_queue grp) class_minor_u32 (cp_reserved plan),
               cp_circuits := cp_circuits plan @ [\<lparr>cia_circuit_id = circuit_id,
                 cia_parent_node = cg_parent_node grp, cia_queue = cg_queue grp,
                 cia_class_minor = class_minor, cia_class_major = class_major,
                 cia_up_class_major = up_class_major\<rparr>],
               cp_state := AList.update circuit_id \<lparr>pc_class_minor = class_minor,
                 pc_queue = cg_queue grp, pc_parent_node = cg_parent_node grp,
                 pc_class_major = class_major, pc_up_class_major = up_class_major\<rparr> (cp_state plan)\<rparr>,
          next_minor))"

definition plan_group ::
  "(string \<times> u32) list \<Rightarrow> ClassIdentityPlannerConstraints \<Rightarrow> CircuitPlan \<Rightarrow> CircuitIdentityGroupInput
    \<Rightarrow> CircuitPlan" where
  "plan_group reusable constraints plan grp =
     (let reserved = occupied (cp_reserved plan) (cg_queue grp);
          plan = plan\<lparr>cp_reserved := AList.update (cg_queue grp) reserved (cp_reserved plan)\<rparr>;
          next_minor = (case map_of (cp_next plan) (cg_queue grp) of
              Some n \<Rightarrow> n
            | None \<Rightarrow> next_free_minor (max (cc_circuit_minor_start constraints) 3) reserved);
          (plan, next_minor) =
            foldl (plan_circuit reusable constraints grp) (plan, next_minor) (cg_circuit_ids grp)
      in plan\<lparr>cp_next := AList.update (cg_queue grp)
            (saturating_add next_minor (cc_circuit_padding constraints)) (cp_next plan)\<rparr>)"

text \<open>The candidates circuits start from, one per queue with reservations.\<close>

definition start_circuit_minors ::
  "ClassIdentityPlannerConstraints \<Rightarrow> (u32 \<times> u32) list \<Rightarrow> PlannerMinorReservations \<Rightarrow> (u32 \<times> u32) list" where
  "start_circuit_minors constraints next_site reserved_circuit =
     foldl (\<lambda>next_circuit (queue, reserved).
         let start = (case map_of next_site queue of
                 Some n \<Rightarrow> n
               | None \<Rightarrow> next_free_minor (max (cc_circuit_minor_start constraints) 3) reserved)
         in AList.update queue
              (next_free_minor (max start (max (cc_circuit_minor_start constraints) 3)) reserved) next_circuit)
       [] reserved_circuit"

text \<open>\<open>extend\<close> of every queue's set by the other map's.\<close>

definition merge_reservations ::
  "PlannerMinorReservations \<Rightarrow> PlannerMinorReservations \<Rightarrow> PlannerMinorReservations" where
  "merge_reservations reserved others =
     foldl (\<lambda>r (queue, minors).
         AList.update queue (foldl (\<lambda>s m. push_unique m s) (occupied r queue) minors) r)
       reserved others"

definition highest_reserved_next :: "PlannerMinorReservations \<Rightarrow> u32 \<Rightarrow> u32" where
  "highest_reserved_next reserved queue =
     saturating_add (case occupied reserved queue of [] \<Rightarrow> 2 | m # ms \<Rightarrow> foldl max m ms) 1"

definition last_used_minors ::
  "PlannerMinorReservations \<Rightarrow> (u32 \<times> u32) list \<Rightarrow> (u32 \<times> u32) list \<Rightarrow> (u32 \<times> u32) list" where
  "last_used_minors reserved_circuit next_site next_circuit =
     foldl (\<lambda>last_used queue.
         let site_next = (case map_of next_site queue of Some n \<Rightarrow> n | None \<Rightarrow> 3);
             circuit_next = (case map_of next_circuit queue of Some n \<Rightarrow> n | None \<Rightarrow> 3)
         in AList.update queue
              (max (max site_next circuit_next) (highest_reserved_next reserved_circuit queue)) last_used)
       [] (map fst reserved_circuit @ map fst next_site)"

definition plan_output :: "SitePlan \<Rightarrow> CircuitPlan \<Rightarrow> ClassIdentityPlannerOutput" where
  "plan_output site_plan circuit_plan =
     \<lparr>po_sites = sp_sites site_plan, po_circuits = cp_circuits circuit_plan,
      po_site_state = sp_state site_plan, po_circuit_state = cp_state circuit_plan,
      po_last_used_minor_by_queue =
        last_used_minors (cp_reserved circuit_plan) (sp_next site_plan) (cp_next circuit_plan)\<rparr>"

definition plan_circuit_groups ::
  "CircuitIdentityGroupInput list \<Rightarrow> (string \<times> u32) list \<Rightarrow> ClassIdentityPlannerConstraints
    \<Rightarrow> SitePlan \<Rightarrow> ClassIdentityPlannerOutput" where
  "plan_circuit_groups circuit_groups reusable_circuit constraints site_plan =
     plan_output site_plan
       (foldl (plan_group reusable_circuit constraints)
         \<lparr>cp_reserved = sp_reserved site_plan,
          cp_next = start_circuit_minors constraints (sp_next site_plan) (sp_reserved site_plan),
          cp_circuits = [], cp_state = []\<rparr> circuit_groups)"

definition plan_class_identities_with_constraints ::
  "SiteIdentityInput list \<Rightarrow> CircuitIdentityGroupInput list
    \<Rightarrow> (string \<times> PlannerSiteIdentityState) list \<Rightarrow> (string \<times> PlannerCircuitIdentityState) list
    \<Rightarrow> ClassIdentityPlannerConstraints \<Rightarrow> ClassIdentityPlannerOutput" where
  "plan_class_identities_with_constraints sites circuit_groups previous_sites previous_circuits constraints =
     (let (reusable_site, reserved) =
            reserve_reusable_site_minors sites previous_sites (cc_stick_offset constraints)
              (merge_reservations (cc_reserved_site_minors constraints) (cc_reserved_circuit_minors constraints));
          (reusable_circuit, reserved) =
            reserve_reusable_circuit_minors circuit_groups previous_circuits (cc_stick_offset constraints) reserved
      in plan_circuit_groups circuit_groups reusable_circuit constraints
           (foldl (plan_site reusable_site constraints)
             \<lparr>sp_reserved = reserved, sp_next = [], sp_sites = [], sp_state = []\<rparr> sites))"

definition plan_class_identities ::
  "SiteIdentityInput list \<Rightarrow> CircuitIdentityGroupInput list
    \<Rightarrow> (string \<times> PlannerSiteIdentityState) list \<Rightarrow> (string \<times> PlannerCircuitIdentityState) list
    \<Rightarrow> u16 \<Rightarrow> u32 \<Rightarrow> ClassIdentityPlannerOutput" where
  "plan_class_identities sites circuit_groups previous_sites previous_circuits stick_offset circuit_padding =
     (let (reserved_site, reserved_circuit) =
            build_class_identity_reservations sites circuit_groups previous_sites previous_circuits
      in plan_class_identities_with_constraints sites circuit_groups previous_sites previous_circuits
           \<lparr>cc_reserved_site_minors = reserved_site, cc_reserved_circuit_minors = reserved_circuit,
            cc_site_minor_start = 3, cc_circuit_minor_start = 3,
            cc_stick_offset = stick_offset, cc_circuit_padding = circuit_padding\<rparr>)"

end
