(* ===== verification/Class_Planner_Properties.thy ===== *)
theory Class_Planner_Properties
  imports Class_Planner
begin

text \<open>
  Correctness of the class planner: the search for a free minor, the planning loops as a refinement of
  an abstract allocator given by the step relation \<open>allocates\<close>, the reuse of stored minors, and the
  properties of whole plans.
\<close>

section \<open>The first free minor\<close>

lemma next_free_minor_loop_free:
  assumes "\<forall>j < tested. start + word_of_nat j \<in> set reserved" and "candidate = start + word_of_nat tested"
    and "tested \<le> 4294967296" and "set reserved \<noteq> UNIV"
  shows "next_free_minor_loop reserved candidate tested \<notin> set reserved"
  using assms
proof (induction reserved candidate tested rule: next_free_minor_loop.induct)
  case (1 reserved candidate tested)
  have "tested < 4294967296" if "candidate \<in> set reserved"
  proof (rule ccontr)
    assume "\<not> tested < 4294967296"
    have "x \<in> set reserved" for x
    proof -
      have "unat (x - start) < 4294967296" using unsigned_less [of "x - start"] by simp
      then have "unat (x - start) < tested" using \<open>\<not> tested < 4294967296\<close> by linarith
      then have "start + word_of_nat (unat (x - start)) \<in> set reserved" using "1.prems"(1) by blast
      then show ?thesis by simp
    qed
    with "1.prems"(4) show False by blast
  qed
  moreover have "next_free_minor_loop reserved (candidate + 1) (Suc tested) \<notin> set reserved"
    if "candidate \<in> set reserved" "tested < 4294967296"
    using 1 that by (intro "1.IH") (auto simp: less_Suc_eq add_ac)
  ultimately show ?case by (subst next_free_minor_loop.simps) auto
qed

lemma next_free_minor_free:
  assumes "card (set reserved) < 4294967296"
  shows "next_free_minor start reserved \<notin> set reserved"
proof -
  have "card (UNIV :: u32 set) = 4294967296" by (simp add: card_word)
  then have "set reserved \<noteq> UNIV" using assms by (intro notI) simp
  then show ?thesis unfolding next_free_minor_def by (intro next_free_minor_loop_free) simp_all
qed

section \<open>Reservations as sets\<close>

definition minors :: "PlannerMinorReservations \<Rightarrow> u32 \<Rightarrow> u32 set" where
  "minors reserved queue = set (occupied reserved queue)"

lemma minors_reserve: "minors (reserve q m r) = (minors r)(q := insert m (minors r q))"
  by (auto simp: minors_def reserve_def occupied_def update_conv' fun_eq_iff)

lemma minors_touch: "minors (AList.update q (occupied r q) r) = minors r"
  by (auto simp: minors_def occupied_def update_conv' fun_eq_iff split: option.splits)

lemma set_push_all: "set (foldl (\<lambda>s m. push_unique m s) s ms) = set s \<union> set ms"
  by (induction ms arbitrary: s) auto

lemma minors_merge:
  "distinct (map fst others) \<Longrightarrow> minors (merge_reservations r others) q = minors r q \<union> minors others q"
proof (induction others arbitrary: r)
  case (Cons x others)
  obtain q' ms where x: "x = (q', ms)" by (cases x)
  have "minors (AList.update q' (foldl (\<lambda>s m. push_unique m s) (occupied r q') ms) r) q
      = (if q = q' then minors r q \<union> set ms else minors r q)"
    by (auto simp: minors_def occupied_def update_conv' set_push_all)
  moreover have "minors others q' = {}" using Cons.prems x
    by (auto simp: minors_def occupied_def map_of_eq_None_iff [symmetric] split: option.splits)
  ultimately show ?case using Cons x
    by (auto simp: merge_reservations_def minors_def occupied_def split: if_splits)
qed (simp add: merge_reservations_def minors_def occupied_def)

lemma card_minors_reserve: "card (minors (reserve q m r) q') \<le> Suc (card (minors r q'))"
  by (simp add: minors_reserve card_insert_if minors_def)

section \<open>An abstract allocator\<close>

text \<open>
  What planning does to the sets of reserved minors, one item after the other: an item with a
  reusable minor takes it, any other takes one that is free on its queue. \<open>(key, queue, minor)\<close> are
  the items with what they were given.
\<close>

inductive allocates ::
  "('k \<rightharpoonup> u32) \<Rightarrow> (u32 \<Rightarrow> u32 set) \<Rightarrow> ('k \<times> u32 \<times> u32) list \<Rightarrow> (u32 \<Rightarrow> u32 set) \<Rightarrow> bool"
  for reusable where
  Done: "allocates reusable R [] R"
| Reuse: "reusable k = Some m \<Longrightarrow> allocates reusable (R(q := insert m (R q))) items R'
    \<Longrightarrow> allocates reusable R ((k, q, m) # items) R'"
| Fresh: "reusable k = None \<Longrightarrow> m \<notin> R q \<Longrightarrow> allocates reusable (R(q := insert m (R q))) items R'
    \<Longrightarrow> allocates reusable R ((k, q, m) # items) R'"

inductive_cases allocates_ConsE [elim!]: "allocates reusable R (item # items) R'"
inductive_cases allocates_NilE [elim!]: "allocates reusable R [] R'"

lemma allocates_append:
  "allocates reusable R xs R' \<Longrightarrow> allocates reusable R' ys R'' \<Longrightarrow> allocates reusable R (xs @ ys) R''"
  by (induction rule: allocates.induct) (auto intro: allocates.intros)

lemma allocates_map_key:
  "allocates reusable R xs R' \<Longrightarrow> (\<And>k. reusable' (f k) = reusable k) \<Longrightarrow>
   allocates reusable' R (map (\<lambda>(k, q, m). (f k, q, m)) xs) R'"
  by (induction rule: allocates.induct) (auto intro: allocates.intros)

lemma allocates_result:
  "allocates reusable R items R' \<Longrightarrow> R' q = R q \<union> {m. \<exists>k. (k, q, m) \<in> set items}"
  by (induction rule: allocates.induct) auto

lemma card_allocates:
  "allocates reusable R items R' \<Longrightarrow> (\<And>q. finite (R q)) \<Longrightarrow> card (R' q) \<le> card (R q) + length items"
proof (induction rule: allocates.induct)
  case (Reuse k m R q' items R')
  then have "card (R' q) \<le> card ((R(q' := insert m (R q'))) q) + length items" by simp
  also have "card ((R(q' := insert m (R q'))) q) \<le> Suc (card (R q))"
    using Reuse.prems by (simp add: card_insert_if)
  finally show ?case by simp
next
  case (Fresh k m R q' items R')
  then have "card (R' q) \<le> card ((R(q' := insert m (R q'))) q) + length items" by simp
  also have "card ((R(q' := insert m (R q'))) q) \<le> Suc (card (R q))"
    using Fresh.prems by (simp add: card_insert_if)
  finally show ?case by simp
qed simp

lemma allocates_fresh:
  "allocates reusable R items R' \<Longrightarrow> (k, q, m) \<in> set items \<Longrightarrow> reusable k = None \<Longrightarrow> m \<notin> R q"
  by (induction rule: allocates.induct) (auto split: if_splits)

lemma allocates_reused:
  "allocates reusable R items R' \<Longrightarrow> (k, q, m) \<in> set items \<Longrightarrow> reusable k = Some n \<Longrightarrow> m = n"
  by (induction rule: allocates.induct) auto

text \<open>Reusable minors are reserved beforehand, and on one queue no two keys have the same.\<close>

definition reuse_ok :: "('k \<rightharpoonup> u32) \<Rightarrow> (u32 \<Rightarrow> u32 set) \<Rightarrow> ('k \<times> u32 \<times> u32) list \<Rightarrow> bool" where
  "reuse_ok reusable R items \<longleftrightarrow>
     (\<forall>k q m. (k, q, m) \<in> set items \<and> reusable k = Some m \<longrightarrow> m \<in> R q)
     \<and> (\<forall>k k' q m. (k, q, m) \<in> set items \<and> (k', q, m) \<in> set items
           \<and> reusable k = Some m \<and> reusable k' = Some m \<longrightarrow> k = k')"

lemma reuse_ok_Cons:
  assumes "reuse_ok reusable R (item # items)"
  shows "reuse_ok reusable (R(q := insert m (R q))) items"
proof -
  have "n \<in> (R(q := insert m (R q))) q'" if "n \<in> R q'" for n q' using that by auto
  with assms show ?thesis unfolding reuse_ok_def by (meson list.set_intros(2))
qed

lemma allocates_distinct:
  assumes "allocates reusable R items R'" and "distinct (map fst items)" and "reuse_ok reusable R items"
  shows "distinct (map snd items)"
  using assms
proof (induction rule: allocates.induct)
  case (Reuse k m R q items R')
  have "(k', q, m) \<notin> set items" for k'
  proof
    assume k': "(k', q, m) \<in> set items"
    then have "k' \<noteq> k" using Reuse.prems(1) by force
    show False
    proof (cases "reusable k'")
      case None
      with allocates_fresh [OF Reuse.hyps(2) k'] show False by simp
    next
      case (Some n)
      then have "reusable k' = Some m" using allocates_reused [OF Reuse.hyps(2) k'] by simp
      then have "k = k'" using Reuse.prems(2) Reuse.hyps(1) k'
        unfolding reuse_ok_def by (meson list.set_intros)
      with \<open>k' \<noteq> k\<close> show False by simp
    qed
  qed
  moreover have "reuse_ok reusable (R(q := insert m (R q))) items"
    using Reuse.prems(2) by (rule reuse_ok_Cons)
  then have "distinct (map snd items)" using Reuse.prems(1) by (intro Reuse.IH) (simp_all del: fun_upd_apply)
  ultimately show ?case by force
next
  case (Fresh k m R q items R')
  have "(k', q, m) \<notin> set items" for k'
  proof
    assume k': "(k', q, m) \<in> set items"
    show False
    proof (cases "reusable k'")
      case None
      with allocates_fresh [OF Fresh.hyps(3) k'] show False by simp
    next
      case (Some n)
      then have "reusable k' = Some m" using allocates_reused [OF Fresh.hyps(3) k'] by simp
      then have "m \<in> R q" using Fresh.prems(2) k' unfolding reuse_ok_def by (meson list.set_intros(2))
      with Fresh.hyps(2) show False ..
    qed
  qed
  moreover have "reuse_ok reusable (R(q := insert m (R q))) items"
    using Fresh.prems(2) by (rule reuse_ok_Cons)
  then have "distinct (map snd items)" using Fresh.prems(1) by (intro Fresh.IH) (simp_all del: fun_upd_apply)
  ultimately show ?case by force
qed simp

section \<open>The reuse loop\<close>

lemma reserve_reusable_loop_other:
  "k \<notin> fst ` set kvs \<Longrightarrow> map_of (fst (reserve_reusable_loop minor queue kvs r reusable)) k = map_of reusable k"
  by (induction minor queue kvs r reusable rule: reserve_reusable_loop.induct)
    (auto simp: update_conv' split: option.splits)

lemma reserve_reusable_loop_minors:
  assumes "distinct (map fst kvs)" and "fst ` set kvs \<inter> dom (map_of reusable) = {}"
    and "reserve_reusable_loop minor queue kvs r reusable = (reusable', r')"
  shows "minors r' q = minors r q \<union> {m. \<exists>k v. (k, v) \<in> set kvs \<and> queue v = q \<and> map_of reusable' k = Some m}"
  using assms
proof (induction minor queue kvs r reusable rule: reserve_reusable_loop.induct)
  case (2 minor queue k v rest r reusable)
  have other: "map_of reusable' k = map_of reusable'' k"
    if "reserve_reusable_loop minor queue rest r'' reusable'' = (reusable', r')" for r'' reusable''
    using reserve_reusable_loop_other [of k rest minor queue r'' reusable''] 2(4) that by simp
  show ?case
  proof (cases "minor k v = None \<or> the (minor k v) \<in> set (occupied r (queue v))")
    case True
    then have l: "reserve_reusable_loop minor queue rest r reusable = (reusable', r')"
      using 2(6) by (auto split: option.splits if_splits)
    have "map_of reusable' k = None" using other [OF l] 2(5) by auto
    moreover have "minors r' q = minors r q
        \<union> {m. \<exists>k v. (k, v) \<in> set rest \<and> queue v = q \<and> map_of reusable' k = Some m}"
      using True 2 l by (cases "minor k v") auto
    ultimately show ?thesis by auto
  next
    case False
    then obtain m where m: "minor k v = Some m" "m \<notin> set (occupied r (queue v))" by auto
    then have l: "reserve_reusable_loop minor queue rest (reserve (queue v) m r) (AList.update k m reusable) = (reusable', r')"
      using 2(6) by simp
    have "map_of reusable' k = Some m" using other [OF l] by (simp add: update_conv')
    moreover have "minors r' q = minors (reserve (queue v) m r) q
        \<union> {m. \<exists>k v. (k, v) \<in> set rest \<and> queue v = q \<and> map_of reusable' k = Some m}"
    proof -
      have "fst ` set rest \<inter> dom (map_of (AList.update k m reusable)) = {}"
        using 2(4,5) by (auto simp: update_conv' split: if_splits)
      with 2(3) [OF m] 2(4) l show ?thesis by simp
    qed
    ultimately show ?thesis by (auto simp: minors_reserve)
  qed
qed auto

lemma reserve_reusable_loop_entries:
  assumes "distinct (map fst kvs)" and "fst ` set kvs \<inter> dom (map_of reusable) = {}"
    and "(k, v) \<in> set kvs" and "map_of (fst (reserve_reusable_loop minor queue kvs r reusable)) k = Some m"
  shows "minor k v = Some m \<and> m \<notin> minors r (queue v)"
  using assms
proof (induction minor queue kvs r reusable rule: reserve_reusable_loop.induct)
  case (2 minor queue k' v' rest r reusable)
  have other: "map_of (fst (reserve_reusable_loop minor queue rest r'' reusable'')) k' = map_of reusable'' k'" for r'' reusable''
    using 2(4) by (intro reserve_reusable_loop_other) simp
  show ?case
  proof (cases "minor k' v' = None \<or> the (minor k' v') \<in> set (occupied r (queue v'))")
    case True
    then have l: "map_of (fst (reserve_reusable_loop minor queue rest r reusable)) k = Some m"
      using 2(7) by (auto split: option.splits if_splits)
    have "map_of reusable k' = None" using 2(5) by auto
    then have "k \<noteq> k'" using l other [of r reusable] by auto
    then have "(k, v) \<in> set rest" using 2(6) by auto
    then show ?thesis using True 2 l by (cases "minor k' v'") auto
  next
    case False
    then obtain n where n: "minor k' v' = Some n" "n \<notin> set (occupied r (queue v'))" by auto
    then have l: "map_of (fst (reserve_reusable_loop minor queue rest (reserve (queue v') n r) (AList.update k' n reusable))) k = Some m"
      using 2(7) by simp
    show ?thesis
    proof (cases "k = k'")
      case True
      then have "v = v'" using 2(4,6) by (force simp: image_iff)
      then show ?thesis using True l n other by (simp add: update_conv' minors_def)
    next
      case False
      then have "(k, v) \<in> set rest" using 2(6) by auto
      moreover have "fst ` set rest \<inter> dom (map_of (AList.update k' n reusable)) = {}"
        using 2(4,5) by (auto simp: update_conv' split: if_splits)
      ultimately have "minor k v = Some m \<and> m \<notin> minors (reserve (queue v') n r) (queue v)"
        using 2(3) [OF n] 2(4) l by simp
      then show ?thesis by (auto simp: minors_reserve split: if_splits)
    qed
  qed
qed simp

lemma reserve_reusable_loop_inj:
  assumes "distinct (map fst kvs)" and "fst ` set kvs \<inter> dom (map_of reusable) = {}"
    and "(k, v) \<in> set kvs" and "(k', v') \<in> set kvs" and "queue v = queue v'"
    and "map_of (fst (reserve_reusable_loop minor queue kvs r reusable)) k = Some m"
    and "map_of (fst (reserve_reusable_loop minor queue kvs r reusable)) k' = Some m"
  shows "k = k'"
  using assms
proof (induction minor queue kvs r reusable arbitrary: k k' v v' rule: reserve_reusable_loop.induct)
  case (2 minor queue k0 v0 rest r reusable)
  have other: "map_of (fst (reserve_reusable_loop minor queue rest r'' reusable'')) k0 = map_of reusable'' k0" for r'' reusable''
    using 2(4) by (intro reserve_reusable_loop_other) simp
  show ?case
  proof (cases "minor k0 v0 = None \<or> the (minor k0 v0) \<in> set (occupied r (queue v0))")
    case True
    then have l: "map_of (fst (reserve_reusable_loop minor queue rest r reusable)) k = Some m"
      "map_of (fst (reserve_reusable_loop minor queue rest r reusable)) k' = Some m"
      using 2(9,10) by (auto split: option.splits if_splits)
    have "map_of reusable k0 = None" using 2(5) by auto
    then have "k \<noteq> k0" "k' \<noteq> k0" using l other [of r reusable] by auto
    then have "(k, v) \<in> set rest" "(k', v') \<in> set rest" using 2(6,7) by auto
    then show ?thesis using True 2(1,2,4,5,8) l by (cases "minor k0 v0") auto
  next
    case False
    then obtain n where n: "minor k0 v0 = Some n" "n \<notin> set (occupied r (queue v0))" by auto
    let ?rec = "reserve_reusable_loop minor queue rest (reserve (queue v0) n r) (AList.update k0 n reusable)"
    have l: "map_of (fst ?rec) k = Some m" "map_of (fst ?rec) k' = Some m" using 2(9,10) n by simp_all
    have disj: "fst ` set rest \<inter> dom (map_of (AList.update k0 n reusable)) = {}"
      using 2(4,5) by (auto simp: update_conv' split: if_splits)
    have d: "distinct (map fst rest)" using 2(4) by simp
    have tail: "m \<noteq> n" if "(j, w) \<in> set rest" "queue w = queue v0" "map_of (fst ?rec) j = Some m" for j w
      using reserve_reusable_loop_entries [OF d disj that(1,3)] that(2) by (auto simp: minors_reserve)
    have head: "m = n" if "map_of (fst ?rec) k0 = Some m" using other that by (simp add: update_conv')
    have v: "w = v0" if "(k0, w) \<in> set ((k0, v0) # rest)" for w using 2(4) that by (force simp: image_iff)
    consider "k = k0" "k' = k0" | "k = k0" "(k', v') \<in> set rest" | "(k, v) \<in> set rest" "k' = k0"
      | "(k, v) \<in> set rest" "(k', v') \<in> set rest" using 2(6,7) by auto
    then show ?thesis
    proof cases
      case 2
      then show ?thesis using tail head l v \<open>(k, v) \<in> _\<close> \<open>queue v = queue v'\<close> by metis
    next
      case 3
      then show ?thesis using tail head l v \<open>(k', v') \<in> _\<close> \<open>queue v = queue v'\<close> by metis
    next
      case 4
      then show ?thesis using "2.IH"(3) [OF n d disj] l \<open>queue v = queue v'\<close> by blast
    qed simp
  qed
qed simp

text \<open>When the stored minors are free and distinct, all of them are reused.\<close>

lemma reserve_reusable_loop_complete:
  assumes "distinct (map fst kvs)" and "distinct (map (\<lambda>(k, v). (queue v, minor k v)) kvs)"
    and "\<And>k v. (k, v) \<in> set kvs \<Longrightarrow> \<exists>m. minor k v = Some m \<and> m \<notin> minors r (queue v)"
    and "(k, v) \<in> set kvs"
  shows "map_of (fst (reserve_reusable_loop minor queue kvs r reusable)) k = minor k v"
  using assms
proof (induction minor queue kvs r reusable rule: reserve_reusable_loop.induct)
  case (2 minor queue k0 v0 rest r reusable)
  obtain n where n: "minor k0 v0 = Some n" "n \<notin> set (occupied r (queue v0))"
    using 2(6) [of k0 v0] by (auto simp: minors_def)
  let ?r = "reserve (queue v0) n r"
  have free: "\<exists>m. minor j w = Some m \<and> m \<notin> minors ?r (queue w)" if j: "(j, w) \<in> set rest" for j w
  proof -
    obtain m where m: "minor j w = Some m" "m \<notin> minors r (queue w)" using 2(6) [of j w] j by auto
    moreover have "m \<noteq> n" if "queue w = queue v0" using 2(5) j n(1) m(1) that by force
    ultimately show ?thesis by (auto simp: minors_reserve)
  qed
  show ?case
  proof (cases "(k, v) \<in> set rest")
    case True
    have "map_of (fst (reserve_reusable_loop minor queue rest ?r (AList.update k0 n reusable))) k = minor k v"
      using 2(3) [OF n] 2(4,5) free True by auto
    then show ?thesis using n by simp
  next
    case False
    then have "k = k0" "v = v0" using 2(7) by auto
    moreover have "map_of (fst (reserve_reusable_loop minor queue rest ?r (AList.update k0 n reusable))) k0 = Some n"
      using reserve_reusable_loop_other [of k0 rest minor queue ?r "AList.update k0 n reusable"] 2(4)
      by (simp add: update_conv')
    ultimately show ?thesis using n by simp
  qed
qed simp

lemma card_reserve_reusable_loop:
  assumes "distinct (map fst kvs)" and "fst ` set kvs \<inter> dom (map_of reusable) = {}"
    and "reserve_reusable_loop minor queue kvs r reusable = (reusable', r')"
  shows "card (minors r' q) \<le> card (minors r q) + length kvs"
proof -
  have "minors r' q \<subseteq> minors r q \<union> (\<lambda>(k, v). the (map_of reusable' k)) ` set kvs"
    unfolding reserve_reusable_loop_minors [OF assms] by force
  then have "card (minors r' q) \<le> card (minors r q \<union> (\<lambda>(k, v). the (map_of reusable' k)) ` set kvs)"
    by (rule card_mono [rotated]) (simp add: minors_def)
  also have "\<dots> \<le> card (minors r q) + card ((\<lambda>(k, v). the (map_of reusable' k)) ` set kvs)"
    by (rule card_Un_le)
  also have "card ((\<lambda>(k, v). the (map_of reusable' k)) ` set kvs) \<le> length kvs"
    by (metis card_image_le card_length finite_set le_trans)
  finally show ?thesis by simp
qed

section \<open>The plan refines the allocator\<close>

definition site_assignment :: "u16 \<Rightarrow> SiteIdentityInput \<Rightarrow> u32 \<Rightarrow> SiteIdentityAssignment" where
  "site_assignment stick_offset site m =
     \<lparr>sia_site_key = si_site_key site, sia_queue = si_queue site, sia_class_minor = u16_or_max m,
      sia_class_major = u16_or_max (si_queue site),
      sia_up_class_major = saturating_add (u16_or_max (si_queue site)) stick_offset,
      sia_parent_path = si_parent_path site\<rparr>"

definition site_identity_state :: "u16 \<Rightarrow> SiteIdentityInput \<Rightarrow> u32 \<Rightarrow> PlannerSiteIdentityState" where
  "site_identity_state stick_offset site m =
     \<lparr>ps_class_minor = u16_or_max m, ps_queue = si_queue site, ps_parent_path = si_parent_path site,
      ps_class_major = u16_or_max (si_queue site),
      ps_up_class_major = saturating_add (u16_or_max (si_queue site)) stick_offset\<rparr>"

text \<open>One step gives the site a minor \<open>m\<close>, the reusable one or a free one.\<close>

lemma plan_site_step:
  assumes "card (minors (sp_reserved plan) (si_queue site)) < 4294967296"
  obtains m where "map_of reusable (si_site_key site) = Some m
      \<or> map_of reusable (si_site_key site) = None \<and> m \<notin> minors (sp_reserved plan) (si_queue site)"
    and "sp_reserved (plan_site reusable cc plan site) = reserve (si_queue site) m (sp_reserved plan)"
    and "sp_sites (plan_site reusable cc plan site) = sp_sites plan @ [site_assignment (cc_stick_offset cc) site m]"
    and "sp_state (plan_site reusable cc plan site)
      = AList.update (si_site_key site) (site_identity_state (cc_stick_offset cc) site m) (sp_state plan)"
proof (cases "map_of reusable (si_site_key site)")
  case (Some m)
  then show thesis
    by (intro that [of m]) (simp_all add: plan_site_def Let_def site_assignment_def site_identity_state_def)
next
  case None
  let ?n = "case map_of (sp_next plan) (si_queue site) of Some n \<Rightarrow> n | None \<Rightarrow> max (cc_site_minor_start cc) 3"
  let ?m = "next_free_minor ?n (occupied (sp_reserved plan) (si_queue site))"
  have "?m \<notin> minors (sp_reserved plan) (si_queue site)"
    using next_free_minor_free assms by (simp add: minors_def)
  with None show thesis
    by (intro that [of ?m]) (simp_all add: plan_site_def Let_def site_assignment_def site_identity_state_def)
qed

lemma plan_sites_allocate:
  assumes "\<forall>q. card (minors (sp_reserved plan) q) + length sites \<le> 4294967296"
  shows "\<exists>ms. length ms = length sites
    \<and> allocates (map_of reusable) (minors (sp_reserved plan))
        (map2 (\<lambda>s m. (si_site_key s, si_queue s, m)) sites ms)
        (minors (sp_reserved (foldl (plan_site reusable cc) plan sites)))
    \<and> sp_sites (foldl (plan_site reusable cc) plan sites)
        = sp_sites plan @ map2 (site_assignment (cc_stick_offset cc)) sites ms
    \<and> sp_state (foldl (plan_site reusable cc) plan sites)
        = foldl (\<lambda>st (k, v). AList.update k v st) (sp_state plan)
            (map2 (\<lambda>s m. (si_site_key s, site_identity_state (cc_stick_offset cc) s m)) sites ms)"
  using assms
proof (induction sites arbitrary: plan)
  case Nil
  then show ?case by (auto intro: allocates.Done)
next
  case (Cons site sites)
  have "card (minors (sp_reserved plan) (si_queue site)) < 4294967296"
    using spec [OF Cons.prems, of "si_queue site"] by simp
  then obtain m where m: "map_of reusable (si_site_key site) = Some m
      \<or> map_of reusable (si_site_key site) = None \<and> m \<notin> minors (sp_reserved plan) (si_queue site)"
    and r: "sp_reserved (plan_site reusable cc plan site) = reserve (si_queue site) m (sp_reserved plan)"
    and st: "sp_sites (plan_site reusable cc plan site) = sp_sites plan @ [site_assignment (cc_stick_offset cc) site m]"
      "sp_state (plan_site reusable cc plan site)
        = AList.update (si_site_key site) (site_identity_state (cc_stick_offset cc) site m) (sp_state plan)"
    by (rule plan_site_step)
  let ?plan = "plan_site reusable cc plan site"
  have "card (minors (sp_reserved ?plan) q) + length sites \<le> 4294967296" for q
    using spec [OF Cons.prems, of q] card_minors_reserve [of "si_queue site" m "sp_reserved plan" q] by (simp add: r)
  then obtain ms where len: "length ms = length sites"
    and al: "allocates (map_of reusable) (minors (sp_reserved ?plan))
        (map2 (\<lambda>s m. (si_site_key s, si_queue s, m)) sites ms)
        (minors (sp_reserved (foldl (plan_site reusable cc) ?plan sites)))"
    and out: "sp_sites (foldl (plan_site reusable cc) ?plan sites)
        = sp_sites ?plan @ map2 (site_assignment (cc_stick_offset cc)) sites ms"
      "sp_state (foldl (plan_site reusable cc) ?plan sites)
        = foldl (\<lambda>st (k, v). AList.update k v st) (sp_state ?plan)
            (map2 (\<lambda>s m. (si_site_key s, site_identity_state (cc_stick_offset cc) s m)) sites ms)"
    using Cons.IH [of ?plan] by blast
  have "allocates (map_of reusable) (minors (sp_reserved plan))
      ((si_site_key site, si_queue site, m) # map2 (\<lambda>s m. (si_site_key s, si_queue s, m)) sites ms)
      (minors (sp_reserved (foldl (plan_site reusable cc) ?plan sites)))"
    using m al unfolding r minors_reserve by (blast intro: allocates.intros)
  with len out st show ?case by (intro exI [of _ "m # ms"]) simp
qed

definition circuit_assignment ::
  "u16 \<Rightarrow> string \<times> CircuitIdentityGroupInput \<Rightarrow> u32 \<Rightarrow> CircuitIdentityAssignment" where
  "circuit_assignment stick_offset c m =
     \<lparr>cia_circuit_id = fst c, cia_parent_node = cg_parent_node (snd c), cia_queue = cg_queue (snd c),
      cia_class_minor = u16_or_max m, cia_class_major = u16_or_max (cg_queue (snd c)),
      cia_up_class_major = saturating_add (u16_or_max (cg_queue (snd c))) stick_offset\<rparr>"

definition circuit_identity_state ::
  "u16 \<Rightarrow> string \<times> CircuitIdentityGroupInput \<Rightarrow> u32 \<Rightarrow> PlannerCircuitIdentityState" where
  "circuit_identity_state stick_offset c m =
     \<lparr>pc_class_minor = u16_or_max m, pc_queue = cg_queue (snd c), pc_parent_node = cg_parent_node (snd c),
      pc_class_major = u16_or_max (cg_queue (snd c)),
      pc_up_class_major = saturating_add (u16_or_max (cg_queue (snd c))) stick_offset\<rparr>"

definition circuits_of :: "CircuitIdentityGroupInput list \<Rightarrow> (string \<times> CircuitIdentityGroupInput) list" where
  "circuits_of groups = concat (map (\<lambda>grp. map (\<lambda>c. (c, grp)) (cg_circuit_ids grp)) groups)"

text \<open>A plan \<open>plan'\<close> follows from \<open>plan\<close> by giving \<open>ms\<close> to the circuits \<open>cs\<close>.\<close>

definition circuits_allocated ::
  "(string \<times> u32) list \<Rightarrow> u16 \<Rightarrow> CircuitPlan \<Rightarrow> (string \<times> CircuitIdentityGroupInput) list \<Rightarrow> u32 list
    \<Rightarrow> CircuitPlan \<Rightarrow> bool" where
  "circuits_allocated reusable off plan cs ms plan' \<longleftrightarrow>
     length ms = length cs
     \<and> allocates (map_of reusable) (minors (cp_reserved plan))
         (map2 (\<lambda>c m. (fst c, cg_queue (snd c), m)) cs ms) (minors (cp_reserved plan'))
     \<and> cp_circuits plan' = cp_circuits plan @ map2 (circuit_assignment off) cs ms
     \<and> cp_state plan' = foldl (\<lambda>st (k, v). AList.update k v st) (cp_state plan)
         (map2 (\<lambda>c m. (fst c, circuit_identity_state off c m)) cs ms)"

lemma circuits_allocated_trans:
  assumes "circuits_allocated reusable off plan cs ms plan'"
    and "circuits_allocated reusable off plan' cs' ms' plan''"
  shows "circuits_allocated reusable off plan (cs @ cs') (ms @ ms') plan''"
  using assms allocates_append unfolding circuits_allocated_def by fastforce

lemma plan_circuit_step:
  assumes "card (minors (cp_reserved plan) (cg_queue grp)) < 4294967296"
  shows "\<exists>m. circuits_allocated reusable (cc_stick_offset cc) plan [(c, grp)] [m]
      (fst (plan_circuit reusable cc grp (plan, n) c))
    \<and> cp_reserved (fst (plan_circuit reusable cc grp (plan, n) c)) = reserve (cg_queue grp) m (cp_reserved plan)"
proof (cases "map_of reusable c")
  case (Some m)
  then show ?thesis
    by (intro exI [of _ m])
      (auto simp: circuits_allocated_def plan_circuit_def Let_def circuit_assignment_def circuit_identity_state_def
        minors_reserve intro: allocates.intros)
next
  case None
  let ?m = "next_free_minor n (occupied (cp_reserved plan) (cg_queue grp))"
  have "?m \<notin> minors (cp_reserved plan) (cg_queue grp)"
    using next_free_minor_free assms by (simp add: minors_def)
  with None show ?thesis
    by (intro exI [of _ ?m])
      (auto simp: circuits_allocated_def plan_circuit_def Let_def circuit_assignment_def circuit_identity_state_def
        minors_reserve intro: allocates.intros)
qed

lemma card_circuits_allocated:
  assumes "circuits_allocated reusable off plan cs ms plan'"
  shows "card (minors (cp_reserved plan') q) \<le> card (minors (cp_reserved plan) q) + length cs"
proof -
  have len: "length ms = length cs"
    and "minors (cp_reserved plan') q = minors (cp_reserved plan) q
      \<union> {m. \<exists>k. (k, q, m) \<in> set (map2 (\<lambda>c m. (fst c, cg_queue (snd c), m)) cs ms)}"
    using assms allocates_result unfolding circuits_allocated_def by blast+
  then have "minors (cp_reserved plan') q \<subseteq> minors (cp_reserved plan) q \<union> set ms"
    by (auto dest: set_zip_rightD)
  then have "card (minors (cp_reserved plan') q) \<le> card (minors (cp_reserved plan) q \<union> set ms)"
    by (rule card_mono [rotated]) (simp add: minors_def)
  also have "\<dots> \<le> card (minors (cp_reserved plan) q) + card (set ms)" by (rule card_Un_le)
  also have "card (set ms) \<le> length cs" using len by (metis card_length)
  finally show ?thesis by simp
qed

lemma plan_circuits_allocate:
  assumes "\<forall>q. card (minors (cp_reserved plan) q) + length ids \<le> 4294967296"
  shows "\<exists>ms. circuits_allocated reusable (cc_stick_offset cc) plan (map (\<lambda>c. (c, grp)) ids) ms
    (fst (foldl (plan_circuit reusable cc grp) (plan, n) ids))"
  using assms
proof (induction ids arbitrary: plan n)
  case Nil
  then show ?case by (auto simp: circuits_allocated_def intro: allocates.Done)
next
  case (Cons c ids)
  have "card (minors (cp_reserved plan) (cg_queue grp)) < 4294967296"
    using spec [OF Cons.prems, of "cg_queue grp"] by simp
  from plan_circuit_step [OF this] obtain m where
    step: "circuits_allocated reusable (cc_stick_offset cc) plan [(c, grp)] [m]
        (fst (plan_circuit reusable cc grp (plan, n) c))" by blast
  obtain plan' n' where p: "plan_circuit reusable cc grp (plan, n) c = (plan', n')"
    by (cases "plan_circuit reusable cc grp (plan, n) c")
  have "card (minors (cp_reserved plan') q) + length ids \<le> 4294967296" for q
    using spec [OF Cons.prems, of q] card_circuits_allocated [OF step, of q] by (simp add: p)
  then obtain ms where "circuits_allocated reusable (cc_stick_offset cc) plan' (map (\<lambda>c. (c, grp)) ids) ms
      (fst (foldl (plan_circuit reusable cc grp) (plan', n') ids))"
    using Cons.IH by blast
  from circuits_allocated_trans [OF step [unfolded p fst_conv] this] show ?case
    by (auto simp: p)
qed

lemma plan_group_allocate:
  assumes "\<forall>q. card (minors (cp_reserved plan) q) + length (cg_circuit_ids grp) \<le> 4294967296"
  shows "\<exists>ms. circuits_allocated reusable (cc_stick_offset cc) plan (map (\<lambda>c. (c, grp)) (cg_circuit_ids grp)) ms
    (plan_group reusable cc plan grp)"
proof -
  let ?plan = "plan\<lparr>cp_reserved := AList.update (cg_queue grp) (occupied (cp_reserved plan) (cg_queue grp)) (cp_reserved plan)\<rparr>"
  let ?n = "case map_of (cp_next plan) (cg_queue grp) of Some n \<Rightarrow> n
    | None \<Rightarrow> next_free_minor (max (cc_circuit_minor_start cc) 3) (occupied (cp_reserved plan) (cg_queue grp))"
  have "\<forall>q. card (minors (cp_reserved ?plan) q) + length (cg_circuit_ids grp) \<le> 4294967296"
    using assms by (simp add: minors_touch)
  from plan_circuits_allocate [OF this, of reusable cc grp ?n] obtain ms where
    "circuits_allocated reusable (cc_stick_offset cc) ?plan (map (\<lambda>c. (c, grp)) (cg_circuit_ids grp)) ms
      (fst (foldl (plan_circuit reusable cc grp) (?plan, ?n) (cg_circuit_ids grp)))" by blast
  then show ?thesis
    by (intro exI [of _ ms]) (simp add: circuits_allocated_def plan_group_def Let_def minors_touch case_prod_beta)
qed

lemma plan_groups_allocate:
  assumes "\<forall>q. card (minors (cp_reserved plan) q) + length (circuits_of groups) \<le> 4294967296"
  shows "\<exists>ms. circuits_allocated reusable (cc_stick_offset cc) plan (circuits_of groups) ms
    (foldl (plan_group reusable cc) plan groups)"
  using assms
proof (induction groups arbitrary: plan)
  case Nil
  then show ?case by (auto simp: circuits_allocated_def circuits_of_def intro: allocates.Done)
next
  case (Cons grp groups)
  have split: "circuits_of (grp # groups) = map (\<lambda>c. (c, grp)) (cg_circuit_ids grp) @ circuits_of groups"
    by (simp add: circuits_of_def)
  have "\<forall>q. card (minors (cp_reserved plan) q) + length (cg_circuit_ids grp) \<le> 4294967296"
  proof
    fix q
    show "card (minors (cp_reserved plan) q) + length (cg_circuit_ids grp) \<le> 4294967296"
      using spec [OF Cons.prems, of q] by (simp add: split)
  qed
  from plan_group_allocate [OF this] obtain ms where
    step: "circuits_allocated reusable (cc_stick_offset cc) plan (map (\<lambda>c. (c, grp)) (cg_circuit_ids grp)) ms
      (plan_group reusable cc plan grp)" by blast
  have "card (minors (cp_reserved (plan_group reusable cc plan grp)) q) + length (circuits_of groups) \<le> 4294967296" for q
    using spec [OF Cons.prems, of q] card_circuits_allocated [OF step, of q] by (simp add: split)
  then obtain ms' where "circuits_allocated reusable (cc_stick_offset cc) (plan_group reusable cc plan grp)
      (circuits_of groups) ms' (foldl (plan_group reusable cc) (plan_group reusable cc plan grp) groups)"
    using Cons.IH by blast
  from circuits_allocated_trans [OF step this] show ?case unfolding split by auto
qed

section \<open>Whole plans\<close>

text \<open>An upper bound on the minors that are ever reserved on one queue.\<close>

definition planner_size ::
  "SiteIdentityInput list \<Rightarrow> CircuitIdentityGroupInput list \<Rightarrow> ClassIdentityPlannerConstraints \<Rightarrow> nat" where
  "planner_size sites groups cc =
     length (concat (map snd (cc_reserved_site_minors cc))) + length (concat (map snd (cc_reserved_circuit_minors cc)))
     + 2 * (length sites + length (concat (map cg_circuit_ids groups)))"

text \<open>Well-formed input: keys are unique, as in the maps the code is given, and the sizes fit.\<close>

definition planner_input ::
  "SiteIdentityInput list \<Rightarrow> CircuitIdentityGroupInput list \<Rightarrow> ClassIdentityPlannerConstraints \<Rightarrow> bool" where
  "planner_input sites groups cc \<longleftrightarrow>
     distinct (map si_site_key sites) \<and> distinct (concat (map cg_circuit_ids groups))
     \<and> distinct (map fst (cc_reserved_circuit_minors cc))
     \<and> planner_size sites groups cc \<le> 4294967296"

lemma fst_circuits_of: "map fst (circuits_of groups) = concat (map cg_circuit_ids groups)"
  by (induction groups) (simp_all add: circuits_of_def comp_def)

lemma length_circuits_of: "length (circuits_of groups) = length (concat (map cg_circuit_ids groups))"
  by (metis fst_circuits_of length_map)

lemma card_minors_le: "card (minors r q) \<le> length (concat (map snd r))"
proof -
  have "minors r q \<subseteq> set (concat (map snd r))"
    by (auto simp: minors_def occupied_def split: option.splits dest!: map_of_SomeD [OF sym])
  then have "card (minors r q) \<le> card (set (concat (map snd r)))" by (rule card_mono [rotated]) simp
  also have "\<dots> \<le> length (concat (map snd r))" by (rule card_length)
  finally show ?thesis .
qed

definition site_items :: "SiteIdentityInput list \<Rightarrow> u32 list \<Rightarrow> (string \<times> u32 \<times> u32) list" where
  "site_items sites ms = map2 (\<lambda>s m. (si_site_key s, si_queue s, m)) sites ms"

definition circuit_items ::
  "(string \<times> CircuitIdentityGroupInput) list \<Rightarrow> u32 list \<Rightarrow> (string \<times> u32 \<times> u32) list" where
  "circuit_items cs ns = map2 (\<lambda>c m. (fst c, cg_queue (snd c), m)) cs ns"

lemma site_items_facts:
  "(k, q, m) \<in> set (site_items sites ms) \<Longrightarrow> \<exists>s \<in> set sites. k = si_site_key s \<and> q = si_queue s"
  "length ms = length sites \<Longrightarrow> map fst (site_items sites ms) = map si_site_key sites"
  by (auto simp: site_items_def dest: set_zip_leftD intro: nth_equalityI)

lemma circuit_items_facts:
  "(k, q, m) \<in> set (circuit_items cs ns) \<Longrightarrow> \<exists>c \<in> set cs. k = fst c \<and> q = cg_queue (snd c)"
  "length ns = length cs \<Longrightarrow> map fst (circuit_items cs ns) = map fst cs"
  by (force simp: circuit_items_def dest: set_zip_leftD, auto simp: circuit_items_def intro: nth_equalityI)

text \<open>
  The reservation phase: \<open>r1\<close> and \<open>r2\<close> are the reservations after the reusable minors of the sites
  and then of the circuits are added to \<open>r0\<close>.
\<close>

definition reuse_phase ::
  "SiteIdentityInput list \<Rightarrow> CircuitIdentityGroupInput list
    \<Rightarrow> (string \<times> u32) list \<Rightarrow> (string \<times> u32) list
    \<Rightarrow> PlannerMinorReservations \<Rightarrow> PlannerMinorReservations \<Rightarrow> PlannerMinorReservations \<Rightarrow> bool" where
  "reuse_phase sites groups rs rc r0 r1 r2 \<longleftrightarrow>
     (\<forall>q. minors r0 q \<subseteq> minors r1 q \<and> minors r1 q \<subseteq> minors r2 q
        \<and> card (minors r2 q) \<le> card (minors r0 q) + length sites + length (circuits_of groups))
     \<and> (\<forall>s \<in> set sites. \<forall>m. map_of rs (si_site_key s) = Some m \<longrightarrow>
          m \<in> minors r1 (si_queue s) \<and> m \<notin> minors r0 (si_queue s))
     \<and> (\<forall>c \<in> set (circuits_of groups). \<forall>m. map_of rc (fst c) = Some m \<longrightarrow>
          m \<in> minors r2 (cg_queue (snd c)) \<and> m \<notin> minors r1 (cg_queue (snd c)))
     \<and> (\<forall>s \<in> set sites. \<forall>s' \<in> set sites. \<forall>m. si_queue s = si_queue s'
          \<and> map_of rs (si_site_key s) = Some m \<and> map_of rs (si_site_key s') = Some m
          \<longrightarrow> si_site_key s = si_site_key s')
     \<and> (\<forall>c \<in> set (circuits_of groups). \<forall>c' \<in> set (circuits_of groups). \<forall>m. cg_queue (snd c) = cg_queue (snd c')
          \<and> map_of rc (fst c) = Some m \<and> map_of rc (fst c') = Some m \<longrightarrow> fst c = fst c')"

lemma reuse_loop_facts:
  assumes "distinct (map fst kvs)"
    and "reserve_reusable_loop minor queue (sort_key fst (collect_map kvs)) r [] = (reusable, r')"
  shows "minors r q \<subseteq> minors r' q" and "card (minors r' q) \<le> card (minors r q) + length kvs"
    and "(k, v) \<in> set kvs \<Longrightarrow> map_of reusable k = Some m \<Longrightarrow> m \<in> minors r' (queue v) \<and> m \<notin> minors r (queue v)"
    and "(k, v) \<in> set kvs \<Longrightarrow> (k', v') \<in> set kvs \<Longrightarrow> queue v = queue v' \<Longrightarrow> map_of reusable k = Some m
      \<Longrightarrow> map_of reusable k' = Some m \<Longrightarrow> k = k'"
proof -
  let ?ks = "sort_key fst kvs"
  have d: "distinct (map fst ?ks)" using assms(1) by (simp add: distinct_map)
  have e: "fst ` set ?ks \<inter> dom (map_of []) = {}" by simp
  have l: "reserve_reusable_loop minor queue ?ks r [] = (reusable, r')"
    using assms by (simp add: collect_map_id)
  note m = reserve_reusable_loop_minors [OF d e l]
  show "minors r q \<subseteq> minors r' q" by (simp add: m)
  show "card (minors r' q) \<le> card (minors r q) + length kvs"
    using card_reserve_reusable_loop [OF d e l, of q] by simp
  show "m \<in> minors r' (queue v) \<and> m \<notin> minors r (queue v)"
    if "(k, v) \<in> set kvs" "map_of reusable k = Some m"
    using reserve_reusable_loop_entries [OF d e, of k v minor queue r m] that l by (auto simp: m)
  show "k = k'" if "(k, v) \<in> set kvs" "(k', v') \<in> set kvs" "queue v = queue v'"
    "map_of reusable k = Some m" "map_of reusable k' = Some m"
    using reserve_reusable_loop_inj [OF d e, of k v k' v' queue minor r m] that l by simp
qed

lemma reuse_phase_holds:
  assumes "distinct (map si_site_key sites)" and "distinct (concat (map cg_circuit_ids groups))"
    and s: "reserve_reusable_site_minors sites previous_sites off r0 = (rs, r1)"
    and c: "reserve_reusable_circuit_minors groups previous_circuits off r1 = (rc, r2)"
  shows "reuse_phase sites groups rs rc r0 r1 r2"
proof -
  let ?ks = "map (\<lambda>site. (si_site_key site, site)) sites"
  have ds: "distinct (map fst ?ks)" and dc: "distinct (map fst (circuits_of groups))"
    using assms(1,2) by (simp_all add: comp_def fst_circuits_of)
  note S = reuse_loop_facts [OF ds s [unfolded reserve_reusable_site_minors_def]]
  note C = reuse_loop_facts [OF dc c [unfolded reserve_reusable_circuit_minors_def, folded circuits_of_def]]
  have card: "card (minors r2 q) \<le> card (minors r0 q) + length sites + length (circuits_of groups)" for q
    using S(2) [of q] C(2) [of q] by simp
  have s3: "m \<in> minors r1 (si_queue s) \<and> m \<notin> minors r0 (si_queue s)"
    if "s \<in> set sites" "map_of rs (si_site_key s) = Some m" for s m
    using S(3) [of "si_site_key s" s m] that by simp
  have s4: "si_site_key s = si_site_key s'" if "s \<in> set sites" "s' \<in> set sites" "si_queue s = si_queue s'"
    "map_of rs (si_site_key s) = Some m" "map_of rs (si_site_key s') = Some m" for s s' m
    using S(4) [of "si_site_key s" s "si_site_key s'" s' m] that by simp
  show ?thesis
    unfolding reuse_phase_def using S(1) C(1) card s3 s4 C(3,4)
    by (intro conjI allI ballI impI) (simp_all, (metis prod.collapse)+)
qed

definition all_items ::
  "SiteIdentityInput list \<Rightarrow> u32 list \<Rightarrow> CircuitIdentityGroupInput list \<Rightarrow> u32 list
    \<Rightarrow> ((string + string) \<times> u32 \<times> u32) list" where
  "all_items sites ms groups ns =
     map (\<lambda>(k, q, m). (Inl k, q, m)) (site_items sites ms)
     @ map (\<lambda>(k, q, m). (Inr k, q, m)) (circuit_items (circuits_of groups) ns)"

lemma reuse_phase_ok:
  assumes "reuse_phase sites groups rs rc r0 r1 r2"
  shows "reuse_ok (case_sum (map_of rs) (map_of rc)) (minors r2) (all_items sites ms groups ns)"
proof -
  note P = assms [unfolded reuse_phase_def]
  have S: "\<exists>s \<in> set sites. k = si_site_key s \<and> q = si_queue s"
    if "(Inl k, q, m) \<in> set (all_items sites ms groups ns)" for k q m
    using that site_items_facts(1) by (fastforce simp: all_items_def)
  have C: "\<exists>c \<in> set (circuits_of groups). k = fst c \<and> q = cg_queue (snd c)"
    if "(Inr k, q, m) \<in> set (all_items sites ms groups ns)" for k q m
    using that circuit_items_facts(1) by (fastforce simp: all_items_def)
  have mix: False if "s \<in> set sites" "c \<in> set (circuits_of groups)" "si_queue s = cg_queue (snd c)"
    "map_of rs (si_site_key s) = Some m" "map_of rc (fst c) = Some m" for s c m
    using P that by metis
  have "m \<in> minors r2 q" if it: "(k, q, m) \<in> set (all_items sites ms groups ns)"
    and re: "case_sum (map_of rs) (map_of rc) k = Some m" for k q m
  proof (cases k)
    case (Inl a)
    then obtain s where "s \<in> set sites" "a = si_site_key s" "q = si_queue s" using S it by blast
    with Inl re have "m \<in> minors r1 q" using P by simp
    then show ?thesis using P by blast
  next
    case (Inr a)
    then obtain c where "c \<in> set (circuits_of groups)" "a = fst c" "q = cg_queue (snd c)" using C it by blast
    with Inr re show ?thesis using P by simp
  qed
  moreover have "k = k'" if k: "(k, q, m) \<in> set (all_items sites ms groups ns)"
    "(k', q, m) \<in> set (all_items sites ms groups ns)"
    "case_sum (map_of rs) (map_of rc) k = Some m" "case_sum (map_of rs) (map_of rc) k' = Some m" for k k' q m
  proof (cases k; cases k')
    fix a b assume "k = Inl a" "k' = Inl b"
    with k have "(Inl a, q, m) \<in> set (all_items sites ms groups ns)" "(Inl b, q, m) \<in> set (all_items sites ms groups ns)"
      "map_of rs a = Some m" "map_of rs b = Some m" by simp_all
    with S P have "a = b" by metis
    with \<open>k = Inl a\<close> \<open>k' = Inl b\<close> show ?thesis by simp
  next
    fix a b assume "k = Inr a" "k' = Inr b"
    with k have "(Inr a, q, m) \<in> set (all_items sites ms groups ns)" "(Inr b, q, m) \<in> set (all_items sites ms groups ns)"
      "map_of rc a = Some m" "map_of rc b = Some m" by simp_all
    with C P have "a = b" by metis
    with \<open>k = Inr a\<close> \<open>k' = Inr b\<close> show ?thesis by simp
  next
    fix a b assume "k = Inl a" "k' = Inr b"
    with k have "(Inl a, q, m) \<in> set (all_items sites ms groups ns)" "(Inr b, q, m) \<in> set (all_items sites ms groups ns)"
      "map_of rs a = Some m" "map_of rc b = Some m" by simp_all
    with S C mix show ?thesis by metis
  next
    fix a b assume "k = Inr a" "k' = Inl b"
    with k have "(Inr a, q, m) \<in> set (all_items sites ms groups ns)" "(Inl b, q, m) \<in> set (all_items sites ms groups ns)"
      "map_of rc a = Some m" "map_of rs b = Some m" by simp_all
    with S C mix show ?thesis by metis
  qed
  ultimately show ?thesis unfolding reuse_ok_def by blast
qed

lemma distinct_all_items:
  assumes "distinct (map si_site_key sites)" and "distinct (concat (map cg_circuit_ids groups))"
    and "length ms = length sites" and "length ns = length (circuits_of groups)"
  shows "distinct (map fst (all_items sites ms groups ns))"
proof -
  have "map fst (all_items sites ms groups ns)
      = map Inl (map si_site_key sites) @ map Inr (map fst (circuits_of groups))"
    using assms(3,4)
    by (simp add: all_items_def comp_def case_prod_beta site_items_facts(2) [symmetric]
        circuit_items_facts(2) [symmetric])
  then show ?thesis using assms(1,2) by (auto simp: distinct_map fst_circuits_of inj_on_def)
qed

text \<open>What a plan is: the minors it gives, and how its output is made from them.\<close>

definition planned ::
  "SiteIdentityInput list \<Rightarrow> CircuitIdentityGroupInput list \<Rightarrow> ClassIdentityPlannerConstraints
    \<Rightarrow> u32 list \<Rightarrow> u32 list \<Rightarrow> ClassIdentityPlannerOutput \<Rightarrow> bool" where
  "planned sites groups cc ms ns out \<longleftrightarrow>
     length ms = length sites \<and> length ns = length (circuits_of groups)
     \<and> distinct (map snd (all_items sites ms groups ns))
     \<and> (\<forall>(k, q, m) \<in> set (all_items sites ms groups ns).
          m \<notin> minors (cc_reserved_site_minors cc) q \<and> m \<notin> minors (cc_reserved_circuit_minors cc) q)
     \<and> po_sites out = map2 (site_assignment (cc_stick_offset cc)) sites ms
     \<and> po_circuits out = map2 (circuit_assignment (cc_stick_offset cc)) (circuits_of groups) ns
     \<and> po_site_state out
         = collect_map (map2 (\<lambda>s m. (si_site_key s, site_identity_state (cc_stick_offset cc) s m)) sites ms)
     \<and> po_circuit_state out
         = collect_map (map2 (\<lambda>c m. (fst c, circuit_identity_state (cc_stick_offset cc) c m)) (circuits_of groups) ns)"

text \<open>
  The two planning loops after the reservation phase, with the reservations and candidates they end
  in.
\<close>

lemma plan_loops:
  assumes P: "reuse_phase sites groups rs rc r0 r1 r2"
    and d: "distinct (map si_site_key sites)" "distinct (concat (map cg_circuit_ids groups))"
    and size: "\<forall>q. card (minors r0 q) + 2 * (length sites + length (circuits_of groups)) \<le> 4294967296"
    and r0: "\<forall>q. minors (cc_reserved_site_minors cc) q \<union> minors (cc_reserved_circuit_minors cc) q \<subseteq> minors r0 q"
    and sp: "sp = foldl (plan_site rs cc) \<lparr>sp_reserved = r2, sp_next = [], sp_sites = [], sp_state = []\<rparr> sites"
    and cp: "cp = foldl (plan_group rc cc) \<lparr>cp_reserved = sp_reserved sp, cp_next = nx, cp_circuits = [], cp_state = []\<rparr> groups"
  shows "\<exists>ms ns. planned sites groups cc ms ns (plan_output sp cp)
    \<and> (\<forall>(k, q, m) \<in> set (all_items sites ms groups ns). m \<in> minors (cp_reserved cp) q)
    \<and> (\<forall>s \<in> set sites. \<forall>m. map_of rs (si_site_key s) = Some m \<longrightarrow> (s, m) \<in> set (zip sites ms))
    \<and> (\<forall>c \<in> set (circuits_of groups). \<forall>m. map_of rc (fst c) = Some m \<longrightarrow> (c, m) \<in> set (zip (circuits_of groups) ns))"
proof -
  let ?re = "case_sum (map_of rs) (map_of rc)"
  have "\<forall>q. card (minors r2 q) + length sites \<le> 4294967296"
  proof
    fix q
    have "card (minors r2 q) \<le> card (minors r0 q) + length sites + length (circuits_of groups)"
      using P by (simp add: reuse_phase_def)
    with spec [OF size, of q] show "card (minors r2 q) + length sites \<le> 4294967296"
      by (simp add: distrib_left)
  qed
  then obtain ms where lm: "length ms = length sites"
    and als: "allocates (map_of rs) (minors r2) (site_items sites ms) (minors (sp_reserved sp))"
    and outs: "sp_sites sp = map2 (site_assignment (cc_stick_offset cc)) sites ms"
      "sp_state sp = collect_map (map2 (\<lambda>s m. (si_site_key s, site_identity_state (cc_stick_offset cc) s m)) sites ms)"
    using plan_sites_allocate [of "\<lparr>sp_reserved = r2, sp_next = [], sp_sites = [], sp_state = []\<rparr>" sites rs cc]
    by (auto simp: sp site_items_def collect_map_def)
  let ?cp0 = "\<lparr>cp_reserved = sp_reserved sp, cp_next = nx, cp_circuits = [], cp_state = []\<rparr>"
  have "\<forall>q. card (minors (cp_reserved ?cp0) q) + length (circuits_of groups) \<le> 4294967296"
  proof
    fix q
    have "card (minors (sp_reserved sp) q) \<le> card (minors r2 q) + length sites"
      using card_allocates [OF als, of q] lm by (simp add: site_items_def minors_def)
    moreover have "card (minors r2 q) \<le> card (minors r0 q) + length sites + length (circuits_of groups)"
      using P by (simp add: reuse_phase_def)
    ultimately show "card (minors (cp_reserved ?cp0) q) + length (circuits_of groups) \<le> 4294967296"
      using spec [OF size, of q] by simp
  qed
  from plan_groups_allocate [OF this, of rc cc] obtain ns where
    C: "circuits_allocated rc (cc_stick_offset cc) ?cp0 (circuits_of groups) ns cp"
    by (auto simp: cp)
  then have ln: "length ns = length (circuits_of groups)"
    and alc: "allocates (map_of rc) (minors (sp_reserved sp)) (circuit_items (circuits_of groups) ns) (minors (cp_reserved cp))"
    and outc: "cp_circuits cp = map2 (circuit_assignment (cc_stick_offset cc)) (circuits_of groups) ns"
      "cp_state cp = collect_map (map2 (\<lambda>c m. (fst c, circuit_identity_state (cc_stick_offset cc) c m)) (circuits_of groups) ns)"
    by (simp_all add: circuits_allocated_def circuit_items_def collect_map_def)
  have al: "allocates ?re (minors r2) (all_items sites ms groups ns) (minors (cp_reserved cp))"
    unfolding all_items_def
    by (rule allocates_append [OF allocates_map_key [OF als, of ?re Inl] allocates_map_key [OF alc, of ?re Inr]]) simp_all
  have dist: "distinct (map snd (all_items sites ms groups ns))"
    using al distinct_all_items [OF d lm ln] reuse_phase_ok [OF P] by (rule allocates_distinct)
  have within: "m \<in> minors (cp_reserved cp) q" if "(k, q, m) \<in> set (all_items sites ms groups ns)" for k q m
    using that allocates_result [OF al] by blast
  have avoid: "m \<notin> minors r0 q" if it: "(k, q, m) \<in> set (all_items sites ms groups ns)" for k q m
  proof (cases "?re k")
    case None
    with allocates_fresh [OF al it] P show ?thesis by (auto simp: reuse_phase_def)
  next
    case (Some n)
    then have n: "?re k = Some m" using allocates_reused [OF al it] by simp
    show ?thesis
    proof (cases k)
      case (Inl a)
      then obtain s where "s \<in> set sites" "a = si_site_key s" "q = si_queue s"
        using it site_items_facts(1) by (fastforce simp: all_items_def)
      with Inl n P show ?thesis by (simp add: reuse_phase_def)
    next
      case (Inr a)
      then obtain c where "c \<in> set (circuits_of groups)" "a = fst c" "q = cg_queue (snd c)"
        using it circuit_items_facts(1) by (fastforce simp: all_items_def)
      with Inr n P have "m \<notin> minors r1 q" "minors r0 q \<subseteq> minors r1 q" by (simp_all add: reuse_phase_def)
      then show ?thesis by blast
    qed
  qed
  have "m \<notin> minors (cc_reserved_site_minors cc) q \<and> m \<notin> minors (cc_reserved_circuit_minors cc) q"
    if "(k, q, m) \<in> set (all_items sites ms groups ns)" for k q m
    using avoid [OF that] spec [OF r0, of q] by blast
  then have "planned sites groups cc ms ns (plan_output sp cp)"
    unfolding planned_def using lm ln dist outs outc by (auto simp: plan_output_def)
  moreover have "(s, m) \<in> set (zip sites ms)" if sm: "s \<in> set sites" "map_of rs (si_site_key s) = Some m" for s m
  proof -
    obtain n where n: "(s, n) \<in> set (zip sites ms)" using sm(1) lm by (metis in_set_impl_in_set_zip1)
    then have "(si_site_key s, si_queue s, n) \<in> set (site_items sites ms)" by (force simp: site_items_def)
    with allocates_reused [OF als] sm(2) n show ?thesis by blast
  qed
  moreover have "(c, m) \<in> set (zip (circuits_of groups) ns)"
    if cm: "c \<in> set (circuits_of groups)" "map_of rc (fst c) = Some m" for c m
  proof -
    obtain n where n: "(c, n) \<in> set (zip (circuits_of groups) ns)" using cm(1) ln by (metis in_set_impl_in_set_zip1)
    then have "(fst c, cg_queue (snd c), n) \<in> set (circuit_items (circuits_of groups) ns)"
      by (force simp: circuit_items_def)
    with allocates_reused [OF alc] cm(2) n show ?thesis by blast
  qed
  ultimately show ?thesis using within by (intro exI [of _ ms] exI [of _ ns]) blast
qed

text \<open>The same for the whole function; \<open>rs\<close> and \<open>rc\<close> are the reusable minors it finds.\<close>

lemma plan_whole:
  assumes inp: "planner_input sites groups cc"
    and r0: "r0 = merge_reservations (cc_reserved_site_minors cc) (cc_reserved_circuit_minors cc)"
    and s: "reserve_reusable_site_minors sites previous_sites (cc_stick_offset cc) r0 = (rs, r1)"
    and c: "reserve_reusable_circuit_minors groups previous_circuits (cc_stick_offset cc) r1 = (rc, r2)"
    and out: "out = plan_class_identities_with_constraints sites groups previous_sites previous_circuits cc"
  shows "\<exists>ms ns sp cp. planned sites groups cc ms ns out \<and> out = plan_output sp cp
    \<and> (\<forall>(k, q, m) \<in> set (all_items sites ms groups ns). m \<in> minors (cp_reserved cp) q)
    \<and> (\<forall>s \<in> set sites. \<forall>m. map_of rs (si_site_key s) = Some m \<longrightarrow> (s, m) \<in> set (zip sites ms))
    \<and> (\<forall>c \<in> set (circuits_of groups). \<forall>m. map_of rc (fst c) = Some m \<longrightarrow> (c, m) \<in> set (zip (circuits_of groups) ns))"
proof -
  note inp = inp [unfolded planner_input_def]
  define sp where "sp = foldl (plan_site rs cc) \<lparr>sp_reserved = r2, sp_next = [], sp_sites = [], sp_state = []\<rparr> sites"
  define cp where "cp = foldl (plan_group rc cc) \<lparr>cp_reserved = sp_reserved sp,
    cp_next = start_circuit_minors cc (sp_next sp) (sp_reserved sp), cp_circuits = [], cp_state = []\<rparr> groups"
  have o: "out = plan_output sp cp"
    by (simp add: out plan_class_identities_with_constraints_def r0 [symmetric] s c plan_circuit_groups_def sp_def cp_def)
  have m0: "minors r0 q = minors (cc_reserved_site_minors cc) q \<union> minors (cc_reserved_circuit_minors cc) q" for q
    using inp by (simp add: r0 minors_merge)
  have P: "reuse_phase sites groups rs rc r0 r1 r2"
    using inp s c by (intro reuse_phase_holds) simp_all
  have size: "\<forall>q. card (minors r0 q) + 2 * (length sites + length (circuits_of groups)) \<le> 4294967296"
  proof
    fix q
    have "card (minors r0 q) \<le> card (minors (cc_reserved_site_minors cc) q) + card (minors (cc_reserved_circuit_minors cc) q)"
      unfolding m0 by (rule card_Un_le)
    also have "\<dots> \<le> length (concat (map snd (cc_reserved_site_minors cc)))
        + length (concat (map snd (cc_reserved_circuit_minors cc)))"
      by (intro add_mono card_minors_le)
    finally show "card (minors r0 q) + 2 * (length sites + length (circuits_of groups)) \<le> 4294967296"
      using inp by (simp add: planner_size_def length_circuits_of)
  qed
  have "\<forall>q. minors (cc_reserved_site_minors cc) q \<union> minors (cc_reserved_circuit_minors cc) q \<subseteq> minors r0 q"
    by (simp add: m0)
  from plan_loops [OF P _ _ size this sp_def cp_def] inp o show ?thesis by blast
qed

lemma plan_planned:
  assumes "planner_input sites groups cc"
  shows "\<exists>ms ns sp cp. planned sites groups cc ms ns
      (plan_class_identities_with_constraints sites groups previous_sites previous_circuits cc)
    \<and> plan_class_identities_with_constraints sites groups previous_sites previous_circuits cc = plan_output sp cp
    \<and> (\<forall>(k, q, m) \<in> set (all_items sites ms groups ns). m \<in> minors (cp_reserved cp) q)"
proof -
  define r0 where "r0 = merge_reservations (cc_reserved_site_minors cc) (cc_reserved_circuit_minors cc)"
  obtain rs r1 where s: "reserve_reusable_site_minors sites previous_sites (cc_stick_offset cc) r0 = (rs, r1)"
    by (cases "reserve_reusable_site_minors sites previous_sites (cc_stick_offset cc) r0")
  obtain rc r2 where c: "reserve_reusable_circuit_minors groups previous_circuits (cc_stick_offset cc) r1 = (rc, r2)"
    by (cases "reserve_reusable_circuit_minors groups previous_circuits (cc_stick_offset cc) r1")
  from plan_whole [OF assms r0_def s c refl] show ?thesis by blast
qed

lemma unat_u16_or_max: "unat (u16_or_max m) = min (unat m) 65535"
proof (cases "m \<le> 0xFFFF")
  case True
  then have "unat m < 65536" by (simp add: word_le_nat_alt)
  then have "unat (word_of_nat (unat m) :: u16) = unat m" by (rule unat_word_of_nat_u16)
  with True show ?thesis by (simp add: u16_or_max_def u16_try_from_def word_le_nat_alt)
qed (simp add: u16_or_max_def u16_try_from_def word_le_nat_alt)

text \<open>The (queue, class minor) pairs of a plan's output, in order.\<close>

definition class_ids :: "ClassIdentityPlannerOutput \<Rightarrow> (u32 \<times> u16) list" where
  "class_ids out = map (\<lambda>s. (sia_queue s, sia_class_minor s)) (po_sites out)
     @ map (\<lambda>c. (cia_queue c, cia_class_minor c)) (po_circuits out)"

lemma class_ids_planned:
  assumes "planned sites groups cc ms ns out"
  shows "class_ids out = map (\<lambda>(k, q, m). (q, u16_or_max m)) (all_items sites ms groups ns)"
  using assms
  by (simp add: class_ids_def planned_def all_items_def site_items_def circuit_items_def
      site_assignment_def circuit_assignment_def comp_def case_prod_beta)

lemma distinct_class_ids:
  fixes items :: "('k \<times> u32 \<times> u32) list"
  assumes "distinct (map snd items)"
  shows "distinct (filter (\<lambda>(q, m). m \<noteq> 0xFFFF) (map (\<lambda>(k, q, m). (q, u16_or_max m)) items))"
proof -
  let ?f = "\<lambda>(q :: u32, m :: u32). (q, u16_or_max m)"
  have inj: "inj_on ?f {p. u16_or_max (snd p) \<noteq> 0xFFFF}"
  proof (rule inj_onI)
    fix p p' :: "u32 \<times> u32"
    assume a: "p \<in> {p. u16_or_max (snd p) \<noteq> 0xFFFF}" "?f p = ?f p'"
    then have "unat (u16_or_max (snd p)) = unat (u16_or_max (snd p'))" "unat (u16_or_max (snd p)) \<noteq> 65535"
      by (simp_all add: case_prod_beta word_unat_eq_iff)
    then have "unat (snd p) = unat (snd p')" by (simp add: unat_u16_or_max min_def split: if_splits)
    then show "p = p'" using a(2) by (cases p; cases p') (simp add: word_unat_eq_iff)
  qed
  have "filter (\<lambda>(q, m). m \<noteq> 0xFFFF) (map (\<lambda>(k, q, m). (q, u16_or_max m)) items)
      = map ?f (filter (\<lambda>(q, m). u16_or_max m \<noteq> 0xFFFF) (map snd items))"
    by (induction items) auto
  moreover have "distinct (map ?f (filter (\<lambda>(q, m). u16_or_max m \<noteq> 0xFFFF) (map snd items)))"
    using assms inj by (auto simp: distinct_map inj_on_def)
  ultimately show ?thesis by simp
qed

section \<open>Planning again\<close>

lemma valid_class_minor_u16: "3 \<le> u16_or_max m \<Longrightarrow> u16_or_max m < 0xFFFF \<Longrightarrow> valid_class_minor (u16_or_max m) = Some m"
proof -
  assume a: "3 \<le> u16_or_max m" "u16_or_max m < 0xFFFF"
  then have u: "unat (u16_or_max m) = unat m" "3 \<le> unat m" "unat m < 65535"
    by (auto simp: word_le_nat_alt word_less_nat_alt unat_u16_or_max)
  then have "(word_of_nat (unat (u16_or_max m)) :: u32) = m" by simp
  then show ?thesis using u by (simp add: valid_class_minor_def word_le_nat_alt word_less_nat_alt)
qed

lemma expected_class_majors_u16:
  "1 \<le> q \<Longrightarrow> q \<le> 0xFFFF \<Longrightarrow>
   expected_class_majors q off = Some (u16_or_max q, saturating_add (u16_or_max q) off)"
proof -
  assume q: "1 \<le> q" "q \<le> 0xFFFF"
  then have "u16_try_from q = Some (u16_or_max q)" by (simp add: u16_or_max_def u16_try_from_def)
  moreover have "u16_or_max q > 0"
    using q by (simp add: word_less_nat_alt word_le_nat_alt unat_u16_or_max)
  ultimately show ?thesis by (simp add: expected_class_majors_def)
qed

lemma zip_same_choice:
  assumes "distinct xs" and "length ys = length xs" and "length zs = length xs"
    and "\<And>x y. (x, y) \<in> set (zip xs ys) \<Longrightarrow> (x, y) \<in> set (zip xs zs)"
  shows "zs = ys"
proof (rule nth_equalityI)
  fix i assume "i < length zs"
  then have i: "i < length xs" using assms(3) by simp
  then have "(xs ! i, ys ! i) \<in> set (zip xs ys)" using assms(2) by (metis in_set_zip fst_conv snd_conv)
  then obtain j where "j < length xs" "xs ! j = xs ! i" "zs ! j = ys ! i"
    using assms(4) by (fastforce simp: in_set_zip)
  then show "zs ! i = ys ! i" using i assms(1) by (simp add: nth_eq_iff_index_eq)
qed (use assms in simp)

text \<open>
  The reservation phase over stored minors that are free and distinct keeps them all: \<open>vs\<close> are the
  inputs, \<open>minor_of\<close> their stored minors.
\<close>

lemma reuse_all:
  assumes d: "distinct (map fst kvs)" and inj: "inj_on (\<lambda>(k, v). (queue v, minor k v)) (set kvs)"
    and free: "\<And>k v. (k, v) \<in> set kvs \<Longrightarrow> \<exists>m. minor k v = Some m \<and> m \<notin> minors r (queue v)"
    and l: "reserve_reusable_loop minor queue (sort_key fst (collect_map kvs)) r [] = (reusable, r')"
  shows "(k, v) \<in> set kvs \<Longrightarrow> map_of reusable k = minor k v"
    and "minors r' q = minors r q \<union> {m. \<exists>k v. (k, v) \<in> set kvs \<and> queue v = q \<and> minor k v = Some m}"
proof -
  let ?ks = "sort_key fst kvs"
  have d': "distinct (map fst ?ks)" using d by (simp add: distinct_map)
  have i': "distinct (map (\<lambda>(k, v). (queue v, minor k v)) ?ks)" using d inj by (simp add: distinct_map)
  have l': "reserve_reusable_loop minor queue ?ks r [] = (reusable, r')" using d l by (simp add: collect_map_id)
  have eq: "map_of reusable k = minor k v" if "(k, v) \<in> set kvs" for k v
    using reserve_reusable_loop_complete [OF d' i', of r k v "[]"] free that l' by simp
  then show "(k, v) \<in> set kvs \<Longrightarrow> map_of reusable k = minor k v" .
  have "minors r' q = minors r q \<union> {m. \<exists>k v. (k, v) \<in> set ?ks \<and> queue v = q \<and> map_of reusable k = Some m}"
    by (rule reserve_reusable_loop_minors [OF d' _ l']) simp
  also have "\<dots> = minors r q \<union> {m. \<exists>k v. (k, v) \<in> set kvs \<and> queue v = q \<and> minor k v = Some m}"
    by (simp add: eq cong: conj_cong)
  finally show "minors r' q = minors r q \<union> {m. \<exists>k v. (k, v) \<in> set kvs \<and> queue v = q \<and> minor k v = Some m}" .
qed

lemma stored_site_minor_planned:
  assumes P: "planned sites groups cc ms ns out" and d: "distinct (map si_site_key sites)"
    and sm: "(s, m) \<in> set (zip sites ms)" and v: "3 \<le> u16_or_max m" "u16_or_max m < 0xFFFF"
    and q: "1 \<le> si_queue s" "si_queue s \<le> 0xFFFF"
  shows "stored_site_minor (po_site_state out) (cc_stick_offset cc) (si_site_key s) s = Some m"
proof -
  let ?kvs = "map2 (\<lambda>s m. (si_site_key s, site_identity_state (cc_stick_offset cc) s m)) sites ms"
  have "map fst ?kvs = map si_site_key sites" using P by (auto simp: planned_def intro: nth_equalityI)
  then have dk: "distinct (map fst ?kvs)" using d by simp
  have "(si_site_key s, site_identity_state (cc_stick_offset cc) s m) \<in> set ?kvs" using sm by force
  then have "map_of (po_site_state out) (si_site_key s) = Some (site_identity_state (cc_stick_offset cc) s m)"
    using P dk by (simp add: planned_def collect_map_id)
  then show ?thesis
    using valid_class_minor_u16 [OF v] expected_class_majors_u16 [OF q]
    by (simp add: stored_site_minor_def site_identity_state_def)
qed

lemma stored_circuit_minor_planned:
  assumes P: "planned sites groups cc ms ns out" and d: "distinct (concat (map cg_circuit_ids groups))"
    and cm: "(c, m) \<in> set (zip (circuits_of groups) ns)" and v: "3 \<le> u16_or_max m" "u16_or_max m < 0xFFFF"
    and q: "1 \<le> cg_queue (snd c)" "cg_queue (snd c) \<le> 0xFFFF"
  shows "stored_circuit_minor (po_circuit_state out) (cc_stick_offset cc) (fst c) (snd c) = Some m"
proof -
  let ?kvs = "map2 (\<lambda>c m. (fst c, circuit_identity_state (cc_stick_offset cc) c m)) (circuits_of groups) ns"
  have "map fst ?kvs = map fst (circuits_of groups)" using P by (auto simp: planned_def intro: nth_equalityI)
  then have dk: "distinct (map fst ?kvs)" using d by (simp add: fst_circuits_of)
  have "(fst c, circuit_identity_state (cc_stick_offset cc) c m) \<in> set ?kvs" using cm by force
  then have "map_of (po_circuit_state out) (fst c) = Some (circuit_identity_state (cc_stick_offset cc) c m)"
    using P dk by (simp add: planned_def collect_map_id)
  then show ?thesis
    using valid_class_minor_u16 [OF v] expected_class_majors_u16 [OF q]
    by (simp add: stored_circuit_minor_def circuit_identity_state_def)
qed

lemma in_zip_item:
  "(s, m) \<in> set (zip sites ms) \<Longrightarrow> (Inl (si_site_key s), si_queue s, m) \<in> set (all_items sites ms groups ns)"
  "(c, n) \<in> set (zip (circuits_of groups) ns)
    \<Longrightarrow> (Inr (fst c), cg_queue (snd c), n) \<in> set (all_items sites ms groups ns)"
  by (force simp: all_items_def site_items_def circuit_items_def)+

lemma distinct_snd_eq: "distinct (map snd items) \<Longrightarrow> (k, x) \<in> set items \<Longrightarrow> (k', x) \<in> set items \<Longrightarrow> k = k'"
  by (metis distinct_map fst_conv inj_onD snd_conv)

text \<open>Every minor of a plan with valid queues and minors is reusable in the next one.\<close>

lemma replan_reusable:
  assumes P: "planned sites groups cc ms ns out"
    and d: "distinct (map si_site_key sites)" "distinct (concat (map cg_circuit_ids groups))"
    and valid: "\<forall>(q, m) \<in> set (class_ids out). 1 \<le> q \<and> q \<le> 0xFFFF \<and> 3 \<le> m \<and> m < 0xFFFF"
    and r0: "\<forall>q. minors r0 q = minors (cc_reserved_site_minors cc) q \<union> minors (cc_reserved_circuit_minors cc) q"
    and s: "reserve_reusable_site_minors sites (po_site_state out) (cc_stick_offset cc) r0 = (rs, r1)"
    and c: "reserve_reusable_circuit_minors groups (po_circuit_state out) (cc_stick_offset cc) r1 = (rc, r2)"
  shows "(si, m) \<in> set (zip sites ms) \<Longrightarrow> map_of rs (si_site_key si) = Some m"
    and "(ci, n) \<in> set (zip (circuits_of groups) ns) \<Longrightarrow> map_of rc (fst ci) = Some n"
proof -
  let ?off = "cc_stick_offset cc" and ?items = "all_items sites ms groups ns"
  let ?ms = "stored_site_minor (po_site_state out) ?off" and ?mc = "stored_circuit_minor (po_circuit_state out) ?off"
  have v: "1 \<le> q \<and> q \<le> 0xFFFF \<and> 3 \<le> u16_or_max m \<and> u16_or_max m < 0xFFFF" if "(k, q, m) \<in> set ?items" for k q m
    using valid that unfolding class_ids_planned [OF P] by force
  have S: "?ms (si_site_key si) si = Some m" if "(si, m) \<in> set (zip sites ms)" for si m
    using stored_site_minor_planned [OF P d(1) that] v [OF in_zip_item(1) [OF that]] by blast
  have C: "?mc (fst ci) (snd ci) = Some n" if "(ci, n) \<in> set (zip (circuits_of groups) ns)" for ci n
    using stored_circuit_minor_planned [OF P d(2) that] v [OF in_zip_item(2) [OF that]] by blast
  have Sx: "\<exists>m. (si, m) \<in> set (zip sites ms)" if "si \<in> set sites" for si
    using that P by (metis in_set_impl_in_set_zip1 planned_def)
  have Cx: "\<exists>n. (ci, n) \<in> set (zip (circuits_of groups) ns)" if "ci \<in> set (circuits_of groups)" for ci
    using that P by (metis in_set_impl_in_set_zip1 planned_def)
  have uniq: "k = k'" if "(k, q, m) \<in> set ?items" "(k', q, m) \<in> set ?items" for k k' q m
    using that P by (auto simp: planned_def intro: distinct_snd_eq)
  have avoid: "m \<notin> minors r0 q" if "(k, q, m) \<in> set ?items" for k q m
    using that P r0 by (auto simp: planned_def)
  let ?ks = "map (\<lambda>site. (si_site_key site, site)) sites"
  have ds: "distinct (map fst ?ks)" and dc: "distinct (map fst (circuits_of groups))"
    using d by (simp_all add: comp_def fst_circuits_of)
  have si: "inj_on (\<lambda>(k, v). (si_queue v, ?ms k v)) (set ?ks)"
  proof (rule inj_onI, clarsimp)
    fix a b assume ab: "a \<in> set sites" "b \<in> set sites" "si_queue a = si_queue b" "?ms (si_site_key a) a = ?ms (si_site_key b) b"
    from Sx [OF ab(1)] Sx [OF ab(2)] obtain m m' where m: "(a, m) \<in> set (zip sites ms)" "(b, m') \<in> set (zip sites ms)" by blast
    then have "m = m'" using S ab(4) by force
    then have "si_site_key a = si_site_key b"
      using uniq [OF in_zip_item(1) [OF m(1)], of "Inl (si_site_key b)"] in_zip_item(1) [OF m(2)] ab(3) by auto
    then show "si_site_key a = si_site_key b \<and> a = b" using ab(1,2) d(1) by (auto simp: distinct_map dest: inj_onD)
  qed
  have sf: "\<exists>m. ?ms k v = Some m \<and> m \<notin> minors r0 (si_queue v)" if "(k, v) \<in> set ?ks" for k v
    using that Sx S avoid in_zip_item(1) by fastforce
  note RS = reuse_all [OF ds si sf s [unfolded reserve_reusable_site_minors_def]]
  have m1: "minors r1 q = minors r0 q \<union> {m. \<exists>k v. (k, v) \<in> set ?ks \<and> si_queue v = q \<and> ?ms k v = Some m}" for q
    by (rule RS(2))
  have ci: "inj_on (\<lambda>(k, v). (cg_queue v, ?mc k v)) (set (circuits_of groups))"
  proof (rule inj_onI)
    fix a b assume ab: "a \<in> set (circuits_of groups)" "b \<in> set (circuits_of groups)"
      "(\<lambda>(k, v). (cg_queue v, ?mc k v)) a = (\<lambda>(k, v). (cg_queue v, ?mc k v)) b"
    from Cx [OF ab(1)] Cx [OF ab(2)] obtain m m' where m: "(a, m) \<in> set (zip (circuits_of groups) ns)"
      "(b, m') \<in> set (zip (circuits_of groups) ns)" by blast
    then have "m = m'" "cg_queue (snd a) = cg_queue (snd b)" using C ab(3) by (force simp: case_prod_beta)+
    then have "fst a = fst b"
      using uniq [OF in_zip_item(2) [OF m(1)], of "Inr (fst b)"] in_zip_item(2) [OF m(2)] by auto
    then show "a = b" using ab(1,2) dc by (auto simp: distinct_map dest: inj_onD)
  qed
  have cf: "\<exists>m. ?mc k v = Some m \<and> m \<notin> minors r1 (cg_queue v)" if kv: "(k, v) \<in> set (circuits_of groups)" for k v
  proof -
    obtain n where n: "((k, v), n) \<in> set (zip (circuits_of groups) ns)" using Cx [OF kv] by blast
    have "n \<notin> minors r1 (cg_queue v)"
    proof
      assume "n \<in> minors r1 (cg_queue v)"
      then obtain si where "si \<in> set sites" "si_queue si = cg_queue v" "?ms (si_site_key si) si = Some n"
        using avoid [OF in_zip_item(2) [OF n]] unfolding m1 by auto
      moreover then obtain m where "(si, m) \<in> set (zip sites ms)" using Sx by blast
      ultimately show False
        using S uniq [OF in_zip_item(2) [OF n], of "Inl (si_site_key si)"] in_zip_item(1) by fastforce
    qed
    with C [OF n] show ?thesis by simp
  qed
  note RC = reuse_all [OF dc ci cf c [unfolded reserve_reusable_circuit_minors_def, folded circuits_of_def]]
  show "map_of rs (si_site_key si) = Some m" if "(si, m) \<in> set (zip sites ms)"
    using RS(1) [of "si_site_key si" si] S [OF that] set_zip_leftD [OF that] by simp
  show "map_of rc (fst ci) = Some n" if "(ci, n) \<in> set (zip (circuits_of groups) ns)"
    using RC(1) [of "fst ci" "snd ci"] C [OF that] set_zip_leftD [OF that] by simp
qed

section \<open>A small example\<close>

text \<open>One site with two circuits on queue 1, where minor 3 is reserved.\<close>

definition example_sites :: "SiteIdentityInput list" where
  "example_sites = [\<lparr>si_site_key = ''a'', si_parent_path = [], si_queue = 1, si_has_children = True\<rparr>]"

definition example_groups :: "CircuitIdentityGroupInput list" where
  "example_groups = [\<lparr>cg_parent_node = ''a'', cg_queue = 1, cg_circuit_ids = [''c1'', ''c2'']\<rparr>]"

definition example_constraints :: ClassIdentityPlannerConstraints where
  "example_constraints = \<lparr>cc_reserved_site_minors = [(1, [3])], cc_reserved_circuit_minors = [],
     cc_site_minor_start = 3, cc_circuit_minor_start = 3, cc_stick_offset = 0, cc_circuit_padding = 0\<rparr>"

lemma example_input: "planner_input example_sites example_groups example_constraints"
  by (simp add: planner_input_def planner_size_def example_sites_def example_groups_def example_constraints_def)

lemma example_reservations:
  "merge_reservations (cc_reserved_site_minors example_constraints)
     (cc_reserved_circuit_minors example_constraints) = [(1, [3])]"
  "reserve_reusable_site_minors example_sites [] (cc_stick_offset example_constraints) [(1, [3])] = ([], [(1, [3])])"
  "reserve_reusable_circuit_minors example_groups [] (cc_stick_offset example_constraints) [(1, [3])] = ([], [(1, [3])])"
  by code_simp+

lemma example_site_plan:
  "foldl (plan_site [] example_constraints) \<lparr>sp_reserved = [(1, [3])], sp_next = [], sp_sites = [], sp_state = []\<rparr>
     example_sites
   = \<lparr>sp_reserved = [(1, [3, 4])], sp_next = [(1, 6)], sp_sites = [site_assignment 0 (hd example_sites) 4],
      sp_state = [(''a'', site_identity_state 0 (hd example_sites) 4)]\<rparr>"
  by code_simp

lemma example_circuit_plan:
  "class_ids (plan_circuit_groups example_groups [] example_constraints
     \<lparr>sp_reserved = [(1, [3, 4])], sp_next = [(1, 6)], sp_sites = [site_assignment 0 (hd example_sites) 4],
      sp_state = [(''a'', site_identity_state 0 (hd example_sites) 4)]\<rparr>) = [(1, 4), (1, 6), (1, 7)]"
  by code_simp

lemma example_class_ids:
  "class_ids (plan_class_identities_with_constraints example_sites example_groups [] [] example_constraints)
     = [(1, 4), (1, 6), (1, 7)]"
  unfolding plan_class_identities_with_constraints_def example_reservations Let_def prod.case
    example_site_plan example_circuit_plan ..

section \<open>Reservations and counters of the output\<close>

lemma minors_reserve_unplanned:
  "minors (reserve_unplanned keys cm queue kvs r) q = minors r q
     \<union> {m. \<exists>k st. (k, st) \<in> set kvs \<and> k \<notin> set keys \<and> queue st = q \<and> valid_class_minor (cm st) = Some m}"
proof (induction keys cm queue kvs r rule: reserve_unplanned.induct)
  case (2 keys cm queue k st rest r)
  show ?case
  proof (cases "k \<in> set keys \<or> valid_class_minor (cm st) = None")
    case True
    then have "reserve_unplanned keys cm queue ((k, st) # rest) r = reserve_unplanned keys cm queue rest r"
      by auto
    moreover have "minors (reserve_unplanned keys cm queue rest r) q = minors r q
        \<union> {m. \<exists>k st. (k, st) \<in> set rest \<and> k \<notin> set keys \<and> queue st = q \<and> valid_class_minor (cm st) = Some m}"
      using 2 True by (auto split: if_splits)
    ultimately show ?thesis using True by auto
  next
    case False
    then obtain m where "k \<notin> set keys" "valid_class_minor (cm st) = Some m" by auto
    with 2 show ?thesis by (auto simp: minors_reserve)
  qed
qed simp

lemma distinct_reserve_unplanned:
  "distinct (map fst r) \<Longrightarrow> distinct (map fst (reserve_unplanned keys cm queue kvs r))"
  by (induction keys cm queue kvs r rule: reserve_unplanned.induct)
    (auto simp: reserve_def distinct_update split: option.splits)

lemma length_occupied_le: "length (occupied r q) \<le> length (concat (map snd r))"
  by (auto simp: occupied_def length_concat split: option.splits dest!: map_of_SomeD intro!: member_le_sum_list) force

lemma length_update_set:
  assumes "distinct (map fst r)"
  shows "length (concat (map snd (reserve q m r))) \<le> Suc (length (concat (map snd r)))"
proof -
  have "length (concat (map snd (AList.update q v r)))
      = length (concat (map snd r)) - length (occupied r q) + length v" if "distinct (map fst r)" for v r
    using that
  proof (induction r)
    case (Cons x r)
    obtain q' s where x: "x = (q', s)" by (cases x)
    show ?case
    proof (cases "q' = q")
      case False
      with Cons x length_occupied_le [of r q] show ?thesis by (simp add: occupied_def)
    qed (simp add: x occupied_def)
  qed (simp add: occupied_def)
  from this [OF assms, of "push_unique m (occupied r q)"] length_occupied_le [of r q] show ?thesis
    by (auto simp: reserve_def push_unique_def)
qed

lemma length_reserve_unplanned:
  "distinct (map fst r) \<Longrightarrow>
   length (concat (map snd (reserve_unplanned keys cm queue kvs r))) \<le> length (concat (map snd r)) + length kvs"
proof (induction keys cm queue kvs r rule: reserve_unplanned.induct)
  case (2 keys cm queue k st rest r)
  let ?r = "if k \<in> set keys then r
    else case valid_class_minor (cm st) of Some m \<Rightarrow> reserve (queue st) m r | None \<Rightarrow> r"
  have "length (concat (map snd ?r)) \<le> Suc (length (concat (map snd r)))"
    using length_update_set [OF 2(2)] by (auto split: option.splits)
  moreover have "distinct (map fst ?r)" using 2(2) by (auto simp: reserve_def distinct_update split: option.splits)
  ultimately show ?case using 2(1) by fastforce
qed simp

lemma foldl_max_ge: "x \<in> set (m # ms) \<Longrightarrow> (x :: u32) \<le> foldl max m ms"
proof (induction ms arbitrary: m x)
  case (Cons y ms)
  have "max m y \<le> foldl max (max m y) ms" using Cons.IH [of "max m y" "max m y"] by simp
  with Cons show ?case by (auto intro: order_trans [of _ "max m y"])
qed simp

lemma highest_reserved_above:
  assumes "x \<in> minors r q"
  shows "min (unat x + 1) (2 ^ 32 - 1) \<le> unat (highest_reserved_next r q)"
proof -
  obtain m ms where o: "occupied r q = m # ms" using assms by (cases "occupied r q") (auto simp: minors_def)
  have "x \<le> foldl max m ms" using assms o by (intro foldl_max_ge) (simp add: minors_def)
  then show ?thesis by (auto simp: highest_reserved_next_def o unat_saturating_add word_le_nat_alt)
qed

section \<open>Properties\<close>

text \<open>C31. A plan covers its input in order and its class identities are unique: on one queue no two of the
  planned sites and circuits have the same class minor, except that minors beyond 16 bits are all
  written as \<open>0xFFFF\<close>; and no planned minor is one of the minors reserved by the constraints.\<close>

theorem class_identities_unique:
  assumes "planner_input sites groups cc"
    and "out = plan_class_identities_with_constraints sites groups previous_sites previous_circuits cc"
  shows "map (\<lambda>s. (sia_site_key s, sia_queue s, sia_parent_path s)) (po_sites out)
      = map (\<lambda>s. (si_site_key s, si_queue s, si_parent_path s)) sites
    \<and> map cia_circuit_id (po_circuits out) = concat (map cg_circuit_ids groups)
    \<and> distinct (filter (\<lambda>(q, m). m \<noteq> 0xFFFF) (class_ids out))
    \<and> (\<forall>(q, m) \<in> set (class_ids out). m \<noteq> 0xFFFF \<longrightarrow>
         word_of_nat (unat m) \<notin> set (occupied (cc_reserved_site_minors cc) q)
         \<and> word_of_nat (unat m) \<notin> set (occupied (cc_reserved_circuit_minors cc) q))"
proof -
  obtain ms ns where P: "planned sites groups cc ms ns out"
    using plan_planned [OF assms(1)] assms(2) by blast
  then have l: "length ms = length sites" "length ns = length (circuits_of groups)" by (simp_all add: planned_def)
  have "map (\<lambda>s. (sia_site_key s, sia_queue s, sia_parent_path s)) (po_sites out)
      = map (\<lambda>s. (si_site_key s, si_queue s, si_parent_path s)) sites"
    using P l(1) by (auto simp: planned_def site_assignment_def intro!: nth_equalityI)
  moreover have "map cia_circuit_id (po_circuits out) = map fst (circuits_of groups)"
    using P l(2) by (auto simp: planned_def circuit_assignment_def intro!: nth_equalityI)
  moreover have "distinct (filter (\<lambda>(q, m). m \<noteq> 0xFFFF) (class_ids out))"
    unfolding class_ids_planned [OF P] using P by (intro distinct_class_ids) (simp add: planned_def)
  moreover have "word_of_nat (unat m) \<notin> minors (cc_reserved_site_minors cc) q
      \<and> word_of_nat (unat m) \<notin> minors (cc_reserved_circuit_minors cc) q"
    if qm: "(q, m) \<in> set (class_ids out)" "m \<noteq> 0xFFFF" for q m
  proof -
    obtain k n where n: "(k, q, n) \<in> set (all_items sites ms groups ns)" "m = u16_or_max n"
      using qm(1) unfolding class_ids_planned [OF P] by force
    have "unat m \<noteq> 65535" using qm(2) by (simp add: word_unat_eq_iff)
    then have "unat m = unat n" by (simp add: n(2) unat_u16_or_max min_def split: if_splits)
    then have "word_of_nat (unat m) = n" by simp
    then show ?thesis using n(1) P by (auto simp: planned_def)
  qed
  ultimately show ?thesis by (auto simp: fst_circuits_of minors_def)
qed

theorem class_identities_unique_witness:
  "distinct (filter (\<lambda>(q, m). m \<noteq> 0xFFFF)
     (class_ids (plan_class_identities_with_constraints example_sites example_groups [] [] example_constraints)))
   \<and> (1, 3) \<notin> set (class_ids (plan_class_identities_with_constraints example_sites example_groups [] [] example_constraints))"
proof -
  have "3 \<in> set (occupied (cc_reserved_site_minors example_constraints) 1)" by code_simp
  then show ?thesis
    using class_identities_unique [OF example_input refl, of "[]" "[]"] by fastforce
qed

text \<open>C32. Planning is stable: planning the same sites and circuits again, from the state the first plan
  persisted and under the same reservations and stick offset, returns the same identities and the
  same state, whatever the starting minors and the padding are now, provided the first plan used
  valid queues and did not run out of minors.\<close>

theorem replan_same_identities:
  assumes "planner_input sites groups cc"
    and "out = plan_class_identities_with_constraints sites groups previous_sites previous_circuits cc"
    and "\<forall>(q, m) \<in> set (class_ids out). 1 \<le> q \<and> q \<le> 0xFFFF \<and> 3 \<le> m \<and> m < 0xFFFF"
    and "cc' = cc\<lparr>cc_site_minor_start := site_start, cc_circuit_minor_start := circuit_start, cc_circuit_padding := padding\<rparr>"
    and "out' = plan_class_identities_with_constraints sites groups (po_site_state out) (po_circuit_state out) cc'"
  shows "po_sites out' = po_sites out \<and> po_circuits out' = po_circuits out
    \<and> po_site_state out' = po_site_state out \<and> po_circuit_state out' = po_circuit_state out"
proof -
  note inp = assms(1) [unfolded planner_input_def]
  obtain ms ns where P: "planned sites groups cc ms ns out"
    using plan_planned [OF assms(1)] assms(2) by blast
  have inp': "planner_input sites groups cc'" using assms(1) by (simp add: assms(4) planner_input_def planner_size_def)
  define r0 where "r0 = merge_reservations (cc_reserved_site_minors cc') (cc_reserved_circuit_minors cc')"
  have r0: "\<forall>q. minors r0 q = minors (cc_reserved_site_minors cc) q \<union> minors (cc_reserved_circuit_minors cc) q"
    using inp by (simp add: r0_def assms(4) minors_merge)
  obtain rs r1 where s: "reserve_reusable_site_minors sites (po_site_state out) (cc_stick_offset cc') r0 = (rs, r1)"
    by (cases "reserve_reusable_site_minors sites (po_site_state out) (cc_stick_offset cc') r0")
  obtain rc r2 where c: "reserve_reusable_circuit_minors groups (po_circuit_state out) (cc_stick_offset cc') r1 = (rc, r2)"
    by (cases "reserve_reusable_circuit_minors groups (po_circuit_state out) (cc_stick_offset cc') r1")
  have off: "cc_stick_offset cc' = cc_stick_offset cc" by (simp add: assms(4))
  note R = replan_reusable [OF P _ _ assms(3) r0 s [unfolded off] c [unfolded off]]
  obtain ms' ns' where P': "planned sites groups cc' ms' ns' out'"
    and rs: "\<forall>s \<in> set sites. \<forall>m. map_of rs (si_site_key s) = Some m \<longrightarrow> (s, m) \<in> set (zip sites ms')"
    and rc: "\<forall>c \<in> set (circuits_of groups). \<forall>m. map_of rc (fst c) = Some m \<longrightarrow> (c, m) \<in> set (zip (circuits_of groups) ns')"
    using plan_whole [OF inp' r0_def s c assms(5)] by blast
  have "ms' = ms"
  proof (rule zip_same_choice [of sites])
    show "distinct sites" using inp by (metis distinct_map)
    show "(x, y) \<in> set (zip sites ms')" if "(x, y) \<in> set (zip sites ms)" for x y
      using R(1) [OF _ _ that] rs inp set_zip_leftD [OF that] by blast
  qed (use P P' in \<open>simp_all add: planned_def\<close>)
  moreover have "ns' = ns"
  proof (rule zip_same_choice [of "circuits_of groups"])
    show "distinct (circuits_of groups)" using inp by (metis distinct_map fst_circuits_of)
    show "(x, y) \<in> set (zip (circuits_of groups) ns')" if "(x, y) \<in> set (zip (circuits_of groups) ns)" for x y
      using R(2) [OF _ _ that] rc inp set_zip_leftD [OF that] by blast
  qed (use P P' in \<open>simp_all add: planned_def\<close>)
  ultimately show ?thesis using P P' by (simp add: planned_def off)
qed

theorem replan_same_identities_witness:
  "let out = plan_class_identities_with_constraints example_sites example_groups [] [] example_constraints;
       cc' = example_constraints\<lparr>cc_site_minor_start := 100, cc_circuit_minor_start := 200, cc_circuit_padding := 7\<rparr>
   in po_sites (plan_class_identities_with_constraints example_sites example_groups
        (po_site_state out) (po_circuit_state out) cc') = po_sites out"
proof -
  let ?out = "plan_class_identities_with_constraints example_sites example_groups [] [] example_constraints"
  have "\<forall>(q, m) \<in> set (class_ids ?out). 1 \<le> q \<and> q \<le> 0xFFFF \<and> 3 \<le> m \<and> m < 0xFFFF"
    unfolding example_class_ids by simp
  from replan_same_identities [OF example_input refl this refl refl] show ?thesis
    unfolding Let_def by blast
qed

text \<open>C33. Planning with the default policy never takes the class of an identity that is outside the plan:
  when a previous site or circuit is not planned again and its stored minor is valid, no planned
  identity has the same queue and minor.\<close>

theorem plan_avoids_unplanned:
  assumes "distinct (map si_site_key sites)" and "distinct (concat (map cg_circuit_ids groups))"
    and "length previous_sites + length previous_circuits
      + 2 * (length sites + length (concat (map cg_circuit_ids groups))) \<le> 4294967296"
    and "out = plan_class_identities sites groups previous_sites previous_circuits off padding"
  shows "(\<forall>k st. (k, st) \<in> set previous_sites \<and> k \<notin> si_site_key ` set sites
        \<and> 3 \<le> ps_class_minor st \<and> ps_class_minor st < 0xFFFF \<longrightarrow>
      (ps_queue st, ps_class_minor st) \<notin> set (class_ids out))
    \<and> (\<forall>k st. (k, st) \<in> set previous_circuits \<and> (\<forall>g \<in> set groups. k \<notin> set (cg_circuit_ids g))
        \<and> 3 \<le> pc_class_minor st \<and> pc_class_minor st < 0xFFFF \<longrightarrow>
      (pc_queue st, pc_class_minor st) \<notin> set (class_ids out))"
proof -
  let ?rs = "reserve_unplanned (map si_site_key sites) ps_class_minor ps_queue previous_sites []"
  let ?rc = "reserve_unplanned (concat (map cg_circuit_ids groups)) pc_class_minor pc_queue previous_circuits []"
  define cc where "cc = \<lparr>cc_reserved_site_minors = ?rs, cc_reserved_circuit_minors = ?rc, cc_site_minor_start = 3,
    cc_circuit_minor_start = 3, cc_stick_offset = off, cc_circuit_padding = padding\<rparr>"
  have out: "out = plan_class_identities_with_constraints sites groups previous_sites previous_circuits cc"
    by (simp add: assms(4) plan_class_identities_def build_class_identity_reservations_def cc_def)
  have "length (concat (map snd ?rs)) \<le> length previous_sites" "length (concat (map snd ?rc)) \<le> length previous_circuits"
    using length_reserve_unplanned [of "[]"] by simp_all
  then have "planner_size sites groups cc \<le> 4294967296"
    using assms(3) by (simp add: planner_size_def cc_def)
  then have "planner_input sites groups cc"
    using assms(1,2) by (simp add: planner_input_def cc_def distinct_reserve_unplanned)
  then obtain ms ns where P: "planned sites groups cc ms ns out" using plan_planned out by blast
  have no: "(q, m) \<notin> set (class_ids out)"
    if r: "word_of_nat (unat m) \<in> minors ?rs q \<union> minors ?rc q" and m: "m < 0xFFFF" for q m
  proof
    assume "(q, m) \<in> set (class_ids out)"
    then obtain k n where n: "(k, q, n) \<in> set (all_items sites ms groups ns)" "m = u16_or_max n"
      unfolding class_ids_planned [OF P] by force
    have "unat m < 65535" using m by (simp add: word_less_nat_alt)
    then have "word_of_nat (unat m) = n" by (simp add: n(2) unat_u16_or_max min_def split: if_splits)
    with n(1) r P show False by (auto simp: planned_def cc_def)
  qed
  have v: "valid_class_minor m = Some (word_of_nat (unat m))" if "3 \<le> m" "m < 0xFFFF" for m
  proof -
    have "unat (word_of_nat (unat m) :: u32) = unat m"
    proof -
      have "unat m < 4294967296" using unat_u16_less [of m] by linarith
      then show ?thesis by (simp add: unsigned_ucast_eq take_bit_nat_eq_self_iff)
    qed
    then show ?thesis using that by (simp add: valid_class_minor_def word_le_nat_alt word_less_nat_alt)
  qed
  have "(ps_queue st, ps_class_minor st) \<notin> set (class_ids out)"
    if "(k, st) \<in> set previous_sites" "k \<notin> si_site_key ` set sites" "3 \<le> ps_class_minor st" "ps_class_minor st < 0xFFFF" for k st
    by (rule no) (use that v in \<open>auto simp: minors_reserve_unplanned\<close>)
  moreover have "(pc_queue st, pc_class_minor st) \<notin> set (class_ids out)"
    if "(k, st) \<in> set previous_circuits" "\<forall>g \<in> set groups. k \<notin> set (cg_circuit_ids g)"
      "3 \<le> pc_class_minor st" "pc_class_minor st < 0xFFFF" for k st
  proof (rule no [OF UnI2 that(4)])
    have "k \<notin> set (concat (map cg_circuit_ids groups))" using that(2) by simp
    then show "word_of_nat (unat (pc_class_minor st)) \<in> minors ?rc (pc_queue st)"
      unfolding minors_reserve_unplanned using that(1) v [OF that(3,4)] by blast
  qed
  ultimately show ?thesis by blast
qed

theorem plan_avoids_unplanned_witness:
  "(1, 4) \<notin> set (class_ids (plan_class_identities example_sites example_groups
     [(''gone'', \<lparr>ps_class_minor = 4, ps_queue = 1, ps_parent_path = [], ps_class_major = 1, ps_up_class_major = 1\<rparr>)]
     [] 0 0))"
proof -
  have "distinct (map si_site_key example_sites)" "distinct (concat (map cg_circuit_ids example_groups))"
    by (simp_all add: example_sites_def example_groups_def)
  note t = plan_avoids_unplanned [OF this, of "[(''gone'', \<lparr>ps_class_minor = 4, ps_queue = 1, ps_parent_path = [],
    ps_class_major = 1, ps_up_class_major = 1\<rparr>)]" "[]", OF _ refl, of 0 0]
  show ?thesis using t by (simp add: example_sites_def example_groups_def)
qed

text \<open>The persisted counter of a queue lies above every minor planned on it, so a later allocation
  that starts there cannot meet one.\<close>

lemma last_used_minor_above:
  assumes "planner_input sites groups cc"
    and "out = plan_class_identities_with_constraints sites groups previous_sites previous_circuits cc"
    and "(q, m) \<in> set (class_ids out)"
  shows "\<exists>n. map_of (po_last_used_minor_by_queue out) q = Some n \<and> unat m < unat n"
proof -
  obtain ms ns sp cp where P: "planned sites groups cc ms ns out" and o: "out = plan_output sp cp"
    and w: "\<forall>(k, q, m) \<in> set (all_items sites ms groups ns). m \<in> minors (cp_reserved cp) q"
    using plan_planned [OF assms(1)] assms(2) by metis
  obtain k x where x: "(k, q, x) \<in> set (all_items sites ms groups ns)" "m = u16_or_max x"
    using assms(3) unfolding class_ids_planned [OF P] by force
  have xr: "x \<in> minors (cp_reserved cp) q" using w x(1) by blast
  then have "q \<in> fst ` set (cp_reserved cp)"
    by (auto simp: minors_def occupied_def split: option.splits dest!: map_of_SomeD [OF sym] intro: rev_image_eqI)
  then have l: "map_of (po_last_used_minor_by_queue out) q =
      Some (max (max (case map_of (sp_next sp) q of Some n \<Rightarrow> n | None \<Rightarrow> 3) (case map_of (cp_next cp) q of Some n \<Rightarrow> n | None \<Rightarrow> 3))
        (highest_reserved_next (cp_reserved cp) q))"
    by (simp add: o plan_output_def last_used_minors_def Let_def foldl_update_lookup)
  have "unat m \<le> unat x" "unat m < 2 ^ 32 - 1" unfolding x(2) unat_u16_or_max by simp_all
  then have "unat m < unat (highest_reserved_next (cp_reserved cp) q)"
    using highest_reserved_above [OF xr] by linarith
  then show ?thesis unfolding l by (auto simp: max_def word_le_nat_alt)
qed

lemma last_used_minor_above_witness:
  "\<exists>n. map_of (po_last_used_minor_by_queue
     (plan_class_identities_with_constraints example_sites example_groups [] [] example_constraints)) 1 = Some n
     \<and> 7 < unat n"
proof -
  have "(1, 7) \<in> set (class_ids (plan_class_identities_with_constraints example_sites example_groups [] [] example_constraints))"
    unfolding example_class_ids by simp
  from last_used_minor_above [OF example_input refl this] show ?thesis by simp
qed

end
