(* ===== verification/Top_Level_Planner.thy ===== *)
theory Top_Level_Planner
  imports Class_Planner Rust_Float
begin

text \<open>
  Assignment of top-level nodes to shaping queues (\<open>lqos_config/src/planner.rs\<close>): round robin, greedy
  by weight, and the stable mode that keeps previous bins unless a move pays off. Weights are
  \<open>f64\<close>. The helper functions index \<open>bins\<close> modulo its length and are called with bins only.
\<close>

section \<open>Data\<close>

record TopLevelPlannerItem =
  tl_id :: string
  tl_weight :: f64

datatype TopLevelPlannerMode = RoundRobin | Greedy | StableGreedy

record TopLevelPlannerParams =
  tp_mode :: TopLevelPlannerMode
  tp_hysteresis_threshold :: f64
  tp_cooldown_seconds :: f64
  tp_move_budget_per_run :: nat

record TopLevelPlannerOutput =
  to_assignment :: "(string \<times> string) list"
  to_changed :: "string list"
  to_planner_used :: bool

definition sanitize_weight :: "f64 \<Rightarrow> f64" where
  "sanitize_weight weight = (if \<not> is_finite weight \<or> weight \<le> Fin 0 then Fin 1 else weight)"

section \<open>Orders\<close>

datatype ordering = Less | Equal | Greater

definition cmp :: "'a::linorder \<Rightarrow> 'a \<Rightarrow> ordering" where
  "cmp a b = (if a < b then Less else if a = b then Equal else Greater)"

definition then_with :: "ordering \<Rightarrow> ordering \<Rightarrow> ordering" where
  "then_with o1 o2 = (case o1 of Equal \<Rightarrow> o2 | _ \<Rightarrow> o1)"

text \<open>\<open>a.partial_cmp(b).unwrap_or(Equal)\<close>\<close>

definition f64_cmp :: "f64 \<Rightarrow> f64 \<Rightarrow> ordering" where
  "f64_cmp a b = (if a < b then Less else if b < a then Greater else Equal)"

text \<open>The stable sort of a slice by a comparison.\<close>

fun insert_by :: "('a \<Rightarrow> 'a \<Rightarrow> ordering) \<Rightarrow> 'a \<Rightarrow> 'a list \<Rightarrow> 'a list" where
  "insert_by c x [] = [x]"
| "insert_by c x (y # ys) = (if c x y = Greater then y # insert_by c x ys else x # y # ys)"

definition sort_by :: "('a \<Rightarrow> 'a \<Rightarrow> ordering) \<Rightarrow> 'a list \<Rightarrow> 'a list" where
  "sort_by c xs = foldr (insert_by c) xs []"

text \<open>\<open>Iterator::min_by\<close>: the first of the least elements.\<close>

fun min_by_loop :: "('a \<Rightarrow> 'a \<Rightarrow> ordering) \<Rightarrow> 'a \<Rightarrow> 'a list \<Rightarrow> 'a" where
  "min_by_loop c best [] = best"
| "min_by_loop c best (x # xs) = min_by_loop c (if c best x = Greater then x else best) xs"

definition min_by :: "('a \<Rightarrow> 'a \<Rightarrow> ordering) \<Rightarrow> 'a list \<Rightarrow> 'a option" where
  "min_by c xs = (case xs of [] \<Rightarrow> None | x # rest \<Rightarrow> Some (min_by_loop c x rest))"

definition by_weight_desc :: "string \<times> f64 \<Rightarrow> string \<times> f64 \<Rightarrow> ordering" where
  "by_weight_desc a b = then_with (f64_cmp (snd b) (snd a)) (cmp (fst a) (fst b))"

definition by_load :: "string \<times> f64 \<Rightarrow> string \<times> f64 \<Rightarrow> ordering" where
  "by_load a b = then_with (f64_cmp (snd a) (snd b)) (cmp (fst a) (fst b))"

section \<open>Simple assignments\<close>

fun round_robin_loop :: "string list \<Rightarrow> nat \<Rightarrow> string list \<Rightarrow> (string \<times> string) list \<Rightarrow> (string \<times> string) list" where
  "round_robin_loop bins idx [] assignment = assignment"
| "round_robin_loop bins idx (item_id # ids) assignment =
     round_robin_loop bins (Suc idx) ids
       (if idx mod length bins < length bins
        then AList.update item_id (bins ! (idx mod length bins)) assignment else assignment)"

definition round_robin_assign :: "TopLevelPlannerItem list \<Rightarrow> string list \<Rightarrow> (string \<times> string) list" where
  "round_robin_assign items bins = round_robin_loop bins 0 (sort (map tl_id items)) []"

definition add_load :: "string \<Rightarrow> f64 \<Rightarrow> (string \<times> f64) list \<Rightarrow> (string \<times> f64) list" where
  "add_load bin weight loads =
     (case map_of loads bin of Some load \<Rightarrow> AList.update bin (f64_add load weight) loads | None \<Rightarrow> loads)"

fun greedy_loop ::
  "string list \<Rightarrow> (string \<times> f64) list \<Rightarrow> (string \<times> f64) list \<Rightarrow> (string \<times> string) list \<Rightarrow> (string \<times> string) list" where
  "greedy_loop bins [] loads assignment = assignment"
| "greedy_loop bins ((item_id, weight) # pairs) loads assignment =
     (let target = (case min_by by_load (sort_key fst loads) of Some (bin, _) \<Rightarrow> bin | None \<Rightarrow> bins ! 0)
      in greedy_loop bins pairs (add_load target weight loads) (AList.update item_id target assignment))"

definition zero_loads :: "string list \<Rightarrow> (string \<times> f64) list" where
  "zero_loads bins = collect_map (map (\<lambda>bin. (bin, Fin 0)) bins)"

definition greedy_assign :: "TopLevelPlannerItem list \<Rightarrow> string list \<Rightarrow> (string \<times> string) list" where
  "greedy_assign items bins =
     greedy_loop bins (sort_by by_weight_desc (map (\<lambda>item. (tl_id item, sanitize_weight (tl_weight item))) items))
       (zero_loads bins) []"

definition load_by_bin ::
  "(string \<times> string) list \<Rightarrow> (string \<times> f64) list \<Rightarrow> string list \<Rightarrow> (string \<times> f64) list" where
  "load_by_bin assignment item_weights bins =
     foldl (\<lambda>loads (item_id, bin). case map_of item_weights item_id of Some weight \<Rightarrow> add_load bin weight loads | None \<Rightarrow> loads)
       (zero_loads bins) (sort_key fst assignment)"

section \<open>The stable mode\<close>

text \<open>What the main loop of the stable mode reads, and what it updates.\<close>

record StableContext =
  sc_greedy :: "(string \<times> string) list"
  sc_weights :: "(string \<times> f64) list"
  sc_last_change :: "(string \<times> f64) list"
  sc_now :: f64
  sc_params :: TopLevelPlannerParams
  sc_min_improvement :: f64

record StableState =
  ss_assignment :: "(string \<times> string) list"
  ss_loads :: "(string \<times> f64) list"
  ss_moves_used :: nat

definition or_zero :: "f64 option \<Rightarrow> f64" where
  "or_zero x = (case x of Some v \<Rightarrow> v | None \<Rightarrow> Fin 0)"

definition stable_move :: "StableContext \<Rightarrow> StableState \<Rightarrow> string \<Rightarrow> StableState" where
  "stable_move ctx st item_id =
     (case map_of (ss_assignment st) item_id of
        None \<Rightarrow> st
      | Some current_bin \<Rightarrow>
          (case map_of (sc_greedy ctx) item_id of
             None \<Rightarrow> st
           | Some target_bin \<Rightarrow>
               if current_bin = target_bin then st
               else if ss_moves_used st \<ge> tp_move_budget_per_run (sc_params ctx) then st
               else if f64_sub (sc_now ctx) (or_zero (map_of (sc_last_change ctx) item_id))
                       < tp_cooldown_seconds (sc_params ctx) then st
               else
                 let current_load = or_zero (map_of (ss_loads st) current_bin);
                     target_load = or_zero (map_of (ss_loads st) target_bin);
                     weight = (case map_of (sc_weights ctx) item_id of Some w \<Rightarrow> w | None \<Rightarrow> Fin 1);
                     imbalance_before = f64_sub current_load target_load;
                     imbalance_after = f64_abs (f64_sub (f64_sub current_load weight) (f64_add target_load weight))
                 in if f64_sub imbalance_before imbalance_after \<le> sc_min_improvement ctx then st
                    else \<lparr>ss_assignment = AList.update item_id target_bin (ss_assignment st),
                          ss_loads = add_load target_bin weight (add_load current_bin (neg_ieee weight) (ss_loads st)),
                          ss_moves_used = Suc (ss_moves_used st)\<rparr>))"

text \<open>The last loop, which ends at its first move.\<close>

fun spread_loop :: "(string \<times> string) list \<Rightarrow> string list \<Rightarrow> (string \<times> string) list \<Rightarrow> (string \<times> string) list" where
  "spread_loop greedy [] assignment = assignment"
| "spread_loop greedy (item_id # ids) assignment =
     (case map_of assignment item_id of
        None \<Rightarrow> spread_loop greedy ids assignment
      | Some current_bin \<Rightarrow>
          (case map_of greedy item_id of
             None \<Rightarrow> spread_loop greedy ids assignment
           | Some target_bin \<Rightarrow>
               if current_bin \<noteq> target_bin then AList.update item_id target_bin assignment
               else spread_loop greedy ids assignment))"

definition initial_assignment ::
  "string list \<Rightarrow> string list \<Rightarrow> (string \<times> string) list \<Rightarrow> (string \<times> string) list \<Rightarrow> (string \<times> string) list
    \<Rightarrow> (string \<times> string) list" where
  "initial_assignment bins item_ids prev_valid greedy rr =
     foldl (\<lambda>assignment item_id.
         AList.update item_id
           (case or_opt (map_of prev_valid item_id) (or_opt (map_of greedy item_id) (map_of rr item_id)) of
              Some chosen \<Rightarrow> chosen | None \<Rightarrow> bins ! 0) assignment)
       rr item_ids"

definition stable_finish ::
  "string list \<Rightarrow> (string \<times> string) list \<Rightarrow> string list \<Rightarrow> nat \<Rightarrow> StableState \<Rightarrow> (string \<times> string) list" where
  "stable_finish bins greedy weighted_ids move_budget st =
     (if length bins > 1 \<and> length (ss_assignment st) > 1
         \<and> length (remdups (map snd (ss_assignment st))) \<le> 1 \<and> ss_moves_used st < move_budget
      then spread_loop greedy weighted_ids (ss_assignment st)
      else ss_assignment st)"

definition stable_assign ::
  "TopLevelPlannerItem list \<Rightarrow> string list \<Rightarrow> (string \<times> string) list \<Rightarrow> (string \<times> f64) list \<Rightarrow> f64
    \<Rightarrow> TopLevelPlannerParams \<Rightarrow> (string \<times> f64) list \<Rightarrow> (string \<times> string) list" where
  "stable_assign items bins prev_valid last_change_ts now_ts params item_weights =
     (let item_ids = map tl_id items;
          greedy = greedy_assign items bins;
          assignment = initial_assignment bins item_ids prev_valid greedy (round_robin_assign items bins);
          total_weight = foldl (\<lambda>s (_, w). f64_add s w) (Fin 0) (sort_key fst item_weights);
          min_improvement = f64_mul total_weight (f64_max (tp_hysteresis_threshold params) (Fin 0));
          weighted_ids = sort_by (\<lambda>a b. by_weight_desc (a, or_zero (map_of item_weights a)) (b, or_zero (map_of item_weights b))) item_ids
      in stable_finish bins greedy weighted_ids (tp_move_budget_per_run params)
           (foldl (stable_move \<lparr>sc_greedy = greedy, sc_weights = item_weights, sc_last_change = last_change_ts,
                sc_now = now_ts, sc_params = params, sc_min_improvement = min_improvement\<rparr>)
             \<lparr>ss_assignment = assignment, ss_loads = load_by_bin assignment item_weights bins, ss_moves_used = 0\<rparr>
             weighted_ids))"

definition plan_top_level_assignments ::
  "TopLevelPlannerItem list \<Rightarrow> string list \<Rightarrow> (string \<times> string) list \<Rightarrow> (string \<times> f64) list \<Rightarrow> f64
    \<Rightarrow> TopLevelPlannerParams \<Rightarrow> TopLevelPlannerOutput" where
  "plan_top_level_assignments items bins prev_assign last_change_ts now_ts params =
     (if bins = [] \<or> items = []
      then \<lparr>to_assignment = [], to_changed = [], to_planner_used = tp_mode params \<noteq> RoundRobin\<rparr>
      else
        let item_weights = collect_map (map (\<lambda>item. (tl_id item, sanitize_weight (tl_weight item))) items);
            prev_valid = filter (\<lambda>(item_id, bin). map_of item_weights item_id \<noteq> None \<and> bin \<in> set bins) prev_assign;
            (assignment, planner_used) =
              (case tp_mode params of
                 RoundRobin \<Rightarrow> (round_robin_assign items bins, False)
               | Greedy \<Rightarrow> (greedy_assign items bins, False)
               | StableGreedy \<Rightarrow>
                   (stable_assign items bins prev_valid last_change_ts now_ts params item_weights, True));
            changed = sort (map fst (filter (\<lambda>(item_id, bin).
                case map_of prev_valid item_id of Some prev \<Rightarrow> prev \<noteq> bin | None \<Rightarrow> False) (sort_key fst assignment)))
        in \<lparr>to_assignment = assignment, to_changed = changed, to_planner_used = planner_used\<rparr>)"

section \<open>Where items can go\<close>

text \<open>An assignment of a set of items to given bins.\<close>

definition assigns :: "string set \<Rightarrow> string set \<Rightarrow> (string \<times> string) list \<Rightarrow> bool" where
  "assigns ids bins asg \<longleftrightarrow>
     distinct_keys asg \<and> dom (map_of asg) = ids \<and> ran (map_of asg) \<subseteq> bins"

lemma assigns_update:
  "assigns ids bins asg \<Longrightarrow> b \<in> bins \<Longrightarrow> assigns (insert i ids) bins (AList.update i b asg)"
  by (auto simp: assigns_def update_conv' ran_def split: if_splits)

lemma assigns_update_same:
  "assigns ids bins asg \<Longrightarrow> b \<in> bins \<Longrightarrow> i \<in> ids \<Longrightarrow> assigns ids bins (AList.update i b asg)"
  using assigns_update [of ids bins asg b i] by (simp add: insert_absorb)

lemma assigns_lookup: "assigns ids bins asg \<Longrightarrow> map_of asg i = Some b \<Longrightarrow> i \<in> ids \<and> b \<in> bins"
  by (auto simp: assigns_def ran_def)

lemma assigns_empty: "assigns {} bins []"
  by (simp add: assigns_def)

lemma set_insert_by [simp]: "set (insert_by c x xs) = insert x (set xs)"
  by (induction xs) auto

lemma set_sort_by [simp]: "set (sort_by c xs) = set xs"
proof -
  have "set (foldr (insert_by c) xs []) = set xs" by (induction xs) auto
  then show ?thesis by (simp add: sort_by_def)
qed

lemma min_by_loop_in: "min_by_loop c x xs \<in> insert x (set xs)"
  by (induction xs arbitrary: x) (auto split: if_splits)

lemma min_by_Some: "xs \<noteq> [] \<Longrightarrow> \<exists>x \<in> set xs. min_by c xs = Some x"
proof (cases xs)
  case (Cons y ys)
  then show ?thesis using min_by_loop_in [of c y ys] by (auto simp: min_by_def)
qed simp

lemma add_load_keys: "fst ` set (add_load b w loads) = fst ` set loads"
proof (cases "map_of loads b")
  case (Some l)
  then have "b \<in> fst ` set loads" by (metis image_eqI fst_conv map_of_SomeD)
  with Some show ?thesis by (simp add: add_load_def dom_update insert_absorb)
qed (simp add: add_load_def)

lemma round_robin_assigns:
  assumes "bins \<noteq> []" and "assigns ids (set bins) asg"
  shows "assigns (ids \<union> set xs) (set bins) (round_robin_loop bins k xs asg)"
  using assms(2)
proof (induction xs arbitrary: k ids asg)
  case (Cons x xs)
  have "k mod length bins < length bins" using assms(1) by simp
  moreover have "assigns (insert x ids) (set bins) (AList.update x (bins ! (k mod length bins)) asg)"
    using Cons.prems calculation by (intro assigns_update) simp_all
  ultimately show ?case using Cons.IH by fastforce
qed simp

lemma greedy_loop_assigns:
  assumes "fst ` set loads \<subseteq> set bins" and "loads \<noteq> []" and "assigns ids (set bins) asg"
  shows "assigns (ids \<union> fst ` set pairs) (set bins) (greedy_loop bins pairs loads asg)"
  using assms
proof (induction bins pairs loads asg arbitrary: ids rule: greedy_loop.induct)
  case (2 bins i w pairs loads asg)
  let ?t = "case min_by by_load (sort_key fst loads) of Some (bin, _) \<Rightarrow> bin | None \<Rightarrow> bins ! 0"
  have "sort_key fst loads \<noteq> []" using 2(3) by (metis length_sort length_0_conv)
  then obtain b l where m: "(b, l) \<in> set loads" "min_by by_load (sort_key fst loads) = Some (b, l)"
    using min_by_Some [of "sort_key fst loads" by_load] by auto
  then have t: "?t \<in> set bins" using 2(2) by force
  have "add_load ?t w loads \<noteq> []" using 2(3) by (metis add_load_keys image_is_empty set_empty)
  then have "assigns (insert i ids \<union> fst ` set pairs) (set bins)
      (greedy_loop bins pairs (add_load ?t w loads) (AList.update i ?t asg))"
    using 2(2,4) t by (intro 2(1)) (simp_all add: add_load_keys assigns_update)
  then show ?case by (simp add: Let_def)
qed simp

lemma greedy_assigns:
  assumes "bins \<noteq> []"
  shows "assigns (tl_id ` set items) (set bins) (greedy_assign items bins)"
proof -
  have k: "fst ` set (zero_loads bins) = set bins" by (force simp: zero_loads_def keys_collect_map)
  then have "zero_loads bins \<noteq> []" using assms by force
  with k greedy_loop_assigns [OF _ _ assigns_empty, of "zero_loads bins" bins
      "sort_by by_weight_desc (map (\<lambda>item. (tl_id item, sanitize_weight (tl_weight item))) items)"] show ?thesis
    by (simp add: greedy_assign_def image_image)
qed

lemma round_robin_assign_assigns:
  "bins \<noteq> [] \<Longrightarrow> assigns (tl_id ` set items) (set bins) (round_robin_assign items bins)"
  using round_robin_assigns [OF _ assigns_empty, of bins "sort (map tl_id items)" 0]
  by (simp add: round_robin_assign_def)

lemma initial_assigns:
  assumes "bins \<noteq> []" and "assigns ids (set bins) rr" and "ran (map_of prev) \<subseteq> set bins"
    and "assigns ids' (set bins) greedy"
  shows "assigns (ids \<union> set xs) (set bins) (initial_assignment bins xs prev greedy rr)"
proof -
  let ?c = "\<lambda>i. case or_opt (map_of prev i) (or_opt (map_of greedy i) (map_of rr i)) of Some c \<Rightarrow> c | None \<Rightarrow> bins ! 0"
  have c: "?c i \<in> set bins" for i
  proof (cases "or_opt (map_of prev i) (or_opt (map_of greedy i) (map_of rr i))")
    case (Some b)
    then have "map_of prev i = Some b \<or> map_of greedy i = Some b \<or> map_of rr i = Some b"
      by (auto simp: or_opt_def split: option.splits)
    then have "b \<in> set bins" using assms assigns_lookup by (metis ranI subsetD)
    with Some show ?thesis by simp
  qed (use assms(1) in simp)
  have "assigns ids (set bins) asg \<Longrightarrow>
      assigns (ids \<union> set xs) (set bins) (foldl (\<lambda>asg i. AList.update i (?c i) asg) asg xs)" for asg ids
  proof (induction xs arbitrary: asg ids)
    case (Cons x xs)
    from Cons.IH [OF assigns_update [OF Cons.prems c, of x]] show ?case by simp
  qed simp
  from this [OF assms(2)] show ?thesis by (simp add: initial_assignment_def)
qed

lemma initial_assignment_lookup:
  "map_of (initial_assignment bins xs prev greedy rr) i =
     (if i \<in> set xs
      then Some (case or_opt (map_of prev i) (or_opt (map_of greedy i) (map_of rr i)) of Some c \<Rightarrow> c | None \<Rightarrow> bins ! 0)
      else map_of rr i)"
  unfolding initial_assignment_def by (rule foldl_update_lookup)

text \<open>One step of the main loop: nothing, or one item moves to its greedy bin within the budget.\<close>

lemma stable_move_cases:
  obtains (stay) "stable_move ctx st i = st"
  | (move) b where "map_of (ss_assignment st) i \<noteq> None" "map_of (sc_greedy ctx) i = Some b"
      "ss_moves_used st < tp_move_budget_per_run (sc_params ctx)"
      "ss_assignment (stable_move ctx st i) = AList.update i b (ss_assignment st)"
      "ss_moves_used (stable_move ctx st i) = Suc (ss_moves_used st)"
proof (cases "stable_move ctx st i = st")
  case False
  then obtain c b where "map_of (ss_assignment st) i = Some c" "map_of (sc_greedy ctx) i = Some b"
    by (auto simp: stable_move_def split: option.splits)
  with False move show thesis by (auto simp: stable_move_def Let_def split: if_splits)
qed (rule stay)

text \<open>The items that lie in another bin than before.\<close>

definition moved :: "(string \<times> string) list \<Rightarrow> (string \<times> string) list \<Rightarrow> string set" where
  "moved prev asg = {i. \<exists>p b. map_of prev i = Some p \<and> map_of asg i = Some b \<and> p \<noteq> b}"

lemma moved_update: "moved prev (AList.update i b asg) \<subseteq> insert i (moved prev asg)"
  by (auto simp: moved_def update_conv' split: if_splits)

lemma finite_moved [simp]: "finite (moved prev asg)"
proof -
  have "moved prev asg \<subseteq> dom (map_of asg)" by (auto simp: moved_def)
  then show ?thesis by (rule finite_subset) (rule finite_dom_map_of)
qed

lemma card_moved_update: "card (moved prev (AList.update i b asg)) \<le> Suc (card (moved prev asg))"
proof -
  have "card (moved prev (AList.update i b asg)) \<le> card (insert i (moved prev asg))"
    using moved_update by (rule card_mono [rotated]) simp
  then show ?thesis by (simp add: card_insert_if split: if_splits)
qed

definition stable_ok :: "string set \<Rightarrow> string set \<Rightarrow> (string \<times> string) list \<Rightarrow> nat \<Rightarrow> StableState \<Rightarrow> bool" where
  "stable_ok ids bins prev budget st \<longleftrightarrow>
     assigns ids bins (ss_assignment st) \<and> card (moved prev (ss_assignment st)) \<le> ss_moves_used st
     \<and> ss_moves_used st \<le> budget"

lemma stable_move_ok:
  assumes "assigns ids' bins (sc_greedy ctx)"
    and "stable_ok ids bins prev (tp_move_budget_per_run (sc_params ctx)) st"
  shows "stable_ok ids bins prev (tp_move_budget_per_run (sc_params ctx)) (stable_move ctx st i)"
proof (cases rule: stable_move_cases [of ctx st i])
  case (move b)
  have "b \<in> bins" using assigns_lookup [OF assms(1) move(2)] by simp
  moreover have "i \<in> ids" using move(1) assms(2) by (auto simp: stable_ok_def assigns_def)
  moreover have "card (moved prev (AList.update i b (ss_assignment st))) \<le> Suc (ss_moves_used st)"
    using card_moved_update [of prev i b "ss_assignment st"] assms(2) by (simp add: stable_ok_def)
  ultimately show ?thesis using move assms(2) by (simp add: stable_ok_def assigns_update_same)
qed (use assms in simp)

lemma stable_moves_ok:
  assumes "assigns ids' bins (sc_greedy ctx)"
    and "stable_ok ids bins prev (tp_move_budget_per_run (sc_params ctx)) st"
  shows "stable_ok ids bins prev (tp_move_budget_per_run (sc_params ctx)) (foldl (stable_move ctx) st xs)"
  using assms(2) by (induction xs arbitrary: st) (simp_all add: stable_move_ok [OF assms(1)])

lemma spread_loop_ok:
  assumes "assigns ids' bins greedy" and "assigns ids bins asg"
  shows "assigns ids bins (spread_loop greedy xs asg)
    \<and> card (moved prev (spread_loop greedy xs asg)) \<le> Suc (card (moved prev asg))"
  using assms
proof (induction greedy xs asg rule: spread_loop.induct)
  case (2 greedy i xs asg)
  show ?case
  proof (cases "\<exists>c b. map_of asg i = Some c \<and> map_of greedy i = Some b \<and> c \<noteq> b")
    case True
    then obtain c b where cb: "map_of asg i = Some c" "map_of greedy i = Some b" "c \<noteq> b" by blast
    then have "i \<in> ids" "b \<in> bins" using 2 assigns_lookup by blast+
    then show ?thesis using cb 2 card_moved_update by (simp add: assigns_update_same)
  next
    case False
    then show ?thesis using 2 by (auto split: option.splits)
  qed
qed simp

section \<open>Properties\<close>

lemma stable_assign_ok:
  assumes "bins \<noteq> []" and "ran (map_of prev) \<subseteq> set bins" and "dom (map_of prev) \<subseteq> tl_id ` set items"
  shows "assigns (tl_id ` set items) (set bins) (stable_assign items bins prev ts now params weights)
    \<and> card (moved prev (stable_assign items bins prev ts now params weights)) \<le> tp_move_budget_per_run params"
proof -
  let ?g = "greedy_assign items bins" and ?rr = "round_robin_assign items bins" and ?ids = "tl_id ` set items"
  note g = greedy_assigns [OF assms(1), of items] and rr = round_robin_assign_assigns [OF assms(1), of items]
  let ?a = "initial_assignment bins (map tl_id items) prev ?g ?rr"
  have a: "assigns ?ids (set bins) ?a"
    using initial_assigns [OF assms(1) rr assms(2) g, of "map tl_id items"] by simp
  have "moved prev ?a = {}"
    using assms(3) by (auto simp: moved_def initial_assignment_lookup split: if_splits)
  then have st: "stable_ok ?ids (set bins) prev (tp_move_budget_per_run params)
      \<lparr>ss_assignment = ?a, ss_loads = load_by_bin ?a weights bins, ss_moves_used = 0\<rparr>"
    using a by (simp add: stable_ok_def)
  define st' where "st' = foldl (stable_move \<lparr>sc_greedy = ?g, sc_weights = weights, sc_last_change = ts,
      sc_now = now, sc_params = params, sc_min_improvement = f64_mul
        (foldl (\<lambda>s (_, w). f64_add s w) (Fin 0) (sort_key fst weights)) (f64_max (tp_hysteresis_threshold params) (Fin 0))\<rparr>)
    \<lparr>ss_assignment = ?a, ss_loads = load_by_bin ?a weights bins, ss_moves_used = 0\<rparr>
    (sort_by (\<lambda>a b. by_weight_desc (a, or_zero (map_of weights a)) (b, or_zero (map_of weights b))) (map tl_id items))"
  have ok: "stable_ok ?ids (set bins) prev (tp_move_budget_per_run params) st'"
    unfolding st'_def using stable_moves_ok [where ctx = "\<lparr>sc_greedy = ?g, sc_weights = weights, sc_last_change = ts,
      sc_now = now, sc_params = params, sc_min_improvement = f64_mul
        (foldl (\<lambda>s (_, w). f64_add s w) (Fin 0) (sort_key fst weights)) (f64_max (tp_hysteresis_threshold params) (Fin 0))\<rparr>"]
      g st by simp
  have "stable_assign items bins prev ts now params weights = stable_finish bins ?g
      (sort_by (\<lambda>a b. by_weight_desc (a, or_zero (map_of weights a)) (b, or_zero (map_of weights b))) (map tl_id items))
      (tp_move_budget_per_run params) st'"
    by (simp add: stable_assign_def st'_def Let_def)
  moreover have "assigns ?ids (set bins) (stable_finish bins ?g xs (tp_move_budget_per_run params) st')
      \<and> card (moved prev (stable_finish bins ?g xs (tp_move_budget_per_run params) st')) \<le> tp_move_budget_per_run params" for xs
  proof (cases "ss_moves_used st' < tp_move_budget_per_run params")
    case True
    have "assigns ?ids (set bins) (spread_loop ?g xs (ss_assignment st'))
        \<and> card (moved prev (spread_loop ?g xs (ss_assignment st'))) \<le> Suc (card (moved prev (ss_assignment st')))"
      by (rule spread_loop_ok [OF g]) (use ok in \<open>simp add: stable_ok_def\<close>)
    with True ok show ?thesis by (auto simp: stable_finish_def stable_ok_def)
  qed (use ok in \<open>simp add: stable_finish_def stable_ok_def\<close>)
  ultimately show ?thesis by simp
qed

definition valid_previous ::
  "TopLevelPlannerItem list \<Rightarrow> string list \<Rightarrow> (string \<times> string) list \<Rightarrow> (string \<times> string) list" where
  "valid_previous items bins prev_assign =
     filter (\<lambda>(i, bin). map_of (collect_map (map (\<lambda>item. (tl_id item, sanitize_weight (tl_weight item))) items)) i \<noteq> None
       \<and> bin \<in> set bins) prev_assign"

lemma map_of_eq_iff_distinct: "distinct (map fst kvs) \<Longrightarrow> map_of kvs k = Some v \<longleftrightarrow> (k, v) \<in> set kvs"
  by simp

lemma valid_previous_lookup:
  assumes "distinct (map fst prev_assign)"
  shows "map_of (valid_previous items bins prev_assign) i = Some p
    \<longleftrightarrow> (i, p) \<in> set prev_assign \<and> i \<in> tl_id ` set items \<and> p \<in> set bins"
proof -
  have "distinct (map fst (valid_previous items bins prev_assign))"
    using assms by (simp add: valid_previous_def distinct_map_filter)
  moreover have "map_of (collect_map (map (\<lambda>item. (tl_id item, sanitize_weight (tl_weight item))) items)) i \<noteq> None
      \<longleftrightarrow> i \<in> tl_id ` set items"
    by (simp add: map_of_eq_None_iff keys_collect_map image_image)
  ultimately show ?thesis by (auto simp: valid_previous_def)
qed

lemma plan_top_level_result:
  assumes "items \<noteq> []" and "bins \<noteq> []" and "distinct (map fst prev_assign)"
    and "out = plan_top_level_assignments items bins prev_assign ts now params"
  shows "assigns (tl_id ` set items) (set bins) (to_assignment out)"
    and "distinct (to_changed out)" and "sorted (to_changed out)"
    and "set (to_changed out) = moved (valid_previous items bins prev_assign) (to_assignment out)"
    and "tp_mode params = StableGreedy \<Longrightarrow>
      card (moved (valid_previous items bins prev_assign) (to_assignment out)) \<le> tp_move_budget_per_run params"
proof -
  let ?w = "collect_map (map (\<lambda>item. (tl_id item, sanitize_weight (tl_weight item))) items)"
  let ?prev = "valid_previous items bins prev_assign"
  have "ran (map_of ?prev) \<subseteq> set bins" "dom (map_of ?prev) \<subseteq> tl_id ` set items"
    using valid_previous_lookup [OF assms(3)] by (auto simp: ran_def)
  note st = stable_assign_ok [OF assms(2) this, of ts now params ?w]
  have a: "to_assignment out = (case tp_mode params of RoundRobin \<Rightarrow> round_robin_assign items bins
      | Greedy \<Rightarrow> greedy_assign items bins | StableGreedy \<Rightarrow> stable_assign items bins ?prev ts now params ?w)"
    using assms(1,2) by (simp add: assms(4) plan_top_level_assignments_def Let_def valid_previous_def
        split: TopLevelPlannerMode.splits)
  have c: "to_changed out = sort (map fst (filter (\<lambda>(i, bin). case map_of ?prev i of Some p \<Rightarrow> p \<noteq> bin | None \<Rightarrow> False)
      (sort_key fst (to_assignment out))))"
    using assms(1,2) by (simp add: assms(4) plan_top_level_assignments_def Let_def valid_previous_def case_prod_beta)
  show as: "assigns (tl_id ` set items) (set bins) (to_assignment out)"
    using st greedy_assigns [OF assms(2)] round_robin_assign_assigns [OF assms(2)]
    by (simp add: a split: TopLevelPlannerMode.splits)
  then have d: "distinct (map fst (to_assignment out))" by (simp add: assigns_def distinct_keys_def)
  then have "distinct (map fst (sort_key fst (to_assignment out)))" by (simp add: distinct_map)
  then show "distinct (to_changed out)" by (simp add: c distinct_map_filter)
  show "sorted (to_changed out)" by (simp add: c)
  show "set (to_changed out) = moved ?prev (to_assignment out)"
    using d by (force simp: c moved_def split: option.splits)
  show "card (moved ?prev (to_assignment out)) \<le> tp_move_budget_per_run params" if "tp_mode params = StableGreedy"
    using st that by (simp add: a)
qed

text \<open>C35. Every mode assigns exactly the given items, each to one of the given bins, when there are any;
  and the reported changes are, in order and without repetition, the items whose previous bin is
  still valid and differs from the new one.\<close>

theorem plan_top_level_total:
  assumes "items \<noteq> []" and "bins \<noteq> []" and "distinct (map fst prev_assign)"
    and "out = plan_top_level_assignments items bins prev_assign last_change_ts now_ts params"
  shows "distinct (map fst (to_assignment out))
    \<and> fst ` set (to_assignment out) = tl_id ` set items \<and> snd ` set (to_assignment out) \<subseteq> set bins
    \<and> sorted (to_changed out) \<and> distinct (to_changed out)
    \<and> (\<forall>i. i \<in> set (to_changed out) \<longleftrightarrow>
         (\<exists>p b. (i, p) \<in> set prev_assign \<and> p \<in> set bins \<and> (i, b) \<in> set (to_assignment out) \<and> p \<noteq> b))"
proof -
  note r = plan_top_level_result [OF assms]
  have d: "distinct (map fst (to_assignment out))" using r(1) by (simp add: assigns_def distinct_keys_def)
  have "i \<in> set (to_changed out) \<longleftrightarrow>
      (\<exists>p b. (i, p) \<in> set prev_assign \<and> p \<in> set bins \<and> (i, b) \<in> set (to_assignment out) \<and> p \<noteq> b)" for i
  proof -
    have "(i, b) \<in> set (to_assignment out) \<Longrightarrow> i \<in> tl_id ` set items" for b
      using r(1) d by (auto simp: assigns_def)
    then show ?thesis
      unfolding r(4) moved_def valid_previous_lookup [OF assms(3)] map_of_eq_iff_distinct [OF d] by blast
  qed
  moreover have "fst ` set (to_assignment out) = tl_id ` set items"
    using r(1) by (simp add: assigns_def dom_map_of_conv_image_fst)
  moreover have "snd ` set (to_assignment out) \<subseteq> set bins"
    using r(1) d by (auto simp: assigns_def ran_def)
  ultimately show ?thesis using d r(2,3) by blast
qed

theorem plan_top_level_total_witness:
  "let out = plan_top_level_assignments [\<lparr>tl_id = ''a'', tl_weight = NaN\<rparr>, \<lparr>tl_id = ''b'', tl_weight = Fin 2\<rparr>]
         [''q0'', ''q1''] [(''a'', ''gone'')] [] (Fin 0)
         \<lparr>tp_mode = StableGreedy, tp_hysteresis_threshold = Fin 0, tp_cooldown_seconds = Fin 0, tp_move_budget_per_run = 1\<rparr>
   in fst ` set (to_assignment out) = {''a'', ''b''} \<and> to_changed out = []"
proof -
  let ?items = "[\<lparr>tl_id = ''a'', tl_weight = NaN\<rparr>, \<lparr>tl_id = ''b'', tl_weight = Fin 2\<rparr>]"
  define out where "out = plan_top_level_assignments ?items [''q0'', ''q1''] [(''a'', ''gone'')] [] (Fin 0)
    \<lparr>tp_mode = StableGreedy, tp_hysteresis_threshold = Fin 0, tp_cooldown_seconds = Fin 0, tp_move_budget_per_run = 1\<rparr>"
  have "fst ` set (to_assignment out) = tl_id ` set ?items \<and> set (to_changed out) = {}"
    using plan_top_level_total [OF _ _ _ out_def] by fastforce
  then show ?thesis unfolding Let_def out_def [symmetric] by simp
qed

text \<open>The stable mode keeps its move budget: at most \<open>move_budget_per_run\<close> items with a valid previous
  bin leave it in one run, the final correction of a single-bin assignment included.\<close>

lemma stable_moves_within_budget:
  assumes "items \<noteq> []" and "bins \<noteq> []" and "distinct (map fst prev_assign)" and "tp_mode params = StableGreedy"
  shows "length (to_changed (plan_top_level_assignments items bins prev_assign last_change_ts now_ts params))
    \<le> tp_move_budget_per_run params"
proof -
  note r = plan_top_level_result [OF assms(1-3) refl]
  show ?thesis using r(5) [OF assms(4)] distinct_card [OF r(2)] unfolding r(4) by simp
qed

end
