(* ===== verification/Tc_Handle.thy ===== *)
theory Tc_Handle
  imports Rust_Strings
begin

text \<open>
  Traffic-control handles (\<open>lqos_bus/src/tc_handle.rs\<close>) and the hexadecimal numbers they are written
  in (\<open>lqos_utils/src/hex_string.rs\<close>). A handle is a 32-bit number, the major in its upper half.
  Log messages are left out.
\<close>

unbundle bit_operations_syntax

section \<open>Hexadecimal numbers\<close>

text \<open>The text \<open>{:x}\<close> prints.\<close>

fun hex_string :: "nat \<Rightarrow> string" where
  "hex_string n = (if n < 16 then [hex_digit n] else hex_string (n div 16) @ [hex_digit (n mod 16)])"

declare hex_string.simps [simp del]

definition hex_val :: "char \<Rightarrow> nat" where
  "hex_val c = (let n = of_char c in if n \<le> 57 then n - 48 else if n \<le> 70 then n - 55 else n - 87)"

definition hex_nat :: "string \<Rightarrow> nat" where
  "hex_nat s = foldl (\<lambda>n c. 16 * n + hex_val c) 0 s"

text \<open>
  \<open>u32::from_str_radix(s, 16)\<close>: an optional plus sign, then at least one digit, and the value has to
  fit.
\<close>

definition u32_from_hex :: "string \<Rightarrow> u32 option" where
  "u32_from_hex s =
     (let ds = (case s of [] \<Rightarrow> [] | c # cs \<Rightarrow> if c = CHR ''+'' then cs else s) in
      if ds = [] \<or> \<not> list_all is_ascii_hexdigit ds \<or> 2 ^ 32 \<le> hex_nat ds then None
      else Some (word_of_nat (hex_nat ds)))"

text \<open>\<open>s.replace("0x", "")\<close>\<close>

fun remove_0x :: "string \<Rightarrow> string" where
  "remove_0x (c # d # cs) =
     (if c = CHR ''0'' \<and> d = CHR ''x'' then remove_0x cs else c # remove_0x (d # cs))"
| "remove_0x [c] = [c]"
| "remove_0x [] = []"

datatype HexParseError = ParseError

definition read_hex_string :: "string \<Rightarrow> (u32, HexParseError) result" where
  "read_hex_string s =
     (if s = [] then Inr 0
      else case u32_from_hex (remove_0x s) of Some data \<Rightarrow> Inr data | None \<Rightarrow> Inl ParseError)"

section \<open>Handles\<close>

type_synonym TcHandle = u32

datatype TcHandleParseError = CString | InvalidInput string

definition TC_H_ROOT :: u32 where
  "TC_H_ROOT = 4294967295"

definition TC_H_UNSPEC :: u32 where
  "TC_H_UNSPEC = 0"

definition get_major_minor :: "TcHandle \<Rightarrow> u16 \<times> u16" where
  "get_major_minor h = (ucast (drop_bit 16 h), ucast (h AND 0xFFFF))"

definition from_string :: "string \<Rightarrow> (TcHandle, TcHandleParseError) result" where
  "from_string text =
     (let handle = trim text in
      if handle = ''root'' then Inr TC_H_ROOT
      else if handle = ''none'' then Inr TC_H_UNSPEC
      else if CHR '':'' \<notin> set handle
      then (case read_hex_string handle of
              Inr major \<Rightarrow> (let minor = 0 in Inr (push_bit 16 major OR minor))
            | Inl _ \<Rightarrow> Inl (InvalidInput handle))
      else
        let parts = split_on (CHR '':'') handle
        in and_then (map_err (\<lambda>_. InvalidInput handle) (read_hex_string (parts ! 0))) (\<lambda>major.
           and_then (map_err (\<lambda>_. InvalidInput handle) (read_hex_string (parts ! 1))) (\<lambda>minor.
             if push_bit 16 1 \<le> major \<or> push_bit 16 1 \<le> minor then Inl (InvalidInput handle)
             else Inr (push_bit 16 major OR minor))))"

definition as_tc_string :: "TcHandle \<Rightarrow> string" where
  "as_tc_string h =
     (let (major, minor) = get_major_minor h in
      if minor \<noteq> 0 then ''0x'' @ hex_string (unat major) @ '':0x'' @ hex_string (unat minor)
      else ''0x'' @ hex_string (unat major) @ '':'')"

text \<open>\<open>Display\<close> for \<open>TcHandle\<close>\<close>

definition tc_to_string :: "TcHandle \<Rightarrow> string" where
  "tc_to_string h =
     (let (major, minor) = get_major_minor h in hex_string (unat major) @ '':'' @ hex_string (unat minor))"

section \<open>Facts\<close>

lemma hex_nat_append: "hex_nat (s @ [c]) = 16 * hex_nat s + hex_val c"
  by (simp add: hex_nat_def)

lemma hex_digit_facts:
  assumes "n < 16"
  shows "is_ascii_hexdigit (hex_digit n)" "hex_val (hex_digit n) = n"
  using assms by (simp_all add: is_ascii_hexdigit_def hex_val_def of_char_hex_digit Let_def)

lemma hex_string_facts:
  "hex_string n \<noteq> [] \<and> list_all is_ascii_hexdigit (hex_string n) \<and> hex_nat (hex_string n) = n"
proof (induction n rule: hex_string.induct)
  case (1 n)
  show ?case
  proof (cases "n < 16")
    case True
    then have "hex_string n = [hex_digit n]" by (simp add: hex_string.simps)
    with True show ?thesis using hex_digit_facts [of n] by (simp add: hex_nat_def)
  next
    case False
    then have "hex_string n = hex_string (n div 16) @ [hex_digit (n mod 16)]"
      by (subst hex_string.simps) simp
    moreover have "n mod 16 < 16" by simp
    ultimately show ?thesis
      using 1 [OF False] hex_digit_facts [of "n mod 16"] by (simp add: hex_nat_append)
  qed
qed

lemma hexdigit_other:
  "is_ascii_hexdigit c \<Longrightarrow> c \<noteq> CHR ''x'' \<and> c \<noteq> CHR ''+'' \<and> c \<noteq> CHR '':''"
  by (auto simp: is_ascii_hexdigit_def)

lemma remove_0x_digits: "list_all is_ascii_hexdigit s \<Longrightarrow> remove_0x s = s"
  by (induction s rule: remove_0x.induct) (auto dest: hexdigit_other)

lemma read_hex_string_digits:
  assumes "n < 2 ^ 32"
  shows "read_hex_string (hex_string n) = Inr (word_of_nat n)"
    and "read_hex_string (''0x'' @ hex_string n) = Inr (word_of_nat n)"
proof -
  note f = hex_string_facts [of n]
  obtain c cs where c: "hex_string n = c # cs" using f by (cases "hex_string n") auto
  then have "c \<noteq> CHR ''+''" using f hexdigit_other by simp
  with c f assms have "u32_from_hex (hex_string n) = Some (word_of_nat n)"
    by (simp add: u32_from_hex_def)
  then show "read_hex_string (hex_string n) = Inr (word_of_nat n)"
    "read_hex_string (''0x'' @ hex_string n) = Inr (word_of_nat n)"
    using f by (simp_all add: read_hex_string_def remove_0x_digits)
qed

lemma split_on_other: "sep \<notin> set s \<Longrightarrow> split_on sep (s @ sep # t) = s # split_on sep t"
  by (induction s) auto

lemma split_on_none: "sep \<notin> set s \<Longrightarrow> split_on sep s = [s]"
  by (induction s) auto

lemma trim_graph:
  assumes "\<forall>c \<in> set s. 32 < (of_char c :: nat) \<and> (of_char c :: nat) < 128"
  shows "trim s = s"
proof -
  have start: "trim_start t = t" if "set t \<subseteq> set s" for t
  proof (cases t)
    case (Cons c cs)
    then have "32 < (of_char c :: nat) \<and> (of_char c :: nat) < 128" using that assms by simp
    then show ?thesis using Cons by (intro trim_start_ws) (simp add: ws_len_def char_at_def Let_def)
  qed simp
  have "trim_end t = t" if "set t \<subseteq> set s" for t
    using that by (induction t) (simp_all add: start)
  then show ?thesis by (simp add: trim_def start)
qed

lemma hexdigit_graph:
  "is_ascii_hexdigit c \<Longrightarrow> 32 < (of_char c :: nat) \<and> (of_char c :: nat) < 128"
  by (auto simp: is_ascii_hexdigit_def Let_def)

lemma trim_hex_parts:
  "trim (p @ hex_string a @ q @ t) = p @ hex_string a @ q @ t"
  if "p = [] \<or> p = ''0x''" "q = '':'' \<or> q = '':0x''" "t = [] \<or> t = hex_string b"
proof (rule trim_graph)
  have "\<forall>c \<in> set (hex_string n). 32 < (of_char c :: nat) \<and> (of_char c :: nat) < 128" for n
    using hex_string_facts [of n] hexdigit_graph by (auto simp: list_all_iff)
  then show "\<forall>c \<in> set (p @ hex_string a @ q @ t). 32 < (of_char c :: nat) \<and> (of_char c :: nat) < 128"
    using that by auto
qed

lemma join_major_minor:
  assumes "get_major_minor h = (major, minor)"
  shows "push_bit 16 (ucast major) OR ucast minor = h"
proof -
  have low: "h AND 0xFFFF = take_bit 16 h" by (simp add: take_bit_eq_mask mask_eq_exp_minus_1)
  have parts: "major = ucast (drop_bit 16 h)" "minor = ucast (take_bit 16 h)"
    using assms by (simp_all add: get_major_minor_def low)
  have "bit h n \<longleftrightarrow> (16 \<le> n \<and> bit h (16 + (n - 16)) \<or> n < 16 \<and> bit h n)" for n
    by (cases "16 \<le> n") simp_all
  then show ?thesis unfolding parts by (intro bit_eqI) (auto simp: bit_simps)
qed

lemma unat_u16_less_u32: "unat (w :: u16) < 2 ^ 32"
  by (rule order.strict_trans [OF unat_u16_less]) simp

lemma unat_ucast_u16 [simp]: "unat (ucast (w :: u16) :: u32) = unat w"
  using unat_u16_less_u32 [of w] by (simp add: unsigned_ucast_eq take_bit_nat_eq_self)

lemma majors_in_range: "\<not> push_bit 16 1 \<le> (ucast (w :: u16) :: u32)"
proof -
  have "\<not> 65536 \<le> unat w" using unat_u16_less [of w] by linarith
  then show ?thesis by (simp add: word_le_nat_alt)
qed

text \<open>The two printed forms are read back part by part.\<close>

lemma from_string_parts:
  assumes mm: "get_major_minor h = (major, minor)"
    and p: "p = [] \<or> p = ''0x''" and q: "q = [] \<and> t = [] \<and> minor = 0 \<or> (q = [] \<or> q = ''0x'') \<and> t = hex_string (unat minor)"
  shows "from_string (p @ hex_string (unat major) @ '':'' @ q @ t) = Inr h"
proof -
  define s where "s = p @ hex_string (unat major) @ '':'' @ q @ t"
  have tr: "trim s = s"
    using trim_hex_parts [of p "'':'' @ q" t "unat minor" "unat major"] p q by (auto simp: s_def)
  have no: "CHR '':'' \<notin> set (hex_string n)" for n
    using hex_string_facts [of n] hexdigit_other by (auto simp: list_all_iff)
  have pno: "CHR '':'' \<notin> set (p @ hex_string (unat major))" using p no by auto
  have qno: "CHR '':'' \<notin> set (q @ t)" using q no by auto
  have sp: "split_on (CHR '':'') s = [p @ hex_string (unat major), q @ t]"
    using split_on_other [OF pno, of "q @ t"] split_on_none [OF qno] by (simp add: s_def)
  have ma: "read_hex_string (p @ hex_string (unat major)) = Inr (ucast major)"
    using p read_hex_string_digits [OF unat_u16_less_u32, of major] by auto
  have mi: "read_hex_string (q @ t) = Inr (ucast minor)"
    using q read_hex_string_digits [OF unat_u16_less_u32, of minor] by (auto simp: read_hex_string_def [of "[]"])
  have colon: "CHR '':'' \<in> set s" by (simp add: s_def)
  moreover have "CHR '':'' \<notin> set ''root''" "CHR '':'' \<notin> set ''none''" by simp_all
  ultimately have other: "s \<noteq> ''root''" "s \<noteq> ''none''" by (metis (no_types))+
  have "from_string s = Inr h"
    using colon other majors_in_range join_major_minor [OF mm]
    by (simp add: from_string_def tr Let_def sp ma mi del: push_bit_of_1)
  then show ?thesis by (simp only: s_def)
qed

text \<open>Both texts a handle is printed as (with \<open>Display\<close> and for \<open>tc\<close>) are read back as the handle,
  for every handle; so two handles are never printed alike.\<close>

lemma tc_handle_round_trip:
  "from_string (tc_to_string h) = Inr h \<and> from_string (as_tc_string h) = Inr h"
proof (cases "get_major_minor h")
  case (Pair major minor)
  show ?thesis
    using from_string_parts [OF Pair, of "[]" "[]" "hex_string (unat minor)"]
      from_string_parts [OF Pair, of "''0x''" "[]" "[]"]
      from_string_parts [OF Pair, of "''0x''" "''0x''" "hex_string (unat minor)"]
    by (simp add: tc_to_string_def as_tc_string_def Pair)
qed

text \<open>
  A text without a colon is a major alone and its range is not checked: the bits above the 16th are
  shifted out, so different numbers are read as one handle.
\<close>

lemma major_alone:
  assumes "n < 2 ^ 32" and "hex_string n \<noteq> ''root''" and "hex_string n \<noteq> ''none''"
  shows "from_string (hex_string n) = Inr (push_bit 16 (word_of_nat n))"
proof -
  have g: "list_all is_ascii_hexdigit (hex_string n)" using hex_string_facts by simp
  then have "trim (hex_string n) = hex_string n" using hexdigit_graph
    by (intro trim_graph) (auto simp: list_all_iff)
  moreover have "CHR '':'' \<notin> set (hex_string n)" using g hexdigit_other by (auto simp: list_all_iff)
  ultimately show ?thesis
    using assms read_hex_string_digits(1) [of n] by (simp add: from_string_def)
qed

lemma oversize_major_truncated: "from_string ''10001'' = from_string ''1''"
proof -
  have "hex_string 0x10001 = ''10001''" "hex_string 1 = ''1''"
    by code_simp+
  then show ?thesis using major_alone [of "0x10001"] major_alone [of 1] by simp
qed

end
