(* ===== verification/Bakery_Diff.thy ===== *)
theory Bakery_Diff
  imports Rust_Float Tc_Handle
begin

text \<open>
  What a batch of commands changes (\<open>lqos_bakery/src/diff/sites.rs\<close>, \<open>diff/circuits.rs\<close>): the sites
  and circuits of the batch against those the bakery has. A hash map is an association list in its
  iteration order, which is arbitrary. Log messages are left out. Commands other than those that add
  a site or a circuit play no part in the diffs.
\<close>

section \<open>Commands\<close>

record SiteCommand =
  site_hash :: i64
  site_parent_class_id :: TcHandle
  site_up_parent_class_id :: TcHandle
  site_class_minor :: u16
  site_download_bandwidth_min :: f32
  site_upload_bandwidth_min :: f32
  site_download_bandwidth_max :: f32
  site_upload_bandwidth_max :: f32

record CircuitCommand =
  circuit_hash :: i64
  circuit_name :: "string option"
  circuit_site_name :: "string option"
  circuit_parent_class_id :: TcHandle
  circuit_up_parent_class_id :: TcHandle
  circuit_class_minor :: u16
  circuit_download_bandwidth_min :: f32
  circuit_upload_bandwidth_min :: f32
  circuit_download_bandwidth_max :: f32
  circuit_upload_bandwidth_max :: f32
  circuit_class_major :: u16
  circuit_up_class_major :: u16
  circuit_down_qdisc_handle :: "u16 option"
  circuit_up_qdisc_handle :: "u16 option"
  circuit_ip_addresses :: string
  circuit_sqm_override :: "string option"

datatype BakeryCommands =
    MqSetup usize usize
  | AddSite SiteCommand
  | AddCircuit CircuitCommand
  | OtherCommand

text \<open>\<open>!=\<close> on floats: NaN differs from everything.\<close>

definition float_ne :: "f32 \<Rightarrow> f32 \<Rightarrow> bool" where
  "float_ne x y \<longleftrightarrow> x = NaN \<or> y = NaN \<or> x \<noteq> y"

section \<open>Sites\<close>

record StructuralSiteDiffDetails =
  details_site_hash :: i64

datatype SiteDiffResult =
    RebuildRequired string "StructuralSiteDiffDetails option"
  | SpeedChanges "BakeryCommands list"
  | NoSiteChange

fun added_site :: "BakeryCommands \<Rightarrow> (i64 \<times> BakeryCommands) option" where
  "added_site (AddSite s) = Some (site_hash s, AddSite s)"
| "added_site _ = None"

definition site_set_delta ::
  "(i64 \<times> BakeryCommands) list \<Rightarrow> (i64 \<times> BakeryCommands) list \<Rightarrow> i64 list \<times> i64 list" where
  "site_set_delta old_sites new_sites =
     (sort (filter (\<lambda>hash. map_of old_sites hash = None) (map fst new_sites)),
      sort (filter (\<lambda>hash. map_of new_sites hash = None) (map fst old_sites)))"

definition SITE_DELTA_PREVIEW_THRESHOLD :: nat where
  "SITE_DELTA_PREVIEW_THRESHOLD = 8"

text \<open>\<open>{:?}\<close> of a slice of \<open>i64\<close>\<close>

definition debug_hashes :: "i64 list \<Rightarrow> string" where
  "debug_hashes hashes =
     ''['' @ (case hashes of [] \<Rightarrow> [] | h # hs \<Rightarrow> show_i64 h @ concat (map (\<lambda>x. '', '' @ show_i64 x) hs)) @ '']''"

definition format_site_hash_preview :: "string \<Rightarrow> i64 list \<Rightarrow> nat \<Rightarrow> string option" where
  "format_site_hash_preview label hashes total_changed =
     (if hashes = [] \<or> SITE_DELTA_PREVIEW_THRESHOLD < length hashes
         \<or> SITE_DELTA_PREVIEW_THRESHOLD < total_changed
      then None
      else Some ('' '' @ label @ ''='' @ debug_hashes hashes))"

definition format_site_delta_summary ::
  "string \<Rightarrow> i64 option \<Rightarrow> nat \<Rightarrow> nat \<Rightarrow> i64 list \<Rightarrow> i64 list \<Rightarrow> string" where
  "format_site_delta_summary reason missing_old_site_hash old_count new_count added removed =
     (let summary = ''Bakery full reload triggered by site diff: '' @ reason
            @ '' old_count='' @ dec_digits old_count @ '' new_count='' @ dec_digits new_count
            @ '' added_count='' @ dec_digits (length added) @ '' removed_count='' @ dec_digits (length removed);
          total_changed = length added + length removed;
          summary = (case missing_old_site_hash of
                       Some hash \<Rightarrow> summary @ '' missing_old_site_hash='' @ show_i64 hash | None \<Rightarrow> summary);
          summary = (case format_site_hash_preview ''added_preview'' added total_changed of
                       Some preview \<Rightarrow> summary @ preview | None \<Rightarrow> summary)
      in case format_site_hash_preview ''removed_preview'' removed total_changed of
           Some preview \<Rightarrow> summary @ preview | None \<Rightarrow> summary)"

fun is_structurally_different :: "BakeryCommands \<Rightarrow> BakeryCommands \<Rightarrow> bool" where
  "is_structurally_different (AddSite a) (AddSite b) =
     (if site_hash a \<noteq> site_hash b then False
      else site_parent_class_id a \<noteq> site_parent_class_id b
           \<or> site_up_parent_class_id a \<noteq> site_up_parent_class_id b
           \<or> site_class_minor a \<noteq> site_class_minor b)"
| "is_structurally_different _ _ = False"

fun site_speeds_changed :: "BakeryCommands \<Rightarrow> BakeryCommands \<Rightarrow> BakeryCommands option" where
  "site_speeds_changed (AddSite a) (AddSite b) =
     (if site_hash a \<noteq> site_hash b then None
      else if float_ne (site_download_bandwidth_min a) (site_download_bandwidth_min b)
           \<or> float_ne (site_upload_bandwidth_min a) (site_upload_bandwidth_min b)
           \<or> float_ne (site_download_bandwidth_max a) (site_download_bandwidth_max b)
           \<or> float_ne (site_upload_bandwidth_max a) (site_upload_bandwidth_max b)
      then Some (AddSite \<lparr>site_hash = site_hash a, site_parent_class_id = site_parent_class_id a,
             site_up_parent_class_id = site_up_parent_class_id a, site_class_minor = site_class_minor a,
             site_download_bandwidth_min = site_download_bandwidth_min b,
             site_upload_bandwidth_min = site_upload_bandwidth_min b,
             site_download_bandwidth_max = site_download_bandwidth_max b,
             site_upload_bandwidth_max = site_upload_bandwidth_max b\<rparr>)
      else None)"
| "site_speeds_changed _ _ = None"

fun site_handles :: "BakeryCommands \<Rightarrow> string \<times> string \<times> u16" where
  "site_handles (AddSite s) =
     (as_tc_string (site_parent_class_id s), as_tc_string (site_up_parent_class_id s), site_class_minor s)"
| "site_handles _ = ([], [], 0)"

text \<open>The arrow of the message, U+2192, in UTF-8.\<close>

definition arrow :: string where
  "arrow = [char_of (0xE2 :: nat), char_of (0x86 :: nat), char_of (0x92 :: nat)]"

definition site_change_summary :: "i64 \<Rightarrow> BakeryCommands \<Rightarrow> BakeryCommands \<Rightarrow> string" where
  "site_change_summary hash old_cmd new_cmd =
     (let (opar, oup, omin) = site_handles old_cmd; (npar, nup, nmin) = site_handles new_cmd
      in ''Bakery full reload triggered by site diff: site_hash='' @ show_i64 hash
         @ '' parent='' @ opar @ arrow @ npar @ '' up_parent='' @ oup @ arrow @ nup
         @ '' minor=0x'' @ hex_string (unat omin) @ arrow @ ''0x'' @ hex_string (unat nmin))"

fun diff_sites_loop ::
  "(i64 \<times> BakeryCommands) list \<Rightarrow> (i64 \<times> BakeryCommands) list \<Rightarrow> (i64 \<times> BakeryCommands) list
    \<Rightarrow> BakeryCommands list \<Rightarrow> SiteDiffResult" where
  "diff_sites_loop old_sites new_sites [] speed_changes =
     (if speed_changes \<noteq> [] then SpeedChanges speed_changes else NoSiteChange)"
| "diff_sites_loop old_sites new_sites ((hash, old_cmd) # rest) speed_changes =
     (case map_of new_sites hash of
        Some new_cmd \<Rightarrow>
          if is_structurally_different old_cmd new_cmd
          then RebuildRequired (site_change_summary hash old_cmd new_cmd) (Some \<lparr>details_site_hash = hash\<rparr>)
          else diff_sites_loop old_sites new_sites rest
                 (case site_speeds_changed old_cmd new_cmd of
                    Some speed_change \<Rightarrow> speed_changes @ [speed_change] | None \<Rightarrow> speed_changes)
      | None \<Rightarrow>
          let (added, removed) = site_set_delta old_sites new_sites
          in RebuildRequired (format_site_delta_summary ''site_set_changed'' (Some hash) (length old_sites) (length new_sites) added removed) None)"

definition diff_sites :: "BakeryCommands list \<Rightarrow> (i64 \<times> BakeryCommands) list \<Rightarrow> SiteDiffResult" where
  "diff_sites batch old_sites =
     (let new_sites = collect_map (List.map_filter added_site batch)
      in if length old_sites \<noteq> length new_sites
         then let (added, removed) = site_set_delta old_sites new_sites
              in RebuildRequired (format_site_delta_summary ''site_count_mismatch'' None (length old_sites) (length new_sites) added removed) None
         else diff_sites_loop old_sites new_sites old_sites [])"

section \<open>Circuits\<close>

record CircuitDiffCategories =
  newly_added :: "BakeryCommands list"
  removed_circuits :: "i64 list"
  speed_changed :: "BakeryCommands list"
  ip_changed :: "BakeryCommands list"
  migrated :: "BakeryCommands list"
  structural_changed :: "BakeryCommands list"

datatype CircuitDiffResult = NoCircuitChange | Categorized CircuitDiffCategories

datatype CircuitChange = NoneChange | Migration | Speed | Ip | SpeedAndIp

fun added_circuit :: "BakeryCommands \<Rightarrow> (i64 \<times> BakeryCommands) option" where
  "added_circuit (AddCircuit c) = Some (circuit_hash c, AddCircuit c)"
| "added_circuit _ = None"

fun classify_circuit_change :: "BakeryCommands \<Rightarrow> BakeryCommands \<Rightarrow> CircuitChange" where
  "classify_circuit_change (AddCircuit a) (AddCircuit b) =
     (let structural = circuit_parent_class_id a \<noteq> circuit_parent_class_id b
            \<or> circuit_up_parent_class_id a \<noteq> circuit_up_parent_class_id b
            \<or> circuit_class_minor a \<noteq> circuit_class_minor b
            \<or> circuit_class_major a \<noteq> circuit_class_major b
            \<or> circuit_up_class_major a \<noteq> circuit_up_class_major b
      in if structural then Migration
         else
           let speed = float_ne (circuit_download_bandwidth_min a) (circuit_download_bandwidth_min b)
                 \<or> float_ne (circuit_upload_bandwidth_min a) (circuit_upload_bandwidth_min b)
                 \<or> float_ne (circuit_download_bandwidth_max a) (circuit_download_bandwidth_max b)
                 \<or> float_ne (circuit_upload_bandwidth_max a) (circuit_upload_bandwidth_max b)
                 \<or> circuit_sqm_override a \<noteq> circuit_sqm_override b;
               ip = circuit_ip_addresses a \<noteq> circuit_ip_addresses b
           in case (speed, ip) of
                (False, False) \<Rightarrow> NoneChange
              | (True, False) \<Rightarrow> Speed
              | (False, True) \<Rightarrow> Ip
              | (True, True) \<Rightarrow> SpeedAndIp)"
| "classify_circuit_change _ _ = NoneChange"

fun classify_loop ::
  "(i64 \<times> BakeryCommands) list \<Rightarrow> (i64 \<times> BakeryCommands) list
    \<Rightarrow> BakeryCommands list \<times> BakeryCommands list \<times> BakeryCommands list
    \<Rightarrow> BakeryCommands list \<times> BakeryCommands list \<times> BakeryCommands list" where
  "classify_loop new_circuits [] acc = acc"
| "classify_loop new_circuits ((hash, old_cmd) # rest) (speed, ip, moved) =
     classify_loop new_circuits rest
       (case map_of new_circuits hash of
          None \<Rightarrow> (speed, ip, moved)
        | Some new_cmd \<Rightarrow>
            (case classify_circuit_change old_cmd new_cmd of
               NoneChange \<Rightarrow> (speed, ip, moved)
             | Migration \<Rightarrow> (speed, ip, moved @ [new_cmd])
             | Speed \<Rightarrow> (speed @ [new_cmd], ip, moved)
             | Ip \<Rightarrow> (speed, ip @ [new_cmd], moved)
             | SpeedAndIp \<Rightarrow> (speed @ [new_cmd], ip @ [new_cmd], moved)))"

definition diff_circuits :: "BakeryCommands list \<Rightarrow> (i64 \<times> BakeryCommands) list \<Rightarrow> CircuitDiffResult" where
  "diff_circuits batch old_circuits =
     (let new_circuits = collect_map (List.map_filter added_circuit batch);
          added = map snd (filter (\<lambda>(hash, _). map_of old_circuits hash = None) new_circuits);
          removed = filter (\<lambda>hash. map_of new_circuits hash = None) (map fst old_circuits);
          (speed, ip, moved) = classify_loop new_circuits old_circuits ([], [], []);
          structural = []
      in if added \<noteq> [] \<or> removed \<noteq> [] \<or> speed \<noteq> [] \<or> ip \<noteq> [] \<or> moved \<noteq> [] \<or> structural \<noteq> []
         then Categorized \<lparr>newly_added = added, removed_circuits = removed, speed_changed = speed,
                ip_changed = ip, migrated = moved, structural_changed = structural\<rparr>
         else NoCircuitChange)"

section \<open>Maps of commands\<close>

text \<open>A map of commands as the bakery keeps it: every command under its own hash.\<close>

definition keyed :: "('c \<Rightarrow> ('k \<times> 'c) option) \<Rightarrow> ('k \<times> 'c) list \<Rightarrow> bool" where
  "keyed added kvs \<longleftrightarrow> distinct_keys kvs \<and> list_all (\<lambda>(k, cmd). added cmd = Some (k, cmd)) kvs"

text \<open>The commands of one kind and their hashes; both diffs rest on this.\<close>

locale keyed_commands =
  fixes added :: "'c \<Rightarrow> ('k \<times> 'c) option"
  assumes added_self: "added cmd = Some (k, c) \<Longrightarrow> c = cmd"
begin

lemma collect_keyed: "keyed added (collect_map (List.map_filter added batch))"
proof -
  have "added c = Some (k, c)" if "(k, c) \<in> set (collect_map (List.map_filter added batch))" for k c
    using collect_map_subset that added_self by (fastforce simp: set_map_filter)
  then show ?thesis by (auto simp: keyed_def distinct_keys_def collect_map_distinct list_all_iff)
qed

lemma keyed_lookup: "keyed added kvs \<Longrightarrow> map_of kvs k = Some cmd \<Longrightarrow> added cmd = Some (k, cmd)"
  using map_of_SomeD [of kvs k cmd] by (fastforce simp: keyed_def list_all_iff)

text \<open>Commands picked from a keyed map under their hashes are looked up by them.\<close>

lemma picked_lookup:
  assumes "distinct_keys kvs" and "\<And>k v c. (k, v) \<in> set kvs \<Longrightarrow> f k v = Some c \<Longrightarrow> added c = Some (k, c)"
  shows "map_of (List.map_filter added (List.map_filter (\<lambda>(k, v). f k v) kvs)) k = Option.bind (map_of kvs k) (f k)"
proof -
  have "List.map_filter added (List.map_filter (\<lambda>(k, v). f k v) kvs)
      = List.map_filter (\<lambda>(k, v). map_option (Pair k) (f k v)) kvs"
    using assms(2)
  proof (induction kvs)
    case (Cons kv kvs)
    obtain k v where kv: "kv = (k, v)" by (cases kv)
    have "List.map_filter added (List.map_filter (\<lambda>(k, v). f k v) kvs)
        = List.map_filter (\<lambda>(k, v). map_option (Pair k) (f k v)) kvs"
      by (rule Cons.IH) (rule Cons.prems, simp_all)
    then show ?case using Cons.prems [of k v] by (simp add: kv List.map_filter_simps split: option.split)
  qed (simp add: List.map_filter_simps)
  then show ?thesis using map_of_map_filter [OF assms(1)] by simp
qed

lemma picked_distinct:
  assumes "distinct_keys kvs" and "\<And>k v c. (k, v) \<in> set kvs \<Longrightarrow> f k v = Some c \<Longrightarrow> added c = Some (k, c)"
  shows "distinct (List.map_filter (\<lambda>(k, v). f k v) kvs)"
  using assms
proof (induction kvs)
  case (Cons kv kvs)
  obtain k v where kv: "kv = (k, v)" by (cases kv)
  have dist: "distinct (List.map_filter (\<lambda>(k, v). f k v) kvs)"
    using Cons.prems(1) by (intro Cons.IH Cons.prems(2)) (simp_all add: distinct_keys_def)
  have "f k v = Some c \<Longrightarrow> c \<notin> set (List.map_filter (\<lambda>(k, v). f k v) kvs)" for c
  proof (rule notI)
    assume c: "f k v = Some c" "c \<in> set (List.map_filter (\<lambda>(k, v). f k v) kvs)"
    then obtain k' v' where kv': "(k', v') \<in> set kvs" "f k' v' = Some c" by (auto simp: set_map_filter)
    have "added c = Some (k, c)" by (rule Cons.prems(2) [of k v]) (simp_all add: kv c)
    moreover have "added c = Some (k', c)" by (rule Cons.prems(2) [of k' v']) (simp_all add: kv')
    ultimately have "k = k'" by simp
    then show False using Cons.prems(1) kv'(1) by (auto simp: distinct_keys_def kv image_iff)
  qed
  with dist show ?case by (simp add: kv List.map_filter_simps split: option.split)
qed (simp add: List.map_filter_simps)

end

lemma added_site_Some [simp]:
  "added_site cmd = Some (hash, c) \<longleftrightarrow> (\<exists>s. cmd = AddSite s \<and> c = cmd \<and> hash = site_hash s)"
  by (cases cmd) auto

lemma added_circuit_Some [simp]:
  "added_circuit cmd = Some (hash, c) \<longleftrightarrow> (\<exists>s. cmd = AddCircuit s \<and> c = cmd \<and> hash = circuit_hash s)"
  by (cases cmd) auto

interpretation site_cmds: keyed_commands added_site
  by unfold_locales auto

interpretation circuit_cmds: keyed_commands added_circuit
  by unfold_locales auto

section \<open>Sites: what forces a rebuild\<close>

definition site_place :: "SiteCommand \<Rightarrow> TcHandle \<times> TcHandle \<times> u16" where
  "site_place s = (site_parent_class_id s, site_up_parent_class_id s, site_class_minor s)"

definition restructured :: "(i64 \<rightharpoonup> BakeryCommands) \<Rightarrow> (i64 \<rightharpoonup> BakeryCommands) \<Rightarrow> bool" where
  "restructured old new \<longleftrightarrow> dom old \<noteq> dom new
     \<or> (\<exists>hash s t. old hash = Some (AddSite s) \<and> new hash = Some (AddSite t) \<and> site_place s \<noteq> site_place t)"

lemma structurally_different_place:
  "site_hash s = site_hash t \<Longrightarrow>
   is_structurally_different (AddSite s) (AddSite t) \<longleftrightarrow> site_place s \<noteq> site_place t"
  by (auto simp: site_place_def)

text \<open>The speeds of the new command in the place of the old one.\<close>

lemma speeds_changed_same_place:
  assumes "site_hash s = site_hash t" and "site_place s = site_place t"
  shows "site_speeds_changed (AddSite s) (AddSite t) = Some c \<Longrightarrow> c = AddSite t"
    and "site_speeds_changed (AddSite s) (AddSite t) = None \<Longrightarrow> s = t"
  using assms by (auto simp: site_place_def float_ne_def split: if_splits)

definition site_kept :: "(i64 \<times> BakeryCommands) list \<Rightarrow> i64 \<times> BakeryCommands \<Rightarrow> bool" where
  "site_kept new_sites kv = (case map_of new_sites (fst kv) of
     None \<Rightarrow> False | Some new_cmd \<Rightarrow> \<not> is_structurally_different (snd kv) new_cmd)"

definition speed_change :: "(i64 \<times> BakeryCommands) list \<Rightarrow> i64 \<Rightarrow> BakeryCommands \<Rightarrow> BakeryCommands option" where
  "speed_change new_sites hash old_cmd = Option.bind (map_of new_sites hash) (site_speeds_changed old_cmd)"

lemma diff_sites_loop_kept:
  assumes "list_all (site_kept new) rest"
  shows "diff_sites_loop old new rest acc =
    (let cs = acc @ List.map_filter (\<lambda>(hash, cmd). speed_change new hash cmd) rest
     in if cs \<noteq> [] then SpeedChanges cs else NoSiteChange)"
  using assms
proof (induction rest arbitrary: acc)
  case (Cons kv rest)
  obtain hash cmd where kv: "kv = (hash, cmd)" by (cases kv)
  obtain cmd' where new: "map_of new hash = Some cmd'" "\<not> is_structurally_different cmd cmd'"
    using Cons.prems by (auto simp: kv site_kept_def split: option.splits)
  show ?case
    using Cons.prems by (simp add: kv new Cons.IH List.map_filter_simps speed_change_def split: option.split)
qed (simp add: List.map_filter_simps)

lemma diff_sites_loop_rebuild:
  assumes "\<not> list_all (site_kept new) rest"
  obtains summary details hash cmd where
    "diff_sites_loop old new rest acc = RebuildRequired summary details"
    "(hash, cmd) \<in> set rest" "\<not> site_kept new (hash, cmd)"
    "details = (if map_of new hash = None then None else Some \<lparr>details_site_hash = hash\<rparr>)"
proof -
  obtain before hash cmd after where rest: "rest = before @ (hash, cmd) # after"
      and before: "list_all (site_kept new) before" and bad: "\<not> site_kept new (hash, cmd)"
    using assms split_list_first_prop [of rest "\<lambda>kv. \<not> site_kept new kv"] by (force simp: list_all_iff)
  have "\<exists>summary. diff_sites_loop old new rest acc = RebuildRequired summary
      (if map_of new hash = None then None else Some \<lparr>details_site_hash = hash\<rparr>)"
    using before unfolding rest
  proof (induction before arbitrary: acc)
    case Nil
    then show ?case using bad by (auto simp: site_kept_def Let_def split: option.splits prod.splits)
  next
    case (Cons kv before)
    obtain k c where kv: "kv = (k, c)" by (cases kv)
    obtain c' where "map_of new k = Some c'" "\<not> is_structurally_different c c'"
      using Cons.prems by (auto simp: kv site_kept_def split: option.splits)
    then show ?case using Cons by (simp add: kv)
  qed
  with rest bad that show thesis by auto
qed

lemma site_keptD:
  assumes "keyed added_site old" "keyed added_site new" "(hash, cmd) \<in> set old"
  obtains s where "cmd = AddSite s" "site_hash s = hash" "map_of old hash = Some cmd"
    "site_kept new (hash, cmd) \<longleftrightarrow> (\<exists>t. map_of new hash = Some (AddSite t) \<and> site_hash t = hash \<and> site_place s = site_place t)"
proof -
  have old: "map_of old hash = Some cmd"
    using assms(1,3) by (simp add: keyed_def distinct_keys_def)
  then obtain s where s: "cmd = AddSite s" "site_hash s = hash"
    using site_cmds.keyed_lookup [OF assms(1)] by force
  have "site_kept new (hash, cmd) \<longleftrightarrow> (\<exists>t. map_of new hash = Some (AddSite t) \<and> site_hash t = hash \<and> site_place s = site_place t)"
  proof (cases "map_of new hash")
    case (Some cmd')
    then obtain t where "cmd' = AddSite t" "site_hash t = hash"
      using site_cmds.keyed_lookup [OF assms(2)] by force
    then show ?thesis using Some s structurally_different_place [of s t] by (simp add: site_kept_def del: is_structurally_different.simps)
  qed (simp add: site_kept_def)
  with that s old show thesis by blast
qed

lemma restructured_iff:
  assumes "keyed added_site old" and "keyed added_site new"
  shows "restructured (map_of old) (map_of new) \<longleftrightarrow> length old \<noteq> length new \<or> \<not> list_all (site_kept new) old"
proof -
  have keys: "distinct_keys old" "distinct_keys new" using assms by (simp_all add: keyed_def)
  show ?thesis
  proof (cases "list_all (site_kept new) old")
    case True
    have lookup: "\<exists>s t. map_of old hash = Some (AddSite s) \<and> map_of new hash = Some (AddSite t) \<and> site_place s = site_place t"
      if "map_of old hash = Some cmd" for hash cmd
    proof -
      have "(hash, cmd) \<in> set old" using that by (rule map_of_SomeD)
      moreover from this have "site_kept new (hash, cmd)" using True by (auto simp: list_all_iff)
      ultimately show ?thesis using site_keptD [OF assms, of hash cmd] by metis
    qed
    then have sub: "dom (map_of old) \<subseteq> dom (map_of new)" by blast
    have "\<not> restructured (map_of old) (map_of new)" if "length old = length new"
      using same_keys [OF keys that sub] lookup by (fastforce simp: restructured_def)
    then show ?thesis using True keys_length [OF keys] by (auto simp: restructured_def)
  next
    case False
    then obtain hash cmd where kv: "(hash, cmd) \<in> set old" "\<not> site_kept new (hash, cmd)"
      by (auto simp: list_all_iff)
    obtain s where s: "map_of old hash = Some (AddSite s)" "site_hash s = hash"
        "\<not> (\<exists>t. map_of new hash = Some (AddSite t) \<and> site_hash t = hash \<and> site_place s = site_place t)"
      using site_keptD [OF assms kv(1)] kv(2) by metis
    have "restructured (map_of old) (map_of new)"
    proof (cases "map_of new hash")
      case (Some cmd')
      then obtain t where "cmd' = AddSite t" "site_hash t = hash"
        using site_cmds.keyed_lookup [OF assms(2)] by force
      then show ?thesis using Some s by (auto simp: restructured_def)
    next
      case None
      then have "hash \<in> dom (map_of old) \<and> hash \<notin> dom (map_of new)" using s by (simp add: domIff)
      then show ?thesis by (auto simp: restructured_def)
    qed
    then show ?thesis using False by simp
  qed
qed

text \<open>The speed changes on top of the old sites are the new sites.\<close>

lemma speed_changes_overlay:
  assumes "keyed added_site old" and "keyed added_site new" and "\<not> restructured (map_of old) (map_of new)"
  defines "cs \<equiv> List.map_filter (\<lambda>(hash, cmd). speed_change new hash cmd) old"
  shows "map_of old ++ map_of (List.map_filter added_site cs) = map_of new"
proof
  fix hash
  have kept: "list_all (site_kept new) old" using assms(3) restructured_iff [OF assms(1,2)] by simp
  have change: "\<exists>s t. cmd = AddSite s \<and> site_hash s = k \<and> map_of new k = Some (AddSite t) \<and> site_hash t = k \<and> site_place s = site_place t"
    if "(k, cmd) \<in> set old" for k cmd
  proof -
    have "site_kept new (k, cmd)" using kept that by (auto simp: list_all_iff)
    then show ?thesis using site_keptD [OF assms(1,2) that] by metis
  qed
  have "added_site c = Some (k, c)" if kc: "(k, cmd) \<in> set old" "speed_change new k cmd = Some c" for k cmd c
  proof -
    obtain s t where st: "cmd = AddSite s" "site_hash s = k" "map_of new k = Some (AddSite t)"
        "site_hash t = k" "site_place s = site_place t"
      using change [OF kc(1)] by metis
    then have "site_speeds_changed (AddSite s) (AddSite t) = Some c"
      using kc(2) by (simp add: speed_change_def del: site_speeds_changed.simps)
    then show ?thesis using speeds_changed_same_place(1) [of s t c] st by simp
  qed
  then have overlay: "map_of (List.map_filter added_site cs) hash = Option.bind (map_of old hash) (speed_change new hash)"
    unfolding cs_def using assms(1) by (intro site_cmds.picked_lookup) (auto simp: keyed_def)
  show "(map_of old ++ map_of (List.map_filter added_site cs)) hash = map_of new hash"
  proof (cases "map_of old hash")
    case None
    then have "map_of new hash = None" using assms(3) by (auto simp: restructured_def domIff)
    with None overlay show ?thesis by (simp add: map_add_def)
  next
    case (Some cmd)
    then obtain s t where st: "cmd = AddSite s" "site_hash s = site_hash t" "map_of new hash = Some (AddSite t)" "site_place s = site_place t"
      using change [OF map_of_SomeD] by metis
    then show ?thesis
      using Some overlay speeds_changed_same_place [of s t]
      by (simp add: map_add_def speed_change_def del: site_speeds_changed.simps split: option.split)
  qed
qed

lemma diff_sites_rebuild:
  fixes old_sites batch
  defines "new_sites \<equiv> collect_map (List.map_filter added_site batch)"
  assumes old: "keyed added_site old_sites" and re: "restructured (map_of old_sites) (map_of new_sites)"
  shows "\<exists>summary details. diff_sites batch old_sites = RebuildRequired summary details
    \<and> (case details of None \<Rightarrow> dom (map_of old_sites) \<noteq> dom (map_of new_sites)
       | Some d \<Rightarrow> \<exists>s t. map_of old_sites (details_site_hash d) = Some (AddSite s)
           \<and> map_of new_sites (details_site_hash d) = Some (AddSite t) \<and> site_place s \<noteq> site_place t)"
proof (cases "length old_sites = length new_sites")
  case False
  have new: "keyed added_site new_sites" unfolding new_sites_def by (rule site_cmds.collect_keyed)
  have "dom (map_of old_sites) \<noteq> dom (map_of new_sites)"
    using False keys_length old new by (auto simp: keyed_def)
  then show ?thesis
    using False by (simp add: diff_sites_def new_sites_def [symmetric] split: prod.split)
next
  case True
  have new: "keyed added_site new_sites" unfolding new_sites_def by (rule site_cmds.collect_keyed)
  have "\<not> list_all (site_kept new_sites) old_sites" using True re restructured_iff [OF old new] by simp
  then obtain summary details hash cmd where r:
    "diff_sites_loop old_sites new_sites old_sites [] = RebuildRequired summary details"
    "(hash, cmd) \<in> set old_sites" "\<not> site_kept new_sites (hash, cmd)"
    "details = (if map_of new_sites hash = None then None else Some \<lparr>details_site_hash = hash\<rparr>)"
    by (rule diff_sites_loop_rebuild)
  have d: "diff_sites batch old_sites = RebuildRequired summary details"
    using True r(1) by (simp add: diff_sites_def new_sites_def [symmetric])
  obtain s where s: "cmd = AddSite s" "map_of old_sites hash = Some cmd"
      "\<not> (\<exists>t. map_of new_sites hash = Some (AddSite t) \<and> site_hash t = hash \<and> site_place s = site_place t)"
    using site_keptD [OF old new r(2)] r(3) by metis
  show ?thesis
  proof (cases "map_of new_sites hash")
    case None
    then show ?thesis using d r(4) s by (auto simp: domIff)
  next
    case (Some cmd')
    then obtain t where "cmd' = AddSite t" "site_hash t = hash"
      using site_cmds.keyed_lookup [OF new] by force
    then show ?thesis using d r(4) s Some by auto
  qed
qed

text \<open>C37. Against the sites the bakery has, a batch asks for a rebuild exactly when the sites differ as
  a set or one of them moved (another parent or class minor), whatever the order of the maps, and a
  reported site is one that moved. Otherwise the reported speed changes, laid over the old sites, give
  exactly the sites of the batch, and when nothing is reported the sites are the same: applying a
  diff loses nothing.\<close>

theorem diff_sites_exact:
  assumes "keyed added_site old_sites"
  shows "let old = map_of old_sites; new = map_of (rev (List.map_filter added_site batch)) in
    case diff_sites batch old_sites of
      RebuildRequired summary details \<Rightarrow> restructured old new
        \<and> (case details of None \<Rightarrow> dom old \<noteq> dom new
           | Some d \<Rightarrow> \<exists>s t. old (details_site_hash d) = Some (AddSite s)
               \<and> new (details_site_hash d) = Some (AddSite t) \<and> site_place s \<noteq> site_place t)
    | SpeedChanges changes \<Rightarrow> \<not> restructured old new \<and> changes \<noteq> []
        \<and> old ++ map_of (List.map_filter added_site changes) = new
    | NoSiteChange \<Rightarrow> old = new"
proof -
  define new_sites where "new_sites = collect_map (List.map_filter added_site batch)"
  have new: "keyed added_site new_sites" unfolding new_sites_def by (rule site_cmds.collect_keyed)
  have lookup: "map_of (rev (List.map_filter added_site batch)) = map_of new_sites"
    by (simp add: new_sites_def map_of_collect_map)
  note iff = restructured_iff [OF assms new]
  show ?thesis
  proof (cases "restructured (map_of old_sites) (map_of new_sites)")
    case False
    define cs where "cs = List.map_filter (\<lambda>(hash, cmd). speed_change new_sites hash cmd) old_sites"
    have "diff_sites batch old_sites = (if cs \<noteq> [] then SpeedChanges cs else NoSiteChange)"
      using False iff by (simp add: diff_sites_def new_sites_def [symmetric] cs_def diff_sites_loop_kept)
    moreover have "map_of old_sites ++ map_of (List.map_filter added_site cs) = map_of new_sites"
      unfolding cs_def by (rule speed_changes_overlay [OF assms new False])
    ultimately show ?thesis using False by (auto simp: lookup List.map_filter_simps split: if_splits)
  next
    case True
    then show ?thesis
      using diff_sites_rebuild [OF assms, of batch] by (auto simp: lookup new_sites_def)
  qed
qed

definition sample_site :: "rat \<Rightarrow> BakeryCommands" where
  "sample_site rate = AddSite \<lparr>site_hash = 7, site_parent_class_id = 0x10001, site_up_parent_class_id = 0x20001,
     site_class_minor = 5, site_download_bandwidth_min = Fin 1, site_upload_bandwidth_min = Fin 1,
     site_download_bandwidth_max = Fin rate, site_upload_bandwidth_max = Fin rate\<rparr>"

lemma diff_sites_exact_witness:
  "diff_sites [sample_site 20] [(7, sample_site 10)] = SpeedChanges [sample_site 20]
   \<and> \<not> restructured (map_of [(7, sample_site 10)]) (map_of [(7, sample_site 20)])
   \<and> map_of [(7, sample_site 10)] ++ map_of [(7, sample_site 20)] = map_of [(7, sample_site 20)]"
proof -
  have "keyed added_site [(7, sample_site 10)]"
    by (simp add: keyed_def sample_site_def distinct_keys_def)
  note exact = diff_sites_exact [OF this, of "[sample_site 20]"]
  have run: "diff_sites [sample_site 20] [(7, sample_site 10)] = SpeedChanges [sample_site 20]"
    by (simp add: diff_sites_def sample_site_def List.map_filter_simps collect_map_def float_ne_def)
  have "List.map_filter added_site [sample_site 20] = [(7, sample_site 20)]"
    by (simp add: sample_site_def List.map_filter_simps)
  with exact run show ?thesis by simp
qed

section \<open>Circuits: the categories\<close>

definition circuit_place :: "CircuitCommand \<Rightarrow> TcHandle \<times> TcHandle \<times> u16 \<times> u16 \<times> u16" where
  "circuit_place c = (circuit_parent_class_id c, circuit_up_parent_class_id c, circuit_class_minor c,
     circuit_class_major c, circuit_up_class_major c)"

definition circuit_speed :: "CircuitCommand \<Rightarrow> f32 list \<times> string option" where
  "circuit_speed c = ([circuit_download_bandwidth_min c, circuit_upload_bandwidth_min c,
     circuit_download_bandwidth_max c, circuit_upload_bandwidth_max c], circuit_sqm_override c)"

text \<open>Rates and queue discipline differ; a NaN rate differs from every rate.\<close>

definition speed_differs :: "CircuitCommand \<Rightarrow> CircuitCommand \<Rightarrow> bool" where
  "speed_differs a b \<longleftrightarrow> circuit_speed a \<noteq> circuit_speed b \<or> NaN \<in> set (fst (circuit_speed a))"

lemma classify_circuit_change_eq:
  "classify_circuit_change (AddCircuit a) (AddCircuit b) =
     (if circuit_place a \<noteq> circuit_place b then Migration
      else if speed_differs a b
      then if circuit_ip_addresses a \<noteq> circuit_ip_addresses b then SpeedAndIp else Speed
      else if circuit_ip_addresses a \<noteq> circuit_ip_addresses b then Ip else NoneChange)"
proof -
  have "speed_differs a b \<longleftrightarrow> float_ne (circuit_download_bandwidth_min a) (circuit_download_bandwidth_min b)
                 \<or> float_ne (circuit_upload_bandwidth_min a) (circuit_upload_bandwidth_min b)
                 \<or> float_ne (circuit_download_bandwidth_max a) (circuit_download_bandwidth_max b)
                 \<or> float_ne (circuit_upload_bandwidth_max a) (circuit_upload_bandwidth_max b)
                 \<or> circuit_sqm_override a \<noteq> circuit_sqm_override b"
    unfolding speed_differs_def float_ne_def circuit_speed_def by auto
  then show ?thesis by (simp add: circuit_place_def Let_def)
qed

definition circuit_picked ::
  "(CircuitChange \<Rightarrow> bool) \<Rightarrow> (i64 \<times> BakeryCommands) list \<Rightarrow> i64 \<Rightarrow> BakeryCommands \<Rightarrow> BakeryCommands option" where
  "circuit_picked p new_circuits hash old_cmd = Option.bind (map_of new_circuits hash) (\<lambda>new_cmd.
     if p (classify_circuit_change old_cmd new_cmd) then Some new_cmd else None)"

definition circuits_picked ::
  "(CircuitChange \<Rightarrow> bool) \<Rightarrow> (i64 \<times> BakeryCommands) list \<Rightarrow> (i64 \<times> BakeryCommands) list \<Rightarrow> BakeryCommands list" where
  "circuits_picked p new_circuits old_circuits =
     List.map_filter (\<lambda>(hash, cmd). circuit_picked p new_circuits hash cmd) old_circuits"

abbreviation is_speed :: "CircuitChange \<Rightarrow> bool" where "is_speed c \<equiv> c = Speed \<or> c = SpeedAndIp"
abbreviation is_ip :: "CircuitChange \<Rightarrow> bool" where "is_ip c \<equiv> c = Ip \<or> c = SpeedAndIp"
abbreviation is_migration :: "CircuitChange \<Rightarrow> bool" where "is_migration c \<equiv> c = Migration"

lemma classify_loop_picks:
  "classify_loop new rest (speed, ip, moved) =
     (speed @ circuits_picked is_speed new rest, ip @ circuits_picked is_ip new rest,
      moved @ circuits_picked is_migration new rest)"
proof (induction rest arbitrary: speed ip moved)
  case (Cons kv rest)
  obtain hash cmd where kv: "kv = (hash, cmd)" by (cases kv)
  show ?case
    by (simp add: kv Cons.IH circuits_picked_def List.map_filter_simps circuit_picked_def
        split: option.split CircuitChange.split)
qed (simp add: circuits_picked_def List.map_filter_simps)

lemma circuits_picked_keyed:
  assumes "keyed added_circuit new" and "circuit_picked p new hash cmd = Some c"
  shows "added_circuit c = Some (hash, c)"
  using assms circuit_cmds.keyed_lookup [OF assms(1), of hash]
  by (auto simp: circuit_picked_def bind_eq_Some_conv split: if_splits)

lemma set_circuits_picked:
  assumes "keyed added_circuit old" and "keyed added_circuit new"
  shows "set (circuits_picked p new old) = {AddCircuit b | b. \<exists>hash a.
    map_of old hash = Some (AddCircuit a) \<and> map_of new hash = Some (AddCircuit b)
    \<and> p (classify_circuit_change (AddCircuit a) (AddCircuit b))}" (is "?L = ?R")
proof
  have entry: "(hash, cmd) \<in> set old \<longleftrightarrow> map_of old hash = Some cmd" for hash cmd
    using assms(1) by (simp add: keyed_def distinct_keys_def)
  show "?L \<subseteq> ?R"
  proof
    fix c
    assume "c \<in> ?L"
    then obtain hash cmd where h: "map_of old hash = Some cmd" "map_of new hash = Some c"
        "p (classify_circuit_change cmd c)"
      by (auto simp: circuits_picked_def set_map_filter entry circuit_picked_def bind_eq_Some_conv split: if_splits)
    moreover obtain a b where "cmd = AddCircuit a" "c = AddCircuit b"
      using circuit_cmds.keyed_lookup [OF assms(1) h(1)] circuit_cmds.keyed_lookup [OF assms(2) h(2)] by auto
    ultimately show "c \<in> ?R" by blast
  qed
  show "?R \<subseteq> ?L"
  proof
    fix c
    assume "c \<in> ?R"
    then obtain hash a b where "c = AddCircuit b" "map_of old hash = Some (AddCircuit a)"
        "map_of new hash = Some (AddCircuit b)" "p (classify_circuit_change (AddCircuit a) (AddCircuit b))"
      by blast
    then have "(hash, AddCircuit a) \<in> set old \<and> circuit_picked p new hash (AddCircuit a) = Some c"
      by (simp add: entry circuit_picked_def del: classify_circuit_change.simps)
    then show "c \<in> ?L" by (force simp: circuits_picked_def set_map_filter)
  qed
qed

lemma set_circuit_categories:
  assumes "keyed added_circuit old" and "keyed added_circuit new"
  defines "both \<equiv> (\<lambda>a b. \<exists>hash. map_of old hash = Some (AddCircuit a) \<and> map_of new hash = Some (AddCircuit b))"
  shows "set (circuits_picked is_migration new old) =
      {AddCircuit b | b. \<exists>a. both a b \<and> circuit_place a \<noteq> circuit_place b}"
    and "set (circuits_picked is_speed new old) =
      {AddCircuit b | b. \<exists>a. both a b \<and> circuit_place a = circuit_place b \<and> speed_differs a b}"
    and "set (circuits_picked is_ip new old) = {AddCircuit b | b. \<exists>a. both a b
      \<and> circuit_place a = circuit_place b \<and> circuit_ip_addresses a \<noteq> circuit_ip_addresses b}"
  unfolding set_circuits_picked [OF assms(1,2)] classify_circuit_change_eq both_def
  by (rule Collect_cong, auto split: if_splits)+

lemma distinct_circuits_picked:
  "keyed added_circuit old \<Longrightarrow> keyed added_circuit new \<Longrightarrow> distinct (circuits_picked p new old)"
  unfolding circuits_picked_def
  by (rule circuit_cmds.picked_distinct) (simp add: keyed_def, rule circuits_picked_keyed)

definition categories_of :: "CircuitDiffResult \<Rightarrow> CircuitDiffCategories" where
  "categories_of r = (case r of Categorized c \<Rightarrow> c
     | NoCircuitChange \<Rightarrow> \<lparr>newly_added = [], removed_circuits = [], speed_changed = [], ip_changed = [],
         migrated = [], structural_changed = []\<rparr>)"

lemma diff_circuits_lists:
  fixes old batch
  defines "new \<equiv> collect_map (List.map_filter added_circuit batch)"
  defines "cats \<equiv> \<lparr>newly_added = map snd (filter (\<lambda>(hash, _). map_of old hash = None) new),
      removed_circuits = filter (\<lambda>hash. map_of new hash = None) (map fst old),
      speed_changed = circuits_picked is_speed new old, ip_changed = circuits_picked is_ip new old,
      migrated = circuits_picked is_migration new old, structural_changed = []\<rparr>"
  shows "diff_circuits batch old =
      (if cats = categories_of NoCircuitChange then NoCircuitChange else Categorized cats)"
    and "categories_of (diff_circuits batch old) = cats"
proof -
  show eq: "diff_circuits batch old =
      (if cats = categories_of NoCircuitChange then NoCircuitChange else Categorized cats)"
    by (simp add: diff_circuits_def new_def [symmetric] cats_def Let_def classify_loop_picks categories_of_def)
  show "categories_of (diff_circuits batch old) = cats"
    by (simp add: eq categories_of_def)
qed

text \<open>The categories of a circuit diff, whatever the order of the maps: the circuits only in the
  batch are added, those only in the bakery are removed, and of the circuits in both exactly those
  whose classes moved are migrated, and of the rest exactly those with other rates or another queue
  discipline are speed changes and exactly those with other addresses are address changes; none is
  listed twice in a category. There is no change exactly when all categories are empty.\<close>

lemma diff_circuits_exact:
  assumes "keyed added_circuit old_circuits"
  shows "let old = map_of old_circuits; new = map_of (rev (List.map_filter added_circuit batch));
      cats = categories_of (diff_circuits batch old_circuits);
      both = (\<lambda>a b. \<exists>hash. old hash = Some (AddCircuit a) \<and> new hash = Some (AddCircuit b))
    in set (newly_added cats) = {cmd. \<exists>hash. new hash = Some cmd \<and> old hash = None}
      \<and> set (removed_circuits cats) = dom old - dom new
      \<and> set (migrated cats) = {AddCircuit b | b. \<exists>a. both a b \<and> circuit_place a \<noteq> circuit_place b}
      \<and> set (speed_changed cats) =
          {AddCircuit b | b. \<exists>a. both a b \<and> circuit_place a = circuit_place b \<and> speed_differs a b}
      \<and> set (ip_changed cats) =
          {AddCircuit b | b. \<exists>a. both a b \<and> circuit_place a = circuit_place b
             \<and> circuit_ip_addresses a \<noteq> circuit_ip_addresses b}
      \<and> distinct (newly_added cats) \<and> distinct (removed_circuits cats) \<and> distinct (migrated cats)
      \<and> distinct (speed_changed cats) \<and> distinct (ip_changed cats) \<and> structural_changed cats = []
      \<and> (diff_circuits batch old_circuits = NoCircuitChange \<longleftrightarrow> cats = categories_of NoCircuitChange)"
proof -
  define new where "new = collect_map (List.map_filter added_circuit batch)"
  have keyed_new: "keyed added_circuit new" unfolding new_def by (rule circuit_cmds.collect_keyed)
  have lookup: "map_of (rev (List.map_filter added_circuit batch)) = map_of new"
    by (simp add: new_def map_of_collect_map)
  note lists = diff_circuits_lists [of batch old_circuits, folded new_def]
  define cats where "cats = categories_of (diff_circuits batch old_circuits)"
  have fields: "newly_added cats = map snd (filter (\<lambda>(hash, _). map_of old_circuits hash = None) new)"
      "removed_circuits cats = filter (\<lambda>hash. map_of new hash = None) (map fst old_circuits)"
      "speed_changed cats = circuits_picked is_speed new old_circuits"
      "ip_changed cats = circuits_picked is_ip new old_circuits"
      "migrated cats = circuits_picked is_migration new old_circuits" "structural_changed cats = []"
    by (simp_all add: cats_def lists(2))
  have none: "diff_circuits batch old_circuits = NoCircuitChange \<longleftrightarrow> cats = categories_of NoCircuitChange"
    unfolding cats_def lists(2) unfolding lists(1) by simp
  note picked = set_circuit_categories [OF assms keyed_new] distinct_circuits_picked [OF assms keyed_new]
  have dist: "distinct (map fst old_circuits)" "distinct (map fst new)"
    using assms keyed_new by (simp_all add: keyed_def distinct_keys_def)
  have "distinct (map snd new)"
  proof (rule distinct_map [THEN iffD2], intro conjI inj_onI)
    show "distinct new" using dist(2) by (simp add: distinct_map)
    fix x y
    assume "x \<in> set new" "y \<in> set new" "snd x = snd y"
    then have "added_circuit (snd x) = Some x" "added_circuit (snd x) = Some y"
      using keyed_new by (auto simp: keyed_def list_all_iff simp del: added_circuit_Some)
    then show "x = y" by simp
  qed
  then have "distinct (map snd (filter (\<lambda>(hash, _). map_of old_circuits hash = None) new))"
    by (rule distinct_map_filter)
  moreover have "set (map snd (filter (\<lambda>(hash, _). map_of old_circuits hash = None) new))
      = {cmd. \<exists>hash. map_of new hash = Some cmd \<and> map_of old_circuits hash = None}"
    using dist(2) by (force simp: map_of_eq_Some_iff image_iff)
  moreover have "set (filter (\<lambda>hash. map_of new hash = None) (map fst old_circuits))
      = dom (map_of old_circuits) - dom (map_of new)"
    by (auto simp: dom_map_of_conv_image_fst map_of_eq_None_iff)
  ultimately show ?thesis
    unfolding Let_def lookup cats_def [symmetric] none fields picked
    using dist(1) picked(4) by (intro conjI refl) simp_all
qed

end
