(* ===== verification/Down_Up.thy ===== *)
theory Down_Up
  imports LQ_Prelude Rust_Float
begin

text \<open>
  Pairs of values by direction (\<open>src/src/rust/lqos_utils/src/units\<close>). The counters are unsigned words:
  an addition that overflows resets the counter to zero, a subtraction that would go below zero gives
  zero.
\<close>

record 'a DownUpOrder =
  down :: 'a
  up :: 'a

record 'a UpDownOrder =
  ud_up :: 'a
  ud_down :: 'a

definition down_up :: "'a \<Rightarrow> 'a \<Rightarrow> 'a DownUpOrder" where
  "down_up d u = \<lparr>down = d, up = u\<rparr>"

definition du_dir :: "'a DownUpOrder \<Rightarrow> usize \<Rightarrow> 'a" where
  "du_dir self direction = (if direction = 0 then down self else up self)"

definition checked_add_word :: "'a::len word \<Rightarrow> 'a word \<Rightarrow> 'a word option" where
  "checked_add_word a b = (if unat a + unat b < 2 ^ LENGTH('a) then Some (a + b) else None)"

definition checked_sub_word :: "'a::len word \<Rightarrow> 'a word \<Rightarrow> 'a word option" where
  "checked_sub_word a b = (if b \<le> a then Some (a - b) else None)"

definition value_or :: "'a option \<Rightarrow> 'a \<Rightarrow> 'a" where
  "value_or x d = (case x of Some v \<Rightarrow> v | None \<Rightarrow> d)"

definition zeroed :: "'a::len word DownUpOrder" where
  "zeroed = \<lparr>down = 0, up = 0\<rparr>"

definition both_less_than :: "'a::len word DownUpOrder \<Rightarrow> 'a word \<Rightarrow> bool" where
  "both_less_than self limit \<longleftrightarrow> down self < limit \<and> up self < limit"

definition sum_exceeds :: "'a::len word DownUpOrder \<Rightarrow> 'a word \<Rightarrow> bool" where
  "sum_exceeds self limit \<longleftrightarrow> down self + up self > limit"

definition checked_sub_or_zero :: "'a::len word DownUpOrder \<Rightarrow> 'a word DownUpOrder \<Rightarrow> 'a word DownUpOrder" where
  "checked_sub_or_zero self rhs =
     \<lparr>down = value_or (checked_sub_word (down self) (down rhs)) 0,
      up = value_or (checked_sub_word (up self) (up rhs)) 0\<rparr>"

definition checked_add_direct :: "'a::len word DownUpOrder \<Rightarrow> 'a word \<Rightarrow> 'a word \<Rightarrow> 'a word DownUpOrder" where
  "checked_add_direct self d u =
     \<lparr>down = value_or (checked_add_word (down self) d) 0, up = value_or (checked_add_word (up self) u) 0\<rparr>"

definition checked_add :: "'a::len word DownUpOrder \<Rightarrow> 'a word DownUpOrder \<Rightarrow> 'a word DownUpOrder" where
  "checked_add self rhs =
     \<lparr>down = value_or (checked_add_word (down self) (down rhs)) 0,
      up = value_or (checked_add_word (up self) (up rhs)) 0\<rparr>"

definition checked_add_tuple :: "'a::len word DownUpOrder \<Rightarrow> 'a word \<times> 'a word \<Rightarrow> 'a word DownUpOrder" where
  "checked_add_tuple self n =
     \<lparr>down = value_or (checked_add_word (down self) (fst n)) 0,
      up = value_or (checked_add_word (up self) (snd n)) 0\<rparr>"

definition du_sum :: "'a::len word DownUpOrder \<Rightarrow> 'a word" where
  "du_sum self = saturating_add (down self) (up self)"

definition to_bits_from_bytes :: "'a::len word DownUpOrder \<Rightarrow> 'a word DownUpOrder" where
  "to_bits_from_bytes self = \<lparr>down = saturating_mul (down self) 8, up = saturating_mul (up self) 8\<rparr>"

definition not_zero :: "'a::len word DownUpOrder \<Rightarrow> bool" where
  "not_zero self \<longleftrightarrow> down self \<noteq> 0 \<or> up self \<noteq> 0"

definition up_down_of :: "'a DownUpOrder \<Rightarrow> 'a UpDownOrder" where
  "up_down_of self = \<lparr>ud_up = down self, ud_down = up self\<rparr>"

definition down_up_of :: "'a UpDownOrder \<Rightarrow> 'a DownUpOrder" where
  "down_up_of self = \<lparr>down = ud_up self, up = ud_down self\<rparr>"

text \<open>A retransmit sample keeps the count and the packets it is relative to.\<close>

record TcpRetransmitSample =
  sample_retransmits :: u64
  sample_packets :: u64

definition retransmit_fraction_new :: "f64 \<Rightarrow> f64 option" where
  "retransmit_fraction_new value = (if Fin 0 \<le> value \<and> value \<le> Fin 1 then Some value else None)"

definition sample_fraction :: "TcpRetransmitSample \<Rightarrow> f64 option" where
  "sample_fraction self =
     (if sample_packets self = 0 then None
      else retransmit_fraction_new (f64_div (f64_of_u64 (sample_retransmits self)) (f64_of_u64 (sample_packets self))))"

definition sample_percent_0_to_100 :: "TcpRetransmitSample \<Rightarrow> f64 option" where
  "sample_percent_0_to_100 self = map_option (\<lambda>f. f64_mul f (Fin 100)) (sample_fraction self)"

definition down_up_retransmit_sample ::
  "u64 DownUpOrder \<Rightarrow> u64 DownUpOrder \<Rightarrow> TcpRetransmitSample DownUpOrder" where
  "down_up_retransmit_sample retransmits packets =
     \<lparr>down = \<lparr>sample_retransmits = down retransmits, sample_packets = down packets\<rparr>,
      up = \<lparr>sample_retransmits = up retransmits, sample_packets = up packets\<rparr>\<rparr>"

section \<open>Facts\<close>

lemma up_down_round_trip [simp]: "down_up_of (up_down_of x) = x" "up_down_of (down_up_of y) = y"
  by (simp_all add: down_up_of_def up_down_of_def)

text \<open>Additions that do not overflow add up.\<close>

lemma checked_add_tuple_fits:
  assumes "unat (down a) + unat (fst n) < 2 ^ LENGTH('a::len)" "unat (up a) + unat (snd n) < 2 ^ LENGTH('a)"
  shows "checked_add_tuple (a :: 'a word DownUpOrder) n = \<lparr>down = down a + fst n, up = up a + snd n\<rparr>"
  using assms by (simp add: checked_add_tuple_def checked_add_word_def value_or_def)

lemma checked_add_eq_tuple: "checked_add a b = checked_add_tuple a (down b, up b)"
  by (simp add: checked_add_def checked_add_tuple_def)

end
