(* ===== verification/Treeguard_Decisions.thy ===== *)
theory Treeguard_Decisions
  imports Rust_Float Rust_Strings Down_Up
begin

text \<open>
  TreeGuard's state (\<open>lqosd/src/treeguard/state.rs\<close>), settings (\<open>lqos_config/src/etc/v15/treeguard.rs\<close>)
  and decisions (\<open>lqosd/src/treeguard/decisions.rs\<close>): whether a node of the shaping tree is made
  virtual and which queue discipline a circuit gets in each direction. Times are seconds of the UNIX
  epoch; \<open>f32 as f64\<close> is exact and leaves the value as it is.
\<close>

section \<open>State\<close>

record Ewma =
  ewma_initialized :: bool
  ewma_value :: f64

definition ewma_update :: "Ewma \<Rightarrow> f64 \<Rightarrow> f64 \<Rightarrow> Ewma \<times> f64" where
  "ewma_update e sample alpha =
     (if \<not> ewma_initialized e then (\<lparr>ewma_initialized = True, ewma_value = sample\<rparr>, sample)
      else let v = f64_add (f64_mul alpha sample) (f64_mul (f64_sub (Fin 1) alpha) (ewma_value e))
           in (e\<lparr>ewma_value := v\<rparr>, v))"

definition ewma_current :: "Ewma \<Rightarrow> f64 option" where
  "ewma_current e = (if ewma_initialized e then Some (ewma_value e) else None)"

datatype LinkVirtualState = Physical | Virtual

datatype CircuitSqmState = Cake | FqCodel

record LinkDirectionState =
  ld_util_ewma_pct :: Ewma
  ld_idle_since_unix :: "u64 option"
  ld_top_level_safe_since_unix :: "u64 option"
  ld_top_level_emergency_since_unix :: "u64 option"

record LinkTopologyFingerprint =
  direct_child_sites :: usize
  direct_circuits :: usize

datatype RuntimeNodeOperationFailureReason =
    StructuralIneligibleNoPromotableChildren
  | StructuralIneligibleSinglePromotableChild
  | StructuralIneligibleNestedRuntimeBranch

record LinkStructuralIneligibleState =
  latched_reason :: RuntimeNodeOperationFailureReason
  latched_fingerprint :: LinkTopologyFingerprint

record LinkState =
  link_desired :: LinkVirtualState
  link_last_change_unix :: "u64 option"
  link_recent_changes_unix :: "u64 list"
  link_topology_fingerprint :: LinkTopologyFingerprint
  link_structural_ineligible :: "LinkStructuralIneligibleState option"
  link_down :: LinkDirectionState
  link_up :: LinkDirectionState

record CircuitDirectionState =
  dir_desired :: CircuitSqmState
  dir_last_change_unix :: "u64 option"
  dir_recent_changes_unix :: "u64 list"
  dir_util_ewma_pct :: Ewma
  dir_idle_since_unix :: "u64 option"

type_synonym CircuitState = "CircuitDirectionState DownUpOrder"

definition is_sustained_window :: "u64 \<Rightarrow> u64 option \<Rightarrow> u64 option \<Rightarrow> u32 \<Rightarrow> bool" where
  "is_sustained_window now_unix down_since_unix up_since_unix min_minutes =
     (case (down_since_unix, up_since_unix) of
        (Some down_since, Some up_since) \<Rightarrow>
          (let min_secs = saturating_mul (ucast min_minutes) 60
           in saturating_sub now_unix down_since \<ge> min_secs \<and> saturating_sub now_unix up_since \<ge> min_secs)
      | _ \<Rightarrow> False)"

definition is_sustained_idle :: "u64 \<Rightarrow> u64 option \<Rightarrow> u64 option \<Rightarrow> u32 \<Rightarrow> bool" where
  "is_sustained_idle now_unix down_idle_since_unix up_idle_since_unix idle_min_minutes =
     is_sustained_window now_unix down_idle_since_unix up_idle_since_unix idle_min_minutes"

section \<open>Settings\<close>

datatype TreeguardCpuMode = CpuAware | TrafficRttOnly

record TreeguardCpuConfig =
  cpu_mode :: TreeguardCpuMode
  cpu_high_pct :: u8
  cpu_low_pct :: u8

record TreeguardLinksConfig =
  links_enabled :: bool
  links_all_nodes :: bool
  links_nodes :: "string list"
  links_idle_util_pct :: f32
  links_idle_min_minutes :: u32
  links_rtt_missing_seconds :: u32
  links_unvirtualize_util_pct :: f32
  links_min_state_dwell_minutes :: u32
  links_max_link_changes_per_hour :: u32
  links_reload_cooldown_minutes :: u32
  links_top_level_auto_virtualize :: bool
  links_top_level_safe_util_pct :: f32

record TreeguardCircuitsConfig =
  circuits_enabled :: bool
  circuits_all_circuits :: bool
  circuits_circuits :: "string list"
  circuits_switching_enabled :: bool
  circuits_independent_directions :: bool
  circuits_idle_util_pct :: f32
  circuits_idle_min_minutes :: u32
  circuits_rtt_missing_seconds :: u32
  circuits_upgrade_util_pct :: f32
  circuits_min_switch_dwell_minutes :: u32
  circuits_max_switches_per_hour :: u32
  circuits_persist_sqm_overrides :: bool

record TreeguardQooConfig =
  qoo_enabled :: bool
  qoo_min_score :: f32

definition default_circuits_config :: TreeguardCircuitsConfig where
  "default_circuits_config = \<lparr>circuits_enabled = True, circuits_all_circuits = True, circuits_circuits = [],
     circuits_switching_enabled = True, circuits_independent_directions = True,
     circuits_idle_util_pct = Fin 2, circuits_idle_min_minutes = 15, circuits_rtt_missing_seconds = 120,
     circuits_upgrade_util_pct = Fin 5, circuits_min_switch_dwell_minutes = 30,
     circuits_max_switches_per_hour = 4, circuits_persist_sqm_overrides = True\<rparr>"

definition default_cpu_config :: TreeguardCpuConfig where
  "default_cpu_config = \<lparr>cpu_mode = CpuAware, cpu_high_pct = 75, cpu_low_pct = 55\<rparr>"

definition default_qoo_config :: TreeguardQooConfig where
  "default_qoo_config = \<lparr>qoo_enabled = True, qoo_min_score = Fin 70\<rparr>"

section \<open>Guards\<close>

definition is_some_and :: "('a \<Rightarrow> bool) \<Rightarrow> 'a option \<Rightarrow> bool" where
  "is_some_and p v = (case v of Some x \<Rightarrow> p x | None \<Rightarrow> False)"

definition cpu_allows_saving :: "TreeguardCpuConfig \<Rightarrow> u8 option \<Rightarrow> bool" where
  "cpu_allows_saving cpu cpu_max_pct = (case cpu_mode cpu of
       CpuAware \<Rightarrow> is_some_and (\<lambda>pct. pct \<ge> cpu_high_pct cpu) cpu_max_pct
     | TrafficRttOnly \<Rightarrow> True)"

definition cpu_calls_for_revert :: "TreeguardCpuConfig \<Rightarrow> u8 option \<Rightarrow> bool" where
  "cpu_calls_for_revert cpu cpu_max_pct = (case cpu_mode cpu of
       CpuAware \<Rightarrow> is_some_and (\<lambda>pct. pct \<le> cpu_low_pct cpu) cpu_max_pct
     | TrafficRttOnly \<Rightarrow> False)"

definition qoo_below_threshold :: "TreeguardQooConfig \<Rightarrow> f32 option DownUpOrder \<Rightarrow> bool" where
  "qoo_below_threshold qoo_cfg qoo =
     (if \<not> qoo_enabled qoo_cfg then False
      else let below = is_some_and (\<lambda>score. score < qoo_min_score qoo_cfg)
           in below (down qoo) \<or> below (up qoo))"

definition in_dwell_window :: "u64 \<Rightarrow> u64 option \<Rightarrow> u32 \<Rightarrow> bool" where
  "in_dwell_window now_unix last_change_unix dwell_minutes = (case last_change_unix of
       None \<Rightarrow> False
     | Some last_change \<Rightarrow>
         (let dwell_secs = saturating_mul (ucast dwell_minutes) 60
          in saturating_sub now_unix last_change < dwell_secs))"

definition rate_limited :: "usize \<Rightarrow> u32 \<Rightarrow> bool" where
  "rate_limited recent_changes max_changes_per_hour =
     (if max_changes_per_hour = 0 then True else recent_changes \<ge> unat max_changes_per_hour)"

section \<open>Links\<close>

datatype LinkVirtualDecision = NoLinkChange | SetLink LinkVirtualState

record LinkVirtualizationInput =
  lv_now_unix :: u64
  lv_allowlisted :: bool
  lv_cpu_max_pct :: "u8 option"
  lv_cpu_cfg :: TreeguardCpuConfig
  lv_links_cfg :: TreeguardLinksConfig
  lv_qoo_cfg :: TreeguardQooConfig
  lv_rtt_missing :: bool
  lv_qoo :: "f32 option DownUpOrder"
  lv_util_ewma_pct :: "f64 DownUpOrder"
  lv_sustained_idle :: bool
  lv_state :: LinkState

definition decide_link_virtualization :: "LinkVirtualizationInput \<Rightarrow> LinkVirtualDecision" where
  "decide_link_virtualization i =
     (if \<not> lv_allowlisted i then NoLinkChange
      else
        let qoo_bad = qoo_below_threshold (lv_qoo_cfg i) (lv_qoo i) in
        case link_desired (lv_state i) of
          Physical \<Rightarrow>
            if in_dwell_window (lv_now_unix i) (link_last_change_unix (lv_state i))
                 (links_min_state_dwell_minutes (lv_links_cfg i))
            then NoLinkChange
            else if rate_limited (length (link_recent_changes_unix (lv_state i)))
                 (links_max_link_changes_per_hour (lv_links_cfg i))
            then NoLinkChange
            else if \<not> cpu_allows_saving (lv_cpu_cfg i) (lv_cpu_max_pct i) then NoLinkChange
            else if lv_sustained_idle i \<and> \<not> qoo_bad then SetLink Virtual
            else NoLinkChange
        | Virtual \<Rightarrow>
            let util_high = down (lv_util_ewma_pct i) \<ge> links_unvirtualize_util_pct (lv_links_cfg i)
                  \<or> up (lv_util_ewma_pct i) \<ge> links_unvirtualize_util_pct (lv_links_cfg i)
            in if util_high \<or> qoo_bad \<or> (lv_rtt_missing i \<and> \<not> lv_sustained_idle i)
               then SetLink Physical else NoLinkChange)"

record TopLevelLinkVirtualizationInput =
  tv_now_unix :: u64
  tv_cpu_max_pct :: "u8 option"
  tv_cpu_cfg :: TreeguardCpuConfig
  tv_links_cfg :: TreeguardLinksConfig
  tv_qoo_cfg :: TreeguardQooConfig
  tv_rtt_missing :: bool
  tv_qoo :: "f32 option DownUpOrder"
  tv_util_ewma_pct :: "f64 DownUpOrder"
  tv_safe_util_pct :: f64
  tv_sustained_safe :: bool
  tv_emergency_util_sustained :: bool
  tv_state :: LinkState

definition decide_top_level_link_virtualization :: "TopLevelLinkVirtualizationInput \<Rightarrow> LinkVirtualDecision" where
  "decide_top_level_link_virtualization i =
     (let util_high = down (tv_util_ewma_pct i) \<ge> tv_safe_util_pct i \<or> up (tv_util_ewma_pct i) \<ge> tv_safe_util_pct i in
      case link_desired (tv_state i) of
        Physical \<Rightarrow>
          if in_dwell_window (tv_now_unix i) (link_last_change_unix (tv_state i))
               (links_min_state_dwell_minutes (tv_links_cfg i))
          then NoLinkChange
          else if rate_limited (length (link_recent_changes_unix (tv_state i)))
               (links_max_link_changes_per_hour (tv_links_cfg i))
          then NoLinkChange
          else if cpu_allows_saving (tv_cpu_cfg i) (tv_cpu_max_pct i) \<and> tv_sustained_safe i
          then SetLink Virtual
          else NoLinkChange
      | Virtual \<Rightarrow>
          if tv_emergency_util_sustained i \<or> util_high then SetLink Physical else NoLinkChange)"

section \<open>Circuits\<close>

type_synonym CircuitSqmDecision = "CircuitSqmState option DownUpOrder"

record CircuitSqmInput =
  cs_now_unix :: u64
  cs_allowlisted :: bool
  cs_cpu_max_pct :: "u8 option"
  cs_cpu_cfg :: TreeguardCpuConfig
  cs_circuits_cfg :: TreeguardCircuitsConfig
  cs_qoo_cfg :: TreeguardQooConfig
  cs_rtt_missing :: bool
  cs_qoo :: "f32 option DownUpOrder"
  cs_state :: CircuitState

definition unwrap_or :: "'a \<Rightarrow> 'a option \<Rightarrow> 'a" where
  "unwrap_or d v = (case v of Some x \<Rightarrow> x | None \<Rightarrow> d)"

definition decide_direction ::
  "CircuitSqmInput \<Rightarrow> f32 option \<Rightarrow> CircuitDirectionState \<Rightarrow> CircuitSqmState option" where
  "decide_direction i dir_qoo dir_state =
     (let cfg = cs_circuits_cfg i;
          sustained_idle = is_some_and (\<lambda>since.
            let min_secs = saturating_mul (ucast (circuits_idle_min_minutes cfg)) 60
            in saturating_sub (cs_now_unix i) since \<ge> min_secs) (dir_idle_since_unix dir_state);
          util_pct = unwrap_or (Fin 0) (ewma_current (dir_util_ewma_pct dir_state));
          util_high = util_pct \<ge> circuits_upgrade_util_pct cfg
      in if in_dwell_window (cs_now_unix i) (dir_last_change_unix dir_state) (circuits_min_switch_dwell_minutes cfg)
         then None
         else if rate_limited (length (dir_recent_changes_unix dir_state)) (circuits_max_switches_per_hour cfg)
         then None
         else
           let qoo_bad = (if qoo_enabled (cs_qoo_cfg i)
                 then is_some_and (\<lambda>score. score < qoo_min_score (cs_qoo_cfg i)) dir_qoo else False)
           in case dir_desired dir_state of
                Cake \<Rightarrow>
                  if \<not> sustained_idle then None
                  else if cpu_allows_saving (cs_cpu_cfg i) (cs_cpu_max_pct i) \<and> \<not> qoo_bad then Some FqCodel
                  else None
              | FqCodel \<Rightarrow>
                  if util_high \<or> qoo_bad \<or> cpu_calls_for_revert (cs_cpu_cfg i) (cs_cpu_max_pct i)
                  then Some Cake else None)"

definition decide_joint :: "CircuitSqmInput \<Rightarrow> CircuitSqmDecision" where
  "decide_joint i =
     (let cfg = cs_circuits_cfg i; state = cs_state i;
          worst_qoo = (case (down (cs_qoo i), up (cs_qoo i)) of
              (Some d, Some u) \<Rightarrow> Some (f64_min d u)
            | (Some v, None) \<Rightarrow> Some v
            | (None, Some v) \<Rightarrow> Some v
            | (None, None) \<Rightarrow> None);
          sustained_idle = is_sustained_idle (cs_now_unix i) (dir_idle_since_unix (down state))
            (dir_idle_since_unix (up state)) (circuits_idle_min_minutes cfg);
          util_down = unwrap_or (Fin 0) (ewma_current (dir_util_ewma_pct (down state)));
          util_up = unwrap_or (Fin 0) (ewma_current (dir_util_ewma_pct (up state)));
          util_high = util_down \<ge> circuits_upgrade_util_pct cfg \<or> util_up \<ge> circuits_upgrade_util_pct cfg;
          qoo_bad = (if qoo_enabled (cs_qoo_cfg i)
            then is_some_and (\<lambda>score. score < qoo_min_score (cs_qoo_cfg i)) worst_qoo else False);
          desired = (if dir_desired (down state) = FqCodel \<and> dir_desired (up state) = FqCodel
                     then FqCodel else Cake);
          proposed = (case desired of
              Cake \<Rightarrow>
                if sustained_idle \<and> cpu_allows_saving (cs_cpu_cfg i) (cs_cpu_max_pct i) \<and> \<not> qoo_bad
                then Some FqCodel else None
            | FqCodel \<Rightarrow>
                if util_high \<or> qoo_bad \<or> cpu_calls_for_revert (cs_cpu_cfg i) (cs_cpu_max_pct i)
                then Some Cake else None)
      in case proposed of
           Some s \<Rightarrow> \<lparr>down = Some s, up = Some s\<rparr>
         | None \<Rightarrow> \<lparr>down = None, up = None\<rparr>)"

definition decide_circuit_sqm :: "CircuitSqmInput \<Rightarrow> CircuitSqmDecision" where
  "decide_circuit_sqm i =
     (if \<not> cs_allowlisted i then \<lparr>down = None, up = None\<rparr>
      else if \<not> circuits_switching_enabled (cs_circuits_cfg i) then \<lparr>down = None, up = None\<rparr>
      else if circuits_independent_directions (cs_circuits_cfg i)
      then \<lparr>down = decide_direction i (down (cs_qoo i)) (down (cs_state i)),
             up = decide_direction i (up (cs_qoo i)) (up (cs_state i))\<rparr>
      else decide_joint i)"

section \<open>The override token\<close>

fun sqm_name :: "CircuitSqmState \<Rightarrow> string" where
  "sqm_name Cake = ''cake''"
| "sqm_name FqCodel = ''fq_codel''"

definition format_directional_sqm_override :: "CircuitSqmState \<Rightarrow> CircuitSqmState \<Rightarrow> string" where
  "format_directional_sqm_override d u = sqm_name d @ ''/'' @ sqm_name u"

definition parse_one :: "string \<Rightarrow> CircuitSqmState option" where
  "parse_one text =
     (let t = trim text in
      if t = [] \<or> to_ascii_lowercase t = ''none'' then None
      else if to_ascii_lowercase t = ''cake'' then Some Cake
      else if to_ascii_lowercase t = ''fq_codel'' then Some FqCodel
      else None)"

definition parse_directional_sqm_override :: "string \<Rightarrow> CircuitSqmState option DownUpOrder" where
  "parse_directional_sqm_override text =
     (let token = trim text in
      if token = [] then \<lparr>down = None, up = None\<rparr>
      else case split_once (CHR ''/'') token of
             Some (d, u) \<Rightarrow> \<lparr>down = parse_one d, up = parse_one u\<rparr>
           | None \<Rightarrow> (let v = parse_one token in \<lparr>down = v, up = v\<rparr>))"

end
