(* ===== verification/Treeguard_Circuits.thy ===== *)
theory Treeguard_Circuits
  imports Treeguard_Decisions Shaped_Device
begin

text \<open>
  TreeGuard's handling of circuits (\<open>lqosd/src/treeguard/actor.rs\<close>): which circuits a tick evaluates
  and what the tick does with one of them, from the measured rates to the recorded switch. Writing
  and clearing the overrides file and the live change in the bakery are the functions
  \<open>persist_override\<close>, \<open>clear_override\<close> and \<open>live_apply\<close> handed to the tick; each is called at most once.
  Log messages are left out.
\<close>

section \<open>Errors, status and activity\<close>

datatype TreeguardError =
    SpawnThread string
  | OverridesLoad string
  | OverridesSave string
  | BakeryNotReady
  | BakerySend string
  | LiveMutationUnavailable string
  | QueueStructureUnavailable string
  | CircuitNotFound string
  | InvalidClassId string

fun error_text :: "TreeguardError \<Rightarrow> string" where
  "error_text (SpawnThread e) = ''failed to spawn TreeGuard actor thread: '' @ e"
| "error_text (OverridesLoad details) = ''failed to load overrides file: '' @ details"
| "error_text (OverridesSave details) = ''failed to save overrides file: '' @ details"
| "error_text BakeryNotReady = ''bakery is not initialized''"
| "error_text (BakerySend details) = ''failed to send command to bakery: '' @ details"
| "error_text (LiveMutationUnavailable details) = ''bakery live mutation unavailable: '' @ details"
| "error_text (QueueStructureUnavailable details) = ''queue structure snapshot unavailable: '' @ details"
| "error_text (CircuitNotFound circuit_id) = ''circuit not found in queue structure: '' @ circuit_id"
| "error_text (InvalidClassId details) = ''invalid queue structure class id: '' @ details"

record TreeguardStatusData =
  st_enabled :: bool
  st_dry_run :: bool
  st_paused_for_bakery_reload :: bool
  st_pause_reason :: "string option"
  st_cpu_max_pct :: "u8 option"
  st_total_nodes :: usize
  st_total_circuits :: usize
  st_managed_nodes :: usize
  st_managed_circuits :: usize
  st_virtualized_nodes :: usize
  st_cake_circuits :: usize
  st_mixed_sqm_circuits :: usize
  st_fq_codel_circuits :: usize
  st_last_action_summary :: "string option"
  st_warnings :: "string list"

record TreeguardActivityEntry =
  ac_time :: string
  ac_entity_type :: string
  ac_entity_id :: string
  ac_action :: string
  ac_persisted :: bool
  ac_reason :: string
  ac_batch_id :: "string option"
  ac_batch_kind :: "string option"

definition ACTIVITY_RING_CAPACITY :: usize where
  "ACTIVITY_RING_CAPACITY = 200"

definition push_activity ::
  "TreeguardActivityEntry list \<Rightarrow> TreeguardActivityEntry \<Rightarrow> TreeguardActivityEntry list" where
  "push_activity activity entry =
     (if length activity \<ge> ACTIVITY_RING_CAPACITY then tl activity else activity) @ [entry]"

section \<open>Timers\<close>

fun prune_recent_changes :: "u64 list \<Rightarrow> u64 \<Rightarrow> u64 list" where
  "prune_recent_changes [] now_unix = []"
| "prune_recent_changes (t # ts) now_unix =
     (if saturating_sub now_unix t > 3600 then prune_recent_changes ts now_unix else t # ts)"

definition update_idle_since :: "u64 option \<Rightarrow> u64 \<Rightarrow> f64 \<Rightarrow> f64 \<Rightarrow> u64 option" where
  "update_idle_since idle_since now_unix util_pct idle_pct =
     (if util_pct < idle_pct then (if idle_since = None then Some now_unix else idle_since) else None)"

definition update_below_since :: "u64 option \<Rightarrow> u64 \<Rightarrow> f64 \<Rightarrow> f64 \<Rightarrow> u64 option" where
  "update_below_since below_since now_unix util_pct threshold_pct =
     (if util_pct < threshold_pct then (if below_since = None then Some now_unix else below_since) else None)"

definition update_above_since :: "u64 option \<Rightarrow> u64 \<Rightarrow> f64 \<Rightarrow> f64 \<Rightarrow> u64 option" where
  "update_above_since above_since now_unix util_pct threshold_pct =
     (if util_pct \<ge> threshold_pct then (if above_since = None then Some now_unix else above_since) else None)"

section \<open>Which circuits a tick evaluates\<close>

definition TREEGUARD_CIRCUIT_TARGET_SWEEP_SECONDS :: usize where
  "TREEGUARD_CIRCUIT_TARGET_SWEEP_SECONDS = 15"

definition TREEGUARD_CIRCUIT_MIN_BATCH_SIZE :: usize where
  "TREEGUARD_CIRCUIT_MIN_BATCH_SIZE = 128"

definition div_ceil :: "usize \<Rightarrow> usize \<Rightarrow> usize" where
  "div_ceil a b = a div b + (if a mod b > 0 then 1 else 0)"

definition circuit_evaluation_batch_size :: "usize \<Rightarrow> bool \<Rightarrow> usize" where
  "circuit_evaluation_batch_size managed_circuits all_circuits =
     (if managed_circuits = 0 then 0
      else if \<not> all_circuits then managed_circuits
      else let target = div_ceil managed_circuits TREEGUARD_CIRCUIT_TARGET_SWEEP_SECONDS
           in min managed_circuits (max target TREEGUARD_CIRCUIT_MIN_BATCH_SIZE))"

fun batch_loop :: "string list \<Rightarrow> nat \<Rightarrow> usize \<Rightarrow> string list \<Rightarrow> string list \<times> usize" where
  "batch_loop enrolled 0 index batch = (batch, index)"
| "batch_loop enrolled (Suc n) index batch =
     (let batch = batch @ [enrolled ! index]; index = index + 1;
          index = (if index \<ge> length enrolled then 0 else index)
      in batch_loop enrolled n index batch)"

definition collect_circuit_batch :: "string list \<Rightarrow> usize \<Rightarrow> usize \<Rightarrow> string list \<times> usize" where
  "collect_circuit_batch enrolled_circuits cursor batch_size =
     (if enrolled_circuits = [] \<or> batch_size = 0 then ([], 0)
      else let cursor = (if cursor \<ge> length enrolled_circuits then 0 else cursor)
           in batch_loop enrolled_circuits (min batch_size (length enrolled_circuits)) cursor [])"

section \<open>One circuit in a tick\<close>

record CircuitSqmTransition =
  proposed_down :: CircuitSqmState
  proposed_up :: CircuitSqmState
  changed_down :: bool
  changed_up :: bool

definition treeguard_manages_circuit_direction :: "CircuitSqmState \<Rightarrow> bool" where
  "treeguard_manages_circuit_direction base_sqm \<longleftrightarrow> base_sqm = Cake"

definition propose :: "CircuitSqmState \<Rightarrow> CircuitSqmState \<Rightarrow> CircuitSqmState option \<Rightarrow> CircuitSqmState" where
  "propose base desired decision =
     (if treeguard_manages_circuit_direction base
      then case decision of Some s \<Rightarrow> s | None \<Rightarrow> desired
      else base)"

definition circuit_sqm_transition_from_decision ::
  "CircuitState \<Rightarrow> CircuitSqmState DownUpOrder \<Rightarrow> CircuitSqmDecision \<Rightarrow> CircuitSqmTransition" where
  "circuit_sqm_transition_from_decision state base_sqm decision =
     (let pd = propose (down base_sqm) (dir_desired (down state)) (down decision);
          pu = propose (up base_sqm) (dir_desired (up state)) (up decision)
      in \<lparr>proposed_down = pd, proposed_up = pu, changed_down = pd \<noteq> dir_desired (down state),
          changed_up = pu \<noteq> dir_desired (up state)\<rparr>)"

definition try_consume_circuit_change_budget :: "usize \<Rightarrow> bool \<times> usize" where
  "try_consume_circuit_change_budget remaining_budget =
     (if remaining_budget = 0 then (False, remaining_budget) else (True, remaining_budget - 1))"

definition next_sqm_batch_id :: "u64 \<Rightarrow> string \<times> u64" where
  "next_sqm_batch_id n = (let n = saturating_add n 1 in (''sqm-'' @ dec_digits (unat n), n))"

fun is_retryable_live_mutation_unavailable :: "TreeguardError \<Rightarrow> string option" where
  "is_retryable_live_mutation_unavailable (LiveMutationUnavailable details) = Some details"
| "is_retryable_live_mutation_unavailable _ = None"

record CircuitSqmApplyContext =
  ap_now_unix :: u64
  ap_dry_run :: bool
  ap_persist_sqm_overrides :: bool
  ap_circuit_id :: string
  ap_circuit_entity_id :: string
  ap_circuit_label :: string
  ap_devices :: "ShapedDevice list"
  ap_base_sqm :: "CircuitSqmState DownUpOrder"
  ap_batch_id :: string

text \<open>What the actor writes besides the circuit's state.\<close>

record TreeguardLog =
  log_status :: TreeguardStatusData
  log_activity :: "TreeguardActivityEntry list"

definition add_warning :: "string \<Rightarrow> TreeguardLog \<Rightarrow> TreeguardLog" where
  "add_warning w l = l\<lparr>log_status := (log_status l)\<lparr>st_warnings := st_warnings (log_status l) @ [w]\<rparr>\<rparr>"

definition set_summary :: "string \<Rightarrow> TreeguardLog \<Rightarrow> TreeguardLog" where
  "set_summary s l = l\<lparr>log_status := (log_status l)\<lparr>st_last_action_summary := Some s\<rparr>\<rparr>"

definition circuit_activity ::
  "CircuitSqmApplyContext \<Rightarrow> string \<Rightarrow> bool \<Rightarrow> string \<Rightarrow> TreeguardLog \<Rightarrow> TreeguardLog" where
  "circuit_activity ctx action persisted reason l =
     l\<lparr>log_activity := push_activity (log_activity l)
       \<lparr>ac_time = dec_digits (unat (ap_now_unix ctx)), ac_entity_type = ''circuit'',
        ac_entity_id = ap_circuit_entity_id ctx, ac_action = action, ac_persisted = persisted,
        ac_reason = reason, ac_batch_id = Some (ap_batch_id ctx), ac_batch_kind = Some ''sqm''\<rparr>\<rparr>"

definition record_switch :: "u64 \<Rightarrow> CircuitSqmState \<Rightarrow> CircuitDirectionState \<Rightarrow> CircuitDirectionState" where
  "record_switch now_unix proposed d =
     d\<lparr>dir_desired := proposed, dir_last_change_unix := Some now_unix,
       dir_recent_changes_unix := prune_recent_changes (dir_recent_changes_unix d @ [now_unix]) now_unix\<rparr>"

definition record_switches :: "u64 \<Rightarrow> CircuitSqmTransition \<Rightarrow> CircuitState \<Rightarrow> CircuitState" where
  "record_switches now_unix t state =
     (let state = (if changed_down t then state\<lparr>down := record_switch now_unix (proposed_down t) (down state)\<rparr> else state)
      in if changed_up t then state\<lparr>up := record_switch now_unix (proposed_up t) (up state)\<rparr> else state)"

type_synonym persist_fn = "string list \<Rightarrow> string \<Rightarrow> (bool, TreeguardError) result"
type_synonym clear_fn = "string list \<Rightarrow> (bool, TreeguardError) result"
type_synonym live_fn = "string \<Rightarrow> ShapedDevice list \<Rightarrow> string \<Rightarrow> (unit, TreeguardError) result"

text \<open>A text in single quotes.\<close>

definition quoted :: "string \<Rightarrow> string" where
  "quoted s = CHR 0x27 # s @ [CHR 0x27]"

definition apply_dry_run :: "CircuitSqmApplyContext \<Rightarrow> bool \<Rightarrow> string \<Rightarrow> TreeguardLog \<Rightarrow> TreeguardLog" where
  "apply_dry_run ctx returning_to_base token l =
     set_summary
       (if returning_to_base
        then ''Would clear TreeGuard SQM override for circuit '' @ quoted (ap_circuit_label ctx) @ '' (base '' @ token @ '')''
        else ''Would set SQM override for circuit '' @ quoted (ap_circuit_label ctx) @ '' -> '' @ token)
       (circuit_activity ctx
         (if returning_to_base then ''would_clear_sqm_override'' else ''would_set_sqm_override:'' @ token)
         False ''Dry-run'' l)"

text \<open>The overrides file: whether it was written, and what is logged when it was not.\<close>

definition apply_persist ::
  "CircuitSqmApplyContext \<Rightarrow> bool \<Rightarrow> string \<Rightarrow> persist_fn \<Rightarrow> clear_fn \<Rightarrow> TreeguardLog \<Rightarrow> bool \<times> TreeguardLog" where
  "apply_persist ctx returning_to_base token persist_override clear_override l =
     (let device_ids = map sd_device_id (ap_devices ctx) in
      if ap_persist_sqm_overrides ctx
      then (case (if returning_to_base then clear_override device_ids else persist_override device_ids token) of
              Inr _ \<Rightarrow> (True, l)
            | Inl e \<Rightarrow>
                (False,
                 circuit_activity ctx
                   (if returning_to_base then ''clear_sqm_override_failed'' else ''set_sqm_override_failed'')
                   False (''Overrides write failed: '' @ error_text e)
                   (add_warning (''TreeGuard circuits: failed to ''
                      @ (if returning_to_base then ''clear'' else ''persist'')
                      @ '' SQM overrides for circuit '' @ quoted (ap_circuit_id ctx) @ '': '' @ error_text e) l)))
      else (False, l))"

text \<open>The live change: whether it was made, whether it was deferred, and what is logged.\<close>

definition apply_live ::
  "CircuitSqmApplyContext \<Rightarrow> bool \<Rightarrow> string \<Rightarrow> bool \<Rightarrow> live_fn \<Rightarrow> TreeguardLog \<Rightarrow> bool \<times> bool \<times> TreeguardLog" where
  "apply_live ctx returning_to_base token persisted_ok live_apply l =
     (let live_token = (if returning_to_base then ''/'' else token) in
      case live_apply (ap_circuit_id ctx) (ap_devices ctx) live_token of
        Inr _ \<Rightarrow> (True, False, l)
      | Inl e \<Rightarrow>
          (case is_retryable_live_mutation_unavailable e of
             Some details \<Rightarrow>
               (False, True,
                circuit_activity ctx
                  (if returning_to_base then ''clear_sqm_live_deferred'' else ''apply_sqm_live_deferred:'' @ token)
                  persisted_ok (''Bakery live apply deferred: '' @ details) l)
           | None \<Rightarrow>
               (False, False,
                circuit_activity ctx
                  (if returning_to_base then ''clear_sqm_live_failed'' else ''apply_sqm_live_failed:'' @ token)
                  persisted_ok (''Bakery live apply failed: '' @ error_text e)
                  (add_warning (''TreeGuard circuits: live SQM apply failed for circuit ''
                     @ quoted (ap_circuit_id ctx) @ '': '' @ error_text e) l))))"

definition applied_action :: "bool \<Rightarrow> bool \<Rightarrow> bool \<Rightarrow> bool \<Rightarrow> string \<times> string" where
  "applied_action returning_to_base persisted_ok live_ok live_deferred =
     (case (returning_to_base, persisted_ok, live_ok) of
        (False, True, True) \<Rightarrow> (''set_sqm_override'', ''Applied live + persisted'')
      | (False, True, False) \<Rightarrow>
          (''set_sqm_override'',
           if live_deferred then ''Persisted (live apply deferred)'' else ''Persisted (live apply failed)'')
      | (False, False, True) \<Rightarrow> (''set_sqm_live'', ''Applied live'')
      | (False, False, False) \<Rightarrow> (''set_sqm_live'', ''Not applied'')
      | (True, True, True) \<Rightarrow> (''clear_sqm_override'', ''Cleared live + persisted overlay'')
      | (True, True, False) \<Rightarrow>
          (''clear_sqm_override'',
           if live_deferred then ''Persisted clear (live apply deferred)'' else ''Persisted clear (live apply failed)'')
      | (True, False, True) \<Rightarrow> (''clear_sqm_live'', ''Applied live clear'')
      | (True, False, False) \<Rightarrow> (''clear_sqm_live'', ''Not applied''))"

definition apply_circuit_sqm_change ::
  "CircuitSqmApplyContext \<Rightarrow> CircuitSqmTransition \<Rightarrow> persist_fn \<Rightarrow> clear_fn \<Rightarrow> live_fn
    \<Rightarrow> CircuitState \<times> TreeguardLog \<Rightarrow> CircuitState \<times> TreeguardLog" where
  "apply_circuit_sqm_change ctx t persist_override clear_override live_apply = (\<lambda>(state, l).
     let token = format_directional_sqm_override (proposed_down t) (proposed_up t);
         returning_to_base = (proposed_down t = down (ap_base_sqm ctx) \<and> proposed_up t = up (ap_base_sqm ctx))
     in if ap_dry_run ctx
        then (record_switches (ap_now_unix ctx) t state, apply_dry_run ctx returning_to_base token l)
        else
          let (persisted_ok, l) = apply_persist ctx returning_to_base token persist_override clear_override l;
              (live_ok, live_deferred, l) = apply_live ctx returning_to_base token persisted_ok live_apply l
          in if live_ok \<or> persisted_ok
             then
               let (action, reason) = applied_action returning_to_base persisted_ok live_ok live_deferred
               in (record_switches (ap_now_unix ctx) t state,
                   set_summary
                     (if returning_to_base
                      then ''Cleared TreeGuard SQM override for circuit '' @ quoted (ap_circuit_label ctx) @ '' (base '' @ token @ '')''
                      else ''SQM override for circuit '' @ quoted (ap_circuit_label ctx) @ '' -> '' @ token)
                     (circuit_activity ctx (action @ '':'' @ token) persisted_ok reason l))
             else (state, l))"

record CircuitTickContext =
  tk_now_unix :: u64
  tk_now_nanos_since_boot :: "u64 option"
  tk_cpu_max_pct :: "u8 option"
  tk_dry_run :: bool
  tk_circuit_id :: string
  tk_circuit_entity_id :: string
  tk_circuit_label :: string
  tk_devices :: "ShapedDevice list"
  tk_sqm_batch_id :: string
  tk_allowlisted :: bool
  tk_cap_down :: f32
  tk_cap_up :: f32
  tk_bps :: "u64 DownUpOrder"
  tk_last_rtt_seen_nanos :: "u64 option"
  tk_qoo :: "f32 option DownUpOrder"
  tk_cpu_cfg :: TreeguardCpuConfig
  tk_circuits_cfg :: TreeguardCircuitsConfig
  tk_qoo_cfg :: TreeguardQooConfig
  tk_base_sqm :: "CircuitSqmState DownUpOrder"

text \<open>What the tick shares with the other circuits.\<close>

record TickShared =
  sh_log :: TreeguardLog
  sh_managed_device_ids :: "string set"
  sh_circuit_change_budget_remaining :: usize
  sh_deferred_circuit_sqm_changes :: usize

definition UTIL_EWMA_ALPHA :: f64 where
  "UTIL_EWMA_ALPHA = f64_of_rat (1 / 10)"

definition util_pct :: "u64 \<Rightarrow> f32 \<Rightarrow> f64" where
  "util_pct bps cap =
     (let mbps = f64_div (f64_mul (f64_of_u64 bps) (Fin 8)) (Fin 1000000)
      in f64_mul (f64_div mbps cap) (Fin 100))"

definition prune_direction :: "u64 \<Rightarrow> CircuitDirectionState \<Rightarrow> CircuitDirectionState" where
  "prune_direction now_unix d =
     d\<lparr>dir_recent_changes_unix := prune_recent_changes (dir_recent_changes_unix d) now_unix\<rparr>"

definition measure_direction :: "u64 \<Rightarrow> f32 \<Rightarrow> f64 \<Rightarrow> CircuitDirectionState \<Rightarrow> CircuitDirectionState" where
  "measure_direction now_unix idle_util_pct util d =
     (let (e, ewma) = ewma_update (dir_util_ewma_pct d) util UTIL_EWMA_ALPHA
      in d\<lparr>dir_util_ewma_pct := e,
           dir_idle_since_unix := update_idle_since (dir_idle_since_unix d) now_unix ewma idle_util_pct\<rparr>)"

definition rtt_missing :: "u64 option \<Rightarrow> u64 option \<Rightarrow> u32 \<Rightarrow> bool" where
  "rtt_missing now_nanos_since_boot last_rtt_seen_nanos rtt_missing_seconds =
     (case (now_nanos_since_boot, last_rtt_seen_nanos) of
        (Some now_nanos, Some last_seen) \<Rightarrow>
          if last_seen > 0
          then saturating_sub now_nanos last_seen \<ge> saturating_mul (ucast rtt_missing_seconds) 1000000000
          else True
      | _ \<Rightarrow> True)"

definition capacity_known :: "CircuitTickContext \<Rightarrow> bool" where
  "capacity_known ctx \<longleftrightarrow> tk_cap_down ctx > Fin 0 \<and> tk_cap_up ctx > Fin 0"

text \<open>The state before the decision.\<close>

definition measured_state :: "CircuitTickContext \<Rightarrow> CircuitState \<Rightarrow> CircuitState" where
  "measured_state ctx state =
     (let now = tk_now_unix ctx; pd = prune_direction now (down state); pu = prune_direction now (up state);
          idle = circuits_idle_util_pct (tk_circuits_cfg ctx)
      in if \<not> capacity_known ctx
         then \<lparr>down = pd\<lparr>dir_idle_since_unix := None\<rparr>, up = pu\<lparr>dir_idle_since_unix := None\<rparr>\<rparr>
         else \<lparr>down = measure_direction now idle (util_pct (down (tk_bps ctx)) (tk_cap_down ctx)) pd,
                up = measure_direction now idle (util_pct (up (tk_bps ctx)) (tk_cap_up ctx)) pu\<rparr>)"

definition sqm_input :: "CircuitTickContext \<Rightarrow> CircuitState \<Rightarrow> CircuitSqmInput" where
  "sqm_input ctx state =
     \<lparr>cs_now_unix = tk_now_unix ctx, cs_allowlisted = (tk_allowlisted ctx \<and> capacity_known ctx),
      cs_cpu_max_pct = tk_cpu_max_pct ctx, cs_cpu_cfg = tk_cpu_cfg ctx, cs_circuits_cfg = tk_circuits_cfg ctx,
      cs_qoo_cfg = tk_qoo_cfg ctx,
      cs_rtt_missing = rtt_missing (tk_now_nanos_since_boot ctx) (tk_last_rtt_seen_nanos ctx)
        (circuits_rtt_missing_seconds (tk_circuits_cfg ctx)),
      cs_qoo = tk_qoo ctx, cs_state = state\<rparr>"

definition apply_context :: "CircuitTickContext \<Rightarrow> CircuitSqmApplyContext" where
  "apply_context ctx =
     \<lparr>ap_now_unix = tk_now_unix ctx, ap_dry_run = tk_dry_run ctx,
      ap_persist_sqm_overrides = circuits_persist_sqm_overrides (tk_circuits_cfg ctx),
      ap_circuit_id = tk_circuit_id ctx, ap_circuit_entity_id = tk_circuit_entity_id ctx,
      ap_circuit_label = tk_circuit_label ctx, ap_devices = tk_devices ctx,
      ap_base_sqm = tk_base_sqm ctx, ap_batch_id = tk_sqm_batch_id ctx\<rparr>"

definition process_circuit_tick ::
  "CircuitTickContext \<Rightarrow> persist_fn \<Rightarrow> clear_fn \<Rightarrow> live_fn \<Rightarrow> CircuitState \<times> TickShared
    \<Rightarrow> bool \<times> CircuitState \<times> TickShared" where
  "process_circuit_tick ctx persist_override clear_override live_apply = (\<lambda>(state, sh).
     let sh = (if capacity_known ctx then sh
               else sh\<lparr>sh_log := add_warning (''TreeGuard circuits: circuit '' @ quoted (tk_circuit_id ctx)
                      @ '' has unknown capacity; no changes will be made.'') (sh_log sh)\<rparr>);
         state = measured_state ctx state;
         decision = decide_circuit_sqm (sqm_input ctx state);
         transition = circuit_sqm_transition_from_decision state (tk_base_sqm ctx) decision;
         sh = (if tk_devices ctx = []
               then sh\<lparr>sh_log := add_warning (''TreeGuard circuits: circuit '' @ quoted (tk_circuit_id ctx)
                      @ '' has no devices in ShapedDevices.csv.'') (sh_log sh)\<rparr>
               else sh\<lparr>sh_managed_device_ids := set (map sd_device_id (tk_devices ctx)) \<union> sh_managed_device_ids sh\<rparr>);
         (state, sh) =
           (if (changed_down transition \<or> changed_up transition) \<and> tk_devices ctx \<noteq> []
            then
              let (consumed, budget) = try_consume_circuit_change_budget (sh_circuit_change_budget_remaining sh);
                  sh = sh\<lparr>sh_circuit_change_budget_remaining := budget\<rparr>
              in if consumed
                 then let (state, l) = apply_circuit_sqm_change (apply_context ctx) transition
                            persist_override clear_override live_apply (state, sh_log sh)
                      in (state, sh\<lparr>sh_log := l\<rparr>)
                 else (state, sh\<lparr>sh_deferred_circuit_sqm_changes :=
                         min (sh_deferred_circuit_sqm_changes sh + 1) (2 ^ 64 - 1)\<rparr>)
            else (state, sh))
     in (dir_desired (down state) = FqCodel \<or> dir_desired (up state) = FqCodel, state, sh))"

end
