(* ===== verification/Treeguard_Properties.thy ===== *)
theory Treeguard_Properties
  imports Treeguard_Circuits
begin

text \<open>
  Properties of TreeGuard: the pace at which a circuit is switched between queue disciplines, as an
  abstract step relation that a circuit's tick refines, and the sweep over the enrolled circuits.
\<close>

section \<open>The pace of switches\<close>

text \<open>What pacing sees of a direction: the discipline, the last switch and the recent ones.\<close>

type_synonym pace = "CircuitSqmState \<times> u64 option \<times> u64 list"

definition pace_of :: "CircuitDirectionState \<Rightarrow> pace" where
  "pace_of d = (dir_desired d, dir_last_change_unix d, dir_recent_changes_unix d)"

inductive paced_step :: "u32 \<Rightarrow> u32 \<Rightarrow> u64 \<Rightarrow> pace \<Rightarrow> pace \<Rightarrow> bool" for dwell limit now where
  keep: "paced_step dwell limit now (s, l, r) (s, l, prune_recent_changes r now)"
| switch: "\<not> in_dwell_window now l dwell \<Longrightarrow> \<not> rate_limited (length (prune_recent_changes r now)) limit
    \<Longrightarrow> s' \<noteq> s
    \<Longrightarrow> paced_step dwell limit now (s, l, r)
          (s', Some now, prune_recent_changes (prune_recent_changes r now @ [now]) now)"

inductive_cases paced_stepE: "paced_step dwell limit now v w"

text \<open>The times at which a run of ticks changes the discipline.\<close>

fun switch_times :: "('s \<Rightarrow> CircuitSqmState) \<Rightarrow> ('s \<Rightarrow> 'i \<Rightarrow> 's) \<Rightarrow> ('i \<Rightarrow> u64) \<Rightarrow> 's \<Rightarrow> 'i list \<Rightarrow> u64 list" where
  "switch_times desired tick now s [] = []"
| "switch_times desired tick now s (i # is) =
     (let s' = tick s i in (if desired s' \<noteq> desired s then [now i] else []) @ switch_times desired tick now s' is)"

lemma switch_times_snoc:
  "switch_times desired tick now s (is @ [i]) =
     switch_times desired tick now s is
     @ (let s' = foldl tick s is in if desired (tick s' i) \<noteq> desired s' then [now i] else [])"
  by (induction "is" arbitrary: s) (simp_all add: Let_def)

lemma prune_dropWhile: "prune_recent_changes ts now = dropWhile (\<lambda>t. saturating_sub now t > 3600) ts"
  by (induction ts) auto

lemma unat_saturating_sub_le: "unat (saturating_sub a b :: u64) = unat a - unat b"
  by (simp add: unat_saturating_sub)

lemma too_old: "saturating_sub now t > (3600 :: u64) \<longleftrightarrow> unat t + 3600 < unat now"
  by (simp add: word_less_nat_alt unat_saturating_sub_le less_diff_conv2) linarith

lemma dropWhile_weaker:
  "(\<And>x. P x \<Longrightarrow> Q x) \<Longrightarrow> dropWhile Q (dropWhile P xs) = dropWhile Q xs"
  by (induction xs) auto

lemma length_filter_dropWhile: "length (filter (\<lambda>x. \<not> P x) xs) \<le> length (dropWhile P xs)"
  by (induction xs) (auto intro: le_trans [OF length_filter_le])

lemma unat_dwell: "unat (saturating_mul (ucast (dwell :: u32)) (60 :: u64)) = 60 * unat dwell"
proof -
  have "unat dwell < 2 ^ 32" using unsigned_less [of dwell] by simp
  moreover have "unat (ucast dwell :: u64) = unat dwell"
    using \<open>unat dwell < 2 ^ 32\<close> by (simp add: unsigned_ucast_eq take_bit_nat_eq_self)
  ultimately show ?thesis by (simp add: unat_saturating_mul)
qed

text \<open>What a run has switched so far, given the times of its ticks.\<close>

definition paced_times :: "u32 \<Rightarrow> u32 \<Rightarrow> u64 list \<Rightarrow> bool" where
  "paced_times dwell limit switches \<longleftrightarrow>
     sorted_wrt (\<lambda>x y. unat x + 60 * unat dwell \<le> unat y) switches
     \<and> (\<forall>t. length (filter (\<lambda>x. unat x \<le> t \<and> t \<le> unat x + 3600) switches) \<le> unat limit)"

definition pace_inv :: "u32 \<Rightarrow> u32 \<Rightarrow> u64 \<Rightarrow> pace \<Rightarrow> u64 list \<Rightarrow> bool" where
  "pace_inv dwell limit now v switches \<longleftrightarrow> (case v of (s, l, r) \<Rightarrow>
     sorted switches \<and> list_all (\<lambda>x. x \<le> now) switches
     \<and> l = (if switches = [] then None else Some (last switches))
     \<and> r = prune_recent_changes switches now
     \<and> paced_times dwell limit switches)"

lemma prune_later: "now \<le> later \<Longrightarrow> prune_recent_changes (prune_recent_changes ts now) later = prune_recent_changes ts later"
  unfolding prune_dropWhile by (rule dropWhile_weaker) (simp add: too_old word_le_nat_alt)

lemma window_count:
  assumes "\<not> rate_limited (length (prune_recent_changes switches now)) limit"
    and "unat now \<le> t"
  shows "length (filter (\<lambda>x. unat x \<le> t \<and> t \<le> unat x + 3600) switches) < unat limit"
proof -
  have "length (filter (\<lambda>x. unat x \<le> t \<and> t \<le> unat x + 3600) switches)
      \<le> length (filter (\<lambda>x. \<not> saturating_sub now x > 3600) switches)"
    using assms(2) unfolding too_old by (induction switches) auto
  also have "\<dots> \<le> length (prune_recent_changes switches now)"
    unfolding prune_dropWhile by (rule length_filter_dropWhile)
  also have "\<dots> < unat limit" using assms(1) by (simp add: rate_limited_def split: if_splits)
  finally show ?thesis .
qed

lemma paced_times_snoc:
  assumes "paced_times dwell limit switches" and "sorted switches"
    and le: "list_all (\<lambda>x. x \<le> now) switches"
    and "switches = [] \<or> \<not> in_dwell_window now (Some (last switches)) dwell"
    and "\<not> rate_limited (length (prune_recent_changes switches now)) limit"
  shows "paced_times dwell limit (switches @ [now])"
proof -
  have gap: "unat x + 60 * unat dwell \<le> unat now" if "x \<in> set switches" for x
  proof -
    have "switches \<noteq> []" using that by auto
    then have "60 * unat dwell \<le> unat now - unat (last switches)"
      using assms(4) by (simp add: in_dwell_window_def Let_def word_less_nat_alt unat_saturating_sub_le unat_dwell)
    moreover have "x \<le> last switches"
      using that assms(2) \<open>switches \<noteq> []\<close> by (cases switches rule: rev_cases) (auto simp: sorted_append)
    moreover have "x \<le> now" "last switches \<le> now"
      using that le \<open>switches \<noteq> []\<close> by (auto simp: list_all_iff)
    ultimately show ?thesis unfolding word_le_nat_alt by linarith
  qed
  show ?thesis
    unfolding paced_times_def
  proof (intro conjI allI)
    show "sorted_wrt (\<lambda>x y. unat x + 60 * unat dwell \<le> unat y) (switches @ [now])"
      using assms(1) gap by (simp add: sorted_wrt_append paced_times_def)
    show "length (filter (\<lambda>x. unat x \<le> t \<and> t \<le> unat x + 3600) (switches @ [now])) \<le> unat limit" for t
      using assms(1) window_count [OF assms(5), of t] by (cases "unat now \<le> t") (auto simp: paced_times_def)
  qed
qed

lemma dropWhile_again: "dropWhile P (dropWhile P xs @ ys) = dropWhile P (xs @ ys)"
  by (induction xs) auto

lemma pace_inv_step:
  assumes inv: "pace_inv dwell limit now v switches" and "now \<le> later" and step: "paced_step dwell limit later v w"
  shows "pace_inv dwell limit later w (switches @ (if fst w \<noteq> fst v then [later] else []))"
proof -
  obtain s l r where v: "v = (s, l, r)" by (cases v)
  have facts: "sorted switches" "list_all (\<lambda>x. x \<le> later) switches"
      "l = (if switches = [] then None else Some (last switches))"
      "prune_recent_changes r later = prune_recent_changes switches later" "paced_times dwell limit switches"
    using inv assms(2) by (auto simp: v pace_inv_def prune_later list_all_iff)
  from step show ?thesis
  proof (cases rule: paced_step.cases)
    case switch
    have "prune_recent_changes (prune_recent_changes r later @ [later]) later
        = prune_recent_changes (switches @ [later]) later"
      unfolding facts(4) by (simp add: prune_dropWhile dropWhile_again)
    moreover have "sorted (switches @ [later])" using facts(1,2) by (auto simp: sorted_append list_all_iff)
    moreover have "paced_times dwell limit (switches @ [later])"
      using facts switch by (intro paced_times_snoc) (auto simp: v split: if_splits)
    ultimately show ?thesis
      using facts switch by (auto simp: v pace_inv_def)
  qed (use facts in \<open>auto simp: v pace_inv_def\<close>)
qed

text \<open>A component whose ticks are paced steps never switches too fast.\<close>

locale paced =
  fixes pace :: "'s \<Rightarrow> pace" and tick :: "'s \<Rightarrow> 'i \<Rightarrow> 's" and now :: "'i \<Rightarrow> u64" and good :: "'i \<Rightarrow> bool"
    and dwell limit :: u32
  assumes tick_paced: "good i \<Longrightarrow> paced_step dwell limit (now i) (pace s) (pace (tick s i))"
begin

lemma run_inv:
  assumes "snd (pace s) = (None, [])" and "list_all good ticks" and "sorted (map now ticks)"
  shows "pace_inv dwell limit (last (0 # map now ticks)) (pace (foldl tick s ticks))
    (switch_times (\<lambda>s. fst (pace s)) tick now s ticks)"
  using assms(2,3)
proof (induction ticks rule: rev_induct)
  case Nil
  then show ?case using assms(1) by (cases "pace s") (simp add: pace_inv_def paced_times_def)
next
  case (snoc i ticks)
  have "last (0 # map now ticks) \<le> now i"
    using snoc.prems(2) by (cases ticks rule: rev_cases) (auto simp: sorted_append)
  moreover have "pace_inv dwell limit (last (0 # map now ticks)) (pace (foldl tick s ticks))
      (switch_times (\<lambda>s. fst (pace s)) tick now s ticks)"
    using snoc by (simp add: sorted_append)
  ultimately show ?case
    using pace_inv_step [OF _ _ tick_paced, of _ _ _ i] snoc.prems(1) by (simp add: switch_times_snoc Let_def)
qed

lemma run_paced:
  assumes "snd (pace s) = (None, [])" and "list_all good ticks" and "sorted (map now ticks)"
  shows "paced_times dwell limit (switch_times (\<lambda>s. fst (pace s)) tick now s ticks)"
  using run_inv [OF assms] by (cases "pace (foldl tick s ticks)") (simp add: pace_inv_def)

end

section \<open>A circuit's tick is paced\<close>

datatype side = DownSide | UpSide

fun at_side :: "side \<Rightarrow> 'a DownUpOrder \<Rightarrow> 'a" where
  "at_side DownSide x = down x"
| "at_side UpSide x = up x"

text \<open>A tick with the functions and the shared state it runs with.\<close>

type_synonym circuit_tick = "CircuitTickContext \<times> persist_fn \<times> clear_fn \<times> live_fn \<times> TickShared"

definition tick_circuit :: "CircuitState \<Rightarrow> circuit_tick \<Rightarrow> CircuitState" where
  "tick_circuit state t = (case t of (ctx, persist_override, clear_override, live_apply, sh) \<Rightarrow>
     fst (snd (process_circuit_tick ctx persist_override clear_override live_apply (state, sh))))"

definition managed_independently :: "side \<Rightarrow> u32 \<Rightarrow> u32 \<Rightarrow> circuit_tick \<Rightarrow> bool" where
  "managed_independently sd dwell limit t \<longleftrightarrow> (let ctx = fst t; cfg = tk_circuits_cfg ctx in
     circuits_independent_directions cfg \<and> circuits_min_switch_dwell_minutes cfg = dwell
     \<and> circuits_max_switches_per_hour cfg = limit \<and> at_side sd (tk_base_sqm ctx) = Cake)"

lemma pace_measured:
  "pace_of (at_side sd (measured_state ctx state)) =
     (dir_desired (at_side sd state), dir_last_change_unix (at_side sd state),
      prune_recent_changes (dir_recent_changes_unix (at_side sd state)) (tk_now_unix ctx))"
  by (cases sd) (simp_all add: measured_state_def pace_of_def measure_direction_def prune_direction_def Let_def split: prod.split)

lemma pace_record_switches:
  "pace_of (at_side sd (record_switches now t state)) =
     (let (s, l, r) = pace_of (at_side sd state);
          changed = (case sd of DownSide \<Rightarrow> changed_down t | UpSide \<Rightarrow> changed_up t);
          proposed = (case sd of DownSide \<Rightarrow> proposed_down t | UpSide \<Rightarrow> proposed_up t)
      in if changed then (proposed, Some now, prune_recent_changes (r @ [now]) now) else (s, l, r))"
  by (cases sd) (simp_all add: record_switches_def record_switch_def pace_of_def Let_def)

lemma apply_circuit_sqm_change_state:
  "fst (apply_circuit_sqm_change ctx t p c l (state, lg)) = state
   \<or> fst (apply_circuit_sqm_change ctx t p c l (state, lg)) = record_switches (ap_now_unix ctx) t state"
  by (simp add: apply_circuit_sqm_change_def Let_def split: prod.split)

definition tick_transition :: "CircuitTickContext \<Rightarrow> CircuitState \<Rightarrow> CircuitSqmTransition" where
  "tick_transition ctx state = circuit_sqm_transition_from_decision state (tk_base_sqm ctx)
     (decide_circuit_sqm (sqm_input ctx state))"

lemma tick_circuit_cases:
  fixes state ctx
  defines "m \<equiv> measured_state ctx state"
  shows "tick_circuit state (ctx, rest) = m
    \<or> tick_circuit state (ctx, rest) = record_switches (tk_now_unix ctx) (tick_transition ctx m) m"
proof -
  obtain p c l sh where rest: "rest = (p, c, l, sh)" by (cases rest)
  have "fst (apply_circuit_sqm_change (apply_context ctx) t p c l (m, lg)) = m
      \<or> fst (apply_circuit_sqm_change (apply_context ctx) t p c l (m, lg)) = record_switches (tk_now_unix ctx) t m"
    for t lg
    using apply_circuit_sqm_change_state [of "apply_context ctx"] by (simp add: apply_context_def)
  then show ?thesis
    unfolding rest tick_circuit_def process_circuit_tick_def
    by (simp add: m_def [symmetric] tick_transition_def [symmetric] Let_def case_prod_beta)
qed

lemma decide_direction_paced:
  assumes "decide_direction i q d = Some s"
  shows "\<not> in_dwell_window (cs_now_unix i) (dir_last_change_unix d) (circuits_min_switch_dwell_minutes (cs_circuits_cfg i))"
    and "\<not> rate_limited (length (dir_recent_changes_unix d)) (circuits_max_switches_per_hour (cs_circuits_cfg i))"
  using assms by (auto simp: decide_direction_def Let_def split: if_splits)

lemma side_switch_decided:
  fixes ctx m
  assumes "circuits_independent_directions (tk_circuits_cfg ctx)" and "at_side sd (tk_base_sqm ctx) = Cake"
  defines "t \<equiv> tick_transition ctx m"
  assumes "case sd of DownSide \<Rightarrow> changed_down t | UpSide \<Rightarrow> changed_up t"
  shows "(case sd of DownSide \<Rightarrow> proposed_down t | UpSide \<Rightarrow> proposed_up t) \<noteq> dir_desired (at_side sd m)"
    and "\<exists>s. decide_direction (sqm_input ctx m) (at_side sd (tk_qoo ctx)) (at_side sd m) = Some s"
  using assms
  by (cases sd; auto simp: tick_transition_def circuit_sqm_transition_from_decision_def Let_def propose_def
      treeguard_manages_circuit_direction_def decide_circuit_sqm_def sqm_input_def split: if_splits option.splits)+

text \<open>The refinement: on a side that TreeGuard manages by itself, a tick is a paced step.\<close>

lemma tick_circuit_paced:
  assumes "managed_independently sd dwell limit t"
  shows "paced_step dwell limit (tk_now_unix (fst t)) (pace_of (at_side sd state)) (pace_of (at_side sd (tick_circuit state t)))"
proof -
  obtain ctx rest where t: "t = (ctx, rest)" by (cases t)
  let ?d = "at_side sd state" and ?now = "tk_now_unix ctx"
  define m where "m = measured_state ctx state"
  define tr where "tr = tick_transition ctx m"
  define changed where "changed = (case sd of DownSide \<Rightarrow> changed_down tr | UpSide \<Rightarrow> changed_up tr)"
  have m: "pace_of (at_side sd m) = (dir_desired ?d, dir_last_change_unix ?d, prune_recent_changes (dir_recent_changes_unix ?d) ?now)"
    unfolding m_def by (rule pace_measured)
  have keep: "paced_step dwell limit ?now (pace_of ?d) (pace_of (at_side sd m))"
    unfolding m by (simp add: pace_of_def paced_step.keep)
  show ?thesis
  proof (cases "tick_circuit state t = m \<or> \<not> changed")
    case True
    then have "pace_of (at_side sd (tick_circuit state t)) = pace_of (at_side sd m)"
      using tick_circuit_cases [of state ctx rest] pace_record_switches [of sd ?now tr m]
      by (auto simp: t m_def [symmetric] tr_def [symmetric] changed_def Let_def split: prod.splits)
    with keep show ?thesis by (simp add: t)
  next
    case False
    then have eq: "tick_circuit state t = record_switches ?now tr m" and ch: changed
      using tick_circuit_cases [of state ctx rest] by (auto simp: t m_def tr_def)
    have cfg: "circuits_independent_directions (tk_circuits_cfg ctx)" "at_side sd (tk_base_sqm ctx) = Cake"
        "circuits_min_switch_dwell_minutes (tk_circuits_cfg ctx) = dwell" "circuits_max_switches_per_hour (tk_circuits_cfg ctx) = limit"
      using assms by (simp_all add: managed_independently_def t Let_def)
    note sw = side_switch_decided [OF cfg(1,2), of m, folded tr_def, OF ch [unfolded changed_def]]
    obtain s where "decide_direction (sqm_input ctx m) (at_side sd (tk_qoo ctx)) (at_side sd m) = Some s"
      using sw(2) by blast
    from decide_direction_paced [OF this]
    have "\<not> in_dwell_window ?now (dir_last_change_unix ?d) dwell"
        "\<not> rate_limited (length (prune_recent_changes (dir_recent_changes_unix ?d) ?now)) limit"
      using m cfg by (simp_all add: sqm_input_def pace_of_def)
    moreover have "pace_of (at_side sd (tick_circuit state t)) =
        (case sd of DownSide \<Rightarrow> proposed_down tr | UpSide \<Rightarrow> proposed_up tr, Some ?now,
         prune_recent_changes (prune_recent_changes (dir_recent_changes_unix ?d) ?now @ [?now]) ?now)"
      unfolding eq pace_record_switches m using ch by (simp add: changed_def)
    moreover have "dir_desired (at_side sd m) = dir_desired ?d" using m by (simp add: pace_of_def)
    ultimately show ?thesis using sw(1) by (simp add: t pace_of_def [of ?d] paced_step.switch)
  qed
qed

interpretation circuit_pace: paced "\<lambda>state. pace_of (at_side sd state)" tick_circuit "\<lambda>t. tk_now_unix (fst t)"
    "managed_independently sd dwell limit" dwell limit for sd dwell limit
  by unfold_locales (rule tick_circuit_paced)

text \<open>C40. Pacing, over any run of ticks of a circuit in the order of their times, whatever is measured,
  whichever writes and live changes fail and however the budget runs out: on a side that TreeGuard
  manages independently, two switches are at least the configured dwell apart, and no period of an
  hour holds more switches than the configured limit.\<close>

theorem circuit_switches_paced:
  assumes "dir_last_change_unix (at_side sd state) = None" and "dir_recent_changes_unix (at_side sd state) = []"
    and "list_all (managed_independently sd dwell limit) ticks" and "sorted (map (\<lambda>t. tk_now_unix (fst t)) ticks)"
  shows "let switches = map unat (switch_times (\<lambda>s. dir_desired (at_side sd s)) tick_circuit
           (\<lambda>t. tk_now_unix (fst t)) state ticks)
    in sorted_wrt (\<lambda>x y. x + 60 * unat dwell \<le> y) switches
       \<and> (\<forall>t. length (filter (\<lambda>x. x \<le> t \<and> t \<le> x + 3600) switches) \<le> unat limit)"
proof -
  have "paced_times dwell limit (switch_times (\<lambda>s. dir_desired (at_side sd s)) tick_circuit
      (\<lambda>t. tk_now_unix (fst t)) state ticks)"
    using circuit_pace.run_paced [of sd state dwell limit ticks] assms by (simp add: pace_of_def)
  then show ?thesis
    by (simp add: paced_times_def sorted_wrt_map length_filter_map o_def)
qed

definition sample_tick :: "u64 \<Rightarrow> circuit_tick" where
  "sample_tick now =
     (\<lparr>tk_now_unix = now, tk_now_nanos_since_boot = None, tk_cpu_max_pct = Some 90, tk_dry_run = True,
       tk_circuit_id = ''c'', tk_circuit_entity_id = ''c'', tk_circuit_label = ''c'', tk_devices = [default_device],
       tk_sqm_batch_id = ''sqm-1'', tk_allowlisted = True, tk_cap_down = Fin 100, tk_cap_up = Fin 100,
       tk_bps = \<lparr>down = 0, up = 0\<rparr>, tk_last_rtt_seen_nanos = None, tk_qoo = \<lparr>down = None, up = None\<rparr>,
       tk_cpu_cfg = default_cpu_config, tk_circuits_cfg = default_circuits_config, tk_qoo_cfg = default_qoo_config,
       tk_base_sqm = \<lparr>down = Cake, up = Cake\<rparr>\<rparr>,
      \<lambda>_ _. Inr True, \<lambda>_. Inr True, \<lambda>_ _ _. Inr (),
      \<lparr>sh_log = \<lparr>log_status = \<lparr>st_enabled = True, st_dry_run = True, st_paused_for_bakery_reload = False,
           st_pause_reason = None, st_cpu_max_pct = None, st_total_nodes = 0, st_total_circuits = 1,
           st_managed_nodes = 0, st_managed_circuits = 1, st_virtualized_nodes = 0, st_cake_circuits = 1,
           st_mixed_sqm_circuits = 0, st_fq_codel_circuits = 0, st_last_action_summary = None,
           st_warnings = []\<rparr>, log_activity = []\<rparr>,
       sh_managed_device_ids = {}, sh_circuit_change_budget_remaining = 512,
       sh_deferred_circuit_sqm_changes = 0\<rparr>)"

definition sample_direction :: CircuitDirectionState where
  "sample_direction = \<lparr>dir_desired = Cake, dir_last_change_unix = None, dir_recent_changes_unix = [],
     dir_util_ewma_pct = \<lparr>ewma_initialized = False, ewma_value = Fin 0\<rparr>, dir_idle_since_unix = Some 0\<rparr>"

definition idle_direction :: CircuitDirectionState where
  "idle_direction = sample_direction\<lparr>dir_util_ewma_pct := \<lparr>ewma_initialized = True, ewma_value = Fin 0\<rparr>\<rparr>"

lemma sample_measured:
  "measured_state (fst (sample_tick 10000)) \<lparr>down = sample_direction, up = sample_direction\<rparr>
     = \<lparr>down = idle_direction, up = idle_direction\<rparr>"
proof -
  have "util_pct 0 (Fin 100) = Fin 0"
    by (simp add: util_pct_def f64_of_u64_def f64_of_rat_def round_ieee_def round_nonneg_def)
  then show ?thesis
    by (simp add: measured_state_def sample_tick_def capacity_known_def measure_direction_def prune_direction_def
        ewma_update_def sample_direction_def idle_direction_def update_idle_since_def default_circuits_config_def)
qed

lemma sample_decision: "decide_direction (sqm_input (fst (sample_tick 10000)) m) None idle_direction = Some FqCodel"
  by (simp add: decide_direction_def sqm_input_def sample_tick_def idle_direction_def sample_direction_def
      default_circuits_config_def default_cpu_config_def default_qoo_config_def in_dwell_window_def rate_limited_def
      is_some_and_def cpu_allows_saving_def saturating_mul_def saturating_sub_def)

lemma sample_tick_circuit:
  "tick_circuit \<lparr>down = sample_direction, up = sample_direction\<rparr> (sample_tick 10000)
     = \<lparr>down = record_switch 10000 FqCodel idle_direction, up = record_switch 10000 FqCodel idle_direction\<rparr>"
proof -
  obtain ctx p c l sh where t: "sample_tick 10000 = (ctx, p, c, l, sh)" by (cases "sample_tick 10000")
  have fields: "tk_devices ctx \<noteq> []" "tk_dry_run ctx" "sh_circuit_change_budget_remaining sh = 512"
      "tk_now_unix ctx = 10000" "tk_base_sqm ctx = \<lparr>down = Cake, up = Cake\<rparr>" "capacity_known ctx"
    using t by (auto simp: sample_tick_def capacity_known_def)
  have "decide_circuit_sqm (sqm_input ctx \<lparr>down = idle_direction, up = idle_direction\<rparr>)
      = \<lparr>down = Some FqCodel, up = Some FqCodel\<rparr>"
    using sample_decision t
    by (auto simp: decide_circuit_sqm_def sqm_input_def sample_tick_def capacity_known_def default_circuits_config_def)
  then have tr: "circuit_sqm_transition_from_decision \<lparr>down = idle_direction, up = idle_direction\<rparr> (tk_base_sqm ctx)
        (decide_circuit_sqm (sqm_input ctx \<lparr>down = idle_direction, up = idle_direction\<rparr>))
      = \<lparr>proposed_down = FqCodel, proposed_up = FqCodel, changed_down = True, changed_up = True\<rparr>"
    by (simp add: fields circuit_sqm_transition_from_decision_def propose_def treeguard_manages_circuit_direction_def
        idle_direction_def sample_direction_def)
  have m: "measured_state ctx \<lparr>down = sample_direction, up = sample_direction\<rparr>
      = \<lparr>down = idle_direction, up = idle_direction\<rparr>"
    using sample_measured by (simp add: t)
  show ?thesis
    by (simp add: t tick_circuit_def process_circuit_tick_def Let_def m tr [unfolded fields(5)] fields try_consume_circuit_change_budget_def
        apply_circuit_sqm_change_def apply_context_def record_switches_def)
qed

lemma sample_fields:
  "tk_now_unix (fst (sample_tick n)) = n" "dir_desired sample_direction = Cake"
  "dir_desired (record_switch n s d) = s" "dir_last_change_unix sample_direction = None"
  "dir_recent_changes_unix sample_direction = []"
  by (simp_all add: sample_tick_def sample_direction_def record_switch_def)

lemma circuit_switches_paced_witness:
  "let state = \<lparr>down = sample_direction, up = sample_direction\<rparr>;
       switches = switch_times (\<lambda>s. dir_desired (at_side DownSide s)) tick_circuit (\<lambda>t. tk_now_unix (fst t))
         state [sample_tick 10000]
   in switches = [10000]
      \<and> (\<forall>t. length (filter (\<lambda>x. x \<le> t \<and> t \<le> x + 3600) (map unat switches)) \<le> unat (4 :: u32))"
proof -
  let ?state = "\<lparr>down = sample_direction, up = sample_direction\<rparr>"
  have "list_all (managed_independently DownSide 30 4) [sample_tick 10000]"
    by (simp add: managed_independently_def sample_tick_def default_circuits_config_def)
  moreover have "switch_times (\<lambda>s. dir_desired (at_side DownSide s)) tick_circuit (\<lambda>t. tk_now_unix (fst t))
      ?state [sample_tick 10000] = [10000]"
    by (simp add: sample_tick_circuit sample_fields)
  ultimately show ?thesis
    using circuit_switches_paced [of DownSide ?state 30 4 "[sample_tick 10000]"]
    by (simp add: sample_fields)
qed

text \<open>
  The joint decision, taken when the directions are not independent, does not look at the last switch
  or the recent ones: neither the dwell nor the hourly limit of the settings holds it back.
\<close>

lemma joint_decision_unpaced:
  assumes "\<not> circuits_independent_directions (cs_circuits_cfg i)"
  shows "decide_circuit_sqm (i\<lparr>cs_state := \<lparr>
       down = d\<lparr>dir_last_change_unix := l, dir_recent_changes_unix := r\<rparr>,
       up = u\<lparr>dir_last_change_unix := l', dir_recent_changes_unix := r'\<rparr>\<rparr>\<rparr>)
     = decide_circuit_sqm (i\<lparr>cs_state := \<lparr>down = d, up = u\<rparr>\<rparr>)"
  using assms by (simp add: decide_circuit_sqm_def decide_joint_def Let_def)

section \<open>The sweep over the enrolled circuits\<close>

text \<open>The circuits evaluated in \<open>k\<close> ticks over the same enrolled circuits, in order.\<close>

fun sweep :: "string list \<Rightarrow> bool \<Rightarrow> usize \<Rightarrow> nat \<Rightarrow> string list \<times> usize" where
  "sweep enrolled all_circuits cursor 0 = ([], cursor)"
| "sweep enrolled all_circuits cursor (Suc k) =
     (let (batch, cursor) = collect_circuit_batch enrolled cursor
            (circuit_evaluation_batch_size (length enrolled) all_circuits);
          (rest, cursor) = sweep enrolled all_circuits cursor k
      in (batch @ rest, cursor))"

text \<open>The circuits met when walking \<open>m\<close> places around the list from \<open>c\<close>.\<close>

definition around :: "'a list \<Rightarrow> nat \<Rightarrow> nat \<Rightarrow> 'a list" where
  "around xs c m = map (\<lambda>j. xs ! ((c + j) mod length xs)) [0..<m]"

lemma around_add: "around xs c (m + n) = around xs c m @ around xs ((c + m) mod length xs) n"
proof -
  have "map (\<lambda>j. xs ! ((c + j) mod length xs)) [m..<m + n]
      = map (\<lambda>j. xs ! (((c + m) mod length xs + j) mod length xs)) [0..<n]"
    by (rule nth_equalityI) (simp_all add: mod_add_left_eq mod_add_right_eq ac_simps)
  then show ?thesis by (simp add: around_def upt_add_eq_append [of 0 m n, simplified])
qed

lemma around_Suc: "around xs c (Suc m) = xs ! (c mod length xs) # around xs (Suc c mod length xs) m"
  using around_add [of xs c 1 m] by (simp add: around_def)

lemma batch_loop_around:
  "index < length xs \<Longrightarrow> batch_loop xs m index batch = (batch @ around xs index m, (index + m) mod length xs)"
proof (induction m arbitrary: index batch)
  case (Suc m)
  have "batch_loop xs (Suc m) index batch = batch_loop xs m (Suc index mod length xs) (batch @ [xs ! index])"
    using Suc.prems by (cases "Suc index = length xs") (auto simp: Let_def)
  moreover have "Suc index mod length xs < length xs" using Suc.prems by (intro mod_less_divisor) auto
  ultimately show ?case
    using Suc by (simp add: around_Suc mod_add_left_eq)
qed (simp add: around_def)

lemma collect_circuit_batch_around:
  fixes cursor xs
  assumes "xs \<noteq> []" and "0 < b" and "b \<le> length xs"
  defines "c \<equiv> (if cursor \<ge> length xs then 0 else cursor)"
  shows "collect_circuit_batch xs cursor b = (around xs c b, (c + b) mod length xs)" and "c < length xs"
  using assms by (auto simp: collect_circuit_batch_def batch_loop_around)

lemma batch_size_bounds:
  assumes "0 < n"
  shows "0 < circuit_evaluation_batch_size n b" "circuit_evaluation_batch_size n b \<le> n"
    "n \<le> 15 * circuit_evaluation_batch_size n b"
proof -
  have "n \<le> 15 * div_ceil n 15" by (auto simp: div_ceil_def)
  then show "0 < circuit_evaluation_batch_size n b" "circuit_evaluation_batch_size n b \<le> n"
    "n \<le> 15 * circuit_evaluation_batch_size n b"
    using assms
    by (auto simp: circuit_evaluation_batch_size_def TREEGUARD_CIRCUIT_TARGET_SWEEP_SECONDS_def
        TREEGUARD_CIRCUIT_MIN_BATCH_SIZE_def Let_def min_def max_def)
qed

lemma sweep_around:
  fixes cursor xs all_circuits
  assumes "xs \<noteq> []"
  defines "b \<equiv> circuit_evaluation_batch_size (length xs) all_circuits"
    and "c \<equiv> (if cursor \<ge> length xs then 0 else cursor)"
  shows "fst (sweep xs all_circuits cursor k) = around xs c (k * b)"
  unfolding c_def
proof (induction k arbitrary: cursor)
  case (Suc k)
  define c where "c = (if cursor \<ge> length xs then 0 else cursor)"
  have b: "0 < b" "b \<le> length xs" using batch_size_bounds [of "length xs" all_circuits] assms(1) by (simp_all add: b_def)
  note batch = collect_circuit_batch_around [OF assms(1) b, of cursor, folded c_def]
  have "\<not> length xs \<le> (c + b) mod length xs" using assms(1) by (simp add: not_le)
  then show ?case
    using Suc.IH [of "(c + b) mod length xs"]
    by (simp add: b_def [symmetric] batch c_def [symmetric] around_add [of xs c b "k * b"] case_prod_beta)
qed (simp add: around_def)

lemma set_around:
  assumes "c < length xs" and "length xs \<le> m"
  shows "set (around xs c m) = set xs"
proof
  show "set (around xs c m) \<subseteq> set xs" using assms by (auto simp: around_def intro!: nth_mem mod_less_divisor)
  show "set xs \<subseteq> set (around xs c m)"
  proof
    fix x
    assume "x \<in> set xs"
    then obtain i where i: "i < length xs" "x = xs ! i" by (auto simp: in_set_conv_nth)
    define j where "j = (if c \<le> i then i - c else i + length xs - c)"
    have "j < m" "(c + j) mod length xs = i" using assms i by (auto simp: j_def)
    then show "x \<in> set (around xs c m)" using i by (force simp: around_def)
  qed
qed

text \<open>C14. Every enrolled circuit is evaluated again and again: whatever the cursor, the ticks of one
  target sweep together evaluate exactly the enrolled circuits, each tick a batch of the computed size,
  whether all circuits are enrolled or an allowlist.\<close>

theorem sweep_evaluates_all:
  "set (fst (sweep enrolled all_circuits cursor TREEGUARD_CIRCUIT_TARGET_SWEEP_SECONDS)) = set enrolled
   \<and> length (fst (collect_circuit_batch enrolled cursor (circuit_evaluation_batch_size (length enrolled) all_circuits)))
     = circuit_evaluation_batch_size (length enrolled) all_circuits"
proof (cases "enrolled = []")
  case True
  have "fst (sweep [] all_circuits c k) = []" for c k
    by (induction k arbitrary: c) (simp_all add: collect_circuit_batch_def case_prod_beta Let_def)
  then show ?thesis using True by (simp add: collect_circuit_batch_def circuit_evaluation_batch_size_def)
next
  case False
  let ?b = "circuit_evaluation_batch_size (length enrolled) all_circuits"
  have b: "0 < ?b" "?b \<le> length enrolled" "length enrolled \<le> 15 * ?b"
    using batch_size_bounds [of "length enrolled"] False by simp_all
  note batch = collect_circuit_batch_around [OF False b(1,2), of cursor]
  show ?thesis
    using set_around [OF batch(2) b(3)]
    by (simp add: sweep_around [OF False] TREEGUARD_CIRCUIT_TARGET_SWEEP_SECONDS_def batch(1))
      (simp add: around_def)
qed

section \<open>The override token\<close>

text \<open>The token written to the overrides file names the disciplines it is read back as.\<close>

lemma sqm_override_round_trip:
  "parse_directional_sqm_override (format_directional_sqm_override d u) = \<lparr>down = Some d, up = Some u\<rparr>"
  by (induct d; induct u) code_simp+

end
