(* ===== verification/Float_Rounding.thy ===== *)
theory Float_Rounding
  imports Rust_Float
begin

text \<open>
  Order properties of rounding: it is monotone, it leaves a representable value alone, and the
  operations inherit both. Comparisons of the program's floats are reasoned about with these.
\<close>

section \<open>The order\<close>

lemma ieee_le_trans: "x \<le> y \<Longrightarrow> y \<le> z \<Longrightarrow> x \<le> (z :: ieee)"
  by (cases x; cases y; cases z) simp_all

lemma ieee_le_refl: "x \<noteq> NaN \<Longrightarrow> x \<le> (x :: ieee)"
  by (cases x) simp_all

lemma ieee_le_imp_not_NaN: "x \<le> (y :: ieee) \<Longrightarrow> x \<noteq> NaN \<and> y \<noteq> NaN"
  by (cases x; cases y) simp_all

lemma neg_ieee_le: "neg_ieee x \<le> neg_ieee y \<longleftrightarrow> y \<le> x"
  by (cases x; cases y) (simp_all add: neg_ieee_def)

lemma Fin_le_iff [simp]: "(Fin a \<le> Fin b) \<longleftrightarrow> a \<le> b" "(Fin a < Fin b) \<longleftrightarrow> a < b"
  by simp_all

section \<open>Rounding is monotone\<close>

lemma round_half_even_mono:
  assumes "q \<le> r"
  shows "round_half_even q \<le> round_half_even r"
proof (cases "\<lfloor>q\<rfloor> = \<lfloor>r\<rfloor>")
  case True
  then show ?thesis using assms by (auto simp: round_half_even_def Let_def)
next
  case False
  then have "\<lfloor>q\<rfloor> + 1 \<le> \<lfloor>r\<rfloor>" using floor_mono [OF assms] by simp
  moreover have "round_half_even q \<le> \<lfloor>q\<rfloor> + 1" "\<lfloor>r\<rfloor> \<le> round_half_even r"
    by (simp_all add: round_half_even_def Let_def)
  ultimately show ?thesis by linarith
qed

lemma round_half_even_int [simp]: "round_half_even (of_int m) = m"
  by (simp add: round_half_even_def)

lemma round_half_even_0 [simp]: "round_half_even 0 = 0"
  by (simp add: round_half_even_def)

lemma rat_exponent_mono:
  assumes "0 < q" "q \<le> r"
  shows "rat_exponent q \<le> rat_exponent r"
proof -
  have "pow2 (rat_exponent q) < pow2 (rat_exponent r + 1)"
    using rat_exponent_bounds [OF assms(1)] rat_exponent_bounds [of r] assms by linarith
  then show ?thesis using pow2_less_iff by fastforce
qed

text \<open>The value before the overflow check, and the exponent it is scaled to.\<close>

definition scale_of :: "int \<Rightarrow> rat \<Rightarrow> int" where
  "scale_of emin q = max emin (rat_exponent q)"

definition scaled :: "nat \<Rightarrow> int \<Rightarrow> rat \<Rightarrow> rat" where
  "scaled p emin q = of_int (round_half_even (q / pow2 (scale_of emin q - (int p - 1))))
     * pow2 (scale_of emin q - (int p - 1))"

lemma round_nonneg_scaled:
  "round_nonneg p emin emax q =
    (if q = 0 then Fin 0 else if scaled p emin q < pow2 (emax + 1) then Fin (scaled p emin q) else PosInf)"
  by (simp add: round_nonneg_def scaled_def scale_of_def Let_def)

lemma power_times_ulp: "of_int (2 ^ k) * pow2 (e - int k) = pow2 e"
proof -
  have "(of_int (2 ^ k) :: rat) = pow2 (int k)" by (simp add: pow2_def)
  then show ?thesis by (simp add: pow2_add [symmetric])
qed

lemma scaled_le: assumes "0 < q" "0 < p" shows "scaled p emin q \<le> pow2 (scale_of emin q + 1)"
proof -
  let ?e = "scale_of emin q"
  let ?ulp = "pow2 (?e - (int p - 1))"
  have u: "of_int (2 ^ p) * ?ulp = pow2 (?e + 1)" using power_times_ulp [of p "?e + 1"] by (simp add: algebra_simps)
  have "pow2 (rat_exponent q + 1) \<le> pow2 (?e + 1)" by (intro pow2_mono) (simp add: scale_of_def)
  then have "q \<le> of_int (2 ^ p) * ?ulp" using rat_exponent_bounds(2) [OF assms(1)] unfolding u by linarith
  then have "q / ?ulp \<le> of_int (2 ^ p)" by (simp add: pos_divide_le_eq)
  then have "round_half_even (q / ?ulp) \<le> 2 ^ p"
    by (rule round_half_even_between(2) [OF _, rotated]) (rule of_int_floor_le)
  then have "of_int (round_half_even (q / ?ulp)) * ?ulp \<le> of_int (2 ^ p) * ?ulp"
    by (intro mult_right_mono) (simp_all add: less_imp_le del: of_int_power)
  then show ?thesis unfolding u scaled_def .
qed

lemma scaled_ge:
  assumes "0 < q" "0 < p" "emin \<le> rat_exponent q"
  shows "pow2 (rat_exponent q) \<le> scaled p emin q"
proof -
  let ?e = "rat_exponent q"
  let ?ulp = "pow2 (?e - (int p - 1))"
  have e: "scale_of emin q = ?e" using assms(3) by (simp add: scale_of_def)
  have u: "of_int (2 ^ (p - 1)) * ?ulp = pow2 ?e"
    using power_times_ulp [of "p - 1" ?e] assms(2) by (simp add: of_nat_diff)
  have "of_int (2 ^ (p - 1)) \<le> q / ?ulp"
    using rat_exponent_bounds(1) [OF assms(1)] u by (simp add: pos_le_divide_eq)
  then have "2 ^ (p - 1) \<le> round_half_even (q / ?ulp)"
    using round_half_even_mono [of "of_int (2 ^ (p - 1))" "q / ?ulp"] by (simp del: of_int_power)
  then have "of_int (2 ^ (p - 1)) * ?ulp \<le> of_int (round_half_even (q / ?ulp)) * ?ulp"
    by (intro mult_right_mono) (simp_all add: less_imp_le del: of_int_power)
  then show ?thesis unfolding u scaled_def e .
qed

lemma scaled_nonneg: "0 < q \<Longrightarrow> 0 \<le> scaled p emin q"
proof -
  assume "0 < q"
  then have "0 \<le> q / pow2 (scale_of emin q - (int p - 1))" by (simp add: less_imp_le)
  then have "0 \<le> round_half_even (q / pow2 (scale_of emin q - (int p - 1)))"
    using round_half_even_mono [of 0 "q / pow2 (scale_of emin q - (int p - 1))"] by simp
  then show ?thesis by (simp add: scaled_def less_imp_le)
qed

lemma scaled_mono:
  assumes "0 < q" "q \<le> r" "0 < p"
  shows "scaled p emin q \<le> scaled p emin r"
proof (cases "scale_of emin q = scale_of emin r")
  case True
  let ?ulp = "pow2 (scale_of emin r - (int p - 1))"
  have "q / ?ulp \<le> r / ?ulp" using assms(2) by (simp add: divide_right_mono less_imp_le)
  then have "of_int (round_half_even (q / ?ulp)) * ?ulp \<le> of_int (round_half_even (r / ?ulp)) * ?ulp"
    by (intro mult_right_mono) (simp_all add: round_half_even_mono less_imp_le)
  then show ?thesis by (simp add: scaled_def True)
next
  case False
  then have lt: "scale_of emin q < scale_of emin r" and e: "emin \<le> rat_exponent r"
    "scale_of emin r = rat_exponent r"
    using rat_exponent_mono [OF assms(1,2)] by (auto simp: scale_of_def)
  have "scaled p emin q \<le> pow2 (scale_of emin q + 1)" using assms by (intro scaled_le)
  also have "\<dots> \<le> pow2 (rat_exponent r)" using lt e by (intro pow2_mono) simp
  also have "\<dots> \<le> scaled p emin r" using assms e by (intro scaled_ge) simp_all
  finally show ?thesis .
qed

lemma round_nonneg_mono:
  assumes "0 \<le> q" "q \<le> r" "0 < p"
  shows "round_nonneg p emin emax q \<le> round_nonneg p emin emax r"
proof (cases "q = 0")
  case True
  then show ?thesis using assms scaled_nonneg [of r p emin] by (auto simp: round_nonneg_scaled)
next
  case False
  then show ?thesis using assms scaled_mono [of q r p emin] by (auto simp: round_nonneg_scaled)
qed

lemma round_nonneg_ge_0: "0 \<le> q \<Longrightarrow> Fin 0 \<le> round_nonneg p emin emax q"
  using scaled_nonneg [of q p emin] by (auto simp: round_nonneg_scaled)

lemma round_ieee_mono:
  assumes "q \<le> r" "0 < p"
  shows "round_ieee p emin emax q \<le> round_ieee p emin emax r"
proof -
  consider "0 \<le> q" | "q < 0" "0 \<le> r" | "r < 0" using assms by linarith
  then show ?thesis
  proof cases
    case 1
    with assms show ?thesis by (simp add: round_ieee_def round_nonneg_mono)
  next
    case 2
    have "neg_ieee (round_nonneg p emin emax (- q)) \<le> neg_ieee (Fin 0)"
      using 2 by (subst neg_ieee_le) (simp add: round_nonneg_ge_0)
    moreover have "neg_ieee (Fin 0) = Fin 0" by (simp add: neg_ieee_def)
    ultimately show ?thesis
      using 2 round_nonneg_ge_0 [of r p emin emax] by (auto simp: round_ieee_def intro: ieee_le_trans)
  next
    case 3
    with assms show ?thesis by (simp add: round_ieee_def neg_ieee_le round_nonneg_mono)
  qed
qed

section \<open>Representable values\<close>

lemma rat_exponent_less: "0 < q \<Longrightarrow> q < pow2 e \<Longrightarrow> rat_exponent q < e"
  using rat_exponent_bounds(1) [of q] pow2_less_iff [of "rat_exponent q" e] by linarith

lemma pow2_nat_int: "0 \<le> k \<Longrightarrow> pow2 k = of_int (2 ^ nat k)"
  by (simp add: pow2_def)

lemma scaled_exact:
  assumes q: "q = of_int m * pow2 k" "0 < q" and m: "m \<le> 2 ^ p" and k: "emin - (int p - 1) \<le> k"
    and below: "q < pow2 (k + int p)"
  shows "scaled p emin q = q"
proof -
  define u where "u = scale_of emin q - (int p - 1)"
  have "rat_exponent q < k + int p" using q(2) below by (rule rat_exponent_less)
  then have u: "u \<le> k" using k by (simp add: u_def scale_of_def)
  have nz: "pow2 u \<noteq> 0" using pow2_pos [of u] by linarith
  have "pow2 k = pow2 (k - u) * pow2 u" by (simp add: pow2_add [symmetric])
  then have qu: "q = of_int (m * 2 ^ nat (k - u)) * pow2 u"
    using u by (simp add: q(1) pow2_nat_int)
  then have "q / pow2 u = of_int (m * 2 ^ nat (k - u))" using nz by (subst nonzero_divide_eq_eq)
  then have "round_half_even (q / pow2 u) = m * 2 ^ nat (k - u)" by (simp only: round_half_even_int)
  then show ?thesis unfolding scaled_def u_def [symmetric] using qu by (simp only:)
qed

lemma round_ieee_nat:
  assumes "n < 2 ^ p" "emin \<le> 0" "int p \<le> emax" "0 < p"
  shows "round_ieee p emin emax (of_nat n) = Fin (of_nat n)"
proof (cases "n = 0")
  case False
  have lt: "(of_nat n :: rat) < pow2 (int p)"
  proof -
    have "(of_nat n :: rat) < of_nat (2 ^ p)" using assms(1) by (subst of_nat_less_iff)
    then show ?thesis by (simp add: pow2_def)
  qed
  have "int n \<le> 2 ^ p" using assms(1) by (metis of_nat_less_iff of_nat_power of_nat_numeral less_imp_le)
  then have "scaled p emin (of_nat n) = of_nat n"
    using assms False lt by (intro scaled_exact [where m = "int n" and k = 0]) simp_all
  moreover have "pow2 (int p) \<le> pow2 (emax + 1)" using assms(3) by (intro pow2_mono) simp
  ultimately show ?thesis using lt False by (simp add: round_ieee_def round_nonneg_scaled)
qed (simp add: round_ieee_def round_nonneg_def)

section \<open>Arithmetic on \<open>f64\<close>\<close>

lemma f64_of_rat_mono: "q \<le> r \<Longrightarrow> f64_of_rat q \<le> f64_of_rat r"
  by (simp add: f64_of_rat_def round_ieee_mono)

lemma f64_of_rat_nat: "n < 2 ^ 53 \<Longrightarrow> f64_of_rat (of_nat n) = Fin (of_nat n)"
  by (simp add: f64_of_rat_def round_ieee_nat)

lemma f64_of_rat_0 [simp]: "f64_of_rat 0 = Fin 0"
  by (simp add: f64_of_rat_def round_ieee_def round_nonneg_def)

lemma f64_of_rat_not_NaN [simp]: "f64_of_rat q \<noteq> NaN"
  by (auto simp: f64_of_rat_def round_ieee_def round_nonneg_scaled neg_ieee_def)

lemma f64_of_rat_ge_0: "0 \<le> q \<Longrightarrow> Fin 0 \<le> f64_of_rat q"
  using f64_of_rat_mono [of 0 q] by simp

lemma f64_of_rat_le_nat: "q \<le> of_nat n \<Longrightarrow> n < 2 ^ 53 \<Longrightarrow> f64_of_rat q \<le> Fin (of_nat n)"
  using f64_of_rat_mono [of q "of_nat n"] by (simp add: f64_of_rat_nat)

lemma f64_of_rat_ge_nat: "of_nat n \<le> q \<Longrightarrow> n < 2 ^ 53 \<Longrightarrow> Fin (of_nat n) \<le> f64_of_rat q"
  using f64_of_rat_mono [of "of_nat n" q] by (simp add: f64_of_rat_nat)

lemma neg_inf_le: "y \<noteq> NaN \<Longrightarrow> NegInf \<le> y" and le_pos_inf: "y \<noteq> NaN \<Longrightarrow> y \<le> PosInf"
  by (cases y; simp)+

lemma f64_sub_antimono: "y \<le> z \<Longrightarrow> f64_sub (Fin a) z \<le> f64_sub (Fin a) y"
  by (cases y; cases z) (simp_all add: f64_sub_def neg_ieee_def f64_of_rat_mono neg_inf_le le_pos_inf)

lemma f64_sub_mono: "x \<le> y \<Longrightarrow> f64_sub x (Fin a) \<le> f64_sub y (Fin a)"
  by (cases x; cases y) (simp_all add: f64_sub_def neg_ieee_def f64_of_rat_mono neg_inf_le le_pos_inf)

lemma f64_mul_mono: "0 < a \<Longrightarrow> x \<le> y \<Longrightarrow> f64_mul (Fin a) x \<le> f64_mul (Fin a) y"
  by (cases x; cases y)
    (simp_all add: Let_def ieee_sign_def f64_of_rat_mono mult_left_mono neg_inf_le le_pos_inf)

lemma f64_div_mono: "0 < d \<Longrightarrow> x \<le> y \<Longrightarrow> f64_div x (Fin d) \<le> f64_div y (Fin d)"
  by (cases x; cases y)
    (simp_all add: f64_of_rat_mono divide_right_mono neg_inf_le le_pos_inf)

end
