(* ===== verification/Rtt_Buffer.thy ===== *)
theory Rtt_Buffer
  imports LQ_Prelude
begin

text \<open>
  Round-trip-time histograms (\<open>src/src/rust/lqos_utils/src/rtt\<close>): a reading is a number of
  nanoseconds, a buffer keeps for each direction a histogram of 38 buckets over the buffer's life, a
  second one over a window of ten seconds, and the best and worst reading. Counts saturate; sums and
  the product of a percentile with a count are computed in \<open>u32\<close> and wrap around.
\<close>

section \<open>Readings\<close>

datatype RttData = RttData (as_nanos: u64)

text \<open>The derived order compares the nanoseconds.\<close>

instantiation RttData :: linorder
begin

definition less_eq_RttData :: "RttData \<Rightarrow> RttData \<Rightarrow> bool" where
  "less_eq_RttData a b \<longleftrightarrow> as_nanos a \<le> as_nanos b"

definition less_RttData :: "RttData \<Rightarrow> RttData \<Rightarrow> bool" where
  "less_RttData a b \<longleftrightarrow> as_nanos a < as_nanos b"

instance
  by standard (auto simp: less_eq_RttData_def less_RttData_def RttData.expand)

end

datatype FlowbeeEffectiveDirection = Download | Upload

section \<open>Buckets\<close>

abbreviation (input) NS_PER_MS :: nat where "NS_PER_MS \<equiv> 1000000"
abbreviation (input) OFFSET_1MS :: usize where "OFFSET_1MS \<equiv> 0"
abbreviation (input) OFFSET_2MS :: usize where "OFFSET_2MS \<equiv> OFFSET_1MS + 10"
abbreviation (input) OFFSET_5MS :: usize where "OFFSET_5MS \<equiv> OFFSET_2MS + 5"

record RttBufferBucket =
  current_bucket :: "u32 list"
  total_bucket :: "u32 list"
  current_bucket_start_time_nanos :: u64
  best_rtt :: "RttData option"
  worst_rtt :: "RttData option"
  bucket_has_new_data :: bool

definition default_bucket :: RttBufferBucket where
  "default_bucket = \<lparr>current_bucket = replicate 38 0, total_bucket = replicate 38 0,
     current_bucket_start_time_nanos = 0, best_rtt = None, worst_rtt = None,
     bucket_has_new_data = False\<rparr>"

definition bucket_of :: "RttData \<Rightarrow> usize" where
  "bucket_of rtt = (let ms = unat (as_nanos rtt) div NS_PER_MS in
     if ms \<le> 9 then OFFSET_1MS + ms
     else if ms \<le> 19 then OFFSET_2MS + (ms - 10) div 2
     else if ms \<le> 24 then OFFSET_5MS
     else if ms \<le> 29 then OFFSET_5MS + 1
     else if ms \<le> 34 then OFFSET_5MS + 2
     else if ms \<le> 39 then OFFSET_5MS + 3
     else if ms \<le> 44 then OFFSET_5MS + 4
     else if ms \<le> 49 then OFFSET_5MS + 5
     else if ms \<le> 59 then OFFSET_5MS + 6
     else if ms \<le> 69 then OFFSET_5MS + 7
     else if ms \<le> 79 then OFFSET_5MS + 8
     else if ms \<le> 89 then OFFSET_5MS + 9
     else if ms \<le> 99 then OFFSET_5MS + 10
     else if ms \<le> 119 then OFFSET_5MS + 11
     else if ms \<le> 139 then OFFSET_5MS + 12
     else if ms \<le> 159 then OFFSET_5MS + 13
     else if ms \<le> 179 then OFFSET_5MS + 14
     else if ms \<le> 199 then OFFSET_5MS + 15
     else if ms \<le> 249 then OFFSET_5MS + 16
     else if ms \<le> 299 then OFFSET_5MS + 17
     else if ms \<le> 399 then OFFSET_5MS + 18
     else if ms \<le> 499 then OFFSET_5MS + 19
     else if ms \<le> 749 then OFFSET_5MS + 20
     else if ms \<le> 999 then OFFSET_5MS + 21
     else OFFSET_5MS + 22)"

text \<open>The arms of the match on the bucket index, in order, in milliseconds; the last arm is the wildcard.\<close>

definition bucket_upper_bound_nanos :: "usize \<Rightarrow> u64" where
  "bucket_upper_bound_nanos idx =
     (let limits = [1, 2, 3, 4, 5, 6, 7, 8, 9, 10, 12, 14, 16, 18, 20, 25, 30, 35, 40, 45, 50,
                    60, 70, 80, 90, 100, 120, 140, 160, 180, 200, 250, 300, 400, 500, 750, 1000]
      in (if idx < length limits then limits ! idx else 1000) * 1000000)"

fun min_option :: "'a::linorder option \<Rightarrow> 'a option \<Rightarrow> 'a option" where
  "min_option (Some a) (Some b) = Some (min a b)"
| "min_option None (Some b) = Some b"
| "min_option (Some a) None = Some a"
| "min_option None None = None"

fun max_option :: "'a::linorder option \<Rightarrow> 'a option \<Rightarrow> 'a option" where
  "max_option (Some a) (Some b) = Some (max a b)"
| "max_option None (Some b) = Some b"
| "max_option (Some a) None = Some a"
| "max_option None None = None"

definition earlier_start :: "u64 \<Rightarrow> u64 \<Rightarrow> u64" where
  "earlier_start d s = (if d = 0 then s else if s = 0 then d else min d s)"

definition accumulate_bucket :: "RttBufferBucket \<Rightarrow> RttBufferBucket \<Rightarrow> RttBufferBucket" where
  "accumulate_bucket dst src =
     \<lparr>current_bucket = map2 saturating_add (current_bucket dst) (current_bucket src),
      total_bucket = map2 saturating_add (total_bucket dst) (total_bucket src),
      current_bucket_start_time_nanos =
        earlier_start (current_bucket_start_time_nanos dst) (current_bucket_start_time_nanos src),
      best_rtt = min_option (best_rtt dst) (best_rtt src),
      worst_rtt = max_option (worst_rtt dst) (worst_rtt src),
      bucket_has_new_data = (bucket_has_new_data dst \<or> bucket_has_new_data src)\<rparr>"

section \<open>Buffers\<close>

datatype RttBucket = Current | Total

record RttBuffer =
  last_seen :: u64
  download_bucket :: RttBufferBucket
  upload_bucket :: RttBufferBucket

definition default_buffer :: RttBuffer where
  "default_buffer = \<lparr>last_seen = 0, download_bucket = default_bucket, upload_bucket = default_bucket\<rparr>"

fun pick_bucket :: "RttBuffer \<Rightarrow> FlowbeeEffectiveDirection \<Rightarrow> RttBufferBucket" where
  "pick_bucket self Download = download_bucket self"
| "pick_bucket self Upload = upload_bucket self"

text \<open>The update through the mutable reference \<open>pick_bucket_mut\<close> returns.\<close>

fun update_bucket ::
  "FlowbeeEffectiveDirection \<Rightarrow> (RttBufferBucket \<Rightarrow> RttBufferBucket) \<Rightarrow> RttBuffer \<Rightarrow> RttBuffer" where
  "update_bucket Download f self = self\<lparr>download_bucket := f (download_bucket self)\<rparr>"
| "update_bucket Upload f self = self\<lparr>upload_bucket := f (upload_bucket self)\<rparr>"

definition clear :: "RttBuffer \<Rightarrow> RttBuffer" where
  "clear self = default_buffer"

definition accumulate :: "RttBuffer \<Rightarrow> RttBuffer \<Rightarrow> RttBuffer" where
  "accumulate self other =
     \<lparr>last_seen = max (last_seen self) (last_seen other),
      download_bucket = accumulate_bucket (download_bucket self) (download_bucket other),
      upload_bucket = accumulate_bucket (upload_bucket self) (upload_bucket other)\<rparr>"

definition accumulate_direction ::
  "RttBuffer \<Rightarrow> RttBuffer \<Rightarrow> FlowbeeEffectiveDirection \<Rightarrow> RttBuffer" where
  "accumulate_direction self other direction =
     (let self = self\<lparr>last_seen := max (last_seen self) (last_seen other)\<rparr> in
      case direction of
        Download \<Rightarrow> self\<lparr>download_bucket := accumulate_bucket (download_bucket self) (download_bucket other)\<rparr>
      | Upload \<Rightarrow> self\<lparr>upload_bucket := accumulate_bucket (upload_bucket self) (upload_bucket other)\<rparr>)"

definition clear_freshness :: "RttBuffer \<Rightarrow> RttBuffer" where
  "clear_freshness self = self
     \<lparr>download_bucket := (download_bucket self)\<lparr>bucket_has_new_data := False\<rparr>,
      upload_bucket := (upload_bucket self)\<lparr>bucket_has_new_data := False\<rparr>\<rparr>"

definition has_new_data :: "RttBuffer \<Rightarrow> bool" where
  "has_new_data self \<longleftrightarrow>
     bucket_has_new_data (download_bucket self) \<or> bucket_has_new_data (upload_bucket self)"

definition snapshot_if_new_data :: "RttBuffer \<Rightarrow> RttBuffer option" where
  "snapshot_if_new_data self = (if has_new_data self then Some self else None)"

definition merge_fresh_from :: "RttBuffer \<Rightarrow> RttBuffer \<Rightarrow> RttBuffer" where
  "merge_fresh_from self incoming =
     \<lparr>last_seen = last_seen incoming,
      download_bucket = (if bucket_has_new_data (download_bucket incoming)
        then download_bucket incoming else download_bucket self),
      upload_bucket = (if bucket_has_new_data (upload_bucket incoming)
        then upload_bucket incoming else upload_bucket self)\<rparr>"

definition new_buffer :: "RttData \<Rightarrow> FlowbeeEffectiveDirection \<Rightarrow> u64 \<Rightarrow> RttBuffer" where
  "new_buffer reading direction seen =
     update_bucket direction
       (\<lambda>b. let i = bucket_of reading in b
          \<lparr>current_bucket := (current_bucket b)[i := current_bucket b ! i + 1],
           total_bucket := (total_bucket b)[i := total_bucket b ! i + 1],
           current_bucket_start_time_nanos := seen, best_rtt := Some reading,
           worst_rtt := Some reading, bucket_has_new_data := True\<rparr>)
       \<lparr>last_seen = seen, download_bucket = default_bucket, upload_bucket = default_bucket\<rparr>"

abbreviation (input) BUCKET_TIME_NANOS :: u64 where "BUCKET_TIME_NANOS \<equiv> 10000000000"

text \<open>The window: started by its first reading, and restarted empty when it has elapsed.\<close>

definition rotate_window :: "u64 \<Rightarrow> RttBufferBucket \<Rightarrow> RttBufferBucket" where
  "rotate_window seen b =
     (let b = (if current_bucket_start_time_nanos b = 0
               then b\<lparr>current_bucket_start_time_nanos := seen\<rparr> else b)
      in if saturating_sub seen (current_bucket_start_time_nanos b) > BUCKET_TIME_NANOS
         then b\<lparr>current_bucket_start_time_nanos := seen,
                 current_bucket := replicate (length (current_bucket b)) 0\<rparr>
         else b)"

definition push_bucket :: "RttData \<Rightarrow> u64 \<Rightarrow> RttBufferBucket \<Rightarrow> RttBufferBucket" where
  "push_bucket reading seen b =
     (let b = rotate_window seen b; i = bucket_of reading in b
      \<lparr>current_bucket := (current_bucket b)[i := saturating_add (current_bucket b ! i) 1],
       total_bucket := (total_bucket b)[i := saturating_add (total_bucket b ! i) 1],
       bucket_has_new_data := True,
       worst_rtt := (case worst_rtt b of
           Some other_max \<Rightarrow> Some (RttData (max (as_nanos other_max) (as_nanos reading)))
         | None \<Rightarrow> Some reading),
       best_rtt := (case best_rtt b of
           Some other_min \<Rightarrow> Some (RttData (min (as_nanos other_min) (as_nanos reading)))
         | None \<Rightarrow> Some reading)\<rparr>)"

definition push :: "RttBuffer \<Rightarrow> RttData \<Rightarrow> FlowbeeEffectiveDirection \<Rightarrow> u64 \<Rightarrow> RttBuffer" where
  "push self reading direction seen =
     update_bucket direction (push_bucket reading seen) (self\<lparr>last_seen := seen\<rparr>)"

section \<open>Percentiles\<close>

fun scope_bucket :: "RttBucket \<Rightarrow> RttBufferBucket \<Rightarrow> u32 list" where
  "scope_bucket Current target = current_bucket target"
| "scope_bucket Total target = total_bucket target"

definition sample_count :: "RttBuffer \<Rightarrow> RttBucket \<Rightarrow> FlowbeeEffectiveDirection \<Rightarrow> u32" where
  "sample_count self scope direction = sum_list (scope_bucket scope (pick_bucket self direction))"

abbreviation (input) MIN_SAMPLES :: u32 where "MIN_SAMPLES \<equiv> 2"

definition u32_div_ceil :: "u32 \<Rightarrow> u32 \<Rightarrow> u32" where
  "u32_div_ceil a b = (if a mod b = 0 then a div b else a div b + 1)"

definition rank_target :: "u32 \<Rightarrow> u8 \<Rightarrow> u32" where
  "rank_target total_samples p = u32_div_ceil (ucast p * total_samples) 100"

text \<open>The inner loop: every pending target the cumulative count reaches gets the bucket's bound.\<close>

function reach_targets ::
  "RttData \<Rightarrow> u32 \<Rightarrow> u32 list \<Rightarrow> RttData option list \<Rightarrow> nat \<Rightarrow> RttData option list \<times> nat" where
  "reach_targets bound cumulative targets results next_idx =
     (if next_idx < length targets \<and> targets ! next_idx \<le> cumulative
      then reach_targets bound cumulative targets (results[next_idx := Some bound]) (next_idx + 1)
      else (results, next_idx))"
  by auto

termination
  by (relation "measure (\<lambda>(_, _, targets, _, next_idx). length targets - next_idx)") auto

declare reach_targets.simps [simp del]

fun bucket_loop ::
  "usize \<Rightarrow> u32 list \<Rightarrow> u32 list \<Rightarrow> u32 \<Rightarrow> RttData option list \<Rightarrow> nat \<Rightarrow> RttData option list" where
  "bucket_loop bucket_idx [] targets cumulative results next_idx = results"
| "bucket_loop bucket_idx (count # counts) targets cumulative results next_idx =
     (if count = 0 then bucket_loop (bucket_idx + 1) counts targets cumulative results next_idx
      else let cumulative = cumulative + count;
               (results, next_idx) = reach_targets (RttData (bucket_upper_bound_nanos bucket_idx))
                 cumulative targets results next_idx
           in if next_idx = length targets then results
              else bucket_loop (bucket_idx + 1) counts targets cumulative results next_idx)"

definition percentiles_from_bucket ::
  "RttBuffer \<Rightarrow> RttBucket \<Rightarrow> FlowbeeEffectiveDirection \<Rightarrow> u8 list \<Rightarrow> RttData list option" where
  "percentiles_from_bucket self scope direction ps =
     (let buckets = scope_bucket scope (pick_bucket self direction);
          total_samples = sum_list buckets
      in if total_samples < MIN_SAMPLES then None
         else let targets = map (rank_target total_samples) ps;
                  results = bucket_loop 0 buckets targets 0 (replicate (length ps) None) 0
              in if list_ex (\<lambda>r. r = None) results then None else Some (map the results))"

definition median_new_data :: "RttBuffer \<Rightarrow> FlowbeeEffectiveDirection \<Rightarrow> RttData" where
  "median_new_data self direction =
     (if \<not> bucket_has_new_data (pick_bucket self direction) then RttData 0
      else case percentiles_from_bucket self Current direction [50] of
        None \<Rightarrow> RttData 0
      | Some median \<Rightarrow> median ! 0)"

definition percentile ::
  "RttBuffer \<Rightarrow> RttBucket \<Rightarrow> FlowbeeEffectiveDirection \<Rightarrow> u8 \<Rightarrow> RttData option" where
  "percentile self scope direction p =
     map_option (\<lambda>v. v ! 0) (percentiles_from_bucket self scope direction [p])"

definition percentiles ::
  "RttBuffer \<Rightarrow> RttBucket \<Rightarrow> FlowbeeEffectiveDirection \<Rightarrow> u8 list \<Rightarrow> RttData list option" where
  "percentiles self scope direction ps = percentiles_from_bucket self scope direction ps"

end
