(* ===== verification/Heatmap.thy ===== *)
theory Heatmap
  imports Float_Rounding Rtt_Buffer "HOL-Library.Product_Lexorder"
begin

text \<open>
  Rolling heatmaps (\<open>src/src/rust/lqos_utils/src/temporal_heatmap.rs\<close> and \<open>qoq_heatmap.rs\<close>): one
  sample a second goes into a buffer of sixty; when it is full its median becomes the newest of
  fourteen summary blocks and the buffer is emptied. Both files keep the same two arrays for every
  series they track (ten in the one, two in the other), so the arrays are functions of the series
  here and the operations are stated once, for any set of series.
\<close>

section \<open>Medians\<close>

abbreviation (input) RAW_SAMPLES :: usize where "RAW_SAMPLES \<equiv> 60"
abbreviation (input) SUMMARY_BLOCKS :: usize where "SUMMARY_BLOCKS \<equiv> 14"
abbreviation (input) TOTAL_BLOCKS :: usize where "TOTAL_BLOCKS \<equiv> SUMMARY_BLOCKS + 1"

text \<open>\<open>total_cmp\<close>, with the one NaN of the model above every number.\<close>

definition total_key :: "f32 \<Rightarrow> nat \<times> rat" where
  "total_key x = (case x of NegInf \<Rightarrow> (0, 0) | Fin a \<Rightarrow> (1, a) | PosInf \<Rightarrow> (2, 0) | NaN \<Rightarrow> (3, 0))"

fun f32_add :: "f32 \<Rightarrow> f32 \<Rightarrow> f32" where
  "f32_add (Fin a) (Fin b) = f32_of_rat (a + b)"
| "f32_add NaN y = NaN"
| "f32_add x NaN = NaN"
| "f32_add PosInf NegInf = NaN"
| "f32_add NegInf PosInf = NaN"
| "f32_add PosInf y = PosInf"
| "f32_add x PosInf = PosInf"
| "f32_add NegInf y = NegInf"
| "f32_add x NegInf = NegInf"

definition half_sum :: "f32 \<Rightarrow> f32 \<Rightarrow> f32" where
  "half_sum a b = f32_div_const (f32_add a b) 2"

text \<open>The part of \<open>median_from_raw\<close> after the samples are collected.\<close>

definition median_of :: "f32 list \<Rightarrow> f32 option" where
  "median_of vs =
     (let values = sort_key total_key vs; len = length values; mid = len div 2 in
      if len = 0 then None
      else if len mod 2 = 1 then Some (values ! mid)
      else Some (half_sum (values ! (mid - 1)) (values ! mid)))"

definition flatten :: "'a option list \<Rightarrow> 'a list" where
  "flatten xs = List.map_filter (\<lambda>x. x) xs"

definition median_from_raw :: "f32 option list \<Rightarrow> usize \<Rightarrow> f32 option" where
  "median_from_raw raw filled =
     (let filled = min filled RAW_SAMPLES in
      if filled = 0 then None else median_of (flatten (take filled raw)))"

section \<open>The rolling buffer\<close>

record 'm rolling =
  raw :: "'m \<Rightarrow> f32 option list"
  summary :: "'m \<Rightarrow> f32 option list"
  raw_index :: usize
  raw_filled :: usize

definition new_rolling :: "'m rolling" where
  "new_rolling = \<lparr>raw = (\<lambda>_. replicate RAW_SAMPLES None), summary = (\<lambda>_. replicate SUMMARY_BLOCKS None),
     raw_index = 0, raw_filled = 0\<rparr>"

text \<open>The loop that moves every block one place towards the oldest.\<close>

fun shift_loop :: "nat \<Rightarrow> 'a list \<Rightarrow> 'a list" where
  "shift_loop 0 target = target"
| "shift_loop (Suc n) target = (let target = shift_loop n target in target[n := target ! Suc n])"

definition shift_summary :: "'a list \<Rightarrow> 'a \<Rightarrow> 'a list" where
  "shift_summary target value = (shift_loop (SUMMARY_BLOCKS - 1) target)[SUMMARY_BLOCKS - 1 := value]"

definition push_summary_block :: "'m rolling \<Rightarrow> 'm rolling" where
  "push_summary_block self = self
     \<lparr>summary := (\<lambda>m. shift_summary (summary self m) (median_from_raw (raw self m) RAW_SAMPLES))\<rparr>"

definition clear_raw_buffers :: "'m rolling \<Rightarrow> 'm rolling" where
  "clear_raw_buffers self = self
     \<lparr>raw := (\<lambda>m. replicate (length (raw self m)) None), raw_index := 0, raw_filled := 0\<rparr>"

definition add_values :: "'m rolling \<Rightarrow> ('m \<Rightarrow> f32 option) \<Rightarrow> 'm rolling" where
  "add_values self sample =
     (let self = self\<lparr>raw := (\<lambda>m. (raw self m)[raw_index self := sample m]),
                     raw_index := raw_index self + 1,
                     raw_filled := (if raw_filled self < RAW_SAMPLES then raw_filled self + 1 else raw_filled self)\<rparr>
      in if raw_index self = RAW_SAMPLES then clear_raw_buffers (push_summary_block self) else self)"

definition rolling_blocks :: "'m rolling \<Rightarrow> 'm \<Rightarrow> f32 option list" where
  "rolling_blocks self m = (copy_at 0 (summary self m) (replicate TOTAL_BLOCKS None))
     [TOTAL_BLOCKS - 1 := median_from_raw (raw self m) (raw_filled self)]"

section \<open>The site heatmap\<close>

datatype HeatSeries =
    SDownload | SUpload | SRtt | SRttP50Down | SRttP50Up | SRttP90Down | SRttP90Up
  | SRetransmit | SRetransmitDown | SRetransmitUp

type_synonym TemporalHeatmap = "HeatSeries rolling"
type_synonym HeatmapBlocks = "HeatSeries \<Rightarrow> f32 option list"

fun combine_optional :: "f32 option \<Rightarrow> f32 option \<Rightarrow> f32 option" where
  "combine_optional (Some a) (Some b) = Some (half_sum a b)"
| "combine_optional (Some a) None = Some a"
| "combine_optional None (Some b) = Some b"
| "combine_optional None None = None"

record HeatSample =
  hs_download :: f32
  hs_upload :: f32
  hs_rtt_p50_down :: "f32 option"
  hs_rtt_p50_up :: "f32 option"
  hs_rtt_p90_down :: "f32 option"
  hs_rtt_p90_up :: "f32 option"
  hs_retransmit_down :: "f32 option"
  hs_retransmit_up :: "f32 option"

fun sample_value :: "HeatSample \<Rightarrow> HeatSeries \<Rightarrow> f32 option" where
  "sample_value s SDownload = Some (hs_download s)"
| "sample_value s SUpload = Some (hs_upload s)"
| "sample_value s SRtt = combine_optional (hs_rtt_p50_down s) (hs_rtt_p50_up s)"
| "sample_value s SRttP50Down = hs_rtt_p50_down s"
| "sample_value s SRttP50Up = hs_rtt_p50_up s"
| "sample_value s SRttP90Down = hs_rtt_p90_down s"
| "sample_value s SRttP90Up = hs_rtt_p90_up s"
| "sample_value s SRetransmit = combine_optional (hs_retransmit_down s) (hs_retransmit_up s)"
| "sample_value s SRetransmitDown = hs_retransmit_down s"
| "sample_value s SRetransmitUp = hs_retransmit_up s"

definition add_sample :: "TemporalHeatmap \<Rightarrow> HeatSample \<Rightarrow> TemporalHeatmap" where
  "add_sample self s = add_values self (sample_value s)"

definition blocks :: "TemporalHeatmap \<Rightarrow> HeatmapBlocks" where
  "blocks self = rolling_blocks self"

definition f32_of_u64 :: "u64 \<Rightarrow> f32" where
  "f32_of_u64 n = f32_of_rat (of_nat (unat n))"

abbreviation (input) EXECUTIVE_RETRANSMIT_MIN_PACKETS :: u64 where "EXECUTIVE_RETRANSMIT_MIN_PACKETS \<equiv> 100"
abbreviation (input) EXECUTIVE_RETRANSMIT_MIN_RETRANSMITS :: u64 where "EXECUTIVE_RETRANSMIT_MIN_RETRANSMITS \<equiv> 2"

fun f32_div :: "f32 \<Rightarrow> f32 \<Rightarrow> f32" where
  "f32_div (Fin a) (Fin b) =
     (if b \<noteq> 0 then f32_of_rat (a / b) else if a = 0 then NaN else if 0 < a then PosInf else NegInf)"
| "f32_div (Fin a) y = (if y = NaN then NaN else Fin 0)"
| "f32_div x (Fin b) = (if x = NaN then NaN else if 0 \<le> b then x else neg_ieee x)"
| "f32_div x y = NaN"

fun f32_mul :: "f32 \<Rightarrow> f32 \<Rightarrow> f32" where
  "f32_mul (Fin a) (Fin b) = f32_of_rat (a * b)"
| "f32_mul x y =
     (if x = NaN \<or> y = NaN then NaN
      else let s = ieee_sign x * ieee_sign y in if s = 0 then NaN else if 0 < s then PosInf else NegInf)"

definition executive_retransmit_percent :: "u64 \<Rightarrow> u64 \<Rightarrow> f32 option" where
  "executive_retransmit_percent retransmits packets =
     (if retransmits < EXECUTIVE_RETRANSMIT_MIN_RETRANSMITS \<or> packets < EXECUTIVE_RETRANSMIT_MIN_PACKETS
      then None
      else let value = f32_mul (f32_div (f32_of_u64 retransmits) (f32_of_u64 packets)) (Fin 100)
           in if value > Fin 50 then None else Some value)"

section \<open>The score heatmap\<close>

type_synonym TemporalQoqHeatmap = "FlowbeeEffectiveDirection rolling"
type_synonym QoqHeatmapBlocks = "FlowbeeEffectiveDirection \<Rightarrow> f32 option list"

definition qoq_add_sample :: "TemporalQoqHeatmap \<Rightarrow> f32 option \<Rightarrow> f32 option \<Rightarrow> TemporalQoqHeatmap" where
  "qoq_add_sample self down up = add_values self (\<lambda>d. case d of Download \<Rightarrow> down | Upload \<Rightarrow> up)"

definition qoq_blocks :: "TemporalQoqHeatmap \<Rightarrow> QoqHeatmapBlocks" where
  "qoq_blocks self = rolling_blocks self"

definition current_values :: "QoqHeatmapBlocks \<Rightarrow> f32 option \<times> f32 option" where
  "current_values bs = (let last_of = (\<lambda>xs. if xs = [] then None else last xs)
     in (last_of (bs Download), last_of (bs Upload)))"

definition latest_values :: "QoqHeatmapBlocks \<Rightarrow> f32 option \<times> f32 option" where
  "latest_values bs = (let first_of = (\<lambda>xs. case flatten (rev xs) of [] \<Rightarrow> None | x # _ \<Rightarrow> Some x)
     in (first_of (bs Download), first_of (bs Upload)))"

end
