(* ===== verification/Qoo.thy ===== *)
theory Qoo
  imports Float_Rounding Rtt_Buffer Rust_Strings
begin

text \<open>
  Quality-of-outcome scores (\<open>src/src/rust/lqos_utils/src/qoo.rs\<close>) and the profiles they are computed
  with (\<open>qoo/qoo_profile.rs\<close>, \<open>lqos_config/src/qoo_profiles.rs\<close>). A score interpolates a measured
  value between two thresholds into 0 to 100; latency is a percentile of the round-trip histogram,
  loss a fraction with a confidence, and a direction's score is the smaller of the two.
\<close>

section \<open>Floats\<close>

definition f64_clamp :: "f64 \<Rightarrow> f64 \<Rightarrow> f64 \<Rightarrow> f64" where
  "f64_clamp x lo hi = (if x < lo then lo else if x > hi then hi else x)"

text \<open>Rounding to an integer, halves away from zero, and the saturating cast to \<open>u8\<close>.\<close>

definition f64_round :: "f64 \<Rightarrow> f64" where
  "f64_round x = (case x of
       Fin a \<Rightarrow> Fin (if 0 \<le> a then of_int \<lfloor>a + 1/2\<rfloor> else - of_int \<lfloor>- a + 1/2\<rfloor>)
     | _ \<Rightarrow> x)"

definition f64_as_u8 :: "f64 \<Rightarrow> u8" where
  "f64_as_u8 x = (case x of
       NaN \<Rightarrow> 0 | NegInf \<Rightarrow> 0 | PosInf \<Rightarrow> 255
     | Fin a \<Rightarrow> if a \<le> 0 then 0 else if 255 \<le> a then 255 else of_int \<lfloor>a\<rfloor>)"

definition clamp_0_100 :: "f64 \<Rightarrow> f64" where
  "clamp_0_100 x = (if x = NaN then Fin 0 else f64_clamp x (Fin 0) (Fin 100))"

definition nanos_to_ms :: "u64 \<Rightarrow> f64" where
  "nanos_to_ms ns = f64_div (f64_of_u64 ns) (Fin 1000000)"

section \<open>Thresholds\<close>

datatype Better = HigherIsBetter | LowerIsBetter

record LowHigh =
  lh_low :: f64
  lh_high :: f64
  lh_better :: Better

definition higher_is_better :: "f64 \<Rightarrow> f64 \<Rightarrow> LowHigh" where
  "higher_is_better low high = \<lparr>lh_low = low, lh_high = high, lh_better = HigherIsBetter\<rparr>"

definition lower_is_better :: "f64 \<Rightarrow> f64 \<Rightarrow> LowHigh" where
  "lower_is_better low high = \<lparr>lh_low = low, lh_high = high, lh_better = LowerIsBetter\<rparr>"

definition score :: "LowHigh \<Rightarrow> f64 \<Rightarrow> f64" where
  "score self measured =
     (if \<not> is_finite measured then Fin 0
      else case lh_better self of
        LowerIsBetter \<Rightarrow>
          (let good = lh_high self; bad = lh_low self; denom = f64_sub bad good in
           if denom \<le> Fin 0 then (if measured \<le> good then Fin 100 else Fin 0)
           else if measured \<le> good then Fin 100
           else if measured \<ge> bad then Fin 0
           else clamp_0_100 (f64_div (f64_mul (Fin 100) (f64_sub bad measured)) denom))
      | HigherIsBetter \<Rightarrow>
          (let good = lh_high self; bad = lh_low self; denom = f64_sub good bad in
           if denom \<le> Fin 0 then (if measured \<ge> good then Fin 100 else Fin 0)
           else if measured \<ge> good then Fin 100
           else if measured \<le> bad then Fin 0
           else clamp_0_100 (f64_div (f64_mul (Fin 100) (f64_sub measured bad)) denom)))"

section \<open>Profiles\<close>

record LatencyReq =
  req_percentile :: u8
  rtt_ms :: LowHigh

datatype LossHandling = Strict | ConfidenceWeighted

datatype Baseline = FixedMs f64 | Percentile u8

datatype LatencyNormalization =
    NoNormalization
  | ThresholdOffsetMs f64
  | ExcessOverBaseline Baseline

record QooProfile =
  profile_name :: string
  latency :: "LatencyReq list"
  profile_loss_fraction :: LowHigh
  loss_handling :: LossHandling
  latency_normalization :: LatencyNormalization

section \<open>Loss\<close>

datatype LossMeasurement =
    Exact f64
  | TcpRetransmitProxy (retransmit_fraction: f64) (proxy_confidence: f64)

definition loss_fraction :: "LossMeasurement \<Rightarrow> f64" where
  "loss_fraction self = (case self of
       Exact loss \<Rightarrow> f64_clamp loss (Fin 0) (Fin 1)
     | TcpRetransmitProxy fraction confidence \<Rightarrow> f64_clamp fraction (Fin 0) (Fin 1))"

definition loss_confidence :: "LossMeasurement \<Rightarrow> f64" where
  "loss_confidence self = (case self of
       Exact loss \<Rightarrow> Fin 1
     | TcpRetransmitProxy fraction confidence \<Rightarrow> f64_clamp confidence (Fin 0) (Fin 1))"

definition from_tcp_retransmit_percent :: "f64 \<Rightarrow> f64 \<Rightarrow> LossMeasurement" where
  "from_tcp_retransmit_percent percent confidence =
     TcpRetransmitProxy (f64_clamp (f64_div percent (Fin 100)) (Fin 0) (Fin 1))
       (f64_clamp confidence (Fin 0) (Fin 1))"

definition loss_effective :: "QooProfile \<Rightarrow> LossMeasurement \<Rightarrow> f64" where
  "loss_effective profile loss =
     (let confidence = loss_confidence loss;
          strict = score (profile_loss_fraction profile) (loss_fraction loss)
      in case loss_handling profile of
           Strict \<Rightarrow> strict
         | ConfidenceWeighted \<Rightarrow>
             f64_sub (Fin 100) (f64_mul confidence (f64_sub (Fin 100) strict)))"

section \<open>Latency\<close>

record LatencyDirectionResult =
  ld_score :: "f64 option"
  raw_ms :: "(u8 \<times> f64) list"
  scored_ms :: "(u8 \<times> f64) list"
  baseline_ms :: "f64 option"

text \<open>The loop over the requirements; a percentile that is not available ends it without a score.\<close>

fun latency_loop ::
  "RttBuffer \<Rightarrow> FlowbeeEffectiveDirection \<Rightarrow> RttBucket \<Rightarrow> LatencyNormalization \<Rightarrow> f64 option
    \<Rightarrow> LatencyReq list \<Rightarrow> (u8 \<times> f64) list \<Rightarrow> (u8 \<times> f64) list \<Rightarrow> f64 list \<Rightarrow> LatencyDirectionResult" where
  "latency_loop rtt direction scope normalization baseline [] raws scoreds scores =
     \<lparr>ld_score = (case scores of [] \<Rightarrow> None | s # ss \<Rightarrow> Some (foldl f64_min s ss)),
      raw_ms = raws, scored_ms = scoreds, baseline_ms = baseline\<rparr>"
| "latency_loop rtt direction scope normalization baseline (req # reqs) raws scoreds scores =
     (case percentile rtt scope direction (req_percentile req) of
        None \<Rightarrow> \<lparr>ld_score = None, raw_ms = raws, scored_ms = scoreds, baseline_ms = baseline\<rparr>
      | Some rtt_p \<Rightarrow>
          let raw = nanos_to_ms (as_nanos rtt_p);
              adjusted = (case (normalization, baseline) of
                  (NoNormalization, _) \<Rightarrow> raw
                | (_, Some b) \<Rightarrow> f64_max (f64_sub raw b) (Fin 0)
                | (_, None) \<Rightarrow> raw)
          in latency_loop rtt direction scope normalization baseline reqs
               (raws @ [(req_percentile req, raw)]) (scoreds @ [(req_percentile req, adjusted)])
               (scores @ [score (rtt_ms req) adjusted]))"

definition latency_for_direction ::
  "QooProfile \<Rightarrow> RttBuffer \<Rightarrow> FlowbeeEffectiveDirection \<Rightarrow> RttBucket \<Rightarrow> LatencyDirectionResult" where
  "latency_for_direction profile rtt direction scope =
     (let run = (\<lambda>baseline. latency_loop rtt direction scope (latency_normalization profile) baseline
                   (latency profile) [] [] [])
      in case latency_normalization profile of
           NoNormalization \<Rightarrow> run None
         | ThresholdOffsetMs ms \<Rightarrow> run (Some (f64_max ms (Fin 0)))
         | ExcessOverBaseline (FixedMs ms) \<Rightarrow> run (Some (f64_max ms (Fin 0)))
         | ExcessOverBaseline (Percentile p) \<Rightarrow>
             (case percentile rtt scope direction p of
                None \<Rightarrow> \<lparr>ld_score = None, raw_ms = [], scored_ms = [], baseline_ms = None\<rparr>
              | Some b \<Rightarrow> run (Some (f64_max (nanos_to_ms (as_nanos b)) (Fin 0)))))"

section \<open>The computation\<close>

record QooInput =
  input_rtt :: RttBuffer
  input_loss :: "LossMeasurement option"

record QooComponents =
  latency_download :: "f64 option"
  latency_upload :: "f64 option"
  latency_worst :: "f64 option"
  comp_loss_strict :: "f64 option"
  comp_loss_effective :: "f64 option"
  comp_loss_confidence :: "f64 option"

record QooMeasured =
  latency_download_ms :: "(u8 \<times> f64) list"
  latency_upload_ms :: "(u8 \<times> f64) list"
  latency_download_scored_ms :: "(u8 \<times> f64) list"
  latency_upload_scored_ms :: "(u8 \<times> f64) list"
  latency_baseline_download_ms :: "f64 option"
  latency_baseline_upload_ms :: "f64 option"
  measured_loss_fraction :: "f64 option"

record QooResult =
  qoo_overall :: "f64 option"
  qoo_components :: QooComponents
  qoo_measured :: QooMeasured

definition combine_directional :: "f64 option \<Rightarrow> f64 option \<Rightarrow> f64 option" where
  "combine_directional l p = (case (l, p) of (Some l, Some p) \<Rightarrow> Some (f64_min l p) | _ \<Rightarrow> None)"

definition worst_direction :: "f64 option \<Rightarrow> f64 option \<Rightarrow> f64 option" where
  "worst_direction dl ul = (case (dl, ul) of
       (Some a, Some b) \<Rightarrow> Some (f64_min a b)
     | (Some a, None) \<Rightarrow> Some a
     | (None, Some b) \<Rightarrow> Some b
     | (None, None) \<Rightarrow> None)"

definition compute_qoo :: "QooProfile \<Rightarrow> QooInput \<Rightarrow> QooResult" where
  "compute_qoo profile input =
     (let dl = latency_for_direction profile (input_rtt input) Download Total;
          ul = latency_for_direction profile (input_rtt input) Upload Total;
          worst = worst_direction (ld_score dl) (ld_score ul);
          fraction = map_option loss_fraction (input_loss input);
          confidence = map_option loss_confidence (input_loss input);
          strict = map_option (score (profile_loss_fraction profile)) fraction;
          effective = (case (strict, confidence) of
              (Some s, Some c) \<Rightarrow> Some (case loss_handling profile of
                  Strict \<Rightarrow> s
                | ConfidenceWeighted \<Rightarrow> f64_sub (Fin 100) (f64_mul c (f64_sub (Fin 100) s)))
            | _ \<Rightarrow> None)
      in \<lparr>qoo_overall = (case (worst, effective) of (Some l, Some p) \<Rightarrow> Some (f64_min l p) | _ \<Rightarrow> None),
          qoo_components =
            \<lparr>latency_download = ld_score dl, latency_upload = ld_score ul, latency_worst = worst,
             comp_loss_strict = strict, comp_loss_effective = effective,
             comp_loss_confidence = confidence\<rparr>,
          qoo_measured =
            \<lparr>latency_download_ms = raw_ms dl, latency_upload_ms = raw_ms ul,
             latency_download_scored_ms = scored_ms dl, latency_upload_scored_ms = scored_ms ul,
             latency_baseline_download_ms = baseline_ms dl, latency_baseline_upload_ms = baseline_ms ul,
             measured_loss_fraction = fraction\<rparr>\<rparr>)"

abbreviation (input) QOQ_UNKNOWN :: u8 where "QOQ_UNKNOWN \<equiv> 255"
abbreviation (input) MIN_RTT_SAMPLES_FOR_QOO :: u32 where "MIN_RTT_SAMPLES_FOR_QOO \<equiv> 5"

record QoqScores =
  download_total :: u8
  upload_total :: u8

definition default_scores :: QoqScores where
  "default_scores = \<lparr>download_total = QOQ_UNKNOWN, upload_total = QOQ_UNKNOWN\<rparr>"

definition download_total_f32 :: "QoqScores \<Rightarrow> f32 option" where
  "download_total_f32 self =
     (if download_total self \<noteq> QOQ_UNKNOWN then Some (Fin (of_nat (unat (download_total self)))) else None)"

definition upload_total_f32 :: "QoqScores \<Rightarrow> f32 option" where
  "upload_total_f32 self =
     (if upload_total self \<noteq> QOQ_UNKNOWN then Some (Fin (of_nat (unat (upload_total self)))) else None)"

definition score_to_u8 :: "f64 option \<Rightarrow> u8" where
  "score_to_u8 s = (case s of
       None \<Rightarrow> QOQ_UNKNOWN
     | Some s \<Rightarrow> if \<not> is_finite s then QOQ_UNKNOWN
                else f64_as_u8 (f64_round (f64_clamp s (Fin 0) (Fin 100))))"

definition direction_latency :: "QooProfile \<Rightarrow> RttBuffer \<Rightarrow> FlowbeeEffectiveDirection \<Rightarrow> f64 option" where
  "direction_latency profile rtt direction =
     (if sample_count rtt Total direction \<ge> MIN_RTT_SAMPLES_FOR_QOO
      then ld_score (latency_for_direction profile rtt direction Total) else None)"

definition compute_qoq_scores ::
  "QooProfile \<Rightarrow> RttBuffer \<Rightarrow> LossMeasurement option \<Rightarrow> LossMeasurement option \<Rightarrow> QoqScores" where
  "compute_qoq_scores profile rtt loss_down loss_up =
     \<lparr>download_total = score_to_u8 (combine_directional (direction_latency profile rtt Download)
         (map_option (loss_effective profile) loss_down)),
      upload_total = score_to_u8 (combine_directional (direction_latency profile rtt Upload)
         (map_option (loss_effective profile) loss_up))\<rparr>"

section \<open>Profiles on disk\<close>

record Range =
  range_low :: f64
  range_high :: f64

record LatencySpec =
  spec_percentile :: u8
  low_ms :: f64
  high_ms :: f64

datatype BaselineSpec = SpecFixedMs f64 | SpecPercentile u8

datatype LatencyNormalizationSpec =
    SpecNone
  | SpecThresholdOffsetMs f64
  | SpecExcessOverBaseline BaselineSpec

datatype LossHandlingSpec = SpecStrict | SpecConfidenceWeighted

record QooProfileSpec =
  spec_id :: string
  spec_name :: string
  spec_description :: "string option"
  spec_latency :: "LatencySpec list"
  loss_percent :: Range
  spec_latency_normalization :: LatencyNormalizationSpec
  spec_loss_handling :: LossHandlingSpec

record QooProfilesFile =
  schema_version :: u32
  default_profile_id :: "string option"
  profiles :: "QooProfileSpec list"

definition to_runtime :: "QooProfileSpec \<Rightarrow> QooProfile" where
  "to_runtime self =
     \<lparr>profile_name = spec_name self,
      latency = map (\<lambda>l. \<lparr>req_percentile = spec_percentile l,
                          rtt_ms = lower_is_better (low_ms l) (high_ms l)\<rparr>) (spec_latency self),
      profile_loss_fraction = lower_is_better
        (f64_clamp (f64_div (range_low (loss_percent self)) (Fin 100)) (Fin 0) (Fin 1))
        (f64_clamp (f64_div (range_high (loss_percent self)) (Fin 100)) (Fin 0) (Fin 1)),
      loss_handling = (case spec_loss_handling self of
          SpecStrict \<Rightarrow> Strict | SpecConfidenceWeighted \<Rightarrow> ConfidenceWeighted),
      latency_normalization = (case spec_latency_normalization self of
          SpecNone \<Rightarrow> NoNormalization
        | SpecThresholdOffsetMs ms \<Rightarrow> ThresholdOffsetMs ms
        | SpecExcessOverBaseline (SpecFixedMs ms) \<Rightarrow> ExcessOverBaseline (FixedMs ms)
        | SpecExcessOverBaseline (SpecPercentile p) \<Rightarrow> ExcessOverBaseline (Percentile p))\<rparr>"

definition validate_latency :: "LatencySpec \<Rightarrow> string list" where
  "validate_latency l =
     (let p = dec_digits (unat (spec_percentile l)) in
      (if spec_percentile l > 100 then [''latency percentile '' @ p @ '' must be 0..100''] else [])
      @ (if \<not> is_finite (low_ms l) \<or> \<not> is_finite (high_ms l)
         then [''latency p'' @ p @ '' values must be finite'']
         else if low_ms l < Fin 0 \<or> high_ms l < Fin 0
         then [''latency p'' @ p @ '' values must be >= 0''] else []))"

definition validate_normalization :: "LatencyNormalizationSpec \<Rightarrow> string list" where
  "validate_normalization n = (case n of
       SpecNone \<Rightarrow> []
     | SpecThresholdOffsetMs ms \<Rightarrow>
         if \<not> is_finite ms \<or> ms < Fin 0
         then [''latency_normalization.threshold_offset_ms.ms must be finite and >= 0''] else []
     | SpecExcessOverBaseline (SpecFixedMs ms) \<Rightarrow>
         if \<not> is_finite ms \<or> ms < Fin 0
         then [''latency_normalization.excess_over_baseline.fixed_ms.ms must be finite and >= 0''] else []
     | SpecExcessOverBaseline (SpecPercentile p) \<Rightarrow>
         if p > 100
         then [''latency_normalization.excess_over_baseline.percentile must be 0..100''] else [])"

definition validate_spec :: "QooProfileSpec \<Rightarrow> string list" where
  "validate_spec self =
     (if trim (spec_id self) = [] then [''id must not be empty''] else [])
     @ (if trim (spec_name self) = [] then [''name must not be empty''] else [])
     @ (let low = range_low (loss_percent self); high = range_high (loss_percent self) in
        if low < Fin 0 \<or> high < Fin 0 \<or> low > Fin 100 \<or> high > Fin 100
        then [''loss_percent must be within 0..100''] else [])
     @ (if spec_latency self = []
        then [''latency must contain at least one percentile entry (e.g. p95)''] else [])
     @ concat (map validate_latency (spec_latency self))
     @ validate_normalization (spec_latency_normalization self)"

datatype ProfileIoError = Io | Json | Validation "string list"

definition apostrophes :: "string \<Rightarrow> string" where
  "apostrophes s = CHR 0x27 # s @ [CHR 0x27]"

text \<open>The loop over the profiles with the set of ids it has seen.\<close>

fun duplicate_ids :: "string list \<Rightarrow> QooProfileSpec list \<Rightarrow> string list" where
  "duplicate_ids seen [] = []"
| "duplicate_ids seen (p # ps) =
     (if spec_id p \<in> set seen
      then (''Duplicate profile id '' @ apostrophes (spec_id p)) # duplicate_ids seen ps
      else duplicate_ids (spec_id p # seen) ps)"

definition validate :: "QooProfilesFile \<Rightarrow> (unit, ProfileIoError) result" where
  "validate self =
     (if schema_version self \<noteq> 2
      then Err (Validation [''Unsupported schema_version '' @ dec_digits (unat (schema_version self)) @ '' (expected 2)''])
      else let errs = duplicate_ids [] (profiles self)
             @ (case default_profile_id self of
                  Some default_id \<Rightarrow>
                    if \<not> list_ex (\<lambda>p. spec_id p = default_id) (profiles self)
                    then [''default_profile_id '' @ apostrophes default_id @ '' does not match any profile id'']
                    else []
                | None \<Rightarrow> [])
             @ concat (map (\<lambda>p. map (\<lambda>e. ''['' @ spec_id p @ ''] '' @ e) (validate_spec p)) (profiles self))
           in if errs = [] then Ok () else Err (Validation errs))"

definition pick_default :: "QooProfilesFile \<Rightarrow> QooProfileSpec option" where
  "pick_default self =
     or_opt (case default_profile_id self of
               None \<Rightarrow> None
             | Some i \<Rightarrow> find (\<lambda>p. spec_id p = i) (profiles self))
       (case profiles self of [] \<Rightarrow> None | p # _ \<Rightarrow> Some p)"

text \<open>
  The disk is a parameter: \<open>read\<close> gives what reading and parsing the file at a path yields, \<open>exists\<close>
  and \<open>modified\<close> its metadata.
\<close>

definition load_json :: "(string \<Rightarrow> (QooProfilesFile, ProfileIoError) result) \<Rightarrow> string \<Rightarrow> (QooProfilesFile, ProfileIoError) result" where
  "load_json read path = and_then (read path) (\<lambda>doc. and_then (validate doc) (\<lambda>_. Ok doc))"

datatype QooProfilesError = ConfigLoad | FileNotFound string | ProfileIo ProfileIoError | EmptyProfiles

definition load_profiles_from_disk ::
  "(string \<Rightarrow> (QooProfilesFile, ProfileIoError) result) \<Rightarrow> (string \<Rightarrow> bool) \<Rightarrow> string
    \<Rightarrow> (QooProfilesFile, QooProfilesError) result" where
  "load_profiles_from_disk read exists path =
     (if \<not> exists path then Err (FileNotFound path)
      else and_then (map_err ProfileIo (load_json read path))
        (\<lambda>file. if profiles file = [] then Err EmptyProfiles else Ok file))"

record CachedProfiles =
  cached_path :: string
  cached_modified :: "u64 option"
  cached_file :: QooProfilesFile

definition load_qoo_profiles_file ::
  "(string \<Rightarrow> (QooProfilesFile, ProfileIoError) result) \<Rightarrow> (string \<Rightarrow> bool) \<Rightarrow> (string \<Rightarrow> u64 option)
    \<Rightarrow> string \<Rightarrow> CachedProfiles option \<Rightarrow> (QooProfilesFile, QooProfilesError) result \<times> CachedProfiles option" where
  "load_qoo_profiles_file read exists modified path cache =
     (let load = (case load_profiles_from_disk read exists path of
          Inl e \<Rightarrow> (Err e, cache)
        | Inr file \<Rightarrow> (Ok file, Some \<lparr>cached_path = path, cached_modified = modified path, cached_file = file\<rparr>))
      in case cache of
           Some cached \<Rightarrow>
             if cached_path cached = path \<and> cached_modified cached = modified path
             then (Ok (cached_file cached), cache) else load
         | None \<Rightarrow> load)"

record QooProfileInfo =
  info_id :: string
  info_name :: string
  info_description :: "string option"

definition list_qoo_profiles :: "QooProfilesFile \<Rightarrow> QooProfileInfo list" where
  "list_qoo_profiles file = map (\<lambda>p. \<lparr>info_id = spec_id p, info_name = spec_name p,
     info_description = spec_description p\<rparr>) (profiles file)"

definition select_profile :: "string option \<Rightarrow> QooProfilesFile \<Rightarrow> (QooProfileSpec, QooProfilesError) result" where
  "select_profile configured file =
     (let requested = filter_opt (\<lambda>s. s \<noteq> []) (map_option trim configured);
          pick = (\<lambda>i. find (\<lambda>p. spec_id p = i) (profiles file))
      in case or_opt (Option.bind requested pick) (or_opt (pick ''web_browsing'') (pick_default file)) of
           Some selected \<Rightarrow> Ok selected
         | None \<Rightarrow> Err EmptyProfiles)"

definition active_qoo_profile ::
  "(string \<Rightarrow> (QooProfilesFile, ProfileIoError) result) \<Rightarrow> (string \<Rightarrow> bool) \<Rightarrow> (string \<Rightarrow> u64 option)
    \<Rightarrow> string \<Rightarrow> string option \<Rightarrow> CachedProfiles option
    \<Rightarrow> (QooProfile, QooProfilesError) result \<times> CachedProfiles option" where
  "active_qoo_profile read exists modified path configured cache =
     (let (file, cache) = load_qoo_profiles_file read exists modified path cache
      in (and_then file (\<lambda>file. and_then (select_profile configured file) (\<lambda>selected. Ok (to_runtime selected))), cache))"

end
