(* ===== verification/Network_Json.thy ===== *)
theory Network_Json
  imports Down_Up Heatmap Qoo
begin

text \<open>
  The network tree (\<open>src/src/rust/lqos_config/src/network_json.rs\<close>, \<open>network_json/network_json_node.rs\<close>
  and \<open>network_json_transport.rs\<close>): \<open>network.json\<close> flattened into a vector of nodes that refer to
  their ancestors by index, the counters every cycle adds to the nodes on a circuit's path, and the
  history that survives a reload.
\<close>

section \<open>JSON values and numbers in strings\<close>

text \<open>A number is the \<open>f64\<close> that \<open>as_f64\<close> gives; an object lists its entries in iteration order.\<close>

datatype json =
    JNull | JBool bool | JNumber f64 | JString string | JArray "json list" | JObject "(string \<times> json) list"

fun as_f64 :: "json \<Rightarrow> f64 option" where
  "as_f64 (JNumber x) = Some x"
| "as_f64 _ = None"

fun as_str :: "json \<Rightarrow> string option" where
  "as_str (JString s) = Some s"
| "as_str _ = None"

fun as_bool :: "json \<Rightarrow> bool option" where
  "as_bool (JBool b) = Some b"
| "as_bool _ = None"

text \<open>\<open>str::parse::<f64>\<close>: a sign, then a special name or a decimal number with an optional exponent.\<close>

definition parse_exponent :: "string \<Rightarrow> int option" where
  "parse_exponent s =
     (let (neg, ds) = (case s of
          [] \<Rightarrow> (False, [])
        | c # cs \<Rightarrow> if c = CHR ''-'' then (True, cs) else if c = CHR ''+'' then (False, cs) else (False, s))
      in if ds = [] \<or> \<not> list_all is_ascii_digit ds then None
         else Some (if neg then - int (dec_nat ds) else int (dec_nat ds)))"

definition power_of_ten :: "int \<Rightarrow> rat" where
  "power_of_ten e = (if 0 \<le> e then 10 ^ nat e else 1 / 10 ^ nat (- e))"

definition parse_decimal :: "string \<Rightarrow> rat option" where
  "parse_decimal s =
     (let ip = takeWhile is_ascii_digit s; r = dropWhile is_ascii_digit s;
          (fp, r) = (case r of
              [] \<Rightarrow> ([], [])
            | c # cs \<Rightarrow> if c = CHR ''.'' then (takeWhile is_ascii_digit cs, dropWhile is_ascii_digit cs) else ([], r));
          mantissa = of_nat (dec_nat (ip @ fp)); point = int (length fp)
      in if ip = [] \<and> fp = [] then None
         else case r of
           [] \<Rightarrow> Some (mantissa * power_of_ten (- point))
         | c # cs \<Rightarrow> if to_ascii_lower c = CHR ''e''
                    then map_option (\<lambda>e. mantissa * power_of_ten (e - point)) (parse_exponent cs)
                    else None)"

definition parse_f64 :: "string \<Rightarrow> f64 option" where
  "parse_f64 s =
     (let (neg, r) = (case s of
          [] \<Rightarrow> (False, [])
        | c # cs \<Rightarrow> if c = CHR ''-'' then (True, cs) else if c = CHR ''+'' then (False, cs) else (False, s));
          v = (if to_ascii_lowercase r \<in> {''inf'', ''infinity''} then Some PosInf
               else if to_ascii_lowercase r = ''nan'' then Some NaN
               else map_option f64_of_rat (parse_decimal r))
      in map_option (\<lambda>v. if neg then neg_ieee v else v) v)"

definition number_or_text :: "json option \<Rightarrow> f64 option" where
  "number_or_text val = Option.bind val (\<lambda>v. or_opt (as_f64 v) (Option.bind (as_str v) parse_f64))"

definition json_to_mbps :: "json option \<Rightarrow> f64" where
  "json_to_mbps val = value_or (filter_opt (\<lambda>n. is_finite n \<and> n \<ge> Fin 0) (number_or_text val)) (Fin 0)"

definition f32_of_f64 :: "f64 \<Rightarrow> f32" where
  "f32_of_f64 x = (case x of Fin a \<Rightarrow> f32_of_rat a | _ \<Rightarrow> x)"

definition json_to_coordinate :: "json option \<Rightarrow> f32 \<Rightarrow> f32 \<Rightarrow> f32 option" where
  "json_to_coordinate val lo hi =
     filter_opt (\<lambda>n. is_finite n \<and> n \<ge> lo \<and> n \<le> hi) (map_option f32_of_f64 (number_or_text val))"

section \<open>Nodes\<close>

record NetworkJsonNode =
  nj_name :: string
  nj_id :: "string option"
  virtual_node :: bool
  max_throughput :: "f64 \<times> f64"
  current_throughput :: "u64 DownUpOrder"
  current_packets :: "u64 DownUpOrder"
  current_tcp_packets :: "u64 DownUpOrder"
  current_udp_packets :: "u64 DownUpOrder"
  current_icmp_packets :: "u64 DownUpOrder"
  current_tcp_retransmits :: "u64 DownUpOrder"
  current_tcp_retransmit_packets :: "u64 DownUpOrder"
  current_rtt_flows :: "u32 DownUpOrder"
  current_marks :: "u64 DownUpOrder"
  current_drops :: "u64 DownUpOrder"
  rtt_buffer :: RttBuffer
  parents :: "usize list"
  immediate_parent :: "usize option"
  node_type :: "string option"
  latitude :: "f32 option"
  longitude :: "f32 option"
  active_attachment_name :: "string option"
  heatmap :: "TemporalHeatmap option"
  qoq_heatmap :: "TemporalQoqHeatmap option"

text \<open>A node with its counters at zero and no history.\<close>

definition blank_node :: "string \<Rightarrow> usize list \<Rightarrow> usize option \<Rightarrow> NetworkJsonNode" where
  "blank_node name ps parent =
     \<lparr>nj_name = name, nj_id = None, virtual_node = False, max_throughput = (Fin 0, Fin 0),
      current_throughput = zeroed, current_packets = zeroed, current_tcp_packets = zeroed,
      current_udp_packets = zeroed, current_icmp_packets = zeroed, current_tcp_retransmits = zeroed,
      current_tcp_retransmit_packets = zeroed, current_rtt_flows = zeroed, current_marks = zeroed,
      current_drops = zeroed, rtt_buffer = default_buffer, parents = ps, immediate_parent = parent,
      node_type = None, latitude = None, longitude = None, active_attachment_name = None,
      heatmap = None, qoq_heatmap = None\<rparr>"

type_synonym NetworkJson = "NetworkJsonNode list"

definition root_node :: NetworkJsonNode where
  "root_node = blank_node ''Root'' [] None"

definition is_virtual_json :: "(string \<times> json) list \<Rightarrow> bool" where
  "is_virtual_json obj \<longleftrightarrow>
     value_or (Option.bind (map_of obj ''virtual'') as_bool) False
     \<or> value_or (map_option (\<lambda>s. to_ascii_lowercase s = ''virtual'')
         (Option.bind (map_of obj ''type'') as_str)) False"

definition node_of_json :: "string \<Rightarrow> (string \<times> json) list \<Rightarrow> usize list \<Rightarrow> usize \<Rightarrow> NetworkJsonNode" where
  "node_of_json name obj ps parent = (blank_node name ps (Some parent))
     \<lparr>nj_id := Option.bind (map_of obj ''id'') as_str,
      virtual_node := is_virtual_json obj,
      max_throughput := (json_to_mbps (map_of obj ''downloadBandwidthMbps''),
                         json_to_mbps (map_of obj ''uploadBandwidthMbps'')),
      node_type := map_option (\<lambda>v. value_or (as_str v) []) (map_of obj ''type''),
      latitude := json_to_coordinate (map_of obj ''latitude'') (Fin (- 90)) (Fin 90),
      longitude := json_to_coordinate (map_of obj ''longitude'') (Fin (- 180)) (Fin 180),
      active_attachment_name := Option.bind (map_of obj ''active_attachment_name'') as_str\<rparr>"

text \<open>
  One object: its node is pushed unless it is a \<open>children\<close> holder, then every entry that is an object
  is visited in turn.
\<close>

function recurse_node ::
    "NetworkJson \<Rightarrow> string \<Rightarrow> (string \<times> json) list \<Rightarrow> usize list \<Rightarrow> usize \<Rightarrow> NetworkJson"
  and recurse_entries ::
    "NetworkJson \<Rightarrow> (string \<times> json) list \<Rightarrow> usize list \<Rightarrow> usize \<Rightarrow> NetworkJson" where
  "recurse_node nodes name obj ps parent =
     (if name \<noteq> ''children''
      then recurse_entries (nodes @ [node_of_json name obj (ps @ [length nodes]) parent])
             obj (ps @ [length nodes]) (length nodes)
      else recurse_entries nodes obj ps (length nodes - 1))"
| "recurse_entries nodes [] ps my_id = nodes"
| "recurse_entries nodes ((key, JObject obj) # rest) ps my_id =
     recurse_entries
       (if key \<noteq> ''uploadBandwidthMbps'' \<and> key \<noteq> ''downloadBandwidthMbps''
        then recurse_node nodes key obj ps my_id else nodes) rest ps my_id"
| "recurse_entries nodes ((key, JNull) # rest) ps my_id = recurse_entries nodes rest ps my_id"
| "recurse_entries nodes ((key, JBool b) # rest) ps my_id = recurse_entries nodes rest ps my_id"
| "recurse_entries nodes ((key, JNumber x) # rest) ps my_id = recurse_entries nodes rest ps my_id"
| "recurse_entries nodes ((key, JString s) # rest) ps my_id = recurse_entries nodes rest ps my_id"
| "recurse_entries nodes ((key, JArray js) # rest) ps my_id = recurse_entries nodes rest ps my_id"
  by pat_completeness auto

termination
  by (relation "measure (\<lambda>x. case x of
        Inl (nodes, name, obj, ps, parent) \<Rightarrow> Suc (size_list (size_prod (\<lambda>_. 0) size) obj)
      | Inr (nodes, obj, ps, my_id) \<Rightarrow> size_list (size_prod (\<lambda>_. 0) size) obj)")
    auto

declare recurse_node.simps [simp del]

section \<open>Loading\<close>

datatype NetworkJsonError = ConfigLoadError | NetworkFileNotFound

definition network_of_json :: "json \<Rightarrow> NetworkJson" where
  "network_of_json j = (case j of
       JObject obj \<Rightarrow> foldl (\<lambda>nodes (key, value). case value of
           JObject inner \<Rightarrow> recurse_node nodes key inner [0] 0
         | _ \<Rightarrow> nodes) [root_node] obj
     | _ \<Rightarrow> [root_node])"

text \<open>
  The path comes from the configuration; reading the file and parsing it as JSON are parameters, with
  None for a failure.
\<close>

definition path_for_config :: "bool \<Rightarrow> bool option \<Rightarrow> (string \<Rightarrow> bool) \<Rightarrow> string \<Rightarrow> string \<Rightarrow> string" where
  "path_for_config ingress insight exists lqos_directory topology_state_directory =
     (if ingress then topology_state_directory @ ''/network.effective.json''
      else if value_or insight False
      then (let tmp_path = lqos_directory @ ''/network.insight.json'' in
            if exists tmp_path then tmp_path else lqos_directory @ ''/network.json'')
      else lqos_directory @ ''/network.json'')"

definition load_network ::
  "string option \<Rightarrow> (string \<Rightarrow> bool) \<Rightarrow> (string \<Rightarrow> string option) \<Rightarrow> (string \<Rightarrow> json option)
    \<Rightarrow> (NetworkJson, NetworkJsonError) result" where
  "load_network path exists read_to_string from_str =
     (case path of
        None \<Rightarrow> Err NetworkFileNotFound
      | Some p \<Rightarrow>
          if \<not> exists p then Err NetworkFileNotFound
          else case read_to_string p of
            None \<Rightarrow> Err ConfigLoadError
          | Some text \<Rightarrow> (case from_str text of
              None \<Rightarrow> Err ConfigLoadError
            | Some j \<Rightarrow> Ok (network_of_json j)))"

section \<open>Lookups\<close>

definition get_index_for_name :: "NetworkJson \<Rightarrow> string \<Rightarrow> usize option" where
  "get_index_for_name self name =
     (let i = length (takeWhile (\<lambda>n. nj_name n \<noteq> name) self) in if i < length self then Some i else None)"

definition get_parents_for_circuit_id :: "NetworkJson \<Rightarrow> string \<Rightarrow> usize list option" where
  "get_parents_for_circuit_id self circuit_id =
     map_option parents (find (\<lambda>n. nj_name n = circuit_id) self)"

section \<open>The counters of a cycle\<close>

definition zero_node :: "NetworkJsonNode \<Rightarrow> NetworkJsonNode" where
  "zero_node n = n
     \<lparr>current_throughput := zeroed, current_packets := zeroed, current_tcp_packets := zeroed,
      current_udp_packets := zeroed, current_icmp_packets := zeroed, current_tcp_retransmits := zeroed,
      current_tcp_retransmit_packets := zeroed, current_rtt_flows := zeroed,
      rtt_buffer := clear (rtt_buffer n), current_drops := zeroed, current_marks := zeroed\<rparr>"

definition zero_throughput_and_rtt :: "NetworkJson \<Rightarrow> NetworkJson" where
  "zero_throughput_and_rtt self = map zero_node self"

text \<open>The loop over the target indices; an index without a node is only reported.\<close>

definition update_targets :: "(NetworkJsonNode \<Rightarrow> NetworkJsonNode) \<Rightarrow> usize list \<Rightarrow> NetworkJson \<Rightarrow> NetworkJson" where
  "update_targets f targets self =
     foldl (\<lambda>nodes idx. if idx < length nodes then nodes[idx := f (nodes ! idx)] else nodes) self targets"

definition add_throughput_cycle ::
  "NetworkJson \<Rightarrow> usize list \<Rightarrow> u64 \<times> u64 \<Rightarrow> u64 \<times> u64 \<Rightarrow> u64 \<times> u64 \<Rightarrow> u64 \<times> u64 \<Rightarrow> u64 \<times> u64 \<Rightarrow> NetworkJson" where
  "add_throughput_cycle self targets bytes packets tcp udp icmp =
     update_targets (\<lambda>node. node
       \<lparr>current_throughput := checked_add_tuple (current_throughput node) bytes,
        current_packets := checked_add_tuple (current_packets node) packets,
        current_tcp_packets := checked_add_tuple (current_tcp_packets node) tcp,
        current_udp_packets := checked_add_tuple (current_udp_packets node) udp,
        current_icmp_packets := checked_add_tuple (current_icmp_packets node) icmp\<rparr>) targets self"

definition add_rtt_buffer_cycle :: "NetworkJson \<Rightarrow> usize list \<Rightarrow> RttBuffer \<Rightarrow> NetworkJson" where
  "add_rtt_buffer_cycle self targets rtt =
     update_targets (\<lambda>node. node\<lparr>rtt_buffer := accumulate (rtt_buffer node) rtt\<rparr>) targets self"

definition add_rtt_flow_cycle :: "NetworkJson \<Rightarrow> usize list \<Rightarrow> u32 DownUpOrder \<Rightarrow> NetworkJson" where
  "add_rtt_flow_cycle self targets flows =
     update_targets (\<lambda>node. node\<lparr>current_rtt_flows := checked_add (current_rtt_flows node) flows\<rparr>) targets self"

definition add_retransmit_cycle ::
  "NetworkJson \<Rightarrow> usize list \<Rightarrow> u64 DownUpOrder \<Rightarrow> u64 DownUpOrder \<Rightarrow> NetworkJson" where
  "add_retransmit_cycle self targets tcp_retransmits tcp_packets =
     update_targets (\<lambda>node. node
       \<lparr>current_tcp_retransmits := checked_add (current_tcp_retransmits node) tcp_retransmits,
        current_tcp_retransmit_packets := checked_add (current_tcp_retransmit_packets node) tcp_packets\<rparr>) targets self"

definition add_queue_cycle ::
  "NetworkJson \<Rightarrow> usize list \<Rightarrow> u64 DownUpOrder \<Rightarrow> u64 DownUpOrder \<Rightarrow> NetworkJson" where
  "add_queue_cycle self targets marks drops =
     update_targets (\<lambda>node. node
       \<lparr>current_marks := checked_add (current_marks node) marks,
        current_drops := checked_add (current_drops node) drops\<rparr>) targets self"

section \<open>Carrying state over a reload\<close>

definition name_count :: "NetworkJson \<Rightarrow> string \<Rightarrow> nat" where
  "name_count nodes name = length (filter (\<lambda>n. nj_name n = name) nodes)"

text \<open>The node of the previous tree that a node of the new one continues: by id, else by a unique name.\<close>

definition previous_by_id :: "NetworkJson \<Rightarrow> string \<Rightarrow> NetworkJsonNode option" where
  "previous_by_id previous i = find (\<lambda>n. nj_id n = Some i) (rev previous)"

definition previous_by_unique_name :: "NetworkJson \<Rightarrow> string \<Rightarrow> NetworkJsonNode option" where
  "previous_by_unique_name previous name =
     (if name_count previous name = 1 then find (\<lambda>n. nj_name n = name) previous else None)"

definition preserved_node :: "NetworkJson \<Rightarrow> NetworkJson \<Rightarrow> NetworkJsonNode \<Rightarrow> NetworkJsonNode option" where
  "preserved_node self previous node =
     or_opt (Option.bind (nj_id node) (previous_by_id previous))
       (if name_count self (nj_name node) = 1 then previous_by_unique_name previous (nj_name node) else None)"

definition carry_forward_heatmaps_from :: "NetworkJson \<Rightarrow> NetworkJson \<Rightarrow> NetworkJson" where
  "carry_forward_heatmaps_from self previous =
     map (\<lambda>node. case preserved_node self previous node of
         Some old \<Rightarrow> node\<lparr>heatmap := heatmap old, qoq_heatmap := qoq_heatmap old\<rparr>
       | None \<Rightarrow> node) self"

definition carry_forward_live_counters_from :: "NetworkJson \<Rightarrow> NetworkJson \<Rightarrow> NetworkJson" where
  "carry_forward_live_counters_from self previous =
     map (\<lambda>node. case preserved_node self previous node of
         Some old \<Rightarrow> node
           \<lparr>current_throughput := current_throughput old, current_packets := current_packets old,
            current_tcp_packets := current_tcp_packets old, current_udp_packets := current_udp_packets old,
            current_icmp_packets := current_icmp_packets old,
            current_tcp_retransmits := current_tcp_retransmits old,
            current_tcp_retransmit_packets := current_tcp_retransmit_packets old,
            current_rtt_flows := current_rtt_flows old, current_marks := current_marks old,
            current_drops := current_drops old, rtt_buffer := rtt_buffer old\<rparr>
       | None \<Rightarrow> node) self"

section \<open>Recording the heatmaps\<close>

definition utilization_percent_bytes :: "u64 \<Rightarrow> f64 \<Rightarrow> f32 option" where
  "utilization_percent_bytes bytes max_mbps =
     (if max_mbps \<le> Fin 0 then None
      else Some (f32_of_f64 (f64_mul (f64_div (f64_of_u64 (saturating_mul bytes 8))
             (f64_mul max_mbps (Fin 1000000))) (Fin 100))))"

text \<open>The literal \<open>0.05\<close> is the nearest double.\<close>

definition TCP_RETRANSMIT_CONFIDENCE_MAX :: f64 where
  "TCP_RETRANSMIT_CONFIDENCE_MAX = f64_of_rat (1 / 20)"

definition tcp_retransmit_loss_proxy :: "u64 \<Rightarrow> u64 \<Rightarrow> LossMeasurement option" where
  "tcp_retransmit_loss_proxy retransmits packets =
     (if packets = 0 then None
      else Some (TcpRetransmitProxy
        (f64_clamp (f64_div (f64_of_u64 retransmits) (f64_of_u64 packets)) (Fin 0) (Fin 1))
        (f64_mul (f64_clamp (f64_div (f64_of_u64 packets) (Fin 10000)) (Fin 0) (Fin 1))
          TCP_RETRANSMIT_CONFIDENCE_MAX)))"

definition rtt_percentile_ms :: "RttBuffer \<Rightarrow> FlowbeeEffectiveDirection \<Rightarrow> u8 \<Rightarrow> f32 option" where
  "rtt_percentile_ms rtt d p = map_option (\<lambda>r. f32_of_f64 (nanos_to_ms (as_nanos r))) (percentile rtt Current d p)"

definition heat_sample :: "NetworkJsonNode \<Rightarrow> HeatSample" where
  "heat_sample node =
     \<lparr>hs_download = value_or (utilization_percent_bytes (down (current_throughput node)) (fst (max_throughput node))) (Fin 0),
      hs_upload = value_or (utilization_percent_bytes (up (current_throughput node)) (snd (max_throughput node))) (Fin 0),
      hs_rtt_p50_down = rtt_percentile_ms (rtt_buffer node) Download 50,
      hs_rtt_p50_up = rtt_percentile_ms (rtt_buffer node) Upload 50,
      hs_rtt_p90_down = rtt_percentile_ms (rtt_buffer node) Download 90,
      hs_rtt_p90_up = rtt_percentile_ms (rtt_buffer node) Upload 90,
      hs_retransmit_down = executive_retransmit_percent (down (current_tcp_retransmits node)) (down (current_tcp_retransmit_packets node)),
      hs_retransmit_up = executive_retransmit_percent (up (current_tcp_retransmits node)) (up (current_tcp_retransmit_packets node))\<rparr>"

definition node_scores :: "QooProfile option \<Rightarrow> NetworkJsonNode \<Rightarrow> QoqScores" where
  "node_scores qoo_profile node =
     (let loss_down = tcp_retransmit_loss_proxy (down (current_tcp_retransmits node)) (down (current_tcp_retransmit_packets node));
          loss_up = tcp_retransmit_loss_proxy (up (current_tcp_retransmits node)) (up (current_tcp_retransmit_packets node))
      in case qoo_profile of
           Some profile \<Rightarrow> compute_qoq_scores profile (rtt_buffer node) loss_down loss_up
         | None \<Rightarrow> default_scores)"

definition record_site_heatmaps :: "QooProfile option \<Rightarrow> NetworkJson \<Rightarrow> bool \<Rightarrow> NetworkJson" where
  "record_site_heatmaps qoo_profile self enable =
     (if \<not> enable then map (\<lambda>node. node\<lparr>heatmap := None, qoq_heatmap := None\<rparr>) self
      else map (\<lambda>node. let scores = node_scores qoo_profile node in node
        \<lparr>heatmap := Some (add_sample (value_or (heatmap node) new_rolling) (heat_sample node)),
         qoq_heatmap := Some (qoq_add_sample (value_or (qoq_heatmap node) new_rolling)
           (download_total_f32 scores) (upload_total_f32 scores))\<rparr>) self)"

section \<open>The transport copy\<close>

record NetworkJsonTransport =
  tr_name :: string
  tr_id :: "string option"
  tr_is_virtual :: bool
  tr_runtime_virtualized :: bool
  tr_max_throughput :: "f64 \<times> f64"
  tr_configured_max_throughput :: "f64 \<times> f64"
  tr_effective_max_throughput :: "(f64 \<times> f64) option"
  tr_current_throughput :: "u64 \<times> u64"
  tr_current_packets :: "u64 \<times> u64"
  tr_current_tcp_packets :: "u64 \<times> u64"
  tr_current_udp_packets :: "u64 \<times> u64"
  tr_current_icmp_packets :: "u64 \<times> u64"
  tr_current_retransmits :: "u64 \<times> u64"
  tr_current_tcp_retransmit_packets :: "u64 \<times> u64"
  tr_current_rtt_flows :: "u32 \<times> u32"
  tr_current_marks :: "u64 \<times> u64"
  tr_current_drops :: "u64 \<times> u64"
  tr_rtts :: "f32 list"
  tr_qoo :: "f32 option \<times> f32 option"
  tr_parents :: "usize list"
  tr_immediate_parent :: "usize option"
  tr_node_type :: "string option"
  tr_latitude :: "f32 option"
  tr_longitude :: "f32 option"
  tr_active_attachment_name :: "string option"
  tr_subtree_site_count :: u32
  tr_subtree_circuit_count :: u32
  tr_subtree_device_count :: u32

definition pair_of :: "'a DownUpOrder \<Rightarrow> 'a \<times> 'a" where
  "pair_of x = (down x, up x)"

definition clone_to_transit :: "NetworkJsonNode \<Rightarrow> NetworkJsonTransport" where
  "clone_to_transit self =
     (let download = rtt_percentile_ms (rtt_buffer self) Download 50;
          upload = rtt_percentile_ms (rtt_buffer self) Upload 50
      in \<lparr>tr_name = nj_name self, tr_id = nj_id self, tr_is_virtual = virtual_node self,
          tr_runtime_virtualized = False, tr_max_throughput = max_throughput self,
          tr_configured_max_throughput = max_throughput self, tr_effective_max_throughput = None,
          tr_current_throughput = pair_of (current_throughput self),
          tr_current_packets = pair_of (current_packets self),
          tr_current_tcp_packets = pair_of (current_tcp_packets self),
          tr_current_udp_packets = pair_of (current_udp_packets self),
          tr_current_icmp_packets = pair_of (current_icmp_packets self),
          tr_current_retransmits = pair_of (current_tcp_retransmits self),
          tr_current_tcp_retransmit_packets = pair_of (current_tcp_retransmit_packets self),
          tr_current_rtt_flows = pair_of (current_rtt_flows self),
          tr_current_marks = pair_of (current_marks self),
          tr_current_drops = pair_of (current_drops self),
          tr_rtts = (case (download, upload) of
              (None, None) \<Rightarrow> []
            | (Some d, None) \<Rightarrow> [d, d]
            | (None, Some u) \<Rightarrow> [u, u]
            | (Some d, Some u) \<Rightarrow> [d, u]),
          tr_qoo = (case qoq_heatmap self of
              None \<Rightarrow> (None, None)
            | Some h \<Rightarrow> latest_values (qoq_blocks h)),
          tr_parents = parents self, tr_immediate_parent = immediate_parent self,
          tr_node_type = node_type self, tr_latitude = latitude self, tr_longitude = longitude self,
          tr_active_attachment_name = active_attachment_name self,
          tr_subtree_site_count = 0, tr_subtree_circuit_count = 0, tr_subtree_device_count = 0\<rparr>)"

definition get_cloned_entry_by_index :: "NetworkJson \<Rightarrow> usize \<Rightarrow> NetworkJsonTransport option" where
  "get_cloned_entry_by_index self index =
     (if index < length self then Some (clone_to_transit (self ! index)) else None)"

definition get_cloned_children :: "NetworkJson \<Rightarrow> usize \<Rightarrow> (usize \<times> NetworkJsonTransport) list" where
  "get_cloned_children self index =
     map (\<lambda>(i, n). (i, clone_to_transit n))
       (filter (\<lambda>(i, n). immediate_parent n = Some index) (enumerate 0 self))"

end
