(* ===== verification/Rtt_Properties.thy ===== *)
theory Rtt_Properties
  imports Rtt_Buffer "HOL-Library.Multiset"
begin

text \<open>
  What the histograms report. A bucket index is the number of bucket limits a reading has reached, so
  the index grows with the reading and the reported bound is close to it; the totals of a buffer,
  also of one merged from many flows, are the (saturated) histogram of every reading pushed; and the
  percentile loop returns the bucket of the reading of that rank in sorted order.
\<close>

section \<open>Buckets and their bounds\<close>

definition bucket_limits :: "nat list" where
  "bucket_limits = [1, 2, 3, 4, 5, 6, 7, 8, 9, 10, 12, 14, 16, 18, 20, 25, 30, 35, 40, 45, 50,
     60, 70, 80, 90, 100, 120, 140, 160, 180, 200, 250, 300, 400, 500, 750, 1000]"

lemma length_bucket_limits [simp]: "length bucket_limits = 37"
  by (simp add: bucket_limits_def)

lemma small_ms:
  assumes "ms \<le> 19"
  shows "(if ms \<le> 9 then ms else 10 + (ms - 10) div 2) = length (takeWhile (\<lambda>l. l \<le> ms) bucket_limits)"
proof -
  have "list_all (\<lambda>ms. (if ms \<le> 9 then ms else 10 + (ms - 10) div 2)
      = length (takeWhile (\<lambda>l. l \<le> ms) bucket_limits)) [0..<20]"
    by code_simp
  then show ?thesis using assms unfolding list_all_iff by auto
qed

lemma bucket_of_eq:
  "bucket_of rtt = length (takeWhile (\<lambda>l. l \<le> unat (as_nanos rtt) div 1000000) bucket_limits)"
proof -
  define ms where "ms = unat (as_nanos rtt) div 1000000"
  show ?thesis
  proof (cases "ms \<le> 19")
    case True
    with small_ms [OF this] show ?thesis by (auto simp: bucket_of_def ms_def [symmetric])
  next
    case False
    then show ?thesis
      unfolding bucket_of_def ms_def [symmetric] Let_def bucket_limits_def by auto
  qed
qed

lemma bucket_of_less: "bucket_of rtt < 38"
proof -
  have "bucket_of rtt \<le> length bucket_limits"
    unfolding bucket_of_eq by (rule length_takeWhile_le)
  then show ?thesis by simp
qed

lemma length_takeWhile_mono:
  "(\<And>x. P x \<Longrightarrow> Q x) \<Longrightarrow> length (takeWhile P xs) \<le> length (takeWhile Q xs)"
  by (induction xs) auto

lemma bucket_of_mono: "a \<le> b \<Longrightarrow> bucket_of a \<le> bucket_of b"
proof -
  assume "a \<le> b"
  then have "unat (as_nanos a) div 1000000 \<le> unat (as_nanos b) div 1000000"
    by (simp add: less_eq_RttData_def word_le_nat_alt div_le_mono)
  then show ?thesis unfolding bucket_of_eq by (intro length_takeWhile_mono) simp
qed

lemma unat_bucket_upper_bound:
  "unat (bucket_upper_bound_nanos i) = (if i < 37 then bucket_limits ! i else 1000) * 1000000"
proof -
  define l where "l = (if i < 37 then bucket_limits ! i else 1000)"
  have "list_all (\<lambda>l. l \<le> 1000) bucket_limits" by (simp add: bucket_limits_def)
  then have l: "l \<le> 1000" by (simp add: l_def list_all_length)
  have table: "map of_nat bucket_limits =
      [1, 2, 3, 4, 5, 6, 7, 8, 9, 10, 12, 14, 16, 18, 20, 25, 30, 35, 40, 45, 50, 60, 70, 80, 90,
       100, 120, 140, 160, 180, 200, 250, 300, 400, 500, 750, 1000 :: u64]"
    by (simp add: bucket_limits_def)
  have "bucket_upper_bound_nanos i = of_nat l * 1000000"
    unfolding bucket_upper_bound_nanos_def Let_def table [symmetric] by (simp add: l_def)
  also have "\<dots> = of_nat (l * 1000000)" by simp
  finally have "unat (bucket_upper_bound_nanos i) = unat (of_nat (l * 1000000) :: u64)" by simp
  also have "\<dots> = l * 1000000" using l by (simp add: unsigned_of_nat take_bit_nat_eq_self del: of_nat_mult)
  finally show ?thesis by (simp add: l_def)
qed

lemma limit_steps:
  "list_all (\<lambda>i. let lo = if i = 0 then 0 else bucket_limits ! (i - 1) in
     2 * bucket_limits ! i \<le> 2 * lo + max 2 lo) [0..<37]"
  by code_simp

text \<open>
  Below one second the reported bound exceeds the reading, by at most a millisecond or half of it.
\<close>

lemma bucket_bound_close:
  assumes "unat (as_nanos r) < 1000000000"
  shows "unat (as_nanos r) < unat (bucket_upper_bound_nanos (bucket_of r))"
    and "2 * unat (bucket_upper_bound_nanos (bucket_of r))
      \<le> 2 * unat (as_nanos r) + max 2000000 (unat (as_nanos r))"
proof -
  let ?ns = "unat (as_nanos r)" and ?i = "bucket_of r"
  let ?ms = "?ns div 1000000"
  have ms: "?ms < 1000" using assms by simp
  have "\<not> list_all (\<lambda>l. l \<le> ?ms) bucket_limits" using ms by (simp add: bucket_limits_def)
  then have i: "?i < 37"
    unfolding bucket_of_eq list_all_iff
    by (metis (no_types, lifting) length_bucket_limits length_takeWhile_le le_neq_implies_less
        takeWhile_eq_all_conv takeWhile_eq_take take_all)
  then have up: "?ms < bucket_limits ! ?i"
    using nth_length_takeWhile [of "\<lambda>l. l \<le> ?ms" bucket_limits] unfolding bucket_of_eq by simp
  have lo: "(if ?i = 0 then 0 else bucket_limits ! (?i - 1)) \<le> ?ms"
  proof (cases "?i = 0")
    case False
    then have "takeWhile (\<lambda>l. l \<le> ?ms) bucket_limits ! (?i - 1) \<in> set (takeWhile (\<lambda>l. l \<le> ?ms) bucket_limits)"
      unfolding bucket_of_eq by (intro nth_mem) simp
    moreover have "takeWhile (\<lambda>l. l \<le> ?ms) bucket_limits ! (?i - 1) = bucket_limits ! (?i - 1)"
      using False unfolding bucket_of_eq by (intro takeWhile_nth) simp
    ultimately show ?thesis using False set_takeWhileD by fastforce
  qed simp
  have b: "unat (bucket_upper_bound_nanos ?i) = bucket_limits ! ?i * 1000000"
    using i by (simp add: unat_bucket_upper_bound)
  show "?ns < unat (bucket_upper_bound_nanos ?i)" unfolding b using up by linarith
  have "2 * bucket_limits ! ?i \<le> 2 * (if ?i = 0 then 0 else bucket_limits ! (?i - 1))
      + max 2 (if ?i = 0 then 0 else bucket_limits ! (?i - 1))"
    using limit_steps i unfolding list_all_iff Let_def by simp
  with lo have "2 * bucket_limits ! ?i \<le> 2 * ?ms + max 2 ?ms" by (auto simp: max_def split: if_splits)
  then have "2 * unat (bucket_upper_bound_nanos ?i) \<le> (2 * ?ms + max 2 ?ms) * 1000000"
    unfolding b by simp
  also have "\<dots> = 2 * (?ms * 1000000) + max 2000000 (?ms * 1000000)"
    by (simp add: max_def algebra_simps)
  also have "\<dots> \<le> 2 * ?ns + max 2000000 ?ns" by (intro add_mono max.mono) simp_all
  finally show "2 * unat (bucket_upper_bound_nanos ?i) \<le> 2 * ?ns + max 2000000 ?ns" .
qed

section \<open>The percentile loop\<close>

text \<open>The first non-empty bucket at which the running count has reached a target.\<close>

fun first_reach :: "usize \<Rightarrow> u32 list \<Rightarrow> u32 \<Rightarrow> u32 \<Rightarrow> usize option" where
  "first_reach i [] c t = None"
| "first_reach i (n # ns) c t =
     (if n \<noteq> 0 \<and> t \<le> c + n then Some i else first_reach (i + 1) ns (c + n) t)"

abbreviation bound_of :: "usize \<Rightarrow> RttData" where
  "bound_of i \<equiv> RttData (bucket_upper_bound_nanos i)"

lemma reach_targets_eq:
  "k \<le> length ts \<Longrightarrow> length rs = length ts \<Longrightarrow>
    reach_targets b c ts rs k =
      (let m = length (takeWhile (\<lambda>t. t \<le> c) (drop k ts))
       in (take k rs @ replicate m (Some b) @ drop (k + m) rs, k + m))"
proof (induction b c ts rs k rule: reach_targets.induct)
  case (1 b c ts rs k)
  show ?case
  proof (cases "k < length ts \<and> ts ! k \<le> c")
    case True
    then have "drop k ts = ts ! k # drop (Suc k) ts" by (simp add: Cons_nth_drop_Suc)
    with True 1 show ?thesis
      by (simp add: reach_targets.simps [of b c ts rs k] Let_def take_Suc_conv_app_nth
          take_update_swap drop_update_cancel list_update_append)
  next
    case False
    then have "takeWhile (\<lambda>t. t \<le> c) (drop k ts) = []"
      by (cases "k < length ts") (simp_all add: Cons_nth_drop_Suc [symmetric])
    with False show ?thesis by (subst reach_targets.simps) auto
  qed
qed

lemma sorted_takeWhile_drop:
  assumes "sorted ts"
  shows "list_all (\<lambda>t. \<not> t \<le> c) (drop (length (takeWhile (\<lambda>t. t \<le> (c :: 'a::linorder)) ts)) ts)"
  using assms
proof (induction ts)
  case (Cons t ts)
  show ?case
  proof (cases "t \<le> c")
    case True
    with Cons show ?thesis by simp
  next
    case False
    then have "\<not> x \<le> c" if "t \<le> x" for x using that order_trans by blast
    with False Cons.prems show ?thesis by (simp add: list_all_iff)
  qed
qed simp

lemma bucket_loop_eq:
  assumes "k \<le> length ts" "k < length ts \<or> ts = []" "length rs = length ts"
    "drop k rs = replicate (length ts - k) None" "sorted ts"
  shows "bucket_loop i cs ts c rs k =
    take k rs @ map (\<lambda>t. map_option bound_of (first_reach i cs c t)) (drop k ts)"
  using assms
proof (induction cs arbitrary: i c rs k)
  case Nil
  have "rs = take k rs @ drop k rs" by simp
  with Nil show ?case by (simp add: map_replicate_const)
next
  case (Cons n cs)
  show ?case
  proof (cases "n = 0")
    case True
    with Cons show ?thesis by simp
  next
    case False
    define m where "m = length (takeWhile (\<lambda>t. t \<le> c + n) (drop k ts))"
    let ?rs = "take k rs @ replicate m (Some (bound_of i)) @ drop (k + m) rs"
    have m: "m \<le> length ts - k" using length_takeWhile_le [of _ "drop k ts"] by (simp add: m_def)
    have r: "reach_targets (bound_of i) (c + n) ts rs k = (?rs, k + m)"
      using reach_targets_eq [OF Cons.prems(1,3)] by (simp add: Let_def m_def)
    have split: "drop k ts = take m (drop k ts) @ drop (k + m) ts"
      using append_take_drop_id [of m "drop k ts"] by (simp add: add.commute)
    have hit: "list_all (\<lambda>t. t \<le> c + n) (take m (drop k ts))"
      unfolding m_def takeWhile_eq_take [symmetric] list_all_iff by (auto dest: set_takeWhileD)
    have miss: "list_all (\<lambda>t. \<not> t \<le> c + n) (drop (k + m) ts)"
      using sorted_takeWhile_drop [of "drop k ts" "c + n"] Cons.prems(5)
      by (simp add: sorted_wrt_drop add.commute m_def)
    have reached: "map (\<lambda>t. map_option bound_of (first_reach i (n # cs) c t)) (drop k ts) =
        replicate m (Some (bound_of i)) @
        map (\<lambda>t. map_option bound_of (first_reach (i + 1) cs (c + n) t)) (drop (k + m) ts)"
    proof -
      have 1: "map (\<lambda>t. map_option bound_of (first_reach i (n # cs) c t)) (take m (drop k ts)) =
          replicate m (Some (bound_of i))"
        using hit False m by (intro replicate_eqI) (auto simp: list_all_iff)
      have 2: "map (\<lambda>t. map_option bound_of (first_reach i (n # cs) c t)) (drop (k + m) ts) =
          map (\<lambda>t. map_option bound_of (first_reach (i + 1) cs (c + n) t)) (drop (k + m) ts)"
        using miss by (auto simp: list_all_iff)
      show ?thesis by (subst split) (simp only: map_append 1 2)
    qed
    show ?thesis
    proof (cases "k + m = length ts")
      case True
      then show ?thesis using False r reached Cons.prems(3) by simp
    next
      case more: False
      have "bucket_loop (i + 1) cs ts (c + n) ?rs (k + m) =
          take (k + m) ?rs @ map (\<lambda>t. map_option bound_of (first_reach (i + 1) cs (c + n) t)) (drop (k + m) ts)"
      proof (rule Cons.IH)
        show "k + m < length ts \<or> ts = []" using more m Cons.prems by auto
        show "drop (k + m) ?rs = replicate (length ts - (k + m)) None"
        proof -
          have "drop (k + m) rs = drop m (drop k rs)" by (simp add: add.commute)
          then show ?thesis using Cons.prems m by simp
        qed
      qed (use Cons.prems m in simp_all)
      moreover have "take (k + m) ?rs = take k rs @ replicate m (Some (bound_of i))"
        using Cons.prems by simp
      ultimately show ?thesis using False r reached more by simp
    qed
  qed
qed

text \<open>The sorted list of bucket indices a histogram stands for.\<close>

fun expand :: "usize \<Rightarrow> u32 list \<Rightarrow> usize list" where
  "expand i [] = []"
| "expand i (n # ns) = replicate (unat n) i @ expand (i + 1) ns"

lemma length_expand [simp]: "length (expand i cs) = sum_list (map unat cs)"
  by (induction i cs rule: expand.induct) simp_all

lemma expand_ge: "x \<in> set (expand i cs) \<Longrightarrow> i \<le> x"
  by (induction i cs rule: expand.induct) auto

lemma sorted_expand [simp]: "sorted (expand i cs)"
  by (induction i cs rule: expand.induct) (auto simp: sorted_append dest: expand_ge)

lemma count_expand:
  "count (mset (expand i cs)) x = (if i \<le> x \<and> x < i + length cs then unat (cs ! (x - i)) else 0)"
proof (induction i cs rule: expand.induct)
  case (2 i n ns)
  have "x - i = Suc (x - Suc i)" if "i < x" using that by simp
  with 2 show ?case by (auto simp: nth_Cons')
qed simp

lemma expand_eq_sort:
  assumes "\<And>j. j < length cs \<Longrightarrow> unat (cs ! j) = count_list ys j"
    and "list_all (\<lambda>y. y < length cs) ys"
  shows "expand 0 cs = sort ys"
proof -
  have "count (mset (expand 0 cs)) x = count (mset ys) x" for x
  proof (cases "x < length cs")
    case False
    then have "x \<notin> set ys" using assms(2) by (auto simp: list_all_iff)
    then have "count (mset ys) x = 0" by (simp only: count_eq_zero_iff set_mset_mset not_False_eq_True)
    moreover have "count (mset (expand 0 cs)) x = 0" by (simp only: count_expand) (simp add: False)
    ultimately show ?thesis by (simp only:)
  next
    case True
    then have "count (mset (expand 0 cs)) x = count_list ys x" by (simp only: count_expand assms(1)) simp
    then show ?thesis by (simp only: count_mset)
  qed
  then have "mset (expand 0 cs) = mset ys" by (rule multiset_eqI)
  then show ?thesis by (metis properties_for_sort sorted_expand)
qed

lemma unat_sum_list:
  "sum_list (map unat cs) < 2 ^ 32 \<Longrightarrow> unat (sum_list cs :: u32) = sum_list (map unat cs)"
  by (induction cs) (simp_all add: unat_add_lem [THEN iffD1])

lemma first_reach_nth:
  assumes "unat c + sum_list (map unat cs) < 2 ^ 32" and "c < t"
  shows "first_reach i cs c t =
    (if unat t \<le> unat c + sum_list (map unat cs)
     then Some (expand i cs ! (unat t - unat c - 1)) else None)"
  using assms
proof (induction cs arbitrary: i c)
  case Nil
  then show ?case by (simp add: word_less_nat_alt)
next
  case (Cons n cs)
  have add: "unat (c + n) = unat c + unat n"
    using Cons.prems(1) by (intro unat_add_lem [THEN iffD1]) simp
  have t: "unat c < unat t" using Cons.prems(2) by (simp add: word_less_nat_alt)
  show ?case
  proof (cases "t \<le> c + n")
    case True
    then have le: "unat t \<le> unat c + unat n" by (simp add: word_le_nat_alt add)
    then have "n \<noteq> 0" using t by auto
    moreover have "unat t - unat c - 1 < unat n" using le t by linarith
    ultimately show ?thesis using True le by (simp add: nth_append)
  next
    case False
    then have "c + n < t" "unat c + unat n < unat t" by (simp_all add: word_le_nat_alt word_less_nat_alt add)
    then have "\<not> unat t - unat c - 1 < unat n" "unat t - unat c - 1 - unat n = unat t - unat (c + n) - 1"
      by (simp_all add: add)
    with Cons.IH [OF _ \<open>c + n < t\<close>, of "i + 1"] False Cons.prems(1) show ?thesis
      by (simp add: add nth_append add.assoc)
  qed
qed

lemma unat_div_ceil: "unat (u32_div_ceil w 100) = (unat w + 99) div 100"
proof -
  have z: "w mod 100 = 0 \<longleftrightarrow> unat w mod 100 = 0"
    by (simp add: word_unat_eq_iff unat_mod)
  have "unat w < 2 ^ LENGTH(32)" by (rule unsigned_less)
  then have "unat w div 100 + 1 < 2 ^ 32" by simp
  then have "unat (w div 100 + 1) = unat w div 100 + 1"
    by (subst unat_add_lem [THEN iffD1]) (simp_all add: unat_div)
  moreover have "(unat w + 99) div 100 = unat w div 100 + (if unat w mod 100 = 0 then 0 else 1)"
  proof -
    have "(r + 99) div 100 = (if r = 0 then 0 else 1)" if "r < 100" for r :: nat
      using that by (cases "r = 0") (simp_all add: div_if)
    then show ?thesis using div_add1_eq [of "unat w" 99 100] by simp
  qed
  ultimately show ?thesis by (simp add: u32_div_ceil_def z unat_div)
qed

lemma unat_rank_target:
  assumes "unat p * unat n < 2 ^ 32"
  shows "unat (rank_target n p) = (unat p * unat n + 99) div 100"
proof -
  have p: "unat (ucast p :: u32) = unat p"
    by (simp add: unsigned_ucast_eq take_bit_nat_eq_self less_trans [OF unat_u8_less])
  have "unat (ucast p * n) = unat p * unat n"
    using assms by (simp add: unat_word_ariths p)
  then show ?thesis by (simp add: rank_target_def unat_div_ceil)
qed

text \<open>
  When the histogram holds the bucket indices \<open>ys\<close>, the percentile is the bound of the index of its
  rank.
\<close>

lemma percentiles_loop:
  assumes "ps \<noteq> []" "2 \<le> sum_list (scope_bucket scope (pick_bucket b d))"
    and "sorted (map (rank_target (sum_list (scope_bucket scope (pick_bucket b d)))) ps)"
  shows "percentiles_from_bucket b scope d ps =
    those (map (\<lambda>p. map_option bound_of (first_reach 0 (scope_bucket scope (pick_bucket b d)) 0
      (rank_target (sum_list (scope_bucket scope (pick_bucket b d))) p))) ps)"
proof -
  let ?cs = "scope_bucket scope (pick_bucket b d)"
  let ?ts = "map (rank_target (sum_list ?cs)) ps"
  have "bucket_loop 0 ?cs ?ts 0 (replicate (length ps) None) 0 =
      map (\<lambda>t. map_option bound_of (first_reach 0 ?cs 0 t)) ?ts"
    using assms by (subst bucket_loop_eq) simp_all
  moreover have "(if list_ex (\<lambda>r. r = None) rs then None else Some (map the rs)) = those rs" for rs :: "RttData option list"
    by (induction rs) (auto simp flip: list_ex_iff split: option.splits dest!: sym [of "Some _"])
  ultimately show ?thesis
    using assms by (simp add: percentiles_from_bucket_def Let_def not_less [symmetric] comp_def)
qed

lemma percentile_of_rank:
  assumes cs: "expand 0 (scope_bucket scope (pick_bucket b d)) = sort ys"
    and n: "2 \<le> length ys" and p: "0 < unat p" "unat p \<le> 100" and fits: "unat p * length ys < 2 ^ 32"
  shows "percentile b scope d p =
    Some (bound_of (sort ys ! ((unat p * length ys + 99) div 100 - 1)))"
proof -
  let ?cs = "scope_bucket scope (pick_bucket b d)"
  let ?k = "(unat p * length ys + 99) div 100"
  have len: "sum_list (map unat ?cs) = length ys" using arg_cong [OF cs, of length] by simp
  have "length ys \<le> unat p * length ys" using p(1) by simp
  then have small: "length ys < 2 ^ 32" using fits by linarith
  then have total: "unat (sum_list ?cs) = length ys" using len by (simp add: unat_sum_list)
  have k: "unat (rank_target (sum_list ?cs) p) = ?k" using fits by (simp add: unat_rank_target total)
  have "unat p * length ys \<le> 100 * length ys" using p(2) by simp
  then have "?k \<le> (100 * length ys + 99) div 100" by (intro div_le_mono) simp
  then have k2: "0 < ?k" "?k \<le> length ys" using n p(1) by (simp_all add: div_greater_zero_iff)
  have "0 < rank_target (sum_list ?cs) p" using k k2 by (simp add: word_less_nat_alt)
  then have "first_reach 0 ?cs 0 (rank_target (sum_list ?cs) p) = Some (sort ys ! (?k - 1))"
    using first_reach_nth [of 0 ?cs] k k2 small by (simp add: len cs)
  moreover have "2 \<le> sum_list ?cs" using n by (simp add: word_le_nat_alt total)
  ultimately show ?thesis by (simp add: percentile_def percentiles_loop)
qed

section \<open>Histograms of readings\<close>

definition saturated :: "nat \<Rightarrow> nat" where
  "saturated n = min (2 ^ 32 - 1) n"

text \<open>A bucket record holds the readings \<open>xs\<close>.\<close>

definition holds :: "RttBufferBucket \<Rightarrow> RttData list \<Rightarrow> bool" where
  "holds b xs \<longleftrightarrow> length (total_bucket b) = 38
     \<and> (\<forall>j < 38. unat (total_bucket b ! j) = saturated (count_list (map bucket_of xs) j))
     \<and> best_rtt b = (if xs = [] then None else Some (Min (set xs)))
     \<and> worst_rtt b = (if xs = [] then None else Some (Max (set xs)))"

lemma holdsI:
  assumes "length (total_bucket b) = 38"
    and "\<And>j. j < 38 \<Longrightarrow> unat (total_bucket b ! j) = saturated (count_list (map bucket_of xs) j)"
    and "best_rtt b = (if xs = [] then None else Some (Min (set xs)))"
    and "worst_rtt b = (if xs = [] then None else Some (Max (set xs)))"
  shows "holds b xs"
  using assms by (simp add: holds_def)

lemma holds_default: "holds default_bucket []"
  by (rule holdsI) (simp_all add: default_bucket_def saturated_def)

lemma unat_saturating_add_u32:
  "unat (saturating_add a b :: u32) = saturated (unat a + unat b)"
  by (simp add: unat_saturating_add saturated_def)

lemma saturated_add: "saturated (saturated a + saturated b) = saturated (a + b)"
  by (simp add: saturated_def)

lemma rotate_window_frame [simp]:
  "total_bucket (rotate_window t b) = total_bucket b" "best_rtt (rotate_window t b) = best_rtt b"
  "worst_rtt (rotate_window t b) = worst_rtt b"
  by (simp_all add: rotate_window_def Let_def)

lemma RttData_min: "RttData (min (as_nanos a) (as_nanos b)) = min a b"
  and RttData_max: "RttData (max (as_nanos a) (as_nanos b)) = max a b"
  by (simp_all add: min_def max_def less_eq_RttData_def)

lemma count_list_snoc: "count_list (ys @ [y]) j = count_list ys j + (if y = j then 1 else 0)"
  by (induction ys) auto

lemma holds_push:
  assumes "holds b xs"
  shows "holds (push_bucket r t b) (xs @ [r])"
proof (rule holdsI)
  note h = assms [unfolded holds_def]
  show "length (total_bucket (push_bucket r t b)) = 38"
    using h by (simp add: push_bucket_def Let_def)
  show "unat (total_bucket (push_bucket r t b) ! j) = saturated (count_list (map bucket_of (xs @ [r])) j)"
    if "j < 38" for j
  proof -
    have "saturated (saturated n + 1) = saturated (n + 1)" for n by (simp add: saturated_def)
    then show ?thesis
      using h that bucket_of_less [of r]
      by (auto simp: push_bucket_def Let_def nth_list_update unat_saturating_add_u32 count_list_snoc)
  qed
  show "best_rtt (push_bucket r t b) = (if xs @ [r] = [] then None else Some (Min (set (xs @ [r]))))"
    using h by (auto simp: push_bucket_def Let_def RttData_min min.commute)
  show "worst_rtt (push_bucket r t b) = (if xs @ [r] = [] then None else Some (Max (set (xs @ [r]))))"
    using h by (auto simp: push_bucket_def Let_def RttData_max max.commute)
qed

lemma holds_accumulate:
  assumes "holds a xs" "holds b ys"
  shows "holds (accumulate_bucket a b) (xs @ ys)"
proof (rule holdsI)
  note h = assms [unfolded holds_def]
  show "length (total_bucket (accumulate_bucket a b)) = 38"
    using h by (simp add: accumulate_bucket_def)
  show "unat (total_bucket (accumulate_bucket a b) ! j) = saturated (count_list (map bucket_of (xs @ ys)) j)"
    if "j < 38" for j
    using h that by (simp add: accumulate_bucket_def unat_saturating_add_u32 saturated_add)
  show "best_rtt (accumulate_bucket a b) = (if xs @ ys = [] then None else Some (Min (set (xs @ ys))))"
    using h by (auto simp: accumulate_bucket_def Min_Un)
  show "worst_rtt (accumulate_bucket a b) = (if xs @ ys = [] then None else Some (Max (set (xs @ ys))))"
    using h by (auto simp: accumulate_bucket_def Max_Un)
qed

lemma histogram_expand:
  assumes "length cs = 38" "\<forall>j < 38. unat (cs ! j) = saturated (count_list (map bucket_of xs) j)"
    and "length xs < 2 ^ 32"
  shows "expand 0 cs = sort (map bucket_of xs)"
proof (rule expand_eq_sort)
  fix j assume "j < length cs"
  moreover have "count_list (map bucket_of xs) j \<le> length xs"
    using count_le_length [of "map bucket_of xs" j] by simp
  ultimately show "unat (cs ! j) = count_list (map bucket_of xs) j"
    using assms by (simp add: saturated_def)
next
  show "list_all (\<lambda>y. y < length cs) (map bucket_of xs)"
    using assms(1) bucket_of_less by (simp add: list_all_iff)
qed

lemma holds_expand:
  "holds b xs \<Longrightarrow> length xs < 2 ^ 32 \<Longrightarrow> expand 0 (total_bucket b) = sort (map bucket_of xs)"
  by (rule histogram_expand) (simp_all add: holds_def)

section \<open>Merging buffers\<close>

text \<open>
  The contract of a summary that observes items one at a time and can be merged with another:
  \<open>rep s xs\<close> says that \<open>s\<close> summarises the items \<open>xs\<close>.
\<close>

locale mergeable_summary =
  fixes empty :: 's and observe :: "'s \<Rightarrow> 'x \<Rightarrow> 's" and merge :: "'s \<Rightarrow> 's \<Rightarrow> 's"
    and rep :: "'s \<Rightarrow> 'x list \<Rightarrow> bool"
  assumes rep_empty: "rep empty []"
    and rep_observe: "rep s xs \<Longrightarrow> rep (observe s x) (xs @ [x])"
    and rep_merge: "rep s xs \<Longrightarrow> rep t ys \<Longrightarrow> rep (merge s t) (xs @ ys)"
begin

lemma rep_run_from: "rep s ys \<Longrightarrow> rep (foldl observe s xs) (ys @ xs)"
proof (induction xs arbitrary: s ys)
  case (Cons x xs)
  from Cons.IH [OF rep_observe [OF Cons.prems]] show ?case by simp
qed simp

lemma rep_run: "rep (foldl observe empty xs) xs"
  using rep_run_from [OF rep_empty] by simp

lemma rep_merge_all_from:
  "rep s ys \<Longrightarrow> list_all2 rep ss xss \<Longrightarrow> rep (foldl merge s ss) (ys @ concat xss)"
proof (induction ss arbitrary: s ys xss)
  case (Cons t ss)
  then obtain xs xss' where "xss = xs # xss'" "rep t xs" "list_all2 rep ss xss'"
    by (auto simp: list_all2_Cons1)
  with Cons.IH [OF rep_merge [OF Cons.prems(1)]] show ?case by fastforce
qed simp

lemma rep_merge_all: "list_all2 rep ss xss \<Longrightarrow> rep (foldl merge empty ss) (concat xss)"
  using rep_merge_all_from [OF rep_empty] by simp

end

type_synonym rtt_event = "RttData \<times> FlowbeeEffectiveDirection \<times> u64"

definition push_event :: "RttBuffer \<Rightarrow> rtt_event \<Rightarrow> RttBuffer" where
  "push_event b e = (case e of (r, d, t) \<Rightarrow> push b r d t)"

definition events_of :: "FlowbeeEffectiveDirection \<Rightarrow> rtt_event list \<Rightarrow> rtt_event list" where
  "events_of d es = filter (\<lambda>(r, d', t). d' = d) es"

definition readings :: "FlowbeeEffectiveDirection \<Rightarrow> rtt_event list \<Rightarrow> RttData list" where
  "readings d es = map fst (events_of d es)"

lemma readings_append [simp]: "readings d (xs @ ys) = readings d xs @ readings d ys"
  by (simp add: readings_def events_of_def)

definition buffer_holds :: "RttBuffer \<Rightarrow> rtt_event list \<Rightarrow> bool" where
  "buffer_holds b es \<longleftrightarrow> (\<forall>d. holds (pick_bucket b d) (readings d es))"

lemma pick_update:
  "pick_bucket (update_bucket d f b) d' = (if d' = d then f (pick_bucket b d) else pick_bucket b d')"
  by (cases d; cases d') simp_all

lemma pick_push:
  "pick_bucket (push b r d t) d' =
    (if d' = d then push_bucket r t (pick_bucket b d) else pick_bucket b d')"
  by (cases d'; cases d) (simp_all add: push_def)

lemma pick_accumulate [simp]:
  "pick_bucket (accumulate a b) d = accumulate_bucket (pick_bucket a d) (pick_bucket b d)"
  by (cases d) (simp_all add: accumulate_def)

lemma pick_default [simp]: "pick_bucket default_buffer d = default_bucket"
  by (cases d) (simp_all add: default_buffer_def)

interpretation rtt: mergeable_summary default_buffer push_event accumulate buffer_holds
proof unfold_locales
  show "buffer_holds default_buffer []"
    by (simp add: buffer_holds_def readings_def events_of_def holds_default)
  show "buffer_holds (push_event s x) (xs @ [x])" if "buffer_holds s xs" for s xs x
    using that
    by (cases x) (auto simp: buffer_holds_def push_event_def pick_push holds_push readings_def events_of_def)
  show "buffer_holds (accumulate s t) (xs @ ys)" if "buffer_holds s xs" "buffer_holds t ys" for s xs t ys
    using that by (simp add: buffer_holds_def holds_accumulate)
qed

text \<open>A flow's buffer: created by its first reading, then pushed to.\<close>

definition flow_buffer :: "rtt_event list \<Rightarrow> RttBuffer" where
  "flow_buffer es = (case es of
       [] \<Rightarrow> default_buffer
     | e # es' \<Rightarrow> (case e of (r, d, t) \<Rightarrow> foldl push_event (new_buffer r d t) es'))"

lemma new_buffer_push: "new_buffer r d t = push default_buffer r d t"
proof -
  have "saturating_add (0 :: u32) 1 = 1" by (simp add: saturating_add_def)
  moreover have "saturating_sub t t = 0" by (simp add: saturating_sub_def)
  moreover have "replicate 38 (0 :: u32) ! bucket_of r = 0" using bucket_of_less by simp
  ultimately show ?thesis
    by (cases d) (simp_all add: new_buffer_def push_def push_bucket_def rotate_window_def Let_def
        default_buffer_def default_bucket_def)
qed

lemma flow_buffer_run: "flow_buffer es = foldl push_event default_buffer es"
  by (auto simp: flow_buffer_def new_buffer_push push_event_def split: list.splits)

definition merged_buffer :: "rtt_event list list \<Rightarrow> RttBuffer" where
  "merged_buffer flows = foldl accumulate default_buffer (map flow_buffer flows)"

lemma merged_holds: "buffer_holds (merged_buffer flows) (concat flows)"
  unfolding merged_buffer_def
  by (rule rtt.rep_merge_all) (simp add: list_all2_conv_all_nth flow_buffer_run rtt.rep_run)

lemma sort_map_mono:
  assumes "\<And>a b. a \<le> b \<Longrightarrow> f a \<le> f b"
  shows "sort (map f xs) = map f (sort xs)"
  by (rule properties_for_sort) (simp_all add: assms sorted_map sorted_wrt_mono_rel [OF _ sorted_sort])

text \<open>The reading of rank \<open>\<lceil>p n / 100\<rceil>\<close> among the readings in sorted order.\<close>

definition reading_at :: "u8 \<Rightarrow> RttData list \<Rightarrow> RttData" where
  "reading_at p xs = sort xs ! ((unat p * length xs + 99) div 100 - 1)"

lemma rank_in_range:
  assumes "2 \<le> n" "k \<le> (100 :: nat)"
  shows "(k * n + 99) div 100 - 1 < n"
proof -
  have "k * n \<le> 100 * n" using assms(2) by simp
  then have "(k * n + 99) div 100 \<le> (100 * n + 99) div 100" by (intro div_le_mono) simp
  then show ?thesis using assms(1) by simp
qed

lemma percentile_of_sorted:
  assumes cs: "length xs < 2 ^ 32 \<Longrightarrow> expand 0 (scope_bucket scope (pick_bucket b d)) = sort (map bucket_of xs)"
    and n: "2 \<le> length xs" and p: "0 < unat p" "unat p \<le> 100" and fits: "unat p * length xs < 2 ^ 32"
  shows "percentile b scope d p = Some (bound_of (bucket_of (reading_at p xs)))"
proof -
  have "length xs \<le> unat p * length xs" using p(1) by simp
  then have "length xs < 2 ^ 32" using fits by linarith
  with percentile_of_rank [OF cs] n p fits rank_in_range [OF n p(2)] show ?thesis
    by (simp add: sort_map_mono bucket_of_mono reading_at_def)
qed

lemma percentile_of_readings:
  assumes "buffer_holds b es" and n: "2 \<le> length (readings d es)"
    and p: "0 < unat p" "unat p \<le> 100" and fits: "unat p * length (readings d es) < 2 ^ 32"
  shows "percentile b Total d p = Some (bound_of (bucket_of (reading_at p (readings d es))))"
  using assms holds_expand by (intro percentile_of_sorted) (simp_all add: buffer_holds_def)


definition two_flows :: "rtt_event list list" where
  "two_flows = [[(RttData 3200000, Download, 5), (RttData 700, Upload, 6)],
     [(RttData 41000000, Download, 7), (RttData 12500000, Download, 9)]]"

lemma two_flows_readings:
  "readings Download (concat two_flows) = [RttData 3200000, RttData 41000000, RttData 12500000]"
  by (simp add: two_flows_def readings_def events_of_def)


section \<open>Several percentiles at once\<close>

lemma rank_target_mono:
  assumes "p \<le> q" "unat q * unat n < 2 ^ 32"
  shows "rank_target n p \<le> rank_target n q"
proof -
  have le: "unat p * unat n \<le> unat q * unat n" using assms(1) by (simp add: word_le_nat_alt)
  then have "unat p * unat n < 2 ^ 32" using assms(2) by linarith
  with le assms(2) show ?thesis by (simp add: word_le_nat_alt unat_rank_target div_le_mono)
qed

lemma sorted_le_last: "sorted xs \<Longrightarrow> x \<in> set xs \<Longrightarrow> x \<le> last xs"
  by (induction xs) auto

text \<open>
  Asking for several percentiles in ascending order walks the histogram once and
  gives what asking for each of them alone gives.
\<close>

lemma percentiles_pointwise:
  assumes "ps \<noteq> []" and "sorted ps" and "unat (last ps) * unat (sample_count b scope d) < 2 ^ 32"
  shows "percentiles b scope d ps = those (map (percentile b scope d) ps)"
proof (cases "sum_list (scope_bucket scope (pick_bucket b d)) < 2")
  case True
  then have none: "percentiles_from_bucket b scope d qs = None" for qs
    by (simp add: percentiles_from_bucket_def Let_def)
  obtain q qs where "ps = q # qs" using assms(1) by (cases ps) auto
  then show ?thesis by (simp add: percentiles_def percentile_def none)
next
  case False
  let ?n = "sum_list (scope_bucket scope (pick_bucket b d))"
  have top: "p \<le> last ps" if "p \<in> set ps" for p
    using assms(2) that by (rule sorted_le_last)
  have "unat q * unat ?n < 2 ^ 32" if "q \<in> set ps" for q
  proof -
    have "unat q * unat ?n \<le> unat (last ps) * unat ?n"
      using top [OF that] by (simp add: word_le_nat_alt)
    then show ?thesis using assms(3) unfolding sample_count_def by (rule le_less_trans)
  qed
  then have "sorted (map (rank_target ?n) ps)"
    using assms(2) by (auto simp: sorted_map intro!: rank_target_mono elim!: sorted_wrt_mono_rel [rotated])
  moreover have "percentile b scope d p =
      map_option bound_of (first_reach 0 (scope_bucket scope (pick_bucket b d)) 0 (rank_target ?n p))" for p
    using False by (simp add: percentile_def percentiles_loop not_less split: option.splits)
  then have "percentile b scope d =
      (\<lambda>p. map_option bound_of (first_reach 0 (scope_bucket scope (pick_bucket b d)) 0 (rank_target ?n p)))"
    by (intro ext)
  ultimately show ?thesis using False assms(1) by (simp add: percentiles_def percentiles_loop not_less)
qed

lemma sample_count_readings:
  assumes "buffer_holds b es" "length (readings d es) < 2 ^ 32"
  shows "unat (sample_count b Total d) = length (readings d es)"
proof -
  have "expand 0 (total_bucket (pick_bucket b d)) = sort (map bucket_of (readings d es))"
    using assms holds_expand by (simp add: buffer_holds_def)
  then have "sum_list (map unat (total_bucket (pick_bucket b d))) = length (readings d es)"
    by (metis length_expand length_map length_sort)
  with assms(2) show ?thesis by (simp add: sample_count_def unat_sum_list)
qed

lemma two_flows_percentiles:
  "percentile (merged_buffer two_flows) Total Download 50 = Some (RttData 14000000)"
  "percentile (merged_buffer two_flows) Total Download 95 = Some (RttData 45000000)"
  using percentile_of_readings [OF merged_holds [of two_flows], of Download 50]
    percentile_of_readings [OF merged_holds [of two_flows], of Download 95]
  by (simp_all add: two_flows_readings reading_at_def less_eq_RttData_def bucket_of_def
      bucket_upper_bound_nanos_def)

lemma percentiles_pointwise_witness:
  "percentiles (merged_buffer two_flows) Total Download [50, 95] = Some [RttData 14000000, RttData 45000000]"
proof -
  have "unat (sample_count (merged_buffer two_flows) Total Download) = 3"
    using sample_count_readings [OF merged_holds [of two_flows], of Download]
    by (simp add: two_flows_readings)
  then have "percentiles (merged_buffer two_flows) Total Download [50, 95] =
      those (map (percentile (merged_buffer two_flows) Total Download) [50, 95])"
    by (intro percentiles_pointwise) simp_all
  then show ?thesis by (simp add: two_flows_percentiles)
qed

text \<open>
  The product of the percentile and the sample count is a \<open>u32\<close>. With 86 million samples the
  median's rank wraps to 50328: here all but a hundred thousand readings lie in the bucket that ends
  at 750 ms, and the reported median is 1 ms while the 49th percentile is 750 ms.
\<close>

lemma first_reach_empty: "first_reach i (replicate k 0 @ cs) c t = first_reach (i + k) cs c t"
  by (induction k arbitrary: i) simp_all

lemma median_rank_wraps:
  assumes "total_bucket (pick_bucket b Download) = 100000 # replicate 34 0 @ 85900000 # replicate 2 0"
  shows "sample_count b Total Download = 86000000"
    and "percentile b Total Download 50 = Some (RttData 1000000)"
    and "percentile b Total Download 49 = Some (RttData 750000000)"
  using assms
  by (simp_all add: sample_count_def sum_list_replicate percentile_def percentiles_loop rank_target_def
      u32_div_ceil_def first_reach_empty bucket_upper_bound_nanos_def)

section \<open>The window\<close>

abbreviation seen_at :: "rtt_event \<Rightarrow> u64" where
  "seen_at e \<equiv> snd (snd e)"

text \<open>The readings of a direction seen since the start of its window.\<close>

definition window_readings :: "u64 \<Rightarrow> rtt_event list \<Rightarrow> RttData list" where
  "window_readings start es = map fst (filter (\<lambda>e. start \<le> seen_at e) es)"

text \<open>
  \<open>es\<close> are the events of one direction. The window's histogram counts exactly the readings seen since
  its start, no reading was seen more than ten seconds after it, and it starts at a reading.
\<close>

definition windowed :: "RttBufferBucket \<Rightarrow> rtt_event list \<Rightarrow> bool" where
  "windowed b es \<longleftrightarrow> length (current_bucket b) = 38
     \<and> (\<forall>j < 38. unat (current_bucket b ! j) =
          saturated (count_list (map bucket_of (window_readings (current_bucket_start_time_nanos b) es)) j))
     \<and> list_all (\<lambda>e. unat (seen_at e) \<le> unat (current_bucket_start_time_nanos b) + 10000000000) es
     \<and> (if es = [] then current_bucket_start_time_nanos b = 0
        else current_bucket_start_time_nanos b \<in> seen_at ` set es)"

lemma windowed_default: "windowed default_bucket []"
  by (simp add: windowed_def default_bucket_def window_readings_def saturated_def)

lemma rotate_window_cases:
  assumes "windowed b es" "list_all (\<lambda>e. seen_at e \<noteq> 0 \<and> seen_at e \<le> t) es" "t \<noteq> 0"
  obtains (fresh) "current_bucket_start_time_nanos (rotate_window t b) = t"
      "current_bucket (rotate_window t b) = replicate 38 0" "window_readings t es = []"
      "list_all (\<lambda>e. unat (seen_at e) \<le> unat t + 10000000000) es"
  | (same) "rotate_window t b = b" "es \<noteq> []"
      "unat t \<le> unat (current_bucket_start_time_nanos b) + 10000000000"
      "current_bucket_start_time_nanos b \<le> t"
proof -
  let ?s = "current_bucket_start_time_nanos b"
  have old: "list_all (\<lambda>e. unat (seen_at e) \<le> unat t + 10000000000) es"
    using assms(2) by (auto simp: list_all_iff word_le_nat_alt)
  show thesis
  proof (cases "es = []")
    case True
    then have s: "?s = 0" and "length (current_bucket b) = 38"
      and z: "\<forall>j < 38. unat (current_bucket b ! j) = 0"
      using assms(1) by (simp_all add: windowed_def window_readings_def saturated_def)
    then have "current_bucket b = replicate 38 0"
      by (intro nth_equalityI) (simp_all add: unat_eq_zero)
    with s True show thesis
      by (intro fresh) (simp_all add: rotate_window_def saturating_sub_def window_readings_def)
  next
    case False
    then have s: "?s \<in> seen_at ` set es" and len: "length (current_bucket b) = 38"
      and within: "list_all (\<lambda>e. unat (seen_at e) \<le> unat ?s + 10000000000) es"
      using assms(1) by (simp_all add: windowed_def)
    then have s0: "?s \<noteq> 0" "?s \<le> t" using assms(2) by (auto simp: list_all_iff)
    have elapsed: "unat (saturating_sub t ?s) = unat t - unat ?s" by (simp add: unat_saturating_sub)
    show thesis
    proof (cases "saturating_sub t ?s > 10000000000")
      case True
      then have gt: "unat ?s + 10000000000 < unat t"
        using elapsed by (simp add: word_less_nat_alt)
      then have "window_readings t es = []"
        using within by (fastforce simp: window_readings_def filter_empty_conv list_all_iff word_le_nat_alt)
      with True s0 len old show thesis by (intro fresh) (simp_all add: rotate_window_def Let_def)
    next
      case no: False
      then have "unat t \<le> unat ?s + 10000000000"
        using elapsed s0 by (simp add: word_less_nat_alt word_le_nat_alt)
      with no s0 False show thesis by (intro same) (simp_all add: rotate_window_def Let_def)
    qed
  qed
qed

lemma windowed_push:
  assumes w: "windowed b es" and mono: "list_all (\<lambda>e. seen_at e \<noteq> 0 \<and> seen_at e \<le> t) es" and t: "t \<noteq> 0"
  shows "windowed (push_bucket r t b) (es @ [(r, d, t)])"
proof -
  let ?b = "rotate_window t b"
  have shape: "current_bucket (push_bucket r t b) =
      (current_bucket ?b)[bucket_of r := saturating_add (current_bucket ?b ! bucket_of r) 1]"
    "current_bucket_start_time_nanos (push_bucket r t b) = current_bucket_start_time_nanos ?b"
    by (simp_all add: push_bucket_def Let_def)
  have step: "saturated (Suc (saturated n)) = saturated (Suc n)" for n by (simp add: saturated_def)
  from w mono t show ?thesis
  proof (cases rule: rotate_window_cases)
    case fresh
    have "window_readings t (es @ [(r, d, t)]) = [r]"
      using fresh(3) by (simp add: window_readings_def)
    moreover have "unat ((replicate 38 (0 :: u32))[bucket_of r := saturating_add (replicate 38 0 ! bucket_of r) 1] ! j)
        = saturated (if bucket_of r = j then 1 else 0)" if "j < 38" for j
      using that bucket_of_less [of r]
      by (auto simp: nth_list_update unat_saturating_add_u32 saturated_def)
    ultimately show ?thesis
      using fresh(4) by (simp add: windowed_def shape fresh(1,2))
  next
    case same
    have wr: "window_readings (current_bucket_start_time_nanos b) (es @ [(r, d, t)]) =
        window_readings (current_bucket_start_time_nanos b) es @ [r]"
      using same(4) by (simp add: window_readings_def)
    show ?thesis
      using w same bucket_of_less [of r]
      by (auto simp: windowed_def shape wr nth_list_update unat_saturating_add_u32 count_list_snoc step)
  qed
qed

definition timely :: "rtt_event list \<Rightarrow> bool" where
  "timely es \<longleftrightarrow> sorted (map seen_at es) \<and> list_all (\<lambda>e. seen_at e \<noteq> 0) es"

lemma timely_snoc: "timely (es @ [e]) \<Longrightarrow> timely es \<and> seen_at e \<noteq> 0
    \<and> list_all (\<lambda>e'. seen_at e' \<noteq> 0 \<and> seen_at e' \<le> seen_at e) (events_of d es)"
  by (auto simp: timely_def events_of_def list_all_iff sorted_append)

lemma pick_push_event:
  "pick_bucket (push_event b (r, d', t)) d =
    (if d = d' then push_bucket r t (pick_bucket b d') else pick_bucket b d)"
  by (simp add: push_event_def pick_push)

lemma events_of_snoc:
  "events_of d (es @ [(r, d', t)]) = events_of d es @ (if d' = d then [(r, d, t)] else [])"
  by (simp add: events_of_def)

lemma windowed_run: "timely es \<Longrightarrow> windowed (pick_bucket (foldl push_event default_buffer es) d) (events_of d es)"
proof (induction es rule: rev_induct)
  case Nil
  then show ?case by (simp add: windowed_default events_of_def)
next
  case (snoc e es)
  obtain r d' t where e: "e = (r, d', t)" by (cases e)
  note m = timely_snoc [OF snoc.prems, of d]
  with snoc.IH have w: "windowed (pick_bucket (foldl push_event default_buffer es) d) (events_of d es)" by simp
  show ?case
  proof (cases "d' = d")
    case True
    with windowed_push [OF w, of t r d] m show ?thesis by (simp add: e pick_push_event events_of_snoc)
  next
    case False
    with w show ?thesis by (simp add: e pick_push_event events_of_snoc)
  qed
qed


definition two_windows :: "rtt_event list" where
  "two_windows = [(RttData 90000000, Download, 1000000000), (RttData 90000000, Download, 2000000000),
     (RttData 4000000, Download, 12000000000), (RttData 6500000, Download, 13000000000)]"


end
