(* ===== verification/Qoo_Properties.thy ===== *)
theory Qoo_Properties
  imports Qoo Rtt_Properties
begin

text \<open>
  Scores stay within 0 to 100 and move the right way with the measured value, whatever the thresholds
  and however the arithmetic rounds; a direction's score is unknown exactly when its inputs are
  missing, and never with a profile that passed validation and enough readings.
\<close>

section \<open>Scores\<close>

definition in_range :: "f64 \<Rightarrow> bool" where
  "in_range x \<longleftrightarrow> Fin 0 \<le> x \<and> x \<le> Fin 100"

lemma in_range_cases: "in_range x \<longleftrightarrow> (\<exists>a. x = Fin a \<and> 0 \<le> a \<and> a \<le> 100)"
  by (cases x) (auto simp: in_range_def)

lemma in_range_Fin [simp]: "in_range (Fin a) \<longleftrightarrow> 0 \<le> a \<and> a \<le> 100"
  by (simp add: in_range_def)

lemma clamp_in_range: "in_range (clamp_0_100 x)"
  by (cases x) (auto simp: clamp_0_100_def f64_clamp_def in_range_def)

lemma clamp_0_100_mono: "x \<le> y \<Longrightarrow> clamp_0_100 x \<le> clamp_0_100 y"
  by (cases x; cases y) (auto simp: clamp_0_100_def f64_clamp_def)

lemma score_in_range: "in_range (score r m)"
  by (cases "lh_better r") (simp_all add: score_def Let_def clamp_in_range)

lemma clamp_NaN [simp]: "clamp_0_100 NaN = Fin 0"
  by (simp add: clamp_0_100_def)

lemma div_NaN [simp]: "f64_div x NaN = NaN" "f64_div NaN x = NaN"
  by (cases x; simp)+

text \<open>The interpolated score is monotone in the distance from the bad threshold.\<close>

lemma interpolation_mono:
  assumes "x \<le> y" and "\<not> denom \<le> Fin 0"
  shows "clamp_0_100 (f64_div (f64_mul (Fin 100) x) denom) \<le> clamp_0_100 (f64_div (f64_mul (Fin 100) y) denom)"
proof (cases denom)
  case (Fin d)
  with assms have "f64_div (f64_mul (Fin 100) x) denom \<le> f64_div (f64_mul (Fin 100) y) denom"
    using f64_mul_mono [of 100 x y] f64_div_mono [of d] by simp
  then show ?thesis by (rule clamp_0_100_mono)
next
  case PosInf
  have "clamp_0_100 (f64_div z PosInf) = Fin 0" for z
    by (cases z) (simp_all add: clamp_0_100_def f64_clamp_def)
  with PosInf show ?thesis by simp
qed (use assms in simp_all)

lemma f64_sub_mono': "Fin a \<le> Fin b \<Longrightarrow> f64_sub (Fin a) z \<le> f64_sub (Fin b) z" if "z \<noteq> NaN"
  using that by (cases z) (simp_all add: f64_sub_def neg_ieee_def f64_of_rat_mono)

lemma f64_sub_antimono': "a \<le> b \<Longrightarrow> f64_sub z (Fin b) \<le> f64_sub z (Fin a)" if "z \<noteq> NaN"
  using that by (cases z) (simp_all add: f64_sub_def neg_ieee_def f64_of_rat_mono)

lemma sub_NaN [simp]: "f64_sub NaN x = NaN" "f64_sub x NaN = NaN"
  by (cases x; simp add: f64_sub_def neg_ieee_def)+

lemma lower_score_antimono:
  assumes "lh_better r = LowerIsBetter" and "a \<le> b"
  shows "score r (Fin b) \<le> score r (Fin a)"
proof -
  let ?good = "lh_high r" and ?bad = "lh_low r"
  have range: "Fin 0 \<le> score r (Fin a)" "score r (Fin b) \<le> Fin 100"
    using score_in_range [of r] by (simp_all add: in_range_def)
  have le: "Fin a \<le> Fin b" using assms(2) by simp
  consider "Fin a \<le> ?good" | "\<not> Fin a \<le> ?good" "f64_sub ?bad ?good \<le> Fin 0"
    | "\<not> Fin a \<le> ?good" "\<not> f64_sub ?bad ?good \<le> Fin 0" "?bad \<le> Fin b"
    | "\<not> Fin a \<le> ?good" "\<not> f64_sub ?bad ?good \<le> Fin 0" "\<not> ?bad \<le> Fin b"
    by blast
  then show ?thesis
  proof cases
    case 1
    then have "score r (Fin a) = Fin 100" using assms(1) by (simp add: score_def is_finite_def Let_def)
    with range show ?thesis by simp
  next
    case 2
    then have "\<not> Fin b \<le> ?good" using le ieee_le_trans by blast
    with 2 have "score r (Fin b) = Fin 0" using assms(1) by (simp add: score_def is_finite_def Let_def)
    with range show ?thesis by simp
  next
    case 3
    then have "\<not> Fin b \<le> ?good" using le ieee_le_trans by blast
    with 3 have "score r (Fin b) = Fin 0" using assms(1) by (simp add: score_def is_finite_def Let_def)
    with range show ?thesis by simp
  next
    case 4
    have nb: "\<not> Fin b \<le> ?good" "\<not> ?bad \<le> Fin a" using 4 le ieee_le_trans by blast+
    have "score r (Fin b) = clamp_0_100 (f64_div (f64_mul (Fin 100) (f64_sub ?bad (Fin b))) (f64_sub ?bad ?good))"
      "score r (Fin a) = clamp_0_100 (f64_div (f64_mul (Fin 100) (f64_sub ?bad (Fin a))) (f64_sub ?bad ?good))"
      using 4 nb assms(1) by (simp_all add: score_def is_finite_def Let_def)
    then show ?thesis
      using interpolation_mono [OF f64_sub_antimono' [OF _ assms(2)] 4(2)]
      by (cases "?bad = NaN") simp_all
  qed
qed

lemma higher_score_mono:
  assumes "lh_better r = HigherIsBetter" and "a \<le> b"
  shows "score r (Fin a) \<le> score r (Fin b)"
proof -
  let ?good = "lh_high r" and ?bad = "lh_low r"
  have range: "Fin 0 \<le> score r (Fin b)" "score r (Fin a) \<le> Fin 100"
    using score_in_range [of r] by (simp_all add: in_range_def)
  have le: "Fin a \<le> Fin b" using assms(2) by simp
  consider "?good \<le> Fin b" | "\<not> ?good \<le> Fin b" "f64_sub ?good ?bad \<le> Fin 0 \<or> Fin a \<le> ?bad"
    | "\<not> ?good \<le> Fin b" "\<not> f64_sub ?good ?bad \<le> Fin 0" "\<not> Fin a \<le> ?bad"
    by blast
  then show ?thesis
  proof cases
    case 1
    then have "score r (Fin b) = Fin 100" using assms(1) by (simp add: score_def is_finite_def Let_def)
    with range show ?thesis by simp
  next
    case 2
    then have "\<not> ?good \<le> Fin a" using le ieee_le_trans by blast
    with 2 have "score r (Fin a) = Fin 0" using assms(1) by (auto simp: score_def is_finite_def Let_def)
    with range show ?thesis by simp
  next
    case 3
    have nb: "\<not> ?good \<le> Fin a" "\<not> Fin b \<le> ?bad" using 3 le ieee_le_trans by blast+
    have "score r (Fin a) = clamp_0_100 (f64_div (f64_mul (Fin 100) (f64_sub (Fin a) ?bad)) (f64_sub ?good ?bad))"
      "score r (Fin b) = clamp_0_100 (f64_div (f64_mul (Fin 100) (f64_sub (Fin b) ?bad)) (f64_sub ?good ?bad))"
      using 3 nb assms(1) by (simp_all add: score_def is_finite_def Let_def)
    then show ?thesis
      using interpolation_mono [OF f64_sub_mono' [OF _ le] 3(2)]
      by (cases "?bad = NaN") simp_all
  qed
qed

text \<open>
  Whatever the thresholds, a score lies between 0 and 100; for a metric where
  lower is better it never rises with the measured value, where higher is better it never falls.
\<close>

lemma score_monotone:
  assumes "a \<le> b"
  shows "Fin 0 \<le> score r (Fin a) \<and> score r (Fin a) \<le> Fin 100
    \<and> (case lh_better r of
         LowerIsBetter \<Rightarrow> score r (Fin b) \<le> score r (Fin a)
       | HigherIsBetter \<Rightarrow> score r (Fin a) \<le> score r (Fin b))"
  using score_in_range [of r "Fin a"] lower_score_antimono [OF _ assms] higher_score_mono [OF _ assms]
  by (simp add: in_range_def split: Better.split)

lemma score_monotone_witness:
  "score (lower_is_better (Fin 500) (Fin 200)) (Fin 350) \<le> score (lower_is_better (Fin 500) (Fin 200)) (Fin 300)"
  using score_monotone [of 300 350 "lower_is_better (Fin 500) (Fin 200)"]
  by (simp add: lower_is_better_def)

section \<open>Directions\<close>

lemma f64_min_in_range: "in_range x \<Longrightarrow> in_range y \<Longrightarrow> in_range (f64_min x y)"
  by (simp add: f64_min_def)

lemma foldl_min_in_range: "in_range s \<Longrightarrow> list_all in_range ss \<Longrightarrow> in_range (foldl f64_min s ss)"
  by (induction ss arbitrary: s) (simp_all add: f64_min_in_range)

lemma latency_loop_in_range:
  "list_all in_range scores \<Longrightarrow>
    ld_score (latency_loop rtt d scope n b reqs raws scoreds scores) = Some s \<Longrightarrow> in_range s"
proof (induction reqs arbitrary: raws scoreds scores)
  case Nil
  then show ?case by (auto simp: foldl_min_in_range split: list.splits)
next
  case (Cons req reqs)
  obtain x where x: "percentile rtt scope d (req_percentile req) = Some x"
    using Cons.prems(2) by (auto split: option.splits)
  have "list_all in_range (scores @ [score (rtt_ms req) m])" for m
    using Cons.prems(1) by (simp add: score_in_range)
  from Cons.IH [OF this] Cons.prems(2) show ?case by (simp add: x Let_def)
qed

lemma latency_in_range: "ld_score (latency_for_direction p rtt d scope) = Some s \<Longrightarrow> in_range s"
  by (auto simp: latency_for_direction_def Let_def
      split: LatencyNormalization.splits Baseline.splits option.splits dest: latency_loop_in_range [rotated])

lemma f64_of_rat_in_range: "0 \<le> q \<Longrightarrow> q \<le> 100 \<Longrightarrow> in_range (f64_of_rat q)"
  using f64_of_rat_ge_0 [of q] f64_of_rat_le_nat [of q 100] by (simp add: in_range_def)

lemma loss_effective_range: "loss_effective p l = NaN \<or> in_range (loss_effective p l)"
proof -
  obtain s where s: "score (profile_loss_fraction p) (loss_fraction l) = Fin s" "0 \<le> s" "s \<le> 100"
    using score_in_range in_range_cases by meson
  obtain t where t: "f64_sub (Fin 100) (Fin s) = Fin t" "0 \<le> t" "t \<le> 100"
    using f64_of_rat_in_range [of "100 - s"] s by (auto simp: f64_sub_def neg_ieee_def in_range_cases)
  have c: "loss_confidence l = NaN \<or> (\<exists>c. loss_confidence l = Fin c \<and> 0 \<le> c \<and> c \<le> 1)"
    by (auto simp: loss_confidence_def f64_clamp_def split: LossMeasurement.splits)
      (metis ieee.exhaust less_ieee.simps less_eq_rat_def linorder_not_le)+
  show ?thesis
  proof (cases "loss_confidence l = NaN")
    case True
    then show ?thesis
      by (cases "loss_handling p") (simp_all add: loss_effective_def Let_def s t)
  next
    case False
    then obtain c where c: "loss_confidence l = Fin c" "0 \<le> c" "c \<le> 1" using c by blast
    have "c * t \<le> 1 * 100" using c t by (intro mult_mono) simp_all
    then obtain u where u: "f64_mul (Fin c) (Fin t) = Fin u" "0 \<le> u" "u \<le> 100"
      using f64_of_rat_in_range [of "c * t"] c t by (auto simp: in_range_cases)
    have "in_range (f64_sub (Fin 100) (Fin u))"
      using f64_of_rat_in_range [of "100 - u"] u by (simp add: f64_sub_def neg_ieee_def)
    then show ?thesis
      by (cases "loss_handling p") (simp_all add: loss_effective_def Let_def s t c u [simplified])
  qed
qed

lemma f64_as_u8_bound:
  assumes "in_range x"
  shows "unat (f64_as_u8 (f64_round x)) \<le> 100"
proof -
  obtain a where a: "x = Fin a" "0 \<le> a" "a \<le> 100" using assms in_range_cases by blast
  have "a + 1 / 2 < of_int 101" using a by simp
  then have hi: "\<lfloor>a + 1 / 2\<rfloor> \<le> 100" by (simp only: floor_less_iff [symmetric])
  have lo: "0 \<le> \<lfloor>a + 1 / 2\<rfloor>" using a by simp
  obtain n where n: "\<lfloor>a + 1 / 2\<rfloor> = int n" using lo nonneg_int_cases by blast
  then have "n \<le> 100" using hi by simp
  then show ?thesis
    using a n by (simp add: f64_as_u8_def f64_round_def unsigned_of_nat take_bit_nat_eq_self)
qed

lemma score_to_u8_range:
  assumes "in_range x"
  shows "unat (score_to_u8 (Some x)) \<le> 100"
proof -
  obtain a where a: "x = Fin a" "0 \<le> a" "a \<le> 100" using assms in_range_cases by blast
  then have "f64_clamp x (Fin 0) (Fin 100) = x" by (simp add: f64_clamp_def)
  with a f64_as_u8_bound [OF assms] show ?thesis by (simp add: score_to_u8_def is_finite_def)
qed

text \<open>One direction of \<open>compute_qoq_scores\<close>.\<close>

definition direction_score ::
  "QooProfile \<Rightarrow> RttBuffer \<Rightarrow> FlowbeeEffectiveDirection \<Rightarrow> LossMeasurement option \<Rightarrow> u8" where
  "direction_score p rtt d loss =
     score_to_u8 (combine_directional (direction_latency p rtt d) (map_option (loss_effective p) loss))"

lemma direction_score_known:
  assumes "direction_latency p rtt d = Some s"
  shows "unat (direction_score p rtt d (Some l)) \<le> 100"
proof -
  have s: "in_range s" using assms latency_in_range by (simp add: direction_latency_def split: if_splits)
  have "in_range (f64_min s (loss_effective p l))"
    using loss_effective_range [of p l] s by (auto simp: f64_min_def in_range_def)
  then show ?thesis using assms by (simp add: direction_score_def combine_directional_def score_to_u8_range)
qed

lemma direction_score_unknown:
  "direction_latency p rtt d = None \<or> loss = None \<Longrightarrow> direction_score p rtt d loss = 255"
  by (auto simp: direction_score_def combine_directional_def score_to_u8_def split: option.splits)

text \<open>
  C9. A direction's score is at most 100 or the unknown marker 255, and it is
  unknown exactly when the direction has no loss measurement, fewer than five readings or no latency
  score.
\<close>

theorem qoq_scores_range:
  "(unat (download_total (compute_qoq_scores p rtt ld lu)) \<le> 100
      \<or> download_total (compute_qoq_scores p rtt ld lu) = 255)
   \<and> (download_total (compute_qoq_scores p rtt ld lu) = 255 \<longleftrightarrow>
        ld = None \<or> sample_count rtt Total Download < 5
        \<or> ld_score (latency_for_direction p rtt Download Total) = None)
   \<and> (unat (upload_total (compute_qoq_scores p rtt ld lu)) \<le> 100
      \<or> upload_total (compute_qoq_scores p rtt ld lu) = 255)
   \<and> (upload_total (compute_qoq_scores p rtt ld lu) = 255 \<longleftrightarrow>
        lu = None \<or> sample_count rtt Total Upload < 5
        \<or> ld_score (latency_for_direction p rtt Upload Total) = None)"
proof -
  have one: "(unat (direction_score p rtt d loss) \<le> 100 \<or> direction_score p rtt d loss = 255)
    \<and> (direction_score p rtt d loss = 255 \<longleftrightarrow>
        loss = None \<or> sample_count rtt Total d < 5 \<or> ld_score (latency_for_direction p rtt d Total) = None)"
    for d loss
  proof (cases "direction_latency p rtt d = None \<or> loss = None")
    case True
    then show ?thesis
      using direction_score_unknown [OF True] by (auto simp: direction_latency_def not_le split: if_splits)
  next
    case False
    then obtain s l where sl: "direction_latency p rtt d = Some s" "loss = Some l" by auto
    then have "unat (direction_score p rtt d loss) \<le> 100" using direction_score_known by simp
    moreover from this have "direction_score p rtt d loss \<noteq> 255" by auto
    ultimately show ?thesis using sl by (auto simp: direction_latency_def not_le split: if_splits)
  qed
  then show ?thesis using one [of Download ld] one [of Upload lu]
    by (simp add: compute_qoq_scores_def direction_score_def)
qed

section \<open>Validated profiles\<close>

text \<open>With at least two readings a percentile up to 100 is available.\<close>

lemma first_reach_0:
  "sum_list (map unat cs) \<noteq> 0 \<Longrightarrow> \<exists>j. first_reach i cs c 0 = Some j"
  by (induction cs arbitrary: i c) (auto simp: unat_eq_zero)

lemma percentile_available:
  assumes n: "2 \<le> sum_list (map unat (scope_bucket scope (pick_bucket b d)))"
    and fits: "100 * sum_list (map unat (scope_bucket scope (pick_bucket b d))) < 2 ^ 32"
    and p: "p \<le> 100"
  shows "percentile b scope d p \<noteq> None"
proof (cases "p = 0")
  case True
  let ?cs = "scope_bucket scope (pick_bucket b d)"
  have total: "unat (sum_list ?cs) = sum_list (map unat ?cs)" using fits by (simp add: unat_sum_list)
  have "2 \<le> sum_list ?cs" using n by (simp add: word_le_nat_alt total)
  moreover have "rank_target (sum_list ?cs) p = 0" using True by (simp add: rank_target_def u32_div_ceil_def)
  moreover have "sum_list (map unat ?cs) \<noteq> 0" using n by linarith
  then obtain j where "first_reach 0 ?cs 0 0 = Some j" using first_reach_0 by blast
  ultimately show ?thesis by (simp add: percentile_def percentiles_loop)
next
  case False
  let ?ys = "expand 0 (scope_bucket scope (pick_bucket b d))"
  have up: "0 < unat p" "unat p \<le> 100" using False p by (simp_all add: word_le_nat_alt unat_gt_0)
  then have "unat p * length ?ys \<le> 100 * length ?ys" by (intro mult_right_mono) simp_all
  also have "\<dots> < 2 ^ 32" using fits by (simp only: length_expand)
  finally have "unat p * length ?ys < 2 ^ 32" .
  then show ?thesis using percentile_of_rank [of scope b d ?ys p] n up by (simp add: sorted_sort_id)
qed

lemma latency_loop_scores:
  assumes "list_all (\<lambda>req. percentile rtt scope d (req_percentile req) \<noteq> None) reqs"
    and "reqs \<noteq> [] \<or> scores \<noteq> []"
  shows "ld_score (latency_loop rtt d scope n b reqs raws scoreds scores) \<noteq> None"
  using assms
proof (induction reqs arbitrary: raws scoreds scores)
  case Nil
  then show ?case by (auto split: list.splits)
next
  case (Cons req reqs)
  then obtain x where x: "percentile rtt scope d (req_percentile req) = Some x" by auto
  have "ld_score (latency_loop rtt d scope n b reqs raws scoreds (scores @ [m])) \<noteq> None" for raws scoreds m
    using Cons by simp
  then show ?case by (simp add: x Let_def)
qed

lemma validate_spec_ok:
  assumes "validate_spec s = []"
  shows "spec_latency s \<noteq> []" "list_all (\<lambda>l. spec_percentile l \<le> 100) (spec_latency s)"
    "spec_latency_normalization s = SpecExcessOverBaseline (SpecPercentile p) \<Longrightarrow> p \<le> 100"
  using assms
  by (auto simp: validate_spec_def validate_latency_def validate_normalization_def Let_def list_all_iff
      not_less [symmetric] split: if_splits)

lemma validated_latency:
  assumes "validate_spec s = []"
    and "2 \<le> sum_list (map unat (scope_bucket scope (pick_bucket b d)))"
    and "100 * sum_list (map unat (scope_bucket scope (pick_bucket b d))) < 2 ^ 32"
  shows "ld_score (latency_for_direction (to_runtime s) b d scope) \<noteq> None"
proof -
  note v = validate_spec_ok [OF assms(1)] and av = percentile_available [OF assms(2,3)]
  have run: "ld_score (latency_loop b d scope n bl (latency (to_runtime s)) [] [] []) \<noteq> None" for n bl
    using v(1,2) av by (intro latency_loop_scores) (auto simp: to_runtime_def list_all_iff)
  show ?thesis
  proof (cases "\<exists>p. spec_latency_normalization s = SpecExcessOverBaseline (SpecPercentile p)")
    case True
    then obtain p where p: "spec_latency_normalization s = SpecExcessOverBaseline (SpecPercentile p)" by blast
    then obtain x where "percentile b scope d p = Some x" using av [OF v(3) [OF p]] by auto
    moreover have "latency_normalization (to_runtime s) = ExcessOverBaseline (Percentile p)"
      using p by (simp add: to_runtime_def)
    ultimately show ?thesis using run by (simp add: latency_for_direction_def Let_def)
  next
    case False
    then show ?thesis
      using run
      by (cases "spec_latency_normalization s")
        (auto simp: latency_for_direction_def Let_def to_runtime_def split: BaselineSpec.splits)
  qed
qed

lemma validate_file_ok:
  "validate file = Inr () \<Longrightarrow> s \<in> set (profiles file) \<Longrightarrow> validate_spec s = []"
  by (auto simp: validate_def Let_def split: if_splits)

lemma select_profile_from: "select_profile c file = Inr s \<Longrightarrow> s \<in> set (profiles file)"
  by (auto simp: select_profile_def pick_default_def Let_def or_opt_def find_Some_iff Option.bind_eq_Some_conv
      split: option.splits list.splits)

lemma load_validates:
  "load_profiles_from_disk read ex path = Inr file \<Longrightarrow> validate file = Inr ()"
  by (auto simp: load_profiles_from_disk_def load_json_def result_simps split: if_splits)

lemma active_profile_validated:
  assumes "fst (active_qoo_profile read ex modified path configured None) = Inr profile"
  shows "\<exists>s. validate_spec s = [] \<and> profile = to_runtime s"
proof -
  obtain doc where doc: "load_profiles_from_disk read ex path = Inr doc"
    using assms by (auto simp: active_qoo_profile_def load_qoo_profiles_file_def Let_def split: sum.splits)
  then obtain s where "select_profile configured doc = Inr s" "profile = to_runtime s"
    using assms by (auto simp: active_qoo_profile_def load_qoo_profiles_file_def Let_def result_simps)
  then show ?thesis
    using validate_file_ok [OF load_validates [OF doc]] select_profile_from by blast
qed

lemma merged_count:
  assumes "length (readings d (concat flows)) < 2 ^ 32"
  shows "sum_list (map unat (scope_bucket Total (pick_bucket (merged_buffer flows) d)))
    = length (readings d (concat flows))"
proof -
  have "expand 0 (total_bucket (pick_bucket (merged_buffer flows) d)) = sort (map bucket_of (readings d (concat flows)))"
    using merged_holds [of flows] assms holds_expand by (simp add: buffer_holds_def)
  then show ?thesis by (metis length_expand length_map length_sort scope_bucket.simps(2))
qed


definition web_profile :: QooProfileSpec where
  "web_profile = \<lparr>spec_id = ''web_browsing'', spec_name = ''Web browsing'', spec_description = None,
     spec_latency = [\<lparr>spec_percentile = 95, low_ms = Fin 500, high_ms = Fin 200\<rparr>],
     loss_percent = \<lparr>range_low = Fin 5, range_high = Fin 1\<rparr>,
     spec_latency_normalization = SpecNone, spec_loss_handling = SpecStrict\<rparr>"

definition web_file :: QooProfilesFile where
  "web_file = \<lparr>schema_version = 2, default_profile_id = None, profiles = [web_profile]\<rparr>"

definition five_flows :: "rtt_event list list" where
  "five_flows = replicate 5 [(RttData 3200000, Download, 5)]"


end
