(* ===== verification/Heatmap_Properties.thy ===== *)
theory Heatmap_Properties
  imports Heatmap Qoo_Properties
begin

text \<open>
  A heatmap shows the medians of the last fourteen whole minutes and of the minute in progress, for
  any history of samples; and a score heatmap fed with scores only shows values between 0 and 100.
\<close>

section \<open>Shifting\<close>

lemma length_shift_loop [simp]: "length (shift_loop n xs) = length xs"
  by (induction n) (simp_all add: Let_def)

lemma nth_shift_loop:
  "n < length xs \<Longrightarrow> i < length xs \<Longrightarrow> shift_loop n xs ! i = (if i < n then xs ! Suc i else xs ! i)"
  by (induction n arbitrary: i) (auto simp: Let_def nth_list_update)

lemma shift_summary_eq: "length xs = 14 \<Longrightarrow> shift_summary xs v = tl xs @ [v]"
  by (rule nth_equalityI) (auto simp: shift_summary_def nth_list_update nth_shift_loop nth_append nth_tl)

section \<open>The history a buffer stands for\<close>

text \<open>The last \<open>k\<close> elements, the samples of minute \<open>j\<close>, and those of the minute in progress.\<close>

definition last_n :: "nat \<Rightarrow> 'a list \<Rightarrow> 'a list" where
  "last_n k xs = drop (length xs - k) xs"

definition minute :: "nat \<Rightarrow> 'a list \<Rightarrow> 'a list" where
  "minute j ss = take 60 (drop (60 * j) ss)"

definition in_progress :: "'a list \<Rightarrow> 'a list" where
  "in_progress ss = drop (60 * (length ss div 60)) ss"

definition minute_median :: "('m \<Rightarrow> f32 option) list \<Rightarrow> 'm \<Rightarrow> f32 option" where
  "minute_median ss m = median_of (flatten (map (\<lambda>s. s m) ss))"

definition past_medians :: "('m \<Rightarrow> f32 option) list \<Rightarrow> 'm \<Rightarrow> f32 option list" where
  "past_medians ss m = map (\<lambda>j. minute_median (minute j ss) m) [0..<length ss div 60]"

text \<open>The fifteen blocks of a history: the specification of both heatmaps.\<close>

definition history_blocks :: "('m \<Rightarrow> f32 option) list \<Rightarrow> 'm \<Rightarrow> f32 option list" where
  "history_blocks ss m =
     last_n 14 (replicate 14 None @ past_medians ss m)
     @ [minute_median (in_progress ss) m]"

definition keeps_history :: "'m rolling \<Rightarrow> ('m \<Rightarrow> f32 option) list \<Rightarrow> bool" where
  "keeps_history h ss \<longleftrightarrow> raw_index h = length ss mod 60 \<and> raw_filled h = length ss mod 60
     \<and> (\<forall>m. raw h m = map (\<lambda>s. s m) (in_progress ss) @ replicate (60 - length ss mod 60) None)
     \<and> (\<forall>m. summary h m =
          last_n 14 (replicate 14 None @ past_medians ss m))"

lemma length_in_progress [simp]: "length (in_progress ss) = length ss mod 60"
  by (simp add: in_progress_def minus_mult_div_eq_mod)

lemma median_from_raw_eq:
  "length xs \<le> 60 \<Longrightarrow> median_from_raw (xs @ ys) (length xs) = median_of (flatten xs)"
  by (auto simp: median_from_raw_def median_of_def flatten_def map_filter_simps Let_def min_def)

lemma last_n_snoc: "k \<le> length xs \<Longrightarrow> 0 < k \<Longrightarrow> last_n k (xs @ [x]) = tl (last_n k xs) @ [x]"
proof -
  assume "k \<le> length xs" "0 < k"
  then have "Suc (length xs) - k = Suc (length xs - k)" by simp
  then show ?thesis using \<open>k \<le> length xs\<close> \<open>0 < k\<close> by (simp add: last_n_def drop_Suc tl_drop)
qed

lemma minute_snoc: "60 * j + 60 \<le> length ss \<Longrightarrow> minute j (ss @ [s]) = minute j ss"
  by (simp add: minute_def)

lemma past_medians_same:
  "length ss mod 60 \<noteq> 59 \<Longrightarrow> past_medians (ss @ [s]) m = past_medians ss m"
  by (auto simp: past_medians_def div_Suc mod_Suc minute_snoc)

lemma minute_completed:
  assumes "length ss mod 60 = 59"
  shows "minute (length ss div 60) (ss @ [s]) = in_progress ss @ [s]"
proof -
  have "60 * (length ss div 60) \<le> length ss" by simp
  moreover have "length (in_progress ss @ [s]) = 60" using assms by simp
  ultimately show ?thesis by (simp add: minute_def in_progress_def)
qed

lemma past_medians_next:
  assumes "length ss mod 60 = 59"
  shows "past_medians (ss @ [s]) m = past_medians ss m @ [minute_median (in_progress ss @ [s]) m]"
proof -
  have div: "Suc (length ss) div 60 = Suc (length ss div 60)" using assms by (simp add: div_Suc mod_Suc)
  have "minute j (ss @ [s]) = minute j ss" if "j < length ss div 60" for j
  proof (rule minute_snoc)
    have "60 * Suc j \<le> 60 * (length ss div 60)" using that by (intro mult_le_mono2) simp
    also have "\<dots> \<le> length ss" by simp
    finally show "60 * j + 60 \<le> length ss" by simp
  qed
  then show ?thesis using minute_completed [OF assms] by (simp add: past_medians_def div)
qed

lemma keeps_history_new: "keeps_history new_rolling []"
  by (simp add: keeps_history_def new_rolling_def in_progress_def last_n_def past_medians_def)

lemma keeps_history_add:
  assumes "keeps_history h ss"
  shows "keeps_history (add_values h s) (ss @ [s])"
proof (cases "length ss mod 60 = 59")
  case False
  note t = assms [unfolded keeps_history_def]
  have mod: "Suc (length ss) mod 60 = Suc (length ss mod 60)" using False by (simp add: mod_Suc)
  have div: "Suc (length ss) div 60 = length ss div 60" using False by (simp add: div_Suc mod_Suc)
  have lt: "length ss mod 60 < 60" by simp
  have ip: "in_progress (ss @ [s]) = in_progress ss @ [s]"
    by (simp add: in_progress_def div)
  have pad: "60 - length ss mod 60 = Suc (59 - length ss mod 60)" using lt by linarith
  show ?thesis
    using t False
    by (simp add: keeps_history_def add_values_def Let_def mod ip past_medians_same pad list_update_append)
next
  case True
  note t = assms [unfolded keeps_history_def]
  have mod: "Suc (length ss) mod 60 = 0" using True by (simp add: mod_Suc)
  have ip: "in_progress (ss @ [s]) = []" using mod by (simp add: length_0_conv [symmetric] del: length_0_conv)
  have full: "(raw h m)[59 := v] = map (\<lambda>s. s m) (in_progress ss) @ [v]" for m v
    using t True by (simp add: list_update_append)
  have med: "median_from_raw (map (\<lambda>s. s m) (in_progress ss) @ [s m]) 60 = minute_median (in_progress ss @ [s]) m" for m
    using median_from_raw_eq [of "map (\<lambda>s. s m) (in_progress ss @ [s])" "[]"] True by (simp add: minute_median_def)
  have sum: "shift_summary (summary h m) (median_from_raw ((raw h m)[59 := s m]) 60)
      = last_n 14 (replicate 14 None @ past_medians (ss @ [s]) m)" for m
  proof -
    have "summary h m = last_n 14 (replicate 14 None @ past_medians ss m)" using t by simp
    moreover have "length (last_n 14 (replicate 14 None @ past_medians ss m)) = 14" by (simp add: last_n_def)
    ultimately show ?thesis
      using last_n_snoc [of 14 "replicate 14 None @ past_medians ss m"]
      by (simp only: shift_summary_eq full med past_medians_next [OF True] append_assoc [symmetric]) simp
  qed
  have idx: "raw_index h = 59" "raw_filled h = 59" "length (raw h m) = 60" for m using t True by simp_all
  show ?thesis
    by (simp add: keeps_history_def add_values_def Let_def mod ip push_summary_block_def clear_raw_buffers_def sum idx)
qed

text \<open>The contract of a recorder: it starts empty, takes samples, and represents the history it was fed.\<close>

locale recorder =
  fixes start :: 's and record_one :: "'s \<Rightarrow> 'x \<Rightarrow> 's" and shows_history :: "'s \<Rightarrow> 'x list \<Rightarrow> bool"
  assumes start_empty: "shows_history start []"
    and record_step: "shows_history s xs \<Longrightarrow> shows_history (record_one s x) (xs @ [x])"
begin

lemma records_all: "shows_history (foldl record_one start xs) xs"
proof (induction xs rule: rev_induct)
  case (snoc x xs)
  then show ?case by (simp add: record_step)
qed (simp add: start_empty)

end

interpretation site: recorder new_rolling add_sample "\<lambda>h ss. keeps_history h (map sample_value ss)"
  by unfold_locales (simp_all add: keeps_history_new keeps_history_add add_sample_def)

abbreviation qoq_values :: "f32 option \<times> f32 option \<Rightarrow> FlowbeeEffectiveDirection \<Rightarrow> f32 option" where
  "qoq_values v d \<equiv> (case d of Download \<Rightarrow> fst v | Upload \<Rightarrow> snd v)"

interpretation scores: recorder new_rolling "\<lambda>h v. qoq_add_sample h (fst v) (snd v)"
    "\<lambda>h vs. keeps_history h (map qoq_values vs)"
  by unfold_locales (simp_all add: keeps_history_new keeps_history_add qoq_add_sample_def)

lemma blocks_of_keeps_history:
  assumes "keeps_history h ss"
  shows "rolling_blocks h m = history_blocks ss m"
proof -
  note t = assms [unfolded keeps_history_def]
  have len: "length (summary h m) = 14" using t by (simp add: last_n_def)
  have "median_from_raw (raw h m) (raw_filled h) = minute_median (in_progress ss) m"
    using t median_from_raw_eq [of "map (\<lambda>s. s m) (in_progress ss)"] by (simp add: minute_median_def)
  then show ?thesis
    using t len by (simp add: rolling_blocks_def history_blocks_def copy_at_def list_update_append)
qed

text \<open>
  C20. After any history of samples a site heatmap shows, for every series, the
  medians of the last fourteen whole minutes, oldest first, and the median of the minute in progress.
\<close>

theorem heatmap_shows_history:
  "blocks (foldl add_sample new_rolling ss) = history_blocks (map sample_value ss)"
  using blocks_of_keeps_history [OF site.records_all] by (simp add: blocks_def fun_eq_iff)

section \<open>Scores on the heatmap\<close>

lemma f32_of_rat_between:
  assumes "of_nat a \<le> q" "q \<le> of_nat b" "b < 2 ^ 24"
  shows "\<exists>r. f32_of_rat q = Fin r \<and> of_nat a \<le> r \<and> r \<le> of_nat b"
proof -
  have exact: "f32_of_rat (of_nat n) = Fin (of_nat n)" if "n < 2 ^ 24" for n
    using that by (simp add: f32_of_rat_def round_ieee_nat)
  have "(of_nat a :: rat) \<le> of_nat b" using assms by linarith
  then have "a < 2 ^ 24" using assms(3) by simp
  then have "Fin (of_nat a) \<le> f32_of_rat q" "f32_of_rat q \<le> Fin (of_nat b)"
    using exact [of a] exact [of b] assms
      round_ieee_mono [of "of_nat a" q 24 "- 126" 127] round_ieee_mono [of q "of_nat b" 24 "- 126" 127]
    by (simp_all add: f32_of_rat_def)
  then show ?thesis by (cases "f32_of_rat q") simp_all
qed

lemma half_sum_in_range: "in_range a \<Longrightarrow> in_range b \<Longrightarrow> in_range (half_sum a b)"
proof -
  assume "in_range a" "in_range b"
  then obtain x y where xy: "a = Fin x" "b = Fin y" "0 \<le> x" "x \<le> 100" "0 \<le> y" "y \<le> 100"
    by (auto simp: in_range_cases)
  obtain s where s: "f32_of_rat (x + y) = Fin s" "0 \<le> s" "s \<le> 200"
    using f32_of_rat_between [of 0 "x + y" 200] xy by auto
  obtain h where "f32_of_rat (s / 2) = Fin h" "0 \<le> h" "h \<le> 100"
    using f32_of_rat_between [of 0 "s / 2" 100] s by auto
  then show ?thesis by (simp add: half_sum_def xy s f32_div_const_def)
qed

definition maybe_in_range :: "f32 option \<Rightarrow> bool" where
  "maybe_in_range v = (case v of None \<Rightarrow> True | Some x \<Rightarrow> in_range x)"

lemma maybe_in_range_simps [simp]: "maybe_in_range None" "maybe_in_range (Some x) = in_range x"
  by (simp_all add: maybe_in_range_def)

lemma score_value_in_range:
  assumes "unat c \<le> 100 \<or> c = (255 :: u8)"
  shows "maybe_in_range (if c \<noteq> 255 then Some (Fin (of_nat (unat c))) else None)"
proof -
  have "in_range (Fin (of_nat n))" if "n \<le> 100" for n using that by simp
  then show ?thesis using assms by (simp only: maybe_in_range_simps split: if_split) blast
qed

lemma median_in_range:
  assumes "list_all in_range vs"
  shows "maybe_in_range (median_of vs)"
proof -
  let ?s = "sort_key total_key vs"
  have in_s: "in_range (?s ! i)" if "i < length vs" for i
  proof -
    have "?s ! i \<in> set ?s" using that by (intro nth_mem) simp
    then show ?thesis using assms by (simp add: list_all_iff)
  qed
  show ?thesis
  proof (cases "vs = []")
    case False
    then have "length vs div 2 < length vs" "length vs div 2 - 1 < length vs" by (simp_all add: less_imp_diff_less)
    then show ?thesis using in_s half_sum_in_range by (simp add: median_of_def maybe_in_range_def Let_def)
  qed (simp add: median_of_def maybe_in_range_def)
qed

lemma minute_median_in_range:
  assumes "list_all (\<lambda>s. maybe_in_range (s m)) ss"
  shows "maybe_in_range (minute_median ss m)"
  unfolding minute_median_def
proof (rule median_in_range)
  have "in_range x" if "s \<in> set ss" "s m = Some x" for s x
    using assms that by (fastforce simp: list_all_iff maybe_in_range_def)
  then show "list_all in_range (flatten (map (\<lambda>s. s m) ss))"
    by (auto simp: list_all_iff flatten_def set_map_filter)
qed

lemma history_in_range:
  assumes "list_all (\<lambda>s. maybe_in_range (s m)) ss"
  shows "list_all maybe_in_range (history_blocks ss m)"
proof -
  have sub: "maybe_in_range (minute_median ys m)" if "set ys \<subseteq> set ss" for ys
    using assms that by (intro minute_median_in_range) (auto simp: list_all_iff)
  have "set (minute j ss) \<subseteq> set ss" for j unfolding minute_def by (meson set_drop_subset set_take_subset subset_trans)
  moreover have "set (in_progress ss) \<subseteq> set ss" unfolding in_progress_def by (rule set_drop_subset)
  ultimately show ?thesis
    using sub by (auto simp: history_blocks_def list_all_iff last_n_def past_medians_def dest!: in_set_dropD)
qed

text \<open>One second of \<open>record_site_heatmaps\<close>: the scores of a profile, a buffer and two loss measurements.\<close>

definition scored_second ::
  "QooProfile \<times> RttBuffer \<times> LossMeasurement option \<times> LossMeasurement option \<Rightarrow> f32 option \<times> f32 option" where
  "scored_second i = (case i of (p, rtt, ld, lu) \<Rightarrow>
     let s = compute_qoq_scores p rtt ld lu in (download_total_f32 s, upload_total_f32 s))"

lemma scored_second_in_range: "maybe_in_range (qoq_values (scored_second i) d)"
proof -
  obtain p rtt ld lu where i: "i = (p, rtt, ld, lu)" by (cases i) blast
  have "unat (direction_score p rtt d loss) \<le> 100 \<or> direction_score p rtt d loss = 255" for d loss
    using direction_score_unknown direction_score_known by (metis option.exhaust)
  then show ?thesis
    using score_value_in_range
    by (cases d) (simp_all only: i scored_second_def Let_def download_total_f32_def upload_total_f32_def
        compute_qoq_scores_def direction_score_def [symmetric] QoqScores.simps split FlowbeeEffectiveDirection.case
        fst_conv snd_conv prod.case)
qed

text \<open>
  Whatever profiles, histograms and loss measurements the seconds bring, every
  block a score heatmap shows is empty or a value between 0 and 100: the unknown marker never
  reaches the display.
\<close>

lemma qoq_blocks_in_range:
  "list_all (\<lambda>v. v = None \<or> (\<exists>x. v = Some x \<and> Fin 0 \<le> x \<and> x \<le> Fin 100))
     (qoq_blocks (foldl (\<lambda>h i. qoq_add_sample h (fst (scored_second i)) (snd (scored_second i))) new_rolling is) d)"
proof -
  let ?vs = "map scored_second is"
  have "foldl (\<lambda>h i. qoq_add_sample h (fst (scored_second i)) (snd (scored_second i))) new_rolling is
      = foldl (\<lambda>h v. qoq_add_sample h (fst v) (snd v)) new_rolling ?vs"
    by (simp add: foldl_map)
  moreover have "list_all maybe_in_range (history_blocks (map qoq_values ?vs) d)"
    by (rule history_in_range) (simp add: list_all_iff scored_second_in_range)
  ultimately have "list_all maybe_in_range (qoq_blocks (foldl (\<lambda>h i. qoq_add_sample h (fst (scored_second i))
      (snd (scored_second i))) new_rolling is) d)"
    using blocks_of_keeps_history [OF scores.records_all] by (simp add: qoq_blocks_def)
  then show ?thesis
    by (rule list.pred_mono_strong) (auto simp: maybe_in_range_def in_range_def split: option.splits)
qed

end
