(* ===== verification/Network_Properties.thy ===== *)
theory Network_Properties
  imports Network_Json Heatmap_Properties
begin

text \<open>
  The loaded tree is a tree: every node's list of ancestors extends its parent's by its own index.
  A cycle that adds each circuit's traffic along the path of its node gives every node the traffic of
  its subtree, and a reload of the same tree loses nothing.
\<close>

section \<open>The shape of the tree\<close>

text \<open>Node \<open>i\<close> is reached through the ancestors \<open>ps\<close>, a strictly rising path from the root.\<close>

definition path_ok :: "NetworkJson \<Rightarrow> usize list \<Rightarrow> bool" where
  "path_ok nodes ps \<longleftrightarrow> ps \<noteq> [] \<and> hd ps = 0 \<and> sorted_wrt (<) ps \<and> last ps < length nodes
     \<and> (ps = [0] \<or> parents (nodes ! last ps) = ps)"

definition node_ok :: "NetworkJson \<Rightarrow> usize \<Rightarrow> bool" where
  "node_ok nodes i \<longleftrightarrow> (\<exists>ps p. parents (nodes ! i) = ps @ [i] \<and> path_ok nodes ps \<and> last ps < i
     \<and> immediate_parent (nodes ! i) = Some p \<and> p < i)"

definition tree_ok :: "NetworkJson \<Rightarrow> bool" where
  "tree_ok nodes \<longleftrightarrow> nodes \<noteq> [] \<and> parents (nodes ! 0) = [] \<and> immediate_parent (nodes ! 0) = None
     \<and> (\<forall>i. 0 < i \<longrightarrow> i < length nodes \<longrightarrow> node_ok nodes i)"

lemma path_ok_snoc:
  assumes "path_ok nodes ps"
  shows "path_ok (nodes @ [n]) ps"
  using assms by (auto simp: path_ok_def nth_append)

lemma path_ok_last: "path_ok nodes ps \<Longrightarrow> last ps < length nodes"
  by (simp add: path_ok_def)

lemma path_ok_extend:
  assumes "path_ok nodes ps" "parents n = ps @ [length nodes]"
  shows "path_ok (nodes @ [n]) (ps @ [length nodes])"
proof -
  have "x < length nodes" if "x \<in> set ps" for x
  proof -
    have "x \<le> last ps" using assms(1) that by (auto simp: path_ok_def strict_sorted_iff intro: sorted_le_last)
    then show ?thesis using path_ok_last [OF assms(1)] by simp
  qed
  then show ?thesis using assms by (auto simp: path_ok_def sorted_wrt_append nth_append)
qed

lemma node_of_json_links [simp]:
  "parents (node_of_json name obj ps p) = ps" "immediate_parent (node_of_json name obj ps p) = Some p"
  by (simp_all add: node_of_json_def blank_node_def)

lemma tree_ok_push:
  assumes "tree_ok nodes" "path_ok nodes ps" "p < length nodes"
  shows "tree_ok (nodes @ [node_of_json name obj (ps @ [length nodes]) p])"
proof -
  let ?n = "node_of_json name obj (ps @ [length nodes]) p"
  have "node_ok (nodes @ [?n]) i" if "0 < i" "i < length nodes" for i
  proof -
    have "node_ok nodes i" using assms(1) that by (simp add: tree_ok_def)
    then obtain qs q where "parents (nodes ! i) = qs @ [i]" "path_ok nodes qs" "last qs < i"
        "immediate_parent (nodes ! i) = Some q" "q < i"
      by (auto simp: node_ok_def)
    then show ?thesis using that path_ok_snoc by (fastforce simp: node_ok_def nth_append)
  qed
  moreover have "node_ok (nodes @ [?n]) (length nodes)"
    using path_ok_snoc [OF assms(2)] path_ok_last [OF assms(2)] assms(3)
    by (fastforce simp: node_ok_def)
  ultimately show ?thesis
    using assms(1) by (auto simp: tree_ok_def nth_append less_Suc_eq)
qed

text \<open>Growing a tree keeps what was there.\<close>

definition grows :: "NetworkJson \<Rightarrow> NetworkJson \<Rightarrow> bool" where
  "grows nodes nodes' \<longleftrightarrow> (\<exists>more. nodes' = nodes @ more)"

lemma grows_refl [simp]: "grows nodes nodes" and grows_trans: "grows a b \<Longrightarrow> grows b c \<Longrightarrow> grows a c"
  by (auto simp: grows_def)

lemma path_ok_grows: "path_ok nodes ps \<Longrightarrow> grows nodes nodes' \<Longrightarrow> path_ok nodes' ps"
  by (auto simp: path_ok_def grows_def nth_append)

lemma grows_length: "grows a b \<Longrightarrow> length a \<le> length b"
  by (auto simp: grows_def)

lemma recurse_tree:
  "tree_ok nodes \<Longrightarrow> path_ok nodes ps \<Longrightarrow> p < length nodes \<Longrightarrow>
    tree_ok (recurse_node nodes name obj ps p) \<and> grows nodes (recurse_node nodes name obj ps p)"
  "tree_ok nodes \<Longrightarrow> path_ok nodes ps \<Longrightarrow> p < length nodes \<Longrightarrow>
    tree_ok (recurse_entries nodes obj ps p) \<and> grows nodes (recurse_entries nodes obj ps p)"
proof (induction nodes name obj ps p and nodes obj ps p rule: recurse_node_recurse_entries.induct)
  case (1 nodes name obj ps p)
  show ?case
  proof (cases "name = ''children''")
    case True
    have "length nodes - 1 < length nodes" using 1(3) by (simp add: tree_ok_def)
    with 1 True show ?thesis by (simp add: recurse_node.simps)
  next
    case False
    let ?n = "node_of_json name obj (ps @ [length nodes]) p"
    have "tree_ok (nodes @ [?n])" using 1 by (intro tree_ok_push)
    moreover have "path_ok (nodes @ [?n]) (ps @ [length nodes])" using 1 by (intro path_ok_extend) simp_all
    moreover have "grows nodes (nodes @ [?n])" by (simp add: grows_def)
    ultimately show ?thesis using 1(1) [OF False] False grows_trans by (simp add: recurse_node.simps)
  qed
next
  case (3 nodes key inner rest ps p)
  define nx where "nx = (if key \<noteq> ''uploadBandwidthMbps'' \<and> key \<noteq> ''downloadBandwidthMbps''
    then recurse_node nodes key inner ps p else nodes)"
  have g: "tree_ok nx" "grows nodes nx" using 3 by (auto simp: nx_def)
  have p: "path_ok nx ps" "p < length nx"
    using path_ok_grows [OF 3(4) g(2)] grows_length [OF g(2)] 3(5) by simp_all
  have "tree_ok (recurse_entries nx rest ps p) \<and> grows nx (recurse_entries nx rest ps p)"
    using 3(2) g(1) p unfolding nx_def by blast
  then have "tree_ok (recurse_entries nx rest ps p)" "grows nodes (recurse_entries nx rest ps p)"
    using grows_trans [OF g(2)] by blast+
  then show ?case unfolding recurse_entries.simps nx_def by blast
qed auto

lemma tree_ok_root: "tree_ok [root_node]"
  by (simp add: tree_ok_def root_node_def blank_node_def)

lemma network_tree: "tree_ok (network_of_json j)"
proof (cases j)
  case (JObject obj)
  let ?step = "\<lambda>nodes (key, value). case value of JObject inner \<Rightarrow> recurse_node nodes key inner [0] 0 | _ \<Rightarrow> nodes"
  have "tree_ok (foldl ?step nodes obj)" if "tree_ok nodes" for nodes
    using that
  proof (induction obj arbitrary: nodes)
    case (Cons e obj)
    obtain key v where e: "e = (key, v)" by (cases e)
    have "path_ok nodes [0]" "0 < length nodes" using Cons.prems by (auto simp: tree_ok_def path_ok_def)
    then have "tree_ok (?step nodes e)"
      using Cons.prems recurse_tree(1) by (auto simp: e split: json.splits)
    then show ?case using Cons.IH by simp
  qed simp
  with JObject tree_ok_root show ?thesis by (simp add: network_of_json_def)
qed (simp_all add: network_of_json_def tree_ok_root)

text \<open>
  C10. Loading any JSON document gives a tree: the first node is the root, and
  every other node's list of ancestors is a strictly rising path of indices from the root that ends
  in the node itself and continues the list of the ancestor before it.
\<close>

theorem loaded_tree:
  assumes "load_network path ex read_text parse = Inr nodes" and "0 < i" and "i < length nodes"
  shows "parents (nodes ! 0) = [] \<and> (\<exists>ps p. parents (nodes ! i) = ps @ [i]
    \<and> ps \<noteq> [] \<and> hd ps = 0 \<and> sorted_wrt (<) (ps @ [i])
    \<and> (ps = [0] \<or> parents (nodes ! last ps) = ps)
    \<and> immediate_parent (nodes ! i) = Some p \<and> p < i)"
proof -
  obtain j where "nodes = network_of_json j"
    using assms(1) by (auto simp: load_network_def split: option.splits if_splits)
  then have tree: "tree_ok nodes" by (simp add: network_tree)
  then have "node_ok nodes i" using assms(2,3) by (simp add: tree_ok_def)
  then obtain ps p where ps: "parents (nodes ! i) = ps @ [i]" "path_ok nodes ps" "last ps < i"
      "immediate_parent (nodes ! i) = Some p" "p < i"
    by (auto simp: node_ok_def)
  have "x < i" if "x \<in> set ps" for x
  proof -
    have "x \<le> last ps" using ps(2) that by (auto simp: path_ok_def strict_sorted_iff intro: sorted_le_last)
    then show ?thesis using ps(3) by simp
  qed
  then have "sorted_wrt (<) (ps @ [i])" using ps(2) by (simp add: path_ok_def sorted_wrt_append)
  with ps tree show ?thesis by (auto simp: path_ok_def tree_ok_def)
qed

definition small_network :: json where
  "small_network = JObject [(''Site_1'', JObject [(''children'', JObject [(''AP_1'', JObject [])]), (''type'', JString ''Site'')])]"

lemma small_network_parents:
  "map parents (network_of_json small_network) = [[], [0, 1], [0, 1, 2]]"
  "map immediate_parent (network_of_json small_network) = [None, Some 0, Some 1]"
  by (simp_all add: small_network_def network_of_json_def recurse_node.simps root_node_def blank_node_def)

theorem loaded_tree_witness:
  "\<exists>ps p. parents (network_of_json small_network ! 2) = ps @ [2] \<and> ps \<noteq> [] \<and> hd ps = 0
     \<and> sorted_wrt (<) (ps @ [2]) \<and> immediate_parent (network_of_json small_network ! 2) = Some p \<and> p < 2"
proof -
  have "load_network (Some ''network.json'') (\<lambda>_. True) Some (\<lambda>_. Some small_network)
      = Inr (network_of_json small_network)"
    by (simp add: load_network_def)
  moreover have "length (network_of_json small_network) = 3"
    using arg_cong [OF small_network_parents(1), of length] by simp
  ultimately show ?thesis using loaded_tree [of _ _ _ _ _ 2] by fastforce
qed

text \<open>
  The index of the immediate parent follows the position in the vector, not the path: an object that
  comes before \<open>children\<close> in a node becomes the immediate parent of the children that follow it.
\<close>

lemma immediate_parent_diverges:
  defines "j \<equiv> JObject [(''Site_1'', JObject [(''Backhaul'', JObject []), (''children'', JObject [(''AP_1'', JObject [])])])]"
  shows "map nj_name (network_of_json j) = [''Root'', ''Site_1'', ''Backhaul'', ''AP_1'']"
    and "parents (network_of_json j ! 3) = [0, 1, 3]"
    and "immediate_parent (network_of_json j ! 3) = Some 2"
  by (simp_all add: j_def network_of_json_def recurse_node.simps root_node_def blank_node_def node_of_json_def)

section \<open>A cycle\<close>

lemma length_update_targets [simp]: "length (update_targets f ts nodes) = length nodes"
proof -
  have "length (foldl (\<lambda>nodes idx. if idx < length nodes then nodes[idx := f (nodes ! idx)] else nodes) nodes ts)
      = length nodes"
    by (induction ts arbitrary: nodes) auto
  then show ?thesis by (simp add: update_targets_def)
qed

lemma nth_update_targets:
  assumes "distinct ts" "i < length nodes"
  shows "update_targets f ts nodes ! i = (if i \<in> set ts then f (nodes ! i) else nodes ! i)"
  using assms
proof (induction ts arbitrary: nodes)
  case (Cons t ts)
  let ?n = "if t < length nodes then nodes[t := f (nodes ! t)] else nodes"
  have "update_targets f (t # ts) nodes = update_targets f ts ?n" by (simp add: update_targets_def)
  moreover have "update_targets f ts ?n ! i = (if i \<in> set ts then f (?n ! i) else ?n ! i)"
    using Cons by simp
  ultimately show ?case using Cons.prems by (auto simp: nth_list_update)
qed (simp add: update_targets_def)

record traffic =
  tf_node :: usize
  tf_bytes :: "u64 \<times> u64"
  tf_packets :: "u64 \<times> u64"
  tf_tcp :: "u64 \<times> u64"
  tf_udp :: "u64 \<times> u64"
  tf_icmp :: "u64 \<times> u64"
  tf_rtt :: RttBuffer

text \<open>One circuit's part of a cycle: its traffic and its histogram go to the nodes on its path.\<close>

definition add_traffic :: "NetworkJson \<Rightarrow> traffic \<Rightarrow> NetworkJson" where
  "add_traffic nodes t = (let targets = parents (nodes ! tf_node t) in
     add_rtt_buffer_cycle
       (add_throughput_cycle nodes targets (tf_bytes t) (tf_packets t) (tf_tcp t) (tf_udp t) (tf_icmp t))
       targets (tf_rtt t))"

definition run_cycle :: "NetworkJson \<Rightarrow> traffic list \<Rightarrow> NetworkJson" where
  "run_cycle nodes ts = foldl add_traffic (zero_throughput_and_rtt nodes) ts"

definition below :: "NetworkJson \<Rightarrow> usize \<Rightarrow> traffic list \<Rightarrow> traffic list" where
  "below nodes i ts = filter (\<lambda>t. i \<in> set (parents (nodes ! tf_node t))) ts"

definition bytes_down :: "traffic list \<Rightarrow> nat" where
  "bytes_down ts = sum_list (map (\<lambda>t. unat (fst (tf_bytes t))) ts)"

definition bytes_up :: "traffic list \<Rightarrow> nat" where
  "bytes_up ts = sum_list (map (\<lambda>t. unat (snd (tf_bytes t))) ts)"

lemma tree_ok_distinct:
  assumes "tree_ok nodes" "i < length nodes"
  shows "distinct (parents (nodes ! i))"
proof (cases "i = 0")
  case False
  then obtain ps p where "parents (nodes ! i) = ps @ [i]" "path_ok nodes ps" "last ps < i"
    using assms by (auto simp: tree_ok_def node_ok_def)
  moreover from this have "x < i" if "x \<in> set ps" for x
    using that sorted_le_last [of ps x] by (auto simp: path_ok_def strict_sorted_iff)
  ultimately show ?thesis by (auto simp: path_ok_def strict_sorted_iff)
qed (use assms in \<open>simp add: tree_ok_def\<close>)

text \<open>What a cycle has added to a node so far.\<close>

definition counted :: "NetworkJson \<Rightarrow> NetworkJson \<Rightarrow> traffic list \<Rightarrow> bool" where
  "counted nodes now ts \<longleftrightarrow> length now = length nodes \<and> (\<forall>i < length nodes.
     parents (now ! i) = parents (nodes ! i)
     \<and> unat (down (current_throughput (now ! i))) = bytes_down (below nodes i ts)
     \<and> unat (up (current_throughput (now ! i))) = bytes_up (below nodes i ts)
     \<and> rtt_buffer (now ! i) = foldl accumulate default_buffer (map tf_rtt (below nodes i ts)))"

lemma below_le: "bytes_down (below nodes i ts) \<le> bytes_down ts" "bytes_up (below nodes i ts) \<le> bytes_up ts"
  by (induction ts) (auto simp: below_def bytes_down_def bytes_up_def)

lemma counted_zero: "counted nodes (zero_throughput_and_rtt nodes) []"
  by (simp add: counted_def zero_throughput_and_rtt_def zero_node_def zeroed_def clear_def below_def
      bytes_down_def bytes_up_def)

lemma counted_add:
  assumes tree: "tree_ok nodes" and c: "counted nodes now ts" and t: "tf_node t < length nodes"
    and fits: "bytes_down (ts @ [t]) < 2 ^ 64" "bytes_up (ts @ [t]) < 2 ^ 64"
  shows "counted nodes (add_traffic now t) (ts @ [t])"
proof -
  let ?p = "parents (nodes ! tf_node t)"
  have p: "parents (now ! tf_node t) = ?p" and len: "length now = length nodes"
    using c t by (simp_all add: counted_def)
  have d: "distinct ?p" using tree t by (rule tree_ok_distinct)
  have nth: "add_traffic now t ! i = (if i \<in> set ?p
      then (now ! i)\<lparr>current_throughput := checked_add_tuple (current_throughput (now ! i)) (tf_bytes t),
        current_packets := checked_add_tuple (current_packets (now ! i)) (tf_packets t),
        current_tcp_packets := checked_add_tuple (current_tcp_packets (now ! i)) (tf_tcp t),
        current_udp_packets := checked_add_tuple (current_udp_packets (now ! i)) (tf_udp t),
        current_icmp_packets := checked_add_tuple (current_icmp_packets (now ! i)) (tf_icmp t),
        rtt_buffer := accumulate (rtt_buffer (now ! i)) (tf_rtt t)\<rparr>
      else now ! i)" if "i < length nodes" for i
    using that len d
    by (simp add: add_traffic_def Let_def p add_rtt_buffer_cycle_def add_throughput_cycle_def nth_update_targets)
  have "length (add_traffic now t) = length nodes"
    using len by (simp add: add_traffic_def Let_def add_rtt_buffer_cycle_def add_throughput_cycle_def)
  moreover have "parents (add_traffic now t ! i) = parents (nodes ! i)
     \<and> unat (down (current_throughput (add_traffic now t ! i))) = bytes_down (below nodes i (ts @ [t]))
     \<and> unat (up (current_throughput (add_traffic now t ! i))) = bytes_up (below nodes i (ts @ [t]))
     \<and> rtt_buffer (add_traffic now t ! i) = foldl accumulate default_buffer (map tf_rtt (below nodes i (ts @ [t])))"
    if i: "i < length nodes" for i
  proof (cases "i \<in> set ?p")
    case True
    have now: "unat (down (current_throughput (now ! i))) = bytes_down (below nodes i ts)"
      "unat (up (current_throughput (now ! i))) = bytes_up (below nodes i ts)"
      using c i by (simp_all add: counted_def)
    have "unat (down (current_throughput (now ! i))) + unat (fst (tf_bytes t)) < 2 ^ LENGTH(64)"
      "unat (up (current_throughput (now ! i))) + unat (snd (tf_bytes t)) < 2 ^ LENGTH(64)"
      using fits below_le [of nodes i ts] now by (simp_all add: bytes_down_def bytes_up_def)
    then have "checked_add_tuple (current_throughput (now ! i)) (tf_bytes t) =
        \<lparr>down = down (current_throughput (now ! i)) + fst (tf_bytes t),
         up = up (current_throughput (now ! i)) + snd (tf_bytes t)\<rparr>"
      "unat (down (current_throughput (now ! i)) + fst (tf_bytes t)) = bytes_down (below nodes i ts) + unat (fst (tf_bytes t))"
      "unat (up (current_throughput (now ! i)) + snd (tf_bytes t)) = bytes_up (below nodes i ts) + unat (snd (tf_bytes t))"
      using now by (simp_all add: checked_add_tuple_fits unat_add_lem [THEN iffD1])
    then show ?thesis
      using True c i by (simp add: nth counted_def below_def bytes_down_def bytes_up_def)
  next
    case False
    then show ?thesis using c i by (simp add: nth counted_def below_def)
  qed
  ultimately show ?thesis by (simp add: counted_def)
qed

lemma counted_run:
  assumes "tree_ok nodes" "list_all (\<lambda>t. tf_node t < length nodes) ts"
    and "bytes_down ts < 2 ^ 64" "bytes_up ts < 2 ^ 64"
  shows "counted nodes (run_cycle nodes ts) ts"
  using assms
proof (induction ts rule: rev_induct)
  case Nil
  then show ?case by (simp add: run_cycle_def counted_zero)
next
  case (snoc t ts)
  have "bytes_down ts \<le> bytes_down (ts @ [t])" "bytes_up ts \<le> bytes_up (ts @ [t])"
    by (simp_all add: bytes_down_def bytes_up_def)
  then have "counted nodes (run_cycle nodes ts) ts" using snoc by simp
  then show ?case using counted_add [OF snoc.prems(1)] snoc.prems by (simp add: run_cycle_def)
qed

text \<open>
  C12. After a cycle that zeroes the tree and adds every circuit's traffic along
  the path of its node, each node of a loaded tree has counted exactly the bytes of the circuits in
  its subtree, and its histogram is the merge of theirs.
\<close>

theorem subtree_accounting:
  assumes "nodes = network_of_json j" and "list_all (\<lambda>t. tf_node t < length nodes) ts"
    and "bytes_down ts < 2 ^ 64" and "bytes_up ts < 2 ^ 64" and "i < length nodes"
  shows "unat (down (current_throughput (run_cycle nodes ts ! i))) = bytes_down (below nodes i ts)
    \<and> unat (up (current_throughput (run_cycle nodes ts ! i))) = bytes_up (below nodes i ts)
    \<and> rtt_buffer (run_cycle nodes ts ! i) = foldl accumulate default_buffer (map tf_rtt (below nodes i ts))"
  using counted_run [of nodes ts] assms network_tree [of j] by (simp add: counted_def)

definition ap_traffic :: traffic where
  "ap_traffic = \<lparr>tf_node = 2, tf_bytes = (700, 90), tf_packets = (7, 1), tf_tcp = (7, 1), tf_udp = (0, 0),
     tf_icmp = (0, 0), tf_rtt = default_buffer\<rparr>"

definition site_traffic :: traffic where
  "site_traffic = ap_traffic\<lparr>tf_node := 1, tf_bytes := (50, 5)\<rparr>"

theorem subtree_accounting_witness:
  "unat (down (current_throughput (run_cycle (network_of_json small_network) [ap_traffic, site_traffic] ! 1))) = 750
   \<and> unat (down (current_throughput (run_cycle (network_of_json small_network) [ap_traffic, site_traffic] ! 2))) = 700"
proof -
  let ?n = "network_of_json small_network"
  have len: "length ?n = 3" using arg_cong [OF small_network_parents(1), of length] by simp
  have p: "parents (?n ! Suc 0) = [0, 1]" "parents (?n ! 2) = [0, 1, 2]"
    using arg_cong [OF small_network_parents(1), of "\<lambda>xs. xs ! 1"]
      arg_cong [OF small_network_parents(1), of "\<lambda>xs. xs ! 2"] len by simp_all
  have "list_all (\<lambda>t. tf_node t < length ?n) [ap_traffic, site_traffic]"
    "bytes_down [ap_traffic, site_traffic] < 2 ^ 64" "bytes_up [ap_traffic, site_traffic] < 2 ^ 64"
    by (simp_all add: len ap_traffic_def site_traffic_def bytes_down_def bytes_up_def)
  from subtree_accounting [OF refl this, of 1] subtree_accounting [OF refl this, of 2]
  show ?thesis
    by (simp add: len below_def p ap_traffic_def site_traffic_def bytes_down_def)
qed

section \<open>Reloading\<close>

text \<open>Every node can be told apart: by its id, or by its name when it has none.\<close>

definition identifiable :: "NetworkJson \<Rightarrow> bool" where
  "identifiable nodes \<longleftrightarrow> distinct (List.map_filter nj_id nodes)
     \<and> list_all (\<lambda>n. nj_id n = None \<longrightarrow> name_count nodes (nj_name n) = 1) nodes"

abbreviation labels :: "NetworkJson \<Rightarrow> (string \<times> string option) list" where
  "labels nodes \<equiv> map (\<lambda>n. (nj_name n, nj_id n)) nodes"

lemma find_unique:
  assumes "y \<in> set xs" "P y" "\<And>x. x \<in> set xs \<Longrightarrow> P x \<Longrightarrow> x = y"
  shows "find P xs = Some y"
proof -
  have "find P xs \<noteq> None" using assms(1,2) by (auto simp: find_None_iff)
  then obtain z where z: "find P xs = Some z" by auto
  then have "z \<in> set xs" "P z" by (auto simp: find_Some_iff)
  then show ?thesis using z assms(3) by simp
qed

lemma map_filter_append: "List.map_filter f (xs @ ys) = List.map_filter f xs @ List.map_filter f ys"
  by (simp add: List.map_filter_def)

lemma distinct_map_filter_nth:
  assumes "distinct (List.map_filter f xs)" "i < length xs" "k < length xs" "f (xs ! i) = Some v" "f (xs ! k) = Some v"
  shows "i = k"
proof (rule ccontr)
  assume "i \<noteq> k"
  have *: "False" if "i < k" "k < length xs" "f (xs ! i) = Some v" "f (xs ! k) = Some v" for i k
  proof -
    have split: "take k xs @ xs ! k # drop (Suc k) xs = xs"
      using that(2) by (rule id_take_nth_drop [symmetric])
    have "List.map_filter f (take k xs @ xs ! k # drop (Suc k) xs)
        = List.map_filter f (take k xs) @ v # List.map_filter f (drop (Suc k) xs)"
      using that(4) by (simp only: map_filter_append List.map_filter_simps option.case)
    then have "List.map_filter f xs = List.map_filter f (take k xs) @ v # List.map_filter f (drop (Suc k) xs)"
      by (simp only: split)
    moreover have "v \<in> set (List.map_filter f (take k xs))"
    proof -
      have "take k xs ! i \<in> set (take k xs)" using that by (intro nth_mem) simp
      then show ?thesis using that by (auto simp: set_map_filter)
    qed
    ultimately show ?thesis using assms(1) by simp
  qed
  show False using * [of i k] * [of k i] assms \<open>i \<noteq> k\<close> by (metis nat_neq_iff)
qed

lemma preserved_same:
  assumes same: "labels fresh = labels previous" and ident: "identifiable previous" and i: "i < length fresh"
  shows "preserved_node fresh previous (fresh ! i) = Some (previous ! i)"
proof -
  have len: "length fresh = length previous" using same by (rule map_eq_imp_length_eq)
  have lab: "nj_name (fresh ! k) = nj_name (previous ! k)" "nj_id (fresh ! k) = nj_id (previous ! k)"
    if "k < length previous" for k
    using arg_cong [OF same, of "\<lambda>xs. xs ! k"] that len by simp_all
  have ip: "i < length previous" using i len by simp
  show ?thesis
  proof (cases "nj_id (previous ! i)")
    case (Some x)
    have "find (\<lambda>n. nj_id n = Some x) (rev previous) = Some (previous ! i)"
    proof (rule find_unique)
      fix n assume "n \<in> set (rev previous)" "nj_id n = Some x"
      then obtain k where "k < length previous" "n = previous ! k" by (auto simp: in_set_conv_nth)
      then show "n = previous ! i"
        using distinct_map_filter_nth [of nj_id previous i k x] ident ip Some \<open>nj_id n = Some x\<close>
        by (simp add: identifiable_def)
    qed (use ip Some in simp_all)
    then show ?thesis using Some lab(2) [OF ip] by (simp add: preserved_node_def previous_by_id_def)
  next
    case None
    then have one: "name_count previous (nj_name (previous ! i)) = 1"
      using ident ip by (simp add: identifiable_def list_all_length)
    have counts: "name_count nodes m = length (filter (\<lambda>l. fst l = m) (labels nodes))" for nodes m
      by (simp add: name_count_def filter_map comp_def)
    have fresh_one: "name_count fresh (nj_name (previous ! i)) = 1" using one by (simp add: counts same)
    have "find (\<lambda>n. nj_name n = nj_name (previous ! i)) previous = Some (previous ! i)"
    proof (rule find_unique)
      fix n assume n: "n \<in> set previous" "nj_name n = nj_name (previous ! i)"
      obtain z where "filter (\<lambda>n. nj_name n = nj_name (previous ! i)) previous = [z]"
        using one by (auto simp: name_count_def length_Suc_conv)
      then have "{m \<in> set previous. nj_name m = nj_name (previous ! i)} = {z}"
        by (metis set_filter list.simps(15) list.set(1))
      then have "m = z" if "m \<in> set previous" "nj_name m = nj_name (previous ! i)" for m using that by blast
      then show "n = previous ! i" using n ip by (metis nth_mem)
    qed (use ip in simp_all)
    then show ?thesis
      using None one fresh_one lab [OF ip]
      by (simp add: preserved_node_def previous_by_unique_name_def)
  qed
qed

text \<open>
  A reload of a tree with the same names and ids, in which every node can be
  told apart, keeps every node's counters, histogram and heatmaps, and takes the links of the new
  file.
\<close>

lemma reload_keeps_history:
  assumes "labels fresh = labels previous" and "identifiable previous" and "i < length fresh"
  shows "(let n = carry_forward_live_counters_from (carry_forward_heatmaps_from fresh previous) previous ! i in
     current_throughput n = current_throughput (previous ! i)
     \<and> current_tcp_retransmits n = current_tcp_retransmits (previous ! i)
     \<and> rtt_buffer n = rtt_buffer (previous ! i) \<and> heatmap n = heatmap (previous ! i)
     \<and> qoq_heatmap n = qoq_heatmap (previous ! i) \<and> parents n = parents (fresh ! i)
     \<and> max_throughput n = max_throughput (fresh ! i))"
proof -
  let ?h = "carry_forward_heatmaps_from fresh previous"
  have h: "?h ! i = (fresh ! i)\<lparr>heatmap := heatmap (previous ! i), qoq_heatmap := qoq_heatmap (previous ! i)\<rparr>"
    using preserved_same [OF assms] assms(3) by (simp add: carry_forward_heatmaps_from_def)
  have "labels ?h = labels fresh"
    by (auto simp: carry_forward_heatmaps_from_def split: option.splits)
  then have "preserved_node ?h previous (?h ! i) = Some (previous ! i)"
    using assms by (intro preserved_same) (simp_all add: carry_forward_heatmaps_from_def)
  then show ?thesis
    using assms(3) h by (simp add: carry_forward_live_counters_from_def carry_forward_heatmaps_from_def Let_def)
qed

lemma reload_keeps_history_witness:
  "unat (down (current_throughput (carry_forward_live_counters_from
     (carry_forward_heatmaps_from [root_node] [root_node\<lparr>current_throughput := \<lparr>down = 9, up = 2\<rparr>\<rparr>])
     [root_node\<lparr>current_throughput := \<lparr>down = 9, up = 2\<rparr>\<rparr>] ! 0))) = 9"
proof -
  let ?old = "[root_node\<lparr>current_throughput := \<lparr>down = 9, up = 2\<rparr>\<rparr>]"
  have "identifiable ?old" "labels [root_node] = labels ?old"
    by (simp_all add: identifiable_def name_count_def root_node_def blank_node_def List.map_filter_def)
  with reload_keeps_history [of "[root_node]" ?old 0] show ?thesis by (simp add: Let_def)
qed

text \<open>
  The fallback to the name is also taken by a node that has an id the previous tree does not know: it
  takes over the counters of a node of the same name and another id.
\<close>

lemma unknown_id_takes_name:
  defines "old \<equiv> (blank_node ''Tower'' [0, 1] (Some 0))\<lparr>nj_id := Some ''a'', current_throughput := \<lparr>down = 9, up = 2\<rparr>\<rparr>"
    and "new \<equiv> (blank_node ''Tower'' [0, 1] (Some 0))\<lparr>nj_id := Some ''b''\<rparr>"
  shows "down (current_throughput (carry_forward_live_counters_from [root_node, new] [root_node, old] ! 1)) = 9"
  by (simp add: carry_forward_live_counters_from_def preserved_node_def previous_by_id_def
      previous_by_unique_name_def name_count_def old_def new_def root_node_def blank_node_def)

end
