(* ===== verification/Queue_Math.thy ===== *)
theory Queue_Math
  imports Float_Rounding Network_Json "HOL-Library.Sublist"
begin

text \<open>
  The numbers and texts of the queue commands (\<open>lqos_bakery/src/queue_math.rs\<close>) and the part of the
  configuration they read (\<open>lqos_config/src/etc/v15\<close>). A method that panics when the configuration
  names no interface gives \<open>None\<close>. The multiplications wrap, as in a release build. Log messages are
  left out.
\<close>

section \<open>Configuration\<close>

datatype QueueMode = Shape | Observe

datatype LazyQueueMode = LazyNo | LazyHtb | LazyFull

record QueueConfig =
  default_sqm :: string
  queue_mode :: QueueMode
  uplink_bandwidth_mbps :: u64
  downlink_bandwidth_mbps :: u64
  lazy_queues :: "LazyQueueMode option"
  lazy_expire_seconds :: "u64 option"
  fast_queues_fq_codel :: "f64 option"

record BridgeConfig =
  to_internet :: string
  to_network :: string

record SingleInterfaceConfig =
  single_name :: string

record StormguardConfig =
  stormguard_enabled :: bool
  stormguard_dry_run :: bool

record Config =
  cfg_bridge :: "BridgeConfig option"
  cfg_single_interface :: "SingleInterfaceConfig option"
  cfg_queues :: QueueConfig
  cfg_stormguard :: "StormguardConfig option"

definition is_observe :: "QueueMode \<Rightarrow> bool" where
  "is_observe self = (case self of Observe \<Rightarrow> True | Shape \<Rightarrow> False)"

definition internet_interface :: "Config \<Rightarrow> string option" where
  "internet_interface self =
     (case cfg_bridge self of
        Some bridge \<Rightarrow> Some (to_internet bridge)
      | None \<Rightarrow> map_option single_name (cfg_single_interface self))"

definition isp_interface :: "Config \<Rightarrow> string option" where
  "isp_interface self =
     (case cfg_bridge self of
        Some bridge \<Rightarrow> Some (to_network bridge)
      | None \<Rightarrow> map_option single_name (cfg_single_interface self))"

definition on_a_stick_mode :: "Config \<Rightarrow> bool" where
  "on_a_stick_mode self \<longleftrightarrow> cfg_bridge self = None"

section \<open>Rates\<close>

text \<open>\<open>{:.d}\<close> of a number that is not negative: its exact value rounded to \<open>d\<close> places, ties to even.\<close>

definition zero_padded :: "nat \<Rightarrow> string \<Rightarrow> string" where
  "zero_padded d s = replicate (d - length s) (CHR ''0'') @ s"

definition format_fixed :: "nat \<Rightarrow> f64 \<Rightarrow> string" where
  "format_fixed d x = (case x of
       NaN \<Rightarrow> ''NaN''
     | PosInf \<Rightarrow> ''inf''
     | NegInf \<Rightarrow> ''-inf''
     | Fin q \<Rightarrow>
         let n = nat (round_half_even (\<bar>q\<bar> * 10 ^ d));
             text = dec_digits (n div 10 ^ d)
               @ (if d = 0 then [] else CHR ''.'' # zero_padded d (dec_digits (n mod 10 ^ d)))
         in if q < 0 then CHR ''-'' # text else text)"

definition format_rate_for_tc :: "u64 \<Rightarrow> string" where
  "format_rate_for_tc rate =
     (if rate \<ge> 1000 then format_fixed 1 (f64_div (f64_of_u64 rate) (Fin 1000)) @ ''gbit''
      else if rate \<ge> 1 then format_fixed 1 (f64_of_u64 rate) @ ''mbit''
      else format_fixed 0 (f64_mul (f64_of_u64 rate) (Fin 1000)) @ ''kbit'')"

definition MIN_RATE_MBPS :: f32 where
  "MIN_RATE_MBPS = f32_of_rat (1 / 100)"

definition MAX_RATE_MBPS :: f32 where
  "MAX_RATE_MBPS = Fin 10000000"

definition format_rate_for_tc_f32 :: "f32 \<Rightarrow> string" where
  "format_rate_for_tc_f32 rate =
     (let r = rate;
          r = (if \<not> is_finite r then MIN_RATE_MBPS else r);
          r = (if r < MIN_RATE_MBPS then MIN_RATE_MBPS
               else if r > MAX_RATE_MBPS then MAX_RATE_MBPS else r)
      in if r \<ge> Fin 1000 then format_fixed 1 (f64_div r (Fin 1000)) @ ''gbit''
         else if r \<ge> Fin 1 then format_fixed 1 r @ ''mbit''
         else format_fixed 0 (f64_mul r (Fin 1000)) @ ''kbit'')"

text \<open>\<open>as u64\<close> of a float: truncation, saturating, and zero for NaN.\<close>

definition u64_of_float :: "ieee \<Rightarrow> u64" where
  "u64_of_float x = (case x of
       NaN \<Rightarrow> 0
     | NegInf \<Rightarrow> 0
     | PosInf \<Rightarrow> - 1
     | Fin q \<Rightarrow> if q \<le> 0 then 0 else if q \<ge> 2 ^ 64 then - 1 else word_of_nat (nat \<lfloor>q\<rfloor>))"

section \<open>Quantum\<close>

definition MAX_R2Q :: f64 where
  "MAX_R2Q = Fin 60000"

definition MIN_QUANTUM :: u64 where
  "MIN_QUANTUM = 1522"

lemma f64_of_u64_le: "f64_of_u64 n \<le> Fin (2 ^ 64)"
proof -
  have "unat n < 2 ^ LENGTH(64)" by (rule unsigned_less)
  then have n: "unat n \<le> 2 ^ 64" by simp
  have "f64_of_u64 n \<le> f64_of_rat (of_nat (2 ^ 64))"
    unfolding f64_of_u64_def by (rule f64_of_rat_mono) (use n in \<open>simp only: of_nat_le_iff\<close>)
  moreover have "f64_of_rat (of_nat (2 ^ 64)) = Fin (2 ^ 64)"
  proof -
    have "scaled 53 (- 1022) (2 ^ 64) = 2 ^ 64"
      by (rule scaled_exact [where m = 1 and k = 64]) (simp_all add: pow2_def)
    then show ?thesis by (simp add: f64_of_rat_def round_ieee_def round_nonneg_scaled pow2_def)
  qed
  ultimately show ?thesis by simp
qed

lemma f64_of_u64_finite: "\<exists>q. f64_of_u64 n = Fin q \<and> 0 \<le> q \<and> q \<le> 2 ^ 64"
proof -
  have "Fin 0 \<le> f64_of_u64 n" unfolding f64_of_u64_def by (intro f64_of_rat_ge_0 of_nat_0_le_iff)
  with f64_of_u64_le [of n] show ?thesis by (cases "f64_of_u64 n") auto
qed

text \<open>The quantum is at most the maximum before the divisor can overflow.\<close>

lemma quantum_divisor_bound:
  assumes "f64_div (f64_of_u64 bytes) (f64_of_u64 r) > MAX_R2Q"
  shows "unat r < 2 ^ 49"
proof (rule ccontr)
  assume "\<not> unat r < 2 ^ 49"
  then have "(of_nat (2 ^ 49) :: rat) \<le> of_nat (unat r)" by (simp only: of_nat_le_iff not_less)
  then have "Fin (of_nat (2 ^ 49)) \<le> f64_of_u64 r"
    unfolding f64_of_u64_def by (rule f64_of_rat_ge_nat) simp
  with f64_of_u64_finite [of r] obtain d where d: "f64_of_u64 r = Fin d" "2 ^ 49 \<le> d" by auto
  obtain b where b: "f64_of_u64 bytes = Fin b" "0 \<le> b" "b \<le> 2 ^ 64" using f64_of_u64_finite by blast
  have "b \<le> of_nat 32768 * d" using b(3) d(2) by simp
  then have "b / d \<le> of_nat 32768" using d by (simp add: pos_divide_le_eq)
  then have "f64_of_rat (b / d) \<le> Fin (of_nat 32768)" by (rule f64_of_rat_le_nat) simp
  then show False using assms b d by (cases "f64_of_rat (b / d)") (auto simp: MAX_R2Q_def)
qed

text \<open>The loop, with \<open>bytes\<close> the rate in bytes per second before its conversion.\<close>

function r2q_loop :: "u64 \<Rightarrow> u64 \<Rightarrow> u64" where
  "r2q_loop bytes r =
     (if f64_div (f64_of_u64 bytes) (f64_of_u64 r) > MAX_R2Q then r2q_loop bytes (r + 1) else r)"
  by pat_completeness auto

termination
proof (relation "measure (\<lambda>(bytes, r). 2 ^ 49 - unat r)")
  fix bytes r :: u64
  assume "f64_div (f64_of_u64 bytes) (f64_of_u64 r) > MAX_R2Q"
  then have "unat r < 2 ^ 49" by (rule quantum_divisor_bound)
  moreover from this have "unat (r + 1) = unat r + 1" by (simp add: unat_word_ariths)
  ultimately show "((bytes, r + 1), bytes, r) \<in> measure (\<lambda>(bytes, r). 2 ^ 49 - unat r)" by simp
qed simp

declare r2q_loop.simps [simp del]

definition r2q :: "u64 \<Rightarrow> u64" where
  "r2q max_rate_in_mbps = r2q_loop (max_rate_in_mbps * 125000) 10"

definition quantum :: "u64 \<Rightarrow> u64 \<Rightarrow> string" where
  "quantum rate r =
     (let rate_in_bytes_per_second = rate * 125000
      in dec_digits (unat (max MIN_QUANTUM (rate_in_bytes_per_second div r))))"

section \<open>Queue disciplines\<close>

definition sqm_as_vec :: "Config \<Rightarrow> string list" where
  "sqm_as_vec config = split_on (CHR '' '') (default_sqm (cfg_queues config))"

definition rtt_fixup :: "f32 \<Rightarrow> string list" where
  "rtt_fixup rate =
     (if rate \<le> Fin 1 then [''rtt'', ''300ms'']
      else if rate \<le> Fin 2 then [''rtt'', ''180ms'']
      else if rate \<le> Fin 3 then [''rtt'', ''140ms'']
      else if rate \<le> Fin 4 then [''rtt'', ''120ms'']
      else [])"

definition sqm_rate_fixup :: "f32 \<Rightarrow> Config \<Rightarrow> string list" where
  "sqm_rate_fixup rate config =
     (let sqm = default_sqm (cfg_queues config) in
      if \<not> prefix ''cake'' sqm \<or> sublist ''rtt'' sqm then sqm_as_vec config
      else sqm_as_vec config @ rtt_fixup rate)"

definition sqm_tokens_for :: "f32 \<Rightarrow> Config \<Rightarrow> string option \<Rightarrow> string list" where
  "sqm_tokens_for rate config override_opt =
     (case override_opt of
        None \<Rightarrow>
          let threshold = f32_of_f64 (value_or (fast_queues_fq_codel (cfg_queues config)) (Fin 1000)) in
          if rate \<ge> threshold then [''fq_codel''] else sqm_rate_fixup rate config
      | Some sqm \<Rightarrow>
          if sqm = ''fq_codel'' then [''fq_codel'']
          else if sqm = ''cake'' then
            let base = (if prefix ''cake'' (default_sqm (cfg_queues config)) then sqm_as_vec config
                        else [''cake'', ''diffserv4''])
            in if ''rtt'' \<notin> set base then base @ rtt_fixup rate else base
          else sqm_rate_fixup rate config)"

datatype SqmKind = SqmCake | SqmFqCodel

definition effective_sqm_kind :: "f32 \<Rightarrow> Config \<Rightarrow> string option \<Rightarrow> SqmKind" where
  "effective_sqm_kind rate config override_opt =
     (case sqm_tokens_for rate config override_opt of
        token # _ \<Rightarrow> if token = ''fq_codel'' then SqmFqCodel else SqmCake
      | [] \<Rightarrow> SqmCake)"

section \<open>The divisor and the quantum\<close>

text \<open>The loop stops at the first divisor whose quantum is small enough.\<close>

lemma r2q_loop_result:
  assumes "r2q_loop bytes r = s"
  shows "r \<le> s \<and> \<not> f64_div (f64_of_u64 bytes) (f64_of_u64 s) > MAX_R2Q
    \<and> (\<forall>t. r \<le> t \<and> t < s \<longrightarrow> f64_div (f64_of_u64 bytes) (f64_of_u64 t) > MAX_R2Q)"
  using assms
proof (induction bytes r rule: r2q_loop.induct)
  case (1 bytes r)
  show ?case
  proof (cases "f64_div (f64_of_u64 bytes) (f64_of_u64 r) > MAX_R2Q")
    case True
    then have s: "r2q_loop bytes (r + 1) = s" using 1(2) by (subst (asm) r2q_loop.simps) simp
    have "unat r < 2 ^ 49" using True by (rule quantum_divisor_bound)
    then have next_r: "unat (r + 1) = unat r + 1" by (simp add: unat_word_ariths)
    show ?thesis
    proof (intro conjI allI impI)
      show "r \<le> s" using 1(1) [OF True s] next_r by (simp add: word_le_nat_alt)
      show "\<not> f64_div (f64_of_u64 bytes) (f64_of_u64 s) > MAX_R2Q" using 1(1) [OF True s] by blast
      fix t assume t: "r \<le> t \<and> t < s"
      show "f64_div (f64_of_u64 bytes) (f64_of_u64 t) > MAX_R2Q"
      proof (cases "t = r")
        case False
        then have "unat r \<noteq> unat t" by (metis word_unat_eq_iff)
        then have "r + 1 \<le> t" using t next_r by (simp add: word_le_nat_alt)
        then show ?thesis using 1(1) [OF True s] t by blast
      qed (use True in simp)
    qed
  next
    case False
    then have "s = r" using 1(2) by (subst (asm) r2q_loop.simps) simp
    with False show ?thesis by auto
  qed
qed

text \<open>For a rate that 53 bits hold in bytes per second, rounding hides nothing of the comparison.\<close>

lemma f64_above_60000:
  assumes "60000 + 1 / 2 ^ 37 \<le> q"
  shows "f64_of_rat q > MAX_R2Q"
proof -
  let ?a = "60000 + 1 / 2 ^ 37 :: rat"
  have "scaled 53 (- 1022) ?a = ?a"
    by (rule scaled_exact [where m = "60000 * 2 ^ 37 + 1" and k = "- 37"]) (simp_all add: pow2_def)
  then have "f64_of_rat ?a = Fin ?a"
    by (simp add: f64_of_rat_def round_ieee_def round_nonneg_scaled pow2_def)
  then have "Fin ?a \<le> f64_of_rat q" using f64_of_rat_mono [OF assms] by simp
  then show ?thesis by (cases "f64_of_rat q") (auto simp: MAX_R2Q_def)
qed

lemma f64_of_u64_exact: "unat n < 2 ^ 53 \<Longrightarrow> f64_of_u64 n = Fin (of_nat (unat n))"
  unfolding f64_of_u64_def by (rule f64_of_rat_nat)

lemma quantum_exceeds_iff:
  assumes b: "unat bytes < 2 ^ 53" and t: "0 < unat t" "unat t < 2 ^ 37"
  shows "f64_div (f64_of_u64 bytes) (f64_of_u64 t) > MAX_R2Q \<longleftrightarrow> 60000 * unat t < unat bytes"
proof -
  let ?b = "of_nat (unat bytes) :: rat" and ?t = "of_nat (unat t) :: rat"
  have tpos: "0 < ?t" and tlt: "?t \<le> of_nat (2 ^ 37)" using t by (simp_all only: of_nat_0_less_iff of_nat_le_iff less_imp_le)
  have div: "f64_div (f64_of_u64 bytes) (f64_of_u64 t) = f64_of_rat (?b / ?t)"
    using b t tpos by (simp add: f64_of_u64_exact del: of_nat_unat)
  show ?thesis
  proof (cases "60000 * unat t < unat bytes")
    case True
    then have "of_nat (60000 * unat t + 1) \<le> ?b" by (simp only: of_nat_le_iff Suc_eq_plus1 [symmetric] Suc_le_eq)
    then have "60000 * ?t + 1 \<le> ?b" by (simp del: of_nat_unat)
    moreover have "1 / 2 ^ 37 * ?t \<le> 1" using tlt by (simp del: of_nat_unat)
    ultimately have "(60000 + 1 / 2 ^ 37) * ?t \<le> ?b" by (simp add: distrib_right del: of_nat_unat)
    then have "60000 + 1 / 2 ^ 37 \<le> ?b / ?t" using tpos by (simp add: pos_le_divide_eq del: of_nat_unat)
    with True show ?thesis unfolding div by (simp add: f64_above_60000 del: of_nat_unat)
  next
    case False
    then have "?b \<le> of_nat (60000 * unat t)" by (simp only: of_nat_le_iff not_less)
    then have "?b / ?t \<le> of_nat 60000" using tpos by (simp add: pos_divide_le_eq del: of_nat_unat)
    then have "f64_of_rat (?b / ?t) \<le> Fin (of_nat 60000)" by (rule f64_of_rat_le_nat) simp
    with False show ?thesis unfolding div
      by (cases "f64_of_rat (?b / ?t)") (auto simp: MAX_R2Q_def simp del: of_nat_unat)
  qed
qed

text \<open>The divisor of an interface: the smallest from 10 on whose quantum is at most 60000 bytes.\<close>

definition least_divisor :: "nat \<Rightarrow> nat" where
  "least_divisor bytes = max 10 ((bytes + 59999) div 60000)"

lemma least_divisor_iff: "10 \<le> t \<Longrightarrow> least_divisor bytes \<le> t \<longleftrightarrow> bytes \<le> 60000 * t"
  using div_less_iff_less_mult [of 60000 "bytes + 59999" "Suc t"] by (auto simp: least_divisor_def less_Suc_eq_le)

lemma mbps_bytes:
  assumes "unat (rate :: u64) < 2 ^ 35"
  shows "unat (rate * 125000) = unat rate * 125000" "unat rate * 125000 < 2 ^ 53"
proof -
  show b: "unat rate * 125000 < 2 ^ 53" using assms by simp
  then show "unat (rate * 125000) = unat rate * 125000" by (simp add: unat_word_ariths)
qed

lemma r2q_least:
  assumes "unat max_rate < 2 ^ 35"
  shows "unat (r2q max_rate) = least_divisor (unat max_rate * 125000)"
proof -
  let ?bytes = "max_rate * 125000" and ?L = "least_divisor (unat max_rate * 125000)"
  note b = mbps_bytes [OF assms]
  have L: "10 \<le> ?L" "?L < 2 ^ 37" using assms by (auto simp: least_divisor_def less_mult_imp_div_less)
  define l :: u64 where "l = word_of_nat ?L"
  have l: "unat l = ?L" using L by (simp add: l_def unsigned_of_nat take_bit_nat_eq_self)
  define s where "s = r2q max_rate"
  have "r2q_loop ?bytes 10 = s" by (simp add: s_def r2q_def)
  note res = r2q_loop_result [OF this]
  have "\<not> l < s"
  proof
    assume "l < s"
    moreover have "10 \<le> l" using L l by (simp add: word_le_nat_alt)
    ultimately have "f64_div (f64_of_u64 ?bytes) (f64_of_u64 l) > MAX_R2Q" using res by blast
    then have "60000 * ?L < unat max_rate * 125000"
      using quantum_exceeds_iff [of ?bytes l] b L l by simp
    then show False using least_divisor_iff [of ?L "unat max_rate * 125000"] L by simp
  qed
  then have upper: "unat s \<le> ?L" using l by (simp add: word_le_nat_alt not_less)
  have ten: "10 \<le> unat s" using res by (simp add: word_le_nat_alt)
  then have "\<not> 60000 * unat s < unat max_rate * 125000"
    using res quantum_exceeds_iff [of ?bytes s] b upper L by simp
  then have "?L \<le> unat s" using ten least_divisor_iff by simp
  with upper show ?thesis by (simp add: s_def)
qed

section \<open>Rates as they are written\<close>

text \<open>
  What \<open>tc\<close> reads from a rate: a decimal number and its unit, here in kilobits per second.
\<close>

definition read_tc_rate :: "string \<Rightarrow> rat option" where
  "read_tc_rate s =
     (let number = take (length s - 4) s; unit_name = drop (length s - 4) s in
      if unit_name = ''gbit'' then map_option (\<lambda>v. v * 1000000) (parse_decimal number)
      else if unit_name = ''mbit'' then map_option (\<lambda>v. v * 1000) (parse_decimal number)
      else if unit_name = ''kbit'' then parse_decimal number
      else None)"

lemma read_tc_rate_unit:
  "read_tc_rate (n @ ''gbit'') = map_option (\<lambda>v. v * 1000000) (parse_decimal n)"
  "read_tc_rate (n @ ''mbit'') = map_option (\<lambda>v. v * 1000) (parse_decimal n)"
  "read_tc_rate (n @ ''kbit'') = parse_decimal n"
  by (simp_all add: read_tc_rate_def)

lemma dec_digits_take: "takeWhile is_ascii_digit (dec_digits n) = dec_digits n"
  "dropWhile is_ascii_digit (dec_digits n) = []"
  using dec_digits_facts [of n] by (simp_all add: list_all_iff takeWhile_eq_all_conv)

lemma dec_digits_take_more:
  "\<not> is_ascii_digit c \<Longrightarrow> takeWhile is_ascii_digit (dec_digits n @ c # cs) = dec_digits n"
  "\<not> is_ascii_digit c \<Longrightarrow> dropWhile is_ascii_digit (dec_digits n @ c # cs) = c # cs"
  using dec_digits_facts [of n] by (simp_all add: list_all_iff takeWhile_append2 dropWhile_append2)

lemma dec_nat_snoc: "dec_nat (s @ [c]) = 10 * dec_nat s + digit_val c"
  by (simp add: dec_nat_def)

lemma parse_format_0:
  assumes "0 \<le> q"
  shows "parse_decimal (format_fixed 0 (Fin q)) = Some (of_int (round_half_even q))"
proof -
  have "0 \<le> round_half_even q" using round_half_even_mono [OF assms] by simp
  then show ?thesis
    using assms dec_digits_facts [of "nat (round_half_even q)"]
    by (simp add: format_fixed_def parse_decimal_def dec_digits_take power_of_ten_def)
qed

lemma parse_format_1:
  assumes "0 \<le> q"
  shows "parse_decimal (format_fixed 1 (Fin q)) = Some (of_int (round_half_even (q * 10)) / 10)"
proof -
  have pos: "0 \<le> round_half_even (q * 10)"
    using round_half_even_mono [of 0 "q * 10"] assms by simp
  define n where "n = nat (round_half_even (q * 10))"
  have n: "(of_int (round_half_even (q * 10)) :: rat) = of_nat n" using pos by (simp add: n_def)
  have d: "dec_digits (n mod 10) = [char_of (48 + n mod 10)]" by (simp add: dec_digits.simps)
  have dig: "is_ascii_digit (char_of (48 + n mod 10))" "digit_val (char_of (48 + n mod 10)) = n mod 10"
    using dec_digits_facts [of "n mod 10"] by (simp_all add: d dec_nat_def)
  have dot: "\<not> is_ascii_digit (CHR ''.'')" by (simp add: is_ascii_digit_def)
  have "dec_nat (dec_digits (n div 10) @ [char_of (48 + n mod 10)]) = n"
    using dec_digits_facts [of "n div 10"] by (simp add: dec_nat_snoc dig)
  then show ?thesis
    unfolding n using assms dec_digits_facts [of "n div 10"] dig
    by (simp add: format_fixed_def n_def [symmetric] zero_padded_def d parse_decimal_def
        dec_digits_take_more dot power_of_ten_def)
qed

text \<open>The rate after the guards, and the number its text stands for.\<close>

definition clamped_rate :: "f32 \<Rightarrow> rat" where
  "clamped_rate x = (case x of Fin q \<Rightarrow> max (5368709 / 536870912) (min 10000000 q) | _ \<Rightarrow> 5368709 / 536870912)"

definition rounded :: "rat \<Rightarrow> rat" where
  "rounded q = (case f64_of_rat q of Fin v \<Rightarrow> v | _ \<Rightarrow> 0)"

definition written_kbit :: "rat \<Rightarrow> rat" where
  "written_kbit r =
     (if 1000 \<le> r then of_int (round_half_even (rounded (r / 1000) * 10)) / 10 * 1000000
      else if 1 \<le> r then of_int (round_half_even (r * 10)) / 10 * 1000
      else of_int (round_half_even (rounded (r * 1000))))"

lemma MIN_RATE_MBPS_value: "MIN_RATE_MBPS = Fin (5368709 / 536870912)"
  by code_simp

lemma rounded:
  assumes "0 \<le> q" "q \<le> 100000000"
  shows "f64_of_rat q = Fin (rounded q)" "0 \<le> rounded q"
  using f64_of_rat_ge_0 [OF assms(1)] f64_of_rat_le_nat [of q 100000000] assms(2)
  by (cases "f64_of_rat q"; simp add: rounded_def)+

lemma rounded_mono:
  assumes "0 \<le> q" "q \<le> r" "r \<le> 100000000"
  shows "rounded q \<le> rounded r"
  using f64_of_rat_mono [OF assms(2)] rounded [of q] rounded [of r] assms by simp

lemma rounded_nat: "n \<le> 100000000 \<Longrightarrow> rounded (of_nat n) = of_nat n"
  using f64_of_rat_nat [of n] by (simp add: rounded_def)

lemma rounded_19_half: "rounded (19 / 2) = 19 / 2"
proof -
  have "scaled 53 (- 1022) (19 / 2) = 19 / 2"
    by (rule scaled_exact [where m = 19 and k = "- 1"]) (simp_all add: pow2_def)
  then show ?thesis by (simp add: rounded_def f64_of_rat_def round_ieee_def round_nonneg_scaled pow2_def)
qed

lemma clamped_rate_bounds: "5368709 / 536870912 \<le> clamped_rate x" "clamped_rate x \<le> 10000000"
  by (cases x; simp add: clamped_rate_def)+

lemma format_rate_clamped:
  "format_rate_for_tc_f32 x =
    (let r = clamped_rate x in
     if 1000 \<le> r then format_fixed 1 (f64_of_rat (r / 1000)) @ ''gbit''
     else if 1 \<le> r then format_fixed 1 (Fin r) @ ''mbit''
     else format_fixed 0 (f64_of_rat (r * 1000)) @ ''kbit'')"
proof -
  have c: "(let r = (if \<not> is_finite x then MIN_RATE_MBPS else x)
     in if r < MIN_RATE_MBPS then MIN_RATE_MBPS else if r > MAX_RATE_MBPS then MAX_RATE_MBPS else r)
     = Fin (clamped_rate x)"
    by (cases x) (auto simp: clamped_rate_def is_finite_def MIN_RATE_MBPS_value MAX_RATE_MBPS_def Let_def)
  show ?thesis unfolding format_rate_for_tc_f32_def Let_def using c [unfolded Let_def] by simp
qed

lemma read_format_rate:
  "read_tc_rate (format_rate_for_tc_f32 x) = Some (written_kbit (clamped_rate x))"
proof -
  let ?r = "clamped_rate x"
  note b = clamped_rate_bounds [of x]
  have "0 \<le> ?r / 1000" "?r / 1000 \<le> 100000000" "0 \<le> ?r" using b by simp_all
  moreover have "0 \<le> ?r * 1000" "?r < 1 \<Longrightarrow> ?r * 1000 \<le> 100000000" using b by simp_all
  ultimately show ?thesis
    by (simp add: format_rate_clamped Let_def read_tc_rate_unit rounded parse_format_1 [unfolded One_nat_def] parse_format_0
        written_kbit_def)
qed

lemma round_half_even_ge: "of_int a \<le> q \<Longrightarrow> a \<le> round_half_even q"
  and round_half_even_le: "q \<le> of_int a \<Longrightarrow> round_half_even q \<le> a"
  using round_half_even_mono [of "of_int a" q] round_half_even_mono [of q "of_int a"] by simp_all

text \<open>The three ranges of the text meet: each stays on its side of the boundary.\<close>

lemma rounded_ge_nat: "of_nat n \<le> q \<Longrightarrow> q \<le> 100000000 \<Longrightarrow> of_nat n \<le> rounded q"
  using rounded_mono [of "of_nat n" q] rounded_nat [of n] of_nat_le_iff [of n 100000000, where ?'a = rat]
  by simp

lemma rounded_le_nat: "0 \<le> q \<Longrightarrow> q \<le> of_nat n \<Longrightarrow> n \<le> 100000000 \<Longrightarrow> rounded q \<le> of_nat n"
  using rounded_mono [of q "of_nat n"] rounded_nat [of n] of_nat_le_iff [of n 100000000, where ?'a = rat]
  by simp

lemma written_kbit_ranges:
  assumes "0 \<le> r" "r \<le> 10000000"
  shows "1000 \<le> r \<Longrightarrow> 1000000 \<le> written_kbit r" "r < 1000 \<Longrightarrow> written_kbit r \<le> 1000000"
    "1 \<le> r \<Longrightarrow> 1000 \<le> written_kbit r" "r < 1 \<Longrightarrow> written_kbit r \<le> 1000"
    "written_kbit r \<le> 10000000000"
proof -
  have big: "10 \<le> round_half_even (rounded (r / 1000) * 10)" if "1000 \<le> r"
    using rounded_ge_nat [of 1 "r / 1000"] that assms by (intro round_half_even_ge) simp
  have top: "round_half_even (rounded (r / 1000) * 10) \<le> 100000"
    using rounded_le_nat [of "r / 1000" 10000] assms by (intro round_half_even_le) simp
  have mid: "10 \<le> round_half_even (r * 10)" if "1 \<le> r"
    using that by (intro round_half_even_ge) simp
  have mid_top: "round_half_even (r * 10) \<le> 10000" if "r < 1000"
    using that by (intro round_half_even_le) simp
  have low: "round_half_even (rounded (r * 1000)) \<le> 1000" if "r < 1"
    using rounded_le_nat [of "r * 1000" 1000] that assms by (intro round_half_even_le) simp
  show r1: "1000 \<le> r \<Longrightarrow> 1000000 \<le> written_kbit r" using big by (simp add: written_kbit_def)
  show r4: "r < 1 \<Longrightarrow> written_kbit r \<le> 1000" using low by (simp add: written_kbit_def)
  show r2: "r < 1000 \<Longrightarrow> written_kbit r \<le> 1000000"
    using mid_top low by (cases "1 \<le> r") (simp_all add: written_kbit_def)
  show "1 \<le> r \<Longrightarrow> 1000 \<le> written_kbit r" using mid r1 by (cases "1000 \<le> r") (simp_all add: written_kbit_def)
  show "written_kbit r \<le> 10000000000"
    using top r2 by (cases "1000 \<le> r") (simp_all add: written_kbit_def)
qed

lemma written_kbit_mono:
  assumes "0 \<le> r" "r \<le> s" "s \<le> 10000000"
  shows "written_kbit r \<le> written_kbit s"
proof -
  consider "1000 \<le> r" | "r < 1000" "1000 \<le> s" | "1 \<le> r" "s < 1000" | "r < 1" "1 \<le> s" | "s < 1"
    using assms by linarith
  then show ?thesis
  proof cases
    case 1
    have "round_half_even (rounded (r / 1000) * 10) \<le> round_half_even (rounded (s / 1000) * 10)"
      using rounded_mono [of "r / 1000" "s / 1000"] assms by (intro round_half_even_mono) simp
    with 1 assms show ?thesis by (simp add: written_kbit_def)
  next
    case 2
    then have "written_kbit r \<le> 1000000" "1000000 \<le> written_kbit s"
      using assms by (simp_all add: written_kbit_ranges)
    then show ?thesis by (rule order_trans)
  next
    case 3
    have "round_half_even (r * 10) \<le> round_half_even (s * 10)"
      using assms by (intro round_half_even_mono) simp
    with 3 assms show ?thesis by (simp add: written_kbit_def)
  next
    case 4
    then have "written_kbit r \<le> 1000" "1000 \<le> written_kbit s"
      using assms by (simp_all add: written_kbit_ranges)
    then show ?thesis by (rule order_trans)
  next
    case 5
    have "round_half_even (rounded (r * 1000)) \<le> round_half_even (rounded (s * 1000))"
      using rounded_mono [of "r * 1000" "s * 1000"] 5 assms by (intro round_half_even_mono) simp
    with 5 assms show ?thesis by (simp add: written_kbit_def)
  qed
qed

lemma written_kbit_min: "5368709 / 536870912 \<le> r \<Longrightarrow> r \<le> 10000000 \<Longrightarrow> 10 \<le> written_kbit r"
proof -
  assume r: "5368709 / 536870912 \<le> r" "r \<le> 10000000"
  show ?thesis
  proof (cases "1 \<le> r")
    case True
    then have "1000 \<le> written_kbit r" using written_kbit_ranges(3) [of r] r by simp
    then show ?thesis by simp
  next
    case False
    then have "19 / 2 \<le> rounded (r * 1000)"
      using rounded_mono [of "19 / 2" "r * 1000"] rounded_19_half r by simp
    then have "round_half_even (19 / 2) \<le> round_half_even (rounded (r * 1000))" by (rule round_half_even_mono)
    moreover have "round_half_even (19 / 2) = 10" by code_simp
    ultimately show ?thesis using False by (simp add: written_kbit_def)
  qed
qed

text \<open>
  Whatever the floats are, the text is a rate of at least 10 kbit and at most 10 Tbit; of two finite
  rates the smaller is never written as the larger.
\<close>

lemma format_rate_readable:
  "\<exists>v. read_tc_rate (format_rate_for_tc_f32 x) = Some v \<and> 10 \<le> v \<and> v \<le> 10000000000"
  using written_kbit_min [of "clamped_rate x"] written_kbit_ranges(5) [of "clamped_rate x"]
    clamped_rate_bounds [of x] by (simp add: read_format_rate)

lemma format_rate_ordered:
  assumes "x \<le> y" "y \<noteq> PosInf"
  shows "\<exists>v w. read_tc_rate (format_rate_for_tc_f32 x) = Some v
    \<and> read_tc_rate (format_rate_for_tc_f32 y) = Some w \<and> 10 \<le> v \<and> v \<le> w \<and> w \<le> 10000000000"
proof -
  have "clamped_rate x \<le> clamped_rate y" using assms by (cases x; cases y) (auto simp: clamped_rate_def)
  then have "written_kbit (clamped_rate x) \<le> written_kbit (clamped_rate y)"
    using clamped_rate_bounds [of x] clamped_rate_bounds [of y] by (intro written_kbit_mono) simp_all
  then show ?thesis
    using format_rate_readable [of x] format_rate_readable [of y] by (simp add: read_format_rate)
qed

end
