(* ===== verification/Tc_Commands.thy ===== *)
theory Tc_Commands
  imports Queue_Math Qdisc_Handles Bakery_Diff
begin

text \<open>
  The \<open>tc\<close> argument vectors of the bakery's commands (\<open>lqos_bakery/src/commands.rs\<close>): the multi-queue
  roots, the classes of a site, the classes and leaf queues of a circuit, and their removal. A command
  whose interface the configuration does not name panics; a list with such a command collects to
  \<open>None\<close>. The flag \<open>mq_created\<close> is the program's \<open>MQ_CREATED\<close>.
\<close>

type_synonym argv = "string list"

datatype ExecutionMode = Builder | LiveUpdate

text \<open>\<open>0x{:x}\<close> and \<open>0x{:x}:0x{:x}\<close>\<close>

definition hex0x :: "nat \<Rightarrow> string" where
  "hex0x n = ''0x'' @ hex_string n"

definition class_text :: "u16 \<Rightarrow> u16 \<Rightarrow> string" where
  "class_text major minor = hex0x (unat major) @ '':'' @ hex0x (unat minor)"

definition on_dev :: "string option \<Rightarrow> (string \<Rightarrow> argv) \<Rightarrow> argv option" where
  "on_dev dev f = map_option f dev"

section \<open>Multi-queue roots\<close>

definition root_mq_add_command :: "string \<Rightarrow> argv" where
  "root_mq_add_command interface_name =
     [''qdisc'', ''add'', ''dev'', interface_name, ''root'', ''handle'', ''7FFF:'', ''mq'']"

text \<open>The body of the loop over the queues: both interfaces run it, each with its own bandwidth.\<close>

definition mq_queue_commands :: "string option \<Rightarrow> nat \<Rightarrow> u64 \<Rightarrow> u64 \<Rightarrow> string list \<Rightarrow> argv option list" where
  "mq_queue_commands dev major bandwidth r sqm_strings =
     (let mbps = f64_of_u64 bandwidth;
          mbps_quarter = f64_div (f64_sub mbps (Fin 1)) (Fin 4);
          mbps_minus_one = f64_sub mbps (Fin 1) in
      [on_dev dev (\<lambda>interface. [''qdisc'', ''add'', ''dev'', interface, ''parent'', ''7FFF:'' @ hex0x major,
         ''handle'', hex0x major @ '':'', ''htb'', ''default'', ''2'']),
       on_dev dev (\<lambda>interface. [''class'', ''add'', ''dev'', interface, ''parent'', hex0x major @ '':'',
         ''classid'', hex0x major @ '':1'', ''htb'', ''rate'', format_rate_for_tc bandwidth,
         ''ceil'', format_rate_for_tc bandwidth, ''quantum'', quantum bandwidth r]),
       on_dev dev (\<lambda>interface. [''qdisc'', ''add'', ''dev'', interface, ''parent'', hex0x major @ '':1'',
         ''handle'', hex0x (unat (infra_qdisc_handle (word_of_nat major) PrimarySlot)) @ '':''] @ sqm_strings),
       on_dev dev (\<lambda>interface. [''class'', ''add'', ''dev'', interface, ''parent'', hex0x major @ '':1'',
         ''classid'', hex0x major @ '':2'', ''htb'', ''rate'', format_rate_for_tc (u64_of_float mbps_quarter),
         ''ceil'', format_rate_for_tc (u64_of_float mbps_minus_one), ''prio'', ''5'',
         ''quantum'', quantum bandwidth r]),
       on_dev dev (\<lambda>interface. [''qdisc'', ''add'', ''dev'', interface, ''parent'', hex0x major @ '':2'',
         ''handle'', hex0x (unat (infra_qdisc_handle (word_of_nat major) DefaultSlot)) @ '':''] @ sqm_strings)])"

definition mq_setup :: "Config \<Rightarrow> bool \<Rightarrow> usize \<Rightarrow> usize \<Rightarrow> (argv list option \<times> bool) option" where
  "mq_setup config mq_already_created queues_available stick_offset =
     (let queues = cfg_queues config; isp = isp_interface config; internet = internet_interface config in
      map_option (\<lambda>result. (Some result, True))
        (if is_observe (queue_mode queues) then
           those (if mq_already_created then []
                  else on_dev isp root_mq_add_command
                    # (if on_a_stick_mode config then [] else [on_dev internet root_mq_add_command]))
         else
           let sqm_strings = sqm_as_vec config;
               r = r2q (max (uplink_bandwidth_mbps queues) (downlink_bandwidth_mbps queues))
           in those
             ((if mq_already_created then [] else [on_dev isp root_mq_add_command])
              @ concat (map (\<lambda>queue. mq_queue_commands isp (queue + 1)
                  (downlink_bandwidth_mbps queues) r sqm_strings) [0..<queues_available])
              @ (if \<not> on_a_stick_mode config \<and> \<not> mq_already_created
                 then [on_dev internet root_mq_add_command] else [])
              @ concat (map (\<lambda>queue. mq_queue_commands internet (queue + stick_offset + 1)
                  (uplink_bandwidth_mbps queues) r sqm_strings) [0..<queues_available]))))"

section \<open>Sites\<close>

text \<open>One class with its rates, as sites and circuits replace it.\<close>

definition class_replace :: "string \<Rightarrow> TcHandle \<Rightarrow> string \<Rightarrow> f32 \<Rightarrow> f32 \<Rightarrow> u64 \<Rightarrow> argv" where
  "class_replace interface parent classid rate_min rate_max bandwidth =
     [''class'', ''replace'', ''dev'', interface, ''parent'', as_tc_string parent, ''classid'', classid,
      ''htb'', ''rate'', format_rate_for_tc_f32 rate_min, ''ceil'', format_rate_for_tc_f32 rate_max,
      ''prio'', ''3'', ''quantum'', quantum (u64_of_float rate_max) (r2q bandwidth)]"

definition add_site :: "Config \<Rightarrow> SiteCommand \<Rightarrow> argv list option option" where
  "add_site config params =
     (let queues = cfg_queues config in
      if is_observe (queue_mode queues) then Some None
      else
        let (down_major, _) = get_major_minor (site_parent_class_id params);
            (up_major, _) = get_major_minor (site_up_parent_class_id params)
        in map_option Some (those
          [on_dev (isp_interface config) (\<lambda>interface.
             class_replace interface (site_parent_class_id params)
               (class_text down_major (site_class_minor params)) (site_download_bandwidth_min params)
               (site_download_bandwidth_max params) (downlink_bandwidth_mbps queues)),
           on_dev (internet_interface config) (\<lambda>interface.
             class_replace interface (site_up_parent_class_id params)
               (class_text up_major (site_class_minor params)) (site_upload_bandwidth_min params)
               (site_upload_bandwidth_max params) (uplink_bandwidth_mbps queues))]))"

section \<open>Circuits\<close>

text \<open>Which of the two levels a mode builds: the classes, the leaf queues.\<close>

definition circuit_levels :: "ExecutionMode \<Rightarrow> LazyQueueMode option \<Rightarrow> bool \<times> bool" where
  "circuit_levels execution_mode lazy =
     (if execution_mode = Builder then (True, lazy \<noteq> Some LazyHtb)
      else case lazy of
        None \<Rightarrow> (False, False)
      | Some LazyNo \<Rightarrow> (False, False)
      | Some LazyHtb \<Rightarrow> (False, True)
      | Some LazyFull \<Rightarrow> (True, True))"

definition directional_override :: "string option \<Rightarrow> string option \<times> string option" where
  "directional_override sqm_override =
     (case sqm_override of
        None \<Rightarrow> (None, None)
      | Some s \<Rightarrow>
          case split_once (CHR ''/'') s of
            None \<Rightarrow> (Some s, Some s)
          | Some (d, u) \<Rightarrow>
              let side = (\<lambda>t. if trim t = [] then None else Some (trim t)) in (side d, side u))"

definition override_is_none :: "string option \<Rightarrow> bool" where
  "override_is_none override_opt =
     (case override_opt of Some s \<Rightarrow> to_ascii_lowercase s = ''none'' | None \<Rightarrow> False)"

definition leaf_replace ::
  "string \<Rightarrow> string \<Rightarrow> u16 option \<Rightarrow> string list \<Rightarrow> argv" where
  "leaf_replace interface parent qdisc_handle tokens =
     [''qdisc'', ''replace'', ''dev'', interface, ''parent'', parent]
     @ (case qdisc_handle of Some handle \<Rightarrow> [''handle'', hex0x (unat handle) @ '':''] | None \<Rightarrow> [])
     @ tokens"

definition add_circuit :: "ExecutionMode \<Rightarrow> Config \<Rightarrow> CircuitCommand \<Rightarrow> argv list option option" where
  "add_circuit execution_mode config params =
     (let queues = cfg_queues config in
      if is_observe (queue_mode queues) then Some None
      else
        let (do_htb, do_sqm) = circuit_levels execution_mode (lazy_queues queues);
            (down_override_opt, up_override_opt) = directional_override (circuit_sqm_override params);
            down_class = class_text (circuit_class_major params) (circuit_class_minor params);
            up_class = class_text (circuit_up_class_major params) (circuit_class_minor params)
        in map_option Some (those
          ((if do_htb
            then [on_dev (isp_interface config) (\<lambda>interface.
               class_replace interface (circuit_parent_class_id params) down_class
                 (circuit_download_bandwidth_min params) (circuit_download_bandwidth_max params)
                 (downlink_bandwidth_mbps queues))]
            else [])
           @ (if do_sqm \<and> \<not> override_is_none down_override_opt
              then [on_dev (isp_interface config) (\<lambda>interface.
                 leaf_replace interface down_class (circuit_down_qdisc_handle params)
                   (sqm_tokens_for (circuit_download_bandwidth_max params) config down_override_opt))]
              else [])
           @ (if do_htb
              then [on_dev (internet_interface config) (\<lambda>interface.
                 class_replace interface (circuit_up_parent_class_id params) up_class
                   (circuit_upload_bandwidth_min params) (circuit_upload_bandwidth_max params)
                   (uplink_bandwidth_mbps queues))]
              else [])
           @ (if do_sqm \<and> \<not> on_a_stick_mode config \<and> \<not> override_is_none up_override_opt
              then [on_dev (internet_interface config) (\<lambda>interface.
                 leaf_replace interface up_class (circuit_up_qdisc_handle params)
                   (sqm_tokens_for (circuit_upload_bandwidth_max params) config up_override_opt))]
              else []))))"

section \<open>Commands\<close>

definition to_commands ::
  "BakeryCommands \<Rightarrow> Config \<Rightarrow> ExecutionMode \<Rightarrow> bool \<Rightarrow> (argv list option \<times> bool) option" where
  "to_commands self config execution_mode mq_created =
     (case self of
        MqSetup queues_available stick_offset \<Rightarrow> mq_setup config mq_created queues_available stick_offset
      | AddSite params \<Rightarrow> map_option (\<lambda>result. (result, mq_created)) (add_site config params)
      | AddCircuit params \<Rightarrow> map_option (\<lambda>result. (result, mq_created)) (add_circuit execution_mode config params)
      | OtherCommand \<Rightarrow> Some (None, mq_created))"

definition qdisc_del :: "string \<Rightarrow> string \<Rightarrow> argv" where
  "qdisc_del interface parent = [''qdisc'', ''del'', ''dev'', interface, ''parent'', parent]"

definition class_del :: "string \<Rightarrow> TcHandle \<Rightarrow> u16 \<Rightarrow> argv" where
  "class_del interface parent class_minor =
     [''class'', ''del'', ''dev'', interface, ''parent'', as_tc_string parent,
      ''classid'', class_text (fst (get_major_minor parent)) class_minor]"

text \<open>Which levels are removed; nothing at all when the queues are not lazy.\<close>

definition prune_levels :: "bool \<Rightarrow> LazyQueueMode option \<Rightarrow> (bool \<times> bool) option" where
  "prune_levels force lazy =
     (if force then Some (True, True)
      else case lazy of
        None \<Rightarrow> None
      | Some LazyNo \<Rightarrow> None
      | Some LazyHtb \<Rightarrow> Some (False, True)
      | Some LazyFull \<Rightarrow> Some (True, True))"

definition prune_circuit :: "CircuitCommand \<Rightarrow> Config \<Rightarrow> bool \<Rightarrow> argv list option option" where
  "prune_circuit params config force =
     (case prune_levels force (lazy_queues (cfg_queues config)) of
        None \<Rightarrow> Some None
      | Some (prune_htb, prune_sqm) \<Rightarrow>
          let (down_override_opt, up_override_opt) = directional_override (circuit_sqm_override params);
              prune_down = (\<not> override_is_none down_override_opt);
              prune_up = (\<not> override_is_none up_override_opt)
          in map_option Some (those
            ((if prune_sqm \<and> prune_up \<and> \<not> on_a_stick_mode config
              then [on_dev (internet_interface config) (\<lambda>interface.
                 qdisc_del interface (class_text (circuit_up_class_major params) (circuit_class_minor params)))]
              else [])
             @ (if prune_sqm \<and> prune_down
                then [on_dev (isp_interface config) (\<lambda>interface.
                   qdisc_del interface (class_text (circuit_class_major params) (circuit_class_minor params)))]
                else [])
             @ (if prune_htb
                then [on_dev (isp_interface config) (\<lambda>interface.
                        class_del interface (circuit_parent_class_id params) (circuit_class_minor params)),
                      on_dev (internet_interface config) (\<lambda>interface.
                        class_del interface (circuit_up_parent_class_id params) (circuit_class_minor params))]
                else []))))"

definition to_prune :: "BakeryCommands \<Rightarrow> Config \<Rightarrow> bool \<Rightarrow> argv list option option" where
  "to_prune self config force =
     (case self of AddCircuit params \<Rightarrow> prune_circuit params config force | _ \<Rightarrow> Some None)"

end
