(* ===== verification/Qdisc_Assignment.thy ===== *)
theory Qdisc_Assignment
  imports Tc_Commands
begin

text \<open>
  Which leaf-queue handles a circuit command carries (\<open>lqos_bakery/src/lib.rs\<close>): the handles a
  circuit gets when it is first built, when it is restored and when its queue changes. Handles the
  infrastructure or the live interface uses are reserved. \<open>None\<close> is the panic of a configuration
  without interfaces.
\<close>

section \<open>Handles of one command\<close>

definition interfaces :: "Config \<Rightarrow> (string \<times> string) option" where
  "interfaces config =
     Option.bind (isp_interface config) (\<lambda>isp. map_option (\<lambda>internet. (isp, internet)) (internet_interface config))"

fun current_mq_layout ::
  "BakeryCommands list \<Rightarrow> Config \<Rightarrow> MqDeviceLayout option \<Rightarrow> MqDeviceLayout option option" where
  "current_mq_layout [] config latest = Some latest"
| "current_mq_layout (command # batch) config latest =
     (case command of
        MqSetup queues_available stick_offset \<Rightarrow>
          Option.bind (interfaces config) (\<lambda>(isp, internet).
            current_mq_layout batch config
              (Some (MqDeviceLayout_from_setup isp internet queues_available stick_offset)))
      | _ \<Rightarrow> current_mq_layout batch config latest)"

type_synonym reservations = "(string \<times> u16 list) list"

text \<open>The layout's handles extended with those the live interface has.\<close>

definition reserved_on :: "MqDeviceLayout \<Rightarrow> reservations \<Rightarrow> string \<Rightarrow> u16 list" where
  "reserved_on mq_layout extra_reserved_handles interface =
     reserved_handles mq_layout interface
     @ (case map_of extra_reserved_handles interface of Some extra \<Rightarrow> extra | None \<Rightarrow> [])"

definition assigned_circuit ::
  "CircuitCommand \<Rightarrow> Config \<Rightarrow> string \<times> string \<Rightarrow> MqDeviceLayout \<Rightarrow> QdiscHandleState \<Rightarrow> reservations
    \<Rightarrow> CircuitCommand \<times> QdiscHandleState" where
  "assigned_circuit params config names mq_layout qdisc_handles extra =
     (let (isp, internet) = names;
          (params, qdisc_handles) =
            (if circuit_down_qdisc_handle params = None
             then let (handle, qdisc_handles) = assign_circuit_handle isp (circuit_hash params)
                        (reserved_on mq_layout extra isp) qdisc_handles
                  in (params\<lparr>circuit_down_qdisc_handle := handle\<rparr>, qdisc_handles)
             else (params, qdisc_handles))
      in if \<not> on_a_stick_mode config \<and> circuit_up_qdisc_handle params = None
         then let (handle, qdisc_handles) = assign_circuit_handle internet (circuit_hash params)
                    (reserved_on mq_layout extra internet) qdisc_handles
              in (params\<lparr>circuit_up_qdisc_handle := handle\<rparr>, qdisc_handles)
         else (params, qdisc_handles))"

definition with_assigned_qdisc_handles_reserved ::
  "BakeryCommands \<Rightarrow> Config \<Rightarrow> MqDeviceLayout \<Rightarrow> QdiscHandleState \<Rightarrow> reservations
    \<Rightarrow> (BakeryCommands \<times> QdiscHandleState) option" where
  "with_assigned_qdisc_handles_reserved command config mq_layout qdisc_handles extra =
     (case command of
        AddCircuit params \<Rightarrow>
          if is_observe (queue_mode (cfg_queues config)) then Some (command, qdisc_handles)
          else map_option (\<lambda>names.
            let (params, qdisc_handles) = assigned_circuit params config names mq_layout qdisc_handles extra
            in (AddCircuit params, qdisc_handles)) (interfaces config)
      | _ \<Rightarrow> Some (command, qdisc_handles))"

definition with_assigned_qdisc_handles ::
  "BakeryCommands \<Rightarrow> Config \<Rightarrow> MqDeviceLayout \<Rightarrow> QdiscHandleState \<Rightarrow> (BakeryCommands \<times> QdiscHandleState) option" where
  "with_assigned_qdisc_handles command config mq_layout qdisc_handles =
     with_assigned_qdisc_handles_reserved command config mq_layout qdisc_handles []"

section \<open>Which queues a command has\<close>

definition parse_directional_sqm_override :: "string option \<Rightarrow> string option \<times> string option" where
  "parse_directional_sqm_override sqm_override = directional_override sqm_override"

definition effective_directional_sqm_kinds ::
  "BakeryCommands \<Rightarrow> Config \<Rightarrow> SqmKind option \<times> SqmKind option" where
  "effective_directional_sqm_kinds command config =
     (case command of
        AddCircuit params \<Rightarrow>
          if is_observe (queue_mode (cfg_queues config)) then (None, None)
          else
            let (down_override_opt, up_override_opt) = parse_directional_sqm_override (circuit_sqm_override params)
            in (if \<not> override_is_none down_override_opt
                then Some (effective_sqm_kind (circuit_download_bandwidth_max params) config down_override_opt)
                else None,
                if \<not> on_a_stick_mode config \<and> \<not> override_is_none up_override_opt
                then Some (effective_sqm_kind (circuit_upload_bandwidth_max params) config up_override_opt)
                else None)
      | _ \<Rightarrow> (None, None))"

definition tc_handle_from_major_minor :: "u16 \<Rightarrow> u16 \<Rightarrow> TcHandle" where
  "tc_handle_from_major_minor major minor = push_bit 16 (ucast major) OR ucast minor"

definition effective_directional_qdisc_parents ::
  "BakeryCommands \<Rightarrow> Config \<Rightarrow> TcHandle option \<times> TcHandle option" where
  "effective_directional_qdisc_parents command config =
     (case command of
        AddCircuit params \<Rightarrow>
          if is_observe (queue_mode (cfg_queues config)) then (None, None)
          else
            let (down_override_opt, up_override_opt) = parse_directional_sqm_override (circuit_sqm_override params)
            in (if \<not> override_is_none down_override_opt
                then Some (tc_handle_from_major_minor (circuit_class_major params) (circuit_class_minor params))
                else None,
                if \<not> on_a_stick_mode config \<and> \<not> override_is_none up_override_opt
                then Some (tc_handle_from_major_minor (circuit_up_class_major params) (circuit_class_minor params))
                else None)
      | _ \<Rightarrow> (None, None))"

section \<open>Fresh handles\<close>

datatype FreshHandleError = NoDownlinkHandle i64 | NoUplinkHandle i64

text \<open>One direction: a new handle when the direction has a queue, none otherwise.\<close>

definition fresh_handle ::
  "TcHandle option \<Rightarrow> string \<Rightarrow> i64 \<Rightarrow> u16 list \<Rightarrow> QdiscHandleState \<Rightarrow> u16 option \<times> QdiscHandleState" where
  "fresh_handle parent interface hash reserved qdisc_handles =
     (if parent \<noteq> None then rotate_circuit_handle interface hash reserved qdisc_handles else (None, qdisc_handles))"

definition assign_fresh_qdisc_handles_reserved ::
  "BakeryCommands \<Rightarrow> Config \<Rightarrow> MqDeviceLayout \<Rightarrow> QdiscHandleState \<Rightarrow> reservations
    \<Rightarrow> ((BakeryCommands, FreshHandleError) result \<times> QdiscHandleState) option" where
  "assign_fresh_qdisc_handles_reserved command config mq_layout qdisc_handles extra =
     (case command of
        AddCircuit params \<Rightarrow>
          if is_observe (queue_mode (cfg_queues config)) then Some (Ok command, qdisc_handles)
          else map_option (\<lambda>(isp, internet).
            let (down_parent, up_parent) = effective_directional_qdisc_parents command config;
                hash = circuit_hash params;
                (down_handle, qdisc_handles) =
                  fresh_handle down_parent isp hash (reserved_on mq_layout extra isp) qdisc_handles
            in if down_parent \<noteq> None \<and> down_handle = None then (Err (NoDownlinkHandle hash), qdisc_handles)
               else
                 let (up_handle, qdisc_handles) =
                       fresh_handle up_parent internet hash (reserved_on mq_layout extra internet) qdisc_handles
                 in if up_parent \<noteq> None \<and> up_handle = None then (Err (NoUplinkHandle hash), qdisc_handles)
                    else (Ok (AddCircuit (params\<lparr>circuit_down_qdisc_handle := down_handle,
                                                  circuit_up_qdisc_handle := up_handle\<rparr>)), qdisc_handles))
            (interfaces config)
      | _ \<Rightarrow> Some (Ok command, qdisc_handles))"

section \<open>Changed queues\<close>

definition previous_down_qdisc_handle :: "BakeryCommands \<Rightarrow> u16 option" where
  "previous_down_qdisc_handle previous =
     (case previous of AddCircuit params \<Rightarrow> circuit_down_qdisc_handle params | _ \<Rightarrow> None)"

definition previous_up_qdisc_handle :: "BakeryCommands \<Rightarrow> u16 option" where
  "previous_up_qdisc_handle previous =
     (case previous of AddCircuit params \<Rightarrow> circuit_up_qdisc_handle params | _ \<Rightarrow> None)"

definition both_differ :: "'a option \<Rightarrow> 'a option \<Rightarrow> bool" where
  "both_differ old new \<longleftrightarrow> old \<noteq> None \<and> new \<noteq> None \<and> old \<noteq> new"

definition handle_conflicts_live :: "u16 option \<Rightarrow> u16 list \<Rightarrow> u16 option \<Rightarrow> bool" where
  "handle_conflicts_live handle reserved previous =
     (case handle of Some h \<Rightarrow> h \<in> set reserved \<and> Some h \<noteq> previous | None \<Rightarrow> False)"

definition rotate_changed_qdisc_handles_reserved ::
  "BakeryCommands \<Rightarrow> BakeryCommands \<Rightarrow> Config \<Rightarrow> MqDeviceLayout \<Rightarrow> QdiscHandleState \<Rightarrow> reservations
    \<Rightarrow> (BakeryCommands \<times> QdiscHandleState) option" where
  "rotate_changed_qdisc_handles_reserved previous command config mq_layout qdisc_handles extra =
     map_option (\<lambda>(isp, internet).
       let (old_down_kind, old_up_kind) = effective_directional_sqm_kinds previous config;
           (new_down_kind, new_up_kind) = effective_directional_sqm_kinds command config;
           (old_down_parent, old_up_parent) = effective_directional_qdisc_parents previous config;
           (new_down_parent, new_up_parent) = effective_directional_qdisc_parents command config;
           isp_reserved = reserved_on mq_layout extra isp;
           up_reserved = reserved_on mq_layout extra internet
       in case command of
            AddCircuit params \<Rightarrow>
              let (params, qdisc_handles) =
                    (if both_differ old_down_kind new_down_kind \<or> both_differ old_down_parent new_down_parent
                        \<or> handle_conflicts_live (circuit_down_qdisc_handle params) isp_reserved
                            (previous_down_qdisc_handle previous)
                     then let (handle, qdisc_handles) =
                                rotate_circuit_handle isp (circuit_hash params) isp_reserved qdisc_handles
                          in (params\<lparr>circuit_down_qdisc_handle := handle\<rparr>, qdisc_handles)
                     else (params, qdisc_handles));
                  (params, qdisc_handles) =
                    (if both_differ old_up_kind new_up_kind \<or> both_differ old_up_parent new_up_parent
                        \<or> handle_conflicts_live (circuit_up_qdisc_handle params) up_reserved
                            (previous_up_qdisc_handle previous)
                     then let (handle, qdisc_handles) =
                                rotate_circuit_handle internet (circuit_hash params) up_reserved qdisc_handles
                          in (params\<lparr>circuit_up_qdisc_handle := handle\<rparr>, qdisc_handles)
                     else (params, qdisc_handles))
              in (AddCircuit params, qdisc_handles)
          | _ \<Rightarrow> (command, qdisc_handles)) (interfaces config)"

definition rotate_changed_qdisc_handles ::
  "BakeryCommands \<Rightarrow> BakeryCommands \<Rightarrow> Config \<Rightarrow> MqDeviceLayout \<Rightarrow> QdiscHandleState
    \<Rightarrow> (BakeryCommands \<times> QdiscHandleState) option" where
  "rotate_changed_qdisc_handles previous command config mq_layout qdisc_handles =
     rotate_changed_qdisc_handles_reserved previous command config mq_layout qdisc_handles []"

end
