(* ===== verification/Tc_Execution.thy ===== *)
theory Tc_Execution
  imports Tc_Commands Failure_Text
begin

text \<open>
  Running \<open>tc\<close> and reading its state back (\<open>lqos_bakery/src/utils.rs\<close>). The host is a parameter: its
  state, what it does with a batch, what it prints and how much memory it reports. Measured durations,
  log messages and the copies of a failed batch under \<open>/tmp\<close> are left out; an error that only carries
  text keeps the parts the text is made of.
\<close>

section \<open>The host\<close>

text \<open>The exit code is missing when a signal ended the process.\<close>

record Output =
  out_code :: "int option"
  out_stdout :: "u8 list"
  out_stderr :: "u8 list"

record 'k host =
  host_now :: "'k \<Rightarrow> nat \<times> 'k"
  host_write_file :: "string \<Rightarrow> string \<Rightarrow> 'k \<Rightarrow> bool \<times> 'k"
  host_run_batch :: "string \<Rightarrow> 'k \<Rightarrow> Output option \<times> 'k"
  host_show_qdiscs :: "string \<Rightarrow> 'k \<Rightarrow> Output option \<times> 'k"
  host_show_classes :: "string \<Rightarrow> 'k \<Rightarrow> Output option \<times> 'k"
  host_meminfo :: "'k \<Rightarrow> (string, string) result \<times> 'k"
  host_parse_json :: "string \<Rightarrow> json option"
  host_show_filters :: "string \<Rightarrow> 'k \<Rightarrow> Output option \<times> 'k"
  host_set_bypass :: "bool \<Rightarrow> 'k \<Rightarrow> string option \<times> 'k"

definition success :: "Output \<Rightarrow> bool" where
  "success output \<longleftrightarrow> out_code output = Some 0"

text \<open>\<open>String::from_utf8\<close>: text that has no invalid sequence to replace.\<close>

definition from_utf8 :: "u8 list \<Rightarrow> string option" where
  "from_utf8 bytes = (if from_utf8_lossy bytes = str_of_bytes bytes then Some (str_of_bytes bytes) else None)"

text \<open>\<open>s.lines()\<close>\<close>

definition strip_cr :: "string \<Rightarrow> string" where
  "strip_cr line = (if line \<noteq> [] \<and> last line = char_of (13 :: nat) then butlast line else line)"

definition str_lines :: "string \<Rightarrow> string list" where
  "str_lines s =
     (let parts = split_on (char_of (10 :: nat)) s
      in map strip_cr (butlast parts) @ (if last parts = [] then [] else [last parts]))"

section \<open>Failed batches\<close>

definition summarize_tc_batch_failure :: "Output \<Rightarrow> string option" where
  "summarize_tc_batch_failure output =
     (if success output then None
      else
        let stderr = trim (from_utf8_lossy (out_stderr output));
            status_summary = (case out_code output of
                Some code \<Rightarrow> ''tc batch exited with status '' @ show_i64 code
              | None \<Rightarrow> ''tc batch terminated by signal'')
        in if stderr = [] then Some status_summary else Some (status_summary @ '': '' @ stderr))"

definition tc_batch_command_is_delete_only :: "string \<Rightarrow> bool" where
  "tc_batch_command_is_delete_only line =
     (case split_whitespace line of
        first # second # _ \<Rightarrow> (first = ''qdisc'' \<or> first = ''class'') \<and> second = ''del''
      | _ \<Rightarrow> False)"

definition absence_line :: "string \<Rightarrow> bool" where
  "absence_line line =
     (let trimmed = to_ascii_lowercase (trim line) in
      trimmed = []
      \<or> prefix ''command failed '' trimmed
      \<or> prefix ''error: specified class not found'' trimmed
      \<or> prefix ''error: cannot find specified qdisc on specified device'' trimmed
      \<or> prefix ''rtnetlink answers: no such file or directory'' trimmed)"

definition tc_batch_failure_is_ignorable_delete_absence :: "Output \<Rightarrow> string \<Rightarrow> bool" where
  "tc_batch_failure_is_ignorable_delete_absence output text =
     (let stderr = from_utf8_lossy (out_stderr output) in
      \<not> success output \<and> trim text \<noteq> []
      \<and> list_all tc_batch_command_is_delete_only (str_lines text)
      \<and> trim stderr \<noteq> [] \<and> list_all absence_line (str_lines stderr))"

section \<open>Memory\<close>

record MemorySnapshot =
  total_bytes :: u64
  available_bytes :: u64

datatype MemoryError = MeminfoUnreadable string | MemTotalMissing | MemAvailableMissing

fun meminfo_loop :: "u64 option \<Rightarrow> u64 option \<Rightarrow> string list \<Rightarrow> u64 option \<times> u64 option" where
  "meminfo_loop total_kib available_kib [] = (total_kib, available_kib)"
| "meminfo_loop total_kib available_kib (line # rest) =
     (case split_once (CHR '':'') line of
        None \<Rightarrow> meminfo_loop total_kib available_kib rest
      | Some (key, val) \<Rightarrow>
          let kib = Option.bind (first_word val) (\<lambda>n. map_option word_of_nat (parse_unsigned 64 n)) in
          if trim key = ''MemTotal'' then meminfo_loop kib available_kib rest
          else if trim key = ''MemAvailable'' then meminfo_loop total_kib kib rest
          else meminfo_loop total_kib available_kib rest)"

definition parse_memory_snapshot :: "string \<Rightarrow> (MemorySnapshot, MemoryError) result" where
  "parse_memory_snapshot raw_text =
     (case meminfo_loop None None (str_lines raw_text) of
        (None, _) \<Rightarrow> Err MemTotalMissing
      | (Some total_kib, None) \<Rightarrow> Err MemAvailableMissing
      | (Some total_kib, Some available_kib) \<Rightarrow>
          Ok \<lparr>total_bytes = saturating_mul total_kib 1024, available_bytes = saturating_mul available_kib 1024\<rparr>)"

definition read_memory_snapshot :: "'k host \<Rightarrow> 'k \<Rightarrow> (MemorySnapshot, MemoryError) result \<times> 'k" where
  "read_memory_snapshot host k =
     (case host_meminfo host k of
        (Inl e, k) \<Rightarrow> (Err (MeminfoUnreadable e), k)
      | (Inr raw_text, k) \<Rightarrow> (parse_memory_snapshot raw_text, k))"

section \<open>Live state\<close>

record LiveTcClassEntry =
  class_id :: TcHandle
  class_parent :: "TcHandle option"
  leaf_qdisc_major :: "u16 option"

record LiveTcQdiscEntry =
  qdisc_kind :: string
  qdisc_handle :: "TcHandle option"
  qdisc_parent :: "TcHandle option"
  is_root :: bool

type_synonym class_snapshot = "(TcHandle \<times> LiveTcClassEntry) list"

datatype TcError =
    TcSummary string
  | SnapshotNotRun string
  | SnapshotFailed string string
  | SnapshotNotUtf8 string
  | QdiscsUnparsable string
  | ClassLineMalformed string string
  | ClassHandleInvalid string string
  | RootMqMissing string
  | ManagedChildren string nat
  | ManagedClasses string nat
  | FiltersNotRun string
  | FiltersFailed string string
  | ClassifyMissing "string list"

definition json_get :: "json \<Rightarrow> string \<Rightarrow> json option" where
  "json_get val key = (case val of JObject entries \<Rightarrow> map_of entries key | _ \<Rightarrow> None)"

definition is_root_text :: "string \<Rightarrow> bool" where
  "is_root_text s \<longleftrightarrow> to_ascii_lowercase s = ''root''"

definition live_qdisc_entry :: "json \<Rightarrow> LiveTcQdiscEntry" where
  "live_qdisc_entry item =
     (let parent_raw = Option.bind (json_get item ''parent'') as_str in
      \<lparr>qdisc_kind = value_or (Option.bind (json_get item ''kind'') as_str) [],
       qdisc_handle = Option.bind (Option.bind (json_get item ''handle'') as_str) (\<lambda>s. ok (from_string s)),
       qdisc_parent = Option.bind parent_raw (\<lambda>s. if is_root_text s then None else ok (from_string s)),
       is_root = (value_or (Option.bind (json_get item ''root'') as_bool) False
         \<or> (case parent_raw of Some s \<Rightarrow> is_root_text s | None \<Rightarrow> False))\<rparr>)"

definition parse_live_qdisc_snapshot :: "json option \<Rightarrow> LiveTcQdiscEntry list option" where
  "parse_live_qdisc_snapshot parsed =
     (case parsed of Some (JArray items) \<Rightarrow> Some (map live_qdisc_entry items) | _ \<Rightarrow> None)"

fun class_tokens :: "TcHandle option \<Rightarrow> u16 option \<Rightarrow> string list \<Rightarrow> TcHandle option \<times> u16 option" where
  "class_tokens parent leaf (token # val # rest) =
     (if token = ''parent''
      then class_tokens (case from_string val of Inr handle \<Rightarrow> Some handle | Inl _ \<Rightarrow> parent) leaf rest
      else if token = ''leaf''
      then class_tokens parent
        (case from_string val of
           Inr handle \<Rightarrow> (let (major, _) = get_major_minor handle in if major \<noteq> 0 then Some major else leaf)
         | Inl _ \<Rightarrow> leaf) rest
      else class_tokens parent leaf (val # rest))"
| "class_tokens parent leaf [token] = (parent, leaf)"
| "class_tokens parent leaf [] = (parent, leaf)"

fun class_lines_loop :: "string \<Rightarrow> class_snapshot \<Rightarrow> string list \<Rightarrow> (class_snapshot, TcError) result" where
  "class_lines_loop interface snapshot [] = Ok snapshot"
| "class_lines_loop interface snapshot (line # rest) =
     (let trimmed = trim line in
      if trimmed = [] \<or> \<not> prefix ''class '' trimmed then class_lines_loop interface snapshot rest
      else
        let tokens = split_whitespace trimmed in
        if length tokens < 3 then Err (ClassLineMalformed interface trimmed)
        else case from_string (tokens ! 2) of
          Inl _ \<Rightarrow> Err (ClassHandleInvalid interface trimmed)
        | Inr handle \<Rightarrow>
            let (parent, leaf) = class_tokens None None (drop 3 tokens)
            in class_lines_loop interface
                 (AList.update handle \<lparr>class_id = handle, class_parent = parent, leaf_qdisc_major = leaf\<rparr> snapshot)
                 rest)"

definition parse_live_class_snapshot :: "string \<Rightarrow> string \<Rightarrow> (class_snapshot, TcError) result" where
  "parse_live_class_snapshot interface raw_text = class_lines_loop interface [] (str_lines raw_text)"

definition snapshot_text :: "string \<Rightarrow> Output option \<Rightarrow> (string, TcError) result" where
  "snapshot_text interface output =
     (case output of
        None \<Rightarrow> Err (SnapshotNotRun interface)
      | Some output \<Rightarrow>
          if \<not> success output then Err (SnapshotFailed interface (trim (from_utf8_lossy (out_stderr output))))
          else case from_utf8 (out_stdout output) of
            None \<Rightarrow> Err (SnapshotNotUtf8 interface)
          | Some text \<Rightarrow> Ok text)"

section \<open>The cache of live state\<close>

definition LIVE_TC_SNAPSHOT_MAX_AGE_MS :: nat where
  "LIVE_TC_SNAPSHOT_MAX_AGE_MS = 250"

record 'k world =
  kernel :: 'k
  class_snapshots :: "(string \<times> nat \<times> class_snapshot) list"
  qdisc_snapshots :: "(string \<times> nat \<times> LiveTcQdiscEntry list) list"

definition invalidate_live_tc_snapshots :: "'k world \<Rightarrow> 'k world" where
  "invalidate_live_tc_snapshots w = w\<lparr>class_snapshots := [], qdisc_snapshots := []\<rparr>"

definition cached :: "nat \<Rightarrow> string \<Rightarrow> (string \<times> nat \<times> 'a) list \<Rightarrow> 'a option" where
  "cached now interface snapshots =
     (case map_of snapshots interface of
        Some (captured_at, snapshot) \<Rightarrow>
          if now - captured_at \<le> LIVE_TC_SNAPSHOT_MAX_AGE_MS then Some snapshot else None
      | None \<Rightarrow> None)"

definition read_live_qdisc_snapshot ::
  "'k host \<Rightarrow> string \<Rightarrow> 'k world \<Rightarrow> (LiveTcQdiscEntry list, TcError) result \<times> 'k world" where
  "read_live_qdisc_snapshot host interface w =
     (let (now, k) = host_now host (kernel w); w = w\<lparr>kernel := k\<rparr> in
      case cached now interface (qdisc_snapshots w) of
        Some entries \<Rightarrow> (Ok entries, w)
      | None \<Rightarrow>
          let (output, k) = host_show_qdiscs host interface (kernel w); w = w\<lparr>kernel := k\<rparr> in
          case snapshot_text interface output of
            Inl e \<Rightarrow> (Err e, w)
          | Inr text \<Rightarrow>
              case parse_live_qdisc_snapshot (host_parse_json host text) of
                None \<Rightarrow> (Err (QdiscsUnparsable interface), w)
              | Some entries \<Rightarrow>
                  (Ok entries, w\<lparr>qdisc_snapshots := AList.update interface (now, entries) (qdisc_snapshots w)\<rparr>))"

definition qdisc_majors :: "LiveTcQdiscEntry list \<Rightarrow> u16 list" where
  "qdisc_majors entries =
     foldl (\<lambda>majors handle. let (major, _) = get_major_minor handle
              in if major \<noteq> 0 then push_unique major majors else majors) []
       (List.map_filter qdisc_handle entries)"

definition read_live_qdisc_handle_majors ::
  "'k host \<Rightarrow> string \<Rightarrow> 'k world \<Rightarrow> (u16 list, TcError) result \<times> 'k world" where
  "read_live_qdisc_handle_majors host interface w =
     (let (entries, w) = read_live_qdisc_snapshot host interface w
      in (and_then entries (\<lambda>entries. Ok (qdisc_majors entries)), w))"

definition read_live_class_snapshot ::
  "'k host \<Rightarrow> string \<Rightarrow> 'k world \<Rightarrow> (class_snapshot, TcError) result \<times> 'k world" where
  "read_live_class_snapshot host interface w =
     (let (now, k) = host_now host (kernel w); w = w\<lparr>kernel := k\<rparr> in
      case cached now interface (class_snapshots w) of
        Some snapshot \<Rightarrow> (Ok snapshot, w)
      | None \<Rightarrow>
          let (output, k) = host_show_classes host interface (kernel w); w = w\<lparr>kernel := k\<rparr> in
          case and_then (snapshot_text interface output) (parse_live_class_snapshot interface) of
            Inl e \<Rightarrow> (Err e, w)
          | Inr snapshot \<Rightarrow>
              (Ok snapshot, w\<lparr>class_snapshots := AList.update interface (now, snapshot) (class_snapshots w)\<rparr>))"

section \<open>Running a batch\<close>

record ExecuteResult =
  exec_ok :: bool
  failure_summary :: "string option"

abbreviation exec_done :: ExecuteResult where
  "exec_done \<equiv> \<lparr>exec_ok = True, failure_summary = None\<rparr>"

abbreviation exec_failed :: "string \<Rightarrow> ExecuteResult" where
  "exec_failed reason \<equiv> \<lparr>exec_ok = False, failure_summary = Some reason\<rparr>"

definition command_text :: "argv list \<Rightarrow> string" where
  "command_text commands = concat (map (\<lambda>line. join_with_space line @ [char_of (10 :: nat)]) commands)"

definition write_command_file :: "'k host \<Rightarrow> string \<Rightarrow> argv list \<Rightarrow> 'k world \<Rightarrow> string option \<times> 'k world" where
  "write_command_file host path commands w =
     (let (written, k) = host_write_file host path (command_text commands) (kernel w)
      in (if written then Some (command_text commands) else None, w\<lparr>kernel := k\<rparr>))"

definition run_tc_batch :: "'k host \<Rightarrow> string \<Rightarrow> 'k world \<Rightarrow> Output option \<times> 'k world" where
  "run_tc_batch host text w = (let (output, k) = host_run_batch host text (kernel w) in (output, w\<lparr>kernel := k\<rparr>))"

definition memory_guard_failure_summary ::
  "MemorySnapshot \<Rightarrow> u64 \<Rightarrow> string \<Rightarrow> nat \<Rightarrow> nat \<Rightarrow> string \<Rightarrow> string" where
  "memory_guard_failure_summary snapshot min_available_bytes purpose chunk_number total_chunks phase =
     ''Bakery memory guard stopped '' @ purpose @ '' '' @ phase @ '' chunk '' @ dec_digits chunk_number @ ''/''
     @ dec_digits total_chunks @ '': available memory '' @ dec_digits (unat (available_bytes snapshot))
     @ '' bytes is below required available memory '' @ dec_digits (unat min_available_bytes)
     @ '' bytes (total RAM '' @ dec_digits (unat (total_bytes snapshot)) @ '' bytes).''"

definition memory_error_text :: "MemoryError \<Rightarrow> string" where
  "memory_error_text e = (case e of
       MeminfoUnreadable os_error \<Rightarrow> ''Failed to read /proc/meminfo: '' @ os_error
     | MemTotalMissing \<Rightarrow> ''MemTotal missing from /proc/meminfo''
     | MemAvailableMissing \<Rightarrow> ''MemAvailable missing from /proc/meminfo'')"

text \<open>The guard around a chunk: the failure it ends the batch with, if any.\<close>

definition memory_guard ::
  "'k host \<Rightarrow> string \<Rightarrow> u64 option \<Rightarrow> nat \<Rightarrow> nat \<Rightarrow> string \<Rightarrow> 'k world \<Rightarrow> string option \<times> 'k world" where
  "memory_guard host purpose guard chunk_number total_chunks phase w =
     (case guard of
        None \<Rightarrow> (None, w)
      | Some min_available_bytes \<Rightarrow>
          let (snapshot, k) = read_memory_snapshot host (kernel w); w = w\<lparr>kernel := k\<rparr> in
          case snapshot of
            Inr snapshot \<Rightarrow>
              (if available_bytes snapshot < min_available_bytes
               then Some (memory_guard_failure_summary snapshot min_available_bytes purpose chunk_number
                      total_chunks phase)
               else None, w)
          | Inl e \<Rightarrow>
              (Some (''Bakery memory guard could not read host memory state '' @ phase @ '' chunk ''
                 @ dec_digits chunk_number @ ''/'' @ dec_digits total_chunks @ '' for '' @ purpose @ '': ''
                 @ memory_error_text e), w))"

text \<open>\<open>slice::chunks\<close>\<close>

function chunks :: "nat \<Rightarrow> 'a list \<Rightarrow> 'a list list" where
  "chunks n xs = (if xs = [] then [] else take (max 1 n) xs # chunks n (drop (max 1 n) xs))"
  by pat_completeness auto
termination
  by (relation "measure (length \<circ> snd)") auto

declare chunks.simps [simp del]

text \<open>What one chunk does: the failure it ends the batch with, if any.\<close>

definition run_chunk :: "'k host \<Rightarrow> string \<Rightarrow> argv list \<Rightarrow> 'k world \<Rightarrow> string option \<times> 'k world" where
  "run_chunk host purpose chunk w =
     (case write_command_file host ''/tmp/lqos_bakery_commands_chunk.txt'' chunk w of
        (None, w) \<Rightarrow> (Some (''Failed to write commands to file for '' @ purpose), w)
      | (Some text, w) \<Rightarrow>
          case run_tc_batch host text w of
            (None, w) \<Rightarrow> (Some (''Failed to execute tc batch command for '' @ purpose @ ''.''), w)
          | (Some output, w) \<Rightarrow>
              if tc_batch_failure_is_ignorable_delete_absence output text then (None, w)
              else (summarize_tc_batch_failure output, w))"

fun chunk_loop ::
  "'k host \<Rightarrow> string \<Rightarrow> u64 option \<Rightarrow> nat \<Rightarrow> nat \<Rightarrow> argv list list \<Rightarrow> 'k world
    \<Rightarrow> ExecuteResult \<times> 'k world" where
  "chunk_loop host purpose guard total_chunks completed_chunks [] w = (exec_done, w)"
| "chunk_loop host purpose guard total_chunks completed_chunks (chunk # rest) w =
     (case memory_guard host purpose guard (completed_chunks + 1) total_chunks ''before'' w of
        (Some reason, w) \<Rightarrow> (exec_failed reason, w)
      | (None, w) \<Rightarrow>
          case run_chunk host purpose chunk w of
            (Some reason, w) \<Rightarrow> (exec_failed reason, w)
          | (None, w) \<Rightarrow>
              let w = invalidate_live_tc_snapshots w in
              case memory_guard host purpose guard (completed_chunks + 1) total_chunks ''after'' w of
                (Some reason, w) \<Rightarrow> (exec_failed reason, w)
              | (None, w) \<Rightarrow> chunk_loop host purpose guard total_chunks (completed_chunks + 1) rest w)"

definition execute_in_memory_chunked ::
  "'k host \<Rightarrow> argv list \<Rightarrow> string \<Rightarrow> nat \<Rightarrow> u64 option \<Rightarrow> 'k world \<Rightarrow> ExecuteResult \<times> 'k world" where
  "execute_in_memory_chunked host command_buffer purpose chunk_size guard w =
     (case write_command_file host ''/tmp/lqos_bakery_commands.txt'' command_buffer w of
        (None, w) \<Rightarrow> (exec_failed (''Failed to write commands to file for '' @ purpose), w)
      | (Some _, w) \<Rightarrow>
          if command_buffer = [] then (exec_done, w)
          else
            let parts = chunks chunk_size command_buffer
            in chunk_loop host purpose guard (length parts) 0 parts w)"

definition execute_in_memory ::
  "'k host \<Rightarrow> argv list \<Rightarrow> string \<Rightarrow> 'k world \<Rightarrow> ExecuteResult \<times> 'k world" where
  "execute_in_memory host command_buffer purpose w =
     execute_in_memory_chunked host command_buffer purpose (max 1 (length command_buffer)) None w"

section \<open>The rhythm of \<open>tc\<close> calls\<close>

definition TC_IO_INTERVAL_WINDOW :: nat where
  "TC_IO_INTERVAL_WINDOW = 128"

record TcIoCadenceState =
  last_event_at :: "nat option"
  last_event_unix :: "u64 option"
  intervals_ms :: "u64 list"
  interval_sum_ms :: u128

fun drop_intervals :: "u64 list \<Rightarrow> u128 \<Rightarrow> u64 list \<times> u128" where
  "drop_intervals intervals acc =
     (case intervals of
        removed # rest \<Rightarrow>
          if TC_IO_INTERVAL_WINDOW < length intervals
          then drop_intervals rest (saturating_sub acc (ucast removed))
          else (intervals, acc)
      | [] \<Rightarrow> (intervals, acc))"

declare drop_intervals.simps [simp del]

definition record_tc_io_event :: "nat \<Rightarrow> u64 \<Rightarrow> TcIoCadenceState \<Rightarrow> TcIoCadenceState" where
  "record_tc_io_event now now_unix self =
     (let self = (case last_event_at self of
          Some last_at \<Rightarrow>
            let interval_ms = word_of_nat (now - last_at) :: u64;
                (intervals, acc) = drop_intervals (intervals_ms self @ [interval_ms])
                  (saturating_add (interval_sum_ms self) (ucast interval_ms))
            in self\<lparr>intervals_ms := intervals, interval_sum_ms := acc\<rparr>
        | None \<Rightarrow> self)
      in self\<lparr>last_event_at := Some now, last_event_unix := Some now_unix\<rparr>)"

definition tc_io_cadence_average :: "TcIoCadenceState \<Rightarrow> u64 option" where
  "tc_io_cadence_average self =
     (if intervals_ms self = [] then None
      else Some (ucast (interval_sum_ms self div word_of_nat (length (intervals_ms self)))))"

end
