(* ===== verification/Full_Reload.thy ===== *)
theory Full_Reload
  imports Qdisc_Assignment Tc_Execution
begin

text \<open>
  The full reload of the shaping tree (\<open>lqos_bakery/src/lib.rs\<close>): the budget estimated before it,
  the preparation of the multi-queue roots, the batch it builds and runs, and what it leaves in the
  bakery's state. Activity entries, progress and timing of the status page are left out; a text that
  is only shown keeps the parts it is made of. \<open>None\<close> is the panic of a configuration without
  interfaces.
\<close>

section \<open>Reading commands\<close>

text \<open>\<open>argv.windows(2).find_map(..)\<close>\<close>

fun find_arg_value :: "argv \<Rightarrow> string \<Rightarrow> string option" where
  "find_arg_value (a # b # rest) key = (if a = key then Some b else find_arg_value (b # rest) key)"
| "find_arg_value _ key = None"

datatype PlannedQdiscKind = InfraQdisc | CakeQdisc | FqCodelQdisc

definition planned_qdisc_is_leaf :: "argv \<Rightarrow> bool" where
  "planned_qdisc_is_leaf argv =
     (case find_arg_value argv ''parent'' of
        None \<Rightarrow> False
      | Some parent \<Rightarrow>
          case from_string parent of
            Inl _ \<Rightarrow> False
          | Inr parent_handle \<Rightarrow>
              let (_, minor) = get_major_minor parent_handle in minor \<noteq> 1 \<and> minor \<noteq> 2)"

definition is_qdisc_creation :: "argv \<Rightarrow> bool" where
  "is_qdisc_creation argv =
     (case argv of
        first # second # _ \<Rightarrow> first = ''qdisc'' \<and> (second = ''add'' \<or> second = ''replace'')
      | _ \<Rightarrow> False)"

definition planned_qdisc_kind :: "argv \<Rightarrow> PlannedQdiscKind option" where
  "planned_qdisc_kind argv =
     (if \<not> is_qdisc_creation argv then None
      else if ''cake'' \<in> set argv
      then Some (if planned_qdisc_is_leaf argv then CakeQdisc else InfraQdisc)
      else if ''fq_codel'' \<in> set argv
      then Some (if planned_qdisc_is_leaf argv then FqCodelQdisc else InfraQdisc)
      else Some InfraQdisc)"

definition planned_qdisc_identity :: "argv \<Rightarrow> (string \<times> string) option" where
  "planned_qdisc_identity argv =
     (if \<not> is_qdisc_creation argv then None
      else Option.bind (find_arg_value argv ''dev'') (\<lambda>dev.
        case find_arg_value argv ''handle'' of
          Some handle \<Rightarrow> Some (dev, ''handle:'' @ handle)
        | None \<Rightarrow>
            case find_arg_value argv ''parent'' of
              Some parent \<Rightarrow> Some (dev, ''parent:'' @ parent)
            | None \<Rightarrow> if ''root'' \<in> set argv then Some (dev, ''root'') else None))"

definition qdisc_kind_estimated_memory_bytes :: "PlannedQdiscKind \<Rightarrow> u64" where
  "qdisc_kind_estimated_memory_bytes kind =
     (case kind of InfraQdisc \<Rightarrow> 16 * 1024 | CakeQdisc \<Rightarrow> 512 * 1024 | FqCodelQdisc \<Rightarrow> 64 * 1024)"

datatype TcCommandType = ClassCommand | QdiscCommand

definition tc_command_type :: "argv \<Rightarrow> TcCommandType option" where
  "tc_command_type argv =
     (case argv of
        [] \<Rightarrow> None
      | first # _ \<Rightarrow>
          if first = ''class'' then Some ClassCommand else if first = ''qdisc'' then Some QdiscCommand else None)"

text \<open>The first occurrence of every queue a list of commands creates, with its kind.\<close>

fun planned_qdiscs :: "(string \<times> string) list \<Rightarrow> argv list \<Rightarrow> ((string \<times> string) \<times> PlannedQdiscKind) list" where
  "planned_qdiscs seen [] = []"
| "planned_qdiscs seen (argv # rest) =
     (case planned_qdisc_identity argv of
        None \<Rightarrow> planned_qdiscs seen rest
      | Some identity \<Rightarrow>
          if identity \<in> set seen then planned_qdiscs seen rest
          else (identity, value_or (planned_qdisc_kind argv) InfraQdisc)
            # planned_qdiscs (identity # seen) rest)"

definition count_tc_command_types_and_estimate_qdisc_memory :: "argv list \<Rightarrow> nat \<times> nat \<times> nat \<times> u64" where
  "count_tc_command_types_and_estimate_qdisc_memory commands =
     (length commands,
      length (filter (\<lambda>argv. tc_command_type argv = Some ClassCommand) commands),
      length (filter (\<lambda>argv. tc_command_type argv = Some QdiscCommand) commands),
      foldl (\<lambda>bytes (_, kind). saturating_add bytes (qdisc_kind_estimated_memory_bytes kind)) 0
        (planned_qdiscs [] commands))"

section \<open>The budget of a reload\<close>

definition SAFE_QDISC_BUDGET_PER_INTERFACE :: nat where
  "SAFE_QDISC_BUDGET_PER_INTERFACE = 65000"

definition HARD_QDISC_HANDLE_LIMIT_PER_INTERFACE :: nat where
  "HARD_QDISC_HANDLE_LIMIT_PER_INTERFACE = 65534"

definition BAKERY_MEMORY_GUARD_MIN_AVAILABLE_BYTES :: u64 where
  "BAKERY_MEMORY_GUARD_MIN_AVAILABLE_BYTES = 2 * 1024 * 1024 * 1024"

definition bakery_memory_guard_min_available_bytes :: "u64 \<Rightarrow> u64" where
  "bakery_memory_guard_min_available_bytes bytes = max BAKERY_MEMORY_GUARD_MIN_AVAILABLE_BYTES (bytes div 8)"

record QdiscInterfaceEstimate =
  planned_count :: nat
  infra_count :: nat
  cake_count :: nat
  fq_codel_count :: nat
  interface_memory_bytes :: u64

record QdiscBudgetEstimate =
  est_interfaces :: "(string \<times> nat) list"
  est_details :: "(string \<times> QdiscInterfaceEstimate) list"
  est_safe_budget :: nat
  est_hard_limit :: nat
  est_total_memory_bytes :: u64
  est_memory_snapshot :: "MemorySnapshot option"
  est_memory_floor :: u64
  est_memory_ok :: bool
  est_memory_warning_only :: bool

definition budget_ok :: "QdiscBudgetEstimate \<Rightarrow> bool" where
  "budget_ok self \<longleftrightarrow> list_all (\<lambda>(_, count). count \<le> est_safe_budget self) (est_interfaces self)
     \<and> (est_memory_ok self \<or> est_memory_warning_only self)"

definition count_qdisc ::
  "(string \<times> string) \<times> PlannedQdiscKind \<Rightarrow> (string \<times> nat) list \<times> (string \<times> QdiscInterfaceEstimate) list
    \<Rightarrow> (string \<times> nat) list \<times> (string \<times> QdiscInterfaceEstimate) list" where
  "count_qdisc entry counts =
     (let ((dev, _), kind) = entry; (names, details) = counts;
          detail = value_or (map_of details dev)
            \<lparr>planned_count = 0, infra_count = 0, cake_count = 0, fq_codel_count = 0, interface_memory_bytes = 0\<rparr>;
          detail = detail\<lparr>planned_count := planned_count detail + 1\<rparr>;
          detail = (case kind of
              InfraQdisc \<Rightarrow> detail\<lparr>infra_count := infra_count detail + 1\<rparr>
            | CakeQdisc \<Rightarrow> detail\<lparr>cake_count := cake_count detail + 1\<rparr>
            | FqCodelQdisc \<Rightarrow> detail\<lparr>fq_codel_count := fq_codel_count detail + 1\<rparr>);
          detail = detail\<lparr>interface_memory_bytes :=
            saturating_add (interface_memory_bytes detail) (qdisc_kind_estimated_memory_bytes kind)\<rparr>
      in (AList.update dev (value_or (map_of names dev) 0 + 1) names, AList.update dev detail details))"

text \<open>All commands of the queue through the builder, one after the other.\<close>

fun builder_commands :: "Config \<Rightarrow> bool \<Rightarrow> BakeryCommands list \<Rightarrow> (argv list \<times> bool) option" where
  "builder_commands config mq_created [] = Some ([], mq_created)"
| "builder_commands config mq_created (command # queue) =
     Option.bind (to_commands command config Builder mq_created) (\<lambda>(result, mq_created).
       map_option (\<lambda>(rest, mq_created). (value_or result [] @ rest, mq_created))
         (builder_commands config mq_created queue))"

definition lazy_queue_memory_preflight_is_warning :: "LazyQueueMode option \<Rightarrow> bool \<Rightarrow> bool \<Rightarrow> bool" where
  "lazy_queue_memory_preflight_is_warning lazy_queue_mode qdisc_counts_fit memory_ok \<longleftrightarrow>
     qdisc_counts_fit \<and> \<not> memory_ok \<and> (lazy_queue_mode = Some LazyHtb \<or> lazy_queue_mode = Some LazyFull)"

definition estimate_full_reload_auto_qdisc_budget ::
  "Config \<Rightarrow> bool \<Rightarrow> MemorySnapshot option \<Rightarrow> BakeryCommands list \<Rightarrow> (QdiscBudgetEstimate \<times> bool) option" where
  "estimate_full_reload_auto_qdisc_budget config mq_created memory_snapshot queue =
     map_option (\<lambda>(commands, mq_created).
       let (names, details) = fold count_qdisc (planned_qdiscs [] commands) ([], []);
           estimated = foldl (\<lambda>acc (_, detail). saturating_add acc (interface_memory_bytes detail)) 0 details;
           memory_floor = (case memory_snapshot of
               Some snapshot \<Rightarrow> bakery_memory_guard_min_available_bytes (total_bytes snapshot)
             | None \<Rightarrow> BAKERY_MEMORY_GUARD_MIN_AVAILABLE_BYTES);
           memory_ok = (case memory_snapshot of
               Some snapshot \<Rightarrow> saturating_sub (available_bytes snapshot) memory_floor \<ge> estimated
             | None \<Rightarrow> True);
           qdisc_counts_fit = list_all (\<lambda>(_, count). count \<le> SAFE_QDISC_BUDGET_PER_INTERFACE) names
       in (\<lparr>est_interfaces = names, est_details = details, est_safe_budget = SAFE_QDISC_BUDGET_PER_INTERFACE,
            est_hard_limit = HARD_QDISC_HANDLE_LIMIT_PER_INTERFACE, est_total_memory_bytes = estimated,
            est_memory_snapshot = memory_snapshot, est_memory_floor = memory_floor, est_memory_ok = memory_ok,
            est_memory_warning_only = lazy_queue_memory_preflight_is_warning
              (lazy_queues (cfg_queues config)) qdisc_counts_fit memory_ok\<rparr>, mq_created))
       (builder_commands config mq_created queue)"

end
