(* ===== verification/Reload_Run.thy ===== *)
theory Reload_Run
  imports Full_Reload
begin

text \<open>
  Preparing the multi-queue roots, running the batch of a full reload and settling the bakery's state
  after it (\<open>lqos_bakery/src/lib.rs\<close>). A hash map is an association list in its iteration order.
\<close>

section \<open>The live tree\<close>

abbreviation (input) ROOT_MQ_MAJOR :: u16 where "ROOT_MQ_MAJOR \<equiv> 0x7fff"

definition desired_shaping_tree_active :: "Config \<Rightarrow> bool" where
  "desired_shaping_tree_active config \<longleftrightarrow> \<not> is_observe (queue_mode (cfg_queues config))"

definition managed_interfaces_for_config :: "Config \<Rightarrow> string list option" where
  "managed_interfaces_for_config config =
     those (isp_interface config # (if on_a_stick_mode config then [] else [internet_interface config]))"

definition major_of :: "TcHandle \<Rightarrow> u16" where
  "major_of handle = fst (get_major_minor handle)"

definition retained_root_mq_entry :: "LiveTcQdiscEntry list \<Rightarrow> LiveTcQdiscEntry option" where
  "retained_root_mq_entry snapshot =
     find (\<lambda>entry. is_root entry \<and> qdisc_kind entry = ''mq''
       \<and> (case qdisc_handle entry of Some handle \<Rightarrow> major_of handle = ROOT_MQ_MAJOR | None \<Rightarrow> False)) snapshot"

definition below_root :: "LiveTcQdiscEntry \<Rightarrow> bool" where
  "below_root entry =
     (case qdisc_parent entry of Some parent \<Rightarrow> major_of parent = ROOT_MQ_MAJOR | None \<Rightarrow> False)"

definition managed_root_child_parent_handles :: "LiveTcQdiscEntry list \<Rightarrow> TcHandle list" where
  "managed_root_child_parent_handles snapshot =
     remdups (List.map_filter qdisc_parent
       (filter (\<lambda>entry. below_root entry
          \<and> (case qdisc_handle entry of Some handle \<Rightarrow> major_of handle \<noteq> 0 | None \<Rightarrow> False)) snapshot))"

definition verify_root_mq_snapshot :: "LiveTcQdiscEntry list \<Rightarrow> string \<Rightarrow> (unit, TcError) result" where
  "verify_root_mq_snapshot snapshot interface =
     (if retained_root_mq_entry snapshot = None then Err (RootMqMissing interface) else Ok ())"

definition verify_clean_root_child_tree ::
  "LiveTcQdiscEntry list \<Rightarrow> class_snapshot \<Rightarrow> string \<Rightarrow> (unit, TcError) result" where
  "verify_clean_root_child_tree qdiscs classes interface =
     and_then (verify_root_mq_snapshot qdiscs interface) (\<lambda>_.
       let children = managed_root_child_parent_handles qdiscs;
           managed = length (filter (\<lambda>(_, entry). major_of (class_id entry) \<noteq> ROOT_MQ_MAJOR) classes)
       in if children \<noteq> [] then Err (ManagedChildren interface (length children))
          else if managed \<noteq> 0 then Err (ManagedClasses interface managed)
          else Ok ())"

definition root_replace_failure_is_fallbackable :: "string \<Rightarrow> bool" where
  "root_replace_failure_is_fallbackable text =
     (let normalized = to_ascii_lowercase text in
      contains_text ''exclusivity flag on, cannot modify'' normalized
      \<or> contains_text ''rtnetlink answers: file exists'' normalized
      \<or> contains_text ''file exists'' normalized)"

definition run_root_preflight_commands ::
  "'k host \<Rightarrow> argv list \<Rightarrow> string \<Rightarrow> 'k world \<Rightarrow> string option \<times> 'k world" where
  "run_root_preflight_commands host commands purpose w =
     (let (result, w) = execute_in_memory_chunked host commands purpose 1 None w
      in (if exec_ok result then None else Some (value_or (failure_summary result) (purpose @ '' failed'')), w))"

definition root_mq_replace_command :: "string \<Rightarrow> argv" where
  "root_mq_replace_command interface_name =
     [''qdisc'', ''replace'', ''dev'', interface_name, ''root'', ''handle'', ''7FFF:'', ''mq'']"

definition root_mq_delete_command :: "string \<Rightarrow> argv" where
  "root_mq_delete_command interface_name = [''qdisc'', ''del'', ''dev'', interface_name, ''root'']"

section \<open>Infrastructure\<close>

definition command_handle_after :: "argv \<Rightarrow> string \<Rightarrow> TcHandle option" where
  "command_handle_after command needle = Option.bind (find_arg_value command needle) (\<lambda>token. ok (from_string token))"

definition is_default_minor :: "u16 \<Rightarrow> bool" where
  "is_default_minor minor \<longleftrightarrow> minor = 1 \<or> minor = 2"

definition root_infra_class_handle :: "TcHandle \<Rightarrow> u16 list \<Rightarrow> bool" where
  "root_infra_class_handle handle root_child_majors =
     (let (major, minor) = get_major_minor handle in major \<in> set root_child_majors \<and> is_default_minor minor)"

definition root_infra_class_entry :: "LiveTcClassEntry \<Rightarrow> u16 list \<Rightarrow> bool" where
  "root_infra_class_entry entry root_child_majors =
     (let (major, minor) = get_major_minor (class_id entry) in
      major \<in> set root_child_majors
      \<and> (case class_parent entry of
           Some parent \<Rightarrow>
             minor = 1 \<and> parent = tc_handle_from_major_minor major 0
             \<or> minor = 2 \<and> parent = tc_handle_from_major_minor major 1
         | None \<Rightarrow> False))"

definition root_infra_qdisc_entry :: "LiveTcQdiscEntry \<Rightarrow> u16 list \<Rightarrow> bool" where
  "root_infra_qdisc_entry entry root_child_majors \<longleftrightarrow>
     qdisc_kind entry = ''clsact'' \<or> is_root entry \<or> below_root entry
     \<or> (case qdisc_parent entry of Some parent \<Rightarrow> root_infra_class_handle parent root_child_majors | None \<Rightarrow> False)"

definition preserved_majors :: "argv \<Rightarrow> (string \<times> u16 list) list \<Rightarrow> u16 list option" where
  "preserved_majors command preserved = Option.bind (find_arg_value command ''dev'') (map_of preserved)"

definition root_infra_class_command :: "argv \<Rightarrow> (string \<times> u16 list) list \<Rightarrow> bool" where
  "root_infra_class_command command preserved =
     (tc_command_type command = Some ClassCommand
      \<and> (case preserved_majors command preserved of
           None \<Rightarrow> False
         | Some root_child_majors \<Rightarrow>
             (case command_handle_after command ''classid'' of
                Some handle \<Rightarrow> root_infra_class_handle handle root_child_majors
              | None \<Rightarrow> False)))"

definition root_infra_qdisc_command :: "argv \<Rightarrow> (string \<times> u16 list) list \<Rightarrow> bool" where
  "root_infra_qdisc_command command preserved =
     (tc_command_type command = Some QdiscCommand
      \<and> (case preserved_majors command preserved of
           None \<Rightarrow> False
         | Some root_child_majors \<Rightarrow>
             (case command_handle_after command ''parent'' of
                Some parent \<Rightarrow> major_of parent = ROOT_MQ_MAJOR \<or> root_infra_class_handle parent root_child_majors
              | None \<Rightarrow> False)))"

definition idempotent_full_reload_command :: "argv \<Rightarrow> (string \<times> u16 list) list \<Rightarrow> argv" where
  "idempotent_full_reload_command command preserved =
     (if 1 < length command \<and> command ! 1 = ''add'' \<and> root_infra_class_command command preserved
      then command[1 := ''replace''] else command)"

section \<open>Draining\<close>

lemma unseen_decreases:
  assumes "handle \<notin> set seen" "map_of snapshot handle \<noteq> None"
  shows "card (set (map fst snapshot) - set (handle # seen)) < card (set (map fst snapshot) - set seen)"
proof (rule psubset_card_mono)
  have "handle \<in> set (map fst snapshot)" using assms(2) by (metis map_of_eq_None_iff list.set_map)
  then show "set (map fst snapshot) - set (handle # seen) \<subset> set (map fst snapshot) - set seen"
    using assms(1) by auto
qed simp

function class_depth :: "TcHandle \<Rightarrow> class_snapshot \<Rightarrow> TcHandle list \<Rightarrow> nat" where
  "class_depth handle snapshot seen =
     (if handle \<in> set seen then 0
      else case Option.bind (map_of snapshot handle) class_parent of
        Some parent \<Rightarrow> 1 + class_depth parent snapshot (handle # seen)
      | None \<Rightarrow> 0)"
  by pat_completeness auto

termination
proof (relation "measure (\<lambda>(_, snapshot, seen). card (set (map fst snapshot) - set seen))")
  fix handle :: TcHandle and snapshot :: class_snapshot and seen parent
  assume "handle \<notin> set seen" "Option.bind (map_of snapshot handle) class_parent = Some parent"
  then show "((parent, snapshot, handle # seen), handle, snapshot, seen)
      \<in> measure (\<lambda>(_, snapshot, seen). card (set (map fst snapshot) - set seen))"
    using unseen_decreases [of handle seen snapshot] by (auto simp: bind_eq_Some_conv)
qed simp

declare class_depth.simps [simp del]

definition deletable_classes :: "class_snapshot \<Rightarrow> u16 list \<Rightarrow> (nat \<times> TcHandle \<times> TcHandle) list" where
  "deletable_classes snapshot root_child_majors =
     sort_key (\<lambda>(depth, _). - int depth)
       (List.map_filter (\<lambda>(_, entry).
          map_option (\<lambda>parent. (class_depth (class_id entry) snapshot [], class_id entry, parent))
            (class_parent entry))
        (filter (\<lambda>(_, entry). major_of (class_id entry) \<noteq> ROOT_MQ_MAJOR
            \<and> \<not> root_infra_class_entry entry root_child_majors) snapshot))"

definition class_delete_commands :: "string \<Rightarrow> class_snapshot \<Rightarrow> u16 list \<Rightarrow> argv list" where
  "class_delete_commands interface snapshot root_child_majors =
     map (\<lambda>(_, handle, parent). [''class'', ''del'', ''dev'', interface, ''parent'', as_tc_string parent,
        ''classid'', as_tc_string handle]) (deletable_classes snapshot root_child_majors)"

definition qdisc_delete_commands :: "string \<Rightarrow> LiveTcQdiscEntry list \<Rightarrow> u16 list \<Rightarrow> argv list" where
  "qdisc_delete_commands interface snapshot root_child_majors =
     map (\<lambda>parent. [''qdisc'', ''del'', ''dev'', interface, ''parent'', as_tc_string parent])
       (List.map_filter qdisc_parent (filter (\<lambda>entry. \<not> root_infra_qdisc_entry entry root_child_majors) snapshot))"

definition drain_managed_tree_to_defaults ::
  "'k host \<Rightarrow> string \<Rightarrow> LiveTcQdiscEntry list \<Rightarrow> 'k world \<Rightarrow> (u16 list, TcError) result \<times> 'k world" where
  "drain_managed_tree_to_defaults host interface qdiscs w =
     (let root_child_majors =
            remdups (map (\<lambda>parent. snd (get_major_minor parent)) (managed_root_child_parent_handles qdiscs)) in
      if root_child_majors = [] then (Ok root_child_majors, w)
      else case read_live_class_snapshot host interface w of
        (Inl e, w) \<Rightarrow> (Err e, w)
      | (Inr classes, w) \<Rightarrow>
          let commands = qdisc_delete_commands interface qdiscs root_child_majors
                @ class_delete_commands interface classes root_child_majors in
          if commands = [] then (Ok root_child_majors, w)
          else case run_root_preflight_commands host commands
              (''full reload drain managed tree to defaults on '' @ interface) w of
            (Some reason, w) \<Rightarrow> (Err (TcSummary reason), w)
          | (None, w) \<Rightarrow> (Ok root_child_majors, invalidate_live_tc_snapshots w))"

section \<open>Preparing the roots\<close>

definition read_live_tree ::
  "'k host \<Rightarrow> string \<Rightarrow> 'k world \<Rightarrow> (LiveTcQdiscEntry list \<times> class_snapshot, TcError) result \<times> 'k world" where
  "read_live_tree host interface w =
     (case read_live_qdisc_snapshot host interface w of
        (Inl e, w) \<Rightarrow> (Err e, w)
      | (Inr qdiscs, w) \<Rightarrow>
          case read_live_class_snapshot host interface w of
            (Inl e, w) \<Rightarrow> (Err e, w)
          | (Inr classes, w) \<Rightarrow> (Ok (qdiscs, classes), w))"

text \<open>Delete the root, add it again and look whether the tree below it is clean.\<close>

definition recreate_root :: "'k host \<Rightarrow> string \<Rightarrow> 'k world \<Rightarrow> (unit, TcError) result \<times> 'k world" where
  "recreate_root host interface w =
     (case run_root_preflight_commands host [root_mq_delete_command interface]
         (''full reload root mq delete on '' @ interface) w of
        (Some reason, w) \<Rightarrow> (Err (TcSummary reason), w)
      | (None, w) \<Rightarrow>
          case run_root_preflight_commands host [root_mq_add_command interface]
              (''full reload root mq add on '' @ interface) (invalidate_live_tc_snapshots w) of
            (Some reason, w) \<Rightarrow> (Err (TcSummary reason), w)
          | (None, w) \<Rightarrow>
              case read_live_tree host interface (invalidate_live_tc_snapshots w) of
                (Inl e, w) \<Rightarrow> (Err e, w)
              | (Inr (qdiscs, classes), w) \<Rightarrow> (verify_clean_root_child_tree qdiscs classes interface, w))"

text \<open>An interface without the root: replace it, and recreate it when that is refused or not clean.\<close>

definition replace_root :: "'k host \<Rightarrow> string \<Rightarrow> 'k world \<Rightarrow> (unit, TcError) result \<times> 'k world" where
  "replace_root host interface w =
     (case run_root_preflight_commands host [root_mq_replace_command interface]
         (''full reload root mq replace on '' @ interface) w of
        (Some reason, w) \<Rightarrow>
          let w = invalidate_live_tc_snapshots w in
          if \<not> root_replace_failure_is_fallbackable reason then (Err (TcSummary reason), w)
          else recreate_root host interface w
      | (None, w) \<Rightarrow>
          case read_live_tree host interface (invalidate_live_tc_snapshots w) of
            (Inl e, w) \<Rightarrow> (Err e, w)
          | (Inr (qdiscs, classes), w) \<Rightarrow>
              if verify_clean_root_child_tree qdiscs classes interface = Ok () then (Ok (), w)
              else recreate_root host interface w)"

fun prepare_roots ::
  "'k host \<Rightarrow> string list \<Rightarrow> (string \<times> u16 list) list \<Rightarrow> 'k world
    \<Rightarrow> ((string \<times> u16 list) list, TcError) result \<times> 'k world" where
  "prepare_roots host [] preserved w = (Ok preserved, w)"
| "prepare_roots host (interface # rest) preserved w =
     (case read_live_qdisc_snapshot host interface w of
        (Inl e, w) \<Rightarrow> (Err e, w)
      | (Inr qdiscs, w) \<Rightarrow>
          if retained_root_mq_entry qdiscs \<noteq> None then
            if managed_root_child_parent_handles qdiscs \<noteq> [] then
              (case drain_managed_tree_to_defaults host interface qdiscs w of
                 (Inl e, w) \<Rightarrow> (Err e, w)
               | (Inr majors, w) \<Rightarrow>
                   prepare_roots host rest
                     (if majors \<noteq> [] then AList.update interface majors preserved else preserved) w)
            else prepare_roots host rest preserved w
          else
            (case replace_root host interface w of
               (Inl e, w) \<Rightarrow> (Err e, w)
             | (Inr _, w) \<Rightarrow> prepare_roots host rest preserved w))"

definition prepare_root_mq_for_full_reload ::
  "'k host \<Rightarrow> string list \<Rightarrow> 'k world \<Rightarrow> ((string \<times> u16 list) list, TcError) result \<times> 'k world" where
  "prepare_root_mq_for_full_reload host managed w = prepare_roots host managed [] w"

section \<open>The batch\<close>

record batch_build =
  bb_commands :: "argv list"
  bb_sites :: "(i64 \<times> BakeryCommands) list"
  bb_circuits :: "(i64 \<times> BakeryCommands) list"
  bb_handles :: QdiscHandleState
  bb_mq_created :: bool

definition remember :: "BakeryCommands \<Rightarrow> batch_build \<Rightarrow> batch_build" where
  "remember command b = (case command of
       AddSite params \<Rightarrow> b\<lparr>bb_sites := AList.update (site_hash params) command (bb_sites b)\<rparr>
     | AddCircuit params \<Rightarrow> b\<lparr>bb_circuits := AList.update (circuit_hash params) command (bb_circuits b)\<rparr>
     | _ \<Rightarrow> b)"

definition build_step ::
  "Config \<Rightarrow> MqDeviceLayout \<Rightarrow> reservations \<Rightarrow> (string \<times> u16 list) list \<Rightarrow> BakeryCommands
    \<Rightarrow> batch_build \<Rightarrow> batch_build option" where
  "build_step config mq_layout extra preserved command b =
     Option.bind (with_assigned_qdisc_handles_reserved command config mq_layout (bb_handles b) extra)
       (\<lambda>(command, handles).
         let b = remember command (b\<lparr>bb_handles := handles\<rparr>) in
         map_option (\<lambda>(result, mq_created).
           b\<lparr>bb_commands := bb_commands b
               @ filter (\<lambda>argv. \<not> root_infra_qdisc_command argv preserved)
                   (map (\<lambda>argv. idempotent_full_reload_command argv preserved) (value_or result [])),
             bb_mq_created := mq_created\<rparr>)
           (to_commands command config Builder (bb_mq_created b)))"

fun build_batch ::
  "Config \<Rightarrow> MqDeviceLayout \<Rightarrow> reservations \<Rightarrow> (string \<times> u16 list) list \<Rightarrow> BakeryCommands list
    \<Rightarrow> batch_build \<Rightarrow> batch_build option" where
  "build_batch config mq_layout extra preserved [] b = Some b"
| "build_batch config mq_layout extra preserved (command # batch) b =
     Option.bind (build_step config mq_layout extra preserved command b)
       (build_batch config mq_layout extra preserved batch)"

definition FULL_RELOAD_TC_CHUNK_SIZE :: nat where
  "FULL_RELOAD_TC_CHUNK_SIZE = 2500"

definition process_batch ::
  "'k host \<Rightarrow> string \<Rightarrow> BakeryCommands list \<Rightarrow> Config \<Rightarrow> batch_build \<Rightarrow> MqDeviceLayout \<Rightarrow> reservations
    \<Rightarrow> (string \<times> u16 list) list \<Rightarrow> 'k world \<Rightarrow> (batch_build \<times> ExecuteResult \<times> 'k world) option" where
  "process_batch host debug_path batch config b mq_layout extra preserved w =
     map_option (\<lambda>b.
       let (_, w) = write_command_file host debug_path (bb_commands b) w;
           (_, _, _, estimated) = count_tc_command_types_and_estimate_qdisc_memory (bb_commands b);
           (snapshot, k) = read_memory_snapshot host (kernel w);
           required = saturating_add
             (case snapshot of
                Inr snapshot \<Rightarrow> bakery_memory_guard_min_available_bytes (total_bytes snapshot)
              | Inl _ \<Rightarrow> BAKERY_MEMORY_GUARD_MIN_AVAILABLE_BYTES) estimated;
           (result, w) = execute_in_memory_chunked host (bb_commands b) ''processing batch''
             FULL_RELOAD_TC_CHUNK_SIZE (Some required) (w\<lparr>kernel := k\<rparr>)
       in (b, result, w)) (build_batch config mq_layout extra preserved batch b)"

end
