(* ===== verification/Tc_Tree.thy ===== *)
theory Tc_Tree
  imports Full_Reload Reload_Run
begin

text \<open>
  The order the \<open>tc\<close> commands have to keep, as a step relation on the tree of an interface, and the
  commands of \<open>lqos_bakery/src/commands.rs\<close> against it: a class or queue is created below something
  that exists, \<open>add\<close> never meets an object of its own name, a queue handle has one owner, and a class
  is deleted after its queue.
\<close>

section \<open>Handles\<close>

abbreviation handle_of :: "u16 \<Rightarrow> u16 \<Rightarrow> TcHandle" where
  "handle_of \<equiv> tc_handle_from_major_minor"

lemma get_major_minor_handle_of [simp]: "get_major_minor (handle_of major minor) = (major, minor)"
proof -
  have M: "bit major n \<Longrightarrow> n < 16" and N: "bit minor n \<Longrightarrow> n < 16" for n
    using bit_imp_le_length [of major n] bit_imp_le_length [of minor n] by simp_all
  have low: "h AND 0xFFFF = take_bit 16 h" for h :: u32
    by (simp add: take_bit_eq_mask mask_eq_exp_minus_1)
  show ?thesis
    by (auto simp: get_major_minor_def tc_handle_from_major_minor_def low bit_simps intro!: bit_eqI
        dest: M N)
qed

lemma handle_of_eq [simp]: "handle_of a b = handle_of c d \<longleftrightarrow> a = c \<and> b = d"
  by (metis get_major_minor_handle_of prod.inject)

lemma major_of_handle_of [simp]: "major_of (handle_of a b) = a"
  by (simp add: major_of_def)

lemma handle_of_parts: "get_major_minor h = (major, minor) \<Longrightarrow> h = handle_of major minor"
  using join_major_minor by (simp add: tc_handle_from_major_minor_def)

text \<open>A text of two hexadecimal parts is the handle of their values.\<close>

lemma from_string_colon:
  assumes graph: "\<forall>c \<in> set (s @ t). 32 < (of_char c :: nat) \<and> (of_char c :: nat) < 128 \<and> c \<noteq> CHR '':''"
    and parts: "read_hex_string s = Inr (ucast (major :: u16))" "read_hex_string t = Inr (ucast (minor :: u16))"
  shows "from_string (s @ '':'' @ t) = Inr (handle_of major minor)"
proof -
  have no: "CHR '':'' \<notin> set s" "CHR '':'' \<notin> set t" using graph by fastforce+
  have "\<forall>c \<in> set (s @ '':'' @ t). 32 < (of_char c :: nat) \<and> (of_char c :: nat) < 128"
    using graph by (simp add: ball_Un)
  then have tr: "trim (s @ '':'' @ t) = s @ '':'' @ t" by (rule trim_graph)
  have sp: "split_on (CHR '':'') (s @ '':'' @ t) = [s, t]"
    using split_on_other [OF no(1)] split_on_none [OF no(2)] by simp
  have colon: "CHR '':'' \<in> set (s @ '':'' @ t)" by simp
  moreover have "CHR '':'' \<notin> set ''root''" "CHR '':'' \<notin> set ''none''" by simp_all
  ultimately have other: "s @ '':'' @ t \<noteq> ''root''" "s @ '':'' @ t \<noteq> ''none''" by (metis (no_types))+
  show ?thesis
    using colon other majors_in_range
    by (simp add: from_string_def tr Let_def sp parts tc_handle_from_major_minor_def del: push_bit_of_1 append.simps)
qed

lemma hex_graph: "c \<in> set (hex_string n) \<Longrightarrow> 32 < (of_char c :: nat) \<and> (of_char c :: nat) < 128 \<and> c \<noteq> CHR '':''"
  using hex_string_facts [of n] hexdigit_graph hexdigit_other by (auto simp: list_all_iff)

lemma hex0x_graph: "c \<in> set (hex0x n) \<Longrightarrow> 32 < (of_char c :: nat) \<and> (of_char c :: nat) < 128 \<and> c \<noteq> CHR '':''"
  using hex_graph by (auto simp: hex0x_def)

lemma read_hex0x: "read_hex_string (hex0x (unat (w :: u16))) = Inr (ucast w)"
proof -
  have "(word_of_nat (unat w) :: u32) = ucast w" by (simp add: unsigned_ucast_eq word_unat_eq_iff unsigned_of_nat)
  then show ?thesis using read_hex_string_digits(2) [OF unat_u16_less_u32 [of w]] by (simp add: hex0x_def)
qed

lemma read_hex_literals:
  "read_hex_string ''7FFF'' = Inr (ucast (0x7FFF :: u16))" "read_hex_string ''1'' = Inr (ucast (1 :: u16))"
  "read_hex_string ''2'' = Inr (ucast (2 :: u16))" "read_hex_string [] = Inr (ucast (0 :: u16))"
  by code_simp+

lemma from_string_texts:
  "from_string (''7FFF:'' @ hex0x (unat m)) = Inr (handle_of 0x7FFF m)"
  "from_string (hex0x (unat m) @ '':'') = Inr (handle_of m 0)"
  "from_string (hex0x (unat m) @ '':1'') = Inr (handle_of m 1)"
  "from_string (hex0x (unat m) @ '':2'') = Inr (handle_of m 2)"
  "from_string (class_text m n) = Inr (handle_of m n)"
  using from_string_colon [of "''7FFF''" "hex0x (unat m)" "0x7FFF" m]
    from_string_colon [of "hex0x (unat m)" "[]" m 0] from_string_colon [of "hex0x (unat m)" "''1''" m 1]
    from_string_colon [of "hex0x (unat m)" "''2''" m 2]
    from_string_colon [of "hex0x (unat m)" "hex0x (unat n)" m n]
  by (auto simp: read_hex0x read_hex_literals class_text_def dest: hex0x_graph)

section \<open>The order of commands\<close>

datatype tc_object = RootMq | ClassOf TcHandle | QdiscAt TcHandle "TcHandle option"

type_synonym tc_tree = "(string \<times> tc_object) set"

definition handle_in_use :: "string \<Rightarrow> TcHandle \<Rightarrow> tc_tree \<Rightarrow> bool" where
  "handle_in_use dev h t \<longleftrightarrow> (\<exists>p. (dev, QdiscAt p (Some h)) \<in> t)"

definition attached :: "string \<Rightarrow> TcHandle \<Rightarrow> tc_tree \<Rightarrow> bool" where
  "attached dev p t \<longleftrightarrow> (\<exists>h. (dev, QdiscAt p h) \<in> t)"

text \<open>What something can be created below: a class, a queue by its handle, a slot of the root.\<close>

definition can_host :: "string \<Rightarrow> TcHandle \<Rightarrow> tc_tree \<Rightarrow> bool" where
  "can_host dev p t \<longleftrightarrow> (dev, ClassOf p) \<in> t \<or> handle_in_use dev p t
     \<or> major_of p = ROOT_MQ_MAJOR \<and> (dev, RootMq) \<in> t"

definition detach :: "string \<Rightarrow> TcHandle \<Rightarrow> tc_tree \<Rightarrow> tc_tree" where
  "detach dev p t = {x \<in> t. \<forall>h. x \<noteq> (dev, QdiscAt p h)}"

text \<open>A command as it is read: its object, its verb and the names after \<open>dev\<close>, \<open>parent\<close> and so on.\<close>

definition reads :: "argv \<Rightarrow> string \<Rightarrow> string \<Rightarrow> string \<Rightarrow> bool" where
  "reads argv object verb dev \<longleftrightarrow> (\<exists>rest. argv = object # verb # rest) \<and> find_arg_value argv ''dev'' = Some dev"

inductive tc_step :: "tc_tree \<Rightarrow> argv \<Rightarrow> tc_tree \<Rightarrow> bool" where
  root_add: "argv = root_mq_add_command dev \<Longrightarrow> (dev, RootMq) \<notin> t
    \<Longrightarrow> tc_step t argv (insert (dev, RootMq) t)"
| class_add: "reads argv ''class'' ''add'' dev \<Longrightarrow> command_handle_after argv ''parent'' = Some p
    \<Longrightarrow> command_handle_after argv ''classid'' = Some c \<Longrightarrow> can_host dev p t \<Longrightarrow> (dev, ClassOf c) \<notin> t
    \<Longrightarrow> tc_step t argv (insert (dev, ClassOf c) t)"
| class_replace: "reads argv ''class'' ''replace'' dev \<Longrightarrow> command_handle_after argv ''parent'' = Some p
    \<Longrightarrow> command_handle_after argv ''classid'' = Some c \<Longrightarrow> can_host dev p t
    \<Longrightarrow> tc_step t argv (insert (dev, ClassOf c) t)"
| class_del: "reads argv ''class'' ''del'' dev \<Longrightarrow> command_handle_after argv ''classid'' = Some c
    \<Longrightarrow> (dev, ClassOf c) \<in> t \<Longrightarrow> \<not> attached dev c t \<Longrightarrow> tc_step t argv (t - {(dev, ClassOf c)})"
| qdisc_add: "reads argv ''qdisc'' ''add'' dev \<Longrightarrow> command_handle_after argv ''parent'' = Some p
    \<Longrightarrow> command_handle_after argv ''handle'' = Some h \<Longrightarrow> can_host dev p t \<Longrightarrow> \<not> attached dev p t
    \<Longrightarrow> \<not> handle_in_use dev h t \<Longrightarrow> tc_step t argv (insert (dev, QdiscAt p (Some h)) t)"
| qdisc_replace: "reads argv ''qdisc'' ''replace'' dev \<Longrightarrow> command_handle_after argv ''parent'' = Some p
    \<Longrightarrow> command_handle_after argv ''handle'' = Some h \<Longrightarrow> can_host dev p t
    \<Longrightarrow> \<not> handle_in_use dev h (detach dev p t)
    \<Longrightarrow> tc_step t argv (insert (dev, QdiscAt p (Some h)) (detach dev p t))"
| qdisc_del: "reads argv ''qdisc'' ''del'' dev \<Longrightarrow> command_handle_after argv ''parent'' = Some p
    \<Longrightarrow> attached dev p t \<Longrightarrow> tc_step t argv (detach dev p t)"

fun tc_run :: "tc_tree \<Rightarrow> argv list \<Rightarrow> tc_tree \<Rightarrow> bool" where
  "tc_run t [] u \<longleftrightarrow> u = t"
| "tc_run t (argv # rest) u \<longleftrightarrow> (\<exists>v. tc_step t argv v \<and> tc_run v rest u)"

lemma tc_run_append: "tc_run t (xs @ ys) v \<longleftrightarrow> (\<exists>u. tc_run t xs u \<and> tc_run u ys v)"
  by (induction xs arbitrary: t) auto

section \<open>How the commands are read\<close>

definition plain_name :: "string \<Rightarrow> bool" where
  "plain_name name \<longleftrightarrow> name \<notin> {''parent'', ''classid'', ''handle''}"

lemma hex0x_not_word: "hex0x n @ t \<noteq> ''classid''" "hex0x n @ t \<noteq> ''handle''" "hex0x n @ t \<noteq> ''parent''"
  by (simp_all add: hex0x_def)

lemma texts_not_words:
  "class_text m n \<noteq> ''classid''" "class_text m n \<noteq> ''handle''" "as_tc_string h \<noteq> ''classid''"
  "as_tc_string h \<noteq> ''handle''"
  by (simp_all add: class_text_def hex0x_not_word as_tc_string_def split: prod.splits)

lemma ok_Inr [simp]: "ok (Inr x) = Some x"
  by (simp add: ok_def)

lemma from_as_tc_string [simp]: "from_string (as_tc_string h) = Inr h"
proof (cases "get_major_minor h")
  case (Pair major minor)
  show ?thesis
    using from_string_parts [OF Pair, of "''0x''" "[]" "[]"]
      from_string_parts [OF Pair, of "''0x''" "''0x''" "hex_string (unat minor)"]
    by (simp add: as_tc_string_def Pair)
qed

lemma class_replace_reads:
  assumes "plain_name dev"
  shows "reads (class_replace dev parent (class_text m n) lo hi bw) ''class'' ''replace'' dev"
    "command_handle_after (class_replace dev parent (class_text m n) lo hi bw) ''parent'' = Some parent"
    "command_handle_after (class_replace dev parent (class_text m n) lo hi bw) ''classid'' = Some (handle_of m n)"
  using assms texts_not_words(3) [of parent]
  by (simp_all add: class_replace_def reads_def command_handle_after_def plain_name_def from_string_texts)

lemma leaf_replace_reads:
  assumes "plain_name dev"
  shows "reads (leaf_replace dev (class_text m n) (Some h) tokens) ''qdisc'' ''replace'' dev"
    "command_handle_after (leaf_replace dev (class_text m n) (Some h) tokens) ''parent'' = Some (handle_of m n)"
    "command_handle_after (leaf_replace dev (class_text m n) (Some h) tokens) ''handle'' = Some (handle_of h 0)"
  using assms texts_not_words(2) [of m n]
  by (simp_all add: leaf_replace_def reads_def command_handle_after_def plain_name_def from_string_texts)

lemma del_reads:
  assumes "plain_name dev"
  shows "reads (qdisc_del dev (class_text m n)) ''qdisc'' ''del'' dev"
    "command_handle_after (qdisc_del dev (class_text m n)) ''parent'' = Some (handle_of m n)"
    "reads (class_del dev parent minor) ''class'' ''del'' dev"
    "command_handle_after (class_del dev parent minor) ''classid'' = Some (handle_of (major_of parent) minor)"
  using assms texts_not_words(3) [of parent]
  by (simp_all add: qdisc_del_def class_del_def reads_def command_handle_after_def plain_name_def from_string_texts
      major_of_def)

section \<open>A circuit built and removed\<close>

text \<open>The objects of one direction: its class, and its queue unless the override is none.\<close>

definition direction_objects :: "string \<Rightarrow> TcHandle \<Rightarrow> u16 \<Rightarrow> bool \<Rightarrow> tc_tree" where
  "direction_objects dev c h leaf =
     insert (dev, ClassOf c) (if leaf then {(dev, QdiscAt c (Some (handle_of h 0)))} else {})"

lemma add_direction:
  assumes "plain_name dev" "can_host dev parent t" "\<not> attached dev (handle_of m n) t"
    "\<not> handle_in_use dev (handle_of h 0) t"
  shows "tc_run t (class_replace dev parent (class_text m n) lo hi bw
      # (if leaf then [leaf_replace dev (class_text m n) (Some h) tokens] else []))
    (t \<union> direction_objects dev (handle_of m n) h leaf)"
proof -
  let ?t = "insert (dev, ClassOf (handle_of m n)) t"
  have first: "tc_step t (class_replace dev parent (class_text m n) lo hi bw) ?t"
    using class_replace_reads [OF assms(1)] assms(2) by (rule tc_step.class_replace)
  have det: "detach dev (handle_of m n) ?t = ?t" using assms(3) by (auto simp: detach_def attached_def)
  have "can_host dev (handle_of m n) ?t" by (simp add: can_host_def)
  moreover have "\<not> handle_in_use dev (handle_of h 0) ?t" using assms(4) by (simp add: handle_in_use_def)
  ultimately have second: "tc_step ?t (leaf_replace dev (class_text m n) (Some h) tokens)
      (insert (dev, QdiscAt (handle_of m n) (Some (handle_of h 0))) ?t)"
    using tc_step.qdisc_replace [OF leaf_replace_reads [OF assms(1)], of m n ?t h tokens] by (simp add: det)
  have union: "t \<union> direction_objects dev (handle_of m n) h leaf =
      (if leaf then insert (dev, QdiscAt (handle_of m n) (Some (handle_of h 0))) ?t else ?t)"
    by (auto simp: direction_objects_def)
  show ?thesis unfolding union using first second by (cases leaf) auto
qed

lemma delete_leaf:
  assumes "plain_name dev" "\<not> attached dev (handle_of m n) t"
  shows "tc_run (t \<union> direction_objects dev (handle_of m n) h leaf)
    (if leaf then [qdisc_del dev (class_text m n)] else []) (insert (dev, ClassOf (handle_of m n)) t)"
proof (cases leaf)
  case True
  let ?t = "t \<union> direction_objects dev (handle_of m n) h True"
  have "tc_step ?t (qdisc_del dev (class_text m n)) (detach dev (handle_of m n) ?t)"
    using del_reads(1,2) [OF assms(1)]
    by (rule tc_step.qdisc_del) (auto simp: attached_def direction_objects_def)
  moreover have "detach dev (handle_of m n) ?t = insert (dev, ClassOf (handle_of m n)) t"
    using assms(2) by (auto simp: detach_def attached_def direction_objects_def)
  ultimately show ?thesis using True by auto
qed (simp add: direction_objects_def)

lemma delete_class:
  assumes "plain_name dev" "(dev, ClassOf (handle_of (major_of parent) minor)) \<notin> t"
    "\<not> attached dev (handle_of (major_of parent) minor) t"
  shows "tc_run (insert (dev, ClassOf (handle_of (major_of parent) minor)) t) [class_del dev parent minor] t"
proof -
  let ?c = "handle_of (major_of parent) minor"
  have "tc_step (insert (dev, ClassOf ?c) t) (class_del dev parent minor) (insert (dev, ClassOf ?c) t - {(dev, ClassOf ?c)})"
    using del_reads(3,4) [OF assms(1)]
    by (rule tc_step.class_del) (use assms(3) in \<open>auto simp: attached_def\<close>)
  moreover have "insert (dev, ClassOf ?c) t - {(dev, ClassOf ?c)} = t" using assms(2) by auto
  ultimately show ?thesis by auto
qed

text \<open>Room for a circuit: both parents exist, its classes and queue handles do not.\<close>

definition direction_free :: "string \<Rightarrow> TcHandle \<Rightarrow> TcHandle \<Rightarrow> u16 \<Rightarrow> tc_tree \<Rightarrow> bool" where
  "direction_free dev parent c h t \<longleftrightarrow> plain_name dev \<and> can_host dev parent t
     \<and> (dev, ClassOf c) \<notin> t \<and> \<not> attached dev c t \<and> \<not> handle_in_use dev (handle_of h 0) t"

lemma direction_free_more:
  assumes "direction_free dev parent c h t" "(dev, c) \<noteq> (dev', c')" "(dev, h) \<noteq> (dev', h')"
  shows "direction_free dev parent c h (t \<union> direction_objects dev' c' h' leaf)"
  using assms by (auto simp: direction_free_def direction_objects_def can_host_def attached_def handle_in_use_def)

lemma two_directions:
  assumes d: "direction_free isp dp (handle_of dm n) dh t" and u: "direction_free internet pu (handle_of um n) uh t"
    and majors: "major_of dp = dm" "major_of pu = um"
    and other: "(internet, um) \<noteq> (isp, dm)" "(internet, uh) \<noteq> (isp, dh)"
  shows "\<exists>v. tc_run t
        ((class_replace isp dp (class_text dm n) dlo dhi dbw
          # (if dl then [leaf_replace isp (class_text dm n) (Some dh) dt] else []))
         @ (class_replace internet pu (class_text um n) ulo uhi ubw
          # (if ul then [leaf_replace internet (class_text um n) (Some uh) ut] else []))) v
      \<and> tc_run v ((if ul then [qdisc_del internet (class_text um n)] else [])
         @ (if dl then [qdisc_del isp (class_text dm n)] else [])
         @ [class_del isp dp n, class_del internet pu n]) t"
proof -
  let ?D = "direction_objects isp (handle_of dm n) dh dl" and ?U = "direction_objects internet (handle_of um n) uh ul"
  let ?du = "insert (internet, ClassOf (handle_of um n)) t"
  have u': "direction_free internet pu (handle_of um n) uh (t \<union> ?D)"
    using u other by (intro direction_free_more) auto
  have adds: "tc_run t (class_replace isp dp (class_text dm n) dlo dhi dbw
          # (if dl then [leaf_replace isp (class_text dm n) (Some dh) dt] else [])) (t \<union> ?D)"
    "tc_run (t \<union> ?D) (class_replace internet pu (class_text um n) ulo uhi ubw
          # (if ul then [leaf_replace internet (class_text um n) (Some uh) ut] else [])) (t \<union> ?D \<union> ?U)"
    using d u' by (intro add_direction; simp add: direction_free_def)+
  have "insert (internet, ClassOf (handle_of um n)) (t \<union> ?D) = ?du \<union> ?D" by auto
  then have up_leaf: "tc_run (t \<union> ?D \<union> ?U) (if ul then [qdisc_del internet (class_text um n)] else []) (?du \<union> ?D)"
    using delete_leaf [of internet um n "t \<union> ?D" uh ul] u' by (simp add: direction_free_def)
  have na: "\<not> attached isp (handle_of dm n) ?du" "(isp, ClassOf (handle_of dm n)) \<notin> ?du"
    using d other by (auto simp: direction_free_def attached_def)
  have down_leaf: "tc_run (?du \<union> ?D) (if dl then [qdisc_del isp (class_text dm n)] else [])
      (insert (isp, ClassOf (handle_of dm n)) ?du)"
    using d na by (intro delete_leaf) (simp_all add: direction_free_def)
  have "tc_run (insert (isp, ClassOf (handle_of dm n)) ?du) [class_del isp dp n] ?du"
    using delete_class [of isp dp n ?du] d na majors by (simp add: direction_free_def)
  moreover have "tc_run ?du [class_del internet pu n] t"
    using delete_class [of internet pu n t] u majors by (simp add: direction_free_def)
  ultimately have classes: "tc_run (insert (isp, ClassOf (handle_of dm n)) ?du)
      [class_del isp dp n, class_del internet pu n] t" by auto
  show ?thesis
    using adds up_leaf down_leaf classes unfolding tc_run_append by blast
qed

lemma those_Some [simp]: "those (map Some xs) = Some xs"
  by (induction xs) simp_all

lemma those_Some_append [simp]: "those (map Some xs @ ys) = map_option ((@) xs) (those ys)"
  by (induction xs) (simp_all add: option.map_id0 [unfolded id_def] option.map_comp comp_def map_option_idI)

lemma on_dev_Some [simp]: "on_dev (Some dev) f = Some (f dev)"
  by (simp add: on_dev_def)

text \<open>
  The circuit fits: its parents, classes and handles, with the majors of its parents. On a single
  interface the upload direction has no queue of its own and \<open>uh\<close> is any free handle.
\<close>

definition circuit_fits :: "Config \<Rightarrow> CircuitCommand \<Rightarrow> string \<Rightarrow> string \<Rightarrow> u16 \<Rightarrow> u16 \<Rightarrow> tc_tree \<Rightarrow> bool" where
  "circuit_fits config p isp internet dh uh t \<longleftrightarrow>
     isp_interface config = Some isp \<and> internet_interface config = Some internet
     \<and> circuit_down_qdisc_handle p = Some dh
     \<and> (on_a_stick_mode config \<or> circuit_up_qdisc_handle p = Some uh)
     \<and> major_of (circuit_parent_class_id p) = circuit_class_major p
     \<and> major_of (circuit_up_parent_class_id p) = circuit_up_class_major p
     \<and> (internet, circuit_up_class_major p) \<noteq> (isp, circuit_class_major p) \<and> (internet, uh) \<noteq> (isp, dh)
     \<and> direction_free isp (circuit_parent_class_id p)
         (handle_of (circuit_class_major p) (circuit_class_minor p)) dh t
     \<and> direction_free internet (circuit_up_parent_class_id p)
         (handle_of (circuit_up_class_major p) (circuit_class_minor p)) uh t"

definition demo_config :: Config where
  "demo_config = \<lparr>cfg_bridge = Some \<lparr>to_internet = ''eth0'', to_network = ''eth1''\<rparr>, cfg_single_interface = None,
     cfg_queues = \<lparr>default_sqm = ''cake diffserv4'', queue_mode = Shape, uplink_bandwidth_mbps = 1000,
       downlink_bandwidth_mbps = 1000, lazy_queues = None, lazy_expire_seconds = None, fast_queues_fq_codel = None\<rparr>,
     cfg_stormguard = None\<rparr>"

definition demo_circuit :: CircuitCommand where
  "demo_circuit = \<lparr>circuit_hash = 42, circuit_name = None, circuit_site_name = None,
     circuit_parent_class_id = handle_of 1 0x20, circuit_up_parent_class_id = handle_of 2 0x20,
     circuit_class_minor = 0x21, circuit_download_bandwidth_min = Fin 10, circuit_upload_bandwidth_min = Fin 10,
     circuit_download_bandwidth_max = Fin 100, circuit_upload_bandwidth_max = Fin 100, circuit_class_major = 1,
     circuit_up_class_major = 2, circuit_down_qdisc_handle = Some 0x9000, circuit_up_qdisc_handle = Some 0x9001,
     circuit_ip_addresses = ''192.0.2.42/32'', circuit_sqm_override = None\<rparr>"



section \<open>The multi-queue tree\<close>

text \<open>What one queue of the root consists of, and a tree of roots and such queues.\<close>

definition queue_objects :: "u16 \<Rightarrow> tc_object set" where
  "queue_objects m =
     {QdiscAt (handle_of ROOT_MQ_MAJOR m) (Some (handle_of m 0)), ClassOf (handle_of m 1), ClassOf (handle_of m 2),
      QdiscAt (handle_of m 1) (Some (handle_of (infra_qdisc_handle m PrimarySlot) 0)),
      QdiscAt (handle_of m 2) (Some (handle_of (infra_qdisc_handle m DefaultSlot) 0))}"

definition mq_tree :: "string set \<Rightarrow> (string \<times> u16) set \<Rightarrow> tc_tree" where
  "mq_tree roots queues = {(dev, RootMq) |dev. dev \<in> roots}
     \<union> {(dev, x) |dev x. \<exists>m. (dev, m) \<in> queues \<and> x \<in> queue_objects m}"

lemma mq_tree_iff: "(dev, x) \<in> mq_tree roots queues \<longleftrightarrow>
    x = RootMq \<and> dev \<in> roots \<or> (\<exists>m. (dev, m) \<in> queues \<and> x \<in> queue_objects m)"
  by (auto simp: mq_tree_def)

lemma attached_insert [simp]:
  "attached d p (insert (d', x) t) \<longleftrightarrow> d = d' \<and> (\<exists>h. x = QdiscAt p h) \<or> attached d p t"
  by (auto simp: attached_def)

lemma handle_in_use_insert [simp]:
  "handle_in_use d h (insert (d', x) t) \<longleftrightarrow> d = d' \<and> (\<exists>p. x = QdiscAt p (Some h)) \<or> handle_in_use d h t"
  by (auto simp: handle_in_use_def)

lemma mq_tree_attached: "attached dev p (mq_tree roots queues) \<longleftrightarrow>
    (\<exists>m. (dev, m) \<in> queues \<and> p \<in> {handle_of ROOT_MQ_MAJOR m, handle_of m 1, handle_of m 2})"
  by (auto simp: attached_def mq_tree_iff queue_objects_def)

lemma mq_tree_handle: "handle_in_use dev h (mq_tree roots queues) \<longleftrightarrow>
    (\<exists>m. (dev, m) \<in> queues \<and> h \<in> {handle_of m 0, handle_of (infra_qdisc_handle m PrimarySlot) 0,
       handle_of (infra_qdisc_handle m DefaultSlot) 0})"
  by (auto simp: handle_in_use_def mq_tree_iff queue_objects_def)

lemma mq_tree_class: "(dev, ClassOf c) \<in> mq_tree roots queues \<longleftrightarrow>
    (\<exists>m. (dev, m) \<in> queues \<and> c \<in> {handle_of m 1, handle_of m 2})"
  by (auto simp: mq_tree_iff queue_objects_def)

definition queue_major :: "u16 \<Rightarrow> bool" where
  "queue_major m \<longleftrightarrow> 0 < unat m \<and> unat m < 0x2000"

lemma infra_handle_facts:
  assumes "queue_major m" "queue_major m'"
  shows "infra_qdisc_handle m slot \<noteq> m'" "infra_qdisc_handle m slot = infra_qdisc_handle m' slot' \<longleftrightarrow> m = m' \<and> slot = slot'"
    "m \<noteq> ROOT_MQ_MAJOR"
proof -
  show "infra_qdisc_handle m slot \<noteq> m'" "m \<noteq> ROOT_MQ_MAJOR"
    using assms unat_infra_qdisc_handle [of m slot] by (auto simp: queue_major_def)
  show "infra_qdisc_handle m slot = infra_qdisc_handle m' slot' \<longleftrightarrow> m = m' \<and> slot = slot'"
    using assms by (intro infra_qdisc_handle_inject) (auto simp: queue_major_def word_le_nat_alt)
qed

definition queue_argvs :: "string \<Rightarrow> u64 \<Rightarrow> u64 \<Rightarrow> string list \<Rightarrow> u16 \<Rightarrow> argv list" where
  "queue_argvs dev bw r sqm m = map the (mq_queue_commands (Some dev) (unat m) bw r sqm)"

lemma mq_queue_commands_argvs:
  "mq_queue_commands (Some dev) (unat m) bw r sqm = map Some (queue_argvs dev bw r sqm m)"
  by (simp add: queue_argvs_def mq_queue_commands_def Let_def)

lemma queue_tree_add:
  assumes dev: "plain_name dev" "dev \<in> roots" and m: "queue_major m" "(dev, m) \<notin> queues"
    and others: "\<forall>(d, n) \<in> queues. queue_major n"
  shows "tc_run (mq_tree roots queues) (queue_argvs dev bw r sqm m) (mq_tree roots (insert (dev, m) queues))"
proof -
  let ?t0 = "mq_tree roots queues"
  let ?q = "handle_of ROOT_MQ_MAJOR m"
  let ?h = "\<lambda>slot. handle_of (infra_qdisc_handle m slot) 0"
  let ?t1 = "insert (dev, QdiscAt ?q (Some (handle_of m 0))) ?t0"
  let ?t2 = "insert (dev, ClassOf (handle_of m 1)) ?t1"
  let ?t3 = "insert (dev, QdiscAt (handle_of m 1) (Some (?h PrimarySlot))) ?t2"
  let ?t4 = "insert (dev, ClassOf (handle_of m 2)) ?t3"
  let ?t5 = "insert (dev, QdiscAt (handle_of m 2) (Some (?h DefaultSlot))) ?t4"
  obtain c1 c2 c3 c4 c5 where cs: "queue_argvs dev bw r sqm m = [c1, c2, c3, c4, c5]"
    by (simp add: queue_argvs_def mq_queue_commands_def Let_def)
  have read: "reads c1 ''qdisc'' ''add'' dev" "command_handle_after c1 ''parent'' = Some ?q"
    "command_handle_after c1 ''handle'' = Some (handle_of m 0)"
    "reads c2 ''class'' ''add'' dev" "command_handle_after c2 ''parent'' = Some (handle_of m 0)"
    "command_handle_after c2 ''classid'' = Some (handle_of m 1)"
    "reads c3 ''qdisc'' ''add'' dev" "command_handle_after c3 ''parent'' = Some (handle_of m 1)"
    "command_handle_after c3 ''handle'' = Some (?h PrimarySlot)"
    "reads c4 ''class'' ''add'' dev" "command_handle_after c4 ''parent'' = Some (handle_of m 1)"
    "command_handle_after c4 ''classid'' = Some (handle_of m 2)"
    "reads c5 ''qdisc'' ''add'' dev" "command_handle_after c5 ''parent'' = Some (handle_of m 2)"
    "command_handle_after c5 ''handle'' = Some (?h DefaultSlot)"
    using cs dev(1)
    by (auto simp: queue_argvs_def mq_queue_commands_def Let_def reads_def command_handle_after_def plain_name_def
        from_string_texts from_string_texts(1) [simplified] hex0x_not_word)
  have sep: "n \<noteq> m \<and> n \<noteq> ROOT_MQ_MAJOR \<and> infra_qdisc_handle n slot' \<noteq> m \<and> infra_qdisc_handle m slot \<noteq> n
      \<and> infra_qdisc_handle m slot \<noteq> infra_qdisc_handle n slot'" if "(dev, n) \<in> queues" for n slot slot'
  proof -
    have n: "queue_major n" "n \<noteq> m" using that m(2) others by auto
    then show ?thesis using infra_handle_facts [OF m(1) n(1)] infra_handle_facts [OF n(1) m(1)] by auto
  qed
  note own = infra_handle_facts [OF m(1) m(1)] infra_handle_facts(1) [OF m(1) m(1), THEN not_sym]
  have free: "\<not> attached dev ?q ?t0" "\<not> attached dev (handle_of m 1) ?t0" "\<not> attached dev (handle_of m 2) ?t0"
    "\<not> handle_in_use dev (handle_of m 0) ?t0" "\<not> handle_in_use dev (?h slot) ?t0"
    "(dev, ClassOf (handle_of m 1)) \<notin> ?t0" "(dev, ClassOf (handle_of m 2)) \<notin> ?t0" for slot
    using own(3) unfolding mq_tree_attached mq_tree_handle mq_tree_class insert_iff empty_iff handle_of_eq
    by (metis sep)+
  have "tc_step ?t0 c1 ?t1"
    using read(1-3) by (rule tc_step.qdisc_add) (use dev(2) free in \<open>auto simp: can_host_def mq_tree_iff\<close>)
  moreover have "tc_step ?t1 c2 ?t2"
    using read(4-6) by (rule tc_step.class_add) (use free in \<open>auto simp: can_host_def\<close>)
  moreover have "tc_step ?t2 c3 ?t3"
    using read(7-9) by (rule tc_step.qdisc_add) (use free own in \<open>auto simp: can_host_def\<close>)
  moreover have "tc_step ?t3 c4 ?t4"
    using read(10-12) by (rule tc_step.class_add) (use free in \<open>auto simp: can_host_def\<close>)
  moreover have "tc_step ?t4 c5 ?t5"
    using read(13-15) by (rule tc_step.qdisc_add)
      (use free own in \<open>auto simp: can_host_def\<close>)
  moreover have "?t5 = mq_tree roots (insert (dev, m) queues)"
    by (auto simp: mq_tree_def queue_objects_def)
  ultimately show ?thesis unfolding cs by auto
qed

lemma queues_tree_add:
  assumes "plain_name dev" "dev \<in> roots" "distinct ms" "\<forall>m \<in> set ms. queue_major m \<and> (dev, m) \<notin> queues"
    "\<forall>(d, n) \<in> queues. queue_major n"
  shows "tc_run (mq_tree roots queues) (concat (map (queue_argvs dev bw r sqm) ms))
    (mq_tree roots (queues \<union> {dev} \<times> set ms))"
  using assms
proof (induction ms arbitrary: queues)
  case (Cons m ms)
  have "tc_run (mq_tree roots queues) (queue_argvs dev bw r sqm m) (mq_tree roots (insert (dev, m) queues))"
    using Cons.prems by (intro queue_tree_add) auto
  moreover have "tc_run (mq_tree roots (insert (dev, m) queues)) (concat (map (queue_argvs dev bw r sqm) ms))
      (mq_tree roots (insert (dev, m) queues \<union> {dev} \<times> set ms))"
    using Cons.prems by (intro Cons.IH) auto
  moreover have "insert (dev, m) queues \<union> {dev} \<times> set ms = queues \<union> {dev} \<times> set (m # ms)" by auto
  ultimately show ?case by (auto simp: tc_run_append)
qed simp

text \<open>The majors of an interface's queues.\<close>

definition majors_from :: "nat \<Rightarrow> nat \<Rightarrow> u16 list" where
  "majors_from offset n = map (\<lambda>queue. word_of_nat (queue + offset + 1)) [0..<n]"

lemma unat_queue_major: "k < 0x2000 \<Longrightarrow> unat (word_of_nat k :: u16) = k"
  by (simp add: unsigned_of_nat take_bit_nat_eq_self)

lemma majors_from_facts:
  assumes "n + offset < 0x2000"
  shows "distinct (majors_from offset n)" "m \<in> set (majors_from offset n) \<Longrightarrow> queue_major m"
    "m \<in> set (majors_from offset n) \<longleftrightarrow> offset < unat m \<and> unat m \<le> offset + n"
    "concat (map (\<lambda>queue. mq_queue_commands (Some dev) (queue + offset + 1) bw r sqm) [0..<n])
      = map Some (concat (map (queue_argvs dev bw r sqm) (majors_from offset n)))"
proof -
  have u: "unat (word_of_nat (queue + offset + 1) :: u16) = queue + offset + 1" if "queue < n" for queue
    using that assms by (intro unat_queue_major) simp
  have "inj_on (\<lambda>queue. word_of_nat (queue + offset + 1) :: u16) {..<n}"
  proof (rule inj_onI)
    fix x y
    assume "x \<in> {..<n}" "y \<in> {..<n}" "word_of_nat (x + offset + 1) = (word_of_nat (y + offset + 1) :: u16)"
    then have "x + offset + 1 = y + offset + 1" using u [of x] u [of y] by (metis lessThan_iff)
    then show "x = y" by simp
  qed
  then show "distinct (majors_from offset n)"
    unfolding majors_from_def distinct_map by (simp add: atLeast0LessThan del: of_nat_add of_nat_Suc)
  show iff: "m \<in> set (majors_from offset n) \<longleftrightarrow> offset < unat m \<and> unat m \<le> offset + n"
  proof
    assume "offset < unat m \<and> unat m \<le> offset + n"
    then have "unat m - offset - 1 < n" "(unat m - offset - 1) + offset + 1 = unat m" by auto
    then have "unat m - offset - 1 \<in> set [0..<n]" "word_of_nat ((unat m - offset - 1) + offset + 1) = m" by simp_all
    then show "m \<in> set (majors_from offset n)"
      unfolding majors_from_def set_map image_iff by (intro bexI [of _ "unat m - offset - 1"]) (simp_all only:)
  next
    assume "m \<in> set (majors_from offset n)"
    then obtain queue where "queue < n" "m = word_of_nat (queue + offset + 1)"
      unfolding majors_from_def by (auto simp del: of_nat_add of_nat_Suc)
    then show "offset < unat m \<and> unat m \<le> offset + n" using u [of queue] by simp
  qed
  then show "m \<in> set (majors_from offset n) \<Longrightarrow> queue_major m" using assms by (simp add: queue_major_def)
  have "concat (map (\<lambda>queue. mq_queue_commands (Some dev) (queue + offset + 1) bw r sqm) xs)
      = map Some (concat (map (queue_argvs dev bw r sqm) (map (\<lambda>queue. word_of_nat (queue + offset + 1)) xs)))"
    if "set xs \<subseteq> {..<n}" for xs
    using that
  proof (induction xs)
    case (Cons x xs)
    then show ?case
      using mq_queue_commands_argvs [of dev "word_of_nat (x + offset + 1)" bw r sqm] u [of x]
      by (simp del: of_nat_add of_nat_Suc)
  qed simp
  from this [of "[0..<n]"]
  show "concat (map (\<lambda>queue. mq_queue_commands (Some dev) (queue + offset + 1) bw r sqm) [0..<n])
      = map Some (concat (map (queue_argvs dev bw r sqm) (majors_from offset n)))"
    unfolding majors_from_def by (simp only: set_upt atLeast0LessThan subset_refl)
qed

text \<open>The commands as two halves, one per interface.\<close>

definition root_argvs :: "bool \<Rightarrow> string \<Rightarrow> argv list" where
  "root_argvs missing dev = (if missing then [root_mq_add_command dev] else [])"

lemma mq_setup_argvs:
  assumes "\<not> is_observe (queue_mode (cfg_queues config))" "isp_interface config = Some isp"
    "internet_interface config = Some internet" "queues + offset < 0x2000"
  shows "let r = r2q (max (uplink_bandwidth_mbps (cfg_queues config)) (downlink_bandwidth_mbps (cfg_queues config)))
    in mq_setup config mq_created queues offset = Some (Some
      (root_argvs (\<not> mq_created) isp
       @ concat (map (queue_argvs isp (downlink_bandwidth_mbps (cfg_queues config)) r (sqm_as_vec config))
           (majors_from 0 queues))
       @ root_argvs (\<not> on_a_stick_mode config \<and> \<not> mq_created) internet
       @ concat (map (queue_argvs internet (uplink_bandwidth_mbps (cfg_queues config)) r (sqm_as_vec config))
           (majors_from offset queues))), True)"
proof -
  have z: "queues + 0 < 0x2000" using assms(4) by simp
  note m = majors_from_facts(4) [OF z] majors_from_facts(4) [OF assms(4)]
  show ?thesis
    using assms(1-3) m [simplified] unfolding mq_setup_def Let_def
    by (simp add: root_argvs_def)
qed

lemma root_tree_add:
  assumes "missing \<Longrightarrow> dev \<notin> roots"
  shows "tc_run (mq_tree roots queues) (root_argvs missing dev) (mq_tree (if missing then insert dev roots else roots) queues)"
proof -
  have "tc_step (mq_tree roots queues) (root_mq_add_command dev) (insert (dev, RootMq) (mq_tree roots queues))" if missing
    using assms [OF that] by (intro tc_step.root_add) (auto simp: mq_tree_iff queue_objects_def)
  moreover have "insert (dev, RootMq) (mq_tree roots queues) = mq_tree (insert dev roots) queues"
    by (auto simp: mq_tree_def)
  ultimately show ?thesis by (auto simp: root_argvs_def)
qed

lemma handles_reserved:
  assumes "handle_in_use dev h (mq_tree roots ({isp} \<times> set (majors_from 0 queues) \<union> {internet} \<times> set (majors_from offset queues)))"
  shows "major_of h \<in> set (reserved_handles (MqDeviceLayout_from_setup isp internet queues offset) dev)"
proof -
  obtain m where m: "(dev, m) \<in> {isp} \<times> set (majors_from 0 queues) \<union> {internet} \<times> set (majors_from offset queues)"
    "h \<in> {handle_of m 0, handle_of (infra_qdisc_handle m PrimarySlot) 0, handle_of (infra_qdisc_handle m DefaultSlot) 0}"
    using assms unfolding mq_tree_handle by blast
  from m(2) have h: "major_of h = m
      \<or> major_of h = infra_qdisc_handle m PrimarySlot \<or> major_of h = infra_qdisc_handle m DefaultSlot" by auto
  from m(1) obtain queue where "queue < queues"
    "dev = isp \<and> m = word_of_nat (queue + 1) \<or> dev = internet \<and> m = word_of_nat (queue + offset + 1)"
    by (auto simp: majors_from_def simp del: of_nat_add of_nat_Suc)
  with h show ?thesis unfolding reserved_handles_iff by blast
qed



end
