(* ===== verification/Class_Rates.thy ===== *)
theory Class_Rates
  imports Tc_Commands
begin

text \<open>
  The rates, ceilings and quanta of the classes (\<open>lqos_bakery/src/commands.rs\<close> with
  \<open>queue_math.rs\<close>), as \<open>tc\<close> reads them.
\<close>

text \<open>The end of a class command, read back: rate, ceiling and quantum are usable together.\<close>

definition rates_sound :: "argv \<Rightarrow> bool" where
  "rates_sound argv \<longleftrightarrow> (\<exists>head rate ceil_text prio q v w.
     argv = head @ [''htb'', ''rate'', rate, ''ceil'', ceil_text, ''prio'', prio, ''quantum'', dec_digits q]
     \<and> read_tc_rate rate = Some v \<and> read_tc_rate ceil_text = Some w \<and> 10 \<le> v \<and> v \<le> w \<and> w \<le> 10000000000
     \<and> 1522 \<le> q \<and> q \<le> 60000)"

lemma quantum_bounds:
  assumes "rate \<le> bandwidth" "unat bandwidth < 2 ^ 35"
  shows "\<exists>q. quantum rate (r2q bandwidth) = dec_digits q \<and> 1522 \<le> q \<and> q \<le> 60000"
proof -
  let ?r = "unat (r2q bandwidth)"
  have le: "unat rate \<le> unat bandwidth" using assms(1) by (simp add: word_le_nat_alt)
  then have b: "unat (rate * 125000) = unat rate * 125000" using mbps_bytes(1) [of rate] assms(2) by simp
  have r: "?r = least_divisor (unat bandwidth * 125000)" using assms(2) by (rule r2q_least)
  then have "10 \<le> ?r" by (simp add: least_divisor_def)
  moreover have "unat bandwidth * 125000 \<le> 60000 * ?r"
    using least_divisor_iff [of ?r "unat bandwidth * 125000"] r \<open>10 \<le> ?r\<close> by simp
  ultimately have "unat rate * 125000 < 60001 * ?r" using le by linarith
  then have "unat rate * 125000 div ?r < 60001" by (rule less_mult_imp_div_less)
  then have q: "unat (rate * 125000 div r2q bandwidth) \<le> 60000" using b by (simp add: unat_div_distrib)
  define q where "q = unat (max MIN_QUANTUM (rate * 125000 div r2q bandwidth))"
  have "1522 \<le> q" "q \<le> 60000" using q by (auto simp: q_def max_def MIN_QUANTUM_def word_le_nat_alt not_le)
  then show ?thesis by (auto simp: quantum_def q_def Let_def)
qed

text \<open>A plan the interface can carry: a finite ceiling at or above the guarantee, within the capacity.\<close>

definition rates_within :: "f32 \<Rightarrow> f32 \<Rightarrow> u64 \<Rightarrow> bool" where
  "rates_within lo hi bandwidth \<longleftrightarrow> lo \<le> hi \<and> hi \<noteq> PosInf \<and> u64_of_float hi \<le> bandwidth \<and> unat bandwidth < 2 ^ 35"

fun planned_within :: "Config \<Rightarrow> BakeryCommands \<Rightarrow> bool" where
  "planned_within config (AddSite p) \<longleftrightarrow>
     rates_within (site_download_bandwidth_min p) (site_download_bandwidth_max p)
       (downlink_bandwidth_mbps (cfg_queues config))
     \<and> rates_within (site_upload_bandwidth_min p) (site_upload_bandwidth_max p)
       (uplink_bandwidth_mbps (cfg_queues config))"
| "planned_within config (AddCircuit p) \<longleftrightarrow>
     rates_within (circuit_download_bandwidth_min p) (circuit_download_bandwidth_max p)
       (downlink_bandwidth_mbps (cfg_queues config))
     \<and> rates_within (circuit_upload_bandwidth_min p) (circuit_upload_bandwidth_max p)
       (uplink_bandwidth_mbps (cfg_queues config))"
| "planned_within config _ \<longleftrightarrow> False"

lemma class_replace_sound:
  assumes "rates_within lo hi bandwidth"
  shows "rates_sound (class_replace dev parent classid lo hi bandwidth)"
proof -
  obtain v w where "read_tc_rate (format_rate_for_tc_f32 lo) = Some v" "read_tc_rate (format_rate_for_tc_f32 hi) = Some w"
    "10 \<le> v" "v \<le> w" "w \<le> 10000000000"
    using format_rate_ordered [of lo hi] assms by (auto simp: rates_within_def)
  moreover obtain q where "quantum (u64_of_float hi) (r2q bandwidth) = dec_digits q" "1522 \<le> q" "q \<le> 60000"
    using quantum_bounds [of "u64_of_float hi" bandwidth] assms by (auto simp: rates_within_def)
  ultimately show ?thesis
    unfolding rates_sound_def class_replace_def
    by (intro exI [of _ "[''class'', ''replace'', ''dev'', dev, ''parent'', as_tc_string parent, ''classid'', classid]"]
        exI [of _ "format_rate_for_tc_f32 lo"] exI [of _ "format_rate_for_tc_f32 hi"] exI [of _ "''3''"]) auto
qed

lemma those_member: "those xs = Some ys \<Longrightarrow> y \<in> set ys \<Longrightarrow> Some y \<in> set xs"
  by (induction xs arbitrary: ys) (auto split: option.splits)

lemma on_dev_Some_iff: "Some argv = on_dev dev f \<longleftrightarrow> (\<exists>d. dev = Some d \<and> argv = f d)"
  by (cases dev) (auto simp: on_dev_def)

text \<open>
  C26. Every class a site or a circuit is given, whatever the configuration and the mode, carries
  numbers \<open>tc\<close> can use together: the guaranteed rate is at least 10 kbit and not above the ceiling
  as the two are written (rounded to a tenth of their unit), the ceiling is at most 10 Tbit, and the
  quantum lies between one full frame (1522 bytes) and 60000 bytes. The plan has to fit the interface:
  a finite ceiling, not below the guarantee and within the capacity.
\<close>

theorem class_rates_sound:
  assumes "to_commands command config mode mq_created = Some (Some argvs, mq)" "planned_within config command"
    and "argv \<in> set argvs" "hd argv = ''class''"
  shows "rates_sound argv"
proof (cases command)
  case (AddSite p)
  then show ?thesis
    using assms class_replace_sound
    by (auto simp: to_commands_def add_site_def Let_def on_dev_Some_iff
        split: if_splits prod.splits simp del: those.simps dest!: those_member)
next
  case (AddCircuit p)
  then show ?thesis
    using assms class_replace_sound
    by (auto simp: to_commands_def add_circuit_def Let_def on_dev_Some_iff leaf_replace_def
        split: if_splits prod.splits simp del: those.simps dest!: those_member)
qed (use assms(2) in simp_all)

definition small_config :: Config where
  "small_config = \<lparr>cfg_bridge = None, cfg_single_interface = Some \<lparr>single_name = ''eth0''\<rparr>,
     cfg_queues = \<lparr>default_sqm = ''cake diffserv4'', queue_mode = Shape, uplink_bandwidth_mbps = 1000,
       downlink_bandwidth_mbps = 1000, lazy_queues = None, lazy_expire_seconds = None, fast_queues_fq_codel = None\<rparr>,
     cfg_stormguard = None\<rparr>"

definition small_site :: SiteCommand where
  "small_site = \<lparr>site_hash = 7, site_parent_class_id = 0x10001, site_up_parent_class_id = 0x20001,
     site_class_minor = 0x20, site_download_bandwidth_min = Fin (1 / 2), site_upload_bandwidth_min = Fin 1,
     site_download_bandwidth_max = Fin 100, site_upload_bandwidth_max = Fin 20\<rparr>"

theorem class_rates_sound_witness:
  "\<exists>argvs. to_commands (AddSite small_site) small_config Builder True = Some (Some argvs, True)
    \<and> length argvs = 2 \<and> list_all rates_sound argvs"
proof -
  obtain a b where ab: "to_commands (AddSite small_site) small_config Builder True = Some (Some [a, b], True)"
    "hd a = ''class''" "hd b = ''class''"
    by (cases "get_major_minor (site_parent_class_id small_site)";
        cases "get_major_minor (site_up_parent_class_id small_site)")
       (simp add: to_commands_def add_site_def small_config_def is_observe_def isp_interface_def
        internet_interface_def on_dev_def Let_def class_replace_def)
  have "planned_within small_config (AddSite small_site)"
    by (simp add: small_config_def small_site_def rates_within_def u64_of_float_def word_le_nat_alt)
  then have "rates_sound a" "rates_sound b"
    using class_rates_sound [OF ab(1)] ab(2,3) by simp_all
  with ab(1) show ?thesis by simp
qed

text \<open>
  The default class of a queue has no such guarantee: for a capacity of 4 Mbps its guaranteed rate,
  a quarter of the capacity less one, is written as zero.
\<close>

lemma char_of_48: "char_of (48 :: nat) = CHR ''0''"
  by code_simp

lemma default_class_without_rate:
  "format_rate_for_tc (u64_of_float (f64_div (f64_sub (f64_of_u64 4) (Fin 1)) (Fin 4))) = ''0kbit''"
proof -
  have "f64_of_u64 4 = Fin 4" "f64_of_u64 0 = Fin 0" using f64_of_u64_exact [of 4] f64_of_u64_exact [of 0] by simp_all
  moreover have "f64_of_rat 3 = Fin 3" using f64_of_rat_nat [of 3] by simp
  moreover have "scaled 53 (- 1022) (3 / 4) = 3 / 4"
    by (rule scaled_exact [where m = 3 and k = "- 2"]) (simp_all add: pow2_def)
  then have "f64_of_rat (3 / 4) = Fin (3 / 4)"
    by (simp add: f64_of_rat_def round_ieee_def round_nonneg_scaled pow2_def)
  moreover have "\<lfloor>3 / 4 :: rat\<rfloor> = 0" by (rule floor_unique) simp_all
  ultimately show ?thesis
    using \<open>f64_of_rat (3 / 4) = Fin (3 / 4)\<close> char_of_48
    by (simp add: f64_sub_def neg_ieee_def u64_of_float_def format_rate_for_tc_def format_fixed_def dec_digits.simps)
qed

end
