(* ===== verification/Bakery_Reload.thy ===== *)
theory Bakery_Reload
  imports Reload_Run "HOL-Library.List_Lexorder" "HOL-Library.Char_ord"
begin

text \<open>
  The state of the bakery's thread and its process-wide flags, and the full reload that replaces it or
  puts it back (\<open>lqos_bakery/src/lib.rs\<close>). The runtime branches of virtualized sites and their
  operations are of types the reload only clears.
\<close>

datatype ReloadReason =
    BypassNotEnabled string
  | PrepareFailed TcError
  | HandleSnapshotFailed TcError
  | BatchFailed
  | ClassifyDetached TcError
  | BypassNotDisabled string
  | LiveMoveFailed string string TcError
  | OtherReason string

datatype PassthroughReason =
    Rebuilding
  | AfterFailure ReloadReason
  | DisableFailed string

record ('k, 'v, 'o) bakery =
  bk_world :: "'k world"
  bk_batch :: "BakeryCommands list option"
  bk_sites :: "(i64 \<times> BakeryCommands) list"
  bk_circuits :: "(i64 \<times> BakeryCommands) list"
  bk_live_circuits :: "(i64 \<times> u64) list"
  bk_mq_layout :: "MqDeviceLayout option"
  bk_qdisc_handles :: QdiscHandleState
  bk_saved_handles :: "PersistedQdiscHandleState option"
  bk_virtualized_sites :: "(i64 \<times> 'v) list"
  bk_runtime_node_operations :: "(i64 \<times> 'o) list"
  MQ_CREATED :: bool
  SHAPING_TREE_ACTIVE :: bool
  FULL_RELOAD_IN_PROGRESS :: bool
  FIRST_COMMIT_APPLIED :: bool
  STORMGUARD_TREE_GENERATION :: u64
  STORMGUARD_TREE_REBUILD_GENERATION :: u64
  reload_required :: "ReloadReason option"
  passthrough_degraded :: "PassthroughReason option"
  live_capacity_interfaces :: "(string \<times> nat) list"

section \<open>Status flags\<close>

definition mark_reload_required :: "ReloadReason \<Rightarrow> ('k, 'v, 'o) bakery \<Rightarrow> ('k, 'v, 'o) bakery" where
  "mark_reload_required reason s = s\<lparr>reload_required := Some reason\<rparr>"

definition clear_reload_required :: "('k, 'v, 'o) bakery \<Rightarrow> ('k, 'v, 'o) bakery" where
  "clear_reload_required s = s\<lparr>reload_required := None\<rparr>"

definition mark_passthrough_degraded :: "PassthroughReason \<Rightarrow> ('k, 'v, 'o) bakery \<Rightarrow> ('k, 'v, 'o) bakery" where
  "mark_passthrough_degraded reason s = s\<lparr>passthrough_degraded := Some reason\<rparr>"

definition clear_passthrough_degraded :: "('k, 'v, 'o) bakery \<Rightarrow> ('k, 'v, 'o) bakery" where
  "clear_passthrough_degraded s = s\<lparr>passthrough_degraded := None\<rparr>"

definition update_world :: "('k world \<Rightarrow> 'a \<times> 'k world) \<Rightarrow> ('k, 'v, 'o) bakery \<Rightarrow> 'a \<times> ('k, 'v, 'o) bakery" where
  "update_world f s = (let (a, w) = f (bk_world s) in (a, s\<lparr>bk_world := w\<rparr>))"

section \<open>The bypass of the classifier\<close>

definition set_bypass :: "'k host \<Rightarrow> bool \<Rightarrow> ('k, 'v, 'o) bakery \<Rightarrow> string option \<times> ('k, 'v, 'o) bakery" where
  "set_bypass host enabled s =
     update_world (\<lambda>w. let (e, k) = host_set_bypass host enabled (kernel w) in (e, w\<lparr>kernel := k\<rparr>)) s"

definition bypass_guard_new :: "'k host \<Rightarrow> ('k, 'v, 'o) bakery \<Rightarrow> string option \<times> ('k, 'v, 'o) bakery" where
  "bypass_guard_new host s =
     (case set_bypass host True s of
        (Some e, s) \<Rightarrow> (Some e, s)
      | (None, s) \<Rightarrow> (None, mark_passthrough_degraded Rebuilding s))"

definition bypass_guard_disable :: "'k host \<Rightarrow> ('k, 'v, 'o) bakery \<Rightarrow> string option \<times> ('k, 'v, 'o) bakery" where
  "bypass_guard_disable host s =
     (case set_bypass host False s of
        (Some e, s) \<Rightarrow> (Some e, mark_passthrough_degraded (DisableFailed e) s)
      | (None, s) \<Rightarrow> (None, clear_passthrough_degraded s))"

definition keep_bypass_enabled_after_failure ::
  "ReloadReason \<Rightarrow> ('k, 'v, 'o) bakery \<Rightarrow> ('k, 'v, 'o) bakery" where
  "keep_bypass_enabled_after_failure reason s = mark_passthrough_degraded (AfterFailure reason) s"

section \<open>The classifier\<close>

definition tc_classify_attached :: "'k host \<Rightarrow> string \<Rightarrow> 'k world \<Rightarrow> (bool, TcError) result \<times> 'k world" where
  "tc_classify_attached host interface w =
     (let (output, k) = host_show_filters host interface (kernel w); w = w\<lparr>kernel := k\<rparr> in
      case output of
        None \<Rightarrow> (Err (FiltersNotRun interface), w)
      | Some output \<Rightarrow>
          if \<not> success output
          then (Err (FiltersFailed interface (trim (from_utf8_lossy (out_stderr output)))), w)
          else (Ok (contains_text ''tc_iphash_to_cp'' (from_utf8_lossy (out_stdout output))), w))"

fun attached_loop :: "'k host \<Rightarrow> string list \<Rightarrow> string list \<Rightarrow> 'k world \<Rightarrow> (unit, TcError) result \<times> 'k world" where
  "attached_loop host [] missing w = (if missing = [] then Ok () else Err (ClassifyMissing missing), w)"
| "attached_loop host (interface # rest) missing w =
     (case tc_classify_attached host interface w of
        (Inl e, w) \<Rightarrow> (Err e, w)
      | (Inr attached, w) \<Rightarrow> attached_loop host rest (if attached then missing else missing @ [interface]) w)"

definition verify_tc_classify_attached :: "'k host \<Rightarrow> string list \<Rightarrow> 'k world \<Rightarrow> (unit, TcError) result \<times> 'k world" where
  "verify_tc_classify_attached host managed w = attached_loop host managed [] w"

section \<open>The reload\<close>

fun handle_majors_loop ::
  "'k host \<Rightarrow> string list \<Rightarrow> reservations \<Rightarrow> 'k world \<Rightarrow> (reservations, TcError) result \<times> 'k world" where
  "handle_majors_loop host [] reserved w = (Ok reserved, w)"
| "handle_majors_loop host (interface # rest) reserved w =
     (case read_live_qdisc_handle_majors host interface w of
        (Inl e, w) \<Rightarrow> (Err e, w)
      | (Inr majors, w) \<Rightarrow> handle_majors_loop host rest (AList.update interface majors reserved) w)"

definition snapshot_live_qdisc_handle_majors ::
  "'k host \<Rightarrow> Config \<Rightarrow> string \<times> string \<Rightarrow> 'k world \<Rightarrow> (reservations, TcError) result \<times> 'k world" where
  "snapshot_live_qdisc_handle_majors host config names w =
     (let (isp, internet) = names
      in handle_majors_loop host
           (isp # (if \<not> on_a_stick_mode config \<and> internet \<noteq> isp then [internet] else [])) [] w)"

text \<open>The number of live queues per interface, read again after every change.\<close>

fun live_capacity_loop :: "'k host \<Rightarrow> string list \<Rightarrow> 'k world \<Rightarrow> (string \<times> nat) list \<times> 'k world" where
  "live_capacity_loop host [] w = ([], w)"
| "live_capacity_loop host (interface # rest) w =
     (let (majors, w) = read_live_qdisc_handle_majors host interface w;
          (snapshot, w) = live_capacity_loop host rest w
      in ((interface, case majors of Inr handles \<Rightarrow> length handles | Inl _ \<Rightarrow> 0) # snapshot, w))"

definition refresh_live_capacity_snapshot ::
  "'k host \<Rightarrow> string \<times> string \<Rightarrow> ('k, 'v, 'o) bakery \<Rightarrow> ('k, 'v, 'o) bakery" where
  "refresh_live_capacity_snapshot host names s =
     (let (isp, internet) = names;
          (snapshot, s) = update_world (live_capacity_loop host (sort (remdups [isp, internet]))) s
      in s\<lparr>live_capacity_interfaces := snapshot\<rparr>)"

text \<open>The end of a reload that could not run its batch: the bypass stays, the batch is dropped.\<close>

definition abandon_reload :: "ReloadReason \<Rightarrow> ('k, 'v, 'o) bakery \<Rightarrow> ('k, 'v, 'o) bakery" where
  "abandon_reload reason s =
     (mark_reload_required reason (keep_bypass_enabled_after_failure reason s))\<lparr>bk_batch := None\<rparr>"

definition commit_reload ::
  "Config \<Rightarrow> MqDeviceLayout option \<Rightarrow> batch_build \<Rightarrow> ('k, 'v, 'o) bakery \<Rightarrow> ('k, 'v, 'o) bakery" where
  "commit_reload config resolved_mq_layout b s =
     (let rebuild_generation = STORMGUARD_TREE_GENERATION s + 1 in
      (clear_reload_required
        (s\<lparr>bk_sites := bb_sites b, bk_circuits := bb_circuits b, bk_live_circuits := [],
           bk_qdisc_handles := bb_handles b, bk_saved_handles := Some (persisted (bb_handles b)),
           MQ_CREATED := True, SHAPING_TREE_ACTIVE := desired_shaping_tree_active config,
           bk_mq_layout := (case resolved_mq_layout of Some layout \<Rightarrow> Some layout | None \<Rightarrow> bk_mq_layout s),
           bk_virtualized_sites := [], bk_runtime_node_operations := []\<rparr>))
        \<lparr>FIRST_COMMIT_APPLIED := True, STORMGUARD_TREE_REBUILD_GENERATION := rebuild_generation,
         STORMGUARD_TREE_GENERATION := rebuild_generation\<rparr>)"

definition rollback_reload :: "('k, 'v, 'o) bakery \<Rightarrow> ('k, 'v, 'o) bakery \<Rightarrow> ('k, 'v, 'o) bakery" where
  "rollback_reload previous s =
     (let s = s\<lparr>bk_sites := bk_sites previous, bk_circuits := bk_circuits previous,
            bk_live_circuits := bk_live_circuits previous, bk_mq_layout := bk_mq_layout previous,
            MQ_CREATED := MQ_CREATED previous, SHAPING_TREE_ACTIVE := SHAPING_TREE_ACTIVE previous\<rparr>
      in mark_reload_required BatchFailed (keep_bypass_enabled_after_failure BatchFailed s))"

text \<open>After a batch that ran: the classifier has to be attached before the bypass is lifted.\<close>

definition finish_reload :: "'k host \<Rightarrow> string \<times> string \<Rightarrow> string list \<Rightarrow> ('k, 'v, 'o) bakery \<Rightarrow> ('k, 'v, 'o) bakery" where
  "finish_reload host names managed s =
     (case update_world (verify_tc_classify_attached host managed) (refresh_live_capacity_snapshot host names s) of
        (Inl e, s) \<Rightarrow> abandon_reload (ClassifyDetached e) s
      | (Inr _, s) \<Rightarrow>
          (case bypass_guard_disable host s of
             (Some e, s) \<Rightarrow> (mark_reload_required (BypassNotDisabled e) s)\<lparr>bk_batch := None\<rparr>
           | (None, s) \<Rightarrow> s\<lparr>bk_batch := None\<rparr>))"

definition reload_batch ::
  "'k host \<Rightarrow> string \<Rightarrow> Config \<Rightarrow> string \<times> string \<Rightarrow> string list \<Rightarrow> BakeryCommands list \<Rightarrow> MqDeviceLayout option
    \<Rightarrow> reservations \<Rightarrow> (string \<times> u16 list) list \<Rightarrow> ('k, 'v, 'o) bakery \<Rightarrow> ('k, 'v, 'o) bakery \<Rightarrow> ('k, 'v, 'o) bakery option" where
  "reload_batch host debug_path config names managed new_batch resolved_mq_layout reserved preserved previous s =
     map_option (\<lambda>(b, result, w).
       let s = s\<lparr>bk_world := w, MQ_CREATED := bb_mq_created b\<rparr> in
       if exec_ok result then finish_reload host names managed (commit_reload config resolved_mq_layout b s)
       else (rollback_reload previous s)\<lparr>bk_batch := None\<rparr>)
       (process_batch host debug_path new_batch config
          \<lparr>bb_commands = [], bb_sites = [], bb_circuits = [], bb_handles = default_handle_state,
           bb_mq_created = MQ_CREATED s\<rparr>
          (value_or resolved_mq_layout \<lparr>mq_devices = []\<rparr>) reserved preserved (bk_world s))"

definition full_reload_body ::
  "'k host \<Rightarrow> string \<Rightarrow> Config \<Rightarrow> BakeryCommands list \<Rightarrow> MqDeviceLayout option
    \<Rightarrow> ('k, 'v, 'o) bakery \<Rightarrow> ('k, 'v, 'o) bakery option" where
  "full_reload_body host debug_path config new_batch resolved_mq_layout s =
     (case bypass_guard_new host s of
        (Some e, s) \<Rightarrow> Some ((mark_reload_required (BypassNotEnabled e) s)\<lparr>bk_batch := None\<rparr>)
      | (None, s) \<Rightarrow>
          Option.bind (interfaces config) (\<lambda>names.
          Option.bind (managed_interfaces_for_config config) (\<lambda>managed.
            let previous = s in
            case update_world (prepare_root_mq_for_full_reload host managed) s of
              (Inl e, s) \<Rightarrow> Some (abandon_reload (PrepareFailed e) s)
            | (Inr preserved, s) \<Rightarrow>
                let s = s\<lparr>bk_world := invalidate_live_tc_snapshots (bk_world s), MQ_CREATED := True\<rparr> in
                case update_world (snapshot_live_qdisc_handle_majors host config names) s of
                  (Inl e, s) \<Rightarrow> Some (abandon_reload (HandleSnapshotFailed e) s)
                | (Inr reserved, s) \<Rightarrow>
                    reload_batch host debug_path config names managed new_batch resolved_mq_layout reserved
                      preserved previous s)))"

definition full_reload ::
  "'k host \<Rightarrow> string \<Rightarrow> Config \<Rightarrow> BakeryCommands list \<Rightarrow> MqDeviceLayout option
    \<Rightarrow> ('k, 'v, 'o) bakery \<Rightarrow> ('k, 'v, 'o) bakery option" where
  "full_reload host debug_path config new_batch resolved_mq_layout s =
     map_option (\<lambda>s. s\<lparr>FULL_RELOAD_IN_PROGRESS := False\<rparr>)
       (full_reload_body host debug_path config new_batch resolved_mq_layout
          (s\<lparr>FULL_RELOAD_IN_PROGRESS := True\<rparr>))"

end
