(* ===== verification/Reload_Properties.thy ===== *)
theory Reload_Properties
  imports Bakery_Reload "HOL-Library.Sublist"
begin

text \<open>
  What the execution of commands and the draining of a live tree promise
  (\<open>lqos_bakery/src/utils.rs\<close>, \<open>lib.rs\<close>).
\<close>

section \<open>Every command runs once, in order\<close>

text \<open>A host that also keeps the texts it was given to run.\<close>

definition on_snd :: "('k \<Rightarrow> 'a \<times> 'k) \<Rightarrow> 'l \<times> 'k \<Rightarrow> 'a \<times> ('l \<times> 'k)" where
  "on_snd f lk = (let (a, k) = f (snd lk) in (a, (fst lk, k)))"

definition logging :: "'k host \<Rightarrow> (string list \<times> 'k) host" where
  "logging host = \<lparr>host_now = on_snd (host_now host), host_write_file = (\<lambda>path text. on_snd (host_write_file host path text)),
     host_run_batch = (\<lambda>text (log, k). on_snd (host_run_batch host text) (log @ [text], k)),
     host_show_qdiscs = (\<lambda>name. on_snd (host_show_qdiscs host name)),
     host_show_classes = (\<lambda>name. on_snd (host_show_classes host name)),
     host_meminfo = on_snd (host_meminfo host), host_parse_json = host_parse_json host,
     host_show_filters = (\<lambda>name. on_snd (host_show_filters host name)),
     host_set_bypass = (\<lambda>enabled. on_snd (host_set_bypass host enabled))\<rparr>"

abbreviation batch_log :: "(string list \<times> 'k) world \<Rightarrow> string list" where
  "batch_log w \<equiv> fst (kernel w)"

lemma concat_chunks: "concat (chunks n xs) = xs"
proof (induction n xs rule: chunks.induct)
  case (1 n xs)
  then show ?case by (subst chunks.simps) simp
qed

lemma chunks_bounded: "part \<in> set (chunks n xs) \<Longrightarrow> length part \<le> max 1 n"
proof (induction n xs rule: chunks.induct)
  case (1 n xs)
  then show ?case by (subst (asm) (2) chunks.simps) (auto split: if_splits)
qed

lemma memory_guard_log: "memory_guard (logging host) purpose guard i n phase w = (r, w') \<Longrightarrow> batch_log w' = batch_log w"
  by (auto simp: memory_guard_def read_memory_snapshot_def logging_def on_snd_def Let_def
      split: option.splits prod.splits sum.splits)

lemma write_log: "write_command_file (logging host) path commands w = (r, w') \<Longrightarrow>
    batch_log w' = batch_log w \<and> (r = None \<or> r = Some (command_text commands))"
  by (auto simp: write_command_file_def logging_def on_snd_def Let_def split: prod.splits)

lemma run_chunk_log:
  assumes "run_chunk (logging host) purpose chunk w = (r, w')"
  shows "batch_log w' = batch_log w @ [command_text chunk] \<or> batch_log w' = batch_log w \<and> r \<noteq> None"
proof (cases "write_command_file (logging host) ''/tmp/lqos_bakery_commands_chunk.txt'' chunk w")
  case (Pair written u)
  have u: "batch_log u = batch_log w" "written = None \<or> written = Some (command_text chunk)" using write_log [OF Pair] by auto
  show ?thesis
  proof (cases written)
    case None
    then show ?thesis using assms Pair u by (auto simp: run_chunk_def)
  next
    case (Some t)
    obtain out v where run: "run_tc_batch (logging host) t u = (out, v)" by fastforce
    then have "batch_log v = batch_log u @ [t]"
      by (auto simp: run_tc_batch_def logging_def on_snd_def Let_def split: prod.splits)
    moreover have "w' = v" using assms Pair Some run by (auto simp: run_chunk_def split: option.splits if_splits)
    ultimately show ?thesis using u Some by auto
  qed
qed

lemma batch_log_invalidate [simp]: "batch_log (invalidate_live_tc_snapshots w) = batch_log w"
  by (simp add: invalidate_live_tc_snapshots_def)

lemma chunk_loop_log:
  assumes "chunk_loop (logging host) purpose guard n i parts w = (result, w')"
  shows "\<exists>ran rest. parts = ran @ rest \<and> batch_log w' = batch_log w @ map command_text ran
    \<and> (if exec_ok result then rest = [] \<and> failure_summary result = None else failure_summary result \<noteq> None)"
  using assms
proof (induction parts arbitrary: i w)
  case (Cons part parts)
  obtain g1 w1 where g1: "memory_guard (logging host) purpose guard (i + 1) n ''before'' w = (g1, w1)" by fastforce
  note l1 = memory_guard_log [OF g1]
  show ?case
  proof (cases g1)
    case (Some reason)
    then have "result = exec_failed reason" "w' = w1" using Cons.prems g1 by simp_all
    then show ?thesis using l1 by (intro exI [of _ "[]"] exI [of _ "part # parts"]) simp
  next
    case None
    obtain r w2 where r: "run_chunk (logging host) purpose part w1 = (r, w2)" by fastforce
    note l2 = run_chunk_log [OF r]
    show ?thesis
    proof (cases r)
      case (Some reason)
      then have "result = exec_failed reason" "w' = w2" using Cons.prems g1 None r by simp_all
      then show ?thesis using l1 l2
        by (elim disjE) (intro exI [of _ "[part]"] exI [of _ parts], simp, intro exI [of _ "[]"] exI [of _ "part # parts"], simp)
    next
      case none: None
      obtain g2 w3 where g2: "memory_guard (logging host) purpose guard (i + 1) n ''after''
          (invalidate_live_tc_snapshots w2) = (g2, w3)" by fastforce
      have l3: "batch_log w3 = batch_log w @ [command_text part]"
        using memory_guard_log [OF g2] l1 l2 none by simp
      show ?thesis
      proof (cases g2)
        case (Some reason)
        then have "result = exec_failed reason" "w' = w3" using Cons.prems g1 None r none g2 by simp_all
        then show ?thesis using l3 by (intro exI [of _ "[part]"] exI [of _ parts]) simp
      next
        case ok: None
        then have "chunk_loop (logging host) purpose guard n (i + 1) parts w3 = (result, w')"
          using Cons.prems g1 None r none g2 by simp
        from Cons.IH [OF this] obtain ran rest where "parts = ran @ rest"
          "batch_log w' = batch_log w3 @ map command_text ran"
          "if exec_ok result then rest = [] \<and> failure_summary result = None else failure_summary result \<noteq> None" by blast
        then show ?thesis using l3 by (intro exI [of _ "part # ran"] exI [of _ rest]) simp
      qed
    qed
  qed
qed auto


text \<open>A host on which every call succeeds and prints nothing.\<close>

definition quiet_output :: Output where
  "quiet_output = \<lparr>out_code = Some 0, out_stdout = [], out_stderr = []\<rparr>"

definition quiet_host :: "unit host" where
  "quiet_host = \<lparr>host_now = (\<lambda>k. (0, k)), host_write_file = (\<lambda>path text k. (True, k)),
     host_run_batch = (\<lambda>text k. (Some quiet_output, k)), host_show_qdiscs = (\<lambda>name k. (Some quiet_output, k)),
     host_show_classes = (\<lambda>name k. (Some quiet_output, k)), host_meminfo = (\<lambda>k. (Err [], k)),
     host_parse_json = (\<lambda>text. Some (JArray [])), host_show_filters = (\<lambda>name k. (Some quiet_output, k)),
     host_set_bypass = (\<lambda>enabled k. (None, k))\<rparr>"

definition fresh_world :: "'k \<Rightarrow> 'k world" where
  "fresh_world k = \<lparr>kernel = k, class_snapshots = [], qdisc_snapshots = []\<rparr>"


section \<open>The order of the drain\<close>

text \<open>The class \<open>c\<close> hangs below the class \<open>p\<close>.\<close>

definition parent_edges :: "class_snapshot \<Rightarrow> (TcHandle \<times> TcHandle) set" where
  "parent_edges snapshot = {(c, p). Option.bind (map_of snapshot c) class_parent = Some p}"

definition ranked :: "(TcHandle \<Rightarrow> nat) \<Rightarrow> class_snapshot \<Rightarrow> bool" where
  "ranked rank snapshot = list_all (\<lambda>(c, entry). case class_parent entry of Some p \<Rightarrow> rank p < rank c | None \<Rightarrow> True) snapshot"

lemma ranked_edge: "ranked rank snapshot \<Longrightarrow> (c, p) \<in> parent_edges snapshot \<Longrightarrow> rank p < rank c"
  by (auto simp: ranked_def parent_edges_def list_all_iff bind_eq_Some_conv dest!: map_of_SomeD split: option.splits)

lemma class_depth_seen:
  assumes "ranked rank snapshot" "\<forall>d \<in> set seen. rank c < rank d" "\<forall>d \<in> set seen'. rank c < rank d"
  shows "class_depth c snapshot seen = class_depth c snapshot seen'"
  using assms
proof (induction c snapshot seen arbitrary: seen' rule: class_depth.induct)
  case (1 c snapshot seen)
  have new: "c \<notin> set seen" "c \<notin> set seen'" using "1.prems"(2,3) by auto
  show ?case
  proof (cases "Option.bind (map_of snapshot c) class_parent")
    case None
    then show ?thesis using new by (subst (1 2) class_depth.simps) simp
  next
    case (Some p)
    then have "rank p < rank c" using ranked_edge [OF "1.prems"(1)] by (simp add: parent_edges_def)
    moreover from this have "\<forall>d \<in> set (c # seen). rank p < rank d" "\<forall>d \<in> set (c # seen'). rank p < rank d"
      using "1.prems"(2,3) by auto
    ultimately have "class_depth p snapshot (c # seen) = class_depth p snapshot (c # seen')"
      using "1.IH" [OF new(1) Some "1.prems"(1)] by blast
    then show ?thesis using new Some by (subst (1 2) class_depth.simps) simp
  qed
qed

lemma class_depth_edge:
  assumes "ranked rank snapshot" "(c, p) \<in> parent_edges snapshot"
  shows "class_depth c snapshot [] = Suc (class_depth p snapshot [])"
  using assms class_depth_seen [OF assms(1), of "[c]" p "[]"] ranked_edge [OF assms]
  by (subst class_depth.simps) (simp add: parent_edges_def)

lemma class_depth_below:
  assumes "ranked rank snapshot" "(c, p) \<in> (parent_edges snapshot)\<^sup>+"
  shows "class_depth p snapshot [] < class_depth c snapshot []"
  using assms(2) class_depth_edge [OF assms(1)] by (induction rule: trancl_induct) fastforce+

definition snapshot_wf :: "class_snapshot \<Rightarrow> bool" where
  "snapshot_wf snapshot \<longleftrightarrow> distinct (map fst snapshot) \<and> list_all (\<lambda>(c, entry). class_id entry = c) snapshot"

lemma snapshot_wf_update:
  "snapshot_wf snapshot \<Longrightarrow> class_id entry = c \<Longrightarrow> snapshot_wf (AList.update c entry snapshot)"
proof (induction snapshot)
  case (Cons row snapshot)
  then show ?case by (cases row) (force simp: snapshot_wf_def list_all_iff AList.dom_update)
qed (simp add: snapshot_wf_def)

lemma class_lines_wf: "class_lines_loop interface snapshot ls = Inr snapshot' \<Longrightarrow> snapshot_wf snapshot \<Longrightarrow> snapshot_wf snapshot'"
  by (induction interface snapshot ls rule: class_lines_loop.induct)
    (auto simp: Let_def snapshot_wf_update split: if_splits sum.splits prod.splits)

lemma parsed_snapshot_wf: "parse_live_class_snapshot interface printed = Inr snapshot \<Longrightarrow> snapshot_wf snapshot"
  unfolding parse_live_class_snapshot_def by (erule class_lines_wf) (simp add: snapshot_wf_def)

lemma deletable_member:
  assumes "snapshot_wf snapshot"
  shows "(depth, c, p) \<in> set (deletable_classes snapshot majors) \<longleftrightarrow>
    (\<exists>entry. map_of snapshot c = Some entry \<and> class_parent entry = Some p \<and> depth = class_depth c snapshot []
      \<and> major_of c \<noteq> ROOT_MQ_MAJOR \<and> \<not> root_infra_class_entry entry majors)"
  using assms by (force simp: deletable_classes_def map_filter_def snapshot_wf_def list_all_iff)

lemma deletable_distinct:
  assumes "snapshot_wf snapshot"
  shows "distinct (map (\<lambda>(_, c, _). c) (deletable_classes snapshot majors))"
proof -
  have "distinct (map (\<lambda>(_, c, _). c) (List.map_filter (\<lambda>(_, entry).
      map_option (\<lambda>parent. (class_depth (class_id entry) snapshot [], class_id entry, parent)) (class_parent entry))
      (filter P part)))" if "snapshot_wf part" for P and part :: class_snapshot
    using that
  proof (induction part)
    case (Cons row part)
    then have "class_id (snd row) \<noteq> class_id (snd other)" if "other \<in> set part" for other
      using that by (cases row) (force simp: snapshot_wf_def list_all_iff)
    moreover have "snapshot_wf part" using Cons.prems by (simp add: snapshot_wf_def)
    ultimately show ?case using Cons.IH
      by (cases row) (force simp: map_filter_def split: option.splits)
  qed (simp add: map_filter_def)
  then show ?thesis using assms by (simp add: deletable_classes_def distinct_map inj_on_def)
qed

lemma deletable_sorted:
  "sorted_wrt (\<lambda>(d, _) (d', _). d' \<le> d) (deletable_classes snapshot majors)"
proof -
  have "sorted (map (\<lambda>(depth, _). - int depth) (deletable_classes snapshot majors))"
    unfolding deletable_classes_def by (rule sorted_sort_key)
  then show ?thesis unfolding sorted_wrt_map by (rule sorted_wrt_mono_rel [rotated]) auto
qed

definition removable :: "class_snapshot \<Rightarrow> u16 list \<Rightarrow> TcHandle \<Rightarrow> bool" where
  "removable snapshot majors c = (case map_of snapshot c of
       Some entry \<Rightarrow> class_parent entry \<noteq> None \<and> major_of c \<noteq> ROOT_MQ_MAJOR \<and> \<not> root_infra_class_entry entry majors
     | None \<Rightarrow> False)"

definition delete_class_command :: "string \<Rightarrow> class_snapshot \<Rightarrow> TcHandle \<Rightarrow> argv" where
  "delete_class_command interface snapshot c =
     [''class'', ''del'', ''dev'', interface, ''parent'',
      as_tc_string (the (Option.bind (map_of snapshot c) class_parent)), ''classid'', as_tc_string c]"

text \<open>
  C2. The drain of a live tree names every class below the retained roots once, with the parent it
  hangs from, and never a class before one that still hangs below it, however deep the tree is and in
  whatever order the kernel printed it.
\<close>

theorem drain_children_first:
  assumes "parse_live_class_snapshot interface printed = Inr snapshot" "ranked rank snapshot"
  shows "\<exists>order. class_delete_commands interface snapshot majors = map (delete_class_command interface snapshot) order
    \<and> sorted_wrt (\<lambda>c later. (later, c) \<notin> (parent_edges snapshot)\<^sup>+) order
    \<and> distinct order \<and> set order = {c. removable snapshot majors c}"
proof (intro exI conjI)
  let ?rows = "deletable_classes snapshot majors"
  let ?order = "map (\<lambda>(_, c, _). c) ?rows"
  have wf: "snapshot_wf snapshot" using assms(1) by (rule parsed_snapshot_wf)
  note member = deletable_member [OF wf]
  show "class_delete_commands interface snapshot majors = map (delete_class_command interface snapshot) ?order"
    by (auto simp: class_delete_commands_def delete_class_command_def member)
  show "distinct ?order" by (rule deletable_distinct [OF wf])
  show "set ?order = {c. removable snapshot majors c}"
  proof (intro equalityI subsetI)
    fix c
    assume "c \<in> {c. removable snapshot majors c}"
    then obtain p where "(class_depth c snapshot [], c, p) \<in> set ?rows"
      by (auto simp: removable_def member split: option.splits)
    then show "c \<in> set ?order" by force
  qed (auto simp: member removable_def)
  show "sorted_wrt (\<lambda>c later. (later, c) \<notin> (parent_edges snapshot)\<^sup>+) ?order"
    unfolding sorted_wrt_map
    by (rule sorted_wrt_mono_rel [OF _ deletable_sorted])
      (auto simp: member dest!: class_depth_below [OF assms(2)])
qed

definition printed_classes :: string where
  "printed_classes = ''class htb 1:1 root'' @ [char_of (10 :: nat)]
     @ ''class htb 1:11 parent 1:10'' @ [char_of (10 :: nat)] @ ''class htb 1:10 parent 1:1'' @ [char_of (10 :: nat)]"

theorem drain_children_first_witness:
  "case parse_live_class_snapshot ''eth0'' printed_classes of
     Inr snapshot \<Rightarrow>
       map (\<lambda>command. command ! 7) (class_delete_commands ''eth0'' snapshot [1]) = [''0x1:0x11'', ''0x1:0x10'']
       \<and> (\<exists>order. class_delete_commands ''eth0'' snapshot [1] = map (delete_class_command ''eth0'' snapshot) order
            \<and> sorted_wrt (\<lambda>c later. (later, c) \<notin> (parent_edges snapshot)\<^sup>+) order)
   | Inl _ \<Rightarrow> False"
proof -
  let ?row = "\<lambda>c p q. (c, \<lparr>class_id = c, class_parent = p, leaf_qdisc_major = q\<rparr>)"
  let ?snapshot = "[?row 0x10001 None None, ?row 0x10011 (Some 0x10010) None,
    ?row 0x10010 (Some 0x10001) None]"
  have parsed: "parse_live_class_snapshot ''eth0'' printed_classes = Inr ?snapshot" by code_simp
  have "map (\<lambda>command. command ! 7) (class_delete_commands ''eth0'' ?snapshot [1]) = [''0x1:0x11'', ''0x1:0x10'']"
    by code_simp
  moreover have "ranked unat ?snapshot" by (simp add: ranked_def)
  from drain_children_first [OF parsed this, of "[1]"] show ?thesis using parsed calculation by auto
qed

end
