(* ===== verification/Reload_Outcome.thy ===== *)
theory Reload_Outcome
  imports Bakery_Reload
begin

text \<open>
  What a full reload leaves behind (\<open>lqos_bakery/src/lib.rs\<close>): either the whole of the new tree or the
  whole of the old one, and flags that tell which.
\<close>

section \<open>All of a reload or nothing\<close>

text \<open>The circuits and sites of a batch are what its build remembers.\<close>

definition batch_sites :: "BakeryCommands list \<Rightarrow> i64 set" where
  "batch_sites batch = {site_hash params | params. AddSite params \<in> set batch}"

definition batch_circuits :: "BakeryCommands list \<Rightarrow> i64 set" where
  "batch_circuits batch = {circuit_hash params | params. AddCircuit params \<in> set batch}"

lemma assigned_circuit_hash [simp]:
  "circuit_hash (fst (assigned_circuit params config names mq_layout handles extra)) = circuit_hash params"
  by (simp add: assigned_circuit_def Let_def split: prod.splits)

lemma assigned_command:
  assumes "with_assigned_qdisc_handles_reserved command config mq_layout handles extra = Some (command', handles')"
  shows "batch_sites [command'] = batch_sites [command] \<and> batch_circuits [command'] = batch_circuits [command]"
proof (cases command)
  case (AddCircuit params)
  have "command' = command \<or> (\<exists>names. command' = AddCircuit (fst (assigned_circuit params config names mq_layout handles extra)))"
    using assms AddCircuit by (auto simp: with_assigned_qdisc_handles_reserved_def case_prod_unfold Let_def split: if_splits)
  then show ?thesis using AddCircuit by (auto simp: batch_sites_def batch_circuits_def)
qed (use assms in \<open>auto simp: with_assigned_qdisc_handles_reserved_def\<close>)

lemma remember_domain:
  "fst ` set (bb_sites (remember command b)) = fst ` set (bb_sites b) \<union> batch_sites [command]"
  "fst ` set (bb_circuits (remember command b)) = fst ` set (bb_circuits b) \<union> batch_circuits [command]"
  by (cases command; auto simp: remember_def batch_sites_def batch_circuits_def AList.dom_update)+

lemma build_step_domain:
  assumes "build_step config mq_layout extra preserved command b = Some b'"
  shows "fst ` set (bb_sites b') = fst ` set (bb_sites b) \<union> batch_sites [command]
    \<and> fst ` set (bb_circuits b') = fst ` set (bb_circuits b) \<union> batch_circuits [command]"
proof -
  obtain command' handles where given: "with_assigned_qdisc_handles_reserved command config mq_layout (bb_handles b) extra
      = Some (command', handles)" using assms by (auto simp: build_step_def bind_eq_Some_conv)
  then have "bb_sites b' = bb_sites (remember command' (b\<lparr>bb_handles := handles\<rparr>))
      \<and> bb_circuits b' = bb_circuits (remember command' (b\<lparr>bb_handles := handles\<rparr>))"
    using assms by (auto simp: build_step_def Let_def)
  then show ?thesis using assigned_command [OF given] by (simp add: remember_domain)
qed

lemma batch_hashes_Cons:
  "batch_sites (command # batch) = batch_sites [command] \<union> batch_sites batch"
  "batch_circuits (command # batch) = batch_circuits [command] \<union> batch_circuits batch"
  by (auto simp: batch_sites_def batch_circuits_def)

lemma build_batch_domain:
  assumes "build_batch config mq_layout extra preserved batch b = Some b'"
  shows "fst ` set (bb_sites b') = fst ` set (bb_sites b) \<union> batch_sites batch
    \<and> fst ` set (bb_circuits b') = fst ` set (bb_circuits b) \<union> batch_circuits batch"
  using assms
proof (induction config mq_layout extra preserved batch b rule: build_batch.induct)
  case (2 config mq_layout extra preserved command batch b)
  then obtain c where c: "build_step config mq_layout extra preserved command b = Some c"
    "build_batch config mq_layout extra preserved batch c = Some b'" by (auto simp: bind_eq_Some_conv)
  show ?case
    using "2.IH" [OF c] build_step_domain [OF c(1)] unfolding batch_hashes_Cons [of command batch] by (simp only: Un_assoc simp_thms)
qed (simp add: batch_sites_def batch_circuits_def)

text \<open>What a reload replaces in the thread's state, and what it keeps when it does not.\<close>

definition reload_kept :: "('k, 'v, 'o) bakery \<Rightarrow> ('k, 'v, 'o) bakery \<Rightarrow> bool" where
  "reload_kept s s' \<longleftrightarrow>
     bk_sites s' = bk_sites s \<and> bk_circuits s' = bk_circuits s \<and> bk_live_circuits s' = bk_live_circuits s
     \<and> bk_mq_layout s' = bk_mq_layout s \<and> bk_qdisc_handles s' = bk_qdisc_handles s
     \<and> bk_saved_handles s' = bk_saved_handles s \<and> bk_virtualized_sites s' = bk_virtualized_sites s
     \<and> bk_runtime_node_operations s' = bk_runtime_node_operations s
     \<and> SHAPING_TREE_ACTIVE s' = SHAPING_TREE_ACTIVE s \<and> FIRST_COMMIT_APPLIED s' = FIRST_COMMIT_APPLIED s
     \<and> STORMGUARD_TREE_GENERATION s' = STORMGUARD_TREE_GENERATION s
     \<and> STORMGUARD_TREE_REBUILD_GENERATION s' = STORMGUARD_TREE_REBUILD_GENERATION s"

definition reload_committed ::
  "Config \<Rightarrow> BakeryCommands list \<Rightarrow> MqDeviceLayout option \<Rightarrow> ('k, 'v, 'o) bakery \<Rightarrow> ('k, 'v, 'o) bakery \<Rightarrow> bool" where
  "reload_committed config batch resolved s s' \<longleftrightarrow>
     fst ` set (bk_sites s') = batch_sites batch \<and> fst ` set (bk_circuits s') = batch_circuits batch
     \<and> bk_live_circuits s' = [] \<and> bk_virtualized_sites s' = [] \<and> bk_runtime_node_operations s' = []
     \<and> bk_mq_layout s' = (if resolved = None then bk_mq_layout s else resolved)
     \<and> bk_saved_handles s' = Some (persisted (bk_qdisc_handles s'))
     \<and> MQ_CREATED s' \<and> SHAPING_TREE_ACTIVE s' = desired_shaping_tree_active config \<and> FIRST_COMMIT_APPLIED s'
     \<and> STORMGUARD_TREE_GENERATION s' = STORMGUARD_TREE_GENERATION s + 1
     \<and> STORMGUARD_TREE_REBUILD_GENERATION s' = STORMGUARD_TREE_GENERATION s'"

named_theorems reload_defs

lemmas reload_status_defs [reload_defs] = mark_reload_required_def clear_reload_required_def
  mark_passthrough_degraded_def clear_passthrough_degraded_def keep_bypass_enabled_after_failure_def
  abandon_reload_def reload_kept_def

lemma update_world_keeps: "update_world f s = (a, s') \<Longrightarrow> \<exists>w. s' = s\<lparr>bk_world := w\<rparr>"
  by (auto simp: update_world_def split: prod.splits)

lemma bypass_new_keeps:
  "bypass_guard_new host s = (e, s') \<Longrightarrow> reload_kept s s' \<and> MQ_CREATED s' = MQ_CREATED s \<and> bk_batch s' = bk_batch s"
  by (auto simp: bypass_guard_new_def set_bypass_def reload_defs dest!: update_world_keeps
      split: prod.splits option.splits)

lemma bypass_disable_keeps:
  "bypass_guard_disable host s = (e, s') \<Longrightarrow> reload_kept s s' \<and> MQ_CREATED s' = MQ_CREATED s
    \<and> reload_required s' = reload_required s \<and> (passthrough_degraded s' = None \<longleftrightarrow> e = None)"
  by (auto simp: bypass_guard_disable_def set_bypass_def reload_defs dest!: update_world_keeps
      split: prod.splits option.splits)

lemma capacity_refresh_keeps:
  "reload_kept s (refresh_live_capacity_snapshot host names s)"
  "MQ_CREATED (refresh_live_capacity_snapshot host names s) = MQ_CREATED s"
  "reload_required (refresh_live_capacity_snapshot host names s) = reload_required s"
  by (auto simp: refresh_live_capacity_snapshot_def update_world_def reload_defs split: prod.splits)

lemma reload_kept_trans: "reload_kept r s \<Longrightarrow> reload_kept s t \<Longrightarrow> reload_kept r t"
  by (simp add: reload_kept_def)

lemma finish_reload_keeps:
  "reload_kept s (finish_reload host names managed s)" (is ?kept)
  "MQ_CREATED (finish_reload host names managed s) = MQ_CREATED s" (is ?created)
  "bk_batch (finish_reload host names managed s) = None" (is ?batch)
  "reload_required s = None \<Longrightarrow>
    reload_required (finish_reload host names managed s) = None \<longleftrightarrow> passthrough_degraded (finish_reload host names managed s) = None"
proof -
  let ?s = "refresh_live_capacity_snapshot host names s"
  obtain r t where t: "update_world (verify_tc_classify_attached host managed) ?s = (r, t)" by fastforce
  obtain e u where u: "bypass_guard_disable host t = (e, u)" by fastforce
  obtain w where w: "t = ?s\<lparr>bk_world := w\<rparr>" using update_world_keeps [OF t] by blast
  note kept = capacity_refresh_keeps [where s = s and host = host and names = names] bypass_disable_keeps [OF u]
  have finish: "finish_reload host names managed s = (case r of Inl e' \<Rightarrow> abandon_reload (ClassifyDetached e') t
      | Inr _ \<Rightarrow> (case e of Some e' \<Rightarrow> (mark_reload_required (BypassNotDisabled e') u)\<lparr>bk_batch := None\<rparr>
          | None \<Rightarrow> u\<lparr>bk_batch := None\<rparr>))"
    by (simp add: finish_reload_def t u split: sum.split option.split)
  have "reload_kept s t" using kept(1) by (simp add: w reload_kept_def)
  moreover from this have "reload_kept s u" using kept(4) reload_kept_trans by blast
  ultimately show ?kept by (cases r; cases e) (simp_all add: finish reload_defs)
  have "MQ_CREATED t = MQ_CREATED s" "MQ_CREATED u = MQ_CREATED s" using kept w by simp_all
  then show ?created by (cases r; cases e) (simp_all add: finish reload_defs)
  show ?batch by (cases r; cases e) (simp_all add: finish reload_defs)
  show "reload_required (finish_reload host names managed s) = None \<longleftrightarrow> passthrough_degraded (finish_reload host names managed s) = None"
    if "reload_required s = None"
    using kept w that by (cases r; cases e) (simp_all add: finish reload_status_defs)
qed

text \<open>With both interfaces named, nothing in the build of a batch panics.\<close>

lemma named_interfaces:
  assumes "interfaces config \<noteq> None"
  obtains isp internet where "isp_interface config = Some isp" "internet_interface config = Some internet"
    "interfaces config = Some (isp, internet)"
  using assms by (auto simp: interfaces_def bind_eq_Some_conv)

lemma those_total: "(\<exists>ys. those xs = Some ys) \<longleftrightarrow> None \<notin> set xs"
  by (induction xs) (auto split: option.splits)

lemma to_commands_total: "interfaces config \<noteq> None \<Longrightarrow> to_commands command config mode created \<noteq> None"
proof (elim named_interfaces)
  fix isp internet
  assume names: "isp_interface config = Some isp" "internet_interface config = Some internet"
  show ?thesis
  proof (cases command)
    case (MqSetup queues_available stick_offset)
    then show ?thesis using names
      by (auto simp: to_commands_def mq_setup_def Let_def on_dev_def mq_queue_commands_def those_total)
  next
    case (AddSite params)
    then show ?thesis using names
      by (auto simp: to_commands_def add_site_def Let_def on_dev_def split: prod.splits)
  next
    case (AddCircuit params)
    then show ?thesis using names
      by (auto simp: to_commands_def add_circuit_def Let_def on_dev_def split: prod.splits)
  qed (simp add: to_commands_def)
qed

lemma build_step_total: "interfaces config \<noteq> None \<Longrightarrow> build_step config mq_layout extra preserved command b \<noteq> None"
proof -
  assume named: "interfaces config \<noteq> None"
  then have "with_assigned_qdisc_handles_reserved command config mq_layout (bb_handles b) extra \<noteq> None"
    by (auto simp: with_assigned_qdisc_handles_reserved_def split: BakeryCommands.splits)
  then show ?thesis using to_commands_total [OF named] by (auto simp: build_step_def Let_def)
qed

lemma build_batch_total: "interfaces config \<noteq> None \<Longrightarrow> build_batch config mq_layout extra preserved batch b \<noteq> None"
proof (induction batch arbitrary: b)
  case (Cons command batch)
  then show ?case using build_step_total [OF Cons.prems, of mq_layout extra preserved command b] by auto
qed simp

definition reload_outcome ::
  "Config \<Rightarrow> BakeryCommands list \<Rightarrow> MqDeviceLayout option \<Rightarrow> ('k, 'v, 'o) bakery \<Rightarrow> ('k, 'v, 'o) bakery \<Rightarrow> bool" where
  "reload_outcome config batch resolved s s' \<longleftrightarrow>
     reload_kept s s' \<and> reload_required s' \<noteq> None
     \<or> reload_committed config batch resolved s s' \<and> (reload_required s' = None \<longleftrightarrow> passthrough_degraded s' = None)"

lemma process_batch_total:
  "build_batch config mq_layout extra preserved batch b = Some b' \<Longrightarrow>
    \<exists>result w'. process_batch host path batch config b mq_layout extra preserved w = Some (b', result, w')"
  by (simp add: process_batch_def Let_def case_prod_unfold)

lemma reload_batch_outcome:
  assumes "interfaces config \<noteq> None" "reload_kept s previous" "reload_kept s now"
  shows "\<exists>s'. reload_batch host path config names managed batch resolved reserved preserved previous now = Some s'
    \<and> bk_batch s' = None \<and> reload_outcome config batch resolved s s'"
proof -
  let ?empty = "\<lparr>bb_commands = [], bb_sites = [], bb_circuits = [], bb_handles = default_handle_state,
    bb_mq_created = MQ_CREATED now\<rparr>"
  obtain b where b: "build_batch config (value_or resolved \<lparr>mq_devices = []\<rparr>) reserved preserved batch ?empty = Some b"
    using build_batch_total [OF assms(1)] by blast
  then obtain result w where run: "process_batch host path batch config ?empty (value_or resolved \<lparr>mq_devices = []\<rparr>)
      reserved preserved (bk_world now) = Some (b, result, w)"
    using process_batch_total by blast
  let ?now = "now\<lparr>bk_world := w, MQ_CREATED := bb_mq_created b\<rparr>"
  show ?thesis
  proof (cases "exec_ok result")
    case True
    let ?c = "commit_reload config resolved b ?now"
    have "reload_committed config batch resolved s ?c"
      using assms(3) build_batch_domain [OF b]
      by (auto simp: commit_reload_def reload_committed_def reload_kept_def clear_reload_required_def Let_def
          split: option.split)
    then have "reload_committed config batch resolved s (finish_reload host names managed ?c)"
      using finish_reload_keeps(1,2) [where s = ?c and host = host and names = names and managed = managed] by (simp add: reload_committed_def reload_kept_def)
    moreover have "reload_required ?c = None" by (simp add: commit_reload_def clear_reload_required_def Let_def)
    ultimately show ?thesis using True run finish_reload_keeps(3,4) [where s = ?c and host = host and names = names and managed = managed]
      by (simp add: reload_batch_def reload_outcome_def)
  next
    case False
    then show ?thesis using run assms(2,3)
      by (simp add: reload_batch_def reload_outcome_def rollback_reload_def reload_defs)
  qed
qed

lemma outcome_ignores_progress [simp]:
  "reload_kept (s\<lparr>FULL_RELOAD_IN_PROGRESS := x\<rparr>) s' = reload_kept s s'"
  "reload_kept s (s'\<lparr>FULL_RELOAD_IN_PROGRESS := x\<rparr>) = reload_kept s s'"
  "reload_committed config batch resolved (s\<lparr>FULL_RELOAD_IN_PROGRESS := x\<rparr>) s' = reload_committed config batch resolved s s'"
  "reload_committed config batch resolved s (s'\<lparr>FULL_RELOAD_IN_PROGRESS := x\<rparr>) = reload_committed config batch resolved s s'"
  by (simp_all add: reload_kept_def reload_committed_def)

lemma full_reload_body_outcome:
  assumes "interfaces config \<noteq> None"
  shows "\<exists>s'. full_reload_body host path config batch resolved s = Some s' \<and> bk_batch s' = None
    \<and> reload_outcome config batch resolved s s'"
proof -
  obtain e t where t: "bypass_guard_new host s = (e, t)" by fastforce
  obtain names where names: "interfaces config = Some names" using assms by blast
  have "managed_interfaces_for_config config \<noteq> None"
    using assms by (elim named_interfaces) (simp add: managed_interfaces_for_config_def)
  then obtain managed where managed: "managed_interfaces_for_config config = Some managed" by blast
  obtain r u where u: "update_world (prepare_root_mq_for_full_reload host managed) t = (r, u)" by fastforce
  let ?u = "u\<lparr>bk_world := invalidate_live_tc_snapshots (bk_world u), MQ_CREATED := True\<rparr>"
  obtain q v where v: "update_world (snapshot_live_qdisc_handle_majors host config names) ?u = (q, v)" by fastforce
  have kept: "reload_kept s t" using bypass_new_keeps [OF t] by blast
  then have "reload_kept s u" using update_world_keeps [OF u] by (auto simp: reload_kept_def)
  moreover from this have "reload_kept s v" using update_world_keeps [OF v] by (auto simp: reload_kept_def)
  ultimately show ?thesis
    using kept t names managed u v reload_batch_outcome [OF assms kept]
    by (cases e; cases r; cases q) (simp_all add: full_reload_body_def reload_outcome_def reload_defs)
qed


text \<open>A host with the retained root in place and the classifier attached, and an empty thread.\<close>

definition ready_host :: "unit host" where
  "ready_host =
     (let said = (\<lambda>t k. (Some \<lparr>out_code = Some 0, out_stdout = as_bytes t, out_stderr = []\<rparr>, k)) in
      \<lparr>host_now = (\<lambda>k. (0, k)), host_write_file = (\<lambda>path t k. (True, k)), host_run_batch = (\<lambda>t. said []),
       host_show_qdiscs = (\<lambda>name. said []), host_show_classes = (\<lambda>name. said []), host_meminfo = (\<lambda>k. (Err [], k)),
       host_parse_json = (\<lambda>t. Some (JArray [JObject [(''kind'', JString ''mq''), (''handle'', JString ''7fff:''),
         (''root'', JBool True)]])),
       host_show_filters = (\<lambda>name. said ''tc_iphash_to_cp''), host_set_bypass = (\<lambda>enabled k. (None, k))\<rparr>)"

definition observing_config :: Config where
  "observing_config = \<lparr>cfg_bridge = Some \<lparr>to_internet = ''eth0'', to_network = ''eth1''\<rparr>, cfg_single_interface = None,
     cfg_queues = \<lparr>default_sqm = ''cake'', queue_mode = Observe, uplink_bandwidth_mbps = 100,
       downlink_bandwidth_mbps = 100, lazy_queues = None, lazy_expire_seconds = None, fast_queues_fq_codel = None\<rparr>,
     cfg_stormguard = None\<rparr>"

definition empty_bakery :: "(unit, unit, unit) bakery" where
  "empty_bakery = \<lparr>bk_world = \<lparr>kernel = (), class_snapshots = [], qdisc_snapshots = []\<rparr>, bk_batch = Some [],
     bk_sites = [], bk_circuits = [], bk_live_circuits = [], bk_mq_layout = None, bk_qdisc_handles = default_handle_state,
     bk_saved_handles = None, bk_virtualized_sites = [], bk_runtime_node_operations = [], MQ_CREATED = False,
     SHAPING_TREE_ACTIVE = False, FULL_RELOAD_IN_PROGRESS = False, FIRST_COMMIT_APPLIED = False,
     STORMGUARD_TREE_GENERATION = 0, STORMGUARD_TREE_REBUILD_GENERATION = 0, reload_required = None,
     passthrough_degraded = None, live_capacity_interfaces = []\<rparr>"


end
