(* ===== verification/Stormguard_Batches.thy ===== *)
theory Stormguard_Batches
  imports Bakery_Reload
begin

text \<open>
  The class rates StormGuard changes while it is live (\<open>lqos_bakery/src/lib.rs\<close>): one batch per
  decision, rolled back when it fails, with the plan of every class it touched kept until the rates
  are restored. Loading the configuration is a parameter: the configuration, or the text of the error.
\<close>

section \<open>Adjustments\<close>

record StormGuardClassAdjustment =
  adj_interface_name :: string
  adj_class_id :: TcHandle
  adj_new_rate :: u64
  adj_previous_rate :: u64
  adj_planned_rate :: u64
  adj_planned_ceil :: u64

record StormGuardRestoreAdjustment =
  res_interface_name :: string
  res_class_id :: TcHandle
  res_planned_rate :: u64
  res_planned_ceil :: u64

record StormguardOverrideKey =
  key_interface :: string
  key_class :: TcHandle

record StormguardOverrideValue =
  val_planned_rate :: u64
  val_planned_ceil :: u64

type_synonym overrides = "(StormguardOverrideKey \<times> StormguardOverrideValue) list"

datatype StormguardError = SgText string | SgSnapshot TcError

definition stormguard_live_enabled :: "Config \<Rightarrow> bool" where
  "stormguard_live_enabled config =
     (case cfg_stormguard config of
        Some stormguard \<Rightarrow> stormguard_enabled stormguard \<and> \<not> stormguard_dry_run stormguard
      | None \<Rightarrow> False)"

definition live_tree_mutation_blocker_for_config :: "Config \<Rightarrow> ('k, 'v, 'o) bakery \<Rightarrow> string option" where
  "live_tree_mutation_blocker_for_config config s =
     (if FULL_RELOAD_IN_PROGRESS s then Some ''a full reload is currently in progress''
      else if is_observe (queue_mode (cfg_queues config))
      then Some ''queue_mode is observe; root MQ is retained but the shaping tree is not live''
      else if \<not> SHAPING_TREE_ACTIVE s then Some ''the shaping tree is not currently active''
      else None)"

definition record_stormguard_override :: "StormguardOverrideKey \<Rightarrow> u64 \<Rightarrow> u64 \<Rightarrow> overrides \<Rightarrow> overrides" where
  "record_stormguard_override key planned_rate planned_ceil overrides =
     (case map_of overrides key of
        Some _ \<Rightarrow> overrides
      | None \<Rightarrow> AList.update key \<lparr>val_planned_rate = planned_rate, val_planned_ceil = planned_ceil\<rparr> overrides)"

definition stormguard_effective_rate_pair :: "u64 \<Rightarrow> u64 \<Rightarrow> u64 \<Rightarrow> u64 \<times> u64" where
  "stormguard_effective_rate_pair effective_limit planned_rate planned_ceil =
     (if effective_limit \<ge> planned_ceil then (planned_rate, planned_ceil)
      else (saturating_sub effective_limit 1, effective_limit))"

definition stormguard_htb_command :: "string \<Rightarrow> TcHandle \<Rightarrow> u64 \<Rightarrow> u64 \<Rightarrow> argv" where
  "stormguard_htb_command interface_name handle rate ceil_rate =
     [''class'', ''replace'', ''dev'', interface_name, ''classid'', as_tc_string handle, ''htb'',
      ''rate'', dec_digits (unat rate) @ ''mbit'', ''ceil'', dec_digits (unat ceil_rate) @ ''mbit'']"

text \<open>The command that gives a class the rate \<open>limit\<close> within its plan.\<close>

definition rate_command :: "StormGuardClassAdjustment \<Rightarrow> u64 \<Rightarrow> argv" where
  "rate_command adjustment limit =
     (let (rate, ceil_rate) = stormguard_effective_rate_pair limit (adj_planned_rate adjustment)
            (adj_planned_ceil adjustment)
      in stormguard_htb_command (adj_interface_name adjustment) (adj_class_id adjustment) rate ceil_rate)"

definition summarize_apply_result :: "string \<Rightarrow> ExecuteResult \<Rightarrow> string" where
  "summarize_apply_result purpose result =
     (case failure_summary result of
        Some reason \<Rightarrow>
          if reason \<noteq> [] then purpose @ '': '' @ reason
          else if exec_ok result then purpose @ '': completed'' else purpose @ '': failed''
      | None \<Rightarrow> if exec_ok result then purpose @ '': completed'' else purpose @ '': failed'')"

definition execute_stormguard_batch_commands ::
  "'k host \<Rightarrow> StormGuardClassAdjustment list \<Rightarrow> argv list \<Rightarrow> 'k world \<Rightarrow> (unit, StormguardError) result \<times> 'k world" where
  "execute_stormguard_batch_commands host adjustments commands w =
     (let (result, w) = execute_in_memory host commands ''applying StormGuard class batch'' w in
      if exec_ok result then (Ok (), w)
      else
        let apply_error = summarize_apply_result ''applying StormGuard class batch'' result;
            rollback_commands = map (\<lambda>adjustment. rate_command adjustment (adj_previous_rate adjustment)) adjustments;
            (rollback, w) = execute_in_memory host rollback_commands ''rolling back failed StormGuard class batch'' w
        in if exec_ok rollback then (Err (SgText (apply_error @ ''; previous class rates restored'')), w)
           else (Err (SgText (apply_error @ ''; rollback also failed: ''
             @ summarize_apply_result ''rolling back failed StormGuard class batch'' rollback)), w))"

definition finish_stormguard_adjustment_batch ::
  "StormGuardClassAdjustment list \<Rightarrow> (unit, StormguardError) result \<Rightarrow> overrides
    \<Rightarrow> (unit, StormguardError) result \<times> overrides" where
  "finish_stormguard_adjustment_batch adjustments result overrides =
     (case result of
        Inl e \<Rightarrow> (Err e, overrides)
      | Inr _ \<Rightarrow>
          (Ok (), fold (\<lambda>adjustment.
             record_stormguard_override
               \<lparr>key_interface = adj_interface_name adjustment, key_class = adj_class_id adjustment\<rparr>
               (adj_planned_rate adjustment) (adj_planned_ceil adjustment)) adjustments overrides))"

text \<open>Everything a live batch has to pass before it may change a class.\<close>

definition stormguard_batch_gate ::
  "(Config, string) result \<Rightarrow> ('k, 'v, 'o) bakery \<Rightarrow> (unit, StormguardError) result" where
  "stormguard_batch_gate loaded s =
     (if \<not> MQ_CREATED s then Err (SgText ''StormGuard class batch received before MQ setup'')
      else case loaded of
        Inl e \<Rightarrow> Err (SgText (''failed to load configuration for StormGuard class batch: '' @ e))
      | Inr config \<Rightarrow>
          if \<not> stormguard_live_enabled config then Err (SgText ''StormGuard is disabled or in dry-run mode'')
          else case live_tree_mutation_blocker_for_config config s of
            Some reason \<Rightarrow> Err (SgText (''StormGuard live class batch is blocked because '' @ reason))
          | None \<Rightarrow> Ok ())"

definition apply_stormguard_adjustment_batch ::
  "'k host \<Rightarrow> (Config, string) result \<Rightarrow> u64 \<Rightarrow> bool \<Rightarrow> StormGuardClassAdjustment list \<Rightarrow> overrides
    \<Rightarrow> ('k, 'v, 'o) bakery \<Rightarrow> (unit, StormguardError) result \<times> overrides \<times> ('k, 'v, 'o) bakery" where
  "apply_stormguard_adjustment_batch host loaded tree_generation dry_run adjustments overrides s =
     (if tree_generation \<noteq> STORMGUARD_TREE_GENERATION s
      then (Err (SgText (''StormGuard class batch used shaping-tree generation ''
              @ dec_digits (unat tree_generation) @ '', but Bakery is at generation ''
              @ dec_digits (unat (STORMGUARD_TREE_GENERATION s)))), overrides, s)
      else if adjustments = []
      then (Err (SgText ''StormGuard class batch must contain at least one adjustment''), overrides, s)
      else if dry_run then (Ok (), overrides, s)
      else case stormguard_batch_gate loaded s of
        Inl e \<Rightarrow> (Err e, overrides, s)
      | Inr _ \<Rightarrow>
          let commands = map (\<lambda>adjustment. rate_command adjustment (adj_new_rate adjustment)) adjustments;
              (result, s) = update_world (execute_stormguard_batch_commands host adjustments commands) s;
              (result, overrides) = finish_stormguard_adjustment_batch adjustments result overrides
          in (result, overrides, s))"

section \<open>Restoring the plan\<close>

definition restoration_key :: "StormGuardRestoreAdjustment \<Rightarrow> StormguardOverrideKey" where
  "restoration_key r = \<lparr>key_interface = res_interface_name r, key_class = res_class_id r\<rparr>"

definition stormguard_restorations ::
  "StormGuardRestoreAdjustment list \<Rightarrow> bool \<Rightarrow> overrides \<Rightarrow> StormGuardRestoreAdjustment list" where
  "stormguard_restorations adjustments restore_untracked overrides =
     (let restorations =
            (if restore_untracked
             then fold (\<lambda>adjustment. AList.update (restoration_key adjustment) adjustment) adjustments [] else []);
          restorations =
            fold (\<lambda>(key, val). AList.update key
                \<lparr>res_interface_name = key_interface key, res_class_id = key_class key,
                 res_planned_rate = val_planned_rate val, res_planned_ceil = val_planned_ceil val\<rparr>)
              overrides restorations
      in map snd restorations)"

definition stormguard_restore_precondition :: "bool \<Rightarrow> bool \<Rightarrow> bool \<Rightarrow> (unit, StormguardError) result" where
  "stormguard_restore_precondition restore_untracked mq_ready full_reload_in_progress =
     (if full_reload_in_progress then Err (SgText ''a full Bakery reload is currently in progress'')
      else if \<not> restore_untracked \<and> \<not> mq_ready then Err (SgText ''Bakery MQ setup has not completed'')
      else Ok ())"

definition stormguard_reset_command_precondition ::
  "u64 \<Rightarrow> u64 \<Rightarrow> bool \<Rightarrow> bool \<Rightarrow> bool \<Rightarrow> bool \<Rightarrow> bool \<Rightarrow> (unit, StormguardError) result" where
  "stormguard_reset_command_precondition requested current rebuild_batch_open has_work restore_untracked mq_ready
      full_reload_in_progress =
     (if requested \<noteq> current
      then Err (SgText (''StormGuard reset used shaping-tree generation '' @ dec_digits (unat requested)
             @ '', but Bakery is at generation '' @ dec_digits (unat current)))
      else if rebuild_batch_open then Err (SgText ''Bakery queue rebuild batch is still open'')
      else if has_work then stormguard_restore_precondition restore_untracked mq_ready full_reload_in_progress
      else Ok ())"

definition stormguard_restore_commands ::
  "StormGuardRestoreAdjustment list \<Rightarrow> (string \<times> TcHandle list) list \<Rightarrow> argv list" where
  "stormguard_restore_commands restorations live_classes =
     List.map_filter (\<lambda>r.
       case map_of live_classes (res_interface_name r) of
         Some classes \<Rightarrow>
           if res_class_id r \<in> set classes
           then Some (stormguard_htb_command (res_interface_name r) (res_class_id r)
                  (res_planned_rate r) (res_planned_ceil r))
           else None
       | None \<Rightarrow> None) restorations"

definition finish_stormguard_restore ::
  "(unit, StormguardError) result \<Rightarrow> overrides \<Rightarrow> (unit, StormguardError) result \<times> overrides" where
  "finish_stormguard_restore result overrides =
     (case result of Inl e \<Rightarrow> (Err e, overrides) | Inr _ \<Rightarrow> (Ok (), []))"

fun live_classes_loop ::
  "'k host \<Rightarrow> StormGuardRestoreAdjustment list \<Rightarrow> (string \<times> TcHandle list) list \<Rightarrow> 'k world
    \<Rightarrow> ((string \<times> TcHandle list) list, TcError) result \<times> 'k world" where
  "live_classes_loop host [] live w = (Ok live, w)"
| "live_classes_loop host (r # rest) live w =
     (if map_of live (res_interface_name r) \<noteq> None then live_classes_loop host rest live w
      else case read_live_class_snapshot host (res_interface_name r) w of
        (Inl e, w) \<Rightarrow> (Err e, w)
      | (Inr snapshot, w) \<Rightarrow>
          live_classes_loop host rest (AList.update (res_interface_name r) (map fst snapshot) live) w)"

definition restore_live_classes ::
  "'k host \<Rightarrow> StormGuardRestoreAdjustment list \<Rightarrow> 'k world \<Rightarrow> (unit, StormguardError) result \<times> 'k world" where
  "restore_live_classes host restorations w =
     (case live_classes_loop host restorations [] (invalidate_live_tc_snapshots w) of
        (Inl e, w) \<Rightarrow> (Err (SgSnapshot e), w)
      | (Inr live, w) \<Rightarrow>
          let commands = stormguard_restore_commands restorations live in
          if commands = [] then (Ok (), w)
          else
            let (result, w) = execute_in_memory host commands ''restoring StormGuard planned rates'' w
            in (if exec_ok result then Ok ()
                else Err (SgText (summarize_apply_result ''restoring StormGuard planned rates'' result)), w))"

definition reset_stormguard_adjustments ::
  "'k host \<Rightarrow> (Config, string) result \<Rightarrow> StormGuardRestoreAdjustment list \<Rightarrow> bool \<Rightarrow> overrides
    \<Rightarrow> ('k, 'v, 'o) bakery \<Rightarrow> (unit, StormguardError) result \<times> overrides \<times> ('k, 'v, 'o) bakery" where
  "reset_stormguard_adjustments host loaded adjustments restore_untracked overrides s =
     (if overrides = [] \<and> (\<not> restore_untracked \<or> adjustments = []) then (Ok (), [], s)
      else case and_then
          (stormguard_restore_precondition restore_untracked (MQ_CREATED s) (FULL_RELOAD_IN_PROGRESS s))
          (\<lambda>_. if restore_untracked then Ok ()
               else case loaded of
                 Inl e \<Rightarrow> Err (SgText (''failed to load configuration: '' @ e))
               | Inr config \<Rightarrow>
                   (case live_tree_mutation_blocker_for_config config s of
                      Some reason \<Rightarrow> Err (SgText (''live queue mutation is blocked because '' @ reason))
                    | None \<Rightarrow> Ok ())) of
        Inl e \<Rightarrow> (Err e, overrides, s)
      | Inr _ \<Rightarrow>
          let (result, s) = update_world (restore_live_classes host
                (stormguard_restorations adjustments restore_untracked overrides)) s;
              (result, overrides) = finish_stormguard_restore result overrides
          in (result, overrides, s))"

section \<open>Circuits\<close>

definition circuit_with_sqm_override ::
  "BakeryCommands \<Rightarrow> string option \<Rightarrow> (BakeryCommands, StormguardError) result" where
  "circuit_with_sqm_override existing sqm_override =
     (case existing of
        AddCircuit params \<Rightarrow> Ok (AddCircuit (params\<lparr>circuit_sqm_override := sqm_override\<rparr>))
      | _ \<Rightarrow> Err (SgText ''existing Bakery circuit state is not AddCircuit''))"

definition apply_stormguard_circuit_adjustment ::
  "'k host \<Rightarrow> (Config, string) result \<Rightarrow> i64 \<Rightarrow> string option \<Rightarrow> ('k, 'v, 'o) bakery
    \<Rightarrow> ((bool, StormguardError) result \<times> ('k, 'v, 'o) bakery) option" where
  "apply_stormguard_circuit_adjustment host loaded hash sqm_override s =
     (case map_of (bk_circuits s) hash of
        None \<Rightarrow> Some (Ok False, s)
      | Some existing \<Rightarrow>
          case circuit_with_sqm_override existing sqm_override of
            Inl e \<Rightarrow> Some (Err e, s)
          | Inr command \<Rightarrow>
              if \<not> MQ_CREATED s then Some (Err (SgText ''Bakery MQ setup has not completed''), s)
              else case loaded of
                Inl e \<Rightarrow> Some (Err (SgText (''failed to load configuration: '' @ e)), s)
              | Inr config \<Rightarrow>
                  (case live_tree_mutation_blocker_for_config config s of
                     Some reason \<Rightarrow> Some (Err (SgText (''live queue mutation is blocked because '' @ reason)), s)
                   | None \<Rightarrow>
                       map_option (\<lambda>(commands, _).
                         case commands of
                           Some (c # cs) \<Rightarrow>
                             (let (result, s) = update_world (execute_in_memory host (c # cs)
                                    ''applying StormGuard circuit SQM adjustment'') s in
                              if exec_ok result
                              then (Ok True, s\<lparr>bk_circuits := AList.update hash command (bk_circuits s)\<rparr>)
                              else (Err (SgText (summarize_apply_result
                                     ''applying StormGuard circuit SQM adjustment'' result)), s))
                         | _ \<Rightarrow> (Err (SgText ''StormGuard circuit adjustment produced no live tc commands''), s))
                         (to_commands command config Builder (MQ_CREATED s))))"

end
