(* ===== verification/Stormguard_Properties.thy ===== *)
theory Stormguard_Properties
  imports Stormguard_Batches Reload_Properties
begin

text \<open>
  What StormGuard's batches remember and what a reset gives back (\<open>lqos_bakery/src/lib.rs\<close>): the table
  of overridden classes is a map that keeps the first plan of a class since the last reset.
\<close>

section \<open>Runs of batches and resets\<close>

datatype stormguard_op =
    AdjustBatch "(Config, string) result" u64 bool "StormGuardClassAdjustment list"
  | ResetBatch "(Config, string) result" "StormGuardRestoreAdjustment list" bool

definition stormguard_call ::
  "'k host \<Rightarrow> stormguard_op \<Rightarrow> overrides \<Rightarrow> ('k, 'v, 'o) bakery
    \<Rightarrow> (unit, StormguardError) result \<times> overrides \<times> ('k, 'v, 'o) bakery" where
  "stormguard_call host op overrides s = (case op of
       AdjustBatch loaded generation dry_run adjustments \<Rightarrow>
         apply_stormguard_adjustment_batch host loaded generation dry_run adjustments overrides s
     | ResetBatch loaded adjustments restore_untracked \<Rightarrow>
         reset_stormguard_adjustments host loaded adjustments restore_untracked overrides s)"

fun stormguard_run ::
  "'k host \<Rightarrow> stormguard_op list \<Rightarrow> overrides \<Rightarrow> ('k, 'v, 'o) bakery
    \<Rightarrow> (unit, StormguardError) result list \<times> overrides \<times> ('k, 'v, 'o) bakery" where
  "stormguard_run host [] overrides s = ([], overrides, s)"
| "stormguard_run host (op # ops) overrides s =
     (let (result, overrides, s) = stormguard_call host op overrides s;
          (results, overrides, s) = stormguard_run host ops overrides s
      in (result # results, overrides, s))"

section \<open>The plans that are remembered\<close>

type_synonym plans = "StormguardOverrideKey \<rightharpoonup> StormguardOverrideValue"

definition first_touched :: "StormGuardClassAdjustment list \<Rightarrow> overrides" where
  "first_touched adjustments = map (\<lambda>a. (\<lparr>key_interface = adj_interface_name a, key_class = adj_class_id a\<rparr>,
     \<lparr>val_planned_rate = adj_planned_rate a, val_planned_ceil = adj_planned_ceil a\<rparr>)) adjustments"

text \<open>A live batch that succeeded adds the classes it is the first to touch; a reset that succeeded forgets all.\<close>

fun plan_step :: "plans \<Rightarrow> stormguard_op \<times> (unit, StormguardError) result \<Rightarrow> plans" where
  "plan_step plans (_, Inl _) = plans"
| "plan_step plans (AdjustBatch _ _ dry_run adjustments, Inr _) =
     (if dry_run then plans else map_of (first_touched adjustments) ++ plans)"
| "plan_step plans (ResetBatch _ _ _, Inr _) = Map.empty"

lemma map_of_record:
  "map_of (record_stormguard_override key rate_max ceil_max overrides) =
    [key \<mapsto> \<lparr>val_planned_rate = rate_max, val_planned_ceil = ceil_max\<rparr>] ++ map_of overrides"
  by (auto simp: record_stormguard_override_def map_add_def update_conv' fun_eq_iff split: option.splits)

lemma map_of_recorded:
  "map_of (fold (\<lambda>a. record_stormguard_override \<lparr>key_interface = adj_interface_name a, key_class = adj_class_id a\<rparr>
      (adj_planned_rate a) (adj_planned_ceil a)) adjustments overrides) = map_of (first_touched adjustments) ++ map_of overrides"
proof (induction adjustments arbitrary: overrides)
  case (Cons a adjustments)
  have "map_of (first_touched (a # adjustments)) ++ map_of overrides = map_of (first_touched adjustments)
      ++ ([\<lparr>key_interface = adj_interface_name a, key_class = adj_class_id a\<rparr> \<mapsto>
        \<lparr>val_planned_rate = adj_planned_rate a, val_planned_ceil = adj_planned_ceil a\<rparr>] ++ map_of overrides)"
    by (auto simp: first_touched_def fun_eq_iff map_add_def split: option.split)
  then show ?case using Cons.IH by (simp add: map_of_record del: map_add_assoc)
qed (simp add: first_touched_def)

lemma distinct_recorded:
  "distinct (map fst overrides) \<Longrightarrow> distinct (map fst (fold (\<lambda>a. record_stormguard_override (k a) (r a) (c a)) as overrides))"
  by (induction as arbitrary: overrides)
    (auto simp: record_stormguard_override_def AList.distinct_update split: option.splits)

lemma adjust_result:
  assumes "apply_stormguard_adjustment_batch host loaded generation dry_run adjustments overrides s = (result, overrides', s')"
  shows "overrides' = (if dry_run \<or> isl result then overrides
    else fold (\<lambda>a. record_stormguard_override \<lparr>key_interface = adj_interface_name a, key_class = adj_class_id a\<rparr>
      (adj_planned_rate a) (adj_planned_ceil a)) adjustments overrides)"
  using assms
  by (cases result)
    (auto simp: apply_stormguard_adjustment_batch_def finish_stormguard_adjustment_batch_def Let_def
      split: if_splits sum.splits prod.splits simp del: append.simps)

lemma reset_result:
  assumes "reset_stormguard_adjustments host loaded adjustments untracked overrides s = (result, overrides', s')"
  shows "overrides' = (if isl result then overrides else [])"
  using assms
  by (cases result)
    (auto simp: reset_stormguard_adjustments_def finish_stormguard_restore_def Let_def
      split: if_splits sum.splits prod.splits simp del: append.simps)

lemma op_plans:
  assumes "stormguard_call host op overrides s = (result, overrides', s')"
  shows "map_of overrides' = plan_step (map_of overrides) (op, result)"
    and "distinct (map fst overrides) \<Longrightarrow> distinct (map fst overrides')"
proof -
  have "map_of overrides' = plan_step (map_of overrides) (op, result)
    \<and> (distinct (map fst overrides) \<longrightarrow> distinct (map fst overrides'))"
  proof (cases op)
    case (AdjustBatch loaded generation dry_run adjustments)
    then show ?thesis using adjust_result [of host loaded generation dry_run adjustments overrides s] assms
      by (cases result) (simp_all add: stormguard_call_def map_of_recorded distinct_recorded)
  next
    case (ResetBatch loaded adjustments untracked)
    then show ?thesis using reset_result [of host loaded adjustments untracked overrides s] assms
      by (cases result) (simp_all add: stormguard_call_def)
  qed
  then show "map_of overrides' = plan_step (map_of overrides) (op, result)"
    "distinct (map fst overrides) \<Longrightarrow> distinct (map fst overrides')" by blast+
qed

lemma run_plans:
  assumes "stormguard_run host ops overrides s = (results, overrides', s')"
  shows "map_of overrides' = foldl plan_step (map_of overrides) (zip ops results)"
    and "distinct (map fst overrides) \<Longrightarrow> distinct (map fst overrides')"
  using assms
  by (induction host ops overrides s arbitrary: results rule: stormguard_run.induct)
    (auto simp: Let_def op_plans split: prod.splits)

section \<open>What a reset gives back\<close>

definition restored :: "StormguardOverrideKey \<Rightarrow> StormguardOverrideValue \<Rightarrow> StormGuardRestoreAdjustment" where
  "restored key val = \<lparr>res_interface_name = key_interface key, res_class_id = key_class key,
     res_planned_rate = val_planned_rate val, res_planned_ceil = val_planned_ceil val\<rparr>"

lemma map_of_fold_update:
  "distinct (map fst entries) \<Longrightarrow> map_of (fold (\<lambda>(k, v). AList.update k (f k v)) entries base) k =
    (case map_of entries k of Some v \<Rightarrow> Some (f k v) | None \<Rightarrow> map_of base k)"
proof (induction entries arbitrary: base)
  case (Cons entry entries)
  obtain k' v' where [simp]: "entry = (k', v')" by fastforce
  have "map_of entries k' = None" using Cons.prems by (simp add: map_of_eq_None_iff)
  then show ?case using Cons by (auto simp: update_conv' split: option.split)
qed simp

lemma distinct_fold_update:
  "distinct (map fst base) \<Longrightarrow> distinct (map fst (fold (\<lambda>x. AList.update (k x) (v x)) entries base))"
  by (induction entries arbitrary: base) (simp_all add: AList.distinct_update)

lemma untracked_entries:
  "map_of (fold (\<lambda>a. AList.update (restoration_key a) a) adjustments base) k = Some r \<Longrightarrow>
    map_of base k = Some r \<or> r \<in> set adjustments \<and> restoration_key r = k"
  by (induction adjustments arbitrary: base) (fastforce simp: update_conv' split: if_splits)+

lemma restorations_of:
  fixes overrides and adjustments and untracked
  assumes "distinct (map fst overrides)"
  defines "rs \<equiv> set (stormguard_restorations adjustments untracked overrides)"
  shows "map_of overrides key = Some val \<Longrightarrow> restored key val \<in> rs"
    and "r \<in> rs \<Longrightarrow> (\<exists>key val. map_of overrides key = Some val \<and> r = restored key val)
      \<or> untracked \<and> r \<in> set adjustments \<and> map_of overrides (restoration_key r) = None"
proof -
  let ?base = "if untracked then fold (\<lambda>a. AList.update (restoration_key a) a) adjustments [] else []"
  let ?table = "fold (\<lambda>(k, v). AList.update k (restored k v)) overrides ?base"
  have rs: "rs = snd ` set ?table"
    by (simp add: rs_def stormguard_restorations_def Let_def restored_def)
  have "distinct (map fst ?base)" using distinct_fold_update [of "[]"] by auto
  then have "distinct (map fst ?table)" unfolding case_prod_unfold by (rule distinct_fold_update)
  then have table: "(k, r) \<in> set ?table \<longleftrightarrow> map_of ?table k = Some r" for k r by simp
  note lookup = map_of_fold_update [OF assms(1), of restored ?base]
  show "restored key val \<in> rs" if "map_of overrides key = Some val"
    using that lookup [of key] by (force simp: rs table [symmetric] image_iff)
  assume "r \<in> rs"
  then obtain k where "map_of ?table k = Some r" by (auto simp: rs table)
  then show "(\<exists>key val. map_of overrides key = Some val \<and> r = restored key val)
      \<or> untracked \<and> r \<in> set adjustments \<and> map_of overrides (restoration_key r) = None"
    using lookup [of k] untracked_entries [of adjustments "[]" k r] by (auto split: option.splits if_splits)
qed

lemma class_snapshot_log:
  "read_live_class_snapshot (logging host) interface w = (r, w') \<Longrightarrow> batch_log w' = batch_log w"
  by (auto simp: read_live_class_snapshot_def logging_def on_snd_def Let_def split: prod.splits option.splits sum.splits)

lemma live_classes_cover:
  assumes "live_classes_loop (logging host) rs live w = (result, w')"
  shows "batch_log w' = batch_log w \<and> (\<forall>live'. result = Inr live' \<longrightarrow> dom (map_of live) \<union> res_interface_name ` set rs \<subseteq> dom (map_of live'))"
  using assms
proof (induction rs arbitrary: live w)
  case (Cons r rs)
  show ?case
  proof (cases "map_of live (res_interface_name r)")
    case (Some classes)
    then show ?thesis using Cons.IH [of live w] Cons.prems by auto
  next
    case None
    obtain q u where q: "read_live_class_snapshot (logging host) (res_interface_name r) w = (q, u)" by fastforce
    show ?thesis
    proof (cases q)
      case (Inl e)
      then show ?thesis using Cons.prems None q class_snapshot_log [OF q] by auto
    next
      case (Inr snapshot)
      let ?live = "AList.update (res_interface_name r) (map fst snapshot) live"
      have "live_classes_loop (logging host) rs ?live u = (result, w')" using Cons.prems None q Inr by simp
      moreover have "dom (map_of ?live) = insert (res_interface_name r) (dom (map_of live))"
        by (simp add: update_conv' fun_upd_def [symmetric])
      ultimately show ?thesis using Cons.IH [of ?live u] class_snapshot_log [OF q] by simp
    qed
  qed
qed auto

lemma execute_in_memory_log:
  assumes "execute_in_memory (logging host) commands purpose w = (result, w')" "exec_ok result" "commands \<noteq> []"
  shows "batch_log w' = batch_log w @ [command_text commands]"
proof -
  have one: "chunks (max 1 (length commands)) commands = [commands]"
    using assms(3) by (subst chunks.simps) (simp add: chunks.simps)
  obtain written u where u: "write_command_file (logging host) ''/tmp/lqos_bakery_commands.txt'' commands w = (written, u)"
    by fastforce
  then have "chunk_loop (logging host) purpose None 1 0 [commands] u = (result, w')"
    using assms one by (auto simp: execute_in_memory_def execute_in_memory_chunked_def Let_def split: option.splits)
  from chunk_loop_log [OF this] show ?thesis using assms(2) write_log [OF u] by auto
qed

lemma restore_live_classes_log:
  assumes "restore_live_classes (logging host) rs w = (Inr (), w')"
  obtains live where "fst (live_classes_loop (logging host) rs [] (invalidate_live_tc_snapshots w)) = Inr live"
    "batch_log w' = batch_log w @ (case stormguard_restore_commands rs live of [] \<Rightarrow> [] | cs \<Rightarrow> [command_text cs])"
    "res_interface_name ` set rs \<subseteq> dom (map_of live)"
proof -
  obtain r u where u: "live_classes_loop (logging host) rs [] (invalidate_live_tc_snapshots w) = (r, u)" by fastforce
  then obtain live where r: "r = Inr live" using assms by (cases r) (auto simp: restore_live_classes_def)
  note cover = live_classes_cover [OF u]
  let ?cs = "stormguard_restore_commands rs live"
  have "batch_log w' = batch_log w @ (case ?cs of [] \<Rightarrow> [] | cs \<Rightarrow> [command_text cs])"
  proof (cases "?cs = []")
    case True
    then show ?thesis using assms u r cover by (simp add: restore_live_classes_def)
  next
    case False
    obtain result v where v: "execute_in_memory (logging host) ?cs ''restoring StormGuard planned rates'' u = (result, v)"
      by fastforce
    then have "exec_ok result" "w' = v"
      using assms u r False by (auto simp: restore_live_classes_def split: if_splits)
    then show ?thesis using execute_in_memory_log [OF v _ False] cover False by (simp split: list.split)
  qed
  then show thesis using that [of live] u r cover by auto
qed

definition plan_command :: "StormguardOverrideKey \<Rightarrow> StormguardOverrideValue \<Rightarrow> argv" where
  "plan_command key val =
     stormguard_htb_command (key_interface key) (key_class key) (val_planned_rate val) (val_planned_ceil val)"

definition untracked_command :: "plans \<Rightarrow> StormGuardRestoreAdjustment list \<Rightarrow> argv \<Rightarrow> bool" where
  "untracked_command plans adjustments command \<longleftrightarrow> (\<exists>r. r \<in> set adjustments \<and> plans (restoration_key r) = None
     \<and> command = stormguard_htb_command (res_interface_name r) (res_class_id r) (res_planned_rate r) (res_planned_ceil r))"

lemma restore_commands_of:
  fixes overrides and adjustments and untracked
  assumes "distinct (map fst overrides)"
  defines "cs \<equiv> \<lambda>live. set (stormguard_restore_commands (stormguard_restorations adjustments untracked overrides) live)"
  shows "map_of overrides key = Some val \<Longrightarrow> map_of live (key_interface key) = Some classes \<Longrightarrow>
      key_class key \<in> set classes \<Longrightarrow> plan_command key val \<in> cs live"
    and "command \<in> cs live \<Longrightarrow> (\<exists>key val. map_of overrides key = Some val \<and> command = plan_command key val)
      \<or> untracked \<and> untracked_command (map_of overrides) adjustments command"
proof -
  note members = restorations_of [OF assms(1), where adjustments = adjustments and untracked = untracked]
  show "plan_command key val \<in> cs live" if "map_of overrides key = Some val" "map_of live (key_interface key) = Some classes"
      "key_class key \<in> set classes"
    using members(1) [OF that(1)] that
    by (auto simp: cs_def stormguard_restore_commands_def map_filter_def restored_def plan_command_def
        intro!: image_eqI [of _ _ "restored key val"] split: option.splits if_splits)
  assume "command \<in> cs live"
  then obtain r where r: "r \<in> set (stormguard_restorations adjustments untracked overrides)"
    "command = stormguard_htb_command (res_interface_name r) (res_class_id r) (res_planned_rate r) (res_planned_ceil r)"
    by (auto simp: cs_def stormguard_restore_commands_def map_filter_def split: option.splits if_splits)
  from members(2) [OF r(1)] show "(\<exists>key val. map_of overrides key = Some val \<and> command = plan_command key val)
      \<or> untracked \<and> untracked_command (map_of overrides) adjustments command"
  proof (elim disjE exE conjE)
    fix key val
    assume "map_of overrides key = Some val" "r = restored key val"
    moreover from this have "command = plan_command key val" by (simp add: r(2) plan_command_def restored_def)
    ultimately show ?thesis by blast
  next
    assume "untracked" "r \<in> set adjustments" "map_of overrides (restoration_key r) = None"
    then show ?thesis using r(2) unfolding untracked_command_def by blast
  qed
qed

lemma restore_tracked:
  assumes "distinct (map fst overrides)" "map_of overrides key = Some val"
    and restore: "restore_live_classes (logging host) (stormguard_restorations adjustments untracked overrides) w = (Inr (), w')"
  shows "\<exists>live classes. fst (live_classes_loop (logging host) (stormguard_restorations adjustments untracked overrides) []
        (invalidate_live_tc_snapshots w)) = Inr live
    \<and> map_of live (key_interface key) = Some classes
    \<and> (key_class key \<in> set classes \<longrightarrow>
        (\<exists>commands. plan_command key val \<in> set commands \<and> batch_log w' = batch_log w @ [command_text commands]))"
proof -
  let ?rs = "stormguard_restorations adjustments untracked overrides"
  from restore_live_classes_log [OF restore] obtain live where
    live: "fst (live_classes_loop (logging host) ?rs [] (invalidate_live_tc_snapshots w)) = Inr live"
      "batch_log w' = batch_log w @ (case stormguard_restore_commands ?rs live of [] \<Rightarrow> [] | cs \<Rightarrow> [command_text cs])"
      "res_interface_name ` set ?rs \<subseteq> dom (map_of live)" .
  have "key_interface key \<in> dom (map_of live)"
    using live(3) restorations_of(1) [OF assms(1,2), where adjustments = adjustments and untracked = untracked]
    by (force simp: restored_def)
  then obtain classes where classes: "map_of live (key_interface key) = Some classes" by blast
  have "\<exists>commands. plan_command key val \<in> set commands \<and> batch_log w' = batch_log w @ [command_text commands]"
    if "key_class key \<in> set classes"
  proof -
    have "plan_command key val \<in> set (stormguard_restore_commands ?rs live)"
      using assms(1,2) classes that by (rule restore_commands_of(1))
    moreover from this have "batch_log w' = batch_log w @ [command_text (stormguard_restore_commands ?rs live)]"
      using live(2) by (cases "stormguard_restore_commands ?rs live") simp_all
    ultimately show ?thesis by blast
  qed
  then show ?thesis using live(1) classes by blast
qed

lemma restore_only:
  assumes "distinct (map fst overrides)"
    and restore: "restore_live_classes (logging host) (stormguard_restorations adjustments untracked overrides) w = (Inr (), w')"
  shows "\<exists>commands. batch_log w' = batch_log w @ (if commands = [] then [] else [command_text commands])
    \<and> list_all (\<lambda>command. (\<exists>key val. map_of overrides key = Some val \<and> command = plan_command key val)
        \<or> untracked \<and> untracked_command (map_of overrides) adjustments command) commands"
proof -
  let ?rs = "stormguard_restorations adjustments untracked overrides"
  from restore_live_classes_log [OF restore] obtain live where
    "batch_log w' = batch_log w @ (case stormguard_restore_commands ?rs live of [] \<Rightarrow> [] | cs \<Rightarrow> [command_text cs])"
    by blast
  then show ?thesis
    using restore_commands_of(2) [OF assms(1), where adjustments = adjustments and untracked = untracked and live = live]
    by (intro exI [of _ "stormguard_restore_commands ?rs live"]) (auto simp: list_all_iff split: list.split)
qed

lemma reset_outcome:
  assumes "reset_stormguard_adjustments host loaded adjustments untracked overrides s = (Inr (), overrides', s')"
  shows "overrides = [] \<and> s' = s
    \<or> restore_live_classes host (stormguard_restorations adjustments untracked overrides) (bk_world s) = (Inr (), bk_world s')"
  using assms by (auto simp: reset_stormguard_adjustments_def finish_stormguard_restore_def update_world_def Let_def
      split: if_splits sum.splits prod.splits simp del: append.simps)


text \<open>A host that has the class 1:10 and on which everything succeeds, and an active tree.\<close>

definition shaping_host :: "unit host" where
  "shaping_host =
     (let said = (\<lambda>t k. (Some \<lparr>out_code = Some 0, out_stdout = as_bytes t, out_stderr = []\<rparr>, k)) in
      \<lparr>host_now = (\<lambda>k. (0, k)), host_write_file = (\<lambda>path t k. (True, k)), host_run_batch = (\<lambda>t. said []),
       host_show_qdiscs = (\<lambda>name. said []), host_show_classes = (\<lambda>name. said ''class htb 1:10''),
       host_meminfo = (\<lambda>k. (Err [], k)), host_parse_json = (\<lambda>t. None), host_show_filters = (\<lambda>name. said []),
       host_set_bypass = (\<lambda>enabled k. (None, k))\<rparr>)"

definition shaping_config :: Config where
  "shaping_config = \<lparr>cfg_bridge = Some \<lparr>to_internet = ''eth0'', to_network = ''eth1''\<rparr>, cfg_single_interface = None,
     cfg_queues = \<lparr>default_sqm = ''cake'', queue_mode = Shape, uplink_bandwidth_mbps = 100,
       downlink_bandwidth_mbps = 100, lazy_queues = None, lazy_expire_seconds = None, fast_queues_fq_codel = None\<rparr>,
     cfg_stormguard = Some \<lparr>stormguard_enabled = True, stormguard_dry_run = False\<rparr>\<rparr>"

definition shaping_bakery :: "(string list \<times> unit, unit, unit) bakery" where
  "shaping_bakery = \<lparr>bk_world = fresh_world ([], ()), bk_batch = None,
     bk_sites = [], bk_circuits = [], bk_live_circuits = [], bk_mq_layout = None, bk_qdisc_handles = default_handle_state,
     bk_saved_handles = None, bk_virtualized_sites = [], bk_runtime_node_operations = [], MQ_CREATED = True,
     SHAPING_TREE_ACTIVE = True, FULL_RELOAD_IN_PROGRESS = False, FIRST_COMMIT_APPLIED = True,
     STORMGUARD_TREE_GENERATION = 3, STORMGUARD_TREE_REBUILD_GENERATION = 3, reload_required = None,
     passthrough_degraded = None, live_capacity_interfaces = []\<rparr>"

definition lowered :: "u64 \<Rightarrow> u64 \<Rightarrow> stormguard_op" where
  "lowered rate_new plan = AdjustBatch (Ok shaping_config) 3 False [\<lparr>adj_interface_name = ''eth1'', adj_class_id = 0x10010,
     adj_new_rate = rate_new, adj_previous_rate = 90, adj_planned_rate = 10, adj_planned_ceil = plan\<rparr>]"


end
