(* ===== verification/Live_Migration.thy ===== *)
theory Live_Migration
  imports Stormguard_Batches
begin

text \<open>
  Moving a circuit to another class while it carries traffic (\<open>lqos_bakery/src/lib.rs\<close>): a shadow
  class with the old rates is built and verified, the circuit's addresses are moved to it, the final
  class is built and verified, the addresses move again, and the shadow class is removed. Every tick
  advances at most sixteen migrations by one stage. The kernel's address map, the clock, the
  configuration file and the fault file of the tests belong to the host; \<open>None\<close> is the panic of a
  configuration without interfaces. Log messages, activity events and display snapshots are left out.
\<close>

section \<open>The host of live changes\<close>

text \<open>\<open>live_add_ip\<close>, \<open>live_del_ip\<close> and \<open>live_clear_hot_cache\<close> are \<open>lqos_sys::add_ip_to_tc\<close>,
  \<open>del_ip_from_tc\<close> and \<open>clear_hot_cache\<close>; each gives the text of its error.\<close>

record 'k live_host =
  tc_host :: "'k host"
  live_read_file :: "string \<Rightarrow> 'k \<Rightarrow> string option \<times> 'k"
  live_remove_file :: "string \<Rightarrow> 'k \<Rightarrow> 'k"
  live_load_config :: "'k \<Rightarrow> (Config, string) result \<times> 'k"
  live_timestamp :: "'k \<Rightarrow> u64 \<times> 'k"
  live_add_ip :: "string \<Rightarrow> TcHandle \<Rightarrow> u32 \<Rightarrow> 'k \<Rightarrow> string option \<times> 'k"
  live_del_ip :: "string \<Rightarrow> 'k \<Rightarrow> string option \<times> 'k"
  live_clear_hot_cache :: "'k \<Rightarrow> string option \<times> 'k"

definition on_kernel :: "('k \<Rightarrow> 'a \<times> 'k) \<Rightarrow> ('k, 'v, 'o) bakery \<Rightarrow> 'a \<times> ('k, 'v, 'o) bakery" where
  "on_kernel f s = update_world (\<lambda>w. let (a, k) = f (kernel w) in (a, w\<lparr>kernel := k\<rparr>)) s"

section \<open>Migrations\<close>

datatype MigrationStage =
    PrepareShadow
  | VerifyShadowReady
  | SwapToShadow
  | BuildFinal
  | VerifyFinalReady
  | SwapToFinal
  | TeardownMigrationScaffold
  | MigrationDone

record Migration =
  mig_circuit_hash :: i64
  mig_circuit_name :: "string option"
  mig_site_name :: "string option"
  old_class_major :: u16
  old_up_class_major :: u16
  old_down_qdisc_handle :: "u16 option"
  old_up_qdisc_handle :: "u16 option"
  mig_parent_class_id :: TcHandle
  mig_up_parent_class_id :: TcHandle
  mig_class_major :: u16
  mig_up_class_major :: u16
  mig_down_qdisc_handle :: "u16 option"
  mig_up_qdisc_handle :: "u16 option"
  old_down_min :: f32
  old_down_max :: f32
  old_up_min :: f32
  old_up_max :: f32
  new_down_min :: f32
  new_down_max :: f32
  new_up_min :: f32
  new_up_max :: f32
  old_minor :: u16
  shadow_minor :: u16
  final_minor :: u16
  mig_ips :: "string list"
  mig_sqm_override :: "string option"
  desired_cmd :: BakeryCommands
  mig_stage :: MigrationStage
  shadow_verify_attempts :: u8
  final_verify_attempts :: u8

type_synonym migrations = "(i64 \<times> Migration) list"

definition MIGRATION_VERIFICATION_MAX_RETRIES :: u8 where
  "MIGRATION_VERIFICATION_MAX_RETRIES = 3"

definition MIGRATIONS_PER_TICK :: nat where
  "MIGRATIONS_PER_TICK = 16"

definition parse_ip_list :: "string \<Rightarrow> string list" where
  "parse_ip_list s = filter (\<lambda>x. x \<noteq> []) (map trim (split_on (CHR '','') s))"

section \<open>Free minors\<close>

definition used_site_minors_for_majors ::
  "(i64 \<times> BakeryCommands) list \<Rightarrow> u16 \<Rightarrow> u16 \<Rightarrow> u16 list \<times> u16 list" where
  "used_site_minors_for_majors sites down_major up_major =
     (List.map_filter (\<lambda>(_, site). case site of
        AddSite p \<Rightarrow> if fst (get_major_minor (site_parent_class_id p)) = down_major then Some (site_class_minor p) else None
      | _ \<Rightarrow> None) sites,
      List.map_filter (\<lambda>(_, site). case site of
        AddSite p \<Rightarrow> if fst (get_major_minor (site_up_parent_class_id p)) = up_major then Some (site_class_minor p) else None
      | _ \<Rightarrow> None) sites)"

definition used_circuit_minors_for_majors ::
  "(i64 \<times> BakeryCommands) list \<Rightarrow> u16 \<Rightarrow> u16 \<Rightarrow> u16 list \<times> u16 list" where
  "used_circuit_minors_for_majors circuits down_major up_major =
     (List.map_filter (\<lambda>(_, circuit). case circuit of
        AddCircuit p \<Rightarrow> if circuit_class_major p = down_major then Some (circuit_class_minor p) else None
      | _ \<Rightarrow> None) circuits,
      List.map_filter (\<lambda>(_, circuit). case circuit of
        AddCircuit p \<Rightarrow> if circuit_up_class_major p = up_major then Some (circuit_class_minor p) else None
      | _ \<Rightarrow> None) circuits)"

definition used_pending_migration_shadow_minors_for_majors ::
  "migrations \<Rightarrow> u16 \<Rightarrow> u16 \<Rightarrow> u16 list \<times> u16 list" where
  "used_pending_migration_shadow_minors_for_majors migrations down_major up_major =
     (let pending = filter (\<lambda>m. mig_stage m \<noteq> MigrationDone) (map snd migrations) in
      (map shadow_minor (filter (\<lambda>m. mig_class_major m = down_major) pending),
       map shadow_minor (filter (\<lambda>m. mig_up_class_major m = up_major) pending)))"

text \<open>\<open>(m..=end).find(|m| !used.contains(m))\<close>\<close>

function free_minor :: "u16 list \<Rightarrow> nat \<Rightarrow> nat \<Rightarrow> u16 option" where
  "free_minor used m end_minor =
     (if end_minor < m then None
      else if word_of_nat m \<notin> set used then Some (word_of_nat m)
      else free_minor used (m + 1) end_minor)"
  by pat_completeness auto
termination
  by (relation "measure (\<lambda>(_, m, end_minor). Suc end_minor - m)") auto

declare free_minor.simps [simp del]

fun free_minor_in_ranges :: "u16 list \<Rightarrow> nat list \<Rightarrow> u16 option" where
  "free_minor_in_ranges used [] = None"
| "free_minor_in_ranges used (start # starts) =
     or_opt (free_minor used start (min (min (start + 0x1FFF) 0xFFFF) 0xFFFE)) (free_minor_in_ranges used starts)"

definition find_free_circuit_shadow_minor ::
  "(i64 \<times> BakeryCommands) list \<Rightarrow> (i64 \<times> BakeryCommands) list \<Rightarrow> migrations \<Rightarrow> u16 \<Rightarrow> u16 \<Rightarrow> u16 option" where
  "find_free_circuit_shadow_minor sites circuits migrations down_major up_major =
     (let (site_down, site_up) = used_site_minors_for_majors sites down_major up_major;
          (circuit_down, circuit_up) = used_circuit_minors_for_majors circuits down_major up_major;
          (shadow_down, shadow_up) = used_pending_migration_shadow_minors_for_majors migrations down_major up_major;
          used = site_down @ circuit_down @ shadow_down @ site_up @ circuit_up @ shadow_up
      in or_opt (free_minor_in_ranges used [0x2000, 0x4000, 0x6000, 0x8000, 0xA000, 0xC000, 0xE000])
           (free_minor used 1 0xFFFE))"

section \<open>Commands of a migration\<close>

definition add_commands_for_circuit ::
  "BakeryCommands \<Rightarrow> Config \<Rightarrow> ExecutionMode \<Rightarrow> bool \<Rightarrow> argv list option option" where
  "add_commands_for_circuit cmd config mode mq_created = map_option fst (to_commands cmd config mode mq_created)"

definition build_temp_add_cmd ::
  "BakeryCommands \<Rightarrow> u16 \<Rightarrow> f32 \<Rightarrow> f32 \<Rightarrow> f32 \<Rightarrow> f32 \<Rightarrow> bool \<Rightarrow> BakeryCommands option" where
  "build_temp_add_cmd base minor down_min down_max up_min up_max preserve_qdisc_handles =
     (case base of
        AddCircuit params \<Rightarrow>
          Some (AddCircuit (params\<lparr>
            circuit_class_minor := minor,
            circuit_download_bandwidth_min := down_min,
            circuit_upload_bandwidth_min := up_min,
            circuit_download_bandwidth_max := down_max,
            circuit_upload_bandwidth_max := up_max,
            circuit_down_qdisc_handle :=
              (if preserve_qdisc_handles then circuit_down_qdisc_handle params else None),
            circuit_up_qdisc_handle :=
              (if preserve_qdisc_handles then circuit_up_qdisc_handle params else None)\<rparr>))
      | _ \<Rightarrow> None)"

text \<open>\<open>wrapping_mul\<close>, \<open>wrapping_neg\<close> and \<open>wrapping_sub\<close> of \<open>i64\<close>.\<close>

definition wrap_i64 :: "int \<Rightarrow> i64" where
  "wrap_i64 i = (i + 2 ^ 63) mod 2 ^ 64 - 2 ^ 63"

definition shadow_qdisc_allocation_key :: "i64 \<Rightarrow> bool \<Rightarrow> i64" where
  "shadow_qdisc_allocation_key hash uplink =
     (let base = wrap_i64 (- wrap_i64 (hash * 2)) in if uplink then wrap_i64 (base - 1) else base)"

definition with_handle :: "u16 option \<Rightarrow> u16 list \<Rightarrow> u16 list" where
  "with_handle handle reserved = (case handle of Some h \<Rightarrow> push_unique h reserved | None \<Rightarrow> reserved)"

definition assign_shadow_qdisc_handles ::
  "Migration \<Rightarrow> Config \<Rightarrow> string \<times> string \<Rightarrow> QdiscHandleState \<Rightarrow> reservations \<Rightarrow> u16 option \<times> u16 option" where
  "assign_shadow_qdisc_handles migration config names qdisc_handles live_reserved_handles =
     (let (isp, internet) = names;
          down_reserved = with_handle (mig_down_qdisc_handle migration)
            (with_handle (old_down_qdisc_handle migration) (value_or (map_of live_reserved_handles isp) []));
          (down_handle, shadow_handles) =
            (if mig_down_qdisc_handle migration = None then (None, qdisc_handles)
             else assign_circuit_handle isp
               (shadow_qdisc_allocation_key (mig_circuit_hash migration) False) down_reserved qdisc_handles)
      in if on_a_stick_mode config then (down_handle, None)
         else
           let up_reserved = with_handle (mig_up_qdisc_handle migration)
                 (with_handle (old_up_qdisc_handle migration) (value_or (map_of live_reserved_handles internet) []));
               (up_handle, _) =
                 (if mig_up_qdisc_handle migration = None then (None, shadow_handles)
                  else assign_circuit_handle internet
                    (shadow_qdisc_allocation_key (mig_circuit_hash migration) True) up_reserved shadow_handles)
           in (down_handle, up_handle))"

text \<open>The circuit command at the shadow minor with the old rates; the base is the same in both places
  that build it, apart from the queue handles.\<close>

definition shadow_base :: "Migration \<Rightarrow> u16 option \<Rightarrow> u16 option \<Rightarrow> BakeryCommands" where
  "shadow_base migration down_handle up_handle = AddCircuit
     \<lparr>circuit_hash = mig_circuit_hash migration,
      circuit_name = mig_circuit_name migration,
      circuit_site_name = mig_site_name migration,
      circuit_parent_class_id = mig_parent_class_id migration,
      circuit_up_parent_class_id = mig_up_parent_class_id migration,
      circuit_class_minor = shadow_minor migration,
      circuit_download_bandwidth_min = old_down_min migration,
      circuit_upload_bandwidth_min = old_up_min migration,
      circuit_download_bandwidth_max = old_down_max migration,
      circuit_upload_bandwidth_max = old_up_max migration,
      circuit_class_major = mig_class_major migration,
      circuit_up_class_major = mig_up_class_major migration,
      circuit_down_qdisc_handle = down_handle,
      circuit_up_qdisc_handle = up_handle,
      circuit_ip_addresses = [],
      circuit_sqm_override = mig_sqm_override migration\<rparr>"

definition shadow_temp_cmd :: "Migration \<Rightarrow> u16 option \<Rightarrow> u16 option \<Rightarrow> BakeryCommands option" where
  "shadow_temp_cmd migration down_handle up_handle =
     build_temp_add_cmd (shadow_base migration down_handle up_handle) (shadow_minor migration) (old_down_min migration)
       (old_down_max migration) (old_up_min migration) (old_up_max migration) False"

definition build_shadow_add_cmd ::
  "Migration \<Rightarrow> Config \<Rightarrow> string \<times> string \<Rightarrow> QdiscHandleState \<Rightarrow> reservations \<Rightarrow> BakeryCommands option" where
  "build_shadow_add_cmd migration config names qdisc_handles live_reserved_handles =
     (case shadow_temp_cmd migration (mig_down_qdisc_handle migration) (mig_up_qdisc_handle migration) of
        Some (AddCircuit temp) \<Rightarrow>
          let (down_handle, up_handle) = assign_shadow_qdisc_handles migration config names qdisc_handles live_reserved_handles
          in Some (AddCircuit (temp\<lparr>circuit_down_qdisc_handle := down_handle, circuit_up_qdisc_handle := up_handle\<rparr>))
      | _ \<Rightarrow> None)"

section \<open>Queueing\<close>

definition new_migration :: "CircuitCommand \<Rightarrow> CircuitCommand \<Rightarrow> u16 \<Rightarrow> Migration" where
  "new_migration old new shadow =
     \<lparr>mig_circuit_hash = circuit_hash new,
      mig_circuit_name = circuit_name new,
      mig_site_name = circuit_site_name new,
      old_class_major = circuit_class_major old,
      old_up_class_major = circuit_up_class_major old,
      old_down_qdisc_handle = circuit_down_qdisc_handle old,
      old_up_qdisc_handle = circuit_up_qdisc_handle old,
      mig_parent_class_id = circuit_parent_class_id new,
      mig_up_parent_class_id = circuit_up_parent_class_id new,
      mig_class_major = circuit_class_major new,
      mig_up_class_major = circuit_up_class_major new,
      mig_down_qdisc_handle = circuit_down_qdisc_handle new,
      mig_up_qdisc_handle = circuit_up_qdisc_handle new,
      old_down_min = circuit_download_bandwidth_min old,
      old_down_max = circuit_download_bandwidth_max old,
      old_up_min = circuit_upload_bandwidth_min old,
      old_up_max = circuit_upload_bandwidth_max old,
      new_down_min = circuit_download_bandwidth_min new,
      new_down_max = circuit_download_bandwidth_max new,
      new_up_min = circuit_upload_bandwidth_min new,
      new_up_max = circuit_upload_bandwidth_max new,
      old_minor = circuit_class_minor old,
      shadow_minor = shadow,
      final_minor = circuit_class_minor new,
      mig_ips = parse_ip_list (circuit_ip_addresses new),
      mig_sqm_override = circuit_sqm_override new,
      desired_cmd = AddCircuit new,
      mig_stage = PrepareShadow,
      shadow_verify_attempts = 0,
      final_verify_attempts = 0\<rparr>"

definition queue_runtime_migration ::
  "BakeryCommands \<Rightarrow> BakeryCommands \<Rightarrow> (i64 \<times> BakeryCommands) list \<Rightarrow> (i64 \<times> BakeryCommands) list
    \<Rightarrow> (i64 \<times> u64) list \<Rightarrow> migrations \<Rightarrow> bool \<Rightarrow> bool \<times> migrations" where
  "queue_runtime_migration old_cmd new_cmd sites circuits live_circuits migrations require_live_circuit =
     (case new_cmd of
        AddCircuit new \<Rightarrow>
          if require_live_circuit \<and> map_of live_circuits (circuit_hash new) = None then (False, migrations)
          else (case old_cmd of
            AddCircuit old \<Rightarrow>
              (case find_free_circuit_shadow_minor sites circuits migrations (circuit_class_major new)
                      (circuit_up_class_major new) of
                 None \<Rightarrow> (False, migrations)
               | Some shadow \<Rightarrow>
                   (True, AList.update (circuit_hash new) (new_migration old new shadow) migrations))
          | _ \<Rightarrow> (False, migrations))
      | _ \<Rightarrow> (False, migrations))"

definition queue_live_migration ::
  "BakeryCommands \<Rightarrow> BakeryCommands \<Rightarrow> (i64 \<times> BakeryCommands) list \<Rightarrow> (i64 \<times> BakeryCommands) list
    \<Rightarrow> (i64 \<times> u64) list \<Rightarrow> migrations \<Rightarrow> bool \<times> migrations" where
  "queue_live_migration old_cmd new_cmd sites circuits live_circuits migrations =
     queue_runtime_migration old_cmd new_cmd sites circuits live_circuits migrations True"

definition queue_top_level_runtime_migration ::
  "BakeryCommands \<Rightarrow> BakeryCommands \<Rightarrow> (i64 \<times> BakeryCommands) list \<Rightarrow> (i64 \<times> BakeryCommands) list
    \<Rightarrow> (i64 \<times> u64) list \<Rightarrow> migrations \<Rightarrow> bool \<times> migrations" where
  "queue_top_level_runtime_migration old_cmd new_cmd sites circuits live_circuits migrations =
     queue_runtime_migration old_cmd new_cmd sites circuits live_circuits migrations False"

definition circuits_with_pending_migration_targets ::
  "(i64 \<times> BakeryCommands) list \<Rightarrow> migrations \<Rightarrow> (i64 \<times> BakeryCommands) list" where
  "circuits_with_pending_migration_targets circuits migrations =
     fold (\<lambda>(hash, migration). AList.update hash (desired_cmd migration)) migrations circuits"

end
