(* ===== verification/Migration_Ticks.thy ===== *)
theory Migration_Ticks
  imports Live_Migration
begin

text \<open>
  The ticks of live migrations (\<open>lqos_bakery/src/lib.rs\<close>): recorded live changes, the bakery's view of
  the kernel's address map and its rollback, the verification of a class in the live tree, one
  definition per stage, and the loop over the pending migrations.
\<close>

section \<open>Recorded live changes\<close>

definition TEST_FAULT_ONCE_PATH :: string where
  "TEST_FAULT_ONCE_PATH = ''/tmp/lqos_bakery_fail_purpose_once.txt''"

definition consume_test_fault_once_from_path ::
  "'k live_host \<Rightarrow> string \<Rightarrow> string \<Rightarrow> 'k \<Rightarrow> string option \<times> 'k" where
  "consume_test_fault_once_from_path host path purpose k =
     (case live_read_file host path k of
        (None, k) \<Rightarrow> (None, k)
      | (Some raw_text, k) \<Rightarrow>
          let needle = trim raw_text in
          if needle = [] \<or> \<not> (needle = ''*'' \<or> contains_text needle purpose) then (None, k)
          else (Some (''synthetic Bakery test fault for purpose '' @ [CHR 0x27] @ purpose @ [CHR 0x27]
                   @ '' matched selector '' @ [CHR 0x27] @ needle @ [CHR 0x27]), live_remove_file host path k))"

definition consume_test_fault_once :: "'k live_host \<Rightarrow> string \<Rightarrow> 'k \<Rightarrow> string option \<times> 'k" where
  "consume_test_fault_once host purpose k = consume_test_fault_once_from_path host TEST_FAULT_ONCE_PATH purpose k"

definition execute_and_record_live_change ::
  "'k live_host \<Rightarrow> argv list \<Rightarrow> string \<Rightarrow> ('k, 'v, 'o) bakery \<Rightarrow> (ExecuteResult \<times> ('k, 'v, 'o) bakery) option" where
  "execute_and_record_live_change host command_buffer purpose s =
     (let (fault, s) = on_kernel (consume_test_fault_once host purpose) s;
          (result, s) =
            (case fault of
               Some fault_summary \<Rightarrow> (exec_failed fault_summary, s)
             | None \<Rightarrow> update_world (execute_in_memory (tc_host host) command_buffer purpose) s)
      in if exec_ok result
         then (case on_kernel (live_load_config host) s of
                 (Inl _, s) \<Rightarrow> Some (result, s)
               | (Inr config, s) \<Rightarrow>
                   map_option (\<lambda>names. (result, refresh_live_capacity_snapshot (tc_host host) names s))
                     (interfaces config))
         else Some (result, s))"

section \<open>Addresses\<close>

record MappingKey =
  map_ip :: string
  map_prefix :: u32

record MappingVal =
  map_handle :: TcHandle
  map_cpu :: u32

type_synonym mappings = "(MappingKey \<times> MappingVal) list"

definition parse_ip_and_prefix :: "string \<Rightarrow> string \<times> u32" where
  "parse_ip_and_prefix ip =
     (let inferred = (ip, if CHR '':'' \<in> set ip then 128 else 32) in
      case split_once (CHR ''/'') ip of
        None \<Rightarrow> inferred
      | Some (addr, pfx) \<Rightarrow>
          (case parse_unsigned 32 pfx of Some n \<Rightarrow> (addr, word_of_nat n) | None \<Rightarrow> inferred))"

definition mapping_key :: "string \<Rightarrow> MappingKey" where
  "mapping_key ip = (let (addr, prefix) = parse_ip_and_prefix ip in \<lparr>map_ip = addr, map_prefix = prefix\<rparr>)"

definition handle_map_ip :: "string \<Rightarrow> TcHandle \<Rightarrow> u32 \<Rightarrow> mappings option \<Rightarrow> mappings option" where
  "handle_map_ip ip_address tc_handle cpu mapping_staged =
     Some (AList.update (mapping_key ip_address) \<lparr>map_handle = tc_handle, map_cpu = cpu\<rparr>
       (value_or mapping_staged []))"

definition handle_del_ip :: "string \<Rightarrow> mappings option \<Rightarrow> mappings \<Rightarrow> mappings option \<times> mappings" where
  "handle_del_ip ip_address mapping_staged mapping_current =
     (let key = mapping_key ip_address
      in (map_option (AList.delete key) mapping_staged, AList.delete key mapping_current))"

definition mapping_key_cidr :: "MappingKey \<Rightarrow> string" where
  "mapping_key_cidr key = map_ip key @ ''/'' @ dec_digits (unat (map_prefix key))"

fun join_semicolon :: "string list \<Rightarrow> string" where
  "join_semicolon [] = []"
| "join_semicolon [t] = t"
| "join_semicolon (t # ts) = t @ ''; '' @ join_semicolon ts"

text \<open>One step back: the earlier value again, or no entry when there was none.\<close>

definition rollback_one ::
  "'k live_host \<Rightarrow> MappingKey \<times> MappingVal option \<Rightarrow> string list \<times> mappings \<times> 'k \<Rightarrow> string list \<times> mappings \<times> 'k" where
  "rollback_one host entry st =
     (let (key, previous) = entry; (failures, mapping_current, k) = st; cidr = mapping_key_cidr key;
          (error, k) = (case previous of
              Some previous \<Rightarrow> live_add_ip host cidr (map_handle previous) (map_cpu previous) k
            | None \<Rightarrow> live_del_ip host cidr k)
      in case error of
           Some error \<Rightarrow> (failures @ [cidr @ '': '' @ error], mapping_current, k)
         | None \<Rightarrow>
             (failures,
              (case previous of
                 Some previous \<Rightarrow> AList.update key previous mapping_current
               | None \<Rightarrow> AList.delete key mapping_current), k))"

definition rollback_migration_ip_remaps ::
  "'k live_host \<Rightarrow> (MappingKey \<times> MappingVal option) list \<Rightarrow> mappings \<Rightarrow> 'k
    \<Rightarrow> (unit, string) result \<times> mappings \<times> 'k" where
  "rollback_migration_ip_remaps host remapped mapping_current k =
     (let (failures, mapping_current, k) = fold (rollback_one host) (rev remapped) ([], mapping_current, k);
          (error, k) = live_clear_hot_cache host k;
          failures = (case error of
              Some error \<Rightarrow> failures @ [''clear hot cache after rollback: '' @ error]
            | None \<Rightarrow> failures)
      in (if failures = [] then Ok () else Err (join_semicolon failures), mapping_current, k))"

fun remap_loop ::
  "'k live_host \<Rightarrow> TcHandle \<Rightarrow> string list \<Rightarrow> (MappingKey \<times> MappingVal option) list \<Rightarrow> mappings \<Rightarrow> 'k
    \<Rightarrow> (unit, string) result \<times> mappings \<times> 'k" where
  "remap_loop host target_handle [] remapped mapping_current k =
     (case live_clear_hot_cache host k of
        (None, k) \<Rightarrow> (Ok (), mapping_current, k)
      | (Some error, k) \<Rightarrow>
          let (rollback, mapping_current, k) = rollback_migration_ip_remaps host remapped mapping_current k
          in (Err (''remap to '' @ as_tc_string target_handle @ '' succeeded but clearing the hot cache failed: ''
                @ error @ (case rollback of
                    Inl rollback_error \<Rightarrow> ''; rollback also failed: '' @ rollback_error
                  | Inr _ \<Rightarrow> ''; remaps were rolled back'')), mapping_current, k))"
| "remap_loop host target_handle (ip # ips) remapped mapping_current k =
     (let key = mapping_key ip; cidr = mapping_key_cidr key;
          previous = map_of mapping_current key;
          cpu = (case previous of Some value \<Rightarrow> map_cpu value | None \<Rightarrow> 0)
      in case live_add_ip host cidr target_handle cpu k of
           (Some error, k) \<Rightarrow>
             let (rollback, mapping_current, k) = rollback_migration_ip_remaps host remapped mapping_current k
             in (Err (''failed to remap '' @ cidr @ '' to '' @ as_tc_string target_handle @ '': '' @ error
                   @ (case rollback of
                        Inl rollback_error \<Rightarrow> ''; rollback also failed: '' @ rollback_error
                      | Inr _ \<Rightarrow> ''; prior remaps were rolled back'')), mapping_current, k)
         | (None, k) \<Rightarrow>
             remap_loop host target_handle ips (remapped @ [(key, previous)])
               (AList.update key \<lparr>map_handle = target_handle, map_cpu = cpu\<rparr> mapping_current) k)"

definition remap_migration_ips ::
  "'k live_host \<Rightarrow> Migration \<Rightarrow> u16 \<Rightarrow> mappings \<Rightarrow> 'k \<Rightarrow> (unit, string) result \<times> mappings \<times> 'k" where
  "remap_migration_ips host mig target_minor mapping_current k =
     remap_loop host (tc_handle_from_major_minor (mig_class_major mig) target_minor) (mig_ips mig) []
       mapping_current k"

section \<open>Verification\<close>

record MigrationDirectionVerification =
  ver_interface_name :: string
  expected_handle :: TcHandle
  expected_parent :: TcHandle
  observed_present :: bool
  observed_parent :: "TcHandle option"
  observed_leaf_qdisc_major :: "u16 option"

definition direction_ready :: "MigrationDirectionVerification \<Rightarrow> bool" where
  "direction_ready v \<longleftrightarrow> observed_parent v = Some (expected_parent v) \<and> observed_leaf_qdisc_major v \<noteq> None"

definition direction_summary :: "MigrationDirectionVerification \<Rightarrow> string \<Rightarrow> string" where
  "direction_summary v direction =
     direction @ '' '' @ ver_interface_name v @ '' expected class '' @ as_tc_string (expected_handle v)
     @ '' under parent '' @ as_tc_string (expected_parent v) @ '' with a leaf qdisc, ''
     @ (if \<not> observed_present v then ''observed missing''
        else case (observed_parent v, observed_leaf_qdisc_major v) of
          (Some parent, Some leaf_major) \<Rightarrow>
            ''observed parent '' @ as_tc_string parent @ '' with leaf qdisc 0x'' @ hex_string (unat leaf_major) @ '':''
        | (Some parent, None) \<Rightarrow> ''observed parent '' @ as_tc_string parent @ '' with no leaf qdisc''
        | (None, Some leaf_major) \<Rightarrow> ''observed at root with leaf qdisc 0x'' @ hex_string (unat leaf_major) @ '':''
        | (None, None) \<Rightarrow> ''observed at root with no leaf qdisc'')"

record MigrationBranchVerification =
  ver_down :: MigrationDirectionVerification
  ver_up :: "MigrationDirectionVerification option"

definition branch_ready :: "MigrationBranchVerification \<Rightarrow> bool" where
  "branch_ready v \<longleftrightarrow>
     direction_ready (ver_down v) \<and> (case ver_up v of Some other \<Rightarrow> direction_ready other | None \<Rightarrow> True)"

definition branch_summary :: "MigrationBranchVerification \<Rightarrow> string" where
  "branch_summary v =
     join_semicolon (direction_summary (ver_down v) ''down''
       # (case ver_up v of Some other \<Rightarrow> [direction_summary other ''up''] | None \<Rightarrow> []))"

definition verify_migration_direction ::
  "string \<Rightarrow> class_snapshot \<Rightarrow> TcHandle \<Rightarrow> TcHandle \<Rightarrow> MigrationDirectionVerification" where
  "verify_migration_direction interface snapshot handle parent =
     (let observed = map_of snapshot handle in
      \<lparr>ver_interface_name = interface, expected_handle = handle, expected_parent = parent,
       observed_present = observed \<noteq> None,
       observed_parent = Option.bind observed class_parent,
       observed_leaf_qdisc_major = Option.bind observed leaf_qdisc_major\<rparr>)"

definition migration_branch_verification ::
  "'k live_host \<Rightarrow> Config \<Rightarrow> string \<times> string \<Rightarrow> TcHandle \<Rightarrow> TcHandle \<Rightarrow> TcHandle \<Rightarrow> TcHandle \<Rightarrow> 'k world
    \<Rightarrow> (MigrationBranchVerification, TcError) result \<times> 'k world" where
  "migration_branch_verification host config names down_handle down_parent up_handle up_parent w =
     (let (isp, internet) = names in
      case read_live_class_snapshot (tc_host host) isp w of
        (Inl e, w) \<Rightarrow> (Err e, w)
      | (Inr down_snapshot, w) \<Rightarrow>
          let down_check = verify_migration_direction isp down_snapshot down_handle down_parent in
          if on_a_stick_mode config then (Ok \<lparr>ver_down = down_check, ver_up = None\<rparr>, w)
          else case read_live_class_snapshot (tc_host host) internet w of
            (Inl e, w) \<Rightarrow> (Err e, w)
          | (Inr up_snapshot, w) \<Rightarrow>
              (Ok \<lparr>ver_down = down_check,
                  ver_up = Some (verify_migration_direction internet up_snapshot up_handle up_parent)\<rparr>, w))"

definition wrong_parent_prune_commands_for_direction ::
  "string \<Rightarrow> class_snapshot \<Rightarrow> TcHandle \<Rightarrow> TcHandle \<Rightarrow> argv list" where
  "wrong_parent_prune_commands_for_direction interface snapshot handle parent =
     (case map_of snapshot handle of
        None \<Rightarrow> []
      | Some observed \<Rightarrow>
          if class_parent observed = Some parent then []
          else (if leaf_qdisc_major observed \<noteq> None
                then [[''qdisc'', ''del'', ''dev'', interface, ''parent'', as_tc_string handle]] else [])
               @ [[''class'', ''del'', ''dev'', interface, ''classid'', as_tc_string handle]])"

definition migration_branch_wrong_parent_prune_commands ::
  "'k live_host \<Rightarrow> Config \<Rightarrow> string \<times> string \<Rightarrow> TcHandle \<Rightarrow> TcHandle \<Rightarrow> TcHandle \<Rightarrow> TcHandle \<Rightarrow> 'k world
    \<Rightarrow> (argv list, TcError) result \<times> 'k world" where
  "migration_branch_wrong_parent_prune_commands host config names down_handle down_parent up_handle up_parent w =
     (let (isp, internet) = names in
      case read_live_class_snapshot (tc_host host) isp w of
        (Inl e, w) \<Rightarrow> (Err e, w)
      | (Inr down_snapshot, w) \<Rightarrow>
          let commands = wrong_parent_prune_commands_for_direction isp down_snapshot down_handle down_parent in
          if on_a_stick_mode config then (Ok commands, w)
          else case read_live_class_snapshot (tc_host host) internet w of
            (Inl e, w) \<Rightarrow> (Err e, w)
          | (Inr up_snapshot, w) \<Rightarrow>
              (Ok (commands @ wrong_parent_prune_commands_for_direction internet up_snapshot up_handle up_parent), w))"

definition migration_shadow_verification ::
  "'k live_host \<Rightarrow> Config \<Rightarrow> string \<times> string \<Rightarrow> Migration \<Rightarrow> 'k world
    \<Rightarrow> (MigrationBranchVerification, TcError) result \<times> 'k world" where
  "migration_shadow_verification host config names migration w =
     migration_branch_verification host config names
       (tc_handle_from_major_minor (mig_class_major migration) (shadow_minor migration))
       (mig_parent_class_id migration)
       (tc_handle_from_major_minor (mig_up_class_major migration) (shadow_minor migration))
       (mig_up_parent_class_id migration) w"

definition migration_final_verification ::
  "'k live_host \<Rightarrow> Config \<Rightarrow> string \<times> string \<Rightarrow> Migration \<Rightarrow> 'k world
    \<Rightarrow> (MigrationBranchVerification, TcError) result \<times> 'k world" where
  "migration_final_verification host config names migration w =
     migration_branch_verification host config names
       (tc_handle_from_major_minor (mig_class_major migration) (final_minor migration))
       (mig_parent_class_id migration)
       (tc_handle_from_major_minor (mig_up_class_major migration) (final_minor migration))
       (mig_up_parent_class_id migration) w"

definition migration_shadow_wrong_parent_prune_commands ::
  "'k live_host \<Rightarrow> Config \<Rightarrow> string \<times> string \<Rightarrow> Migration \<Rightarrow> 'k world \<Rightarrow> (argv list, TcError) result \<times> 'k world" where
  "migration_shadow_wrong_parent_prune_commands host config names migration w =
     migration_branch_wrong_parent_prune_commands host config names
       (tc_handle_from_major_minor (mig_class_major migration) (shadow_minor migration))
       (mig_parent_class_id migration)
       (tc_handle_from_major_minor (mig_up_class_major migration) (shadow_minor migration))
       (mig_up_parent_class_id migration) w"

definition migration_final_wrong_parent_prune_commands ::
  "'k live_host \<Rightarrow> Config \<Rightarrow> string \<times> string \<Rightarrow> Migration \<Rightarrow> 'k world \<Rightarrow> (argv list, TcError) result \<times> 'k world" where
  "migration_final_wrong_parent_prune_commands host config names migration w =
     migration_branch_wrong_parent_prune_commands host config names
       (tc_handle_from_major_minor (mig_class_major migration) (final_minor migration))
       (mig_parent_class_id migration)
       (tc_handle_from_major_minor (mig_up_class_major migration) (final_minor migration))
       (mig_up_parent_class_id migration) w"

section \<open>Outcomes of a stage\<close>

definition reload_now_required :: string where
  "reload_now_required = ''. A full reload is now required before further incremental topology mutations.''"

definition runtime_circuit_label :: "i64 \<Rightarrow> string option \<Rightarrow> string" where
  "runtime_circuit_label hash name =
     (case name of
        Some (c # cs) \<Rightarrow> (c # cs) @ '' ('' @ show_i64 hash @ '')''
      | _ \<Rightarrow> show_i64 hash)"

definition migration_target_label :: "Migration \<Rightarrow> string" where
  "migration_target_label migration =
     (let circuit_label = runtime_circuit_label (mig_circuit_hash migration) (mig_circuit_name migration) in
      case mig_site_name migration of
        Some (c # cs) \<Rightarrow> ''circuit '' @ circuit_label @ '' at site '' @ (c # cs)
      | _ \<Rightarrow> ''circuit '' @ circuit_label)"

definition fail_migration ::
  "ReloadReason \<Rightarrow> Migration \<Rightarrow> ('k, 'v, 'o) bakery \<Rightarrow> Migration \<times> ('k, 'v, 'o) bakery" where
  "fail_migration reason mig s = (mig\<lparr>mig_stage := MigrationDone\<rparr>, mark_reload_required reason s)"

definition mark_migration_reload_required ::
  "i64 \<Rightarrow> string \<Rightarrow> ExecuteResult \<Rightarrow> ('k, 'v, 'o) bakery \<Rightarrow> ('k, 'v, 'o) bakery" where
  "mark_migration_reload_required hash purpose result s =
     mark_reload_required (OtherReason (''Bakery live migration failed for circuit '' @ show_i64 hash @ '' during ''
       @ purpose @ '': '' @ summarize_apply_result purpose result @ reload_now_required)) s"

definition migration_stage_apply_succeeded ::
  "Migration \<Rightarrow> string \<Rightarrow> ExecuteResult \<Rightarrow> MigrationStage \<Rightarrow> ('k, 'v, 'o) bakery
    \<Rightarrow> bool \<times> Migration \<times> ('k, 'v, 'o) bakery" where
  "migration_stage_apply_succeeded migration purpose result next_stage s =
     (if exec_ok result then (True, migration\<lparr>mig_stage := next_stage\<rparr>, s)
      else (False, migration\<lparr>mig_stage := MigrationDone\<rparr>,
            mark_migration_reload_required (mig_circuit_hash migration) purpose result s))"

text \<open>The end of the three stages that run commands: nothing to run counts as success.\<close>

definition apply_stage ::
  "'k live_host \<Rightarrow> Migration \<Rightarrow> argv list \<Rightarrow> string \<Rightarrow> MigrationStage \<Rightarrow> ('k, 'v, 'o) bakery
    \<Rightarrow> (Migration \<times> ('k, 'v, 'o) bakery) option" where
  "apply_stage host mig cmds purpose next_stage s =
     (if cmds = [] then Some (mig\<lparr>mig_stage := next_stage\<rparr>, s)
      else map_option (\<lambda>(result, s). snd (migration_stage_apply_succeeded mig purpose result next_stage s))
             (execute_and_record_live_change host cmds purpose s))"

text \<open>The commands that build a class in every mode of lazy queues.\<close>

definition commands_in_mode :: "BakeryCommands \<Rightarrow> Config \<Rightarrow> bool \<Rightarrow> ExecutionMode \<Rightarrow> argv list option" where
  "commands_in_mode cmd config mq_created mode =
     map_option (\<lambda>c. value_or c []) (add_commands_for_circuit cmd config mode mq_created)"

definition migration_build_commands :: "BakeryCommands \<Rightarrow> Config \<Rightarrow> bool \<Rightarrow> argv list option" where
  "migration_build_commands cmd config mq_created =
     (case lazy_queues (cfg_queues config) of
        Some LazyHtb \<Rightarrow>
          Option.bind (commands_in_mode cmd config mq_created Builder) (\<lambda>c.
            map_option (\<lambda>d. c @ d) (commands_in_mode cmd config mq_created LiveUpdate))
      | Some LazyFull \<Rightarrow> commands_in_mode cmd config mq_created LiveUpdate
      | _ \<Rightarrow> commands_in_mode cmd config mq_created Builder)"

definition snapshot_live_qdisc_handle_majors_or_empty ::
  "'k live_host \<Rightarrow> Config \<Rightarrow> string \<times> string \<Rightarrow> 'k world \<Rightarrow> reservations \<times> 'k world" where
  "snapshot_live_qdisc_handle_majors_or_empty host config names w =
     (case snapshot_live_qdisc_handle_majors (tc_host host) config names w of
        (Inr handles, w) \<Rightarrow> (handles, w)
      | (Inl _, w) \<Rightarrow> ([], w))"

section \<open>Handles of the final class\<close>

text \<open>\<open>{:?}\<close> of an optional handle.\<close>

definition debug_handle :: "u16 option \<Rightarrow> string" where
  "debug_handle handle = (case handle of Some h \<Rightarrow> ''Some('' @ dec_digits (unat h) @ '')'' | None \<Rightarrow> ''None'')"

definition handle_not_rotated ::
  "string \<Rightarrow> TcHandle \<Rightarrow> TcHandle \<Rightarrow> u16 option \<Rightarrow> u16 option \<Rightarrow> string option" where
  "handle_not_rotated direction old_parent new_parent old_handle handle =
     (if old_parent \<noteq> new_parent \<and> old_handle \<noteq> None \<and> old_handle = handle
      then Some (direction @ '' qdisc handle '' @ debug_handle handle
        @ '' is still the old handle while the final parent changed from '' @ as_tc_string old_parent
        @ '' to '' @ as_tc_string new_parent)
      else None)"

definition migration_qdisc_handle_rotation_invariant_error :: "Migration \<Rightarrow> string option" where
  "migration_qdisc_handle_rotation_invariant_error mig =
     or_opt
       (handle_not_rotated ''downlink'' (tc_handle_from_major_minor (old_class_major mig) (old_minor mig))
          (tc_handle_from_major_minor (mig_class_major mig) (final_minor mig))
          (old_down_qdisc_handle mig) (mig_down_qdisc_handle mig))
       (handle_not_rotated ''uplink'' (tc_handle_from_major_minor (old_up_class_major mig) (old_minor mig))
          (tc_handle_from_major_minor (mig_up_class_major mig) (final_minor mig))
          (old_up_qdisc_handle mig) (mig_up_qdisc_handle mig))"

definition final_handle_live :: "string \<Rightarrow> u16 list option \<Rightarrow> u16 option \<Rightarrow> u16 option \<Rightarrow> string option" where
  "final_handle_live direction live handle old_handle =
     (case (live, handle) of
        (Some reserved, Some h) \<Rightarrow>
          if h \<in> set reserved \<and> Some h \<noteq> old_handle
          then Some (''build-final command used '' @ direction @ '' qdisc handle '' @ dec_digits (unat h)
            @ '', but that handle is already live on the interface under another parent'')
          else None
      | _ \<Rightarrow> None)"

definition build_final_qdisc_handle_rotation_invariant_error_with_live_reservations ::
  "Migration \<Rightarrow> BakeryCommands \<Rightarrow> u16 list option \<Rightarrow> u16 list option \<Rightarrow> string option" where
  "build_final_qdisc_handle_rotation_invariant_error_with_live_reservations mig final_cmd live_down live_up =
     (case final_cmd of
        AddCircuit p \<Rightarrow>
          if circuit_class_minor p \<noteq> final_minor mig then
            Some (''build-final command used unexpected class minor '' @ dec_digits (unat (circuit_class_minor p))
              @ '' instead of '' @ dec_digits (unat (final_minor mig)))
          else if circuit_down_qdisc_handle p \<noteq> mig_down_qdisc_handle mig then
            Some (''build-final command used downlink qdisc handle '' @ debug_handle (circuit_down_qdisc_handle p)
              @ '', expected rotated handle '' @ debug_handle (mig_down_qdisc_handle mig))
          else if circuit_up_qdisc_handle p \<noteq> mig_up_qdisc_handle mig then
            Some (''build-final command used uplink qdisc handle '' @ debug_handle (circuit_up_qdisc_handle p)
              @ '', expected rotated handle '' @ debug_handle (mig_up_qdisc_handle mig))
          else
            or_opt (migration_qdisc_handle_rotation_invariant_error mig)
              (or_opt (final_handle_live ''downlink'' live_down (circuit_down_qdisc_handle p) (old_down_qdisc_handle mig))
                 (final_handle_live ''uplink'' live_up (circuit_up_qdisc_handle p) (old_up_qdisc_handle mig)))
      | _ \<Rightarrow> Some ''build-final command was not an AddCircuit'')"

definition build_final_qdisc_handle_rotation_invariant_error ::
  "Migration \<Rightarrow> BakeryCommands \<Rightarrow> string option" where
  "build_final_qdisc_handle_rotation_invariant_error mig final_cmd =
     build_final_qdisc_handle_rotation_invariant_error_with_live_reservations mig final_cmd None None"

section \<open>The stages\<close>

definition prepare_shadow ::
  "'k live_host \<Rightarrow> Config \<Rightarrow> QdiscHandleState \<Rightarrow> Migration \<Rightarrow> ('k, 'v, 'o) bakery
    \<Rightarrow> (Migration \<times> ('k, 'v, 'o) bakery) option" where
  "prepare_shadow host config persisted_qdisc_handles mig s =
     Option.bind (interfaces config) (\<lambda>names.
       let (live_reserved_handles, s) = update_world (snapshot_live_qdisc_handle_majors_or_empty host config names) s in
       case update_world (migration_shadow_wrong_parent_prune_commands host config names mig) s of
         (Inl e, s) \<Rightarrow> Some (fail_migration (LiveMoveFailed ''shadow cleanup'' (migration_target_label mig) e) mig s)
       | (Inr cmds, s) \<Rightarrow>
           (case build_shadow_add_cmd mig config names persisted_qdisc_handles live_reserved_handles of
              Some temp \<Rightarrow>
                Option.bind (migration_build_commands temp config (MQ_CREATED s)) (\<lambda>c.
                  apply_stage host mig (cmds @ c) ''live-move: create shadow'' VerifyShadowReady s)
            | None \<Rightarrow> Some (mig\<lparr>mig_stage := MigrationDone\<rparr>, s)))"

definition verify_shadow_ready ::
  "'k live_host \<Rightarrow> Config \<Rightarrow> Migration \<Rightarrow> ('k, 'v, 'o) bakery \<Rightarrow> (Migration \<times> ('k, 'v, 'o) bakery) option" where
  "verify_shadow_ready host config mig s =
     map_option (\<lambda>names.
       case update_world (migration_shadow_verification host config names mig) s of
         (Inl e, s) \<Rightarrow> fail_migration (LiveMoveFailed ''shadow verification'' (migration_target_label mig) e) mig s
       | (Inr verification, s) \<Rightarrow>
           if branch_ready verification
           then (mig\<lparr>mig_stage := SwapToShadow, shadow_verify_attempts := 0\<rparr>, s)
           else if shadow_verify_attempts mig < MIGRATION_VERIFICATION_MAX_RETRIES
           then (mig\<lparr>shadow_verify_attempts := saturating_add (shadow_verify_attempts mig) 1\<rparr>, s)
           else fail_migration (OtherReason
             (''Bakery live-move shadow verification did not find the expected shadow class/qdisc for ''
              @ migration_target_label mig @ '': '' @ branch_summary verification @ reload_now_required)) mig s)
       (interfaces config)"

definition remap_on_kernel ::
  "'k live_host \<Rightarrow> Migration \<Rightarrow> u16 \<Rightarrow> mappings \<Rightarrow> ('k, 'v, 'o) bakery
    \<Rightarrow> ((unit, string) result \<times> mappings) \<times> ('k, 'v, 'o) bakery" where
  "remap_on_kernel host mig target_minor mapping_current s =
     on_kernel (\<lambda>k. let (result, m, k) = remap_migration_ips host mig target_minor mapping_current k
                      in ((result, m), k)) s"

definition swap_to_shadow ::
  "'k live_host \<Rightarrow> Migration \<Rightarrow> mappings \<Rightarrow> ('k, 'v, 'o) bakery \<Rightarrow> Migration \<times> mappings \<times> ('k, 'v, 'o) bakery" where
  "swap_to_shadow host mig mapping_current s =
     (let ((result, mapping_current), s) = remap_on_kernel host mig (shadow_minor mig) mapping_current s
      in case result of
           Inl reason \<Rightarrow>
             let (mig, s) = fail_migration (OtherReason (''Bakery live-move shadow remap failed for ''
                   @ migration_target_label mig @ '': '' @ reason @ reload_now_required)) mig s
             in (mig, mapping_current, s)
         | Inr _ \<Rightarrow> (mig\<lparr>mig_stage := BuildFinal\<rparr>, mapping_current, s))"

definition build_final ::
  "'k live_host \<Rightarrow> Config \<Rightarrow> Migration \<Rightarrow> ('k, 'v, 'o) bakery \<Rightarrow> (Migration \<times> ('k, 'v, 'o) bakery) option" where
  "build_final host config mig s =
     Option.bind (interfaces config) (\<lambda>names.
       case update_world (migration_final_wrong_parent_prune_commands host config names mig) s of
         (Inl e, s) \<Rightarrow> Some (fail_migration (LiveMoveFailed ''final cleanup'' (migration_target_label mig) e) mig s)
       | (Inr cmds, s) \<Rightarrow>
           let (live, s) = update_world (snapshot_live_qdisc_handle_majors_or_empty host config names) s in
           (case build_temp_add_cmd (desired_cmd mig) (final_minor mig) (new_down_min mig) (new_down_max mig)
                   (new_up_min mig) (new_up_max mig) True of
              Some final_cmd \<Rightarrow>
                (case build_final_qdisc_handle_rotation_invariant_error_with_live_reservations mig final_cmd
                        (map_of live (fst names)) (map_of live (snd names)) of
                   Some reason \<Rightarrow>
                     Some (fail_migration (OtherReason
                       (''Bakery live migration refused to build final state for '' @ migration_target_label mig
                        @ '' because the final qdisc handles were unsafe: '' @ reason @ reload_now_required)) mig s)
                 | None \<Rightarrow>
                     Option.bind (migration_build_commands final_cmd config (MQ_CREATED s)) (\<lambda>c.
                       apply_stage host mig (cmds @ c) ''live-move: build final'' VerifyFinalReady s))
            | None \<Rightarrow> apply_stage host mig cmds ''live-move: build final'' VerifyFinalReady s))"

definition verify_final_ready ::
  "'k live_host \<Rightarrow> Config \<Rightarrow> Migration \<Rightarrow> ('k, 'v, 'o) bakery \<Rightarrow> (Migration \<times> ('k, 'v, 'o) bakery) option" where
  "verify_final_ready host config mig s =
     map_option (\<lambda>names.
       case update_world (migration_final_verification host config names mig) s of
         (Inl e, s) \<Rightarrow> fail_migration (LiveMoveFailed ''final verification'' (migration_target_label mig) e) mig s
       | (Inr verification, s) \<Rightarrow>
           if branch_ready verification
           then (mig\<lparr>mig_stage := SwapToFinal, final_verify_attempts := 0\<rparr>, s)
           else if final_verify_attempts mig < MIGRATION_VERIFICATION_MAX_RETRIES
           then (mig\<lparr>final_verify_attempts := saturating_add (final_verify_attempts mig) 1\<rparr>, s)
           else fail_migration (OtherReason
             (''Bakery live-move final verification did not find the expected final class/qdisc for ''
              @ migration_target_label mig @ '': '' @ branch_summary verification @ reload_now_required)) mig s)
       (interfaces config)"

definition swap_to_final ::
  "'k live_host \<Rightarrow> Migration \<Rightarrow> mappings \<Rightarrow> ('k, 'v, 'o) bakery \<Rightarrow> Migration \<times> mappings \<times> ('k, 'v, 'o) bakery" where
  "swap_to_final host mig mapping_current s =
     (let ((result, mapping_current), s) = remap_on_kernel host mig (final_minor mig) mapping_current s
      in case result of
           Inl reason \<Rightarrow>
             let (mig, s) = fail_migration (OtherReason (''Bakery live-move final remap failed for ''
                   @ migration_target_label mig @ '': '' @ reason @ reload_now_required)) mig s
             in (mig, mapping_current, s)
         | Inr _ \<Rightarrow>
             (mig\<lparr>mig_stage := TeardownMigrationScaffold\<rparr>, mapping_current,
              s\<lparr>bk_circuits := AList.update (mig_circuit_hash mig) (desired_cmd mig) (bk_circuits s)\<rparr>))"

definition teardown_migration_scaffold ::
  "'k live_host \<Rightarrow> Config \<Rightarrow> Migration \<Rightarrow> ('k, 'v, 'o) bakery \<Rightarrow> (Migration \<times> ('k, 'v, 'o) bakery) option" where
  "teardown_migration_scaffold host config mig s =
     Option.bind (case shadow_temp_cmd mig None None of
         Some shadow_cmd \<Rightarrow> map_option (\<lambda>prune. value_or prune []) (to_prune shadow_cmd config True)
       | None \<Rightarrow> Some []) (\<lambda>prune.
       apply_stage host mig prune ''live-move: prune migration scaffold'' MigrationDone s)"

section \<open>One tick\<close>

text \<open>One stage of a migration that is not done.\<close>

definition advance_migration ::
  "'k live_host \<Rightarrow> Config \<Rightarrow> QdiscHandleState \<Rightarrow> Migration \<Rightarrow> mappings \<Rightarrow> ('k, 'v, 'o) bakery
    \<Rightarrow> (Migration \<times> mappings \<times> ('k, 'v, 'o) bakery) option" where
  "advance_migration host config persisted_qdisc_handles mig mapping_current s =
     (let on_bakery = map_option (\<lambda>(mig, s). (mig, mapping_current, s)) in
      case mig_stage mig of
        PrepareShadow \<Rightarrow> on_bakery (prepare_shadow host config persisted_qdisc_handles mig s)
      | VerifyShadowReady \<Rightarrow> on_bakery (verify_shadow_ready host config mig s)
      | SwapToShadow \<Rightarrow> Some (swap_to_shadow host mig mapping_current s)
      | BuildFinal \<Rightarrow> on_bakery (build_final host config mig s)
      | VerifyFinalReady \<Rightarrow> on_bakery (verify_final_ready host config mig s)
      | SwapToFinal \<Rightarrow> Some (swap_to_final host mig mapping_current s)
      | TeardownMigrationScaffold \<Rightarrow> on_bakery (teardown_migration_scaffold host config mig s)
      | MigrationDone \<Rightarrow> Some (mig, mapping_current, s))"

fun pending_loop ::
  "'k live_host \<Rightarrow> Config \<Rightarrow> QdiscHandleState \<Rightarrow> nat \<Rightarrow> migrations \<Rightarrow> mappings \<Rightarrow> ('k, 'v, 'o) bakery
    \<Rightarrow> (migrations \<times> i64 list \<times> mappings \<times> ('k, 'v, 'o) bakery) option" where
  "pending_loop host config handles advanced [] mapping_current s = Some ([], [], mapping_current, s)"
| "pending_loop host config handles advanced ((hash, mig) # rest) mapping_current s =
     (if MIGRATIONS_PER_TICK \<le> advanced then Some ((hash, mig) # rest, [], mapping_current, s)
      else if mig_stage mig = MigrationDone then
        map_option (\<lambda>(migrations, to_remove, st). ((hash, mig) # migrations, mig_circuit_hash mig # to_remove, st))
          (pending_loop host config handles advanced rest mapping_current s)
      else
        Option.bind (advance_migration host config handles mig mapping_current s) (\<lambda>(mig, mapping_current, s).
          map_option (\<lambda>(migrations, st). ((hash, mig) # migrations, st))
            (pending_loop host config handles (advanced + 1) rest mapping_current s)))"

definition is_live_migration_reload_required_reason :: "ReloadReason \<Rightarrow> bool" where
  "is_live_migration_reload_required_reason reason =
     (case reason of
        LiveMoveFailed _ _ _ \<Rightarrow> True
      | OtherReason text \<Rightarrow>
          take 17 text = ''Bakery live-move '' \<or> take 22 text = ''Bakery live migration ''
      | _ \<Rightarrow> False)"

definition cancel_pending_migrations_for_observe_mode ::
  "migrations \<Rightarrow> ('k, 'v, 'o) bakery \<Rightarrow> nat \<times> migrations \<times> ('k, 'v, 'o) bakery" where
  "cancel_pending_migrations_for_observe_mode migrations s =
     (length migrations, [],
      case reload_required s of
        Some reason \<Rightarrow> if is_live_migration_reload_required_reason reason then clear_reload_required s else s
      | None \<Rightarrow> s)"

text \<open>
  The pass over the inactive branches of virtualized sites that ends a tick is a parameter: it sees the
  configuration and the migrations, changes the live tree and the state of the branches, and may ask for
  a reload. It does nothing once a reload is required.
\<close>

type_synonym ('k, 'v, 'o) branch_prune =
  "Config \<Rightarrow> migrations \<Rightarrow> 'k world \<Rightarrow> (i64 \<times> 'v) list \<Rightarrow> (i64 \<times> 'o) list
    \<Rightarrow> (ReloadReason option \<times> 'k world \<times> (i64 \<times> 'v) list \<times> (i64 \<times> 'o) list) option"

definition flush_deferred_runtime_site_prunes ::
  "('k, 'v, 'o) branch_prune \<Rightarrow> Config \<Rightarrow> migrations \<Rightarrow> ('k, 'v, 'o) bakery \<Rightarrow> ('k, 'v, 'o) bakery option" where
  "flush_deferred_runtime_site_prunes prune config migrations s =
     (if reload_required s \<noteq> None then Some s
      else map_option (\<lambda>(reason, w, sites, operations).
        let s = s\<lparr>bk_world := w, bk_virtualized_sites := sites, bk_runtime_node_operations := operations\<rparr>
        in case reason of Some r \<Rightarrow> mark_reload_required r s | None \<Rightarrow> s)
        (prune config migrations (bk_world s) (bk_virtualized_sites s) (bk_runtime_node_operations s)))"

definition process_pending_migrations ::
  "'k live_host \<Rightarrow> ('k, 'v, 'o) branch_prune \<Rightarrow> Config \<Rightarrow> migrations \<Rightarrow> mappings \<Rightarrow> ('k, 'v, 'o) bakery
    \<Rightarrow> (migrations \<times> mappings \<times> ('k, 'v, 'o) bakery) option" where
  "process_pending_migrations host prune config migrations mapping_current s =
     (if is_observe (queue_mode (cfg_queues config)) then
        (let (_, migrations, s) = cancel_pending_migrations_for_observe_mode migrations s
         in Some (migrations, mapping_current, s))
      else
        Option.bind (pending_loop host config (load (bk_saved_handles s)) 0 migrations mapping_current s)
          (\<lambda>(migrations, to_remove, mapping_current, s).
            let migrations = fold AList.delete to_remove migrations in
            map_option (\<lambda>s. (migrations, mapping_current, s))
              (flush_deferred_runtime_site_prunes prune config migrations s)))"

end
