(* ===== verification/Migration_Properties.thy ===== *)
theory Migration_Properties
  imports Migration_Ticks "HOL-Library.Multiset"
begin

text \<open>
  What the ticks of live migrations guarantee. The contract of one stage is a step relation that the
  code's stages implement; a tick implements runs of it over all pending migrations. On top of it: every
  migration ends within a bounded number of ticks, either published or with a reload required; no two
  pending migrations share a shadow class; moving a circuit's addresses is all or nothing, and the
  bakery's view of the kernel's address map stays true whatever fails.
\<close>

section \<open>What a stage leaves alone\<close>

text \<open>The live tree, the caches and the displayed capacities may have changed, nothing else.\<close>

definition world_step :: "('k, 'v, 'o) bakery \<Rightarrow> ('k, 'v, 'o) bakery \<Rightarrow> bool" where
  "world_step s s' \<longleftrightarrow> (\<exists>w c. s' = s\<lparr>bk_world := w, live_capacity_interfaces := c\<rparr>)"

named_theorems world_intros \<open>operations that only touch the world\<close>

lemma world_step_refl [world_intros, intro]: "world_step s s"
  unfolding world_step_def by (rule exI [of _ "bk_world s"], rule exI [of _ "live_capacity_interfaces s"]) simp

lemma world_step_trans [trans]: "world_step s s1 \<Longrightarrow> world_step s1 s2 \<Longrightarrow> world_step s s2"
  unfolding world_step_def by force

lemma world_step_update_world: "update_world f s = (a, s') \<Longrightarrow> world_step s s'"
  by (cases s) (auto simp: update_world_def world_step_def split: prod.splits)

lemma world_step_on_kernel: "on_kernel f s = (a, s') \<Longrightarrow> world_step s s'"
  unfolding on_kernel_def by (rule world_step_update_world)

lemma world_step_remap: "remap_on_kernel host m minor mp s = (a, s') \<Longrightarrow> world_step s s'"
  unfolding remap_on_kernel_def by (rule world_step_on_kernel)

lemma world_step_refresh: "world_step s (refresh_live_capacity_snapshot host names s)"
  by (cases s) (auto simp: refresh_live_capacity_snapshot_def update_world_def world_step_def split: prod.splits)

lemma world_step_execute:
  assumes "execute_and_record_live_change host cmds purpose s = Some (r, s')"
  shows "world_step s s'"
proof -
  obtain fault s1 where 1: "on_kernel (consume_test_fault_once host purpose) s = (fault, s1)" by fastforce
  obtain r2 s2 where 2: "(case fault of Some f \<Rightarrow> (exec_failed f, s1)
      | None \<Rightarrow> update_world (execute_in_memory (tc_host host) cmds purpose) s1) = (r2, s2)" by fastforce
  obtain loaded s3 where 3: "on_kernel (live_load_config host) s2 = (loaded, s3)" by fastforce
  have "world_step s s1" using 1 by (rule world_step_on_kernel)
  also have "world_step s1 s2"
    using 2 by (cases fault) (auto intro: world_step_update_world)
  also have "world_step s2 s'"
    using assms world_step_on_kernel [OF 3] world_step_refresh [of s3 "tc_host host"]
    by (auto simp: execute_and_record_live_change_def 1 2 3 split: if_splits sum.splits
        intro: world_step_trans)
  finally show ?thesis .
qed

lemma world_step_same:
  "world_step s s' \<Longrightarrow> bk_circuits s' = bk_circuits s \<and> reload_required s' = reload_required s
     \<and> bk_sites s' = bk_sites s \<and> bk_live_circuits s' = bk_live_circuits s \<and> MQ_CREATED s' = MQ_CREATED s"
  by (auto simp: world_step_def)

section \<open>The contract of one stage\<close>

definition next_stage :: "Migration \<Rightarrow> Migration" where
  "next_stage m = (case mig_stage m of
     PrepareShadow \<Rightarrow> m\<lparr>mig_stage := VerifyShadowReady\<rparr>
   | VerifyShadowReady \<Rightarrow> m\<lparr>mig_stage := SwapToShadow, shadow_verify_attempts := 0\<rparr>
   | SwapToShadow \<Rightarrow> m\<lparr>mig_stage := BuildFinal\<rparr>
   | BuildFinal \<Rightarrow> m\<lparr>mig_stage := VerifyFinalReady\<rparr>
   | VerifyFinalReady \<Rightarrow> m\<lparr>mig_stage := SwapToFinal, final_verify_attempts := 0\<rparr>
   | SwapToFinal \<Rightarrow> m\<lparr>mig_stage := TeardownMigrationScaffold\<rparr>
   | _ \<Rightarrow> m\<lparr>mig_stage := MigrationDone\<rparr>)"

inductive migration_step ::
  "Migration \<times> ('k, 'v, 'o) bakery \<Rightarrow> Migration \<times> ('k, 'v, 'o) bakery \<Rightarrow> bool" where
  failed: "world_step s s1 \<Longrightarrow>
     migration_step (m, s) (m\<lparr>mig_stage := MigrationDone\<rparr>, mark_reload_required reason s1)"
| retried_shadow: "mig_stage m = VerifyShadowReady \<Longrightarrow> shadow_verify_attempts m < 3 \<Longrightarrow> world_step s s1 \<Longrightarrow>
     migration_step (m, s) (m\<lparr>shadow_verify_attempts := shadow_verify_attempts m + 1\<rparr>, s1)"
| retried_final: "mig_stage m = VerifyFinalReady \<Longrightarrow> final_verify_attempts m < 3 \<Longrightarrow> world_step s s1 \<Longrightarrow>
     migration_step (m, s) (m\<lparr>final_verify_attempts := final_verify_attempts m + 1\<rparr>, s1)"
| advanced: "mig_stage m \<noteq> SwapToFinal \<Longrightarrow> world_step s s1 \<Longrightarrow> migration_step (m, s) (next_stage m, s1)"
| published: "mig_stage m = SwapToFinal \<Longrightarrow> world_step s s1 \<Longrightarrow>
     migration_step (m, s) (next_stage m,
       s1\<lparr>bk_circuits := AList.update (mig_circuit_hash m) (desired_cmd m) (bk_circuits s1)\<rparr>)"

inductive_cases migration_stepE [elim]: "migration_step (m, s) (m', s')"

lemma advancedI:
  "mig_stage m \<noteq> SwapToFinal \<Longrightarrow> world_step s s1 \<Longrightarrow> next_stage m = m' \<Longrightarrow> migration_step (m, s) (m', s1)"
  by (auto intro: migration_step.advanced)

lemma retry_add: "(a :: u8) < 3 \<Longrightarrow> saturating_add a 1 = a + 1"
  by (simp add: saturating_add_def word_less_nat_alt)

lemma apply_stage_step:
  assumes "apply_stage host m cmds purpose stage s = Some (m', s')" "world_step s0 s"
    and "next_stage m = m\<lparr>mig_stage := stage\<rparr>" "mig_stage m \<noteq> SwapToFinal"
  shows "migration_step (m, s0) (m', s')"
proof (cases "cmds = []")
  case True
  with assms show ?thesis by (auto simp: apply_stage_def intro: advancedI)
next
  case False
  with assms(1) obtain r s1 where e: "execute_and_record_live_change host cmds purpose s = Some (r, s1)"
    and r: "(m', s') = snd (migration_stage_apply_succeeded m purpose r stage s1)"
    by (auto simp: apply_stage_def)
  have w: "world_step s0 s1" using assms(2) world_step_execute [OF e] by (rule world_step_trans)
  show ?thesis
  proof (cases "exec_ok r")
    case True
    with r assms(3,4) w show ?thesis
      by (auto simp: migration_stage_apply_succeeded_def intro: advancedI)
  next
    case False
    with r w show ?thesis
      by (auto simp: migration_stage_apply_succeeded_def mark_migration_reload_required_def
          intro: migration_step.failed)
  qed
qed

lemma prepare_shadow_step:
  assumes "prepare_shadow host config handles m s = Some (m', s')" "mig_stage m = PrepareShadow"
  shows "migration_step (m, s) (m', s')"
proof -
  obtain names where n: "interfaces config = Some names"
    using assms(1) by (auto simp: prepare_shadow_def split: Option.bind_splits)
  obtain live s1 where 1: "update_world (snapshot_live_qdisc_handle_majors_or_empty host config names) s = (live, s1)"
    by fastforce
  obtain r s2 where 2: "update_world (migration_shadow_wrong_parent_prune_commands host config names m) s1 = (r, s2)"
    by fastforce
  have w: "world_step s s2"
    using world_step_update_world [OF 1] world_step_update_world [OF 2] by (rule world_step_trans)
  show ?thesis
  proof (cases r)
    case (Inl e)
    with assms(1) w show ?thesis
      by (auto simp: prepare_shadow_def n 1 2 fail_migration_def intro: migration_step.failed)
  next
    case (Inr cmds)
    obtain temp where t: "build_shadow_add_cmd m config names handles live = Some temp"
      by (cases "assign_shadow_qdisc_handles m config names handles live")
         (auto simp: build_shadow_add_cmd_def shadow_temp_cmd_def build_temp_add_cmd_def shadow_base_def)
    from assms(1) Inr obtain c where
      "apply_stage host m (cmds @ c) ''live-move: create shadow'' VerifyShadowReady s2 = Some (m', s')"
      by (auto simp: prepare_shadow_def n 1 2 t split: Option.bind_splits)
    then show ?thesis using w by (rule apply_stage_step) (simp_all add: assms(2) next_stage_def)
  qed
qed

lemma verify_shadow_ready_step:
  assumes "verify_shadow_ready host config m s = Some (m', s')" "mig_stage m = VerifyShadowReady"
  shows "migration_step (m, s) (m', s')"
proof -
  obtain names where n: "interfaces config = Some names"
    using assms(1) by (auto simp: verify_shadow_ready_def)
  obtain r s1 where 1: "update_world (migration_shadow_verification host config names m) s = (r, s1)" by fastforce
  note w = world_step_update_world [OF 1]
  have a: "next_stage m = m\<lparr>mig_stage := SwapToShadow, shadow_verify_attempts := 0\<rparr>"
    by (simp add: next_stage_def assms(2))
  show ?thesis
    using assms w
    by (auto simp: verify_shadow_ready_def n 1 fail_migration_def MIGRATION_VERIFICATION_MAX_RETRIES_def retry_add a
        split: sum.splits if_splits intro: advancedI migration_step.failed migration_step.retried_shadow)
qed

lemma verify_final_ready_step:
  assumes "verify_final_ready host config m s = Some (m', s')" "mig_stage m = VerifyFinalReady"
  shows "migration_step (m, s) (m', s')"
proof -
  obtain names where n: "interfaces config = Some names"
    using assms(1) by (auto simp: verify_final_ready_def)
  obtain r s1 where 1: "update_world (migration_final_verification host config names m) s = (r, s1)" by fastforce
  note w = world_step_update_world [OF 1]
  have a: "next_stage m = m\<lparr>mig_stage := SwapToFinal, final_verify_attempts := 0\<rparr>"
    by (simp add: next_stage_def assms(2))
  show ?thesis
    using assms w
    by (auto simp: verify_final_ready_def n 1 fail_migration_def MIGRATION_VERIFICATION_MAX_RETRIES_def retry_add a
        split: sum.splits if_splits intro: advancedI migration_step.failed migration_step.retried_final)
qed

lemma swap_to_shadow_step:
  assumes "swap_to_shadow host m mp s = (m', mp', s')" "mig_stage m = SwapToShadow"
  shows "migration_step (m, s) (m', s')"
proof -
  obtain r mp1 s1 where 1: "remap_on_kernel host m (shadow_minor m) mp s = ((r, mp1), s1)" by (metis prod.exhaust)
  note w = world_step_remap [OF 1]
  have a: "next_stage m = m\<lparr>mig_stage := BuildFinal\<rparr>" by (simp add: next_stage_def assms(2))
  show ?thesis
    using assms w
    by (auto simp: swap_to_shadow_def 1 fail_migration_def a split: sum.splits intro: advancedI migration_step.failed)
qed

lemma swap_to_final_step:
  assumes "swap_to_final host m mp s = (m', mp', s')" "mig_stage m = SwapToFinal"
  shows "migration_step (m, s) (m', s')"
proof -
  obtain r mp1 s1 where 1: "remap_on_kernel host m (final_minor m) mp s = ((r, mp1), s1)" by (metis prod.exhaust)
  note w = world_step_remap [OF 1]
  have a: "next_stage m = m\<lparr>mig_stage := TeardownMigrationScaffold\<rparr>" by (simp add: next_stage_def assms(2))
  show ?thesis
    using assms w migration_step.published [OF _ w, of m]
    by (auto simp: swap_to_final_def 1 fail_migration_def a split: sum.splits intro: migration_step.failed)
qed

lemma build_final_step:
  assumes "build_final host config m s = Some (m', s')" "mig_stage m = BuildFinal"
  shows "migration_step (m, s) (m', s')"
proof -
  obtain names where n: "interfaces config = Some names"
    using assms(1) by (auto simp: build_final_def split: Option.bind_splits)
  obtain r s1 where 1: "update_world (migration_final_wrong_parent_prune_commands host config names m) s = (r, s1)"
    by fastforce
  obtain live s2 where 2: "update_world (snapshot_live_qdisc_handle_majors_or_empty host config names) s1 = (live, s2)"
    by fastforce
  have w1: "world_step s s1" using 1 by (rule world_step_update_world)
  have w: "world_step s s2" using w1 world_step_update_world [OF 2] by (rule world_step_trans)
  show ?thesis
  proof (cases r)
    case (Inl e)
    with assms(1) w1 show ?thesis
      by (auto simp: build_final_def n 1 fail_migration_def intro: migration_step.failed)
  next
    case (Inr cmds)
    let ?final = "build_temp_add_cmd (desired_cmd m) (final_minor m) (new_down_min m) (new_down_max m)
        (new_up_min m) (new_up_max m) True"
    let ?error = "\<lambda>f. build_final_qdisc_handle_rotation_invariant_error_with_live_reservations m f
        (map_of live (fst names)) (map_of live (snd names))"
    have n': "next_stage m = m\<lparr>mig_stage := VerifyFinalReady\<rparr>" "mig_stage m \<noteq> SwapToFinal"
      by (simp_all add: next_stage_def assms(2))
    consider "?final = None" | f reason where "?final = Some f" "?error f = Some reason"
      | f where "?final = Some f" "?error f = None" by (cases ?final) force+
    then show ?thesis
    proof cases
      case 1
      with assms(1) have "apply_stage host m cmds ''live-move: build final'' VerifyFinalReady s2 = Some (m', s')"
        by (simp add: build_final_def n \<open>update_world _ s = (r, s1)\<close> 2 Inr)
      then show ?thesis using w n' by (rule apply_stage_step)
    next
      case (2 f reason)
      with assms(1) w show ?thesis
        by (simp add: build_final_def n 1 \<open>update_world _ s1 = (live, s2)\<close> Inr fail_migration_def migration_step.failed)
          (metis migration_step.failed)
    next
      case (3 f)
      with assms(1) obtain c where
        "apply_stage host m (cmds @ c) ''live-move: build final'' VerifyFinalReady s2 = Some (m', s')"
        by (auto simp: build_final_def n 1 2 Inr split: Option.bind_splits)
      then show ?thesis using w n' by (rule apply_stage_step)
    qed
  qed
qed

lemma teardown_step:
  assumes "teardown_migration_scaffold host config m s = Some (m', s')" "mig_stage m = TeardownMigrationScaffold"
  shows "migration_step (m, s) (m', s')"
proof -
  from assms(1) obtain c where
    "apply_stage host m c ''live-move: prune migration scaffold'' MigrationDone s = Some (m', s')"
    by (auto simp: teardown_migration_scaffold_def split: Option.bind_splits)
  then show ?thesis by (rule apply_stage_step) (auto simp: assms(2) next_stage_def)
qed

text \<open>The code's stages implement the contract.\<close>

lemma advance_migration_step:
  assumes "advance_migration host config handles m mp s = Some (m', mp', s')" "mig_stage m \<noteq> MigrationDone"
  shows "migration_step (m, s) (m', s')"
  using assms
  by (cases "mig_stage m")
     (auto simp: advance_migration_def intro: prepare_shadow_step verify_shadow_ready_step swap_to_shadow_step
        build_final_step verify_final_ready_step swap_to_final_step teardown_step)

section \<open>All pending migrations\<close>

text \<open>What identifies a migration does not change; only its stage and its retries do.\<close>

definition same_move :: "Migration \<Rightarrow> Migration \<Rightarrow> bool" where
  "same_move m m' \<longleftrightarrow> mig_circuit_hash m' = mig_circuit_hash m \<and> desired_cmd m' = desired_cmd m
     \<and> shadow_minor m' = shadow_minor m \<and> mig_class_major m' = mig_class_major m
     \<and> mig_up_class_major m' = mig_up_class_major m"

lemma migration_step_same: "migration_step (m, s) (m', s') \<Longrightarrow> same_move m m'"
  by (cases m) (auto simp: same_move_def next_stage_def split: MigrationStage.splits)

definition keyed_migrations :: "migrations \<Rightarrow> bool" where
  "keyed_migrations migs \<longleftrightarrow> distinct (map fst migs) \<and> (\<forall>(h, m) \<in> set migs. mig_circuit_hash m = h)"

lemma keyed_unique: "keyed_migrations migs \<Longrightarrow> (h, m) \<in> set migs \<Longrightarrow> (h, m') \<in> set migs \<Longrightarrow> m = m'"
  by (metis keyed_migrations_def map_of_is_SomeI option.inject)

inductive migrations_step ::
  "migrations \<times> ('k, 'v, 'o) bakery \<Rightarrow> migrations \<times> ('k, 'v, 'o) bakery \<Rightarrow> bool" where
  stage: "mig_stage m \<noteq> MigrationDone \<Longrightarrow> migration_step (m, s) (m', s')
     \<Longrightarrow> migrations_step (xs @ (h, m) # ys, s) (xs @ (h, m') # ys, s')"
| removed: "mig_stage m = MigrationDone \<Longrightarrow> migrations_step (xs @ (h, m) # ys, s) (xs @ ys, s)"
| reordered: "mset migs' = mset migs \<Longrightarrow> migrations_step (migs, s) (migs', s)"
| pruned: "bk_circuits s' = bk_circuits s \<Longrightarrow> (reload_required s \<noteq> None \<longrightarrow> reload_required s' \<noteq> None)
     \<Longrightarrow> migrations_step (migs, s) (migs, s')"

lemma keyed_step:
  assumes "migrations_step (migs, s) (migs', s')" "keyed_migrations migs"
  shows "keyed_migrations migs'"
  using assms
proof (cases rule: migrations_step.cases)
  case (reordered)
  then have "set migs' = set migs" and f: "mset (map fst migs') = mset (map fst migs)"
    by (auto dest: mset_eq_setD)
  with assms(2) show ?thesis unfolding keyed_migrations_def mset_eq_imp_distinct_iff [OF f] by simp
next
  case (stage m m' xs h ys)
  with assms(2) show ?thesis
    using migration_step_same [OF stage(4)] by (auto simp: keyed_migrations_def same_move_def)
qed (auto simp: keyed_migrations_def)

lemma pending_loop_steps:
  assumes "pending_loop host config handles n migs mp s = Some (migs', rm, mp', s')"
  shows "migrations_step\<^sup>*\<^sup>* (pre @ migs, s) (pre @ migs', s')"
  using assms
proof (induction migs arbitrary: n mp s pre migs' rm mp' s')
  case (Cons entry migs)
  obtain h m where e: "entry = (h, m)" by force
  show ?case
  proof (cases "MIGRATIONS_PER_TICK \<le> n \<or> mig_stage m = MigrationDone")
    case True
    with Cons.prems e show ?thesis
      using Cons.IH [of n mp s _ _ _ _ "pre @ [entry]"] by (auto split: if_splits)
  next
    case False
    with Cons.prems e obtain m1 mp1 s1 migs1 where
      a: "advance_migration host config handles m mp s = Some (m1, mp1, s1)"
      and l: "pending_loop host config handles (n + 1) migs mp1 s1 = Some (migs1, rm, mp', s')"
      and m: "migs' = (h, m1) # migs1"
      by (auto split: Option.bind_splits)
    have "migrations_step (pre @ (h, m) # migs, s) (pre @ (h, m1) # migs, s1)"
      using False advance_migration_step [OF a] by (intro migrations_step.stage) auto
    also have "migrations_step\<^sup>*\<^sup>* (pre @ (h, m1) # migs, s1) (pre @ (h, m1) # migs1, s')"
      using Cons.IH [OF l, of "pre @ [(h, m1)]"] by simp
    finally show ?thesis by (simp add: e m)
  qed
qed simp

lemma pending_loop_removed:
  assumes "pending_loop host config handles n migs mp s = Some (migs', rm, mp', s')" "keyed_migrations migs"
  shows "map fst migs' = map fst migs
     \<and> (\<forall>h \<in> set rm. \<exists>m. (h, m) \<in> set migs' \<and> mig_stage m = MigrationDone)"
  using assms
proof (induction migs arbitrary: n mp s migs' rm mp' s')
  case (Cons entry migs)
  obtain h m where e: "entry = (h, m)" by force
  have k: "keyed_migrations migs" "mig_circuit_hash m = h" using Cons.prems(2) by (auto simp: keyed_migrations_def e)
  show ?case
  proof (cases "MIGRATIONS_PER_TICK \<le> n \<or> mig_stage m = MigrationDone")
    case True
    with Cons.prems e k show ?thesis
      using Cons.IH [of n mp s] by (fastforce split: if_splits)
  next
    case False
    with Cons.prems e obtain m1 mp1 s1 migs1 where
      l: "pending_loop host config handles (n + 1) migs mp1 s1 = Some (migs1, rm, mp', s')"
      and m: "migs' = (h, m1) # migs1"
      by (auto split: Option.bind_splits)
    with Cons.IH [OF l k(1)] show ?thesis by (auto simp: e)
  qed
qed simp

lemma delete_append: "AList.delete k (xs @ ys) = AList.delete k xs @ AList.delete k ys"
  by (simp add: AList.delete_eq)

lemma delete_done_steps:
  assumes "keyed_migrations migs" "\<forall>h \<in> set rm. \<forall>m. (h, m) \<in> set migs \<longrightarrow> mig_stage m = MigrationDone"
  shows "migrations_step\<^sup>*\<^sup>* (migs, s) (fold AList.delete rm migs, s)"
  using assms
proof (induction rm arbitrary: migs)
  case (Cons h rm)
  have one: "migrations_step\<^sup>*\<^sup>* (migs, s) (AList.delete h migs, s)"
  proof (cases "h \<in> fst ` set migs")
    case True
    then obtain m xs ys where m: "migs = xs @ (h, m) # ys" by (auto simp: in_set_conv_decomp)
    with Cons.prems(1) have "h \<notin> fst ` set xs" "h \<notin> fst ` set ys" by (simp_all add: keyed_migrations_def)
    then have "AList.delete h migs = xs @ ys"
      by (simp add: m delete_append delete_id del: image_iff)
    moreover have "(h, m) \<in> set migs" unfolding m by simp
    then have "mig_stage m = MigrationDone" using Cons.prems(2) by (meson list.set_intros(1))
    ultimately show ?thesis using migrations_step.removed [of m xs h ys s] by (simp add: m r_into_rtranclp)
  next
    case False
    then have "AList.delete h migs = migs" by (rule delete_id)
    then show ?thesis by simp
  qed
  have "keyed_migrations (AList.delete h migs)"
    using Cons.prems(1) by (auto simp: keyed_migrations_def AList.delete_eq intro: distinct_map_filter)
  moreover have "\<forall>h' \<in> set rm. \<forall>m. (h', m) \<in> set (AList.delete h migs) \<longrightarrow> mig_stage m = MigrationDone"
    using Cons.prems(2) by (auto simp: AList.delete_eq)
  ultimately have "migrations_step\<^sup>*\<^sup>* (AList.delete h migs, s) (fold AList.delete rm (AList.delete h migs), s)"
    by (rule Cons.IH)
  with one show ?case by simp
qed simp

lemma flush_step:
  assumes "flush_deferred_runtime_site_prunes prune config migs s = Some s'"
  shows "migrations_step (ms, s) (ms, s')"
  using assms
  by (intro migrations_step.pruned)
     (auto simp: flush_deferred_runtime_site_prunes_def mark_reload_required_def Let_def split: if_splits option.splits)

text \<open>A tick of a shaping configuration implements the contract.\<close>

lemma process_pending_migrations_steps:
  assumes "process_pending_migrations host prune config migs mp s = Some (migs', mp', s')"
    and "\<not> is_observe (queue_mode (cfg_queues config))" "keyed_migrations migs"
  shows "migrations_step\<^sup>*\<^sup>* (migs, s) (migs', s')"
proof -
  from assms(1,2) obtain ms rm s1 where
    l: "pending_loop host config (load (bk_saved_handles s)) 0 migs mp s = Some (ms, rm, mp', s1)"
    and m: "migs' = fold AList.delete rm ms"
    and f: "flush_deferred_runtime_site_prunes prune config migs' s1 = Some s'"
    by (auto simp: process_pending_migrations_def Let_def split: Option.bind_splits)
  have loop: "migrations_step\<^sup>*\<^sup>* (migs, s) (ms, s1)" using pending_loop_steps [OF l, of "[]"] by simp
  note r = pending_loop_removed [OF l assms(3)]
  have k: "keyed_migrations ms" using loop assms(3)
    by (induction "(ms, s1)" arbitrary: ms s1 rule: rtranclp_induct) (auto intro: keyed_step)
  have "mig_stage m = MigrationDone" if "h \<in> set rm" "(h, m) \<in> set ms" for h m
    using r that keyed_unique [OF k] by blast
  then have "migrations_step\<^sup>*\<^sup>* (ms, s1) (migs', s1)" unfolding m by (intro delete_done_steps k) auto
  also have "migrations_step (migs', s1) (migs', s')" using f by (rule flush_step)
  finally show ?thesis using loop by simp
qed

section \<open>Published, or a reload is required\<close>

text \<open>
  The account of the migrations \<open>migs0\<close> that were pending in state \<open>s0\<close>: each is still on its way to the
  final class, or its circuit is published, or a reload is required; only their circuits change, and
  only to what was desired.
\<close>

definition accounted ::
  "migrations \<Rightarrow> ('k, 'v, 'o) bakery \<Rightarrow> migrations \<times> ('k, 'v, 'o) bakery \<Rightarrow> bool" where
  "accounted migs0 s0 st \<longleftrightarrow> (let (migs, s) = st in
     keyed_migrations migs
     \<and> (\<forall>(h, m) \<in> set migs. \<exists>m0. (h, m0) \<in> set migs0 \<and> desired_cmd m = desired_cmd m0)
     \<and> (\<forall>(h, m0) \<in> set migs0.
          (\<exists>m. (h, m) \<in> set migs \<and> mig_stage m \<notin> {TeardownMigrationScaffold, MigrationDone})
          \<or> map_of (bk_circuits s) h = Some (desired_cmd m0) \<or> reload_required s \<noteq> None)
     \<and> (\<forall>h. map_of (bk_circuits s) h = map_of (bk_circuits s0) h
          \<or> (\<exists>m0. (h, m0) \<in> set migs0 \<and> map_of (bk_circuits s) h = Some (desired_cmd m0))))"

lemma accounted_start:
  assumes "keyed_migrations migs" "\<forall>(h, m) \<in> set migs. mig_stage m \<notin> {TeardownMigrationScaffold, MigrationDone}"
  shows "accounted migs s (migs, s)"
  using assms by (fastforce simp: accounted_def)

lemma migration_step_outcome:
  assumes "migration_step (m, s) (m', s')" "mig_stage m \<noteq> MigrationDone"
  shows "reload_required s \<noteq> None \<longrightarrow> reload_required s' \<noteq> None"
    and "map_of (bk_circuits s') = (if mig_stage m = SwapToFinal \<and> mig_stage m' = TeardownMigrationScaffold
           then (map_of (bk_circuits s))(mig_circuit_hash m \<mapsto> desired_cmd m) else map_of (bk_circuits s))"
    and "mig_stage m' = TeardownMigrationScaffold \<Longrightarrow> mig_stage m = SwapToFinal"
    and "mig_stage m' = MigrationDone \<Longrightarrow> reload_required s' \<noteq> None \<or> mig_stage m = TeardownMigrationScaffold"
  using assms
  by (auto simp: next_stage_def mark_reload_required_def update_conv' dest!: world_step_same
      split: MigrationStage.splits)

lemma accounted_step:
  assumes "migrations_step (migs, s) (migs', s')" "accounted migs0 s0 (migs, s)" "keyed_migrations migs0"
  shows "accounted migs0 s0 (migs', s')"
  using assms(1)
proof (cases rule: migrations_step.cases)
  case (stage m m' xs h ys)
  note o = migration_step_outcome [OF stage(4) stage(3)] and f = migration_step_same [OF stage(4)]
  have k: "keyed_migrations migs'" using assms(1,2) by (auto simp: accounted_def intro: keyed_step)
  have h: "mig_circuit_hash m = h" using assms(2) stage by (auto simp: accounted_def keyed_migrations_def)
  obtain m0 where m0: "(h, m0) \<in> set migs0" "desired_cmd m = desired_cmd m0"
    using assms(2) stage by (auto simp: accounted_def)
  have only: "m1 = m0" if "(h, m1) \<in> set migs0" for m1
    using assms(3) m0(1) that by (rule keyed_unique [symmetric])
  have unique: "m1 = m" if "(h, m1) \<in> set migs" for m1
    using assms(2) stage(1) that by (auto simp: accounted_def intro: keyed_unique)
  have keep: "map_of (bk_circuits s') g = map_of (bk_circuits s) g" if "g \<noteq> h" for g
    using o(2) that h by (auto split: if_splits)
  show ?thesis
    unfolding accounted_def Let_def prod.case
  proof (intro conjI ballI allI)
    show "keyed_migrations migs'" by (rule k)
  next
    fix e assume "e \<in> set migs'"
    then show "case e of (h, m) \<Rightarrow> \<exists>m0. (h, m0) \<in> set migs0 \<and> desired_cmd m = desired_cmd m0"
      using assms(2) stage f m0 by (fastforce simp: accounted_def same_move_def)
  next
    fix e assume e: "e \<in> set migs0"
    obtain g n where g: "e = (g, n)" by force
    show "case e of (h, m0) \<Rightarrow>
        (\<exists>m. (h, m) \<in> set migs' \<and> mig_stage m \<notin> {TeardownMigrationScaffold, MigrationDone})
        \<or> map_of (bk_circuits s') h = Some (desired_cmd m0) \<or> reload_required s' \<noteq> None"
    proof (cases "g = h")
      case False
      with assms(2) e g o(1) keep stage(1,2) show ?thesis by (fastforce simp: accounted_def)
    next
      case True
      with e g only have n: "n = m0" by auto
      have old: "mig_stage m \<notin> {TeardownMigrationScaffold, MigrationDone}
          \<or> map_of (bk_circuits s) h = Some (desired_cmd m0) \<or> reload_required s \<noteq> None"
        using assms(2) m0(1) unique by (fastforce simp: accounted_def)
      show ?thesis
      proof (cases "mig_stage m' \<in> {TeardownMigrationScaffold, MigrationDone}")
        case False
        then show ?thesis using stage(2) g True by auto
      next
        case ended: True
        have "map_of (bk_circuits s') h = Some (desired_cmd m0) \<or> reload_required s' \<noteq> None"
          using ended old o h m0(2) by (auto split: if_splits)
        then show ?thesis using g True n by auto
      qed
    qed
  next
    fix g
    show "map_of (bk_circuits s') g = map_of (bk_circuits s0) g
        \<or> (\<exists>m0. (g, m0) \<in> set migs0 \<and> map_of (bk_circuits s') g = Some (desired_cmd m0))"
    proof (cases "g = h")
      case False
      with assms(2) keep show ?thesis by (auto simp: accounted_def)
    next
      case True
      with assms(2) o(2) h m0 show ?thesis by (auto simp: accounted_def split: if_splits)
    qed
  qed
next
  case (removed m xs h ys)
  have "keyed_migrations migs'" using assms(1,2) by (auto simp: accounted_def intro: keyed_step)
  with assms(2) removed show ?thesis by (fastforce simp: accounted_def)
next
  case reordered
  have "keyed_migrations migs'" using assms(1,2) by (auto simp: accounted_def intro: keyed_step)
  moreover have "set migs' = set migs" using reordered(2) by (rule mset_eq_setD)
  ultimately show ?thesis using assms(2) reordered(1) by (simp add: accounted_def)
next
  case pruned
  with assms(2) show ?thesis by (fastforce simp: accounted_def)
qed

lemma accounted_steps:
  assumes "migrations_step\<^sup>*\<^sup>* (migs, s) (migs', s')" "accounted migs0 s0 (migs, s)" "keyed_migrations migs0"
  shows "accounted migs0 s0 (migs', s')"
  using assms(1,2)
  by (induction "(migs', s')" arbitrary: migs' s' rule: rtranclp_induct)
     (use assms(3) in \<open>auto intro: accounted_step\<close>)

section \<open>Every migration ends\<close>

definition migration_rank :: "Migration \<Rightarrow> nat" where
  "migration_rank m = (case mig_stage m of
     PrepareShadow \<Rightarrow> 14
   | VerifyShadowReady \<Rightarrow> 10 + (3 - unat (shadow_verify_attempts m))
   | SwapToShadow \<Rightarrow> 9
   | BuildFinal \<Rightarrow> 8
   | VerifyFinalReady \<Rightarrow> 4 + (3 - unat (final_verify_attempts m))
   | SwapToFinal \<Rightarrow> 3
   | TeardownMigrationScaffold \<Rightarrow> 2
   | MigrationDone \<Rightarrow> 1)"

lemma migration_rank_bounds: "1 \<le> migration_rank m \<and> migration_rank m \<le> 14"
  by (cases "mig_stage m") (simp_all add: migration_rank_def)

lemma retry_unat: "(a :: u8) < 3 \<Longrightarrow> 3 - unat (a + 1) < 3 - unat a"
  by (auto simp: word_less_nat_alt unat_word_ariths)

lemma migration_step_rank:
  assumes "migration_step (m, s) (m', s')" "mig_stage m \<noteq> MigrationDone"
  shows "migration_rank m' < migration_rank m"
  using assms
  by (auto simp: migration_rank_def next_stage_def retry_unat split: MigrationStage.splits)

definition ranks :: "migrations \<Rightarrow> nat" where
  "ranks migs = sum_list (map (migration_rank \<circ> snd) migs)"

definition moving :: "migrations \<Rightarrow> nat" where
  "moving migs = length (filter (\<lambda>(_, m). mig_stage m \<noteq> MigrationDone) migs)"

text \<open>Enough migrations on the move: the tick takes all its steps. Fewer: every one is reached.\<close>

lemma pending_loop_progress:
  assumes "pending_loop host config handles n migs mp s = Some (migs', rm, mp', s')" "n \<le> 16"
  shows "ranks migs' + min (16 - n) (moving migs) \<le> ranks migs \<and> moving migs' \<le> moving migs
    \<and> (n + moving migs < 16 \<longrightarrow>
         list_all2 (\<lambda>(_, m) (h, m'). if mig_stage m = MigrationDone then mig_circuit_hash m \<in> set rm
           else migration_rank m' < migration_rank m) migs migs')"
  using assms
proof (induction migs arbitrary: n mp s migs' rm mp' s')
  case (Cons entry migs)
  obtain h m where e: "entry = (h, m)" by force
  consider "16 \<le> n" | "n < 16" "mig_stage m = MigrationDone" | "n < 16" "mig_stage m \<noteq> MigrationDone" by linarith
  then show ?case
  proof cases
    case 1
    with Cons.prems e show ?thesis by (simp add: MIGRATIONS_PER_TICK_def)
  next
    case 2
    with Cons.prems(1) e obtain migs1 rm1 where
      l: "pending_loop host config handles n migs mp s = Some (migs1, rm1, mp', s')"
      and m: "migs' = (h, m) # migs1" "rm = mig_circuit_hash m # rm1"
      by (auto simp: MIGRATIONS_PER_TICK_def)
    show ?thesis using Cons.IH [OF l Cons.prems(2)] 2
      by (auto simp: e m ranks_def moving_def elim!: list_all2_mono split: if_splits)
  next
    case 3
    with Cons.prems(1) e obtain m1 mp1 s1 migs1 where
      a: "advance_migration host config handles m mp s = Some (m1, mp1, s1)"
      and l: "pending_loop host config handles (n + 1) migs mp1 s1 = Some (migs1, rm, mp', s')"
      and m: "migs' = (h, m1) # migs1"
      by (auto simp: MIGRATIONS_PER_TICK_def split: Option.bind_splits)
    have "migration_rank m1 < migration_rank m"
      using advance_migration_step [OF a 3(2)] 3(2) by (rule migration_step_rank)
    with Cons.IH [OF l] 3 show ?thesis
      by (auto simp: e m ranks_def moving_def)
  qed
qed (simp add: ranks_def moving_def)

lemma kept_entries: "fold AList.delete rm migs = filter (\<lambda>(h, _). h \<notin> set rm) migs"
proof (induction rm arbitrary: migs)
  case (Cons h rm)
  have "fold AList.delete (h # rm) migs = filter (\<lambda>(g, _). g \<notin> set rm) (filter (\<lambda>(g, _). h \<noteq> g) migs)"
    by (simp add: Cons AList.delete_eq case_prod_unfold)
  also have "\<dots> = filter (\<lambda>(g, _). g \<notin> set (h # rm)) migs"
    by (auto simp: case_prod_unfold intro!: filter_cong)
  finally show ?case .
qed simp

lemma ranks_filter: "ranks (filter P migs) \<le> ranks migs" and moving_filter: "moving (filter P migs) \<le> moving migs"
  by (induction migs) (auto simp: ranks_def moving_def)

lemma tick_progress:
  assumes "process_pending_migrations host prune config migs mp s = Some (migs', mp', s')"
    and "\<not> is_observe (queue_mode (cfg_queues config))" "keyed_migrations migs"
  shows "16 \<le> moving migs \<Longrightarrow> ranks migs' + 16 \<le> ranks migs"
    and "moving migs' \<le> moving migs"
    and "moving migs < 16 \<Longrightarrow> \<forall>(h, m) \<in> set migs. migration_rank m \<le> Suc r
           \<Longrightarrow> \<forall>(h, m) \<in> set migs'. migration_rank m \<le> r"
proof -
  from assms(1,2) obtain ms rm s1 where
    l: "pending_loop host config (load (bk_saved_handles s)) 0 migs mp s = Some (ms, rm, mp', s1)"
    and m: "migs' = filter (\<lambda>(h, _). h \<notin> set rm) ms"
    by (auto simp: process_pending_migrations_def Let_def kept_entries split: Option.bind_splits)
  note p = pending_loop_progress [OF l]
  show "ranks migs' + 16 \<le> ranks migs" if "16 \<le> moving migs"
    using p that ranks_filter [of "\<lambda>(h, _). h \<notin> set rm" ms] by (simp add: m)
  show "moving migs' \<le> moving migs"
    using p moving_filter [of "\<lambda>(h, _). h \<notin> set rm" ms] by (simp add: m)
  show "\<forall>(h, m) \<in> set migs'. migration_rank m \<le> r"
    if few: "moving migs < 16" and r: "\<forall>(h, m) \<in> set migs. migration_rank m \<le> Suc r"
  proof -
    have all: "list_all2 (\<lambda>(_, m) (h, m'). if mig_stage m = MigrationDone then mig_circuit_hash m \<in> set rm
        else migration_rank m' < migration_rank m) migs ms"
      using p few by simp
    have keys: "map fst ms = map fst migs" using pending_loop_removed [OF l assms(3)] by simp
    show ?thesis
    proof (clarsimp simp: m)
      fix h m' assume m': "(h, m') \<in> set ms" "h \<notin> set rm"
      then obtain i where i: "i < length ms" "ms ! i = (h, m')" by (auto simp: in_set_conv_nth)
      then have len: "i < length migs" using keys by (metis length_map)
      obtain g m where g: "migs ! i = (g, m)" by force
      then have "g = h" using keys i len by (metis fst_conv nth_map)
      moreover have "(g, m) \<in> set migs" using g len by (metis nth_mem)
      ultimately have "mig_circuit_hash m = h" "migration_rank m \<le> Suc r"
        using assms(3) r by (auto simp: keyed_migrations_def)
      moreover have "if mig_stage m = MigrationDone then mig_circuit_hash m \<in> set rm
          else migration_rank m' < migration_rank m"
        using list_all2_nthD [OF all len] g i by simp
      ultimately show "migration_rank m' \<le> r" using m'(2) by (simp split: if_splits)
    qed
  qed
qed

section \<open>Ticks return\<close>

text \<open>Every configuration the host loads names its interfaces.\<close>

definition host_configured :: "'k live_host \<Rightarrow> bool" where
  "host_configured host \<longleftrightarrow> (\<forall>k config. fst (live_load_config host k) = Inr config \<longrightarrow> interfaces config \<noteq> None)"

lemma execute_returns:
  assumes "host_configured host"
  shows "execute_and_record_live_change host cmds purpose s \<noteq> None"
proof -
  obtain fault s1 where 1: "on_kernel (consume_test_fault_once host purpose) s = (fault, s1)" by fastforce
  obtain r2 s2 where 2: "(case fault of Some f \<Rightarrow> (exec_failed f, s1)
      | None \<Rightarrow> update_world (execute_in_memory (tc_host host) cmds purpose) s1) = (r2, s2)" by fastforce
  obtain loaded s3 where 3: "on_kernel (live_load_config host) s2 = (loaded, s3)" by fastforce
  then have "loaded = fst (live_load_config host (kernel (bk_world s2)))"
    by (auto simp: on_kernel_def update_world_def Let_def split: prod.splits)
  then show ?thesis
    using assms by (auto simp: execute_and_record_live_change_def 1 2 3 host_configured_def split: sum.splits)
qed

lemma those_returns: "None \<notin> set xs \<Longrightarrow> \<exists>c. map_option f (those xs) = Some c"
proof -
  have "\<exists>ys. those xs = Some ys" if "None \<notin> set xs"
    using that by (induction xs) (auto split: option.split, metis option.exhaust)
  then show "None \<notin> set xs \<Longrightarrow> \<exists>c. map_option f (those xs) = Some c" by auto
qed

lemma commands_return:
  assumes "interfaces config = Some names"
  shows "\<exists>c. migration_build_commands (AddCircuit p) config mq = Some c"
    and "\<exists>c. to_prune (AddCircuit p) config force = Some c"
proof -
  obtain isp internet where i: "isp_interface config = Some isp" "internet_interface config = Some internet"
    using assms by (auto simp: interfaces_def split: Option.bind_splits)
  have add: "\<exists>c. add_circuit mode config p = Some c" for mode
    unfolding add_circuit_def Let_def case_prod_unfold i on_dev_def option.map
    by (cases "is_observe (queue_mode (cfg_queues config))") (simp, simp only: if_False, rule those_returns, simp)
  have mode: "\<exists>c. commands_in_mode (AddCircuit p) config mq mode = Some c" for mode
    using add [of mode] by (auto simp: commands_in_mode_def add_commands_for_circuit_def to_commands_def)
  obtain c d where "commands_in_mode (AddCircuit p) config mq Builder = Some c"
    "commands_in_mode (AddCircuit p) config mq LiveUpdate = Some d" using mode by blast
  then show "\<exists>c. migration_build_commands (AddCircuit p) config mq = Some c"
    by (simp add: migration_build_commands_def split: option.split LazyQueueMode.split)
  show "\<exists>c. to_prune (AddCircuit p) config force = Some c"
    unfolding to_prune_def prune_circuit_def Let_def case_prod_unfold i on_dev_def option.map BakeryCommands.case
    by (cases "prune_levels force (lazy_queues (cfg_queues config))")
       (simp, simp only: option.case, rule those_returns, simp)
qed

lemma apply_stage_returns:
  "host_configured host \<Longrightarrow> apply_stage host m cmds purpose stage s \<noteq> None"
  by (simp add: apply_stage_def execute_returns del: not_None_eq)

lemma advance_returns:
  assumes "host_configured host" "interfaces config = Some names" "mig_stage m \<noteq> MigrationDone"
  shows "advance_migration host config handles m mp s \<noteq> None"
proof -
  note a = apply_stage_returns [OF assms(1)]
  have c: "\<exists>c. migration_build_commands (AddCircuit p) config mq = Some c" for p mq
    using assms(2) by (rule commands_return)
  have shadow: "\<exists>p. build_shadow_add_cmd m config names handles live = Some (AddCircuit p)" for live
    by (cases "assign_shadow_qdisc_handles m config names handles live")
       (auto simp: build_shadow_add_cmd_def shadow_temp_cmd_def build_temp_add_cmd_def shadow_base_def)
  have "prepare_shadow host config handles m s \<noteq> None"
  proof -
    obtain live s1 where 1: "update_world (snapshot_live_qdisc_handle_majors_or_empty host config names) s = (live, s1)"
      by fastforce
    obtain r s2 where 2: "update_world (migration_shadow_wrong_parent_prune_commands host config names m) s1 = (r, s2)"
      by fastforce
    obtain p where p: "build_shadow_add_cmd m config names handles live = Some (AddCircuit p)" using shadow by blast
    obtain add where "migration_build_commands (AddCircuit p) config (MQ_CREATED s2) = Some add" using c by blast
    then show ?thesis
      by (cases r) (simp_all add: prepare_shadow_def assms(2) 1 2 p a del: not_None_eq)
  qed
  moreover have "build_final host config m s \<noteq> None"
  proof -
    obtain r s1 where 1: "update_world (migration_final_wrong_parent_prune_commands host config names m) s = (r, s1)"
      by fastforce
    obtain live s2 where 2: "update_world (snapshot_live_qdisc_handle_majors_or_empty host config names) s1 = (live, s2)"
      by fastforce
    let ?final = "build_temp_add_cmd (desired_cmd m) (final_minor m) (new_down_min m) (new_down_max m)
        (new_up_min m) (new_up_max m) True"
    consider "?final = None" | p where "?final = Some (AddCircuit p)"
      by (cases "desired_cmd m") (auto simp: build_temp_add_cmd_def)
    then show ?thesis
    proof cases
      case 1
      then show ?thesis
        by (cases r) (simp_all add: build_final_def assms(2) \<open>update_world _ s = (r, s1)\<close> 2 a del: not_None_eq)
    next
      case (2 p)
      obtain add where "migration_build_commands (AddCircuit p) config (MQ_CREATED s2) = Some add" using c by blast
      with 2 show ?thesis
        by (cases r) (simp_all add: build_final_def assms(2) 1 \<open>update_world _ s1 = (live, s2)\<close> a
          del: not_None_eq split: option.split)
    qed
  qed
  moreover have "teardown_migration_scaffold host config m s \<noteq> None"
  proof -
    obtain p where "shadow_temp_cmd m None None = Some (AddCircuit p)"
      by (auto simp: shadow_temp_cmd_def build_temp_add_cmd_def shadow_base_def)
    moreover obtain prune where "to_prune (AddCircuit p) config True = Some prune"
      using commands_return(2) [OF assms(2)] by blast
    ultimately show ?thesis by (simp add: teardown_migration_scaffold_def a del: not_None_eq)
  qed
  moreover have "verify_shadow_ready host config m s \<noteq> None" "verify_final_ready host config m s \<noteq> None"
    by (simp_all add: verify_shadow_ready_def verify_final_ready_def assms(2))
  ultimately show ?thesis
    using assms(3) by (cases "mig_stage m") (auto simp: advance_migration_def)
qed

lemma pending_loop_returns:
  assumes "host_configured host" "interfaces config = Some names"
  shows "pending_loop host config handles n migs mp s \<noteq> None"
proof (induction migs arbitrary: n mp s)
  case (Cons entry migs)
  show ?case
  proof (cases entry)
    case (Pair h m)
    show ?thesis
    proof (cases "mig_stage m = MigrationDone")
      case True
      with Cons Pair show ?thesis by (simp del: not_None_eq)
    next
      case False
      then obtain m1 mp1 s1 where "advance_migration host config handles m mp s = Some (m1, mp1, s1)"
        using advance_returns [OF assms] by (metis not_None_eq prod_cases3)
      with Cons False Pair show ?thesis by (simp del: not_None_eq)
    qed
  qed
qed simp

type_synonym ('k, 'v, 'o) migrations_state = "migrations \<times> mappings \<times> ('k, 'v, 'o) bakery"

text \<open>Ticks in a row: before each, the hash map may present the migrations in another order.\<close>

fun run_ticks ::
  "'k live_host \<Rightarrow> ('k, 'v, 'o) branch_prune \<Rightarrow> (Config \<times> (migrations \<Rightarrow> migrations)) list
    \<Rightarrow> ('k, 'v, 'o) migrations_state \<Rightarrow> ('k, 'v, 'o) migrations_state option" where
  "run_ticks host prune [] st = Some st"
| "run_ticks host prune ((config, order) # ticks) (migs, mp, s) =
     Option.bind (process_pending_migrations host prune config (order migs) mp s) (run_ticks host prune ticks)"

definition shaping_tick :: "Config \<times> (migrations \<Rightarrow> migrations) \<Rightarrow> bool" where
  "shaping_tick tick \<longleftrightarrow> \<not> is_observe (queue_mode (cfg_queues (fst tick))) \<and> interfaces (fst tick) \<noteq> None
     \<and> (\<forall>migs. mset (snd tick migs) = mset migs)"

definition prune_returns :: "('k, 'v, 'o) branch_prune \<Rightarrow> bool" where
  "prune_returns prune \<longleftrightarrow> (\<forall>config migs w sites operations. prune config migs w sites operations \<noteq> None)"

lemma tick_returns:
  assumes "host_configured host" "prune_returns prune" "interfaces config \<noteq> None"
  shows "\<exists>migs' mp' s'. process_pending_migrations host prune config migs mp s = Some (migs', mp', s')"
proof -
  obtain names where "interfaces config = Some names" using assms(3) by blast
  then obtain ms rm mp' s' where
    "pending_loop host config (load (bk_saved_handles s)) 0 migs mp s = Some (ms, rm, mp', s')"
    using pending_loop_returns [OF assms(1)] by (metis not_None_eq prod_cases4)
  moreover have "\<exists>s''. flush_deferred_runtime_site_prunes prune config ms' s' = Some s''" for ms' s'
    using assms(2) by (auto simp: flush_deferred_runtime_site_prunes_def prune_returns_def)
  then obtain s'' where "flush_deferred_runtime_site_prunes prune config (fold AList.delete rm ms) s' = Some s''"
    by blast
  ultimately show ?thesis
    by (simp add: process_pending_migrations_def cancel_pending_migrations_for_observe_mode_def)
qed

lemma reorder_facts:
  assumes "mset migs' = mset migs"
  shows "ranks migs' = ranks migs" "moving migs' = moving migs" "set migs' = set migs"
proof -
  have "mset (map (migration_rank \<circ> snd) migs') = mset (map (migration_rank \<circ> snd) migs)"
    using assms by simp
  then show "ranks migs' = ranks migs" unfolding ranks_def by (metis sum_mset_sum_list)
  have "mset (filter P migs') = mset (filter P migs)" for P using assms by simp
  then show "moving migs' = moving migs" unfolding moving_def by (metis size_mset)
qed (use assms in \<open>rule mset_eq_setD\<close>)

lemma one_tick:
  assumes "host_configured host" "prune_returns prune" "shaping_tick (config, order)" "keyed_migrations migs"
  obtains migs1 mp1 s1 where
    "process_pending_migrations host prune config (order migs) mp s = Some (migs1, mp1, s1)"
    "keyed_migrations migs1" "migrations_step\<^sup>*\<^sup>* (migs, s) (migs1, s1)" "moving migs1 \<le> moving migs"
    "16 \<le> moving migs \<Longrightarrow> ranks migs1 + 16 \<le> ranks migs"
    "\<And>r. moving migs < 16 \<Longrightarrow> \<forall>(h, m) \<in> set migs. migration_rank m \<le> Suc r
       \<Longrightarrow> \<forall>(h, m) \<in> set migs1. migration_rank m \<le> r"
proof -
  have shape: "\<not> is_observe (queue_mode (cfg_queues config))" "interfaces config \<noteq> None"
    and perm: "mset (order migs) = mset migs" using assms(3) by (auto simp: shaping_tick_def)
  have re: "migrations_step (migs, s) (order migs, s)" using perm by (rule migrations_step.reordered)
  note keyed = keyed_step [OF re assms(4)] and same = reorder_facts [OF perm]
  obtain migs1 mp1 s1 where p: "process_pending_migrations host prune config (order migs) mp s = Some (migs1, mp1, s1)"
    using tick_returns [OF assms(1,2) shape(2)] by blast
  note steps = process_pending_migrations_steps [OF p shape(1) keyed] and prog = tick_progress [OF p shape(1) keyed]
  have "keyed_migrations migs1" using steps keyed
    by (induction "(migs1, s1)" arbitrary: migs1 s1 rule: rtranclp_induct) (auto intro: keyed_step)
  moreover have "migrations_step\<^sup>*\<^sup>* (migs, s) (migs1, s1)" using re steps by (rule converse_rtranclp_into_rtranclp)
  ultimately show thesis using that [OF p] prog unfolding same by blast
qed

abbreviation ticks_end ::
  "'k live_host \<Rightarrow> ('k, 'v, 'o) branch_prune \<Rightarrow> (Config \<times> (migrations \<Rightarrow> migrations)) list
    \<Rightarrow> ('k, 'v, 'o) migrations_state \<Rightarrow> bool" where
  "ticks_end host prune ticks st \<equiv>
     (\<exists>mp' s'. run_ticks host prune ticks st = Some ([], mp', s')
        \<and> migrations_step\<^sup>*\<^sup>* (fst st, snd (snd st)) ([], s'))"

lemma ticks_end_Cons:
  assumes "process_pending_migrations host prune config (order migs) mp s = Some (migs1, mp1, s1)"
    and "migrations_step\<^sup>*\<^sup>* (migs, s) (migs1, s1)" "ticks_end host prune ticks (migs1, mp1, s1)"
  shows "ticks_end host prune ((config, order) # ticks) (migs, mp, s)"
  using assms by (auto intro: rtranclp_trans)

lemma run_ticks_few:
  assumes "host_configured host" "prune_returns prune" "list_all shaping_tick ticks"
    and "keyed_migrations migs" "moving migs < 16" "\<forall>(h, m) \<in> set migs. migration_rank m \<le> r" "r \<le> length ticks"
  shows "ticks_end host prune ticks (migs, mp, s)"
  using assms(3-)
proof (induction ticks arbitrary: migs mp s r)
  case Nil
  have "migs = []"
  proof (cases migs)
    case (Cons e es)
    with Nil.prems(4,5) migration_rank_bounds [of "snd e"] show ?thesis by (cases e) auto
  qed
  then show ?case by simp
next
  case (Cons tick ticks)
  obtain config order where t: "tick = (config, order)" by force
  with Cons.prems(1) have tick: "shaping_tick (config, order)" by simp
  obtain migs1 mp1 s1 where p: "process_pending_migrations host prune config (order migs) mp s = Some (migs1, mp1, s1)"
    and k1: "keyed_migrations migs1" and steps: "migrations_step\<^sup>*\<^sup>* (migs, s) (migs1, s1)" and few: "moving migs1 \<le> moving migs"
    and rank: "\<And>r. moving migs < 16 \<Longrightarrow> \<forall>(h, m) \<in> set migs. migration_rank m \<le> Suc r
       \<Longrightarrow> \<forall>(h, m) \<in> set migs1. migration_rank m \<le> r"
    by (rule one_tick [OF assms(1,2) tick Cons.prems(2), where mp = mp and s = s]) blast
  have "\<forall>(h, m) \<in> set migs1. migration_rank m \<le> r - 1"
    using Cons.prems(3,4) by (intro rank) auto
  with Cons.prems few k1 have "ticks_end host prune ticks (migs1, mp1, s1)"
    by (intro Cons.IH [of _ "r - 1"]) auto
  with p steps show ?case unfolding t by (rule ticks_end_Cons)
qed

lemma run_ticks_ends:
  assumes "host_configured host" "prune_returns prune" "list_all shaping_tick ticks"
    and "keyed_migrations migs" "ranks migs + 16 * 14 \<le> 16 * length ticks"
  shows "ticks_end host prune ticks (migs, mp, s)"
  using assms(3-)
proof (induction ticks arbitrary: migs mp s)
  case (Cons tick ticks)
  show ?case
  proof (cases "moving migs < 16")
    case True
    have "\<forall>(h, m) \<in> set migs. migration_rank m \<le> 14" using migration_rank_bounds by auto
    moreover have "14 \<le> length (tick # ticks)" using Cons.prems(3) by simp
    ultimately show ?thesis by (rule run_ticks_few [OF assms(1,2) Cons.prems(1,2) True])
  next
    case False
    obtain config order where t: "tick = (config, order)" by force
    with Cons.prems(1) have tick: "shaping_tick (config, order)" by simp
    obtain migs1 mp1 s1 where p: "process_pending_migrations host prune config (order migs) mp s = Some (migs1, mp1, s1)"
      and k1: "keyed_migrations migs1" and steps: "migrations_step\<^sup>*\<^sup>* (migs, s) (migs1, s1)"
      and fall: "16 \<le> moving migs \<Longrightarrow> ranks migs1 + 16 \<le> ranks migs"
      by (rule one_tick [OF assms(1,2) tick Cons.prems(2), where mp = mp and s = s]) blast
    have "ranks migs1 + 16 * 14 \<le> 16 * length ticks" using fall False Cons.prems(3) by simp
    with Cons.prems(1) k1 have "ticks_end host prune ticks (migs1, mp1, s1)" by (intro Cons.IH) auto
    with p steps show ?thesis unfolding t by (rule ticks_end_Cons)
  qed
qed simp

lemma ranks_le: "ranks migs \<le> 14 * length migs"
proof (induction migs)
  case (Cons e migs)
  then show ?case using migration_rank_bounds [of "snd e"] by (simp add: ranks_def)
qed (simp add: ranks_def)

text \<open>
  C30. Live migrations always come to an end, and never silently. Whatever the kernel, the host and the
  order of the hash map do: when the migrations just queued have distinct circuits, then after as many
  ticks of a shaping configuration as the bound says (fourteen for every sixteen migrations, and
  fourteen more) no migration is left, and every circuit whose migration was pending is published
  with the desired command, or a reload is required; no other circuit has changed, and a circuit that
  was not published still has the command it had.
\<close>

theorem migrations_end:
  fixes s :: "('k, 'v, 'o) bakery"
  assumes "host_configured host" and "prune_returns prune" and "list_all shaping_tick ticks"
    and "keyed_migrations migs" and "\<forall>(h, m) \<in> set migs. mig_stage m = PrepareShadow"
    and "14 * (length migs + 16) \<le> 16 * length ticks"
  shows "\<exists>mp' s'. run_ticks host prune ticks (migs, mp, s) = Some ([], mp', s')
    \<and> (\<forall>(h, m) \<in> set migs. map_of (bk_circuits s') h = Some (desired_cmd m)
         \<or> reload_required s' \<noteq> None \<and> map_of (bk_circuits s') h = map_of (bk_circuits s) h)
    \<and> (\<forall>h. h \<notin> fst ` set migs \<longrightarrow> map_of (bk_circuits s') h = map_of (bk_circuits s) h)"
proof -
  have "ranks migs + 16 * 14 \<le> 16 * length ticks" using assms(6) ranks_le [of migs] by simp
  then obtain mp' s' where run: "run_ticks host prune ticks (migs, mp, s) = Some ([], mp', s')"
    and steps: "migrations_step\<^sup>*\<^sup>* (migs, s) ([], s')"
    using run_ticks_ends [OF assms(1-4), of mp s] by auto
  have start: "accounted migs s (migs, s)" using assms(4,5) by (intro accounted_start) auto
  have acc: "accounted migs s ([], s')" using steps start assms(4) by (rule accounted_steps)
  have "map_of (bk_circuits s') h = Some (desired_cmd m)
      \<or> reload_required s' \<noteq> None \<and> map_of (bk_circuits s') h = map_of (bk_circuits s) h"
    if m: "(h, m) \<in> set migs" for h m
    using acc m keyed_unique [OF assms(4)] by (fastforce simp: accounted_def)
  moreover have "map_of (bk_circuits s') h = map_of (bk_circuits s) h" if "h \<notin> fst ` set migs" for h
    using acc that by (force simp: accounted_def)
  ultimately show ?thesis using run by blast
qed

text \<open>
  A host on which every batch succeeds but the classes never appear, whose address map refuses one
  address for class 1:5, and a circuit that moves from class 1:3 to class 1:5.
\<close>

definition said :: "'k \<Rightarrow> Output option \<times> 'k" where
  "said k = (Some \<lparr>out_code = Some 0, out_stdout = [], out_stderr = []\<rparr>, k)"

definition moving_config :: Config where
  "moving_config = \<lparr>cfg_bridge = Some \<lparr>to_internet = ''eth0'', to_network = ''eth1''\<rparr>, cfg_single_interface = None,
     cfg_queues = \<lparr>default_sqm = ''cake'', queue_mode = Shape, uplink_bandwidth_mbps = 100,
       downlink_bandwidth_mbps = 100, lazy_queues = None, lazy_expire_seconds = None, fast_queues_fq_codel = None\<rparr>,
     cfg_stormguard = None\<rparr>"

definition moving_host :: "(string \<rightharpoonup> TcHandle \<times> u32) live_host" where
  "moving_host =
     \<lparr>tc_host = \<lparr>host_now = (\<lambda>k. (0, k)), host_write_file = (\<lambda>path t k. (True, k)), host_run_batch = (\<lambda>t. said),
        host_show_qdiscs = (\<lambda>name. said), host_show_classes = (\<lambda>name. said), host_meminfo = (\<lambda>k. (Err [], k)),
        host_parse_json = (\<lambda>t. None), host_show_filters = (\<lambda>name. said), host_set_bypass = (\<lambda>enabled k. (None, k))\<rparr>,
      live_read_file = (\<lambda>path k. (None, k)), live_remove_file = (\<lambda>path k. k),
      live_load_config = (\<lambda>k. (Ok moving_config, k)), live_timestamp = (\<lambda>k. (0, k)),
      live_add_ip = (\<lambda>cidr handle cpu k. if cidr = ''10.0.0.2/32'' \<and> handle = 0x10005 then (Some ''map is full'', k)
        else (None, k(cidr \<mapsto> (handle, cpu)))),
      live_del_ip = (\<lambda>cidr k. (None, k(cidr := None))), live_clear_hot_cache = (\<lambda>k. (None, k))\<rparr>"

definition moving_circuit :: "i64 \<Rightarrow> u16 \<Rightarrow> CircuitCommand" where
  "moving_circuit hash minor = \<lparr>circuit_hash = hash, circuit_name = None, circuit_site_name = None,
     circuit_parent_class_id = 0x10001, circuit_up_parent_class_id = 0x20001, circuit_class_minor = minor,
     circuit_download_bandwidth_min = Fin 1, circuit_upload_bandwidth_min = Fin 1,
     circuit_download_bandwidth_max = Fin 10, circuit_upload_bandwidth_max = Fin 10,
     circuit_class_major = 1, circuit_up_class_major = 2, circuit_down_qdisc_handle = None,
     circuit_up_qdisc_handle = None, circuit_ip_addresses = ''10.0.0.1, 10.0.0.2'', circuit_sqm_override = None\<rparr>"

definition moving_bakery :: "(string \<rightharpoonup> TcHandle \<times> u32, unit, unit) bakery" where
  "moving_bakery = \<lparr>bk_world = \<lparr>kernel = Map.empty, class_snapshots = [], qdisc_snapshots = []\<rparr>, bk_batch = None,
     bk_sites = [], bk_circuits = [(7, AddCircuit (moving_circuit 7 3))], bk_live_circuits = [(7, 0)], bk_mq_layout = None,
     bk_qdisc_handles = default_handle_state, bk_saved_handles = None, bk_virtualized_sites = [],
     bk_runtime_node_operations = [], MQ_CREATED = True, SHAPING_TREE_ACTIVE = True, FULL_RELOAD_IN_PROGRESS = False,
     FIRST_COMMIT_APPLIED = True, STORMGUARD_TREE_GENERATION = 0, STORMGUARD_TREE_REBUILD_GENERATION = 0,
     reload_required = None, passthrough_degraded = None, live_capacity_interfaces = []\<rparr>"

definition no_prune :: "('k, 'v, 'o) branch_prune" where
  "no_prune config migs w sites operations = Some (None, w, sites, operations)"

theorem migrations_end_witness:
  "\<exists>mp' s'. run_ticks moving_host no_prune (replicate 15 (moving_config, rev))
      ([(7, new_migration (moving_circuit 7 3) (moving_circuit 7 5) 0x2000)], [], moving_bakery) = Some ([], mp', s')
    \<and> (map_of (bk_circuits s') 7 = Some (AddCircuit (moving_circuit 7 5))
       \<or> reload_required s' \<noteq> None \<and> map_of (bk_circuits s') 7 = Some (AddCircuit (moving_circuit 7 3)))"
proof -
  let ?m = "new_migration (moving_circuit 7 3) (moving_circuit 7 5) 0x2000"
  have "host_configured moving_host" "shaping_tick (moving_config, rev)" "prune_returns no_prune"
    by (simp_all add: host_configured_def moving_host_def moving_config_def interfaces_def isp_interface_def
        internet_interface_def shaping_tick_def is_observe_def prune_returns_def no_prune_def)
  moreover have "keyed_migrations [(7, ?m)]" "\<forall>(h, m) \<in> set [(7, ?m)]. mig_stage m = PrepareShadow"
    by (simp_all add: keyed_migrations_def new_migration_def moving_circuit_def)
  moreover have "desired_cmd ?m = AddCircuit (moving_circuit 7 5)" "14 * (length [(7 :: i64, ?m)] + 16) \<le> 16 * 15"
    by (simp_all add: new_migration_def)
  ultimately show ?thesis
    using migrations_end [of moving_host no_prune "replicate 15 (moving_config, rev)" "[(7, ?m)]" "[]" moving_bakery]
    by (auto simp: moving_bakery_def list_all_length)
qed

end
