(* ===== verification/Migration_Classes.thy ===== *)
theory Migration_Classes
  imports Migration_Properties
begin

text \<open>
  The classes and addresses of live migrations: shadow minors are exclusive among the pending migrations,
  moving a circuit's addresses either moves all of them or, when the earlier entries can be written back,
  none, and the bakery's view of the kernel's address map stays true.
\<close>

section \<open>Free minors\<close>

lemma free_minor_Some:
  "free_minor used a b = Some m \<Longrightarrow> b < 2 ^ 16 \<Longrightarrow> m \<notin> set used \<and> a \<le> unat m \<and> unat m \<le> b"
proof (induction used a b rule: free_minor.induct)
  case (1 used a b)
  from "1.prems" show ?case
    using "1.IH" by (subst (asm) free_minor.simps) (auto simp: unat_of_nat split: if_splits)
qed

lemma free_minor_in_ranges_Some:
  "free_minor_in_ranges used starts = Some m \<Longrightarrow> \<forall>start \<in> set starts. 1 \<le> start
     \<Longrightarrow> m \<notin> set used \<and> 1 \<le> unat m \<and> unat m \<le> 0xFFFE"
  by (induction starts) (auto simp: or_opt_def dest!: free_minor_Some split: option.splits)

lemma find_free_circuit_shadow_minor_Some:
  assumes "find_free_circuit_shadow_minor sites circuits migs down_major up_major = Some m"
  shows "1 \<le> unat m \<and> unat m \<le> 0xFFFE
    \<and> m \<notin> set (fst (used_site_minors_for_majors sites down_major up_major))
    \<and> m \<notin> set (snd (used_site_minors_for_majors sites down_major up_major))
    \<and> m \<notin> set (fst (used_circuit_minors_for_majors circuits down_major up_major))
    \<and> m \<notin> set (snd (used_circuit_minors_for_majors circuits down_major up_major))
    \<and> m \<notin> set (fst (used_pending_migration_shadow_minors_for_majors migs down_major up_major))
    \<and> m \<notin> set (snd (used_pending_migration_shadow_minors_for_majors migs down_major up_major))"
  using assms
  by (auto simp: find_free_circuit_shadow_minor_def or_opt_def case_prod_unfold Let_def
      dest!: free_minor_in_ranges_Some free_minor_Some split: option.splits)

section \<open>Exclusive shadow classes\<close>

text \<open>Two pending migrations whose shadow classes are the same class on one of the interfaces.\<close>

definition shadow_clash :: "Migration \<Rightarrow> Migration \<Rightarrow> bool" where
  "shadow_clash m m' \<longleftrightarrow> mig_stage m \<noteq> MigrationDone \<and> mig_stage m' \<noteq> MigrationDone
     \<and> (mig_class_major m = mig_class_major m' \<or> mig_up_class_major m = mig_up_class_major m')
     \<and> shadow_minor m = shadow_minor m'"

definition shadows_apart :: "migrations \<Rightarrow> bool" where
  "shadows_apart migs \<longleftrightarrow> keyed_migrations migs
     \<and> (\<forall>(h, m) \<in> set migs. 1 \<le> unat (shadow_minor m) \<and> unat (shadow_minor m) \<le> 0xFFFE)
     \<and> (\<forall>(h, m) \<in> set migs. \<forall>(h', m') \<in> set migs. shadow_clash m m' \<longrightarrow> h = h')"

lemma shadows_apartI:
  assumes "keyed_migrations migs" "\<And>h m. (h, m) \<in> set migs \<Longrightarrow> 1 \<le> unat (shadow_minor m) \<and> unat (shadow_minor m) \<le> 0xFFFE"
    and "\<And>h m h' m'. (h, m) \<in> set migs \<Longrightarrow> (h', m') \<in> set migs \<Longrightarrow> shadow_clash m m' \<Longrightarrow> h = h'"
  shows "shadows_apart migs"
  using assms unfolding shadows_apart_def by blast

lemma shadows_apartD:
  assumes "shadows_apart migs"
  shows "keyed_migrations migs" "(h, m) \<in> set migs \<Longrightarrow> 1 \<le> unat (shadow_minor m) \<and> unat (shadow_minor m) \<le> 0xFFFE"
    "(h, m) \<in> set migs \<Longrightarrow> (h', m') \<in> set migs \<Longrightarrow> shadow_clash m m' \<Longrightarrow> h = h'"
  using assms unfolding shadows_apart_def by blast+

lemma shadows_apart_mono:
  assumes "shadows_apart migs" "keyed_migrations migs'"
    and "\<And>g n. (g, n) \<in> set migs' \<Longrightarrow>
      \<exists>n0. (g, n0) \<in> set migs \<and> same_move n0 n \<and> (mig_stage n0 = MigrationDone \<longrightarrow> mig_stage n = MigrationDone)"
  shows "shadows_apart migs'"
proof (rule shadows_apartI [OF assms(2)])
  fix g n assume "(g, n) \<in> set migs'"
  with assms(3) obtain n0 where "(g, n0) \<in> set migs" "same_move n0 n" by blast
  with shadows_apartD(2) [OF assms(1)] show "1 \<le> unat (shadow_minor n) \<and> unat (shadow_minor n) \<le> 0xFFFE"
    by (simp add: same_move_def)
next
  fix g n g' n' assume "(g, n) \<in> set migs'" "(g', n') \<in> set migs'" and clash: "shadow_clash n n'"
  with assms(3) obtain n0 n0' where n: "(g, n0) \<in> set migs" "(g', n0') \<in> set migs"
    "same_move n0 n" "same_move n0' n'" "mig_stage n0 \<noteq> MigrationDone" "mig_stage n0' \<noteq> MigrationDone"
    by (metis shadow_clash_def)
  with clash have "shadow_clash n0 n0'" by (simp add: shadow_clash_def same_move_def)
  with n show "g = g'" using shadows_apartD(3) [OF assms(1)] by blast
qed

lemma shadows_apart_step:
  assumes "migrations_step (migs, s) (migs', s')" "shadows_apart migs"
  shows "shadows_apart migs'"
proof (rule shadows_apart_mono [OF assms(2)])
  show "keyed_migrations migs'" using assms shadows_apartD(1) by (blast intro: keyed_step)
next
  fix g n assume n: "(g, n) \<in> set migs'"
  have self: "same_move m m" for m by (simp add: same_move_def)
  from assms(1) show "\<exists>n0. (g, n0) \<in> set migs \<and> same_move n0 n
      \<and> (mig_stage n0 = MigrationDone \<longrightarrow> mig_stage n = MigrationDone)"
  proof (cases rule: migrations_step.cases)
    case (stage m m' xs h ys)
    then show ?thesis using n self migration_step_same [OF stage(4)] by auto
  next
    case reordered
    then show ?thesis using n self mset_eq_setD [OF reordered(2)] by auto
  qed (use n self in auto)
qed

lemma update_entries: "set (AList.update k v al) \<subseteq> insert (k, v) {e \<in> set al. fst e \<noteq> k}" if "distinct (map fst al)"
  using that by (induction al) (auto simp: rev_image_eqI)

lemma keyed_queue:
  assumes "keyed_migrations migs" "mig_circuit_hash n = h"
  shows "keyed_migrations (AList.update h n migs)"
proof -
  have "distinct (map fst (AList.update h n migs))" using assms(1) by (simp add: keyed_migrations_def distinct_update)
  moreover have "mig_circuit_hash m = g" if "(g, m) \<in> set (AList.update h n migs)" for g m
    using that update_entries [of migs h n] assms by (auto simp: keyed_migrations_def)
  ultimately show ?thesis by (auto simp: keyed_migrations_def)
qed

lemma shadows_apart_queue:
  assumes "queue_runtime_migration old_cmd new_cmd sites circuits live migs required = (b, migs')" "shadows_apart migs"
  shows "shadows_apart migs'"
proof (cases "migs' = migs")
  case False
  with assms(1) obtain old new shadow where
    free: "find_free_circuit_shadow_minor sites circuits migs (circuit_class_major new) (circuit_up_class_major new)
        = Some shadow"
    and m': "migs' = AList.update (circuit_hash new) (new_migration old new shadow) migs"
    by (auto simp: queue_runtime_migration_def split: BakeryCommands.splits if_splits option.splits)
  let ?n = "new_migration old new shadow"
  note f = find_free_circuit_shadow_minor_Some [OF free] and k = shadows_apartD(1) [OF assms(2)]
  have sub: "set migs' \<subseteq> insert (circuit_hash new, ?n) {e \<in> set migs. fst e \<noteq> circuit_hash new}"
    using update_entries [of migs] k unfolding m' keyed_migrations_def by blast
  have new: "\<not> shadow_clash m ?n" "\<not> shadow_clash ?n m" if "(h, m) \<in> set migs" for h m
    using f that by (force simp: used_pending_migration_shadow_minors_for_majors_def shadow_clash_def new_migration_def)+
  show ?thesis
  proof (rule shadows_apartI)
    show "keyed_migrations migs'" unfolding m' using k by (rule keyed_queue) (simp add: new_migration_def)
  next
    fix g n assume "(g, n) \<in> set migs'"
    then consider "n = ?n" | "(g, n) \<in> set migs" using sub by auto
    then show "1 \<le> unat (shadow_minor n) \<and> unat (shadow_minor n) \<le> 0xFFFE"
      using f shadows_apartD(2) [OF assms(2)] by cases (simp add: new_migration_def, blast)
  next
    fix g n g' n' assume e: "(g, n) \<in> set migs'" "(g', n') \<in> set migs'" and clash: "shadow_clash n n'"
    then consider "g = g'" | "(g, n) \<in> set migs" "(g', n') \<in> set migs" | "n = ?n" "(g', n') \<in> set migs"
      | "n' = ?n" "(g, n) \<in> set migs" using sub by auto
    then show "g = g'" using clash new shadows_apartD(3) [OF assms(2)] by cases blast+
  qed
qed (use assms in simp)

datatype migration_event =
    QueueMigration BakeryCommands BakeryCommands "(i64 \<times> BakeryCommands) list" "(i64 \<times> BakeryCommands) list"
      "(i64 \<times> u64) list" bool
  | MigrationTick Config "migrations \<Rightarrow> migrations"

definition run_event ::
  "'k live_host \<Rightarrow> ('k, 'v, 'o) branch_prune \<Rightarrow> migration_event \<Rightarrow> ('k, 'v, 'o) migrations_state
    \<Rightarrow> ('k, 'v, 'o) migrations_state option" where
  "run_event host prune event st = (let (migs, mp, s) = st in case event of
     QueueMigration old new sites circuits live required \<Rightarrow>
       Some (snd (queue_runtime_migration old new sites circuits live migs required), mp, s)
   | MigrationTick config order \<Rightarrow> process_pending_migrations host prune config (order migs) mp s)"

fun run_events ::
  "'k live_host \<Rightarrow> ('k, 'v, 'o) branch_prune \<Rightarrow> migration_event list \<Rightarrow> ('k, 'v, 'o) migrations_state
    \<Rightarrow> ('k, 'v, 'o) migrations_state option" where
  "run_events host prune [] st = Some st"
| "run_events host prune (event # events) st = Option.bind (run_event host prune event st) (run_events host prune events)"

definition keeps_entries :: "migration_event \<Rightarrow> bool" where
  "keeps_entries event = (case event of MigrationTick _ order \<Rightarrow> (\<forall>migs. mset (order migs) = mset migs) | _ \<Rightarrow> True)"

lemma shadows_apart_event:
  assumes "run_event host prune event (migs, mp, s) = Some (migs', mp', s')" "keeps_entries event" "shadows_apart migs"
  shows "shadows_apart migs'"
proof (cases event)
  case (QueueMigration old new sites circuits live required)
  then have "migs' = snd (queue_runtime_migration old new sites circuits live migs required)"
    using assms(1) by (simp add: run_event_def)
  then show ?thesis using assms(3) by (metis shadows_apart_queue prod.collapse)
next
  case (MigrationTick config order)
  with assms have p: "process_pending_migrations host prune config (order migs) mp s = Some (migs', mp', s')"
    and perm: "mset (order migs) = mset migs" by (simp_all add: run_event_def keeps_entries_def)
  have start: "shadows_apart (order migs)"
    using migrations_step.reordered [OF perm, of s] assms(3) by (rule shadows_apart_step)
  show ?thesis
  proof (cases "is_observe (queue_mode (cfg_queues config))")
    case True
    with p have "migs' = []"
      by (auto simp: process_pending_migrations_def cancel_pending_migrations_for_observe_mode_def)
    then show ?thesis by (simp add: shadows_apart_def keyed_migrations_def)
  next
    case False
    have "keyed_migrations (order migs)" using start by (simp add: shadows_apart_def)
    with p False have "migrations_step\<^sup>*\<^sup>* (order migs, s) (migs', s')" by (rule process_pending_migrations_steps)
    then show ?thesis using start
      by (induction "(migs', s')" arbitrary: migs' s' rule: rtranclp_induct) (auto intro: shadows_apart_step)
  qed
qed

lemma shadows_apart_run:
  "run_events host prune events (migs, mp, s) = Some (migs', mp', s') \<Longrightarrow> list_all keeps_entries events
     \<Longrightarrow> shadows_apart migs \<Longrightarrow> shadows_apart migs'"
proof (induction events arbitrary: migs mp s)
  case (Cons event events)
  then obtain migs1 mp1 s1 where "run_event host prune event (migs, mp, s) = Some (migs1, mp1, s1)"
    "run_events host prune events (migs1, mp1, s1) = Some (migs', mp', s')"
    by (auto split: Option.bind_splits)
  with Cons.prems show ?case using Cons.IH shadows_apart_event by simp blast
qed simp

section \<open>Addresses\<close>

lemma cidr_inj: "mapping_key_cidr a = mapping_key_cidr b \<longleftrightarrow> a = b"
proof
  let ?d = "\<lambda>key. dec_digits (unat (map_prefix key))"
  let ?P = "\<lambda>c. c \<noteq> CHR ''/''"
  have digit: "\<forall>c \<in> set (rev (?d key)). ?P c" for key
    using dec_digits_facts [of "unat (map_prefix key)"] by (auto simp: list_all_iff is_ascii_digit_def)
  have rest: "takeWhile ?P (rev (?d key) @ CHR ''/'' # rest) = rev (?d key)"
    "dropWhile ?P (rev (?d key) @ CHR ''/'' # rest) = CHR ''/'' # rest" for key rest
    using digit [of key] takeWhile_append2 [of "rev (?d key)" ?P "CHR ''/'' # rest"]
      dropWhile_append2 [of "rev (?d key)" ?P "CHR ''/'' # rest"] by simp_all
  assume eq: "mapping_key_cidr a = mapping_key_cidr b"
  have r: "rev (?d a) @ CHR ''/'' # rev (map_ip a) = rev (?d b) @ CHR ''/'' # rev (map_ip b)"
    using arg_cong [OF eq, of rev] by (simp add: mapping_key_cidr_def)
  have "rev (?d a) = rev (?d b)" using arg_cong [OF r, of "takeWhile ?P"] unfolding rest .
  then have "unat (map_prefix a) = unat (map_prefix b)" using dec_digits_facts by (metis rev_rev_ident)
  moreover have "CHR ''/'' # rev (map_ip a) = CHR ''/'' # rev (map_ip b)"
    using arg_cong [OF r, of "dropWhile ?P"] unfolding rest .
  ultimately show "a = b" by (cases a, cases b) (simp add: word_unat_eq_iff)
qed simp

text \<open>
  What the kernel's map of addresses promises: a call that succeeds writes or deletes the one entry it
  names, a call that fails changes nothing, and the hot cache is not part of the map.
\<close>

definition ip_map_laws :: "'k live_host \<Rightarrow> ('k \<Rightarrow> string \<rightharpoonup> TcHandle \<times> u32) \<Rightarrow> bool" where
  "ip_map_laws host view \<longleftrightarrow>
     (\<forall>cidr handle cpu k. let (e, k') = live_add_ip host cidr handle cpu k in
        view k' = (if e = None then (view k)(cidr \<mapsto> (handle, cpu)) else view k))
   \<and> (\<forall>cidr k. let (e, k') = live_del_ip host cidr k in
        view k' = (if e = None then (view k)(cidr := None) else view k))
   \<and> (\<forall>k. view (snd (live_clear_hot_cache host k)) = view k)"

definition in_step :: "('k \<Rightarrow> string \<rightharpoonup> TcHandle \<times> u32) \<Rightarrow> mappings \<Rightarrow> 'k \<Rightarrow> bool" where
  "in_step view mp k \<longleftrightarrow>
     (\<forall>key v. map_of mp key = Some v \<longrightarrow> view k (mapping_key_cidr key) = Some (map_handle v, map_cpu v))"

lemma ip_map_lawsD:
  assumes "ip_map_laws host view"
  shows "live_add_ip host cidr handle cpu k = (e, k')
      \<Longrightarrow> view k' = (if e = None then (view k)(cidr \<mapsto> (handle, cpu)) else view k)"
    and "live_del_ip host cidr k = (e, k') \<Longrightarrow> view k' = (if e = None then (view k)(cidr := None) else view k)"
    and "live_clear_hot_cache host k = (e, k') \<Longrightarrow> view k' = view k"
  using assms unfolding ip_map_laws_def Let_def case_prod_unfold by (metis fst_conv snd_conv)+

lemma in_step_same: "view k' = view k \<Longrightarrow> in_step view mp k' = in_step view mp k"
  by (simp add: in_step_def)

lemma in_step_add:
  assumes "in_step view mp k" "view k' = (view k)(mapping_key_cidr key \<mapsto> (map_handle v, map_cpu v))"
  shows "in_step view (AList.update key v mp) k'"
  using assms by (auto simp: in_step_def update_conv' cidr_inj)

lemma in_step_delete:
  assumes "in_step view mp k" "view k' = (view k)(mapping_key_cidr key := None)"
  shows "in_step view (AList.delete key mp) k'"
  using assms by (auto simp: in_step_def delete_conv' cidr_inj)

lemma rollback_one_in_step:
  assumes "ip_map_laws host view" "rollback_one host entry (f, mp, k) = (f', mp', k')" "in_step view mp k"
  shows "in_step view mp' k' \<and> (\<forall>key. key \<noteq> fst entry \<longrightarrow> map_of mp' key = map_of mp key)"
proof (cases "snd entry")
  case None
  then obtain key where e: "entry = (key, None)" by (cases entry) simp
  obtain err k1 where c: "live_del_ip host (mapping_key_cidr key) k = (err, k1)" by force
  note v = ip_map_lawsD(2) [OF assms(1) c]
  show ?thesis
    using assms(2,3) v in_step_delete [OF assms(3), of k1 key] in_step_same [of view k1 k mp]
    by (cases err) (auto simp: rollback_one_def e c delete_conv')
next
  case (Some previous)
  then obtain key where e: "entry = (key, Some previous)" by (cases entry) simp
  obtain err k1 where c: "live_add_ip host (mapping_key_cidr key) (map_handle previous) (map_cpu previous) k = (err, k1)"
    by force
  note v = ip_map_lawsD(1) [OF assms(1) c]
  show ?thesis
    using assms(2,3) v in_step_add [OF assms(3), of k1 key previous] in_step_same [of view k1 k mp]
    by (cases err) (auto simp: rollback_one_def e c update_conv')
qed

lemma rollback_in_step:
  assumes "ip_map_laws host view" "rollback_migration_ip_remaps host remapped mp k = (r, mp', k')" "in_step view mp k"
  shows "in_step view mp' k' \<and> (\<forall>key. key \<notin> fst ` set remapped \<longrightarrow> map_of mp' key = map_of mp key)"
proof -
  have run: "fold (rollback_one host) entries (f, mp, k) = (f', mp1, k1) \<Longrightarrow> in_step view mp k
      \<Longrightarrow> in_step view mp1 k1 \<and> (\<forall>key. key \<notin> fst ` set entries \<longrightarrow> map_of mp1 key = map_of mp key)"
    for entries f mp k f' mp1 k1
  proof (induction entries arbitrary: f mp k)
    case (Cons entry entries)
    obtain f2 mp2 k2 where 2: "rollback_one host entry (f, mp, k) = (f2, mp2, k2)" by (metis prod_cases3)
    note one = rollback_one_in_step [OF assms(1) 2 Cons.prems(2)]
    have "fold (rollback_one host) entries (f2, mp2, k2) = (f', mp1, k1)" using Cons.prems(1) 2 by simp
    from Cons.IH [OF this conjunct1 [OF one]] one show ?case by simp
  qed simp
  obtain f1 mp1 k1 where 1: "fold (rollback_one host) (rev remapped) ([], mp, k) = (f1, mp1, k1)" by (metis prod_cases3)
  obtain e k2 where 2: "live_clear_hot_cache host k1 = (e, k2)" by force
  from assms(2) have "mp' = mp1" "k' = k2" by (auto simp: rollback_migration_ip_remaps_def 1 2 Let_def)
  then show ?thesis
    using run [OF 1 assms(3)] in_step_same [OF ip_map_lawsD(3) [OF assms(1) 2]] by simp
qed

text \<open>The value a remap writes over an earlier one.\<close>

definition moved_value :: "TcHandle \<Rightarrow> MappingVal option \<Rightarrow> MappingVal" where
  "moved_value target previous =
     \<lparr>map_handle = target, map_cpu = (case previous of Some v \<Rightarrow> map_cpu v | None \<Rightarrow> 0)\<rparr>"

text \<open>The list of steps, the latest first, that leads back to the map \<open>M0\<close>.\<close>

fun undoes :: "TcHandle \<Rightarrow> (MappingKey \<rightharpoonup> MappingVal) \<Rightarrow> (MappingKey \<times> MappingVal option) list
    \<Rightarrow> (MappingKey \<rightharpoonup> MappingVal) \<Rightarrow> bool" where
  "undoes target M0 [] M \<longleftrightarrow> M = M0"
| "undoes target M0 ((key, previous) # entries) M \<longleftrightarrow>
     M key = Some (moved_value target previous) \<and> undoes target M0 entries (M(key := previous))"

text \<open>Writing an entry back never fails, unless it already points to the target; nor does deleting one.\<close>

definition restorable :: "'k live_host \<Rightarrow> TcHandle \<Rightarrow> bool" where
  "restorable host target \<longleftrightarrow>
     (\<forall>cidr handle cpu k. handle \<noteq> target \<longrightarrow> fst (live_add_ip host cidr handle cpu k) = None)
   \<and> (\<forall>cidr k. fst (live_del_ip host cidr k) = None)"

lemma rollback_one_restores:
  assumes "restorable host target" "rollback_one host (key, previous) (f, mp, k) = (f', mp', k')"
    and "map_of mp key = Some (moved_value target previous)"
  shows "map_of mp' = (map_of mp)(key := previous)"
proof (cases previous)
  case None
  obtain err k1 where c: "live_del_ip host (mapping_key_cidr key) k = (err, k1)" by force
  with assms(1) have "err = None" unfolding restorable_def by (metis fst_conv)
  with assms(2) None c show ?thesis by (auto simp: rollback_one_def delete_conv')
next
  case (Some v)
  obtain err k1 where c: "live_add_ip host (mapping_key_cidr key) (map_handle v) (map_cpu v) k = (err, k1)" by force
  show ?thesis
  proof (cases "map_handle v = target")
    case True
    then have "moved_value target previous = v" by (cases v) (simp add: moved_value_def Some)
    with assms(2,3) Some c show ?thesis
      by (cases err) (auto simp: rollback_one_def update_conv' fun_upd_idem)
  next
    case False
    with assms(1) c have "err = None" unfolding restorable_def by (metis fst_conv)
    with assms(2) Some c show ?thesis by (auto simp: rollback_one_def update_conv')
  qed
qed

lemma rollback_restores:
  assumes "restorable host target" "rollback_migration_ip_remaps host remapped mp k = (r, mp', k')"
    and "undoes target M0 (rev remapped) (map_of mp)"
  shows "map_of mp' = M0"
proof -
  have run: "fold (rollback_one host) entries (f, mp, k) = (f', mp1, k1) \<Longrightarrow> undoes target M0 entries (map_of mp)
      \<Longrightarrow> map_of mp1 = M0" for entries f mp k f' mp1 k1
  proof (induction entries arbitrary: f mp k)
    case (Cons entry entries)
    obtain key previous where e: "entry = (key, previous)" by force
    obtain f2 mp2 k2 where 2: "rollback_one host (key, previous) (f, mp, k) = (f2, mp2, k2)" by (metis prod_cases3)
    have "map_of mp2 = (map_of mp)(key := previous)"
      using rollback_one_restores [OF assms(1) 2] Cons.prems(2) by (simp add: e)
    with Cons.prems(2) have "undoes target M0 entries (map_of mp2)" by (simp only: e undoes.simps)
    moreover have "fold (rollback_one host) entries (f2, mp2, k2) = (f', mp1, k1)"
      using Cons.prems(1) 2 by (simp add: e)
    ultimately show ?case by (intro Cons.IH)
  qed simp
  obtain f1 mp1 k1 where 1: "fold (rollback_one host) (rev remapped) ([], mp, k) = (f1, mp1, k1)" by (metis prod_cases3)
  from assms(2) have "mp' = mp1"
    by (auto simp: rollback_migration_ip_remaps_def 1 Let_def split: prod.splits)
  with run [OF 1 assms(3)] show ?thesis by simp
qed

text \<open>The map in which the keys of \<open>D\<close> have been moved.\<close>

definition moved_map :: "TcHandle \<Rightarrow> MappingKey set \<Rightarrow> (MappingKey \<rightharpoonup> MappingVal) \<Rightarrow> MappingKey \<rightharpoonup> MappingVal" where
  "moved_map target D M = (\<lambda>key. if key \<in> D then Some (moved_value target (M key)) else M key)"

lemma rolled_back:
  assumes "ip_map_laws host view" "rollback_migration_ip_remaps host remapped mp k = (r, mp', k')" "in_step view mp k"
    and "map_of mp = moved_map target D M0" "fst ` set remapped \<subseteq> D" "undoes target M0 (rev remapped) (map_of mp)"
  shows "in_step view mp' k' \<and> (\<forall>key. key \<notin> D \<longrightarrow> map_of mp' key = M0 key)
    \<and> (restorable host target \<longrightarrow> map_of mp' = M0)"
proof (intro conjI allI impI)
  note i = rollback_in_step [OF assms(1-3)]
  show "in_step view mp' k'" using i by simp
  show "map_of mp' key = M0 key" if "key \<notin> D" for key
  proof -
    have "map_of mp' key = map_of mp key" using i assms(5) that by blast
    then show ?thesis using that by (simp add: assms(4) moved_map_def)
  qed
  show "map_of mp' = M0" if "restorable host target" using that assms(2,6) by (rule rollback_restores)
qed

lemma moved_value_again: "moved_value target (Some (moved_value target v)) = moved_value target v"
  by (simp add: moved_value_def)

lemma remap_loop_correct:
  assumes "ip_map_laws host view"
  shows "remap_loop host target ips remapped mp k = (r, mp', k') \<Longrightarrow> in_step view mp k
    \<Longrightarrow> map_of mp = moved_map target D M0 \<Longrightarrow> fst ` set remapped \<subseteq> D \<Longrightarrow> undoes target M0 (rev remapped) (map_of mp)
    \<Longrightarrow> in_step view mp' k'
      \<and> (\<forall>key. key \<notin> D \<union> mapping_key ` set ips \<longrightarrow> map_of mp' key = M0 key)
      \<and> (r = Ok () \<longrightarrow> map_of mp' = moved_map target (D \<union> mapping_key ` set ips) M0)
      \<and> (restorable host target \<longrightarrow> r \<noteq> Ok () \<longrightarrow> map_of mp' = M0)"
proof (induction ips arbitrary: remapped mp k D)
  case Nil
  obtain e k1 where 1: "live_clear_hot_cache host k = (e, k1)" by force
  note same = in_step_same [OF ip_map_lawsD(3) [OF assms 1], of mp]
  show ?case
  proof (cases e)
    case None
    with Nil 1 same show ?thesis by (auto simp: moved_map_def)
  next
    case (Some err)
    obtain rb mp2 k2 where 2: "rollback_migration_ip_remaps host remapped mp k1 = (rb, mp2, k2)" by (metis prod_cases3)
    have r: "r \<noteq> Ok ()" "mp' = mp2" "k' = k2" using Nil.prems(1) 1 2 Some by (auto simp: Let_def)
    have "in_step view mp k1" using same Nil.prems(2) by simp
    then show ?thesis using r rolled_back [OF assms 2 _ Nil.prems(3-5)] by simp
  qed
next
  case (Cons ip ips)
  let ?key = "mapping_key ip"
  let ?prev = "map_of mp ?key"
  let ?v = "moved_value target ?prev"
  obtain e k1 where 1: "live_add_ip host (mapping_key_cidr ?key) target (map_cpu ?v) k = (e, k1)" by force
  have cpu: "(case ?prev of None \<Rightarrow> 0 | Some value \<Rightarrow> map_cpu value) = map_cpu ?v"
    by (simp add: moved_value_def)
  note law = ip_map_lawsD(1) [OF assms 1]
  show ?case
  proof (cases e)
    case (Some err)
    obtain rb mp2 k2 where 2: "rollback_migration_ip_remaps host remapped mp k1 = (rb, mp2, k2)" by (metis prod_cases3)
    have r: "r \<noteq> Ok ()" "mp' = mp2" "k' = k2" using Cons.prems(1) 1 2 Some by (auto simp: Let_def cpu)
    have "in_step view mp k1" using law Some Cons.prems(2) in_step_same [of view k1 k mp] by simp
    then show ?thesis using r rolled_back [OF assms 2 _ Cons.prems(3-5)] by simp
  next
    case None
    let ?mp = "AList.update ?key ?v mp"
    have loop: "remap_loop host target ips (remapped @ [(?key, ?prev)]) ?mp k1 = (r, mp', k')"
      using Cons.prems(1) 1 None by (simp add: Let_def cpu) (simp add: moved_value_def)
    have "in_step view ?mp k1"
    proof (rule in_step_add [OF Cons.prems(2)])
      have "map_handle ?v = target" by (simp add: moved_value_def)
      then show "view k1 = (view k)(mapping_key_cidr ?key \<mapsto> (map_handle ?v, map_cpu ?v))"
        using law by (simp only: None simp_thms if_True)
    qed
    moreover have "map_of ?mp = moved_map target (insert ?key D) M0"
      using Cons.prems(3) by (auto simp: update_conv' moved_map_def moved_value_again fun_eq_iff)
    moreover have "undoes target M0 (rev (remapped @ [(?key, ?prev)])) (map_of ?mp)"
      using Cons.prems(5) by (simp add: update_conv' fun_upd_idem)
    ultimately show ?thesis
      using Cons.IH [OF loop, of "insert ?key D"] Cons.prems(4) by auto
  qed
qed

section \<open>Properties\<close>

text \<open>
  C36. Shadow classes are exclusive. After any sequence of queued migrations and ticks, from no
  migration at all and with whatever sites, circuits, orders of the hash map and answers of the host:
  every migration is stored under its own circuit, its shadow minor is one a class may have, and no two
  pending migrations that share a queue in one of the directions have the same shadow minor, so that
  neither builds over, verifies or removes the other's shadow class.
\<close>

theorem shadow_classes_exclusive:
  assumes "list_all keeps_entries events" and "run_events host prune events ([], mp, s) = Some (migs, mp', s')"
    and "map_of migs h = Some m" and "map_of migs h' = Some m'"
  shows "mig_circuit_hash m = h \<and> 1 \<le> unat (shadow_minor m) \<and> unat (shadow_minor m) \<le> 0xFFFE
    \<and> (h \<noteq> h' \<and> mig_stage m \<noteq> MigrationDone \<and> mig_stage m' \<noteq> MigrationDone
       \<and> (mig_class_major m = mig_class_major m' \<or> mig_up_class_major m = mig_up_class_major m')
       \<longrightarrow> shadow_minor m \<noteq> shadow_minor m')"
proof -
  have "shadows_apart []" by (simp add: shadows_apart_def keyed_migrations_def)
  then have apart: "shadows_apart migs" by (rule shadows_apart_run [OF assms(2,1)])
  have m: "(h, m) \<in> set migs" "(h', m') \<in> set migs" using assms(3,4) by (auto dest: map_of_SomeD)
  have "mig_circuit_hash m = h" using shadows_apartD(1) [OF apart] m by (auto simp: keyed_migrations_def)
  then show ?thesis
    using shadows_apartD(2) [OF apart m(1)] shadows_apartD(3) [OF apart m]
    by (auto simp: shadow_clash_def)
qed

theorem shadow_classes_exclusive_witness:
  "let queue = (\<lambda>hash. QueueMigration (AddCircuit (moving_circuit hash 3)) (AddCircuit (moving_circuit hash 5)) []
           [(7, AddCircuit (moving_circuit 7 3)), (8, AddCircuit (moving_circuit 8 4))] [] False)
   in case run_events moving_host no_prune [queue 7, queue 8] ([], [], moving_bakery) of
        Some (migs, _, _) \<Rightarrow> map_option shadow_minor (map_of migs 7) = Some 0x2000
          \<and> map_option shadow_minor (map_of migs 8) = Some 0x2001
          \<and> map_option shadow_minor (map_of migs 7) \<noteq> map_option shadow_minor (map_of migs 8)
      | None \<Rightarrow> False"
proof -
  define events where "events = map (\<lambda>hash. QueueMigration (AddCircuit (moving_circuit hash 3)) (AddCircuit (moving_circuit hash 5)) []
           [(7, AddCircuit (moving_circuit 7 3)), (8, AddCircuit (moving_circuit 8 4))] [] False) [7, 8]"
  have ok: "list_all keeps_entries events" by (simp add: events_def keeps_entries_def)
  have run: "case run_events moving_host no_prune events ([], [], moving_bakery) of
        Some (migs, _, _) \<Rightarrow> map_option shadow_minor (map_of migs 7) = Some 0x2000
          \<and> map_option shadow_minor (map_of migs 8) = Some 0x2001
          \<and> map_option mig_stage (map_of migs 7) = Some PrepareShadow
          \<and> map_option mig_stage (map_of migs 8) = Some PrepareShadow
          \<and> map_option mig_class_major (map_of migs 7) = map_option mig_class_major (map_of migs 8)
      | None \<Rightarrow> False"
    unfolding events_def by code_simp
  then obtain migs mp s m m' where
    e: "run_events moving_host no_prune events ([], [], moving_bakery) = Some (migs, mp, s)"
    and m: "map_of migs 7 = Some m" "map_of migs 8 = Some m'" "mig_stage m = PrepareShadow"
      "mig_stage m' = PrepareShadow" "mig_class_major m = mig_class_major m'"
    by (auto split: option.splits)
  have "shadow_minor m \<noteq> shadow_minor m'"
    using shadow_classes_exclusive [OF ok e m(1,2)] m(3-5) by simp
  with run e m show ?thesis unfolding Let_def by (simp add: events_def)
qed



text \<open>
  The search for a shadow minor looks at the circuits as they are, not at the target of the migration it
  is for: a circuit that moves to minor 0x2000 gets that minor as its shadow minor too, and removing the
  shadow class at the end of the migration is removing the final class.
\<close>

lemma shadow_minor_may_be_final:
  "case queue_runtime_migration (AddCircuit (moving_circuit 7 3)) (AddCircuit (moving_circuit 7 0x2000)) []
      [(7, AddCircuit (moving_circuit 7 3))] [] [] False of
     (queued, [(_, m)]) \<Rightarrow> queued \<and> shadow_minor m = final_minor m
       \<and> Option.bind (shadow_temp_cmd m None None) (\<lambda>shadow. to_prune shadow moving_config True)
           = to_prune (desired_cmd m) moving_config True
   | _ \<Rightarrow> False"
  by code_simp

end
