(* ===== verification/Lazy_Queues.thy ===== *)
theory Lazy_Queues
  imports Migration_Properties
begin

text \<open>
  Queues that exist only while a circuit is active, and live speed changes of sites
  (\<open>lqos_bakery/src/lib.rs\<close>): the report of active circuits, the periodic tick that expires idle ones
  and the change of a site's rates. Time stamps are whole seconds as \<open>u64\<close> and their difference wraps,
  as in a release build. Shrinking the capacity of hash maps is left out.
\<close>

section \<open>Sites\<close>

definition site_class_handles :: "BakeryCommands \<Rightarrow> (TcHandle \<times> TcHandle) option" where
  "site_class_handles site =
     (case site of
        AddSite p \<Rightarrow>
          Some (tc_handle_from_major_minor (fst (get_major_minor (site_parent_class_id p))) (site_class_minor p),
                tc_handle_from_major_minor (fst (get_major_minor (site_up_parent_class_id p))) (site_class_minor p))
      | _ \<Rightarrow> None)"

definition site_is_top_level :: "BakeryCommands \<Rightarrow> bool" where
  "site_is_top_level site =
     (case site of
        AddSite p \<Rightarrow> snd (get_major_minor (site_parent_class_id p)) \<in> {0, 3}
          \<and> snd (get_major_minor (site_up_parent_class_id p)) \<in> {0, 3}
      | _ \<Rightarrow> False)"

definition stormguard_site_changes_intersect_ownership ::
  "SiteDiffResult \<Rightarrow> string \<times> string \<Rightarrow> overrides \<Rightarrow> bool" where
  "stormguard_site_changes_intersect_ownership site_change_mode names overrides =
     (case site_change_mode of
        SpeedChanges changes \<Rightarrow>
          list_ex (\<lambda>change.
            case site_class_handles change of
              None \<Rightarrow> False
            | Some (down_class, up_class) \<Rightarrow>
                map_of overrides \<lparr>key_interface = fst names, key_class = down_class\<rparr> \<noteq> None
                \<or> map_of overrides \<lparr>key_interface = snd names, key_class = up_class\<rparr> \<noteq> None) changes
      | _ \<Rightarrow> False)"

text \<open>\<open>-\<close> on \<open>f32\<close>\<close>

definition f32_sub :: "f32 \<Rightarrow> f32 \<Rightarrow> f32" where
  "f32_sub x y =
     (case (x, y) of
        (Fin a, Fin b) \<Rightarrow> f32_of_rat (a - b)
      | _ \<Rightarrow> f64_sub x y)"

text \<open>A guaranteed rate that reaches the ceiling is put below it.\<close>

definition below_ceiling :: "f32 \<Rightarrow> f32 \<Rightarrow> f32" where
  "below_ceiling rate_min rate_max =
     (if f32_sub rate_max (Fin (1 / 2)) \<le> rate_min then f32_sub rate_max (Fin 1) else rate_min)"

definition class_change :: "string \<Rightarrow> string \<Rightarrow> f32 \<Rightarrow> f32 \<Rightarrow> u64 \<Rightarrow> argv" where
  "class_change interface classid rate_min rate_max bandwidth =
     [''class'', ''change'', ''dev'', interface, ''classid'', classid, ''htb'', ''rate'',
      format_rate_for_tc_f32 rate_min, ''ceil'', format_rate_for_tc_f32 rate_max, ''prio'', ''3'',
      ''quantum'', quantum (u64_of_float rate_max) (r2q bandwidth)]"

definition handle_change_site_speed_live ::
  "'k live_host \<Rightarrow> i64 \<Rightarrow> f32 \<Rightarrow> f32 \<Rightarrow> f32 \<Rightarrow> f32 \<Rightarrow> ('k, 'v, 'o) bakery \<Rightarrow> ('k, 'v, 'o) bakery option" where
  "handle_change_site_speed_live host hash down_min up_min down_max up_max s =
     (case on_kernel (live_load_config host) s of
        (Inl _, s) \<Rightarrow> Some s
      | (Inr config, s) \<Rightarrow>
          (case map_of (bk_sites s) hash of
             Some (AddSite site) \<Rightarrow>
               Option.bind (interfaces config) (\<lambda>(to_isp, to_inet).
                 let class_id = class_text (fst (get_major_minor (site_parent_class_id site))) (site_class_minor site);
                     up_class_id = class_text (fst (get_major_minor (site_up_parent_class_id site))) (site_class_minor site);
                     up_min = below_ceiling up_min up_max;
                     down_min = below_ceiling down_min down_max;
                     new_site = AddSite \<lparr>site_hash = hash,
                       site_parent_class_id = site_parent_class_id site,
                       site_up_parent_class_id = site_up_parent_class_id site,
                       site_class_minor = site_class_minor site,
                       site_download_bandwidth_min = down_min, site_upload_bandwidth_min = up_min,
                       site_download_bandwidth_max = down_max, site_upload_bandwidth_max = up_max\<rparr>
                 in case live_tree_mutation_blocker_for_config config s of
                      Some _ \<Rightarrow> Some (s\<lparr>bk_sites := AList.update hash new_site (bk_sites s)\<rparr>)
                    | None \<Rightarrow>
                        map_option (\<lambda>(result, s).
                          if \<not> exec_ok result
                          then mark_reload_required (OtherReason (''Bakery live site speed update failed: ''
                                 @ summarize_apply_result ''changing site speed live'' result)) s
                          else s\<lparr>bk_sites := AList.update hash new_site (bk_sites s)\<rparr>)
                          (execute_and_record_live_change host
                             [class_change to_inet up_class_id up_min up_max (uplink_bandwidth_mbps (cfg_queues config)),
                              class_change to_isp class_id down_min down_max (downlink_bandwidth_mbps (cfg_queues config))]
                             ''changing site speed live'' s))
           | _ \<Rightarrow> Some s))"

section \<open>Activity\<close>

text \<open>The commands of a circuit's first activation; \<open>None\<close> inside when the circuit is passed over.\<close>

definition activation_commands ::
  "BakeryCommands \<Rightarrow> Config \<Rightarrow> bool \<Rightarrow> (argv list option \<times> bool) option" where
  "activation_commands command config mq_created =
     (if lazy_queues (cfg_queues config) = Some LazyHtb then
        Option.bind (to_commands command config Builder mq_created) (\<lambda>(builder, mq_created).
          map_option (\<lambda>(live, mq_created).
            let cmd = value_or builder [] @ value_or live [] in (if cmd = [] then None else Some cmd, mq_created))
            (to_commands command config LiveUpdate mq_created))
      else to_commands command config LiveUpdate mq_created)"

fun activity_loop ::
  "'k live_host \<Rightarrow> Config \<Rightarrow> i64 list \<Rightarrow> argv list \<Rightarrow> ('k, 'v, 'o) bakery
    \<Rightarrow> (argv list \<times> ('k, 'v, 'o) bakery) option" where
  "activity_loop host config [] commands s = Some (commands, s)"
| "activity_loop host config (hash # hashes) commands s =
     (if map_of (bk_live_circuits s) hash \<noteq> None then
        (let (now, s) = on_kernel (live_timestamp host) s in
         activity_loop host config hashes commands
           (s\<lparr>bk_live_circuits := AList.update hash now (bk_live_circuits s)\<rparr>))
      else case map_of (bk_circuits s) hash of
        None \<Rightarrow> activity_loop host config hashes commands s
      | Some command \<Rightarrow>
          Option.bind (activation_commands command config (MQ_CREATED s)) (\<lambda>(cmd, mq_created).
            let s = s\<lparr>MQ_CREATED := mq_created\<rparr> in
            case cmd of
              None \<Rightarrow> activity_loop host config hashes commands s
            | Some cmd \<Rightarrow>
                let (now, s) = on_kernel (live_timestamp host) s in
                activity_loop host config hashes (commands @ cmd)
                  (s\<lparr>bk_live_circuits := AList.update hash now (bk_live_circuits s)\<rparr>)))"

definition queues_are_lazy :: "Config \<Rightarrow> bool" where
  "queues_are_lazy config =
     (case lazy_queues (cfg_queues config) of None \<Rightarrow> False | Some LazyNo \<Rightarrow> False | _ \<Rightarrow> True)"

definition handle_circuit_activity ::
  "'k live_host \<Rightarrow> i64 list \<Rightarrow> ('k, 'v, 'o) bakery \<Rightarrow> ('k, 'v, 'o) bakery option" where
  "handle_circuit_activity host circuit_ids s =
     (case on_kernel (live_load_config host) s of
        (Inl _, s) \<Rightarrow> Some s
      | (Inr config, s) \<Rightarrow>
          if \<not> queues_are_lazy config then Some s
          else if \<not> MQ_CREATED s \<or> \<not> FIRST_COMMIT_APPLIED s then Some s
          else Option.bind (activity_loop host config circuit_ids [] s) (\<lambda>(commands, s).
            if commands = [] then Some s
            else map_option snd (execute_and_record_live_change host commands ''enabling live circuits'' s)))"

section \<open>Expiry\<close>

fun expire_loop ::
  "Config \<Rightarrow> (i64 \<times> BakeryCommands) list \<Rightarrow> i64 list \<Rightarrow> argv list \<Rightarrow> (i64 \<times> u64) list
    \<Rightarrow> (argv list \<times> (i64 \<times> u64) list) option" where
  "expire_loop config circuits [] commands live = Some (commands, live)"
| "expire_loop config circuits (hash # hashes) commands live =
     (case map_of circuits hash of
        None \<Rightarrow> expire_loop config circuits hashes commands live
      | Some command \<Rightarrow>
          Option.bind (to_prune command config False) (\<lambda>cmd.
            case cmd of
              None \<Rightarrow> expire_loop config circuits hashes commands live
            | Some cmd \<Rightarrow> expire_loop config circuits hashes (commands @ cmd) (AList.delete hash live)))"

definition is_idle :: "u64 \<Rightarrow> u64 \<Rightarrow> i64 \<times> u64 \<Rightarrow> bool" where
  "is_idle now max_age_seconds entry \<longleftrightarrow> max_age_seconds < now - snd entry"

text \<open>The first component of the result is what \<open>ACTIVE_CIRCUITS\<close> is set to, if it is.\<close>

definition handle_tick ::
  "'k live_host \<Rightarrow> ('k, 'v, 'o) bakery \<Rightarrow> (nat option \<times> ('k, 'v, 'o) bakery) option" where
  "handle_tick host s =
     (case on_kernel (live_load_config host) s of
        (Inl _, s) \<Rightarrow> Some (None, s)
      | (Inr config, s) \<Rightarrow>
          if \<not> queues_are_lazy config then Some (Some (length (bk_circuits s)), s)
          else
            let active = Some (length (bk_live_circuits s));
                max_age_seconds = value_or (lazy_expire_seconds (cfg_queues config)) 600 in
            if max_age_seconds = 0 then Some (active, s)
            else
              let (now, s) = on_kernel (live_timestamp host) s;
                  to_destroy = map fst (filter (is_idle now max_age_seconds) (bk_live_circuits s)) in
              if to_destroy = [] then Some (active, s)
              else Option.bind (expire_loop config (bk_circuits s) to_destroy [] (bk_live_circuits s))
                (\<lambda>(commands, live).
                  let s = s\<lparr>bk_live_circuits := live\<rparr> in
                  if commands = [] then Some (active, s)
                  else map_option (\<lambda>(_, s). (active, s))
                         (execute_and_record_live_change host commands ''pruning lazy queues'' s)))"

section \<open>What a tick expires\<close>

definition all_circuits :: "(i64 \<times> BakeryCommands) list \<Rightarrow> bool" where
  "all_circuits circuits \<longleftrightarrow> (\<forall>(h, command) \<in> set circuits. \<exists>p. command = AddCircuit p)"

lemma lazy_prune_commands:
  assumes "queues_are_lazy config" "interfaces config = Some names"
  shows "\<exists>cmd. to_prune (AddCircuit p) config False = Some (Some cmd)"
proof -
  obtain c where c: "to_prune (AddCircuit p) config False = Some c" using commands_return(2) [OF assms(2)] by blast
  moreover have "c \<noteq> None"
    using c assms(1) by (auto simp: to_prune_def prune_circuit_def prune_levels_def queues_are_lazy_def Let_def
        split: option.splits LazyQueueMode.splits prod.splits)
  ultimately show ?thesis by auto
qed

lemma expire_loop_live:
  assumes "queues_are_lazy config" "interfaces config = Some names" "all_circuits circuits"
  shows "\<exists>cmds. expire_loop config circuits hs commands live =
    Some (cmds, fold AList.delete (filter (\<lambda>h. map_of circuits h \<noteq> None) hs) live)"
proof (induction hs arbitrary: commands live)
  case (Cons h hs)
  show ?case
  proof (cases "map_of circuits h")
    case None
    with Cons show ?thesis by simp
  next
    case (Some command)
    then obtain p where "command = AddCircuit p" using assms(3) by (force simp: all_circuits_def dest: map_of_SomeD)
    moreover obtain cmd where "to_prune (AddCircuit p) config False = Some (Some cmd)"
      using lazy_prune_commands [OF assms(1,2)] by blast
    ultimately show ?thesis using Some Cons by simp
  qed
qed simp

lemma map_of_fold_delete: "map_of (fold AList.delete hs al) h = (if h \<in> set hs then None else map_of al h)"
  by (induction hs arbitrary: al) (auto simp: delete_conv')

text \<open>
  A tick with lazy queues forgets exactly the circuits that were idle for longer than the configured time
  and that the bakery knows, whatever becomes of their removal; it changes no circuit and no site.
\<close>

lemma handle_tick_expires_idle:
  assumes "host_configured host" "queues_are_lazy config" "distinct (map fst (bk_live_circuits s))"
    and "all_circuits (bk_circuits s)"
    and "on_kernel (live_load_config host) s = (Ok config, s1)" "on_kernel (live_timestamp host) s1 = (now, s2)"
    and "max_age = value_or (lazy_expire_seconds (cfg_queues config)) 600" "max_age \<noteq> 0"
  shows "\<exists>s'. handle_tick host s = Some (Some (length (bk_live_circuits s)), s')
    \<and> bk_circuits s' = bk_circuits s \<and> bk_sites s' = bk_sites s
    \<and> (\<forall>h. map_of (bk_live_circuits s') h = (case map_of (bk_live_circuits s) h of
          Some last_activity \<Rightarrow> if max_age < now - last_activity \<and> map_of (bk_circuits s) h \<noteq> None
            then None else Some last_activity
        | None \<Rightarrow> None))"
proof -
  have w: "world_step s s2"
    using world_step_on_kernel [OF assms(5)] world_step_on_kernel [OF assms(6)] by (rule world_step_trans)
  have w1: "bk_live_circuits s1 = bk_live_circuits s"
    using world_step_same [OF world_step_on_kernel [OF assms(5)]] by simp
  note same = world_step_same [OF w]
  have "interfaces config \<noteq> None"
  proof -
    have "fst (live_load_config host (kernel (bk_world s))) = Ok config"
      using assms(5) by (auto simp: on_kernel_def update_world_def Let_def split: prod.splits)
    then show ?thesis using assms(1) by (auto simp: host_configured_def)
  qed
  then obtain names where names: "interfaces config = Some names" by blast
  let ?hs = "map fst (filter (is_idle now max_age) (bk_live_circuits s))"
  let ?live = "fold AList.delete (filter (\<lambda>h. map_of (bk_circuits s) h \<noteq> None) ?hs) (bk_live_circuits s)"
  obtain cmds where loop: "expire_loop config (bk_circuits s) ?hs [] (bk_live_circuits s) = Some (cmds, ?live)"
    using expire_loop_live [OF assms(2) names assms(4)] by blast
  have idle: "h \<in> set ?hs \<longleftrightarrow> (\<exists>l. map_of (bk_live_circuits s) h = Some l \<and> max_age < now - l)" for h
    using assms(3) by (auto simp: is_idle_def image_iff dest: map_of_SomeD)
  have live: "map_of ?live h = (case map_of (bk_live_circuits s) h of
          Some last_activity \<Rightarrow> if max_age < now - last_activity \<and> map_of (bk_circuits s) h \<noteq> None
            then None else Some last_activity
        | None \<Rightarrow> None)" for h
    unfolding map_of_fold_delete using idle [of h] by (auto split: option.splits)
  have "s2\<lparr>bk_live_circuits := bk_live_circuits s\<rparr> = s2" using same by (cases s2) simp
  then have keep: "world_step (s2\<lparr>bk_live_circuits := bk_live_circuits s\<rparr>) s2" using world_step_refl by metis
  have "\<exists>s'. handle_tick host s = Some (Some (length (bk_live_circuits s)), s')
    \<and> world_step (s2\<lparr>bk_live_circuits := ?live\<rparr>) s'"
  proof (cases "?hs = [] \<or> cmds = []")
    case True
    then show ?thesis
      using loop assms(2,5-8) w1 same keep
      by (cases "?hs = []") (auto simp: handle_tick_def Let_def split: if_splits)
  next
    case False
    obtain r s3 where e: "execute_and_record_live_change host cmds ''pruning lazy queues'' (s2\<lparr>bk_live_circuits := ?live\<rparr>)
        = Some (r, s3)" using execute_returns [OF assms(1)] by (metis not_None_eq prod.exhaust)
    then show ?thesis
      using False loop assms(2,5-8) w1 same world_step_execute [OF e] by (auto simp: handle_tick_def Let_def)
  qed
  then obtain s' where t: "handle_tick host s = Some (Some (length (bk_live_circuits s)), s')"
    and s': "world_step (s2\<lparr>bk_live_circuits := ?live\<rparr>) s'" by blast
  have "bk_live_circuits s' = ?live" "bk_circuits s' = bk_circuits s" "bk_sites s' = bk_sites s"
    using world_step_same [OF s'] same by simp_all
  with t live show ?thesis by auto
qed

text \<open>
  The difference of time stamps wraps: when the clock has gone back since a circuit was last active, the
  circuit counts as idle.
\<close>

lemma clock_set_back_is_idle:
  assumes "now < last_activity" "unat max_age + unat (last_activity - now) < 2 ^ 64"
  shows "is_idle now max_age (h, last_activity)"
  using assms by (auto simp: is_idle_def word_less_nat_alt unat_sub_if')

end
