(* ===== verification/Mapped_Circuits.thy ===== *)
theory Mapped_Circuits
  imports Live_Migration Radius_Session
begin

text \<open>
  The licensed number of circuits that carry addresses: which address texts count
  (\<open>lqos_utils/src/mapped_circuits.rs\<close>) and the filter that keeps a batch within the limit
  (\<open>lqos_bakery/src/lib.rs\<close>). The reply of the bus to the question for the license is an argument;
  log messages and urgent notices are left out.
\<close>

section \<open>Address texts\<close>

definition DEFAULT_MAPPED_CIRCUIT_LIMIT :: nat where
  "DEFAULT_MAPPED_CIRCUIT_LIMIT = 1000"

definition is_valid_ipv4_prefix :: "nat \<Rightarrow> bool" where
  "is_valid_ipv4_prefix prefix_len \<longleftrightarrow> prefix_len \<le> 32"

definition is_valid_ipv6_prefix :: "nat \<Rightarrow> bool" where
  "is_valid_ipv6_prefix prefix_len \<longleftrightarrow> prefix_len \<le> 128"

text \<open>
  \<open>str::parse::<Ipv6Addr>\<close>, as far as it decides whether a text is an address: groups of one to four
  hexadecimal digits, at most one double colon for a run of zero groups, and a dotted IPv4 address in
  place of the last two groups.
\<close>

fun split_double_colon :: "string \<Rightarrow> (string \<times> string) option" where
  "split_double_colon (a # b # cs) =
     (if a = CHR '':'' \<and> b = CHR '':'' then Some ([], cs)
      else map_option (\<lambda>(head, tail). (a # head, tail)) (split_double_colon (b # cs)))"
| "split_double_colon _ = None"

definition is_hex_group :: "string \<Rightarrow> bool" where
  "is_hex_group s \<longleftrightarrow> s \<noteq> [] \<and> length s \<le> 4 \<and> list_all is_ascii_hexdigit s"

definition ipv6_groups :: "bool \<Rightarrow> string \<Rightarrow> nat option" where
  "ipv6_groups embedded_ipv4 s =
     (if s = [] then Some 0
      else
        let groups = split_on (CHR '':'') s in
        if list_all is_hex_group groups then Some (length groups)
        else if embedded_ipv4 \<and> list_all is_hex_group (butlast groups) \<and> parse_ipv4_addr (last groups) \<noteq> None
        then Some (length groups + 1)
        else None)"

definition parses_ipv6_addr :: "string \<Rightarrow> bool" where
  "parses_ipv6_addr s =
     (case split_double_colon s of
        None \<Rightarrow> ipv6_groups True s = Some 8
      | Some (head, tail) \<Rightarrow>
          (case (ipv6_groups False head, ipv6_groups True tail) of
             (Some a, Some b) \<Rightarrow> a + b \<le> 7
           | _ \<Rightarrow> False))"

definition is_valid_ip_mapping_text :: "string \<Rightarrow> bool" where
  "is_valid_ip_mapping_text text =
     (let mapping = trim text in
      if mapping = [] then False
      else
        case (case split_once (CHR ''/'') mapping of
                Some (address, prefix_text) \<Rightarrow>
                  map_option (\<lambda>n. (address, Some n)) (parse_unsigned 32 prefix_text)
              | None \<Rightarrow> Some (mapping, None)) of
          None \<Rightarrow> False
        | Some (address, prefix_len) \<Rightarrow>
            let fits = (\<lambda>valid. case prefix_len of Some n \<Rightarrow> valid n | None \<Rightarrow> True) in
            if parse_ipv4_addr address \<noteq> None then fits is_valid_ipv4_prefix
            else if parses_ipv6_addr address then fits is_valid_ipv6_prefix
            else False)"

definition unique_mapped_circuit_hashes :: "i64 list \<Rightarrow> i64 list" where
  "unique_mapped_circuit_hashes hashes = foldl (\<lambda>seen hash. push_unique hash seen) [] hashes"

section \<open>The limit\<close>

record MappedLimitStats =
  enforced_limit :: "nat option"
  requested_mapped :: nat
  allowed_mapped :: nat
  dropped_mapped :: nat

record ResolvedMappedLimit =
  licensed :: bool
  max_circuits :: "nat option"
  effective_limit :: "nat option"

definition is_mapped_add_circuit :: "BakeryCommands \<Rightarrow> bool" where
  "is_mapped_add_circuit cmd =
     (case cmd of
        AddCircuit p \<Rightarrow> list_ex is_valid_ip_mapping_text (parse_ip_list (circuit_ip_addresses p))
      | _ \<Rightarrow> False)"

definition mapped_circuit_hash :: "BakeryCommands \<Rightarrow> i64 option" where
  "mapped_circuit_hash cmd =
     (case cmd of
        AddCircuit p \<Rightarrow> if is_mapped_add_circuit cmd then Some (circuit_hash p) else None
      | _ \<Rightarrow> None)"

text \<open>
  The replies are those of the bus, or nothing when the bus could not be reached; a reply that is not the
  license summary is \<open>None\<close>.
\<close>

fun resolve_from_replies :: "(bool \<times> u64 option) option list \<Rightarrow> ResolvedMappedLimit" where
  "resolve_from_replies [] =
     \<lparr>licensed = False, max_circuits = None, effective_limit = Some DEFAULT_MAPPED_CIRCUIT_LIMIT\<rparr>"
| "resolve_from_replies (None # replies) = resolve_from_replies replies"
| "resolve_from_replies (Some (is_licensed, max_licensed) # replies) =
     (let max_circuits_usize = map_option (\<lambda>n. min (unat n) (2 ^ 64 - 1)) max_licensed in
      \<lparr>licensed = is_licensed, max_circuits = max_circuits_usize,
       effective_limit = (if is_licensed then max_circuits_usize else Some DEFAULT_MAPPED_CIRCUIT_LIMIT)\<rparr>)"

definition resolve_mapped_circuit_limit :: "(bool \<times> u64 option) option list option \<Rightarrow> ResolvedMappedLimit" where
  "resolve_mapped_circuit_limit reply = resolve_from_replies (value_or reply [])"

text \<open>One pass over the candidates: those the test admits, until the set is full.\<close>

fun keep_loop :: "nat \<Rightarrow> (i64 \<Rightarrow> bool) \<Rightarrow> i64 list \<Rightarrow> i64 list \<Rightarrow> i64 list" where
  "keep_loop limit admitted [] keep_set = keep_set"
| "keep_loop limit admitted (hash # candidates) keep_set =
     (if limit \<le> length keep_set then keep_set
      else keep_loop limit admitted candidates (if admitted hash then push_unique hash keep_set else keep_set))"

definition filter_batch_by_mapped_circuit_limit ::
  "BakeryCommands list \<Rightarrow> (i64 \<times> BakeryCommands) list \<Rightarrow> nat option \<Rightarrow> BakeryCommands list \<times> MappedLimitStats" where
  "filter_batch_by_mapped_circuit_limit batch existing_circuits limit =
     (let mapped_candidates = unique_mapped_circuit_hashes (List.map_filter mapped_circuit_hash batch);
          requested = length mapped_candidates in
      case limit of
        None \<Rightarrow> (batch, \<lparr>enforced_limit = None, requested_mapped = requested,
                        allowed_mapped = requested, dropped_mapped = 0\<rparr>)
      | Some limit \<Rightarrow>
          if requested \<le> limit
          then (batch, \<lparr>enforced_limit = Some limit, requested_mapped = requested,
                        allowed_mapped = requested, dropped_mapped = 0\<rparr>)
          else
            let mapped_already = (\<lambda>hash. case map_of existing_circuits hash of
                  Some existing \<Rightarrow> is_mapped_add_circuit existing | None \<Rightarrow> False);
                keep_set = keep_loop limit mapped_already mapped_candidates [];
                keep_set = keep_loop limit (\<lambda>_. True) mapped_candidates keep_set;
                allowed = length keep_set
            in (filter (\<lambda>cmd. case mapped_circuit_hash cmd of Some hash \<Rightarrow> hash \<in> set keep_set | None \<Rightarrow> True) batch,
                \<lparr>enforced_limit = Some limit, requested_mapped = requested,
                 allowed_mapped = allowed, dropped_mapped = requested - allowed\<rparr>))"

section \<open>What the filter keeps\<close>

definition mapped_hashes :: "BakeryCommands list \<Rightarrow> i64 set" where
  "mapped_hashes batch = {h. \<exists>cmd \<in> set batch. mapped_circuit_hash cmd = Some h}"

lemma foldl_push_unique: "distinct acc \<Longrightarrow> distinct (foldl (\<lambda>seen x. push_unique x seen) acc xs)
    \<and> set (foldl (\<lambda>seen x. push_unique x seen) acc xs) = set acc \<union> set xs"
  by (induction xs arbitrary: acc) (auto simp: push_unique_def)

lemma unique_hashes:
  "distinct (unique_mapped_circuit_hashes (List.map_filter mapped_circuit_hash batch))"
  "set (unique_mapped_circuit_hashes (List.map_filter mapped_circuit_hash batch)) = mapped_hashes batch"
proof -
  have "set (List.map_filter mapped_circuit_hash batch) = mapped_hashes batch"
    by (force simp: mapped_hashes_def map_filter_def)
  then show "distinct (unique_mapped_circuit_hashes (List.map_filter mapped_circuit_hash batch))"
    "set (unique_mapped_circuit_hashes (List.map_filter mapped_circuit_hash batch)) = mapped_hashes batch"
    using foldl_push_unique [of "[]" "List.map_filter mapped_circuit_hash batch"]
    by (simp_all add: unique_mapped_circuit_hashes_def)
qed

lemma keep_loop_spec:
  assumes "distinct ks" "length ks \<le> limit"
  shows "distinct (keep_loop limit P cs ks) \<and> length (keep_loop limit P cs ks) \<le> limit
    \<and> set ks \<subseteq> set (keep_loop limit P cs ks) \<and> set (keep_loop limit P cs ks) \<subseteq> set ks \<union> {c \<in> set cs. P c}
    \<and> (length (keep_loop limit P cs ks) < limit \<longrightarrow> {c \<in> set cs. P c} \<subseteq> set (keep_loop limit P cs ks))"
  using assms
proof (induction cs arbitrary: ks)
  case (Cons c cs)
  show ?case
  proof (cases "limit \<le> length ks")
    case False
    define ks' where "ks' = (if P c then push_unique c ks else ks)"
    have d: "distinct ks'" "length ks' \<le> limit" and ks': "set ks' = (if P c then insert c (set ks) else set ks)"
      using Cons.prems False by (auto simp: ks'_def push_unique_def)
    have "keep_loop limit P (c # cs) ks = keep_loop limit P cs ks'" using False by (simp add: ks'_def)
    with Cons.IH [OF d] ks' show ?thesis by (auto split: if_splits)
  qed (use Cons.prems in simp)
qed simp

text \<open>The circuits a batch asks for that carry addresses now, and those it may keep.\<close>

definition already_mapped :: "(i64 \<times> BakeryCommands) list \<Rightarrow> i64 set" where
  "already_mapped existing = {h. \<exists>cmd. map_of existing h = Some cmd \<and> is_mapped_add_circuit cmd}"

lemma keep_set_spec:
  assumes "distinct cs" "limit < length cs"
    and "ks = keep_loop limit (\<lambda>_. True) cs (keep_loop limit P cs [])"
  shows "distinct ks \<and> length ks = limit \<and> set ks \<subseteq> set cs \<and> ({c \<in> set cs. P c} \<subseteq> set ks \<or> set ks \<subseteq> {c. P c})"
proof -
  let ?first = "keep_loop limit P cs []"
  have f: "distinct ?first \<and> length ?first \<le> limit \<and> set ?first \<subseteq> {c \<in> set cs. P c}
      \<and> (length ?first < limit \<longrightarrow> {c \<in> set cs. P c} \<subseteq> set ?first)"
    using keep_loop_spec [of "[]" limit P cs] by auto
  have k: "distinct ks" "length ks \<le> limit" "set ?first \<subseteq> set ks" "set ks \<subseteq> set ?first \<union> set cs"
      "length ks < limit \<Longrightarrow> set cs \<subseteq> set ks"
    using keep_loop_spec [of ?first limit "\<lambda>_. True" cs] f by (auto simp: assms(3))
  have "\<not> length ks < limit"
  proof
    assume "length ks < limit"
    then have "card (set cs) \<le> card (set ks)" using k(5) by (intro card_mono) auto
    with \<open>length ks < limit\<close> assms(1,2) k(1) show False by (simp add: distinct_card)
  qed
  then have len: "length ks = limit" using k(2) by simp
  show ?thesis
  proof (cases "length ?first < limit")
    case True
    with f k len show ?thesis by auto
  next
    case False
    then have "card (set ?first) = card (set ks)" using f k(1) len by (simp add: distinct_card)
    then have "set ?first = set ks" using k(3) by (intro card_subset_eq) auto
    with f k len show ?thesis by auto
  qed
qed

lemma filter_batch_spec:
  assumes "filter_batch_by_mapped_circuit_limit batch existing limit = (out, stats)" and "kept = mapped_hashes out"
  shows "out = filter (\<lambda>cmd. case mapped_circuit_hash cmd of Some h \<Rightarrow> h \<in> kept | None \<Rightarrow> True) batch"
    and "card kept = (case limit of Some n \<Rightarrow> min n (card (mapped_hashes batch)) | None \<Rightarrow> card (mapped_hashes batch))"
    and "kept \<subseteq> mapped_hashes batch"
    and "kept \<subseteq> already_mapped existing \<or> mapped_hashes batch \<inter> already_mapped existing \<subseteq> kept"
    and "requested_mapped stats = card (mapped_hashes batch)" "allowed_mapped stats = card kept"
      "dropped_mapped stats = card (mapped_hashes batch - kept)"
proof -
  let ?cs = "unique_mapped_circuit_hashes (List.map_filter mapped_circuit_hash batch)"
  let ?goal = "out = filter (\<lambda>cmd. case mapped_circuit_hash cmd of Some h \<Rightarrow> h \<in> kept | None \<Rightarrow> True) batch
    \<and> card kept = (case limit of Some n \<Rightarrow> min n (card (mapped_hashes batch)) | None \<Rightarrow> card (mapped_hashes batch))
    \<and> kept \<subseteq> mapped_hashes batch
    \<and> (kept \<subseteq> already_mapped existing \<or> mapped_hashes batch \<inter> already_mapped existing \<subseteq> kept)
    \<and> requested_mapped stats = card (mapped_hashes batch) \<and> allowed_mapped stats = card kept
    \<and> dropped_mapped stats = card (mapped_hashes batch - kept)"
  have cs: "length ?cs = card (mapped_hashes batch)" using unique_hashes [of batch] by (metis distinct_card)
  note hashes = unique_hashes(2) [of batch]
  have ?goal
  proof (cases "\<exists>n. limit = Some n \<and> n < length ?cs")
    case False
    then have r: "out = batch" "stats = \<lparr>enforced_limit = limit, requested_mapped = length ?cs,
        allowed_mapped = length ?cs, dropped_mapped = 0\<rparr>"
      using assms(1) by (auto simp: filter_batch_by_mapped_circuit_limit_def Let_def split: option.splits)
    have kept: "kept = mapped_hashes batch" using assms(2) r(1) by simp
    have "filter (\<lambda>cmd. case mapped_circuit_hash cmd of Some h \<Rightarrow> h \<in> kept | None \<Rightarrow> True) batch = batch"
      unfolding kept filter_id_conv by (auto simp: mapped_hashes_def split: option.split)
    moreover have "card kept = (case limit of Some n \<Rightarrow> min n (card (mapped_hashes batch)) | None \<Rightarrow> card (mapped_hashes batch))"
      using False cs kept by (auto split: option.split)
    ultimately show ?thesis using r kept cs by simp
  next
    case True
    then obtain n where n: "limit = Some n" "n < length ?cs" by blast
    define P where "P = (\<lambda>h. case map_of existing h of Some cmd \<Rightarrow> is_mapped_add_circuit cmd | None \<Rightarrow> False)"
    define ks where "ks = keep_loop n (\<lambda>_. True) ?cs (keep_loop n P ?cs [])"
    have P: "{c. P c} = already_mapped existing" by (auto simp: P_def already_mapped_def split: option.splits)
    note k = keep_set_spec [OF unique_hashes(1) n(2) ks_def]
    have r: "out = filter (\<lambda>cmd. case mapped_circuit_hash cmd of Some h \<Rightarrow> h \<in> set ks | None \<Rightarrow> True) batch"
      "requested_mapped stats = length ?cs" "allowed_mapped stats = length ks"
      "dropped_mapped stats = length ?cs - length ks"
      using n assms(1) unfolding ks_def P_def by (auto simp: filter_batch_by_mapped_circuit_limit_def Let_def)
    have kept: "kept = set ks"
    proof -
      have "kept = mapped_hashes batch \<inter> set ks" unfolding assms(2) r(1) by (auto simp: mapped_hashes_def)
      moreover have "set ks \<subseteq> mapped_hashes batch" using k hashes by simp
      ultimately show ?thesis by blast
    qed
    have "card (mapped_hashes batch - kept) = length ?cs - length ks"
      using k hashes cs by (simp add: kept card_Diff_subset distinct_card)
    moreover have "kept \<subseteq> already_mapped existing \<or> mapped_hashes batch \<inter> already_mapped existing \<subseteq> kept"
      using k P hashes kept by auto
    moreover have "card kept = n" using k kept distinct_card by fastforce
    ultimately show ?thesis using k r n cs hashes unfolding kept by simp
  qed
  then show "out = filter (\<lambda>cmd. case mapped_circuit_hash cmd of Some h \<Rightarrow> h \<in> kept | None \<Rightarrow> True) batch"
    "card kept = (case limit of Some n \<Rightarrow> min n (card (mapped_hashes batch)) | None \<Rightarrow> card (mapped_hashes batch))"
    "kept \<subseteq> mapped_hashes batch"
    "kept \<subseteq> already_mapped existing \<or> mapped_hashes batch \<inter> already_mapped existing \<subseteq> kept"
    "requested_mapped stats = card (mapped_hashes batch)" "allowed_mapped stats = card kept"
    "dropped_mapped stats = card (mapped_hashes batch - kept)" by simp_all
qed

text \<open>
  C27. The limit on mapped circuits. Whatever the batch and the bakery's circuits: the filter keeps the
  commands it does not count, in order, and of the circuits with addresses it keeps exactly as many as
  the limit allows, all of them when they fit; a circuit is kept or dropped as a whole; and a new circuit
  is kept only when every circuit of the batch that already carries addresses is kept. The reported
  numbers are those of the circuits that were asked for, kept and dropped.
\<close>

theorem mapped_limit_enforced:
  "case filter_batch_by_mapped_circuit_limit batch existing limit of (out, stats) \<Rightarrow>
     let kept = mapped_hashes out in
     out = filter (\<lambda>cmd. case mapped_circuit_hash cmd of Some h \<Rightarrow> h \<in> kept | None \<Rightarrow> True) batch
     \<and> card kept = (case limit of Some n \<Rightarrow> min n (card (mapped_hashes batch)) | None \<Rightarrow> card (mapped_hashes batch))
     \<and> kept \<subseteq> mapped_hashes batch
     \<and> (kept \<subseteq> already_mapped existing \<or> mapped_hashes batch \<inter> already_mapped existing \<subseteq> kept)
     \<and> requested_mapped stats = card (mapped_hashes batch) \<and> allowed_mapped stats = card kept
     \<and> dropped_mapped stats = card (mapped_hashes batch - kept)"
proof -
  obtain out stats where r: "filter_batch_by_mapped_circuit_limit batch existing limit = (out, stats)" by force
  note spec = filter_batch_spec [OF r refl]
  show ?thesis unfolding r Let_def prod.case by (intro conjI spec)
qed

end
