(* ===== verification/Spec2Isabelle.thy ===== *)
theory Spec2Isabelle
  imports Application_Properties Qdisc_Handles Class_Planner_Properties Top_Level_Planner
    Bakery_Diff Treeguard_Properties Network_Properties
    Tc_Tree Class_Rates Reload_Properties Reload_Outcome Stormguard_Properties
    Migration_Classes Lazy_Queues Mapped_Circuits
begin

text \<open>
  LibreQoS shapes the traffic of an internet provider's subscribers: every subscriber is a circuit
  with a rate, and a daemon builds a tree of traffic classes and queues from the circuits. This
  library models parts of its Rust code, under \<open>src/rust\<close> of the repository, and proves them
  correct.

  \<^bold>\<open>Parts and their theories.\<close>

  \<^item> \<open>LQ_Prelude\<close>, \<open>Rust_Strings\<close>, \<open>Rust_Float\<close>: what the code uses of Rust and its standard
    library: results, fixed-width integers with wrapping and saturating operations, strings as
    UTF-8 bytes with \<open>trim\<close>, case mapping, parsing and printing of integers, and \<open>f32\<close>/\<open>f64\<close> with
    exact rounding. The locale \<open>stepper\<close> is a step function with an invariant.
  \<^item> \<open>Radius_Packet\<close> (\<open>lqos_radius/src/packet.rs\<close>): the RADIUS datagram, its parser and encoder, the
    request and message authenticators and the response. MD5 and HMAC-MD5 are parameters. The
    locale \<open>tlv_codec\<close> states what a split of one type-length-value item promises.
  \<^item> \<open>Radius_Event\<close> (\<open>accounting_event.rs\<close>, \<open>attribute_type.rs\<close>): the accounting event extracted from
    a packet, vendor attributes and MikroTik rate limits.
  \<^item> \<open>Shaped_Device\<close> (\<open>mac_match.rs\<close>, and of \<open>lqos_config\<close> the device record and the validation of
    rates): MAC texts and the matcher from identities to configured devices.
  \<^item> \<open>Radius_Session\<close>, \<open>Session_Store\<close>, \<open>Session_Properties\<close> (\<open>session.rs\<close>, \<open>dynamic_circuit.rs\<close>):
    session keys, the metadata resolved for a session, the store with its three indexes and all its
    entry points, and the theorems about runs of the store. The store's indexes are an instance of
    the locale \<open>multi_index\<close>, and its calls one of \<open>stepper\<close>.
  \<^item> \<open>Radius_Listener\<close> (\<open>listener.rs\<close>): trusted clients and one turn of the verified listener.
  \<^item> \<open>Qdisc_Handles\<close> (\<open>lqos_bakery/src/qdisc_handles.rs\<close>): the allocator of explicit queueing
    discipline handles, per interface, with retirement, loading and saving.
  \<^item> \<open>Radius_Runtime\<close>, \<open>Runtime_Properties\<close> (\<open>lqosd/src/radius_accounting.rs\<close>): the daemon's accounting loop
    over the listener and the session store: update times, expiry, diagnostics and the expiry timer.
    Each turn of the loop is one step; the locale \<open>timed_stepper\<close> is a machine whose inputs carry
    non-decreasing times, and the loop its instance.
  \<^item> \<open>Failure_Text\<close>, \<open>Circuit_Application\<close>, \<open>Application_Properties\<close> (the same file): the sink and the worker
    that apply dynamic circuits, with their shared state, the bounded queue and the bus. A step is one
    critical section, one queue operation or one answer of the bus, so the two tasks interleave; the bus's
    answers are arbitrary. The map of installed circuits with \<open>lawful\<close> requests is the abstract machine
    that the worker's requests refine, and runs are an instance of \<open>stepper\<close>. The texts of failures are redacted
    and bounded.
  \<^item> \<open>Class_Planner\<close>, \<open>Class_Planner_Properties\<close> (\<open>lqos_config/src/planner.rs\<close>): class identities of
    sites and circuits. The planning loops refine the abstract allocator \<open>allocates\<close>.
  \<^item> \<open>Top_Level_Planner\<close> (the same file): top-level nodes on queues, round robin, greedy or stable.
  \<^item> \<open>Tc_Handle\<close> (\<open>lqos_bus/src/tc_handle.rs\<close>, \<open>lqos_utils/src/hex_string.rs\<close>): traffic-control handles,
    parsed and printed.
  \<^item> \<open>Bakery_Diff\<close> (\<open>lqos_bakery/src/diff\<close>): what a batch changes against the sites and circuits the
    bakery has. The locale \<open>keyed_commands\<close> is a map of commands under their own hashes, and sites
    and circuits are its two instances.
  \<^item> \<open>Treeguard_Decisions\<close>, \<open>Treeguard_Circuits\<close>, \<open>Treeguard_Properties\<close> (\<open>lqosd/src/treeguard\<close>): the
    decisions on nodes and circuits, the tick of one circuit as a whole, with failing writes and
    live changes, and the circuits a tick evaluates. The step relation \<open>paced_step\<close> is the abstract
    description of pacing, the locale \<open>paced\<close> its runs, and a circuit's tick an instance.
  \<^item> \<open>Float_Rounding\<close>: rounding is monotone and exact on small integers.
  \<^item> \<open>Rtt_Buffer\<close>, \<open>Rtt_Properties\<close> (\<open>lqos_utils/src/rtt\<close>): histograms of round-trip times. Buffers are an
    instance of the locale \<open>mergeable_summary\<close>: they stand for the readings pushed to any of the
    buffers merged into them.
  \<^item> \<open>Qoo\<close>, \<open>Qoo_Properties\<close> (\<open>lqos_utils/src/qoo.rs\<close>, \<open>qoo/qoo_profile.rs\<close>, \<open>lqos_config/src/qoo_profiles.rs\<close>):
    quality-of-outcome scores from a histogram and a loss measurement, profiles and their validation.
  \<^item> \<open>Heatmap\<close>, \<open>Heatmap_Properties\<close> (\<open>lqos_utils/src/temporal_heatmap.rs\<close>, \<open>qoq_heatmap.rs\<close>): rolling
    medians by minute. Both heatmaps are instances of the locale \<open>recorder\<close>; \<open>history_blocks\<close> is the
    abstract description they refine.
  \<^item> \<open>Down_Up\<close> (\<open>lqos_utils/src/units\<close>): values by direction.
  \<^item> \<open>Network_Json\<close>, \<open>Network_Properties\<close> (\<open>lqos_config/src/network_json.rs\<close> and its submodules): the
    network tree as a vector of nodes, its counters, heatmaps and reloads.
  \<^item> \<open>Queue_Math\<close> (\<open>lqos_bakery/src/queue_math.rs\<close>, and of \<open>lqos_config/src/etc/v15\<close> the settings it
    reads): rates and quanta as \<open>tc\<close> reads them, and the queue discipline of a circuit.
  \<^item> \<open>Tc_Commands\<close> (\<open>lqos_bakery/src/commands.rs\<close>): the argument vectors of the multi-queue root, of sites
    and circuits, and of their removal. \<open>Tc_Tree\<close> gives them a meaning: \<open>tc_step\<close> is a step relation on the
    tree of queues and classes of the interfaces, in which a command that names something missing,
    or that exists already, has no step. \<open>Class_Rates\<close> bounds what the classes are given.
  \<^item> \<open>Tc_Execution\<close> (\<open>lqos_bakery/src/utils.rs\<close>): running batches in chunks under the memory guard, tolerated
    failures, and the live state read back, with its cache. \<open>host\<close> is a record of what the machine does.
  \<^item> \<open>Qdisc_Assignment\<close>, \<open>Full_Reload\<close>, \<open>Reload_Run\<close>, \<open>Bakery_Reload\<close> (\<open>lqos_bakery/src/lib.rs\<close>): handles of a
    command's queues, the budget estimate, draining and preparing the roots, building and running the
    batch, and the full reload on the state of the bakery's thread. \<open>Reload_Properties\<close> and
    \<open>Reload_Outcome\<close> hold the theorems; \<open>logging\<close> wraps any host so that it keeps what it was given to run.
  \<^item> \<open>Stormguard_Batches\<close>, \<open>Stormguard_Properties\<close> (the same file): StormGuard's class batches, their
    rollback, restoration and circuit overrides. The abstract machine is a map of first plans.
  \<^item> \<open>Live_Migration\<close>, \<open>Migration_Ticks\<close> (the same file): moving live circuits to other classes: free minors
    for shadow classes, queueing, the stages with their verification, retries and removal of misplaced
    classes, the addresses moved in the kernel's map with their rollback, and the tick over the pending
    migrations. \<open>live_host\<close> adds that map, files and the configuration to \<open>host\<close>; pruning virtualised
    branches is the parameter \<open>branch_prune\<close>. \<open>Migration_Properties\<close>, \<open>Migration_Classes\<close>: the step relation
    \<open>migration_step\<close> is the contract of a stage and \<open>migrations_step\<close> that of all pending migrations; every
    stage and every tick implements them, and the theorems follow by rule induction.
  \<^item> \<open>Lazy_Queues\<close> (the same file): queues built on first activity and removed when idle, and live changes of
    a site's rates.
  \<^item> \<open>Mapped_Circuits\<close> (the same file and \<open>lqos_utils/src/mapped_circuits.rs\<close>): texts of address mappings and
    the licensed limit on circuits that have addresses.

  The listener passes a verified packet to the event extraction; the event goes to the session
  store with the device matcher as resolver; the store returns intents that create, update or
  remove circuits. The shaper then plans a class for each circuit and gives its qdisc a handle, the
  bakery applies the difference to what it has, or rebuilds the whole tree, with commands it hands
  to \<open>tc\<close>; TreeGuard changes queue disciplines and StormGuard class rates under load.
  Meanwhile every second's traffic and round-trip times are added along each circuit's path in the
  network tree, scored with the active profile and recorded in heatmaps.

  \<^bold>\<open>Correspondence.\<close> A Rust struct is a record with the code's field names behind a short prefix, an
  enum a datatype, a function or method a definition of the same name (with the type's name in
  front where two types share it). A mutable receiver is the last argument and the last part of the
  result, in the measurement theories the first argument \<open>self\<close>. A \<open>for\<close> or \<open>while\<close> loop is a function with the suffix \<open>_loop\<close> or a fold. Ordered and hash
  maps are association lists; where the code iterates an ordered container the list is sorted
  first; for a hash container the list is in any order, and what depends on that order is described
  as a set. Errors are \<open>Inl\<close> values.

  \<^bold>\<open>What is proved.\<close> C1, C4 and C5: the parser accepts exactly the encodings of well-formed packets,
  verification accepts exactly authentic packets, and responses parse.
  C6: extraction equals a field-by-field description. C11: matching is a scan of the device rows.
  C17 to C19 and C21: the store's invariant in every run,
  no circuit is leaked, the indexes are scans, and what updates emit. C24:
  what the listener accepts and answers. C25 and C29: handles are exclusive and kept by a
  restart.
  C31 to C33: class identities are unique per queue and avoid reserved ones, planning again keeps
  them, and identities outside the plan keep theirs. C35:
  every top-level node gets a queue. C37: a diff asks for a rebuild exactly when the tree changed, and
  its changes applied to the old sites give the new ones. C40: switches of a circuit's queue discipline keep the configured dwell and hourly limit.
  C14: every enrolled circuit is evaluated within one target sweep. C3: in every run of the
  accounting loop no session outlives its deadline and the timer never sleeps past one. C13: in every interleaving
  of sink and worker a circuit is never taken from the session that installed it, except by handing it
  over. C34: the worker comes to rest with no removal waiting. C7 and C8: percentiles of merged and of
  windowed histograms are those of the sorted readings, up to the width of a bucket, and the window
  holds no reading older than ten seconds. C9: scores are at most 100, and unknown exactly without
  data. C15: the active profile always gives a score when there are enough readings. C20: a heatmap
  shows the medians of the last minutes. C10: a loaded network is a tree. C12: every node counts the
  traffic and the round-trip times of its subtree.
  C16: the commands of the multi-queue setup run in order and build the tree of queues and default
  classes. C28: a circuit's commands build it in order and its removal gives the tree from before. C26: the
  rates and quanta of classes are positive, bounded and readable. C22: commands run in order, none
  twice, all of them on success. C2: a live tree is drained from its leaves. C23: a full reload keeps all
  of the old state or commits all of the new. C39: StormGuard's table is the map of first plans,
  and a reset gives them back. C30: live migrations end within a bound on the ticks, and each circuit is
  published at its target or a reload is required. C36: pending migrations that share a queue have
  different shadow classes. C38: a circuit's addresses move together, or stay as they were when they
  can be written back, and what the bakery tracks stays in step with the kernel. C27: the limit on mapped circuits
  is kept exactly, and circuits that have addresses already come first.

  \<^bold>\<open>Bounds and fuel.\<close> No function of the model takes fuel: every loop is structural or has a measure
  (the attribute loops shrink the remaining bytes, the handle scan the distance to its end, the search
  for the smallest divisor of the class quantum the distance to a bound that suffices, and the depth of
  a live class the handles not seen yet, so it ends on a cyclic listing too).
  Runs of migration ticks are lists of ticks; a migration takes at most fourteen turns (seven stages,
  three retries in each of two, and its removal) and a tick gives sixteen of them a turn, which is the bound of C30.
  Integers keep their width; \<open>usize\<close> lengths and counters are natural numbers, which is exact as
  long as memory is smaller than the address space, and \<open>i64\<close> hashes are integers, with the range
  assumed where a text is parsed back.

  \<^bold>\<open>Not modelled.\<close> Sockets, files, JSON text, logging, clocks and threads; the printed
  form of IPv6 addresses (whether a text is an address is modelled); the daemon, its bus and web interface;
  kernel maps and eBPF programs; topology editing; third-party integrations. What \<open>tc\<close>, the file
  system and the clock do is the parameter \<open>host\<close> of the bakery's definitions, and the theorems
  hold for every host. Of the bakery's thread virtualised sites, the overlays of dynamic circuits, the
  seeding of address mappings, telemetry and the message loop. Of TreeGuard the virtualisation of links
  beyond its decisions, the circuit inventory and the actor loop.
\<close>

end
